(* ===== verification/Prelude.thy ===== *)
theory Prelude
  imports Main "HOL-Library.Word"
begin

text \<open>
  Shared vocabulary of the development: the machine integers of
  \<^verbatim>\<open>src/cpp/src_lib_common/pp_common/_.hpp\<close>, bytes and byte strings, the loop shape
  \<^verbatim>\<open>while (auto P = List.PopHead(...)) { ... }\<close> that every manager's tick uses, and
  generic facts about sorted lists and updates that the components share.
\<close>

unbundle bit_operations_syntax

named_theorems wire_simps \<open>round-trip equations of the primitive encodings\<close>
named_theorems step_defs \<open>definitions of the handlers of a component\<close>
named_theorems inv_intros \<open>preservation of a component's invariant by its operations\<close>

type_synonym byte = "8 word"
type_synonym u8 = "8 word"
type_synonym u16 = "16 word"
type_synonym u32 = "32 word"
type_synonym u64 = "64 word"
type_synonym bytes = "byte list"

text \<open>A C++ string literal as the bytes it holds.\<close>

definition bytes_of :: "string \<Rightarrow> bytes" where
  "bytes_of s = map of_char s"

lemma length_bytes_of [simp]: "length (bytes_of s) = length s"
  by (simp add: bytes_of_def)

subsection \<open>Loops that pop a list until a guard fails\<close>

text \<open>
  \<open>pop_loop pop body s\<close> is \<^verbatim>\<open>while (auto P = pop(s)) body(P)\<close>. The result
  \<open>None\<close> stands for a loop that does not end, so that the end of each loop of the source is a
  theorem and not a definition.
\<close>

partial_function (option) pop_loop ::
    "('s \<Rightarrow> ('k \<times> 's) option) \<Rightarrow> ('k \<Rightarrow> 's \<Rightarrow> 's) \<Rightarrow> 's \<Rightarrow> 's option" where
  "pop_loop pop body s =
     (case pop s of None \<Rightarrow> Some s | Some q \<Rightarrow> pop_loop pop body (body (fst q) (snd q)))"

lemma pop_loop_None [simp]: "pop s = None \<Longrightarrow> pop_loop pop body s = Some s"
  by (subst pop_loop.simps) simp

lemma pop_loop_step [simp]:
  "pop s = Some (x, s') \<Longrightarrow> pop_loop pop body s = pop_loop pop body (body x s')"
  by (subst pop_loop.simps) simp

text \<open>Total correctness: an invariant that the body keeps and a measure that it decreases.\<close>

lemma pop_loop_total:
  assumes "I s"
    and "\<And>s x s'. I s \<Longrightarrow> pop s = Some (x, s') \<Longrightarrow> I (body x s')"
    and "\<And>s x s'. I s \<Longrightarrow> pop s = Some (x, s') \<Longrightarrow> (m (body x s') :: nat) < m s"
  shows "\<exists>t. pop_loop pop body s = Some t \<and> I t \<and> pop t = None"
  using assms(1)
proof (induction "m s" arbitrary: s rule: less_induct)
  case less
  show ?case
  proof (cases "pop s")
    case None
    with less.prems show ?thesis by simp
  next
    case (Some q)
    then obtain x s' where q: "pop s = Some (x, s')" by (cases q) simp
    have "\<exists>t. pop_loop pop body (body x s') = Some t \<and> I t \<and> pop t = None"
      using less.hyps assms(2,3)[OF less.prems q] by blast
    then show ?thesis using q by simp
  qed
qed

subsection \<open>Lists sorted by a key\<close>

definition sorted_by :: "('a \<Rightarrow> 'k::linorder) \<Rightarrow> 'a list \<Rightarrow> bool" where
  "sorted_by f xs \<longleftrightarrow> sorted_wrt (<) (map f xs)"

lemma sorted_by_Nil [simp]: "sorted_by f []"
  by (simp add: sorted_by_def)

lemma sorted_by_Cons:
  "sorted_by f (x # xs) \<longleftrightarrow> (\<forall>y \<in> set xs. f x < f y) \<and> sorted_by f xs"
  by (auto simp: sorted_by_def)

lemma sorted_by_append:
  "sorted_by f (xs @ ys) \<longleftrightarrow>
     sorted_by f xs \<and> sorted_by f ys \<and> (\<forall>x \<in> set xs. \<forall>y \<in> set ys. f x < f y)"
  by (auto simp: sorted_by_def sorted_wrt_append)

lemma sorted_by_distinct: "sorted_by f xs \<Longrightarrow> distinct (map f xs)"
  by (induction xs) (auto simp: sorted_by_Cons)

lemma sorted_by_take_drop:
  "sorted_by f xs \<Longrightarrow> sorted_by f (take n xs) \<and> sorted_by f (drop n xs)"
  by (metis append_take_drop_id sorted_by_append)

lemma sorted_by_nth_less:
  "sorted_by f xs \<Longrightarrow> i < j \<Longrightarrow> j < length xs \<Longrightarrow> f (xs ! i) < f (xs ! j)"
  unfolding sorted_by_def by (drule sorted_wrt_nth_less [of _ _ i j]) auto

lemma sorted_by_inj:
  "sorted_by f xs \<Longrightarrow> x \<in> set xs \<Longrightarrow> y \<in> set xs \<Longrightarrow> f x = f y \<Longrightarrow> x = y"
  using sorted_by_distinct [of f xs] by (simp add: distinct_map inj_on_def)

lemma sorted_by_sort_key: "distinct (map f xs) \<Longrightarrow> sorted_by f (sort_key f xs)"
  by (simp add: sorted_by_def strict_sorted_iff distinct_map)

lemma sorted_by_unique:
  assumes "sorted_by f xs" "sorted_by f ys" "set xs = set ys"
  shows "xs = ys"
proof -
  have "map f xs = map f ys"
    using assms by (metis image_set sorted_by_def strict_sorted_equal)
  moreover have "inj_on f (set xs \<union> set ys)"
    using assms sorted_by_distinct by (metis distinct_map sup.idem)
  ultimately show ?thesis by (rule map_inj_on)
qed

subsection \<open>Words\<close>

lemma unat_of_nat_small:
  "n < 2 ^ LENGTH('a::len) \<Longrightarrow> unat (word_of_nat n :: 'a word) = n"
  by (simp add: unat_of_nat take_bit_nat_eq_self)

lemma unat_add_small:
  "unat x + unat y < 2 ^ LENGTH('a::len) \<Longrightarrow> unat (x + y :: 'a word) = unat x + unat y"
  by (simp add: unat_word_ariths)

lemma unat_sub_le: "y \<le> x \<Longrightarrow> unat (x - y :: 'a::len word) = unat x - unat y"
  by (simp add: unat_sub word_le_nat_alt)

lemma unat_2p: "k < LENGTH('a::len) \<Longrightarrow> unat (2 ^ k :: 'a word) = 2 ^ k"
  using unat_of_nat_small [of "2 ^ k", where 'a = 'a] by simp

lemma take_bit_of_less:
  fixes x :: "'a::len word"
  assumes "k < LENGTH('a)" "x < 2 ^ k"
  shows "take_bit k x = x"
proof -
  have "unat x < 2 ^ k" using assms by (simp add: word_less_nat_alt unat_2p)
  then show ?thesis
    by (simp add: word_unat_eq_iff unsigned_take_bit_eq take_bit_nat_eq_self)
qed

lemma take_bit_less:
  "k < LENGTH('a) \<Longrightarrow> take_bit k (x :: 'a::len word) < 2 ^ k"
  by (simp add: word_less_nat_alt unat_2p unsigned_take_bit_eq)

lemma not_bit_of_less:
  "k < LENGTH('a::len) \<Longrightarrow> (x :: 'a word) < 2 ^ k \<Longrightarrow> k \<le> n \<Longrightarrow> \<not> bit x n"
  by (metis bit_take_bit_iff not_less take_bit_of_less)

lemma word_bit_eq: "(\<And>n. n < LENGTH('a::len) \<Longrightarrow> bit (x :: 'a word) n = bit y n) \<Longrightarrow> x = y"
  by (rule bit_word_eqI) simp

end
