(* ===== verification/Xel.thy ===== *)
theory Xel
  imports Prelude
begin

text \<open>
  The interface of the \<^verbatim>\<open>xel\<close> library (\<^verbatim>\<open>core/\<close>, \<^verbatim>\<open>network/\<close>, \<^verbatim>\<open>server_arch/\<close> of a
  separate repository that is not under \<^verbatim>\<open>src/\<close>). The program calls it everywhere, so every
  definition that does takes the operations it calls as an argument: a record of functions
  over carriers the model leaves open. What the program relies on is the \<open>assumes\<close> of a
  locale per library class:
  \<^item> \<open>indexed_storage\<close>: \<^verbatim>\<open>xIndexedStorage<T>\<close>, a pool whose slots are named by ids;
  \<^item> \<open>hooked_lists\<close>: \<^verbatim>\<open>xList<Node>\<close>, the intrusive lists that share one hook of a node;
  \<^item> \<open>wire_codec\<close>: the primitive \<^verbatim>\<open>W\<close>/\<^verbatim>\<open>R\<close> of \<^verbatim>\<open>xBinaryMessage\<close>.
  Each is interpreted on a reference implementation at the end, which shows that the contract
  can be met and serves the witnesses. \<^verbatim>\<open>xTicker\<close> appears as the time of its last
  \<^verbatim>\<open>Update\<close>, an input of the model; loggers and debug prints are left out.
\<close>

subsection \<open>Indexed storage\<close>

record ('p, 'v) storage_ops =
  st_acquire :: "'p \<Rightarrow> u64 \<times> 'p" \<comment> \<open>\<^verbatim>\<open>Acquire()\<close>, 0 when the pool is full\<close>
  st_get :: "'p \<Rightarrow> u64 \<Rightarrow> 'v option" \<comment> \<open>\<^verbatim>\<open>CheckAndGet(Id)\<close>\<close>
  st_put :: "'p \<Rightarrow> u64 \<Rightarrow> 'v \<Rightarrow> 'p" \<comment> \<open>a write through \<^verbatim>\<open>Pool[Id]\<close>\<close>
  st_release :: "'p \<Rightarrow> u64 \<Rightarrow> 'p" \<comment> \<open>\<^verbatim>\<open>Release(Id)\<close>\<close>

locale indexed_storage =
  fixes st :: "('p, 'v) storage_ops" and fresh :: 'v
  assumes get_zero: "st_get st p 0 = None"
    and acquire_new: "st_acquire st p = (i, p') \<Longrightarrow> i \<noteq> 0 \<Longrightarrow> st_get st p i = None"
    and acquire_get: "st_acquire st p = (i, p') \<Longrightarrow> i \<noteq> 0 \<Longrightarrow>
      st_get st p' = (st_get st p)(i \<mapsto> fresh)"
    and acquire_full: "st_acquire st p = (0, p') \<Longrightarrow> st_get st p' = st_get st p"
    and put_get: "st_get st p i \<noteq> None \<Longrightarrow> st_get st (st_put st p i v) = (st_get st p)(i \<mapsto> v)"
    and release_get: "st_get st (st_release st p i) = (st_get st p)(i := None)"
begin

lemma put_same: "st_get st p i = Some w \<Longrightarrow> st_get st (st_put st p i v) i = Some v"
  by (simp add: put_get)

lemma put_other: "st_get st p i = Some w \<Longrightarrow> j \<noteq> i \<Longrightarrow>
    st_get st (st_put st p i v) j = st_get st p j"
  by (simp add: put_get)

lemma get_nonzero: "st_get st p i = Some v \<Longrightarrow> i \<noteq> 0"
  using get_zero by auto

lemmas storage_get = acquire_get acquire_full put_get release_get

end

subsection \<open>Intrusive lists\<close>

text \<open>
  A node with one hook is in at most one of the lists that use the hook. The carrier \<open>'l\<close> is
  the state of all the lists of one hook, \<open>'n\<close> names them and \<open>'k\<close> names the nodes.
  \<open>li_remove\<close> is \<^verbatim>\<open>Remove\<close>, and also what the destructor of a linked node does.
\<close>

record ('l, 'n, 'k) list_ops =
  li_add_tail :: "'l \<Rightarrow> 'n \<Rightarrow> 'k \<Rightarrow> 'l"
  li_grab_tail :: "'l \<Rightarrow> 'n \<Rightarrow> 'k \<Rightarrow> 'l"
  li_grab_list_tail :: "'l \<Rightarrow> 'n \<Rightarrow> 'n \<Rightarrow> 'l" \<comment> \<open>append the nodes of the second list to the first\<close>
  li_remove :: "'l \<Rightarrow> 'k \<Rightarrow> 'l"
  li_pop_head :: "'l \<Rightarrow> 'n \<Rightarrow> ('k \<Rightarrow> bool) \<Rightarrow> ('k \<times> 'l) option"

locale hooked_lists =
  fixes li :: "('l, 'n, 'k) list_ops" and items :: "'l \<Rightarrow> 'n \<Rightarrow> 'k list"
  assumes add_tail_items: "(\<And>m. x \<notin> set (items l m)) \<Longrightarrow>
      items (li_add_tail li l n x) = (items l)(n := items l n @ [x])"
    and grab_tail_items: "items (li_grab_tail li l n x) =
      (\<lambda>m. removeAll x (items l m) @ (if m = n then [x] else []))"
    and grab_list_tail_items: "n \<noteq> m \<Longrightarrow> items (li_grab_list_tail li l n m) =
      (items l)(n := items l n @ items l m, m := [])"
    and remove_items: "items (li_remove li l x) = (\<lambda>m. removeAll x (items l m))"
    and pop_head_empty: "items l n = [] \<Longrightarrow> li_pop_head li l n P = None"
    and pop_head_stop: "items l n = x # xs \<Longrightarrow> \<not> P x \<Longrightarrow> li_pop_head li l n P = None"
    and pop_head_take: "items l n = x # xs \<Longrightarrow> P x \<Longrightarrow>
      \<exists>l'. li_pop_head li l n P = Some (x, l') \<and> items l' = (items l)(n := xs)"
begin

lemma pop_head_Some:
  assumes "li_pop_head li l n P = Some (x, l')"
  shows "P x" "items l n = x # items l' n" "m \<noteq> n \<Longrightarrow> items l' m = items l m"
proof -
  obtain y ys where y: "items l n = y # ys"
    using assms pop_head_empty by (cases "items l n") force+
  then have "P y" using assms pop_head_stop by force
  then obtain l2 where "li_pop_head li l n P = Some (y, l2)" "items l2 = (items l)(n := ys)"
    using pop_head_take y by blast
  with assms y \<open>P y\<close> show "P x" "items l n = x # items l' n"
    "m \<noteq> n \<Longrightarrow> items l' m = items l m" by auto
qed

lemma pop_head_None: "li_pop_head li l n P = None \<longleftrightarrow> items l n = [] \<or> \<not> P (hd (items l n))"
  using pop_head_empty pop_head_stop pop_head_take by (cases "items l n") fastforce+

end

subsection \<open>Primitive encodings\<close>

text \<open>
  \<open>'a\<close> stands for \<^verbatim>\<open>xNetAddress\<close>. A reader returns \<open>None\<close> when it sets its error flag;
  \<open>w_str_max\<close> is the longest string the encoding carries.
\<close>

record 'a wire =
  w_bool :: "bool \<Rightarrow> bytes"
  w_u16 :: "u16 \<Rightarrow> bytes"
  w_u32 :: "u32 \<Rightarrow> bytes"
  w_u64 :: "u64 \<Rightarrow> bytes"
  w_str :: "bytes \<Rightarrow> bytes"
  w_addr :: "'a \<Rightarrow> bytes"
  r_bool :: "bytes \<Rightarrow> (bool \<times> bytes) option"
  r_u16 :: "bytes \<Rightarrow> (u16 \<times> bytes) option"
  r_u32 :: "bytes \<Rightarrow> (u32 \<times> bytes) option"
  r_u64 :: "bytes \<Rightarrow> (u64 \<times> bytes) option"
  r_str :: "bytes \<Rightarrow> (bytes \<times> bytes) option"
  r_addr :: "bytes \<Rightarrow> ('a \<times> bytes) option"
  w_str_max :: nat

locale wire_codec =
  fixes wc :: "'a wire"
  assumes rt_bool [simp]: "r_bool wc (w_bool wc b @ s) = Some (b, s)"
    and rt_u16 [simp]: "r_u16 wc (w_u16 wc x16 @ s) = Some (x16, s)"
    and rt_u32 [simp]: "r_u32 wc (w_u32 wc x32 @ s) = Some (x32, s)"
    and rt_u64 [simp]: "r_u64 wc (w_u64 wc x64 @ s) = Some (x64, s)"
    and rt_str [simp]: "length t \<le> w_str_max wc \<Longrightarrow> r_str wc (w_str wc t @ s) = Some (t, s)"
    and rt_addr [simp]: "r_addr wc (w_addr wc a @ s) = Some (a, s)"

text \<open>
  A message is a serialiser and a deserialiser that undo each other on the messages of its
  domain; this is the contract a protocol's client relies on.
\<close>

locale message_codec =
  fixes ser :: "'m \<Rightarrow> bytes" and des :: "bytes \<Rightarrow> ('m \<times> bytes) option" and ok :: "'m \<Rightarrow> bool"
  assumes round_trip: "ok m \<Longrightarrow> des (ser m @ s) = Some (m, s)"
begin

lemma round_trip_end: "ok m \<Longrightarrow> des (ser m) = Some (m, [])"
  using round_trip [of m "[]"] by simp

lemma ser_inj: "ok m \<Longrightarrow> ok n \<Longrightarrow> ser m = ser n \<Longrightarrow> m = n"
  using round_trip_end by (metis option.inject prod.inject)

end

text \<open>Reading \<^verbatim>\<open>Count\<close> items with the same reader, and the list it gives back.\<close>

fun read_many :: "nat \<Rightarrow> (bytes \<Rightarrow> ('x \<times> bytes) option) \<Rightarrow> bytes \<Rightarrow> ('x list \<times> bytes) option" where
  "read_many 0 r s = Some ([], s)"
| "read_many (Suc n) r s =
     (case r s of None \<Rightarrow> None
      | Some (x, s1) \<Rightarrow> map_option (\<lambda>(xs, s2). (x # xs, s2)) (read_many n r s1))"

lemma read_many_round_trip:
  assumes "\<And>x s. x \<in> set xs \<Longrightarrow> r (w x @ s) = Some (x, s)"
  shows "read_many (length xs) r (concat (map w xs) @ s) = Some (xs, s)"
  using assms by (induction xs) auto

lemma read_many_length: "read_many n r s = Some (xs, s') \<Longrightarrow> length xs = n"
  by (induction n arbitrary: s xs s') (auto split: option.splits)

end
