(* ===== verification/XelReference.thy ===== *)
theory XelReference
  imports Xel "HOL-Library.AList"
begin

text \<open>
  A reference implementation of the \<^verbatim>\<open>xel\<close> interface: an executable pool with a capacity and
  ids that are not reused, lists by name, and a little-endian wire format with length-prefixed
  strings. Interpreting the locales on it shows that the contracts of Xel can be met together,
  and the witnesses of the development run the program's definitions over it. No theorem about
  the program depends on it.
\<close>

subsection \<open>Pool\<close>

record 'v ref_pool =
  rp_last :: u64
  rp_cap :: nat
  rp_slots :: "(u64 \<times> 'v) list"

definition ref_acquire :: "'v \<Rightarrow> 'v ref_pool \<Rightarrow> u64 \<times> 'v ref_pool" where
  "ref_acquire v p =
     (let i = rp_last p + 1 in
      if i = 0 \<or> map_of (rp_slots p) i \<noteq> None \<or> rp_cap p \<le> length (rp_slots p) then (0, p)
      else (i, p\<lparr>rp_last := i, rp_slots := (i, v) # rp_slots p\<rparr>))"

definition ref_storage :: "'v \<Rightarrow> ('v ref_pool, 'v) storage_ops" where
  "ref_storage v = \<lparr>
     st_acquire = ref_acquire v,
     st_get = (\<lambda>p i. if i = 0 then None else map_of (rp_slots p) i),
     st_put = (\<lambda>p i w. p\<lparr>rp_slots := AList.update i w (rp_slots p)\<rparr>),
     st_release = (\<lambda>p i. p\<lparr>rp_slots := AList.delete i (rp_slots p)\<rparr>)\<rparr>"

lemmas ref_storage_defs = ref_storage_def ref_acquire_def Let_def

definition ref_pool_init :: "nat \<Rightarrow> 'v ref_pool" where
  "ref_pool_init n = \<lparr>rp_last = 0, rp_cap = n, rp_slots = []\<rparr>"

lemma ref_storage_contract: "indexed_storage (ref_storage v) v"
  by unfold_locales
    (auto simp: ref_storage_defs fun_eq_iff update_conv' delete_conv'
      split: if_splits)

subsection \<open>Lists\<close>

definition ref_lists :: "('n \<Rightarrow> 'k list, 'n, 'k) list_ops" where
  "ref_lists = \<lparr>
     li_add_tail = (\<lambda>l n x. l(n := l n @ [x])),
     li_grab_tail = (\<lambda>l n x m. removeAll x (l m) @ (if m = n then [x] else [])),
     li_grab_list_tail = (\<lambda>l n m. l(n := l n @ l m, m := [])),
     li_remove = (\<lambda>l x m. removeAll x (l m)),
     li_pop_head = (\<lambda>l n P. case l n of [] \<Rightarrow> None
       | x # xs \<Rightarrow> if P x then Some (x, l(n := xs)) else None)\<rparr>"

lemma ref_lists_contract: "hooked_lists ref_lists (\<lambda>l. l)"
  by unfold_locales (auto simp: ref_lists_def)

subsection \<open>Wire format\<close>

datatype ref_addr = RefNone u16 | RefV4 u32 u16 | RefV6 u64 u64 u16

fun put_int :: "nat \<Rightarrow> int \<Rightarrow> bytes" where
  "put_int 0 x = []"
| "put_int (Suc n) x = word_of_int (x mod 256) # put_int n (x div 256)"

fun get_int :: "nat \<Rightarrow> bytes \<Rightarrow> (int \<times> bytes) option" where
  "get_int 0 s = Some (0, s)"
| "get_int (Suc n) [] = None"
| "get_int (Suc n) (b # s) = map_option (\<lambda>(x, r). (uint b + 256 * x, r)) (get_int n s)"

definition put_le :: "nat \<Rightarrow> 'w::len word \<Rightarrow> bytes" where
  "put_le n w = put_int n (uint w)"

definition get_le :: "nat \<Rightarrow> bytes \<Rightarrow> ('w::len word \<times> bytes) option" where
  "get_le n s = map_option (\<lambda>(x, r). (word_of_int x, r)) (get_int n s)"

definition put_str :: "bytes \<Rightarrow> bytes" where
  "put_str t = put_le 4 (word_of_nat (length t) :: u32) @ t"

definition get_str :: "bytes \<Rightarrow> (bytes \<times> bytes) option" where
  "get_str s = (case get_le 4 s of None \<Rightarrow> None
     | Some (n :: u32, r) \<Rightarrow>
         if length r < unat n then None else Some (take (unat n) r, drop (unat n) r))"

fun put_addr :: "ref_addr \<Rightarrow> bytes" where
  "put_addr (RefNone p) = 0 # put_le 2 p"
| "put_addr (RefV4 a p) = 1 # put_le 4 a @ put_le 2 p"
| "put_addr (RefV6 h l p) = 2 # put_le 8 h @ put_le 8 l @ put_le 2 p"

fun get_addr :: "bytes \<Rightarrow> (ref_addr \<times> bytes) option" where
  "get_addr [] = None"
| "get_addr (t # s) =
     (if t = 0 then map_option (\<lambda>(p, s1). (RefNone p, s1)) (get_le 2 s)
      else if t = 1 then
        (case get_le 4 s of None \<Rightarrow> None
         | Some (a, s1) \<Rightarrow> map_option (\<lambda>(p, s2). (RefV4 a p, s2)) (get_le 2 s1))
      else if t = 2 then
        (case get_le 8 s of None \<Rightarrow> None
         | Some (h, s1) \<Rightarrow>
           (case get_le 8 s1 of None \<Rightarrow> None
            | Some (l, s2) \<Rightarrow> map_option (\<lambda>(p, s3). (RefV6 h l p, s3)) (get_le 2 s2)))
      else None)"

definition ref_wire :: "ref_addr wire" where
  "ref_wire = \<lparr>
     w_bool = (\<lambda>b. [if b then 1 else 0]),
     w_u16 = put_le 2, w_u32 = put_le 4, w_u64 = put_le 8, w_str = put_str, w_addr = put_addr,
     r_bool = (\<lambda>s. case s of [] \<Rightarrow> None | x # r \<Rightarrow> Some (x \<noteq> 0, r)),
     r_u16 = get_le 2, r_u32 = get_le 4, r_u64 = get_le 8, r_str = get_str, r_addr = get_addr,
     w_str_max = 4096\<rparr>"

lemma get_put_int: "0 \<le> x \<Longrightarrow> x < 256 ^ n \<Longrightarrow> get_int n (put_int n x @ s) = Some (x, s)"
proof (induction n arbitrary: x)
  case (Suc n)
  then have "0 \<le> x div 256" "x div 256 < 256 ^ n" by (auto simp: pos_imp_zdiv_nonneg_iff)
  moreover have "uint (word_of_int (x mod 256) :: byte) = x mod 256"
    by (simp add: unsigned_of_int take_bit_int_eq_self)
  ultimately show ?case using Suc.IH by simp
qed simp

lemma get_put_le [simp]:
  "get_le 2 (put_le 2 (x :: u16) @ s) = Some (x, s)"
  "get_le 4 (put_le 4 (y :: u32) @ s) = Some (y, s)"
  "get_le 8 (put_le 8 (z :: u64) @ s) = Some (z, s)"
  using unsigned_less [of x, where ?'a = int] unsigned_less [of y, where ?'a = int]
    unsigned_less [of z, where ?'a = int]
  by (simp_all add: get_le_def put_le_def get_put_int)

lemma get_put_str: "length t \<le> 4096 \<Longrightarrow> get_str (put_str t @ s) = Some (t, s)"
proof -
  assume "length t \<le> 4096"
  then have "unat (word_of_nat (length t) :: u32) = length t"
    by (simp add: unat_of_nat take_bit_nat_eq_self)
  then show ?thesis by (simp add: get_str_def put_str_def)
qed

lemma get_put_addr: "get_addr (put_addr a @ s) = Some (a, s)"
  by (cases a) simp_all

lemma ref_wire_contract: "wire_codec ref_wire"
  by unfold_locales (simp_all add: ref_wire_def get_put_str get_put_addr)

text \<open>The reference implementation meets every contract of Xel.\<close>

interpretation ref_st: indexed_storage "ref_storage v" v
  for v
  by (rule ref_storage_contract)

interpretation ref_li: hooked_lists ref_lists "\<lambda>l. l"
  by (rule ref_lists_contract)

interpretation ref_wc: wire_codec ref_wire
  by (rule ref_wire_contract)

end
