(* ===== verification/Common.thy ===== *)
theory Common
  imports XelReference
begin

text \<open>
  Helpers of \<^verbatim>\<open>src/cpp/src_lib_common/pp_common\<close>: the word splitting and joining of
  \<^verbatim>\<open>_.hpp\<close>, the string hash of \<^verbatim>\<open>base.cpp\<close>, the address classes of
  \<^verbatim>\<open>network_security.cpp\<close>, the country codes of \<^verbatim>\<open>region.cpp\<close>, and the pool of pending
  requests of \<^verbatim>\<open>request_id_pool.hpp\<close>.
\<close>

subsection \<open>Splitting and joining words\<close>

definition High32 :: "u64 \<Rightarrow> u32" where
  "High32 u = ucast (drop_bit 32 u)"

definition Low32 :: "u64 \<Rightarrow> u32" where
  "Low32 u = ucast u"

definition Make64 :: "u32 \<Rightarrow> u32 \<Rightarrow> u64" where
  "Make64 h l = push_bit 32 (ucast h) + ucast l"

definition High16 :: "u64 \<Rightarrow> u16" where
  "High16 u = ucast (drop_bit 48 u)"

definition Low48 :: "u64 \<Rightarrow> u64" where
  "Low48 u = u AND 0x0000FFFFFFFFFFFF"

definition Make64_H16L48 :: "u16 \<Rightarrow> u64 \<Rightarrow> u64" where
  "Make64_H16L48 h l = push_bit 48 (ucast h) + l"

lemma push_add_or:
  fixes a b :: "'a::len word"
  assumes "\<And>n. k \<le> n \<Longrightarrow> \<not> bit b n"
  shows "push_bit k a + b = push_bit k a OR b"
proof (rule disjunctive_add_eq_or)
  show "push_bit k a AND b = 0"
    using assms by (intro bit_word_eqI) (auto simp: bit_simps)
qed

lemma Make64_or: "Make64 h l = push_bit 32 (ucast h) OR ucast l"
  unfolding Make64_def by (rule push_add_or) (auto simp: bit_simps dest: bit_imp_le_length)

lemma High32_Make64 [simp]: "High32 (Make64 h l) = h"
  by (rule bit_word_eqI)
    (auto simp: High32_def Make64_or bit_simps dest: bit_imp_le_length)

lemma Low32_Make64 [simp]: "Low32 (Make64 h l) = l"
  by (rule bit_word_eqI) (auto simp: Low32_def Make64_or bit_simps)

lemma Make64_High32_Low32 [simp]: "Make64 (High32 u) (Low32 u) = u"
  by (rule bit_word_eqI) (auto simp: High32_def Low32_def Make64_or bit_simps not_less)

lemma Low48_take_bit: "Low48 u = take_bit 48 u"
  by (simp add: Low48_def take_bit_eq_mask mask_eq_exp_minus_1)

text \<open>The 16/48 split loses nothing, and joining is exact when the low part has 48 bits.\<close>

lemma Make64_H16L48_split: "Make64_H16L48 (High16 u) (Low48 u) = u"
proof -
  have "\<And>n. 48 \<le> n \<Longrightarrow> \<not> bit (Low48 u) n" by (simp add: Low48_take_bit bit_take_bit_iff)
  then have "Make64_H16L48 (High16 u) (Low48 u) = push_bit 48 (ucast (High16 u)) OR Low48 u"
    unfolding Make64_H16L48_def by (rule push_add_or)
  also have "\<dots> = u"
    by (rule bit_word_eqI)
      (auto simp: High16_def Low48_take_bit bit_simps not_less)
  finally show ?thesis .
qed

subsection \<open>String hash\<close>

text \<open>\<^verbatim>\<open>H * 33 + C\<close> over \<^verbatim>\<open>char\<close>, which is signed: a byte above 127 is sign-extended.\<close>

fun HashString_loop :: "u32 \<Rightarrow> bytes \<Rightarrow> u32" where
  "HashString_loop H [] = H"
| "HashString_loop H (C # S) = HashString_loop (H * 33 + scast C) S"

definition HashString :: "bytes \<Rightarrow> u32" where
  "HashString S = HashString_loop 0 S"

text \<open>The overload for a C string stops at the first zero byte.\<close>

fun HashCString_loop :: "u32 \<Rightarrow> bytes \<Rightarrow> u32" where
  "HashCString_loop H [] = H"
| "HashCString_loop H (C # S) = (if C = 0 then H else HashCString_loop (H * 33 + scast C) S)"

lemma HashCString_prefix:
  "HashCString_loop H S = HashString_loop H (takeWhile (\<lambda>C. C \<noteq> 0) S)"
  by (induction S arbitrary: H) auto

lemma HashString_append: "HashString_loop H (S @ T) = HashString_loop (HashString_loop H S) T"
  by (induction S arbitrary: H) auto

subsection \<open>Decimal print\<close>

text \<open>\<^verbatim>\<open>std::to_string\<close> of an unsigned number.\<close>

fun to_string :: "nat \<Rightarrow> bytes" where
  "to_string n = (if n < 10 then [word_of_nat (48 + n)]
     else to_string (n div 10) @ [word_of_nat (48 + n mod 10)])"

declare to_string.simps [simp del]

subsection \<open>Addresses\<close>

text \<open>
  \<open>net_addr\<close> is what the program reads of \<^verbatim>\<open>xNetAddress\<close>: its family and the raw bytes, as
  functions on the library's type \<open>'a\<close>.
\<close>

record 'a net_addr =
  na_is_v4 :: "'a \<Rightarrow> bool"
  na_is_v6 :: "'a \<Rightarrow> bool"
  na_sa4 :: "'a \<Rightarrow> nat \<Rightarrow> u8"
  na_sa6 :: "'a \<Rightarrow> nat \<Rightarrow> u8"

definition IsLocalNetAddress :: "'a net_addr \<Rightarrow> 'a \<Rightarrow> bool" where
  "IsLocalNetAddress na Addr =
     (if na_is_v4 na Addr then
        (let B0 = na_sa4 na Addr 0; B1 = na_sa4 na Addr 1 in
         if B0 = 10 then True
         else if B0 = 192 \<and> B1 = 168 then True
         else if B0 = 172 \<and> (16 \<le> B1 \<and> B1 < 31) then True
         else False)
      else if na_is_v6 na Addr then
        (let B0 = na_sa6 na Addr 0; B1 = na_sa6 na Addr 1 in
         if B0 AND 0xFE = 0xFC then True
         else if B0 = 0xFE \<and> B1 AND 0xC0 = 0x80 then True
         else False)
      else False)"

definition CountryCodeToCountryId :: "bytes \<Rightarrow> u32" where
  "CountryCodeToCountryId CC =
     (let len = length (takeWhile (\<lambda>C. C \<noteq> 0) CC) in
      if len \<noteq> 2 then 0 else push_bit 8 (scast (CC ! 0)) + scast (CC ! 1))"

end
