(* ===== verification/RequestIdPool.thy ===== *)
theory RequestIdPool
  imports Common
begin

text \<open>
  \<^verbatim>\<open>xPPC_RequestIdPool\<close> of \<^verbatim>\<open>pp_common/request_id_pool/request_id_pool.hpp\<close>: a pool of
  pending requests that remembers who asked, with a queue that expires them. The state is the
  class's; a slot's node leaves the queue when the pool releases the slot, because releasing
  destroys the node (\<open>li_remove\<close>).
\<close>

record xPPC_RequestSource =
  SourceConnectionId :: u64
  SourceRequestId :: u64

record xRequestPair =
  RequestStartTimestampMS :: u64
  RequestPairId :: u64
  Source :: xPPC_RequestSource

definition fresh_pair :: xRequestPair where
  "fresh_pair = \<lparr>RequestStartTimestampMS = 0, RequestPairId = 0,
     Source = \<lparr>SourceConnectionId = 0, SourceRequestId = 0\<rparr>\<rparr>"

record ('p, 'l) request_pool =
  rp_Ticker :: u64
  rp_TimeoutMS :: u64
  RequestPairPool :: 'p
  RequestPairTimeoutQueue :: 'l

type_synonym 'p pair_storage = "('p, xRequestPair) storage_ops"
type_synonym 'l pair_lists = "('l, unit, u64) list_ops"

definition Acquire ::
    "'p pair_storage \<Rightarrow> 'l pair_lists \<Rightarrow> ('p, 'l) request_pool \<Rightarrow> xPPC_RequestSource \<Rightarrow>
     u64 \<times> ('p, 'l) request_pool" where
  "Acquire st li s src =
     (let (RPId, p) = st_acquire st (RequestPairPool s) in
      if RPId \<noteq> 0 then
        (RPId, s\<lparr>RequestPairPool := st_put st p RPId
                  \<lparr>RequestStartTimestampMS = rp_Ticker s, RequestPairId = RPId, Source = src\<rparr>,
                RequestPairTimeoutQueue :=
                  li_add_tail li (RequestPairTimeoutQueue s) () RPId\<rparr>)
      else (RPId, s\<lparr>RequestPairPool := p\<rparr>))"

definition AcquireWithTickerUpdate ::
    "'p pair_storage \<Rightarrow> 'l pair_lists \<Rightarrow> u64 \<Rightarrow> ('p, 'l) request_pool \<Rightarrow> xPPC_RequestSource \<Rightarrow>
     u64 \<times> ('p, 'l) request_pool" where
  "AcquireWithTickerUpdate st li NowMS s src = Acquire st li (s\<lparr>rp_Ticker := NowMS\<rparr>) src"

text \<open>\<^verbatim>\<open>RequestPairPool.Release(Id)\<close> with the destruction of the slot's node.\<close>

definition ReleasePair ::
    "'p pair_storage \<Rightarrow> 'l pair_lists \<Rightarrow> u64 \<Rightarrow> ('p, 'l) request_pool \<Rightarrow> ('p, 'l) request_pool" where
  "ReleasePair st li i s =
     s\<lparr>RequestPairPool := st_release st (RequestPairPool s) i,
       RequestPairTimeoutQueue := li_remove li (RequestPairTimeoutQueue s) i\<rparr>"

definition CheckAndRelease ::
    "'p pair_storage \<Rightarrow> 'l pair_lists \<Rightarrow> ('p, 'l) request_pool \<Rightarrow> u64 \<Rightarrow>
     xPPC_RequestSource option \<times> ('p, 'l) request_pool" where
  "CheckAndRelease st li s i =
     (case st_get st (RequestPairPool s) i of
        None \<Rightarrow> (None, s)
      | Some PRP \<Rightarrow> (Some (Source PRP), ReleasePair st li i s))"

definition pop_timeout ::
    "'p pair_storage \<Rightarrow> 'l pair_lists \<Rightarrow> u64 \<Rightarrow> ('p, 'l) request_pool \<Rightarrow>
     (u64 \<times> ('p, 'l) request_pool) option" where
  "pop_timeout st li KP s =
     map_option (\<lambda>(x, q). (x, s\<lparr>RequestPairTimeoutQueue := q\<rparr>))
       (li_pop_head li (RequestPairTimeoutQueue s) ()
         (\<lambda>i. case st_get st (RequestPairPool s) i of
                Some N \<Rightarrow> RequestStartTimestampMS N < KP | None \<Rightarrow> False))"

definition release_node ::
    "'p pair_storage \<Rightarrow> 'l pair_lists \<Rightarrow> u64 \<Rightarrow> ('p, 'l) request_pool \<Rightarrow> ('p, 'l) request_pool" where
  "release_node st li x s =
     (case st_get st (RequestPairPool s) x of
        Some P \<Rightarrow> ReleasePair st li (RequestPairId P) s | None \<Rightarrow> s)"

definition ReleaseTimeoutNodes ::
    "'p pair_storage \<Rightarrow> 'l pair_lists \<Rightarrow> ('p, 'l) request_pool \<Rightarrow> ('p, 'l) request_pool option" where
  "ReleaseTimeoutNodes st li s =
     pop_loop (pop_timeout st li (rp_Ticker s - rp_TimeoutMS s)) (release_node st li) s"

definition Tick ::
    "'p pair_storage \<Rightarrow> 'l pair_lists \<Rightarrow> u64 \<Rightarrow> ('p, 'l) request_pool \<Rightarrow> ('p, 'l) request_pool option" where
  "Tick st li NowMS s = ReleaseTimeoutNodes st li (s\<lparr>rp_Ticker := NowMS\<rparr>)"

locale request_pool_env =
  indexed_storage st fresh_pair + hooked_lists li items
  for st :: "'p pair_storage" and li :: "'l pair_lists" and items :: "'l \<Rightarrow> unit \<Rightarrow> u64 list"

text \<open>
  The invariant: the queue holds exactly the pending requests, in the order of their start
  times, none of which lies in the future.
\<close>

definition pool_inv ::
    "'p pair_storage \<Rightarrow> ('l \<Rightarrow> unit \<Rightarrow> u64 list) \<Rightarrow> ('p, 'l) request_pool \<Rightarrow> bool" where
  "pool_inv st items s \<longleftrightarrow>
     (let q = items (RequestPairTimeoutQueue s) (); get = st_get st (RequestPairPool s) in
      distinct q \<and> set q = dom get \<and>
      sorted (map (\<lambda>i. RequestStartTimestampMS (the (get i))) q) \<and>
      (\<forall>i N. get i = Some N \<longrightarrow>
         RequestPairId N = i \<and> RequestStartTimestampMS N \<le> rp_Ticker s))"

text \<open>The pending requests that survive an expiry with limit \<open>KP\<close>.\<close>

definition live_pairs ::
    "u64 \<Rightarrow> (u64 \<Rightarrow> xRequestPair option) \<Rightarrow> u64 \<Rightarrow> xRequestPair option" where
  "live_pairs KP g = (\<lambda>i. case g i of
     Some N \<Rightarrow> if RequestStartTimestampMS N < KP then None else Some N | None \<Rightarrow> None)"

context request_pool_env begin

lemma Acquire_inv:
  assumes "pool_inv st items s" "Acquire st li s src = (i, t)"
  shows "pool_inv st items t"
proof -
  obtain j p where a: "st_acquire st (RequestPairPool s) = (j, p)" by fastforce
  show ?thesis
  proof (cases "j = 0")
    case True
    then show ?thesis using assms a acquire_full [of "RequestPairPool s" p]
      by (auto simp: Acquire_def pool_inv_def Let_def)
  next
    case False
    then have new: "st_get st (RequestPairPool s) j = None" and
      get: "st_get st p = (st_get st (RequestPairPool s))(j \<mapsto> fresh_pair)"
      using a acquire_new acquire_get by auto
    let ?q = "items (RequestPairTimeoutQueue s) ()"
    have fresh: "j \<notin> set ?q" using assms(1) new by (auto simp: pool_inv_def Let_def)
    then have items: "items (li_add_tail li (RequestPairTimeoutQueue s) () j) () = ?q @ [j]"
      by (subst add_tail_items) auto
    let ?g = "st_get st (RequestPairPool s)"
    have keep: "map (\<lambda>i. RequestStartTimestampMS (the ((?g(j \<mapsto> v)) i))) ?q =
        map (\<lambda>i. RequestStartTimestampMS (the (?g i))) ?q" for v
      using fresh by auto
    have old: "distinct ?q" "set ?q = dom ?g"
      "sorted (map (\<lambda>i. RequestStartTimestampMS (the (?g i))) ?q)"
      "\<And>i N. ?g i = Some N \<Longrightarrow> RequestPairId N = i \<and> RequestStartTimestampMS N \<le> rp_Ticker s"
      using assms(1) by (auto simp: pool_inv_def Let_def)
    let ?N = "\<lparr>RequestStartTimestampMS = rp_Ticker s, RequestPairId = j, Source = src\<rparr>"
    have t: "st_get st (RequestPairPool t) = ?g(j \<mapsto> ?N)"
      "items (RequestPairTimeoutQueue t) () = ?q @ [j]" "rp_Ticker t = rp_Ticker s"
      using assms(2) a False items get by (auto simp: Acquire_def put_get)
    have "RequestStartTimestampMS (the (?g i)) \<le> rp_Ticker s" if "i \<in> set ?q" for i
      using that old(2,4) by auto
    then show ?thesis
      unfolding pool_inv_def Let_def t using old(1-3) old(4) fresh
      by (simp add: sorted_append keep del: fun_upd_apply) (auto simp: fun_upd_apply)
  qed
qed

lemma ReleasePair_inv:
  assumes "pool_inv st items s"
  shows "pool_inv st items (ReleasePair st li i s)"
proof -
  have keep: "map (\<lambda>j. RequestStartTimestampMS (the (if j = i then None else g j))) (filter ((\<noteq>) i) q) =
      map (\<lambda>j. RequestStartTimestampMS (the (g j))) (filter ((\<noteq>) i) q)" for g q
    by auto
  show ?thesis using assms unfolding pool_inv_def ReleasePair_def Let_def
    by (auto simp: release_get remove_items removeAll_filter_not_eq keep intro: sorted_filter)
qed

lemma CheckAndRelease_inv:
  "pool_inv st items s \<Longrightarrow> pool_inv st items (snd (CheckAndRelease st li s i))"
  by (auto simp: CheckAndRelease_def ReleasePair_inv split: option.splits)

lemma pop_timeoutD:
  assumes "pop_timeout st li KP s = Some (x, s')" "pool_inv st items s"
  obtains N where "st_get st (RequestPairPool s) x = Some N" "RequestStartTimestampMS N < KP"
    "RequestPairId N = x" "release_node st li x s' = ReleasePair st li x s'"
    "RequestPairPool s' = RequestPairPool s"
    "items (RequestPairTimeoutQueue s) () = x # items (RequestPairTimeoutQueue s') ()"
    "rp_Ticker s' = rp_Ticker s" "rp_TimeoutMS s' = rp_TimeoutMS s"
proof -
  obtain q where q: "s' = s\<lparr>RequestPairTimeoutQueue := q\<rparr>"
    "li_pop_head li (RequestPairTimeoutQueue s) ()
       (\<lambda>i. case st_get st (RequestPairPool s) i of
          Some N \<Rightarrow> RequestStartTimestampMS N < KP | None \<Rightarrow> False) = Some (x, q)"
    using assms(1) by (auto simp: pop_timeout_def)
  note head = pop_head_Some(1,2) [OF q(2)]
  then obtain N where "st_get st (RequestPairPool s) x = Some N" "RequestStartTimestampMS N < KP"
    by (auto split: option.splits)
  moreover from this have "RequestPairId N = x"
    using assms(2) by (auto simp: pool_inv_def Let_def)
  ultimately show ?thesis using that head(2) q(1) by (auto simp: release_node_def)
qed

lemma ReleaseTimeoutNodes_spec:
  assumes inv: "pool_inv st items s" and kp: "KP = rp_Ticker s - rp_TimeoutMS s"
  shows "\<exists>t. ReleaseTimeoutNodes st li s = Some t \<and> pool_inv st items t \<and>
    rp_Ticker t = rp_Ticker s \<and> rp_TimeoutMS t = rp_TimeoutMS s \<and>
    st_get st (RequestPairPool t) = live_pairs KP (st_get st (RequestPairPool s))"
proof -
  let ?g = "\<lambda>t. st_get st (RequestPairPool t)"
  let ?I = "\<lambda>t. pool_inv st items t \<and> rp_Ticker t = rp_Ticker s \<and> rp_TimeoutMS t = rp_TimeoutMS s \<and>
    live_pairs KP (?g t) = live_pairs KP (?g s)"
  let ?pop = "pop_timeout st li KP"
  have step: "?I (release_node st li x u') \<and>
      length (items (RequestPairTimeoutQueue (release_node st li x u')) ()) <
        length (items (RequestPairTimeoutQueue u) ())"
    if inv_u: "?I u" and pop_u: "?pop u = Some (x, u')" for u x u'
  proof -
    obtain N where N: "?g u x = Some N" "RequestStartTimestampMS N < KP"
      "release_node st li x u' = ReleasePair st li x u'" "RequestPairPool u' = RequestPairPool u"
      "items (RequestPairTimeoutQueue u) () = x # items (RequestPairTimeoutQueue u') ()"
      "rp_Ticker u' = rp_Ticker u" "rp_TimeoutMS u' = rp_TimeoutMS u"
      using pop_timeoutD [OF pop_u] inv_u by metis
    have "x \<notin> set (items (RequestPairTimeoutQueue u') ())"
      using inv_u N(5) by (auto simp: pool_inv_def Let_def)
    then have same: "items (RequestPairTimeoutQueue (ReleasePair st li x u')) () =
        items (RequestPairTimeoutQueue (ReleasePair st li x u)) ()"
      using N(5) by (auto simp: ReleasePair_def remove_items)
    have "pool_inv st items (ReleasePair st li x u') =
        pool_inv st items (ReleasePair st li x u)"
      using N(4,6) same by (simp add: pool_inv_def ReleasePair_def Let_def)
    moreover have "live_pairs KP (?g (ReleasePair st li x u')) = live_pairs KP (?g u)"
      using N(1,2,4) by (auto simp: ReleasePair_def release_get live_pairs_def)
    moreover have "length (items (RequestPairTimeoutQueue (ReleasePair st li x u')) ()) <
        length (items (RequestPairTimeoutQueue u) ())"
      using N(5) by (simp add: ReleasePair_def remove_items removeAll_filter_not_eq le_imp_less_Suc)
    ultimately show ?thesis using inv_u N(3,6,7) ReleasePair_inv [of u x]
      by (simp add: ReleasePair_def)
  qed
  have start: "?I s" using inv by simp
  obtain t where t: "pop_loop ?pop (release_node st li) s = Some t" "?I t" "?pop t = None"
    using pop_loop_total [of ?I s ?pop "release_node st li"
        "\<lambda>u. length (items (RequestPairTimeoutQueue u) ())"] start step by blast
  have live: "\<not> RequestStartTimestampMS N < KP" if "?g t i = Some N" for i N
  proof -
    let ?q = "items (RequestPairTimeoutQueue t) ()"
    let ?ts = "\<lambda>i. RequestStartTimestampMS (the (?g t i))"
    have "i \<in> set ?q" using t(2) that by (auto simp: pool_inv_def Let_def)
    then obtain h r where q: "?q = h # r" by (cases ?q) auto
    moreover have "set ?q = dom (?g t)" using t(2) by (simp add: pool_inv_def Let_def)
    ultimately obtain M where M: "?g t h = Some M" by (metis domD list.set_intros(1))
    have "\<not> RequestStartTimestampMS M < KP"
      using t(3) q M by (auto simp: pop_timeout_def pop_head_None)
    moreover have "?ts h \<le> ?ts i"
      using t(2) q \<open>i \<in> set ?q\<close> by (auto simp: pool_inv_def Let_def)
    ultimately show ?thesis using M that by auto
  qed
  then have "live_pairs KP (?g t) = ?g t"
    by (auto simp: live_pairs_def fun_eq_iff split: option.splits)
  with t show ?thesis by (auto simp: ReleaseTimeoutNodes_def kp)
qed

lemma Tick_spec:
  assumes "pool_inv st items s" "rp_Ticker s \<le> now"
  shows "\<exists>t. Tick st li now s = Some t \<and> pool_inv st items t \<and> rp_Ticker t = now \<and>
    st_get st (RequestPairPool t) =
      live_pairs (now - rp_TimeoutMS s) (st_get st (RequestPairPool s))"
proof -
  have "pool_inv st items (s\<lparr>rp_Ticker := now\<rparr>)"
    using assms by (auto simp: pool_inv_def Let_def dest: order_trans)
  from ReleaseTimeoutNodes_spec [OF this refl] show ?thesis by (auto simp: Tick_def)
qed

lemma Acquire_then_release:
  assumes "pool_inv st items s" "Acquire st li s src = (i, t)" "i \<noteq> 0"
  shows "\<exists>u. CheckAndRelease st li t i = (Some src, u) \<and> CheckAndRelease st li u i = (None, u) \<and>
    st_get st (RequestPairPool u) = st_get st (RequestPairPool s)"
proof -
  obtain p where a: "st_acquire st (RequestPairPool s) = (i, p)"
    using assms(2,3) by (auto simp: Acquire_def Let_def split: prod.splits if_splits)
  have get: "st_get st p = (st_get st (RequestPairPool s))(i \<mapsto> fresh_pair)"
    "st_get st (RequestPairPool s) i = None"
    using acquire_get acquire_new a assms(3) by auto
  show ?thesis using assms(2,3) a get
    by (auto simp: Acquire_def CheckAndRelease_def ReleasePair_def put_get release_get
        fun_upd_idem)
qed

end

interpretation ref_requests: request_pool_env "ref_storage fresh_pair" ref_lists "\<lambda>l. l"
  by (intro request_pool_env.intro ref_storage_contract ref_lists_contract)

subsection \<open>Properties\<close>

text \<open>
  a tick of the request pool always ends, and afterwards exactly the requests remain that are
  not older than the timeout (in the 64-bit arithmetic of \<^verbatim>\<open>Ticker() - TimeoutMS\<close>), with the queue
  and the pool still in step.
\<close>

theorem request_pool_tick:
  assumes "request_pool_env st li items" "pool_inv st items s" "rp_Ticker s \<le> now"
  shows "\<exists>t. Tick st li now s = Some t \<and> pool_inv st items t \<and> rp_Ticker t = now \<and>
    (\<forall>i. st_get st (RequestPairPool t) i =
       (case st_get st (RequestPairPool s) i of None \<Rightarrow> None
        | Some N \<Rightarrow> if RequestStartTimestampMS N < now - rp_TimeoutMS s then None else Some N))"
proof -
  obtain t where "Tick st li now s = Some t" "pool_inv st items t" "rp_Ticker t = now"
    "st_get st (RequestPairPool t) = live_pairs (now - rp_TimeoutMS s) (st_get st (RequestPairPool s))"
    using request_pool_env.Tick_spec [OF assms] by blast
  then show ?thesis by (intro exI [of _ t]) (auto simp: live_pairs_def split: option.split)
qed

definition demo_requests :: "(xRequestPair ref_pool, unit \<Rightarrow> u64 list) request_pool" where
  "demo_requests = snd (Acquire (ref_storage fresh_pair) ref_lists
     \<lparr>rp_Ticker = 1000, rp_TimeoutMS = 500, RequestPairPool = ref_pool_init 4,
      RequestPairTimeoutQueue = (\<lambda>_. [])\<rparr>
     \<lparr>SourceConnectionId = 5, SourceRequestId = 6\<rparr>)"

lemma demo_requests_inv: "pool_inv (ref_storage fresh_pair) (\<lambda>l. l) demo_requests"
proof -
  have "pool_inv (ref_storage fresh_pair) (\<lambda>l. l)
      \<lparr>rp_Ticker = 1000, rp_TimeoutMS = 500, RequestPairPool = ref_pool_init 4,
       RequestPairTimeoutQueue = (\<lambda>_. [])\<rparr>"
    by (auto simp: pool_inv_def Let_def ref_storage_defs ref_pool_init_def dom_def)
  from ref_requests.Acquire_inv [OF this prod.collapse [symmetric]] show ?thesis
    by (simp add: demo_requests_def)
qed

theorem request_pool_tick_witness:
  "\<exists>t. Tick (ref_storage fresh_pair) ref_lists 1501 demo_requests = Some t \<and>
     st_get (ref_storage fresh_pair) (RequestPairPool demo_requests) 1 \<noteq> None \<and>
     st_get (ref_storage fresh_pair) (RequestPairPool t) 1 = None"
proof -
  have n: "rp_Ticker demo_requests = 1000" "rp_TimeoutMS demo_requests = 500"
    "st_get (ref_storage fresh_pair) (RequestPairPool demo_requests) 1 =
      Some \<lparr>RequestStartTimestampMS = 1000, RequestPairId = 1,
            Source = \<lparr>SourceConnectionId = 5, SourceRequestId = 6\<rparr>\<rparr>"
    by code_simp+
  from request_pool_tick [OF ref_requests.request_pool_env_axioms demo_requests_inv, of 1501] n
  show ?thesis by auto
qed

text \<open>
  a request that was given an id is handed back once, to the source that made it: the first
  \<^verbatim>\<open>CheckAndRelease\<close> of the id returns the source, the second finds nothing, and the other pending
  requests are as before.
\<close>

theorem request_handed_back_once:
  assumes "request_pool_env st li items" "pool_inv st items s" "Acquire st li s src = (i, t)" "i \<noteq> 0"
  shows "\<exists>u. CheckAndRelease st li t i = (Some src, u) \<and> CheckAndRelease st li u i = (None, u) \<and>
    st_get st (RequestPairPool u) = st_get st (RequestPairPool s) \<and> pool_inv st items u"
proof -
  obtain u where u: "CheckAndRelease st li t i = (Some src, u)" "CheckAndRelease st li u i = (None, u)"
    "st_get st (RequestPairPool u) = st_get st (RequestPairPool s)"
    using request_pool_env.Acquire_then_release [OF assms] by blast
  moreover have "pool_inv st items u"
    using request_pool_env.CheckAndRelease_inv [OF assms(1)
        request_pool_env.Acquire_inv [OF assms(1-3)], of i] u(1) by simp
  ultimately show ?thesis by blast
qed

theorem request_handed_back_once_witness:
  "fst (CheckAndRelease (ref_storage fresh_pair) ref_lists
     (snd (Acquire (ref_storage fresh_pair) ref_lists demo_requests
        \<lparr>SourceConnectionId = 8, SourceRequestId = 9\<rparr>)) 2) =
   Some \<lparr>SourceConnectionId = 8, SourceRequestId = 9\<rparr>"
proof -
  let ?src = "\<lparr>SourceConnectionId = 8, SourceRequestId = 9\<rparr>"
  have "fst (Acquire (ref_storage fresh_pair) ref_lists demo_requests ?src) = 2" by code_simp
  then have "Acquire (ref_storage fresh_pair) ref_lists demo_requests ?src =
      (2, snd (Acquire (ref_storage fresh_pair) ref_lists demo_requests ?src))"
    by (metis prod.collapse)
  from request_handed_back_once [OF ref_requests.request_pool_env_axioms demo_requests_inv this]
  show ?thesis by auto
qed

subsection \<open>The pool as a map\<close>

text \<open>
  Any sequence of operations behind \<^verbatim>\<open>Init\<close>, and beside it the map an observer keeps who sees the calls and their
  results alone: an id that was given out stands for its time and its source until it is asked for, or until a tick
  finds its time before \<open>now - TimeoutMS\<close>.
\<close>

definition expire_requests :: "u64 \<Rightarrow> (u64 \<rightharpoonup> u64 \<times> xPPC_RequestSource) \<Rightarrow> (u64 \<rightharpoonup> u64 \<times> xPPC_RequestSource)" where
  "expire_requests KP m = (\<lambda>i. case m i of None \<Rightarrow> None | Some (b, src) \<Rightarrow> if b < KP then None else Some (b, src))"

inductive rp_run :: "'p pair_storage \<Rightarrow> 'l pair_lists \<Rightarrow> ('p, 'l) request_pool \<Rightarrow> ('p, 'l) request_pool \<Rightarrow>
    (u64 \<rightharpoonup> u64 \<times> xPPC_RequestSource) \<Rightarrow> bool" for st li s0 where
  start: "rp_run st li s0 s0 Map.empty"
| acquire: "rp_run st li s0 s m \<Longrightarrow> Acquire st li s src = (i, t) \<Longrightarrow>
    rp_run st li s0 t (if i = 0 then m else m(i \<mapsto> (rp_Ticker s, src)))"
| acquire_now: "rp_run st li s0 s m \<Longrightarrow> rp_Ticker s \<le> now \<Longrightarrow> AcquireWithTickerUpdate st li now s src = (i, t) \<Longrightarrow>
    rp_run st li s0 t (if i = 0 then m else m(i \<mapsto> (now, src)))"
| check: "rp_run st li s0 s m \<Longrightarrow> CheckAndRelease st li s i = (r, t) \<Longrightarrow> rp_run st li s0 t (m(i := None))"
| tick: "rp_run st li s0 s m \<Longrightarrow> rp_Ticker s \<le> now \<Longrightarrow> Tick st li now s = Some t \<Longrightarrow>
    rp_run st li s0 t (expire_requests (now - rp_TimeoutMS s) m)"

definition rp_empty :: "'p pair_storage \<Rightarrow> ('l \<Rightarrow> unit \<Rightarrow> u64 list) \<Rightarrow> ('p, 'l) request_pool \<Rightarrow> bool" where
  "rp_empty st items s \<longleftrightarrow> (\<forall>i. st_get st (RequestPairPool s) i = None) \<and> items (RequestPairTimeoutQueue s) () = []"

definition pending_requests :: "'p pair_storage \<Rightarrow> ('p, 'l) request_pool \<Rightarrow> (u64 \<rightharpoonup> u64 \<times> xPPC_RequestSource)" where
  "pending_requests st s = map_option (\<lambda>N. (RequestStartTimestampMS N, Source N)) \<circ> st_get st (RequestPairPool s)"

context request_pool_env begin

lemma later_inv: "pool_inv st items s \<Longrightarrow> rp_Ticker s \<le> now \<Longrightarrow> pool_inv st items (s\<lparr>rp_Ticker := now\<rparr>)"
  by (auto simp: pool_inv_def Let_def dest: order_trans)

lemma pending_requests_later: "pending_requests st (s\<lparr>rp_Ticker := now\<rparr>) = pending_requests st s"
  by (simp add: pending_requests_def)

lemma Acquire_pending:
  assumes "Acquire st li s src = (i, t)"
  shows "pending_requests st t = (if i = 0 then pending_requests st s else (pending_requests st s)(i \<mapsto> (rp_Ticker s, src)))"
    "i \<noteq> 0 \<Longrightarrow> pending_requests st s i = None"
proof -
  obtain j p where a: "st_acquire st (RequestPairPool s) = (j, p)" by fastforce
  show "pending_requests st t = (if i = 0 then pending_requests st s else (pending_requests st s)(i \<mapsto> (rp_Ticker s, src)))"
  proof (cases "j = 0")
    case True
    then show ?thesis using assms a acquire_full [of "RequestPairPool s" p] by (auto simp: Acquire_def pending_requests_def)
  next
    case False
    then show ?thesis using assms a acquire_get [OF a] by (auto simp: Acquire_def pending_requests_def put_get)
  qed
  show "i \<noteq> 0 \<Longrightarrow> pending_requests st s i = None"
    using assms a acquire_new [OF a] by (auto simp: Acquire_def pending_requests_def split: if_splits)
qed

lemma CheckAndRelease_pending:
  assumes "CheckAndRelease st li s i = (r, t)"
  shows "r = map_option snd (pending_requests st s i)" "pending_requests st t = (pending_requests st s)(i := None)"
  using assms by (auto simp: CheckAndRelease_def ReleasePair_def pending_requests_def release_get fun_eq_iff split: option.splits)

lemma Tick_pending:
  assumes "pool_inv st items s" "rp_Ticker s \<le> now"
  obtains t where "Tick st li now s = Some t" "pool_inv st items t"
    "pending_requests st t = expire_requests (now - rp_TimeoutMS s) (pending_requests st s)"
proof -
  obtain t where t: "Tick st li now s = Some t" "pool_inv st items t"
    "st_get st (RequestPairPool t) = live_pairs (now - rp_TimeoutMS s) (st_get st (RequestPairPool s))"
    using Tick_spec [OF assms] by blast
  from t(3) have "pending_requests st t = expire_requests (now - rp_TimeoutMS s) (pending_requests st s)"
    by (auto simp: pending_requests_def expire_requests_def live_pairs_def fun_eq_iff split: option.split)
  then show ?thesis by (rule that [OF t(1,2)])
qed

lemma rp_run_pending: "rp_run st li s0 s m \<Longrightarrow> rp_empty st items s0 \<Longrightarrow> pool_inv st items s \<and> pending_requests st s = m"
proof (induction rule: rp_run.induct)
  case start
  then show ?case by (auto simp: rp_empty_def pool_inv_def pending_requests_def Let_def dom_def)
next
  case (acquire s m src i t)
  then show ?case using Acquire_inv [of s src i t] Acquire_pending(1) [of s src i t] by simp
next
  case (acquire_now s m now src i t)
  then have "pool_inv st items (s\<lparr>rp_Ticker := now\<rparr>)" by (simp add: later_inv)
  moreover have "pending_requests st (s\<lparr>rp_Ticker := now\<rparr>) = m" using acquire_now.IH acquire_now.prems by (simp add: pending_requests_later)
  ultimately show ?case using acquire_now(3)
      Acquire_inv [of "s\<lparr>rp_Ticker := now\<rparr>" src i t] Acquire_pending(1) [of "s\<lparr>rp_Ticker := now\<rparr>" src i t]
    by (simp add: AcquireWithTickerUpdate_def)
next
  case (check s m i r t)
  then show ?case using CheckAndRelease_inv [of s i] CheckAndRelease_pending(2) [of s i r t] by simp
next
  case (tick s m now t)
  then show ?case using Tick_pending [of s now] by (metis option.inject)
qed

end

text \<open>
  C37: The pool of pending requests is a map from ids to the sources that asked. After any run of its operations, with a
  clock that does not go back, an id is handed back to the source it was given to, once and only while it has not
  expired, and any other id is refused; a new id is never one that still stands for a request; and a tick always
  ends, and leaves exactly the requests whose time is not before \<open>now - TimeoutMS\<close> (in 64 bits).
\<close>

theorem request_pool_refines:
  assumes "request_pool_env st li items" "rp_empty st items s0" "rp_run st li s0 s m"
  shows "(\<forall>i. fst (CheckAndRelease st li s i) = map_option snd (m i)) \<and>
    (\<forall>src i t. Acquire st li s src = (i, t) \<and> i \<noteq> 0 \<longrightarrow> m i = None) \<and>
    (\<forall>now. rp_Ticker s \<le> now \<longrightarrow> (\<exists>t. Tick st li now s = Some t \<and>
      (\<forall>i. fst (CheckAndRelease st li t i) = map_option snd (expire_requests (now - rp_TimeoutMS s) m i))))"
proof (intro conjI allI impI)
  note run = request_pool_env.rp_run_pending [OF assms(1,3,2)]
  show "fst (CheckAndRelease st li s i) = map_option snd (m i)" for i
    using request_pool_env.CheckAndRelease_pending(1) [OF assms(1) surjective_pairing] run by simp
  show "m i = None" if "Acquire st li s src = (i, t) \<and> i \<noteq> 0" for src i t
    using request_pool_env.Acquire_pending(2) [OF assms(1), of s src i t] that run by simp
  fix now assume "rp_Ticker s \<le> now"
  then obtain t where "Tick st li now s = Some t" "pending_requests st t = expire_requests (now - rp_TimeoutMS s) m"
    using request_pool_env.Tick_pending [OF assms(1)] run by metis
  then show "\<exists>t. Tick st li now s = Some t \<and>
      (\<forall>i. fst (CheckAndRelease st li t i) = map_option snd (expire_requests (now - rp_TimeoutMS s) m i))"
    using request_pool_env.CheckAndRelease_pending(1) [OF assms(1) surjective_pairing] by simp
qed

definition demo_pool0 :: "(xRequestPair ref_pool, unit \<Rightarrow> u64 list) request_pool" where
  "demo_pool0 = \<lparr>rp_Ticker = 1000, rp_TimeoutMS = 500, RequestPairPool = ref_pool_init 4, RequestPairTimeoutQueue = (\<lambda>_. [])\<rparr>"

theorem request_pool_refines_witness:
  "fst (CheckAndRelease (ref_storage fresh_pair) ref_lists demo_requests 1) = Some \<lparr>SourceConnectionId = 5, SourceRequestId = 6\<rparr> \<and>
   fst (CheckAndRelease (ref_storage fresh_pair) ref_lists demo_requests 2) = None \<and>
   (\<exists>t. Tick (ref_storage fresh_pair) ref_lists 1501 demo_requests = Some t \<and>
     fst (CheckAndRelease (ref_storage fresh_pair) ref_lists t 1) = None)"
proof -
  let ?st = "ref_storage fresh_pair" and ?src = "\<lparr>SourceConnectionId = 5, SourceRequestId = 6\<rparr>"
  have e: "rp_empty ?st (\<lambda>l. l) demo_pool0"
    by (simp add: rp_empty_def demo_pool0_def ref_storage_defs ref_pool_init_def)
  have i: "fst (Acquire ?st ref_lists demo_pool0 ?src) = 1" "rp_Ticker demo_pool0 = 1000" by code_simp+
  have d: "rp_Ticker demo_requests \<le> 1501" "rp_TimeoutMS demo_requests = 500" by code_simp+
  have "snd (Acquire ?st ref_lists demo_pool0 ?src) = demo_requests" by (simp add: demo_requests_def demo_pool0_def)
  then have "Acquire ?st ref_lists demo_pool0 ?src = (1, demo_requests)" using i(1) by (metis prod.collapse)
  from rp_run.acquire [OF rp_run.start this]
  have r: "rp_run ?st ref_lists demo_pool0 demo_requests [1 \<mapsto> (1000, ?src)]" using i(2) by simp
  from request_pool_refines [OF ref_requests.request_pool_env_axioms e r] d show ?thesis
    by (auto simp: expire_requests_def)
qed

end
