(* ===== verification/RelayMessages.thy ===== *)
theory RelayMessages
  imports Common "HOL-Library.Monad_Syntax"
begin

text \<open>
  The messages between relay servers, devices and proxy access servers
  (\<^verbatim>\<open>src/cpp/src_lib_protocol/pp_protocol/device_relay\<close>, \<^verbatim>\<open>proxy_relay\<close>). Each struct is a
  record, \<^verbatim>\<open>SerializeMembers\<close> is \<open>ser_\<close>, \<^verbatim>\<open>DeserializeMembers\<close> is \<open>des_\<close> (\<open>None\<close> when the
  reader ends with its error flag set), and \<open>ok_\<close> is the set of messages whose strings the
  encoding can carry. The overflow of the packet buffer is left to the caller.
\<close>

subsection \<open>Relay server to device\<close>

text \<open>
  \<^verbatim>\<open>pp_protocol/device_relay\<close>: the messages of the control and data streams between a relay
  server and its devices.
\<close>

record 'a xTR_CreateConnection =
  RelaySideConnectionId :: u64
  TargetAddress :: 'a

definition ser_xTR_CreateConnection :: "'a wire \<Rightarrow> 'a xTR_CreateConnection \<Rightarrow> bytes" where
  "ser_xTR_CreateConnection wc m =
     w_u64 wc (xTR_CreateConnection.RelaySideConnectionId m) @
     w_addr wc (xTR_CreateConnection.TargetAddress m)"

definition des_xTR_CreateConnection :: "'a wire \<Rightarrow> bytes \<Rightarrow> ('a xTR_CreateConnection \<times> bytes) option" where
  "des_xTR_CreateConnection wc s = do {
       (RelaySideConnectionId, s) \<leftarrow> r_u64 wc s;
       (TargetAddress, s) \<leftarrow> r_addr wc s;
       Some (xTR_CreateConnection.make RelaySideConnectionId TargetAddress, s)}"

record xTR_DestroyConnection =
  DeviceSideConnectionId :: u32
  RelaySideConnectionId :: u64

definition ser_xTR_DestroyConnection :: "'a wire \<Rightarrow> xTR_DestroyConnection \<Rightarrow> bytes" where
  "ser_xTR_DestroyConnection wc m =
     w_u32 wc (xTR_DestroyConnection.DeviceSideConnectionId m) @
     w_u64 wc (xTR_DestroyConnection.RelaySideConnectionId m)"

definition des_xTR_DestroyConnection :: "'a wire \<Rightarrow> bytes \<Rightarrow> (xTR_DestroyConnection \<times> bytes) option" where
  "des_xTR_DestroyConnection wc s = do {
       (DeviceSideConnectionId, s) \<leftarrow> r_u32 wc s;
       (RelaySideConnectionId, s) \<leftarrow> r_u64 wc s;
       Some (xTR_DestroyConnection.make DeviceSideConnectionId RelaySideConnectionId, s)}"

record xTR_ConnectionStateNotify =
  DeviceSideConnectionId :: u32
  RelaySideConnectionId :: u64
  NewState :: u32
  TotalReadBytes :: u64
  TotalWrittenBytes :: u64

definition ser_xTR_ConnectionStateNotify :: "'a wire \<Rightarrow> xTR_ConnectionStateNotify \<Rightarrow> bytes" where
  "ser_xTR_ConnectionStateNotify wc m =
     w_u32 wc (xTR_ConnectionStateNotify.DeviceSideConnectionId m) @
     w_u64 wc (xTR_ConnectionStateNotify.RelaySideConnectionId m) @
     w_u32 wc (xTR_ConnectionStateNotify.NewState m) @
     w_u64 wc (xTR_ConnectionStateNotify.TotalReadBytes m) @
     w_u64 wc (xTR_ConnectionStateNotify.TotalWrittenBytes m)"

definition des_xTR_ConnectionStateNotify :: "'a wire \<Rightarrow> bytes \<Rightarrow> (xTR_ConnectionStateNotify \<times> bytes) option" where
  "des_xTR_ConnectionStateNotify wc s = do {
       (DeviceSideConnectionId, s) \<leftarrow> r_u32 wc s;
       (RelaySideConnectionId, s) \<leftarrow> r_u64 wc s;
       (NewState, s) \<leftarrow> r_u32 wc s;
       (TotalReadBytes, s) \<leftarrow> r_u64 wc s;
       (TotalWrittenBytes, s) \<leftarrow> r_u64 wc s;
       Some (xTR_ConnectionStateNotify.make DeviceSideConnectionId RelaySideConnectionId NewState TotalReadBytes TotalWrittenBytes, s)}"

record xTR_DnsQuery =
  HostnameView :: bytes

definition ser_xTR_DnsQuery :: "'a wire \<Rightarrow> xTR_DnsQuery \<Rightarrow> bytes" where
  "ser_xTR_DnsQuery wc m =
     w_str wc (xTR_DnsQuery.HostnameView m)"

definition des_xTR_DnsQuery :: "'a wire \<Rightarrow> bytes \<Rightarrow> (xTR_DnsQuery \<times> bytes) option" where
  "des_xTR_DnsQuery wc s = do {
       (HostnameView, s) \<leftarrow> r_str wc s;
       Some (xTR_DnsQuery.make HostnameView, s)}"

definition ok_xTR_DnsQuery :: "'a wire \<Rightarrow> xTR_DnsQuery \<Rightarrow> bool" where
  "ok_xTR_DnsQuery wc m \<longleftrightarrow>
     length (xTR_DnsQuery.HostnameView m) \<le> w_str_max wc"

record 'a xTR_DnsQueryResp =
  HostnameView :: bytes
  PrimaryIpv4 :: 'a
  PrimaryIpv6 :: 'a

definition ser_xTR_DnsQueryResp :: "'a wire \<Rightarrow> 'a xTR_DnsQueryResp \<Rightarrow> bytes" where
  "ser_xTR_DnsQueryResp wc m =
     w_str wc (xTR_DnsQueryResp.HostnameView m) @
     w_addr wc (xTR_DnsQueryResp.PrimaryIpv4 m) @
     w_addr wc (xTR_DnsQueryResp.PrimaryIpv6 m)"

definition des_xTR_DnsQueryResp :: "'a wire \<Rightarrow> bytes \<Rightarrow> ('a xTR_DnsQueryResp \<times> bytes) option" where
  "des_xTR_DnsQueryResp wc s = do {
       (HostnameView, s) \<leftarrow> r_str wc s;
       (PrimaryIpv4, s) \<leftarrow> r_addr wc s;
       (PrimaryIpv6, s) \<leftarrow> r_addr wc s;
       Some (xTR_DnsQueryResp.make HostnameView PrimaryIpv4 PrimaryIpv6, s)}"

definition ok_xTR_DnsQueryResp :: "'a wire \<Rightarrow> 'a xTR_DnsQueryResp \<Rightarrow> bool" where
  "ok_xTR_DnsQueryResp wc m \<longleftrightarrow>
     length (xTR_DnsQueryResp.HostnameView m) \<le> w_str_max wc"

record 'a xInitCtrlStream =
  CheckKey :: bytes
  Ipv4Address :: 'a
  Ipv6Address :: 'a
  Resolved3rdIpv6 :: bool

definition ser_xInitCtrlStream :: "'a wire \<Rightarrow> 'a xInitCtrlStream \<Rightarrow> bytes" where
  "ser_xInitCtrlStream wc m =
     w_str wc (xInitCtrlStream.CheckKey m) @
     w_addr wc (xInitCtrlStream.Ipv4Address m) @
     w_addr wc (xInitCtrlStream.Ipv6Address m) @
     w_bool wc (xInitCtrlStream.Resolved3rdIpv6 m)"

definition des_xInitCtrlStream :: "'a wire \<Rightarrow> bytes \<Rightarrow> ('a xInitCtrlStream \<times> bytes) option" where
  "des_xInitCtrlStream wc s = do {
       (CheckKey, s) \<leftarrow> r_str wc s;
       (Ipv4Address, s) \<leftarrow> r_addr wc s;
       (Ipv6Address, s) \<leftarrow> r_addr wc s;
       (Resolved3rdIpv6, s) \<leftarrow> r_bool wc s;
       Some (xInitCtrlStream.make CheckKey Ipv4Address Ipv6Address Resolved3rdIpv6, s)}"

definition ok_xInitCtrlStream :: "'a wire \<Rightarrow> 'a xInitCtrlStream \<Rightarrow> bool" where
  "ok_xInitCtrlStream wc m \<longleftrightarrow>
     length (xInitCtrlStream.CheckKey m) \<le> w_str_max wc"

record xInitCtrlStreamResp =
  DeviceId :: u64
  CtrlId :: u64
  DeviceKey :: bytes
  EnableIpv6 :: bool

definition ser_xInitCtrlStreamResp :: "'a wire \<Rightarrow> xInitCtrlStreamResp \<Rightarrow> bytes" where
  "ser_xInitCtrlStreamResp wc m =
     w_u64 wc (xInitCtrlStreamResp.DeviceId m) @
     w_u64 wc (xInitCtrlStreamResp.CtrlId m) @
     w_str wc (xInitCtrlStreamResp.DeviceKey m) @
     w_bool wc (xInitCtrlStreamResp.EnableIpv6 m)"

definition des_xInitCtrlStreamResp :: "'a wire \<Rightarrow> bytes \<Rightarrow> (xInitCtrlStreamResp \<times> bytes) option" where
  "des_xInitCtrlStreamResp wc s = do {
       (DeviceId, s) \<leftarrow> r_u64 wc s;
       (CtrlId, s) \<leftarrow> r_u64 wc s;
       (DeviceKey, s) \<leftarrow> r_str wc s;
       (EnableIpv6, s) \<leftarrow> r_bool wc s;
       Some (xInitCtrlStreamResp.make DeviceId CtrlId DeviceKey EnableIpv6, s)}"

definition ok_xInitCtrlStreamResp :: "'a wire \<Rightarrow> xInitCtrlStreamResp \<Rightarrow> bool" where
  "ok_xInitCtrlStreamResp wc m \<longleftrightarrow>
     length (xInitCtrlStreamResp.DeviceKey m) \<le> w_str_max wc"

record xInitDataStream =
  CtrlId :: u64
  DataKey :: bytes
  DeviceLocalIdString :: bytes

definition ser_xInitDataStream :: "'a wire \<Rightarrow> xInitDataStream \<Rightarrow> bytes" where
  "ser_xInitDataStream wc m =
     w_u64 wc (xInitDataStream.CtrlId m) @
     w_str wc (xInitDataStream.DataKey m) @
     w_str wc (xInitDataStream.DeviceLocalIdString m)"

definition des_xInitDataStream :: "'a wire \<Rightarrow> bytes \<Rightarrow> (xInitDataStream \<times> bytes) option" where
  "des_xInitDataStream wc s = do {
       (CtrlId, s) \<leftarrow> r_u64 wc s;
       (DataKey, s) \<leftarrow> r_str wc s;
       (DeviceLocalIdString, s) \<leftarrow> r_str wc s;
       Some (xInitDataStream.make CtrlId DataKey DeviceLocalIdString, s)}"

definition ok_xInitDataStream :: "'a wire \<Rightarrow> xInitDataStream \<Rightarrow> bool" where
  "ok_xInitDataStream wc m \<longleftrightarrow>
     length (xInitDataStream.DataKey m) \<le> w_str_max wc \<and>
     length (xInitDataStream.DeviceLocalIdString m) \<le> w_str_max wc"

record xInitDataStreamResp =
  Accepted :: bool

definition ser_xInitDataStreamResp :: "'a wire \<Rightarrow> xInitDataStreamResp \<Rightarrow> bytes" where
  "ser_xInitDataStreamResp wc m =
     w_bool wc (xInitDataStreamResp.Accepted m)"

definition des_xInitDataStreamResp :: "'a wire \<Rightarrow> bytes \<Rightarrow> (xInitDataStreamResp \<times> bytes) option" where
  "des_xInitDataStreamResp wc s = do {
       (Accepted, s) \<leftarrow> r_bool wc s;
       Some (xInitDataStreamResp.make Accepted, s)}"

text \<open>An empty payload fails the writer's assertion.\<close>

record xTR_PostData =
  DeviceSideConnectionId :: u32
  RelaySideConnectionId :: u64
  PayloadView :: bytes

definition ser_xTR_PostData :: "'a wire \<Rightarrow> xTR_PostData \<Rightarrow> bytes option" where
  "ser_xTR_PostData wc m =
     (if xTR_PostData.PayloadView m = [] then None else Some
       (w_u32 wc (xTR_PostData.DeviceSideConnectionId m) @
        w_u64 wc (xTR_PostData.RelaySideConnectionId m) @
        w_str wc (xTR_PostData.PayloadView m)))"

definition des_xTR_PostData :: "'a wire \<Rightarrow> bytes \<Rightarrow> (xTR_PostData \<times> bytes) option" where
  "des_xTR_PostData wc s = do {
       (DeviceSideConnectionId, s) \<leftarrow> r_u32 wc s;
       (RelaySideConnectionId, s) \<leftarrow> r_u64 wc s;
       (PayloadView, s) \<leftarrow> r_str wc s;
       Some (xTR_PostData.make DeviceSideConnectionId RelaySideConnectionId PayloadView, s)}"

definition ok_xTR_PostData :: "'a wire \<Rightarrow> xTR_PostData \<Rightarrow> bool" where
  "ok_xTR_PostData wc m \<longleftrightarrow>
     xTR_PostData.PayloadView m \<noteq> [] \<and> length (xTR_PostData.PayloadView m) \<le> w_str_max wc"

record xTR_CreateUdpChannel =
  RelaySideChannelId :: u64

definition ser_xTR_CreateUdpChannel :: "'a wire \<Rightarrow> xTR_CreateUdpChannel \<Rightarrow> bytes" where
  "ser_xTR_CreateUdpChannel wc m =
     w_u64 wc (xTR_CreateUdpChannel.RelaySideChannelId m)"

definition des_xTR_CreateUdpChannel :: "'a wire \<Rightarrow> bytes \<Rightarrow> (xTR_CreateUdpChannel \<times> bytes) option" where
  "des_xTR_CreateUdpChannel wc s = do {
       (RelaySideChannelId, s) \<leftarrow> r_u64 wc s;
       Some (xTR_CreateUdpChannel.make RelaySideChannelId, s)}"

record xTR_CreateUdpChannelResp =
  DeviceSideChannelId :: u32
  RelaySideChannelId :: u64

definition ser_xTR_CreateUdpChannelResp :: "'a wire \<Rightarrow> xTR_CreateUdpChannelResp \<Rightarrow> bytes" where
  "ser_xTR_CreateUdpChannelResp wc m =
     w_u32 wc (xTR_CreateUdpChannelResp.DeviceSideChannelId m) @
     w_u64 wc (xTR_CreateUdpChannelResp.RelaySideChannelId m)"

definition des_xTR_CreateUdpChannelResp :: "'a wire \<Rightarrow> bytes \<Rightarrow> (xTR_CreateUdpChannelResp \<times> bytes) option" where
  "des_xTR_CreateUdpChannelResp wc s = do {
       (DeviceSideChannelId, s) \<leftarrow> r_u32 wc s;
       (RelaySideChannelId, s) \<leftarrow> r_u64 wc s;
       Some (xTR_CreateUdpChannelResp.make DeviceSideChannelId RelaySideChannelId, s)}"

record xTR_UdpChannelKeepAlive =
  DeviceSideChannelId :: u32
  RelaySideChannelId :: u64

definition ser_xTR_UdpChannelKeepAlive :: "'a wire \<Rightarrow> xTR_UdpChannelKeepAlive \<Rightarrow> bytes" where
  "ser_xTR_UdpChannelKeepAlive wc m =
     w_u32 wc (xTR_UdpChannelKeepAlive.DeviceSideChannelId m) @
     w_u64 wc (xTR_UdpChannelKeepAlive.RelaySideChannelId m)"

definition des_xTR_UdpChannelKeepAlive :: "'a wire \<Rightarrow> bytes \<Rightarrow> (xTR_UdpChannelKeepAlive \<times> bytes) option" where
  "des_xTR_UdpChannelKeepAlive wc s = do {
       (DeviceSideChannelId, s) \<leftarrow> r_u32 wc s;
       (RelaySideChannelId, s) \<leftarrow> r_u64 wc s;
       Some (xTR_UdpChannelKeepAlive.make DeviceSideChannelId RelaySideChannelId, s)}"

record xTR_UdpChannelClose =
  DeviceSideChannelId :: u32
  RelaySideChannelId :: u64

definition ser_xTR_UdpChannelClose :: "'a wire \<Rightarrow> xTR_UdpChannelClose \<Rightarrow> bytes" where
  "ser_xTR_UdpChannelClose wc m =
     w_u32 wc (xTR_UdpChannelClose.DeviceSideChannelId m) @
     w_u64 wc (xTR_UdpChannelClose.RelaySideChannelId m)"

definition des_xTR_UdpChannelClose :: "'a wire \<Rightarrow> bytes \<Rightarrow> (xTR_UdpChannelClose \<times> bytes) option" where
  "des_xTR_UdpChannelClose wc s = do {
       (DeviceSideChannelId, s) \<leftarrow> r_u32 wc s;
       (RelaySideChannelId, s) \<leftarrow> r_u64 wc s;
       Some (xTR_UdpChannelClose.make DeviceSideChannelId RelaySideChannelId, s)}"

record xTR_PostUdpData =
  DeviceSideChannelId :: u32
  RelaySideChannelId :: u64
  PayloadView :: bytes

definition ser_xTR_PostUdpData :: "'a wire \<Rightarrow> xTR_PostUdpData \<Rightarrow> bytes option" where
  "ser_xTR_PostUdpData wc m =
     (if xTR_PostUdpData.PayloadView m = [] then None else Some
       (w_u32 wc (xTR_PostUdpData.DeviceSideChannelId m) @
        w_u64 wc (xTR_PostUdpData.RelaySideChannelId m) @
        w_str wc (xTR_PostUdpData.PayloadView m)))"

definition des_xTR_PostUdpData :: "'a wire \<Rightarrow> bytes \<Rightarrow> (xTR_PostUdpData \<times> bytes) option" where
  "des_xTR_PostUdpData wc s = do {
       (DeviceSideChannelId, s) \<leftarrow> r_u32 wc s;
       (RelaySideChannelId, s) \<leftarrow> r_u64 wc s;
       (PayloadView, s) \<leftarrow> r_str wc s;
       Some (xTR_PostUdpData.make DeviceSideChannelId RelaySideChannelId PayloadView, s)}"

definition ok_xTR_PostUdpData :: "'a wire \<Rightarrow> xTR_PostUdpData \<Rightarrow> bool" where
  "ok_xTR_PostUdpData wc m \<longleftrightarrow>
     xTR_PostUdpData.PayloadView m \<noteq> [] \<and> length (xTR_PostUdpData.PayloadView m) \<le> w_str_max wc"

context wire_codec begin

lemma ser_des_xTR_CreateConnection [wire_simps]:
  "des_xTR_CreateConnection wc (ser_xTR_CreateConnection wc m @ s) = Some (m, s)"
  by (cases m) (simp add: ser_xTR_CreateConnection_def des_xTR_CreateConnection_def xTR_CreateConnection.defs)

lemma ser_des_xTR_DestroyConnection [wire_simps]:
  "des_xTR_DestroyConnection wc (ser_xTR_DestroyConnection wc m @ s) = Some (m, s)"
  by (cases m) (simp add: ser_xTR_DestroyConnection_def des_xTR_DestroyConnection_def xTR_DestroyConnection.defs)

lemma ser_des_xTR_ConnectionStateNotify [wire_simps]:
  "des_xTR_ConnectionStateNotify wc (ser_xTR_ConnectionStateNotify wc m @ s) = Some (m, s)"
  by (cases m) (simp add: ser_xTR_ConnectionStateNotify_def des_xTR_ConnectionStateNotify_def xTR_ConnectionStateNotify.defs)

lemma ser_des_xTR_DnsQuery [wire_simps]:
  "ok_xTR_DnsQuery wc m \<Longrightarrow> des_xTR_DnsQuery wc (ser_xTR_DnsQuery wc m @ s) = Some (m, s)"
  by (cases m) (simp add: ser_xTR_DnsQuery_def des_xTR_DnsQuery_def ok_xTR_DnsQuery_def xTR_DnsQuery.defs)

lemma ser_des_xTR_DnsQueryResp [wire_simps]:
  "ok_xTR_DnsQueryResp wc m \<Longrightarrow> des_xTR_DnsQueryResp wc (ser_xTR_DnsQueryResp wc m @ s) = Some (m, s)"
  by (cases m) (simp add: ser_xTR_DnsQueryResp_def des_xTR_DnsQueryResp_def ok_xTR_DnsQueryResp_def xTR_DnsQueryResp.defs)

lemma ser_des_xInitCtrlStream [wire_simps]:
  "ok_xInitCtrlStream wc m \<Longrightarrow> des_xInitCtrlStream wc (ser_xInitCtrlStream wc m @ s) = Some (m, s)"
  by (cases m) (simp add: ser_xInitCtrlStream_def des_xInitCtrlStream_def ok_xInitCtrlStream_def xInitCtrlStream.defs)

lemma ser_des_xInitCtrlStreamResp [wire_simps]:
  "ok_xInitCtrlStreamResp wc m \<Longrightarrow> des_xInitCtrlStreamResp wc (ser_xInitCtrlStreamResp wc m @ s) = Some (m, s)"
  by (cases m) (simp add: ser_xInitCtrlStreamResp_def des_xInitCtrlStreamResp_def ok_xInitCtrlStreamResp_def xInitCtrlStreamResp.defs)

lemma ser_des_xInitDataStream [wire_simps]:
  "ok_xInitDataStream wc m \<Longrightarrow> des_xInitDataStream wc (ser_xInitDataStream wc m @ s) = Some (m, s)"
  by (cases m) (simp add: ser_xInitDataStream_def des_xInitDataStream_def ok_xInitDataStream_def xInitDataStream.defs)

lemma ser_des_xInitDataStreamResp [wire_simps]:
  "des_xInitDataStreamResp wc (ser_xInitDataStreamResp wc m @ s) = Some (m, s)"
  by (cases m) (simp add: ser_xInitDataStreamResp_def des_xInitDataStreamResp_def xInitDataStreamResp.defs)

lemma ser_des_xTR_PostData [wire_simps]:
  "ok_xTR_PostData wc m \<Longrightarrow> \<exists>b. ser_xTR_PostData wc m = Some b \<and> des_xTR_PostData wc (b @ s) = Some (m, s)"
  by (cases m) (simp add: ser_xTR_PostData_def des_xTR_PostData_def ok_xTR_PostData_def xTR_PostData.defs)

lemma ser_des_xTR_CreateUdpChannel [wire_simps]:
  "des_xTR_CreateUdpChannel wc (ser_xTR_CreateUdpChannel wc m @ s) = Some (m, s)"
  by (cases m) (simp add: ser_xTR_CreateUdpChannel_def des_xTR_CreateUdpChannel_def xTR_CreateUdpChannel.defs)

lemma ser_des_xTR_CreateUdpChannelResp [wire_simps]:
  "des_xTR_CreateUdpChannelResp wc (ser_xTR_CreateUdpChannelResp wc m @ s) = Some (m, s)"
  by (cases m) (simp add: ser_xTR_CreateUdpChannelResp_def des_xTR_CreateUdpChannelResp_def xTR_CreateUdpChannelResp.defs)

lemma ser_des_xTR_UdpChannelKeepAlive [wire_simps]:
  "des_xTR_UdpChannelKeepAlive wc (ser_xTR_UdpChannelKeepAlive wc m @ s) = Some (m, s)"
  by (cases m) (simp add: ser_xTR_UdpChannelKeepAlive_def des_xTR_UdpChannelKeepAlive_def xTR_UdpChannelKeepAlive.defs)

lemma ser_des_xTR_UdpChannelClose [wire_simps]:
  "des_xTR_UdpChannelClose wc (ser_xTR_UdpChannelClose wc m @ s) = Some (m, s)"
  by (cases m) (simp add: ser_xTR_UdpChannelClose_def des_xTR_UdpChannelClose_def xTR_UdpChannelClose.defs)

lemma ser_des_xTR_PostUdpData [wire_simps]:
  "ok_xTR_PostUdpData wc m \<Longrightarrow> \<exists>b. ser_xTR_PostUdpData wc m = Some b \<and> des_xTR_PostUdpData wc (b @ s) = Some (m, s)"
  by (cases m) (simp add: ser_xTR_PostUdpData_def des_xTR_PostUdpData_def ok_xTR_PostUdpData_def xTR_PostUdpData.defs)

end

sublocale wire_codec \<subseteq> tr_state: message_codec "ser_xTR_ConnectionStateNotify wc" "des_xTR_ConnectionStateNotify wc" "\<lambda>_. True"
  by unfold_locales (simp add: wire_simps)

sublocale wire_codec \<subseteq> init_ctrl: message_codec "ser_xInitCtrlStream wc" "des_xInitCtrlStream wc" "ok_xInitCtrlStream wc"
  by unfold_locales (simp add: wire_simps)

sublocale wire_codec \<subseteq> init_data: message_codec "ser_xInitDataStream wc" "des_xInitDataStream wc" "ok_xInitDataStream wc"
  by unfold_locales (simp add: wire_simps)

subsection \<open>Proxy access server to relay server\<close>

text \<open>
  \<^verbatim>\<open>pp_protocol/proxy_relay\<close>.
\<close>

record xPR_Challenge =
  Timestamp :: u64
  ChallengeKey :: bytes
  ChallengeHash :: bytes

definition ser_xPR_Challenge :: "'a wire \<Rightarrow> xPR_Challenge \<Rightarrow> bytes" where
  "ser_xPR_Challenge wc m =
     w_u64 wc (xPR_Challenge.Timestamp m) @
     w_str wc (xPR_Challenge.ChallengeKey m) @
     w_str wc (xPR_Challenge.ChallengeHash m)"

definition des_xPR_Challenge :: "'a wire \<Rightarrow> bytes \<Rightarrow> (xPR_Challenge \<times> bytes) option" where
  "des_xPR_Challenge wc s = do {
       (Timestamp, s) \<leftarrow> r_u64 wc s;
       (ChallengeKey, s) \<leftarrow> r_str wc s;
       (ChallengeHash, s) \<leftarrow> r_str wc s;
       Some (xPR_Challenge.make Timestamp ChallengeKey ChallengeHash, s)}"

definition ok_xPR_Challenge :: "'a wire \<Rightarrow> xPR_Challenge \<Rightarrow> bool" where
  "ok_xPR_Challenge wc m \<longleftrightarrow>
     length (xPR_Challenge.ChallengeKey m) \<le> w_str_max wc \<and>
     length (xPR_Challenge.ChallengeHash m) \<le> w_str_max wc"

record xPR_ChallengeResp =
  Accepted :: bool

definition ser_xPR_ChallengeResp :: "'a wire \<Rightarrow> xPR_ChallengeResp \<Rightarrow> bytes" where
  "ser_xPR_ChallengeResp wc m =
     w_bool wc (xPR_ChallengeResp.Accepted m)"

definition des_xPR_ChallengeResp :: "'a wire \<Rightarrow> bytes \<Rightarrow> (xPR_ChallengeResp \<times> bytes) option" where
  "des_xPR_ChallengeResp wc s = do {
       (Accepted, s) \<leftarrow> r_bool wc s;
       Some (xPR_ChallengeResp.make Accepted, s)}"

record 'a xPR_CreateConnection =
  RelaySideDeviceId :: u64
  ProxySideConnectionId :: u64
  TargetAddress :: 'a
  HostnameView :: bytes
  HostnamePort :: u16

definition ser_xPR_CreateConnection :: "'a wire \<Rightarrow> 'a xPR_CreateConnection \<Rightarrow> bytes" where
  "ser_xPR_CreateConnection wc m =
     w_u64 wc (xPR_CreateConnection.RelaySideDeviceId m) @
     w_u64 wc (xPR_CreateConnection.ProxySideConnectionId m) @
     w_addr wc (xPR_CreateConnection.TargetAddress m) @
     w_str wc (xPR_CreateConnection.HostnameView m) @
     w_u16 wc (xPR_CreateConnection.HostnamePort m)"

definition des_xPR_CreateConnection :: "'a wire \<Rightarrow> bytes \<Rightarrow> ('a xPR_CreateConnection \<times> bytes) option" where
  "des_xPR_CreateConnection wc s = do {
       (RelaySideDeviceId, s) \<leftarrow> r_u64 wc s;
       (ProxySideConnectionId, s) \<leftarrow> r_u64 wc s;
       (TargetAddress, s) \<leftarrow> r_addr wc s;
       (HostnameView, s) \<leftarrow> r_str wc s;
       (HostnamePort, s) \<leftarrow> r_u16 wc s;
       Some (xPR_CreateConnection.make RelaySideDeviceId ProxySideConnectionId TargetAddress HostnameView HostnamePort, s)}"

definition ok_xPR_CreateConnection :: "'a wire \<Rightarrow> 'a xPR_CreateConnection \<Rightarrow> bool" where
  "ok_xPR_CreateConnection wc m \<longleftrightarrow>
     length (xPR_CreateConnection.HostnameView m) \<le> w_str_max wc"

record xPR_DestroyConnection =
  ProxySideConnectionId :: u64
  RelaySideConnectionId :: u64

definition ser_xPR_DestroyConnection :: "'a wire \<Rightarrow> xPR_DestroyConnection \<Rightarrow> bytes" where
  "ser_xPR_DestroyConnection wc m =
     w_u64 wc (xPR_DestroyConnection.ProxySideConnectionId m) @
     w_u64 wc (xPR_DestroyConnection.RelaySideConnectionId m)"

definition des_xPR_DestroyConnection :: "'a wire \<Rightarrow> bytes \<Rightarrow> (xPR_DestroyConnection \<times> bytes) option" where
  "des_xPR_DestroyConnection wc s = do {
       (ProxySideConnectionId, s) \<leftarrow> r_u64 wc s;
       (RelaySideConnectionId, s) \<leftarrow> r_u64 wc s;
       Some (xPR_DestroyConnection.make ProxySideConnectionId RelaySideConnectionId, s)}"

record xPR_ConnectionStateNotify =
  ProxySideConnectionId :: u64
  RelaySideConnectionId :: u64
  NewState :: u32
  TotalUploadedBytes :: u64
  TotalDumpedBytes :: u64

definition ser_xPR_ConnectionStateNotify :: "'a wire \<Rightarrow> xPR_ConnectionStateNotify \<Rightarrow> bytes" where
  "ser_xPR_ConnectionStateNotify wc m =
     w_u64 wc (xPR_ConnectionStateNotify.ProxySideConnectionId m) @
     w_u64 wc (xPR_ConnectionStateNotify.RelaySideConnectionId m) @
     w_u32 wc (xPR_ConnectionStateNotify.NewState m) @
     w_u64 wc (xPR_ConnectionStateNotify.TotalUploadedBytes m) @
     w_u64 wc (xPR_ConnectionStateNotify.TotalDumpedBytes m)"

definition des_xPR_ConnectionStateNotify :: "'a wire \<Rightarrow> bytes \<Rightarrow> (xPR_ConnectionStateNotify \<times> bytes) option" where
  "des_xPR_ConnectionStateNotify wc s = do {
       (ProxySideConnectionId, s) \<leftarrow> r_u64 wc s;
       (RelaySideConnectionId, s) \<leftarrow> r_u64 wc s;
       (NewState, s) \<leftarrow> r_u32 wc s;
       (TotalUploadedBytes, s) \<leftarrow> r_u64 wc s;
       (TotalDumpedBytes, s) \<leftarrow> r_u64 wc s;
       Some (xPR_ConnectionStateNotify.make ProxySideConnectionId RelaySideConnectionId NewState TotalUploadedBytes TotalDumpedBytes, s)}"

record xPR_PushData =
  ProxySideConnectionId :: u64
  RelaySideConnectionId :: u64
  PayloadView :: bytes

definition ser_xPR_PushData :: "'a wire \<Rightarrow> xPR_PushData \<Rightarrow> bytes" where
  "ser_xPR_PushData wc m =
     w_u64 wc (xPR_PushData.ProxySideConnectionId m) @
     w_u64 wc (xPR_PushData.RelaySideConnectionId m) @
     w_str wc (xPR_PushData.PayloadView m)"

definition des_xPR_PushData :: "'a wire \<Rightarrow> bytes \<Rightarrow> (xPR_PushData \<times> bytes) option" where
  "des_xPR_PushData wc s = do {
       (ProxySideConnectionId, s) \<leftarrow> r_u64 wc s;
       (RelaySideConnectionId, s) \<leftarrow> r_u64 wc s;
       (PayloadView, s) \<leftarrow> r_str wc s;
       Some (xPR_PushData.make ProxySideConnectionId RelaySideConnectionId PayloadView, s)}"

definition ok_xPR_PushData :: "'a wire \<Rightarrow> xPR_PushData \<Rightarrow> bool" where
  "ok_xPR_PushData wc m \<longleftrightarrow>
     length (xPR_PushData.PayloadView m) \<le> w_str_max wc"

context wire_codec begin

lemma ser_des_xPR_Challenge [wire_simps]:
  "ok_xPR_Challenge wc m \<Longrightarrow> des_xPR_Challenge wc (ser_xPR_Challenge wc m @ s) = Some (m, s)"
  by (cases m) (simp add: ser_xPR_Challenge_def des_xPR_Challenge_def ok_xPR_Challenge_def xPR_Challenge.defs)

lemma ser_des_xPR_ChallengeResp [wire_simps]:
  "des_xPR_ChallengeResp wc (ser_xPR_ChallengeResp wc m @ s) = Some (m, s)"
  by (cases m) (simp add: ser_xPR_ChallengeResp_def des_xPR_ChallengeResp_def xPR_ChallengeResp.defs)

lemma ser_des_xPR_CreateConnection [wire_simps]:
  "ok_xPR_CreateConnection wc m \<Longrightarrow> des_xPR_CreateConnection wc (ser_xPR_CreateConnection wc m @ s) = Some (m, s)"
  by (cases m) (simp add: ser_xPR_CreateConnection_def des_xPR_CreateConnection_def ok_xPR_CreateConnection_def xPR_CreateConnection.defs)

lemma ser_des_xPR_DestroyConnection [wire_simps]:
  "des_xPR_DestroyConnection wc (ser_xPR_DestroyConnection wc m @ s) = Some (m, s)"
  by (cases m) (simp add: ser_xPR_DestroyConnection_def des_xPR_DestroyConnection_def xPR_DestroyConnection.defs)

lemma ser_des_xPR_ConnectionStateNotify [wire_simps]:
  "des_xPR_ConnectionStateNotify wc (ser_xPR_ConnectionStateNotify wc m @ s) = Some (m, s)"
  by (cases m) (simp add: ser_xPR_ConnectionStateNotify_def des_xPR_ConnectionStateNotify_def xPR_ConnectionStateNotify.defs)

lemma ser_des_xPR_PushData [wire_simps]:
  "ok_xPR_PushData wc m \<Longrightarrow> des_xPR_PushData wc (ser_xPR_PushData wc m @ s) = Some (m, s)"
  by (cases m) (simp add: ser_xPR_PushData_def des_xPR_PushData_def ok_xPR_PushData_def xPR_PushData.defs)

end

sublocale wire_codec \<subseteq> pr_create: message_codec "ser_xPR_CreateConnection wc" "des_xPR_CreateConnection wc" "ok_xPR_CreateConnection wc"
  by unfold_locales (simp add: wire_simps)

sublocale wire_codec \<subseteq> pr_destroy: message_codec "ser_xPR_DestroyConnection wc" "des_xPR_DestroyConnection wc" "\<lambda>_. True"
  by unfold_locales (simp add: wire_simps)

sublocale wire_codec \<subseteq> pr_state: message_codec "ser_xPR_ConnectionStateNotify wc" "des_xPR_ConnectionStateNotify wc" "\<lambda>_. True"
  by unfold_locales (simp add: wire_simps)

sublocale wire_codec \<subseteq> pr_push: message_codec "ser_xPR_PushData wc" "des_xPR_PushData wc" "ok_xPR_PushData wc"
  by unfold_locales (simp add: wire_simps)

text \<open>The states both notifications carry, and their names for the log.\<close>

definition STATE_UNSEPC :: u32 where "STATE_UNSEPC = 0"
definition STATE_ESTABLISHED :: u32 where "STATE_ESTABLISHED = 1"
definition STATE_UPDATE_TRANSFER :: u32 where "STATE_UPDATE_TRANSFER = 2"
definition STATE_CLOSED :: u32 where "STATE_CLOSED = 3"
definition MAX_PAYLOAD_SIZE :: nat where "MAX_PAYLOAD_SIZE = 4096"

lemmas state_defs = STATE_UNSEPC_def STATE_ESTABLISHED_def STATE_UPDATE_TRANSFER_def
  STATE_CLOSED_def

definition GetStateName :: "u32 \<Rightarrow> string" where
  "GetStateName State =
     (if State = STATE_UNSEPC then ''STATE_UNSEPC''
      else if State = STATE_ESTABLISHED then ''STATE_ESTABLISHED''
      else if State = STATE_UPDATE_TRANSFER then ''STATE_UPDATE_TRANSFER''
      else if State = STATE_CLOSED then ''STATE_CLOSED''
      else ''INVALID_CONNECTION_STATE'')"

end
