(* ===== verification/ServiceMessages.thy ===== *)
theory ServiceMessages
  imports Common "HOL-Library.Monad_Syntax"
begin

text \<open>
  The messages of the internal services, of the configuration centre and of the DNS servers
  (\<^verbatim>\<open>src/cpp/src_lib_protocol/pp_protocol/internal\<close>, \<^verbatim>\<open>cc_all\<close>, \<^verbatim>\<open>cc_dv\<close>, \<^verbatim>\<open>cc_pa\<close>, \<^verbatim>\<open>ac_cc\<close>,
  \<^verbatim>\<open>dns_server\<close>, \<^verbatim>\<open>server_manager.hpp\<close>, \<^verbatim>\<open>network.hpp\<close>), with the conventions of RelayMessages.
\<close>

subsection \<open>Internal services\<close>

text \<open>
  \<^verbatim>\<open>pp_protocol/internal\<close>: the server id centre, the authentication cache, the device selector,
  device states, and the registration and download of server lists.
\<close>

record xPP_AcquireServerId =
  PreviousServerId :: u64

definition ser_xPP_AcquireServerId :: "'a wire \<Rightarrow> xPP_AcquireServerId \<Rightarrow> bytes" where
  "ser_xPP_AcquireServerId wc m =
     w_u64 wc (xPP_AcquireServerId.PreviousServerId m)"

definition des_xPP_AcquireServerId :: "'a wire \<Rightarrow> bytes \<Rightarrow> (xPP_AcquireServerId \<times> bytes) option" where
  "des_xPP_AcquireServerId wc s = do {
       (PreviousServerId, s) \<leftarrow> r_u64 wc s;
       Some (xPP_AcquireServerId.make PreviousServerId, s)}"

record xPP_AcquireServerIdResp =
  PreviousServerId :: u64
  NewServerId :: u64

definition ser_xPP_AcquireServerIdResp :: "'a wire \<Rightarrow> xPP_AcquireServerIdResp \<Rightarrow> bytes" where
  "ser_xPP_AcquireServerIdResp wc m =
     w_u64 wc (xPP_AcquireServerIdResp.PreviousServerId m) @
     w_u64 wc (xPP_AcquireServerIdResp.NewServerId m)"

definition des_xPP_AcquireServerIdResp :: "'a wire \<Rightarrow> bytes \<Rightarrow> (xPP_AcquireServerIdResp \<times> bytes) option" where
  "des_xPP_AcquireServerIdResp wc s = do {
       (PreviousServerId, s) \<leftarrow> r_u64 wc s;
       (NewServerId, s) \<leftarrow> r_u64 wc s;
       Some (xPP_AcquireServerIdResp.make PreviousServerId NewServerId, s)}"

record xQueryAuthCache =
  UserPass :: bytes

definition ser_xQueryAuthCache :: "'a wire \<Rightarrow> xQueryAuthCache \<Rightarrow> bytes" where
  "ser_xQueryAuthCache wc m =
     w_str wc (xQueryAuthCache.UserPass m)"

definition des_xQueryAuthCache :: "'a wire \<Rightarrow> bytes \<Rightarrow> (xQueryAuthCache \<times> bytes) option" where
  "des_xQueryAuthCache wc s = do {
       (UserPass, s) \<leftarrow> r_str wc s;
       Some (xQueryAuthCache.make UserPass, s)}"

definition ok_xQueryAuthCache :: "'a wire \<Rightarrow> xQueryAuthCache \<Rightarrow> bool" where
  "ok_xQueryAuthCache wc m \<longleftrightarrow>
     length (xQueryAuthCache.UserPass m) \<le> w_str_max wc"

record xQueryAuthCacheResp =
  AuditId :: u64
  CountryId :: u32
  StateId :: u32
  CityId :: u32
  IsBlocked :: bool
  RequireIpv6 :: bool
  RequireUdp :: bool
  RequireRemoteDns :: bool
  AutoChangeIp :: bool
  PAToken :: bytes

definition ser_xQueryAuthCacheResp :: "'a wire \<Rightarrow> xQueryAuthCacheResp \<Rightarrow> bytes" where
  "ser_xQueryAuthCacheResp wc m =
     w_u64 wc (xQueryAuthCacheResp.AuditId m) @
     w_u32 wc (xQueryAuthCacheResp.CountryId m) @
     w_u32 wc (xQueryAuthCacheResp.StateId m) @
     w_u32 wc (xQueryAuthCacheResp.CityId m) @
     w_bool wc (xQueryAuthCacheResp.IsBlocked m) @
     w_bool wc (xQueryAuthCacheResp.RequireIpv6 m) @
     w_bool wc (xQueryAuthCacheResp.RequireUdp m) @
     w_bool wc (xQueryAuthCacheResp.RequireRemoteDns m) @
     w_bool wc (xQueryAuthCacheResp.AutoChangeIp m) @
     w_str wc (xQueryAuthCacheResp.PAToken m)"

definition des_xQueryAuthCacheResp :: "'a wire \<Rightarrow> bytes \<Rightarrow> (xQueryAuthCacheResp \<times> bytes) option" where
  "des_xQueryAuthCacheResp wc s = do {
       (AuditId, s) \<leftarrow> r_u64 wc s;
       (CountryId, s) \<leftarrow> r_u32 wc s;
       (StateId, s) \<leftarrow> r_u32 wc s;
       (CityId, s) \<leftarrow> r_u32 wc s;
       (IsBlocked, s) \<leftarrow> r_bool wc s;
       (RequireIpv6, s) \<leftarrow> r_bool wc s;
       (RequireUdp, s) \<leftarrow> r_bool wc s;
       (RequireRemoteDns, s) \<leftarrow> r_bool wc s;
       (AutoChangeIp, s) \<leftarrow> r_bool wc s;
       (PAToken, s) \<leftarrow> r_str wc s;
       Some (xQueryAuthCacheResp.make AuditId CountryId StateId CityId IsBlocked RequireIpv6 RequireUdp RequireRemoteDns AutoChangeIp PAToken, s)}"

definition ok_xQueryAuthCacheResp :: "'a wire \<Rightarrow> xQueryAuthCacheResp \<Rightarrow> bool" where
  "ok_xQueryAuthCacheResp wc m \<longleftrightarrow>
     length (xQueryAuthCacheResp.PAToken m) \<le> w_str_max wc"

record xPP_AcquireDevice =
  CountryId :: u32
  StateId :: u32
  CityId :: u32
  RequireIpv6 :: bool
  RequireUdp :: bool
  RequireRemoteDns :: bool

definition ser_xPP_AcquireDevice :: "'a wire \<Rightarrow> xPP_AcquireDevice \<Rightarrow> bytes" where
  "ser_xPP_AcquireDevice wc m =
     w_u32 wc (xPP_AcquireDevice.CountryId m) @
     w_u32 wc (xPP_AcquireDevice.StateId m) @
     w_u32 wc (xPP_AcquireDevice.CityId m) @
     w_bool wc (xPP_AcquireDevice.RequireIpv6 m) @
     w_bool wc (xPP_AcquireDevice.RequireUdp m) @
     w_bool wc (xPP_AcquireDevice.RequireRemoteDns m)"

definition des_xPP_AcquireDevice :: "'a wire \<Rightarrow> bytes \<Rightarrow> (xPP_AcquireDevice \<times> bytes) option" where
  "des_xPP_AcquireDevice wc s = do {
       (CountryId, s) \<leftarrow> r_u32 wc s;
       (StateId, s) \<leftarrow> r_u32 wc s;
       (CityId, s) \<leftarrow> r_u32 wc s;
       (RequireIpv6, s) \<leftarrow> r_bool wc s;
       (RequireUdp, s) \<leftarrow> r_bool wc s;
       (RequireRemoteDns, s) \<leftarrow> r_bool wc s;
       Some (xPP_AcquireDevice.make CountryId StateId CityId RequireIpv6 RequireUdp RequireRemoteDns, s)}"

record xPP_AcquireDeviceResp =
  DeviceRelayServerRuntimeId :: u64
  DeviceRelaySideId :: u64

definition ser_xPP_AcquireDeviceResp :: "'a wire \<Rightarrow> xPP_AcquireDeviceResp \<Rightarrow> bytes" where
  "ser_xPP_AcquireDeviceResp wc m =
     w_u64 wc (xPP_AcquireDeviceResp.DeviceRelayServerRuntimeId m) @
     w_u64 wc (xPP_AcquireDeviceResp.DeviceRelaySideId m)"

definition des_xPP_AcquireDeviceResp :: "'a wire \<Rightarrow> bytes \<Rightarrow> (xPP_AcquireDeviceResp \<times> bytes) option" where
  "des_xPP_AcquireDeviceResp wc s = do {
       (DeviceRelayServerRuntimeId, s) \<leftarrow> r_u64 wc s;
       (DeviceRelaySideId, s) \<leftarrow> r_u64 wc s;
       Some (xPP_AcquireDeviceResp.make DeviceRelayServerRuntimeId DeviceRelaySideId, s)}"

text \<open>
  \<open>ContinentId\<close> is a member that neither side transmits: the reader keeps the value its message
  \<open>m0\<close> had.
\<close>

record 'a xPP_DeviceInfoUpdate =
  DeviceUuid :: bytes
  Version :: u32
  RelayServerRuntimeId :: u64
  RelaySideDeviceKey :: u64
  PrimaryIpv4Address :: 'a
  PrimaryIpv6Address :: 'a
  ContinentId :: u32
  CountryId :: u32
  StateId :: u32
  CityId :: u32
  IsOffline :: bool
  SupportUdpChannel :: bool
  SupportDnsRequests :: bool
  SpeedLimitEnabled :: bool

definition ser_xPP_DeviceInfoUpdate :: "'a wire \<Rightarrow> 'a xPP_DeviceInfoUpdate \<Rightarrow> bytes" where
  "ser_xPP_DeviceInfoUpdate wc m =
     w_str wc (xPP_DeviceInfoUpdate.DeviceUuid m) @
     w_u32 wc (xPP_DeviceInfoUpdate.Version m) @
     w_u64 wc (xPP_DeviceInfoUpdate.RelayServerRuntimeId m) @
     w_u64 wc (xPP_DeviceInfoUpdate.RelaySideDeviceKey m) @
     w_addr wc (xPP_DeviceInfoUpdate.PrimaryIpv4Address m) @
     w_addr wc (xPP_DeviceInfoUpdate.PrimaryIpv6Address m) @
     w_u32 wc (xPP_DeviceInfoUpdate.CountryId m) @
     w_u32 wc (xPP_DeviceInfoUpdate.StateId m) @
     w_u32 wc (xPP_DeviceInfoUpdate.CityId m) @
     w_bool wc (xPP_DeviceInfoUpdate.IsOffline m) @
     w_bool wc (xPP_DeviceInfoUpdate.SupportUdpChannel m) @
     w_bool wc (xPP_DeviceInfoUpdate.SupportDnsRequests m) @
     w_bool wc (xPP_DeviceInfoUpdate.SpeedLimitEnabled m)"

definition des_xPP_DeviceInfoUpdate ::
    "'a wire \<Rightarrow> 'a xPP_DeviceInfoUpdate \<Rightarrow> bytes \<Rightarrow> ('a xPP_DeviceInfoUpdate \<times> bytes) option" where
  "des_xPP_DeviceInfoUpdate wc m0 s = do {
       (DeviceUuid, s) \<leftarrow> r_str wc s;
       (Version, s) \<leftarrow> r_u32 wc s;
       (RelayServerRuntimeId, s) \<leftarrow> r_u64 wc s;
       (RelaySideDeviceKey, s) \<leftarrow> r_u64 wc s;
       (PrimaryIpv4Address, s) \<leftarrow> r_addr wc s;
       (PrimaryIpv6Address, s) \<leftarrow> r_addr wc s;
       (CountryId, s) \<leftarrow> r_u32 wc s;
       (StateId, s) \<leftarrow> r_u32 wc s;
       (CityId, s) \<leftarrow> r_u32 wc s;
       (IsOffline, s) \<leftarrow> r_bool wc s;
       (SupportUdpChannel, s) \<leftarrow> r_bool wc s;
       (SupportDnsRequests, s) \<leftarrow> r_bool wc s;
       (SpeedLimitEnabled, s) \<leftarrow> r_bool wc s;
       Some (xPP_DeviceInfoUpdate.make DeviceUuid Version RelayServerRuntimeId RelaySideDeviceKey PrimaryIpv4Address PrimaryIpv6Address
         (ContinentId m0) CountryId StateId CityId IsOffline SupportUdpChannel SupportDnsRequests SpeedLimitEnabled, s)}"

definition ok_xPP_DeviceInfoUpdate :: "'a wire \<Rightarrow> 'a xPP_DeviceInfoUpdate \<Rightarrow> bool" where
  "ok_xPP_DeviceInfoUpdate wc m \<longleftrightarrow>
     length (xPP_DeviceInfoUpdate.DeviceUuid m) \<le> w_str_max wc"

record 'a xPP_RegisterAuthCacheServer =
  ServerId :: u64
  ExportServerAddress :: 'a

definition ser_xPP_RegisterAuthCacheServer :: "'a wire \<Rightarrow> 'a xPP_RegisterAuthCacheServer \<Rightarrow> bytes" where
  "ser_xPP_RegisterAuthCacheServer wc m =
     w_u64 wc (xPP_RegisterAuthCacheServer.ServerId m) @
     w_addr wc (xPP_RegisterAuthCacheServer.ExportServerAddress m)"

definition des_xPP_RegisterAuthCacheServer :: "'a wire \<Rightarrow> bytes \<Rightarrow> ('a xPP_RegisterAuthCacheServer \<times> bytes) option" where
  "des_xPP_RegisterAuthCacheServer wc s = do {
       (ServerId, s) \<leftarrow> r_u64 wc s;
       (ExportServerAddress, s) \<leftarrow> r_addr wc s;
       Some (xPP_RegisterAuthCacheServer.make ServerId ExportServerAddress, s)}"

record 'a xPP_RegisterAuditDeviceServer =
  ServerId :: u64
  ExportServerAddress :: 'a

definition ser_xPP_RegisterAuditDeviceServer :: "'a wire \<Rightarrow> 'a xPP_RegisterAuditDeviceServer \<Rightarrow> bytes" where
  "ser_xPP_RegisterAuditDeviceServer wc m =
     w_u64 wc (xPP_RegisterAuditDeviceServer.ServerId m) @
     w_addr wc (xPP_RegisterAuditDeviceServer.ExportServerAddress m)"

definition des_xPP_RegisterAuditDeviceServer :: "'a wire \<Rightarrow> bytes \<Rightarrow> ('a xPP_RegisterAuditDeviceServer \<times> bytes) option" where
  "des_xPP_RegisterAuditDeviceServer wc s = do {
       (ServerId, s) \<leftarrow> r_u64 wc s;
       (ExportServerAddress, s) \<leftarrow> r_addr wc s;
       Some (xPP_RegisterAuditDeviceServer.make ServerId ExportServerAddress, s)}"

record 'a xPP_RegisterAuditAccountServer =
  ServerId :: u64
  ExportServerAddress :: 'a

definition ser_xPP_RegisterAuditAccountServer :: "'a wire \<Rightarrow> 'a xPP_RegisterAuditAccountServer \<Rightarrow> bytes" where
  "ser_xPP_RegisterAuditAccountServer wc m =
     w_u64 wc (xPP_RegisterAuditAccountServer.ServerId m) @
     w_addr wc (xPP_RegisterAuditAccountServer.ExportServerAddress m)"

definition des_xPP_RegisterAuditAccountServer :: "'a wire \<Rightarrow> bytes \<Rightarrow> ('a xPP_RegisterAuditAccountServer \<times> bytes) option" where
  "des_xPP_RegisterAuditAccountServer wc s = do {
       (ServerId, s) \<leftarrow> r_u64 wc s;
       (ExportServerAddress, s) \<leftarrow> r_addr wc s;
       Some (xPP_RegisterAuditAccountServer.make ServerId ExportServerAddress, s)}"

record xPP_RegisterServerResponse =
  Accepted :: bool

definition ser_xPP_RegisterServerResponse :: "'a wire \<Rightarrow> xPP_RegisterServerResponse \<Rightarrow> bytes" where
  "ser_xPP_RegisterServerResponse wc m =
     w_bool wc (xPP_RegisterServerResponse.Accepted m)"

definition des_xPP_RegisterServerResponse :: "'a wire \<Rightarrow> bytes \<Rightarrow> (xPP_RegisterServerResponse \<times> bytes) option" where
  "des_xPP_RegisterServerResponse wc s = do {
       (Accepted, s) \<leftarrow> r_bool wc s;
       Some (xPP_RegisterServerResponse.make Accepted, s)}"

record xPP_DownloadAuthCacheServerList =
  Version :: u32

definition ser_xPP_DownloadAuthCacheServerList :: "'a wire \<Rightarrow> xPP_DownloadAuthCacheServerList \<Rightarrow> bytes" where
  "ser_xPP_DownloadAuthCacheServerList wc m =
     w_u32 wc (xPP_DownloadAuthCacheServerList.Version m)"

definition des_xPP_DownloadAuthCacheServerList :: "'a wire \<Rightarrow> bytes \<Rightarrow> (xPP_DownloadAuthCacheServerList \<times> bytes) option" where
  "des_xPP_DownloadAuthCacheServerList wc s = do {
       (Version, s) \<leftarrow> r_u32 wc s;
       Some (xPP_DownloadAuthCacheServerList.make Version, s)}"

record xPP_DownloadAuditDeviceServerList =
  Version :: u32

definition ser_xPP_DownloadAuditDeviceServerList :: "'a wire \<Rightarrow> xPP_DownloadAuditDeviceServerList \<Rightarrow> bytes" where
  "ser_xPP_DownloadAuditDeviceServerList wc m =
     w_u32 wc (xPP_DownloadAuditDeviceServerList.Version m)"

definition des_xPP_DownloadAuditDeviceServerList :: "'a wire \<Rightarrow> bytes \<Rightarrow> (xPP_DownloadAuditDeviceServerList \<times> bytes) option" where
  "des_xPP_DownloadAuditDeviceServerList wc s = do {
       (Version, s) \<leftarrow> r_u32 wc s;
       Some (xPP_DownloadAuditDeviceServerList.make Version, s)}"

record xPP_DownloadAuditAccountServerList =
  Version :: u32

definition ser_xPP_DownloadAuditAccountServerList :: "'a wire \<Rightarrow> xPP_DownloadAuditAccountServerList \<Rightarrow> bytes" where
  "ser_xPP_DownloadAuditAccountServerList wc m =
     w_u32 wc (xPP_DownloadAuditAccountServerList.Version m)"

definition des_xPP_DownloadAuditAccountServerList :: "'a wire \<Rightarrow> bytes \<Rightarrow> (xPP_DownloadAuditAccountServerList \<times> bytes) option" where
  "des_xPP_DownloadAuditAccountServerList wc s = do {
       (Version, s) \<leftarrow> r_u32 wc s;
       Some (xPP_DownloadAuditAccountServerList.make Version, s)}"

text \<open>The three list responses have the same members; each checks its own bound.\<close>

definition MAX_AUTH_CACHE_SERVER_COUNT :: u32 where "MAX_AUTH_CACHE_SERVER_COUNT = 125"
definition MAX_DEVICE_AUDIT_SERVER_COUNT :: u32 where "MAX_DEVICE_AUDIT_SERVER_COUNT = 125"
definition MAX_ACCOUNT_AUDIT_SERVER_COUNT :: u32 where "MAX_ACCOUNT_AUDIT_SERVER_COUNT = 125"

lemmas max_server_count_defs = MAX_AUTH_CACHE_SERVER_COUNT_def
  MAX_DEVICE_AUDIT_SERVER_COUNT_def MAX_ACCOUNT_AUDIT_SERVER_COUNT_def

record 'a xServerInfo =
  ServerId :: u64
  ExportServerAddress :: 'a

definition w_server_info :: "'a wire \<Rightarrow> 'a xServerInfo \<Rightarrow> bytes" where
  "w_server_info wc I =
     w_u64 wc (xServerInfo.ServerId I) @ w_addr wc (xServerInfo.ExportServerAddress I)"

definition r_server_info :: "'a wire \<Rightarrow> bytes \<Rightarrow> ('a xServerInfo \<times> bytes) option" where
  "r_server_info wc s = do {
     (i, s) \<leftarrow> r_u64 wc s;
     (a, s) \<leftarrow> r_addr wc s;
     Some (xServerInfo.make i a, s)}"

record 'a xPP_DownloadAuthCacheServerListResp =
  Version :: u32
  ServerInfoList :: "'a xServerInfo list"

definition ser_xPP_DownloadAuthCacheServerListResp ::
    "'a wire \<Rightarrow> 'a xPP_DownloadAuthCacheServerListResp \<Rightarrow> bytes" where
  "ser_xPP_DownloadAuthCacheServerListResp wc m =
     w_u32 wc (xPP_DownloadAuthCacheServerListResp.Version m) @
     w_u32 wc (word_of_nat (length (xPP_DownloadAuthCacheServerListResp.ServerInfoList m))) @
     concat (map (w_server_info wc) (xPP_DownloadAuthCacheServerListResp.ServerInfoList m))"

definition des_xPP_DownloadAuthCacheServerListResp ::
    "'a wire \<Rightarrow> bytes \<Rightarrow> ('a xPP_DownloadAuthCacheServerListResp \<times> bytes) option" where
  "des_xPP_DownloadAuthCacheServerListResp wc s = do {
     (Version, s) \<leftarrow> r_u32 wc s;
     (Count, s) \<leftarrow> r_u32 wc s;
     if Count \<ge> MAX_AUTH_CACHE_SERVER_COUNT then None else do {
       (L, s) \<leftarrow> read_many (unat Count) (r_server_info wc) s;
       Some (xPP_DownloadAuthCacheServerListResp.make Version L, s)}}"
record 'a xPP_DownloadAuditDeviceServerListResp =
  Version :: u32
  ServerInfoList :: "'a xServerInfo list"

definition ser_xPP_DownloadAuditDeviceServerListResp ::
    "'a wire \<Rightarrow> 'a xPP_DownloadAuditDeviceServerListResp \<Rightarrow> bytes" where
  "ser_xPP_DownloadAuditDeviceServerListResp wc m =
     w_u32 wc (xPP_DownloadAuditDeviceServerListResp.Version m) @
     w_u32 wc (word_of_nat (length (xPP_DownloadAuditDeviceServerListResp.ServerInfoList m))) @
     concat (map (w_server_info wc) (xPP_DownloadAuditDeviceServerListResp.ServerInfoList m))"

definition des_xPP_DownloadAuditDeviceServerListResp ::
    "'a wire \<Rightarrow> bytes \<Rightarrow> ('a xPP_DownloadAuditDeviceServerListResp \<times> bytes) option" where
  "des_xPP_DownloadAuditDeviceServerListResp wc s = do {
     (Version, s) \<leftarrow> r_u32 wc s;
     (Count, s) \<leftarrow> r_u32 wc s;
     if Count \<ge> MAX_DEVICE_AUDIT_SERVER_COUNT then None else do {
       (L, s) \<leftarrow> read_many (unat Count) (r_server_info wc) s;
       Some (xPP_DownloadAuditDeviceServerListResp.make Version L, s)}}"
record 'a xPP_DownloadAuditAccountServerListResp =
  Version :: u32
  ServerInfoList :: "'a xServerInfo list"

definition ser_xPP_DownloadAuditAccountServerListResp ::
    "'a wire \<Rightarrow> 'a xPP_DownloadAuditAccountServerListResp \<Rightarrow> bytes" where
  "ser_xPP_DownloadAuditAccountServerListResp wc m =
     w_u32 wc (xPP_DownloadAuditAccountServerListResp.Version m) @
     w_u32 wc (word_of_nat (length (xPP_DownloadAuditAccountServerListResp.ServerInfoList m))) @
     concat (map (w_server_info wc) (xPP_DownloadAuditAccountServerListResp.ServerInfoList m))"

definition des_xPP_DownloadAuditAccountServerListResp ::
    "'a wire \<Rightarrow> bytes \<Rightarrow> ('a xPP_DownloadAuditAccountServerListResp \<times> bytes) option" where
  "des_xPP_DownloadAuditAccountServerListResp wc s = do {
     (Version, s) \<leftarrow> r_u32 wc s;
     (Count, s) \<leftarrow> r_u32 wc s;
     if Count \<ge> MAX_DEVICE_AUDIT_SERVER_COUNT then None else do {
       (L, s) \<leftarrow> read_many (unat Count) (r_server_info wc) s;
       Some (xPP_DownloadAuditAccountServerListResp.make Version L, s)}}"
context wire_codec begin

lemma ser_des_xPP_AcquireServerId [wire_simps]:
  "des_xPP_AcquireServerId wc (ser_xPP_AcquireServerId wc m @ s) = Some (m, s)"
  by (cases m) (simp add: ser_xPP_AcquireServerId_def des_xPP_AcquireServerId_def xPP_AcquireServerId.defs)

lemma ser_des_xPP_AcquireServerIdResp [wire_simps]:
  "des_xPP_AcquireServerIdResp wc (ser_xPP_AcquireServerIdResp wc m @ s) = Some (m, s)"
  by (cases m) (simp add: ser_xPP_AcquireServerIdResp_def des_xPP_AcquireServerIdResp_def xPP_AcquireServerIdResp.defs)

lemma ser_des_xQueryAuthCache [wire_simps]:
  "ok_xQueryAuthCache wc m \<Longrightarrow> des_xQueryAuthCache wc (ser_xQueryAuthCache wc m @ s) = Some (m, s)"
  by (cases m) (simp add: ser_xQueryAuthCache_def des_xQueryAuthCache_def ok_xQueryAuthCache_def xQueryAuthCache.defs)

lemma ser_des_xQueryAuthCacheResp [wire_simps]:
  "ok_xQueryAuthCacheResp wc m \<Longrightarrow> des_xQueryAuthCacheResp wc (ser_xQueryAuthCacheResp wc m @ s) = Some (m, s)"
  by (cases m) (simp add: ser_xQueryAuthCacheResp_def des_xQueryAuthCacheResp_def ok_xQueryAuthCacheResp_def xQueryAuthCacheResp.defs)

lemma ser_des_xPP_AcquireDevice [wire_simps]:
  "des_xPP_AcquireDevice wc (ser_xPP_AcquireDevice wc m @ s) = Some (m, s)"
  by (cases m) (simp add: ser_xPP_AcquireDevice_def des_xPP_AcquireDevice_def xPP_AcquireDevice.defs)

lemma ser_des_xPP_AcquireDeviceResp [wire_simps]:
  "des_xPP_AcquireDeviceResp wc (ser_xPP_AcquireDeviceResp wc m @ s) = Some (m, s)"
  by (cases m) (simp add: ser_xPP_AcquireDeviceResp_def des_xPP_AcquireDeviceResp_def xPP_AcquireDeviceResp.defs)

lemma ser_des_xPP_DeviceInfoUpdate [wire_simps]:
  "ok_xPP_DeviceInfoUpdate wc m \<Longrightarrow> des_xPP_DeviceInfoUpdate wc m0 (ser_xPP_DeviceInfoUpdate wc m @ s) = Some (m\<lparr>ContinentId := ContinentId m0\<rparr>, s)"
  by (cases m) (simp add: ser_xPP_DeviceInfoUpdate_def des_xPP_DeviceInfoUpdate_def ok_xPP_DeviceInfoUpdate_def xPP_DeviceInfoUpdate.defs)

lemma ser_des_xPP_RegisterAuthCacheServer [wire_simps]:
  "des_xPP_RegisterAuthCacheServer wc (ser_xPP_RegisterAuthCacheServer wc m @ s) = Some (m, s)"
  by (cases m) (simp add: ser_xPP_RegisterAuthCacheServer_def des_xPP_RegisterAuthCacheServer_def xPP_RegisterAuthCacheServer.defs)

lemma ser_des_xPP_RegisterAuditDeviceServer [wire_simps]:
  "des_xPP_RegisterAuditDeviceServer wc (ser_xPP_RegisterAuditDeviceServer wc m @ s) = Some (m, s)"
  by (cases m) (simp add: ser_xPP_RegisterAuditDeviceServer_def des_xPP_RegisterAuditDeviceServer_def xPP_RegisterAuditDeviceServer.defs)

lemma ser_des_xPP_RegisterAuditAccountServer [wire_simps]:
  "des_xPP_RegisterAuditAccountServer wc (ser_xPP_RegisterAuditAccountServer wc m @ s) = Some (m, s)"
  by (cases m) (simp add: ser_xPP_RegisterAuditAccountServer_def des_xPP_RegisterAuditAccountServer_def xPP_RegisterAuditAccountServer.defs)

lemma ser_des_xPP_RegisterServerResponse [wire_simps]:
  "des_xPP_RegisterServerResponse wc (ser_xPP_RegisterServerResponse wc m @ s) = Some (m, s)"
  by (cases m) (simp add: ser_xPP_RegisterServerResponse_def des_xPP_RegisterServerResponse_def xPP_RegisterServerResponse.defs)

lemma ser_des_xPP_DownloadAuthCacheServerList [wire_simps]:
  "des_xPP_DownloadAuthCacheServerList wc (ser_xPP_DownloadAuthCacheServerList wc m @ s) = Some (m, s)"
  by (cases m) (simp add: ser_xPP_DownloadAuthCacheServerList_def des_xPP_DownloadAuthCacheServerList_def xPP_DownloadAuthCacheServerList.defs)

lemma ser_des_xPP_DownloadAuditDeviceServerList [wire_simps]:
  "des_xPP_DownloadAuditDeviceServerList wc (ser_xPP_DownloadAuditDeviceServerList wc m @ s) = Some (m, s)"
  by (cases m) (simp add: ser_xPP_DownloadAuditDeviceServerList_def des_xPP_DownloadAuditDeviceServerList_def xPP_DownloadAuditDeviceServerList.defs)

lemma ser_des_xPP_DownloadAuditAccountServerList [wire_simps]:
  "des_xPP_DownloadAuditAccountServerList wc (ser_xPP_DownloadAuditAccountServerList wc m @ s) = Some (m, s)"
  by (cases m) (simp add: ser_xPP_DownloadAuditAccountServerList_def des_xPP_DownloadAuditAccountServerList_def xPP_DownloadAuditAccountServerList.defs)

lemma server_info_round_trip [simp]: "r_server_info wc (w_server_info wc I @ s) = Some (I, s)"
  by (cases I) (simp add: w_server_info_def r_server_info_def xServerInfo.defs)

lemma server_infos_round_trip:
  "read_many (length L) (r_server_info wc) (concat (map (w_server_info wc) L) @ s) = Some (L, s)"
  by (rule read_many_round_trip) simp

lemma ser_des_xPP_DownloadAuthCacheServerListResp:
  assumes "length (xPP_DownloadAuthCacheServerListResp.ServerInfoList m) < 125"
  shows "des_xPP_DownloadAuthCacheServerListResp wc (ser_xPP_DownloadAuthCacheServerListResp wc m @ s) = Some (m, s)"
proof -
  have "unat (word_of_nat (length (xPP_DownloadAuthCacheServerListResp.ServerInfoList m)) :: u32) =
      length (xPP_DownloadAuthCacheServerListResp.ServerInfoList m)"
    using assms by (simp add: unat_of_nat_small)
  moreover have "\<not> (MAX_AUTH_CACHE_SERVER_COUNT \<le> (word_of_nat (length (xPP_DownloadAuthCacheServerListResp.ServerInfoList m)) :: u32))"
    using assms by (simp add: max_server_count_defs word_le_nat_alt unat_of_nat_small)
  ultimately show ?thesis
    by (cases m) (simp add: ser_xPP_DownloadAuthCacheServerListResp_def des_xPP_DownloadAuthCacheServerListResp_def server_infos_round_trip
        xPP_DownloadAuthCacheServerListResp.defs)
qed

lemma des_xPP_DownloadAuthCacheServerListResp_reject:
  assumes "125 \<le> length (xPP_DownloadAuthCacheServerListResp.ServerInfoList m)"
    "length (xPP_DownloadAuthCacheServerListResp.ServerInfoList m) < 2 ^ 32"
  shows "des_xPP_DownloadAuthCacheServerListResp wc (ser_xPP_DownloadAuthCacheServerListResp wc m @ s) = None"
  using assms by (simp add: ser_xPP_DownloadAuthCacheServerListResp_def des_xPP_DownloadAuthCacheServerListResp_def max_server_count_defs
      word_le_nat_alt unat_of_nat_small)

lemma ser_des_xPP_DownloadAuditDeviceServerListResp:
  assumes "length (xPP_DownloadAuditDeviceServerListResp.ServerInfoList m) < 125"
  shows "des_xPP_DownloadAuditDeviceServerListResp wc (ser_xPP_DownloadAuditDeviceServerListResp wc m @ s) = Some (m, s)"
proof -
  have "unat (word_of_nat (length (xPP_DownloadAuditDeviceServerListResp.ServerInfoList m)) :: u32) =
      length (xPP_DownloadAuditDeviceServerListResp.ServerInfoList m)"
    using assms by (simp add: unat_of_nat_small)
  moreover have "\<not> (MAX_DEVICE_AUDIT_SERVER_COUNT \<le> (word_of_nat (length (xPP_DownloadAuditDeviceServerListResp.ServerInfoList m)) :: u32))"
    using assms by (simp add: max_server_count_defs word_le_nat_alt unat_of_nat_small)
  ultimately show ?thesis
    by (cases m) (simp add: ser_xPP_DownloadAuditDeviceServerListResp_def des_xPP_DownloadAuditDeviceServerListResp_def server_infos_round_trip
        xPP_DownloadAuditDeviceServerListResp.defs)
qed

lemma des_xPP_DownloadAuditDeviceServerListResp_reject:
  assumes "125 \<le> length (xPP_DownloadAuditDeviceServerListResp.ServerInfoList m)"
    "length (xPP_DownloadAuditDeviceServerListResp.ServerInfoList m) < 2 ^ 32"
  shows "des_xPP_DownloadAuditDeviceServerListResp wc (ser_xPP_DownloadAuditDeviceServerListResp wc m @ s) = None"
  using assms by (simp add: ser_xPP_DownloadAuditDeviceServerListResp_def des_xPP_DownloadAuditDeviceServerListResp_def max_server_count_defs
      word_le_nat_alt unat_of_nat_small)

lemma ser_des_xPP_DownloadAuditAccountServerListResp:
  assumes "length (xPP_DownloadAuditAccountServerListResp.ServerInfoList m) < 125"
  shows "des_xPP_DownloadAuditAccountServerListResp wc (ser_xPP_DownloadAuditAccountServerListResp wc m @ s) = Some (m, s)"
proof -
  have "unat (word_of_nat (length (xPP_DownloadAuditAccountServerListResp.ServerInfoList m)) :: u32) =
      length (xPP_DownloadAuditAccountServerListResp.ServerInfoList m)"
    using assms by (simp add: unat_of_nat_small)
  moreover have "\<not> (MAX_DEVICE_AUDIT_SERVER_COUNT \<le> (word_of_nat (length (xPP_DownloadAuditAccountServerListResp.ServerInfoList m)) :: u32))"
    using assms by (simp add: max_server_count_defs word_le_nat_alt unat_of_nat_small)
  ultimately show ?thesis
    by (cases m) (simp add: ser_xPP_DownloadAuditAccountServerListResp_def des_xPP_DownloadAuditAccountServerListResp_def server_infos_round_trip
        xPP_DownloadAuditAccountServerListResp.defs)
qed

lemma des_xPP_DownloadAuditAccountServerListResp_reject:
  assumes "125 \<le> length (xPP_DownloadAuditAccountServerListResp.ServerInfoList m)"
    "length (xPP_DownloadAuditAccountServerListResp.ServerInfoList m) < 2 ^ 32"
  shows "des_xPP_DownloadAuditAccountServerListResp wc (ser_xPP_DownloadAuditAccountServerListResp wc m @ s) = None"
  using assms by (simp add: ser_xPP_DownloadAuditAccountServerListResp_def des_xPP_DownloadAuditAccountServerListResp_def max_server_count_defs
      word_le_nat_alt unat_of_nat_small)

end

sublocale wire_codec \<subseteq> acquire_server_id: message_codec "ser_xPP_AcquireServerId wc" "des_xPP_AcquireServerId wc" "\<lambda>_. True"
  by unfold_locales (simp add: wire_simps)

sublocale wire_codec \<subseteq> acquire_server_id_resp: message_codec "ser_xPP_AcquireServerIdResp wc" "des_xPP_AcquireServerIdResp wc" "\<lambda>_. True"
  by unfold_locales (simp add: wire_simps)

sublocale wire_codec \<subseteq> query_auth_resp: message_codec "ser_xQueryAuthCacheResp wc" "des_xQueryAuthCacheResp wc" "ok_xQueryAuthCacheResp wc"
  by unfold_locales (simp add: wire_simps)

sublocale wire_codec \<subseteq> acquire_device: message_codec "ser_xPP_AcquireDevice wc" "des_xPP_AcquireDevice wc" "\<lambda>_. True"
  by unfold_locales (simp add: wire_simps)

sublocale wire_codec \<subseteq> acquire_device_resp: message_codec "ser_xPP_AcquireDeviceResp wc" "des_xPP_AcquireDeviceResp wc" "\<lambda>_. True"
  by unfold_locales (simp add: wire_simps)

sublocale wire_codec \<subseteq> register_AuthCache: message_codec "ser_xPP_RegisterAuthCacheServer wc" "des_xPP_RegisterAuthCacheServer wc" "\<lambda>_. True"
  by unfold_locales (simp add: wire_simps)

sublocale wire_codec \<subseteq> register_AuditDevice: message_codec "ser_xPP_RegisterAuditDeviceServer wc" "des_xPP_RegisterAuditDeviceServer wc" "\<lambda>_. True"
  by unfold_locales (simp add: wire_simps)

sublocale wire_codec \<subseteq> register_AuditAccount: message_codec "ser_xPP_RegisterAuditAccountServer wc" "des_xPP_RegisterAuditAccountServer wc" "\<lambda>_. True"
  by unfold_locales (simp add: wire_simps)

sublocale wire_codec \<subseteq> register_response: message_codec "ser_xPP_RegisterServerResponse wc" "des_xPP_RegisterServerResponse wc" "\<lambda>_. True"
  by unfold_locales (simp add: wire_simps)

sublocale wire_codec \<subseteq> download_AuthCache: message_codec "ser_xPP_DownloadAuthCacheServerList wc" "des_xPP_DownloadAuthCacheServerList wc" "\<lambda>_. True"
  by unfold_locales (simp add: wire_simps)

sublocale wire_codec \<subseteq> download_AuditDevice: message_codec "ser_xPP_DownloadAuditDeviceServerList wc" "des_xPP_DownloadAuditDeviceServerList wc" "\<lambda>_. True"
  by unfold_locales (simp add: wire_simps)

sublocale wire_codec \<subseteq> download_AuditAccount: message_codec "ser_xPP_DownloadAuditAccountServerList wc" "des_xPP_DownloadAuditAccountServerList wc" "\<lambda>_. True"
  by unfold_locales (simp add: wire_simps)

subsection \<open>Configuration centre\<close>

text \<open>
  \<^verbatim>\<open>cc_all\<close>, \<^verbatim>\<open>cc_dv\<close>, \<^verbatim>\<open>cc_pa\<close>, \<^verbatim>\<open>ac_cc\<close>: backend servers, device challenges, and the paged
  download of the relay servers.
\<close>

record xCC_ALL_GetBackendServerList =
  TimestampMS :: u64

definition ser_xCC_ALL_GetBackendServerList :: "'a wire \<Rightarrow> xCC_ALL_GetBackendServerList \<Rightarrow> bytes" where
  "ser_xCC_ALL_GetBackendServerList wc m =
     w_u64 wc (xCC_ALL_GetBackendServerList.TimestampMS m)"

definition des_xCC_ALL_GetBackendServerList :: "'a wire \<Rightarrow> bytes \<Rightarrow> (xCC_ALL_GetBackendServerList \<times> bytes) option" where
  "des_xCC_ALL_GetBackendServerList wc s = do {
       (TimestampMS, s) \<leftarrow> r_u64 wc s;
       Some (xCC_ALL_GetBackendServerList.make TimestampMS, s)}"

text \<open>The address list is a vector the message points to; the reader takes any count.\<close>

definition ser_xCC_ALL_GetBackendServerListResp :: "'a wire \<Rightarrow> 'a list \<Rightarrow> bytes" where
  "ser_xCC_ALL_GetBackendServerListResp wc AddressList =
     w_u32 wc (word_of_nat (length AddressList)) @ concat (map (w_addr wc) AddressList)"

definition des_xCC_ALL_GetBackendServerListResp ::
    "'a wire \<Rightarrow> bytes \<Rightarrow> ('a list \<times> bytes) option" where
  "des_xCC_ALL_GetBackendServerListResp wc s = do {
     (Count, s) \<leftarrow> r_u32 wc s;
     read_many (unat Count) (r_addr wc) s}"
record xCC_DeviceChallenge =
  AppVersion :: u32
  Timestamp :: u64
  Sign :: bytes

definition ser_xCC_DeviceChallenge :: "'a wire \<Rightarrow> xCC_DeviceChallenge \<Rightarrow> bytes" where
  "ser_xCC_DeviceChallenge wc m =
     w_u32 wc (xCC_DeviceChallenge.AppVersion m) @
     w_u64 wc (xCC_DeviceChallenge.Timestamp m) @
     w_str wc (xCC_DeviceChallenge.Sign m)"

definition des_xCC_DeviceChallenge :: "'a wire \<Rightarrow> bytes \<Rightarrow> (xCC_DeviceChallenge \<times> bytes) option" where
  "des_xCC_DeviceChallenge wc s = do {
       (AppVersion, s) \<leftarrow> r_u32 wc s;
       (Timestamp, s) \<leftarrow> r_u64 wc s;
       (Sign, s) \<leftarrow> r_str wc s;
       Some (xCC_DeviceChallenge.make AppVersion Timestamp Sign, s)}"

definition ok_xCC_DeviceChallenge :: "'a wire \<Rightarrow> xCC_DeviceChallenge \<Rightarrow> bool" where
  "ok_xCC_DeviceChallenge wc m \<longleftrightarrow>
     length (xCC_DeviceChallenge.Sign m) \<le> w_str_max wc"

record 'a xCC_DeviceChallengeResp =
  CtrlAddress :: 'a
  DataAddress :: 'a
  CheckKey :: bytes
  TerminalAddress :: 'a
  UseOldVersion :: bool
  EnableSpeedControl :: bool

definition ser_xCC_DeviceChallengeResp :: "'a wire \<Rightarrow> 'a xCC_DeviceChallengeResp \<Rightarrow> bytes" where
  "ser_xCC_DeviceChallengeResp wc m =
     w_addr wc (xCC_DeviceChallengeResp.CtrlAddress m) @
     w_addr wc (xCC_DeviceChallengeResp.DataAddress m) @
     w_str wc (xCC_DeviceChallengeResp.CheckKey m) @
     w_addr wc (xCC_DeviceChallengeResp.TerminalAddress m) @
     w_bool wc (xCC_DeviceChallengeResp.UseOldVersion m) @
     w_bool wc (xCC_DeviceChallengeResp.EnableSpeedControl m)"

definition des_xCC_DeviceChallengeResp :: "'a wire \<Rightarrow> bytes \<Rightarrow> ('a xCC_DeviceChallengeResp \<times> bytes) option" where
  "des_xCC_DeviceChallengeResp wc s = do {
       (CtrlAddress, s) \<leftarrow> r_addr wc s;
       (DataAddress, s) \<leftarrow> r_addr wc s;
       (CheckKey, s) \<leftarrow> r_str wc s;
       (TerminalAddress, s) \<leftarrow> r_addr wc s;
       (UseOldVersion, s) \<leftarrow> r_bool wc s;
       (EnableSpeedControl, s) \<leftarrow> r_bool wc s;
       Some (xCC_DeviceChallengeResp.make CtrlAddress DataAddress CheckKey TerminalAddress UseOldVersion EnableSpeedControl, s)}"

definition ok_xCC_DeviceChallengeResp :: "'a wire \<Rightarrow> 'a xCC_DeviceChallengeResp \<Rightarrow> bool" where
  "ok_xCC_DeviceChallengeResp wc m \<longleftrightarrow>
     length (xCC_DeviceChallengeResp.CheckKey m) \<le> w_str_max wc"

record xCC_PA_GetRelayServerListVersion =
  OldVersion :: u32

definition ser_xCC_PA_GetRelayServerListVersion :: "'a wire \<Rightarrow> xCC_PA_GetRelayServerListVersion \<Rightarrow> bytes" where
  "ser_xCC_PA_GetRelayServerListVersion wc m =
     w_u32 wc (xCC_PA_GetRelayServerListVersion.OldVersion m)"

definition des_xCC_PA_GetRelayServerListVersion :: "'a wire \<Rightarrow> bytes \<Rightarrow> (xCC_PA_GetRelayServerListVersion \<times> bytes) option" where
  "des_xCC_PA_GetRelayServerListVersion wc s = do {
       (OldVersion, s) \<leftarrow> r_u32 wc s;
       Some (xCC_PA_GetRelayServerListVersion.make OldVersion, s)}"

record xCC_PA_GetRelayServerListVersionResp =
  Version :: u32

definition ser_xCC_PA_GetRelayServerListVersionResp :: "'a wire \<Rightarrow> xCC_PA_GetRelayServerListVersionResp \<Rightarrow> bytes" where
  "ser_xCC_PA_GetRelayServerListVersionResp wc m =
     w_u32 wc (xCC_PA_GetRelayServerListVersionResp.Version m)"

definition des_xCC_PA_GetRelayServerListVersionResp :: "'a wire \<Rightarrow> bytes \<Rightarrow> (xCC_PA_GetRelayServerListVersionResp \<times> bytes) option" where
  "des_xCC_PA_GetRelayServerListVersionResp wc s = do {
       (Version, s) \<leftarrow> r_u32 wc s;
       Some (xCC_PA_GetRelayServerListVersionResp.make Version, s)}"

record xCC_PA_DownloadRelayServerList =
  Version :: u32
  StartIndex :: u32

definition ser_xCC_PA_DownloadRelayServerList :: "'a wire \<Rightarrow> xCC_PA_DownloadRelayServerList \<Rightarrow> bytes" where
  "ser_xCC_PA_DownloadRelayServerList wc m =
     w_u32 wc (xCC_PA_DownloadRelayServerList.Version m) @
     w_u32 wc (xCC_PA_DownloadRelayServerList.StartIndex m)"

definition des_xCC_PA_DownloadRelayServerList :: "'a wire \<Rightarrow> bytes \<Rightarrow> (xCC_PA_DownloadRelayServerList \<times> bytes) option" where
  "des_xCC_PA_DownloadRelayServerList wc s = do {
       (Version, s) \<leftarrow> r_u32 wc s;
       (StartIndex, s) \<leftarrow> r_u32 wc s;
       Some (xCC_PA_DownloadRelayServerList.make Version StartIndex, s)}"

record 'a xCC_PA_RelayServerInfo =
  RuntimeServerId :: u32
  SourcePoolId :: u16
  ExportProxyAddress :: 'a

definition w_relay_info :: "'a wire \<Rightarrow> 'a xCC_PA_RelayServerInfo \<Rightarrow> bytes" where
  "w_relay_info wc I = w_u32 wc (RuntimeServerId I) @ w_u16 wc (SourcePoolId I) @
     w_addr wc (ExportProxyAddress I)"

definition r_relay_info :: "'a wire \<Rightarrow> bytes \<Rightarrow> ('a xCC_PA_RelayServerInfo \<times> bytes) option" where
  "r_relay_info wc s = do {
     (i, s) \<leftarrow> r_u32 wc s;
     (p, s) \<leftarrow> r_u16 wc s;
     (a, s) \<leftarrow> r_addr wc s;
     Some (xCC_PA_RelayServerInfo.make i p a, s)}"

text \<open>
  The writer sends the page that starts at \<open>StartIndex\<close>, of at most 100 servers; its assertions
  refuse an index behind the list. The page's end is computed in 64 bits and stored in 32.
\<close>

definition MAX_SERVER_INFO_COUNT_PER_DOWNLOAD :: u32 where
  "MAX_SERVER_INFO_COUNT_PER_DOWNLOAD = 100"

record 'a xCC_PA_DownloadRelayServerListRespWriter =
  Version :: u32
  StartIndex :: u32
  TotalServerList :: "'a xCC_PA_RelayServerInfo list"

definition ser_xCC_PA_DownloadRelayServerListRespWriter ::
    "'a wire \<Rightarrow> 'a xCC_PA_DownloadRelayServerListRespWriter \<Rightarrow> bytes option" where
  "ser_xCC_PA_DownloadRelayServerListRespWriter wc m =
     (let Total = word_of_nat (length (TotalServerList m));
          Start = xCC_PA_DownloadRelayServerListRespWriter.StartIndex m in
      if \<not> Start < Total then None else
      let EndIndex = min (Start + MAX_SERVER_INFO_COUNT_PER_DOWNLOAD) Total;
          Count = EndIndex - Start in
      Some (w_u32 wc (xCC_PA_DownloadRelayServerListRespWriter.Version m) @ w_u32 wc Total @
            w_u32 wc Start @ w_u32 wc Count @
            concat (map (\<lambda>I. w_relay_info wc (TotalServerList m ! I)) [unat Start ..< unat EndIndex])))"

record 'a xCC_PA_DownloadRelayServerListRespReader =
  Version :: u32
  Total :: u32
  StartIndex :: u32
  Count :: u32
  LocalServerList :: "'a xCC_PA_RelayServerInfo list"

definition des_xCC_PA_DownloadRelayServerListRespReader ::
    "'a wire \<Rightarrow> bytes \<Rightarrow> ('a xCC_PA_DownloadRelayServerListRespReader \<times> bytes) option" where
  "des_xCC_PA_DownloadRelayServerListRespReader wc s = do {
     (Version, s) \<leftarrow> r_u32 wc s;
     (Total, s) \<leftarrow> r_u32 wc s;
     (StartIndex, s) \<leftarrow> r_u32 wc s;
     (Count, s) \<leftarrow> r_u32 wc s;
     (L, s) \<leftarrow> read_many (unat Count) (r_relay_info wc) s;
     Some (xCC_PA_DownloadRelayServerListRespReader.make Version Total StartIndex Count L, s)}"

definition GetNextStartIndex :: "'a xCC_PA_DownloadRelayServerListRespReader \<Rightarrow> u32" where
  "GetNextStartIndex m = xCC_PA_DownloadRelayServerListRespReader.StartIndex m + Count m"


text \<open>
  The request of a server id by an authentication cache carries the MD5 of a salt (with its
  terminating zero) and of the timestamp as the stream writer lays it out (\<open>w_raw64\<close>). \<open>md5\<close> is
  the library's hash.
\<close>

definition SALT_BUFFER :: bytes where
  "SALT_BUFFER = bytes_of ''xdfasd56YKJ'' @ [0]"

definition Hash :: "(bytes \<Rightarrow> bytes) \<Rightarrow> (u64 \<Rightarrow> bytes) \<Rightarrow> u64 \<Rightarrow> bytes" where
  "Hash md5 w_raw64 t = md5 (SALT_BUFFER @ w_raw64 t)"

definition ser_x_AC_CC_AllocServerId ::
    "'a wire \<Rightarrow> (bytes \<Rightarrow> bytes) \<Rightarrow> (u64 \<Rightarrow> bytes) \<Rightarrow> u64 \<Rightarrow> bytes" where
  "ser_x_AC_CC_AllocServerId wc md5 w_raw64 t =
     w_u64 wc t @ w_str wc (take 16 (Hash md5 w_raw64 t))"

definition des_x_AC_CC_AllocServerId ::
    "'a wire \<Rightarrow> (bytes \<Rightarrow> bytes) \<Rightarrow> (u64 \<Rightarrow> bytes) \<Rightarrow> bytes \<Rightarrow> (u64 \<times> bytes) option" where
  "des_x_AC_CC_AllocServerId wc md5 w_raw64 s = do {
     (TimestampMS, s) \<leftarrow> r_u64 wc s;
     (Check, s) \<leftarrow> r_str wc s;
     if Check \<noteq> take 16 (Hash md5 w_raw64 TimestampMS) then None else Some (TimestampMS, s)}"


record x_AC_CC_AllocServerIdResp =
  ServerId :: u32

definition ser_x_AC_CC_AllocServerIdResp :: "'a wire \<Rightarrow> x_AC_CC_AllocServerIdResp \<Rightarrow> bytes" where
  "ser_x_AC_CC_AllocServerIdResp wc m =
     w_u32 wc (x_AC_CC_AllocServerIdResp.ServerId m)"

definition des_x_AC_CC_AllocServerIdResp :: "'a wire \<Rightarrow> bytes \<Rightarrow> (x_AC_CC_AllocServerIdResp \<times> bytes) option" where
  "des_x_AC_CC_AllocServerIdResp wc s = do {
       (ServerId, s) \<leftarrow> r_u32 wc s;
       Some (x_AC_CC_AllocServerIdResp.make ServerId, s)}"

context wire_codec begin

lemma ser_des_xCC_ALL_GetBackendServerList [wire_simps]:
  "des_xCC_ALL_GetBackendServerList wc (ser_xCC_ALL_GetBackendServerList wc m @ s) = Some (m, s)"
  by (cases m) (simp add: ser_xCC_ALL_GetBackendServerList_def des_xCC_ALL_GetBackendServerList_def xCC_ALL_GetBackendServerList.defs)

lemma ser_des_xCC_ALL_GetBackendServerListResp [wire_simps]:
  "length A < 2 ^ 32 \<Longrightarrow>
   des_xCC_ALL_GetBackendServerListResp wc (ser_xCC_ALL_GetBackendServerListResp wc A @ s) = Some (A, s)"
  by (simp add: ser_xCC_ALL_GetBackendServerListResp_def des_xCC_ALL_GetBackendServerListResp_def
      unat_of_nat_small read_many_round_trip)

lemma ser_des_xCC_DeviceChallenge [wire_simps]:
  "ok_xCC_DeviceChallenge wc m \<Longrightarrow> des_xCC_DeviceChallenge wc (ser_xCC_DeviceChallenge wc m @ s) = Some (m, s)"
  by (cases m) (simp add: ser_xCC_DeviceChallenge_def des_xCC_DeviceChallenge_def ok_xCC_DeviceChallenge_def xCC_DeviceChallenge.defs)

lemma ser_des_xCC_DeviceChallengeResp [wire_simps]:
  "ok_xCC_DeviceChallengeResp wc m \<Longrightarrow> des_xCC_DeviceChallengeResp wc (ser_xCC_DeviceChallengeResp wc m @ s) = Some (m, s)"
  by (cases m) (simp add: ser_xCC_DeviceChallengeResp_def des_xCC_DeviceChallengeResp_def ok_xCC_DeviceChallengeResp_def xCC_DeviceChallengeResp.defs)

lemma ser_des_xCC_PA_GetRelayServerListVersion [wire_simps]:
  "des_xCC_PA_GetRelayServerListVersion wc (ser_xCC_PA_GetRelayServerListVersion wc m @ s) = Some (m, s)"
  by (cases m) (simp add: ser_xCC_PA_GetRelayServerListVersion_def des_xCC_PA_GetRelayServerListVersion_def xCC_PA_GetRelayServerListVersion.defs)

lemma ser_des_xCC_PA_GetRelayServerListVersionResp [wire_simps]:
  "des_xCC_PA_GetRelayServerListVersionResp wc (ser_xCC_PA_GetRelayServerListVersionResp wc m @ s) = Some (m, s)"
  by (cases m) (simp add: ser_xCC_PA_GetRelayServerListVersionResp_def des_xCC_PA_GetRelayServerListVersionResp_def xCC_PA_GetRelayServerListVersionResp.defs)

lemma ser_des_xCC_PA_DownloadRelayServerList [wire_simps]:
  "des_xCC_PA_DownloadRelayServerList wc (ser_xCC_PA_DownloadRelayServerList wc m @ s) = Some (m, s)"
  by (cases m) (simp add: ser_xCC_PA_DownloadRelayServerList_def des_xCC_PA_DownloadRelayServerList_def xCC_PA_DownloadRelayServerList.defs)

lemma relay_info_round_trip [simp]: "r_relay_info wc (w_relay_info wc I @ s) = Some (I, s)"
  by (cases I) (simp add: w_relay_info_def r_relay_info_def xCC_PA_RelayServerInfo.defs)

lemma relay_infos_round_trip:
  "read_many (length L) (r_relay_info wc) (concat (map (w_relay_info wc) L) @ s) = Some (L, s)"
  by (rule read_many_round_trip) simp

lemma relay_page_round_trip:
  assumes len: "length (TotalServerList m) < 2 ^ 31"
    and i: "i < length (TotalServerList m)"
    and s: "xCC_PA_DownloadRelayServerListRespWriter.StartIndex m = word_of_nat i"
  shows "\<exists>b r. ser_xCC_PA_DownloadRelayServerListRespWriter wc m = Some b \<and>
    des_xCC_PA_DownloadRelayServerListRespReader wc (b @ t) = Some (r, t) \<and>
    xCC_PA_DownloadRelayServerListRespReader.Version r =
      xCC_PA_DownloadRelayServerListRespWriter.Version m \<and>
    unat (Total r) = length (TotalServerList m) \<and>
    LocalServerList r = take 100 (drop i (TotalServerList m)) \<and>
    unat (GetNextStartIndex r) = i + length (LocalServerList r)"
proof -
  let ?L = "TotalServerList m" and ?n = "length (TotalServerList m)"
  define e where "e = min (i + 100) ?n"
  have small: "unat (word_of_nat i :: u32) = i" "unat (word_of_nat ?n :: u32) = ?n"
    using len i by (auto intro!: unat_of_nat_small)
  have add: "unat (word_of_nat i + 100 :: u32) = i + 100"
    using len i by (subst unat_add_small) (auto simp: small)
  have E: "unat (min (word_of_nat i + MAX_SERVER_INFO_COUNT_PER_DOWNLOAD)
      (word_of_nat ?n) :: u32) = e"
    using add small by (auto simp: min_def e_def word_le_nat_alt MAX_SERVER_INFO_COUNT_PER_DOWNLOAD_def)
  have le: "i \<le> e" "e \<le> ?n" using i by (auto simp: e_def)
  let ?E = "min (word_of_nat i + MAX_SERVER_INFO_COUNT_PER_DOWNLOAD) (word_of_nat ?n) :: u32"
  have cnt: "unat (?E - word_of_nat i) = e - i"
    using E small le by (subst unat_sub_le) (auto simp: word_le_nat_alt)
  have nxt: "word_of_nat i + (?E - word_of_nat i) = ?E" by simp
  have lp: "length (take 100 (drop i ?L)) = e - i" using i by (auto simp: e_def)
  have page: "map (\<lambda>I. w_relay_info wc (?L ! I)) [i ..< e] = map (w_relay_info wc) (take 100 (drop i ?L))"
  proof (rule nth_equalityI)
    fix k assume k: "k < length (map (\<lambda>I. w_relay_info wc (?L ! I)) [i ..< e])"
    then have "k < 100" "k < length (take 100 (drop i ?L))" using lp by (auto simp: e_def)
    with k show "map (\<lambda>I. w_relay_info wc (?L ! I)) [i ..< e] ! k =
        map (w_relay_info wc) (take 100 (drop i ?L)) ! k"
      by (simp add: add.commute)
  qed (simp only: length_map length_upt lp)
  have lt: "(word_of_nat i :: u32) < word_of_nat ?n" using small i by (simp add: word_less_nat_alt)
  have rd: "read_many (e - i) (r_relay_info wc)
      (concat (map (w_relay_info wc) (take 100 (drop i ?L))) @ t) = Some (take 100 (drop i ?L), t)"
    using relay_infos_round_trip [of "take 100 (drop i ?L)" t] unfolding lp .
  have pe: "i + min (?n - i) 100 = e" using i by (auto simp: e_def)
  show ?thesis
    using lt
    by (simp add: rd pe ser_xCC_PA_DownloadRelayServerListRespWriter_def s small E page Let_def
        des_xCC_PA_DownloadRelayServerListRespReader_def cnt
        xCC_PA_DownloadRelayServerListRespReader.defs GetNextStartIndex_def nxt)
qed

lemma ser_des_x_AC_CC_AllocServerId [wire_simps]:
  "16 \<le> w_str_max wc \<Longrightarrow> des_x_AC_CC_AllocServerId wc md5 w_raw64
     (ser_x_AC_CC_AllocServerId wc md5 w_raw64 t @ s) = Some (t, s)"
  by (simp add: ser_x_AC_CC_AllocServerId_def des_x_AC_CC_AllocServerId_def)

lemma des_x_AC_CC_AllocServerId_reject:
  assumes "length c \<le> w_str_max wc" "c \<noteq> take 16 (Hash md5 w_raw64 t)"
  shows "des_x_AC_CC_AllocServerId wc md5 w_raw64 (w_u64 wc t @ w_str wc c @ s) = None"
  using assms by (simp add: des_x_AC_CC_AllocServerId_def)

lemma ser_des_x_AC_CC_AllocServerIdResp [wire_simps]:
  "des_x_AC_CC_AllocServerIdResp wc (ser_x_AC_CC_AllocServerIdResp wc m @ s) = Some (m, s)"
  by (cases m) (simp add: ser_x_AC_CC_AllocServerIdResp_def des_x_AC_CC_AllocServerIdResp_def x_AC_CC_AllocServerIdResp.defs)

end

sublocale wire_codec \<subseteq> device_challenge: message_codec "ser_xCC_DeviceChallenge wc" "des_xCC_DeviceChallenge wc" "ok_xCC_DeviceChallenge wc"
  by unfold_locales (simp add: wire_simps)

sublocale wire_codec \<subseteq> device_challenge_resp: message_codec "ser_xCC_DeviceChallengeResp wc" "des_xCC_DeviceChallengeResp wc" "ok_xCC_DeviceChallengeResp wc"
  by unfold_locales (simp add: wire_simps)

sublocale wire_codec \<subseteq> download_relays: message_codec "ser_xCC_PA_DownloadRelayServerList wc" "des_xCC_PA_DownloadRelayServerList wc" "\<lambda>_. True"
  by unfold_locales (simp add: wire_simps)

subsection \<open>Server manager, DNS and network\<close>

text \<open>
  \<^verbatim>\<open>server_manager.hpp\<close>, \<^verbatim>\<open>dns_server/dns_dispatcher.cpp\<close>, \<^verbatim>\<open>network.hpp\<close>, \<^verbatim>\<open>base.hpp\<close>.
\<close>

record 'a xRegisterAuditServer =
  ServerUuid :: bytes
  BindAddress :: 'a

definition ser_xRegisterAuditServer :: "'a wire \<Rightarrow> 'a xRegisterAuditServer \<Rightarrow> bytes" where
  "ser_xRegisterAuditServer wc m =
     w_str wc (xRegisterAuditServer.ServerUuid m) @
     w_addr wc (xRegisterAuditServer.BindAddress m)"

definition des_xRegisterAuditServer :: "'a wire \<Rightarrow> bytes \<Rightarrow> ('a xRegisterAuditServer \<times> bytes) option" where
  "des_xRegisterAuditServer wc s = do {
       (ServerUuid, s) \<leftarrow> r_str wc s;
       (BindAddress, s) \<leftarrow> r_addr wc s;
       Some (xRegisterAuditServer.make ServerUuid BindAddress, s)}"

definition ok_xRegisterAuditServer :: "'a wire \<Rightarrow> 'a xRegisterAuditServer \<Rightarrow> bool" where
  "ok_xRegisterAuditServer wc m \<longleftrightarrow>
     length (xRegisterAuditServer.ServerUuid m) \<le> w_str_max wc"

record xRegisterAuditServerResp =
  Accepted :: bool

definition ser_xRegisterAuditServerResp :: "'a wire \<Rightarrow> xRegisterAuditServerResp \<Rightarrow> bytes" where
  "ser_xRegisterAuditServerResp wc m =
     w_bool wc (xRegisterAuditServerResp.Accepted m)"

definition des_xRegisterAuditServerResp :: "'a wire \<Rightarrow> bytes \<Rightarrow> (xRegisterAuditServerResp \<times> bytes) option" where
  "des_xRegisterAuditServerResp wc s = do {
       (Accepted, s) \<leftarrow> r_bool wc s;
       Some (xRegisterAuditServerResp.make Accepted, s)}"

record xRegisterRelayServerResp =
  Accepted :: bool

definition ser_xRegisterRelayServerResp :: "'a wire \<Rightarrow> xRegisterRelayServerResp \<Rightarrow> bytes" where
  "ser_xRegisterRelayServerResp wc m =
     w_bool wc (xRegisterRelayServerResp.Accepted m)"

definition des_xRegisterRelayServerResp :: "'a wire \<Rightarrow> bytes \<Rightarrow> (xRegisterRelayServerResp \<times> bytes) option" where
  "des_xRegisterRelayServerResp wc s = do {
       (Accepted, s) \<leftarrow> r_bool wc s;
       Some (xRegisterRelayServerResp.make Accepted, s)}"

record xSetMaxAuditIdResp =
  Accepted :: bool

definition ser_xSetMaxAuditIdResp :: "'a wire \<Rightarrow> xSetMaxAuditIdResp \<Rightarrow> bytes" where
  "ser_xSetMaxAuditIdResp wc m =
     w_bool wc (xSetMaxAuditIdResp.Accepted m)"

definition des_xSetMaxAuditIdResp :: "'a wire \<Rightarrow> bytes \<Rightarrow> (xSetMaxAuditIdResp \<times> bytes) option" where
  "des_xSetMaxAuditIdResp wc s = do {
       (Accepted, s) \<leftarrow> r_bool wc s;
       Some (xSetMaxAuditIdResp.make Accepted, s)}"

record xRegisterErrorReportServerResp =
  Accepted :: bool

definition ser_xRegisterErrorReportServerResp :: "'a wire \<Rightarrow> xRegisterErrorReportServerResp \<Rightarrow> bytes" where
  "ser_xRegisterErrorReportServerResp wc m =
     w_bool wc (xRegisterErrorReportServerResp.Accepted m)"

definition des_xRegisterErrorReportServerResp :: "'a wire \<Rightarrow> bytes \<Rightarrow> (xRegisterErrorReportServerResp \<times> bytes) option" where
  "des_xRegisterErrorReportServerResp wc s = do {
       (Accepted, s) \<leftarrow> r_bool wc s;
       Some (xRegisterErrorReportServerResp.make Accepted, s)}"

record xSetMaxAuditId =
  MaxAuditId :: u32

definition ser_xSetMaxAuditId :: "'a wire \<Rightarrow> xSetMaxAuditId \<Rightarrow> bytes" where
  "ser_xSetMaxAuditId wc m =
     w_u32 wc (xSetMaxAuditId.MaxAuditId m)"

definition des_xSetMaxAuditId :: "'a wire \<Rightarrow> bytes \<Rightarrow> (xSetMaxAuditId \<times> bytes) option" where
  "des_xSetMaxAuditId wc s = do {
       (MaxAuditId, s) \<leftarrow> r_u32 wc s;
       Some (xSetMaxAuditId.make MaxAuditId, s)}"

text \<open>
  \<open>Servers\<close> is not written; the reader's loop writes the servers its own message already holds,
  which is nothing for a message that starts empty and undefined otherwise.
\<close>

record 'a xAuditServer =
  BeginAuditId :: u32
  EndAuditId :: u32
  ServerBindAddress :: 'a

record 'a xQueryAuditServerListResp =
  Version :: u32
  TotalServers :: u32
  FirstServerIndex :: u32
  LastServerIndex :: u32
  Servers :: "'a xAuditServer list"

definition ser_xQueryAuditServerListResp :: "'a wire \<Rightarrow> 'a xQueryAuditServerListResp \<Rightarrow> bytes" where
  "ser_xQueryAuditServerListResp wc m =
     w_u32 wc (xQueryAuditServerListResp.Version m) @
     w_u32 wc (xQueryAuditServerListResp.TotalServers m) @
     w_u32 wc (xQueryAuditServerListResp.FirstServerIndex m) @
     w_u32 wc (xQueryAuditServerListResp.LastServerIndex m)"

definition des_xQueryAuditServerListResp ::
    "'a wire \<Rightarrow> 'a xQueryAuditServerListResp \<Rightarrow> bytes \<Rightarrow> ('a xQueryAuditServerListResp \<times> bytes) option" where
  "des_xQueryAuditServerListResp wc m0 s = do {
     (Version, s) \<leftarrow> r_u32 wc s;
     (TotalServers, s) \<leftarrow> r_u32 wc s;
     (FirstServerIndex, s) \<leftarrow> r_u32 wc s;
     (LastServerIndex, s) \<leftarrow> r_u32 wc s;
     if Servers m0 \<noteq> [] then None
     else Some (xQueryAuditServerListResp.make Version TotalServers FirstServerIndex LastServerIndex [], s)}"


text \<open>
  A DNS server checks in with a digest over a salt, its timestamp and its version key. \<open>sha256\<close>
  and \<open>md5\<close> are the library's hashes, \<open>StrToHex\<close> its hexadecimal print, \<open>Now\<close> the clock. The clock difference is signed, and its
  absolute value is compared as an unsigned number.
\<close>

record hash_ops =
  hs_sha256 :: "bytes \<Rightarrow> bytes"
  hs_md5 :: "bytes \<Rightarrow> bytes"
  hs_StrToHex :: "bytes \<Rightarrow> bytes"
  hs_StrToHexLower :: "bytes \<Rightarrow> bytes"

record xCheckinDnsServer =
  GroupId :: u32
  UnixTimestamp :: u64
  VersionKey :: bytes

definition MaxTimestampDiff :: u64 where "MaxTimestampDiff = 10 * 60000"

definition HashSaltPrefix :: bytes where "HashSaltPrefix = bytes_of ''DnsDDDDDDispatcher99635''"

definition checkin_digest :: "hash_ops \<Rightarrow> u64 \<Rightarrow> bytes \<Rightarrow> bytes" where
  "checkin_digest h ts Key =
     hs_StrToHex h (hs_md5 h (hs_sha256 h (HashSaltPrefix @ to_string (unat ts) @ Key)))"

definition ser_xCheckinDnsServer :: "'a wire \<Rightarrow> hash_ops \<Rightarrow> u64 \<Rightarrow> xCheckinDnsServer \<Rightarrow> bytes" where
  "ser_xCheckinDnsServer wc h Now m =
     (let Timestamp = (if UnixTimestamp m = 0 then Now else UnixTimestamp m) in
      w_u32 wc (GroupId m) @ w_u64 wc Timestamp @ w_str wc (VersionKey m) @
      w_str wc (checkin_digest h Timestamp (VersionKey m)))"

definition des_xCheckinDnsServer ::
    "'a wire \<Rightarrow> hash_ops \<Rightarrow> u64 \<Rightarrow> bytes \<Rightarrow> (xCheckinDnsServer \<times> bytes) option" where
  "des_xCheckinDnsServer wc h Now s = do {
     (GroupId, s) \<leftarrow> r_u32 wc s;
     (UnixTimestamp, s) \<leftarrow> r_u64 wc s;
     (VersionKey, s) \<leftarrow> r_str wc s;
     (HR, s) \<leftarrow> r_str wc s;
     let Diff = sint (Now - UnixTimestamp) in
     if nat \<bar>Diff\<bar> > unat MaxTimestampDiff then None
     else if checkin_digest h UnixTimestamp VersionKey \<noteq> HR then None
     else Some (xCheckinDnsServer.make GroupId UnixTimestamp VersionKey, s)}"


record xCheckinDnsServerResp =
  Accepted :: bool

definition ser_xCheckinDnsServerResp :: "'a wire \<Rightarrow> xCheckinDnsServerResp \<Rightarrow> bytes" where
  "ser_xCheckinDnsServerResp wc m =
     w_bool wc (xCheckinDnsServerResp.Accepted m)"

definition des_xCheckinDnsServerResp :: "'a wire \<Rightarrow> bytes \<Rightarrow> (xCheckinDnsServerResp \<times> bytes) option" where
  "des_xCheckinDnsServerResp wc s = do {
       (Accepted, s) \<leftarrow> r_bool wc s;
       Some (xCheckinDnsServerResp.make Accepted, s)}"

record xHostQueryReq =
  Hostname :: bytes

definition ser_xHostQueryReq :: "'a wire \<Rightarrow> xHostQueryReq \<Rightarrow> bytes" where
  "ser_xHostQueryReq wc m =
     w_str wc (xHostQueryReq.Hostname m)"

definition des_xHostQueryReq :: "'a wire \<Rightarrow> bytes \<Rightarrow> (xHostQueryReq \<times> bytes) option" where
  "des_xHostQueryReq wc s = do {
       (Hostname, s) \<leftarrow> r_str wc s;
       Some (xHostQueryReq.make Hostname, s)}"

definition ok_xHostQueryReq :: "'a wire \<Rightarrow> xHostQueryReq \<Rightarrow> bool" where
  "ok_xHostQueryReq wc m \<longleftrightarrow>
     length (xHostQueryReq.Hostname m) \<le> w_str_max wc"

record 'a xHostQueryResp =
  Addr4 :: 'a
  Addr6 :: 'a

definition ser_xHostQueryResp :: "'a wire \<Rightarrow> 'a xHostQueryResp \<Rightarrow> bytes" where
  "ser_xHostQueryResp wc m =
     w_addr wc (xHostQueryResp.Addr4 m) @
     w_addr wc (xHostQueryResp.Addr6 m)"

definition des_xHostQueryResp :: "'a wire \<Rightarrow> bytes \<Rightarrow> ('a xHostQueryResp \<times> bytes) option" where
  "des_xHostQueryResp wc s = do {
       (Addr4, s) \<leftarrow> r_addr wc s;
       (Addr6, s) \<leftarrow> r_addr wc s;
       Some (xHostQueryResp.make Addr4 Addr6, s)}"

record xGroupedMessage =
  GroupId :: u32

definition ser_xGroupedMessage :: "'a wire \<Rightarrow> xGroupedMessage \<Rightarrow> bytes" where
  "ser_xGroupedMessage wc m =
     w_u32 wc (xGroupedMessage.GroupId m)"

definition des_xGroupedMessage :: "'a wire \<Rightarrow> bytes \<Rightarrow> (xGroupedMessage \<times> bytes) option" where
  "des_xGroupedMessage wc s = do {
       (GroupId, s) \<leftarrow> r_u32 wc s;
       Some (xGroupedMessage.make GroupId, s)}"

context wire_codec begin

lemma ser_des_xRegisterAuditServer [wire_simps]:
  "ok_xRegisterAuditServer wc m \<Longrightarrow> des_xRegisterAuditServer wc (ser_xRegisterAuditServer wc m @ s) = Some (m, s)"
  by (cases m) (simp add: ser_xRegisterAuditServer_def des_xRegisterAuditServer_def ok_xRegisterAuditServer_def xRegisterAuditServer.defs)

lemma ser_des_xRegisterAuditServerResp [wire_simps]:
  "des_xRegisterAuditServerResp wc (ser_xRegisterAuditServerResp wc m @ s) = Some (m, s)"
  by (cases m) (simp add: ser_xRegisterAuditServerResp_def des_xRegisterAuditServerResp_def xRegisterAuditServerResp.defs)

lemma ser_des_xRegisterRelayServerResp [wire_simps]:
  "des_xRegisterRelayServerResp wc (ser_xRegisterRelayServerResp wc m @ s) = Some (m, s)"
  by (cases m) (simp add: ser_xRegisterRelayServerResp_def des_xRegisterRelayServerResp_def xRegisterRelayServerResp.defs)

lemma ser_des_xSetMaxAuditIdResp [wire_simps]:
  "des_xSetMaxAuditIdResp wc (ser_xSetMaxAuditIdResp wc m @ s) = Some (m, s)"
  by (cases m) (simp add: ser_xSetMaxAuditIdResp_def des_xSetMaxAuditIdResp_def xSetMaxAuditIdResp.defs)

lemma ser_des_xRegisterErrorReportServerResp [wire_simps]:
  "des_xRegisterErrorReportServerResp wc (ser_xRegisterErrorReportServerResp wc m @ s) = Some (m, s)"
  by (cases m) (simp add: ser_xRegisterErrorReportServerResp_def des_xRegisterErrorReportServerResp_def xRegisterErrorReportServerResp.defs)

lemma ser_des_xSetMaxAuditId [wire_simps]:
  "des_xSetMaxAuditId wc (ser_xSetMaxAuditId wc m @ s) = Some (m, s)"
  by (cases m) (simp add: ser_xSetMaxAuditId_def des_xSetMaxAuditId_def xSetMaxAuditId.defs)

lemma query_audit_servers_lost:
  "Servers m0 = [] \<Longrightarrow>
   des_xQueryAuditServerListResp wc m0 (ser_xQueryAuditServerListResp wc m @ s) =
     Some (m\<lparr>Servers := []\<rparr>, s)"
  by (cases m) (simp add: ser_xQueryAuditServerListResp_def des_xQueryAuditServerListResp_def
      xQueryAuditServerListResp.defs)

lemma checkin_spec:
  assumes "length (VersionKey m) \<le> w_str_max wc" "length d \<le> w_str_max wc"
  shows "des_xCheckinDnsServer wc h Now
      (w_u32 wc (xCheckinDnsServer.GroupId m) @ w_u64 wc (UnixTimestamp m) @
       w_str wc (VersionKey m) @ w_str wc d @ s) =
    (if \<bar>sint (Now - UnixTimestamp m)\<bar> \<le> 600000 \<and> d = checkin_digest h (UnixTimestamp m) (VersionKey m)
     then Some (m, s) else None)"
  using assms by (cases m) (auto simp: des_xCheckinDnsServer_def Let_def MaxTimestampDiff_def
      xCheckinDnsServer.defs nat_le_iff)

lemma ser_des_xCheckinDnsServer:
  assumes "length (VersionKey m) \<le> w_str_max wc"
    "\<And>ts. length (checkin_digest h ts (VersionKey m)) \<le> w_str_max wc"
  shows "des_xCheckinDnsServer wc h Now' (ser_xCheckinDnsServer wc h Now m @ s) =
    (let ts = (if UnixTimestamp m = 0 then Now else UnixTimestamp m)
     in if \<bar>sint (Now' - ts)\<bar> \<le> 600000 then Some (m\<lparr>UnixTimestamp := ts\<rparr>, s) else None)"
  using checkin_spec [of "m\<lparr>UnixTimestamp := (if UnixTimestamp m = 0 then Now else UnixTimestamp m)\<rparr>"
      "checkin_digest h (if UnixTimestamp m = 0 then Now else UnixTimestamp m) (VersionKey m)" h Now' s] assms
  by (simp add: ser_xCheckinDnsServer_def Let_def)

lemma ser_des_xCheckinDnsServerResp [wire_simps]:
  "des_xCheckinDnsServerResp wc (ser_xCheckinDnsServerResp wc m @ s) = Some (m, s)"
  by (cases m) (simp add: ser_xCheckinDnsServerResp_def des_xCheckinDnsServerResp_def xCheckinDnsServerResp.defs)

lemma ser_des_xHostQueryReq [wire_simps]:
  "ok_xHostQueryReq wc m \<Longrightarrow> des_xHostQueryReq wc (ser_xHostQueryReq wc m @ s) = Some (m, s)"
  by (cases m) (simp add: ser_xHostQueryReq_def des_xHostQueryReq_def ok_xHostQueryReq_def xHostQueryReq.defs)

lemma ser_des_xHostQueryResp [wire_simps]:
  "des_xHostQueryResp wc (ser_xHostQueryResp wc m @ s) = Some (m, s)"
  by (cases m) (simp add: ser_xHostQueryResp_def des_xHostQueryResp_def xHostQueryResp.defs)

lemma ser_des_xGroupedMessage [wire_simps]:
  "des_xGroupedMessage wc (ser_xGroupedMessage wc m @ s) = Some (m, s)"
  by (cases m) (simp add: ser_xGroupedMessage_def des_xGroupedMessage_def xGroupedMessage.defs)

end

end
