(* ===== verification/ReportMessages.thy ===== *)
theory ReportMessages
  imports ServiceMessages
begin

text \<open>
  The messages to and from the backend (\<^verbatim>\<open>src/cpp/src_lib_protocol/pp_protocol/ad_bk\<close>,
  \<^verbatim>\<open>_backend\<close>), with the conventions of RelayMessages.
\<close>

subsection \<open>Reports to the backend\<close>

text \<open>
  \<^verbatim>\<open>pp_protocol/ad_bk\<close>. A report with a list asserts that the list is shorter than a bound and
  its reader refuses a count above it, so that a count that equals the bound is read but never
  written. \<open>None\<close> of a writer is a failed assertion.
\<close>

record 'a xAD_BK_DeviceInfo =
  Version :: u32
  ChannelId :: u32
  DeviceUuid :: bytes
  RelayServerRuntimeId :: u64
  RelayServerSideDeviceId :: u64
  PrimaryIpv4Address :: 'a
  PrimaryIpv6Address :: 'a
  CountryId :: u32
  StateId :: u32
  CityId :: u32
  IsOffline :: bool
  SupportUdpChannel :: bool
  SupportDnsRequests :: bool
  SpeedLimitEnabled :: bool
  TotalOnlineTimeMS :: u64
  TotalNewConnectionsSinceLastPost :: u32
  TotalClosedConnectionSinceLastPost :: u32
  TotalNewUdpChannelSinceLastPost :: u32
  TotalClosedUdpChannelSinceLastPost :: u32
  TotalDnsRequestSinceLastPost :: u32
  TotalUploadSizeSinceOnline :: u64
  TotalDownloadSizeSinceOnline :: u64
  CurrentConnectionCount :: u32
  CurrentUdpChannelCount :: u32
  MaxConnectionCount :: u32
  MaxUdpChannelCount :: u32

record 'a xAD_BK_ReportDeviceInfoSingle =
  LocalAuditTimestampMS :: u64
  DeviceInfo :: "'a xAD_BK_DeviceInfo"

definition ser_xAD_BK_ReportDeviceInfoSingle ::
    "'a wire \<Rightarrow> 'a xAD_BK_ReportDeviceInfoSingle \<Rightarrow> bytes" where
  "ser_xAD_BK_ReportDeviceInfoSingle wc r =
     (let m = DeviceInfo r in
     w_u64 wc (LocalAuditTimestampMS r) @
     w_u32 wc (xAD_BK_DeviceInfo.Version m) @
     w_u32 wc (xAD_BK_DeviceInfo.ChannelId m) @
     w_str wc (xAD_BK_DeviceInfo.DeviceUuid m) @
     w_u64 wc (xAD_BK_DeviceInfo.RelayServerRuntimeId m) @
     w_u64 wc (xAD_BK_DeviceInfo.RelayServerSideDeviceId m) @
     w_addr wc (xAD_BK_DeviceInfo.PrimaryIpv4Address m) @
     w_addr wc (xAD_BK_DeviceInfo.PrimaryIpv6Address m) @
     w_u32 wc (xAD_BK_DeviceInfo.CountryId m) @
     w_u32 wc (xAD_BK_DeviceInfo.StateId m) @
     w_u32 wc (xAD_BK_DeviceInfo.CityId m) @
     w_bool wc (xAD_BK_DeviceInfo.IsOffline m) @
     w_bool wc (xAD_BK_DeviceInfo.SupportUdpChannel m) @
     w_bool wc (xAD_BK_DeviceInfo.SupportDnsRequests m) @
     w_bool wc (xAD_BK_DeviceInfo.SpeedLimitEnabled m) @
     w_u64 wc (xAD_BK_DeviceInfo.TotalOnlineTimeMS m) @
     w_u32 wc (xAD_BK_DeviceInfo.TotalNewConnectionsSinceLastPost m) @
     w_u32 wc (xAD_BK_DeviceInfo.TotalClosedConnectionSinceLastPost m) @
     w_u32 wc (xAD_BK_DeviceInfo.TotalNewUdpChannelSinceLastPost m) @
     w_u32 wc (xAD_BK_DeviceInfo.TotalClosedUdpChannelSinceLastPost m) @
     w_u32 wc (xAD_BK_DeviceInfo.TotalDnsRequestSinceLastPost m) @
     w_u64 wc (xAD_BK_DeviceInfo.TotalUploadSizeSinceOnline m) @
     w_u64 wc (xAD_BK_DeviceInfo.TotalDownloadSizeSinceOnline m) @
     w_u32 wc (xAD_BK_DeviceInfo.CurrentConnectionCount m) @
     w_u32 wc (xAD_BK_DeviceInfo.CurrentUdpChannelCount m) @
     w_u32 wc (xAD_BK_DeviceInfo.MaxConnectionCount m) @
     w_u32 wc (xAD_BK_DeviceInfo.MaxUdpChannelCount m))"

definition des_xAD_BK_ReportDeviceInfoSingle ::
    "'a wire \<Rightarrow> bytes \<Rightarrow> ('a xAD_BK_ReportDeviceInfoSingle \<times> bytes) option" where
  "des_xAD_BK_ReportDeviceInfoSingle wc s = do {
       (LocalAuditTimestampMS, s) \<leftarrow> r_u64 wc s;
       (Version, s) \<leftarrow> r_u32 wc s;
       (ChannelId, s) \<leftarrow> r_u32 wc s;
       (DeviceUuid, s) \<leftarrow> r_str wc s;
       (RelayServerRuntimeId, s) \<leftarrow> r_u64 wc s;
       (RelayServerSideDeviceId, s) \<leftarrow> r_u64 wc s;
       (PrimaryIpv4Address, s) \<leftarrow> r_addr wc s;
       (PrimaryIpv6Address, s) \<leftarrow> r_addr wc s;
       (CountryId, s) \<leftarrow> r_u32 wc s;
       (StateId, s) \<leftarrow> r_u32 wc s;
       (CityId, s) \<leftarrow> r_u32 wc s;
       (IsOffline, s) \<leftarrow> r_bool wc s;
       (SupportUdpChannel, s) \<leftarrow> r_bool wc s;
       (SupportDnsRequests, s) \<leftarrow> r_bool wc s;
       (SpeedLimitEnabled, s) \<leftarrow> r_bool wc s;
       (TotalOnlineTimeMS, s) \<leftarrow> r_u64 wc s;
       (TotalNewConnectionsSinceLastPost, s) \<leftarrow> r_u32 wc s;
       (TotalClosedConnectionSinceLastPost, s) \<leftarrow> r_u32 wc s;
       (TotalNewUdpChannelSinceLastPost, s) \<leftarrow> r_u32 wc s;
       (TotalClosedUdpChannelSinceLastPost, s) \<leftarrow> r_u32 wc s;
       (TotalDnsRequestSinceLastPost, s) \<leftarrow> r_u32 wc s;
       (TotalUploadSizeSinceOnline, s) \<leftarrow> r_u64 wc s;
       (TotalDownloadSizeSinceOnline, s) \<leftarrow> r_u64 wc s;
       (CurrentConnectionCount, s) \<leftarrow> r_u32 wc s;
       (CurrentUdpChannelCount, s) \<leftarrow> r_u32 wc s;
       (MaxConnectionCount, s) \<leftarrow> r_u32 wc s;
       (MaxUdpChannelCount, s) \<leftarrow> r_u32 wc s;
       Some (xAD_BK_ReportDeviceInfoSingle.make LocalAuditTimestampMS
         (xAD_BK_DeviceInfo.make Version ChannelId DeviceUuid
           RelayServerRuntimeId RelayServerSideDeviceId PrimaryIpv4Address
           PrimaryIpv6Address CountryId StateId
           CityId IsOffline SupportUdpChannel
           SupportDnsRequests SpeedLimitEnabled TotalOnlineTimeMS
           TotalNewConnectionsSinceLastPost TotalClosedConnectionSinceLastPost TotalNewUdpChannelSinceLastPost
           TotalClosedUdpChannelSinceLastPost TotalDnsRequestSinceLastPost TotalUploadSizeSinceOnline
           TotalDownloadSizeSinceOnline CurrentConnectionCount CurrentUdpChannelCount
           MaxConnectionCount MaxUdpChannelCount), s)}"


record xAD_BK_UsageByAuditId =
  AuditId :: u64
  TotalSelectDeviceCountSinceLastPost :: u32
  TotalTcpConnectionSinceLastPost :: u32
  TotalUdpChannelSinceLastPost :: u32
  TotalUploadSizeSinceLastPost :: u64
  TotalDownloadSizeSinceLastPost :: u64

definition w_xAD_BK_UsageByAuditId :: "'a wire \<Rightarrow> xAD_BK_UsageByAuditId \<Rightarrow> bytes" where
  "w_xAD_BK_UsageByAuditId wc m =
     w_u64 wc (xAD_BK_UsageByAuditId.AuditId m) @
     w_u32 wc (xAD_BK_UsageByAuditId.TotalSelectDeviceCountSinceLastPost m) @
     w_u32 wc (xAD_BK_UsageByAuditId.TotalTcpConnectionSinceLastPost m) @
     w_u32 wc (xAD_BK_UsageByAuditId.TotalUdpChannelSinceLastPost m) @
     w_u64 wc (xAD_BK_UsageByAuditId.TotalUploadSizeSinceLastPost m) @
     w_u64 wc (xAD_BK_UsageByAuditId.TotalDownloadSizeSinceLastPost m)"

definition r_xAD_BK_UsageByAuditId :: "'a wire \<Rightarrow> bytes \<Rightarrow> (xAD_BK_UsageByAuditId \<times> bytes) option" where
  "r_xAD_BK_UsageByAuditId wc s = do {
       (AuditId, s) \<leftarrow> r_u64 wc s;
       (TotalSelectDeviceCountSinceLastPost, s) \<leftarrow> r_u32 wc s;
       (TotalTcpConnectionSinceLastPost, s) \<leftarrow> r_u32 wc s;
       (TotalUdpChannelSinceLastPost, s) \<leftarrow> r_u32 wc s;
       (TotalUploadSizeSinceLastPost, s) \<leftarrow> r_u64 wc s;
       (TotalDownloadSizeSinceLastPost, s) \<leftarrow> r_u64 wc s;
       Some (xAD_BK_UsageByAuditId.make AuditId TotalSelectDeviceCountSinceLastPost TotalTcpConnectionSinceLastPost TotalUdpChannelSinceLastPost TotalUploadSizeSinceLastPost TotalDownloadSizeSinceLastPost, s)}"

record xAD_BK_ReportUsageByAuditList =
  LocalTimestampMS :: u64
  AuditList :: "xAD_BK_UsageByAuditId list"

definition ser_xAD_BK_ReportUsageByAuditList :: "'a wire \<Rightarrow> xAD_BK_ReportUsageByAuditList \<Rightarrow> bytes option" where
  "ser_xAD_BK_ReportUsageByAuditList wc m =
     (if length (AuditList m) < 50 then
        Some (w_u64 wc (xAD_BK_ReportUsageByAuditList.LocalTimestampMS m) @ w_u32 wc (word_of_nat (length (AuditList m))) @
              concat (map (w_xAD_BK_UsageByAuditId wc) (AuditList m)))
      else None)"

definition des_xAD_BK_ReportUsageByAuditList :: "'a wire \<Rightarrow> bytes \<Rightarrow> (xAD_BK_ReportUsageByAuditList \<times> bytes) option" where
  "des_xAD_BK_ReportUsageByAuditList wc s = do {
     (LocalTimestampMS, s) \<leftarrow> r_u64 wc s;
     (Count, s) \<leftarrow> r_u32 wc s;
     if Count > 50 then None else do {
       (L, s) \<leftarrow> read_many (unat Count) (r_xAD_BK_UsageByAuditId wc) s;
       Some (xAD_BK_ReportUsageByAuditList.make LocalTimestampMS L, s)}}"


record xThirdAccountUsage =
  ThirdAccountSourceName :: bytes
  TotalTcpConnectionSinceLastPost :: u64
  TotalUdpChannelSinceLastPost :: u32
  TotalUploadSizeSinceLastPost :: u64
  TotalDownloadSizeSinceLastPost :: u64

definition w_xThirdAccountUsage :: "'a wire \<Rightarrow> xThirdAccountUsage \<Rightarrow> bytes" where
  "w_xThirdAccountUsage wc m =
     w_str wc (xThirdAccountUsage.ThirdAccountSourceName m) @
     w_u64 wc (xThirdAccountUsage.TotalTcpConnectionSinceLastPost m) @
     w_u32 wc (xThirdAccountUsage.TotalUdpChannelSinceLastPost m) @
     w_u64 wc (xThirdAccountUsage.TotalUploadSizeSinceLastPost m) @
     w_u64 wc (xThirdAccountUsage.TotalDownloadSizeSinceLastPost m)"

definition r_xThirdAccountUsage :: "'a wire \<Rightarrow> bytes \<Rightarrow> (xThirdAccountUsage \<times> bytes) option" where
  "r_xThirdAccountUsage wc s = do {
       (ThirdAccountSourceName, s) \<leftarrow> r_str wc s;
       (TotalTcpConnectionSinceLastPost, s) \<leftarrow> r_u64 wc s;
       (TotalUdpChannelSinceLastPost, s) \<leftarrow> r_u32 wc s;
       (TotalUploadSizeSinceLastPost, s) \<leftarrow> r_u64 wc s;
       (TotalDownloadSizeSinceLastPost, s) \<leftarrow> r_u64 wc s;
       Some (xThirdAccountUsage.make ThirdAccountSourceName TotalTcpConnectionSinceLastPost TotalUdpChannelSinceLastPost TotalUploadSizeSinceLastPost TotalDownloadSizeSinceLastPost, s)}"

record xAD_BK_ReportUsageByThirdAccountList =
  LocalTimestampMS :: u64
  UsageList :: "xThirdAccountUsage list"

definition ser_xAD_BK_ReportUsageByThirdAccountList :: "'a wire \<Rightarrow> xAD_BK_ReportUsageByThirdAccountList \<Rightarrow> bytes option" where
  "ser_xAD_BK_ReportUsageByThirdAccountList wc m =
     (if length (UsageList m) < 20 then
        Some (w_u64 wc (xAD_BK_ReportUsageByThirdAccountList.LocalTimestampMS m) @ w_u32 wc (word_of_nat (length (UsageList m))) @
              concat (map (w_xThirdAccountUsage wc) (UsageList m)))
      else None)"

definition des_xAD_BK_ReportUsageByThirdAccountList :: "'a wire \<Rightarrow> bytes \<Rightarrow> (xAD_BK_ReportUsageByThirdAccountList \<times> bytes) option" where
  "des_xAD_BK_ReportUsageByThirdAccountList wc s = do {
     (LocalTimestampMS, s) \<leftarrow> r_u64 wc s;
     (Count, s) \<leftarrow> r_u32 wc s;
     if Count > 20 then None else do {
       (L, s) \<leftarrow> read_many (unat Count) (r_xThirdAccountUsage wc) s;
       Some (xAD_BK_ReportUsageByThirdAccountList.make LocalTimestampMS L, s)}}"


text \<open>This writer sends no count, although its reader starts with one.\<close>

record 'a xAD_BK_DeivceRelayServerInfo =
  ServerUuid :: bytes
  ServerRuntimeId :: u64
  ServerRouteId :: u16
  ExportCtrlAddress :: 'a
  ExportDataAddress :: 'a
  ExportPAAddress :: 'a
  LatestDeviceCount :: u32
  NewOnlineDevcieSinceLastPost :: u32
  NewOfflineDeviceSinceLastPost :: u32
  UploadToDeviceSinceLastPost :: u64
  DownloadFromDeviceSinceLastReport :: u64

definition w_xAD_BK_DeivceRelayServerInfo :: "'a wire \<Rightarrow> 'a xAD_BK_DeivceRelayServerInfo \<Rightarrow> bytes" where
  "w_xAD_BK_DeivceRelayServerInfo wc m =
     w_str wc (xAD_BK_DeivceRelayServerInfo.ServerUuid m) @
     w_u64 wc (xAD_BK_DeivceRelayServerInfo.ServerRuntimeId m) @
     w_u16 wc (xAD_BK_DeivceRelayServerInfo.ServerRouteId m) @
     w_addr wc (xAD_BK_DeivceRelayServerInfo.ExportCtrlAddress m) @
     w_addr wc (xAD_BK_DeivceRelayServerInfo.ExportDataAddress m) @
     w_addr wc (xAD_BK_DeivceRelayServerInfo.ExportPAAddress m) @
     w_u32 wc (xAD_BK_DeivceRelayServerInfo.LatestDeviceCount m) @
     w_u32 wc (xAD_BK_DeivceRelayServerInfo.NewOnlineDevcieSinceLastPost m) @
     w_u32 wc (xAD_BK_DeivceRelayServerInfo.NewOfflineDeviceSinceLastPost m) @
     w_u64 wc (xAD_BK_DeivceRelayServerInfo.UploadToDeviceSinceLastPost m) @
     w_u64 wc (xAD_BK_DeivceRelayServerInfo.DownloadFromDeviceSinceLastReport m)"

definition r_xAD_BK_DeivceRelayServerInfo :: "'a wire \<Rightarrow> bytes \<Rightarrow> ('a xAD_BK_DeivceRelayServerInfo \<times> bytes) option" where
  "r_xAD_BK_DeivceRelayServerInfo wc s = do {
       (ServerUuid, s) \<leftarrow> r_str wc s;
       (ServerRuntimeId, s) \<leftarrow> r_u64 wc s;
       (ServerRouteId, s) \<leftarrow> r_u16 wc s;
       (ExportCtrlAddress, s) \<leftarrow> r_addr wc s;
       (ExportDataAddress, s) \<leftarrow> r_addr wc s;
       (ExportPAAddress, s) \<leftarrow> r_addr wc s;
       (LatestDeviceCount, s) \<leftarrow> r_u32 wc s;
       (NewOnlineDevcieSinceLastPost, s) \<leftarrow> r_u32 wc s;
       (NewOfflineDeviceSinceLastPost, s) \<leftarrow> r_u32 wc s;
       (UploadToDeviceSinceLastPost, s) \<leftarrow> r_u64 wc s;
       (DownloadFromDeviceSinceLastReport, s) \<leftarrow> r_u64 wc s;
       Some (xAD_BK_DeivceRelayServerInfo.make ServerUuid ServerRuntimeId ServerRouteId ExportCtrlAddress ExportDataAddress ExportPAAddress LatestDeviceCount NewOnlineDevcieSinceLastPost NewOfflineDeviceSinceLastPost UploadToDeviceSinceLastPost DownloadFromDeviceSinceLastReport, s)}"

definition ser_xAD_BK_ReportDeviceRelayServerInfoList ::
    "'a wire \<Rightarrow> 'a xAD_BK_DeivceRelayServerInfo list \<Rightarrow> bytes option" where
  "ser_xAD_BK_ReportDeviceRelayServerInfoList wc L =
     (if length L < 25 then Some (concat (map (w_xAD_BK_DeivceRelayServerInfo wc) L)) else None)"

definition des_xAD_BK_ReportDeviceRelayServerInfoList ::
    "'a wire \<Rightarrow> bytes \<Rightarrow> ('a xAD_BK_DeivceRelayServerInfo list \<times> bytes) option" where
  "des_xAD_BK_ReportDeviceRelayServerInfoList wc s = do {
     (Count, s) \<leftarrow> r_u16 wc s;
     if Count > 25 then None else read_many (unat Count) (r_xAD_BK_DeivceRelayServerInfo wc) s}"


context wire_codec begin

lemma ser_des_xAD_BK_ReportDeviceInfoSingle [wire_simps]:
  "length (xAD_BK_DeviceInfo.DeviceUuid (DeviceInfo r)) \<le> w_str_max wc \<Longrightarrow>
   des_xAD_BK_ReportDeviceInfoSingle wc (ser_xAD_BK_ReportDeviceInfoSingle wc r @ s) = Some (r, s)"
  by (cases r, cases "DeviceInfo r") (simp add: ser_xAD_BK_ReportDeviceInfoSingle_def
      des_xAD_BK_ReportDeviceInfoSingle_def xAD_BK_ReportDeviceInfoSingle.defs xAD_BK_DeviceInfo.defs)

lemma xAD_BK_UsageByAuditId_round_trip: "r_xAD_BK_UsageByAuditId wc (w_xAD_BK_UsageByAuditId wc U @ s) = Some (U, s)"
  by (cases U) (simp add: w_xAD_BK_UsageByAuditId_def r_xAD_BK_UsageByAuditId_def xAD_BK_UsageByAuditId.defs)

lemma ser_des_xAD_BK_ReportUsageByAuditList:
  assumes len: "length (AuditList m) < 50"
  shows "\<exists>b. ser_xAD_BK_ReportUsageByAuditList wc m = Some b \<and>
    des_xAD_BK_ReportUsageByAuditList wc (b @ s) = Some (m, s)"
proof -
  have "unat (word_of_nat (length (AuditList m)) :: u32) = length (AuditList m)"
    using len by (simp add: unat_of_nat_small)
  moreover from this have "\<not> (50 < (word_of_nat (length (AuditList m)) :: u32))"
    using len by (simp add: word_less_nat_alt)
  moreover have "read_many (length (AuditList m)) (r_xAD_BK_UsageByAuditId wc)
      (concat (map (w_xAD_BK_UsageByAuditId wc) (AuditList m)) @ s) = Some (AuditList m, s)"
    by (rule read_many_round_trip) (simp add: xAD_BK_UsageByAuditId_round_trip)
  ultimately show ?thesis using len
    by (cases m) (simp add: ser_xAD_BK_ReportUsageByAuditList_def des_xAD_BK_ReportUsageByAuditList_def xAD_BK_ReportUsageByAuditList.defs)
qed

lemma xThirdAccountUsage_round_trip: "length (xThirdAccountUsage.ThirdAccountSourceName U) \<le> w_str_max wc \<Longrightarrow> r_xThirdAccountUsage wc (w_xThirdAccountUsage wc U @ s) = Some (U, s)"
  by (cases U) (simp add: w_xThirdAccountUsage_def r_xThirdAccountUsage_def xThirdAccountUsage.defs)

lemma ser_des_xAD_BK_ReportUsageByThirdAccountList:
  assumes len: "length (UsageList m) < 20"
    and str: "\<And>U. U \<in> set (UsageList m) \<Longrightarrow> length (xThirdAccountUsage.ThirdAccountSourceName U) \<le> w_str_max wc"
  shows "\<exists>b. ser_xAD_BK_ReportUsageByThirdAccountList wc m = Some b \<and>
    des_xAD_BK_ReportUsageByThirdAccountList wc (b @ s) = Some (m, s)"
proof -
  have "unat (word_of_nat (length (UsageList m)) :: u32) = length (UsageList m)"
    using len by (simp add: unat_of_nat_small)
  moreover from this have "\<not> (20 < (word_of_nat (length (UsageList m)) :: u32))"
    using len by (simp add: word_less_nat_alt)
  moreover have "read_many (length (UsageList m)) (r_xThirdAccountUsage wc)
      (concat (map (w_xThirdAccountUsage wc) (UsageList m)) @ s) = Some (UsageList m, s)"
    by (rule read_many_round_trip) (simp add: xThirdAccountUsage_round_trip str)
  ultimately show ?thesis using len
    by (cases m) (simp add: ser_xAD_BK_ReportUsageByThirdAccountList_def des_xAD_BK_ReportUsageByThirdAccountList_def xAD_BK_ReportUsageByThirdAccountList.defs)
qed

lemma device_relay_list_count_missing:
  "ser_xAD_BK_ReportDeviceRelayServerInfoList wc [] = Some [] \<and>
   des_xAD_BK_ReportDeviceRelayServerInfoList wc ([] @ w_u16 wc 5) \<noteq> Some ([], w_u16 wc 5)"
proof -
  have "r_u16 wc (w_u16 wc 5 @ []) = Some (5, [])" by (rule rt_u16)
  then have "des_xAD_BK_ReportDeviceRelayServerInfoList wc (w_u16 wc 5) = read_many 5 (r_xAD_BK_DeivceRelayServerInfo wc) []"
    by (simp add: des_xAD_BK_ReportDeviceRelayServerInfoList_def)
  moreover have "read_many 5 (r_xAD_BK_DeivceRelayServerInfo wc) [] \<noteq> Some ([], w_u16 wc 5)"
    using read_many_length by fastforce
  ultimately show ?thesis by (simp add: ser_xAD_BK_ReportDeviceRelayServerInfoList_def)
qed

end

subsection \<open>Backend\<close>

text \<open>
  \<^verbatim>\<open>pp_protocol/_backend\<close>: the challenge of a client of the backend, and the authentication by
  user name and password, whose response has its other members only when \<open>ErrorCode\<close> is zero
  (the reader keeps those of \<open>m0\<close> otherwise).
\<close>

datatype ePPB_Error = OK | INVALID_PARAMETER | PROXY_NOT_FOUND | INVLID_PROTOCOL | NOT_LOGIN
  | INVALID_AUTHENTICATION | UNSUPPORTED_FUNCTION | DEVICE_DROPPED | INTERNAL_SERVER_ERROR

fun error_code :: "ePPB_Error \<Rightarrow> u32" where
  "error_code OK = 0"
| "error_code INVALID_PARAMETER = 201"
| "error_code PROXY_NOT_FOUND = 202"
| "error_code INVLID_PROTOCOL = 203"
| "error_code NOT_LOGIN = 401"
| "error_code INVALID_AUTHENTICATION = 403"
| "error_code UNSUPPORTED_FUNCTION = 404"
| "error_code DEVICE_DROPPED = 405"
| "error_code INTERNAL_SERVER_ERROR = 500"

record xBackendChallenge =
  AppKey :: bytes
  TimestampMS :: u64
  ChallengeValue :: bytes

definition ser_xBackendChallenge :: "'a wire \<Rightarrow> xBackendChallenge \<Rightarrow> bytes" where
  "ser_xBackendChallenge wc m =
     w_str wc (xBackendChallenge.AppKey m) @
     w_u64 wc (xBackendChallenge.TimestampMS m) @
     w_str wc (xBackendChallenge.ChallengeValue m)"

definition des_xBackendChallenge :: "'a wire \<Rightarrow> bytes \<Rightarrow> (xBackendChallenge \<times> bytes) option" where
  "des_xBackendChallenge wc s = do {
       (AppKey, s) \<leftarrow> r_str wc s;
       (TimestampMS, s) \<leftarrow> r_u64 wc s;
       (ChallengeValue, s) \<leftarrow> r_str wc s;
       Some (xBackendChallenge.make AppKey TimestampMS ChallengeValue, s)}"

definition ok_xBackendChallenge :: "'a wire \<Rightarrow> xBackendChallenge \<Rightarrow> bool" where
  "ok_xBackendChallenge wc m \<longleftrightarrow>
     length (xBackendChallenge.AppKey m) \<le> w_str_max wc \<and>
     length (xBackendChallenge.ChallengeValue m) \<le> w_str_max wc"

definition Sign :: "hash_ops \<Rightarrow> bytes \<Rightarrow> bytes" where
  "Sign h Src = hs_StrToHexLower h (hs_md5 h (hs_md5 h Src))"

definition GenerateChallengeString :: "hash_ops \<Rightarrow> xBackendChallenge \<Rightarrow> bytes \<Rightarrow> bytes" where
  "GenerateChallengeString h m AppSecret =
     Sign h (xBackendChallenge.AppKey m @ to_string (unat (xBackendChallenge.TimestampMS m)) @
       bytes_of ''@45Qws85!4'' @ AppSecret)"

record xBackendChallengeResp =
  ErrorCode :: u32

definition ser_xBackendChallengeResp :: "'a wire \<Rightarrow> xBackendChallengeResp \<Rightarrow> bytes" where
  "ser_xBackendChallengeResp wc m =
     w_u32 wc (xBackendChallengeResp.ErrorCode m)"

definition des_xBackendChallengeResp :: "'a wire \<Rightarrow> bytes \<Rightarrow> (xBackendChallengeResp \<times> bytes) option" where
  "des_xBackendChallengeResp wc s = do {
       (ErrorCode, s) \<leftarrow> r_u32 wc s;
       Some (xBackendChallengeResp.make ErrorCode, s)}"

record 'a xPPB_BackendAuthByUserPass =
  UserPass :: bytes
  ClientIp :: 'a

definition ser_xPPB_BackendAuthByUserPass :: "'a wire \<Rightarrow> 'a xPPB_BackendAuthByUserPass \<Rightarrow> bytes" where
  "ser_xPPB_BackendAuthByUserPass wc m =
     w_str wc (xPPB_BackendAuthByUserPass.UserPass m) @
     w_addr wc (xPPB_BackendAuthByUserPass.ClientIp m)"

definition des_xPPB_BackendAuthByUserPass :: "'a wire \<Rightarrow> bytes \<Rightarrow> ('a xPPB_BackendAuthByUserPass \<times> bytes) option" where
  "des_xPPB_BackendAuthByUserPass wc s = do {
       (UserPass, s) \<leftarrow> r_str wc s;
       (ClientIp, s) \<leftarrow> r_addr wc s;
       Some (xPPB_BackendAuthByUserPass.make UserPass ClientIp, s)}"

definition ok_xPPB_BackendAuthByUserPass :: "'a wire \<Rightarrow> 'a xPPB_BackendAuthByUserPass \<Rightarrow> bool" where
  "ok_xPPB_BackendAuthByUserPass wc m \<longleftrightarrow>
     length (xPPB_BackendAuthByUserPass.UserPass m) \<le> w_str_max wc"

record xPPB_BackendAuthByUserPassResp =
  ErrorCode :: u32
  AuditId :: u64
  ContinentId :: u32
  CountryId :: u32
  StateId :: u32
  CityId :: u32
  Duration :: u32
  Random :: u32
  AutoChangeIpOnDeviceOffline :: bool
  EnableUdp :: bool
  Ipv6Prefered :: bool
  PoolFlags :: bytes
  ServerToken :: bytes
  Redirect :: bytes
  AuditIdForThirdPartyResource :: u32

definition ser_xPPB_BackendAuthByUserPassResp :: "'a wire \<Rightarrow> xPPB_BackendAuthByUserPassResp \<Rightarrow> bytes" where
  "ser_xPPB_BackendAuthByUserPassResp wc m =
     w_u32 wc (xPPB_BackendAuthByUserPassResp.ErrorCode m) @ (if xPPB_BackendAuthByUserPassResp.ErrorCode m \<noteq> 0 then [] else
     w_u64 wc (xPPB_BackendAuthByUserPassResp.AuditId m) @
     w_u32 wc (xPPB_BackendAuthByUserPassResp.ContinentId m) @
     w_u32 wc (xPPB_BackendAuthByUserPassResp.CountryId m) @
     w_u32 wc (xPPB_BackendAuthByUserPassResp.StateId m) @
     w_u32 wc (xPPB_BackendAuthByUserPassResp.CityId m) @
     w_u32 wc (xPPB_BackendAuthByUserPassResp.Duration m) @
     w_u32 wc (xPPB_BackendAuthByUserPassResp.Random m) @
     w_bool wc (xPPB_BackendAuthByUserPassResp.AutoChangeIpOnDeviceOffline m) @
     w_bool wc (xPPB_BackendAuthByUserPassResp.EnableUdp m) @
     w_bool wc (xPPB_BackendAuthByUserPassResp.Ipv6Prefered m) @
     w_str wc (xPPB_BackendAuthByUserPassResp.PoolFlags m) @
     w_str wc (xPPB_BackendAuthByUserPassResp.ServerToken m) @
     w_str wc (xPPB_BackendAuthByUserPassResp.Redirect m) @
     w_u32 wc (xPPB_BackendAuthByUserPassResp.AuditIdForThirdPartyResource m))"

definition des_xPPB_BackendAuthByUserPassResp ::
    "'a wire \<Rightarrow> xPPB_BackendAuthByUserPassResp \<Rightarrow> bytes \<Rightarrow> (xPPB_BackendAuthByUserPassResp \<times> bytes) option" where
  "des_xPPB_BackendAuthByUserPassResp wc m0 s = do {
     (ErrorCode, s) \<leftarrow> r_u32 wc s;
     if ErrorCode \<noteq> 0 then Some (m0\<lparr>xPPB_BackendAuthByUserPassResp.ErrorCode := ErrorCode\<rparr>, s) else do {
       (AuditId, s) \<leftarrow> r_u64 wc s;
       (ContinentId, s) \<leftarrow> r_u32 wc s;
       (CountryId, s) \<leftarrow> r_u32 wc s;
       (StateId, s) \<leftarrow> r_u32 wc s;
       (CityId, s) \<leftarrow> r_u32 wc s;
       (Duration, s) \<leftarrow> r_u32 wc s;
       (Random, s) \<leftarrow> r_u32 wc s;
       (AutoChangeIpOnDeviceOffline, s) \<leftarrow> r_bool wc s;
       (EnableUdp, s) \<leftarrow> r_bool wc s;
       (Ipv6Prefered, s) \<leftarrow> r_bool wc s;
       (PoolFlags, s) \<leftarrow> r_str wc s;
       (ServerToken, s) \<leftarrow> r_str wc s;
       (Redirect, s) \<leftarrow> r_str wc s;
       (AuditIdForThirdPartyResource, s) \<leftarrow> r_u32 wc s;
       Some (xPPB_BackendAuthByUserPassResp.make ErrorCode
         AuditId ContinentId CountryId StateId CityId Duration Random AutoChangeIpOnDeviceOffline EnableUdp Ipv6Prefered PoolFlags ServerToken Redirect AuditIdForThirdPartyResource, s)}}"

definition ok_xPPB_BackendAuthByUserPassResp :: "'a wire \<Rightarrow> xPPB_BackendAuthByUserPassResp \<Rightarrow> bool" where
  "ok_xPPB_BackendAuthByUserPassResp wc m \<longleftrightarrow>
     length (PoolFlags m) \<le> w_str_max wc \<and> length (ServerToken m) \<le> w_str_max wc \<and>
     length (Redirect m) \<le> w_str_max wc"


context wire_codec begin

lemma ser_des_xBackendChallenge [wire_simps]:
  "ok_xBackendChallenge wc m \<Longrightarrow> des_xBackendChallenge wc (ser_xBackendChallenge wc m @ s) = Some (m, s)"
  by (cases m) (simp add: ser_xBackendChallenge_def des_xBackendChallenge_def ok_xBackendChallenge_def xBackendChallenge.defs)

lemma ser_des_xBackendChallengeResp [wire_simps]:
  "des_xBackendChallengeResp wc (ser_xBackendChallengeResp wc m @ s) = Some (m, s)"
  by (cases m) (simp add: ser_xBackendChallengeResp_def des_xBackendChallengeResp_def xBackendChallengeResp.defs)

lemma ser_des_xPPB_BackendAuthByUserPass [wire_simps]:
  "ok_xPPB_BackendAuthByUserPass wc m \<Longrightarrow> des_xPPB_BackendAuthByUserPass wc (ser_xPPB_BackendAuthByUserPass wc m @ s) = Some (m, s)"
  by (cases m) (simp add: ser_xPPB_BackendAuthByUserPass_def des_xPPB_BackendAuthByUserPass_def ok_xPPB_BackendAuthByUserPass_def xPPB_BackendAuthByUserPass.defs)

lemma ser_des_xPPB_BackendAuthByUserPassResp:
  "ok_xPPB_BackendAuthByUserPassResp wc m \<Longrightarrow>
   des_xPPB_BackendAuthByUserPassResp wc m0 (ser_xPPB_BackendAuthByUserPassResp wc m @ s) =
     Some (if xPPB_BackendAuthByUserPassResp.ErrorCode m = 0 then m
           else m0\<lparr>xPPB_BackendAuthByUserPassResp.ErrorCode := xPPB_BackendAuthByUserPassResp.ErrorCode m\<rparr>, s)"
  by (cases m) (simp add: ser_xPPB_BackendAuthByUserPassResp_def
      des_xPPB_BackendAuthByUserPassResp_def ok_xPPB_BackendAuthByUserPassResp_def
      xPPB_BackendAuthByUserPassResp.defs)

end

sublocale wire_codec \<subseteq> backend_challenge: message_codec "ser_xBackendChallenge wc" "des_xBackendChallenge wc" "ok_xBackendChallenge wc"
  by unfold_locales (simp add: wire_simps)

sublocale wire_codec \<subseteq> backend_challenge_resp: message_codec "ser_xBackendChallengeResp wc" "des_xBackendChallengeResp wc" "\<lambda>_. True"
  by unfold_locales (simp add: wire_simps)

sublocale wire_codec \<subseteq> backend_auth: message_codec "ser_xPPB_BackendAuthByUserPass wc" "des_xPPB_BackendAuthByUserPass wc" "ok_xPPB_BackendAuthByUserPass wc"
  by unfold_locales (simp add: wire_simps)

end
