(* ===== verification/Commands.thy ===== *)
theory Commands
  imports Prelude
begin

text \<open>
  The packet command ids of \<^verbatim>\<open>pp_protocol/command.hpp\<close>, with their bases. The responses to the
  dispatchable commands start from a constant of the library and are left out.
\<close>

definition Cmd_GeoQuery :: u32 where "Cmd_GeoQuery = 0x01"
definition Cmd_HostQuery :: u32 where "Cmd_HostQuery = 0x02"
definition Cmd_GetTerminalWithAuth :: u32 where "Cmd_GetTerminalWithAuth = 0x03"
definition Cmd_ReportAccountUsage :: u32 where "Cmd_ReportAccountUsage = 0x04"
definition Cmd_ProxyClientAuth :: u32 where "Cmd_ProxyClientAuth = 0x05"
definition CmdProxyBase :: u32 where "CmdProxyBase = 0x02000"
definition Cmd_CreateConnection :: u32 where "Cmd_CreateConnection = CmdProxyBase + 0x01"
definition Cmd_CreateConnectionResp :: u32 where "Cmd_CreateConnectionResp = CmdProxyBase + 0x02"
definition Cmd_CloseConnection :: u32 where "Cmd_CloseConnection = CmdProxyBase + 0x03"
definition Cmd_PostProxyToRelayData :: u32 where "Cmd_PostProxyToRelayData = CmdProxyBase + 0x04"
definition Cmd_PostRelayToProxyData :: u32 where "Cmd_PostRelayToProxyData = CmdProxyBase + 0x05"
definition Cmd_CreateUdpAssociation :: u32 where "Cmd_CreateUdpAssociation = CmdProxyBase + 0x06"
definition Cmd_CreateUdpAssociationResp :: u32 where "Cmd_CreateUdpAssociationResp = CmdProxyBase + 0x07"
definition Cmd_CloseUdpAssociation :: u32 where "Cmd_CloseUdpAssociation = CmdProxyBase + 0x08"
definition Cmd_PostProxyToRelayUdpData :: u32 where "Cmd_PostProxyToRelayUdpData = CmdProxyBase + 0x09"
definition Cmd_PostRelayToProxyUdpData :: u32 where "Cmd_PostRelayToProxyUdpData = CmdProxyBase + 0x0A"
definition Cmd_ManagementBase :: u32 where "Cmd_ManagementBase = 0x02100"
definition Cmd_PostError :: u32 where "Cmd_PostError = Cmd_ManagementBase + 0x01"
definition Cmd_PostErrorResp :: u32 where "Cmd_PostErrorResp = Cmd_ManagementBase + 0x02"
definition Cmd_PostTerminalAudit :: u32 where "Cmd_PostTerminalAudit = Cmd_ManagementBase + 0x03"
definition Cmd_PostRelayServerAudit :: u32 where "Cmd_PostRelayServerAudit = Cmd_ManagementBase + 0x04"
definition Cmd_BackendBase :: u32 where "Cmd_BackendBase = 0x04000"
definition Cmd_AuditTerminalInfo :: u32 where "Cmd_AuditTerminalInfo = Cmd_BackendBase + 0x01"
definition Cmd_AuditTerminalInfoResp :: u32 where "Cmd_AuditTerminalInfoResp = Cmd_BackendBase + 0x02"
definition Cmd_AuditUsageByAuditId :: u32 where "Cmd_AuditUsageByAuditId = Cmd_BackendBase + 0x03"
definition Cmd_AuditUsageByAuditIdResp :: u32 where "Cmd_AuditUsageByAuditIdResp = Cmd_BackendBase + 0x04"
definition Cmd_AuditTerminalInfo2 :: u32 where "Cmd_AuditTerminalInfo2 = Cmd_BackendBase + 0x05"
definition Cmd_DeviceRelayServerInfo2 :: u32 where "Cmd_DeviceRelayServerInfo2 = Cmd_BackendBase + 0x06"
definition Cmd_DeviceRelayServerInfoSingle :: u32 where "Cmd_DeviceRelayServerInfoSingle = Cmd_BackendBase + 0x07"
definition Cmd_AuditThirdAccountUsage :: u32 where "Cmd_AuditThirdAccountUsage = Cmd_BackendBase + 0x08"
definition Cmd_BackendChallenge :: u32 where "Cmd_BackendChallenge = Cmd_BackendBase + 0x101"
definition Cmd_BackendChallengeResp :: u32 where "Cmd_BackendChallengeResp = Cmd_BackendBase + 0x102"
definition Cmd_BackendAuthByUserPass :: u32 where "Cmd_BackendAuthByUserPass = Cmd_BackendBase + 0x201"
definition Cmd_BackendAuthByUserPassResp :: u32 where "Cmd_BackendAuthByUserPassResp = Cmd_BackendBase + 0x202"
definition Cmd_ServerManagementBase :: u32 where "Cmd_ServerManagementBase = 0x05000"
definition Cmd_QueryRunningState :: u32 where "Cmd_QueryRunningState = Cmd_ServerManagementBase + 1"
definition Cmd_QueryRunningStateResp :: u32 where "Cmd_QueryRunningStateResp = Cmd_ServerManagementBase + 2"
definition Cmd_RegisterDnsServer :: u32 where "Cmd_RegisterDnsServer = Cmd_ServerManagementBase + 3"
definition Cmd_RegisterDnsServerResp :: u32 where "Cmd_RegisterDnsServerResp = Cmd_ServerManagementBase + 4"
definition Cmd_CheckinDnsServer :: u32 where "Cmd_CheckinDnsServer = Cmd_ServerManagementBase + 5"
definition Cmd_CheckinDnsServerResp :: u32 where "Cmd_CheckinDnsServerResp = Cmd_ServerManagementBase + 6"
definition Cmd_EnableDnsDispatcher :: u32 where "Cmd_EnableDnsDispatcher = Cmd_ServerManagementBase + 7"
definition Cmd_EnableDnsDispatcherResp :: u32 where "Cmd_EnableDnsDispatcherResp = Cmd_ServerManagementBase + 8"
definition Cmd_GetBackendServerList :: u32 where "Cmd_GetBackendServerList = Cmd_ServerManagementBase + 0x100"
definition Cmd_GetBackendServerListResp :: u32 where "Cmd_GetBackendServerListResp = Cmd_ServerManagementBase + 0x101"
definition Cmd_RegisterAuthCacheServer :: u32 where "Cmd_RegisterAuthCacheServer = Cmd_ServerManagementBase + 0x201"
definition Cmd_RegisterAuditDeviceServer :: u32 where "Cmd_RegisterAuditDeviceServer = Cmd_ServerManagementBase + 0x202"
definition Cmd_RegisterAuditAccountServer :: u32 where "Cmd_RegisterAuditAccountServer = Cmd_ServerManagementBase + 0x203"
definition Cmd_RegisterServerResp :: u32 where "Cmd_RegisterServerResp = Cmd_ServerManagementBase + 0x2FF"
definition Cmd_DownloadAuthCacheServerList :: u32 where "Cmd_DownloadAuthCacheServerList = Cmd_ServerManagementBase + 0x301"
definition Cmd_DownloadAuthCacheServerListResp :: u32 where "Cmd_DownloadAuthCacheServerListResp = Cmd_ServerManagementBase + 0x302"
definition Cmd_DownloadAuditDeviceServerList :: u32 where "Cmd_DownloadAuditDeviceServerList = Cmd_ServerManagementBase + 0x303"
definition Cmd_DownloadAuditDeviceServerListResp :: u32 where "Cmd_DownloadAuditDeviceServerListResp = Cmd_ServerManagementBase + 0x304"
definition Cmd_DownloadAuditAccountServerList :: u32 where "Cmd_DownloadAuditAccountServerList = Cmd_ServerManagementBase + 0x305"
definition Cmd_DownloadAuditAccountServerListResp :: u32 where "Cmd_DownloadAuditAccountServerListResp = Cmd_ServerManagementBase + 0x306"
definition Cmd_PA_RL_Base :: u32 where "Cmd_PA_RL_Base = 0x06000"
definition Cmd_PA_RL_Challenge :: u32 where "Cmd_PA_RL_Challenge = Cmd_PA_RL_Base + 0x01"
definition Cmd_PA_RL_ChallengeResp :: u32 where "Cmd_PA_RL_ChallengeResp = Cmd_PA_RL_Base + 0x02"
definition Cmd_PA_RL_CreateConnection :: u32 where "Cmd_PA_RL_CreateConnection = Cmd_PA_RL_Base + 0x03"
definition Cmd_PA_RL_DestroyConnection :: u32 where "Cmd_PA_RL_DestroyConnection = Cmd_PA_RL_Base + 0x04"
definition Cmd_PA_RL_NotifyConnectionState :: u32 where "Cmd_PA_RL_NotifyConnectionState = Cmd_PA_RL_Base + 0x05"
definition Cmd_PA_RL_PostData :: u32 where "Cmd_PA_RL_PostData = Cmd_PA_RL_Base + 0x06"
definition Cmd_PA_RL_ProxyClientNotify :: u32 where "Cmd_PA_RL_ProxyClientNotify = Cmd_PA_RL_Base + 0x09"
definition Cmd_DV_CC_Base :: u32 where "Cmd_DV_CC_Base = 0x07000"
definition Cmd_DV_CC_Challenge :: u32 where "Cmd_DV_CC_Challenge = Cmd_DV_CC_Base + 0x01"
definition Cmd_DV_CC_ChallengeResp :: u32 where "Cmd_DV_CC_ChallengeResp = Cmd_DV_CC_Base + 0x02"
definition Cmd_DV_RL_Base :: u32 where "Cmd_DV_RL_Base = 0x08000"
definition Cmd_DV_RL_InitCtrlStream :: u32 where "Cmd_DV_RL_InitCtrlStream = Cmd_DV_RL_Base + 0x01"
definition Cmd_DV_RL_InitCtrlStreamResp :: u32 where "Cmd_DV_RL_InitCtrlStreamResp = Cmd_DV_RL_Base + 0x02"
definition Cmd_DV_RL_InitDataStream :: u32 where "Cmd_DV_RL_InitDataStream = Cmd_DV_RL_Base + 0x03"
definition Cmd_DV_RL_InitDataStreamResp :: u32 where "Cmd_DV_RL_InitDataStreamResp = Cmd_DV_RL_Base + 0x04"
definition Cmd_DV_RL_CreateConnection :: u32 where "Cmd_DV_RL_CreateConnection = Cmd_DV_RL_Base + 0x05"
definition Cmd_DV_RL_DestroyConnection :: u32 where "Cmd_DV_RL_DestroyConnection = Cmd_DV_RL_Base + 0x06"
definition Cmd_DV_RL_NotifyConnectionState :: u32 where "Cmd_DV_RL_NotifyConnectionState = Cmd_DV_RL_Base + 0x07"
definition Cmd_DV_RL_PostData :: u32 where "Cmd_DV_RL_PostData = Cmd_DV_RL_Base + 0x08"
definition Cmd_DV_RL_ProxyClientNotify :: u32 where "Cmd_DV_RL_ProxyClientNotify = Cmd_DV_RL_Base + 0x09"
definition Cmd_DV_RL_ForceDetroyConnection :: u32 where "Cmd_DV_RL_ForceDetroyConnection = Cmd_DV_RL_Base + 0x0A"
definition Cmd_DV_RL_CreateUdpChannel :: u32 where "Cmd_DV_RL_CreateUdpChannel = Cmd_DV_RL_Base + 0x10"
definition Cmd_DV_RL_CloseUdpChannel :: u32 where "Cmd_DV_RL_CloseUdpChannel = Cmd_DV_RL_Base + 0x11"
definition Cmd_DV_RL_PostUdpChannelData :: u32 where "Cmd_DV_RL_PostUdpChannelData = Cmd_DV_RL_Base + 0x12"
definition Cmd_DV_RL_CreateUdpChannelResp :: u32 where "Cmd_DV_RL_CreateUdpChannelResp = Cmd_DV_RL_Base + 0x13"
definition Cmd_DV_RL_UdpChannelKeepAlive :: u32 where "Cmd_DV_RL_UdpChannelKeepAlive = Cmd_DV_RL_Base + 0x14"
definition Cmd_DV_RL_DnsQuery :: u32 where "Cmd_DV_RL_DnsQuery = Cmd_DV_RL_Base + 0x20"
definition Cmd_DV_RL_DnsQueryResp :: u32 where "Cmd_DV_RL_DnsQueryResp = Cmd_DV_RL_Base + 0x21"
definition Cmd_DSR_DS_Base :: u32 where "Cmd_DSR_DS_Base = 0x09000"
definition Cmd_DSR_DS_DeviceUpdate :: u32 where "Cmd_DSR_DS_DeviceUpdate = Cmd_DSR_DS_Base + 0x01"
definition Cmd_AC_CC_Base :: u32 where "Cmd_AC_CC_Base = 0x0A000"
definition Cmd_AC_CC_AllocServerId :: u32 where "Cmd_AC_CC_AllocServerId = Cmd_AC_CC_Base + 0x01"
definition Cmd_AC_CC_AllocServerIdResp :: u32 where "Cmd_AC_CC_AllocServerIdResp = Cmd_AC_CC_Base + 0x02"
definition Cmd_AC_CC_DownloadDispatcherList :: u32 where "Cmd_AC_CC_DownloadDispatcherList = Cmd_AC_CC_Base + 0x03"
definition Cmd_AC_CC_DownloadDispatcherListResp :: u32 where "Cmd_AC_CC_DownloadDispatcherListResp = Cmd_AC_CC_Base + 0x04"
definition Cmd_AC_CC_DownloadBackendList :: u32 where "Cmd_AC_CC_DownloadBackendList = Cmd_AC_CC_Base + 0x05"
definition Cmd_AC_CC_DownloadBackendListResp :: u32 where "Cmd_AC_CC_DownloadBackendListResp = Cmd_AC_CC_Base + 0x06"
definition Cmd_CC_PA_Base :: u32 where "Cmd_CC_PA_Base = 0x0B000"
definition Cmd_CC_PA_GetRelayServerListVersion :: u32 where "Cmd_CC_PA_GetRelayServerListVersion = Cmd_CC_PA_Base + 0x01"
definition Cmd_CC_PA_GetRelayServerListVersionResp :: u32 where "Cmd_CC_PA_GetRelayServerListVersionResp = Cmd_CC_PA_Base + 0x02"
definition Cmd_CC_PA_DownloadRelayServerList :: u32 where "Cmd_CC_PA_DownloadRelayServerList = Cmd_CC_PA_Base + 0x03"
definition Cmd_CC_PA_DownloadRelayServerListResp :: u32 where "Cmd_CC_PA_DownloadRelayServerListResp = Cmd_CC_PA_Base + 0x04"
definition Cmd_ALL_CC_Base :: u32 where "Cmd_ALL_CC_Base = 0x0C000"
definition Cmd_ALL_CC_DownloadBackendServerList :: u32 where "Cmd_ALL_CC_DownloadBackendServerList = Cmd_ALL_CC_Base + 0x01"
definition Cmd_ALL_CC_DownloadBackendServerListResp :: u32 where "Cmd_ALL_CC_DownloadBackendServerListResp = Cmd_ALL_CC_Base + 0x02"
definition Cmd_ALL_CC_AcquireServerId :: u32 where "Cmd_ALL_CC_AcquireServerId = Cmd_ALL_CC_Base + 0x03"
definition Cmd_ALL_CC_AcquireServerIdResp :: u32 where "Cmd_ALL_CC_AcquireServerIdResp = Cmd_ALL_CC_Base + 0x04"
definition Cmd_DeviceSelector_Base :: u32 where "Cmd_DeviceSelector_Base = 0x0D000"
definition Cmd_DeviceSelector_AcquireDevice :: u32 where "Cmd_DeviceSelector_AcquireDevice = Cmd_DeviceSelector_Base + 0x01"
definition Cmd_DeviceSelector_AcquireDeviceResp :: u32 where "Cmd_DeviceSelector_AcquireDeviceResp = Cmd_DeviceSelector_Base + 0x02"
definition Cmd_AuthService_Base :: u32 where "Cmd_AuthService_Base = 0x0E000"
definition Cmd_AuthService_QueryAuthCache :: u32 where "Cmd_AuthService_QueryAuthCache = Cmd_AuthService_Base + 0x01"
definition Cmd_AuthService_QueryAuthCacheResp :: u32 where "Cmd_AuthService_QueryAuthCacheResp = Cmd_AuthService_Base + 0x02"

lemmas command_base_defs =
  CmdProxyBase_def Cmd_ManagementBase_def Cmd_BackendBase_def Cmd_ServerManagementBase_def
  Cmd_PA_RL_Base_def Cmd_DV_CC_Base_def Cmd_DV_RL_Base_def Cmd_DSR_DS_Base_def
  Cmd_AC_CC_Base_def Cmd_CC_PA_Base_def Cmd_ALL_CC_Base_def Cmd_DeviceSelector_Base_def
  Cmd_AuthService_Base_def

lemmas command_defs = command_base_defs
  Cmd_GeoQuery_def Cmd_HostQuery_def Cmd_GetTerminalWithAuth_def Cmd_ReportAccountUsage_def
  Cmd_ProxyClientAuth_def Cmd_CreateConnection_def Cmd_CreateConnectionResp_def
  Cmd_CloseConnection_def Cmd_PostProxyToRelayData_def Cmd_PostRelayToProxyData_def
  Cmd_CreateUdpAssociation_def Cmd_CreateUdpAssociationResp_def Cmd_CloseUdpAssociation_def
  Cmd_PostProxyToRelayUdpData_def Cmd_PostRelayToProxyUdpData_def Cmd_PostError_def
  Cmd_PostErrorResp_def Cmd_PostTerminalAudit_def Cmd_PostRelayServerAudit_def
  Cmd_AuditTerminalInfo_def Cmd_AuditTerminalInfoResp_def Cmd_AuditUsageByAuditId_def
  Cmd_AuditUsageByAuditIdResp_def Cmd_AuditTerminalInfo2_def Cmd_DeviceRelayServerInfo2_def
  Cmd_DeviceRelayServerInfoSingle_def Cmd_AuditThirdAccountUsage_def Cmd_BackendChallenge_def
  Cmd_BackendChallengeResp_def Cmd_BackendAuthByUserPass_def Cmd_BackendAuthByUserPassResp_def
  Cmd_QueryRunningState_def Cmd_QueryRunningStateResp_def Cmd_RegisterDnsServer_def
  Cmd_RegisterDnsServerResp_def Cmd_CheckinDnsServer_def Cmd_CheckinDnsServerResp_def
  Cmd_EnableDnsDispatcher_def Cmd_EnableDnsDispatcherResp_def Cmd_GetBackendServerList_def
  Cmd_GetBackendServerListResp_def Cmd_RegisterAuthCacheServer_def
  Cmd_RegisterAuditDeviceServer_def Cmd_RegisterAuditAccountServer_def
  Cmd_RegisterServerResp_def Cmd_DownloadAuthCacheServerList_def
  Cmd_DownloadAuthCacheServerListResp_def Cmd_DownloadAuditDeviceServerList_def
  Cmd_DownloadAuditDeviceServerListResp_def Cmd_DownloadAuditAccountServerList_def
  Cmd_DownloadAuditAccountServerListResp_def Cmd_PA_RL_Challenge_def
  Cmd_PA_RL_ChallengeResp_def Cmd_PA_RL_CreateConnection_def Cmd_PA_RL_DestroyConnection_def
  Cmd_PA_RL_NotifyConnectionState_def Cmd_PA_RL_PostData_def Cmd_PA_RL_ProxyClientNotify_def
  Cmd_DV_CC_Challenge_def Cmd_DV_CC_ChallengeResp_def Cmd_DV_RL_InitCtrlStream_def
  Cmd_DV_RL_InitCtrlStreamResp_def Cmd_DV_RL_InitDataStream_def
  Cmd_DV_RL_InitDataStreamResp_def Cmd_DV_RL_CreateConnection_def
  Cmd_DV_RL_DestroyConnection_def Cmd_DV_RL_NotifyConnectionState_def Cmd_DV_RL_PostData_def
  Cmd_DV_RL_ProxyClientNotify_def Cmd_DV_RL_ForceDetroyConnection_def
  Cmd_DV_RL_CreateUdpChannel_def Cmd_DV_RL_CloseUdpChannel_def Cmd_DV_RL_PostUdpChannelData_def
  Cmd_DV_RL_CreateUdpChannelResp_def Cmd_DV_RL_UdpChannelKeepAlive_def Cmd_DV_RL_DnsQuery_def
  Cmd_DV_RL_DnsQueryResp_def Cmd_DSR_DS_DeviceUpdate_def Cmd_AC_CC_AllocServerId_def
  Cmd_AC_CC_AllocServerIdResp_def Cmd_AC_CC_DownloadDispatcherList_def
  Cmd_AC_CC_DownloadDispatcherListResp_def Cmd_AC_CC_DownloadBackendList_def
  Cmd_AC_CC_DownloadBackendListResp_def Cmd_CC_PA_GetRelayServerListVersion_def
  Cmd_CC_PA_GetRelayServerListVersionResp_def Cmd_CC_PA_DownloadRelayServerList_def
  Cmd_CC_PA_DownloadRelayServerListResp_def Cmd_ALL_CC_DownloadBackendServerList_def
  Cmd_ALL_CC_DownloadBackendServerListResp_def Cmd_ALL_CC_AcquireServerId_def
  Cmd_ALL_CC_AcquireServerIdResp_def Cmd_DeviceSelector_AcquireDevice_def
  Cmd_DeviceSelector_AcquireDeviceResp_def Cmd_AuthService_QueryAuthCache_def
  Cmd_AuthService_QueryAuthCacheResp_def

definition command_ids :: "u32 list" where
  "command_ids =
    [Cmd_GeoQuery, Cmd_HostQuery, Cmd_GetTerminalWithAuth, Cmd_ReportAccountUsage,
     Cmd_ProxyClientAuth, Cmd_CreateConnection, Cmd_CreateConnectionResp, Cmd_CloseConnection,
     Cmd_PostProxyToRelayData, Cmd_PostRelayToProxyData, Cmd_CreateUdpAssociation,
     Cmd_CreateUdpAssociationResp, Cmd_CloseUdpAssociation, Cmd_PostProxyToRelayUdpData,
     Cmd_PostRelayToProxyUdpData, Cmd_PostError, Cmd_PostErrorResp, Cmd_PostTerminalAudit,
     Cmd_PostRelayServerAudit, Cmd_AuditTerminalInfo, Cmd_AuditTerminalInfoResp,
     Cmd_AuditUsageByAuditId, Cmd_AuditUsageByAuditIdResp, Cmd_AuditTerminalInfo2,
     Cmd_DeviceRelayServerInfo2, Cmd_DeviceRelayServerInfoSingle, Cmd_AuditThirdAccountUsage,
     Cmd_BackendChallenge, Cmd_BackendChallengeResp, Cmd_BackendAuthByUserPass,
     Cmd_BackendAuthByUserPassResp, Cmd_QueryRunningState, Cmd_QueryRunningStateResp,
     Cmd_RegisterDnsServer, Cmd_RegisterDnsServerResp, Cmd_CheckinDnsServer,
     Cmd_CheckinDnsServerResp, Cmd_EnableDnsDispatcher, Cmd_EnableDnsDispatcherResp,
     Cmd_GetBackendServerList, Cmd_GetBackendServerListResp, Cmd_RegisterAuthCacheServer,
     Cmd_RegisterAuditDeviceServer, Cmd_RegisterAuditAccountServer, Cmd_RegisterServerResp,
     Cmd_DownloadAuthCacheServerList, Cmd_DownloadAuthCacheServerListResp,
     Cmd_DownloadAuditDeviceServerList, Cmd_DownloadAuditDeviceServerListResp,
     Cmd_DownloadAuditAccountServerList, Cmd_DownloadAuditAccountServerListResp,
     Cmd_PA_RL_Challenge, Cmd_PA_RL_ChallengeResp, Cmd_PA_RL_CreateConnection,
     Cmd_PA_RL_DestroyConnection, Cmd_PA_RL_NotifyConnectionState, Cmd_PA_RL_PostData,
     Cmd_PA_RL_ProxyClientNotify, Cmd_DV_CC_Challenge, Cmd_DV_CC_ChallengeResp,
     Cmd_DV_RL_InitCtrlStream, Cmd_DV_RL_InitCtrlStreamResp, Cmd_DV_RL_InitDataStream,
     Cmd_DV_RL_InitDataStreamResp, Cmd_DV_RL_CreateConnection, Cmd_DV_RL_DestroyConnection,
     Cmd_DV_RL_NotifyConnectionState, Cmd_DV_RL_PostData, Cmd_DV_RL_ProxyClientNotify,
     Cmd_DV_RL_ForceDetroyConnection, Cmd_DV_RL_CreateUdpChannel, Cmd_DV_RL_CloseUdpChannel,
     Cmd_DV_RL_PostUdpChannelData, Cmd_DV_RL_CreateUdpChannelResp,
     Cmd_DV_RL_UdpChannelKeepAlive, Cmd_DV_RL_DnsQuery, Cmd_DV_RL_DnsQueryResp,
     Cmd_DSR_DS_DeviceUpdate, Cmd_AC_CC_AllocServerId, Cmd_AC_CC_AllocServerIdResp,
     Cmd_AC_CC_DownloadDispatcherList, Cmd_AC_CC_DownloadDispatcherListResp,
     Cmd_AC_CC_DownloadBackendList, Cmd_AC_CC_DownloadBackendListResp,
     Cmd_CC_PA_GetRelayServerListVersion, Cmd_CC_PA_GetRelayServerListVersionResp,
     Cmd_CC_PA_DownloadRelayServerList, Cmd_CC_PA_DownloadRelayServerListResp,
     Cmd_ALL_CC_DownloadBackendServerList, Cmd_ALL_CC_DownloadBackendServerListResp,
     Cmd_ALL_CC_AcquireServerId, Cmd_ALL_CC_AcquireServerIdResp,
     Cmd_DeviceSelector_AcquireDevice, Cmd_DeviceSelector_AcquireDeviceResp,
     Cmd_AuthService_QueryAuthCache, Cmd_AuthService_QueryAuthCacheResp]"

end
