(* ===== verification/ServerId.thy ===== *)
theory ServerId
  imports ServiceMessages Commands
begin

text \<open>
  Server ids: \<^verbatim>\<open>xServerIdManager\<close> of \<^verbatim>\<open>lib_server_util/server_id_manager.cpp\<close> and the service
  \<^verbatim>\<open>xServerIdCenterService\<close> of \<^verbatim>\<open>server_server_id_center/_main.cpp\<close> that hands ids out over
  connections. An id is a 20-bit slot, a 32-bit random and a 12-bit checksum. \<open>None\<close> stands for a
  failed \<^verbatim>\<open>assert\<close> or \<^verbatim>\<open>X_RUNTIME_ASSERT\<close>; the random of a call is an argument.
\<close>

subsection \<open>The library's slot allocator\<close>

record 'i id_ops =
  id_max :: u32 \<comment> \<open>\<^verbatim>\<open>MaxObjectId\<close>\<close>
  id_acquire :: "'i \<Rightarrow> u32 \<times> 'i" \<comment> \<open>\<^verbatim>\<open>Acquire()\<close>, 0 when no slot is free\<close>
  id_acquire_at :: "'i \<Rightarrow> u32 \<Rightarrow> bool \<times> 'i" \<comment> \<open>\<^verbatim>\<open>Acquire(Id)\<close>\<close>
  id_release :: "'i \<Rightarrow> u32 \<Rightarrow> 'i"

locale id_manager =
  fixes im :: "'i id_ops" and used :: "'i \<Rightarrow> u32 set"
  assumes max_bound: "id_max im < 2 ^ 20"
    and acquire_some: "id_acquire im m = (i, m') \<Longrightarrow> i \<noteq> 0 \<Longrightarrow>
      i \<le> id_max im \<and> i \<notin> used m \<and> used m' = insert i (used m)"
    and acquire_none: "id_acquire im m = (0, m') \<Longrightarrow>
      used m' = used m \<and> {1 .. id_max im} \<subseteq> used m"
    and acquire_at: "i \<noteq> 0 \<Longrightarrow> i \<le> id_max im \<Longrightarrow> i \<notin> used m \<Longrightarrow>
      \<exists>m'. id_acquire_at im m i = (True, m') \<and> used m' = insert i (used m)"
    and release: "i \<in> used m \<Longrightarrow> used (id_release im m i) = used m - {i}"

subsection \<open>The manager\<close>

record 'i xServerIdManager =
  IdManager :: 'i
  RandomPool :: "u32 list" \<comment> \<open>of length \<^verbatim>\<open>MaxObjectId\<close>, 0 for a free slot\<close>

text \<open>Slot \<open>Id\<close> of the allocator has its random at index \<^verbatim>\<open>Id - 1\<close>.\<close>

definition slot :: "u32 \<Rightarrow> nat" where "slot i = unat i - 1"

definition GenerateRandom :: "u32 \<Rightarrow> u32" where
  "GenerateRandom r = (r XOR 0x784C6565) OR 1"

definition GenerateCheckSum :: "u32 \<Rightarrow> u32 \<Rightarrow> u32 option" where
  "GenerateCheckSum Index Rand =
     (if Index = 0 then None else if Rand = 0 then None else
      let Sum = Index XOR Rand;
          S0 = 0xFFF AND drop_bit 0 Sum;
          S1 = 0xFFF AND drop_bit 12 Sum;
          S2 = 0xFFF AND drop_bit 24 Sum
      in Some (S0 XOR S1 XOR S2))"

definition MakeServerId :: "u32 \<Rightarrow> u32 \<Rightarrow> u32 \<Rightarrow> u64" where
  "MakeServerId Id32 Random32 CheckSum =
     push_bit 12 (Make64 Id32 Random32) + ucast CheckSum"

definition IdCheckSum :: "u64 \<Rightarrow> u64" where "IdCheckSum sid = sid AND 0xFFF"
definition IdIndex :: "u64 \<Rightarrow> u32" where "IdIndex sid = High32 (drop_bit 12 sid)"
definition IdRandom :: "u64 \<Rightarrow> u32" where "IdRandom sid = Low32 (drop_bit 12 sid)"

definition AcquireServerId ::
    "'i id_ops \<Rightarrow> u32 \<Rightarrow> 'i xServerIdManager \<Rightarrow> (u64 \<times> 'i xServerIdManager) option" where
  "AcquireServerId im r s =
     (let (Id32, m) = id_acquire im (IdManager s) in
      if Id32 = 0 then Some (0, s\<lparr>IdManager := m\<rparr>)
      else
        let Random32 = GenerateRandom r in
        case GenerateCheckSum Id32 Random32 of
          None \<Rightarrow> None
        | Some CheckSum \<Rightarrow>
            Some (MakeServerId Id32 Random32 CheckSum,
                  s\<lparr>IdManager := m, RandomPool := (RandomPool s)[slot Id32 := Random32]\<rparr>))"

definition RegainServerId ::
    "'i id_ops \<Rightarrow> u32 \<Rightarrow> 'i xServerIdManager \<Rightarrow> u64 \<Rightarrow> (u64 \<times> 'i xServerIdManager) option" where
  "RegainServerId im r s sid =
     (if sid = 0 then AcquireServerId im r s
      else
        let CheckSum = IdCheckSum sid; Id32 = IdIndex sid; Random32 = IdRandom sid in
        if Id32 = 0 \<or> Id32 > id_max im \<or> Random32 = 0 then AcquireServerId im r s
        else case GenerateCheckSum Id32 Random32 of
          None \<Rightarrow> None
        | Some C \<Rightarrow>
            if CheckSum \<noteq> ucast C then AcquireServerId im r s
            else if RandomPool s ! slot Id32 \<noteq> 0 then AcquireServerId im r s
            else
              let (ok, m) = id_acquire_at im (IdManager s) Id32 in
              if \<not> ok then None
              else Some (sid,
                s\<lparr>IdManager := m, RandomPool := (RandomPool s)[slot Id32 := Random32]\<rparr>))"

definition ReleaseServerId ::
    "'i id_ops \<Rightarrow> 'i xServerIdManager \<Rightarrow> u64 \<Rightarrow> (bool \<times> 'i xServerIdManager) option" where
  "ReleaseServerId im s sid =
     (let CheckSum = IdCheckSum sid; Id32 = IdIndex sid; Random32 = IdRandom sid in
      if Id32 = 0 \<or> Id32 > id_max im then Some (False, s)
      else case GenerateCheckSum Id32 Random32 of
        None \<Rightarrow> None
      | Some C \<Rightarrow>
          if CheckSum \<noteq> ucast C then Some (False, s)
          else if RandomPool s ! slot Id32 \<noteq> Random32 then Some (False, s)
          else Some (True,
            s\<lparr>RandomPool := (RandomPool s)[slot Id32 := 0],
              IdManager := id_release im (IdManager s) Id32\<rparr>))"

subsection \<open>The id's parts\<close>

lemma GenerateRandom_nonzero [simp]: "GenerateRandom r \<noteq> 0"
proof -
  have "bit (GenerateRandom r) 0" by (simp add: GenerateRandom_def bit_simps)
  then show ?thesis by (metis bit_0_eq bot_apply bot_bool_def)
qed

lemma GenerateCheckSum_eq:
  assumes "i \<noteq> 0" "r \<noteq> 0"
  shows "GenerateCheckSum i r =
    Some (take_bit 12 ((i XOR r) XOR drop_bit 12 (i XOR r) XOR drop_bit 24 (i XOR r)))"
proof -
  have m: "(0xFFF :: u32) = mask 12" by (simp add: mask_eq_exp_minus_1)
  have "(mask 12 AND drop_bit 0 x) XOR (mask 12 AND drop_bit 12 x) XOR (mask 12 AND drop_bit 24 x) =
      take_bit 12 (x XOR drop_bit 12 x XOR drop_bit 24 x)" for x :: u32
    by (rule bit_word_eqI) (auto simp: bit_simps)
  with assms show ?thesis unfolding GenerateCheckSum_def Let_def m by (simp only: if_False)
qed

lemma GenerateCheckSum_Some:
  "i \<noteq> 0 \<Longrightarrow> r \<noteq> 0 \<Longrightarrow> \<exists>c. GenerateCheckSum i r = Some c \<and> c < 2 ^ 12"
  by (rule exI, rule conjI, erule (1) GenerateCheckSum_eq) (rule take_bit_less, simp)

text \<open>The three parts and the checksum read back what was packed, and packing them gives the id back.\<close>

lemma MakeServerId_or:
  "c < 2 ^ 12 \<Longrightarrow> MakeServerId i r c = push_bit 12 (Make64 i r) OR ucast c"
proof -
  assume "c < 2 ^ 12"
  then have "\<not> bit c n" if "12 \<le> n" for n using that by (intro not_bit_of_less) auto
  then show ?thesis unfolding MakeServerId_def by (intro push_add_or) (auto simp: bit_simps)
qed

lemma parts_of_MakeServerId:
  assumes "i < 2 ^ 20" "c < 2 ^ 12"
  shows "IdIndex (MakeServerId i r c) = i" "IdRandom (MakeServerId i r c) = r"
    "IdCheckSum (MakeServerId i r c) = ucast c"
proof -
  have bi: "bit i n \<Longrightarrow> n < 20" for n
    using not_bit_of_less [of 20 i n] assms(1) by fastforce
  have bc: "\<not> bit c n" if "12 \<le> n" for n
    using not_bit_of_less [of 12 c n] assms(2) that by simp
  have m: "(0xFFF :: u64) = mask 12" by (simp add: mask_eq_exp_minus_1)
  note or = MakeServerId_or [OF assms(2)] Make64_or
  show "IdIndex (MakeServerId i r c) = i"
    by (rule bit_word_eqI)
      (auto simp: IdIndex_def High32_def or bit_simps bc dest: bi bit_imp_le_length)
  show "IdRandom (MakeServerId i r c) = r"
    by (rule bit_word_eqI) (auto simp: IdRandom_def Low32_def or bit_simps bc)
  show "IdCheckSum (MakeServerId i r c) = ucast c"
    by (rule bit_word_eqI) (use bc in \<open>auto simp: IdCheckSum_def or m bit_simps not_le [symmetric]\<close>)
qed

lemma MakeServerId_parts:
  assumes "IdCheckSum x = ucast c" "c < 2 ^ 12"
  shows "MakeServerId (IdIndex x) (IdRandom x) c = x"
proof -
  have m: "(0xFFF :: u64) = mask 12" by (simp add: mask_eq_exp_minus_1)
  have c: "take_bit 12 x = ucast c"
    using assms(1) by (simp add: IdCheckSum_def m take_bit_eq_mask)
  have "MakeServerId (IdIndex x) (IdRandom x) c = push_bit 12 (drop_bit 12 x) OR take_bit 12 x"
    using assms(2) c by (simp add: MakeServerId_or IdIndex_def IdRandom_def)
  also have "\<dots> = x" by (rule bit_word_eqI) (auto simp: bit_simps not_less)
  finally show ?thesis .
qed

subsection \<open>What the manager promises\<close>

text \<open>
  \<open>Holds s x\<close>: \<open>x\<close> is an id that is handed out. The invariant ties the randoms to the slots the
  library's allocator has given.
\<close>

definition well_formed_id :: "'i id_ops \<Rightarrow> u64 \<Rightarrow> bool" where
  "well_formed_id im x \<longleftrightarrow> IdIndex x \<noteq> 0 \<and> IdIndex x \<le> id_max im \<and> IdRandom x \<noteq> 0 \<and>
     map_option ucast (GenerateCheckSum (IdIndex x) (IdRandom x)) = Some (IdCheckSum x)"

definition Holds :: "'i id_ops \<Rightarrow> 'i xServerIdManager \<Rightarrow> u64 \<Rightarrow> bool" where
  "Holds im s x \<longleftrightarrow> well_formed_id im x \<and> RandomPool s ! slot (IdIndex x) = IdRandom x"

definition ids_inv :: "'i id_ops \<Rightarrow> ('i \<Rightarrow> u32 set) \<Rightarrow> 'i xServerIdManager \<Rightarrow> bool" where
  "ids_inv im used s \<longleftrightarrow>
     length (RandomPool s) = unat (id_max im) \<and>
     (\<forall>i \<in> used (IdManager s). i \<noteq> 0 \<and> i \<le> id_max im) \<and>
     (\<forall>i. i \<noteq> 0 \<and> i \<le> id_max im \<longrightarrow>
        (RandomPool s ! slot i \<noteq> 0 \<longleftrightarrow> i \<in> used (IdManager s)))"

lemma ids_invD:
  "ids_inv im used s \<Longrightarrow> i \<noteq> 0 \<Longrightarrow> i \<le> id_max im \<Longrightarrow>
   RandomPool s ! slot i \<noteq> 0 \<longleftrightarrow> i \<in> used (IdManager s)"
  unfolding ids_inv_def by blast

text \<open>
  The contract of both ways to get an id: 0 only when every slot is taken, and otherwise an id
  that was not handed out before.
\<close>

definition acquired ::
    "'i id_ops \<Rightarrow> ('i \<Rightarrow> u32 set) \<Rightarrow> 'i xServerIdManager \<Rightarrow> u64 \<Rightarrow> 'i xServerIdManager \<Rightarrow> bool" where
  "acquired im used s x t \<longleftrightarrow> ids_inv im used t \<and>
     (if x = 0 then Holds im t = Holds im s \<and> {1 .. id_max im} \<subseteq> used (IdManager s)
      else \<not> Holds im s x \<and> Holds im t = (Holds im s)(x := True))"

definition InitManager :: "'i id_ops \<Rightarrow> 'i \<Rightarrow> 'i xServerIdManager" where
  "InitManager im m0 = \<lparr>IdManager = m0, RandomPool = replicate (unat (id_max im)) 0\<rparr>"

lemma slot_less: "i \<noteq> 0 \<Longrightarrow> i \<le> m \<Longrightarrow> slot i < unat m"
  by (metis One_nat_def diff_less dual_order.strict_trans1 gr_zeroI less_numeral_extra(1) slot_def
      unat_eq_zero word_le_nat_alt)

lemma slot_inj [simp]: "i \<noteq> 0 \<Longrightarrow> j \<noteq> 0 \<Longrightarrow> slot i = slot j \<longleftrightarrow> i = j"
proof -
  assume "i \<noteq> 0" "j \<noteq> 0"
  then have "0 < unat i" "0 < unat j" by (simp_all add: unat_gt_0)
  then show ?thesis by (simp add: slot_def word_unat_eq_iff) linarith
qed

lemma slot_update:
  assumes "length P = unat m" "i \<noteq> 0" "i \<le> m" "j \<noteq> (0::u32)" "j \<le> m"
  shows "P[slot i := v] ! slot j = (if j = i then v else P ! slot j)"
  using assms slot_less [of i m] by (auto simp: nth_list_update)

context id_manager begin

lemma ids_inv_set:
  assumes "ids_inv im used s" "i \<noteq> 0" "i \<le> id_max im"
    and "if v = 0 then used m = used (IdManager s) - {i} else used m = insert i (used (IdManager s))"
  shows "ids_inv im used (s\<lparr>IdManager := m, RandomPool := (RandomPool s)[slot i := v]\<rparr>)"
proof -
  have "length (RandomPool s) = unat (id_max im)" using assms(1) by (simp add: ids_inv_def)
  note upd = slot_update [OF this assms(2,3)]
  show ?thesis using assms unfolding ids_inv_def
    by (cases "v = 0") (auto simp: upd)
qed

lemma Holds_set:
  assumes "ids_inv im used s" "i \<noteq> 0" "i \<le> id_max im"
  shows "Holds im (s\<lparr>IdManager := m, RandomPool := (RandomPool s)[slot i := v]\<rparr>) y \<longleftrightarrow>
    well_formed_id im y \<and>
      (if IdIndex y = i then IdRandom y = v else RandomPool s ! slot (IdIndex y) = IdRandom y)"
proof -
  have "length (RandomPool s) = unat (id_max im)" using assms(1) by (simp add: ids_inv_def)
  from slot_update [OF this assms(2,3)] show ?thesis
    by (auto simp: Holds_def well_formed_id_def)
qed

lemma well_formed_eq:
  assumes "well_formed_id im x" "well_formed_id im y" "IdIndex x = IdIndex y" "IdRandom x = IdRandom y"
  shows "x = y"
proof -
  obtain c where c: "GenerateCheckSum (IdIndex x) (IdRandom x) = Some c" "c < 2 ^ 12"
    using assms(1) GenerateCheckSum_Some unfolding well_formed_id_def by blast
  have "IdCheckSum x = ucast c" "IdCheckSum y = ucast c"
    using assms c unfolding well_formed_id_def by auto
  then show ?thesis using MakeServerId_parts c(2) assms(3,4) by metis
qed

lemma well_formed_Make:
  assumes "i \<noteq> 0" "i \<le> id_max im" "r \<noteq> 0" "GenerateCheckSum i r = Some c"
  shows "well_formed_id im (MakeServerId i r c)" "IdIndex (MakeServerId i r c) = i"
    "IdRandom (MakeServerId i r c) = r" "MakeServerId i r c \<noteq> 0"
proof -
  have c: "c < 2 ^ 12" using GenerateCheckSum_Some assms by fastforce
  have i: "i < 2 ^ 20" using assms(2) max_bound by (rule le_less_trans)
  note p = parts_of_MakeServerId [OF i c]
  show "IdIndex (MakeServerId i r c) = i" "IdRandom (MakeServerId i r c) = r" by (rule p)+
  show "well_formed_id im (MakeServerId i r c)" using assms p by (simp add: well_formed_id_def)
  show "MakeServerId i r c \<noteq> 0"
    using p(1) [of r] assms(1) by (auto simp: IdIndex_def High32_def)
qed

text \<open>The state after a slot is given the random of a well-formed id that was free.\<close>

lemma take_slot:
  assumes "ids_inv im used s" "well_formed_id im x" "IdIndex x \<notin> used (IdManager s)"
    "used m = insert (IdIndex x) (used (IdManager s))"
    and t: "t = s\<lparr>IdManager := m, RandomPool := (RandomPool s)[slot (IdIndex x) := IdRandom x]\<rparr>"
  shows "ids_inv im used t" "\<not> Holds im s x" "Holds im t = (Holds im s)(x := True)"
proof -
  have x: "IdIndex x \<noteq> 0" "IdIndex x \<le> id_max im" "IdRandom x \<noteq> 0"
    using assms(2) by (auto simp: well_formed_id_def)
  show "ids_inv im used t" unfolding t by (rule ids_inv_set) (use assms x in auto)
  have free: "RandomPool s ! slot (IdIndex x) = 0"
    using assms(1,3) x by (auto simp: ids_inv_def)
  then show "\<not> Holds im s x" using x by (simp add: Holds_def)
  have "Holds im t y \<longleftrightarrow> y = x \<or> Holds im s y" for y
  proof (cases "IdIndex y = IdIndex x")
    case True
    then have "\<not> Holds im s y" using free by (auto simp: Holds_def well_formed_id_def)
    then show ?thesis using True x assms(1,2) well_formed_eq [of y x]
      unfolding t by (subst Holds_set) auto
  next
    case False
    then show ?thesis using x assms(1) unfolding t by (subst Holds_set) (auto simp: Holds_def)
  qed
  then show "Holds im t = (Holds im s)(x := True)" by (auto simp: fun_eq_iff)
qed

lemma AcquireServerId_spec:
  assumes inv: "ids_inv im used s"
  shows "\<exists>x t. AcquireServerId im r s = Some (x, t) \<and> acquired im used s x t"
proof -
  obtain i m where a: "id_acquire im (IdManager s) = (i, m)" by fastforce
  show ?thesis
  proof (cases "i = 0")
    case True
    then have "used m = used (IdManager s)" "{1 .. id_max im} \<subseteq> used (IdManager s)"
      using a acquire_none by auto
    with True a inv show ?thesis
      by (auto simp: AcquireServerId_def acquired_def ids_inv_def Holds_def fun_eq_iff)
  next
    case False
    then have i: "i \<le> id_max im" "i \<notin> used (IdManager s)" "used m = insert i (used (IdManager s))"
      using a acquire_some by auto
    obtain c where c: "GenerateCheckSum i (GenerateRandom r) = Some c"
      using GenerateCheckSum_Some False by (metis GenerateRandom_nonzero)
    note w = well_formed_Make [OF False i(1) GenerateRandom_nonzero c]
    show ?thesis
      using take_slot [OF inv w(1), of m, OF _ _ refl] w(2-4) i a c False
      by (simp add: AcquireServerId_def acquired_def Let_def)
  qed
qed

text \<open>An id can be regained when it is well formed and its slot is free.\<close>

lemma RegainServerId_spec:
  assumes inv: "ids_inv im used s"
  shows "\<exists>x t. RegainServerId im r s p = Some (x, t) \<and> acquired im used s x t \<and>
    (well_formed_id im p \<and> RandomPool s ! slot (IdIndex p) = 0 \<longrightarrow> x = p)"
proof (cases "well_formed_id im p \<and> RandomPool s ! slot (IdIndex p) = 0")
  case True
  then have p: "IdIndex p \<noteq> 0" "IdIndex p \<le> id_max im" "IdRandom p \<noteq> 0" "p \<noteq> 0"
    by (auto simp: well_formed_id_def IdIndex_def High32_def)
  have free: "IdIndex p \<notin> used (IdManager s)" using inv p True by (auto simp: ids_inv_def)
  obtain m where m: "id_acquire_at im (IdManager s) (IdIndex p) = (True, m)"
    "used m = insert (IdIndex p) (used (IdManager s))"
    using acquire_at p free by blast
  obtain c where c: "GenerateCheckSum (IdIndex p) (IdRandom p) = Some c" "IdCheckSum p = ucast c"
    using True by (auto simp: well_formed_id_def)
  show ?thesis
    using take_slot [OF inv, of p m, OF _ free m(2) refl] True p m(1) c
    by (simp add: RegainServerId_def acquired_def Let_def leD [OF p(2)])
next
  case False
  then have "RegainServerId im r s p = AcquireServerId im r s"
    using GenerateCheckSum_Some [of "IdIndex p" "IdRandom p"]
    by (auto simp: RegainServerId_def Let_def well_formed_id_def)
  with AcquireServerId_spec [OF inv, of r] False show ?thesis by auto
qed

lemma ReleaseServerId_spec:
  assumes inv: "ids_inv im used s" and x: "IdRandom x \<noteq> 0"
  shows "\<exists>t. ReleaseServerId im s x = Some (Holds im s x, t) \<and> ids_inv im used t \<and>
    Holds im t = (Holds im s)(x := False)"
proof (cases "Holds im s x")
  case True
  then have w: "IdIndex x \<noteq> 0" "IdIndex x \<le> id_max im"
    "RandomPool s ! slot (IdIndex x) = IdRandom x"
    by (auto simp: Holds_def well_formed_id_def)
  have u: "used (id_release im (IdManager s) (IdIndex x)) = used (IdManager s) - {IdIndex x}"
  proof (rule release)
    show "IdIndex x \<in> used (IdManager s)" using ids_invD [OF inv w(1,2)] w(3) x by simp
  qed
  let ?t = "s\<lparr>IdManager := id_release im (IdManager s) (IdIndex x),
      RandomPool := (RandomPool s)[slot (IdIndex x) := 0]\<rparr>"
  have "ReleaseServerId im s x = Some (True, ?t)"
    using True w x by (auto simp: ReleaseServerId_def Let_def Holds_def well_formed_id_def)
  moreover have "ids_inv im used ?t" by (rule ids_inv_set) (use inv w u in auto)
  moreover have "Holds im ?t y \<longleftrightarrow> y \<noteq> x \<and> Holds im s y" for y
  proof (cases "IdIndex y = IdIndex x")
    case True
    then show ?thesis using w x inv well_formed_eq [of y x] \<open>Holds im s x\<close>
      by (subst Holds_set) (auto simp: Holds_def, auto simp: well_formed_id_def)
  next
    case False
    then show ?thesis using w inv by (subst Holds_set) (auto simp: Holds_def)
  qed
  then have "Holds im ?t = (Holds im s)(x := False)" by (simp add: fun_eq_iff)
  ultimately show ?thesis using True by simp
next
  case False
  then have "ReleaseServerId im s x = Some (False, s)"
    using x GenerateCheckSum_Some [of "IdIndex x" "IdRandom x"]
    by (auto simp: ReleaseServerId_def Let_def Holds_def well_formed_id_def)
  moreover have "(Holds im s)(x := False) = Holds im s" using False by (simp add: fun_eq_iff)
  ultimately show ?thesis using False inv by simp
qed

lemma Init_inv: "used m0 = {} \<Longrightarrow> ids_inv im used (InitManager im m0) \<and> \<not> Holds im (InitManager im m0) x"
  using slot_less
  by (auto simp: ids_inv_def InitManager_def Holds_def well_formed_id_def)

end

subsection \<open>The server id centre\<close>

text \<open>
  A connection's user context is the id it holds, 0 for none. \<open>OnClientPacket\<close> returns the flag
  that keeps the connection, the new context and manager, and the packet it posts (command,
  request id, payload).
\<close>

definition OnClientPacket ::
    "'a wire \<Rightarrow> 'i id_ops \<Rightarrow> u32 \<Rightarrow> u64 \<Rightarrow> 'i xServerIdManager \<Rightarrow> u32 \<Rightarrow> u64 \<Rightarrow> bytes \<Rightarrow>
     (bool \<times> u64 \<times> 'i xServerIdManager \<times> (u32 \<times> u64 \<times> bytes) option) option" where
  "OnClientPacket wc im r sid s CommandId RequestId Payload =
     (if sid \<noteq> 0 then Some (False, sid, s, None)
      else if CommandId \<noteq> Cmd_ALL_CC_AcquireServerId then Some (False, sid, s, None)
      else case des_xPP_AcquireServerId wc Payload of
        None \<Rightarrow> Some (False, sid, s, None)
      | Some (Req, _) \<Rightarrow>
          (case RegainServerId im r s (xPP_AcquireServerId.PreviousServerId Req) of
             None \<Rightarrow> None
           | Some (x, t) \<Rightarrow>
               let Resp = xPP_AcquireServerIdResp.make (xPP_AcquireServerId.PreviousServerId Req) x in
               Some (True, x, t, Some (Cmd_ALL_CC_AcquireServerIdResp, RequestId,
                 ser_xPP_AcquireServerIdResp wc Resp))))"

definition OnClientClose ::
    "'i id_ops \<Rightarrow> u64 \<Rightarrow> 'i xServerIdManager \<Rightarrow> 'i xServerIdManager option" where
  "OnClientClose im sid s =
     (if sid \<noteq> 0 then
        (case ReleaseServerId im s sid of Some (True, t) \<Rightarrow> Some t | _ \<Rightarrow> None)
      else Some s)"

text \<open>
  The service: \<open>connections\<close> maps an open connection to its context. A packet and a close come
  in any order; after a packet that is refused the connection stays until its close.
\<close>

record 'i centre =
  centre_ids :: "'i xServerIdManager"
  connections :: "u64 \<Rightarrow> u64 option"

inductive centre_step :: "'a wire \<Rightarrow> 'i id_ops \<Rightarrow> 'i centre \<Rightarrow> 'i centre \<Rightarrow> bool"
  for wc :: "'a wire" and im :: "'i id_ops" where
  connect: "connections c k = None \<Longrightarrow>
    centre_step wc im c (c\<lparr>connections := (connections c)(k \<mapsto> 0)\<rparr>)"
| packet: "connections c k = Some u \<Longrightarrow>
    OnClientPacket wc im r u (centre_ids c) cmd rid p = Some (ok, u', t, out) \<Longrightarrow>
    centre_step wc im c (c\<lparr>centre_ids := t, connections := (connections c)(k \<mapsto> u')\<rparr>)"
| close: "connections c k = Some u \<Longrightarrow> OnClientClose im u (centre_ids c) = Some t \<Longrightarrow>
    centre_step wc im c (c\<lparr>centre_ids := t, connections := (connections c)(k := None)\<rparr>)"

inductive centre_reach :: "'a wire \<Rightarrow> 'i id_ops \<Rightarrow> 'i \<Rightarrow> 'i centre \<Rightarrow> bool"
  for wc :: "'a wire" and im :: "'i id_ops" and m0 :: 'i where
  init: "centre_reach wc im m0 \<lparr>centre_ids = InitManager im m0, connections = (\<lambda>_. None)\<rparr>"
| step: "centre_reach wc im m0 c \<Longrightarrow> centre_step wc im c d \<Longrightarrow> centre_reach wc im m0 d"

text \<open>
  Every id that is handed out is held by exactly one open connection, and no connection holds
  anything else.
\<close>

definition holders_inv :: "(u64 \<Rightarrow> bool) \<Rightarrow> (u64 \<Rightarrow> u64 option) \<Rightarrow> bool" where
  "holders_inv H m \<longleftrightarrow>
     (\<forall>x. x \<noteq> 0 \<longrightarrow> (H x \<longleftrightarrow> (\<exists>k. m k = Some x))) \<and>
     (\<forall>k l x. m k = Some x \<longrightarrow> m l = Some x \<longrightarrow> x \<noteq> 0 \<longrightarrow> k = l)"

definition centre_inv :: "'i id_ops \<Rightarrow> ('i \<Rightarrow> u32 set) \<Rightarrow> 'i centre \<Rightarrow> bool" where
  "centre_inv im used c \<longleftrightarrow> ids_inv im used (centre_ids c) \<and>
     holders_inv (Holds im (centre_ids c)) (connections c)"

lemma holders_invI:
  assumes "\<And>k x. m k = Some x \<Longrightarrow> x \<noteq> 0 \<Longrightarrow> H x"
    and "\<And>x. H x \<Longrightarrow> x \<noteq> 0 \<Longrightarrow> \<exists>k. m k = Some x"
    and "\<And>k l x. m k = Some x \<Longrightarrow> m l = Some x \<Longrightarrow> x \<noteq> 0 \<Longrightarrow> k = l"
  shows "holders_inv H m"
  using assms unfolding holders_inv_def by blast

lemma holders_invD:
  assumes "holders_inv H m" "x \<noteq> 0"
  shows "m k = Some x \<Longrightarrow> H x" "H x \<Longrightarrow> \<exists>k. m k = Some x" "m k = Some x \<Longrightarrow> m l = Some x \<Longrightarrow> k = l"
  using assms unfolding holders_inv_def by blast+

lemma holders_connect:
  assumes "holders_inv H m" "m k = None"
  shows "holders_inv H (m(k \<mapsto> 0))"
proof (rule holders_invI)
  fix x assume "H x" "x \<noteq> 0"
  then obtain l where "m l = Some x" using holders_invD(2) [OF assms(1)] by blast
  with assms(2) show "\<exists>l. (m(k \<mapsto> 0)) l = Some x" by (intro exI [of _ l]) auto
qed (use holders_invD [OF assms(1)] in \<open>auto split: if_splits\<close>)

lemma holders_take:
  assumes "holders_inv H m" "m k = Some 0" "y \<noteq> 0" "\<not> H y"
  shows "holders_inv (H(y := True)) (m(k \<mapsto> y))"
proof (rule holders_invI)
  fix x assume x: "(H(y := True)) x" "x \<noteq> 0"
  show "\<exists>l. (m(k \<mapsto> y)) l = Some x"
  proof (cases "x = y")
    case False
    with x obtain l where "m l = Some x" using holders_invD(2) [OF assms(1)] by auto
    with assms(2) x(2) show ?thesis by (intro exI [of _ l]) auto
  qed auto
qed (use assms holders_invD [OF assms(1)] in \<open>auto split: if_splits\<close>)

lemma holders_drop:
  assumes "holders_inv H m" "m k = Some y" "y \<noteq> 0"
  shows "holders_inv (H(y := False)) (m(k := None))"
proof (rule holders_invI)
  fix x assume x: "(H(y := False)) x" "x \<noteq> 0"
  then obtain l where "m l = Some x" "x \<noteq> y"
    using holders_invD(2) [OF assms(1)] by (auto split: if_splits)
  with assms(2) show "\<exists>l. (m(k := None)) l = Some x" by (intro exI [of _ l]) auto
qed (use assms holders_invD [OF assms(1)] in \<open>auto split: if_splits\<close>)

lemma holders_drop_zero:
  assumes "holders_inv H m" "m k = Some 0"
  shows "holders_inv H (m(k := None))"
proof (rule holders_invI)
  fix x assume x: "H x" "x \<noteq> 0"
  then obtain l where "m l = Some x" using holders_invD(2) [OF assms(1)] by blast
  with assms(2) x(2) show "\<exists>l. (m(k := None)) l = Some x" by (intro exI [of _ l]) auto
qed (use assms holders_invD [OF assms(1)] in \<open>auto split: if_splits\<close>)

lemma Holds_nonzero: "Holds im s x \<Longrightarrow> x \<noteq> 0 \<and> IdRandom x \<noteq> 0"
  by (auto simp: Holds_def well_formed_id_def IdRandom_def Low32_def)

context id_manager begin

lemma OnClientPacket_spec:
  assumes "ids_inv im used s"
  shows "\<exists>ok x t out. OnClientPacket wc im r u s cmd rid p = Some (ok, x, t, out) \<and>
    (x = u \<and> t = s \<or> u = 0 \<and> acquired im used s x t)"
proof (cases "u \<noteq> 0 \<or> cmd \<noteq> Cmd_ALL_CC_AcquireServerId \<or> des_xPP_AcquireServerId wc p = None")
  case True
  then show ?thesis by (auto simp: OnClientPacket_def)
next
  case False
  then obtain Req s' where d: "des_xPP_AcquireServerId wc p = Some (Req, s')" by auto
  obtain x t where "RegainServerId im r s (xPP_AcquireServerId.PreviousServerId Req) = Some (x, t)"
    "acquired im used s x t"
    using RegainServerId_spec [OF assms] by blast
  with False d show ?thesis by (auto simp: OnClientPacket_def Let_def)
qed

lemma OnClientClose_spec:
  assumes "ids_inv im used s" "u \<noteq> 0 \<longrightarrow> Holds im s u"
  shows "\<exists>t. OnClientClose im u s = Some t \<and> ids_inv im used t \<and>
    Holds im t = (Holds im s)(u := False)"
proof (cases "u = 0")
  case True
  then have "(Holds im s)(u := False) = Holds im s"
    using Holds_nonzero [of im s u] by (auto simp: fun_eq_iff)
  then show ?thesis using True assms by (simp add: OnClientClose_def)
next
  case False
  then have "Holds im s u" using assms by blast
  with ReleaseServerId_spec [OF assms(1)] Holds_nonzero False show ?thesis
    by (fastforce simp: OnClientClose_def)
qed

lemma centre_step_inv: "centre_step wc im c d \<Longrightarrow> centre_inv im used c \<Longrightarrow> centre_inv im used d"
proof (induction rule: centre_step.induct)
  case (connect c k)
  then show ?case by (simp add: centre_inv_def holders_connect)
next
  case (packet c k u r cmd rid p ok u' t out)
  then consider "u' = u" "t = centre_ids c" | "u = 0" "acquired im used (centre_ids c) u' t"
    using OnClientPacket_spec [of "centre_ids c" wc r u cmd rid p] by (auto simp: centre_inv_def)
  then show ?case
  proof cases
    case 1
    then show ?thesis using packet by (simp add: centre_inv_def fun_upd_idem)
  next
    case 2
    then show ?thesis using packet.hyps(1) packet.prems
      by (cases "u' = 0") (simp_all add: centre_inv_def acquired_def fun_upd_idem holders_take)
  qed
next
  case (close c k u t)
  then have u: "u \<noteq> 0 \<longrightarrow> Holds im (centre_ids c) u"
    unfolding centre_inv_def holders_inv_def by blast
  with close OnClientClose_spec [of "centre_ids c" u]
  have t: "ids_inv im used t" "Holds im t = (Holds im (centre_ids c))(u := False)"
    by (auto simp: centre_inv_def)
  have old: "holders_inv (Holds im (centre_ids c)) (connections c)"
    using close.prems by (simp add: centre_inv_def)
  have "holders_inv (Holds im t) ((connections c)(k := None))"
  proof (cases "u = 0")
    case True
    then have "Holds im t = Holds im (centre_ids c)"
      using t(2) Holds_nonzero [of im "centre_ids c" 0] by (auto simp: fun_eq_iff)
    with holders_drop_zero [OF old] close.hyps(1) True show ?thesis by simp
  next
    case False
    with holders_drop [OF old close.hyps(1)] t(2) show ?thesis by simp
  qed
  with t(1) show ?case by (simp add: centre_inv_def)
qed

lemma centre_reach_inv: "centre_reach wc im m0 c \<Longrightarrow> used m0 = {} \<Longrightarrow> centre_inv im used c"
  by (induction rule: centre_reach.induct)
    (auto simp: centre_step_inv, auto simp: centre_inv_def holders_inv_def Init_inv)

end

subsection \<open>A reference allocator\<close>

text \<open>The lowest free slot of \<open>n\<close>, to run the witnesses.\<close>

definition ref_ids :: "nat \<Rightarrow> u32 list id_ops" where
  "ref_ids n = \<lparr>
     id_max = word_of_nat n,
     id_acquire = (\<lambda>m. case filter (\<lambda>i. i \<notin> set m) (map word_of_nat [1 ..< Suc n]) of
       [] \<Rightarrow> (0, m) | i # _ \<Rightarrow> (i, i # m)),
     id_acquire_at = (\<lambda>m i. if i \<in> set m then (False, m) else (True, i # m)),
     id_release = (\<lambda>m i. removeAll i m)\<rparr>"

lemma ref_ids_contract:
  assumes "n < 2 ^ 20"
  shows "id_manager (ref_ids n) set"
proof -
  have u: "unat (word_of_nat i :: u32) = i" if "i \<le> n" for i
    using that assms by (intro unat_of_nat_small) simp
  have rng: "set (map word_of_nat [1 ..< Suc n]) = {1 .. word_of_nat n :: u32}"
  proof (intro set_eqI iffI)
    fix x :: u32 assume "x \<in> set (map word_of_nat [1 ..< Suc n])"
    then obtain i where i: "x = word_of_nat i" "1 \<le> i" "i \<le> n" by auto
    then show "x \<in> {1 .. word_of_nat n}" by (auto simp: word_le_nat_alt u)
  next
    fix x :: u32 assume x: "x \<in> {1 .. word_of_nat n}"
    then have "1 \<le> unat x" "unat x \<le> n" by (auto simp: word_le_nat_alt u)
    then show "x \<in> set (map word_of_nat [1 ..< Suc n])"
      by (auto intro!: image_eqI [where x = "unat x"] simp del: upt_Suc)
  qed
  have lt: "(word_of_nat n :: u32) < 2 ^ 20"
    using assms u [of n] unat_2p [of 20, where 'a = 32] by (simp add: word_less_nat_alt)
  define F where "F m = filter (\<lambda>i. i \<notin> set m) (map word_of_nat [1 ..< Suc n] :: u32 list)" for m
  have free: "set (F m) = {1 .. word_of_nat n} - set m" for m
    unfolding F_def set_filter rng by auto
  have acq: "id_acquire (ref_ids n) m = (case F m of [] \<Rightarrow> (0, m) | i # _ \<Rightarrow> (i, i # m))" for m
    by (simp add: ref_ids_def F_def)
  show ?thesis
  proof
    show "id_max (ref_ids n) < 2 ^ 20" using lt by (simp add: ref_ids_def)
  next
    fix m i m' assume a: "id_acquire (ref_ids n) m = (i, m')" "i \<noteq> 0"
    then obtain r where "F m = i # r" "m' = i # m" by (auto simp: acq split: list.splits)
    then have "i \<in> {1 .. word_of_nat n} - set m" "m' = i # m" using free [of m] by auto
    then show "i \<le> id_max (ref_ids n) \<and> i \<notin> set m \<and> set m' = insert i (set m)"
      by (simp add: ref_ids_def)
  next
    fix m m' assume a: "id_acquire (ref_ids n) m = (0, m')"
    have "0 \<notin> set (F m)" using free [of m] by simp
    then have "F m = []" "m' = m" using a by (auto simp: acq split: list.splits)
    then show "set m' = set m \<and> {1 .. id_max (ref_ids n)} \<subseteq> set m"
      using free [of m] by (simp add: ref_ids_def)
  qed (auto simp: ref_ids_def)
qed

interpretation ref_im: id_manager "ref_ids 8" set
  by (rule ref_ids_contract) simp

subsection \<open>Properties\<close>

text \<open>
  C14: in every state the server id centre can reach, over any interleaving of connects, packets
  and closes, two open connections never hold the same server id, and the ids that the manager
  counts as handed out are exactly those that open connections hold, so none leaks.
\<close>

theorem centre_ids_unique:
  assumes "id_manager im used" "used m0 = {}" "centre_reach wc im m0 c"
  shows "(\<forall>k l x. connections c k = Some x \<and> connections c l = Some x \<and> x \<noteq> 0 \<longrightarrow> k = l) \<and>
    (\<forall>x. x \<noteq> 0 \<longrightarrow> (Holds im (centre_ids c) x \<longleftrightarrow> (\<exists>k. connections c k = Some x)))"
  using id_manager.centre_reach_inv [OF assms(1,3,2)]
  unfolding centre_inv_def holders_inv_def by blast

definition demo_centre :: "u32 list centre" where
  "demo_centre =
     (let c0 = \<lparr>centre_ids = InitManager (ref_ids 8) [], connections = (\<lambda>_. None)\<rparr>;
          c1 = c0\<lparr>connections := (connections c0)(7 \<mapsto> 0)\<rparr> in
      case OnClientPacket ref_wire (ref_ids 8) 5 0 (centre_ids c1) Cmd_ALL_CC_AcquireServerId 1
          (ser_xPP_AcquireServerId ref_wire (xPP_AcquireServerId.make 0)) of
        Some (_, x, t, _) \<Rightarrow> c1\<lparr>centre_ids := t, connections := (connections c1)(7 \<mapsto> x)\<rparr>
      | None \<Rightarrow> c1)"

lemma demo_centre_reach: "centre_reach ref_wire (ref_ids 8) [] demo_centre"
proof -
  let ?c0 = "\<lparr>centre_ids = InitManager (ref_ids 8) [], connections = (\<lambda>_. None)\<rparr>"
  let ?c1 = "?c0\<lparr>connections := (connections ?c0)(7 \<mapsto> 0)\<rparr>"
  have c1: "centre_reach ref_wire (ref_ids 8) [] ?c1"
    by (rule centre_reach.step [OF centre_reach.init]) (rule centre_step.connect, simp)
  have "ids_inv (ref_ids 8) set (InitManager (ref_ids 8) [])" using ref_im.Init_inv by simp
  from ref_im.OnClientPacket_spec [OF this, of ref_wire 5 0 Cmd_ALL_CC_AcquireServerId 1
      "ser_xPP_AcquireServerId ref_wire (xPP_AcquireServerId.make 0)"]
  obtain ok x t out where p: "OnClientPacket ref_wire (ref_ids 8) 5 0 (centre_ids ?c1)
      Cmd_ALL_CC_AcquireServerId 1 (ser_xPP_AcquireServerId ref_wire (xPP_AcquireServerId.make 0)) =
      Some (ok, x, t, out)" by auto
  have "centre_step ref_wire (ref_ids 8) ?c1
      (?c1\<lparr>centre_ids := t, connections := (connections ?c1)(7 \<mapsto> x)\<rparr>)"
    by (rule centre_step.packet [where k = 7 and u = 0, OF _ p]) simp
  with c1 p show ?thesis
    unfolding demo_centre_def Let_def by (simp add: centre_reach.step)
qed

lemma demo_centre_id: "connections demo_centre 7 = Some 25859030651358"
  by code_simp

theorem centre_ids_unique_witness:
  "Holds (ref_ids 8) (centre_ids demo_centre) 25859030651358 \<and>
   connections demo_centre 7 = Some 25859030651358"
  using centre_ids_unique [OF ref_im.id_manager_axioms _ demo_centre_reach] demo_centre_id
  by auto

text \<open>
  C22: no assertion of the server id centre can fail: in every reachable state the handler of any
  packet on any open connection, and the handler of any close, runs to its end.
\<close>

theorem centre_never_fails:
  assumes "id_manager im used" "used m0 = {}" "centre_reach wc im m0 c" "connections c k = Some u"
  shows "OnClientPacket wc im r u (centre_ids c) cmd rid p \<noteq> None \<and>
    OnClientClose im u (centre_ids c) \<noteq> None"
proof -
  have inv: "centre_inv im used c"
    by (rule id_manager.centre_reach_inv [OF assms(1,3,2)])
  then have ids: "ids_inv im used (centre_ids c)" and "u \<noteq> 0 \<longrightarrow> Holds im (centre_ids c) u"
    using assms(4) unfolding centre_inv_def holders_inv_def by blast+
  then show ?thesis
    using id_manager.OnClientPacket_spec [OF assms(1) ids, of wc r u cmd rid p]
      id_manager.OnClientClose_spec [OF assms(1) ids, of u] by auto
qed

theorem centre_never_fails_witness:
  "OnClientClose (ref_ids 8) 25859030651358 (centre_ids demo_centre) \<noteq> None"
  using centre_never_fails [OF ref_im.id_manager_axioms _ demo_centre_reach demo_centre_id]
  by simp

text \<open>
  \<^verbatim>\<open>RegainServerId\<close> on any id: it gives 0 only when every slot is taken, otherwise an id that
  was not handed out before, adds exactly that id to those handed out, and gives back the
  previous id itself whenever that is well formed and its slot is free.
\<close>

theorem regain_functional:
  assumes "id_manager im used" "ids_inv im used s"
  shows "\<exists>x t. RegainServerId im r s p = Some (x, t) \<and> ids_inv im used t \<and>
    (x = 0 \<longrightarrow> Holds im t = Holds im s \<and> {1 .. id_max im} \<subseteq> used (IdManager s)) \<and>
    (x \<noteq> 0 \<longrightarrow> \<not> Holds im s x \<and> Holds im t = (Holds im s)(x := True)) \<and>
    (well_formed_id im p \<and> RandomPool s ! slot (IdIndex p) = 0 \<longrightarrow> x = p)"
proof -
  obtain x t where "RegainServerId im r s p = Some (x, t)" "acquired im used s x t"
    "well_formed_id im p \<and> RandomPool s ! slot (IdIndex p) = 0 \<longrightarrow> x = p"
    using id_manager.RegainServerId_spec [OF assms] by blast
  then show ?thesis unfolding acquired_def by (intro exI [of _ x] exI [of _ t]) (auto split: if_splits)
qed

theorem regain_functional_witness:
  "\<exists>t. RegainServerId (ref_ids 8) 9 (InitManager (ref_ids 8) []) 25859030651358 =
     Some (25859030651358, t)"
proof -
  have i: "ids_inv (ref_ids 8) set (InitManager (ref_ids 8) [])" using ref_im.Init_inv by simp
  have "well_formed_id (ref_ids 8) 25859030651358 \<and>
      RandomPool (InitManager (ref_ids 8) []) ! slot (IdIndex 25859030651358) = 0"
    by code_simp
  with regain_functional [OF ref_im.id_manager_axioms i, of 9 25859030651358] show ?thesis by metis
qed

text \<open>
  \<^verbatim>\<open>ReleaseServerId\<close> succeeds exactly on the ids that are handed out and takes exactly that id
  back; a forged or stale id changes nothing. Only an id in range whose random is 0 reaches the
  assertion of the checksum.
\<close>

theorem release_functional:
  assumes "id_manager im used" "ids_inv im used s"
  shows "(ReleaseServerId im s x = None \<longleftrightarrow>
      IdIndex x \<noteq> 0 \<and> IdIndex x \<le> id_max im \<and> IdRandom x = 0) \<and>
    (\<forall>ok t. ReleaseServerId im s x = Some (ok, t) \<longrightarrow>
      (ok \<longleftrightarrow> Holds im s x) \<and> ids_inv im used t \<and> Holds im t = (Holds im s)(x := False))"
proof (cases "IdRandom x = 0")
  case True
  then have "\<not> Holds im s x" using Holds_nonzero by blast
  then have "(Holds im s)(x := False) = Holds im s" by (simp add: fun_eq_iff)
  with True assms(2) \<open>\<not> Holds im s x\<close> show ?thesis
    by (auto simp: ReleaseServerId_def GenerateCheckSum_def Let_def)
next
  case False
  with id_manager.ReleaseServerId_spec [OF assms False] show ?thesis by auto
qed

theorem release_functional_witness:
  "ReleaseServerId (ref_ids 8) (InitManager (ref_ids 8) []) (MakeServerId 3 0 0) = None"
proof -
  have i: "ids_inv (ref_ids 8) set (InitManager (ref_ids 8) [])" using ref_im.Init_inv by simp
  have "IdIndex (MakeServerId 3 0 0) \<noteq> 0 \<and> IdIndex (MakeServerId 3 0 0) \<le> id_max (ref_ids 8) \<and>
      IdRandom (MakeServerId 3 0 0) = 0" by code_simp
  with release_functional [OF ref_im.id_manager_axioms i, of "MakeServerId 3 0 0"] show ?thesis
    by blast
qed

text \<open>
  a server id reads back as the slot, the random and the checksum it was made of, for every
  slot of 20 bits, and each id that passes the checksum is made of its own parts.
\<close>

theorem server_id_round_trip:
  assumes "i < 2 ^ 20" "GenerateCheckSum i r = Some c"
  shows "IdIndex (MakeServerId i r c) = i \<and> IdRandom (MakeServerId i r c) = r \<and>
    IdCheckSum (MakeServerId i r c) = ucast c \<and>
    (IdIndex x = i \<and> IdRandom x = r \<and> IdCheckSum x = ucast c \<longrightarrow> x = MakeServerId i r c)"
proof -
  have "i \<noteq> 0" "r \<noteq> 0" using assms(2) by (auto simp: GenerateCheckSum_def split: if_splits)
  then have "c < 2 ^ 12" using GenerateCheckSum_Some assms(2) by fastforce
  then show ?thesis using parts_of_MakeServerId [OF assms(1)] MakeServerId_parts [of x c] by auto
qed

theorem server_id_round_trip_witness: "IdRandom (MakeServerId 5 77 72) = 77"
proof -
  have "GenerateCheckSum 5 77 = Some 72" by code_simp
  from server_id_round_trip [OF _ this] show ?thesis by simp
qed

end
