(* ===== verification/LowerBound.thy ===== *)
theory LowerBound
  imports Prelude
begin

text \<open>
  \<^verbatim>\<open>std::lower_bound\<close> of the C++ library on a vector sorted by a key, and the three uses the
  program makes of it: find, insert and erase at the bound.
\<close>

subsection \<open>\<^verbatim>\<open>std::lower_bound\<close>\<close>

text \<open>The library's halving loop: \<open>len\<close> elements from \<open>first\<close> on are still in question.\<close>

function lower_bound_loop :: "('b \<Rightarrow> 'k::linorder) \<Rightarrow> 'b list \<Rightarrow> 'k \<Rightarrow> nat \<Rightarrow> nat \<Rightarrow> nat" where
  "lower_bound_loop key xs v first len =
     (if len = 0 then first
      else let half = len div 2; mid = first + half in
        if key (xs ! mid) < v then lower_bound_loop key xs v (mid + 1) (len - half - 1)
        else lower_bound_loop key xs v first half)"
  by auto
termination by (relation "measure (\<lambda>(key, xs, v, first, len). len)") auto

declare lower_bound_loop.simps [simp del]

definition lower_bound :: "('b \<Rightarrow> 'k::linorder) \<Rightarrow> 'b list \<Rightarrow> 'k \<Rightarrow> nat" where
  "lower_bound key xs v = lower_bound_loop key xs v 0 (length xs)"

definition is_lower_bound :: "('b \<Rightarrow> 'k::linorder) \<Rightarrow> 'b list \<Rightarrow> 'k \<Rightarrow> nat \<Rightarrow> bool" where
  "is_lower_bound key xs v r \<longleftrightarrow> r \<le> length xs \<and> (\<forall>k < r. key (xs ! k) < v) \<and>
     (\<forall>k. r \<le> k \<and> k < length xs \<longrightarrow> v \<le> key (xs ! k))"

lemma lower_bound_loop_spec:
  assumes "sorted_by key xs" "first + len \<le> length xs"
    and "\<forall>k < first. key (xs ! k) < v" "\<forall>k. first + len \<le> k \<and> k < length xs \<longrightarrow> v \<le> key (xs ! k)"
  shows "is_lower_bound key xs v (lower_bound_loop key xs v first len)"
  using assms
proof (induction key xs v first len rule: lower_bound_loop.induct)
  case (1 key xs v first len)
  define half where "half = len div 2"
  define mid where "mid = first + half"
  have eq: "lower_bound_loop key xs v first len = (if len = 0 then first
      else if key (xs ! mid) < v then lower_bound_loop key xs v (mid + 1) (len - half - 1)
      else lower_bound_loop key xs v first half)"
    by (subst lower_bound_loop.simps) (simp add: Let_def half_def mid_def)
  show ?case
  proof (cases "len = 0")
    case True
    then show ?thesis using 1(4-6) unfolding eq by (simp add: is_lower_bound_def)
  next
    case False
    have mid: "mid < length xs" using False 1(4) by (auto simp: half_def mid_def)
    have lt: "key (xs ! k) < key (xs ! mid)" if "k < mid" for k
      using 1(3) that mid by (intro sorted_by_nth_less)
    have gt: "key (xs ! mid) < key (xs ! k)" if "mid < k" "k < length xs" for k
      using 1(3) that by (intro sorted_by_nth_less)
    show ?thesis
    proof (cases "key (xs ! mid) < v")
      case True
      have e: "mid + 1 + (len - half - 1) = first + len"
        using False by (simp add: mid_def half_def)
      have "\<forall>k < mid + 1. key (xs ! k) < v" using lt True by (metis less_trans less_Suc_eq Suc_eq_plus1)
      with 1(1)[OF False half_def mid_def True 1(3)] 1(4,6) e
      have "is_lower_bound key xs v (lower_bound_loop key xs v (mid + 1) (len - half - 1))" by simp
      with True False show ?thesis unfolding eq by simp
    next
      case F: False
      have "\<forall>k. first + half \<le> k \<and> k < length xs \<longrightarrow> v \<le> key (xs ! k)"
        using gt F unfolding mid_def by (metis le_eq_less_or_eq less_imp_le not_le order_trans)
      with 1(2)[OF False half_def mid_def F 1(3)] mid 1(5)
      have "is_lower_bound key xs v (lower_bound_loop key xs v first half)" by (simp add: mid_def)
      with F False show ?thesis unfolding eq by simp
    qed
  qed
qed

lemma lower_bound_spec:
  assumes "sorted_by key xs"
  shows "lower_bound key xs v \<le> length xs"
    "\<And>k. k < lower_bound key xs v \<Longrightarrow> key (xs ! k) < v"
    "\<And>k. lower_bound key xs v \<le> k \<Longrightarrow> k < length xs \<Longrightarrow> v \<le> key (xs ! k)"
proof -
  have "is_lower_bound key xs v (lower_bound key xs v)"
    unfolding lower_bound_def by (rule lower_bound_loop_spec [OF assms]) auto
  then show "lower_bound key xs v \<le> length xs"
    "\<And>k. k < lower_bound key xs v \<Longrightarrow> key (xs ! k) < v"
    "\<And>k. lower_bound key xs v \<le> k \<Longrightarrow> k < length xs \<Longrightarrow> v \<le> key (xs ! k)"
    unfolding is_lower_bound_def by blast+
qed

text \<open>The search as the callers use it: split at the bound, and whether the id is there.\<close>

definition found_at :: "('b \<Rightarrow> 'k::linorder) \<Rightarrow> 'b list \<Rightarrow> 'k \<Rightarrow> bool" where
  "found_at key xs v \<longleftrightarrow>
     lower_bound key xs v < length xs \<and> key (xs ! lower_bound key xs v) = v"

lemma lower_bound_parts:
  assumes "sorted_by key xs"
  shows "\<And>x. x \<in> set (take (lower_bound key xs v) xs) \<Longrightarrow> key x < v"
    "\<And>x. x \<in> set (drop (lower_bound key xs v) xs) \<Longrightarrow> v \<le> key x"
  using lower_bound_spec [OF assms] by (auto simp: in_set_conv_nth)

lemma found_at_iff:
  assumes "sorted_by key xs"
  shows "found_at key xs v \<longleftrightarrow> (\<exists>x \<in> set xs. key x = v)"
proof
  assume "\<exists>x \<in> set xs. key x = v"
  then obtain k where k: "k < length xs" "key (xs ! k) = v" by (metis in_set_conv_nth)
  let ?b = "lower_bound key xs v"
  have "?b \<le> k" using lower_bound_spec(2) [OF assms, of k v] k by (metis not_le less_irrefl)
  moreover have "\<not> ?b < k"
    using sorted_by_nth_less [OF assms, of ?b k] k lower_bound_spec(3) [OF assms, of v ?b] by auto
  ultimately show "found_at key xs v" using k by (simp add: found_at_def)
qed (auto simp: found_at_def)

lemma sorted_insert_at:
  assumes "sorted_by key xs" "\<not> found_at key xs (key y)"
  shows "sorted_by key (take (lower_bound key xs (key y)) xs @ y # drop (lower_bound key xs (key y)) xs)"
proof -
  let ?b = "lower_bound key xs (key y)"
  have "key x \<noteq> key y" if "x \<in> set xs" for x using that assms found_at_iff by blast
  then have "\<forall>x \<in> set (drop ?b xs). key y < key x"
    using lower_bound_parts(2) [OF assms(1)] by (metis in_set_dropD le_neq_trans)
  moreover have "\<forall>x \<in> set (take ?b xs). key x < key y"
    using lower_bound_parts(1) [OF assms(1)] by blast
  ultimately show ?thesis using assms(1) sorted_by_take_drop [OF assms(1), of ?b]
    by (fastforce simp: sorted_by_append sorted_by_Cons)
qed

text \<open>Removal of the element at the bound removes the id, and only it.\<close>

lemma remove_at_set:
  assumes "sorted_by key xs" "found_at key xs v"
  shows "set (take (lower_bound key xs v) xs @ drop (Suc (lower_bound key xs v)) xs) =
      {x \<in> set xs. key x \<noteq> v}"
    "sorted_by key (take (lower_bound key xs v) xs @ drop (Suc (lower_bound key xs v)) xs)"
proof -
  let ?b = "lower_bound key xs v"
  have b: "?b < length xs" "key (xs ! ?b) = v" using assms(2) by (auto simp: found_at_def)
  have xs: "xs = take ?b xs @ xs ! ?b # drop (Suc ?b) xs" using b by (simp add: id_take_nth_drop)
  then have s: "sorted_by key (take ?b xs @ xs ! ?b # drop (Suc ?b) xs)" using assms(1) by simp
  then show "sorted_by key (take ?b xs @ drop (Suc ?b) xs)"
    by (auto simp: sorted_by_append sorted_by_Cons)
  have "set xs = insert (xs ! ?b) (set (take ?b xs @ drop (Suc ?b) xs))"
    by (subst xs) (simp only: set_append list.set Un_insert_right Un_empty_right)
  moreover have "key x \<noteq> v" if "x \<in> set (take ?b xs @ drop (Suc ?b) xs)" for x
    using s that b(2) by (auto simp: sorted_by_append sorted_by_Cons)
  ultimately show "set (take ?b xs @ drop (Suc ?b) xs) = {x \<in> set xs. key x \<noteq> v}"
    using b(2) by auto
qed

end
