(* ===== verification/ServerList.thy ===== *)
theory ServerList
  imports ServiceMessages Commands LowerBound
begin

text \<open>
  The server list service: \<^verbatim>\<open>xSL_InternalServerListManager\<close> of
  \<^verbatim>\<open>server_server_list/server_list_manager.cpp\<close>, with its three registries (authentication
  caches, device audit and account audit servers), the registration and download services of
  \<^verbatim>\<open>server_server_list/_main.cpp\<close>, and \<^verbatim>\<open>xSL_BackendServerManager\<close>. The registries are vectors
  sorted by server id; the registration service keeps, per connection, a pointer into a vector,
  which the model keeps as the vector's buffer and an index.
\<close>

subsection \<open>A registry\<close>

datatype eServerType = UNSPECIFIED | CONFIG_CENTER | DEVICE_RELAY | DEVICE_SELECTOR | THIRD_RELAY
  | STATIC_RELAY_TERMINAL | PROXY_ACCESS | AUTH_CACHE | AUDIT_DEVICE_CACHE | AUDIT_ACCOUNT_CACHE
  | CONFIG_CENTER_ENTRY | DEVICE_SELECTOR_ENTRY | ACCOUNT_CACHE_ENTRY | AUDIT_CACHE_ENTRY

record 'a xSL_InternalServerBase =
  ServerType :: eServerType
  ServerId :: u64
  ServerAddress :: 'a

text \<open>
  The members the manager has three times. \<open>buffer\<close> counts the vector's reallocations and
  \<open>capacity\<close> is the size of its buffer: together they tell which pointers into the vector are
  still valid.
\<close>

record 'a registry =
  ListVersion :: u32
  ListDirty :: bool
  ListVersionTimestampMS :: u64
  InfoList :: "'a xSL_InternalServerBase list"
  VersionedInfoList :: "'a xSL_InternalServerBase list"
  buffer :: nat
  capacity :: nat

definition UPGRADE_VERSION_TIMEOUT_MS :: u64 where "UPGRADE_VERSION_TIMEOUT_MS = 1 * 60000"

datatype server_ptr = Ptr (ptr_list: eServerType) (ptr_buffer: nat) (ptr_index: nat)

abbreviation sid_of :: "'a xSL_InternalServerBase \<Rightarrow> u64" where
  "sid_of \<equiv> xSL_InternalServerBase.ServerId"

definition registry_init :: "u64 \<Rightarrow> 'a registry" where
  "registry_init now = \<lparr>ListVersion = 0, ListDirty = False, ListVersionTimestampMS = now,
     InfoList = [], VersionedInfoList = [], buffer = 0, capacity = 0\<rparr>"

text \<open>\<open>grow\<close> is the library's choice of the next capacity when \<^verbatim>\<open>emplace\<close> finds the buffer full.\<close>

definition AddServerInfo ::
    "(nat \<Rightarrow> nat) \<Rightarrow> eServerType \<Rightarrow> u64 \<Rightarrow> u64 \<Rightarrow> 'a \<Rightarrow> 'a registry \<Rightarrow> server_ptr option \<times> 'a registry" where
  "AddServerInfo grow type now sid addr r =
     (let L = InfoList r in
      if length L \<ge> unat MAX_AUTH_CACHE_SERVER_COUNT then (None, r)
      else let It = lower_bound sid_of L sid;
               Found = It \<noteq> length L \<and> sid_of (L ! It) = sid in
        if Found then (None, r)
        else let full = length L = capacity r;
                 b = (if full then Suc (buffer r) else buffer r) in
          (Some (Ptr type b It),
           r\<lparr>InfoList := take It L @
                \<lparr>ServerType = type, ServerId = sid, ServerAddress = addr\<rparr> # drop It L,
             ListVersionTimestampMS := now, ListDirty := True,
             buffer := b, capacity := (if full then grow (capacity r) else capacity r)\<rparr>))"

definition RemoveServerInfo :: "u64 \<Rightarrow> 'a registry \<Rightarrow> 'a registry" where
  "RemoveServerInfo sid r =
     (let L = InfoList r; It = lower_bound sid_of L sid in
      if It = length L then r
      else if sid_of (L ! It) \<noteq> sid then r
      else r\<lparr>InfoList := take It L @ drop (Suc It) L\<rparr>)"

definition GetServerInfo :: "u64 \<Rightarrow> 'a registry \<Rightarrow> 'a xSL_InternalServerBase option" where
  "GetServerInfo sid r =
     (let L = InfoList r; It = lower_bound sid_of L sid in
      if It = length L then None
      else if sid_of (L ! It) \<noteq> sid then None
      else Some (L ! It))"

definition tick_registry :: "u64 \<Rightarrow> 'a registry \<Rightarrow> 'a registry" where
  "tick_registry NowMS r =
     (if ListDirty r \<and> NowMS - ListVersionTimestampMS r > UPGRADE_VERSION_TIMEOUT_MS then
        r\<lparr>ListVersion := (let v = ListVersion r + 1 in if v = 0 then v + 1 else v),
          VersionedInfoList := InfoList r,
          ListVersionTimestampMS := NowMS,
          ListDirty := False\<rparr>
      else r)"

text \<open>Reading through a pointer: undefined (\<open>None\<close>) after a reallocation or behind the end.\<close>

definition deref :: "'a registry \<Rightarrow> server_ptr \<Rightarrow> 'a xSL_InternalServerBase option" where
  "deref r p = (if ptr_buffer p = buffer r \<and> ptr_index p < length (InfoList r)
     then Some (InfoList r ! ptr_index p) else None)"

text \<open>
  The registry as a map from ids to servers, and its invariant: sorted, without duplicates, of
  one type, within the bound, and with a version of 0 only before the first publication.
\<close>

definition reg_map :: "'a registry \<Rightarrow> u64 \<Rightarrow> 'a xSL_InternalServerBase option" where
  "reg_map r = map_of (map (\<lambda>I. (sid_of I, I)) (InfoList r))"

definition reg_inv :: "eServerType \<Rightarrow> 'a registry \<Rightarrow> bool" where
  "reg_inv type r \<longleftrightarrow>
     sorted_by sid_of (InfoList r) \<and> sorted_by sid_of (VersionedInfoList r) \<and>
     length (InfoList r) \<le> 125 \<and> length (VersionedInfoList r) \<le> 125 \<and>
     (\<forall>I \<in> set (InfoList r) \<union> set (VersionedInfoList r). ServerType I = type) \<and>
     (ListVersion r = 0 \<longrightarrow> VersionedInfoList r = [])"

lemma reg_map_iff:
  assumes "sorted_by sid_of (InfoList r)"
  shows "reg_map r i = Some I \<longleftrightarrow> I \<in> set (InfoList r) \<and> sid_of I = i"
proof -
  have "map fst (map (\<lambda>I. (sid_of I, I)) (InfoList r)) = map sid_of (InfoList r)" by simp
  then have "distinct (map fst (map (\<lambda>I. (sid_of I, I)) (InfoList r)))"
    using sorted_by_distinct [OF assms] by metis
  then show ?thesis unfolding reg_map_def by (simp only: map_of_eq_Some_iff) auto
qed

lemma max_count [simp]: "unat MAX_AUTH_CACHE_SERVER_COUNT = 125"
  by (simp add: MAX_AUTH_CACHE_SERVER_COUNT_def)

lemma not_found_at_end:
  "sorted_by key xs \<Longrightarrow> \<not> found_at key xs v \<longleftrightarrow>
     lower_bound key xs v = length xs \<or> key (xs ! lower_bound key xs v) \<noteq> v"
  using lower_bound_spec(1) [of key xs v] by (auto simp: found_at_def)

text \<open>What the three operations do to the map.\<close>

lemma AddServerInfo_spec:
  assumes inv: "reg_inv type r"
  shows "reg_inv type (snd (AddServerInfo grow type now sid addr r)) \<and>
    (if length (InfoList r) < 125 \<and> reg_map r sid = None then
       fst (AddServerInfo grow type now sid addr r) \<noteq> None \<and>
       deref (snd (AddServerInfo grow type now sid addr r))
         (the (fst (AddServerInfo grow type now sid addr r))) =
           Some \<lparr>ServerType = type, ServerId = sid, ServerAddress = addr\<rparr> \<and>
       reg_map (snd (AddServerInfo grow type now sid addr r)) =
         (reg_map r)(sid \<mapsto> \<lparr>ServerType = type, ServerId = sid, ServerAddress = addr\<rparr>) \<and>
       ListDirty (snd (AddServerInfo grow type now sid addr r))
     else AddServerInfo grow type now sid addr r = (None, r))"
proof -
  let ?L = "InfoList r" and ?b = "lower_bound sid_of (InfoList r) sid"
  let ?I = "\<lparr>ServerType = type, ServerId = sid, ServerAddress = addr\<rparr>"
  have s: "sorted_by sid_of ?L" using inv by (simp add: reg_inv_def)
  have free: "reg_map r sid = None \<longleftrightarrow> \<not> found_at sid_of ?L sid"
    unfolding found_at_iff [OF s] using reg_map_iff [OF s, of sid] by (metis option.exhaust option.distinct(1))
  show ?thesis
  proof (cases "length ?L < 125 \<and> reg_map r sid = None")
    case False
    then have "AddServerInfo grow type now sid addr r = (None, r)"
      using free not_found_at_end [OF s, of sid] by (auto simp: AddServerInfo_def Let_def)
    with False inv show ?thesis by auto
  next
    case True
    then have nf: "\<not> found_at sid_of ?L sid" using free by simp
    define M where "M = take ?b ?L @ ?I # drop ?b ?L"
    have M: "sorted_by sid_of M" using sorted_insert_at [OF s, of ?I] nf by (simp add: M_def)
    have "set ?L = set (take ?b ?L) \<union> set (drop ?b ?L)" by (metis append_take_drop_id set_append)
    then have set: "set M = insert ?I (set ?L)" "length M = Suc (length ?L)" "M ! ?b = ?I" "?b < length M"
      using lower_bound_spec(1) [OF s, of sid] by (auto simp: M_def nth_append)
    obtain p t where add: "AddServerInfo grow type now sid addr r = (Some p, t)" "InfoList t = M"
      "VersionedInfoList t = VersionedInfoList r" "ListVersion t = ListVersion r" "ListDirty t"
      "ptr_buffer p = buffer t" "ptr_index p = ?b"
      using True nf not_found_at_end [OF s, of sid] by (simp add: AddServerInfo_def Let_def M_def)
    have t: "reg_inv type t" using inv M set True add by (auto simp: reg_inv_def)
    have "reg_map t j = ((reg_map r)(sid \<mapsto> ?I)) j" for j
    proof (cases "j = sid")
      case True
      then show ?thesis using reg_map_iff [of t sid ?I] M set add(2) by simp
    next
      case False
      then have "reg_map t j = Some J \<longleftrightarrow> reg_map r j = Some J" for J
        using reg_map_iff [of t j J] reg_map_iff [OF s, of j J] M set add(2) by auto
      with False show ?thesis by (metis fun_upd_other option.exhaust)
    qed
    moreover have "deref t p = Some ?I"
      using add set by (simp add: deref_def)
    ultimately show ?thesis using True add t by (auto simp: fun_eq_iff)
  qed
qed

lemma RemoveServerInfo_spec:
  assumes inv: "reg_inv type r"
  shows "reg_inv type (RemoveServerInfo sid r) \<and>
    reg_map (RemoveServerInfo sid r) = (reg_map r)(sid := None)"
proof -
  let ?L = "InfoList r"
  have s: "sorted_by sid_of ?L" using inv by (simp add: reg_inv_def)
  show ?thesis
  proof (cases "found_at sid_of ?L sid")
    case False
    then have "reg_map r sid = None"
      unfolding found_at_iff [OF s] using reg_map_iff [OF s, of sid] by (metis option.exhaust)
    moreover have "RemoveServerInfo sid r = r"
      using False not_found_at_end [OF s, of sid] by (auto simp: RemoveServerInfo_def Let_def)
    ultimately show ?thesis using inv by (auto simp: fun_eq_iff)
  next
    case True
    define M where "M = take (lower_bound sid_of ?L sid) ?L @ drop (Suc (lower_bound sid_of ?L sid)) ?L"
    have t: "RemoveServerInfo sid r = r\<lparr>InfoList := M\<rparr>"
      using True by (auto simp: RemoveServerInfo_def Let_def found_at_def M_def)
    note M = remove_at_set [OF s True, folded M_def]
    have "length M \<le> length ?L" by (simp add: M_def)
    then have i: "reg_inv type (RemoveServerInfo sid r)"
      using inv M by (auto simp: t reg_inv_def)
    have "reg_map (RemoveServerInfo sid r) j = Some J \<longleftrightarrow> ((reg_map r)(sid := None)) j = Some J" for j J
      using reg_map_iff [of "RemoveServerInfo sid r" j J] reg_map_iff [OF s, of j J] M t by auto
    with i show ?thesis by (metis ext option.exhaust)
  qed
qed

lemma GetServerInfo_map:
  assumes "reg_inv type r"
  shows "GetServerInfo sid r = reg_map r sid"
proof -
  have s: "sorted_by sid_of (InfoList r)" using assms by (simp add: reg_inv_def)
  show ?thesis
  proof (cases "found_at sid_of (InfoList r) sid")
    case True
    then have g: "GetServerInfo sid r = Some (InfoList r ! lower_bound sid_of (InfoList r) sid)"
      "InfoList r ! lower_bound sid_of (InfoList r) sid \<in> set (InfoList r)"
      "sid_of (InfoList r ! lower_bound sid_of (InfoList r) sid) = sid"
      by (auto simp: GetServerInfo_def found_at_def Let_def)
    then show ?thesis using reg_map_iff [OF s] by metis
  next
    case False
    then have "reg_map r sid = None"
      unfolding found_at_iff [OF s] using reg_map_iff [OF s, of sid] by (metis option.exhaust)
    then show ?thesis using False not_found_at_end [OF s, of sid]
      by (auto simp: GetServerInfo_def Let_def)
  qed
qed

lemma tick_registry_inv: "reg_inv type r \<Longrightarrow> reg_inv type (tick_registry now r)"
  by (auto simp: reg_inv_def tick_registry_def Let_def split: if_splits)

lemma registry_init_inv: "reg_inv type (registry_init now)"
  by (simp add: reg_inv_def registry_init_def)

subsection \<open>The manager\<close>

record 'a xSL_InternalServerListManager =
  sl_Ticker :: u64
  AuthCache :: "'a registry"
  AuditDevice :: "'a registry"
  AuditAccount :: "'a registry"

definition ServerListManager_Init :: "u64 \<Rightarrow> 'a xSL_InternalServerListManager" where
  "ServerListManager_Init now = \<lparr>sl_Ticker = now, AuthCache = registry_init now,
     AuditDevice = registry_init now, AuditAccount = registry_init now\<rparr>"

definition ServerListManager_OnTick ::
    "u64 \<Rightarrow> 'a xSL_InternalServerListManager \<Rightarrow> 'a xSL_InternalServerListManager" where
  "ServerListManager_OnTick NowMS s = s\<lparr>sl_Ticker := NowMS,
     AuthCache := tick_registry NowMS (AuthCache s),
     AuditDevice := tick_registry NowMS (AuditDevice s),
     AuditAccount := tick_registry NowMS (AuditAccount s)\<rparr>"

definition AddAuthCacheServerInfo ::
    "(nat \<Rightarrow> nat) \<Rightarrow> u64 \<Rightarrow> 'a \<Rightarrow> 'a xSL_InternalServerListManager \<Rightarrow>
     server_ptr option \<times> 'a xSL_InternalServerListManager" where
  "AddAuthCacheServerInfo grow sid addr s =
     (let (p, r) = AddServerInfo grow AUTH_CACHE (sl_Ticker s) sid addr (AuthCache s) in
      (p, s\<lparr>AuthCache := r\<rparr>))"

definition RemoveAuthCacheServerInfo ::
    "u64 \<Rightarrow> 'a xSL_InternalServerListManager \<Rightarrow> 'a xSL_InternalServerListManager" where
  "RemoveAuthCacheServerInfo sid s = s\<lparr>AuthCache := RemoveServerInfo sid (AuthCache s)\<rparr>"

definition GetAuthCacheServerInfo ::
    "u64 \<Rightarrow> 'a xSL_InternalServerListManager \<Rightarrow> 'a xSL_InternalServerBase option" where
  "GetAuthCacheServerInfo sid s = GetServerInfo sid (AuthCache s)"

definition AddAuditDeviceServerInfo ::
    "(nat \<Rightarrow> nat) \<Rightarrow> u64 \<Rightarrow> 'a \<Rightarrow> 'a xSL_InternalServerListManager \<Rightarrow>
     server_ptr option \<times> 'a xSL_InternalServerListManager" where
  "AddAuditDeviceServerInfo grow sid addr s =
     (let (p, r) = AddServerInfo grow AUDIT_DEVICE_CACHE (sl_Ticker s) sid addr (AuditDevice s) in
      (p, s\<lparr>AuditDevice := r\<rparr>))"

definition RemoveAuditDeviceServerInfo ::
    "u64 \<Rightarrow> 'a xSL_InternalServerListManager \<Rightarrow> 'a xSL_InternalServerListManager" where
  "RemoveAuditDeviceServerInfo sid s = s\<lparr>AuditDevice := RemoveServerInfo sid (AuditDevice s)\<rparr>"

definition GetAuditDeviceServerInfo ::
    "u64 \<Rightarrow> 'a xSL_InternalServerListManager \<Rightarrow> 'a xSL_InternalServerBase option" where
  "GetAuditDeviceServerInfo sid s = GetServerInfo sid (AuditDevice s)"

definition AddAuditAccountServerInfo ::
    "(nat \<Rightarrow> nat) \<Rightarrow> u64 \<Rightarrow> 'a \<Rightarrow> 'a xSL_InternalServerListManager \<Rightarrow>
     server_ptr option \<times> 'a xSL_InternalServerListManager" where
  "AddAuditAccountServerInfo grow sid addr s =
     (let (p, r) = AddServerInfo grow AUDIT_ACCOUNT_CACHE (sl_Ticker s) sid addr (AuditAccount s) in
      (p, s\<lparr>AuditAccount := r\<rparr>))"

definition RemoveAuditAccountServerInfo ::
    "u64 \<Rightarrow> 'a xSL_InternalServerListManager \<Rightarrow> 'a xSL_InternalServerListManager" where
  "RemoveAuditAccountServerInfo sid s = s\<lparr>AuditAccount := RemoveServerInfo sid (AuditAccount s)\<rparr>"

definition GetAuditAccountServerInfo ::
    "u64 \<Rightarrow> 'a xSL_InternalServerListManager \<Rightarrow> 'a xSL_InternalServerBase option" where
  "GetAuditAccountServerInfo sid s = GetServerInfo sid (AuditAccount s)"

definition manager_inv :: "'a xSL_InternalServerListManager \<Rightarrow> bool" where
  "manager_inv s \<longleftrightarrow> reg_inv AUTH_CACHE (AuthCache s) \<and>
     reg_inv AUDIT_DEVICE_CACHE (AuditDevice s) \<and> reg_inv AUDIT_ACCOUNT_CACHE (AuditAccount s)"

lemma ServerListManager_Init_inv: "manager_inv (ServerListManager_Init now)"
  by (simp add: manager_inv_def ServerListManager_Init_def registry_init_inv)

lemma ServerListManager_OnTick_inv: "manager_inv s \<Longrightarrow> manager_inv (ServerListManager_OnTick now s)"
  by (simp add: manager_inv_def ServerListManager_OnTick_def tick_registry_inv)

text \<open>
  The contract the three registries share, over the state \<open>'s\<close> that holds them: \<open>entries\<close> is the
  map from ids to servers.
\<close>

locale server_registry =
  fixes type :: eServerType
    and add :: "u64 \<Rightarrow> 'a \<Rightarrow> 's \<Rightarrow> server_ptr option \<times> 's"
    and remove :: "u64 \<Rightarrow> 's \<Rightarrow> 's"
    and get :: "u64 \<Rightarrow> 's \<Rightarrow> 'a xSL_InternalServerBase option"
    and entries :: "'s \<Rightarrow> u64 \<Rightarrow> 'a xSL_InternalServerBase option"
    and inv :: "'s \<Rightarrow> bool"
  assumes add_inv: "inv s \<Longrightarrow> add sid a s = (p, t) \<Longrightarrow> inv t"
    and add_some: "inv s \<Longrightarrow> add sid a s = (Some q, t) \<Longrightarrow> entries s sid = None \<and>
      entries t = (entries s)(sid \<mapsto> \<lparr>ServerType = type, ServerId = sid, ServerAddress = a\<rparr>)"
    and add_none: "inv s \<Longrightarrow> add sid a s = (None, t) \<Longrightarrow> t = s"
    and add_full: "inv s \<Longrightarrow> entries s sid \<noteq> None \<Longrightarrow> add sid a s = (None, s)"
    and remove_inv: "inv s \<Longrightarrow> inv (remove sid s)"
    and remove_entries: "inv s \<Longrightarrow> entries (remove sid s) = (entries s)(sid := None)"
    and get_entries: "inv s \<Longrightarrow> get sid s = entries s sid"
begin

lemma get_after_add:
  "inv s \<Longrightarrow> add sid a s = (Some q, t) \<Longrightarrow>
   get sid t = Some \<lparr>ServerType = type, ServerId = sid, ServerAddress = a\<rparr> \<and>
   (\<forall>j. j \<noteq> sid \<longrightarrow> get j t = get j s)"
  using add_inv add_some get_entries by fastforce

lemma add_twice: "inv s \<Longrightarrow> add sid a s = (Some q, t) \<Longrightarrow> add sid b t = (None, t)"
  using add_inv add_some add_full by (metis fun_upd_same option.distinct(1))

lemma get_after_remove:
  "inv s \<Longrightarrow> get sid (remove sid s) = None \<and> (\<forall>j. j \<noteq> sid \<longrightarrow> get j (remove sid s) = get j s)"
  using remove_inv remove_entries get_entries by simp

lemma remove_undoes_add:
  "inv s \<Longrightarrow> add sid a s = (Some q, t) \<Longrightarrow> get j (remove sid t) = get j s"
  using add_inv add_some remove_inv remove_entries get_entries by (simp add: fun_upd_idem)

end

interpretation auth: server_registry AUTH_CACHE "AddAuthCacheServerInfo grow" RemoveAuthCacheServerInfo
  GetAuthCacheServerInfo "\<lambda>s. reg_map (AuthCache s)" manager_inv for grow
proof unfold_locales
  fix s :: "'a xSL_InternalServerListManager" and t sid a p q
  assume inv: "manager_inv s"
  then have r: "reg_inv AUTH_CACHE (AuthCache s)" by (simp add: manager_inv_def)
  note A = AddServerInfo_spec [OF r, of grow "sl_Ticker s" sid a]
  note R = RemoveServerInfo_spec [OF r, of sid]
  show "AddAuthCacheServerInfo grow sid a s = (p, t) \<Longrightarrow> manager_inv t"
    using A inv by (auto simp: AddAuthCacheServerInfo_def manager_inv_def split: prod.splits)
  show "AddAuthCacheServerInfo grow sid a s = (Some q, t) \<Longrightarrow> reg_map (AuthCache s) sid = None \<and>
      reg_map (AuthCache t) =
        (reg_map (AuthCache s))(sid \<mapsto> \<lparr>ServerType = AUTH_CACHE, ServerId = sid, ServerAddress = a\<rparr>)"
    using A by (auto simp: AddAuthCacheServerInfo_def split: prod.splits if_splits)
  show "AddAuthCacheServerInfo grow sid a s = (None, t) \<Longrightarrow> t = s"
    using A by (auto simp: AddAuthCacheServerInfo_def split: prod.splits if_splits)
  show "reg_map (AuthCache s) sid \<noteq> None \<Longrightarrow> AddAuthCacheServerInfo grow sid a s = (None, s)"
    using A by (auto simp: AddAuthCacheServerInfo_def)
  show "manager_inv (RemoveAuthCacheServerInfo sid s)"
    using R inv by (simp add: RemoveAuthCacheServerInfo_def manager_inv_def)
  show "reg_map (AuthCache (RemoveAuthCacheServerInfo sid s)) = (reg_map (AuthCache s))(sid := None)"
    using R by (simp add: RemoveAuthCacheServerInfo_def)
  show "GetAuthCacheServerInfo sid s = reg_map (AuthCache s) sid"
    using GetServerInfo_map [OF r] by (simp add: GetAuthCacheServerInfo_def)
qed

interpretation adev: server_registry AUDIT_DEVICE_CACHE "AddAuditDeviceServerInfo grow" RemoveAuditDeviceServerInfo
  GetAuditDeviceServerInfo "\<lambda>s. reg_map (AuditDevice s)" manager_inv for grow
proof unfold_locales
  fix s :: "'a xSL_InternalServerListManager" and t sid a p q
  assume inv: "manager_inv s"
  then have r: "reg_inv AUDIT_DEVICE_CACHE (AuditDevice s)" by (simp add: manager_inv_def)
  note A = AddServerInfo_spec [OF r, of grow "sl_Ticker s" sid a]
  note R = RemoveServerInfo_spec [OF r, of sid]
  show "AddAuditDeviceServerInfo grow sid a s = (p, t) \<Longrightarrow> manager_inv t"
    using A inv by (auto simp: AddAuditDeviceServerInfo_def manager_inv_def split: prod.splits)
  show "AddAuditDeviceServerInfo grow sid a s = (Some q, t) \<Longrightarrow> reg_map (AuditDevice s) sid = None \<and>
      reg_map (AuditDevice t) =
        (reg_map (AuditDevice s))(sid \<mapsto> \<lparr>ServerType = AUDIT_DEVICE_CACHE, ServerId = sid, ServerAddress = a\<rparr>)"
    using A by (auto simp: AddAuditDeviceServerInfo_def split: prod.splits if_splits)
  show "AddAuditDeviceServerInfo grow sid a s = (None, t) \<Longrightarrow> t = s"
    using A by (auto simp: AddAuditDeviceServerInfo_def split: prod.splits if_splits)
  show "reg_map (AuditDevice s) sid \<noteq> None \<Longrightarrow> AddAuditDeviceServerInfo grow sid a s = (None, s)"
    using A by (auto simp: AddAuditDeviceServerInfo_def)
  show "manager_inv (RemoveAuditDeviceServerInfo sid s)"
    using R inv by (simp add: RemoveAuditDeviceServerInfo_def manager_inv_def)
  show "reg_map (AuditDevice (RemoveAuditDeviceServerInfo sid s)) = (reg_map (AuditDevice s))(sid := None)"
    using R by (simp add: RemoveAuditDeviceServerInfo_def)
  show "GetAuditDeviceServerInfo sid s = reg_map (AuditDevice s) sid"
    using GetServerInfo_map [OF r] by (simp add: GetAuditDeviceServerInfo_def)
qed

interpretation aacc: server_registry AUDIT_ACCOUNT_CACHE "AddAuditAccountServerInfo grow" RemoveAuditAccountServerInfo
  GetAuditAccountServerInfo "\<lambda>s. reg_map (AuditAccount s)" manager_inv for grow
proof unfold_locales
  fix s :: "'a xSL_InternalServerListManager" and t sid a p q
  assume inv: "manager_inv s"
  then have r: "reg_inv AUDIT_ACCOUNT_CACHE (AuditAccount s)" by (simp add: manager_inv_def)
  note A = AddServerInfo_spec [OF r, of grow "sl_Ticker s" sid a]
  note R = RemoveServerInfo_spec [OF r, of sid]
  show "AddAuditAccountServerInfo grow sid a s = (p, t) \<Longrightarrow> manager_inv t"
    using A inv by (auto simp: AddAuditAccountServerInfo_def manager_inv_def split: prod.splits)
  show "AddAuditAccountServerInfo grow sid a s = (Some q, t) \<Longrightarrow> reg_map (AuditAccount s) sid = None \<and>
      reg_map (AuditAccount t) =
        (reg_map (AuditAccount s))(sid \<mapsto> \<lparr>ServerType = AUDIT_ACCOUNT_CACHE, ServerId = sid, ServerAddress = a\<rparr>)"
    using A by (auto simp: AddAuditAccountServerInfo_def split: prod.splits if_splits)
  show "AddAuditAccountServerInfo grow sid a s = (None, t) \<Longrightarrow> t = s"
    using A by (auto simp: AddAuditAccountServerInfo_def split: prod.splits if_splits)
  show "reg_map (AuditAccount s) sid \<noteq> None \<Longrightarrow> AddAuditAccountServerInfo grow sid a s = (None, s)"
    using A by (auto simp: AddAuditAccountServerInfo_def)
  show "manager_inv (RemoveAuditAccountServerInfo sid s)"
    using R inv by (simp add: RemoveAuditAccountServerInfo_def manager_inv_def)
  show "reg_map (AuditAccount (RemoveAuditAccountServerInfo sid s)) = (reg_map (AuditAccount s))(sid := None)"
    using R by (simp add: RemoveAuditAccountServerInfo_def)
  show "GetAuditAccountServerInfo sid s = reg_map (AuditAccount s) sid"
    using GetServerInfo_map [OF r] by (simp add: GetAuditAccountServerInfo_def)
qed

end
