(* ===== verification/ServerListService.thy ===== *)
theory ServerListService
  imports ServerList
begin

text \<open>
  The two services of \<^verbatim>\<open>server_server_list/_main.cpp\<close> over the manager of ServerList:
  \<^verbatim>\<open>xRegisterServerService\<close>, whose connections register a server and unregister it when they
  close, and \<^verbatim>\<open>xDownloadServerService\<close>, which answers with the published list; and the backend
  address list of \<^verbatim>\<open>backend_server_manager.cpp\<close>. A connection's user context is a pointer into
  one of the registries' vectors; \<open>None\<close> as a result is a read through an invalid pointer.
\<close>

subsection \<open>Registration\<close>

definition read_ptr ::
    "'a xSL_InternalServerListManager \<Rightarrow> server_ptr \<Rightarrow> 'a xSL_InternalServerBase option" where
  "read_ptr s p =
     (case ptr_list p of
        AUTH_CACHE \<Rightarrow> deref (AuthCache s) p
      | AUDIT_DEVICE_CACHE \<Rightarrow> deref (AuditDevice s) p
      | AUDIT_ACCOUNT_CACHE \<Rightarrow> deref (AuditAccount s) p
      | _ \<Rightarrow> None)"

definition Register_OnClientClose ::
    "server_ptr option \<Rightarrow> 'a xSL_InternalServerListManager \<Rightarrow> 'a xSL_InternalServerListManager option" where
  "Register_OnClientClose P s =
     (case P of None \<Rightarrow> Some s
      | Some p \<Rightarrow>
          (case read_ptr s p of None \<Rightarrow> None
           | Some I \<Rightarrow>
               Some (case ServerType I of
                  AUTH_CACHE \<Rightarrow> RemoveAuthCacheServerInfo (sid_of I) s
                | AUDIT_DEVICE_CACHE \<Rightarrow> RemoveAuditDeviceServerInfo (sid_of I) s
                | AUDIT_ACCOUNT_CACHE \<Rightarrow> RemoveAuditAccountServerInfo (sid_of I) s
                | _ \<Rightarrow> s)))"

definition OnRegisterAuthCacheServer ::
    "(nat \<Rightarrow> nat) \<Rightarrow> 'a wire \<Rightarrow> server_ptr option \<Rightarrow> bytes \<Rightarrow> 'a xSL_InternalServerListManager \<Rightarrow>
     bool \<times> server_ptr option \<times> 'a xSL_InternalServerListManager" where
  "OnRegisterAuthCacheServer grow wc P Payload s =
     (if P \<noteq> None then (False, P, s)
      else case des_xPP_RegisterAuthCacheServer wc Payload of
        None \<Rightarrow> (False, P, s)
      | Some (R, _) \<Rightarrow>
          (case AddAuthCacheServerInfo grow (xPP_RegisterAuthCacheServer.ServerId R)
              (xPP_RegisterAuthCacheServer.ExportServerAddress R) s of
             (None, t) \<Rightarrow> (False, P, t)
           | (Some NP, t) \<Rightarrow> (True, Some NP, t)))"

definition OnRegisterAuditDeviceServer ::
    "(nat \<Rightarrow> nat) \<Rightarrow> 'a wire \<Rightarrow> server_ptr option \<Rightarrow> bytes \<Rightarrow> 'a xSL_InternalServerListManager \<Rightarrow>
     bool \<times> server_ptr option \<times> 'a xSL_InternalServerListManager" where
  "OnRegisterAuditDeviceServer grow wc P Payload s =
     (if P \<noteq> None then (False, P, s)
      else case des_xPP_RegisterAuditDeviceServer wc Payload of
        None \<Rightarrow> (False, P, s)
      | Some (R, _) \<Rightarrow>
          (case AddAuditDeviceServerInfo grow (xPP_RegisterAuditDeviceServer.ServerId R)
              (xPP_RegisterAuditDeviceServer.ExportServerAddress R) s of
             (None, t) \<Rightarrow> (False, P, t)
           | (Some NP, t) \<Rightarrow> (True, Some NP, t)))"

definition OnRegisterAuditAccountServer ::
    "(nat \<Rightarrow> nat) \<Rightarrow> 'a wire \<Rightarrow> server_ptr option \<Rightarrow> bytes \<Rightarrow> 'a xSL_InternalServerListManager \<Rightarrow>
     bool \<times> server_ptr option \<times> 'a xSL_InternalServerListManager" where
  "OnRegisterAuditAccountServer grow wc P Payload s =
     (if P \<noteq> None then (False, P, s)
      else case des_xPP_RegisterAuditAccountServer wc Payload of
        None \<Rightarrow> (False, P, s)
      | Some (R, _) \<Rightarrow>
          (case AddAuditAccountServerInfo grow (xPP_RegisterAuditAccountServer.ServerId R)
              (xPP_RegisterAuditAccountServer.ExportServerAddress R) s of
             (None, t) \<Rightarrow> (False, P, t)
           | (Some NP, t) \<Rightarrow> (True, Some NP, t)))"

definition Register_OnClientPacket ::
    "(nat \<Rightarrow> nat) \<Rightarrow> 'a wire \<Rightarrow> server_ptr option \<Rightarrow> u32 \<Rightarrow> bytes \<Rightarrow> 'a xSL_InternalServerListManager \<Rightarrow>
     bool \<times> server_ptr option \<times> 'a xSL_InternalServerListManager" where
  "Register_OnClientPacket grow wc P CommandId Payload s =
     (if CommandId = Cmd_RegisterAuthCacheServer then OnRegisterAuthCacheServer grow wc P Payload s
      else if CommandId = Cmd_RegisterAuditDeviceServer then OnRegisterAuditDeviceServer grow wc P Payload s
      else if CommandId = Cmd_RegisterAuditAccountServer then OnRegisterAuditAccountServer grow wc P Payload s
      else (True, P, s))"

text \<open>
  The service over its connections. A packet that the handler refuses leaves the connection to
  be closed by the library, which calls the close handler.
\<close>

record 'a register_service =
  reg_manager :: "'a xSL_InternalServerListManager"
  reg_context :: "u64 \<Rightarrow> server_ptr option option"

datatype register_event = Connected u64 | Packet u64 u32 bytes | Closed u64 | Ticked u64

definition close_connection :: "u64 \<Rightarrow> 'a register_service \<Rightarrow> 'a register_service option" where
  "close_connection k c =
     (case reg_context c k of None \<Rightarrow> Some c
      | Some P \<Rightarrow>
          map_option (\<lambda>m. c\<lparr>reg_manager := m, reg_context := (reg_context c)(k := None)\<rparr>)
            (Register_OnClientClose P (reg_manager c)))"

fun register_step ::
    "(nat \<Rightarrow> nat) \<Rightarrow> 'a wire \<Rightarrow> register_event \<Rightarrow> 'a register_service \<Rightarrow> 'a register_service option" where
  "register_step grow wc (Connected k) c = Some (c\<lparr>reg_context := (reg_context c)(k \<mapsto> None)\<rparr>)"
| "register_step grow wc (Ticked now) c =
     Some (c\<lparr>reg_manager := ServerListManager_OnTick now (reg_manager c)\<rparr>)"
| "register_step grow wc (Closed k) c = close_connection k c"
| "register_step grow wc (Packet k cmd p) c =
     (case reg_context c k of None \<Rightarrow> Some c
      | Some P \<Rightarrow>
          (let (ok, P', m) = Register_OnClientPacket grow wc P cmd p (reg_manager c);
               c1 = c\<lparr>reg_manager := m, reg_context := (reg_context c)(k \<mapsto> P')\<rparr> in
           if ok then Some c1 else close_connection k c1))"

fun register_run ::
    "(nat \<Rightarrow> nat) \<Rightarrow> 'a wire \<Rightarrow> register_event list \<Rightarrow> 'a register_service \<Rightarrow> 'a register_service option" where
  "register_run grow wc [] c = Some c"
| "register_run grow wc (e # es) c = Option.bind (register_step grow wc e c) (register_run grow wc es)"

lemma Register_OnClientClose_inv:
  assumes "manager_inv s" "Register_OnClientClose P s = Some t"
  shows "manager_inv t"
  using assms auth.remove_inv [of s] adev.remove_inv [of s] aacc.remove_inv [of s]
  by (auto simp: Register_OnClientClose_def split: option.splits eServerType.splits)

lemma OnRegister_inv:
  assumes "manager_inv s"
  shows "manager_inv (snd (snd (OnRegisterAuthCacheServer grow wc P p s)))"
    "manager_inv (snd (snd (OnRegisterAuditDeviceServer grow wc P p s)))"
    "manager_inv (snd (snd (OnRegisterAuditAccountServer grow wc P p s)))"
  using assms auth.add_inv [OF assms] adev.add_inv [OF assms] aacc.add_inv [OF assms]
  by (simp_all add: OnRegisterAuthCacheServer_def OnRegisterAuditDeviceServer_def
      OnRegisterAuditAccountServer_def split: option.split prod.split)

lemma Register_OnClientPacket_inv:
  "manager_inv s \<Longrightarrow> manager_inv (snd (snd (Register_OnClientPacket grow wc P cmd p s)))"
  by (simp add: Register_OnClientPacket_def OnRegister_inv)

lemma close_connection_inv:
  "manager_inv (reg_manager c) \<Longrightarrow> close_connection k c = Some d \<Longrightarrow> manager_inv (reg_manager d)"
  by (auto simp: close_connection_def split: option.splits intro: Register_OnClientClose_inv)

lemma register_step_inv:
  assumes "manager_inv (reg_manager c)" "register_step grow wc e c = Some d"
  shows "manager_inv (reg_manager d)"
proof (cases e)
  case (Packet k cmd p)
  show ?thesis
  proof (cases "reg_context c k")
    case None
    then show ?thesis using assms Packet by simp
  next
    case (Some P)
    obtain ok P' m where m: "Register_OnClientPacket grow wc P cmd p (reg_manager c) = (ok, P', m)"
      by (cases "Register_OnClientPacket grow wc P cmd p (reg_manager c)") auto
    then have "manager_inv m"
      using Register_OnClientPacket_inv [OF assms(1), of grow wc P cmd p] by simp
    then show ?thesis using assms(2) Packet Some m
        close_connection_inv [of "c\<lparr>reg_manager := m, reg_context := (reg_context c)(k \<mapsto> P')\<rparr>" k d]
      by (auto simp: Let_def split: if_splits)
  qed
qed (use assms ServerListManager_OnTick_inv close_connection_inv in auto)

lemma register_run_inv:
  "manager_inv (reg_manager c) \<Longrightarrow> register_run grow wc es c = Some d \<Longrightarrow> manager_inv (reg_manager d)"
proof (induction es arbitrary: c)
  case (Cons e es)
  then obtain c' where "register_step grow wc e c = Some c'" "register_run grow wc es c' = Some d"
    by (auto simp: bind_eq_Some_conv)
  then show ?case using Cons.IH register_step_inv [OF Cons.prems(1)] by blast
qed simp

text \<open>A step fails only when it closes a connection whose context is no longer valid.\<close>

fun closes :: "u64 \<Rightarrow> register_event \<Rightarrow> bool" where
  "closes k (Closed j) \<longleftrightarrow> j = k"
| "closes k (Packet j cmd p) \<longleftrightarrow> j = k"
| "closes k e \<longleftrightarrow> False"

lemma close_connection_fails:
  "close_connection k c = None \<Longrightarrow> \<exists>p. reg_context c k = Some (Some p) \<and> read_ptr (reg_manager c) p = None"
  by (auto simp: close_connection_def Register_OnClientClose_def split: option.splits)

lemma refused_unchanged:
  assumes "manager_inv s" "Register_OnClientPacket grow wc P cmd d s = (False, P', t)"
  shows "P' = P \<and> t = s"
  using assms(2) auth.add_none [OF assms(1), of grow] adev.add_none [OF assms(1), of grow] aacc.add_none [OF assms(1), of grow]
  by (auto simp: Register_OnClientPacket_def OnRegisterAuthCacheServer_def OnRegisterAuditDeviceServer_def
      OnRegisterAuditAccountServer_def split: if_splits option.splits prod.splits)

lemma register_step_fails:
  assumes "manager_inv (reg_manager c)" "register_step grow wc e c = None"
  shows "\<exists>k p. closes k e \<and> reg_context c k = Some (Some p) \<and> read_ptr (reg_manager c) p = None"
proof (cases e)
  case (Closed k)
  then show ?thesis using assms(2) close_connection_fails [of k c] by auto
next
  case (Packet k cmd d)
  then obtain P where P: "reg_context c k = Some P" using assms(2) by (cases "reg_context c k") simp_all
  obtain ok P' m where r: "Register_OnClientPacket grow wc P cmd d (reg_manager c) = (ok, P', m)"
    by (cases "Register_OnClientPacket grow wc P cmd d (reg_manager c)") auto
  let ?c = "c\<lparr>reg_manager := m, reg_context := (reg_context c)(k \<mapsto> P')\<rparr>"
  have refused: "\<not> ok" "close_connection k ?c = None" using assms(2) Packet P r by (auto simp: Let_def split: if_splits)
  then have "P' = P \<and> m = reg_manager c" using refused_unchanged [OF assms(1), of grow wc P cmd d P' m] r by simp
  moreover from close_connection_fails [OF refused(2)] obtain p where "P' = Some p" "read_ptr m p = None" by auto
  ultimately show ?thesis using Packet P by (intro exI [of _ k] exI [of _ p]) simp
qed (use assms in auto)

lemma register_run_fails:
  assumes "manager_inv (reg_manager c)" "register_run grow wc es c = None"
  shows "\<exists>before e rest d k p. es = before @ e # rest \<and> register_run grow wc before c = Some d \<and> manager_inv (reg_manager d) \<and>
    closes k e \<and> reg_context d k = Some (Some p) \<and> read_ptr (reg_manager d) p = None"
  using assms
proof (induction es arbitrary: c)
  case (Cons e es)
  show ?case
  proof (cases "register_step grow wc e c")
    case None
    from register_step_fails [OF Cons.prems(1) None] obtain k p where
      "closes k e" "reg_context c k = Some (Some p)" "read_ptr (reg_manager c) p = None" by blast
    then show ?thesis using Cons.prems(1)
      by (intro exI [of _ "[]"] exI [of _ e] exI [of _ es] exI [of _ c] exI [of _ k] exI [of _ p]) simp
  next
    case (Some c')
    from Cons.IH [OF register_step_inv [OF Cons.prems(1) Some]] Cons.prems(2) Some
    obtain before a rest d k p where "es = before @ a # rest" "register_run grow wc before c' = Some d" "manager_inv (reg_manager d)"
      "closes k a" "reg_context d k = Some (Some p)" "read_ptr (reg_manager d) p = None" by auto
    then show ?thesis using Some
      by (intro exI [of _ "e # before"] exI [of _ a] exI [of _ rest] exI [of _ d] exI [of _ k] exI [of _ p]) simp
  qed
qed simp

subsection \<open>Download\<close>

text \<open>
  \<open>write\<close> is \<^verbatim>\<open>WriteMessage\<close>: the bytes of a packet, empty when it does not fit. Each list has a
  cached response and the version it is kept for.
\<close>

record cached_response =
  cr_Version :: u32
  cr_Response :: bytes

type_synonym packet_writer = "u32 \<Rightarrow> u64 \<Rightarrow> bytes \<Rightarrow> bytes"

definition export_info :: "'a xSL_InternalServerBase \<Rightarrow> 'a xServerInfo" where
  "export_info S = xServerInfo.make (sid_of S) (ServerAddress S)"

definition OnDownloadAuthCacheServerList ::
    "packet_writer \<Rightarrow> 'a wire \<Rightarrow> 'a xSL_InternalServerListManager \<Rightarrow> bytes \<Rightarrow> cached_response \<Rightarrow>
     bool \<times> bytes option \<times> cached_response" where
  "OnDownloadAuthCacheServerList write wc M Payload C =
     (case des_xPP_DownloadAuthCacheServerList wc Payload of
        None \<Rightarrow> (False, None, C)
      | Some (R, _) \<Rightarrow>
          (let ver = ListVersion (AuthCache M) in
           if xPP_DownloadAuthCacheServerList.Version R = ver then
             (True, Some (write Cmd_DownloadAuthCacheServerListResp 0
                (ser_xPP_DownloadAuthCacheServerListResp wc
                  (xPP_DownloadAuthCacheServerListResp.make ver []))), C)
           else
             let C1 = (if ver \<noteq> cr_Version C then
                 C\<lparr>cr_Response := write Cmd_DownloadAuthCacheServerListResp 0
                    (ser_xPP_DownloadAuthCacheServerListResp wc
                      (xPP_DownloadAuthCacheServerListResp.make ver
                        (map export_info (VersionedInfoList (AuthCache M)))))\<rparr>
               else C) in
             (True, Some (cr_Response C1), C1)))"

definition OnDownloadAuditDeviceServerList ::
    "packet_writer \<Rightarrow> 'a wire \<Rightarrow> 'a xSL_InternalServerListManager \<Rightarrow> bytes \<Rightarrow> cached_response \<Rightarrow>
     bool \<times> bytes option \<times> cached_response" where
  "OnDownloadAuditDeviceServerList write wc M Payload C =
     (case des_xPP_DownloadAuditDeviceServerList wc Payload of
        None \<Rightarrow> (False, None, C)
      | Some (R, _) \<Rightarrow>
          (let ver = ListVersion (AuditDevice M) in
           if xPP_DownloadAuditDeviceServerList.Version R = ver then
             (True, Some (write Cmd_DownloadAuditDeviceServerListResp 0
                (ser_xPP_DownloadAuditDeviceServerListResp wc
                  (xPP_DownloadAuditDeviceServerListResp.make ver []))), C)
           else
             let C1 = (if ver \<noteq> cr_Version C then
                 C\<lparr>cr_Response := write Cmd_DownloadAuditDeviceServerListResp 0
                    (ser_xPP_DownloadAuditDeviceServerListResp wc
                      (xPP_DownloadAuditDeviceServerListResp.make ver
                        (map export_info (VersionedInfoList (AuditDevice M)))))\<rparr>
               else C) in
             (True, Some (cr_Response C1), C1)))"

definition OnDownloadAuditAccountServerList ::
    "packet_writer \<Rightarrow> 'a wire \<Rightarrow> 'a xSL_InternalServerListManager \<Rightarrow> bytes \<Rightarrow> cached_response \<Rightarrow>
     bool \<times> bytes option \<times> cached_response" where
  "OnDownloadAuditAccountServerList write wc M Payload C =
     (case des_xPP_DownloadAuditAccountServerList wc Payload of
        None \<Rightarrow> (False, None, C)
      | Some (R, _) \<Rightarrow>
          (let ver = ListVersion (AuditAccount M) in
           if xPP_DownloadAuditAccountServerList.Version R = ver then
             (True, Some (write Cmd_DownloadAuditAccountServerListResp 0
                (ser_xPP_DownloadAuditAccountServerListResp wc
                  (xPP_DownloadAuditAccountServerListResp.make ver []))), C)
           else
             let C1 = (if ver \<noteq> cr_Version C then
                 C\<lparr>cr_Response := write Cmd_DownloadAuditAccountServerListResp 0
                    (ser_xPP_DownloadAuditAccountServerListResp wc
                      (xPP_DownloadAuditAccountServerListResp.make ver
                        (map export_info (VersionedInfoList (AuditAccount M)))))\<rparr>
               else C) in
             (True, Some (cr_Response C1), C1)))"

record download_service =
  dl_AuthCache :: cached_response
  dl_AuditDevice :: cached_response
  dl_AuditAccount :: cached_response

definition Download_OnClientPacket ::
    "packet_writer \<Rightarrow> 'a wire \<Rightarrow> 'a xSL_InternalServerListManager \<Rightarrow> u32 \<Rightarrow> bytes \<Rightarrow> download_service \<Rightarrow>
     bool \<times> bytes option \<times> download_service" where
  "Download_OnClientPacket write wc M CommandId Payload D =
     (if CommandId = Cmd_DownloadAuthCacheServerList then
        (let (ok, out, C) = OnDownloadAuthCacheServerList write wc M Payload (dl_AuthCache D) in
         (ok, out, D\<lparr>dl_AuthCache := C\<rparr>))
      else if CommandId = Cmd_DownloadAuditDeviceServerList then
        (let (ok, out, C) = OnDownloadAuditDeviceServerList write wc M Payload (dl_AuditDevice D) in
         (ok, out, D\<lparr>dl_AuditDevice := C\<rparr>))
      else if CommandId = Cmd_DownloadAuditAccountServerList then
        (let (ok, out, C) = OnDownloadAuditAccountServerList write wc M Payload (dl_AuditAccount D) in
         (ok, out, D\<lparr>dl_AuditAccount := C\<rparr>))
      else (False, None, D))"

text \<open>The version a cached response is kept for is never stored: it stays what it was.\<close>

lemma cr_Version_constant:
  "cr_Version (snd (snd (OnDownloadAuthCacheServerList write wc M p C))) = cr_Version C"
  "cr_Version (snd (snd (OnDownloadAuditDeviceServerList write wc M p C))) = cr_Version C"
  "cr_Version (snd (snd (OnDownloadAuditAccountServerList write wc M p C))) = cr_Version C"
  by (auto simp: OnDownloadAuthCacheServerList_def OnDownloadAuditDeviceServerList_def
      OnDownloadAuditAccountServerList_def Let_def split: option.splits)

subsection \<open>Backend addresses\<close>

text \<open>
  \<^verbatim>\<open>ReloadServerList\<close> on the lines of the file. \<open>trim\<close> and \<open>parse\<close> (with a flag for a usable
  address with a port) are the library's; addresses are sorted by the library's order. An
  invalid line leaves the old list.
\<close>

definition RELOAD_TIMEOUT_MS :: u64 where "RELOAD_TIMEOUT_MS = 2 * 60000"
definition MAX_BACKEND_SERVER_LIST_SIZE :: nat where "MAX_BACKEND_SERVER_LIST_SIZE = 100"

fun reload_lines ::
    "(bytes \<Rightarrow> bytes) \<Rightarrow> (bytes \<Rightarrow> 'a option) \<Rightarrow> bytes list \<Rightarrow> nat \<Rightarrow> 'a list \<Rightarrow> 'a list option" where
  "reload_lines trim parse [] Counter New = Some New"
| "reload_lines trim parse (L # Ls) Counter New =
     (let L' = trim L in
      if L' = [] then reload_lines trim parse Ls Counter New
      else case parse L' of None \<Rightarrow> None
        | Some A \<Rightarrow>
            if Suc Counter \<ge> MAX_BACKEND_SERVER_LIST_SIZE then Some (New @ [A])
            else reload_lines trim parse Ls (Suc Counter) (New @ [A]))"

definition ReloadServerList ::
    "(bytes \<Rightarrow> bytes) \<Rightarrow> (bytes \<Rightarrow> 'a option) \<Rightarrow> bytes list \<Rightarrow> 'a::linorder list \<Rightarrow> 'a list" where
  "ReloadServerList trim parse Lines ServerList =
     (case reload_lines trim parse Lines 0 [] of None \<Rightarrow> ServerList | Some New \<Rightarrow> sort New)"

record 'a backend_manager =
  LastReloadTimestamp :: u64
  BackendServerList :: "'a list"

definition BackendManager_Tick ::
    "(bytes \<Rightarrow> bytes) \<Rightarrow> (bytes \<Rightarrow> 'a option) \<Rightarrow> bytes list \<Rightarrow> u64 \<Rightarrow> 'a::linorder backend_manager \<Rightarrow>
     'a backend_manager" where
  "BackendManager_Tick trim parse Lines NowMS s =
     (if NowMS - LastReloadTimestamp s \<le> RELOAD_TIMEOUT_MS then s
      else s\<lparr>BackendServerList := ReloadServerList trim parse Lines (BackendServerList s),
             LastReloadTimestamp := NowMS\<rparr>)"

definition OnDownloadBackendServerList ::
    "packet_writer \<Rightarrow> 'a wire \<Rightarrow> u32 \<Rightarrow> u64 \<Rightarrow> 'a backend_manager \<Rightarrow> bool \<times> bytes option" where
  "OnDownloadBackendServerList write wc CommandId RequestId s =
     (if CommandId = Cmd_ALL_CC_DownloadBackendServerList then
        (True, Some (write Cmd_ALL_CC_DownloadBackendServerListResp RequestId
           (ser_xCC_ALL_GetBackendServerListResp wc (BackendServerList s))))
      else (True, None))"

lemma reload_lines_spec:
  "n < MAX_BACKEND_SERVER_LIST_SIZE \<Longrightarrow>
   reload_lines trim parse Ls n New =
     (let K = take (MAX_BACKEND_SERVER_LIST_SIZE - n) (filter (\<lambda>L. L \<noteq> []) (map trim Ls)) in
      if \<exists>L \<in> set K. parse L = None then None else Some (New @ map (the \<circ> parse) K))"
proof (induction trim parse Ls n New rule: reload_lines.induct)
  case (2 trim parse L Ls n New)
  show ?case
  proof (cases "trim L = []")
    case True
    with 2(1)[OF refl True 2(3)] show ?thesis by simp
  next
    case False
    have m: "MAX_BACKEND_SERVER_LIST_SIZE - n = Suc (MAX_BACKEND_SERVER_LIST_SIZE - Suc n)"
      using 2(3) by simp
    show ?thesis
    proof (cases "parse (trim L)")
      case None
      with False m show ?thesis by (simp add: Let_def)
    next
      case (Some A)
      show ?thesis
      proof (cases "MAX_BACKEND_SERVER_LIST_SIZE \<le> Suc n")
        case True
        with False Some m show ?thesis by (simp add: Let_def)
      next
        case F: False
        with False Some m 2(2)[OF refl False Some F] show ?thesis by (simp add: Let_def)
      qed
    qed
  qed
qed simp

lemma registry_deref:
  "reg_inv type r \<Longrightarrow> AddServerInfo grow type now sid addr r = (Some p, t) \<Longrightarrow>
   deref t p = Some \<lparr>ServerType = type, ServerId = sid, ServerAddress = addr\<rparr>"
  using AddServerInfo_spec [of type r grow now sid addr] by (auto split: if_splits)

subsection \<open>Properties\<close>

definition demo_grow :: "nat \<Rightarrow> nat" where "demo_grow n = (if n = 0 then 1 else 2 * n)"

definition demo_start :: "ref_addr register_service" where
  "demo_start = \<lparr>reg_manager = ServerListManager_Init 1000, reg_context = (\<lambda>_. None)\<rparr>"

definition demo_register :: "u64 \<Rightarrow> u64 \<Rightarrow> register_event" where
  "demo_register k i = Packet k Cmd_RegisterAuthCacheServer
     (ser_xPP_RegisterAuthCacheServer ref_wire (xPP_RegisterAuthCacheServer.make i (RefV4 (ucast i) 80)))"

text \<open>
  \<^verbatim>\<open>Add...ServerInfo\<close> succeeds exactly when the registry holds fewer than 125 servers and not
  yet the id; then the registry maps the id to the new server and everything else as before, the
  returned pointer reads the new server, and the list is marked for publication. Otherwise
  nothing changes.
\<close>

theorem registry_add:
  assumes "reg_inv type r" "AddServerInfo grow type now sid addr r = (p, t)"
  shows "reg_inv type t \<and>
    (p \<noteq> None \<longleftrightarrow> length (InfoList r) < 125 \<and> GetServerInfo sid r = None) \<and>
    (case p of None \<Rightarrow> t = r
     | Some q \<Rightarrow> deref t q = Some \<lparr>ServerType = type, ServerId = sid, ServerAddress = addr\<rparr> \<and>
         GetServerInfo sid t = Some \<lparr>ServerType = type, ServerId = sid, ServerAddress = addr\<rparr> \<and>
         (\<forall>j. j \<noteq> sid \<longrightarrow> GetServerInfo j t = GetServerInfo j r) \<and> ListDirty t)"
proof -
  have t: "reg_inv type t" using AddServerInfo_spec [OF assms(1), of grow now sid addr] assms(2) by simp
  then show ?thesis
    using AddServerInfo_spec [OF assms(1), of grow now sid addr] assms(2)
    unfolding GetServerInfo_map [OF assms(1)] GetServerInfo_map [OF t]
    by (cases p) (auto split: if_splits)
qed

theorem registry_add_witness:
  "GetServerInfo 7 (snd (AddServerInfo demo_grow AUTH_CACHE 5 7 (RefV4 1 80) (registry_init 0))) =
     Some \<lparr>ServerType = AUTH_CACHE, ServerId = 7, ServerAddress = RefV4 1 80\<rparr>"
proof -
  have "AddServerInfo demo_grow AUTH_CACHE 5 7 (RefV4 1 80) (registry_init 0) =
      (Some (Ptr AUTH_CACHE 1 0), snd (AddServerInfo demo_grow AUTH_CACHE 5 7 (RefV4 1 80) (registry_init 0)))"
    by (simp add: AddServerInfo_def registry_init_def lower_bound_def lower_bound_loop.simps)
  from registry_add [OF registry_init_inv this] show ?thesis by simp
qed

text \<open>
  C21: the registration service over any sequence of connections, registrations, closes and ticks. Up to the end of the
  run, or up to the event that stops it, the three registries stay sorted by id, without duplicates, within 125 servers
  and of their type, both the current and the published lists. A run can only be stopped by a connection that is closed,
  by its client or for a refused packet, while its context points into a vector that has been moved or behind its end.
\<close>

theorem register_service_invariant:
  "case register_run grow wc es \<lparr>reg_manager = ServerListManager_Init now, reg_context = m\<rparr> of
     Some c \<Rightarrow> reg_inv AUTH_CACHE (AuthCache (reg_manager c)) \<and>
       reg_inv AUDIT_DEVICE_CACHE (AuditDevice (reg_manager c)) \<and>
       reg_inv AUDIT_ACCOUNT_CACHE (AuditAccount (reg_manager c))
   | None \<Rightarrow> \<exists>before e rest c k p. es = before @ e # rest \<and>
       register_run grow wc before \<lparr>reg_manager = ServerListManager_Init now, reg_context = m\<rparr> = Some c \<and>
       reg_inv AUTH_CACHE (AuthCache (reg_manager c)) \<and>
       reg_inv AUDIT_DEVICE_CACHE (AuditDevice (reg_manager c)) \<and>
       reg_inv AUDIT_ACCOUNT_CACHE (AuditAccount (reg_manager c)) \<and>
       closes k e \<and> reg_context c k = Some (Some p) \<and> read_ptr (reg_manager c) p = None"
proof -
  have start: "manager_inv (reg_manager \<lparr>reg_manager = ServerListManager_Init now, reg_context = m\<rparr>)"
    by (simp add: ServerListManager_Init_inv)
  show ?thesis
  proof (cases "register_run grow wc es \<lparr>reg_manager = ServerListManager_Init now, reg_context = m\<rparr>")
    case None
    from register_run_fails [OF start None] show ?thesis unfolding None option.case manager_inv_def by blast
  next
    case (Some c)
    from register_run_inv [OF start Some] show ?thesis by (simp add: Some manager_inv_def)
  qed
qed

theorem register_service_invariant_witness:
  "\<exists>c. register_run demo_grow ref_wire [Connected 1, demo_register 1 9] demo_start = Some c \<and>
     map sid_of (InfoList (AuthCache (reg_manager c))) = [9] \<and> reg_inv AUTH_CACHE (AuthCache (reg_manager c))"
proof -
  have "map_option (\<lambda>c. map sid_of (InfoList (AuthCache (reg_manager c))))
      (register_run demo_grow ref_wire [Connected 1, demo_register 1 9] demo_start) = Some [9]"
    by code_simp
  then obtain c where c: "register_run demo_grow ref_wire [Connected 1, demo_register 1 9] demo_start = Some c"
    "map sid_of (InfoList (AuthCache (reg_manager c))) = [9]" by auto
  from register_service_invariant [where grow = demo_grow and wc = ref_wire and es = "[Connected 1, demo_register 1 9]" and
      now = 1000 and m = "\<lambda>_. None", folded demo_start_def]
  show ?thesis using c by simp
qed

text \<open>
  a server that registers and whose connection closes right after leaves no trace in the
  registry: its close handler reads its own entry and removes exactly it.
\<close>

theorem register_then_close:
  assumes "manager_inv s" "AddAuthCacheServerInfo grow sid addr s = (Some p, t)"
  shows "\<exists>u. Register_OnClientClose (Some p) t = Some u \<and> manager_inv u \<and>
    (\<forall>j. GetAuthCacheServerInfo j u = GetAuthCacheServerInfo j s) \<and>
    AuditDevice u = AuditDevice s \<and> AuditAccount u = AuditAccount s"
proof -
  have r: "reg_inv AUTH_CACHE (AuthCache s)" using assms(1) by (simp add: manager_inv_def)
  from assms(2) obtain q where q: "AddServerInfo grow AUTH_CACHE (sl_Ticker s) sid addr (AuthCache s) = (Some p, q)"
    "t = s\<lparr>AuthCache := q\<rparr>"
    by (auto simp: AddAuthCacheServerInfo_def split: prod.splits)
  then have "deref q p = Some \<lparr>ServerType = AUTH_CACHE, ServerId = sid, ServerAddress = addr\<rparr>"
    using registry_deref [OF r q(1)] by simp
  moreover have "ptr_list p = AUTH_CACHE"
    using q(1) by (auto simp: AddServerInfo_def Let_def split: if_splits)
  ultimately have "Register_OnClientClose (Some p) t = Some (RemoveAuthCacheServerInfo sid t)"
    using q(2) by (simp add: Register_OnClientClose_def read_ptr_def)
  moreover have "manager_inv (RemoveAuthCacheServerInfo sid t)"
    using auth.remove_inv auth.add_inv [OF assms] by blast
  moreover have "AuditDevice (RemoveAuthCacheServerInfo sid t) = AuditDevice s"
    "AuditAccount (RemoveAuthCacheServerInfo sid t) = AuditAccount s"
    by (simp_all add: RemoveAuthCacheServerInfo_def q(2))
  ultimately show ?thesis using auth.remove_undoes_add [OF assms] by blast
qed

theorem register_then_close_witness:
  "\<exists>p t u. AddAuthCacheServerInfo demo_grow 7 (RefV4 1 80) (ServerListManager_Init 0) = (Some p, t) \<and>
     Register_OnClientClose (Some p) t = Some u"
proof -
  obtain p t where "AddAuthCacheServerInfo demo_grow 7 (RefV4 1 80) (ServerListManager_Init 0) = (Some p, t)"
    by (simp add: AddAuthCacheServerInfo_def ServerListManager_Init_def AddServerInfo_def
        registry_init_def lower_bound_def lower_bound_loop.simps)
  with register_then_close [OF ServerListManager_Init_inv this] show ?thesis by blast
qed

text \<open>
  with other registrations in between, a close can remove another server than the
  connection's own, because the connection keeps a pointer into a sorted vector: servers 10, 20
  and 30 register over connections 1, 2 and 3, then server 5 over connection 4, which moves the
  others; the close of connection 3 removes server 20 and leaves server 30. With one
  registration less in between the pointer of connection 1 points into a freed buffer.
\<close>

theorem close_removes_another_server:
  "map_option (\<lambda>c. map sid_of (InfoList (AuthCache (reg_manager c))))
     (register_run demo_grow ref_wire
       [Connected 1, Connected 2, Connected 3, Connected 4, demo_register 1 10, demo_register 2 20,
        demo_register 3 30, demo_register 4 5, Closed 3] demo_start) = Some [5, 10, 30] \<and>
   register_run demo_grow ref_wire
     [Connected 1, Connected 2, demo_register 1 10, demo_register 2 20, Closed 1] demo_start = None"
proof -
  have "map_option (\<lambda>c. map sid_of (InfoList (AuthCache (reg_manager c))))
     (register_run demo_grow ref_wire
       [Connected 1, Connected 2, Connected 3, Connected 4, demo_register 1 10, demo_register 2 20,
        demo_register 3 30, demo_register 4 5, Closed 3] demo_start) = Some [5, 10, 30]"
    by code_simp
  moreover have "map_option (\<lambda>_. ()) (register_run demo_grow ref_wire
     [Connected 1, Connected 2, demo_register 1 10, demo_register 2 20, Closed 1] demo_start) = None"
    by code_simp
  ultimately show ?thesis by simp
qed

text \<open>
  a removal alone is never published: on a list that is not marked dirty, any removal and any
  number of ticks leave the published list and its version as they were, with the removed server
  still in it.
\<close>

theorem removal_not_published:
  assumes "\<not> ListDirty r"
  shows "fold tick_registry nows (RemoveServerInfo sid r) = RemoveServerInfo sid r \<and>
    VersionedInfoList (RemoveServerInfo sid r) = VersionedInfoList r \<and>
    ListVersion (RemoveServerInfo sid r) = ListVersion r"
proof -
  have "\<not> ListDirty (RemoveServerInfo sid r)" using assms by (simp add: RemoveServerInfo_def Let_def)
  then have "tick_registry now (RemoveServerInfo sid r) = RemoveServerInfo sid r" for now
    by (simp add: tick_registry_def)
  then have "fold tick_registry nows (RemoveServerInfo sid r) = RemoveServerInfo sid r"
    by (induction nows) auto
  then show ?thesis by (simp add: RemoveServerInfo_def Let_def)
qed

theorem removal_not_published_witness:
  "let r = tick_registry 70000 (snd (AddServerInfo demo_grow AUTH_CACHE 5 7 (RefV4 1 80) (registry_init 0)))
   in map sid_of (VersionedInfoList (fold tick_registry [140000, 210000] (RemoveServerInfo 7 r))) = [7]"
proof -
  let ?r = "tick_registry 70000 (snd (AddServerInfo demo_grow AUTH_CACHE 5 7 (RefV4 1 80) (registry_init 0)))"
  have "\<not> ListDirty ?r" "map sid_of (VersionedInfoList ?r) = [7]" by code_simp+
  with removal_not_published [of ?r "[140000, 210000]" 7] show ?thesis unfolding Let_def by metis
qed

text \<open>
  a reload of the backend addresses looks at the first 100 non-empty lines: when every one
  parses, the new list is theirs, sorted; when one does not, the old list is kept as a whole.
\<close>

theorem reload_backend_list:
  "ReloadServerList trim parse Lines Old =
     (let K = take 100 (filter (\<lambda>L. L \<noteq> []) (map trim Lines)) in
      if \<exists>L \<in> set K. parse L = None then Old else sort (map (the \<circ> parse) K))"
proof -
  have "0 < MAX_BACKEND_SERVER_LIST_SIZE" by (simp add: MAX_BACKEND_SERVER_LIST_SIZE_def)
  from reload_lines_spec [OF this, of trim parse Lines "[]"] show ?thesis
    unfolding ReloadServerList_def Let_def by (auto simp: MAX_BACKEND_SERVER_LIST_SIZE_def)
qed

end
