(* ===== verification/ServerListClient.thy ===== *)
theory ServerListClient
  imports ServerListService "HOL-Library.Multiset"
begin

text \<open>
  The clients of the download service, \<^verbatim>\<open>lib_server_util/extra/*_server_list_client.cpp\<close>: each
  asks for its list on connection and periodically, and takes over the answers. The three
  classes differ in their messages only. \<^verbatim>\<open>std::sort\<close> leaves the order of equal ids open; the
  model uses the stable order, and no property depends on it.
\<close>

record 'a list_client =
  UpdateIntervalMS :: u64
  LastRequestTimestampMS :: u64
  ServerListVersion :: u32
  SortedServerInfoList :: "'a xServerInfo list"

definition MIN_UPDATE_INTERVAL_MS :: u64 where "MIN_UPDATE_INTERVAL_MS = 60000"

definition list_client_init :: "'a list_client" where
  "list_client_init = \<lparr>UpdateIntervalMS = MIN_UPDATE_INTERVAL_MS, LastRequestTimestampMS = 0,
     ServerListVersion = 0, SortedServerInfoList = []\<rparr>"

definition SetUpdateInterval :: "u64 \<Rightarrow> 'a list_client \<Rightarrow> 'a list_client" where
  "SetUpdateInterval IntervalMS c = c\<lparr>UpdateIntervalMS :=
     (if IntervalMS < MIN_UPDATE_INTERVAL_MS then MIN_UPDATE_INTERVAL_MS else IntervalMS)\<rparr>"

text \<open>Taking over a response: the common part of the three \<^verbatim>\<open>OnServerPacket\<close>.\<close>

definition take_over :: "u32 \<Rightarrow> 'a xServerInfo list \<Rightarrow> 'a list_client \<Rightarrow> 'a list_client" where
  "take_over ver L c =
     (if ServerListVersion c = ver then c
      else c\<lparr>SortedServerInfoList := sort_key xServerInfo.ServerId (SortedServerInfoList c @ L),
             ServerListVersion := ver\<rparr>)"

text \<open>A posted request is its command, request id and payload; \<open>Clock\<close> is \<^verbatim>\<open>GetTimestampMS()\<close>.\<close>

definition PostDownloadAuthCacheServerListRequest ::
    "'a wire \<Rightarrow> u64 \<Rightarrow> 'a list_client \<Rightarrow> (u32 \<times> u64 \<times> bytes) \<times> 'a list_client" where
  "PostDownloadAuthCacheServerListRequest wc Clock c =
     ((Cmd_DownloadAuthCacheServerList, 0, ser_xPP_DownloadAuthCacheServerList wc
         (xPP_DownloadAuthCacheServerList.make (ServerListVersion c))),
      c\<lparr>LastRequestTimestampMS := Clock\<rparr>)"

definition AuthCacheClient_OnTick ::
    "'a wire \<Rightarrow> u64 \<Rightarrow> u64 \<Rightarrow> 'a list_client \<Rightarrow> (u32 \<times> u64 \<times> bytes) option \<times> 'a list_client" where
  "AuthCacheClient_OnTick wc Clock NowMS c =
     (if NowMS - LastRequestTimestampMS c < UpdateIntervalMS c then (None, c)
      else apfst Some (PostDownloadAuthCacheServerListRequest wc Clock c))"

definition AuthCacheClient_OnServerPacket ::
    "'a wire \<Rightarrow> u32 \<Rightarrow> bytes \<Rightarrow> 'a list_client \<Rightarrow> bool \<times> 'a list_client" where
  "AuthCacheClient_OnServerPacket wc CommandId Payload c =
     (if CommandId \<noteq> Cmd_DownloadAuthCacheServerListResp then (False, c)
      else case des_xPP_DownloadAuthCacheServerListResp wc Payload of
        None \<Rightarrow> (False, c)
      | Some (R, _) \<Rightarrow> (True, take_over (xPP_DownloadAuthCacheServerListResp.Version R)
          (xPP_DownloadAuthCacheServerListResp.ServerInfoList R) c))"

definition PostDownloadAuditDeviceServerListRequest ::
    "'a wire \<Rightarrow> u64 \<Rightarrow> 'a list_client \<Rightarrow> (u32 \<times> u64 \<times> bytes) \<times> 'a list_client" where
  "PostDownloadAuditDeviceServerListRequest wc Clock c =
     ((Cmd_DownloadAuditDeviceServerList, 0, ser_xPP_DownloadAuditDeviceServerList wc
         (xPP_DownloadAuditDeviceServerList.make (ServerListVersion c))),
      c\<lparr>LastRequestTimestampMS := Clock\<rparr>)"

definition AuditDeviceClient_OnTick ::
    "'a wire \<Rightarrow> u64 \<Rightarrow> u64 \<Rightarrow> 'a list_client \<Rightarrow> (u32 \<times> u64 \<times> bytes) option \<times> 'a list_client" where
  "AuditDeviceClient_OnTick wc Clock NowMS c =
     (if NowMS - LastRequestTimestampMS c < UpdateIntervalMS c then (None, c)
      else apfst Some (PostDownloadAuditDeviceServerListRequest wc Clock c))"

definition AuditDeviceClient_OnServerPacket ::
    "'a wire \<Rightarrow> u32 \<Rightarrow> bytes \<Rightarrow> 'a list_client \<Rightarrow> bool \<times> 'a list_client" where
  "AuditDeviceClient_OnServerPacket wc CommandId Payload c =
     (if CommandId \<noteq> Cmd_DownloadAuditDeviceServerListResp then (False, c)
      else case des_xPP_DownloadAuditDeviceServerListResp wc Payload of
        None \<Rightarrow> (False, c)
      | Some (R, _) \<Rightarrow> (True, take_over (xPP_DownloadAuditDeviceServerListResp.Version R)
          (xPP_DownloadAuditDeviceServerListResp.ServerInfoList R) c))"

definition PostDownloadAuditAccountServerListRequest ::
    "'a wire \<Rightarrow> u64 \<Rightarrow> 'a list_client \<Rightarrow> (u32 \<times> u64 \<times> bytes) \<times> 'a list_client" where
  "PostDownloadAuditAccountServerListRequest wc Clock c =
     ((Cmd_DownloadAuditAccountServerList, 0, ser_xPP_DownloadAuditAccountServerList wc
         (xPP_DownloadAuditAccountServerList.make (ServerListVersion c))),
      c\<lparr>LastRequestTimestampMS := Clock\<rparr>)"

definition AuditAccountClient_OnTick ::
    "'a wire \<Rightarrow> u64 \<Rightarrow> u64 \<Rightarrow> 'a list_client \<Rightarrow> (u32 \<times> u64 \<times> bytes) option \<times> 'a list_client" where
  "AuditAccountClient_OnTick wc Clock NowMS c =
     (if NowMS - LastRequestTimestampMS c < UpdateIntervalMS c then (None, c)
      else apfst Some (PostDownloadAuditAccountServerListRequest wc Clock c))"

definition AuditAccountClient_OnServerPacket ::
    "'a wire \<Rightarrow> u32 \<Rightarrow> bytes \<Rightarrow> 'a list_client \<Rightarrow> bool \<times> 'a list_client" where
  "AuditAccountClient_OnServerPacket wc CommandId Payload c =
     (if CommandId \<noteq> Cmd_DownloadAuditAccountServerListResp then (False, c)
      else case des_xPP_DownloadAuditAccountServerListResp wc Payload of
        None \<Rightarrow> (False, c)
      | Some (R, _) \<Rightarrow> (True, take_over (xPP_DownloadAuditAccountServerListResp.Version R)
          (xPP_DownloadAuditAccountServerListResp.ServerInfoList R) c))"

text \<open>
  What the client takes over from a published list: the list itself when it had none, and its
  old servers together with the new ones otherwise.
\<close>

lemma take_over_first:
  assumes "sorted_by xServerInfo.ServerId L" "ver \<noteq> ServerListVersion c" "SortedServerInfoList c = []"
  shows "SortedServerInfoList (take_over ver L c) = L \<and> ServerListVersion (take_over ver L c) = ver"
proof -
  have "sorted (map xServerInfo.ServerId L)"
    using assms(1) by (simp add: sorted_by_def strict_sorted_iff)
  then show ?thesis using assms(2,3) by (simp add: take_over_def sort_key_id_if_sorted)
qed

lemma take_over_next:
  "ver \<noteq> ServerListVersion c \<Longrightarrow>
   mset (SortedServerInfoList (take_over ver L c)) = mset (SortedServerInfoList c) + mset L"
  by (simp add: take_over_def)

lemma export_sorted:
  "sorted_by sid_of L \<Longrightarrow> sorted_by xServerInfo.ServerId (map export_info L)"
  by (simp add: sorted_by_def export_info_def xServerInfo.defs comp_def)

subsection \<open>Properties\<close>

text \<open>
  C24: from the registry to the client: a new client that asks for the authentication caches,
  when the manager has published a list of fewer than 125 servers, is sent a packet from which it
  takes over exactly the published servers, in the published order, with their version.
\<close>

theorem download_delivers:
  assumes wc: "wire_codec wc" and inv: "manager_inv M"
    and pub: "ListVersion (AuthCache M) \<noteq> 0" "length (VersionedInfoList (AuthCache M)) < 125"
    and new: "SortedServerInfoList c = []" "ServerListVersion c = 0" "cr_Version C = 0"
  shows "\<exists>payload c' C'.
    OnDownloadAuthCacheServerList write wc M
      (snd (snd (fst (PostDownloadAuthCacheServerListRequest wc Clock c)))) C =
      (True, Some (write Cmd_DownloadAuthCacheServerListResp 0 payload), C') \<and>
    AuthCacheClient_OnServerPacket wc Cmd_DownloadAuthCacheServerListResp payload c = (True, c') \<and>
    SortedServerInfoList c' = map export_info (VersionedInfoList (AuthCache M)) \<and>
    ServerListVersion c' = ListVersion (AuthCache M)"
proof -
  let ?L = "map export_info (VersionedInfoList (AuthCache M))" and ?v = "ListVersion (AuthCache M)"
  let ?R = "xPP_DownloadAuthCacheServerListResp.make ?v ?L"
  let ?p = "ser_xPP_DownloadAuthCacheServerListResp wc ?R"
  have "des_xPP_DownloadAuthCacheServerList wc
      (ser_xPP_DownloadAuthCacheServerList wc (xPP_DownloadAuthCacheServerList.make 0)) =
      Some (xPP_DownloadAuthCacheServerList.make 0, [])"
    using wire_codec.ser_des_xPP_DownloadAuthCacheServerList [OF wc, of _ "[]"] by simp
  then have srv: "\<exists>C'. OnDownloadAuthCacheServerList write wc M
      (ser_xPP_DownloadAuthCacheServerList wc (xPP_DownloadAuthCacheServerList.make 0)) C =
      (True, Some (write Cmd_DownloadAuthCacheServerListResp 0 ?p), C')"
    using pub new
    by (simp add: OnDownloadAuthCacheServerList_def xPP_DownloadAuthCacheServerList.defs Let_def)
  have "des_xPP_DownloadAuthCacheServerListResp wc ?p = Some (?R, [])"
    using wire_codec.ser_des_xPP_DownloadAuthCacheServerListResp [OF wc, of ?R "[]"] pub(2)
    by (simp add: xPP_DownloadAuthCacheServerListResp.defs)
  then have cl: "AuthCacheClient_OnServerPacket wc Cmd_DownloadAuthCacheServerListResp ?p c =
      (True, take_over ?v ?L c)"
    by (simp add: AuthCacheClient_OnServerPacket_def xPP_DownloadAuthCacheServerListResp.defs)
  have "sorted_by xServerInfo.ServerId ?L"
    using inv by (intro export_sorted) (simp add: manager_inv_def reg_inv_def)
  from take_over_first [OF this, of ?v c] pub new srv cl show ?thesis
    by (auto simp: PostDownloadAuthCacheServerListRequest_def)
qed

definition demo_manager :: "ref_addr xSL_InternalServerListManager" where
  "demo_manager = ServerListManager_OnTick 70000 (snd (AddAuthCacheServerInfo demo_grow 9 (RefV4 1 80)
     (snd (AddAuthCacheServerInfo demo_grow 12 (RefV4 2 80) (ServerListManager_Init 5)))))"

lemma demo_manager_inv: "manager_inv demo_manager"
proof -
  have step: "manager_inv s \<Longrightarrow> manager_inv (snd (AddAuthCacheServerInfo demo_grow i a s))" for s i a
    using auth.add_inv [of s demo_grow i a] by (metis prod.collapse)
  show ?thesis unfolding demo_manager_def
    by (intro ServerListManager_OnTick_inv step ServerListManager_Init_inv)
qed

theorem download_delivers_witness:
  "\<exists>payload c'. AuthCacheClient_OnServerPacket ref_wire Cmd_DownloadAuthCacheServerListResp payload
      list_client_init = (True, c') \<and>
    SortedServerInfoList c' = [xServerInfo.make 9 (RefV4 1 80), xServerInfo.make 12 (RefV4 2 80)]"
proof -
  have m: "ListVersion (AuthCache demo_manager) \<noteq> 0"
    "length (VersionedInfoList (AuthCache demo_manager)) < 125"
    "map export_info (VersionedInfoList (AuthCache demo_manager)) =
      [xServerInfo.make 9 (RefV4 1 80), xServerInfo.make 12 (RefV4 2 80)]"
    by code_simp+
  have i: "SortedServerInfoList list_client_init = []" "ServerListVersion list_client_init = 0"
    "cr_Version \<lparr>cr_Version = 0, cr_Response = []\<rparr> = 0" by (simp_all add: list_client_init_def)
  from download_delivers [OF ref_wire_contract demo_manager_inv m(1,2) i, of "\<lambda>_ _ _. []" 0] m(3)
  obtain payload c' where "AuthCacheClient_OnServerPacket ref_wire Cmd_DownloadAuthCacheServerListResp
      payload list_client_init = (True, c')"
    "SortedServerInfoList c' = [xServerInfo.make 9 (RefV4 1 80), xServerInfo.make 12 (RefV4 2 80)]"
    by auto
  then show ?thesis by blast
qed

text \<open>
  a registry accepts one server more than its clients can download: a published list of 125
  servers is refused by the reader of the response, and the client drops the connection with its
  list unchanged.
\<close>

theorem full_list_refused:
  assumes wc: "wire_codec wc" and full: "length L = 125"
  shows "AuthCacheClient_OnServerPacket wc Cmd_DownloadAuthCacheServerListResp
    (ser_xPP_DownloadAuthCacheServerListResp wc (xPP_DownloadAuthCacheServerListResp.make ver L)) c = (False, c)"
proof -
  have "des_xPP_DownloadAuthCacheServerListResp wc
      (ser_xPP_DownloadAuthCacheServerListResp wc (xPP_DownloadAuthCacheServerListResp.make ver L)) = None"
    using wire_codec.des_xPP_DownloadAuthCacheServerListResp_reject
      [OF wc, of "xPP_DownloadAuthCacheServerListResp.make ver L" "[]"] full
    by (simp add: xPP_DownloadAuthCacheServerListResp.defs)
  then show ?thesis by (simp add: AuthCacheClient_OnServerPacket_def)
qed

theorem full_list_refused_witness:
  "AuthCacheClient_OnServerPacket ref_wire Cmd_DownloadAuthCacheServerListResp
    (ser_xPP_DownloadAuthCacheServerListResp ref_wire (xPP_DownloadAuthCacheServerListResp.make 1
      (replicate 125 (xServerInfo.make 9 (RefV4 1 80))))) list_client_init = (False, list_client_init)"
  by (rule full_list_refused [OF ref_wire_contract]) simp

text \<open>
  a client that already has servers keeps them when it takes over a newer list: afterwards it
  holds its old servers and the new ones together, so a server that left stays, and one that
  stayed is there twice.
\<close>

theorem stale_servers_kept:
  assumes wc: "wire_codec wc" and len: "length L < 125" and ver: "ver \<noteq> ServerListVersion c"
  shows "\<exists>c'. AuthCacheClient_OnServerPacket wc Cmd_DownloadAuthCacheServerListResp
      (ser_xPP_DownloadAuthCacheServerListResp wc (xPP_DownloadAuthCacheServerListResp.make ver L)) c =
      (True, c') \<and> ServerListVersion c' = ver \<and>
    mset (SortedServerInfoList c') = mset (SortedServerInfoList c) + mset L"
proof -
  have "des_xPP_DownloadAuthCacheServerListResp wc
      (ser_xPP_DownloadAuthCacheServerListResp wc (xPP_DownloadAuthCacheServerListResp.make ver L)) =
      Some (xPP_DownloadAuthCacheServerListResp.make ver L, [])"
    using wire_codec.ser_des_xPP_DownloadAuthCacheServerListResp
      [OF wc, of "xPP_DownloadAuthCacheServerListResp.make ver L" "[]"] len
    by (simp add: xPP_DownloadAuthCacheServerListResp.defs)
  then show ?thesis using take_over_next [OF ver] ver
    by (simp add: AuthCacheClient_OnServerPacket_def xPP_DownloadAuthCacheServerListResp.defs take_over_def)
qed

theorem stale_servers_kept_witness:
  "\<exists>c'. AuthCacheClient_OnServerPacket ref_wire Cmd_DownloadAuthCacheServerListResp
      (ser_xPP_DownloadAuthCacheServerListResp ref_wire (xPP_DownloadAuthCacheServerListResp.make 2
        [xServerInfo.make 9 (RefV4 1 80)]))
      (take_over 1 [xServerInfo.make 9 (RefV4 1 80)] list_client_init) = (True, c') \<and>
    length (SortedServerInfoList c') = 2"
proof -
  let ?c = "take_over 1 [xServerInfo.make 9 (RefV4 1 80)] list_client_init"
  have c: "ServerListVersion ?c = 1" "length (SortedServerInfoList ?c) = 1"
    by (simp_all add: take_over_def list_client_init_def)
  obtain c' where "AuthCacheClient_OnServerPacket ref_wire Cmd_DownloadAuthCacheServerListResp
      (ser_xPP_DownloadAuthCacheServerListResp ref_wire (xPP_DownloadAuthCacheServerListResp.make 2
        [xServerInfo.make 9 (RefV4 1 80)])) ?c = (True, c')"
    and m: "mset (SortedServerInfoList c') =
      mset (SortedServerInfoList ?c) + mset [xServerInfo.make 9 (RefV4 1 80)]"
    using stale_servers_kept [OF ref_wire_contract, of "[xServerInfo.make 9 (RefV4 1 80)]" 2 ?c] c(1)
    by auto
  moreover have "length (SortedServerInfoList c') = 2"
    using arg_cong [OF m, of size] c(2) by (simp only: size_mset size_union) simp
  ultimately show ?thesis by blast
qed

end
