(* ===== verification/ClientConnection.thy ===== *)
theory ClientConnection
  imports RelayMessages Commands
begin

text \<open>
  A client connection of the proxy access server,
  \<^verbatim>\<open>server_proxy_access/client_connection_manager.cpp\<close>. Every handler of the manager works on one
  connection object; here it is a function from the connection to the new connection and the
  list of actions it performs on the rest of the program, in order: data posted to the client,
  messages posted to a relay server, requests to the other managers, and the list operations of
  the manager (\<^verbatim>\<open>Kill\<close>, \<^verbatim>\<open>LingerKill\<close>, \<^verbatim>\<open>KeepAlive\<close>, the removal from the account check list).
  ClientManager performs the actions. \<open>None\<close> is a failed \<^verbatim>\<open>RuntimeAssert\<close> or a read outside of a
  buffer.
\<close>

subsection \<open>Data\<close>

datatype eProxyPhase = eUnknown
  | eS5WaitForAuthInfo | eS5WaitForAccountExchange | eS5WaitForDeviceSelection
  | eS5WaitForConnectionRequest | eS5WaitForConnectionEstablish | eS5ConnectionReady
  | eS5WaitForConnectionClosed
  | eHttpChallenge | eHttpRawChallenge | eHttpRawWaitForAccountExchange
  | eHttpRawWaitForDeviceSelection | eHttpRawWaitForConnectionEstablish | eHttpRawReady
  | eHttpRawClosed
  | eHttpNormalChallenge | eHttpNormalWaitForAccountExchange | eHttpNormalWaitForDeviceSelection
  | eHttpNormalWaitForConnectionEstablish | eHttpNormalReady | eHttpNormalClosed
  | eLingerKill | eError

record http_context =
  TargetHost :: bytes
  TargetPort :: u16
  RebuiltHttpHeader :: bytes
  HttpHeaderLine :: bytes
  AuthNamePass :: bytes
  ContentLengthLeft :: u64

record xPA_ClientConnection =
  ConnectionId :: u64
  Phase :: eProxyPhase
  RelayConnectionId :: u64
  RelaySideDeviceId :: u64
  RelaySideConnectionId :: u64
  TotalUploadDataSize :: u64
  TotalDumpedDataSize :: u64
  TotalReportedUploadDataSize :: u64
  TotalReportedDumpedDataSize :: u64
  Http :: http_context
  CheckAccountTimestampMS :: u64
  LastDataExchangeTimestampMS :: u64
  LingerKillTimestamp :: u64

abbreviation RelaySideConn :: "xPA_ClientConnection \<Rightarrow> u64" where
  "RelaySideConn \<equiv> xPA_ClientConnection.RelaySideConnectionId"

definition fresh_connection :: xPA_ClientConnection where
  "fresh_connection = \<lparr>ConnectionId = 0, Phase = eUnknown, RelayConnectionId = 0,
     RelaySideDeviceId = 0, xPA_ClientConnection.RelaySideConnectionId = 0, TotalUploadDataSize = 0,
     TotalDumpedDataSize = 0, TotalReportedUploadDataSize = 0, TotalReportedDumpedDataSize = 0,
     Http = \<lparr>TargetHost = [], TargetPort = 0, RebuiltHttpHeader = [], HttpHeaderLine = [],
       AuthNamePass = [], ContentLengthLeft = 0\<rparr>,
     CheckAccountTimestampMS = 0, LastDataExchangeTimestampMS = 0, LingerKillTimestamp = 0\<rparr>"

record xPA_DeviceRequest =
  ClientConnectionId :: u64
  CountryId :: u32
  StateId :: u32
  CityId :: u32
  RequireIpv6 :: bool
  RequireUdp :: bool
  RequireRemoteDns :: bool

record xPA_DeviceRequestResp =
  RespClientConnectionId :: u64
  RelayServerRuntimeId :: u64
  DeviceRelaySideId :: u64

record xPA_AuthResult =
  CountryId :: u32
  StateId :: u32
  CityId :: u32
  IsBlocked :: bool
  RequireIpv6 :: bool
  RequireUdp :: bool
  RequireRemoteDns :: bool
  AutoChangeIp :: bool
  Ready :: bool

datatype 'a action =
    PostData bytes \<comment> \<open>to the client\<close>
  | RequestAuth bytes
  | PostDeviceRequest xPA_DeviceRequest
  | RelayCreate u64 "'a xPR_CreateConnection" \<comment> \<open>to the relay connection with the id\<close>
  | RelayPush u64 xPR_PushData
  | RelayState u64 xPR_ConnectionStateNotify
  | SuspendReading
  | ResumeReading
  | Kill
  | LingerKill
  | KeepAlive
  | RemoveAccountCheck

text \<open>What \<^verbatim>\<open>OnData\<close> returns to the library: the bytes it used, or \<^verbatim>\<open>InvalidDataSize\<close>.\<close>

datatype consumed = Used nat | InvalidDataSize

text \<open>
  What the handlers read of the rest of the program and of the library: whether the relay
  connection with an id is there, whether the client has pending writes, the address types,
  the base64 decoder, and the stream reader's 16-bit read.
\<close>

record 'a pa_env =
  relay_up :: "u64 \<Rightarrow> bool"
  pending_writes :: "u64 \<Rightarrow> bool"
  remote_ip :: "u64 \<Rightarrow> bytes"
  base64_decode :: "bytes \<Rightarrow> bytes"
  parse_host :: "bytes \<Rightarrow> u16 \<Rightarrow> 'a"
  addr_v4 :: "bytes \<Rightarrow> u16 \<Rightarrow> 'a"
  addr_v6 :: "bytes \<Rightarrow> u16 \<Rightarrow> 'a"
  addr_port_only :: "u16 \<Rightarrow> 'a"
  addr_port :: "'a \<Rightarrow> u16"
  read_r2 :: "byte \<Rightarrow> byte \<Rightarrow> u16"

type_synonym 'a reply = "consumed \<times> 'a action list \<times> xPA_ClientConnection"

definition READ_OVERFLOW_SIZE :: u64 where "READ_OVERFLOW_SIZE = 1000"
definition WRITE_OVERFLOW_SIZE :: u64 where "WRITE_OVERFLOW_SIZE = 1000"

subsection \<open>Text\<close>

definition to_lower :: "byte \<Rightarrow> byte" where
  "to_lower c = (if 65 \<le> c \<and> c \<le> 90 then c + 32 else c)"

text \<open>\<^verbatim>\<open>0 == strncasecmp(pat, s, strlen(pat))\<close> for a text that goes on behind \<open>pat\<close> or differs.\<close>

definition starts_nocase :: "string \<Rightarrow> bytes \<Rightarrow> bool" where
  "starts_nocase pat s \<longleftrightarrow> length pat \<le> length s \<and>
     map to_lower (take (length pat) s) = map to_lower (bytes_of pat)"

definition crlf :: bytes where "crlf = [13, 10]"

text \<open>\<^verbatim>\<open>find("\r\n")\<close> and \<^verbatim>\<open>find(c, from)\<close>.\<close>

fun find_crlf :: "bytes \<Rightarrow> nat option" where
  "find_crlf [] = None"
| "find_crlf [c] = None"
| "find_crlf (c # d # s) =
     (if c = 13 \<and> d = 10 then Some 0 else map_option Suc (find_crlf (d # s)))"

fun find_byte :: "byte \<Rightarrow> bytes \<Rightarrow> nat option" where
  "find_byte b [] = None"
| "find_byte b (c # s) = (if c = b then Some 0 else map_option Suc (find_byte b s))"

definition find_from :: "byte \<Rightarrow> nat \<Rightarrow> bytes \<Rightarrow> nat option" where
  "find_from b i s = map_option (\<lambda>k. i + k) (find_byte b (drop i s))"

text \<open>\<^verbatim>\<open>atoi\<close>: leading spaces, a sign, digits. Its overflow is undefined and left as the number.\<close>

definition is_digit :: "byte \<Rightarrow> bool" where "is_digit c \<longleftrightarrow> 48 \<le> c \<and> c \<le> 57"

definition digits_value :: "bytes \<Rightarrow> int" where
  "digits_value s = fold (\<lambda>c v. 10 * v + (uint c - 48)) (takeWhile is_digit s) 0"

definition white_space :: "byte \<Rightarrow> bool" where "white_space c \<longleftrightarrow> c = 32 \<or> 9 \<le> c \<and> c \<le> 13"

definition atoi :: "bytes \<Rightarrow> int" where
  "atoi s = (let t = dropWhile white_space s in
     case t of [] \<Rightarrow> 0
     | c # r \<Rightarrow> if c = 45 then - digits_value r else if c = 43 then digits_value r
                else digits_value t)"

text \<open>
  A string ends with a zero, the received data do not: \<^verbatim>\<open>atoi\<close> on them stays inside only when a byte that is not
  part of the number comes before their end.
\<close>

definition atoi_ends :: "bytes \<Rightarrow> bool" where
  "atoi_ends s = (let t = dropWhile white_space s in
     case t of [] \<Rightarrow> False
     | c # r \<Rightarrow> dropWhile is_digit (if c = 45 \<or> c = 43 then r else t) \<noteq> [])"

text \<open>
  The scan for \<^verbatim>\<open>host:port\<close> over the next \<open>n\<close> bytes: the host ends at a colon, which a port
  follows, or at \<open>stop\<close>, and then the port is 80. \<open>Some None\<close> finds neither, \<open>None\<close> reads behind the data.
\<close>

fun scan_host :: "byte \<Rightarrow> nat \<Rightarrow> bytes \<Rightarrow> bytes \<Rightarrow> (bytes \<times> u16) option option" where
  "scan_host stop 0 s acc = Some None"
| "scan_host stop (Suc n) [] acc = Some None"
| "scan_host stop (Suc n) (c # s) acc =
     (if c = 58 then (if atoi_ends s then Some (Some (acc, word_of_int (atoi s))) else None)
      else if c = stop then Some (Some (acc, 80))
      else scan_host stop n s (acc @ [c]))"

text \<open>
  \<^verbatim>\<open>PostData(literal, n)\<close>: the literal has its text and a terminating zero; reading more is
  undefined.
\<close>

definition post_literal :: "bytes \<Rightarrow> nat \<Rightarrow> 'a action option" where
  "post_literal lit n = (if n \<le> Suc (length lit) then Some (PostData (take n (lit @ [0]))) else None)"

definition HTTP_407_RESPONSE :: bytes where
  "HTTP_407_RESPONSE = bytes_of ''HTTP/1.1 407 Proxy Authentication Required'' @ crlf @
     bytes_of ''Proxy-Authenticate: Basic realm=Restricted'' @ crlf @
     bytes_of ''Connection: close'' @ crlf @ crlf"

definition HTTP_407_RESPONSE_LENGTH :: nat where "HTTP_407_RESPONSE_LENGTH = 109"

definition http_200 :: bytes where
  "http_200 = bytes_of ''HTTP/1.1 200 Connection established'' @ crlf @
     bytes_of ''Proxy-agent: proxy / 1.0'' @ crlf @ crlf"

definition http_502 :: bytes where
  "http_502 = bytes_of ''HTTP/1.1 502 Bad Gateway'' @ crlf @
     bytes_of ''Proxy-agent: proxy / 1.0'' @ crlf @ crlf"

definition Post407 :: "'a action" where
  "Post407 = PostData (take HTTP_407_RESPONSE_LENGTH HTTP_407_RESPONSE)"

lemma literal_lengths:
  "length HTTP_407_RESPONSE = HTTP_407_RESPONSE_LENGTH" "length http_200 = 65" "length http_502 = 54"
  by (simp_all add: HTTP_407_RESPONSE_def HTTP_407_RESPONSE_LENGTH_def http_200_def http_502_def crlf_def)

lemma find_crlf_bound: "find_crlf s = Some i \<Longrightarrow> i + 2 \<le> length s"
  by (induction s arbitrary: i rule: find_crlf.induct) (auto split: if_splits)

subsection \<open>Socks5\<close>

definition OnS5Challenge :: "xPA_ClientConnection \<Rightarrow> bytes \<Rightarrow> 'a reply" where
  "OnS5Challenge c D =
     (let NM = unat (D ! 1); HeaderSize = 2 + NM in
      if NM = 0 then (Used 0, [Kill], c)
      else if length D < HeaderSize then (Used 0, [], c)
      else
        let UserPassSupport = (2 \<in> set (take NM (drop 2 D)));
            acts = (if UserPassSupport then [PostData [5, 2]] else [PostData [5, 0xFF], Kill]) in
        (Used HeaderSize, acts, c\<lparr>Phase := eS5WaitForAuthInfo\<rparr>))"

definition OnS5ClientAuth :: "'a pa_env \<Rightarrow> xPA_ClientConnection \<Rightarrow> bytes \<Rightarrow> 'a reply" where
  "OnS5ClientAuth env c D =
     (let done = (\<lambda>NP n. (Used n, [RequestAuth NP], c\<lparr>Phase := eS5WaitForAccountExchange\<rparr>));
          Ver = D ! 0; IP = remote_ip env (ConnectionId c) in
      if length D < 3 then (Used 0, [], c)
      else if Ver = 1 then
        let NameLen = unat (D ! 1) in
        if length D < 3 + NameLen then (Used 0, [], c)
        else
          let PassLen = unat (D ! (2 + NameLen)) in
          if length D < 3 + NameLen + PassLen then (Used 0, [], c)
          else
            let D' = D[2 + NameLen := 58] in
            done (if NameLen \<noteq> 0 \<or> PassLen \<noteq> 0 then take (NameLen + PassLen + 1) (drop 2 D') else IP)
              (3 + NameLen + PassLen)
      else if Ver = 0 then done IP 1
      else (InvalidDataSize, [], c))"

definition OnOpenRemoteConnection ::
    "'a pa_env \<Rightarrow> 'a \<Rightarrow> bytes \<Rightarrow> xPA_ClientConnection \<Rightarrow> 'a action list \<times> xPA_ClientConnection" where
  "OnOpenRemoteConnection env Addr Host c =
     (if \<not> relay_up env (RelayConnectionId c) then ([], c)
      else
        ([RelayCreate (RelayConnectionId c)
            (xPR_CreateConnection.make (RelaySideDeviceId c) (ConnectionId c) Addr Host (addr_port env Addr))],
         if Phase c = eS5WaitForConnectionRequest then c\<lparr>Phase := eS5WaitForConnectionEstablish\<rparr>
         else if Phase c = eHttpRawWaitForDeviceSelection then c\<lparr>Phase := eHttpRawWaitForConnectionEstablish\<rparr>
         else if Phase c = eHttpNormalWaitForDeviceSelection then
           c\<lparr>Phase := eHttpNormalWaitForConnectionEstablish\<rparr>
         else c))"

text \<open>The address and domain of a request, and the offset behind them; \<open>None\<close> while bytes lack.\<close>

definition s5_ipv4 :: "'a pa_env \<Rightarrow> bytes \<Rightarrow> ('a \<times> bytes \<times> nat) option" where
  "s5_ipv4 env D = Some (addr_v4 env (take 4 (drop 4 D)) (read_r2 env (D ! 8) (D ! 9)), [], 10)"

definition s5_domain :: "'a pa_env \<Rightarrow> bytes \<Rightarrow> ('a \<times> bytes \<times> nat) option" where
  "s5_domain env D =
     (let n = unat (D ! 4) in
      if length D < 4 + 1 + n + 2 then None
      else Some (addr_port_only env (read_r2 env (D ! (5 + n)) (D ! (6 + n))), take n (drop 5 D), 7 + n))"

definition s5_ipv6 :: "'a pa_env \<Rightarrow> bytes \<Rightarrow> ('a \<times> bytes \<times> nat) option" where
  "s5_ipv6 env D =
     (if length D < 4 + 16 + 2 then None
      else Some (addr_v6 env (take 16 (drop 4 D)) (read_r2 env (D ! 20) (D ! 21)), [], 22))"

definition OnS5ConnectionRequest :: "'a pa_env \<Rightarrow> xPA_ClientConnection \<Rightarrow> bytes \<Rightarrow> 'a reply" where
  "OnS5ConnectionRequest env c D =
     (if length D < 10 then (Used 0, [], c)
      else if length D \<ge> 6 + 256 then (Used 0, [Kill], c)
      else
        let Version = D ! 0; Operation = D ! 1; Reserved = D ! 2; AddrType = D ! 3 in
        if Version \<noteq> 5 \<or> Reserved \<noteq> 0 then (Used 0, [Kill], c)
        else if AddrType \<noteq> 1 \<and> AddrType \<noteq> 3 \<and> AddrType \<noteq> 4 then (Used 0, [Kill], c)
        else
          case (if AddrType = 1 then s5_ipv4 env D
                else if AddrType = 3 then s5_domain env D else s5_ipv6 env D) of
            None \<Rightarrow> (Used 0, [], c)
          | Some (Addr, Host, Offset) \<Rightarrow>
              if Operation \<noteq> 1 \<and> AddrType \<noteq> 3 \<and> AddrType \<noteq> 4 then
                (Used 0, [PostData ([5, 1, 0] @ take (Offset - 3) (drop 3 D)), LingerKill], c)
              else
                let (acts, c') = OnOpenRemoteConnection env Addr Host c in
                (Used (length D), acts, c'))"

subsection \<open>Upload and accounting\<close>

definition TryUpdateDataTransferSize ::
    "'a pa_env \<Rightarrow> u64 \<Rightarrow> u64 \<Rightarrow> xPA_ClientConnection \<Rightarrow> 'a action list \<times> xPA_ClientConnection" where
  "TryUpdateDataTransferSize env UploadInc DumpedInc c0 =
     (let c = c0\<lparr>TotalUploadDataSize := TotalUploadDataSize c0 + UploadInc,
                 TotalDumpedDataSize := TotalDumpedDataSize c0 + DumpedInc\<rparr>;
          UploadDiff = TotalUploadDataSize c - TotalReportedUploadDataSize c;
          DumpedDiff = TotalDumpedDataSize c - TotalReportedDumpedDataSize c in
      if UploadDiff < READ_OVERFLOW_SIZE \<and> DumpedDiff < WRITE_OVERFLOW_SIZE then ([], c)
      else if \<not> relay_up env (RelayConnectionId c) then ([Kill], c)
      else
        ([RelayState (RelayConnectionId c)
            (xPR_ConnectionStateNotify.make (ConnectionId c) (RelaySideConn c) STATE_UPDATE_TRANSFER
              (TotalUploadDataSize c) (TotalDumpedDataSize c))],
         c\<lparr>TotalReportedUploadDataSize := TotalUploadDataSize c,
           TotalReportedDumpedDataSize := TotalDumpedDataSize c\<rparr>))"

text \<open>The upload loop: \<^verbatim>\<open>while (RemainSize)\<close> post at most \<^verbatim>\<open>MAX_PAYLOAD_SIZE\<close> bytes.\<close>

function push_loop :: "xPA_ClientConnection \<Rightarrow> bytes \<Rightarrow> 'a action list" where
  "push_loop c D =
     (if D = [] then []
      else
        let PostSize = min (length D) MAX_PAYLOAD_SIZE in
        RelayPush (RelayConnectionId c)
          (xPR_PushData.make (ConnectionId c) (RelaySideConn c) (take PostSize D)) #
        push_loop c (drop PostSize D))"
  by auto
termination
  by (relation "measure (\<lambda>(c, D). length D)") (auto simp: MAX_PAYLOAD_SIZE_def min_def)

declare push_loop.simps [simp del]

text \<open>\<^verbatim>\<open>OnS5UploadData\<close>, \<^verbatim>\<open>OnHttpRawUploadData\<close> and \<^verbatim>\<open>OnHttpNormalUploadData\<close> have the same body.\<close>

definition OnUploadData :: "'a pa_env \<Rightarrow> xPA_ClientConnection \<Rightarrow> bytes \<Rightarrow> 'a reply" where
  "OnUploadData env c D =
     (if \<not> relay_up env (RelayConnectionId c) then (InvalidDataSize, [], c)
      else
        let (acts, c') = TryUpdateDataTransferSize env (word_of_nat (length D)) 0 c in
        (Used (length D), push_loop c D @ acts @ [KeepAlive], c'))"

definition OnS5UploadData :: "'a pa_env \<Rightarrow> xPA_ClientConnection \<Rightarrow> bytes \<Rightarrow> 'a reply" where
  "OnS5UploadData = OnUploadData"

definition OnHttpRawUploadData :: "'a pa_env \<Rightarrow> xPA_ClientConnection \<Rightarrow> bytes \<Rightarrow> 'a reply" where
  "OnHttpRawUploadData = OnUploadData"

definition OnHttpNormalUploadData :: "'a pa_env \<Rightarrow> xPA_ClientConnection \<Rightarrow> bytes \<Rightarrow> 'a reply" where
  "OnHttpNormalUploadData = OnUploadData"

lemmas upload_defs = OnS5UploadData_def OnHttpRawUploadData_def OnHttpNormalUploadData_def


subsection \<open>The first bytes\<close>

definition set_target :: "bytes \<Rightarrow> u16 \<Rightarrow> xPA_ClientConnection \<Rightarrow> xPA_ClientConnection" where
  "set_target Host P c = c\<lparr>Http := (Http c)\<lparr>TargetHost := Host, TargetPort := P\<rparr>\<rparr>"

definition append_header :: "bytes \<Rightarrow> xPA_ClientConnection \<Rightarrow> xPA_ClientConnection" where
  "append_header s c = c\<lparr>Http := (Http c)\<lparr>RebuiltHttpHeader := RebuiltHttpHeader (Http c) @ s\<rparr>\<rparr>"

text \<open>\<^verbatim>\<open>CONNECT host:port HTTP/1.1\<close>; \<open>L\<close> is the length of the line.\<close>

definition OnHttpConnect :: "xPA_ClientConnection \<Rightarrow> bytes \<Rightarrow> nat \<Rightarrow> 'a reply option" where
  "OnHttpConnect c D L =
     (case scan_host 32 (L - 8) (drop 8 D) [] of
        None \<Rightarrow> None
      | Some None \<Rightarrow> Some (Used 0, [Kill], c)
      | Some (Some (Host, P)) \<Rightarrow>
          if Host = [] then Some (Used 0, [Kill], c)
          else Some (Used (L + 2), [], (set_target Host P c)\<lparr>Phase := eHttpRawChallenge\<rparr>))"

text \<open>
  The scheme of the URL at index \<open>U\<close>: where the host starts and where the search for the path
  starts, which for \<^verbatim>\<open>https://\<close> is one byte before the host.
\<close>

definition skip_scheme :: "bytes \<Rightarrow> nat \<Rightarrow> nat \<times> nat" where
  "skip_scheme D U =
     (if starts_nocase ''http://'' (drop U D) then (U + 7, U + 7)
      else if starts_nocase ''https://'' (drop U D) then (U + 8, U + 7)
      else (U, U))"

definition OnHttpPlain :: "xPA_ClientConnection \<Rightarrow> bytes \<Rightarrow> nat \<Rightarrow> 'a reply option" where
  "OnHttpPlain c D L =
     (let LineView = take L D in
      case find_byte 32 LineView of
        None \<Rightarrow> Some (Used 0, [Kill], c)
      | Some k \<Rightarrow>
          let URLStartIndex = k + 1; c1 = append_header (take URLStartIndex D) c in
          case find_from 32 URLStartIndex LineView of
            None \<Rightarrow> Some (Used 0, [Kill], c1)
          | Some URLEndIndex \<Rightarrow>
              let (URLStart, PathFrom) = skip_scheme D URLStartIndex in
              case find_from 47 PathFrom LineView of
                None \<Rightarrow> Some (Used 0, [Kill], c1)
              | Some PathStartIndex \<Rightarrow>
                  (case scan_host 47 (PathStartIndex + 1 - URLStart) (drop URLStart D) [] of
                     None \<Rightarrow> None
                   | Some target \<Rightarrow>
                      let (Host, P) = (case target of Some hp \<Rightarrow> hp | None \<Rightarrow> ([], 0))
                      in Some (Used (L + 2), [],
                          (append_header (take (L - PathStartIndex + 2) (drop PathStartIndex D))
                            (set_target Host P c1))\<lparr>Phase := eHttpNormalChallenge\<rparr>)))"

definition OnHttpChallenge :: "xPA_ClientConnection \<Rightarrow> bytes \<Rightarrow> 'a reply option" where
  "OnHttpChallenge c D =
     (case find_crlf D of
        None \<Rightarrow> Some (Used 0, [], c)
      | Some L \<Rightarrow>
          if L = 0 then Some (Used 0, [Kill], c)
          else if starts_nocase ''CONNECT '' D then OnHttpConnect c D L
          else OnHttpPlain c D L)"

definition OnChallenge :: "xPA_ClientConnection \<Rightarrow> bytes \<Rightarrow> 'a reply option" where
  "OnChallenge c D =
     (if length D < 3 then Some (Used 0, [], c)
      else if D ! 0 = 5 then Some (OnS5Challenge c D)
      else OnHttpChallenge c D)"

subsection \<open>Headers of a CONNECT request\<close>

definition is_header :: "string \<Rightarrow> bytes \<Rightarrow> bool" where
  "is_header name Line \<longleftrightarrow> length name < length Line \<and> starts_nocase name Line"

text \<open>
  \<open>auth_header env Line n\<close> handles \<^verbatim>\<open>Proxy-Authorization\<close>, where \<open>n\<close> is what the code takes
  for the length of the line: \<open>Some None\<close> is an invalid header, \<open>Some (Some np)\<close> the decoded
  pair, and \<open>None\<close> a length that wraps below zero and makes the decoder read out of bounds.
\<close>

definition auth_header :: "'a pa_env \<Rightarrow> bytes \<Rightarrow> nat \<Rightarrow> bytes option option" where
  "auth_header env Line n =
     (let AuthStart = drop 21 Line in
      if n < 21 then None
      else if n - 21 < 6 \<and> \<not> starts_nocase ''Basic '' AuthStart then Some None
      else if n - 21 < 6 then None
      else Some (Some (base64_decode env (take (n - 27) (drop 6 AuthStart)))))"

function raw_headers ::
    "'a pa_env \<Rightarrow> xPA_ClientConnection \<Rightarrow> bytes \<Rightarrow> bytes \<Rightarrow> nat \<Rightarrow> 'a reply option" where
  "raw_headers env c V NP Consumed =
     (case find_crlf V of
        None \<Rightarrow> Some (Used Consumed, [], c)
      | Some 0 \<Rightarrow>
          Some (if NP = [] then (Used 0, [Post407, LingerKill], c)
            else (Used (Consumed + 2), [RequestAuth NP, SuspendReading],
              c\<lparr>Phase := eHttpRawWaitForAccountExchange\<rparr>))
      | Some (Suc k) \<Rightarrow>
          let next = drop (Suc k + 2) V; Consumed' = Consumed + (Suc k + 2) in
          if 21 < Suc k \<and> starts_nocase ''Proxy-Authorization: '' V then
            (case auth_header env V (Suc k) of
               None \<Rightarrow> None
             | Some None \<Rightarrow> Some (Used 0, [Kill], c)
             | Some (Some np) \<Rightarrow> raw_headers env c next np Consumed')
          else raw_headers env c next NP Consumed')"
  by pat_completeness auto
termination
  by (relation "measure (\<lambda>(_, _, V, _, _). length V)") (auto dest: find_crlf_bound)

declare raw_headers.simps [simp del]

definition OnHttpRawChallenge :: "'a pa_env \<Rightarrow> xPA_ClientConnection \<Rightarrow> bytes \<Rightarrow> 'a reply option" where
  "OnHttpRawChallenge env c D = raw_headers env c D [] 0"

subsection \<open>Headers of a plain request\<close>

definition set_line :: "bytes \<Rightarrow> xPA_ClientConnection \<Rightarrow> xPA_ClientConnection" where
  "set_line s c = c\<lparr>Http := (Http c)\<lparr>HttpHeaderLine := s\<rparr>\<rparr>"

text \<open>
  One complete line; \<open>n\<close> is the index of the line end in the piece just received. The result is
  \<open>Some None\<close> for an invalid authorization.
\<close>

definition normal_line ::
    "'a pa_env \<Rightarrow> bytes \<Rightarrow> nat \<Rightarrow> xPA_ClientConnection \<Rightarrow> xPA_ClientConnection option option" where
  "normal_line env Line n c =
     (if is_header ''Proxy-Connection: '' Line then Some (Some c)
      else if is_header ''Connection: '' Line then
        Some (Some (append_header (bytes_of ''Connection: close'' @ crlf) c))
      else if is_header ''Proxy-Authorization: '' Line then
        (case auth_header env Line n of
           None \<Rightarrow> None
         | Some None \<Rightarrow> Some None
         | Some (Some np) \<Rightarrow> Some (Some (c\<lparr>Http := (Http c)\<lparr>AuthNamePass := np\<rparr>\<rparr>)))
      else if is_header ''Content-Length: '' Line then
        Some (Some (append_header (Line @ crlf)
          (c\<lparr>Http := (Http c)\<lparr>ContentLengthLeft := word_of_int (atoi (drop 16 Line))\<rparr>\<rparr>)))
      else Some (Some (append_header (Line @ crlf) c)))"

definition normal_done :: "xPA_ClientConnection \<Rightarrow> nat \<Rightarrow> 'a reply" where
  "normal_done c0 Consumed =
     (let c = append_header crlf c0; NP = AuthNamePass (Http c) in
      if NP = [] then (Used Consumed, [Post407, LingerKill], c)
      else (Used Consumed, [RequestAuth NP, SuspendReading],
        c\<lparr>Phase := eHttpNormalWaitForAccountExchange\<rparr>))"

function normal_headers ::
    "'a pa_env \<Rightarrow> nat \<Rightarrow> xPA_ClientConnection \<Rightarrow> bytes \<Rightarrow> nat \<Rightarrow> 'a reply option" where
  "normal_headers env DataSize c V Consumed =
     (let Line = HttpHeaderLine (Http c) in
      case find_crlf V of
        None \<Rightarrow> Some (Used DataSize, [], set_line (Line @ V) c)
      | Some n \<Rightarrow>
          if n = 0 \<and> Line = [] then Some (normal_done c (Consumed + 2))
          else
            (case normal_line env (Line @ take n V) n (set_line (Line @ take n V) c) of
               None \<Rightarrow> None
             | Some None \<Rightarrow> Some (Used 0, [Kill], set_line (Line @ take n V) c)
             | Some (Some c') \<Rightarrow>
                 normal_headers env DataSize (set_line [] c') (drop (n + 2) V) (Consumed + n + 2)))"
  by pat_completeness auto
termination
  by (relation "measure (\<lambda>(_, _, _, V, _). length V)") (auto dest: find_crlf_bound)

declare normal_headers.simps [simp del]

definition OnHttpNormalChallenge :: "'a pa_env \<Rightarrow> xPA_ClientConnection \<Rightarrow> bytes \<Rightarrow> 'a reply option" where
  "OnHttpNormalChallenge env c D = normal_headers env (length D) c D 0"

subsection \<open>Events from the client\<close>

definition OnData :: "'a pa_env \<Rightarrow> xPA_ClientConnection \<Rightarrow> bytes \<Rightarrow> 'a reply option" where
  "OnData env c D =
     (case Phase c of
        eUnknown \<Rightarrow> OnChallenge c D
      | eS5WaitForAuthInfo \<Rightarrow> Some (OnS5ClientAuth env c D)
      | eS5WaitForConnectionRequest \<Rightarrow> Some (OnS5ConnectionRequest env c D)
      | eS5ConnectionReady \<Rightarrow> Some (OnS5UploadData env c D)
      | eHttpRawChallenge \<Rightarrow> OnHttpRawChallenge env c D
      | eHttpRawReady \<Rightarrow> Some (OnHttpRawUploadData env c D)
      | eHttpNormalChallenge \<Rightarrow> OnHttpNormalChallenge env c D
      | eHttpNormalReady \<Rightarrow> Some (OnHttpNormalUploadData env c D)
      | _ \<Rightarrow> Some (Used 0, [Kill], c))"

definition OnPeerClose :: "xPA_ClientConnection \<Rightarrow> 'a action list \<times> xPA_ClientConnection" where
  "OnPeerClose c =
     ([Kill], if Phase c = eS5ConnectionReady then c\<lparr>Phase := eS5WaitForConnectionClosed\<rparr> else c)"

subsection \<open>Events from the other managers\<close>

definition device_request :: "xPA_ClientConnection \<Rightarrow> xPA_AuthResult \<Rightarrow> xPA_DeviceRequest" where
  "device_request c R = \<lparr>ClientConnectionId = ConnectionId c,
     xPA_DeviceRequest.CountryId = xPA_AuthResult.CountryId R,
     xPA_DeviceRequest.StateId = xPA_AuthResult.StateId R,
     xPA_DeviceRequest.CityId = xPA_AuthResult.CityId R, xPA_DeviceRequest.RequireIpv6 = False,
     xPA_DeviceRequest.RequireUdp = False, xPA_DeviceRequest.RequireRemoteDns = False\<rparr>"

text \<open>The three \<^verbatim>\<open>...AuthFinished\<close> handlers for a result that is there.\<close>

definition auth_ok ::
    "eProxyPhase \<Rightarrow> xPA_ClientConnection \<Rightarrow> xPA_AuthResult \<Rightarrow> 'a action list \<times> xPA_ClientConnection" where
  "auth_ok P c R =
     ([RemoveAccountCheck, KeepAlive, PostDeviceRequest (device_request c R)], c\<lparr>Phase := P\<rparr>)"

definition OnS5ClientAuthFinished ::
    "xPA_ClientConnection \<Rightarrow> xPA_AuthResult option \<Rightarrow> 'a action list \<times> xPA_ClientConnection" where
  "OnS5ClientAuthFinished c ARP = (case ARP of
     None \<Rightarrow> ([PostData [1, 1], LingerKill], c) | Some R \<Rightarrow> auth_ok eS5WaitForDeviceSelection c R)"

definition OnHttpRawAuthFinished ::
    "xPA_ClientConnection \<Rightarrow> xPA_AuthResult option \<Rightarrow> 'a action list \<times> xPA_ClientConnection" where
  "OnHttpRawAuthFinished c ARP = (case ARP of
     None \<Rightarrow> ([Post407, Kill], c) | Some R \<Rightarrow> auth_ok eHttpRawWaitForDeviceSelection c R)"

definition OnHttpNormalAuthFinished ::
    "xPA_ClientConnection \<Rightarrow> xPA_AuthResult option \<Rightarrow> 'a action list \<times> xPA_ClientConnection" where
  "OnHttpNormalAuthFinished c ARP = (case ARP of
     None \<Rightarrow> ([Post407, Kill], c) | Some R \<Rightarrow> auth_ok eHttpNormalWaitForDeviceSelection c R)"

definition OnAuthResult ::
    "xPA_ClientConnection \<Rightarrow> xPA_AuthResult option \<Rightarrow> 'a action list \<times> xPA_ClientConnection" where
  "OnAuthResult c PR =
     (case Phase c of
        eS5WaitForAccountExchange \<Rightarrow> OnS5ClientAuthFinished c PR
      | eHttpRawWaitForAccountExchange \<Rightarrow> OnHttpRawAuthFinished c PR
      | eHttpNormalWaitForAccountExchange \<Rightarrow> OnHttpNormalAuthFinished c PR
      | _ \<Rightarrow> ([Kill], c))"

definition use_device :: "xPA_DeviceRequestResp \<Rightarrow> xPA_ClientConnection \<Rightarrow> xPA_ClientConnection" where
  "use_device R c = c\<lparr>RelayConnectionId := RelayServerRuntimeId R,
     RelaySideDeviceId := DeviceRelaySideId R\<rparr>"

definition open_target :: "'a pa_env \<Rightarrow> xPA_ClientConnection \<Rightarrow> 'a action list \<times> xPA_ClientConnection" where
  "open_target env c =
     OnOpenRemoteConnection env (parse_host env (TargetHost (Http c)) (TargetPort (Http c)))
       (TargetHost (Http c)) c"

definition OnDeviceSelected ::
    "'a pa_env \<Rightarrow> xPA_ClientConnection \<Rightarrow> xPA_DeviceRequestResp \<Rightarrow> 'a action list \<times> xPA_ClientConnection" where
  "OnDeviceSelected env c R =
     (case Phase c of
        eS5WaitForDeviceSelection \<Rightarrow>
          if DeviceRelaySideId R = 0 then ([PostData [1, 1], Kill], c)
          else ([PostData [1, 0]], (use_device R c)\<lparr>Phase := eS5WaitForConnectionRequest\<rparr>)
      | eHttpRawWaitForDeviceSelection \<Rightarrow> open_target env (use_device R c)
      | eHttpNormalWaitForDeviceSelection \<Rightarrow> open_target env (use_device R c)
      | _ \<Rightarrow> ([Kill], c))"

subsection \<open>Events from the relay servers\<close>

text \<open>\<^verbatim>\<open>HasPendingWrites() ? LingerKill : Kill\<close>, after the change of the phase.\<close>

definition close_conn ::
    "'a pa_env \<Rightarrow> eProxyPhase \<Rightarrow> xPA_ClientConnection \<Rightarrow> 'a action list \<times> xPA_ClientConnection" where
  "close_conn env P c =
     ([if pending_writes env (ConnectionId c) then LingerKill else Kill], c\<lparr>Phase := P\<rparr>)"

definition establish :: "u64 \<Rightarrow> eProxyPhase \<Rightarrow> xPA_ClientConnection \<Rightarrow> xPA_ClientConnection" where
  "establish i P c = c\<lparr>xPA_ClientConnection.RelaySideConnectionId := i, Phase := P\<rparr>"

definition S5_ESTABLISHED :: bytes where "S5_ESTABLISHED = [5, 0, 0, 1, 0, 0, 0, 0, 0, 0]"
definition S5_UNREACHABLE :: bytes where "S5_UNREACHABLE = [5, 3, 0, 1, 0, 0, 0, 0, 0, 0]"

definition OnRelaySideConnectionStateChange ::
    "'a pa_env \<Rightarrow> xPA_ClientConnection \<Rightarrow> xPR_ConnectionStateNotify \<Rightarrow>
       ('a action list \<times> xPA_ClientConnection) option" where
  "OnRelaySideConnectionStateChange env c N =
     (let St = xPR_ConnectionStateNotify.NewState N;
          i = xPR_ConnectionStateNotify.RelaySideConnectionId N in
      case Phase c of
        eS5WaitForConnectionEstablish \<Rightarrow>
          if St \<noteq> STATE_ESTABLISHED then None
          else Some ([PostData S5_ESTABLISHED], establish i eS5ConnectionReady c)
      | eS5ConnectionReady \<Rightarrow>
          if St = STATE_CLOSED then Some (close_conn env eS5WaitForConnectionClosed c)
          else Some ([], c)
      | eHttpRawWaitForConnectionEstablish \<Rightarrow>
          if St \<noteq> STATE_ESTABLISHED then None
          else
            (case post_literal http_200 65 of
               None \<Rightarrow> None
             | Some p \<Rightarrow> Some ([ResumeReading, p], establish i eHttpRawReady c))
      | eHttpNormalWaitForConnectionEstablish \<Rightarrow>
          if St \<noteq> STATE_ESTABLISHED then None
          else
            let c1 = establish i eHttpNormalReady c;
                (_, acts, c2) = OnHttpNormalUploadData env c1 (RebuiltHttpHeader (Http c1)) in
            Some (ResumeReading # acts, c2)
      | _ \<Rightarrow> Some ([], c))"

definition OnDestroyConnection ::
    "'a pa_env \<Rightarrow> xPA_ClientConnection \<Rightarrow> ('a action list \<times> xPA_ClientConnection) option" where
  "OnDestroyConnection env c =
     (case Phase c of
        eS5WaitForConnectionEstablish \<Rightarrow>
          Some ([PostData S5_UNREACHABLE, LingerKill], c\<lparr>Phase := eS5WaitForConnectionClosed\<rparr>)
      | eS5ConnectionReady \<Rightarrow> Some (close_conn env eS5WaitForConnectionClosed c)
      | eHttpRawWaitForConnectionEstablish \<Rightarrow>
          map_option (\<lambda>p. ([p, LingerKill], c\<lparr>Phase := eHttpRawClosed\<rparr>)) (post_literal http_502 64)
      | eHttpRawReady \<Rightarrow> Some (close_conn env eHttpRawClosed c)
      | eHttpNormalReady \<Rightarrow> Some (close_conn env eHttpNormalClosed c)
      | eHttpNormalWaitForConnectionEstablish \<Rightarrow>
          map_option (\<lambda>p. ([p, LingerKill], c\<lparr>Phase := eHttpNormalClosed\<rparr>)) (post_literal http_502 64)
      | _ \<Rightarrow> Some ([Kill], c))"

text \<open>\<open>Size\<close> is the size of the whole message, which is what the code counts.\<close>

definition OnRelaySidePushData ::
    "'a pa_env \<Rightarrow> xPA_ClientConnection \<Rightarrow> xPR_PushData \<Rightarrow> nat \<Rightarrow> 'a action list \<times> xPA_ClientConnection" where
  "OnRelaySidePushData env c Push Size =
     (let (acts, c') = TryUpdateDataTransferSize env 0 (word_of_nat Size) c in
      ([KeepAlive, PostData (xPR_PushData.PayloadView Push)] @ acts, c'))"

end
