(* ===== verification/ClientSession.thy ===== *)
theory ClientSession
  imports ClientConnection
begin

text \<open>
  The life of one client connection of the proxy access server: all handlers of ClientConnection
  as one step function over events, the abstract session it implements (negotiate, authorize,
  select a device, connect, exchange data), and what holds in every run: the order of the
  requests to the other servers, the identities they carry, and the byte accounting.
\<close>

subsection \<open>Events and runs\<close>

datatype conn_event = EvData bytes | EvPeerClose | EvAuth "xPA_AuthResult option"
  | EvDevice xPA_DeviceRequestResp | EvState xPR_ConnectionStateNotify | EvDestroy
  | EvPush xPR_PushData nat

definition handle ::
    "'a pa_env \<Rightarrow> xPA_ClientConnection \<Rightarrow> conn_event \<Rightarrow> ('a action list \<times> xPA_ClientConnection) option" where
  "handle env c e =
     (case e of
        EvData D \<Rightarrow> map_option snd (OnData env c D)
      | EvPeerClose \<Rightarrow> Some (OnPeerClose c)
      | EvAuth PR \<Rightarrow> Some (OnAuthResult c PR)
      | EvDevice R \<Rightarrow> Some (OnDeviceSelected env c R)
      | EvState N \<Rightarrow> OnRelaySideConnectionStateChange env c N
      | EvDestroy \<Rightarrow> OnDestroyConnection env c
      | EvPush Push Size \<Rightarrow> Some (OnRelaySidePushData env c Push Size))"

type_synonym 'a trace = "(conn_event \<times> 'a action list) list"

text \<open>
  A run of a connection: any sequence of events, each handled in any state of the rest of the
  program.
\<close>

inductive session_trace ::
    "('a pa_env \<Rightarrow> xPA_ClientConnection \<Rightarrow> conn_event \<Rightarrow> ('a action list \<times> xPA_ClientConnection) option) \<Rightarrow>
     u64 \<Rightarrow> 'a trace \<Rightarrow> xPA_ClientConnection \<Rightarrow> bool" for step i where
  start: "session_trace step i [] (fresh_connection\<lparr>ConnectionId := i\<rparr>)"
| go: "session_trace step i tr c \<Longrightarrow> step env c e = Some (acts, c') \<Longrightarrow>
    session_trace step i (tr @ [(e, acts)]) c'"

subsection \<open>The abstract session\<close>

datatype stage = Negotiating | Authorizing | Selecting | Selected | Connecting | Established | Finished

fun stage_of :: "eProxyPhase \<Rightarrow> stage" where
  "stage_of eUnknown = Negotiating"
| "stage_of eS5WaitForAuthInfo = Negotiating"
| "stage_of eHttpChallenge = Negotiating"
| "stage_of eHttpRawChallenge = Negotiating"
| "stage_of eHttpNormalChallenge = Negotiating"
| "stage_of eS5WaitForAccountExchange = Authorizing"
| "stage_of eHttpRawWaitForAccountExchange = Authorizing"
| "stage_of eHttpNormalWaitForAccountExchange = Authorizing"
| "stage_of eS5WaitForDeviceSelection = Selecting"
| "stage_of eHttpRawWaitForDeviceSelection = Selecting"
| "stage_of eHttpNormalWaitForDeviceSelection = Selecting"
| "stage_of eS5WaitForConnectionRequest = Selected"
| "stage_of eS5WaitForConnectionEstablish = Connecting"
| "stage_of eHttpRawWaitForConnectionEstablish = Connecting"
| "stage_of eHttpNormalWaitForConnectionEstablish = Connecting"
| "stage_of eS5ConnectionReady = Established"
| "stage_of eHttpRawReady = Established"
| "stage_of eHttpNormalReady = Established"
| "stage_of _ = Finished"

abbreviation stage :: "xPA_ClientConnection \<Rightarrow> stage" where "stage c \<equiv> stage_of (Phase c)"

fun rank :: "stage \<Rightarrow> nat" where
  "rank Negotiating = 0" | "rank Authorizing = 1" | "rank Selecting = 2" | "rank Selected = 3"
| "rank Connecting = 4" | "rank Established = 5" | "rank Finished = 6"

inductive session_step :: "stage \<Rightarrow> conn_event \<Rightarrow> stage \<Rightarrow> bool" where
  stay: "session_step s e s"
| ask: "session_step Negotiating (EvData D) Authorizing"
| authorized: "session_step Authorizing (EvAuth (Some R)) Selecting"
| selected: "DeviceRelaySideId R \<noteq> 0 \<Longrightarrow> session_step Selecting (EvDevice R) Selected"
| connect_http: "session_step Selecting (EvDevice R) Connecting"
| connect_s5: "session_step Selected (EvData D) Connecting"
| established: "xPR_ConnectionStateNotify.NewState N = STATE_ESTABLISHED \<Longrightarrow>
    session_step Connecting (EvState N) Established"
| closed: "xPR_ConnectionStateNotify.NewState N = STATE_CLOSED \<Longrightarrow>
    session_step Established (EvState N) Finished"
| gone: "session_step Established EvPeerClose Finished"
| refused: "session_step Connecting EvDestroy Finished"
| destroyed: "session_step Established EvDestroy Finished"

inductive_simps session_step_simps: "session_step s e s'"

lemma session_step_rank: "session_step s e s' \<Longrightarrow> rank s \<le> rank s'"
  by (auto elim!: session_step.cases)

text \<open>What a list of actions asks of the other servers.\<close>

definition auth_requests :: "'a action list \<Rightarrow> bytes list" where
  "auth_requests acts = [np. RequestAuth np \<leftarrow> acts]"

definition device_requests :: "'a action list \<Rightarrow> xPA_DeviceRequest list" where
  "device_requests acts = [r. PostDeviceRequest r \<leftarrow> acts]"

definition creations :: "'a action list \<Rightarrow> (u64 \<times> 'a xPR_CreateConnection) list" where
  "creations acts = [(r, m). RelayCreate r m \<leftarrow> acts]"

definition pushes :: "'a action list \<Rightarrow> (u64 \<times> xPR_PushData) list" where
  "pushes acts = [(r, m). RelayPush r m \<leftarrow> acts]"

definition reports :: "'a action list \<Rightarrow> (u64 \<times> xPR_ConnectionStateNotify) list" where
  "reports acts = [(r, m). RelayState r m \<leftarrow> acts]"

lemmas request_defs = auth_requests_def device_requests_def creations_def pushes_def reports_def

lemma requests_append [simp]:
  "auth_requests (a @ b) = auth_requests a @ auth_requests b"
  "device_requests (a @ b) = device_requests a @ device_requests b"
  "creations (a @ b) = creations a @ creations b"
  "pushes (a @ b) = pushes a @ pushes b"
  "reports (a @ b) = reports a @ reports b"
  by (simp_all add: request_defs)

lemma requests_Nil [simp]:
  "auth_requests [] = []" "device_requests [] = []" "creations [] = []" "pushes [] = []"
  "reports [] = []"
  by (simp_all add: request_defs)

lemma requests_Cons [simp]:
  "auth_requests (x # b) = (case x of RequestAuth np \<Rightarrow> [np] | _ \<Rightarrow> []) @ auth_requests b"
  "device_requests (x # b) = (case x of PostDeviceRequest r \<Rightarrow> [r] | _ \<Rightarrow> []) @ device_requests b"
  "creations (x # b) = (case x of RelayCreate r m \<Rightarrow> [(r, m)] | _ \<Rightarrow> []) @ creations b"
  "pushes (x # b) = (case x of RelayPush r m \<Rightarrow> [(r, m)] | _ \<Rightarrow> []) @ pushes b"
  "reports (x # b) = (case x of RelayState r m \<Rightarrow> [(r, m)] | _ \<Rightarrow> []) @ reports b"
  by (simp_all add: request_defs split: action.split)

subsection \<open>Upload\<close>

lemma push_loop_requests [simp]:
  "auth_requests (push_loop c D) = []" "device_requests (push_loop c D) = []"
  "creations (push_loop c D) = []" "reports (push_loop c D) = []" "Kill \<notin> set (push_loop c D)"
  "RemoveAccountCheck \<notin> set (push_loop c D)"
proof (induction c D rule: push_loop.induct)
  case (1 c D)
  { case 1 show ?case using "1.IH"(1) by (subst push_loop.simps) (auto simp: Let_def) }
  { case 2 show ?case using "1.IH"(2) by (subst push_loop.simps) (auto simp: Let_def) }
  { case 3 show ?case using "1.IH"(3) by (subst push_loop.simps) (auto simp: Let_def) }
  { case 4 show ?case using "1.IH"(4) by (subst push_loop.simps) (auto simp: Let_def) }
  { case 5 show ?case using "1.IH"(5) by (subst push_loop.simps) (auto simp: Let_def) }
  { case 6 show ?case using "1.IH"(6) by (subst push_loop.simps) (auto simp: Let_def) }
qed

lemma push_loop_payload:
  "concat (map (\<lambda>(r, m). xPR_PushData.PayloadView m) (pushes (push_loop c D))) = D"
proof (induction c D rule: push_loop.induct)
  case (1 c D)
  show ?case using 1 by (subst push_loop.simps) (auto simp: Let_def xPR_PushData.defs)
qed

lemma push_loop_each:
  "(r, m) \<in> set (pushes (push_loop c D :: 'a action list)) \<Longrightarrow>
     r = RelayConnectionId c \<and> xPR_PushData.ProxySideConnectionId m = ConnectionId c \<and>
     xPR_PushData.RelaySideConnectionId m = RelaySideConn c \<and>
     xPR_PushData.PayloadView m \<noteq> [] \<and> length (xPR_PushData.PayloadView m) \<le> MAX_PAYLOAD_SIZE"
proof (induction c D arbitrary: r m rule: push_loop.induct)
  case (1 c D)
  show ?case
  proof (cases "D = []")
    case True
    with "1.prems" show ?thesis by (simp add: push_loop.simps)
  next
    case False
    let ?n = "min (length D) MAX_PAYLOAD_SIZE"
    have "(r, m) \<in> set (pushes (push_loop c (drop ?n D) :: 'a action list)) \<or> r = RelayConnectionId c \<and>
        m = xPR_PushData.make (ConnectionId c) (RelaySideConn c) (take ?n D)"
      using "1.prems" False by (subst (asm) push_loop.simps) (auto simp: Let_def)
    then show ?thesis using "1.IH" [OF False refl] False
      by (auto simp: xPR_PushData.defs MAX_PAYLOAD_SIZE_def min_def split: if_splits)
  qed
qed

definition payload_size :: "'a action list \<Rightarrow> nat" where
  "payload_size acts = sum_list (map (\<lambda>(r, m). length (xPR_PushData.PayloadView m)) (pushes acts))"

lemma payload_size_append [simp]: "payload_size (a @ b) = payload_size a + payload_size b"
  by (simp add: payload_size_def)

lemma payload_size_push_loop [simp]: "payload_size (push_loop c D) = length D"
  using arg_cong [OF push_loop_payload [of c D], of length]
  by (simp add: payload_size_def length_concat o_def case_prod_unfold)

lemma payload_size_no_push: "pushes acts = [] \<Longrightarrow> payload_size acts = 0"
  by (simp add: payload_size_def)


subsection \<open>Every handler is a step of the session\<close>

text \<open>
  What a handler may do: a step of the session that sends exactly the requests the step stands
  for, with the identities the connection holds, and keeps the byte counts.
\<close>

definition asks_ok ::
    "xPA_ClientConnection \<Rightarrow> conn_event \<Rightarrow> 'a action list \<Rightarrow> xPA_ClientConnection \<Rightarrow> bool" where
  "asks_ok c e acts c' \<longleftrightarrow>
     session_step (stage c) e (stage c') \<and>
     length (auth_requests acts) = of_bool (stage c = Negotiating \<and> stage c' = Authorizing) \<and>
     length (device_requests acts) = of_bool (stage c = Authorizing \<and> stage c' = Selecting) \<and>
     length (creations acts) = of_bool (stage c \<noteq> Connecting \<and> stage c' = Connecting) \<and>
     (pushes acts \<noteq> [] \<longrightarrow> stage c' = Established) \<and>
     (RemoveAccountCheck \<in> set acts \<longleftrightarrow> stage c = Authorizing \<and> stage c' = Selecting) \<and>
     (RemoveAccountCheck \<in> set acts \<longrightarrow> KeepAlive \<in> set acts)"

text \<open>The timestamps belong to the manager; no handler writes them.\<close>

definition stamps :: "xPA_ClientConnection \<Rightarrow> u64 list" where
  "stamps c = [CheckAccountTimestampMS c, LastDataExchangeTimestampMS c, LingerKillTimestamp c]"

definition ids_ok ::
    "xPA_ClientConnection \<Rightarrow> conn_event \<Rightarrow> 'a action list \<Rightarrow> xPA_ClientConnection \<Rightarrow> bool" where
  "ids_ok c e acts c' \<longleftrightarrow>
     ConnectionId c' = ConnectionId c \<and> stamps c' = stamps c \<and>
     (\<forall>(r, m) \<in> set (creations acts). r = RelayConnectionId c' \<and>
        xPR_CreateConnection.RelaySideDeviceId m = RelaySideDeviceId c' \<and>
        xPR_CreateConnection.ProxySideConnectionId m = ConnectionId c') \<and>
     (\<forall>(r, m) \<in> set (pushes acts). r = RelayConnectionId c' \<and>
        xPR_PushData.RelaySideConnectionId m = RelaySideConn c' \<and>
        xPR_PushData.ProxySideConnectionId m = ConnectionId c') \<and>
     (RelayConnectionId c' = RelayConnectionId c \<and> RelaySideDeviceId c' = RelaySideDeviceId c \<or>
        (\<exists>R. e = EvDevice R \<and> stage c = Selecting \<and> RelayConnectionId c' = RelayServerRuntimeId R \<and>
           RelaySideDeviceId c' = DeviceRelaySideId R)) \<and>
     (rank (stage c) < 3 \<and> 3 \<le> rank (stage c') \<longrightarrow>
        (\<exists>R. e = EvDevice R \<and> RelayConnectionId c' = RelayServerRuntimeId R \<and>
           RelaySideDeviceId c' = DeviceRelaySideId R)) \<and>
     (if stage c = Connecting \<and> stage c' = Established
      then \<exists>N. e = EvState N \<and> RelaySideConn c' = xPR_ConnectionStateNotify.RelaySideConnectionId N
      else RelaySideConn c' = RelaySideConn c)"

definition unreported_small :: "xPA_ClientConnection \<Rightarrow> bool" where
  "unreported_small c \<longleftrightarrow>
     TotalUploadDataSize c - TotalReportedUploadDataSize c < READ_OVERFLOW_SIZE \<and>
     TotalDumpedDataSize c - TotalReportedDumpedDataSize c < WRITE_OVERFLOW_SIZE"

fun dumped_size :: "conn_event \<Rightarrow> nat" where
  "dumped_size (EvPush p n) = n" | "dumped_size _ = 0"

definition counts_ok ::
    "xPA_ClientConnection \<Rightarrow> conn_event \<Rightarrow> 'a action list \<Rightarrow> xPA_ClientConnection \<Rightarrow> bool" where
  "counts_ok c e acts c' \<longleftrightarrow>
     TotalUploadDataSize c' = TotalUploadDataSize c + word_of_nat (payload_size acts) \<and>
     TotalDumpedDataSize c' = TotalDumpedDataSize c + word_of_nat (dumped_size e) \<and>
     (Kill \<notin> set acts \<longrightarrow> unreported_small c \<longrightarrow> unreported_small c') \<and>
     (\<forall>(r, m) \<in> set (reports acts). r = RelayConnectionId c' \<and>
        xPR_ConnectionStateNotify.NewState m = STATE_UPDATE_TRANSFER \<and>
        xPR_ConnectionStateNotify.TotalUploadedBytes m = TotalUploadDataSize c' \<and>
        xPR_ConnectionStateNotify.TotalDumpedBytes m = TotalDumpedDataSize c')"

definition step_ok ::
    "xPA_ClientConnection \<Rightarrow> conn_event \<Rightarrow> 'a action list \<Rightarrow> xPA_ClientConnection \<Rightarrow> bool" where
  "step_ok c e acts c' \<longleftrightarrow> asks_ok c e acts c' \<and> ids_ok c e acts c' \<and> counts_ok c e acts c'"

lemmas ok_defs = step_ok_def asks_ok_def ids_ok_def counts_ok_def session_step_simps

text \<open>Everything but the phase and the HTTP state.\<close>

definition core :: "xPA_ClientConnection \<Rightarrow> u64 list" where
  "core c = [ConnectionId c, RelayConnectionId c, RelaySideDeviceId c, RelaySideConn c,
     TotalUploadDataSize c, TotalDumpedDataSize c, TotalReportedUploadDataSize c,
     TotalReportedDumpedDataSize c] @ stamps c"

lemma core_simps [simp]:
  "core (c\<lparr>Phase := P\<rparr>) = core c" "core (set_target h p c) = core c"
  "core (append_header s c) = core c" "core (set_line s c) = core c"
  "core (c\<lparr>Http := h'\<rparr>) = core c"
  "Phase (set_target h p c) = Phase c" "Phase (append_header s c) = Phase c"
  "Phase (set_line s c) = Phase c"
  by (simp_all add: core_def stamps_def set_target_def append_header_def set_line_def)

lemma core_fields:
  assumes "core c' = core c"
  shows "ConnectionId c' = ConnectionId c" "RelayConnectionId c' = RelayConnectionId c"
    "RelaySideDeviceId c' = RelaySideDeviceId c" "RelaySideConn c' = RelaySideConn c"
    "TotalUploadDataSize c' = TotalUploadDataSize c" "TotalDumpedDataSize c' = TotalDumpedDataSize c"
    "unreported_small c' = unreported_small c" "stamps c' = stamps c"
  using assms by (simp_all add: core_def unreported_small_def)

lemma core_ok:
  assumes "core c' = core c" "creations acts = []" "pushes acts = []" "reports acts = []"
    and "dumped_size e = 0" "\<not> (rank (stage c) < 3 \<and> 3 \<le> rank (stage c'))"
    and "\<not> (stage c = Connecting \<and> stage c' = Established)"
  shows "ids_ok c e acts c' \<and> counts_ok c e acts c'"
  using assms core_fields [OF assms(1)]
  by (auto simp: ids_ok_def counts_ok_def payload_size_no_push)


text \<open>A step that only changes the phase within one stage and asks for nothing.\<close>

lemma quiet_step_ok:
  assumes "core c' = core c" "stage c' = stage c" "auth_requests acts = []" "device_requests acts = []"
    "creations acts = []" "pushes acts = []" "reports acts = []" "dumped_size e = 0"
    "RemoveAccountCheck \<notin> set acts"
  shows "step_ok c e acts c'"
  using core_ok [of c' c acts e] assms by (auto simp: step_ok_def asks_ok_def session_step_simps)

lemma finish_step_ok:
  assumes "core c' = core c" "session_step (stage c) e Finished" "stage c' = Finished"
    "stage c = Connecting \<or> stage c = Established" "auth_requests acts = []"
    "device_requests acts = []" "creations acts = []" "pushes acts = []" "reports acts = []"
    "dumped_size e = 0" "RemoveAccountCheck \<notin> set acts"
  shows "step_ok c e acts c'"
  using core_ok [of c' c acts e] assms by (auto simp: step_ok_def asks_ok_def)

lemma ask_step_ok:
  assumes "core c' = core c" "stage c = Negotiating" "stage c' = Authorizing"
    "acts = [RequestAuth np] \<or> acts = [RequestAuth np, SuspendReading]"
  shows "step_ok c (EvData D) acts c'"
  using core_ok [of c' c acts "EvData D"] assms
  by (auto simp: step_ok_def asks_ok_def session_step_simps)

subsubsection \<open>Challenge and authentication\<close>

lemma OnChallenge_step:
  assumes "Phase c = eUnknown" "OnChallenge c D = Some (u, acts, c')"
  shows "step_ok c (EvData D) acts c'"
proof -
  have "core c' = core c \<and> stage c' = Negotiating \<and>
      (acts = [] \<or> acts = [Kill] \<or> (\<exists>d. acts = [PostData d]) \<or> (\<exists>d. acts = [PostData d, Kill]))"
    using assms
    by (auto simp: OnChallenge_def OnS5Challenge_def OnHttpChallenge_def OnHttpConnect_def
        OnHttpPlain_def Let_def split: if_splits option.splits prod.splits)
  then show ?thesis using assms(1) by (auto intro!: quiet_step_ok)
qed

lemma OnS5ClientAuth_step:
  assumes "Phase c = eS5WaitForAuthInfo" "OnS5ClientAuth env c D = (u, acts, c')"
  shows "step_ok c (EvData D) acts c'"
proof -
  have "acts = [] \<and> c' = c \<or> (\<exists>np. acts = [RequestAuth np] \<and> c' = c\<lparr>Phase := eS5WaitForAccountExchange\<rparr>)"
    using assms(2) by (auto simp: OnS5ClientAuth_def Let_def split: if_splits)
  then show ?thesis using assms(1) by (auto intro: quiet_step_ok ask_step_ok)
qed

definition may_open :: "eProxyPhase \<Rightarrow> bool" where
  "may_open P \<longleftrightarrow> P = eS5WaitForConnectionRequest \<or> P = eHttpRawWaitForDeviceSelection \<or>
     P = eHttpNormalWaitForDeviceSelection"

lemma OnOpenRemoteConnection_cases:
  assumes "OnOpenRemoteConnection env A h c = (acts, c')" "may_open (Phase c)"
  obtains "acts = []" "c' = c"
  | m P where "acts = [RelayCreate (RelayConnectionId c) m]" "c' = c\<lparr>Phase := P\<rparr>"
      "stage_of P = Connecting" "xPR_CreateConnection.RelaySideDeviceId m = RelaySideDeviceId c"
      "xPR_CreateConnection.ProxySideConnectionId m = ConnectionId c"
proof (cases "relay_up env (RelayConnectionId c)")
  case True
  let ?P = "if Phase c = eS5WaitForConnectionRequest then eS5WaitForConnectionEstablish
    else if Phase c = eHttpRawWaitForDeviceSelection then eHttpRawWaitForConnectionEstablish
    else eHttpNormalWaitForConnectionEstablish"
  from True show ?thesis using assms that(2) [where P = ?P]
    by (auto simp: OnOpenRemoteConnection_def may_open_def xPR_CreateConnection.defs split: if_splits)
next
  case False
  then show ?thesis using assms that(1) by (simp add: OnOpenRemoteConnection_def)
qed

lemma OnS5ConnectionRequest_cases:
  assumes "OnS5ConnectionRequest env c D = (u, acts, c')"
  obtains "acts = [Kill] \<or> acts = [] \<or> (\<exists>x. acts = [PostData x, LingerKill])" "c' = c"
  | A h where "OnOpenRemoteConnection env A h c = (acts, c')"
  using assms
  by (auto simp: OnS5ConnectionRequest_def Let_def split: if_splits option.splits prod.splits)

lemma create_step_ok:
  assumes "acts = [RelayCreate (RelayConnectionId c') m]" "stage c' = Connecting"
    "xPR_CreateConnection.RelaySideDeviceId m = RelaySideDeviceId c'"
    "xPR_CreateConnection.ProxySideConnectionId m = ConnectionId c'"
    "stage c = Selecting \<and> e = EvDevice R \<and> core c' = core (use_device R c) \<or>
     stage c = Selected \<and> e = EvData D \<and> core c' = core c"
  shows "step_ok c e acts c'"
  using assms
  by (auto simp: step_ok_def asks_ok_def ids_ok_def counts_ok_def session_step_simps core_def use_device_def stamps_def
      unreported_small_def payload_size_no_push)

lemma OnS5ConnectionRequest_step:
  assumes "Phase c = eS5WaitForConnectionRequest" "OnS5ConnectionRequest env c D = (u, acts, c')"
  shows "step_ok c (EvData D) acts c'"
  using assms(2)
proof (cases rule: OnS5ConnectionRequest_cases)
  case 1
  then show ?thesis by (auto intro!: quiet_step_ok)
next
  case (2 A h)
  moreover have "may_open (Phase c)" using assms(1) by (simp add: may_open_def)
  ultimately show ?thesis
    by (rule OnOpenRemoteConnection_cases)
      (use assms(1) in \<open>auto intro: quiet_step_ok create_step_ok\<close>)
qed

lemma open_target_step:
  assumes "Phase c = eHttpRawWaitForDeviceSelection \<or> Phase c = eHttpNormalWaitForDeviceSelection"
    and "open_target env (use_device R c) = (acts, c')"
  shows "step_ok c (EvDevice R) acts c'"
proof -
  have "may_open (Phase (use_device R c))" using assms(1) by (auto simp: use_device_def may_open_def)
  from OnOpenRemoteConnection_cases [OF assms(2) [unfolded open_target_def] this] show ?thesis
  proof cases
    case 1
    then show ?thesis using assms(1)
      by (auto simp: step_ok_def asks_ok_def ids_ok_def counts_ok_def session_step_simps
          use_device_def stamps_def unreported_small_def payload_size_no_push)
  next
    case (2 m P)
    then show ?thesis using assms(1) by (intro create_step_ok [of _ _ m]) (auto simp: use_device_def)
  qed
qed


subsubsection \<open>Headers\<close>

definition quiet :: "'a action list \<Rightarrow> bool" where
  "quiet acts \<longleftrightarrow> acts = [] \<or> acts = [Kill] \<or> acts = [Post407, LingerKill]"

lemma quiet_requests:
  "quiet acts \<Longrightarrow> auth_requests acts = [] \<and> device_requests acts = [] \<and> creations acts = [] \<and>
     pushes acts = [] \<and> reports acts = [] \<and> RemoveAccountCheck \<notin> set acts"
  by (auto simp: quiet_def Post407_def)

lemma raw_headers_result:
  assumes "raw_headers env c V NP n = Some (u, acts, c')"
  shows "quiet acts \<and> c' = c \<or>
    (\<exists>np. acts = [RequestAuth np, SuspendReading] \<and> c' = c\<lparr>Phase := eHttpRawWaitForAccountExchange\<rparr>)"
  using assms
proof (induction env c V NP n rule: raw_headers.induct)
  case (1 env c V NP n)
  show ?case
  proof (cases "find_crlf V")
    case None
    with "1.prems" show ?thesis by (simp add: raw_headers.simps [of env c V] quiet_def)
  next
    case (Some l)
    show ?thesis
    proof (cases l)
      case 0
      with "1.prems" Some show ?thesis
        by (auto simp: raw_headers.simps [of env c V] quiet_def split: if_splits)
    next
      case (Suc k)
      show ?thesis
      proof (cases "21 < Suc k \<and> starts_nocase ''Proxy-Authorization: '' V")
        case True
        then show ?thesis
          using "1.prems" Some Suc "1.IH"(1) [OF Some Suc refl refl True]
          by (auto simp: raw_headers.simps [of env c V] quiet_def split: option.splits)
      next
        case False
        then show ?thesis using "1.prems" Some Suc "1.IH"(2) [OF Some Suc refl refl False]
          by (simp only: raw_headers.simps [of env c V] option.case nat.case Let_def if_False)
      qed
    qed
  qed
qed


lemma OnHttpRawChallenge_step:
  assumes "Phase c = eHttpRawChallenge" "OnHttpRawChallenge env c D = Some (u, acts, c')"
  shows "step_ok c (EvData D) acts c'"
  using raw_headers_result [OF assms(2) [unfolded OnHttpRawChallenge_def]] assms(1)
    quiet_requests [of acts]
  by (auto intro: quiet_step_ok ask_step_ok)

lemma normal_line_result:
  "normal_line env Line n c = Some (Some c') \<Longrightarrow> Phase c' = Phase c \<and> core c' = core c"
  by (auto simp: normal_line_def split: if_splits option.splits)

lemma normal_headers_result:
  assumes "normal_headers env N c V n = Some (u, acts, c')"
  shows "core c' = core c \<and> (quiet acts \<and> Phase c' = Phase c \<or>
    (\<exists>np. acts = [RequestAuth np, SuspendReading] \<and> Phase c' = eHttpNormalWaitForAccountExchange))"
  using assms
proof (induction env N c V n rule: normal_headers.induct)
  case (1 env N c V n)
  let ?Line = "HttpHeaderLine (Http c)"
  show ?case
  proof (cases "find_crlf V")
    case None
    with "1.prems" show ?thesis by (auto simp: normal_headers.simps [of env N c V] quiet_def)
  next
    case (Some l)
    show ?thesis
    proof (cases "l = 0 \<and> ?Line = []")
      case True
      with "1.prems" Some show ?thesis
        by (auto simp: normal_headers.simps [of env N c V] normal_done_def quiet_def Let_def split: if_splits)
    next
      case False
      let ?r = "normal_line env (?Line @ take l V) l (set_line (?Line @ take l V) c)"
      show ?thesis
      proof (cases "\<exists>c2. ?r = Some (Some c2)")
        case True
        then obtain c2 where c2: "?r = Some (Some c2)" by blast
        have "Phase c2 = Phase c" "core c2 = core c"
          using normal_line_result [OF c2] by simp_all
        moreover have "normal_headers env N (set_line [] c2) (drop (l + 2) V) (n + l + 2) = Some (u, acts, c')"
          using "1.prems" Some False c2 by (simp add: normal_headers.simps [of env N c V] Let_def)
        ultimately show ?thesis using "1.IH" [OF refl Some False c2 refl] by simp
      next
        case no: False
        then show ?thesis using "1.prems" Some False
          by (auto simp: normal_headers.simps [of env N c V] quiet_def Let_def split: option.splits)
      qed
    qed
  qed
qed

lemma OnHttpNormalChallenge_step:
  assumes "Phase c = eHttpNormalChallenge" "OnHttpNormalChallenge env c D = Some (u, acts, c')"
  shows "step_ok c (EvData D) acts c'"
  using normal_headers_result [OF assms(2) [unfolded OnHttpNormalChallenge_def]] assms(1)
    quiet_requests [of acts]
  by (auto intro: quiet_step_ok ask_step_ok)

subsubsection \<open>Data transfer\<close>

lemma TryUpdate_cases:
  assumes "TryUpdateDataTransferSize env u d c = (acts, c')"
  shows "Phase c' = Phase c" "ConnectionId c' = ConnectionId c" "stamps c' = stamps c"
    "RelayConnectionId c' = RelayConnectionId c" "RelaySideDeviceId c' = RelaySideDeviceId c"
    "RelaySideConn c' = RelaySideConn c" "TotalUploadDataSize c' = TotalUploadDataSize c + u"
    "TotalDumpedDataSize c' = TotalDumpedDataSize c + d"
    "auth_requests acts = []" "device_requests acts = []" "creations acts = []" "pushes acts = []"
    "RemoveAccountCheck \<notin> set acts"
    "Kill \<notin> set acts \<Longrightarrow> unreported_small c'"
    "(r, m) \<in> set (reports acts) \<Longrightarrow> r = RelayConnectionId c' \<and>
       xPR_ConnectionStateNotify.NewState m = STATE_UPDATE_TRANSFER \<and>
       xPR_ConnectionStateNotify.TotalUploadedBytes m = TotalUploadDataSize c' \<and>
       xPR_ConnectionStateNotify.TotalDumpedBytes m = TotalDumpedDataSize c'"
  using assms
  by (auto simp: TryUpdateDataTransferSize_def Let_def unreported_small_def stamps_def READ_OVERFLOW_SIZE_def
      WRITE_OVERFLOW_SIZE_def xPR_ConnectionStateNotify.defs split: if_splits)

lemma OnUploadData_step:
  assumes "OnUploadData env c D = (u, acts, c')" "stage c = Established"
  shows "step_ok c (EvData D') acts c'"
proof (cases "relay_up env (RelayConnectionId c)")
  case False
  then show ?thesis using assms by (auto simp: OnUploadData_def intro: quiet_step_ok)
next
  case True
  obtain as c2 where t: "TryUpdateDataTransferSize env (word_of_nat (length D)) 0 c = (as, c2)"
    by fastforce
  then have r: "acts = push_loop c D @ as @ [KeepAlive]" "c' = c2"
    using assms(1) True by (auto simp: OnUploadData_def)
  show ?thesis unfolding r
    using TryUpdate_cases [OF t] assms(2) push_loop_each [of _ _ c D]
    by (auto simp: step_ok_def asks_ok_def ids_ok_def counts_ok_def session_step_simps payload_size_no_push)
qed

lemma OnRelaySidePushData_step:
  assumes "OnRelaySidePushData env c P n = (acts, c')"
  shows "step_ok c (EvPush P n) acts c'"
proof -
  obtain as c2 where t: "TryUpdateDataTransferSize env 0 (word_of_nat n) c = (as, c2)" by fastforce
  then have r: "acts = [KeepAlive, PostData (xPR_PushData.PayloadView P)] @ as" "c' = c2"
    using assms by (auto simp: OnRelaySidePushData_def)
  show ?thesis unfolding r using TryUpdate_cases [OF t]
    by (auto simp: step_ok_def asks_ok_def ids_ok_def counts_ok_def session_step_simps payload_size_no_push)
qed

subsubsection \<open>All handlers\<close>

lemma OnData_step:
  assumes "OnData env c D = Some (u, acts, c')"
  shows "step_ok c (EvData D) acts c'"
  using assms
  by (cases "Phase c")
    (auto simp: OnData_def upload_defs intro: OnChallenge_step OnS5ClientAuth_step
      OnS5ConnectionRequest_step OnHttpRawChallenge_step OnHttpNormalChallenge_step
      OnUploadData_step quiet_step_ok)

lemma OnPeerClose_step: "OnPeerClose c = (acts, c') \<Longrightarrow> step_ok c EvPeerClose acts c'"
  by (auto simp: OnPeerClose_def session_step_simps intro: quiet_step_ok finish_step_ok split: if_splits)

lemma auth_ok_step:
  assumes "auth_ok P c R = (acts, c')" "stage c = Authorizing" "stage_of P = Selecting"
  shows "step_ok c (EvAuth (Some R)) acts c'"
  using assms
  by (auto simp: auth_ok_def step_ok_def asks_ok_def ids_ok_def counts_ok_def session_step_simps
      payload_size_no_push unreported_small_def stamps_def)

lemma OnAuthResult_step: "OnAuthResult c PR = (acts, c') \<Longrightarrow> step_ok c (EvAuth PR) acts c'"
  by (cases "Phase c"; cases PR)
    (auto simp: OnAuthResult_def OnS5ClientAuthFinished_def OnHttpRawAuthFinished_def
      OnHttpNormalAuthFinished_def Post407_def intro: quiet_step_ok auth_ok_step)

lemma s5_device_step:
  assumes "Phase c = eS5WaitForDeviceSelection" "DeviceRelaySideId R \<noteq> 0"
  shows "step_ok c (EvDevice R) [PostData d] ((use_device R c)\<lparr>Phase := eS5WaitForConnectionRequest\<rparr>)"
  using assms
  by (auto simp: use_device_def step_ok_def asks_ok_def ids_ok_def counts_ok_def session_step_simps
      payload_size_no_push unreported_small_def stamps_def)

lemma OnDeviceSelected_step:
  "OnDeviceSelected env c R = (acts, c') \<Longrightarrow> step_ok c (EvDevice R) acts c'"
  by (cases "Phase c")
    (auto simp: OnDeviceSelected_def intro: quiet_step_ok open_target_step s5_device_step split: if_splits)

lemma close_conn_step:
  "close_conn env P c = (acts, c') \<Longrightarrow> session_step (stage c) e Finished \<Longrightarrow> stage_of P = Finished \<Longrightarrow>
     stage c = Connecting \<or> stage c = Established \<Longrightarrow> dumped_size e = 0 \<Longrightarrow> step_ok c e acts c'"
  by (auto simp: close_conn_def intro!: finish_step_ok split: if_splits)

lemma OnDestroyConnection_step:
  "OnDestroyConnection env c = Some (acts, c') \<Longrightarrow> step_ok c EvDestroy acts c'"
  by (cases "Phase c")
    (auto simp: OnDestroyConnection_def post_literal_def session_step_simps
      intro: quiet_step_ok finish_step_ok close_conn_step split: if_splits)

lemma establish_step:
  assumes "stage c = Connecting" "stage_of P = Established"
    "xPR_ConnectionStateNotify.NewState N = STATE_ESTABLISHED"
    "i = xPR_ConnectionStateNotify.RelaySideConnectionId N"
    "acts = [PostData d] \<or> acts = [ResumeReading, PostData d]"
  shows "step_ok c (EvState N) acts (establish i P c)"
  using assms
  by (auto simp: establish_def step_ok_def asks_ok_def ids_ok_def counts_ok_def session_step_simps
      payload_size_no_push unreported_small_def stamps_def)

text \<open>The plain HTTP connection becomes ready and uploads the rebuilt header at once.\<close>

lemma establish_upload_step:
  assumes "stage c = Connecting" "xPR_ConnectionStateNotify.NewState N = STATE_ESTABLISHED"
    "c1 = establish (xPR_ConnectionStateNotify.RelaySideConnectionId N) eHttpNormalReady c"
    "OnUploadData env c1 D = (u, acts, c2)"
  shows "step_ok c (EvState N) (ResumeReading # acts) c2"
proof -
  have "stage c1 = Established" using assms(3) by (simp add: establish_def)
  from OnUploadData_step [OF assms(4) this, of D] have s: "step_ok c1 (EvData D) acts c2" .
  have same: "Phase c2 = eHttpNormalReady"
    using assms(3,4) by (auto simp: OnUploadData_def establish_def dest: TryUpdate_cases(1) split: if_splits prod.splits)
  have f: "payload_size (ResumeReading # acts) = payload_size acts" by (simp add: payload_size_def)
  have c1: "ConnectionId c1 = ConnectionId c" "stamps c1 = stamps c" "RelayConnectionId c1 = RelayConnectionId c"
    "RelaySideDeviceId c1 = RelaySideDeviceId c" "TotalUploadDataSize c1 = TotalUploadDataSize c"
    "TotalDumpedDataSize c1 = TotalDumpedDataSize c" "unreported_small c1 = unreported_small c"
    "RelaySideConn c1 = xPR_ConnectionStateNotify.RelaySideConnectionId N" "stage c1 = Established"
    using assms(3) by (simp_all add: establish_def unreported_small_def stamps_def)
  show ?thesis using s assms(1,2) c1 same f
    unfolding step_ok_def asks_ok_def ids_ok_def counts_ok_def
    by (auto simp: session_step_simps)
qed

lemma OnRelaySideConnectionStateChange_step:
  assumes "OnRelaySideConnectionStateChange env c N = Some (acts, c')"
  shows "step_ok c (EvState N) acts c'"
  using assms
  by (cases "Phase c")
    (auto simp: OnRelaySideConnectionStateChange_def Let_def post_literal_def upload_defs
      session_step_simps intro: quiet_step_ok establish_step establish_upload_step close_conn_step
      split: if_splits prod.splits)

lemma handle_step: "handle env c e = Some (acts, c') \<Longrightarrow> step_ok c e acts c'"
  by (cases e)
    (auto simp: handle_def intro: OnData_step OnPeerClose_step OnAuthResult_step OnDeviceSelected_step
      OnRelaySideConnectionStateChange_step OnDestroyConnection_step OnRelaySidePushData_step)


subsection \<open>Runs of a session\<close>

text \<open>
  The interface between one connection and its runs: a step function all of whose steps are steps
  of the abstract session. What holds in every run is proved for any such function.
\<close>

locale client_session =
  fixes step :: "'a pa_env \<Rightarrow> xPA_ClientConnection \<Rightarrow> conn_event \<Rightarrow>
    ('a action list \<times> xPA_ClientConnection) option"
  assumes step_ok: "step env c e = Some (acts, c') \<Longrightarrow> step_ok c e acts c'"
begin

text \<open>How many requests a run has made is a function of the stage it has reached.\<close>

lemma request_counts:
  assumes "session_trace step i tr c"
  shows "length (auth_requests (concat (map snd tr))) = of_bool (1 \<le> rank (stage c)) \<and>
    length (device_requests (concat (map snd tr))) = of_bool (2 \<le> rank (stage c)) \<and>
    length (creations (concat (map snd tr))) = of_bool (4 \<le> rank (stage c))"
  using assms
proof (induction rule: session_trace.induct)
  case start
  then show ?case by (simp add: fresh_connection_def)
next
  case (go tr c env e acts c')
  from step_ok [OF go(2)] have a: "asks_ok c e acts c'" by (simp add: step_ok_def)
  then have "session_step (stage c) e (stage c')" by (simp add: asks_ok_def)
  then show ?case by cases (use go(3) a in \<open>simp_all add: asks_ok_def\<close>)
qed

lemma trace_id: "session_trace step i tr c \<Longrightarrow> ConnectionId c = i"
proof (induction rule: session_trace.induct)
  case (go tr c env e acts c')
  with step_ok [OF go(2)] show ?case by (simp add: step_ok_def ids_ok_def)
qed simp

text \<open>What a run must have seen to be where it is.\<close>

definition justified :: "conn_event set \<Rightarrow> xPA_ClientConnection \<Rightarrow> bool" where
  "justified E c \<longleftrightarrow>
     (2 \<le> rank (stage c) \<longrightarrow> (\<exists>R. EvAuth (Some R) \<in> E)) \<and>
     (3 \<le> rank (stage c) \<longrightarrow> (\<exists>R. EvDevice R \<in> E \<and>
        RelayConnectionId c = RelayServerRuntimeId R \<and> RelaySideDeviceId c = DeviceRelaySideId R)) \<and>
     (stage c = Established \<longrightarrow> (\<exists>N. EvState N \<in> E \<and>
        xPR_ConnectionStateNotify.NewState N = STATE_ESTABLISHED \<and>
        RelaySideConn c = xPR_ConnectionStateNotify.RelaySideConnectionId N))"

lemma justified_step:
  assumes "justified E c" "step_ok c e acts c'"
  shows "justified (insert e E) c'"
proof -
  have st: "session_step (stage c) e (stage c')" and ids: "ids_ok c e acts c'"
    using assms(2) by (simp_all add: step_ok_def asks_ok_def)
  have "\<exists>R. EvAuth (Some R) \<in> insert e E" if "2 \<le> rank (stage c')"
    using st
  proof cases
    case authorized
    then show ?thesis by blast
  qed (use that assms(1) in \<open>auto simp: justified_def\<close>)
  moreover have "\<exists>R. EvDevice R \<in> insert e E \<and> RelayConnectionId c' = RelayServerRuntimeId R \<and>
      RelaySideDeviceId c' = DeviceRelaySideId R" if "3 \<le> rank (stage c')"
  proof (cases "3 \<le> rank (stage c)")
    case True
    then have "stage c \<noteq> Selecting" by auto
    then have "RelayConnectionId c' = RelayConnectionId c \<and> RelaySideDeviceId c' = RelaySideDeviceId c"
      using ids unfolding ids_ok_def by blast
    moreover obtain R where "EvDevice R \<in> E" "RelayConnectionId c = RelayServerRuntimeId R"
      "RelaySideDeviceId c = DeviceRelaySideId R"
      using True assms(1) unfolding justified_def by blast
    ultimately show ?thesis by auto
  next
    case False
    then have "\<exists>R. e = EvDevice R \<and> RelayConnectionId c' = RelayServerRuntimeId R \<and>
        RelaySideDeviceId c' = DeviceRelaySideId R"
      using ids that by (simp add: ids_ok_def)
    then show ?thesis by blast
  qed
  moreover have "\<exists>N. EvState N \<in> insert e E \<and> xPR_ConnectionStateNotify.NewState N = STATE_ESTABLISHED \<and>
      RelaySideConn c' = xPR_ConnectionStateNotify.RelaySideConnectionId N" if "stage c' = Established"
    using st
  proof cases
    case stay
    then have "RelaySideConn c' = RelaySideConn c" "stage c = Established"
      using ids that by (auto simp: ids_ok_def)
    moreover obtain N where "EvState N \<in> E"
      "xPR_ConnectionStateNotify.NewState N = STATE_ESTABLISHED"
      "RelaySideConn c = xPR_ConnectionStateNotify.RelaySideConnectionId N"
      using calculation assms(1) unfolding justified_def by blast
    ultimately show ?thesis by auto
  next
    case (established N)
    then have "RelaySideConn c' = xPR_ConnectionStateNotify.RelaySideConnectionId N"
      using ids by (auto simp: ids_ok_def)
    with established show ?thesis by blast
  qed (use that in auto)
  ultimately show ?thesis by (simp add: justified_def)
qed

lemma trace_justified: "session_trace step i tr c \<Longrightarrow> justified (fst ` set tr) c"
proof (induction rule: session_trace.induct)
  case start
  show ?case by (simp add: justified_def fresh_connection_def)
next
  case (go tr c env e acts c')
  then show ?case using justified_step [OF go(3) step_ok [OF go(2)]] by simp
qed

text \<open>The byte counts of a connection.\<close>

lemma trace_totals:
  assumes "session_trace step i tr c"
  shows "TotalUploadDataSize c = word_of_nat (payload_size (concat (map snd tr))) \<and>
    TotalDumpedDataSize c = word_of_nat (sum_list (map (dumped_size \<circ> fst) tr))"
  using assms
proof (induction rule: session_trace.induct)
  case start
  show ?case by (simp add: fresh_connection_def payload_size_def)
next
  case (go tr c env e acts c')
  from step_ok [OF go(2)] have "counts_ok c e acts c'" by (simp add: step_ok_def)
  then show ?case using go(3) by (simp add: counts_ok_def)
qed

lemma trace_reported:
  assumes "session_trace step i tr c"
  shows "(\<forall>(e, acts) \<in> set tr. Kill \<notin> set acts) \<longrightarrow> unreported_small c"
  using assms
proof (induction rule: session_trace.induct)
  case start
  show ?case by (simp add: fresh_connection_def unreported_small_def READ_OVERFLOW_SIZE_def WRITE_OVERFLOW_SIZE_def)
next
  case (go tr c env e acts c')
  from step_ok [OF go(2)] have "counts_ok c e acts c'" by (simp add: step_ok_def)
  then show ?case using go(3) by (auto simp: counts_ok_def)
qed

end

interpretation session: client_session handle
  by unfold_locales (rule handle_step)


subsection \<open>Running a list of events\<close>

fun run_events ::
    "'a pa_env \<Rightarrow> xPA_ClientConnection \<Rightarrow> conn_event list \<Rightarrow> ('a trace \<times> xPA_ClientConnection) option" where
  "run_events env c [] = Some ([], c)"
| "run_events env c (e # es) =
     (case handle env c e of None \<Rightarrow> None
      | Some (acts, c') \<Rightarrow> map_option (\<lambda>(tr, d). ((e, acts) # tr, d)) (run_events env c' es))"

lemma run_events_trace:
  assumes "session_trace handle i tr c" "run_events env c es = Some (tr', d)"
  shows "session_trace handle i (tr @ tr') d"
  using assms
proof (induction env c es arbitrary: tr tr' rule: run_events.induct)
  case (2 env c e es)
  obtain acts c' tr2 where h: "handle env c e = Some (acts, c')" "run_events env c' es = Some (tr2, d)"
    "tr' = (e, acts) # tr2"
    using "2.prems"(2) by (auto split: option.splits)
  have "session_trace handle i (tr @ [(e, acts)]) c'" by (rule session_trace.go [OF "2.prems"(1) h(1)])
  from "2.IH" [OF h(1) refl this h(2)] h(3) show ?case by simp
qed simp

lemma run_events_map_fst: "run_events env c es = Some (tr, d) \<Longrightarrow> map fst tr = es"
proof (induction env c es arbitrary: tr rule: run_events.induct)
  case (2 env c e es)
  obtain acts c' tr2 where h: "handle env c e = Some (acts, c')" "run_events env c' es = Some (tr2, d)"
    "tr = (e, acts) # tr2"
    using "2.prems" by (auto split: option.splits)
  with "2.IH" [OF h(1) refl h(2)] show ?case by simp
qed simp

definition demo_env :: "ref_addr pa_env" where
  "demo_env = \<lparr>relay_up = (\<lambda>i. i = 7), pending_writes = (\<lambda>_. False), remote_ip = (\<lambda>_. [49]),
     base64_decode = (\<lambda>s. s), parse_host = (\<lambda>h p. RefNone p),
     addr_v4 = (\<lambda>b p. RefV4 (ucast (b ! 0)) p), addr_v6 = (\<lambda>b p. RefV6 0 0 p),
     addr_port_only = RefNone, addr_port = (\<lambda>a. case a of RefNone p \<Rightarrow> p | RefV4 x p \<Rightarrow> p | RefV6 h l p \<Rightarrow> p),
     read_r2 = (\<lambda>h l. push_bit 8 (ucast h) + ucast l)\<rparr>"

definition demo_auth :: xPA_AuthResult where
  "demo_auth = \<lparr>CountryId = 1, StateId = 2, CityId = 3, IsBlocked = False, RequireIpv6 = False,
     RequireUdp = False, RequireRemoteDns = False, AutoChangeIp = False, Ready = True\<rparr>"

definition demo_events :: "conn_event list" where
  "demo_events = [EvData [5, 1, 2], EvData [1, 1, 97, 1, 98], EvAuth (Some demo_auth),
     EvDevice \<lparr>RespClientConnectionId = 4, RelayServerRuntimeId = 7, DeviceRelaySideId = 9\<rparr>,
     EvData [5, 1, 0, 1, 1, 2, 3, 4, 0, 80],
     EvState (xPR_ConnectionStateNotify.make 4 11 STATE_ESTABLISHED 0 0), EvData [1, 2, 3]]"

definition demo_conn :: xPA_ClientConnection where
  "demo_conn = fresh_connection\<lparr>ConnectionId := 4\<rparr>"

definition demo_run :: "nat \<Rightarrow> ref_addr trace \<times> xPA_ClientConnection" where
  "demo_run n = the (run_events demo_env demo_conn (take n demo_events))"

lemma demo_run_eq:
  "run_events demo_env demo_conn (take 4 demo_events) = Some (demo_run 4)"
  "run_events demo_env demo_conn (take 7 demo_events) = Some (demo_run 7)"
proof -
  have "run_events demo_env demo_conn (take 4 demo_events) \<noteq> None" by code_simp
  then show "run_events demo_env demo_conn (take 4 demo_events) = Some (demo_run 4)"
    by (auto simp: demo_run_def)
  have "run_events demo_env demo_conn (take 7 demo_events) \<noteq> None" by code_simp
  then show "run_events demo_env demo_conn (take 7 demo_events) = Some (demo_run 7)"
    by (auto simp: demo_run_def)
qed

lemma demo_trace:
  "session_trace handle 4 (fst (demo_run 4)) (snd (demo_run 4))"
  "session_trace handle 4 (fst (demo_run 7)) (snd (demo_run 7))"
  using run_events_trace [OF session_trace.start, of demo_env 4] demo_run_eq [unfolded demo_conn_def]
  by (metis append_Nil prod.collapse)+

lemma demo_events_length: "length demo_events = 7"
  by (simp add: demo_events_def)

lemma demo_trace_events:
  "map fst (fst (demo_run 4)) = take 4 demo_events" "map fst (fst (demo_run 7)) = demo_events"
  using run_events_map_fst [of demo_env demo_conn "take 4 demo_events" "fst (demo_run 4)" "snd (demo_run 4)"]
    run_events_map_fst [of demo_env demo_conn "take 7 demo_events" "fst (demo_run 7)" "snd (demo_run 7)"]
  by (simp_all only: demo_run_eq prod.collapse) (simp add: demo_events_length)

subsection \<open>Properties\<close>

text \<open>
  C20: every handler of the client connection implements one step of the abstract session, and asks
  the other servers for exactly what that step stands for: one authentication when the connection
  leaves negotiation, one device when it is authorized, one relay connection when it starts to
  connect, and data only when it is established.
\<close>

theorem handlers_refine_session:
  assumes "handle env c e = Some (acts, c')"
  shows "session_step (stage c) e (stage c') \<and>
    length (auth_requests acts) = of_bool (stage c = Negotiating \<and> stage c' = Authorizing) \<and>
    length (device_requests acts) = of_bool (stage c = Authorizing \<and> stage c' = Selecting) \<and>
    length (creations acts) = of_bool (stage c \<noteq> Connecting \<and> stage c' = Connecting) \<and>
    (pushes acts \<noteq> [] \<longrightarrow> stage c' = Established)"
  using session.step_ok [OF assms] by (simp add: step_ok_def asks_ok_def)

theorem handlers_refine_session_witness:
  "session_step Negotiating (EvData [1, 1, 97, 1, 98]) Authorizing"
proof -
  let ?c = "demo_conn\<lparr>Phase := eS5WaitForAuthInfo\<rparr>" and ?e = "EvData [1, 1, 97, 1, 98]"
  have "handle demo_env ?c ?e =
      Some ([RequestAuth [97, 58, 98]], ?c\<lparr>Phase := eS5WaitForAccountExchange\<rparr>)"
    by (simp add: handle_def OnData_def OnS5ClientAuth_def numeral_eq_Suc)
  from handlers_refine_session [OF this] show ?thesis by simp
qed

text \<open>
  C3: in every run of a connection, whatever the client and the other servers send and in whatever
  order, a relay connection is only asked for after a positive authentication result and a device
  selection, from the relay and for the device that were selected; a device is only asked for after
  a positive authentication result.
\<close>

theorem no_relay_before_auth:
  assumes "session_trace handle i (tr @ [(e, acts)]) c" "(r, m) \<in> set (creations acts)"
  shows "(\<exists>R. EvAuth (Some R) \<in> fst ` set tr) \<and>
    (\<exists>D. EvDevice D \<in> insert e (fst ` set tr) \<and> r = RelayServerRuntimeId D \<and>
       xPR_CreateConnection.RelaySideDeviceId m = DeviceRelaySideId D) \<and>
    xPR_CreateConnection.ProxySideConnectionId m = i"
proof -
  from assms(1) obtain c0 env where c0: "session_trace handle i tr c0" "handle env c0 e = Some (acts, c)"
    by (cases rule: session_trace.cases) auto
  have ok: "asks_ok c0 e acts c" "ids_ok c0 e acts c"
    using session.step_ok [OF c0(2)] by (simp_all add: step_ok_def)
  have "stage c0 \<noteq> Connecting" "stage c = Connecting" and st: "session_step (stage c0) e (stage c)"
    using ok(1) assms(2) by (auto simp: asks_ok_def)
  then have up: "2 \<le> rank (stage c0)" "3 \<le> rank (stage c)"
    by (auto elim!: session_step.cases)
  moreover have "r = RelayConnectionId c" "xPR_CreateConnection.RelaySideDeviceId m = RelaySideDeviceId c"
    "xPR_CreateConnection.ProxySideConnectionId m = ConnectionId c"
    using ok(2) assms(2) by (auto simp: ids_ok_def)
  ultimately show ?thesis
    using session.trace_justified [OF c0(1)] session.trace_justified [OF assms(1)]
      session.trace_id [OF assms(1)]
    by (simp add: session.justified_def)
qed

definition demo_request :: conn_event where
  "demo_request = EvData [5, 1, 0, 1, 1, 2, 3, 4, 0, 80]"

theorem no_relay_before_auth_witness:
  "\<exists>D. EvDevice D \<in> insert demo_request (set (take 4 demo_events)) \<and> RelayServerRuntimeId D = 7 \<and>
     DeviceRelaySideId D = 9"
proof -
  let ?m = "xPR_CreateConnection.make 9 4 (RefV4 1 80) [] 80"
  obtain c where "handle demo_env (snd (demo_run 4)) demo_request = Some ([RelayCreate 7 ?m], c)"
  proof (rule that)
    show "handle demo_env (snd (demo_run 4)) demo_request =
        Some ([RelayCreate 7 ?m], (snd (demo_run 4))\<lparr>Phase := eS5WaitForConnectionEstablish\<rparr>)"
      by code_simp
  qed
  from no_relay_before_auth [OF session_trace.go [OF demo_trace(1) this], of 7 ?m]
  have "\<exists>D. EvDevice D \<in> insert demo_request (fst ` set (fst (demo_run 4))) \<and>
      7 = RelayServerRuntimeId D \<and> xPR_CreateConnection.RelaySideDeviceId ?m = DeviceRelaySideId D"
    by (simp add: creations_def)
  then show ?thesis
    using demo_trace_events(1) by (auto simp: xPR_CreateConnection.defs simp flip: list.set_map)
qed

text \<open>
  in every run of a connection, at most one authentication, one device and one relay connection
  are asked for, and how many have been is determined by the stage the connection has reached.
\<close>

theorem one_request_of_each_kind:
  assumes "session_trace handle i tr c"
  shows "length (auth_requests (concat (map snd tr))) = of_bool (1 \<le> rank (stage c)) \<and>
    length (device_requests (concat (map snd tr))) = of_bool (2 \<le> rank (stage c)) \<and>
    length (creations (concat (map snd tr))) = of_bool (4 \<le> rank (stage c))"
  by (rule session.request_counts [OF assms])

theorem one_request_of_each_kind_witness:
  "length (creations (concat (map snd (fst (demo_run 7))))) = 1"
proof -
  have "stage (snd (demo_run 7)) = Established" by code_simp
  with one_request_of_each_kind [OF demo_trace(2)] show ?thesis by simp
qed

text \<open>
  data goes to a relay only on an established connection, under the identity the relay gave the
  connection when it reported that it is established, to the relay that was selected.
\<close>

theorem data_after_established:
  assumes "session_trace handle i (tr @ [(e, acts)]) c" "(r, m) \<in> set (pushes acts)"
  shows "(\<exists>N. EvState N \<in> insert e (fst ` set tr) \<and>
       xPR_ConnectionStateNotify.NewState N = STATE_ESTABLISHED \<and>
       xPR_PushData.RelaySideConnectionId m = xPR_ConnectionStateNotify.RelaySideConnectionId N) \<and>
    (\<exists>D. EvDevice D \<in> insert e (fst ` set tr) \<and> r = RelayServerRuntimeId D) \<and>
    xPR_PushData.ProxySideConnectionId m = i"
proof -
  from assms(1) obtain c0 env where c0: "handle env c0 e = Some (acts, c)"
    by (cases rule: session_trace.cases) auto
  have ok: "asks_ok c0 e acts c" "ids_ok c0 e acts c"
    using session.step_ok [OF c0] by (simp_all add: step_ok_def)
  have "stage c = Established" using ok(1) assms(2) by (auto simp: asks_ok_def)
  moreover have "r = RelayConnectionId c" "xPR_PushData.RelaySideConnectionId m = RelaySideConn c"
    "xPR_PushData.ProxySideConnectionId m = ConnectionId c"
    using ok(2) assms(2) by (auto simp: ids_ok_def)
  ultimately show ?thesis
    using session.trace_justified [OF assms(1)] session.trace_id [OF assms(1)]
    by (auto simp: session.justified_def)
qed

theorem data_after_established_witness:
  "\<exists>N. EvState N \<in> set demo_events \<and> xPR_ConnectionStateNotify.RelaySideConnectionId N = 11"
proof -
  let ?m = "xPR_PushData.make 4 11 [8]"
  obtain a c where h: "handle demo_env (snd (demo_run 7)) (EvData [8]) = Some (RelayPush 7 ?m # a, c)"
  proof (rule that)
    show "handle demo_env (snd (demo_run 7)) (EvData [8]) =
        Some (RelayPush 7 ?m # [KeepAlive], (snd (demo_run 7))\<lparr>TotalUploadDataSize := 4\<rparr>)"
      by code_simp
  qed
  from data_after_established [OF session_trace.go [OF demo_trace(2) h], of 7 ?m]
  have "\<exists>N. EvState N \<in> insert (EvData [8]) (fst ` set (fst (demo_run 7))) \<and>
      xPR_PushData.RelaySideConnectionId ?m = xPR_ConnectionStateNotify.RelaySideConnectionId N"
    by (auto simp: pushes_def)
  then show ?thesis
    using demo_trace_events(2) by (auto simp: xPR_PushData.defs simp flip: list.set_map)
qed

text \<open>
  C16: the byte counts of a connection are, modulo 2^64, the bytes pushed to the relay and the sizes of
  the data messages received from it, in every run; and as long as the connection was not put on the
  kill list, fewer than 1000 bytes of either kind are not yet reported to the relay.
\<close>

theorem traffic_accounted:
  assumes "session_trace handle i tr c"
  shows "TotalUploadDataSize c = word_of_nat (payload_size (concat (map snd tr))) \<and>
    TotalDumpedDataSize c = word_of_nat (sum_list (map (dumped_size \<circ> fst) tr)) \<and>
    ((\<forall>(e, acts) \<in> set tr. Kill \<notin> set acts) \<longrightarrow>
      TotalUploadDataSize c - TotalReportedUploadDataSize c < 1000 \<and>
      TotalDumpedDataSize c - TotalReportedDumpedDataSize c < 1000)"
  using session.trace_totals [OF assms] session.trace_reported [OF assms]
  by (simp add: unreported_small_def READ_OVERFLOW_SIZE_def WRITE_OVERFLOW_SIZE_def)

theorem traffic_accounted_witness:
  "TotalUploadDataSize (snd (demo_run 7)) = 3"
proof -
  have "payload_size (concat (map snd (fst (demo_run 7)))) = 3" by code_simp
  with traffic_accounted [OF demo_trace(2)] show ?thesis by simp
qed

text \<open>
  the upload loop sends every byte once and in order, in non-empty messages of at most 4096 bytes
  that carry the identities of the connection.
\<close>

theorem upload_split:
  fixes D :: bytes and c :: xPA_ClientConnection
  defines "out \<equiv> pushes (push_loop c D :: 'a action list)"
  shows "concat (map (\<lambda>(r, m). xPR_PushData.PayloadView m) out) = D \<and>
    list_all (\<lambda>(r, m). r = RelayConnectionId c \<and> xPR_PushData.ProxySideConnectionId m = ConnectionId c \<and>
       xPR_PushData.RelaySideConnectionId m = RelaySideConn c \<and> xPR_PushData.PayloadView m \<noteq> [] \<and>
       length (xPR_PushData.PayloadView m) \<le> 4096) out"
  unfolding out_def list_all_iff
  using push_loop_payload [of c D] push_loop_each [of _ _ c D]
  by (auto simp: MAX_PAYLOAD_SIZE_def)

end
