(* ===== verification/ClientRequests.thy ===== *)
theory ClientRequests
  imports ClientSession
begin

text \<open>
  What a client of the proxy access server can ask for: the Socks5 user/password message and the
  connection request, the \<^verbatim>\<open>CONNECT\<close> line, the request line with an absolute URL, and the header
  lines of both, against the messages a client writes; and the inputs on which the handlers of
  ClientConnection read out of bounds or stop the process.
\<close>

subsection \<open>Bytes\<close>

lemma find_crlf_line: "13 \<notin> set s \<Longrightarrow> find_crlf (s @ crlf @ r) = Some (length s)"
  by (induction s rule: find_crlf.induct) (auto simp: crlf_def)

lemma find_crlf_nth: "find_crlf s = Some i \<Longrightarrow> s ! i = 13"
  by (induction s arbitrary: i rule: find_crlf.induct) (auto split: if_splits)

lemma find_byte_first: "b \<notin> set s \<Longrightarrow> find_byte b (s @ b # r) = Some (length s)"
  by (induction s) auto

lemma starts_nocase_bytes [simp]: "starts_nocase p (bytes_of p @ s)"
  by (simp add: starts_nocase_def)

lemma starts_nocase_append: "length p \<le> length s \<Longrightarrow> starts_nocase p (s @ t) = starts_nocase p s"
  by (simp add: starts_nocase_def)

lemma starts_nocase_nth:
  assumes "starts_nocase p s" "k < length p"
  shows "to_lower (s ! k) = to_lower (of_char (p ! k))"
proof -
  have "length p \<le> length s" "map to_lower (take (length p) s) = map to_lower (bytes_of p)"
    using assms(1) by (simp_all add: starts_nocase_def)
  then have "map to_lower (take (length p) s) ! k = map to_lower (bytes_of p) ! k" by simp
  with assms(2) \<open>length p \<le> length s\<close> show ?thesis by (simp add: bytes_of_def)
qed

lemma scan_host_port:
  assumes "58 \<notin> set h" "stop \<notin> set h" "length h < n" "atoi_ends s"
  shows "scan_host stop n (h @ 58 # s) acc = Some (Some (acc @ h, word_of_int (atoi s)))"
  using assms
proof (induction h arbitrary: n acc)
  case Nil
  then show ?case by (cases n) auto
next
  case (Cons x h)
  then show ?case by (cases n) auto
qed

lemma scan_host_stop:
  assumes "58 \<notin> set h" "stop \<notin> set h" "length h < n" "stop \<noteq> 58"
  shows "scan_host stop n (h @ stop # s) acc = Some (Some (acc @ h, 80))"
  using assms
proof (induction h arbitrary: n acc)
  case Nil
  then show ?case by (cases n) auto
next
  case (Cons x h)
  then show ?case by (cases n) auto
qed

text \<open>The scan reads behind the data exactly when a host ends at a colon whose port does not end.\<close>

definition endless_port :: "byte \<Rightarrow> nat \<Rightarrow> bytes \<Rightarrow> bool" where
  "endless_port stop n t \<longleftrightarrow> (\<exists>h s. t = h @ 58 # s \<and> 58 \<notin> set h \<and> stop \<notin> set h \<and> length h < n \<and> \<not> atoi_ends s)"

lemma endless_port_Cons:
  "endless_port stop (Suc n) (c # s) \<longleftrightarrow> (if c = 58 then \<not> atoi_ends s else c \<noteq> stop \<and> endless_port stop n s)"
proof (cases "c = 58")
  case True
  have one: "c # s = h @ 58 # r \<and> 58 \<notin> set h \<and> stop \<notin> set h \<and> length h < Suc n \<and> \<not> atoi_ends r \<longleftrightarrow>
      h = [] \<and> r = s \<and> \<not> atoi_ends s" for h r
    using True by (cases h) auto
  show ?thesis unfolding endless_port_def one using True by simp
next
  case False
  have "endless_port stop (Suc n) (c # s)" if "c \<noteq> stop" "endless_port stop n s"
  proof -
    from that(2) obtain h r where "s = h @ 58 # r" "58 \<notin> set h" "stop \<notin> set h" "length h < n" "\<not> atoi_ends r"
      unfolding endless_port_def by blast
    with False that(1) show ?thesis unfolding endless_port_def by (intro exI [of _ "c # h"] exI [of _ r]) simp
  qed
  moreover have "c \<noteq> stop \<and> endless_port stop n s" if "endless_port stop (Suc n) (c # s)"
  proof -
    from that obtain h r where h: "c # s = h @ 58 # r" "58 \<notin> set h" "stop \<notin> set h" "length h < Suc n" "\<not> atoi_ends r"
      unfolding endless_port_def by blast
    with False obtain h' where "h = c # h'" by (cases h) auto
    with h show ?thesis unfolding endless_port_def by auto
  qed
  ultimately show ?thesis using False by auto
qed

lemma scan_host_endless: "scan_host stop n t acc = None \<longleftrightarrow> endless_port stop n t"
proof (induction stop n t acc rule: scan_host.induct)
  case (3 stop n c s acc)
  then show ?case by (auto simp: endless_port_Cons)
qed (auto simp: endless_port_def)

text \<open>Such a port is white space, a sign and digits up to the end.\<close>

lemma number_bytes:
  "\<not> white_space 43" "\<not> white_space 45" "\<not> white_space 47" "\<not> is_digit 47"
  "is_digit x \<Longrightarrow> \<not> white_space x" "is_digit x \<Longrightarrow> x \<noteq> 43" "is_digit x \<Longrightarrow> x \<noteq> 45"
  by (auto simp: white_space_def is_digit_def word_le_nat_alt)

lemma atoi_ends_iff:
  "\<not> atoi_ends s \<longleftrightarrow> (\<exists>w g d. s = w @ g @ d \<and> list_all white_space w \<and> g \<in> {[], [43], [45]} \<and> list_all is_digit d)"
proof
  let ?w = "takeWhile white_space s"
  have w: "list_all white_space ?w" by (auto simp: list_all_iff dest: set_takeWhileD)
  assume e: "\<not> atoi_ends s"
  show "\<exists>w g d. s = w @ g @ d \<and> list_all white_space w \<and> g \<in> {[], [43], [45]} \<and> list_all is_digit d"
  proof (cases "dropWhile white_space s")
    case Nil
    then have "list_all white_space s" by (simp add: dropWhile_eq_Nil_conv list_all_iff)
    then show ?thesis by (intro exI [of _ s] exI [of _ "[]"]) simp
  next
    case (Cons c r)
    have s: "s = ?w @ c # r" using takeWhile_dropWhile_id [of white_space s] unfolding Cons by simp
    show ?thesis
    proof (cases "c = 45 \<or> c = 43")
      case True
      then have "dropWhile is_digit r = []" using e Cons by (auto simp: atoi_ends_def)
      then have "list_all is_digit r" by (simp add: dropWhile_eq_Nil_conv list_all_iff)
      then show ?thesis using s w True by (intro exI [of _ ?w] exI [of _ "[c]"] exI [of _ r]) auto
    next
      case False
      then have "dropWhile is_digit (c # r) = []" using e Cons by (simp add: atoi_ends_def)
      then have "list_all is_digit (c # r)" by (simp only: dropWhile_eq_Nil_conv list_all_iff)
      then show ?thesis using s w by (intro exI [of _ ?w] exI [of _ "[]"] exI [of _ "c # r"]) simp
    qed
  qed
next
  assume "\<exists>w g d. s = w @ g @ d \<and> list_all white_space w \<and> g \<in> {[], [43], [45]} \<and> list_all is_digit d"
  then obtain w g d where s: "s = w @ g @ d" "list_all white_space w" "g \<in> {[], [43], [45]}" "list_all is_digit d" by blast
  have d: "dropWhile is_digit d = []" using s(4) by (simp add: dropWhile_eq_Nil_conv list_all_iff)
  have "dropWhile white_space s = dropWhile white_space (g @ d)" using s(2) by (simp add: s(1) dropWhile_append2 list_all_iff)
  moreover consider "g = []" "d = []" | x xs where "g = []" "d = x # xs" "is_digit x" | "g = [43] \<or> g = [45]"
    using s(3,4) by (cases d) auto
  then have "dropWhile white_space (g @ d) = g @ d" by cases (auto simp: number_bytes)
  ultimately have t: "dropWhile white_space s = g @ d" by simp
  from \<open>g \<in> _\<close> consider "g = []" "d = []" | x xs where "g = []" "d = x # xs" "is_digit x" | "g = [43] \<or> g = [45]"
    using s(4) by (cases d) auto
  then show "\<not> atoi_ends s"
  proof cases
    case 1
    then show ?thesis using t by (simp add: atoi_ends_def Let_def del: dropWhile_eq_Nil_conv)
  next
    case 2
    then show ?thesis using t d number_bytes(6,7) [of x] by (simp add: atoi_ends_def)
  qed (use t d in \<open>auto simp: atoi_ends_def\<close>)
qed

text \<open>\<^verbatim>\<open>atoi\<close> reads back what \<^verbatim>\<open>to_string\<close> prints.\<close>

lemma digit_byte: "n < 10 \<Longrightarrow> uint (word_of_nat (48 + n) :: byte) = 48 + int n"
  using unat_of_nat_small [of "48 + n", where 'a = 8] by (simp add: uint_nat del: of_nat_add)

lemma to_string_digits: "list_all is_digit (to_string n)"
proof (induction n rule: to_string.induct)
  case (1 n)
  have d: "is_digit (word_of_nat (48 + k))" if "k < 10" for k
    using digit_byte [OF that] that by (simp add: is_digit_def word_le_def)
  show ?case using 1 d by (subst to_string.simps) auto
qed

lemma to_string_value: "fold (\<lambda>c v. 10 * v + (uint c - 48)) (to_string n) 0 = int n"
proof (induction n rule: to_string.induct)
  case (1 n)
  show ?case
    using 1 digit_byte [of n] digit_byte [of "n mod 10"]
    by (subst to_string.simps) (auto simp: div_mult_mod_eq zmod_int zdiv_int)
qed

lemma to_string_nonempty: "to_string n \<noteq> []"
  by (subst to_string.simps) simp

lemma atoi_to_string:
  assumes "\<not> is_digit b"
  shows "atoi (to_string n @ b # r) = int n"
proof -
  obtain d ds where d: "to_string n = d # ds" using to_string_nonempty [of n] by (cases "to_string n") auto
  have dig: "is_digit d" "list_all is_digit (to_string n)"
    using to_string_digits [of n] d by simp_all
  then have "takeWhile is_digit (to_string n @ b # r) = to_string n"
    using assms by (simp add: takeWhile_append2 list_all_iff)
  then have "digits_value (to_string n @ b # r) = int n"
    by (simp add: digits_value_def to_string_value)
  moreover have "\<not> (d = 32 \<or> 9 \<le> d \<and> d \<le> 13)" "d \<noteq> 45" "d \<noteq> 43"
    using dig(1) by (auto simp: is_digit_def word_le_nat_alt)
  ultimately show ?thesis by (auto simp: atoi_def d white_space_def)
qed


lemma atoi_ends_to_string:
  assumes "\<not> is_digit b"
  shows "atoi_ends (to_string n @ b # r)"
proof -
  obtain d ds where d: "to_string n = d # ds" using to_string_nonempty [of n] by (cases "to_string n") auto
  have dig: "is_digit d" "\<forall>x \<in> set ds. is_digit x" using to_string_digits [of n] d by (simp_all add: list_all_iff)
  have "\<not> white_space d" "d \<noteq> 45" "d \<noteq> 43" using dig(1) by (auto simp: is_digit_def white_space_def word_le_nat_alt)
  then show ?thesis using dig assms by (simp add: atoi_ends_def d dropWhile_append)
qed

subsection \<open>Socks5 messages\<close>

definition s5_auth_message :: "bytes \<Rightarrow> bytes \<Rightarrow> bytes" where
  "s5_auth_message name pass = [1, word_of_nat (length name)] @ name @ [word_of_nat (length pass)] @ pass"

lemma byte_len: "length s < 256 \<Longrightarrow> unat (word_of_nat (length s) :: byte) = length s"
  by (rule unat_of_nat_small) simp

text \<open>
  the Socks5 user/password message, with anything behind it, is turned into one authentication
  request for \<^verbatim>\<open>name:pass\<close> and used up exactly; every incomplete part of it is left for later and
  changes nothing.
\<close>

theorem s5_auth_round_trip:
  assumes "length name < 256" "length pass < 256" "name \<noteq> [] \<or> pass \<noteq> []"
  shows "OnS5ClientAuth env c (s5_auth_message name pass @ rest) =
      (Used (3 + length name + length pass), [RequestAuth (name @ [58] @ pass)],
       c\<lparr>Phase := eS5WaitForAccountExchange\<rparr>) \<and>
    (\<forall>n < length (s5_auth_message name pass).
      OnS5ClientAuth env c (take n (s5_auth_message name pass)) = (Used 0, [], c))"
proof (intro conjI allI impI)
  let ?D = "s5_auth_message name pass @ rest"
  have at0: "?D ! 0 = 1" "?D ! 1 = word_of_nat (length name)"
    "?D ! (2 + length name) = word_of_nat (length pass)"
    "length ?D = 3 + length name + length pass + length rest"
    by (simp_all add: s5_auth_message_def nth_append)
  have "?D = [1, word_of_nat (length name)] @ name @ word_of_nat (length pass) # pass @ rest"
    by (simp add: s5_auth_message_def)
  then have "?D[2 + length name := 58] = [1, word_of_nat (length name)] @ name @ 58 # pass @ rest"
    by (simp add: list_update_append)
  then have key: "take (length name + length pass + 1) (drop 2 (?D[2 + length name := 58])) = name @ [58] @ pass"
    by simp
  show "OnS5ClientAuth env c ?D =
      (Used (3 + length name + length pass), [RequestAuth (name @ [58] @ pass)],
       c\<lparr>Phase := eS5WaitForAccountExchange\<rparr>)"
    using assms at0 key by (simp add: OnS5ClientAuth_def byte_len Let_def)
next
  fix n
  assume n: "n < length (s5_auth_message name pass)"
  let ?M = "s5_auth_message name pass" let ?D = "take n ?M"
  have len: "length ?D = n" "length ?M = 3 + length name + length pass"
    using n by (simp_all add: s5_auth_message_def)
  have at: "?D ! 0 = 1" "?D ! 1 = word_of_nat (length name)" if "2 \<le> n"
    using that by (simp_all add: s5_auth_message_def)
  have at2: "?D ! (2 + length name) = word_of_nat (length pass)" if "2 + length name < n"
    using that by (simp add: s5_auth_message_def nth_append)
  show "OnS5ClientAuth env c ?D = (Used 0, [], c)"
  proof (cases "n < 3 \<or> n < 3 + length name")
    case True
    then show ?thesis using at len(1) assms(1) by (auto simp: OnS5ClientAuth_def byte_len Let_def)
  next
    case False
    then show ?thesis using at at2 len n assms(1,2) by (auto simp: OnS5ClientAuth_def byte_len Let_def)
  qed
qed

theorem s5_auth_round_trip_witness:
  "OnS5ClientAuth demo_env demo_conn (s5_auth_message [97] [98, 99]) =
     (Used 6, [RequestAuth [97, 58, 98, 99]], demo_conn\<lparr>Phase := eS5WaitForAccountExchange\<rparr>) \<and>
   OnS5ClientAuth demo_env demo_conn (take 5 (s5_auth_message [97] [98, 99])) = (Used 0, [], demo_conn)"
proof -
  note s = s5_auth_round_trip [of "[97]" "[98, 99]" demo_env demo_conn "[]"]
  have "5 < length (s5_auth_message [97] [98, 99])" by (simp add: s5_auth_message_def)
  with s have "OnS5ClientAuth demo_env demo_conn (take 5 (s5_auth_message [97] [98, 99])) = (Used 0, [], demo_conn)"
    by simp
  with s show ?thesis by simp
qed

definition s5_domain_request :: "bytes \<Rightarrow> byte \<Rightarrow> byte \<Rightarrow> bytes" where
  "s5_domain_request host hi lo = [5, 1, 0, 3, word_of_nat (length host)] @ host @ [hi, lo]"

text \<open>
  a Socks5 request for a host name of 3 to 254 bytes is sent on to the relay with its name and
  port, and everything received with it is used up, also the bytes behind the request; a name of one
  or two bytes waits for more data, and one of 255 bytes, which the protocol allows, kills the
  connection.
\<close>

theorem s5_domain_request_handled:
  fixes rest :: bytes and hi lo :: byte
  assumes "length host < 256" "relay_up env (RelayConnectionId c)"
    and "Phase c = eS5WaitForConnectionRequest"
  defines "D \<equiv> s5_domain_request host hi lo @ rest"
    and "A \<equiv> addr_port_only env (read_r2 env hi lo)"
  shows "OnS5ConnectionRequest env c D =
    (if length D < 10 then (Used 0, [], c)
     else if length D \<ge> 262 then (Used 0, [Kill], c)
     else (Used (length D),
       [RelayCreate (RelayConnectionId c)
          (xPR_CreateConnection.make (RelaySideDeviceId c) (ConnectionId c) A host (addr_port env A))],
       c\<lparr>Phase := eS5WaitForConnectionEstablish\<rparr>))"
proof -
  have len: "length D = 7 + length host + length rest" by (simp add: D_def s5_domain_request_def)
  have at: "D ! 0 = 5" "D ! 1 = 1" "D ! 2 = 0" "D ! 3 = 3" "D ! 4 = word_of_nat (length host)"
    by (simp_all add: D_def s5_domain_request_def numeral_eq_Suc)
  have host: "take (length host) (drop 5 D) = host" "D ! (5 + length host) = hi" "D ! (6 + length host) = lo"
    by (simp_all add: D_def s5_domain_request_def numeral_eq_Suc nth_append)
  have dom: "s5_domain env D = Some (A, host, 7 + length host)"
    using assms(1) len at(5) host by (simp add: s5_domain_def byte_len A_def Let_def)
  have "OnOpenRemoteConnection env A host c =
      ([RelayCreate (RelayConnectionId c)
          (xPR_CreateConnection.make (RelaySideDeviceId c) (ConnectionId c) A host (addr_port env A))],
       c\<lparr>Phase := eS5WaitForConnectionEstablish\<rparr>)"
    using assms(2,3) by (simp add: OnOpenRemoteConnection_def)
  then show ?thesis using at dom by (simp add: OnS5ConnectionRequest_def Let_def)
qed

theorem s5_domain_request_handled_witness:
  "fst (OnS5ConnectionRequest demo_env
     (demo_conn\<lparr>Phase := eS5WaitForConnectionRequest, RelayConnectionId := 7\<rparr>)
     (s5_domain_request (replicate 255 97) 0 80)) = Used 0"
  using s5_domain_request_handled [of "replicate 255 97" demo_env
      "demo_conn\<lparr>Phase := eS5WaitForConnectionRequest, RelayConnectionId := 7\<rparr>" 0 80 "[]"]
  by (simp add: demo_env_def s5_domain_request_def)

subsection \<open>Request lines\<close>

definition connect_line :: "bytes \<Rightarrow> nat \<Rightarrow> bytes \<Rightarrow> bytes" where
  "connect_line host P v = bytes_of ''CONNECT '' @ host @ [58] @ to_string P @ [32] @ v"

lemma to_string_no_cr: "13 \<notin> set (to_string n)"
  using to_string_digits [of n] by (auto simp: list_all_iff is_digit_def word_le_nat_alt)

lemma connect_bytes: "bytes_of ''CONNECT '' = [67, 79, 78, 78, 69, 67, 84, 32]"
  by code_simp

text \<open>
  a \<^verbatim>\<open>CONNECT host:port\<close> line, with anything behind it, selects exactly this host and port and is
  used up; the connection then waits for the headers.
\<close>

theorem connect_line_parsed:
  assumes "host \<noteq> []" "set host \<inter> {13, 32, 58} = {}" "13 \<notin> set v" "P < 65536"
  shows "OnChallenge c (connect_line host P v @ crlf @ rest) =
    Some (Used (length (connect_line host P v) + 2), [],
      (set_target host (word_of_nat P) c)\<lparr>Phase := eHttpRawChallenge\<rparr>)"
proof -
  let ?L = "connect_line host P v" let ?D = "?L @ crlf @ rest"
  have "13 \<notin> set ?L" using assms(2,3) to_string_no_cr by (auto simp: connect_line_def connect_bytes)
  then have l: "find_crlf ?D = Some (length ?L)" by (rule find_crlf_line)
  have d: "drop 8 ?D = host @ 58 # (to_string P @ 32 # v @ crlf @ rest)"
    by (simp add: connect_line_def connect_bytes)
  have n: "length host < length ?L - 8" by (simp add: connect_line_def connect_bytes)
  have "scan_host 32 (length ?L - 8) (drop 8 ?D) [] =
      Some (Some ([] @ host, word_of_int (atoi (to_string P @ 32 # v @ crlf @ rest))))"
    unfolding d using assms(2) n atoi_ends_to_string [of 32 P "v @ crlf @ rest"]
    by (intro scan_host_port) (auto simp: is_digit_def word_le_nat_alt)
  moreover have "atoi (to_string P @ 32 # v @ crlf @ rest) = int P"
    by (rule atoi_to_string) (simp add: is_digit_def word_le_nat_alt)
  ultimately have "scan_host 32 (length ?L - 8) (drop 8 ?D) [] = Some (Some (host, word_of_nat P))" by simp
  moreover have "starts_nocase ''CONNECT '' ?D" unfolding connect_line_def append_assoc by simp
  moreover have "?D ! 0 = 67" "3 \<le> length ?D" "length ?L \<noteq> 0" by (simp_all add: connect_line_def connect_bytes)
  ultimately show ?thesis using assms(1) l
    by (simp add: OnChallenge_def OnHttpChallenge_def OnHttpConnect_def)
qed

theorem connect_line_parsed_witness:
  "OnChallenge demo_conn (connect_line [97, 46, 98] 443 [72] @ crlf @ crlf) =
     Some (Used 19, [], (set_target [97, 46, 98] 443 demo_conn)\<lparr>Phase := eHttpRawChallenge\<rparr>)"
proof -
  have "length (connect_line [97, 46, 98] 443 [72]) = 17" by code_simp
  with connect_line_parsed [of "[97, 46, 98]" "[72]" 443 demo_conn crlf] show ?thesis by simp
qed


definition url_line :: "bytes \<Rightarrow> bytes \<Rightarrow> bytes \<Rightarrow> bytes \<Rightarrow> bytes" where
  "url_line m host path v = m @ [32] @ bytes_of ''http://'' @ host @ path @ [32] @ v"

lemma url_bytes: "bytes_of ''http://'' = [104, 116, 116, 112, 58, 47, 47]"
  by code_simp

lemma connect_no_space:
  "list_all (\<lambda>k. to_lower 32 \<noteq> to_lower (of_char (''CONNECT '' ! k))) [0..<7]"
  by code_simp

text \<open>
  a request line with an \<^verbatim>\<open>http://\<close> URL selects the host and port 80, and the header that will be
  sent to it starts with the same line reduced to the path.
\<close>

theorem url_line_parsed:
  assumes "m \<noteq> []" "set m \<inter> {13, 32} = {}" "set host \<inter> {13, 32, 47, 58} = {}"
    and "path \<noteq> []" "hd path = 47" "set path \<inter> {13, 32} = {}" "13 \<notin> set v" "hd m \<noteq> 5"
    and "\<not> starts_nocase ''CONNECT '' (m @ [32])"
  shows "OnChallenge c (url_line m host path v @ crlf @ rest) =
    Some (Used (length (url_line m host path v) + 2), [],
      (append_header (path @ [32] @ v @ crlf)
        (set_target host 80 (append_header (m @ [32]) c)))\<lparr>Phase := eHttpNormalChallenge\<rparr>)"
proof -
  let ?L = "url_line m host path v" let ?D = "?L @ crlf @ rest" let ?k = "length m"
  obtain path' where path: "path = 47 # path'" using assms(4,5) by (cases path) auto
  have L: "?L = m @ 32 # (bytes_of ''http://'' @ host @ path @ [32] @ v)"
    "?L = (m @ [32] @ bytes_of ''http://'' @ host @ path) @ 32 # v"
    "?L = (m @ [32] @ bytes_of ''http://'' @ host) @ 47 # (path' @ [32] @ v)"
    by (simp_all add: url_line_def path)
  have "13 \<notin> set ?L" using assms(2,3,6,7) by (auto simp: url_line_def url_bytes)
  then have l: "find_crlf ?D = Some (length ?L)" by (rule find_crlf_line)
  have sp1: "find_byte 32 ?L = Some ?k"
    unfolding L(1) using assms(2) by (intro find_byte_first) auto
  have "drop (Suc ?k) ?L = (bytes_of ''http://'' @ host @ path) @ 32 # v" by (simp add: url_line_def)
  then have sp2: "find_from 32 (Suc ?k) ?L = Some (Suc ?k + length (bytes_of ''http://'' @ host @ path))"
    using assms(3,6) find_byte_first [of 32 "bytes_of ''http://'' @ host @ path" v]
    by (simp add: find_from_def url_bytes path)
  have "drop (Suc ?k) ?D = bytes_of ''http://'' @ (host @ path @ [32] @ v @ crlf @ rest)"
    by (simp add: url_line_def)
  then have sch: "skip_scheme ?D (Suc ?k) = (Suc ?k + 7, Suc ?k + 7)"
    by (simp add: skip_scheme_def)
  have "drop (Suc ?k + 7) ?L = host @ 47 # (path' @ [32] @ v)" by (simp add: url_line_def url_bytes path)
  then have sl: "find_from 47 (Suc ?k + 7) ?L = Some (Suc ?k + 7 + length host)"
    using assms(3) by (simp add: find_from_def find_byte_first)
  have "drop (Suc ?k + 7) ?D = host @ 47 # (path' @ [32] @ v @ crlf @ rest)"
    by (simp add: url_line_def url_bytes path)
  then have sc: "scan_host 47 (Suc (length host)) (drop (Suc ?k + 7) ?D) [] = Some (Some (host, 80))"
    using assms(3) by (simp add: scan_host_stop)
  have len: "length ?L = Suc ?k + 7 + length host + length path + 1 + length v"
    by (simp add: url_line_def)
  have pre: "take (Suc ?k) ?D = m @ [32]" by (simp add: url_line_def)
  let ?A = "m @ [32] @ bytes_of ''http://'' @ host" and ?B = "path @ [32] @ v @ crlf"
  have "?D = ?A @ ?B @ rest" "length ?A = Suc ?k + 7 + length host"
    "length ?L - (Suc ?k + 7 + length host) + 2 = length ?B"
    by (simp_all add: url_line_def len crlf_def)
  then have post: "take (length ?L - (Suc ?k + 7 + length host) + 2) (drop (Suc ?k + 7 + length host) ?D) =
      path @ [32] @ v @ crlf"
    by (metis append_eq_conv_conj)
  have nc: "\<not> starts_nocase ''CONNECT '' ?D"
  proof
    assume s: "starts_nocase ''CONNECT '' ?D"
    show False
    proof (cases "length ''CONNECT '' \<le> length (m @ [32])")
      case True
      have "?D = (m @ [32]) @ bytes_of ''http://'' @ host @ path @ [32] @ v @ crlf @ rest"
        by (simp add: url_line_def)
      with s show False using assms(9) starts_nocase_append [OF True] by metis
    next
      case False
      then have "?k < 7" by simp
      then have "to_lower (?D ! ?k) = to_lower (of_char (''CONNECT '' ! ?k))"
        using starts_nocase_nth [OF s, of ?k] by simp
      moreover have "?D ! ?k = 32" by (simp add: url_line_def)
      ultimately show False using \<open>?k < 7\<close> connect_no_space [unfolded list_all_iff, rule_format, of ?k]
        by simp
    qed
  qed
  have "?D ! 0 \<noteq> 5" using assms(1,8) by (cases m) (auto simp: url_line_def)
  moreover have "\<not> length ?D < 3" "length ?L \<noteq> 0" using len by simp_all
  ultimately have "OnChallenge c ?D = OnHttpPlain c ?D (length ?L)"
    using l nc by (simp add: OnChallenge_def OnHttpChallenge_def)
  also have "\<dots> = Some (Used (length ?L + 2), [],
     (append_header (path @ [32] @ v @ crlf)
       (set_target host 80 (append_header (m @ [32]) c)))\<lparr>Phase := eHttpNormalChallenge\<rparr>)"
    using sp1 sp2 sch sl sc pre post
    by (simp add: OnHttpPlain_def Let_def)
  finally show ?thesis .
qed

theorem url_line_parsed_witness:
  "map_option (\<lambda>r. TargetHost (Http (snd (snd r)))) (OnChallenge demo_conn
     (url_line [71, 69, 84] [97, 98] [47, 99] [72] @ crlf) :: ref_addr reply option) = Some [97, 98]"
  using url_line_parsed [of "[71, 69, 84]" "[97, 98]" "[47, 99]" "[72]" demo_conn "[]", where ?'a = ref_addr]
  by (simp add: starts_nocase_def append_header_def set_target_def)

text \<open>
  With an \<^verbatim>\<open>https://\<close> URL the search for the path starts at the second slash of the scheme, so
  the host is empty, the port is 0 and the host ends up in the path.
\<close>

lemma https_url_loses_host:
  "map_option (\<lambda>r. (fst r, snd (snd r)))
     (OnChallenge fresh_connection (bytes_of ''GET https://a.b/c HTTP/1.1'' @ crlf) :: unit reply option) =
   Some (Used 28, (append_header (bytes_of ''/a.b/c HTTP/1.1'' @ crlf)
       (set_target [] 0 (append_header (bytes_of ''GET '') fresh_connection)))\<lparr>Phase := eHttpNormalChallenge\<rparr>)"
  by code_simp


subsection \<open>Header lines\<close>

definition header_block :: "bytes list \<Rightarrow> bytes" where
  "header_block Lines = concat (map (\<lambda>l. l @ crlf) Lines) @ crlf"

text \<open>A line a client may write; a \<^verbatim>\<open>Proxy-Authorization\<close> line has the scheme and more.\<close>

definition header_ok :: "bytes \<Rightarrow> bool" where
  "header_ok l \<longleftrightarrow> l \<noteq> [] \<and> 13 \<notin> set l \<and> (is_header ''Proxy-Authorization: '' l \<longrightarrow> 27 \<le> length l)"

text \<open>The reference: what a line adds to the rebuilt header, and to the credentials.\<close>

definition rebuilt_line :: "bytes \<Rightarrow> bytes" where
  "rebuilt_line l =
     (if is_header ''Proxy-Connection: '' l \<or> is_header ''Proxy-Authorization: '' l then []
      else if is_header ''Connection: '' l then bytes_of ''Connection: close'' @ crlf
      else l @ crlf)"

definition line_auth :: "'a pa_env \<Rightarrow> bytes \<Rightarrow> bytes \<Rightarrow> bytes" where
  "line_auth env l np =
     (if is_header ''Proxy-Authorization: '' l then base64_decode env (drop 27 l) else np)"

lemma header_exclusive:
  assumes "is_header ''Proxy-Authorization: '' l"
  shows "\<not> is_header ''Proxy-Connection: '' l" "\<not> is_header ''Connection: '' l"
proof -
  have a: "to_lower (l ! 6) = 97" "to_lower (l ! 0) = 112"
    using assms starts_nocase_nth [of "''Proxy-Authorization: ''" l 6]
      starts_nocase_nth [of "''Proxy-Authorization: ''" l 0]
    by (simp_all add: is_header_def to_lower_def)
  show "\<not> is_header ''Proxy-Connection: '' l"
    using a(1) starts_nocase_nth [of "''Proxy-Connection: ''" l 6] by (auto simp: is_header_def to_lower_def)
  show "\<not> is_header ''Connection: '' l"
    using a(2) starts_nocase_nth [of "''Connection: ''" l 0] by (auto simp: is_header_def to_lower_def)
qed

lemma auth_header_ok:
  "27 \<le> length l \<Longrightarrow> auth_header env (l @ s) (length l) = Some (Some (base64_decode env (drop 27 l)))"
  by (auto simp: auth_header_def Let_def)

definition line_block :: "bytes list \<Rightarrow> bytes" where
  "line_block Lines = concat (map (\<lambda>l. l @ crlf) Lines)"

lemma header_block_lines: "header_block Lines = line_block Lines @ crlf"
  by (simp add: header_block_def line_block_def)

lemma raw_lines:
  assumes "list_all header_ok Lines"
  shows "raw_headers env c (line_block Lines @ V) NP n =
    raw_headers env c V (fold (line_auth env) Lines NP) (n + length (line_block Lines))"
  using assms
proof (induction Lines arbitrary: NP n)
  case (Cons l Ls)
  then have ok: "header_ok l" and Ls: "list_all header_ok Ls" by simp_all
  from ok have l: "l \<noteq> []" "13 \<notin> set l" "is_header ''Proxy-Authorization: '' l \<longrightarrow> 27 \<le> length l"
    by (simp_all add: header_ok_def)
  let ?R = "line_block Ls @ V"
  have V: "line_block (l # Ls) @ V = l @ crlf @ ?R" by (simp add: line_block_def)
  obtain k where k: "length l = Suc k" using l(1) by (cases l) auto
  have f: "find_crlf (l @ crlf @ ?R) = Some (Suc k)" using find_crlf_line [OF l(2)] k by simp
  have d: "drop (Suc k + 2) (l @ crlf @ ?R) = ?R" by (simp flip: k) (simp add: crlf_def)
  have p: "21 < Suc k \<and> starts_nocase ''Proxy-Authorization: '' (l @ crlf @ ?R) \<longleftrightarrow>
      is_header ''Proxy-Authorization: '' l"
    using starts_nocase_append [of "''Proxy-Authorization: ''" l] by (auto simp: is_header_def k)
  have n: "n + (Suc k + 2) + length (line_block Ls) = n + length (line_block (l # Ls))"
    by (simp add: line_block_def crlf_def k)
  have a: "auth_header env (l @ crlf @ ?R) (Suc k) = Some (Some (base64_decode env (drop 27 l)))"
    if "is_header ''Proxy-Authorization: '' l"
    using that l(3) auth_header_ok [of l env "crlf @ ?R"] k by simp
  show ?case
    unfolding V
    by (subst raw_headers.simps, cases "is_header ''Proxy-Authorization: '' l")
      (simp_all only: f d p a option.case nat.case Let_def if_True if_False Cons.IH [OF Ls] n
        fold_simps line_auth_def [of env l])
qed (simp add: line_block_def)

lemma raw_block:
  assumes "list_all header_ok Lines"
  shows "raw_headers env c (header_block Lines @ body) NP n =
    Some (let np = fold (line_auth env) Lines NP in
      if np = [] then (Used 0, [Post407, LingerKill], c)
      else (Used (n + length (header_block Lines)), [RequestAuth np, SuspendReading],
        c\<lparr>Phase := eHttpRawWaitForAccountExchange\<rparr>))"
proof -
  have "find_crlf (crlf @ body) = Some 0" "length crlf = 2"
    using find_crlf_line [of "[]" body] by (simp_all add: crlf_def)
  then show ?thesis using raw_lines [OF assms, of env c "crlf @ body" NP n]
    by (simp add: header_block_lines raw_headers.simps [of env c "crlf @ body"] Let_def)
qed

text \<open>One complete line of a plain request, read in one piece.\<close>

definition line_effect :: "'a pa_env \<Rightarrow> bytes \<Rightarrow> xPA_ClientConnection \<Rightarrow> xPA_ClientConnection" where
  "line_effect env l c =
     (let c1 = (if is_header ''Content-Length: '' l \<and> \<not> is_header ''Proxy-Connection: '' l \<and>
          \<not> is_header ''Connection: '' l \<and> \<not> is_header ''Proxy-Authorization: '' l
        then c\<lparr>Http := (Http c)\<lparr>ContentLengthLeft := word_of_int (atoi (drop 16 l))\<rparr>\<rparr> else c) in
      c1\<lparr>Http := (Http c1)\<lparr>RebuiltHttpHeader := RebuiltHttpHeader (Http c1) @ rebuilt_line l,
        AuthNamePass := line_auth env l (AuthNamePass (Http c1))\<rparr>\<rparr>)"

lemma set_line_twice [simp]:
  "HttpHeaderLine (Http c) = [] \<Longrightarrow> set_line [] (set_line s c) = c"
  "set_line [] (line_effect env l (set_line s c)) = set_line [] (line_effect env l c)"
  by (cases c, cases "Http c", simp add: set_line_def)
    (cases c, cases "Http c", simp add: set_line_def line_effect_def Let_def)

lemma line_effect_Http [simp]:
  "HttpHeaderLine (Http (line_effect env l c)) = HttpHeaderLine (Http c)"
  "RebuiltHttpHeader (Http (line_effect env l c)) = RebuiltHttpHeader (Http c) @ rebuilt_line l"
  "AuthNamePass (Http (line_effect env l c)) = line_auth env l (AuthNamePass (Http c))"
  by (simp_all add: line_effect_def Let_def)

lemma set_line_Nil: "HttpHeaderLine (Http c) = [] \<Longrightarrow> set_line [] c = c"
  by (cases c, cases "Http c", simp add: set_line_def)

lemma http_same:
  "c\<lparr>Http := (Http c)\<lparr>RebuiltHttpHeader := RebuiltHttpHeader (Http c) @ [], AuthNamePass := x\<rparr>\<rparr> =
     c\<lparr>Http := (Http c)\<lparr>AuthNamePass := x\<rparr>\<rparr>"
  by (cases c, cases "Http c") simp

lemma normal_line_effect:
  assumes "header_ok l"
  shows "normal_line env l (length l) c = Some (Some (line_effect env l c))"
proof (cases "is_header ''Proxy-Authorization: '' l")
  case True
  then have "27 \<le> length l" using assms by (simp add: header_ok_def)
  then have "auth_header env l (length l) = Some (Some (base64_decode env (drop 27 l)))"
    using auth_header_ok [of l env "[]"] by simp
  moreover have "rebuilt_line l = []" using True by (simp add: rebuilt_line_def)
  ultimately show ?thesis using True header_exclusive [OF True]
    by (simp only: normal_line_def line_effect_def line_auth_def Let_def http_same simp_thms if_True
        if_False option.case)
next
  case False
  show ?thesis using False
    by (cases c)
      (auto simp: normal_line_def line_effect_def rebuilt_line_def line_auth_def append_header_def Let_def crlf_def)
qed


lemma normal_block:
  assumes "list_all header_ok Lines" "HttpHeaderLine (Http c) = []"
  shows "normal_headers env N c (header_block Lines @ body) n =
    Some (normal_done (fold (line_effect env) Lines c) (n + length (header_block Lines)))"
  using assms
proof (induction Lines arbitrary: c n)
  case Nil
  have "find_crlf (crlf @ body) = Some 0" using find_crlf_line [of "[]" body] by simp
  then show ?case using Nil by (simp add: header_block_def normal_headers.simps Let_def crlf_def)
next
  case (Cons l Ls)
  then have ok: "header_ok l" and Ls: "list_all header_ok Ls" by simp_all
  from ok have l: "l \<noteq> []" "13 \<notin> set l" by (simp_all add: header_ok_def)
  let ?V = "l @ crlf @ (header_block Ls @ body)"
  have V: "header_block (l # Ls) @ body = ?V" by (simp add: header_block_def)
  have f: "find_crlf ?V = Some (length l)" by (rule find_crlf_line [OF l(2)])
  have d: "drop (length l + 2) ?V = header_block Ls @ body" "take (length l) ?V = l"
    by (simp_all add: crlf_def)
  let ?c = "line_effect env l (set_line l c)"
  have c: "set_line [] ?c = line_effect env l c"
    using Cons.prems(2) set_line_Nil [of "line_effect env l c"] by simp
  have n: "n + length l + 2 + length (header_block Ls) = n + length (header_block (l # Ls))"
    by (simp add: header_block_def crlf_def)
  have "normal_headers env N c ?V n = normal_headers env N (set_line [] ?c) (header_block Ls @ body) (n + length l + 2)"
    by (subst normal_headers.simps)
      (simp only: Let_def f option.case Cons.prems(2) append_Nil d normal_line_effect [OF ok] l(1)
        length_0_conv simp_thms if_False)
  also have "\<dots> = Some (normal_done (fold (line_effect env) Ls (line_effect env l c))
      (n + length l + 2 + length (header_block Ls)))"
    unfolding c using Cons.prems(2) by (intro Cons.IH [OF Ls]) simp
  finally show ?case unfolding V n by simp
qed

lemma line_effects_Http:
  "RebuiltHttpHeader (Http (fold (line_effect env) Lines c)) =
     RebuiltHttpHeader (Http c) @ concat (map rebuilt_line Lines)"
  "AuthNamePass (Http (fold (line_effect env) Lines c)) = fold (line_auth env) Lines (AuthNamePass (Http c))"
  by (induction Lines arbitrary: c) auto

text \<open>
  the headers behind a \<^verbatim>\<open>CONNECT\<close> line, received in one piece, end in one authentication request
  with the decoded text of the last \<^verbatim>\<open>Proxy-Authorization\<close> line, which uses up exactly the headers;
  without one the client gets the 407 answer and nothing is used up.
\<close>

theorem connect_headers_authorize:
  assumes "list_all header_ok Lines"
  shows "OnHttpRawChallenge env c (header_block Lines @ body) =
    (let np = fold (line_auth env) Lines [] in
     Some (if np = [] then (Used 0, [Post407, LingerKill], c)
       else (Used (length (header_block Lines)), [RequestAuth np, SuspendReading],
         c\<lparr>Phase := eHttpRawWaitForAccountExchange\<rparr>)))"
  using raw_block [OF assms, of env c body "[]" 0] by (simp add: OnHttpRawChallenge_def Let_def)

definition demo_auth_line :: bytes where
  "demo_auth_line = bytes_of ''proxy-authorization: Basic YTpi''"

definition demo_lines :: "bytes list" where
  "demo_lines = [bytes_of ''Host: a'', demo_auth_line]"

lemma demo_auth_line_ok:
  "list_all header_ok demo_lines"
  "fold (line_auth demo_env) demo_lines [] = bytes_of ''YTpi''"
  by code_simp+

theorem connect_headers_authorize_witness:
  "OnHttpRawChallenge demo_env demo_conn (header_block demo_lines @ [1]) =
    Some (Used (length (header_block demo_lines)),
      [RequestAuth (bytes_of ''YTpi''), SuspendReading],
      demo_conn\<lparr>Phase := eHttpRawWaitForAccountExchange\<rparr>)"
proof -
  have "bytes_of ''YTpi'' \<noteq> []" by (simp add: bytes_of_def)
  with connect_headers_authorize [OF demo_auth_line_ok(1), of demo_env demo_conn "[1]"]
    demo_auth_line_ok(2) show ?thesis by simp
qed

text \<open>
  C23: the headers of a plain request are rebuilt line by line as the reference does it: the
  credentials and \<^verbatim>\<open>Proxy-Connection\<close> are left out, \<^verbatim>\<open>Connection\<close> becomes \<^verbatim>\<open>close\<close>, every other line is
  kept as it is. Exactly the headers are used up, and the decoded text of the last
  \<^verbatim>\<open>Proxy-Authorization\<close> line is sent for authentication.
\<close>

theorem plain_headers_rebuilt:
  assumes "list_all header_ok Lines" "HttpHeaderLine (Http c) = []"
  shows "\<exists>c'. OnHttpNormalChallenge env c (header_block Lines @ body) =
      Some (Used (length (header_block Lines)),
        if AuthNamePass (Http c') = [] then [Post407, LingerKill]
        else [RequestAuth (AuthNamePass (Http c')), SuspendReading], c') \<and>
    RebuiltHttpHeader (Http c') = RebuiltHttpHeader (Http c) @ concat (map rebuilt_line Lines) @ crlf \<and>
    AuthNamePass (Http c') = fold (line_auth env) Lines (AuthNamePass (Http c))"
  using normal_block [OF assms, of env "length (header_block Lines @ body)" body 0]
    line_effects_Http [of env Lines c]
  by (auto simp: OnHttpNormalChallenge_def normal_done_def Let_def append_header_def)

theorem plain_headers_rebuilt_witness:
  "\<exists>c'. OnHttpNormalChallenge demo_env demo_conn (header_block demo_lines) =
      Some (Used (length (header_block demo_lines)),
        [RequestAuth (bytes_of ''YTpi''), SuspendReading], c') \<and>
    RebuiltHttpHeader (Http c') = bytes_of ''Host: a'' @ crlf @ crlf"
proof -
  have e: "HttpHeaderLine (Http demo_conn) = []" "RebuiltHttpHeader (Http demo_conn) = []"
    "AuthNamePass (Http demo_conn) = []" "bytes_of ''YTpi'' \<noteq> []"
    by (simp_all add: demo_conn_def fresh_connection_def bytes_of_def)
  have r: "concat (map rebuilt_line demo_lines) = bytes_of ''Host: a'' @ crlf"
    by code_simp
  from plain_headers_rebuilt [OF demo_auth_line_ok(1) e(1), of demo_env "[]"]
  obtain c' where c': "OnHttpNormalChallenge demo_env demo_conn (header_block demo_lines @ []) =
      Some (Used (length (header_block demo_lines)),
        if AuthNamePass (Http c') = [] then [Post407, LingerKill]
        else [RequestAuth (AuthNamePass (Http c')), SuspendReading], c')"
    "RebuiltHttpHeader (Http c') = RebuiltHttpHeader (Http demo_conn) @ concat (map rebuilt_line demo_lines) @ crlf"
    "AuthNamePass (Http c') = fold (line_auth demo_env) demo_lines (AuthNamePass (Http demo_conn))"
    by blast
  have np: "AuthNamePass (Http c') = bytes_of ''YTpi''" using c'(3) e(3) demo_auth_line_ok(2) by simp
  show ?thesis
    using c'(1,2) e(4) unfolding np e(2) r append_Nil2 append_Nil append_assoc by auto
qed


subsection \<open>Where a handler fails\<close>

text \<open>
  headers of a \<^verbatim>\<open>CONNECT\<close> request that arrive without the final empty line are used up and
  forgotten, the credentials among them; when the empty line arrives, the client is refused.
\<close>

theorem connect_headers_split_refused:
  assumes "list_all header_ok Lines"
  shows "OnHttpRawChallenge env c (line_block Lines) = Some (Used (length (line_block Lines)), [], c) \<and>
    OnHttpRawChallenge env c (crlf @ body) = Some (Used 0, [Post407, LingerKill], c)"
proof
  show "OnHttpRawChallenge env c (line_block Lines) = Some (Used (length (line_block Lines)), [], c)"
    using raw_lines [OF assms, of env c "[]" "[]" 0]
    by (simp add: OnHttpRawChallenge_def raw_headers.simps [of env c "[]"])
  have "header_block [] = crlf" by (simp add: header_block_def)
  then show "OnHttpRawChallenge env c (crlf @ body) = Some (Used 0, [Post407, LingerKill], c)"
    using raw_block [of "[]" env c body "[]" 0] by (simp add: OnHttpRawChallenge_def)
qed

theorem connect_headers_split_refused_witness:
  "OnHttpRawChallenge demo_env demo_conn (line_block demo_lines) =
    Some (Used (length (line_block demo_lines)), [], demo_conn) \<and>
   OnHttpRawChallenge demo_env demo_conn (crlf @ []) = Some (Used 0, [Post407, LingerKill], demo_conn)"
  by (rule connect_headers_split_refused [OF demo_auth_line_ok(1)])

text \<open>
  A \<^verbatim>\<open>Proxy-Authorization\<close> line of a plain request that arrives in two pieces, the second shorter
  than 21 bytes, makes the length of the credentials wrap below zero.
\<close>

lemma split_authorization_wraps:
  "OnHttpNormalChallenge env (set_line (bytes_of ''Proxy-Authorization: Basic '') c)
     (bytes_of ''YTpi'' @ crlf @ rest) = None"
proof -
  let ?s = "bytes_of ''YTpi''" and ?p = "bytes_of ''Proxy-Authorization: Basic ''"
  have "13 \<notin> set ?s" by code_simp
  from find_crlf_line [OF this] have f: "find_crlf (?s @ crlf @ rest) = Some 4" by simp
  have "is_header ''Proxy-Authorization: '' (?p @ ?s)" by code_simp
  then have "normal_line env (?p @ ?s) 4 d = None" for d
    using header_exclusive [of "?p @ ?s"] by (simp add: normal_line_def auth_header_def Let_def)
  then show ?thesis
    by (simp add: OnHttpNormalChallenge_def normal_headers.simps f set_line_def Let_def del: append_assoc)
qed

lemma basic_no_cr: "list_all (\<lambda>k. to_lower 13 \<noteq> to_lower (of_char (''Basic '' ! k))) [0..<6]"
  by code_simp

lemma raw_headers_total: "raw_headers env c V NP n \<noteq> None"
proof (induction env c V NP n rule: raw_headers.induct)
  case (1 env c V NP n)
  show ?case
  proof (cases "find_crlf V")
    case (Some l)
    show ?thesis
    proof (cases l)
      case (Suc k)
      have "auth_header env V (Suc k) \<noteq> None" if "21 < Suc k"
      proof
        assume "auth_header env V (Suc k) = None"
        then have b: "starts_nocase ''Basic '' (drop 21 V)" "Suc k - 21 < 6"
          using that by (auto simp: auth_header_def Let_def split: if_splits)
        have "Suc k + 2 \<le> length V" using find_crlf_bound Some Suc by blast
        moreover have "V ! Suc k = 13" using find_crlf_nth Some Suc by blast
        ultimately have "drop 21 V ! (Suc k - 21) = 13" using that by simp
        with starts_nocase_nth [OF b(1), of "Suc k - 21"] b(2) basic_no_cr show False
          by (simp add: list_all_iff)
      qed
      then show ?thesis using Some Suc "1.IH" [OF Some Suc]
        by (subst raw_headers.simps) (auto simp: Let_def split: option.split)
    qed (use Some in \<open>simp add: raw_headers.simps [of env c V]\<close>)
  qed (simp add: raw_headers.simps [of env c V])
qed

text \<open>
  The first line of a connection: only a \<^verbatim>\<open>CONNECT\<close> line can make \<^verbatim>\<open>atoi\<close> read behind the data, because a request line
  with a URL has the slash of its path behind the port.
\<close>

lemma nth_find_byte: "find_byte b s = Some i \<Longrightarrow> i < length s \<and> s ! i = b"
  by (induction s arbitrary: i) (auto split: if_splits)

lemma slash_ends: "47 \<in> set s \<Longrightarrow> atoi_ends s"
  using number_bytes(3,4) by (rule_tac ccontr, unfold atoi_ends_iff) (auto simp: list_all_iff)

lemma OnHttpPlain_total: "OnHttpPlain c D L \<noteq> None"
proof -
  have never: False if f: "find_from 47 i0 (take L D) = Some p" and "scan_host 47 (Suc p - u) (drop u D) [] = None" for p i0 u
  proof -
    from that(2) obtain h s where h: "drop u D = h @ 58 # s" "length h < Suc p - u" "\<not> atoi_ends s"
      unfolding scan_host_endless endless_port_def by blast
    obtain i where i: "find_byte 47 (drop i0 (take L D)) = Some i" "p = i0 + i" using f by (auto simp: find_from_def)
    have p: "p < length (take L D)" "take L D ! p = 47"
      using nth_find_byte [OF i(1)] nth_drop [of i0 "take L D" i] unfolding i(2)
      by (auto simp del: length_take nth_take nth_drop)
    then have "D ! p = 47" "p < length D" by auto
    then have at: "(h @ 58 # s) ! (p - u) = 47" "p - u < length (h @ 58 # s)" using h(1,2) by (auto simp flip: h(1))
    have "length h \<noteq> p - u"
    proof
      assume "length h = p - u"
      with at(1) have "(h @ 58 # s) ! length h = 47" by simp
      then show False unfolding nth_append_length by simp
    qed
    then have "length h < p - u" using h(2) by simp
    then have "(58 # s) ! (p - u - length h) = 47" "p - u - length h < Suc (length s)" using at by (simp_all add: nth_append)
    then have "s ! (p - u - length h - 1) = 47" "p - u - length h - 1 < length s"
      using \<open>length h < p - u\<close> by (simp_all add: nth_Cons' split: if_splits)
    then have "47 \<in> set s" using nth_mem by metis
    with h(3) slash_ends show False by blast
  qed
  show ?thesis by (auto simp: OnHttpPlain_def Let_def split: option.splits prod.splits dest: never)
qed

definition endless_connect :: "bytes \<Rightarrow> bool" where
  "endless_connect D \<longleftrightarrow> (\<exists>L h w g d. find_crlf D = Some L \<and> starts_nocase ''CONNECT '' D \<and>
     drop 8 D = h @ 58 # w @ g @ d \<and> 58 \<notin> set h \<and> 32 \<notin> set h \<and> length h < L - 8 \<and>
     list_all white_space w \<and> g \<in> {[], [43], [45]} \<and> list_all is_digit d)"

lemma OnChallenge_fails: "OnChallenge c D = None \<longleftrightarrow> endless_connect D"
proof -
  have e: "endless_connect D \<longleftrightarrow> (\<exists>L. find_crlf D = Some L \<and> starts_nocase ''CONNECT '' D \<and> endless_port 32 (L - 8) (drop 8 D))"
    unfolding endless_connect_def endless_port_def atoi_ends_iff by blast
  have first: "8 \<le> length D \<and> to_lower (D ! 0) = 99" if "starts_nocase ''CONNECT '' D"
    using that starts_nocase_nth [OF that, of 0] by (simp add: starts_nocase_def to_lower_def)
  have "OnHttpConnect c D L = None \<longleftrightarrow> endless_port 32 (L - 8) (drop 8 D)" for L
    unfolding scan_host_endless [symmetric, where acc = "[]"] by (auto simp: OnHttpConnect_def split: option.splits)
  then have "OnHttpChallenge c D = None \<longleftrightarrow> endless_connect D"
    unfolding e OnHttpChallenge_def using OnHttpPlain_total [of c D]
    by (auto simp: endless_port_def split: option.splits)
  moreover have "\<not> endless_connect D" if "length D < 3 \<or> D ! 0 = 5"
    using that first unfolding endless_connect_def by (auto simp: to_lower_def)
  ultimately show ?thesis by (auto simp: OnChallenge_def)
qed

text \<open>
  The headers of a plain request: only the line that an earlier piece of data began can make the length of the
  credentials wrap, when less than the credentials of it arrive with the last piece.
\<close>

definition split_credentials :: "bytes \<Rightarrow> bytes \<Rightarrow> bool" where
  "split_credentials Line D \<longleftrightarrow> (\<exists>n. find_crlf D = Some n \<and> is_header ''Proxy-Authorization: '' (Line @ take n D) \<and>
     (n < 21 \<or> n < 27 \<and> starts_nocase ''Basic '' (drop 21 (Line @ take n D))))"

lemma auth_header_fails:
  "auth_header env Line n = None \<longleftrightarrow> n < 21 \<or> n < 27 \<and> starts_nocase ''Basic '' (drop 21 Line)"
  by (auto simp: auth_header_def Let_def)

lemma normal_line_fails:
  "normal_line env Line n c = None \<longleftrightarrow>
     is_header ''Proxy-Authorization: '' Line \<and> (n < 21 \<or> n < 27 \<and> starts_nocase ''Basic '' (drop 21 Line))"
proof (cases "is_header ''Proxy-Authorization: '' Line")
  case True
  show ?thesis unfolding auth_header_fails [symmetric, where env = env] using True header_exclusive [OF True]
    by (simp add: normal_line_def split: option.splits)
next
  case False
  then show ?thesis by (simp add: normal_line_def)
qed

lemma whole_line_ends: "find_crlf V = Some n \<Longrightarrow> normal_line env (take n V) n c \<noteq> None"
proof
  assume f: "find_crlf V = Some n" and "normal_line env (take n V) n c = None"
  then have h: "is_header ''Proxy-Authorization: '' (take n V)" "n < 21 \<or> n < 27 \<and> starts_nocase ''Basic '' (drop 21 (take n V))"
    unfolding normal_line_fails by blast+
  have "n \<le> length V" using find_crlf_bound [OF f] by simp
  then have "21 < n" using h(1) by (simp add: is_header_def)
  moreover have "27 \<le> n" if "starts_nocase ''Basic '' (drop 21 (take n V))"
    using that \<open>n \<le> length V\<close> \<open>21 < n\<close> by (simp add: starts_nocase_def) arith
  ultimately show False using h(2) by auto
qed

lemma normal_headers_whole: "HttpHeaderLine (Http c) = [] \<Longrightarrow> normal_headers env N c V n \<noteq> None"
proof (induction env N c V n rule: normal_headers.induct)
  case (1 env N c V n)
  note IH = "1.IH" [OF refl]
  show ?case
  proof (cases "find_crlf V")
    case None
    then show ?thesis by (simp add: normal_headers.simps [of env N c V] Let_def)
  next
    case (Some k)
    have "normal_line env (take k V) k (set_line (take k V) c) \<noteq> None" by (rule whole_line_ends [OF Some])
    then show ?thesis using Some "1.prems" IH [OF Some]
      by (subst normal_headers.simps) (auto simp: Let_def set_line_def simp del: not_None_eq split: option.split)
  qed
qed

lemma OnHttpNormalChallenge_fails: "OnHttpNormalChallenge env c D = None \<longleftrightarrow> split_credentials (HttpHeaderLine (Http c)) D"
proof (cases "find_crlf D")
  case None
  then show ?thesis by (simp add: OnHttpNormalChallenge_def normal_headers.simps [of env _ c D] split_credentials_def Let_def)
next
  case (Some n)
  let ?Line = "HttpHeaderLine (Http c) @ take n D"
  have s: "split_credentials (HttpHeaderLine (Http c)) D \<longleftrightarrow> normal_line env ?Line n (set_line ?Line c) = None"
    unfolding split_credentials_def normal_line_fails by (simp add: Some)
  show ?thesis
  proof (cases "n = 0 \<and> HttpHeaderLine (Http c) = []")
    case True
    then have "\<not> split_credentials (HttpHeaderLine (Http c)) D" by (simp add: split_credentials_def Some is_header_def)
    then show ?thesis using True Some by (simp add: OnHttpNormalChallenge_def normal_headers.simps [of env _ c D] Let_def)
  next
    case False
    have "normal_headers env N (set_line [] d) V k \<noteq> None" for N d V k
      by (rule normal_headers_whole) (simp add: set_line_def)
    then show ?thesis unfolding s OnHttpNormalChallenge_def using False Some
      by (subst normal_headers.simps) (auto simp: Let_def simp del: not_None_eq split: option.split)
  qed
qed

text \<open>
  C26: exactly these events stop the process or read outside of a buffer: a state message of the relay
  other than "established" for a connection that waits for it, a destroy message of the relay for an
  HTTP connection that waits for it (the 502 answer is shorter than the length it is posted with), a first line
  \<^verbatim>\<open>CONNECT host:\<close> with only white space, a sign and digits behind the colon up to the end of the data, and the
  rest of a \<^verbatim>\<open>Proxy-Authorization\<close> line of a plain request that began in an earlier piece, when it is so short
  that the length of the credentials wraps. In the other phases no data of a client does.
\<close>

theorem handler_fails_iff:
  "handle env c e = None \<longleftrightarrow>
     (case e of
        EvState N \<Rightarrow> stage c = Connecting \<and> xPR_ConnectionStateNotify.NewState N \<noteq> STATE_ESTABLISHED
      | EvDestroy \<Rightarrow> stage c = Connecting \<and> Phase c \<noteq> eS5WaitForConnectionEstablish
      | EvData D \<Rightarrow> Phase c = eUnknown \<and> endless_connect D \<or>
          Phase c = eHttpNormalChallenge \<and> split_credentials (HttpHeaderLine (Http c)) D
      | _ \<Rightarrow> False)"
proof (cases e)
  case (EvData D)
  then show ?thesis using raw_headers_total OnChallenge_fails [of c D] OnHttpNormalChallenge_fails [of env c D]
    by (cases "Phase c") (auto simp: handle_def OnData_def OnHttpRawChallenge_def)
next
  case (EvState N)
  then show ?thesis
    by (cases "Phase c")
      (auto simp: handle_def OnRelaySideConnectionStateChange_def Let_def post_literal_def literal_lengths
        split: prod.split)
next
  case EvDestroy
  then show ?thesis
    by (cases "Phase c") (auto simp: handle_def OnDestroyConnection_def post_literal_def literal_lengths)
qed (auto simp: handle_def)

text \<open>\<^verbatim>\<open>CONNECT a:\<close> and a line end, as a new client's first data.\<close>

theorem handler_fails_iff_witness:
  "handle demo_env (demo_conn\<lparr>Phase := eUnknown\<rparr>) (EvData (bytes_of ''CONNECT a:'' @ crlf)) = None \<and>
   handle demo_env (demo_conn\<lparr>Phase := eUnknown\<rparr>) (EvData (bytes_of ''CONNECT a:1'' @ crlf)) \<noteq> None"
proof -
  have d: "drop 8 (bytes_of ''CONNECT a:'' @ crlf) = [97] @ 58 # crlf @ [] @ []"
    "drop 8 (bytes_of ''CONNECT a:1'' @ crlf) = [97] @ 58 # 49 # crlf" by code_simp+
  have "find_crlf (bytes_of ''CONNECT a:'' @ crlf) = Some 10" "starts_nocase ''CONNECT '' (bytes_of ''CONNECT a:'' @ crlf)" by code_simp+
  moreover have "list_all white_space crlf" by code_simp
  ultimately have e: "endless_connect (bytes_of ''CONNECT a:'' @ crlf)"
    unfolding endless_connect_def using d(1)
    by (intro exI [of _ 10] exI [of _ "[97]"] exI [of _ crlf] exI [of _ "[]"] exI [of _ "[]"]) simp
  have "(OnChallenge (demo_conn\<lparr>Phase := eUnknown\<rparr>) (bytes_of ''CONNECT a:1'' @ crlf) :: ref_addr reply option) \<noteq> None" by code_simp
  then have "\<not> endless_connect (bytes_of ''CONNECT a:1'' @ crlf)" unfolding OnChallenge_fails .
  with e show ?thesis using handler_fails_iff [of demo_env "demo_conn\<lparr>Phase := eUnknown\<rparr>"] by simp
qed

end
