(* ===== verification/ClientManager.thy ===== *)
theory ClientManager
  imports ClientSession
begin

text \<open>
  The connection manager of the proxy access server around the handlers of ClientConnection: the
  pool of connections, the list of connections whose account is not yet checked, the list of
  connections that exchange data, and the two kill lists, with the handlers' list operations, the
  arrival and the clean-up of connections, the dispatch of messages to a connection, and the loops
  of the tick (\<^verbatim>\<open>server_proxy_access/client_connection_manager.cpp\<close>, \<^verbatim>\<open>.hpp\<close>). A connection is named
  by its id in the pool; the three hooks of a connection are three families of lists.
\<close>

subsection \<open>State and operations\<close>

datatype kill_list = KillConnectionList | LingerKillConnectionList

record ('p, 'a, 'i, 'k) manager_lib =
  ml_pool :: "('p, xPA_ClientConnection) storage_ops"
  ml_account :: "('a, unit, u64) list_ops"
  ml_idle :: "('i, unit, u64) list_ops"
  ml_kill :: "('k, kill_list, u64) list_ops"

record ('p, 'a, 'i, 'k) client_manager =
  cm_Ticker :: u64
  ConnectionPool :: 'p
  AccountTimeoutList :: 'a
  IdleConnectionList :: 'i
  KillLists :: 'k

definition MAX_ACCOUNT_CHECK_TIMEOUT :: u64 where "MAX_ACCOUNT_CHECK_TIMEOUT = 3000"
definition MAX_CONNECTION_LIGNER_KILL_TIMEOUT :: u64 where "MAX_CONNECTION_LIGNER_KILL_TIMEOUT = 10000"

definition GetConnectionById ::
    "('p, 'a, 'i, 'k) manager_lib \<Rightarrow> ('p, 'a, 'i, 'k) client_manager \<Rightarrow> u64 \<Rightarrow> xPA_ClientConnection option" where
  "GetConnectionById ml s i = st_get (ml_pool ml) (ConnectionPool s) i"

text \<open>A write to a field of the connection object.\<close>

definition update_conn ::
    "('p, 'a, 'i, 'k) manager_lib \<Rightarrow> u64 \<Rightarrow> (xPA_ClientConnection \<Rightarrow> xPA_ClientConnection) \<Rightarrow>
     ('p, 'a, 'i, 'k) client_manager \<Rightarrow> ('p, 'a, 'i, 'k) client_manager" where
  "update_conn ml i f s =
     (case GetConnectionById ml s i of None \<Rightarrow> s
      | Some c \<Rightarrow> s\<lparr>ConnectionPool := st_put (ml_pool ml) (ConnectionPool s) i (f c)\<rparr>)"

definition LingerKillConn ::
    "('p, 'a, 'i, 'k) manager_lib \<Rightarrow> u64 \<Rightarrow> ('p, 'a, 'i, 'k) client_manager \<Rightarrow> ('p, 'a, 'i, 'k) client_manager" where
  "LingerKillConn ml i s =
     (update_conn ml i (\<lambda>c. c\<lparr>LingerKillTimestamp := cm_Ticker s\<rparr>) s)
       \<lparr>KillLists := li_grab_tail (ml_kill ml) (KillLists s) LingerKillConnectionList i\<rparr>"

definition KillConn ::
    "('p, 'a, 'i, 'k) manager_lib \<Rightarrow> u64 \<Rightarrow> ('p, 'a, 'i, 'k) client_manager \<Rightarrow> ('p, 'a, 'i, 'k) client_manager" where
  "KillConn ml i s = s\<lparr>KillLists := li_grab_tail (ml_kill ml) (KillLists s) KillConnectionList i\<rparr>"

definition KeepAliveConn ::
    "('p, 'a, 'i, 'k) manager_lib \<Rightarrow> u64 \<Rightarrow> ('p, 'a, 'i, 'k) client_manager \<Rightarrow> ('p, 'a, 'i, 'k) client_manager" where
  "KeepAliveConn ml i s =
     (update_conn ml i (\<lambda>c. c\<lparr>LastDataExchangeTimestampMS := cm_Ticker s\<rparr>) s)
       \<lparr>IdleConnectionList := li_grab_tail (ml_idle ml) (IdleConnectionList s) () i\<rparr>"

text \<open>The actions of a handler on the manager's own lists; the others go out.\<close>

fun perform ::
    "('p, 'a, 'i, 'k) manager_lib \<Rightarrow> u64 \<Rightarrow> 'n action \<Rightarrow> ('p, 'a, 'i, 'k) client_manager \<Rightarrow>
     ('p, 'a, 'i, 'k) client_manager" where
  "perform ml i Kill s = KillConn ml i s"
| "perform ml i LingerKill s = LingerKillConn ml i s"
| "perform ml i KeepAlive s = KeepAliveConn ml i s"
| "perform ml i RemoveAccountCheck s =
     s\<lparr>AccountTimeoutList := li_remove (ml_account ml) (AccountTimeoutList s) i\<rparr>"
| "perform ml i _ s = s"

text \<open>
  A handler on the connection with the id: nothing happens when it is gone; otherwise the connection
  is written back and the actions are performed in order.
\<close>

definition dispatch ::
    "('p, 'a, 'i, 'k) manager_lib \<Rightarrow> 'n pa_env \<Rightarrow> u64 \<Rightarrow> conn_event \<Rightarrow> ('p, 'a, 'i, 'k) client_manager \<Rightarrow>
     ('n action list \<times> ('p, 'a, 'i, 'k) client_manager) option" where
  "dispatch ml env i e s =
     (case GetConnectionById ml s i of
        None \<Rightarrow> Some ([], s)
      | Some c \<Rightarrow>
          (case handle env c e of
             None \<Rightarrow> None
           | Some (acts, c') \<Rightarrow> Some (acts, fold (perform ml i) acts
               (s\<lparr>ConnectionPool := st_put (ml_pool ml) (ConnectionPool s) i c'\<rparr>))))"

definition Manager_OnAuthResult ::
    "('p, 'a, 'i, 'k) manager_lib \<Rightarrow> 'n pa_env \<Rightarrow> u64 \<Rightarrow> xPA_AuthResult option \<Rightarrow>
     ('p, 'a, 'i, 'k) client_manager \<Rightarrow> ('n action list \<times> ('p, 'a, 'i, 'k) client_manager) option" where
  "Manager_OnAuthResult ml env SourceClientConnectionId PR s =
     dispatch ml env SourceClientConnectionId (EvAuth PR) s"

definition Manager_OnDeviceSelected ::
    "('p, 'a, 'i, 'k) manager_lib \<Rightarrow> 'n pa_env \<Rightarrow> xPA_DeviceRequestResp \<Rightarrow>
     ('p, 'a, 'i, 'k) client_manager \<Rightarrow> ('n action list \<times> ('p, 'a, 'i, 'k) client_manager) option" where
  "Manager_OnDeviceSelected ml env R s = dispatch ml env (RespClientConnectionId R) (EvDevice R) s"

text \<open>Messages of the relay servers; one that does not deserialise is dropped.\<close>

definition Manager_OnRelaySideConnectionStateChange ::
    "'x wire \<Rightarrow> ('p, 'a, 'i, 'k) manager_lib \<Rightarrow> 'n pa_env \<Rightarrow> bytes \<Rightarrow>
     ('p, 'a, 'i, 'k) client_manager \<Rightarrow> ('n action list \<times> ('p, 'a, 'i, 'k) client_manager) option" where
  "Manager_OnRelaySideConnectionStateChange wc ml env Payload s =
     (case des_xPR_ConnectionStateNotify wc Payload of None \<Rightarrow> Some ([], s)
      | Some (N, _) \<Rightarrow>
          dispatch ml env (xPR_ConnectionStateNotify.ProxySideConnectionId N) (EvState N) s)"

definition Manager_OnDestroyConnection ::
    "'x wire \<Rightarrow> ('p, 'a, 'i, 'k) manager_lib \<Rightarrow> 'n pa_env \<Rightarrow> bytes \<Rightarrow>
     ('p, 'a, 'i, 'k) client_manager \<Rightarrow> ('n action list \<times> ('p, 'a, 'i, 'k) client_manager) option" where
  "Manager_OnDestroyConnection wc ml env Payload s =
     (case des_xPR_DestroyConnection wc Payload of None \<Rightarrow> Some ([], s)
      | Some (N, _) \<Rightarrow> dispatch ml env (xPR_DestroyConnection.ProxySideConnectionId N) EvDestroy s)"

definition Manager_OnRelaySidePushData ::
    "'x wire \<Rightarrow> ('p, 'a, 'i, 'k) manager_lib \<Rightarrow> 'n pa_env \<Rightarrow> bytes \<Rightarrow>
     ('p, 'a, 'i, 'k) client_manager \<Rightarrow> ('n action list \<times> ('p, 'a, 'i, 'k) client_manager) option" where
  "Manager_OnRelaySidePushData wc ml env Payload s =
     (case des_xPR_PushData wc Payload of None \<Rightarrow> Some ([], s)
      | Some (N, _) \<Rightarrow>
          dispatch ml env (xPR_PushData.ProxySideConnectionId N) (EvPush N (length Payload)) s)"

text \<open>\<open>init_ok\<close> is the result of the socket's \<^verbatim>\<open>Init\<close>.\<close>

definition OnNewConnection ::
    "('p, 'a, 'i, 'k) manager_lib \<Rightarrow> bool \<Rightarrow> ('p, 'a, 'i, 'k) client_manager \<Rightarrow> ('p, 'a, 'i, 'k) client_manager" where
  "OnNewConnection ml init_ok s =
     (let (CID, p) = st_acquire (ml_pool ml) (ConnectionPool s) in
      if CID = 0 then s\<lparr>ConnectionPool := p\<rparr>
      else if \<not> init_ok then s\<lparr>ConnectionPool := st_release (ml_pool ml) p CID\<rparr>
      else
        s\<lparr>ConnectionPool := st_put (ml_pool ml) p CID
            (fresh_connection\<lparr>ConnectionId := CID, CheckAccountTimestampMS := cm_Ticker s\<rparr>),
          AccountTimeoutList := li_add_tail (ml_account ml) (AccountTimeoutList s) () CID\<rparr>)"

text \<open>
  \<^verbatim>\<open>CleanupConnection\<close> releases the slot of the connection's own id; the destructor takes the object
  out of every list.
\<close>

definition CleanupConnection ::
    "('p, 'a, 'i, 'k) manager_lib \<Rightarrow> u64 \<Rightarrow> ('p, 'a, 'i, 'k) client_manager \<Rightarrow> ('p, 'a, 'i, 'k) client_manager" where
  "CleanupConnection ml i s =
     (case GetConnectionById ml s i of None \<Rightarrow> s
      | Some c \<Rightarrow>
          s\<lparr>ConnectionPool := st_release (ml_pool ml) (ConnectionPool s) (ConnectionId c),
            AccountTimeoutList := li_remove (ml_account ml) (AccountTimeoutList s) i,
            IdleConnectionList := li_remove (ml_idle ml) (IdleConnectionList s) i,
            KillLists := li_remove (ml_kill ml) (KillLists s) i\<rparr>)"

definition older ::
    "('p, 'a, 'i, 'k) manager_lib \<Rightarrow> ('p, 'a, 'i, 'k) client_manager \<Rightarrow> (xPA_ClientConnection \<Rightarrow> u64) \<Rightarrow>
     u64 \<Rightarrow> u64 \<Rightarrow> bool" where
  "older ml s time KTP i = (case GetConnectionById ml s i of Some c \<Rightarrow> time c < KTP | None \<Rightarrow> False)"

definition pop_account ::
    "('p, 'a, 'i, 'k) manager_lib \<Rightarrow> u64 \<Rightarrow> ('p, 'a, 'i, 'k) client_manager \<Rightarrow>
     (u64 \<times> ('p, 'a, 'i, 'k) client_manager) option" where
  "pop_account ml KTP s =
     map_option (\<lambda>(i, l). (i, s\<lparr>AccountTimeoutList := l\<rparr>))
       (li_pop_head (ml_account ml) (AccountTimeoutList s) () (older ml s CheckAccountTimestampMS KTP))"

definition pop_linger ::
    "('p, 'a, 'i, 'k) manager_lib \<Rightarrow> u64 \<Rightarrow> ('p, 'a, 'i, 'k) client_manager \<Rightarrow>
     (u64 \<times> ('p, 'a, 'i, 'k) client_manager) option" where
  "pop_linger ml KTP s =
     map_option (\<lambda>(i, l). (i, s\<lparr>KillLists := l\<rparr>))
       (li_pop_head (ml_kill ml) (KillLists s) LingerKillConnectionList (older ml s LingerKillTimestamp KTP))"

definition pop_kill ::
    "('p, 'a, 'i, 'k) manager_lib \<Rightarrow> ('p, 'a, 'i, 'k) client_manager \<Rightarrow>
     (u64 \<times> ('p, 'a, 'i, 'k) client_manager) option" where
  "pop_kill ml s =
     map_option (\<lambda>(i, l). (i, s\<lparr>KillLists := l\<rparr>))
       (li_pop_head (ml_kill ml) (KillLists s) KillConnectionList (\<lambda>_. True))"

text \<open>The three loops of the tick.\<close>

definition Manager_OnTick ::
    "('p, 'a, 'i, 'k) manager_lib \<Rightarrow> ('p, 'a, 'i, 'k) client_manager \<Rightarrow>
     ('p, 'a, 'i, 'k) client_manager option" where
  "Manager_OnTick ml s =
     Option.bind (pop_loop (pop_account ml (cm_Ticker s - MAX_ACCOUNT_CHECK_TIMEOUT)) (CleanupConnection ml) s)
       (\<lambda>s1. Option.bind
          (pop_loop (pop_linger ml (cm_Ticker s - MAX_CONNECTION_LIGNER_KILL_TIMEOUT)) (CleanupConnection ml) s1)
          (pop_loop (pop_kill ml) (CleanupConnection ml)))"

definition Manager_Tick ::
    "('p, 'a, 'i, 'k) manager_lib \<Rightarrow> u64 \<Rightarrow> ('p, 'a, 'i, 'k) client_manager \<Rightarrow>
     ('p, 'a, 'i, 'k) client_manager option" where
  "Manager_Tick ml NowMS s = Manager_OnTick ml (s\<lparr>cm_Ticker := NowMS\<rparr>)"


subsection \<open>What the manager implements\<close>

text \<open>
  The abstract manager: the connections by id and four lists of ids, where a connection that goes
  away leaves every list.
\<close>

record manager_view =
  v_now :: u64
  v_conns :: "u64 \<Rightarrow> xPA_ClientConnection option"
  v_account :: "u64 list"
  v_idle :: "u64 list"
  v_linger :: "u64 list"
  v_kill :: "u64 list"

definition a_update :: "u64 \<Rightarrow> (xPA_ClientConnection \<Rightarrow> xPA_ClientConnection) \<Rightarrow> manager_view \<Rightarrow> manager_view" where
  "a_update i f v = v\<lparr>v_conns := (v_conns v)(i := map_option f (v_conns v i))\<rparr>"

fun a_perform :: "u64 \<Rightarrow> 'n action \<Rightarrow> manager_view \<Rightarrow> manager_view" where
  "a_perform i Kill v =
     v\<lparr>v_linger := removeAll i (v_linger v), v_kill := removeAll i (v_kill v) @ [i]\<rparr>"
| "a_perform i LingerKill v = (a_update i (\<lambda>c. c\<lparr>LingerKillTimestamp := v_now v\<rparr>) v)
     \<lparr>v_linger := removeAll i (v_linger v) @ [i], v_kill := removeAll i (v_kill v)\<rparr>"
| "a_perform i KeepAlive v = (a_update i (\<lambda>c. c\<lparr>LastDataExchangeTimestampMS := v_now v\<rparr>) v)
     \<lparr>v_idle := removeAll i (v_idle v) @ [i]\<rparr>"
| "a_perform i RemoveAccountCheck v = v\<lparr>v_account := removeAll i (v_account v)\<rparr>"
| "a_perform i _ v = v"

definition a_dispatch ::
    "'n pa_env \<Rightarrow> u64 \<Rightarrow> conn_event \<Rightarrow> manager_view \<Rightarrow> ('n action list \<times> manager_view) option" where
  "a_dispatch env i e v =
     (case v_conns v i of None \<Rightarrow> Some ([], v)
      | Some c \<Rightarrow> map_option (\<lambda>(acts, c'). (acts, fold (a_perform i) acts (a_update i (\<lambda>_. c') v)))
          (handle env c e))"

definition a_new :: "u64 \<Rightarrow> manager_view \<Rightarrow> manager_view" where
  "a_new i v = v\<lparr>v_conns := (v_conns v)(i \<mapsto>
       fresh_connection\<lparr>ConnectionId := i, CheckAccountTimestampMS := v_now v\<rparr>),
     v_account := v_account v @ [i]\<rparr>"

definition a_remove :: "u64 set \<Rightarrow> manager_view \<Rightarrow> manager_view" where
  "a_remove D v = v\<lparr>v_conns := (v_conns v) |` (- D),
     v_account := filter (\<lambda>i. i \<notin> D) (v_account v), v_idle := filter (\<lambda>i. i \<notin> D) (v_idle v),
     v_linger := filter (\<lambda>i. i \<notin> D) (v_linger v), v_kill := filter (\<lambda>i. i \<notin> D) (v_kill v)\<rparr>"

lemma a_remove_simps [simp]:
  "v_now (a_remove D v) = v_now v" "v_conns (a_remove D v) = v_conns v |` (- D)"
  "v_account (a_remove D v) = filter (\<lambda>i. i \<notin> D) (v_account v)"
  "v_idle (a_remove D v) = filter (\<lambda>i. i \<notin> D) (v_idle v)"
  "v_linger (a_remove D v) = filter (\<lambda>i. i \<notin> D) (v_linger v)"
  "v_kill (a_remove D v) = filter (\<lambda>i. i \<notin> D) (v_kill v)"
  by (simp_all add: a_remove_def)

lemma removeAll_filter: "removeAll i l = filter (\<lambda>j. j \<noteq> i) l"
  by (induction l) auto

lemma a_remove_twice: "a_remove A (a_remove B v) = a_remove (A \<union> B) v"
  by (simp add: a_remove_def Compl_Un Int_commute conj_commute cong: conj_cong)

definition late :: "(xPA_ClientConnection \<Rightarrow> u64) \<Rightarrow> u64 \<Rightarrow> manager_view \<Rightarrow> u64 \<Rightarrow> bool" where
  "late time KTP v i = (case v_conns v i of Some c \<Rightarrow> time c < KTP | None \<Rightarrow> False)"

definition a_tick :: "u64 \<Rightarrow> manager_view \<Rightarrow> manager_view" where
  "a_tick now v0 =
     (let v = v0\<lparr>v_now := now\<rparr> in
      a_remove (set (v_kill v) \<union>
        set (filter (late LingerKillTimestamp (now - MAX_CONNECTION_LIGNER_KILL_TIMEOUT) v) (v_linger v)) \<union>
        set (filter (late CheckAccountTimestampMS (now - MAX_ACCOUNT_CHECK_TIMEOUT) v) (v_account v))) v)"

text \<open>
  The invariant of the abstract manager. A connection is on the account list exactly until it is
  authorized, and every connection is on the account list or on the idle list.
\<close>

definition times :: "(xPA_ClientConnection \<Rightarrow> u64) \<Rightarrow> manager_view \<Rightarrow> u64 list \<Rightarrow> u64 list" where
  "times f v l = map (\<lambda>i. case v_conns v i of Some c \<Rightarrow> f c | None \<Rightarrow> 0) l"

text \<open>The list is in the order of a timestamp, none of which lies in the future.\<close>

definition timed :: "(xPA_ClientConnection \<Rightarrow> u64) \<Rightarrow> manager_view \<Rightarrow> u64 list \<Rightarrow> bool" where
  "timed f v l \<longleftrightarrow> sorted (times f v l) \<and> (\<forall>t \<in> set (times f v l). t \<le> v_now v)"

definition lists_ok :: "manager_view \<Rightarrow> bool" where
  "lists_ok v \<longleftrightarrow>
     distinct (v_account v) \<and> distinct (v_idle v) \<and> distinct (v_linger v @ v_kill v) \<and>
     set (v_account v) \<union> set (v_idle v) \<union> set (v_linger v) \<union> set (v_kill v) \<subseteq> dom (v_conns v)"

definition conns_ok :: "manager_view \<Rightarrow> bool" where
  "conns_ok v \<longleftrightarrow> (\<forall>i c. v_conns v i = Some c \<longrightarrow> ConnectionId c = i \<and>
     (i \<in> set (v_account v) \<longleftrightarrow> rank (stage c) < 2) \<and> (i \<in> set (v_account v) \<or> i \<in> set (v_idle v)))"

definition view_ok :: "manager_view \<Rightarrow> bool" where
  "view_ok v \<longleftrightarrow> lists_ok v \<and> conns_ok v \<and> timed CheckAccountTimestampMS v (v_account v) \<and>
     timed LingerKillTimestamp v (v_linger v)"

lemma timed_cong:
  assumes "v_now v = v_now w" "\<And>i. i \<in> set l \<Longrightarrow> map_option f (v_conns v i) = map_option f (v_conns w i)"
  shows "timed f v l = timed f w l"
proof -
  have "(case v_conns v i of Some c \<Rightarrow> f c | None \<Rightarrow> 0) = (case v_conns w i of Some c \<Rightarrow> f c | None \<Rightarrow> 0)"
    if "i \<in> set l" for i
    using assms(2) [OF that] by (auto split: option.splits)
  then have "times f v l = times f w l" by (simp add: times_def)
  then show ?thesis by (simp add: timed_def assms(1))
qed

lemma timed_filter: "timed f v l \<Longrightarrow> timed f v (filter P l)"
  unfolding timed_def times_def by (auto intro: sorted_filter)

lemma timed_removeAll: "timed f v l \<Longrightarrow> timed f v (removeAll i l)"
  by (simp add: removeAll_filter_not_eq timed_filter)

lemma timed_snoc:
  "timed f v l \<Longrightarrow> v_conns v i = Some c \<Longrightarrow> f c = v_now v \<Longrightarrow> timed f v (l @ [i])"
  by (simp add: timed_def times_def sorted_append)

lemma timed_later: "timed f v l \<Longrightarrow> v_now v \<le> now \<Longrightarrow> timed f (v\<lparr>v_now := now\<rparr>) l"
  by (auto simp: timed_def times_def)

subsection \<open>The abstract operations keep the invariant\<close>

lemma view_ok_remove:
  assumes "view_ok v"
  shows "view_ok (a_remove D v)"
proof -
  have "timed f (a_remove D v) (filter (\<lambda>i. i \<notin> D) l) = timed f v (filter (\<lambda>i. i \<notin> D) l)" for f l
    by (rule timed_cong) (auto simp: restrict_map_def)
  moreover have "lists_ok (a_remove D v)"
    using assms by (auto simp: view_ok_def lists_ok_def)
  moreover have "conns_ok (a_remove D v)"
    using assms by (auto simp: view_ok_def conns_ok_def restrict_map_def split: if_splits)
  ultimately show ?thesis using assms by (simp add: view_ok_def timed_filter)
qed

lemma a_update_simps [simp]:
  "v_now (a_update i f v) = v_now v" "v_account (a_update i f v) = v_account v"
  "v_idle (a_update i f v) = v_idle v" "v_linger (a_update i f v) = v_linger v"
  "v_kill (a_update i f v) = v_kill v"
  "v_conns (a_update i f v) = (v_conns v)(i := map_option f (v_conns v i))"
  by (simp_all add: a_update_def)

lemma timed_update:
  "i \<notin> set l \<or> (\<forall>c. g (f c) = g c) \<Longrightarrow> timed g (a_update i f v) l = timed g v l"
  by (rule timed_cong) (auto simp: option.map_comp o_def)

lemma timed_lists [simp]:
  "timed f (v\<lparr>v_account := l1\<rparr>) l = timed f v l" "timed f (v\<lparr>v_idle := l1\<rparr>) l = timed f v l"
  "timed f (v\<lparr>v_linger := l1\<rparr>) l = timed f v l" "timed f (v\<lparr>v_kill := l1\<rparr>) l = timed f v l"
  by (simp_all add: timed_def times_def)

text \<open>
  The part of the invariant that the actions of a handler keep one by one; which of the two lists a
  connection is on is only right again after the last of them.
\<close>

definition queues_ok :: "manager_view \<Rightarrow> bool" where
  "queues_ok v \<longleftrightarrow> lists_ok v \<and> timed CheckAccountTimestampMS v (v_account v) \<and>
     timed LingerKillTimestamp v (v_linger v)"

lemma queues_ok_update:
  assumes "queues_ok v" "\<forall>c. CheckAccountTimestampMS (f c) = CheckAccountTimestampMS c"
    "i \<notin> set (v_linger v) \<or> (\<forall>c. LingerKillTimestamp (f c) = LingerKillTimestamp c)"
  shows "queues_ok (a_update i f v)"
  using assms by (auto simp: queues_ok_def lists_ok_def timed_update)

lemma queues_ok_perform:
  assumes "queues_ok v" "v_conns v i \<noteq> None"
  shows "queues_ok (a_perform i act v)"
proof (cases act)
  case Kill
  then show ?thesis using assms by (auto simp: queues_ok_def lists_ok_def distinct_removeAll timed_removeAll)
next
  case LingerKill
  let ?f = "\<lambda>c. c\<lparr>LingerKillTimestamp := v_now v\<rparr>"
  let ?l = "removeAll i (v_linger v)"
  have "timed LingerKillTimestamp (a_update i ?f v) ?l"
    using assms(1) by (subst timed_update) (auto simp: queues_ok_def timed_removeAll)
  moreover obtain c where "v_conns v i = Some c" using assms(2) by blast
  ultimately have "timed LingerKillTimestamp (a_update i ?f v) (?l @ [i])"
    by (intro timed_snoc [of _ _ _ _ "?f c"]) auto
  moreover have "timed CheckAccountTimestampMS (a_update i ?f v) (v_account v)"
    using assms(1) by (simp add: timed_update queues_ok_def)
  ultimately show ?thesis using LingerKill assms by (auto simp: queues_ok_def lists_ok_def distinct_removeAll)
next
  case KeepAlive
  have "queues_ok (a_update i (\<lambda>c. c\<lparr>LastDataExchangeTimestampMS := v_now v\<rparr>) v)"
    using assms(1) by (rule queues_ok_update) auto
  with KeepAlive assms show ?thesis by (auto simp: queues_ok_def lists_ok_def distinct_removeAll)
next
  case RemoveAccountCheck
  then show ?thesis using assms by (auto simp: queues_ok_def lists_ok_def distinct_removeAll timed_removeAll)
qed (use assms in auto)

lemma a_perform_conns:
  "dom (v_conns (a_perform i act v)) = dom (v_conns v)"
  "j \<noteq> i \<Longrightarrow> v_conns (a_perform i act v) j = v_conns v j"
  "v_conns v i = Some c \<Longrightarrow> \<exists>c'. v_conns (a_perform i act v) i = Some c' \<and>
     ConnectionId c' = ConnectionId c \<and> Phase c' = Phase c"
  by (cases act; auto)+

lemma a_perform_account: "set (v_account (a_perform i act v)) =
    set (v_account v) - (if act = RemoveAccountCheck then {i} else {})"
  by (cases act) auto

lemma a_perform_idle: "set (v_idle (a_perform i act v)) =
    set (v_idle v) \<union> (if act = KeepAlive then {i} else {})"
  by (cases act) auto

lemma queues_ok_fold:
  assumes "queues_ok v" "v_conns v i = Some c"
  shows "queues_ok (fold (a_perform i) acts v) \<and>
    (\<forall>j. j \<noteq> i \<longrightarrow> v_conns (fold (a_perform i) acts v) j = v_conns v j) \<and>
    (\<exists>c'. v_conns (fold (a_perform i) acts v) i = Some c' \<and>
       ConnectionId c' = ConnectionId c \<and> Phase c' = Phase c) \<and>
    set (v_account (fold (a_perform i) acts v)) =
      set (v_account v) - (if RemoveAccountCheck \<in> set acts then {i} else {}) \<and>
    set (v_idle (fold (a_perform i) acts v)) =
      set (v_idle v) \<union> (if KeepAlive \<in> set acts then {i} else {})"
  using assms
proof (induction acts arbitrary: v c)
  case (Cons a acts)
  let ?w = "a_perform i a v"
  obtain d where d: "v_conns ?w i = Some d" "ConnectionId d = ConnectionId c" "Phase d = Phase c"
    using a_perform_conns(3) [OF Cons.prems(2)] by blast
  have "queues_ok ?w" using queues_ok_perform Cons.prems by blast
  from Cons.IH [OF this d(1)] d(2,3) show ?case
    by (auto simp: a_perform_account a_perform_idle a_perform_conns(2))
qed simp

lemma view_ok_dispatch:
  assumes "view_ok v" "a_dispatch env i e v = Some (acts, w)"
  shows "view_ok w"
proof (cases "v_conns v i")
  case None
  with assms show ?thesis by (simp add: a_dispatch_def)
next
  case (Some c)
  then obtain c' where c': "handle env c e = Some (acts, c')"
    "w = fold (a_perform i) acts (a_update i (\<lambda>_. c') v)"
    using assms(2) by (auto simp: a_dispatch_def)
  have ok: "asks_ok c e acts c'" "ids_ok c e acts c'"
    using handle_step [OF c'(1)] by (simp_all add: step_ok_def)
  have st: "ConnectionId c' = ConnectionId c" "CheckAccountTimestampMS c' = CheckAccountTimestampMS c"
    "LingerKillTimestamp c' = LingerKillTimestamp c"
    using ok(2) by (simp_all add: ids_ok_def stamps_def)
  let ?u = "a_update i (\<lambda>_. c') v"
  have q: "queues_ok v" using assms(1) by (simp add: view_ok_def queues_ok_def)
  have "timed g ?u l = timed g v l" if "g c' = g c" for g l
    by (rule timed_cong) (use Some that in auto)
  then have u: "queues_ok ?u" using q Some st by (auto simp: queues_ok_def lists_ok_def)
  have ui: "v_conns ?u i = Some c'" using Some by simp
  note f = queues_ok_fold [OF u ui, of acts, folded c'(2)]
  have step: "session_step (stage c) e (stage c')" and
    rem: "RemoveAccountCheck \<in> set acts \<longleftrightarrow> stage c = Authorizing \<and> stage c' = Selecting"
    "RemoveAccountCheck \<in> set acts \<longrightarrow> KeepAlive \<in> set acts"
    using ok(1) by (simp_all add: asks_ok_def)
  have rank: "rank (stage c') < 2 \<longleftrightarrow> rank (stage c) < 2 \<and> RemoveAccountCheck \<notin> set acts"
    using step rem(1) by (auto elim!: session_step.cases)
  have c: "ConnectionId c = i" "i \<in> set (v_account v) \<longleftrightarrow> rank (stage c) < 2"
    "i \<in> set (v_account v) \<or> i \<in> set (v_idle v)"
    using assms(1) Some by (auto simp: view_ok_def conns_ok_def)
  have "conns_ok w"
    unfolding conns_ok_def
  proof (intro allI impI)
    fix j d assume d: "v_conns w j = Some d"
    show "ConnectionId d = j \<and> (j \<in> set (v_account w) \<longleftrightarrow> rank (stage d) < 2) \<and>
        (j \<in> set (v_account w) \<or> j \<in> set (v_idle w))"
    proof (cases "j = i")
      case True
      then have "ConnectionId d = i" "Phase d = Phase c'" using f d st(1) c(1) by auto
      then show ?thesis using f c rank rem True by auto
    next
      case False
      then have "v_conns v j = Some d" using f d by simp
      then show ?thesis using assms(1) f False by (auto simp: view_ok_def conns_ok_def)
    qed
  qed
  then show ?thesis using f by (simp add: view_ok_def queues_ok_def)
qed

lemma view_ok_new:
  assumes "view_ok v" "v_conns v i = None"
  shows "view_ok (a_new i v)"
proof -
  have no: "i \<notin> set (v_account v)" "i \<notin> set (v_linger v)"
    using assms by (auto simp: view_ok_def lists_ok_def)
  have "timed f (a_new i v) l = timed f v l" if "i \<notin> set l" for f l
    by (rule timed_cong) (use that in \<open>auto simp: a_new_def\<close>)
  then have "timed CheckAccountTimestampMS (a_new i v) (v_account v @ [i])"
    "timed LingerKillTimestamp (a_new i v) (v_linger v)"
    using assms(1) no by (auto simp: view_ok_def a_new_def intro!: timed_snoc)
  moreover have "lists_ok (a_new i v)" "conns_ok (a_new i v)"
    using assms no by (auto simp: view_ok_def lists_ok_def conns_ok_def a_new_def fresh_connection_def)
  ultimately show ?thesis by (simp add: view_ok_def) (simp add: a_new_def)
qed

lemma view_ok_later: "view_ok v \<Longrightarrow> v_now v \<le> now \<Longrightarrow> view_ok (v\<lparr>v_now := now\<rparr>)"
  by (auto simp: view_ok_def lists_ok_def conns_ok_def timed_later)

lemma view_ok_tick: "view_ok v \<Longrightarrow> v_now v \<le> now \<Longrightarrow> view_ok (a_tick now v)"
  by (simp add: a_tick_def Let_def view_ok_remove view_ok_later)


subsection \<open>Loops that clean up the head of a list\<close>

lemma takeWhile_sorted:
  "sorted (map f xs) \<Longrightarrow> takeWhile (\<lambda>x. f x < (k :: 'k :: linorder)) xs = filter (\<lambda>x. f x < k) xs"
proof (induction xs)
  case (Cons x xs)
  have "filter (\<lambda>x. f x < k) xs = []" if "\<not> f x < k"
    using Cons.prems that by (auto simp: filter_empty_conv)
  then show ?case using Cons by auto
qed simp

lemma timed_takeWhile:
  assumes "timed f v l" "set l \<subseteq> dom (v_conns v)"
  shows "takeWhile (late f k v) l = filter (late f k v) l"
proof -
  let ?t = "\<lambda>i. case v_conns v i of Some c \<Rightarrow> f c | None \<Rightarrow> 0"
  have late: "late f k v i = (?t i < k)" if "i \<in> set l" for i
    using assms(2) that by (auto simp: late_def)
  then have "takeWhile (late f k v) l = takeWhile (\<lambda>i. ?t i < k) l"
    by (intro takeWhile_cong refl)
  also have "\<dots> = filter (\<lambda>i. ?t i < k) l"
    using assms(1) by (intro takeWhile_sorted) (simp add: timed_def times_def)
  also have "\<dots> = filter (late f k v) l" using late by (intro filter_cong) auto
  finally show ?thesis .
qed

text \<open>
  A loop that pops the head of a list while a predicate holds and removes what it pops ends, and
  removes the longest prefix of the list on which the predicate holds. \<open>V\<close> is the abstract state.
\<close>

lemma drain:
  fixes V :: "'s \<Rightarrow> manager_view" and L :: "manager_view \<Rightarrow> u64 list"
  assumes pop: "\<And>s x s'. view_ok (V s) \<Longrightarrow> pop s = Some (x, s') \<Longrightarrow>
      P (V s) x \<and> (\<exists>xs. L (V s) = x # xs) \<and> V (body x s') = a_remove {x} (V s)"
    and stop: "\<And>s. pop s = None \<Longrightarrow> L (V s) = [] \<or> \<not> P (V s) (hd (L (V s)))"
    and L: "\<And>D v. L (a_remove D v) = filter (\<lambda>i. i \<notin> D) (L v)" "\<And>v. view_ok v \<Longrightarrow> distinct (L v)"
    and P: "\<And>D v i. i \<notin> D \<Longrightarrow> P (a_remove D v) i = P v i"
    and "view_ok (V s)"
  shows "\<exists>t. pop_loop pop body s = Some t \<and> V t = a_remove (set (takeWhile (P (V s)) (L (V s)))) (V s)"
  using assms(6)
proof (induction "length (L (V s))" arbitrary: s rule: less_induct)
  case less
  show ?case
  proof (cases "pop s")
    case None
    then have "takeWhile (P (V s)) (L (V s)) = []" using stop [OF None] by (cases "L (V s)") auto
    moreover have "a_remove {} (V s) = V s" by (simp add: a_remove_def restrict_map_def)
    ultimately show ?thesis using None by simp
  next
    case (Some q)
    then obtain x s' where q: "pop s = Some (x, s')" by (cases q) simp
    obtain xs where x: "P (V s) x" "L (V s) = x # xs" "V (body x s') = a_remove {x} (V s)"
      using pop [OF less.prems q] by blast
    have "x \<notin> set xs" using L(2) [OF less.prems] x(2) by simp
    then have l: "L (V (body x s')) = xs" using x(2,3) L(1) by (auto simp: filter_id_conv)
    have "view_ok (V (body x s'))" using less.prems x(3) view_ok_remove by simp
    with less.hyps [of "body x s'"] l x(2) obtain t where
      t: "pop_loop pop body (body x s') = Some t"
        "V t = a_remove (set (takeWhile (P (V (body x s'))) xs)) (V (body x s'))" by auto
    have "takeWhile (P (V (body x s'))) xs = takeWhile (P (V s)) xs"
    proof (rule takeWhile_cong [OF refl])
      fix y assume "y \<in> set xs"
      with \<open>x \<notin> set xs\<close> have "y \<notin> {x}" by auto
      then show "P (V (body x s')) y = P (V s) y" unfolding x(3) by (rule P)
    qed
    then have "V t = a_remove (set (takeWhile (P (V s)) (L (V s)))) (V s)"
      using t(2) x by (simp add: a_remove_twice insert_is_Un [symmetric])
    with t(1) q show ?thesis by simp
  qed
qed

subsection \<open>The manager refines the abstract manager\<close>

definition view_of ::
    "('p, 'a, 'i, 'k) manager_lib \<Rightarrow> ('a \<Rightarrow> unit \<Rightarrow> u64 list) \<Rightarrow> ('i \<Rightarrow> unit \<Rightarrow> u64 list) \<Rightarrow>
     ('k \<Rightarrow> kill_list \<Rightarrow> u64 list) \<Rightarrow> ('p, 'a, 'i, 'k) client_manager \<Rightarrow> manager_view" where
  "view_of ml itA itI itK s = \<lparr>v_now = cm_Ticker s, v_conns = GetConnectionById ml s,
     v_account = itA (AccountTimeoutList s) (), v_idle = itI (IdleConnectionList s) (),
     v_linger = itK (KillLists s) LingerKillConnectionList, v_kill = itK (KillLists s) KillConnectionList\<rparr>"

lemma GetConnectionById_lists [simp]:
  "GetConnectionById ml (s\<lparr>KillLists := k\<rparr>) = GetConnectionById ml s"
  "GetConnectionById ml (s\<lparr>IdleConnectionList := l\<rparr>) = GetConnectionById ml s"
  "GetConnectionById ml (s\<lparr>AccountTimeoutList := a\<rparr>) = GetConnectionById ml s"
  "GetConnectionById ml (s\<lparr>cm_Ticker := n\<rparr>) = GetConnectionById ml s"
  by (simp_all add: GetConnectionById_def fun_eq_iff)

lemma update_conn_fields [simp]:
  "cm_Ticker (update_conn ml i f s) = cm_Ticker s"
  "AccountTimeoutList (update_conn ml i f s) = AccountTimeoutList s"
  "IdleConnectionList (update_conn ml i f s) = IdleConnectionList s"
  "KillLists (update_conn ml i f s) = KillLists s"
  by (simp_all add: update_conn_def split: option.split)

locale client_manager_env =
  pool: indexed_storage "ml_pool ml" fresh_connection +
  acc: hooked_lists "ml_account ml" itA + idl: hooked_lists "ml_idle ml" itI +
  kil: hooked_lists "ml_kill ml" itK
  for ml :: "('p, 'a, 'i, 'k) manager_lib" and itA :: "'a \<Rightarrow> unit \<Rightarrow> u64 list"
    and itI :: "'i \<Rightarrow> unit \<Rightarrow> u64 list" and itK :: "'k \<Rightarrow> kill_list \<Rightarrow> u64 list"
begin

abbreviation view :: "('p, 'a, 'i, 'k) client_manager \<Rightarrow> manager_view" where
  "view \<equiv> view_of ml itA itI itK"

lemma view_put:
  "GetConnectionById ml s i \<noteq> None \<Longrightarrow>
     view (s\<lparr>ConnectionPool := st_put (ml_pool ml) (ConnectionPool s) i c\<rparr>) = a_update i (\<lambda>_. c) (view s)"
  by (auto simp: view_of_def a_update_def GetConnectionById_def pool.put_get fun_eq_iff)

lemma view_update_conn: "view (update_conn ml i f s) = a_update i f (view s)"
proof (cases "GetConnectionById ml s i")
  case None
  then show ?thesis by (simp add: update_conn_def view_of_def a_update_def fun_upd_idem)
next
  case (Some c)
  then show ?thesis using view_put [of s i "f c"]
    by (simp add: update_conn_def a_update_def view_of_def)
qed

lemma view_perform: "view (perform ml i act s) = a_perform i act (view s)"
proof (cases act)
  case Kill
  then show ?thesis by (simp add: KillConn_def view_of_def kil.grab_tail_items)
next
  case LingerKill
  then show ?thesis using view_update_conn [of i "\<lambda>c. c\<lparr>LingerKillTimestamp := cm_Ticker s\<rparr>" s]
    by (simp add: LingerKillConn_def view_of_def kil.grab_tail_items a_update_def)
next
  case KeepAlive
  then show ?thesis using view_update_conn [of i "\<lambda>c. c\<lparr>LastDataExchangeTimestampMS := cm_Ticker s\<rparr>" s]
    by (simp add: KeepAliveConn_def view_of_def idl.grab_tail_items a_update_def)
next
  case RemoveAccountCheck
  then show ?thesis by (simp add: view_of_def acc.remove_items)
qed simp_all

lemma view_fold: "view (fold (perform ml i) acts s) = fold (a_perform i) acts (view s)"
  by (induction acts arbitrary: s) (simp_all add: view_perform)

lemma view_dispatch:
  "map_option (\<lambda>(acts, t). (acts, view t)) (dispatch ml env i e s) = a_dispatch env i e (view s)"
proof (cases "GetConnectionById ml s i")
  case None
  then show ?thesis by (simp add: dispatch_def a_dispatch_def view_of_def)
next
  case (Some c)
  then have "v_conns (view s) i = Some c" by (simp add: view_of_def)
  then show ?thesis using Some
    by (simp add: dispatch_def a_dispatch_def view_put view_fold split: option.split)
qed

lemma view_new:
  "view (OnNewConnection ml b s) = view s \<or>
   (\<exists>i. i \<noteq> 0 \<and> v_conns (view s) i = None \<and> (lists_ok (view s) \<longrightarrow> view (OnNewConnection ml b s) = a_new i (view s)))"
proof -
  obtain i p where a: "st_acquire (ml_pool ml) (ConnectionPool s) = (i, p)" by fastforce
  show ?thesis
  proof (cases "i = 0")
    case True
    then have "st_get (ml_pool ml) p = st_get (ml_pool ml) (ConnectionPool s)"
      using a pool.acquire_full by simp
    then have "view (OnNewConnection ml b s) = view s" using True a
      by (simp add: OnNewConnection_def view_of_def GetConnectionById_def fun_eq_iff)
    then show ?thesis ..
  next
    case False
    have new: "st_get (ml_pool ml) (ConnectionPool s) i = None"
      "st_get (ml_pool ml) p = (st_get (ml_pool ml) (ConnectionPool s))(i \<mapsto> fresh_connection)"
      using False a pool.acquire_new pool.acquire_get by auto
    show ?thesis
    proof (cases b)
      case False
      then have "view (OnNewConnection ml b s) = view s" using \<open>i \<noteq> 0\<close> a new
        by (simp add: OnNewConnection_def view_of_def GetConnectionById_def fun_eq_iff pool.release_get fun_upd_idem)
      then show ?thesis ..
    next
      case True
      have "view (OnNewConnection ml b s) = a_new i (view s)" if "lists_ok (view s)"
      proof -
        have "i \<notin> set (itA (AccountTimeoutList s) m)" for m
          using that new(1) by (auto simp: lists_ok_def view_of_def GetConnectionById_def)
        from acc.add_tail_items [OF this] show ?thesis using True \<open>i \<noteq> 0\<close> a new
          by (simp add: OnNewConnection_def view_of_def GetConnectionById_def fun_eq_iff a_new_def pool.put_get)
      qed
      moreover have "v_conns (view s) i = None" using new(1) by (simp add: view_of_def GetConnectionById_def)
      ultimately show ?thesis using \<open>i \<noteq> 0\<close> by blast
    qed
  qed
qed

lemma view_cleanup:
  assumes "v_conns (view s) i = Some c" "ConnectionId c = i"
  shows "view (CleanupConnection ml i s) = a_remove {i} (view s)"
  using assms
  by (simp add: CleanupConnection_def view_of_def GetConnectionById_def a_remove_def fun_eq_iff
      pool.release_get acc.remove_items idl.remove_items kil.remove_items restrict_map_def
      removeAll_filter)


lemma view_conn: "conns_ok (view s) \<Longrightarrow> v_conns (view s) i = Some c \<Longrightarrow> ConnectionId c = i"
  by (auto simp: conns_ok_def)

lemma view_lists:
  "view (s\<lparr>AccountTimeoutList := a\<rparr>) = (view s)\<lparr>v_account := itA a ()\<rparr>"
  "view (s\<lparr>KillLists := k\<rparr>) = (view s)\<lparr>v_linger := itK k LingerKillConnectionList,
     v_kill := itK k KillConnectionList\<rparr>"
  by (simp_all add: view_of_def)

lemma cleanup_popped:
  assumes "view_ok (view s)" "x \<in> dom (v_conns (view s))"
    and "v_conns (view s') = v_conns (view s)" "a_remove {x} (view s') = a_remove {x} (view s)"
  shows "view (CleanupConnection ml x s') = a_remove {x} (view s)"
proof -
  obtain c where "v_conns (view s') x = Some c" "ConnectionId c = x"
    using assms(1-3) by (auto simp: view_ok_def conns_ok_def)
  from view_cleanup [OF this] assms(4) show ?thesis by simp
qed

lemma older_late: "older ml s f k = late f k (view s)"
  by (simp add: older_def late_def view_of_def fun_eq_iff)

lemma drain_account:
  assumes "view_ok (view s)"
  shows "\<exists>t. pop_loop (pop_account ml k) (CleanupConnection ml) s = Some t \<and>
    view t = a_remove (set (filter (late CheckAccountTimestampMS k (view s)) (v_account (view s)))) (view s)"
proof -
  have "\<exists>t. pop_loop (pop_account ml k) (CleanupConnection ml) s = Some t \<and>
    view t = a_remove (set (takeWhile (late CheckAccountTimestampMS k (view s)) (v_account (view s)))) (view s)"
  proof (rule drain)
    fix s x s'
    assume ok: "view_ok (view s)" and p: "pop_account ml k s = Some (x, s')"
    then obtain l where l: "li_pop_head (ml_account ml) (AccountTimeoutList s) () (older ml s CheckAccountTimestampMS k) = Some (x, l)"
      "s' = s\<lparr>AccountTimeoutList := l\<rparr>" by (auto simp: pop_account_def)
    note h = acc.pop_head_Some(1,2) [OF l(1)]
    have a: "v_account (view s) = x # itA l ()" using h(2) by (simp add: view_of_def)
    then have "x \<in> dom (v_conns (view s))" "x \<notin> set (itA l ())"
      using ok by (auto simp: view_ok_def lists_ok_def)
    then have "view (CleanupConnection ml x s') = a_remove {x} (view s)"
      using a by (intro cleanup_popped [OF ok]) (auto simp: l(2) view_lists a_remove_def)
    then show "late CheckAccountTimestampMS k (view s) x \<and> (\<exists>xs. v_account (view s) = x # xs) \<and>
        view (CleanupConnection ml x s') = a_remove {x} (view s)"
      using h(1) a by (simp add: older_late)
  next
    fix s assume "pop_account ml k s = None"
    then show "v_account (view s) = [] \<or> \<not> late CheckAccountTimestampMS k (view s) (hd (v_account (view s)))"
      by (auto simp: pop_account_def acc.pop_head_None older_late) (auto simp: view_of_def)
  qed (use assms in \<open>auto simp: view_ok_def lists_ok_def late_def restrict_map_def\<close>)
  then show ?thesis
    using assms timed_takeWhile [of CheckAccountTimestampMS "view s" "v_account (view s)" k]
    by (auto simp: view_ok_def lists_ok_def)
qed


lemma drain_kill_lists:
  assumes "view_ok (view s)"
  shows "\<exists>t. pop_loop (pop_linger ml k) (CleanupConnection ml) s = Some t \<and>
      view t = a_remove (set (filter (late LingerKillTimestamp k (view s)) (v_linger (view s)))) (view s)"
    and "\<exists>t. pop_loop (pop_kill ml) (CleanupConnection ml) s = Some t \<and>
      view t = a_remove (set (v_kill (view s))) (view s)"
proof -
  have "\<exists>t. pop_loop (pop_linger ml k) (CleanupConnection ml) s = Some t \<and>
    view t = a_remove (set (takeWhile (late LingerKillTimestamp k (view s)) (v_linger (view s)))) (view s)"
  proof (rule drain)
    fix s x s'
    assume ok: "view_ok (view s)" and p: "pop_linger ml k s = Some (x, s')"
    then obtain l where l: "li_pop_head (ml_kill ml) (KillLists s) LingerKillConnectionList (older ml s LingerKillTimestamp k) = Some (x, l)"
      "s' = s\<lparr>KillLists := l\<rparr>" by (auto simp: pop_linger_def)
    note h = kil.pop_head_Some(1,2) [OF l(1)] kil.pop_head_Some(3) [OF l(1), of KillConnectionList]
    have a: "v_linger (view s) = x # itK l LingerKillConnectionList"
      "itK l KillConnectionList = v_kill (view s)" using h(2,3) by (simp_all add: view_of_def)
    then have "x \<in> dom (v_conns (view s))"
      using ok by (auto simp: view_ok_def lists_ok_def)
    then have "view (CleanupConnection ml x s') = a_remove {x} (view s)"
      using a by (intro cleanup_popped [OF ok]) (auto simp: l(2) view_lists a_remove_def)
    then show "late LingerKillTimestamp k (view s) x \<and> (\<exists>xs. v_linger (view s) = x # xs) \<and>
        view (CleanupConnection ml x s') = a_remove {x} (view s)"
      using h(1) a by (simp add: older_late)
  next
    fix s assume "pop_linger ml k s = None"
    then show "v_linger (view s) = [] \<or> \<not> late LingerKillTimestamp k (view s) (hd (v_linger (view s)))"
      by (auto simp: pop_linger_def kil.pop_head_None older_late) (auto simp: view_of_def)
  qed (use assms in \<open>auto simp: view_ok_def lists_ok_def late_def restrict_map_def\<close>)
  then show "\<exists>t. pop_loop (pop_linger ml k) (CleanupConnection ml) s = Some t \<and>
      view t = a_remove (set (filter (late LingerKillTimestamp k (view s)) (v_linger (view s)))) (view s)"
    using assms timed_takeWhile [of LingerKillTimestamp "view s" "v_linger (view s)" k]
    by (auto simp: view_ok_def lists_ok_def)
next
  have "\<exists>t. pop_loop (pop_kill ml) (CleanupConnection ml) s = Some t \<and>
    view t = a_remove (set (takeWhile ((\<lambda>_ _. True) (view s)) (v_kill (view s)))) (view s)"
  proof (rule drain)
    fix s x s'
    assume ok: "view_ok (view s)" and p: "pop_kill ml s = Some (x, s')"
    then obtain l where l: "li_pop_head (ml_kill ml) (KillLists s) KillConnectionList (\<lambda>_. True) = Some (x, l)"
      "s' = s\<lparr>KillLists := l\<rparr>" by (auto simp: pop_kill_def)
    note h = kil.pop_head_Some(2) [OF l(1)] kil.pop_head_Some(3) [OF l(1), of LingerKillConnectionList]
    have a: "v_kill (view s) = x # itK l KillConnectionList"
      "itK l LingerKillConnectionList = v_linger (view s)" using h by (simp_all add: view_of_def)
    then have "x \<in> dom (v_conns (view s))"
      using ok by (auto simp: view_ok_def lists_ok_def)
    then have "view (CleanupConnection ml x s') = a_remove {x} (view s)"
      using a by (intro cleanup_popped [OF ok]) (auto simp: l(2) view_lists a_remove_def)
    then show "True \<and> (\<exists>xs. v_kill (view s) = x # xs) \<and>
        view (CleanupConnection ml x s') = a_remove {x} (view s)" using a by simp
  next
    fix s assume "pop_kill ml s = None"
    then show "v_kill (view s) = [] \<or> \<not> True"
      by (auto simp: pop_kill_def kil.pop_head_None) (auto simp: view_of_def)
  qed (use assms in \<open>auto simp: view_ok_def lists_ok_def\<close>)
  then show "\<exists>t. pop_loop (pop_kill ml) (CleanupConnection ml) s = Some t \<and>
      view t = a_remove (set (v_kill (view s))) (view s)" by (simp add: takeWhile_eq_all_conv [THEN iffD2])
qed

lemma late_remove: "i \<notin> D \<Longrightarrow> late f k (a_remove D v) i = late f k v i"
  by (simp add: late_def)

lemma view_tick:
  assumes "view_ok (view s)" "cm_Ticker s \<le> now"
  shows "\<exists>t. Manager_Tick ml now s = Some t \<and> view t = a_tick now (view s)"
proof -
  let ?s = "s\<lparr>cm_Ticker := now\<rparr>" and ?v = "(view s)\<lparr>v_now := now\<rparr>"
  have vs: "view ?s = ?v" by (simp add: view_of_def)
  have now: "cm_Ticker ?s = now" by simp
  have "v_now (view s) \<le> now" using assms(2) by (simp add: view_of_def)
  with assms(1) have "view_ok ?v" by (rule view_ok_later)
  then have ok: "view_ok (view ?s)" using vs by simp
  let ?A = "set (filter (late CheckAccountTimestampMS (now - MAX_ACCOUNT_CHECK_TIMEOUT) ?v) (v_account ?v))"
  let ?kl = "now - MAX_CONNECTION_LIGNER_KILL_TIMEOUT"
  let ?L = "set (filter (late LingerKillTimestamp ?kl ?v) (v_linger ?v))"
  obtain s1 where s1: "pop_loop (pop_account ml (now - MAX_ACCOUNT_CHECK_TIMEOUT)) (CleanupConnection ml) ?s = Some s1"
    "view s1 = a_remove ?A ?v" using drain_account [OF ok] vs by metis
  have ok1: "view_ok (view s1)" using s1(2) \<open>view_ok ?v\<close> by (simp add: view_ok_remove)
  obtain s2 where s2: "pop_loop (pop_linger ml ?kl) (CleanupConnection ml) s1 = Some s2"
    "view s2 = a_remove (set (filter (late LingerKillTimestamp ?kl (view s1)) (v_linger (view s1)))) (view s1)"
    using drain_kill_lists(1) [OF ok1] by metis
  have ok2: "view_ok (view s2)" using s2(2) ok1 by (simp add: view_ok_remove)
  obtain s3 where s3: "pop_loop (pop_kill ml) (CleanupConnection ml) s2 = Some s3"
    "view s3 = a_remove (set (v_kill (view s2))) (view s2)"
    using drain_kill_lists(2) [OF ok2] by metis
  have "set (filter (late LingerKillTimestamp ?kl (a_remove ?A ?v)) (v_linger (a_remove ?A ?v))) = ?L - ?A"
    by (auto simp: late_remove)
  then have v2: "view s2 = a_remove (?L \<union> ?A) ?v"
    using s2(2) s1(2) by (simp add: a_remove_twice del: a_remove_simps)
  then have "set (v_kill (view s2)) \<union> (?L \<union> ?A) = set (v_kill ?v) \<union> ?L \<union> ?A" by auto
  then have "view s3 = a_tick now (view s)"
    using s3(2) v2 by (simp add: a_remove_twice a_tick_def Let_def del: a_remove_simps)
  moreover have "Manager_Tick ml now s = Some s3"
    using s1(1) s2(1) s3(1) now by (simp add: Manager_Tick_def Manager_OnTick_def)
  ultimately show ?thesis by blast
qed

end

definition ref_manager_lib ::
    "(xPA_ClientConnection ref_pool, unit \<Rightarrow> u64 list, unit \<Rightarrow> u64 list, kill_list \<Rightarrow> u64 list) manager_lib" where
  "ref_manager_lib = \<lparr>ml_pool = ref_storage fresh_connection, ml_account = ref_lists, ml_idle = ref_lists,
     ml_kill = ref_lists\<rparr>"

interpretation ref_manager: client_manager_env ref_manager_lib "\<lambda>l. l" "\<lambda>l. l" "\<lambda>l. l"
  unfolding client_manager_env_def ref_manager_lib_def
  by (simp add: ref_storage_contract ref_lists_contract)


subsection \<open>Reachable managers\<close>

text \<open>
  Any interleaving of arriving connections, events for any connection, and ticks of a clock that
  does not run backwards, from a manager without connections. \<open>E\<close> is any set of states of the rest of
  the program in which an event may be handled.
\<close>

inductive manager_reach ::
    "('p, 'a, 'i, 'k) manager_lib \<Rightarrow> 'n pa_env set \<Rightarrow> ('p, 'a, 'i, 'k) client_manager \<Rightarrow>
     ('p, 'a, 'i, 'k) client_manager \<Rightarrow> bool"
  for ml E s0 where
  init: "manager_reach ml E s0 s0"
| arrive: "manager_reach ml E s0 s \<Longrightarrow> manager_reach ml E s0 (OnNewConnection ml b s)"
| event: "manager_reach ml E s0 s \<Longrightarrow> env \<in> E \<Longrightarrow> dispatch ml env i e s = Some (acts, t) \<Longrightarrow>
    manager_reach ml E s0 t"
| tick: "manager_reach ml E s0 s \<Longrightarrow> cm_Ticker s \<le> now \<Longrightarrow> Manager_Tick ml now s = Some t \<Longrightarrow>
    manager_reach ml E s0 t"

definition no_connections ::
    "('p, 'a, 'i, 'k) manager_lib \<Rightarrow> ('a \<Rightarrow> unit \<Rightarrow> u64 list) \<Rightarrow> ('i \<Rightarrow> unit \<Rightarrow> u64 list) \<Rightarrow>
     ('k \<Rightarrow> kill_list \<Rightarrow> u64 list) \<Rightarrow> ('p, 'a, 'i, 'k) client_manager \<Rightarrow> bool" where
  "no_connections ml itA itI itK s \<longleftrightarrow>
     view_of ml itA itI itK s = \<lparr>v_now = cm_Ticker s, v_conns = Map.empty, v_account = [], v_idle = [],
       v_linger = [], v_kill = []\<rparr>"

context client_manager_env begin

lemma dispatch_ok:
  assumes "view_ok (view s)" "dispatch ml env i e s = Some (acts, t)"
  shows "view_ok (view t)"
proof -
  have "a_dispatch env i e (view s) = Some (acts, view t)"
    using view_dispatch [of env i e s] assms(2) by simp
  with view_ok_dispatch [OF assms(1)] show ?thesis by blast
qed

lemma new_ok: "view_ok (view s) \<Longrightarrow> view_ok (view (OnNewConnection ml b s))"
  using view_new [of b s] view_ok_new by (auto simp: view_ok_def)

lemma tick_ok:
  assumes "view_ok (view s)" "cm_Ticker s \<le> now" "Manager_Tick ml now s = Some t"
  shows "view_ok (view t)"
proof -
  have "v_now (view s) \<le> now" using assms(2) by (simp add: view_of_def)
  from view_ok_tick [OF assms(1) this] view_tick [OF assms(1,2)] assms(3) show ?thesis by auto
qed

lemma reach_ok:
  assumes "manager_reach ml E s0 s" "no_connections ml itA itI itK s0"
  shows "view_ok (view s)"
  using assms(1)
proof (induction rule: manager_reach.induct)
  case init
  show ?case using assms(2)
    by (simp add: no_connections_def view_ok_def lists_ok_def conns_ok_def timed_def times_def)
qed (auto intro: new_ok dispatch_ok tick_ok)

end

definition demo_manager ::
    "(xPA_ClientConnection ref_pool, unit \<Rightarrow> u64 list, unit \<Rightarrow> u64 list, kill_list \<Rightarrow> u64 list) client_manager" where
  "demo_manager = \<lparr>cm_Ticker = 100, ConnectionPool = ref_pool_init 4, AccountTimeoutList = (\<lambda>_. []),
     IdleConnectionList = (\<lambda>_. []), KillLists = (\<lambda>_. [])\<rparr>"

lemma demo_manager_empty: "no_connections ref_manager_lib (\<lambda>l. l) (\<lambda>l. l) (\<lambda>l. l) demo_manager"
  by (simp add: no_connections_def view_of_def demo_manager_def GetConnectionById_def ref_manager_lib_def
      ref_storage_defs ref_pool_init_def fun_eq_iff)

definition demo_manager1 where "demo_manager1 = OnNewConnection ref_manager_lib True demo_manager"

lemma demo_manager1_reach: "manager_reach ref_manager_lib {demo_env} demo_manager demo_manager1"
  unfolding demo_manager1_def by (intro manager_reach.intros)

lemma demo_manager1_ok: "view_ok (view_of ref_manager_lib (\<lambda>l. l) (\<lambda>l. l) (\<lambda>l. l) demo_manager1)"
  by (rule ref_manager.reach_ok [OF demo_manager1_reach demo_manager_empty])

subsection \<open>Properties\<close>

text \<open>
  C15: in every reachable state of the connection manager, whatever connections arrive and whatever the
  clients and the other servers send, every list holds live connections only and none twice, the
  queues are in the order of their times, every connection carries its own id, and it is on the
  account list exactly until it is authorized and otherwise on the idle list.
\<close>

theorem manager_invariant:
  assumes "client_manager_env ml itA itI itK" "no_connections ml itA itI itK s0" "manager_reach ml E s0 s"
  shows "view_ok (view_of ml itA itI itK s)"
  by (rule client_manager_env.reach_ok [OF assms(1,3,2)])

theorem manager_invariant_witness:
  "view_ok (view_of ref_manager_lib (\<lambda>l. l) (\<lambda>l. l) (\<lambda>l. l) demo_manager1)"
  by (rule manager_invariant [OF ref_manager.client_manager_env_axioms demo_manager_empty demo_manager1_reach])

text \<open>
  C19: a tick of the manager always ends. It closes exactly the connections on the kill list, those on
  the linger list for more than 10 seconds and those that are not authorized 3 seconds after they
  arrived (in the 64-bit arithmetic of the code), and keeps every other connection as it is.
\<close>

theorem manager_tick:
  assumes "client_manager_env ml itA itI itK" "view_ok (view_of ml itA itI itK s)" "cm_Ticker s \<le> now"
  shows "\<exists>t. Manager_Tick ml now s = Some t \<and>
    (\<forall>i. GetConnectionById ml t i =
       (case GetConnectionById ml s i of None \<Rightarrow> None
        | Some c \<Rightarrow>
            if i \<in> set (itK (KillLists s) KillConnectionList) \<or>
               i \<in> set (itK (KillLists s) LingerKillConnectionList) \<and> LingerKillTimestamp c < now - 10000 \<or>
               rank (stage c) < 2 \<and> CheckAccountTimestampMS c < now - 3000
            then None else Some c))"
proof -
  let ?v = "view_of ml itA itI itK s"
  obtain t where t: "Manager_Tick ml now s = Some t" "view_of ml itA itI itK t = a_tick now ?v"
    using client_manager_env.view_tick [OF assms] by blast
  from t(2) have "v_conns (view_of ml itA itI itK t) = v_conns (a_tick now ?v)" by simp
  then have g: "GetConnectionById ml t = v_conns (a_tick now ?v)" by (simp add: view_of_def)
  have v: "v_conns ?v = GetConnectionById ml s" "v_kill ?v = itK (KillLists s) KillConnectionList"
    "v_linger ?v = itK (KillLists s) LingerKillConnectionList" by (simp_all add: view_of_def)
  have acc: "i \<in> set (v_account ?v) \<longleftrightarrow> rank (stage c) < 2" if "GetConnectionById ml s i = Some c" for i c
    using assms(2) that by (simp add: view_ok_def conns_ok_def view_of_def)
  show ?thesis
    using t(1) g v acc
    by (auto simp: a_tick_def Let_def late_def restrict_map_def MAX_ACCOUNT_CHECK_TIMEOUT_def
        MAX_CONNECTION_LIGNER_KILL_TIMEOUT_def split: option.split)
qed

theorem manager_tick_witness:
  "\<exists>t. Manager_Tick ref_manager_lib 4000 demo_manager1 = Some t \<and> GetConnectionById ref_manager_lib t 1 = None"
proof -
  have d: "cm_Ticker demo_manager1 = 100"
    "map_option (\<lambda>c. (Phase c, CheckAccountTimestampMS c)) (GetConnectionById ref_manager_lib demo_manager1 1) =
       Some (eUnknown, 100)" by code_simp+
  from manager_tick [OF ref_manager.client_manager_env_axioms demo_manager1_ok, of 4000] d
  show ?thesis by auto
qed

text \<open>
  C25: the manager implements the abstract manager: a handler run on a connection is the abstract step
  with the same actions, and a tick removes what the abstract tick removes.
\<close>

theorem manager_refines:
  assumes "client_manager_env ml itA itI itK" "view_ok (view_of ml itA itI itK s)" "cm_Ticker s \<le> now"
  shows "map_option (\<lambda>(acts, t). (acts, view_of ml itA itI itK t)) (dispatch ml env i e s) =
      a_dispatch env i e (view_of ml itA itI itK s) \<and>
    map_option (view_of ml itA itI itK) (Manager_Tick ml now s) = Some (a_tick now (view_of ml itA itI itK s))"
  using client_manager_env.view_dispatch [OF assms(1)] client_manager_env.view_tick [OF assms] by force

theorem manager_refines_witness:
  "map_option (view_of ref_manager_lib (\<lambda>l. l) (\<lambda>l. l) (\<lambda>l. l)) (Manager_Tick ref_manager_lib 200 demo_manager1) =
     Some (a_tick 200 (view_of ref_manager_lib (\<lambda>l. l) (\<lambda>l. l) (\<lambda>l. l) demo_manager1))"
proof -
  have "cm_Ticker demo_manager1 = 100" by code_simp
  with manager_refines [OF ref_manager.client_manager_env_axioms demo_manager1_ok,
      where now = 200 and env = demo_env and e = EvPeerClose and i = 1]
  show ?thesis by simp
qed

text \<open>
  The idle list is kept but never used: a connection that is authorized and on no kill list is
  kept by every tick, however long it has been silent.
\<close>

lemma idle_connections_stay:
  assumes "client_manager_env ml itA itI itK" "view_ok (view_of ml itA itI itK s)" "cm_Ticker s \<le> now"
    and "GetConnectionById ml s i = Some c" "2 \<le> rank (stage c)"
    and "i \<notin> set (itK (KillLists s) KillConnectionList)" "i \<notin> set (itK (KillLists s) LingerKillConnectionList)"
  shows "\<exists>t. Manager_Tick ml now s = Some t \<and> GetConnectionById ml t i = Some c"
proof -
  let ?v = "view_of ml itA itI itK s"
  obtain t where t: "Manager_Tick ml now s = Some t" "view_of ml itA itI itK t = a_tick now ?v"
    using client_manager_env.view_tick [OF assms(1-3)] by blast
  have "i \<notin> set (v_account ?v)"
    using assms(2,4,5) by (auto simp: view_ok_def conns_ok_def view_of_def)
  moreover have "v_conns (view_of ml itA itI itK t) i = v_conns (a_tick now ?v) i" using t(2) by simp
  ultimately have "GetConnectionById ml t i = Some c"
    using assms(4,6,7) by (simp add: a_tick_def Let_def view_of_def restrict_map_def)
  with t(1) show ?thesis by blast
qed


text \<open>The demonstration connection after its request was authorized.\<close>

definition demo_dispatch where
  "demo_dispatch e s = dispatch ref_manager_lib demo_env 1 e s"

definition demo_manager2 where
  "demo_manager2 = snd (the (Option.bind (demo_dispatch (EvData [5, 1, 2]) demo_manager1)
     (\<lambda>s. Option.bind (demo_dispatch (EvData [1, 1, 97, 1, 98]) (snd s))
       (\<lambda>s. demo_dispatch (EvAuth (Some demo_auth)) (snd s)))))"

lemma demo_manager2_reach: "manager_reach ref_manager_lib {demo_env} demo_manager demo_manager2"
proof -
  have step: "manager_reach ref_manager_lib {demo_env} demo_manager (snd q)"
    if "manager_reach ref_manager_lib {demo_env} demo_manager s" "demo_dispatch e s = Some q" for s e q
    using that by (cases q) (auto simp: demo_dispatch_def intro: manager_reach.event)
  have "Option.bind (demo_dispatch (EvData [5, 1, 2]) demo_manager1)
     (\<lambda>s. Option.bind (demo_dispatch (EvData [1, 1, 97, 1, 98]) (snd s))
       (\<lambda>s. map_option (\<lambda>_. ()) (demo_dispatch (EvAuth (Some demo_auth)) (snd s)))) \<noteq> None" by code_simp
  then obtain q1 q2 q3 where "demo_dispatch (EvData [5, 1, 2]) demo_manager1 = Some q1"
    "demo_dispatch (EvData [1, 1, 97, 1, 98]) (snd q1) = Some q2"
    "demo_dispatch (EvAuth (Some demo_auth)) (snd q2) = Some q3"
    by (auto simp: bind_eq_Some_conv)
  moreover from this have "demo_manager2 = snd q3" by (simp add: demo_manager2_def)
  ultimately show ?thesis using step demo_manager1_reach by metis
qed

lemma idle_connections_stay_witness:
  "\<exists>t. Manager_Tick ref_manager_lib 1000000000 demo_manager2 = Some t \<and>
     GetConnectionById ref_manager_lib t 1 \<noteq> None"
proof -
  have f: "cm_Ticker demo_manager2 = 100"
    "map_option (\<lambda>c. rank (stage c)) (GetConnectionById ref_manager_lib demo_manager2 1) = Some 2"
    "KillLists demo_manager2 KillConnectionList = []" "KillLists demo_manager2 LingerKillConnectionList = []"
    by code_simp+
  from f(2) obtain c where c: "GetConnectionById ref_manager_lib demo_manager2 1 = Some c" "rank (stage c) = 2"
    by auto
  have "view_ok (view_of ref_manager_lib (\<lambda>l. l) (\<lambda>l. l) (\<lambda>l. l) demo_manager2)"
    by (rule ref_manager.reach_ok [OF demo_manager2_reach demo_manager_empty])
  from idle_connections_stay [OF ref_manager.client_manager_env_axioms this _ c(1), of 1000000000] f c(2)
  show ?thesis by auto
qed

end
