(* ===== verification/AuthCache.thy ===== *)
theory AuthCache
  imports ClientSession ServiceMessages
begin

text \<open>
  The cache of authentication results of the proxy access server,
  \<^verbatim>\<open>server_proxy_access/client_auth_cache_manager.cpp\<close>: a request for \<^verbatim>\<open>name:pass\<close> is answered from the
  cached node of that text, or waits on the node until the authentication service answers or the
  node times out. Answers are handed to the client connection manager in the tick, here the list
  of \<^verbatim>\<open>OnAuthResult\<close> calls the tick returns.
\<close>

subsection \<open>State\<close>

record xPA_AuthRequestNode =
  RequestId :: u64
  RequestTimestamp :: u64
  RequestSourceId :: u64
  CacheNodeId :: u64

record xPA_AuthCacheNode =
  CacheNodeId :: u64
  UserPass :: bytes
  Result :: xPA_AuthResult
  LastUsedTimestampMS :: u64
  LastUpdateTimestampMS :: u64

definition fresh_request :: xPA_AuthRequestNode where
  "fresh_request = \<lparr>RequestId = 0, RequestTimestamp = 0, RequestSourceId = 0,
     xPA_AuthRequestNode.CacheNodeId = 0\<rparr>"

definition fresh_result :: xPA_AuthResult where
  "fresh_result = \<lparr>xPA_AuthResult.CountryId = 0, xPA_AuthResult.StateId = 0, xPA_AuthResult.CityId = 0,
     xPA_AuthResult.IsBlocked = False, xPA_AuthResult.RequireIpv6 = False,
     xPA_AuthResult.RequireUdp = False, xPA_AuthResult.RequireRemoteDns = False,
     xPA_AuthResult.AutoChangeIp = False, Ready = False\<rparr>"

definition fresh_node :: xPA_AuthCacheNode where
  "fresh_node = \<lparr>CacheNodeId = 0, UserPass = [], Result = fresh_result, LastUsedTimestampMS = 0,
     LastUpdateTimestampMS = 0\<rparr>"

text \<open>The lists a request can be on: the manager's results, or the list of one cache node.\<close>

datatype auth_queue = DispatchResultList | RequestListOf u64

record ('r, 'n, 'l, 'u, 'q) auth_lib =
  al_requests :: "('r, xPA_AuthRequestNode) storage_ops"
  al_nodes :: "('n, xPA_AuthCacheNode) storage_ops"
  al_lru :: "('l, unit, u64) list_ops"
  al_update :: "('u, unit, u64) list_ops"
  al_queue :: "('q, auth_queue, u64) list_ops"

text \<open>\<open>Asserted\<close> turns false when an \<^verbatim>\<open>assert\<close> fails.\<close>

record ('r, 'n, 'l, 'u, 'q) auth_manager =
  am_Ticker :: u64
  ReconfirmTimePointMS :: u64
  RequestPool :: 'r
  AuthCacheNodePool :: 'n
  AuthMap :: "bytes \<Rightarrow> u64 option"
  AuthCacheLRUList :: 'l
  AuthCacheUpdateList :: 'u
  RequestQueues :: 'q
  AuthCacheNodeCount :: u64
  OngoingAuthRequestNumber :: u64
  Asserted :: bool

definition AUTH_CACHE_REQUEST_TIMEOUT_MS :: u64 where "AUTH_CACHE_REQUEST_TIMEOUT_MS = 15000"
definition AUTH_CACHE_RECONFIRM_TIMEOUT_MS :: u64 where "AUTH_CACHE_RECONFIRM_TIMEOUT_MS = 5 * 60 * 1000"
definition AUTH_CACHE_NODE_TIMEOUT_MS :: u64 where "AUTH_CACHE_NODE_TIMEOUT_MS = 8 * 60000"

lemmas auth_timeout_defs = AUTH_CACHE_REQUEST_TIMEOUT_MS_def AUTH_CACHE_RECONFIRM_TIMEOUT_MS_def
  AUTH_CACHE_NODE_TIMEOUT_MS_def

subsection \<open>Operations\<close>

definition write_node ::
    "('r, 'n, 'l, 'u, 'q) auth_lib \<Rightarrow> u64 \<Rightarrow> (xPA_AuthCacheNode \<Rightarrow> xPA_AuthCacheNode) \<Rightarrow>
     ('r, 'n, 'l, 'u, 'q) auth_manager \<Rightarrow> ('r, 'n, 'l, 'u, 'q) auth_manager" where
  "write_node al i f s =
     (case st_get (al_nodes al) (AuthCacheNodePool s) i of None \<Rightarrow> s
      | Some N \<Rightarrow> s\<lparr>AuthCacheNodePool := st_put (al_nodes al) (AuthCacheNodePool s) i (f N)\<rparr>)"

text \<open>The id of the new node, or 0 for \<^verbatim>\<open>nullptr\<close>.\<close>

definition AcquireCacheNode ::
    "('r, 'n, 'l, 'u, 'q) auth_lib \<Rightarrow> bytes \<Rightarrow> ('r, 'n, 'l, 'u, 'q) auth_manager \<Rightarrow>
     u64 \<times> ('r, 'n, 'l, 'u, 'q) auth_manager" where
  "AcquireCacheNode al UP s =
     (let (Id, p) = st_acquire (al_nodes al) (AuthCacheNodePool s) in
      if Id = 0 then (0, s\<lparr>AuthCacheNodePool := p\<rparr>)
      else (Id, s\<lparr>AuthCacheNodeCount := AuthCacheNodeCount s + 1,
        AuthCacheNodePool := st_put (al_nodes al) p Id (fresh_node\<lparr>UserPass := UP, CacheNodeId := Id\<rparr>),
        Asserted := (Asserted s \<and> AuthMap s UP = None),
        AuthMap := (AuthMap s)(UP \<mapsto> Id)\<rparr>))"

text \<open>The released node leaves the lists it is linked in.\<close>

definition ReleaseCacheNode ::
    "('r, 'n, 'l, 'u, 'q) auth_lib \<Rightarrow> u64 \<Rightarrow> ('r, 'n, 'l, 'u, 'q) auth_manager \<Rightarrow>
     ('r, 'n, 'l, 'u, 'q) auth_manager" where
  "ReleaseCacheNode al i s =
     (case st_get (al_nodes al) (AuthCacheNodePool s) i of None \<Rightarrow> s\<lparr>Asserted := False\<rparr>
      | Some N \<Rightarrow>
          s\<lparr>Asserted := (Asserted s \<and> AuthMap s (UserPass N) = Some i \<and> xPA_AuthCacheNode.CacheNodeId N = i),
            AuthMap := (AuthMap s)(UserPass N := None),
            AuthCacheNodePool := st_release (al_nodes al) (AuthCacheNodePool s) (xPA_AuthCacheNode.CacheNodeId N),
            AuthCacheLRUList := li_remove (al_lru al) (AuthCacheLRUList s) i,
            AuthCacheUpdateList := li_remove (al_update al) (AuthCacheUpdateList s) i,
            AuthCacheNodeCount := AuthCacheNodeCount s - 1\<rparr>)"

definition HitCache ::
    "('r, 'n, 'l, 'u, 'q) auth_lib \<Rightarrow> u64 \<Rightarrow> ('r, 'n, 'l, 'u, 'q) auth_manager \<Rightarrow>
     ('r, 'n, 'l, 'u, 'q) auth_manager" where
  "HitCache al i s =
     (write_node al i (\<lambda>N. N\<lparr>LastUsedTimestampMS := am_Ticker s\<rparr>) s)
       \<lparr>AuthCacheLRUList := li_grab_tail (al_lru al) (AuthCacheLRUList s) () i\<rparr>"

type_synonym auth_query = "u32 \<times> u64 \<times> xQueryAuthCache"

definition PerformAuthRequest ::
    "('r, 'n, 'l, 'u, 'q) auth_lib \<Rightarrow> u64 \<Rightarrow> bytes \<Rightarrow> ('r, 'n, 'l, 'u, 'q) auth_manager \<Rightarrow>
     auth_query list \<times> ('r, 'n, 'l, 'u, 'q) auth_manager" where
  "PerformAuthRequest al i UP s =
     ([(Cmd_AuthService_QueryAuthCache, i, xQueryAuthCache.make UP)],
      (write_node al i (\<lambda>N. N\<lparr>LastUpdateTimestampMS := am_Ticker s\<rparr>) s)
        \<lparr>AuthCacheUpdateList := li_grab_tail (al_update al) (AuthCacheUpdateList s) () i\<rparr>)"

definition valid_user_pass :: "bytes \<Rightarrow> bool" where
  "valid_user_pass UP =
     (case find_byte 58 UP of None \<Rightarrow> False
      | Some SplitIndex \<Rightarrow>
          let UserLength = SplitIndex; PassLength = length UP - SplitIndex - 1 in
          \<not> (UserLength = 0 \<or> PassLength = 0 \<or> UserLength > 127 \<or> PassLength > 127))"

text \<open>The part of \<^verbatim>\<open>RequestAuth\<close> behind the lookup, for the node \<open>i\<close>.\<close>

definition join_node ::
    "('r, 'n, 'l, 'u, 'q) auth_lib \<Rightarrow> u64 \<Rightarrow> u64 \<Rightarrow> bytes \<Rightarrow> ('r, 'n, 'l, 'u, 'q) auth_manager \<Rightarrow>
     auth_query list \<times> ('r, 'n, 'l, 'u, 'q) auth_manager" where
  "join_node al Rid i UP s =
     (case st_get (al_nodes al) (AuthCacheNodePool s) i of None \<Rightarrow> ([], s\<lparr>Asserted := False\<rparr>)
      | Some N \<Rightarrow>
          let req = (case st_get (al_requests al) (RequestPool s) Rid of
                Some R \<Rightarrow> R\<lparr>xPA_AuthRequestNode.CacheNodeId := xPA_AuthCacheNode.CacheNodeId N\<rparr> | None \<Rightarrow> fresh_request);
              s1 = s\<lparr>RequestPool := st_put (al_requests al) (RequestPool s) Rid req,
                RequestQueues := li_add_tail (al_queue al) (RequestQueues s)
                  (if Ready (Result N) then DispatchResultList else RequestListOf i) Rid\<rparr>;
              (out, s2) = (if LastUpdateTimestampMS N \<le> ReconfirmTimePointMS s
                then PerformAuthRequest al i UP s1 else ([], s1)) in
          (out, HitCache al i s2))"

definition RequestAuth ::
    "('r, 'n, 'l, 'u, 'q) auth_lib \<Rightarrow> u64 \<Rightarrow> bytes \<Rightarrow> ('r, 'n, 'l, 'u, 'q) auth_manager \<Rightarrow>
     bool \<times> auth_query list \<times> ('r, 'n, 'l, 'u, 'q) auth_manager" where
  "RequestAuth al Src UP s =
     (if \<not> valid_user_pass UP then (False, [], s)
      else
        let (Rid, p) = st_acquire (al_requests al) (RequestPool s) in
        if Rid = 0 then (False, [], s\<lparr>RequestPool := p\<rparr>)
        else
          let s1 = s\<lparr>RequestPool := st_put (al_requests al) p Rid
                 (fresh_request\<lparr>RequestId := Rid, RequestTimestamp := am_Ticker s, RequestSourceId := Src\<rparr>),
               OngoingAuthRequestNumber := OngoingAuthRequestNumber s + 1\<rparr> in
          case AuthMap s1 UP of
            Some i \<Rightarrow> (let (out, t) = join_node al Rid i UP s1 in (True, out, t))
          | None \<Rightarrow>
              let (i, s2) = AcquireCacheNode al UP s1 in
              if i = 0 then
                (True, [], s2\<lparr>RequestQueues :=
                   li_add_tail (al_queue al) (RequestQueues s2) DispatchResultList Rid\<rparr>)
              else (let (out, t) = join_node al Rid i UP s2 in (True, out, t)))"

definition take_result :: "xQueryAuthCacheResp \<Rightarrow> xPA_AuthResult" where
  "take_result Resp = \<lparr>xPA_AuthResult.CountryId = xQueryAuthCacheResp.CountryId Resp,
     xPA_AuthResult.StateId = xQueryAuthCacheResp.StateId Resp,
     xPA_AuthResult.CityId = xQueryAuthCacheResp.CityId Resp,
     xPA_AuthResult.IsBlocked = xQueryAuthCacheResp.IsBlocked Resp,
     xPA_AuthResult.RequireIpv6 = xQueryAuthCacheResp.RequireIpv6 Resp,
     xPA_AuthResult.RequireUdp = xQueryAuthCacheResp.RequireUdp Resp,
     xPA_AuthResult.RequireRemoteDns = xQueryAuthCacheResp.RequireRemoteDns Resp,
     xPA_AuthResult.AutoChangeIp = xQueryAuthCacheResp.AutoChangeIp Resp, Ready = True\<rparr>"

text \<open>A packet of the authentication service; its command is not looked at.\<close>

definition AuthCache_OnServerPacket ::
    "'x wire \<Rightarrow> ('r, 'n, 'l, 'u, 'q) auth_lib \<Rightarrow> u64 \<Rightarrow> bytes \<Rightarrow>
     ('r, 'n, 'l, 'u, 'q) auth_manager \<Rightarrow> ('r, 'n, 'l, 'u, 'q) auth_manager" where
  "AuthCache_OnServerPacket wc al Rid Payload s =
     (case st_get (al_nodes al) (AuthCacheNodePool s) Rid of None \<Rightarrow> s
      | Some N \<Rightarrow>
          (case des_xQueryAuthCacheResp wc Payload of None \<Rightarrow> s
           | Some (Resp, _) \<Rightarrow>
               let s1 = write_node al Rid (\<lambda>N. N\<lparr>Result := take_result Resp\<rparr>) s;
                   s2 = s1\<lparr>RequestQueues := li_grab_list_tail (al_queue al) (RequestQueues s1)
                     DispatchResultList (RequestListOf Rid)\<rparr>;
                   s3 = HitCache al Rid s2 in
               s3\<lparr>AuthCacheUpdateList := li_remove (al_update al) (AuthCacheUpdateList s3) Rid\<rparr>))"

subsection \<open>Tick\<close>

definition node_before ::
    "('r, 'n, 'l, 'u, 'q) auth_lib \<Rightarrow> ('r, 'n, 'l, 'u, 'q) auth_manager \<Rightarrow> (xPA_AuthCacheNode \<Rightarrow> u64) \<Rightarrow>
     u64 \<Rightarrow> u64 \<Rightarrow> bool" where
  "node_before al s f KP i =
     (case st_get (al_nodes al) (AuthCacheNodePool s) i of Some N \<Rightarrow> f N < KP | None \<Rightarrow> False)"

definition pop_update ::
    "('r, 'n, 'l, 'u, 'q) auth_lib \<Rightarrow> u64 \<Rightarrow> ('r, 'n, 'l, 'u, 'q) auth_manager \<Rightarrow>
     (u64 \<times> ('r, 'n, 'l, 'u, 'q) auth_manager) option" where
  "pop_update al KP s = map_option (\<lambda>(i, l). (i, s\<lparr>AuthCacheUpdateList := l\<rparr>))
     (li_pop_head (al_update al) (AuthCacheUpdateList s) () (node_before al s LastUpdateTimestampMS KP))"

definition timeout_node ::
    "('r, 'n, 'l, 'u, 'q) auth_lib \<Rightarrow> u64 \<Rightarrow> ('r, 'n, 'l, 'u, 'q) auth_manager \<Rightarrow>
     ('r, 'n, 'l, 'u, 'q) auth_manager" where
  "timeout_node al i s = ReleaseCacheNode al i
     (s\<lparr>RequestQueues := li_grab_list_tail (al_queue al) (RequestQueues s) DispatchResultList (RequestListOf i)\<rparr>)"

definition pop_lru ::
    "('r, 'n, 'l, 'u, 'q) auth_lib \<Rightarrow> u64 \<Rightarrow> ('r, 'n, 'l, 'u, 'q) auth_manager \<Rightarrow>
     (u64 \<times> ('r, 'n, 'l, 'u, 'q) auth_manager) option" where
  "pop_lru al KP s = map_option (\<lambda>(i, l). (i, s\<lparr>AuthCacheLRUList := l\<rparr>))
     (li_pop_head (al_lru al) (AuthCacheLRUList s) () (node_before al s LastUsedTimestampMS KP))"

text \<open>\<^verbatim>\<open>P->RequestList.IsEmpty()\<close> is a pop that finds nothing.\<close>

definition unused_node ::
    "('r, 'n, 'l, 'u, 'q) auth_lib \<Rightarrow> u64 \<Rightarrow> ('r, 'n, 'l, 'u, 'q) auth_manager \<Rightarrow>
     ('r, 'n, 'l, 'u, 'q) auth_manager" where
  "unused_node al i s = ReleaseCacheNode al i
     (s\<lparr>Asserted := (Asserted s \<and>
        li_pop_head (al_queue al) (RequestQueues s) (RequestListOf i) (\<lambda>_. True) = None)\<rparr>)"

definition pop_result ::
    "('r, 'n, 'l, 'u, 'q) auth_lib \<Rightarrow> 'o \<times> ('r, 'n, 'l, 'u, 'q) auth_manager \<Rightarrow>
     (u64 \<times> 'o \<times> ('r, 'n, 'l, 'u, 'q) auth_manager) option" where
  "pop_result al q = (case q of (out, s) \<Rightarrow> map_option (\<lambda>(i, l). (i, out, s\<lparr>RequestQueues := l\<rparr>))
     (li_pop_head (al_queue al) (RequestQueues s) DispatchResultList (\<lambda>_. True)))"

type_synonym auth_answer = "u64 \<times> xPA_AuthResult option"

definition deliver_result ::
    "('r, 'n, 'l, 'u, 'q) auth_lib \<Rightarrow> u64 \<Rightarrow> auth_answer list \<times> ('r, 'n, 'l, 'u, 'q) auth_manager \<Rightarrow>
     auth_answer list \<times> ('r, 'n, 'l, 'u, 'q) auth_manager" where
  "deliver_result al r q =
     (case q of (out, s) \<Rightarrow>
       (case st_get (al_requests al) (RequestPool s) r of None \<Rightarrow> (out, s\<lparr>Asserted := False\<rparr>)
        | Some R \<Rightarrow>
            (out @ [(RequestSourceId R, map_option Result
                (st_get (al_nodes al) (AuthCacheNodePool s) (xPA_AuthRequestNode.CacheNodeId R)))],
             s\<lparr>RequestPool := st_release (al_requests al) (RequestPool s) (RequestId R),
               OngoingAuthRequestNumber := OngoingAuthRequestNumber s - 1\<rparr>)))"

definition AuthCache_OnTick ::
    "('r, 'n, 'l, 'u, 'q) auth_lib \<Rightarrow> u64 \<Rightarrow> ('r, 'n, 'l, 'u, 'q) auth_manager \<Rightarrow>
     (auth_answer list \<times> ('r, 'n, 'l, 'u, 'q) auth_manager) option" where
  "AuthCache_OnTick al NowMS s =
     (let s0 = s\<lparr>am_Ticker := NowMS, ReconfirmTimePointMS := NowMS - AUTH_CACHE_RECONFIRM_TIMEOUT_MS\<rparr> in
      Option.bind (pop_loop (pop_update al (NowMS - AUTH_CACHE_REQUEST_TIMEOUT_MS)) (timeout_node al) s0)
        (\<lambda>s1. Option.bind (pop_loop (pop_lru al (NowMS - AUTH_CACHE_NODE_TIMEOUT_MS)) (unused_node al) s1)
          (\<lambda>s2. pop_loop (pop_result al) (deliver_result al) ([], s2))))"


subsection \<open>The abstract cache\<close>

record auth_view =
  a_now :: u64
  a_reqs :: "u64 \<Rightarrow> xPA_AuthRequestNode option"
  a_nodes :: "u64 \<Rightarrow> xPA_AuthCacheNode option"
  a_map :: "bytes \<Rightarrow> u64 option"
  a_lru :: "u64 list"
  a_upd :: "u64 list"
  a_queue :: "auth_queue \<Rightarrow> u64 list"

definition stamp :: "(xPA_AuthCacheNode \<Rightarrow> u64) \<Rightarrow> auth_view \<Rightarrow> u64 \<Rightarrow> u64" where
  "stamp f v i = (case a_nodes v i of Some N \<Rightarrow> f N | None \<Rightarrow> 0)"

text \<open>Requests: each pending request is on exactly one queue, and a node's queue is for that node.\<close>

definition reqs_ok :: "auth_view \<Rightarrow> bool" where
  "reqs_ok v \<longleftrightarrow>
     (\<forall>r R. a_reqs v r = Some R \<longrightarrow> RequestId R = r) \<and>
     (\<forall>q. distinct (a_queue v q)) \<and> (\<forall>q q'. q \<noteq> q' \<longrightarrow> set (a_queue v q) \<inter> set (a_queue v q') = {}) \<and>
     (\<Union>q. set (a_queue v q)) = dom (a_reqs v)"

text \<open>Nodes: the map and the pool agree; only a node that waits for an answer has a queue.\<close>

definition node_ok :: "auth_view \<Rightarrow> u64 \<Rightarrow> xPA_AuthCacheNode \<Rightarrow> bool" where
  "node_ok v i N \<longleftrightarrow> CacheNodeId N = i \<and> a_map v (UserPass N) = Some i \<and>
     LastUpdateTimestampMS N \<le> LastUsedTimestampMS N \<and> LastUsedTimestampMS N \<le> a_now v \<and>
     (\<not> Ready (Result N) \<longrightarrow> i \<in> set (a_upd v)) \<and>
     (Ready (Result N) \<longrightarrow> a_queue v (RequestListOf i) = [])"

definition nodes_ok :: "auth_view \<Rightarrow> bool" where
  "nodes_ok v \<longleftrightarrow>
     (\<forall>i N. a_nodes v i = Some N \<longrightarrow> node_ok v i N) \<and>
     (\<forall>u i. a_map v u = Some i \<longrightarrow> (\<exists>N. a_nodes v i = Some N \<and> UserPass N = u)) \<and>
     (\<forall>i. a_nodes v i = None \<longrightarrow> a_queue v (RequestListOf i) = [])"

definition ordered :: "(xPA_AuthCacheNode \<Rightarrow> u64) \<Rightarrow> auth_view \<Rightarrow> u64 list \<Rightarrow> bool" where
  "ordered f v l \<longleftrightarrow> distinct l \<and> set l \<subseteq> dom (a_nodes v) \<and> sorted (map (stamp f v) l)"

definition cache_ok :: "auth_view \<Rightarrow> bool" where
  "cache_ok v \<longleftrightarrow> reqs_ok v \<and> nodes_ok v \<and>
     ordered LastUsedTimestampMS v (a_lru v) \<and> set (a_lru v) = dom (a_nodes v) \<and>
     ordered LastUpdateTimestampMS v (a_upd v)"

text \<open>The abstract operations.\<close>

definition a_hit :: "u64 \<Rightarrow> auth_view \<Rightarrow> auth_view" where
  "a_hit i v = v\<lparr>a_nodes := (a_nodes v)(i := map_option (\<lambda>N. N\<lparr>LastUsedTimestampMS := a_now v\<rparr>) (a_nodes v i)),
     a_lru := removeAll i (a_lru v) @ [i]\<rparr>"

definition a_query :: "u64 \<Rightarrow> auth_view \<Rightarrow> auth_view" where
  "a_query i v = v\<lparr>a_nodes := (a_nodes v)(i := map_option (\<lambda>N. N\<lparr>LastUpdateTimestampMS := a_now v\<rparr>) (a_nodes v i)),
     a_upd := removeAll i (a_upd v) @ [i]\<rparr>"

definition a_release :: "u64 \<Rightarrow> auth_view \<Rightarrow> auth_view" where
  "a_release i v =
     (case a_nodes v i of None \<Rightarrow> v
      | Some N \<Rightarrow> v\<lparr>a_nodes := (a_nodes v)(i := None), a_map := (a_map v)(UserPass N := None),
          a_lru := removeAll i (a_lru v), a_upd := removeAll i (a_upd v)\<rparr>)"

definition a_grab :: "u64 \<Rightarrow> auth_view \<Rightarrow> auth_view" where
  "a_grab i v = v\<lparr>a_queue := (a_queue v)(DispatchResultList := a_queue v DispatchResultList @ a_queue v (RequestListOf i),
     RequestListOf i := [])\<rparr>"

lemma ordered_touch:
  assumes "ordered f v l" "\<forall>j M. a_nodes v j = Some M \<longrightarrow> f M \<le> f N"
    and "a_nodes w = (a_nodes v)(i \<mapsto> N)"
  shows "ordered f w (removeAll i l @ [i])"
proof -
  have s: "stamp f w j = stamp f v j" if "j \<noteq> i" for j using that assms(3) by (simp add: stamp_def)
  have m: "map (stamp f w) (removeAll i l) = map (stamp f v) (removeAll i l)" using s by auto
  have "sorted (map (stamp f w) (removeAll i l))"
    unfolding m using assms(1) by (simp add: ordered_def removeAll_filter_not_eq sorted_filter)
  moreover have "stamp f v j \<le> f N" if "j \<in> set l" for j
    using assms(1,2) that by (auto simp: ordered_def stamp_def split: option.splits)
  moreover have "stamp f w i = f N" using assms(3) by (simp add: stamp_def)
  ultimately show ?thesis using assms(1,3) s
    by (auto simp: ordered_def sorted_append distinct_removeAll)
qed

lemma ordered_same:
  assumes "ordered f v l" "\<forall>j \<in> set l. map_option f (a_nodes w j) = map_option f (a_nodes v j)"
  shows "ordered f w l"
proof -
  have "stamp f w j = stamp f v j" if "j \<in> set l" for j
    using assms(2) that by (auto simp: stamp_def split: option.splits)
  then have m: "map (stamp f w) l = map (stamp f v) l" by simp
  have "sorted (map (stamp f w) l)" unfolding m using assms(1) by (simp add: ordered_def)
  moreover have "set l \<subseteq> dom (a_nodes w)"
    using assms by (fastforce simp: ordered_def)
  ultimately show ?thesis using assms(1) by (simp add: ordered_def)
qed

lemma ordered_removeAll: "ordered f v l \<Longrightarrow> ordered f v (removeAll i l)"
  by (auto simp: ordered_def removeAll_filter_not_eq sorted_filter)


subsection \<open>The abstract operations keep the invariant\<close>

lemma reqs_okI:
  assumes "\<And>r R. a_reqs v r = Some R \<Longrightarrow> RequestId R = r" "\<And>q. distinct (a_queue v q)"
    and "\<And>q q' r. r \<in> set (a_queue v q) \<Longrightarrow> r \<in> set (a_queue v q') \<Longrightarrow> q = q'"
    and "\<And>r. (\<exists>q. r \<in> set (a_queue v q)) \<longleftrightarrow> r \<in> dom (a_reqs v)"
  shows "reqs_ok v"
  unfolding reqs_ok_def
proof (intro conjI allI impI)
  show "RequestId R = r" if "a_reqs v r = Some R" for r R using that by (rule assms(1))
  show "distinct (a_queue v q)" for q by (rule assms(2))
  show "set (a_queue v q) \<inter> set (a_queue v q') = {}" if "q \<noteq> q'" for q q'
    using that assms(3) by blast
  show "(\<Union>q. set (a_queue v q)) = dom (a_reqs v)"
    unfolding set_eq_iff UN_iff bex_UNIV by (intro allI assms(4))
qed

lemma reqs_okD:
  assumes "reqs_ok v"
  shows "a_reqs v r = Some R \<Longrightarrow> RequestId R = r" "distinct (a_queue v q)"
    "r \<in> set (a_queue v q) \<Longrightarrow> r \<in> set (a_queue v q') \<Longrightarrow> q = q'"
    "(\<exists>q. r \<in> set (a_queue v q)) \<longleftrightarrow> r \<in> dom (a_reqs v)"
proof -
  note u = assms [unfolded reqs_ok_def]
  show "RequestId R = r" if "a_reqs v r = Some R" using u that by blast
  show "distinct (a_queue v q)" using u by blast
  show "q = q'" if "r \<in> set (a_queue v q)" "r \<in> set (a_queue v q')" using u that by blast
  have "(\<Union>q. set (a_queue v q)) = dom (a_reqs v)" using u by blast
  from this [unfolded set_eq_iff UN_iff bex_UNIV]
  show "(\<exists>q. r \<in> set (a_queue v q)) \<longleftrightarrow> r \<in> dom (a_reqs v)" by (rule spec)
qed

lemma enqueue_ok:
  assumes "reqs_ok v" "a_reqs v r = None" "RequestId R = r"
    and "a_reqs w = (a_reqs v)(r \<mapsto> R)" "a_queue w = (a_queue v)(q := a_queue v q @ [r])"
  shows "reqs_ok w"
proof -
  note v = reqs_okD [OF assms(1)]
  have new: "r \<notin> set (a_queue v q')" for q' using v(4) [of r] assms(2) by (metis domIff)
  have mem: "x \<in> set (a_queue w q') \<longleftrightarrow> x \<in> set (a_queue v q') \<or> q' = q \<and> x = r" for x q'
    by (simp add: assms(5) disj_commute)
  show ?thesis
  proof (rule reqs_okI)
    show "RequestId S = x" if "a_reqs w x = Some S" for x S
      using that v(1) assms(3,4) by (cases "x = r") auto
    show "distinct (a_queue w q')" for q' using v(2) new by (cases "q' = q") (simp_all add: assms(5))
    show "p = p'" if "x \<in> set (a_queue w p)" "x \<in> set (a_queue w p')" for p p' x
      using that new v(3) unfolding mem by blast
    show "(\<exists>q'. x \<in> set (a_queue w q')) \<longleftrightarrow> x \<in> dom (a_reqs w)" for x
      using v(4) [of x] new unfolding mem by (cases "x = r") (auto simp: assms(4))
  qed
qed

lemma node_stamps:
  assumes "nodes_ok v" "a_nodes v j = Some M"
  shows "LastUsedTimestampMS M \<le> a_now v" "LastUpdateTimestampMS M \<le> a_now v"
proof -
  have n: "node_ok v j M" using assms by (simp add: nodes_ok_def)
  then show "LastUsedTimestampMS M \<le> a_now v" by (simp add: node_ok_def)
  with n show "LastUpdateTimestampMS M \<le> a_now v" unfolding node_ok_def by (elim conjE) (rule order_trans)
qed

lemma join_ok:
  assumes ok: "cache_ok v" "a_reqs v r = None" "RequestId R = r"
    and w: "a_reqs w = (a_reqs v)(r \<mapsto> R)" "a_now w = a_now v" "a_nodes w = (a_nodes v)(i \<mapsto> N)"
      "a_map w = (a_map v)(UserPass N \<mapsto> i)" "a_lru w = removeAll i (a_lru v) @ [i]"
      "a_queue w = (a_queue v)(q := a_queue v q @ [r])"
    and q: "q = (if Ready (Result N) then DispatchResultList else RequestListOf i)"
    and N: "CacheNodeId N = i" "LastUsedTimestampMS N = a_now v" "LastUpdateTimestampMS N \<le> a_now v"
      "\<not> Ready (Result N) \<longrightarrow> i \<in> set (a_upd w)"
    and old: "(\<exists>M. a_nodes v i = Some M \<and> UserPass M = UserPass N \<and> Result M = Result N) \<or>
      a_nodes v i = None \<and> a_map v (UserPass N) = None"
    and upd: "a_upd w = removeAll i (a_upd v) @ [i] \<and> LastUpdateTimestampMS N = a_now v \<or>
      a_upd w = a_upd v \<and> (\<exists>M. a_nodes v i = Some M \<and> LastUpdateTimestampMS M = LastUpdateTimestampMS N)"
  shows "cache_ok w"
proof -
  have stamps: "LastUsedTimestampMS M \<le> a_now v" "LastUpdateTimestampMS M \<le> a_now v"
    if "a_nodes v j = Some M" for j M
    using node_stamps [OF _ that] ok(1) by (simp_all add: cache_ok_def)
  have v: "reqs_ok v" "nodes_ok v" "ordered LastUsedTimestampMS v (a_lru v)" "set (a_lru v) = dom (a_nodes v)"
    "ordered LastUpdateTimestampMS v (a_upd v)"
    using ok(1) by (simp_all add: cache_ok_def)
  have "reqs_ok w" by (rule enqueue_ok [OF v(1) ok(2,3) w(1,6)])
  moreover have "ordered LastUsedTimestampMS w (a_lru w)"
    unfolding w(5) by (rule ordered_touch [OF v(3) _ w(3)]) (simp add: N(2) stamps)
  moreover have "set (a_lru w) = dom (a_nodes w)" by (simp add: v(4) w(3,5) insert_Diff_if insert_absorb)
  moreover have "ordered LastUpdateTimestampMS w (a_upd w)"
    using upd
  proof
    assume u: "a_upd w = removeAll i (a_upd v) @ [i] \<and> LastUpdateTimestampMS N = a_now v"
    have "ordered LastUpdateTimestampMS w (removeAll i (a_upd v) @ [i])"
      by (rule ordered_touch [OF v(5) _ w(3)]) (simp add: u stamps)
    with u show ?thesis by simp
  next
    assume u: "a_upd w = a_upd v \<and> (\<exists>M. a_nodes v i = Some M \<and> LastUpdateTimestampMS M = LastUpdateTimestampMS N)"
    then have "\<forall>j \<in> set (a_upd v). map_option LastUpdateTimestampMS (a_nodes w j) =
        map_option LastUpdateTimestampMS (a_nodes v j)"
      by (auto simp: w(3))
    from ordered_same [OF v(5) this] u show ?thesis by simp
  qed
  moreover have "nodes_ok w"
  proof -
    have memb: "j \<in> set (a_upd w) \<longleftrightarrow> j \<in> set (a_upd v)" if "j \<noteq> i" for j using upd that by auto
    have queue: "a_queue w (RequestListOf j) = a_queue v (RequestListOf j)" if "j \<noteq> i" for j
      using that q w(6) by auto
    have i_queue: "a_queue w (RequestListOf i) = []" if "Ready (Result N)"
      using that q w(6) old v(2) by (auto simp: nodes_ok_def node_ok_def)
    have i_map: "a_map v u = Some i \<Longrightarrow> u = UserPass N" for u
      using old v(2) unfolding nodes_ok_def by fastforce
    have other_map: "a_map v (UserPass N) = Some j \<Longrightarrow> j = i" for j
      using old v(2) unfolding nodes_ok_def node_ok_def by fastforce
    have "node_ok w j M" if "a_nodes w j = Some M" for j M
    proof (cases "j = i")
      case True
      with that w(3) N i_queue show ?thesis by (auto simp: node_ok_def w(2,4))
    next
      case False
      with that w(3) have M: "a_nodes v j = Some M" by simp
      with v(2) have nj: "node_ok v j M" by (simp add: nodes_ok_def)
      moreover have "UserPass M \<noteq> UserPass N" using nj other_map False by (auto simp: node_ok_def)
      ultimately show ?thesis using False by (simp add: node_ok_def w(2,4) memb queue)
    qed
    moreover have "\<exists>M. a_nodes w j = Some M \<and> UserPass M = u" if "a_map w u = Some j" for u j
    proof (cases "u = UserPass N")
      case True
      with that show ?thesis by (simp add: w(3,4))
    next
      case False
      then have "a_map v u = Some j" using that by (simp add: w(4))
      with i_map False have "j \<noteq> i" by auto
      with \<open>a_map v u = Some j\<close> v(2) show ?thesis by (simp add: nodes_ok_def w(3))
    qed
    moreover have "a_queue w (RequestListOf j) = []" if "a_nodes w j = None" for j
      using that v(2) queue by (auto simp: nodes_ok_def w(3) split: if_splits)
    ultimately show ?thesis by (simp add: nodes_ok_def)
  qed
  ultimately show ?thesis by (simp add: cache_ok_def)
qed

lemma grab_reqs_ok:
  assumes "reqs_ok v"
  shows "reqs_ok (a_grab i v)"
proof -
  note v = reqs_okD [OF assms]
  let ?D = DispatchResultList and ?Q = "RequestListOf i"
  have mem: "x \<in> set (a_queue (a_grab i v) q) \<longleftrightarrow> q \<noteq> ?Q \<and> (x \<in> set (a_queue v q) \<or> q = ?D \<and> x \<in> set (a_queue v ?Q))"
    for x q by (cases "q = ?Q"; cases "q = ?D") (simp_all add: a_grab_def)
  have disj: "set (a_queue v ?D) \<inter> set (a_queue v ?Q) = {}" using v(3) by blast
  have reqs: "a_reqs (a_grab i v) = a_reqs v" by (simp add: a_grab_def)
  show ?thesis
  proof (rule reqs_okI)
    show "RequestId S = x" if "a_reqs (a_grab i v) x = Some S" for x S using that v(1) by (simp add: reqs)
    show "distinct (a_queue (a_grab i v) q)" for q
      using v(2) disj by (cases "q = ?Q"; cases "q = ?D") (simp_all add: a_grab_def)
    show "p = p'" if "x \<in> set (a_queue (a_grab i v) p)" "x \<in> set (a_queue (a_grab i v) p')" for p p' x
      using that v(3) unfolding mem by blast
    have "(\<exists>q. x \<in> set (a_queue (a_grab i v) q)) \<longleftrightarrow> (\<exists>q. x \<in> set (a_queue v q))" for x
      unfolding mem by (metis auth_queue.distinct(1))
    then show "(\<exists>q. x \<in> set (a_queue (a_grab i v) q)) \<longleftrightarrow> x \<in> dom (a_reqs (a_grab i v))" for x
      using v(4) by (simp add: reqs)
  qed
qed

lemma release_ok:
  assumes "reqs_ok v" "nodes_ok v" "ordered LastUsedTimestampMS v (a_lru v)" "set (a_lru v) = dom (a_nodes v)"
    "ordered LastUpdateTimestampMS v (a_upd v)" "a_nodes v i = Some N" "a_queue v (RequestListOf i) = []"
  shows "cache_ok (a_release i v)"
proof -
  let ?w = "a_release i v"
  have w: "a_reqs ?w = a_reqs v" "a_queue ?w = a_queue v" "a_nodes ?w = (a_nodes v)(i := None)"
    "a_lru ?w = removeAll i (a_lru v)" "a_upd ?w = removeAll i (a_upd v)"
    "a_map ?w = (a_map v)(UserPass N := None)" "a_now ?w = a_now v"
    using assms(6) by (simp_all add: a_release_def)
  have "reqs_ok ?w" using assms(1) by (simp add: reqs_ok_def w)
  moreover have "ordered LastUsedTimestampMS ?w (a_lru ?w)" "ordered LastUpdateTimestampMS ?w (a_upd ?w)"
    unfolding w using assms(3,5)
    by (auto intro!: ordered_same [OF ordered_removeAll] simp: w)
  moreover have "nodes_ok ?w"
    unfolding nodes_ok_def
  proof (intro conjI allI impI)
    have Ni: "node_ok v i N" using assms(2,6) by (simp add: nodes_ok_def)
    have old: "a_nodes v j = Some M \<Longrightarrow> node_ok v j M" for j M using assms(2) by (simp add: nodes_ok_def)
    fix j M u
    show "node_ok ?w j M" if m: "a_nodes ?w j = Some M"
    proof -
      from m have "j \<noteq> i" "a_nodes v j = Some M" by (auto simp: w split: if_splits)
      moreover from this old have "node_ok v j M" by simp
      moreover from this Ni \<open>j \<noteq> i\<close> have "UserPass M \<noteq> UserPass N" by (auto simp: node_ok_def)
      ultimately show ?thesis by (simp add: node_ok_def w)
    qed
    show "\<exists>M. a_nodes ?w j = Some M \<and> UserPass M = u" if "a_map ?w u = Some j"
    proof -
      from that have u: "u \<noteq> UserPass N" "a_map v u = Some j" by (auto simp: w split: if_splits)
      then obtain M where M: "a_nodes v j = Some M" "UserPass M = u" using assms(2) unfolding nodes_ok_def by blast
      with u(1) assms(6) have "j \<noteq> i" by auto
      with M show ?thesis by (simp add: w)
    qed
    show "a_queue ?w (RequestListOf j) = []" if "a_nodes ?w j = None"
      using that assms(2,7) by (cases "j = i") (simp_all add: w nodes_ok_def)
  qed
  ultimately show ?thesis using assms(4) by (auto simp: cache_ok_def w)
qed

lemma grab_nodes_ok:
  assumes "nodes_ok v"
  shows "nodes_ok (a_grab i v)"
proof -
  have w: "a_nodes (a_grab i v) = a_nodes v" "a_map (a_grab i v) = a_map v" "a_upd (a_grab i v) = a_upd v"
    "a_now (a_grab i v) = a_now v"
    "a_queue (a_grab i v) (RequestListOf j) = (if j = i then [] else a_queue v (RequestListOf j))" for j
    by (simp_all add: a_grab_def)
  then have "node_ok v j M \<Longrightarrow> node_ok (a_grab i v) j M" for j M by (simp add: node_ok_def)
  with assms show ?thesis unfolding nodes_ok_def w by simp
qed

lemma timeout_ok:
  assumes "cache_ok v" "a_nodes v i = Some N"
  shows "cache_ok (a_release i (a_grab i v))"
proof (rule release_ok)
  show "ordered LastUsedTimestampMS (a_grab i v) (a_lru (a_grab i v))"
    "ordered LastUpdateTimestampMS (a_grab i v) (a_upd (a_grab i v))"
    using assms(1) by (simp_all add: cache_ok_def ordered_def stamp_def [abs_def] a_grab_def)
qed (use assms in \<open>simp_all add: cache_ok_def grab_reqs_ok grab_nodes_ok\<close>, simp_all add: a_grab_def)

text \<open>The answer of the service: the result is set and the waiting requests are handed over.\<close>

definition a_response :: "u64 \<Rightarrow> xPA_AuthResult \<Rightarrow> auth_view \<Rightarrow> auth_view" where
  "a_response i A v =
     (let w = a_hit i (a_grab i (v\<lparr>a_nodes := (a_nodes v)(i := map_option (\<lambda>N. N\<lparr>Result := A\<rparr>) (a_nodes v i))\<rparr>)) in
      w\<lparr>a_upd := removeAll i (a_upd w)\<rparr>)"

lemma response_ok:
  assumes "cache_ok v" "a_nodes v i = Some N" "Ready A"
  shows "cache_ok (a_response i A v)"
proof -
  let ?w = "a_response i A v" and ?N = "N\<lparr>Result := A, LastUsedTimestampMS := a_now v\<rparr>"
  have v: "reqs_ok v" "nodes_ok v" "ordered LastUsedTimestampMS v (a_lru v)" "set (a_lru v) = dom (a_nodes v)"
    "ordered LastUpdateTimestampMS v (a_upd v)"
    using assms(1) by (simp_all add: cache_ok_def)
  have w: "a_reqs ?w = a_reqs (a_grab i v)" "a_queue ?w = a_queue (a_grab i v)" "a_nodes ?w = (a_nodes v)(i \<mapsto> ?N)"
    "a_lru ?w = removeAll i (a_lru v) @ [i]" "a_upd ?w = removeAll i (a_upd v)"
    "a_map ?w = a_map v" "a_now ?w = a_now v"
    using assms(2) by (simp_all add: a_response_def Let_def a_hit_def a_grab_def)
  have "reqs_ok ?w" using grab_reqs_ok [OF v(1)] by (simp add: reqs_ok_def w)
  moreover have "ordered LastUsedTimestampMS ?w (a_lru ?w)"
    unfolding w(4) by (rule ordered_touch [OF v(3) _ w(3)]) (use node_stamps [OF v(2)] in simp)
  moreover have "set (a_lru ?w) = dom (a_nodes ?w)" by (simp add: v(4) w(3,4) insert_Diff_if insert_absorb)
  moreover have "ordered LastUpdateTimestampMS ?w (a_upd ?w)"
  proof -
    have "\<forall>j \<in> set (removeAll i (a_upd v)). map_option LastUpdateTimestampMS (a_nodes ?w j) =
        map_option LastUpdateTimestampMS (a_nodes v j)"
      by (simp add: w(3))
    from ordered_same [OF ordered_removeAll [OF v(5)] this] show ?thesis by (simp add: w(5))
  qed
  moreover have "nodes_ok ?w"
    unfolding nodes_ok_def
  proof (intro conjI allI impI)
    have Ni: "node_ok v i N" and old: "a_nodes v j = Some M \<Longrightarrow> node_ok v j M" for j M
      using v(2) assms(2) by (simp_all add: nodes_ok_def)
    have q: "a_queue ?w (RequestListOf j) = (if j = i then [] else a_queue v (RequestListOf j))" for j
      by (simp add: w(2) a_grab_def)
    fix j M u
    show "node_ok ?w j M" if m: "a_nodes ?w j = Some M"
    proof (cases "j = i")
      case True
      with m have "M = ?N" by (simp add: w(3))
      with True Ni node_stamps [OF v(2) assms(2)] assms(3) show ?thesis by (simp add: node_ok_def w(6,7) q)
    next
      case False
      with m old have "node_ok v j M" by (simp add: w(3))
      with False show ?thesis by (simp add: node_ok_def w(5-7) q)
    qed
    show "\<exists>M. a_nodes ?w j = Some M \<and> UserPass M = u" if "a_map ?w u = Some j"
    proof -
      from that obtain M where "a_nodes v j = Some M" "UserPass M = u"
        using v(2) unfolding nodes_ok_def w(6) by blast
      then show ?thesis using assms(2) by (cases "j = i") (simp_all add: w(3))
    qed
    show "a_queue ?w (RequestListOf j) = []" if "a_nodes ?w j = None"
      using that v(2) by (cases "j = i") (simp_all add: w(3) q nodes_ok_def)
  qed
  ultimately show ?thesis by (simp add: cache_ok_def)
qed

text \<open>The first request that waits for its result is answered.\<close>

definition a_deliver :: "u64 \<Rightarrow> auth_view \<Rightarrow> auth_view" where
  "a_deliver r v = v\<lparr>a_reqs := (a_reqs v)(r := None),
     a_queue := (a_queue v)(DispatchResultList := tl (a_queue v DispatchResultList))\<rparr>"

lemma deliver_ok:
  assumes "cache_ok v" "a_queue v DispatchResultList = r # rs"
  shows "cache_ok (a_deliver r v)"
proof -
  let ?w = "a_deliver r v"
  have w: "a_reqs ?w = (a_reqs v)(r := None)" "a_queue ?w = (a_queue v)(DispatchResultList := rs)"
    "a_nodes ?w = a_nodes v" "a_lru ?w = a_lru v" "a_upd ?w = a_upd v" "a_map ?w = a_map v" "a_now ?w = a_now v"
    using assms(2) by (simp_all add: a_deliver_def)
  note v = reqs_okD [OF assms(1) [unfolded cache_ok_def, THEN conjunct1]]
  have mem: "x \<in> set (a_queue ?w q) \<longleftrightarrow> x \<in> set (a_queue v q) \<and> x \<noteq> r" for x q
  proof (cases "q = DispatchResultList")
    case True
    then show ?thesis using v(2) [of DispatchResultList] assms(2) by (auto simp: w(2))
  next
    case False
    then have "r \<notin> set (a_queue v q)" using v(3) [of r q DispatchResultList] assms(2) by auto
    then show ?thesis using False by (auto simp: w(2))
  qed
  have "reqs_ok ?w"
  proof (rule reqs_okI)
    show "RequestId R = x" if "a_reqs ?w x = Some R" for x R
      using that v(1) by (simp add: w(1) split: if_splits)
    show "distinct (a_queue ?w q)" for q
      using v(2) [of q] assms(2) by (cases "q = DispatchResultList") (simp_all add: w(2))
    show "q = q'" if "x \<in> set (a_queue ?w q)" "x \<in> set (a_queue ?w q')" for q q' x
      using that v(3) unfolding mem by blast
    have "(\<exists>q. x \<in> set (a_queue ?w q)) \<longleftrightarrow> (\<exists>q. x \<in> set (a_queue v q)) \<and> x \<noteq> r" for x
      unfolding mem by blast
    then show "(\<exists>q. x \<in> set (a_queue ?w q)) \<longleftrightarrow> x \<in> dom (a_reqs ?w)" for x
      using v(4) [of x] by (simp add: w(1) conj_commute)
  qed
  moreover have "nodes_ok ?w"
    using assms(1) by (simp add: cache_ok_def nodes_ok_def node_ok_def w(2-7))
  ultimately show ?thesis
    using assms(1) by (simp add: cache_ok_def ordered_def stamp_def [abs_def] w(3-5))
qed

subsection \<open>The manager implements the abstract cache\<close>

definition cache_view ::
    "('r, 'n, 'l, 'u, 'q) auth_lib \<Rightarrow> ('l \<Rightarrow> unit \<Rightarrow> u64 list) \<Rightarrow> ('u \<Rightarrow> unit \<Rightarrow> u64 list) \<Rightarrow>
     ('q \<Rightarrow> auth_queue \<Rightarrow> u64 list) \<Rightarrow> ('r, 'n, 'l, 'u, 'q) auth_manager \<Rightarrow> auth_view" where
  "cache_view al itL itU itQ s = \<lparr>a_now = am_Ticker s, a_reqs = st_get (al_requests al) (RequestPool s),
     a_nodes = st_get (al_nodes al) (AuthCacheNodePool s), a_map = AuthMap s,
     a_lru = itL (AuthCacheLRUList s) (), a_upd = itU (AuthCacheUpdateList s) (), a_queue = itQ (RequestQueues s)\<rparr>"

lemma write_node_fields [simp]:
  "am_Ticker (write_node al i f s) = am_Ticker s"
  "ReconfirmTimePointMS (write_node al i f s) = ReconfirmTimePointMS s"
  "RequestPool (write_node al i f s) = RequestPool s"
  "AuthMap (write_node al i f s) = AuthMap s"
  "AuthCacheLRUList (write_node al i f s) = AuthCacheLRUList s"
  "AuthCacheUpdateList (write_node al i f s) = AuthCacheUpdateList s"
  "RequestQueues (write_node al i f s) = RequestQueues s"
  "Asserted (write_node al i f s) = Asserted s"
  by (simp_all add: write_node_def split: option.split)

locale auth_cache_env =
  req: indexed_storage "al_requests al" fresh_request + nod: indexed_storage "al_nodes al" fresh_node +
  lru: hooked_lists "al_lru al" itL + upd: hooked_lists "al_update al" itU + que: hooked_lists "al_queue al" itQ
  for al :: "('r, 'n, 'l, 'u, 'q) auth_lib" and itL :: "'l \<Rightarrow> unit \<Rightarrow> u64 list"
    and itU :: "'u \<Rightarrow> unit \<Rightarrow> u64 list" and itQ :: "'q \<Rightarrow> auth_queue \<Rightarrow> u64 list"
begin

abbreviation view :: "('r, 'n, 'l, 'u, 'q) auth_manager \<Rightarrow> auth_view" where
  "view \<equiv> cache_view al itL itU itQ"

lemma view_write_node: "view (write_node al i f s) = (view s)\<lparr>a_nodes := (a_nodes (view s))(i := map_option f (a_nodes (view s) i))\<rparr>"
proof (cases "st_get (al_nodes al) (AuthCacheNodePool s) i")
  case None
  then show ?thesis by (simp add: cache_view_def write_node_def fun_upd_idem)
next
  case (Some N)
  then show ?thesis by (simp add: cache_view_def write_node_def nod.put_get)
qed

lemma view_hit: "view (HitCache al i s) = a_hit i (view s)"
  using view_write_node [of i "\<lambda>N. N\<lparr>LastUsedTimestampMS := am_Ticker s\<rparr>" s]
  by (simp add: HitCache_def a_hit_def cache_view_def lru.grab_tail_items)

lemma view_query: "view (snd (PerformAuthRequest al i UP s)) = a_query i (view s)"
  using view_write_node [of i "\<lambda>N. N\<lparr>LastUpdateTimestampMS := am_Ticker s\<rparr>" s]
  by (simp add: PerformAuthRequest_def a_query_def cache_view_def upd.grab_tail_items)

lemma view_release:
  assumes "a_nodes (view s) i = Some N" "xPA_AuthCacheNode.CacheNodeId N = i" "a_map (view s) (UserPass N) = Some i"
  shows "view (ReleaseCacheNode al i s) = a_release i (view s)" "Asserted (ReleaseCacheNode al i s) = Asserted s"
  using assms by (simp_all add: ReleaseCacheNode_def a_release_def cache_view_def nod.release_get
      lru.remove_items upd.remove_items)

lemma node_before_stamp: "a_nodes (view s) i = Some N \<Longrightarrow> node_before al s f k i \<longleftrightarrow> f N < k"
  by (simp add: node_before_def cache_view_def)

lemma pop_update_Some:
  assumes ok: "cache_ok (view s)" and pop: "pop_update al k s = Some (i, s')"
  obtains N where "a_nodes (view s) i = Some N" "i \<in> set (a_upd (view s))" "LastUpdateTimestampMS N < k"
    "view (timeout_node al i s') = a_release i (a_grab i (view s))" "Asserted (timeout_node al i s') = Asserted s"
proof -
  obtain l where l: "li_pop_head (al_update al) (AuthCacheUpdateList s) () (node_before al s LastUpdateTimestampMS k) = Some (i, l)"
    "s' = s\<lparr>AuthCacheUpdateList := l\<rparr>"
    using pop by (auto simp: pop_update_def)
  note p = upd.pop_head_Some [OF l(1)]
  have u: "a_upd (view s) = i # itU l ()" using p(2) by (simp add: cache_view_def)
  have o: "distinct (a_upd (view s))" "set (a_upd (view s)) \<subseteq> dom (a_nodes (view s))"
    using ok by (simp_all add: cache_ok_def ordered_def)
  obtain N where N: "a_nodes (view s) i = Some N" using o(2) u by auto
  then have n: "node_ok (view s) i N" using ok by (simp add: cache_ok_def nodes_ok_def)
  let ?g = "s'\<lparr>RequestQueues := li_grab_list_tail (al_queue al) (RequestQueues s) DispatchResultList (RequestListOf i)\<rparr>"
  have g: "view ?g = (a_grab i (view s))\<lparr>a_upd := itU l ()\<rparr>"
    by (simp add: cache_view_def a_grab_def que.grab_list_tail_items l(2))
  have nodes: "a_nodes (view ?g) i = Some N" "xPA_AuthCacheNode.CacheNodeId N = i" "a_map (view ?g) (UserPass N) = Some i"
    using N n by (simp_all add: g a_grab_def node_ok_def)
  have rel: "timeout_node al i s' = ReleaseCacheNode al i ?g" by (simp add: timeout_node_def l(2))
  show ?thesis
  proof (rule that [OF N])
    show "i \<in> set (a_upd (view s))" using u by simp
    show "LastUpdateTimestampMS N < k" using p(1) node_before_stamp [OF N] by simp
    have "a_release i ((a_grab i (view s))\<lparr>a_upd := itU l ()\<rparr>) = a_release i (a_grab i (view s))"
      using N u o(1) by (simp add: a_release_def a_grab_def)
    then show "view (timeout_node al i s') = a_release i (a_grab i (view s))"
      unfolding rel view_release(1) [OF nodes] g .
    show "Asserted (timeout_node al i s') = Asserted s"
      unfolding rel view_release(2) [OF nodes] by (simp add: l(2))
  qed
qed

lemma pop_lru_Some:
  assumes ok: "cache_ok (view s)" and pop: "pop_lru al k s = Some (i, s')"
  obtains N where "a_nodes (view s) i = Some N" "i \<in> set (a_lru (view s))" "LastUsedTimestampMS N < k"
    "a_queue (view s) (RequestListOf i) = [] \<longrightarrow>
      view (unused_node al i s') = a_release i (view s) \<and> Asserted (unused_node al i s') = Asserted s"
proof -
  obtain l where l: "li_pop_head (al_lru al) (AuthCacheLRUList s) () (node_before al s LastUsedTimestampMS k) = Some (i, l)"
    "s' = s\<lparr>AuthCacheLRUList := l\<rparr>"
    using pop by (auto simp: pop_lru_def)
  note p = lru.pop_head_Some [OF l(1)]
  have u: "a_lru (view s) = i # itL l ()" using p(2) by (simp add: cache_view_def)
  have o: "distinct (a_lru (view s))" "set (a_lru (view s)) \<subseteq> dom (a_nodes (view s))"
    using ok by (simp_all add: cache_ok_def ordered_def)
  obtain N where N: "a_nodes (view s) i = Some N" using o(2) u by auto
  then have n: "node_ok (view s) i N" using ok by (simp add: cache_ok_def nodes_ok_def)
  let ?g = "s'\<lparr>Asserted := (Asserted s' \<and> li_pop_head (al_queue al) (RequestQueues s') (RequestListOf i) (\<lambda>_. True) = None)\<rparr>"
  have g: "view ?g = (view s)\<lparr>a_lru := itL l ()\<rparr>" by (simp add: cache_view_def l(2))
  have nodes: "a_nodes (view ?g) i = Some N" "xPA_AuthCacheNode.CacheNodeId N = i" "a_map (view ?g) (UserPass N) = Some i"
    using N n by (simp_all add: g node_ok_def)
  have rel: "unused_node al i s' = ReleaseCacheNode al i ?g" by (simp add: unused_node_def)
  show ?thesis
  proof (rule that [OF N])
    show "i \<in> set (a_lru (view s))" using u by simp
    show "LastUsedTimestampMS N < k" using p(1) node_before_stamp [OF N] by simp
    have "a_release i ((view s)\<lparr>a_lru := itL l ()\<rparr>) = a_release i (view s)"
      using N u o(1) by (simp add: a_release_def)
    then have "view (unused_node al i s') = a_release i (view s)"
      unfolding rel view_release(1) [OF nodes] g .
    moreover have "Asserted (unused_node al i s') = Asserted s" if "a_queue (view s) (RequestListOf i) = []"
      unfolding rel view_release(2) [OF nodes] using that by (simp add: l(2) que.pop_head_None cache_view_def)
    ultimately show "a_queue (view s) (RequestListOf i) = [] \<longrightarrow>
      view (unused_node al i s') = a_release i (view s) \<and> Asserted (unused_node al i s') = Asserted s" by blast
  qed
qed

lemma pop_result_Some:
  assumes ok: "cache_ok (view s)" and pop: "pop_result al (out, s) = Some (r, out', s')"
  obtains R where "a_reqs (view s) r = Some R" "r \<in> set (a_queue (view s) DispatchResultList)"
    "deliver_result al r (out', s') =
      (out @ [(RequestSourceId R, map_option Result (a_nodes (view s) (xPA_AuthRequestNode.CacheNodeId R)))],
       snd (deliver_result al r (out', s')))"
    "view (snd (deliver_result al r (out', s'))) = a_deliver r (view s)"
    "Asserted (snd (deliver_result al r (out', s'))) = Asserted s"
    "cache_ok (a_deliver r (view s))"
    "a_queue (view s) DispatchResultList = r # tl (a_queue (view s) DispatchResultList)"
proof -
  obtain l where l: "li_pop_head (al_queue al) (RequestQueues s) DispatchResultList (\<lambda>_. True) = Some (r, l)"
    "s' = s\<lparr>RequestQueues := l\<rparr>" "out' = out"
    using pop by (auto simp: pop_result_def)
  note p = que.pop_head_Some [OF l(1)]
  have u: "a_queue (view s) DispatchResultList = r # itQ l DispatchResultList" using p(2) by (simp add: cache_view_def)
  have q: "itQ l = (itQ (RequestQueues s))(DispatchResultList := itQ l DispatchResultList)"
    using p(3) by (auto simp: fun_eq_iff)
  note v = reqs_okD [OF ok [unfolded cache_ok_def, THEN conjunct1]]
  obtain R where R: "a_reqs (view s) r = Some R" using v(4) [of r] u by (metis domD list.set_intros(1))
  then have g: "st_get (al_requests al) (RequestPool s) r = Some R" by (simp add: cache_view_def)
  show ?thesis
  proof (rule that [OF R])
    show "r \<in> set (a_queue (view s) DispatchResultList)" by (simp add: u)
    show "view (snd (deliver_result al r (out', s'))) = a_deliver r (view s)"
      using u by (subst (asm) q) (simp add: deliver_result_def l(2) g v(1) [OF R] a_deliver_def cache_view_def req.release_get q [symmetric])
    show "Asserted (snd (deliver_result al r (out', s'))) = Asserted s"
      by (simp add: deliver_result_def l(2) g)
    show "cache_ok (a_deliver r (view s))" by (rule deliver_ok [OF ok u])
    show "a_queue (view s) DispatchResultList = r # tl (a_queue (view s) DispatchResultList)" by (simp add: u)
  qed (simp add: deliver_result_def l(2,3) g, simp add: cache_view_def)
qed

end

subsection \<open>The loops of the tick\<close>

text \<open>\<open>w\<close> is \<open>v\<close> without the nodes of a subset of \<open>A\<close>, their requests handed over.\<close>

definition shrunk :: "u64 set \<Rightarrow> auth_view \<Rightarrow> auth_view \<Rightarrow> bool" where
  "shrunk A v w \<longleftrightarrow> cache_ok w \<and> a_reqs w = a_reqs v \<and> a_now w = a_now v \<and>
     (\<exists>D \<subseteq> A. a_nodes w = a_nodes v |` (- D) \<and> set (a_upd w) = set (a_upd v) - D) \<and>
     (\<forall>i. a_nodes w i \<noteq> None \<longrightarrow> a_queue w (RequestListOf i) = a_queue v (RequestListOf i))"

lemma shrunk_refl: "cache_ok v \<Longrightarrow> shrunk A v v"
  unfolding shrunk_def by (intro conjI exI [of _ "{}"]) (simp_all add: restrict_map_def)

lemma shrunk_step:
  assumes "shrunk A v w" "i \<in> A" "cache_ok w'" "a_reqs w' = a_reqs w" "a_now w' = a_now w"
    and "a_nodes w' = (a_nodes w)(i := None)" "set (a_upd w') = set (a_upd w) - {i}"
    and "\<And>j. j \<noteq> i \<Longrightarrow> a_queue w' (RequestListOf j) = a_queue w (RequestListOf j)"
  shows "shrunk A v w'"
proof -
  obtain D where D: "D \<subseteq> A" "a_nodes w = a_nodes v |` (- D)" "set (a_upd w) = set (a_upd v) - D"
    using assms(1) unfolding shrunk_def by blast
  have "a_nodes w' = a_nodes v |` (- insert i D)" unfolding assms(6) D(2)
    by (simp add: fun_eq_iff restrict_map_def)
  moreover have "set (a_upd w') = set (a_upd v) - insert i D" unfolding assms(7) D(3) by blast
  moreover have "insert i D \<subseteq> A" using D(1) assms(2) by simp
  ultimately have "\<exists>D \<subseteq> A. a_nodes w' = a_nodes v |` (- D) \<and> set (a_upd w') = set (a_upd v) - D" by blast
  moreover have "a_queue w' (RequestListOf j) = a_queue v (RequestListOf j)" if "a_nodes w' j \<noteq> None" for j
  proof -
    from that have "j \<noteq> i" "a_nodes w j \<noteq> None" by (auto simp: assms(6) split: if_splits)
    with assms(1,8) show ?thesis by (simp add: shrunk_def)
  qed
  ultimately show ?thesis using assms(1,3-5) by (simp add: shrunk_def)
qed

lemma a_release_fields:
  "a_nodes v i = Some N \<Longrightarrow> a_nodes (a_release i v) = (a_nodes v)(i := None)"
  "a_nodes v i = Some N \<Longrightarrow> a_upd (a_release i v) = removeAll i (a_upd v)"
  "a_nodes v i = Some N \<Longrightarrow> a_lru (a_release i v) = removeAll i (a_lru v)"
  "a_reqs (a_release i v) = a_reqs v" "a_now (a_release i v) = a_now v" "a_queue (a_release i v) = a_queue v"
  by (simp_all add: a_release_def split: option.split)

lemma a_grab_fields:
  "a_nodes (a_grab i v) = a_nodes v" "a_upd (a_grab i v) = a_upd v" "a_lru (a_grab i v) = a_lru v"
  "a_reqs (a_grab i v) = a_reqs v" "a_now (a_grab i v) = a_now v"
  "j \<noteq> i \<Longrightarrow> a_queue (a_grab i v) (RequestListOf j) = a_queue v (RequestListOf j)"
  by (simp_all add: a_grab_def)

lemma shrunk_timeout:
  assumes "shrunk A v w" "i \<in> A" "a_nodes w i = Some N"
  shows "shrunk A v (a_release i (a_grab i w))"
  using assms by (intro shrunk_step [OF assms(1,2)] timeout_ok)
    (auto simp: shrunk_def a_release_fields a_grab_fields)

lemma shrunk_release:
  assumes "shrunk A v w" "i \<in> A" "a_nodes w i = Some N" "a_queue w (RequestListOf i) = []"
  shows "shrunk A v (a_release i w)"
proof (rule shrunk_step [OF assms(1,2)])
  show "cache_ok (a_release i w)"
    using assms by (intro release_ok) (simp_all add: shrunk_def cache_ok_def)
qed (use assms(3) in \<open>simp_all add: a_release_fields set_removeAll\<close>)

lemma shrunk_nodes:
  assumes "shrunk A v w" "a_nodes w i = Some N"
  shows "a_nodes v i = Some N" "i \<in> set (a_upd w) \<longleftrightarrow> i \<in> set (a_upd v)"
  using assms unfolding shrunk_def by (auto simp: restrict_map_def split: if_splits)

lemma shrunk_keeps: "shrunk A v w \<Longrightarrow> i \<notin> A \<Longrightarrow> a_nodes w i = a_nodes v i"
  unfolding shrunk_def by (auto simp: restrict_map_def)

definition outdated :: "(xPA_AuthCacheNode \<Rightarrow> u64) \<Rightarrow> u64 \<Rightarrow> auth_view \<Rightarrow> u64 list \<Rightarrow> u64 set" where
  "outdated f k v l = {i \<in> set l. \<exists>N. a_nodes v i = Some N \<and> f N < k}"

lemma ordered_hd:
  assumes "ordered f v (j # l)" "a_nodes v j = Some M" "\<not> f M < k" "i \<in> set (j # l)" "a_nodes v i = Some N"
  shows "k \<le> f N"
proof -
  have "stamp f v j \<le> stamp f v i" using assms(1,4) by (auto simp: ordered_def)
  then show ?thesis using assms(2,3,5) by (auto simp: stamp_def)
qed

context auth_cache_env begin

lemma drain_update:
  assumes ok: "cache_ok (view s)"
  obtains t where "pop_loop (pop_update al k) (timeout_node al) s = Some t" "Asserted t = Asserted s"
    "shrunk (outdated LastUpdateTimestampMS k (view s) (a_upd (view s))) (view s) (view t)"
    "\<And>i N. i \<in> set (a_upd (view t)) \<Longrightarrow> a_nodes (view t) i = Some N \<Longrightarrow> k \<le> LastUpdateTimestampMS N"
proof -
  let ?A = "outdated LastUpdateTimestampMS k (view s) (a_upd (view s))"
  let ?I = "\<lambda>t. shrunk ?A (view s) (view t) \<and> Asserted t = Asserted s"
  let ?m = "\<lambda>t. length (a_upd (view t))"
  have step: "?I (timeout_node al i t') \<and> ?m (timeout_node al i t') < ?m t"
    if I: "?I t" and pop: "pop_update al k t = Some (i, t')" for t t' i
  proof -
    have okt: "cache_ok (view t)" using I by (simp add: shrunk_def)
    obtain N where N: "a_nodes (view t) i = Some N" "i \<in> set (a_upd (view t))" "LastUpdateTimestampMS N < k"
      "view (timeout_node al i t') = a_release i (a_grab i (view t))" "Asserted (timeout_node al i t') = Asserted t"
      using pop_update_Some [OF okt pop] .
    have "i \<in> ?A" using shrunk_nodes [OF conjunct1 [OF I] N(1)] N(2,3) by (simp add: outdated_def)
    then have "shrunk ?A (view s) (view (timeout_node al i t'))"
      unfolding N(4) using I N(1) by (intro shrunk_timeout) simp_all
    moreover have "length (removeAll i (a_upd (view t))) < length (a_upd (view t))"
      using N(2) by (rule length_removeAll_less)
    ultimately show ?thesis using I N(1,4,5) by (simp add: a_release_fields a_grab_fields)
  qed
  have "\<exists>t. pop_loop (pop_update al k) (timeout_node al) s = Some t \<and> ?I t \<and> pop_update al k t = None"
    by (rule pop_loop_total [where I = ?I and m = ?m]) (use step shrunk_refl [OF ok] in blast)+
  then obtain t where t: "pop_loop (pop_update al k) (timeout_node al) s = Some t" "?I t" "pop_update al k t = None"
    by blast
  have okt: "ordered LastUpdateTimestampMS (view t) (a_upd (view t))" using t(2) by (simp add: shrunk_def cache_ok_def)
  have "k \<le> LastUpdateTimestampMS N" if "i \<in> set (a_upd (view t))" "a_nodes (view t) i = Some N" for i N
  proof (cases "a_upd (view t)")
    case (Cons j l)
    then obtain M where M: "a_nodes (view t) j = Some M" using okt by (auto simp: ordered_def)
    have "\<not> node_before al t LastUpdateTimestampMS k j"
      using t(3) Cons by (simp add: pop_update_def upd.pop_head_None cache_view_def)
    then have "\<not> LastUpdateTimestampMS M < k" using node_before_stamp [OF M] by simp
    then show ?thesis using ordered_hd [of _ "view t" j l M k i N] okt M that Cons by simp
  qed (use that in simp)
  with that t show ?thesis by blast
qed

lemma drain_lru:
  assumes ok: "cache_ok (view s)"
    and upd: "\<And>i N. i \<in> set (a_upd (view s)) \<Longrightarrow> a_nodes (view s) i = Some N \<Longrightarrow> k \<le> LastUpdateTimestampMS N"
  obtains t where "pop_loop (pop_lru al k) (unused_node al) s = Some t" "Asserted t = Asserted s"
    "shrunk (outdated LastUsedTimestampMS k (view s) (a_lru (view s))) (view s) (view t)"
    "\<And>i N. a_nodes (view t) i = Some N \<Longrightarrow> k \<le> LastUsedTimestampMS N"
proof -
  let ?A = "outdated LastUsedTimestampMS k (view s) (a_lru (view s))"
  let ?I = "\<lambda>t. shrunk ?A (view s) (view t) \<and> Asserted t = Asserted s"
  let ?m = "\<lambda>t. length (a_lru (view t))"
  have step: "?I (unused_node al i t') \<and> ?m (unused_node al i t') < ?m t"
    if I: "?I t" and pop: "pop_lru al k t = Some (i, t')" for t t' i
  proof -
    have okt: "cache_ok (view t)" using I by (simp add: shrunk_def)
    obtain N where N: "a_nodes (view t) i = Some N" "i \<in> set (a_lru (view t))" "LastUsedTimestampMS N < k"
      and r: "a_queue (view t) (RequestListOf i) = [] \<longrightarrow>
        view (unused_node al i t') = a_release i (view t) \<and> Asserted (unused_node al i t') = Asserted t"
      using pop_lru_Some [OF okt pop] .
    note old = shrunk_nodes [OF conjunct1 [OF I] N(1)]
    have n: "node_ok (view t) i N" using okt N(1) by (simp add: cache_ok_def nodes_ok_def)
    have "Ready (Result N)"
    proof (rule ccontr)
      assume "\<not> Ready (Result N)"
      then have "i \<in> set (a_upd (view s))" using n old(2) by (simp add: node_ok_def)
      then have "k \<le> LastUpdateTimestampMS N" by (rule upd [OF _ old(1)])
      also have "\<dots> \<le> LastUsedTimestampMS N" using n by (simp add: node_ok_def)
      finally show False using N(3) by simp
    qed
    then have q: "a_queue (view t) (RequestListOf i) = []" using n by (simp add: node_ok_def)
    have "i \<in> set (a_lru (view s))" using old(1) ok by (auto simp: cache_ok_def)
    then have "i \<in> ?A" using old(1) N(3) by (simp add: outdated_def)
    then have "shrunk ?A (view s) (view (unused_node al i t'))"
      unfolding r [rule_format, OF q, THEN conjunct1] using I N(1) q by (intro shrunk_release) simp_all
    moreover have "length (removeAll i (a_lru (view t))) < length (a_lru (view t))"
      using N(2) by (rule length_removeAll_less)
    ultimately show ?thesis using I N(1) r [rule_format, OF q] by (simp add: a_release_fields)
  qed
  have "\<exists>t. pop_loop (pop_lru al k) (unused_node al) s = Some t \<and> ?I t \<and> pop_lru al k t = None"
    by (rule pop_loop_total [where I = ?I and m = ?m]) (use step shrunk_refl [OF ok] in blast)+
  then obtain t where t: "pop_loop (pop_lru al k) (unused_node al) s = Some t" "?I t" "pop_lru al k t = None"
    by blast
  have okt: "ordered LastUsedTimestampMS (view t) (a_lru (view t))" "set (a_lru (view t)) = dom (a_nodes (view t))"
    using t(2) by (simp_all add: shrunk_def cache_ok_def)
  have "k \<le> LastUsedTimestampMS N" if "a_nodes (view t) i = Some N" for i N
  proof (cases "a_lru (view t)")
    case Nil
    with okt(2) that show ?thesis by auto
  next
    case (Cons j l)
    then obtain M where M: "a_nodes (view t) j = Some M" using okt(1) by (auto simp: ordered_def)
    have "\<not> node_before al t LastUsedTimestampMS k j"
      using t(3) Cons by (simp add: pop_lru_def lru.pop_head_None cache_view_def)
    then have "\<not> LastUsedTimestampMS M < k" using node_before_stamp [OF M] by simp
    moreover have "i \<in> set (j # l)" using that okt(2) Cons by (metis domI)
    ultimately show ?thesis using ordered_hd [of _ "view t" j l M k i N] okt(1) M that Cons by simp
  qed
  with that t show ?thesis by blast
qed

end

subsection \<open>Whose result a request gets\<close>

text \<open>
  A request on the list of a node carries the id of the node; a request that is to be answered with
  the result of a node is answered with one that the service has sent. \<open>anchored\<close> is what holds
  between two ticks: the node of a request to be answered is still there.
\<close>

definition served :: "auth_view \<Rightarrow> bool" where
  "served v \<longleftrightarrow>
     (\<forall>r R i. a_reqs v r = Some R \<longrightarrow> r \<in> set (a_queue v (RequestListOf i)) \<longrightarrow>
        xPA_AuthRequestNode.CacheNodeId R = i) \<and>
     (\<forall>r R N. a_reqs v r = Some R \<longrightarrow> r \<in> set (a_queue v DispatchResultList) \<longrightarrow>
        a_nodes v (xPA_AuthRequestNode.CacheNodeId R) = Some N \<longrightarrow> Ready (Result N))"

definition anchored :: "auth_view \<Rightarrow> bool" where
  "anchored v \<longleftrightarrow> (\<forall>r R. a_reqs v r = Some R \<longrightarrow> r \<in> set (a_queue v DispatchResultList) \<longrightarrow>
     xPA_AuthRequestNode.CacheNodeId R = 0 \<or> a_nodes v (xPA_AuthRequestNode.CacheNodeId R) \<noteq> None)"

lemma servedD:
  assumes "served v" "a_reqs v r = Some R"
  shows "r \<in> set (a_queue v (RequestListOf i)) \<Longrightarrow> xPA_AuthRequestNode.CacheNodeId R = i"
    "r \<in> set (a_queue v DispatchResultList) \<Longrightarrow> a_nodes v (xPA_AuthRequestNode.CacheNodeId R) = Some N \<Longrightarrow>
      Ready (Result N)"
  using assms unfolding served_def by blast+

lemma served_timeout:
  assumes "served v" "a_nodes v i = Some N"
  shows "served (a_release i (a_grab i v))"
proof -
  let ?w = "a_release i (a_grab i v)"
  have q: "set (a_queue ?w (RequestListOf j)) \<subseteq> set (a_queue v (RequestListOf j))"
    "set (a_queue ?w DispatchResultList) = set (a_queue v DispatchResultList) \<union> set (a_queue v (RequestListOf i))" for j
    by (simp_all add: a_release_fields a_grab_def)
  have w: "a_reqs ?w = a_reqs v" "a_nodes ?w = (a_nodes v)(i := None)"
    using assms(2) by (simp_all add: a_release_fields a_grab_fields)
  show ?thesis
    unfolding served_def
  proof (intro conjI allI impI)
    fix r R j M
    assume R: "a_reqs ?w r = Some R"
    show "xPA_AuthRequestNode.CacheNodeId R = j" if "r \<in> set (a_queue ?w (RequestListOf j))"
      using servedD(1) [OF assms(1), of r R j] R w(1) q(1) [of j] that by auto
    assume r: "r \<in> set (a_queue ?w DispatchResultList)" and M: "a_nodes ?w (xPA_AuthRequestNode.CacheNodeId R) = Some M"
    then have "xPA_AuthRequestNode.CacheNodeId R \<noteq> i" "a_nodes v (xPA_AuthRequestNode.CacheNodeId R) = Some M"
      by (auto simp: w(2) split: if_splits)
    then show "Ready (Result M)" using servedD [OF assms(1), of r R] R w(1) r q(2) by auto
  qed
qed

lemma served_release:
  assumes "served v" "a_nodes v i = Some N"
  shows "served (a_release i v)"
  unfolding served_def
proof (intro conjI allI impI)
  fix r R j M
  assume "a_reqs (a_release i v) r = Some R"
  then have R: "a_reqs v r = Some R" by (simp add: a_release_fields)
  show "xPA_AuthRequestNode.CacheNodeId R = j" if "r \<in> set (a_queue (a_release i v) (RequestListOf j))"
    using servedD(1) [OF assms(1) R] that by (simp add: a_release_fields)
  assume r: "r \<in> set (a_queue (a_release i v) DispatchResultList)"
    and M: "a_nodes (a_release i v) (xPA_AuthRequestNode.CacheNodeId R) = Some M"
  then have "a_nodes v (xPA_AuthRequestNode.CacheNodeId R) = Some M"
    using assms(2) by (simp add: a_release_fields split: if_splits)
  then show "Ready (Result M)" using servedD(2) [OF assms(1) R] r by (simp add: a_release_fields)
qed

lemma served_deliver: "served v \<Longrightarrow> served (a_deliver r v)"
  unfolding served_def
proof (intro conjI allI impI; elim conjE)
  fix x R j M
  assume v: "\<forall>r R i. a_reqs v r = Some R \<longrightarrow> r \<in> set (a_queue v (RequestListOf i)) \<longrightarrow> xPA_AuthRequestNode.CacheNodeId R = i"
    "\<forall>r R N. a_reqs v r = Some R \<longrightarrow> r \<in> set (a_queue v DispatchResultList) \<longrightarrow>
        a_nodes v (xPA_AuthRequestNode.CacheNodeId R) = Some N \<longrightarrow> Ready (Result N)"
  assume "a_reqs (a_deliver r v) x = Some R"
  then have R: "a_reqs v x = Some R" by (simp add: a_deliver_def split: if_splits)
  show "xPA_AuthRequestNode.CacheNodeId R = j" if "x \<in> set (a_queue (a_deliver r v) (RequestListOf j))"
    using v(1) [rule_format, OF R] that by (simp add: a_deliver_def)
  assume "x \<in> set (a_queue (a_deliver r v) DispatchResultList)"
    and M: "a_nodes (a_deliver r v) (xPA_AuthRequestNode.CacheNodeId R) = Some M"
  then have "x \<in> set (a_queue v DispatchResultList)" by (simp add: a_deliver_def list.set_sel(2) split: list.splits)
      (metis list.set_sel(2) list.sel(2))
  then show "Ready (Result M)" using v(2) [rule_format, OF R] M by (simp add: a_deliver_def)
qed

lemma served_response:
  assumes "served v" "a_nodes v i = Some N" "Ready A"
  shows "served (a_response i A v)"
proof -
  let ?w = "a_response i A v" and ?N = "N\<lparr>Result := A, LastUsedTimestampMS := a_now v\<rparr>"
  have q: "set (a_queue ?w (RequestListOf j)) \<subseteq> set (a_queue v (RequestListOf j))"
    "set (a_queue ?w DispatchResultList) = set (a_queue v DispatchResultList) \<union> set (a_queue v (RequestListOf i))" for j
    using assms(2) by (simp_all add: a_response_def Let_def a_hit_def a_grab_def)
  have w: "a_reqs ?w = a_reqs v" "a_nodes ?w = (a_nodes v)(i \<mapsto> ?N)"
    using assms(2) by (simp_all add: a_response_def Let_def a_hit_def a_grab_def)
  show ?thesis
    unfolding served_def
  proof (intro conjI allI impI)
    fix r R j M
    assume R: "a_reqs ?w r = Some R"
    show "xPA_AuthRequestNode.CacheNodeId R = j" if "r \<in> set (a_queue ?w (RequestListOf j))"
      using servedD(1) [OF assms(1), of r R j] R w(1) q(1) [of j] that by auto
    assume r: "r \<in> set (a_queue ?w DispatchResultList)" and M: "a_nodes ?w (xPA_AuthRequestNode.CacheNodeId R) = Some M"
    show "Ready (Result M)"
    proof (cases "xPA_AuthRequestNode.CacheNodeId R = i")
      case True
      then have "M = ?N" using M by (simp add: w(2))
      then show ?thesis using assms(3) by simp
    next
      case False
      then show ?thesis using servedD [OF assms(1), of r R] R w r q(2) M by auto
    qed
  qed
qed

lemma anchored_response:
  assumes "anchored v" "served v" "a_nodes v i = Some N"
  shows "anchored (a_response i A v)"
proof -
  let ?w = "a_response i A v"
  have w: "set (a_queue ?w DispatchResultList) = set (a_queue v DispatchResultList) \<union> set (a_queue v (RequestListOf i))"
    "a_reqs ?w = a_reqs v" "a_nodes ?w = (a_nodes v)(i \<mapsto> N\<lparr>Result := A, LastUsedTimestampMS := a_now v\<rparr>)"
    using assms(3) by (simp_all add: a_response_def Let_def a_hit_def a_grab_def)
  show ?thesis
    unfolding anchored_def w
  proof (intro allI impI)
    fix r R
    assume R: "a_reqs v r = Some R" and r: "r \<in> set (a_queue v DispatchResultList) \<union> set (a_queue v (RequestListOf i))"
    have "xPA_AuthRequestNode.CacheNodeId R = 0 \<or> a_nodes v (xPA_AuthRequestNode.CacheNodeId R) \<noteq> None \<or>
        xPA_AuthRequestNode.CacheNodeId R = i"
      using r R assms(1) servedD(1) [OF assms(2) R] unfolding anchored_def by blast
    then show "xPA_AuthRequestNode.CacheNodeId R = 0 \<or>
        ((a_nodes v)(i \<mapsto> N\<lparr>Result := A, LastUsedTimestampMS := a_now v\<rparr>)) (xPA_AuthRequestNode.CacheNodeId R) \<noteq> None"
      by auto
  qed
qed

text \<open>A new request on the list \<open>q\<close>, when \<open>w\<close> keeps the results of the nodes of \<open>v\<close>.\<close>

lemma enqueue_served:
  assumes "served v" "anchored v" "a_reqs v r = None" "reqs_ok v"
    and w: "a_reqs w = (a_reqs v)(r \<mapsto> R)" "a_queue w = (a_queue v)(q := a_queue v q @ [r])"
    and nodes: "\<And>j M. a_nodes v j = Some M \<Longrightarrow> \<exists>M'. a_nodes w j = Some M' \<and> Result M' = Result M" "a_nodes w 0 = None"
    and R: "case q of RequestListOf i \<Rightarrow> xPA_AuthRequestNode.CacheNodeId R = i
      | DispatchResultList \<Rightarrow> xPA_AuthRequestNode.CacheNodeId R = 0 \<or>
         (\<exists>M. a_nodes w (xPA_AuthRequestNode.CacheNodeId R) = Some M \<and> Ready (Result M))"
  shows "served w \<and> anchored w"
proof -
  have mem: "x \<in> set (a_queue w p) \<longleftrightarrow> x \<in> set (a_queue v p) \<or> p = q \<and> x = r" for x p
    by (auto simp: w(2))
  have new: "r \<notin> set (a_queue v p)" for p using reqs_okD(4) [OF assms(4), of r] assms(3) by (metis domIff)
  have "xPA_AuthRequestNode.CacheNodeId S = j" if "a_reqs w x = Some S" "x \<in> set (a_queue w (RequestListOf j))" for x S j
  proof (cases "x = r")
    case True
    then have "q = RequestListOf j" using that(2) new by (auto simp: mem)
    with True that(1) R show ?thesis by (simp add: w(1))
  next
    case False
    with that servedD(1) [OF assms(1), of x S j] show ?thesis by (simp add: w(1) mem)
  qed
  moreover have "(xPA_AuthRequestNode.CacheNodeId S = 0 \<or> a_nodes w (xPA_AuthRequestNode.CacheNodeId S) \<noteq> None) \<and>
      (\<forall>M. a_nodes w (xPA_AuthRequestNode.CacheNodeId S) = Some M \<longrightarrow> Ready (Result M))"
    if "a_reqs w x = Some S" "x \<in> set (a_queue w DispatchResultList)" for x S
  proof (cases "x = r")
    case True
    then have "q = DispatchResultList" using that(2) new by (auto simp: mem)
    with True that(1) R nodes(2) show ?thesis by (auto simp: w(1))
  next
    case False
    then have v: "a_reqs v x = Some S" "x \<in> set (a_queue v DispatchResultList)" using that by (simp_all add: w(1) mem)
    show ?thesis
    proof (cases "xPA_AuthRequestNode.CacheNodeId S = 0")
      case True
      with nodes(2) show ?thesis by simp
    next
      case False
      with v assms(2) obtain M where M: "a_nodes v (xPA_AuthRequestNode.CacheNodeId S) = Some M"
        unfolding anchored_def by blast
      with servedD(2) [OF assms(1) v(1,2)] nodes(1) [OF M] show ?thesis by auto
    qed
  qed
  ultimately show ?thesis unfolding served_def anchored_def by blast
qed

definition sound :: "auth_view \<Rightarrow> bool" where
  "sound v \<longleftrightarrow> cache_ok v \<and> served v \<and> anchored v \<and> a_nodes v 0 = None"

context auth_cache_env begin

lemma view_join:
  assumes N: "a_nodes (view s) i = Some N" "xPA_AuthCacheNode.CacheNodeId N = i"
    and R: "a_reqs (view s) r = Some R" "\<And>q. r \<notin> set (a_queue (view s) q)"
    and j: "join_node al r i UP s = (out, t)"
    and c: "c \<longleftrightarrow> LastUpdateTimestampMS N \<le> ReconfirmTimePointMS s"
    and q: "q = (if Ready (Result N) then DispatchResultList else RequestListOf i)"
  shows "out = (if c then [(Cmd_AuthService_QueryAuthCache, i, xQueryAuthCache.make UP)] else [])"
    "Asserted t = Asserted s"
    "view t = \<lparr>a_now = am_Ticker s, a_reqs = (a_reqs (view s))(r \<mapsto> R\<lparr>xPA_AuthRequestNode.CacheNodeId := i\<rparr>),
       a_nodes = (a_nodes (view s))(i \<mapsto> N\<lparr>LastUpdateTimestampMS :=
         (if c then am_Ticker s else LastUpdateTimestampMS N), LastUsedTimestampMS := am_Ticker s\<rparr>),
       a_map = a_map (view s), a_lru = removeAll i (a_lru (view s)) @ [i],
       a_upd = (if c then removeAll i (a_upd (view s)) @ [i] else a_upd (view s)),
       a_queue = (a_queue (view s))(q := a_queue (view s) q @ [r])\<rparr>"
proof -
  let ?R = "R\<lparr>xPA_AuthRequestNode.CacheNodeId := i\<rparr>"
  define s1 where "s1 = s\<lparr>RequestPool := st_put (al_requests al) (RequestPool s) r ?R,
    RequestQueues := li_add_tail (al_queue al) (RequestQueues s) q r\<rparr>"
  have g: "st_get (al_nodes al) (AuthCacheNodePool s) i = Some N" "st_get (al_requests al) (RequestPool s) r = Some R"
    "\<And>m. r \<notin> set (itQ (RequestQueues s) m)"
    using N(1) R by (simp_all add: cache_view_def)
  have v1: "view s1 = (view s)\<lparr>a_reqs := (a_reqs (view s))(r \<mapsto> ?R),
      a_queue := (a_queue (view s))(q := a_queue (view s) q @ [r])\<rparr>"
    using g by (simp add: s1_def cache_view_def req.put_get que.add_tail_items)
  have s1: "am_Ticker s1 = am_Ticker s" "Asserted s1 = Asserted s" by (simp_all add: s1_def)
  have jn: "join_node al r i UP s = (let (out, s2) = (if c then PerformAuthRequest al i UP s1 else ([], s1)) in
      (out, HitCache al i s2))"
    using g N(2) by (simp add: join_node_def c q s1_def Let_def)
  have as: "Asserted (HitCache al i u) = Asserted u" "Asserted (snd (PerformAuthRequest al i UP u)) = Asserted u" for u
    by (simp_all add: HitCache_def PerformAuthRequest_def)
  show "out = (if c then [(Cmd_AuthService_QueryAuthCache, i, xQueryAuthCache.make UP)] else [])"
    using j unfolding jn by (auto simp: PerformAuthRequest_def split: if_splits)
  show "Asserted t = Asserted s"
    using j as(1) [of "snd (PerformAuthRequest al i UP s1)"] as(1) [of s1] as(2) [of s1] s1(2)
    unfolding jn by (cases c) (auto simp: split_beta Let_def)
  have "t = HitCache al i (if c then snd (PerformAuthRequest al i UP s1) else s1)"
    using j unfolding jn by (cases c) (auto simp: split_beta Let_def)
  then have "view t = a_hit i (if c then a_query i (view s1) else view s1)"
    by (simp add: view_hit view_query)
  also have "\<dots> = \<lparr>a_now = am_Ticker s, a_reqs = (a_reqs (view s))(r \<mapsto> R\<lparr>xPA_AuthRequestNode.CacheNodeId := i\<rparr>),
       a_nodes = (a_nodes (view s))(i \<mapsto> N\<lparr>LastUpdateTimestampMS :=
         (if c then am_Ticker s else LastUpdateTimestampMS N), LastUsedTimestampMS := am_Ticker s\<rparr>),
       a_map = a_map (view s), a_lru = removeAll i (a_lru (view s)) @ [i],
       a_upd = (if c then removeAll i (a_upd (view s)) @ [i] else a_upd (view s)),
       a_queue = (a_queue (view s))(q := a_queue (view s) q @ [r])\<rparr>"
    using N(1) by (cases c) (simp_all add: v1 a_hit_def a_query_def, simp_all add: cache_view_def)
  finally show "view t = \<dots>" .
qed

end

text \<open>What \<^verbatim>\<open>RequestAuth\<close> does with an accepted request \<open>r\<close>.\<close>

definition accepted ::
    "u64 \<Rightarrow> bytes \<Rightarrow> u64 \<Rightarrow> auth_query list \<Rightarrow> auth_view \<Rightarrow> auth_view \<Rightarrow> bool" where
  "accepted Src UP Reconfirm out v w \<longleftrightarrow>
     (\<exists>r R q. a_reqs v r = None \<and> a_reqs w = (a_reqs v)(r \<mapsto> R) \<and> RequestSourceId R = Src \<and>
        a_queue w = (a_queue v)(q := a_queue v q @ [r]) \<and>
        (case a_map w UP of
           None \<Rightarrow> q = DispatchResultList \<and> xPA_AuthRequestNode.CacheNodeId R = 0 \<and> out = []
         | Some i \<Rightarrow> \<exists>N. a_nodes w i = Some N \<and> UserPass N = UP \<and> xPA_AuthRequestNode.CacheNodeId R = i \<and>
             q = (if Ready (Result N) then DispatchResultList else RequestListOf i) \<and>
             out = (if \<forall>M. a_nodes v i = Some M \<longrightarrow> LastUpdateTimestampMS M \<le> Reconfirm
               then [(Cmd_AuthService_QueryAuthCache, i, xQueryAuthCache.make UP)] else [])))"

context auth_cache_env begin

lemma join_existing:
  assumes ok: "sound (view s)" and s1: "view s1 = (view s)\<lparr>a_reqs := (a_reqs (view s))(r \<mapsto> R0)\<rparr>"
    and R0: "RequestId R0 = r" "RequestSourceId R0 = Src"
    and new: "a_reqs (view s) r = None" and m: "a_map (view s) UP = Some i"
    and j: "join_node al r i UP s1 = (out, t)"
  shows "sound (view t) \<and> Asserted t = Asserted s1 \<and> accepted Src UP (ReconfirmTimePointMS s1) out (view s) (view t)"
proof -
  have v: "cache_ok (view s)" "served (view s)" "anchored (view s)" "a_nodes (view s) 0 = None"
    "reqs_ok (view s)" "nodes_ok (view s)"
    using ok by (simp_all add: sound_def cache_ok_def)
  obtain N where N: "a_nodes (view s) i = Some N" "UserPass N = UP" using v(6) m unfolding nodes_ok_def by blast
  then have n: "node_ok (view s) i N" using v(6) by (simp add: nodes_ok_def)
  have now: "am_Ticker s1 = a_now (view s)" using arg_cong [OF s1, of a_now] by (simp add: cache_view_def)
  have fresh: "r \<notin> set (a_queue (view s1) q)" for q
    using reqs_okD(4) [OF v(5), of r] new by (simp add: s1) (metis domIff)
  define c where "c \<longleftrightarrow> LastUpdateTimestampMS N \<le> ReconfirmTimePointMS s1"
  define q where "q = (if Ready (Result N) then DispatchResultList else RequestListOf i)"
  let ?N = "N\<lparr>LastUpdateTimestampMS := (if c then a_now (view s) else LastUpdateTimestampMS N),
    LastUsedTimestampMS := a_now (view s)\<rparr>"
  have "a_nodes (view s1) i = Some N" "xPA_AuthCacheNode.CacheNodeId N = i" "a_reqs (view s1) r = Some R0"
    using N n by (simp_all add: s1 node_ok_def)
  note w = view_join [OF this fresh j c_def q_def, unfolded now]
  have t: "a_reqs (view t) = (a_reqs (view s))(r \<mapsto> R0\<lparr>xPA_AuthRequestNode.CacheNodeId := i\<rparr>)"
    "a_now (view t) = a_now (view s)" "a_nodes (view t) = (a_nodes (view s))(i \<mapsto> ?N)"
    "a_map (view t) = (a_map (view s))(UserPass ?N \<mapsto> i)" "a_lru (view t) = removeAll i (a_lru (view s)) @ [i]"
    "a_queue (view t) = (a_queue (view s))(q := a_queue (view s) q @ [r])"
    "a_upd (view t) = (if c then removeAll i (a_upd (view s)) @ [i] else a_upd (view s))"
    using m N(2) by (simp_all add: w s1 fun_upd_idem)
  have stamps: "LastUpdateTimestampMS N \<le> a_now (view s)" by (rule node_stamps [OF v(6) N(1)])
  have "cache_ok (view t)"
  proof (rule join_ok [OF v(1) new _ t(1-6)])
    show "a_upd (view t) = removeAll i (a_upd (view s)) @ [i] \<and> LastUpdateTimestampMS ?N = a_now (view s) \<or>
      a_upd (view t) = a_upd (view s) \<and> (\<exists>M. a_nodes (view s) i = Some M \<and> LastUpdateTimestampMS M = LastUpdateTimestampMS ?N)"
      using N(1) by (cases c) (simp_all add: t(7))
  qed (use R0 N(1) n stamps in \<open>simp_all add: q_def node_ok_def t(7)\<close>)
  moreover have "served (view t) \<and> anchored (view t)"
  proof (rule enqueue_served [OF v(2,3) new v(5) t(1,6)])
    show "\<exists>M'. a_nodes (view t) j = Some M' \<and> Result M' = Result M" if "a_nodes (view s) j = Some M" for j M
      using that N(1) by (cases "j = i") (simp_all add: t(3))
    show "a_nodes (view t) 0 = None" using N(1) v(4) by (cases "i = 0") (simp_all add: t(3))
  qed (simp add: q_def t(3))
  moreover have "a_nodes (view t) 0 = None" using N(1) v(4) by (cases "i = 0") (simp_all add: t(3))
  moreover have "accepted Src UP (ReconfirmTimePointMS s1) out (view s) (view t)"
    unfolding accepted_def
    by (rule exI [of _ r], rule exI [of _ "R0\<lparr>xPA_AuthRequestNode.CacheNodeId := i\<rparr>"], rule exI [of _ q])
      (use new m N R0 in \<open>simp add: t w(1) q_def c_def\<close>)
  ultimately show ?thesis using w(2) by (simp add: sound_def)
qed

lemma join_new:
  assumes ok: "sound (view s)" and s1: "view s1 = (view s)\<lparr>a_reqs := (a_reqs (view s))(r \<mapsto> R0),
      a_nodes := (a_nodes (view s))(i \<mapsto> fresh_node\<lparr>UserPass := UP, CacheNodeId := i\<rparr>),
      a_map := (a_map (view s))(UP \<mapsto> i)\<rparr>"
    and R0: "RequestId R0 = r" "RequestSourceId R0 = Src"
    and new: "a_reqs (view s) r = None" and m: "a_map (view s) UP = None" and i: "a_nodes (view s) i = None" "i \<noteq> 0"
    and j: "join_node al r i UP s1 = (out, t)"
  shows "sound (view t) \<and> Asserted t = Asserted s1 \<and> accepted Src UP (ReconfirmTimePointMS s1) out (view s) (view t)"
proof -
  have v: "cache_ok (view s)" "served (view s)" "anchored (view s)" "a_nodes (view s) 0 = None"
    "reqs_ok (view s)" "nodes_ok (view s)"
    using ok by (simp_all add: sound_def cache_ok_def)
  let ?F = "fresh_node\<lparr>UserPass := UP, CacheNodeId := i\<rparr>"
  have now: "am_Ticker s1 = a_now (view s)" using arg_cong [OF s1, of a_now] by (simp add: cache_view_def)
  have fresh: "r \<notin> set (a_queue (view s1) q)" for q
    using reqs_okD(4) [OF v(5), of r] new by (simp add: s1) (metis domIff)
  have c: "True \<longleftrightarrow> LastUpdateTimestampMS ?F \<le> ReconfirmTimePointMS s1" by (simp add: fresh_node_def)
  define q where "q = RequestListOf i"
  have q': "q = (if Ready (Result ?F) then DispatchResultList else RequestListOf i)"
    by (simp add: q_def fresh_node_def fresh_result_def)
  let ?N = "?F\<lparr>LastUpdateTimestampMS := a_now (view s), LastUsedTimestampMS := a_now (view s)\<rparr>"
  have "a_nodes (view s1) i = Some ?F" "xPA_AuthCacheNode.CacheNodeId ?F = i" "a_reqs (view s1) r = Some R0"
    by (simp_all add: s1)
  note w = view_join [OF this fresh j c q', unfolded now]
  have t: "a_reqs (view t) = (a_reqs (view s))(r \<mapsto> R0\<lparr>xPA_AuthRequestNode.CacheNodeId := i\<rparr>)"
    "a_now (view t) = a_now (view s)" "a_nodes (view t) = (a_nodes (view s))(i \<mapsto> ?N)"
    "a_map (view t) = (a_map (view s))(UserPass ?N \<mapsto> i)" "a_lru (view t) = removeAll i (a_lru (view s)) @ [i]"
    "a_queue (view t) = (a_queue (view s))(q := a_queue (view s) q @ [r])"
    "a_upd (view t) = removeAll i (a_upd (view s)) @ [i]"
    by (simp_all add: w s1)
  have unready: "\<not> Ready (Result ?N)" by (simp add: fresh_node_def fresh_result_def)
  have "cache_ok (view t)"
    by (rule join_ok [OF v(1) new _ t(1-6)]) (use R0 m i unready in \<open>simp_all add: q_def t(7)\<close>)
  moreover have "served (view t) \<and> anchored (view t)"
  proof (rule enqueue_served [OF v(2,3) new v(5) t(1,6)])
    show "\<exists>M'. a_nodes (view t) j = Some M' \<and> Result M' = Result M" if "a_nodes (view s) j = Some M" for j M
      using that i by (cases "j = i") (simp_all add: t(3))
    show "a_nodes (view t) 0 = None" using i v(4) by (simp add: t(3))
  qed (simp add: q_def)
  moreover have "a_nodes (view t) 0 = None" using i v(4) by (simp add: t(3))
  moreover have "accepted Src UP (ReconfirmTimePointMS s1) out (view s) (view t)"
    unfolding accepted_def
    by (rule exI [of _ r], rule exI [of _ "R0\<lparr>xPA_AuthRequestNode.CacheNodeId := i\<rparr>"], rule exI [of _ q])
      (use new i R0 unready in \<open>simp add: t w(1) q_def\<close>)
  ultimately show ?thesis using w(2) by (simp add: sound_def)
qed

lemma no_node_left:
  assumes ok: "sound (view s)" and R0: "RequestId R0 = r" "RequestSourceId R0 = Src" "xPA_AuthRequestNode.CacheNodeId R0 = 0"
    and new: "a_reqs (view s) r = None" and m: "a_map (view s) UP = None"
    and t: "view t = (view s)\<lparr>a_reqs := (a_reqs (view s))(r \<mapsto> R0), a_queue := (a_queue (view s))
      (DispatchResultList := a_queue (view s) DispatchResultList @ [r])\<rparr>"
  shows "sound (view t) \<and> accepted Src UP k [] (view s) (view t)"
proof -
  have v: "cache_ok (view s)" "served (view s)" "anchored (view s)" "a_nodes (view s) 0 = None" "reqs_ok (view s)"
    using ok by (simp_all add: sound_def cache_ok_def)
  have w: "a_reqs (view t) = (a_reqs (view s))(r \<mapsto> R0)" "a_queue (view t) = (a_queue (view s))
      (DispatchResultList := a_queue (view s) DispatchResultList @ [r])" "a_nodes (view t) = a_nodes (view s)"
    "a_map (view t) = a_map (view s)" "a_lru (view t) = a_lru (view s)" "a_upd (view t) = a_upd (view s)"
    "a_now (view t) = a_now (view s)"
    by (simp_all add: t)
  have "reqs_ok (view t)" by (rule enqueue_ok [OF v(5) new R0(1) w(1,2)])
  then have "cache_ok (view t)"
    using v(1) by (simp add: cache_ok_def nodes_ok_def node_ok_def ordered_def stamp_def [abs_def] w(2-))
  moreover have "served (view t) \<and> anchored (view t)"
    by (rule enqueue_served [OF v(2,3) new v(5) w(1,2)]) (use R0 v(4) in \<open>simp_all add: w(3)\<close>)
  moreover have "accepted Src UP k [] (view s) (view t)"
    unfolding accepted_def
    by (rule exI [of _ r], rule exI [of _ R0], rule exI [of _ DispatchResultList])
      (use R0 new m in \<open>simp add: w\<close>)
  ultimately show ?thesis using v(4) by (simp add: sound_def w(3))
qed

end

context auth_cache_env begin

lemma request_auth_ok:
  assumes ok: "sound (view s)" and ra: "RequestAuth al Src UP s = (b, out, t)"
  shows "sound (view t) \<and> Asserted t = Asserted s \<and>
    (b \<longleftrightarrow> valid_user_pass UP \<and> fst (st_acquire (al_requests al) (RequestPool s)) \<noteq> 0) \<and>
    (if b then accepted Src UP (ReconfirmTimePointMS s) out (view s) (view t) else out = [] \<and> view t = view s)"
proof (cases "valid_user_pass UP")
  case False
  with ra ok show ?thesis by (auto simp: RequestAuth_def)
next
  case valid: True
  obtain r p where r: "st_acquire (al_requests al) (RequestPool s) = (r, p)" by fastforce
  show ?thesis
  proof (cases "r = 0")
    case True
    have "view (s\<lparr>RequestPool := p\<rparr>) = view s"
      using req.acquire_full r True by (simp add: cache_view_def)
    with valid r True ra ok show ?thesis by (auto simp: RequestAuth_def)
  next
    case False
    define R0 where "R0 = fresh_request\<lparr>RequestId := r, RequestTimestamp := am_Ticker s, RequestSourceId := Src\<rparr>"
    define s1 where "s1 = s\<lparr>RequestPool := st_put (al_requests al) p r R0,
      OngoingAuthRequestNumber := OngoingAuthRequestNumber s + 1\<rparr>"
    have R0: "RequestId R0 = r" "RequestSourceId R0 = Src" "xPA_AuthRequestNode.CacheNodeId R0 = 0"
      by (simp_all add: R0_def fresh_request_def)
    have new: "a_reqs (view s) r = None" using req.acquire_new [OF r False] by (simp add: cache_view_def)
    have v1: "view s1 = (view s)\<lparr>a_reqs := (a_reqs (view s))(r \<mapsto> R0)\<rparr>"
      using req.acquire_get [OF r False] by (simp add: s1_def cache_view_def req.put_get)
    have s1: "Asserted s1 = Asserted s" "ReconfirmTimePointMS s1 = ReconfirmTimePointMS s" "AuthMap s1 = AuthMap s"
      "RequestQueues s1 = RequestQueues s" "AuthCacheNodePool s1 = AuthCacheNodePool s" "AuthMap s = a_map (view s)"
      by (simp_all add: s1_def cache_view_def)
    have fresh: "r \<notin> set (itQ (RequestQueues s) m)" for m
      using reqs_okD(4) [of "view s" r] ok new by (simp add: sound_def cache_ok_def cache_view_def) (metis domIff)
    have ra1: "RequestAuth al Src UP s = (case AuthMap s1 UP of
        Some i \<Rightarrow> (let (out, t) = join_node al r i UP s1 in (True, out, t))
      | None \<Rightarrow> let (i, s2) = AcquireCacheNode al UP s1 in
          if i = 0 then (True, [], s2\<lparr>RequestQueues := li_add_tail (al_queue al) (RequestQueues s2) DispatchResultList r\<rparr>)
          else (let (out, t) = join_node al r i UP s2 in (True, out, t)))"
      by (simp only: RequestAuth_def r s1_def R0_def Let_def prod.case valid False if_False not_True_eq_False)
    show ?thesis
    proof (cases "a_map (view s) UP")
      case (Some i)
      then obtain j: "join_node al r i UP s1 = (out, t)" and b: "b"
        using ra unfolding ra1 by (auto simp: s1 split: prod.splits)
      show ?thesis using join_existing [OF ok v1 R0(1,2) new Some j] s1(1,2) b valid r False by simp
    next
      case None
      obtain i np where a: "st_acquire (al_nodes al) (AuthCacheNodePool s) = (i, np)" by fastforce
      show ?thesis
      proof (cases "i = 0")
        case True
        let ?s2 = "s1\<lparr>AuthCacheNodePool := np\<rparr>"
        have t: "t = ?s2\<lparr>RequestQueues := li_add_tail (al_queue al) (RequestQueues ?s2) DispatchResultList r\<rparr>" "b" "out = []"
          using ra None True unfolding ra1 by (simp_all add: s1 AcquireCacheNode_def a)
        have "view t = (view s1)\<lparr>a_queue := (a_queue (view s1))
            (DispatchResultList := a_queue (view s1) DispatchResultList @ [r])\<rparr>"
          using nod.acquire_full [of "AuthCacheNodePool s" np] a True fresh
          by (simp add: t(1) cache_view_def que.add_tail_items s1(4,5))
        then have "view t = (view s)\<lparr>a_reqs := (a_reqs (view s))(r \<mapsto> R0), a_queue := (a_queue (view s))
            (DispatchResultList := a_queue (view s) DispatchResultList @ [r])\<rparr>"
          by (simp add: v1)
        from no_node_left [OF ok R0 new None this] show ?thesis using t valid r False s1(1) by simp
      next
        case Tr: False
        let ?F = "fresh_node\<lparr>UserPass := UP, CacheNodeId := i\<rparr>"
        define s2 where "s2 = snd (AcquireCacheNode al UP s1)"
        have s2: "AcquireCacheNode al UP s1 = (i, s2)" "Asserted s2 = Asserted s"
          "ReconfirmTimePointMS s2 = ReconfirmTimePointMS s"
          using Tr None by (simp_all add: s2_def AcquireCacheNode_def a s1)
        have v2: "view s2 = (view s)\<lparr>a_reqs := (a_reqs (view s))(r \<mapsto> R0), a_nodes := (a_nodes (view s))(i \<mapsto> ?F),
            a_map := (a_map (view s))(UP \<mapsto> i)\<rparr>"
        proof -
          have "view s2 = (view s1)\<lparr>a_nodes := (a_nodes (view s1))(i \<mapsto> ?F), a_map := (a_map (view s1))(UP \<mapsto> i)\<rparr>"
            using Tr nod.acquire_get [OF a Tr]
            by (simp add: s2_def AcquireCacheNode_def a cache_view_def nod.put_get s1(3,5))
          then show ?thesis by (simp add: v1)
        qed
        have i: "a_nodes (view s) i = None" using nod.acquire_new [OF a Tr] by (simp add: cache_view_def)
        obtain j: "join_node al r i UP s2 = (out, t)" and b: "b"
          using ra None Tr unfolding ra1 by (auto simp: s1 s2 split: prod.splits)
        show ?thesis using join_new [OF ok v2 R0(1,2) new None i Tr j] s2 b valid r False by simp
      qed
    qed
  qed
qed

lemma view_packet:
  "view (AuthCache_OnServerPacket wc al i Payload s) =
     (case des_xQueryAuthCacheResp wc Payload of
        Some (Resp, rest) \<Rightarrow> if a_nodes (view s) i = None then view s else a_response i (take_result Resp) (view s)
      | None \<Rightarrow> view s)"
proof (cases "a_nodes (view s) i")
  case None
  then show ?thesis by (simp add: AuthCache_OnServerPacket_def cache_view_def split: option.split)
next
  case (Some N)
  then have g: "st_get (al_nodes al) (AuthCacheNodePool s) i = Some N" by (simp add: cache_view_def)
  show ?thesis
  proof (cases "des_xQueryAuthCacheResp wc Payload")
    case None
    with g show ?thesis by (simp add: AuthCache_OnServerPacket_def)
  next
    case (Some m)
    obtain Resp rest where m: "m = (Resp, rest)" by (cases m)
    define s1 where "s1 = write_node al i (\<lambda>N. N\<lparr>Result := take_result Resp\<rparr>) s"
    define s2 where "s2 = s1\<lparr>RequestQueues := li_grab_list_tail (al_queue al) (RequestQueues s1) DispatchResultList (RequestListOf i)\<rparr>"
    define s3 where "s3 = HitCache al i s2"
    have v1: "view s1 = (view s)\<lparr>a_nodes := (a_nodes (view s))(i := map_option (\<lambda>N. N\<lparr>Result := take_result Resp\<rparr>) (a_nodes (view s) i))\<rparr>"
      by (simp add: s1_def view_write_node)
    have "view s2 = a_grab i (view s1)" by (simp add: s2_def cache_view_def a_grab_def que.grab_list_tail_items)
    then have v3: "view s3 = a_hit i (a_grab i (view s1))" by (simp add: s3_def view_hit)
    have "view (s3\<lparr>AuthCacheUpdateList := li_remove (al_update al) (AuthCacheUpdateList s3) i\<rparr>) =
        (view s3)\<lparr>a_upd := removeAll i (a_upd (view s3))\<rparr>"
      by (simp add: cache_view_def upd.remove_items)
    also have "\<dots> = a_response i (take_result Resp) (view s)" by (simp add: a_response_def Let_def v3 v1)
    finally have "view (AuthCache_OnServerPacket wc al i Payload s) = a_response i (take_result Resp) (view s)"
      using g Some by (simp add: AuthCache_OnServerPacket_def m s1_def s2_def s3_def Let_def)
    then show ?thesis using Some m \<open>a_nodes (view s) i = Some N\<close> by simp
  qed
qed

lemma packet_ok:
  assumes ok: "sound (view s)"
  shows "sound (view (AuthCache_OnServerPacket wc al i Payload s))"
    "Asserted (AuthCache_OnServerPacket wc al i Payload s) = Asserted s"
proof -
  have "sound (a_response i A (view s))" if n: "a_nodes (view s) i \<noteq> None" and rd: "Ready A" for A
  proof -
    obtain N where N: "a_nodes (view s) i = Some N" using n by auto
    have "i \<noteq> 0" using N ok by (auto simp: sound_def)
    then have "a_nodes (a_response i A (view s)) 0 = None"
      using N ok by (simp add: sound_def a_response_def Let_def a_hit_def a_grab_def)
    then show ?thesis
      using response_ok [OF _ N rd] served_response [OF _ N rd] anchored_response [OF _ _ N] ok
      by (simp add: sound_def)
  qed
  then show "sound (view (AuthCache_OnServerPacket wc al i Payload s))"
    using ok unfolding view_packet by (simp add: take_result_def split: option.split)
  show "Asserted (AuthCache_OnServerPacket wc al i Payload s) = Asserted s"
    by (simp add: AuthCache_OnServerPacket_def HitCache_def Let_def split: option.split)
qed

end

subsection \<open>The tick\<close>

definition answer :: "auth_view \<Rightarrow> u64 \<Rightarrow> auth_answer" where
  "answer v r = (let R = the (a_reqs v r) in
     (RequestSourceId R, map_option Result (a_nodes v (xPA_AuthRequestNode.CacheNodeId R))))"

definition unlinked :: "auth_view \<Rightarrow> u64 list \<Rightarrow> auth_view" where
  "unlinked v rs = v\<lparr>a_reqs := a_reqs v |` (- set rs),
     a_queue := (a_queue v)(DispatchResultList := drop (length rs) (a_queue v DispatchResultList))\<rparr>"

text \<open>The nodes that a tick at time \<open>now\<close> keeps.\<close>

definition kept :: "u64 \<Rightarrow> auth_view \<Rightarrow> u64 \<Rightarrow> xPA_AuthCacheNode option" where
  "kept now v i = (case a_nodes v i of None \<Rightarrow> None
     | Some N \<Rightarrow> if i \<in> set (a_upd v) \<and> LastUpdateTimestampMS N < now - 15000 \<or>
         LastUsedTimestampMS N < now - 480000 then None else Some N)"

context auth_cache_env begin

lemma drain_results:
  assumes ok: "cache_ok (view s)"
  obtains t where "pop_loop (pop_result al) (deliver_result al) ([], s) =
      Some (map (answer (view s)) (a_queue (view s) DispatchResultList), t)" "Asserted t = Asserted s"
    "cache_ok (view t)" "view t = unlinked (view s) (a_queue (view s) DispatchResultList)"
proof -
  let ?D = "a_queue (view s) DispatchResultList"
  let ?I = "\<lambda>(out, t). cache_ok (view t) \<and> Asserted t = Asserted s \<and>
    (\<exists>n \<le> length ?D. out = map (answer (view s)) (take n ?D) \<and> view t = unlinked (view s) (take n ?D))"
  let ?m = "\<lambda>(out, t). length (a_queue (view t) DispatchResultList)"
  have dist: "distinct ?D" using ok by (simp add: cache_ok_def reqs_ok_def)
  have step: "?I (deliver_result al r q') \<and> ?m (deliver_result al r q') < ?m q"
    if I: "?I q" and pop: "pop_result al q = Some (r, q')" for q q' r
  proof -
    obtain out t out' t' where q: "q = (out, t)" "q' = (out', t')" by (cases q; cases q') simp
    obtain n where okt: "cache_ok (view t)" "Asserted t = Asserted s" and n: "n \<le> length ?D"
      "out = map (answer (view s)) (take n ?D)" "view t = unlinked (view s) (take n ?D)"
      using I q by auto
    obtain R where R: "a_reqs (view t) r = Some R" "r \<in> set (a_queue (view t) DispatchResultList)"
      and d: "deliver_result al r (out', t') = (out @ [(RequestSourceId R,
          map_option Result (a_nodes (view t) (xPA_AuthRequestNode.CacheNodeId R)))], snd (deliver_result al r (out', t')))"
      "view (snd (deliver_result al r (out', t'))) = a_deliver r (view t)"
      "Asserted (snd (deliver_result al r (out', t'))) = Asserted t" "cache_ok (a_deliver r (view t))"
      and hd: "a_queue (view t) DispatchResultList = r # tl (a_queue (view t) DispatchResultList)"
      using pop_result_Some [OF okt(1), of out r out' t'] pop q by blast
    define u where "u = snd (deliver_result al r (out', t'))"
    note d = d [folded u_def]
    have D: "drop n ?D = r # tl (drop n ?D)" using hd n(1,3) by (simp add: unlinked_def)
    then have n': "n < length ?D" by (cases "n < length ?D") auto
    then have take: "take (Suc n) ?D = take n ?D @ [r]"
      using D by (simp add: take_Suc_conv_app_nth hd_drop_conv_nth [symmetric]) (metis list.sel(1))
    have R': "a_reqs (view s) r = Some R" using R(1) n(3) by (simp add: unlinked_def restrict_map_def split: if_splits)
    have "view u = unlinked (view s) (take (Suc n) ?D)"
      unfolding d(2) n(3) take using n' n(1)
      by (simp add: a_deliver_def unlinked_def min_absorb2 drop_Suc tl_drop fun_eq_iff restrict_map_def)
    moreover have "out @ [(RequestSourceId R, map_option Result (a_nodes (view t) (xPA_AuthRequestNode.CacheNodeId R)))] =
        map (answer (view s)) (take (Suc n) ?D)"
      unfolding take n(2) by (simp add: answer_def R' n(3) unlinked_def)
    ultimately have "?I (deliver_result al r (out', t'))"
      unfolding d(1) using d(2-4) okt(2) n' by (auto intro!: exI [of _ "Suc n"])
    moreover have "?m (deliver_result al r (out', t')) < ?m (out, t)"
    proof -
      have "a_queue (view t) DispatchResultList \<noteq> []" using R(2) by auto
      then show ?thesis by (simp add: d(1,2) a_deliver_def)
    qed
    ultimately show ?thesis unfolding q by (rule conjI)
  qed
  have "?I ([], s)" using ok by (auto intro!: exI [of _ 0] simp: unlinked_def restrict_map_def)
  then have "\<exists>q. pop_loop (pop_result al) (deliver_result al) ([], s) = Some q \<and> ?I q \<and> pop_result al q = None"
    by (rule pop_loop_total [where I = ?I and m = ?m, OF _ step [THEN conjunct1] step [THEN conjunct2]])
  then obtain out t n where t: "pop_loop (pop_result al) (deliver_result al) ([], s) = Some (out, t)"
    "cache_ok (view t)" "Asserted t = Asserted s" "n \<le> length ?D" "out = map (answer (view s)) (take n ?D)"
    "view t = unlinked (view s) (take n ?D)" "pop_result al (out, t) = None"
    by auto
  have "a_queue (view t) DispatchResultList = []"
    using t(7) by (simp add: pop_result_def que.pop_head_None cache_view_def)
  then have "take n ?D = ?D" using t(4,6) by (simp add: unlinked_def)
  with that [of t] t show ?thesis by simp
qed

end

lemma shrunk_trans:
  assumes "shrunk A v w" "shrunk B w x"
  shows "shrunk (A \<union> B) v x"
proof -
  obtain D E where D: "D \<subseteq> A" "a_nodes w = a_nodes v |` (- D)" "set (a_upd w) = set (a_upd v) - D"
    and E: "E \<subseteq> B" "a_nodes x = a_nodes w |` (- E)" "set (a_upd x) = set (a_upd w) - E"
    using assms unfolding shrunk_def by blast
  have "a_nodes x = a_nodes v |` (- (D \<union> E))" unfolding D(2) E(2) by (auto simp: restrict_map_def fun_eq_iff)
  moreover have "set (a_upd x) = set (a_upd v) - (D \<union> E)" unfolding D(3) E(3) by blast
  moreover have "D \<union> E \<subseteq> A \<union> B" using D(1) E(1) by blast
  ultimately have "\<exists>D \<subseteq> A \<union> B. a_nodes x = a_nodes v |` (- D) \<and> set (a_upd x) = set (a_upd v) - D" by blast
  moreover have "a_queue x (RequestListOf i) = a_queue v (RequestListOf i)" if "a_nodes x i \<noteq> None" for i
  proof -
    from that have "a_nodes w i \<noteq> None" by (auto simp: E(2) restrict_map_def split: if_splits)
    with that assms show ?thesis by (simp add: shrunk_def)
  qed
  ultimately show ?thesis using assms by (simp add: shrunk_def)
qed

lemma shrunk_dispatch:
  assumes "reqs_ok v" "shrunk A v w"
  shows "r \<in> set (a_queue w DispatchResultList) \<longleftrightarrow>
    r \<in> dom (a_reqs v) \<and> (\<forall>i. r \<in> set (a_queue v (RequestListOf i)) \<longrightarrow> a_nodes w i = None)"
proof -
  have ok: "reqs_ok w" "nodes_ok w" "a_reqs w = a_reqs v"
    and same: "\<And>i. a_nodes w i \<noteq> None \<Longrightarrow> a_queue w (RequestListOf i) = a_queue v (RequestListOf i)"
    using assms(2) by (simp_all add: shrunk_def cache_ok_def)
  note w = reqs_okD [OF ok(1)]
  show ?thesis
  proof (intro iffI conjI allI impI)
    assume r: "r \<in> set (a_queue w DispatchResultList)"
    then show "r \<in> dom (a_reqs v)" using w(4) [of r] ok(3) by auto
    show "a_nodes w i = None" if "r \<in> set (a_queue v (RequestListOf i))" for i
    proof (rule ccontr)
      assume "a_nodes w i \<noteq> None"
      then have "r \<in> set (a_queue w (RequestListOf i))" using that same by simp
      with r w(3) show False by blast
    qed
  next
    assume r: "r \<in> dom (a_reqs v) \<and> (\<forall>i. r \<in> set (a_queue v (RequestListOf i)) \<longrightarrow> a_nodes w i = None)"
    then obtain q where q: "r \<in> set (a_queue w q)" using w(4) [of r] ok(3) by auto
    show "r \<in> set (a_queue w DispatchResultList)"
    proof (cases q)
      case (RequestListOf i)
      then have "a_nodes w i \<noteq> None" using q ok(2) by (auto simp: nodes_ok_def)
      with same [OF this] q RequestListOf r show ?thesis by auto
    qed (use q in simp)
  qed
qed

lemma shrunk_served:
  assumes "served v" "reqs_ok v" "shrunk A v w"
  shows "served w"
proof -
  have ok: "nodes_ok w" "a_reqs w = a_reqs v"
    and same: "\<And>i. a_nodes w i \<noteq> None \<Longrightarrow> a_queue w (RequestListOf i) = a_queue v (RequestListOf i)"
    using assms(3) by (simp_all add: shrunk_def cache_ok_def)
  show ?thesis
    unfolding served_def
  proof (intro conjI allI impI)
    fix r R i N
    assume "a_reqs w r = Some R"
    then have R: "a_reqs v r = Some R" by (simp add: ok(2))
    show "xPA_AuthRequestNode.CacheNodeId R = i" if q: "r \<in> set (a_queue w (RequestListOf i))"
    proof -
      have "a_nodes w i \<noteq> None" using q ok(1) by (auto simp: nodes_ok_def)
      with q same servedD(1) [OF assms(1) R] show ?thesis by simp
    qed
    assume r: "r \<in> set (a_queue w DispatchResultList)" and N: "a_nodes w (xPA_AuthRequestNode.CacheNodeId R) = Some N"
    obtain q where q: "r \<in> set (a_queue v q)" using reqs_okD(4) [OF assms(2), of r] R by auto
    have "q = DispatchResultList"
    proof (cases q)
      case (RequestListOf i)
      then have "xPA_AuthRequestNode.CacheNodeId R = i" using servedD(1) [OF assms(1) R] q by simp
      moreover have "a_nodes w i = None" using r q RequestListOf shrunk_dispatch [OF assms(2,3)] by blast
      ultimately show ?thesis using N by simp
    qed
    with q servedD(2) [OF assms(1) R _ shrunk_nodes(1) [OF assms(3) N]] show "Ready (Result N)" by simp
  qed
qed

lemma served_unlinked:
  assumes "served v"
  shows "served (unlinked v (a_queue v DispatchResultList))" "anchored (unlinked v (a_queue v DispatchResultList))"
  using assms unfolding served_def anchored_def
  by (simp_all add: unlinked_def restrict_map_def)

lemma later_ok:
  assumes "cache_ok v" "a_now v \<le> now"
  shows "cache_ok (v\<lparr>a_now := now\<rparr>)"
proof -
  have "node_ok (v\<lparr>a_now := now\<rparr>) i N" if "node_ok v i N" for i N
    using that order_trans [OF _ assms(2)] by (simp add: node_ok_def)
  then have "nodes_ok (v\<lparr>a_now := now\<rparr>)" using assms(1) by (simp add: cache_ok_def nodes_ok_def)
  then show ?thesis using assms(1) by (simp add: cache_ok_def reqs_ok_def ordered_def stamp_def [abs_def])
qed

text \<open>What the tick does: the nodes it keeps, the requests it answers and the answers.\<close>

definition ticked :: "u64 \<Rightarrow> auth_answer list \<Rightarrow> auth_view \<Rightarrow> auth_view \<Rightarrow> bool" where
  "ticked now out v w \<longleftrightarrow> a_now w = now \<and> a_nodes w = kept now v \<and> a_queue w DispatchResultList = [] \<and>
     (\<exists>rs. distinct rs \<and>
        set rs = {r. a_reqs v r \<noteq> None \<and> (\<forall>i. r \<in> set (a_queue v (RequestListOf i)) \<longrightarrow> kept now v i = None)} \<and>
        a_reqs w = a_reqs v |` (- set rs) \<and> out = map (answer (v\<lparr>a_nodes := kept now v\<rparr>)) rs)"

context auth_cache_env begin

lemma tick_ok:
  assumes ok: "sound (view s)" and now: "am_Ticker s \<le> now" "480000 \<le> now"
  obtains out t where "AuthCache_OnTick al now s = Some (out, t)" "Asserted t = Asserted s" "sound (view t)"
    "ticked now out (view s) (view t)"
proof -
  define s0 where "s0 = s\<lparr>am_Ticker := now, ReconfirmTimePointMS := now - AUTH_CACHE_RECONFIRM_TIMEOUT_MS\<rparr>"
  have v0: "view s0 = (view s)\<lparr>a_now := now\<rparr>" by (simp add: s0_def cache_view_def)
  have "a_now (view s) \<le> now" using now(1) by (simp add: cache_view_def)
  then have s0: "cache_ok (view s0)" "Asserted s0 = Asserted s"
    using later_ok [of "view s"] ok unfolding v0 by (simp_all add: sound_def s0_def)
  obtain s1 where s1: "pop_loop (pop_update al (now - AUTH_CACHE_REQUEST_TIMEOUT_MS)) (timeout_node al) s0 = Some s1"
    "Asserted s1 = Asserted s0"
    "shrunk (outdated LastUpdateTimestampMS (now - AUTH_CACHE_REQUEST_TIMEOUT_MS) (view s0) (a_upd (view s0))) (view s0) (view s1)"
    "\<And>i N. i \<in> set (a_upd (view s1)) \<Longrightarrow> a_nodes (view s1) i = Some N \<Longrightarrow> now - AUTH_CACHE_REQUEST_TIMEOUT_MS \<le> LastUpdateTimestampMS N"
    using drain_update [OF s0(1)] by blast
  have mono: "now - AUTH_CACHE_NODE_TIMEOUT_MS \<le> now - AUTH_CACHE_REQUEST_TIMEOUT_MS"
    using now(2) unfolding auth_timeout_defs by unat_arith
  have ok1: "cache_ok (view s1)" using s1(3) by (simp add: shrunk_def)
  obtain s2 where s2: "pop_loop (pop_lru al (now - AUTH_CACHE_NODE_TIMEOUT_MS)) (unused_node al) s1 = Some s2"
    "Asserted s2 = Asserted s1"
    "shrunk (outdated LastUsedTimestampMS (now - AUTH_CACHE_NODE_TIMEOUT_MS) (view s1) (a_lru (view s1))) (view s1) (view s2)"
    "\<And>i N. a_nodes (view s2) i = Some N \<Longrightarrow> now - AUTH_CACHE_NODE_TIMEOUT_MS \<le> LastUsedTimestampMS N"
    using drain_lru [OF ok1, of "now - AUTH_CACHE_NODE_TIMEOUT_MS"] order_trans [OF mono s1(4)] by blast
  have ok2: "cache_ok (view s2)" using s2(3) by (simp add: shrunk_def)
  let ?D = "a_queue (view s2) DispatchResultList"
  obtain t where t: "pop_loop (pop_result al) (deliver_result al) ([], s2) = Some (map (answer (view s2)) ?D, t)"
    "Asserted t = Asserted s2" "cache_ok (view t)" "view t = unlinked (view s2) ?D"
    using drain_results [OF ok2] .
  note sh = shrunk_trans [OF s1(3) s2(3)]
  have nodes: "a_nodes (view s2) i = kept now (view s) i" for i
  proof (cases "a_nodes (view s) i")
    case None
    then have "a_nodes (view s2) i = None"
      using shrunk_nodes(1) [OF sh, of i] by (cases "a_nodes (view s2) i") (auto simp: v0)
    with None show ?thesis by (simp add: kept_def)
  next
    case (Some N)
    have "a_nodes (view s2) i = None" if "i \<in> set (a_upd (view s))" "LastUpdateTimestampMS N < now - 15000"
    proof (rule ccontr)
      assume "a_nodes (view s2) i \<noteq> None"
      then obtain M where M: "a_nodes (view s2) i = Some M" by blast
      note M1 = shrunk_nodes(1) [OF s2(3) M]
      note M0 = shrunk_nodes [OF s1(3) M1]
      from M0(1) Some have "M = N" by (simp add: v0)
      then show False using s1(4) [of i M] M0(2) M1 that by (simp add: v0 auth_timeout_defs)
    qed
    moreover have "a_nodes (view s2) i = None" if "LastUsedTimestampMS N < now - 480000"
    proof (rule ccontr)
      assume "a_nodes (view s2) i \<noteq> None"
      then obtain M where M: "a_nodes (view s2) i = Some M" by blast
      from shrunk_nodes(1) [OF sh M] Some have "M = N" by (simp add: v0)
      then show False using s2(4) [OF M] that by (simp add: auth_timeout_defs)
    qed
    moreover have "a_nodes (view s2) i = Some N"
      if "\<not> (i \<in> set (a_upd (view s)) \<and> LastUpdateTimestampMS N < now - 15000 \<or> LastUsedTimestampMS N < now - 480000)"
    proof -
      have 1: "a_nodes (view s1) i = Some N"
        using shrunk_keeps [OF s1(3), of i] that Some by (simp add: outdated_def v0 auth_timeout_defs)
      then show ?thesis
        using shrunk_keeps [OF s2(3), of i] that by (simp add: outdated_def auth_timeout_defs)
    qed
    ultimately show ?thesis using Some by (auto simp: kept_def)
  qed
  then have nodes: "a_nodes (view s2) = kept now (view s)" by blast
  have ok0: "reqs_ok (view s0)" "served (view s0)" "a_nodes (view s) 0 = None"
    using s0(1) ok by (simp_all add: cache_ok_def sound_def v0 served_def)
  have reqs: "a_reqs (view s2) = a_reqs (view s)" "a_now (view s2) = now"
    using sh by (simp_all add: shrunk_def v0)
  have "served (view s2)" by (rule shrunk_served [OF ok0(2,1) sh])
  note st = served_unlinked [OF this, unfolded t(4) [symmetric]]
  have "a_nodes (view t) 0 = None" using ok0(3) by (simp add: t(4) unlinked_def nodes kept_def)
  then have snd: "sound (view t)" using st t(3) by (simp add: sound_def)
  have "AuthCache_OnTick al now s = Some (map (answer (view s2)) ?D, t)"
    using s1(1) s2(1) t(1) by (simp add: AuthCache_OnTick_def s0_def [symmetric] Let_def)
  moreover have "ticked now (map (answer (view s2)) ?D) (view s) (view t)"
    unfolding ticked_def
  proof (intro conjI exI [of _ ?D])
    show "distinct ?D" using ok2 by (simp add: cache_ok_def reqs_ok_def)
    show "set ?D = {r. a_reqs (view s) r \<noteq> None \<and>
        (\<forall>i. r \<in> set (a_queue (view s) (RequestListOf i)) \<longrightarrow> kept now (view s) i = None)}"
      using shrunk_dispatch [OF ok0(1) sh] by (auto simp: v0 nodes)
    have "answer (view s2) r = answer ((view s)\<lparr>a_nodes := kept now (view s)\<rparr>) r" for r
      by (simp add: answer_def reqs nodes)
    then show "map (answer (view s2)) ?D = map (answer ((view s)\<lparr>a_nodes := kept now (view s)\<rparr>)) ?D" by simp
  qed (simp_all add: t(4) unlinked_def reqs nodes)
  moreover have "Asserted t = Asserted s" by (simp add: t(2) s2(2) s1(2) s0(2))
  ultimately show ?thesis using that snd by blast
qed

end

subsection \<open>The library, and reachable states\<close>

definition ref_auth_lib ::
    "(xPA_AuthRequestNode ref_pool, xPA_AuthCacheNode ref_pool, unit \<Rightarrow> u64 list, unit \<Rightarrow> u64 list,
      auth_queue \<Rightarrow> u64 list) auth_lib" where
  "ref_auth_lib = \<lparr>al_requests = ref_storage fresh_request, al_nodes = ref_storage fresh_node, al_lru = ref_lists,
     al_update = ref_lists, al_queue = ref_lists\<rparr>"

interpretation ref_auth: auth_cache_env ref_auth_lib "\<lambda>l. l" "\<lambda>l. l" "\<lambda>l. l"
  unfolding auth_cache_env_def ref_auth_lib_def
  by (simp add: ref_storage_contract ref_lists_contract)

text \<open>
  Any interleaving of requests, packets of the service and ticks of a clock that does not run
  backwards and is past its first eight minutes.
\<close>

inductive auth_reach ::
    "'x wire \<Rightarrow> ('r, 'n, 'l, 'u, 'q) auth_lib \<Rightarrow> ('r, 'n, 'l, 'u, 'q) auth_manager \<Rightarrow>
     ('r, 'n, 'l, 'u, 'q) auth_manager \<Rightarrow> bool" for wc al s0 where
  init: "auth_reach wc al s0 s0"
| request: "auth_reach wc al s0 s \<Longrightarrow> RequestAuth al Src UP s = (b, out, t) \<Longrightarrow> auth_reach wc al s0 t"
| packet: "auth_reach wc al s0 s \<Longrightarrow> auth_reach wc al s0 (AuthCache_OnServerPacket wc al Rid Payload s)"
| tick: "auth_reach wc al s0 s \<Longrightarrow> am_Ticker s \<le> now \<Longrightarrow> 480000 \<le> now \<Longrightarrow>
    AuthCache_OnTick al now s = Some (out, t) \<Longrightarrow> auth_reach wc al s0 t"

definition empty_cache ::
    "('r, 'n, 'l, 'u, 'q) auth_lib \<Rightarrow> ('l \<Rightarrow> unit \<Rightarrow> u64 list) \<Rightarrow> ('u \<Rightarrow> unit \<Rightarrow> u64 list) \<Rightarrow>
     ('q \<Rightarrow> auth_queue \<Rightarrow> u64 list) \<Rightarrow> ('r, 'n, 'l, 'u, 'q) auth_manager \<Rightarrow> bool" where
  "empty_cache al itL itU itQ s \<longleftrightarrow> Asserted s \<and>
     cache_view al itL itU itQ s = \<lparr>a_now = am_Ticker s, a_reqs = Map.empty, a_nodes = Map.empty,
       a_map = Map.empty, a_lru = [], a_upd = [], a_queue = (\<lambda>_. [])\<rparr>"

context auth_cache_env begin

lemma reach_ok:
  assumes "auth_reach wc al s0 s" "empty_cache al itL itU itQ s0"
  shows "sound (view s) \<and> Asserted s"
  using assms(1)
proof (induction rule: auth_reach.induct)
  case init
  show ?case using assms(2)
    by (simp add: empty_cache_def sound_def cache_ok_def reqs_ok_def nodes_ok_def ordered_def served_def anchored_def)
next
  case (request s Src UP b out t)
  with request_auth_ok [of s Src UP b out t] show ?case by simp
next
  case (packet s Rid Payload)
  then show ?case by (simp add: packet_ok)
next
  case (tick s now out t)
  with tick_ok [of s now] show ?case by (metis option.sel prod.sel(2))
qed

end

lemma ticked_ready:
  assumes v: "sound v" and w: "ticked now out v w" and a: "(src, Some A) \<in> set out"
  shows "Ready A"
proof -
  have ok: "served v" "reqs_ok v" using v by (simp_all add: sound_def cache_ok_def)
  from w obtain rs where rs: "set rs = {r. a_reqs v r \<noteq> None \<and>
      (\<forall>i. r \<in> set (a_queue v (RequestListOf i)) \<longrightarrow> kept now v i = None)}"
    "out = map (answer (v\<lparr>a_nodes := kept now v\<rparr>)) rs"
    unfolding ticked_def by blast
  obtain r where e: "(src, Some A) = answer (v\<lparr>a_nodes := kept now v\<rparr>) r" and r: "r \<in> set rs"
    using a unfolding rs(2) set_map by (rule imageE)
  then obtain R where R: "a_reqs v r = Some R" using rs(1) by blast
  from e R obtain N where N: "kept now v (xPA_AuthRequestNode.CacheNodeId R) = Some N" "Result N = A"
    by (cases "kept now v (xPA_AuthRequestNode.CacheNodeId R)") (simp_all add: answer_def)
  then have Nv: "a_nodes v (xPA_AuthRequestNode.CacheNodeId R) = Some N"
    by (auto simp: kept_def split: option.splits if_splits)
  obtain q where q: "r \<in> set (a_queue v q)" using reqs_okD(4) [OF ok(2), of r] R by auto
  have "q = DispatchResultList"
  proof (cases q)
    case (RequestListOf i)
    then have "xPA_AuthRequestNode.CacheNodeId R = i" using servedD(1) [OF ok(1) R] q by simp
    moreover have "kept now v i = None" using r rs(1) q RequestListOf by blast
    ultimately show ?thesis using N(1) by simp
  qed
  with q servedD(2) [OF ok(1) R _ Nv] N(2) show ?thesis by simp
qed

definition demo_auth ::
    "(xPA_AuthRequestNode ref_pool, xPA_AuthCacheNode ref_pool, unit \<Rightarrow> u64 list, unit \<Rightarrow> u64 list,
      auth_queue \<Rightarrow> u64 list) auth_manager" where
  "demo_auth = \<lparr>am_Ticker = 500000, ReconfirmTimePointMS = 200000, RequestPool = ref_pool_init 4,
     AuthCacheNodePool = ref_pool_init 2, AuthMap = (\<lambda>_. None), AuthCacheLRUList = (\<lambda>_. []),
     AuthCacheUpdateList = (\<lambda>_. []), RequestQueues = (\<lambda>_. []), AuthCacheNodeCount = 0,
     OngoingAuthRequestNumber = 0, Asserted = True\<rparr>"

lemma demo_auth_empty: "empty_cache ref_auth_lib (\<lambda>l. l) (\<lambda>l. l) (\<lambda>l. l) demo_auth"
  by (simp add: empty_cache_def cache_view_def demo_auth_def ref_auth_lib_def ref_storage_defs ref_pool_init_def fun_eq_iff)

definition demo_auth1 where "demo_auth1 = snd (snd (RequestAuth ref_auth_lib 7 (bytes_of ''a:b'') demo_auth))"

lemma demo_auth1_reach: "auth_reach ref_wire ref_auth_lib demo_auth demo_auth1"
  unfolding demo_auth1_def
  by (rule auth_reach.request [OF auth_reach.init, where Src = 7 and UP = "bytes_of ''a:b''" and
        b = "fst (RequestAuth ref_auth_lib 7 (bytes_of ''a:b'') demo_auth)" and
        out = "fst (snd (RequestAuth ref_auth_lib 7 (bytes_of ''a:b'') demo_auth))"]) simp

lemma demo_auth1_ok: "sound (cache_view ref_auth_lib (\<lambda>l. l) (\<lambda>l. l) (\<lambda>l. l) demo_auth1)"
  using ref_auth.reach_ok [OF demo_auth1_reach demo_auth_empty] by simp

definition demo_answer :: bytes where
  "demo_answer = ser_xQueryAuthCacheResp ref_wire (xQueryAuthCacheResp.make 5 86 1 2 False False True False False [])"

definition demo_auth2 where "demo_auth2 = AuthCache_OnServerPacket ref_wire ref_auth_lib 1 demo_answer demo_auth1"

lemma demo_auth2_reach: "auth_reach ref_wire ref_auth_lib demo_auth demo_auth2"
  unfolding demo_auth2_def by (rule auth_reach.packet [OF demo_auth1_reach])

subsection \<open>Properties\<close>

text \<open>
  C13: in every reachable state of the authentication cache no assertion of the code has failed and the
  cache is sound: the map and the pool of nodes agree, both time lists are in order, every pending
  request is on exactly one list, waits only on a node that the service has still to answer, and a
  request to be answered refers to a node whose result the service has sent.
\<close>

theorem auth_cache_invariant:
  assumes "auth_cache_env al itL itU itQ" "empty_cache al itL itU itQ s0" "auth_reach wc al s0 s"
  shows "sound (cache_view al itL itU itQ s) \<and> Asserted s"
  by (rule auth_cache_env.reach_ok [OF assms(1,3,2)])

theorem auth_cache_invariant_witness:
  "sound (cache_view ref_auth_lib (\<lambda>l. l) (\<lambda>l. l) (\<lambda>l. l) demo_auth1) \<and> Asserted demo_auth1"
  by (rule auth_cache_invariant [OF ref_auth.auth_cache_env_axioms demo_auth_empty demo_auth1_reach])

text \<open>
  \<^verbatim>\<open>RequestAuth\<close> takes a request exactly when the text is a user and a password of 1 to 127 bytes
  each and a request slot is free, and changes nothing otherwise. A request it takes goes to the
  results when the node of the text has an answer or no node is left, and waits on the node of the
  text otherwise; the service is asked exactly when the node is new or its last question is older
  than the reconfirmation point.
\<close>

theorem auth_request:
  assumes "auth_cache_env al itL itU itQ" "sound (cache_view al itL itU itQ s)"
    and "RequestAuth al Src UP s = (b, out, t)"
  shows "(b \<longleftrightarrow> valid_user_pass UP \<and> fst (st_acquire (al_requests al) (RequestPool s)) \<noteq> 0) \<and>
    (if b then accepted Src UP (ReconfirmTimePointMS s) out (cache_view al itL itU itQ s) (cache_view al itL itU itQ t)
     else out = [] \<and> cache_view al itL itU itQ t = cache_view al itL itU itQ s)"
  using auth_cache_env.request_auth_ok [OF assms] by blast

theorem auth_request_witness:
  "accepted 8 (bytes_of ''a:b'') 200000 [] (cache_view ref_auth_lib (\<lambda>l. l) (\<lambda>l. l) (\<lambda>l. l) demo_auth1)
     (cache_view ref_auth_lib (\<lambda>l. l) (\<lambda>l. l) (\<lambda>l. l)
       (snd (snd (RequestAuth ref_auth_lib 8 (bytes_of ''a:b'') demo_auth1))))"
proof -
  have c: "fst (RequestAuth ref_auth_lib 8 (bytes_of ''a:b'') demo_auth1)"
    "fst (snd (RequestAuth ref_auth_lib 8 (bytes_of ''a:b'') demo_auth1)) = []"
    "ReconfirmTimePointMS demo_auth1 = 200000"
    by code_simp+
  have "RequestAuth ref_auth_lib 8 (bytes_of ''a:b'') demo_auth1 = (True, [],
      snd (snd (RequestAuth ref_auth_lib 8 (bytes_of ''a:b'') demo_auth1)))"
    by (simp add: prod_eq_iff c)
  from auth_request [OF ref_auth.auth_cache_env_axioms demo_auth1_ok this] c(3) show ?thesis by simp
qed

text \<open>
  C12: a tick ends. It drops exactly the nodes that the service has not answered for 15 seconds and those
  not used for eight minutes, and answers, each once, exactly the requests that do not wait on a node
  it keeps: no request waits longer than 15 seconds for the service.
\<close>

theorem auth_tick:
  assumes "auth_cache_env al itL itU itQ" "sound (cache_view al itL itU itQ s)" "am_Ticker s \<le> now" "480000 \<le> now"
  shows "\<exists>out t. AuthCache_OnTick al now s = Some (out, t) \<and>
    ticked now out (cache_view al itL itU itQ s) (cache_view al itL itU itQ t)"
  using auth_cache_env.tick_ok [OF assms] by metis

theorem auth_tick_witness:
  "\<exists>out t. AuthCache_OnTick ref_auth_lib 520000 demo_auth1 = Some (out, t) \<and>
     ticked 520000 out (cache_view ref_auth_lib (\<lambda>l. l) (\<lambda>l. l) (\<lambda>l. l) demo_auth1)
       (cache_view ref_auth_lib (\<lambda>l. l) (\<lambda>l. l) (\<lambda>l. l) t) \<and>
     st_get (al_nodes ref_auth_lib) (AuthCacheNodePool demo_auth1) 1 \<noteq> None \<and>
     st_get (al_nodes ref_auth_lib) (AuthCacheNodePool t) 1 = None"
proof -
  have d: "am_Ticker demo_auth1 = 500000" "st_get (al_nodes ref_auth_lib) (AuthCacheNodePool demo_auth1) 1 \<noteq> None"
    "kept 520000 (cache_view ref_auth_lib (\<lambda>l. l) (\<lambda>l. l) (\<lambda>l. l) demo_auth1) 1 = None" by code_simp+
  obtain out t where t: "AuthCache_OnTick ref_auth_lib 520000 demo_auth1 = Some (out, t)"
    "ticked 520000 out (cache_view ref_auth_lib (\<lambda>l. l) (\<lambda>l. l) (\<lambda>l. l) demo_auth1)
       (cache_view ref_auth_lib (\<lambda>l. l) (\<lambda>l. l) (\<lambda>l. l) t)"
    using auth_tick [OF ref_auth.auth_cache_env_axioms demo_auth1_ok, of 520000] d(1) by auto
  from t(2) have "a_nodes (cache_view ref_auth_lib (\<lambda>l. l) (\<lambda>l. l) (\<lambda>l. l) t) =
      kept 520000 (cache_view ref_auth_lib (\<lambda>l. l) (\<lambda>l. l) (\<lambda>l. l) demo_auth1)"
    unfolding ticked_def by blast
  from fun_cong [OF this, of 1] d(3) have "st_get (al_nodes ref_auth_lib) (AuthCacheNodePool t) 1 = None"
    by (simp add: cache_view_def)
  with t d(2) show ?thesis by blast
qed

text \<open>
  C11: no client is handed a result that the service has not sent: an answer of a tick carries either
  no result, which the client's handler refuses, or a result set by an answer of the service.
\<close>

theorem auth_answers:
  assumes "auth_cache_env al itL itU itQ" "empty_cache al itL itU itQ s0" "auth_reach wc al s0 s"
    and "am_Ticker s \<le> now" "480000 \<le> now" "AuthCache_OnTick al now s = Some (out, t)"
  shows "\<forall>src A. (src, Some A) \<in> set out \<longrightarrow> Ready A"
proof -
  have "sound (cache_view al itL itU itQ s)" using auth_cache_env.reach_ok [OF assms(1,3,2)] by simp
  moreover from auth_cache_env.tick_ok [OF assms(1) this assms(4,5)] assms(6)
  have "ticked now out (cache_view al itL itU itQ s) (cache_view al itL itU itQ t)"
    by (metis option.sel prod.inject)
  ultimately show ?thesis using ticked_ready by blast
qed

theorem auth_answers_witness:
  "\<exists>out t A. AuthCache_OnTick ref_auth_lib 500100 demo_auth2 = Some (out, t) \<and> (7, Some A) \<in> set out \<and> Ready A"
proof -
  let ?v = "cache_view ref_auth_lib (\<lambda>l. l) (\<lambda>l. l) (\<lambda>l. l) demo_auth2"
  have d: "am_Ticker demo_auth2 = 500000" "a_reqs ?v 1 \<noteq> None" "a_queue ?v DispatchResultList = [1]"
    "fst (answer (?v\<lparr>a_nodes := kept 500100 ?v\<rparr>) 1) = 7" "snd (answer (?v\<lparr>a_nodes := kept 500100 ?v\<rparr>) 1) \<noteq> None"
    by code_simp+
  have le: "(500000 :: u64) \<le> 500100" "(480000 :: u64) \<le> 500100" by simp_all
  have ok: "sound ?v" using ref_auth.reach_ok [OF demo_auth2_reach demo_auth_empty] by simp
  obtain out t where t: "AuthCache_OnTick ref_auth_lib 500100 demo_auth2 = Some (out, t)"
    "ticked 500100 out ?v (cache_view ref_auth_lib (\<lambda>l. l) (\<lambda>l. l) (\<lambda>l. l) t)"
    using ref_auth.tick_ok [OF ok, of 500100] unfolding d(1) by (metis le)
  have "1 \<notin> set (a_queue ?v (RequestListOf i))" for i
    using reqs_okD(3) [of ?v 1 "RequestListOf i" DispatchResultList] ok d(3) by (auto simp: sound_def cache_ok_def)
  then have "answer (?v\<lparr>a_nodes := kept 500100 ?v\<rparr>) 1 \<in> set out" using t(2) d(2) unfolding ticked_def by force
  moreover obtain A where "snd (answer (?v\<lparr>a_nodes := kept 500100 ?v\<rparr>) 1) = Some A" using d(5) by blast
  with d(4) have "answer (?v\<lparr>a_nodes := kept 500100 ?v\<rparr>) 1 = (7, Some A)" by (simp add: prod_eq_iff)
  ultimately have A: "(7, Some A) \<in> set out" by simp
  from auth_answers [OF ref_auth.auth_cache_env_axioms demo_auth_empty demo_auth2_reach _ _ t(1)] d(1) A
  have "Ready A" by simp
  with t A show ?thesis by blast
qed

lemma no_colon_no_auth: "find_byte 58 UP = None \<Longrightarrow> RequestAuth al Src UP s = (False, [], s)"
  by (simp add: RequestAuth_def valid_user_pass_def)

text \<open>
  The text the client side sends for a client that is known by its address only, \<^verbatim>\<open>IpToString\<close> of an
  IPv4 address, has no colon, and is refused; of an IPv6 address it is split at its first colon.
\<close>

lemma address_auth:
  "\<not> valid_user_pass (bytes_of ''10.1.2.3'')" "valid_user_pass (bytes_of ''2001:db8::1'')"
  by code_simp+

end
