(* ===== verification/LinkLists.thy ===== *)
theory LinkLists
  imports Prelude
begin

text \<open>
  What the two connection managers of the device relay server have in common: a connection is on
  exactly one of three lists, the one of new connections, the one of idle connections or the one of
  those to be closed; the first two are in the order of their times, so that a tick finds those that
  are late at the head. \<open>link_manager\<close> states what a manager's loops and operations do to this picture;
  the invariant and the effect of a tick are proved from it once.
\<close>

subsection \<open>Three lists\<close>

record links =
  l_now :: u64
  l_time :: "u64 \<Rightarrow> u64 option"
  l_marked :: "u64 set"
  l_young :: "u64 list"
  l_idle :: "u64 list"
  l_doomed :: "u64 list"

definition on_time :: "links \<Rightarrow> u64 \<Rightarrow> u64 \<Rightarrow> bool" where
  "on_time v T i \<longleftrightarrow> (case l_time v i of Some t \<Rightarrow> t \<le> T | None \<Rightarrow> False)"

definition in_order :: "links \<Rightarrow> u64 list \<Rightarrow> bool" where
  "in_order v l \<longleftrightarrow> sorted (map (\<lambda>i. case l_time v i of Some t \<Rightarrow> t | None \<Rightarrow> 0) l)"

definition parted :: "links \<Rightarrow> bool" where
  "parted v \<longleftrightarrow> distinct (l_young v @ l_idle v @ l_doomed v) \<and>
     set (l_young v @ l_idle v @ l_doomed v) = dom (l_time v) \<and>
     in_order v (l_young v) \<and> in_order v (l_idle v)"

definition links_ok :: "links \<Rightarrow> bool" where
  "links_ok v \<longleftrightarrow> parted v \<and> (\<forall>i t. l_time v i = Some t \<longrightarrow> t \<le> l_now v) \<and> l_marked v = set (l_doomed v)"

definition l_accept :: "u64 \<Rightarrow> links \<Rightarrow> links" where
  "l_accept i v = v\<lparr>l_time := (l_time v)(i \<mapsto> l_now v), l_young := l_young v @ [i]\<rparr>"

definition l_doom :: "u64 \<Rightarrow> links \<Rightarrow> links" where
  "l_doom i v = (if i \<in> l_marked v \<or> l_time v i = None then v
     else v\<lparr>l_marked := insert i (l_marked v), l_young := removeAll i (l_young v),
       l_idle := removeAll i (l_idle v), l_doomed := removeAll i (l_doomed v) @ [i]\<rparr>)"

definition l_keep :: "u64 \<Rightarrow> links \<Rightarrow> links" where
  "l_keep i v = (if i \<in> l_marked v \<or> l_time v i = None then v
     else v\<lparr>l_time := (l_time v)(i \<mapsto> l_now v), l_young := removeAll i (l_young v),
       l_idle := removeAll i (l_idle v) @ [i], l_doomed := removeAll i (l_doomed v)\<rparr>)"

lemma in_order_cong: "(\<And>i. i \<in> set l \<Longrightarrow> l_time w i = l_time v i) \<Longrightarrow> in_order w l \<longleftrightarrow> in_order v l"
  unfolding in_order_def by (simp cong: map_cong)

lemma in_order_removeAll: "in_order v l \<Longrightarrow> in_order v (removeAll i l)"
  by (simp add: in_order_def removeAll_filter_not_eq sorted_filter)

lemma in_order_snoc:
  assumes "in_order v l" "l_time w i = Some T" "\<And>j. j \<in> set l \<Longrightarrow> l_time w j = l_time v j"
    and "\<And>j t. j \<in> set l \<Longrightarrow> l_time v j = Some t \<Longrightarrow> t \<le> T"
  shows "in_order w (l @ [i])"
proof -
  have "in_order w l" using assms(1) in_order_cong [of l w v] assms(3) by blast
  moreover have "(case l_time w j of Some t \<Rightarrow> t | None \<Rightarrow> 0) \<le> T" if "j \<in> set l" for j
    using assms(3,4) [OF that] by (cases "l_time v j") simp_all
  ultimately show ?thesis using assms(2) by (simp add: in_order_def sorted_append)
qed

lemma links_ok_accept:
  assumes ok: "links_ok v" and i: "l_time v i = None"
  shows "links_ok (l_accept i v)"
proof -
  let ?w = "l_accept i v"
  have v: "distinct (l_young v @ l_idle v @ l_doomed v)" "set (l_young v @ l_idle v @ l_doomed v) = dom (l_time v)"
    "in_order v (l_young v)" "in_order v (l_idle v)" "\<And>i t. l_time v i = Some t \<Longrightarrow> t \<le> l_now v" "l_marked v = set (l_doomed v)"
    using ok by (auto simp: links_ok_def parted_def)
  have new: "i \<notin> set (l_young v @ l_idle v @ l_doomed v)" unfolding v(2) using i by (simp add: domIff)
  have w: "l_time ?w = (l_time v)(i \<mapsto> l_now v)" "l_young ?w = l_young v @ [i]" "l_idle ?w = l_idle v"
    "l_doomed ?w = l_doomed v" "l_marked ?w = l_marked v" "l_now ?w = l_now v"
    by (simp_all add: l_accept_def)
  have old: "l_time ?w j = l_time v j" if "j \<in> set (l_young v @ l_idle v @ l_doomed v)" for j
    using that new by (auto simp: w(1))
  have "in_order ?w (l_young ?w)" unfolding w(2)
    by (rule in_order_snoc [OF v(3)]) (use old v(5) in \<open>simp_all add: w(1)\<close>)
  moreover have "in_order ?w (l_idle ?w)" using v(4) in_order_cong [of "l_idle v" ?w v] old by (simp add: w(3))
  moreover have "distinct (l_young ?w @ l_idle ?w @ l_doomed ?w)" using v(1) new by (auto simp: w)
  moreover have "set (l_young ?w @ l_idle ?w @ l_doomed ?w) = dom (l_time ?w)" using v(2) by (auto simp: w)
  ultimately show ?thesis using v(5,6) by (simp add: links_ok_def parted_def w(1,4-6))
qed

lemma links_ok_doom:
  assumes ok: "links_ok v"
  shows "links_ok (l_doom i v)"
proof (cases "i \<in> l_marked v \<or> l_time v i = None")
  case True
  with ok show ?thesis by (simp add: l_doom_def)
next
  case False
  then have n: "(i \<in> l_marked v \<or> l_time v i = None) = False" by simp
  let ?w = "l_doom i v"
  have v: "distinct (l_young v @ l_idle v @ l_doomed v)" "set (l_young v @ l_idle v @ l_doomed v) = dom (l_time v)"
    "in_order v (l_young v)" "in_order v (l_idle v)" "\<And>i t. l_time v i = Some t \<Longrightarrow> t \<le> l_now v" "l_marked v = set (l_doomed v)"
    using ok by (auto simp: links_ok_def parted_def)
  have w: "l_time ?w = l_time v" "l_young ?w = removeAll i (l_young v)" "l_idle ?w = removeAll i (l_idle v)"
    "l_doomed ?w = removeAll i (l_doomed v) @ [i]" "l_marked ?w = insert i (l_marked v)" "l_now ?w = l_now v"
    by (simp_all add: l_doom_def n)
  have same: "in_order ?w l \<longleftrightarrow> in_order v l" for l by (rule in_order_cong) (simp add: w(1))
  have "i \<in> dom (l_time v)" using False by blast
  then have "set (l_young ?w @ l_idle ?w @ l_doomed ?w) = dom (l_time ?w)" using v(2) by (auto simp: w)
  moreover have "distinct (l_young ?w @ l_idle ?w @ l_doomed ?w)" using v(1) by (auto simp: w distinct_removeAll)
  moreover have "l_marked ?w = set (l_doomed ?w)" using v(6) by (auto simp: w)
  ultimately show ?thesis using v(3-5) by (simp add: links_ok_def parted_def same w(1,2,3,6) in_order_removeAll)
qed

lemma links_ok_keep:
  assumes ok: "links_ok v"
  shows "links_ok (l_keep i v)"
proof (cases "i \<in> l_marked v \<or> l_time v i = None")
  case True
  with ok show ?thesis by (simp add: l_keep_def)
next
  case False
  then have n: "(i \<in> l_marked v \<or> l_time v i = None) = False" by simp
  let ?w = "l_keep i v"
  have v: "distinct (l_young v @ l_idle v @ l_doomed v)" "set (l_young v @ l_idle v @ l_doomed v) = dom (l_time v)"
    "in_order v (l_young v)" "in_order v (l_idle v)" "\<And>i t. l_time v i = Some t \<Longrightarrow> t \<le> l_now v" "l_marked v = set (l_doomed v)"
    using ok by (auto simp: links_ok_def parted_def)
  have w: "l_time ?w = (l_time v)(i \<mapsto> l_now v)" "l_young ?w = removeAll i (l_young v)"
    "l_idle ?w = removeAll i (l_idle v) @ [i]" "l_doomed ?w = removeAll i (l_doomed v)" "l_marked ?w = l_marked v"
    "l_now ?w = l_now v"
    by (simp_all add: l_keep_def n)
  have "in_order ?w (l_idle ?w)" unfolding w(3)
    by (rule in_order_snoc [OF in_order_removeAll [OF v(4)]]) (use v(5) in \<open>auto simp: w(1)\<close>)
  moreover have "in_order ?w (l_young ?w)"
    using in_order_removeAll [OF v(3), of i] in_order_cong [of "removeAll i (l_young v)" ?w v] by (simp add: w(1,2))
  moreover have "i \<in> dom (l_time v)" using False by blast
  then have "set (l_young ?w @ l_idle ?w @ l_doomed ?w) = dom (l_time ?w)" using v(2) by (auto simp: w)
  moreover have "distinct (l_young ?w @ l_idle ?w @ l_doomed ?w)" using v(1) by (auto simp: w distinct_removeAll)
  moreover have "i \<notin> set (l_doomed v)" using False v(6) by simp
  ultimately show ?thesis using v(5,6) by (simp add: links_ok_def parted_def w(1,4-6))
qed

lemma links_ok_later:
  assumes "links_ok v" "l_now v \<le> now"
  shows "links_ok (v\<lparr>l_now := now\<rparr>)"
proof -
  have "t \<le> now" if "l_time v i = Some t" for i t
    using assms(1) that order_trans [OF _ assms(2)] by (simp add: links_ok_def)
  then show ?thesis using assms(1) by (simp add: links_ok_def parted_def in_order_def)
qed

subsection \<open>A tick\<close>

text \<open>What a tick keeps: the connections that are neither to be closed nor late.\<close>

definition survives :: "u64 \<Rightarrow> u64 \<Rightarrow> links \<Rightarrow> u64 \<Rightarrow> bool" where
  "survives Ty Ti v i \<longleftrightarrow> \<not> (i \<in> set (l_doomed v) \<or> i \<in> set (l_young v) \<and> on_time v Ty i \<or>
     i \<in> set (l_idle v) \<and> on_time v Ti i)"

text \<open>
  \<open>w\<close> is \<open>v\<close> with connections of the first two lists moved to the third, and the loop with the
  bound \<open>T\<close> over the list \<open>l\<close> is through.
\<close>

definition through :: "links \<Rightarrow> u64 \<Rightarrow> u64 list \<Rightarrow> bool" where
  "through w T l \<longleftrightarrow> (\<forall>i \<in> set l. \<not> on_time w T i)"

definition moved :: "(u64 \<Rightarrow> bool) \<Rightarrow> links \<Rightarrow> links \<Rightarrow> bool" where
  "moved P v w \<longleftrightarrow> parted w \<and> l_now w = l_now v \<and> l_time w = l_time v \<and>
     set (l_young w) \<subseteq> set (l_young v) \<and> set (l_idle w) \<subseteq> set (l_idle v) \<and> set (l_doomed v) \<subseteq> set (l_doomed w) \<and>
     (l_marked v \<subseteq> set (l_doomed v) \<longrightarrow> l_marked w \<subseteq> set (l_doomed w)) \<and>
     (\<forall>i \<in> set (l_doomed w) - set (l_doomed v). P i)"

lemma in_order_through:
  assumes "in_order w l" "set l \<subseteq> dom (l_time w)" "l = [] \<or> \<not> on_time w T (hd l)"
  shows "through w T l"
proof (cases l)
  case (Cons j k)
  obtain t where t: "l_time w j = Some t" using assms(2) Cons by auto
  have "T < u" if "i \<in> set l" "l_time w i = Some u" for i u
  proof -
    have "t \<le> u" using assms(1) that t Cons by (auto simp: in_order_def)
    moreover have "T < t" using assms(3) Cons t by (simp add: on_time_def)
    ultimately show ?thesis by simp
  qed
  then have "\<not> u \<le> T" if "i \<in> set l" "l_time w i = Some u" for i u using that by (simp add: not_le)
  then show ?thesis unfolding through_def on_time_def by (simp split: option.split)
qed (simp add: through_def)

lemma parted_dom:
  assumes "parted v"
  shows "set (l_young v) \<subseteq> dom (l_time v)" "set (l_idle v) \<subseteq> dom (l_time v)"
    "set (l_doomed v) \<subseteq> dom (l_time v)"
proof -
  have "set (l_young v) \<union> (set (l_idle v) \<union> set (l_doomed v)) = dom (l_time v)" using assms by (simp add: parted_def)
  then show "set (l_young v) \<subseteq> dom (l_time v)" "set (l_idle v) \<subseteq> dom (l_time v)"
    "set (l_doomed v) \<subseteq> dom (l_time v)" by blast+
qed

lemma moved_trans: "moved P v w \<Longrightarrow> moved Q w x \<Longrightarrow> moved (\<lambda>i. P i \<or> Q i) v x"
  unfolding moved_def by auto

locale link_manager =
  fixes V :: "'s \<Rightarrow> links" and good :: "'s \<Rightarrow> bool" and accept :: "u64 \<Rightarrow> 's \<Rightarrow> 's \<Rightarrow> bool"
    and keep doom destroy :: "u64 \<Rightarrow> 's \<Rightarrow> 's"
    and pop_young pop_idle :: "u64 \<Rightarrow> 's \<Rightarrow> (u64 \<times> 's) option" and pop_doomed :: "'s \<Rightarrow> (u64 \<times> 's) option"
    and late :: "u64 \<Rightarrow> 's \<Rightarrow> 's"
  assumes accept: "parted (V s) \<Longrightarrow> good s \<Longrightarrow> accept i s s' \<Longrightarrow>
      l_time (V s) i = None \<and> V s' = l_accept i (V s) \<and> good s'"
    and doom: "V (doom i s) = l_doom i (V s)"
    and keep: "V (keep i s) = l_keep i (V s) \<or> V (keep i s) = V s"
    and good_ops: "good s \<Longrightarrow> good (doom i s)" "good s \<Longrightarrow> good (keep i s)"
    and good_pops: "good s \<Longrightarrow> pop_young T s = Some (i, s') \<Longrightarrow> good (late i s')"
      "good s \<Longrightarrow> pop_idle T s = Some (i, s') \<Longrightarrow> good (late i s')"
      "good s \<Longrightarrow> pop_doomed s = Some (i, s') \<Longrightarrow> good (destroy i s')"
    and young_None: "pop_young T s = None \<Longrightarrow> l_young (V s) = [] \<or> \<not> on_time (V s) T (hd (l_young (V s)))"
    and idle_None: "pop_idle T s = None \<Longrightarrow> l_idle (V s) = [] \<or> \<not> on_time (V s) T (hd (l_idle (V s)))"
    and doomed_None: "pop_doomed s = None \<Longrightarrow> l_doomed (V s) = []"
    and young_Some: "parted (V s) \<Longrightarrow> l_marked (V s) \<subseteq> set (l_doomed (V s)) \<Longrightarrow> pop_young T s = Some (i, s') \<Longrightarrow> on_time (V s) T i \<and>
      (\<exists>m \<subseteq> insert i (l_marked (V s)). l_young (V s) = i # tl (l_young (V s)) \<and>
        V (late i s') = (V s)\<lparr>l_young := tl (l_young (V s)), l_doomed := l_doomed (V s) @ [i], l_marked := m\<rparr>)"
    and idle_Some: "parted (V s) \<Longrightarrow> l_marked (V s) \<subseteq> set (l_doomed (V s)) \<Longrightarrow> pop_idle T s = Some (i, s') \<Longrightarrow> on_time (V s) T i \<and>
      (\<exists>m \<subseteq> insert i (l_marked (V s)). l_idle (V s) = i # tl (l_idle (V s)) \<and>
        V (late i s') = (V s)\<lparr>l_idle := tl (l_idle (V s)), l_doomed := l_doomed (V s) @ [i], l_marked := m\<rparr>)"
    and doomed_Some: "parted (V s) \<Longrightarrow> good s \<Longrightarrow> pop_doomed s = Some (i, s') \<Longrightarrow>
      l_doomed (V s) = i # tl (l_doomed (V s)) \<and>
        V (destroy i s') = (V s)\<lparr>l_doomed := tl (l_doomed (V s)), l_time := (l_time (V s))(i := None),
          l_marked := l_marked (V s) - {i}\<rparr>"
begin

lemma accept_ok: "links_ok (V s) \<Longrightarrow> good s \<Longrightarrow> accept i s s' \<Longrightarrow> links_ok (V s') \<and> good s'"
  using accept [of s i s'] links_ok_accept by (simp add: links_ok_def)

lemma doom_ok: "links_ok (V s) \<Longrightarrow> links_ok (V (doom i s))"
  by (simp add: doom links_ok_doom)

lemma keep_ok: "links_ok (V s) \<Longrightarrow> links_ok (V (keep i s))"
  using keep [of i s] links_ok_keep by auto

lemma drain_young:
  assumes "parted (V s)" "good s" "l_marked (V s) \<subseteq> set (l_doomed (V s))"
  shows "\<exists>t. good t \<and> pop_loop (pop_young T) late s = Some t \<and>
    moved (\<lambda>i. i \<in> set (l_young (V s)) \<and> on_time (V s) T i) (V s) (V t) \<and> l_idle (V t) = l_idle (V s) \<and>
    through (V t) T (l_young (V t))"
proof -
  let ?P = "\<lambda>i. i \<in> set (l_young (V s)) \<and> on_time (V s) T i"
  let ?I = "\<lambda>t. good t \<and> moved ?P (V s) (V t) \<and> l_idle (V t) = l_idle (V s)"
  have step: "?I (late i t') \<and> length (l_young (V (late i t'))) < length (l_young (V t))"
    if I: "?I t" and pop: "pop_young T t = Some (i, t')" for t t' i
  proof -
    have p: "parted (V t)" "l_marked (V t) \<subseteq> set (l_doomed (V t))" using I assms(3) by (simp_all add: moved_def)
    obtain m where mk: "m \<subseteq> insert i (l_marked (V t))" and l: "l_young (V t) = i # tl (l_young (V t))" and o: "on_time (V t) T i"
      and v: "V (late i t') = (V t)\<lparr>l_young := tl (l_young (V t)), l_doomed := l_doomed (V t) @ [i], l_marked := m\<rparr>"
      using young_Some [OF p pop] by blast
    obtain ys where ys: "l_young (V t) = i # ys" using l by blast
    have time: "l_time (V t) = l_time (V s)" using I by (simp add: moved_def)
    have same: "in_order ((V t)\<lparr>l_young := ys, l_doomed := d, l_marked := m\<rparr>) = in_order (V t)" for d
      by (simp add: in_order_def fun_eq_iff)
    have "in_order (V t) ys" using p by (simp add: parted_def ys in_order_def)
    then have "parted (V (late i t'))" using p unfolding v ys by (auto simp: parted_def same ys)
    moreover have "?P i" using I o ys by (auto simp: moved_def on_time_def)
    ultimately have "moved ?P (V s) (V (late i t'))" using I mk unfolding v ys by (auto simp: moved_def ys)
    then show ?thesis using I good_pops(1) [OF conjunct1 [OF I] pop] by (simp add: v ys)
  qed
  have "moved ?P (V s) (V s)" using assms by (simp add: moved_def)
  then have "\<exists>t. pop_loop (pop_young T) late s = Some t \<and> ?I t \<and> pop_young T t = None"
    using assms(2)
    by (intro pop_loop_total [where I = ?I and m = "\<lambda>t. length (l_young (V t))", OF _ step [THEN conjunct1] step [THEN conjunct2]]) simp
  then obtain t where t: "pop_loop (pop_young T) late s = Some t" "?I t" "pop_young T t = None" by blast
  have p: "parted (V t)" using t(2) by (simp add: moved_def)
  then have "in_order (V t) (l_young (V t))" by (simp add: parted_def)
  then have "through (V t) T (l_young (V t))" using in_order_through parted_dom(1) [OF p] young_None [OF t(3)] by blast
  with t show ?thesis by blast
qed

lemma drain_idle:
  assumes "parted (V s)" "good s" "l_marked (V s) \<subseteq> set (l_doomed (V s))"
  shows "\<exists>t. good t \<and> pop_loop (pop_idle T) late s = Some t \<and>
    moved (\<lambda>i. i \<in> set (l_idle (V s)) \<and> on_time (V s) T i) (V s) (V t) \<and> l_young (V t) = l_young (V s) \<and>
    through (V t) T (l_idle (V t))"
proof -
  let ?P = "\<lambda>i. i \<in> set (l_idle (V s)) \<and> on_time (V s) T i"
  let ?I = "\<lambda>t. good t \<and> moved ?P (V s) (V t) \<and> l_young (V t) = l_young (V s)"
  have step: "?I (late i t') \<and> length (l_idle (V (late i t'))) < length (l_idle (V t))"
    if I: "?I t" and pop: "pop_idle T t = Some (i, t')" for t t' i
  proof -
    have p: "parted (V t)" "l_marked (V t) \<subseteq> set (l_doomed (V t))" using I assms(3) by (simp_all add: moved_def)
    obtain m where mk: "m \<subseteq> insert i (l_marked (V t))" and l: "l_idle (V t) = i # tl (l_idle (V t))" and o: "on_time (V t) T i"
      and v: "V (late i t') = (V t)\<lparr>l_idle := tl (l_idle (V t)), l_doomed := l_doomed (V t) @ [i], l_marked := m\<rparr>"
      using idle_Some [OF p pop] by blast
    obtain ys where ys: "l_idle (V t) = i # ys" using l by blast
    have time: "l_time (V t) = l_time (V s)" using I by (simp add: moved_def)
    have same: "in_order ((V t)\<lparr>l_idle := ys, l_doomed := d, l_marked := m\<rparr>) = in_order (V t)" for d
      by (simp add: in_order_def fun_eq_iff)
    have "in_order (V t) ys" using p by (simp add: parted_def ys in_order_def)
    then have "parted (V (late i t'))" using p unfolding v ys by (auto simp: parted_def same ys)
    moreover have "?P i" using I o ys by (auto simp: moved_def on_time_def)
    ultimately have "moved ?P (V s) (V (late i t'))" using I mk unfolding v ys by (auto simp: moved_def ys)
    then show ?thesis using I good_pops(2) [OF conjunct1 [OF I] pop] by (simp add: v ys)
  qed
  have "moved ?P (V s) (V s)" using assms by (simp add: moved_def)
  then have "\<exists>t. pop_loop (pop_idle T) late s = Some t \<and> ?I t \<and> pop_idle T t = None"
    using assms(2)
    by (intro pop_loop_total [where I = ?I and m = "\<lambda>t. length (l_idle (V t))", OF _ step [THEN conjunct1] step [THEN conjunct2]]) simp
  then obtain t where t: "pop_loop (pop_idle T) late s = Some t" "?I t" "pop_idle T t = None" by blast
  have p: "parted (V t)" using t(2) by (simp add: moved_def)
  then have "in_order (V t) (l_idle (V t))" by (simp add: parted_def)
  then have "through (V t) T (l_idle (V t))" using in_order_through parted_dom(2) [OF p] idle_None [OF t(3)] by blast
  with t show ?thesis by blast
qed

lemma drain_doomed:
  assumes "parted (V s)" "good s"
  shows "\<exists>t. good t \<and> pop_loop pop_doomed destroy s = Some t \<and> l_now (V t) = l_now (V s) \<and>
    l_young (V t) = l_young (V s) \<and> l_idle (V t) = l_idle (V s) \<and> l_doomed (V t) = [] \<and>
    l_marked (V t) = l_marked (V s) - set (l_doomed (V s)) \<and> l_time (V t) = l_time (V s) |` (- set (l_doomed (V s)))"
proof -
  let ?I = "\<lambda>t. good t \<and> parted (V t) \<and> l_now (V t) = l_now (V s) \<and> l_young (V t) = l_young (V s) \<and>
    l_idle (V t) = l_idle (V s) \<and> (\<exists>d. l_doomed (V s) = d @ l_doomed (V t) \<and>
      l_marked (V t) = l_marked (V s) - set d \<and> l_time (V t) = l_time (V s) |` (- set d))"
  have step: "?I (destroy i t') \<and> length (l_doomed (V (destroy i t'))) < length (l_doomed (V t))"
    if I: "?I t" and pop: "pop_doomed t = Some (i, t')" for t t' i
  proof -
    have p: "parted (V t)" and g: "good t" using I by simp_all
    obtain ys where ys: "l_doomed (V t) = i # ys" using doomed_Some [OF p g pop] by blast
    have v: "V (destroy i t') = (V t)\<lparr>l_doomed := ys, l_time := (l_time (V t))(i := None), l_marked := l_marked (V t) - {i}\<rparr>"
      using doomed_Some [OF p g pop] ys by simp
    have i: "i \<notin> set (l_young (V t))" "i \<notin> set (l_idle (V t))" "i \<notin> set ys"
      using p by (auto simp: parted_def ys)
    obtain d where d: "l_doomed (V s) = d @ l_doomed (V t)" "l_marked (V t) = l_marked (V s) - set d"
      "l_time (V t) = l_time (V s) |` (- set d)" using I by blast
    have "in_order (V (destroy i t')) l \<longleftrightarrow> in_order (V t) l" if "i \<notin> set l" for l
      by (rule in_order_cong) (use that in \<open>auto simp: v\<close>)
    then have "in_order (V (destroy i t')) (l_young (V t))" "in_order (V (destroy i t')) (l_idle (V t))"
      using p i(1,2) by (simp_all add: parted_def)
    moreover have "set (l_young (V t) @ l_idle (V t) @ ys) = dom (l_time (V t)) - {i}"
      using p i by (auto simp: parted_def ys)
    ultimately have "parted (V (destroy i t'))" using p by (simp add: parted_def v ys)
    moreover have "l_doomed (V s) = (d @ [i]) @ l_doomed (V (destroy i t'))" by (simp add: d(1) v ys)
    moreover have "l_marked (V (destroy i t')) = l_marked (V s) - set (d @ [i])" by (auto simp: v d(2))
    moreover have "l_time (V (destroy i t')) = l_time (V s) |` (- set (d @ [i]))"
      by (simp add: v d(3) fun_eq_iff restrict_map_def)
    ultimately show ?thesis using I good_pops(3) [OF g pop] by (auto simp: v ys)
  qed
  have "?I s" using assms by (auto simp: restrict_map_def intro!: exI [of _ "[]"])
  then have "\<exists>t. pop_loop pop_doomed destroy s = Some t \<and> ?I t \<and> pop_doomed t = None"
    by (intro pop_loop_total [where I = ?I and m = "\<lambda>t. length (l_doomed (V t))", OF _ step [THEN conjunct1] step [THEN conjunct2]])
  then obtain t where t: "pop_loop pop_doomed destroy s = Some t" "?I t" "pop_doomed t = None" by blast
  with doomed_None [OF t(3)] show ?thesis by auto
qed

lemma tick:
  assumes ok: "links_ok (V s)" and g: "good s"
  shows "\<exists>t. good t \<and> Option.bind (pop_loop (pop_young Ty) late s)
      (\<lambda>s1. Option.bind (pop_loop (pop_idle Ti) late s1) (pop_loop pop_doomed destroy)) = Some t \<and>
    links_ok (V t) \<and> l_now (V t) = l_now (V s) \<and>
    l_time (V t) = (\<lambda>i. if survives Ty Ti (V s) i then l_time (V s) i else None)"
proof -
  have p: "parted (V s)" and mk: "l_marked (V s) \<subseteq> set (l_doomed (V s))" using ok by (simp_all add: links_ok_def)
  obtain s1 where g1: "good s1" and s1: "pop_loop (pop_young Ty) late s = Some s1"
    "moved (\<lambda>i. i \<in> set (l_young (V s)) \<and> on_time (V s) Ty i) (V s) (V s1)" "l_idle (V s1) = l_idle (V s)"
    "through (V s1) Ty (l_young (V s1))"
    using drain_young [OF p g mk] by blast
  have p1: "parted (V s1)" and mk1: "l_marked (V s1) \<subseteq> set (l_doomed (V s1))"
    using s1(2) mk by (simp_all add: moved_def)
  obtain s2 where g2: "good s2" and s2: "pop_loop (pop_idle Ti) late s1 = Some s2"
    "moved (\<lambda>i. i \<in> set (l_idle (V s1)) \<and> on_time (V s1) Ti i) (V s1) (V s2)" "l_young (V s2) = l_young (V s1)"
    "through (V s2) Ti (l_idle (V s2))"
    using drain_idle [OF p1 g1 mk1] by blast
  have p2: "parted (V s2)" using s2(2) by (simp add: moved_def)
  obtain t where gt: "good t" and t: "pop_loop pop_doomed destroy s2 = Some t" "l_now (V t) = l_now (V s2)" "l_young (V t) = l_young (V s2)"
    "l_idle (V t) = l_idle (V s2)" "l_doomed (V t) = []" "l_marked (V t) = l_marked (V s2) - set (l_doomed (V s2))"
    "l_time (V t) = l_time (V s2) |` (- set (l_doomed (V s2)))"
    using drain_doomed [OF p2 g2] by blast
  note m = moved_trans [OF s1(2) s2(2)]
  have time: "l_time (V s1) = l_time (V s)" "l_time (V s2) = l_time (V s)" "l_now (V s2) = l_now (V s)"
    using s1(2) m by (simp_all add: moved_def)
  have ot: "on_time (V s1) T i = on_time (V s) T i" "on_time (V s2) T i = on_time (V s) T i" for T i
    using time by (simp_all add: on_time_def)
  have disj: "set (l_young (V s)) \<inter> set (l_idle (V s)) = {}" using p by (auto simp: parted_def)
  have all2: "i \<in> set (l_young (V s2)) \<or> i \<in> set (l_idle (V s2)) \<or> i \<in> set (l_doomed (V s2))" if "i \<in> dom (l_time (V s))" for i
    using p2 that time(2) unfolding parted_def by auto
  have sub: "set (l_young (V s2)) \<subseteq> set (l_young (V s))" "set (l_idle (V s2)) \<subseteq> set (l_idle (V s))"
    "set (l_doomed (V s)) \<subseteq> set (l_doomed (V s2))" using m by (simp_all add: moved_def)
  have gone: "i \<in> set (l_doomed (V s2)) \<longleftrightarrow> i \<in> dom (l_time (V s)) \<and> \<not> survives Ty Ti (V s) i" for i
  proof
    assume i: "i \<in> set (l_doomed (V s2))"
    have "i \<in> dom (l_time (V s))" using parted_dom(3) [OF p2] i time(2) by auto
    moreover have "i \<in> set (l_doomed (V s)) \<or> i \<in> set (l_young (V s)) \<and> on_time (V s) Ty i \<or>
        i \<in> set (l_idle (V s)) \<and> on_time (V s) Ti i"
      using m i unfolding moved_def s1(3) ot(1) by blast
    ultimately show "i \<in> dom (l_time (V s)) \<and> \<not> survives Ty Ti (V s) i" by (simp add: survives_def)
  next
    assume i: "i \<in> dom (l_time (V s)) \<and> \<not> survives Ty Ti (V s) i"
    show "i \<in> set (l_doomed (V s2))"
    proof (rule ccontr)
      assume n: "i \<notin> set (l_doomed (V s2))"
      then have "i \<notin> set (l_doomed (V s))" using sub(3) by blast
      moreover have "\<not> on_time (V s) Ty i" if "i \<in> set (l_young (V s))"
        using all2 [of i] i n that sub disj s1(4) s2(3) ot(1) unfolding through_def by auto
      moreover have "\<not> on_time (V s) Ti i" if "i \<in> set (l_idle (V s))"
        using all2 [of i] i n that sub disj s2(4) ot(2) unfolding through_def by auto
      ultimately show False using i by (auto simp: survives_def)
    qed
  qed
  have times: "l_time (V t) = (\<lambda>i. if survives Ty Ti (V s) i then l_time (V s) i else None)"
    using gone by (auto simp: t(7) time(2) restrict_map_def fun_eq_iff)
  have keep: "l_time (V t) i = l_time (V s) i" if "i \<in> set (l_young (V s2)) \<union> set (l_idle (V s2))" for i
    using that p2 by (auto simp: t(7) time(2) restrict_map_def parted_def)
  have "in_order (V t) (l_young (V t))" "in_order (V t) (l_idle (V t))"
    using p2 in_order_cong [of "l_young (V s2)" "V t" "V s2"] in_order_cong [of "l_idle (V s2)" "V t" "V s2"] keep time(2)
    unfolding t(3,4) by (simp_all add: parted_def)
  moreover have "distinct (l_young (V t) @ l_idle (V t) @ l_doomed (V t))" using p2 by (auto simp: t(3-5) parted_def)
  moreover have "set (l_young (V t) @ l_idle (V t) @ l_doomed (V t)) = dom (l_time (V t))"
    using p2 by (auto simp: t(3-5,7) parted_def)
  ultimately have pt: "parted (V t)" by (simp add: parted_def)
  have now: "l_time (V t) i = Some u \<Longrightarrow> u \<le> l_now (V t)" for i u
    using ok by (auto simp: times t(2) time(3) links_ok_def split: if_splits)
  have "l_marked (V s2) \<subseteq> set (l_doomed (V s2))" using m ok by (auto simp: moved_def links_ok_def)
  then have "l_marked (V t) = {}" by (auto simp: t(6))
  with pt now have "links_ok (V t)" by (simp add: links_ok_def t(5))
  then show ?thesis using gt s1(1) s2(1) t(1,2) times time(3) by simp
qed

end

end
