(* ===== verification/DeviceRelay.thy ===== *)
theory DeviceRelay
  imports RelayMessages ServiceMessages Commands XelReference
begin

text \<open>
  The device relay server, \<^verbatim>\<open>src/cpp/src_app/server_relay_device\<close>. Devices keep a control and a data
  connection to it, proxy access servers one connection each; a relay context ties a client
  connection of a proxy server to a device. The state is that of the four managers
  (\<^verbatim>\<open>device_connection_manager\<close>, \<^verbatim>\<open>proxy_connection_manager\<close>, \<^verbatim>\<open>device_manager\<close>,
  \<^verbatim>\<open>relay_connection_manager\<close>); the handlers are those of \<^verbatim>\<open>relay_service.cpp\<close> and its \<^verbatim>\<open>_ctrl\<close>,
  \<^verbatim>\<open>_data\<close> and \<^verbatim>\<open>_proxy\<close> parts.

  A connection object lives from its \<^verbatim>\<open>Acquire\<close> to its release, so a pointer to it is its id, and a
  read through a pointer whose id the pool does not know is a read of freed memory.
\<close>

subsection \<open>State\<close>

datatype rd_fault = FreedConnection | NullPointer | AssertionFailed | OutOfBounds

type_synonym 'b outcome = "rd_fault + 'b"

definition and_then :: "'b outcome \<Rightarrow> ('b \<Rightarrow> 'c outcome) \<Rightarrow> 'c outcome" where
  "and_then x f = (case x of Inl e \<Rightarrow> Inl e | Inr y \<Rightarrow> f y)"

lemma and_then_simps [simp]: "and_then (Inl e) f = Inl e" "and_then (Inr y) f = f y"
  by (simp_all add: and_then_def)

definition FLAG_TYPE_MASK :: u64 where "FLAG_TYPE_MASK = 0x00FF"
definition FLAG_CTRL :: u64 where "FLAG_CTRL = 0x01"
definition FLAG_DATA :: u64 where "FLAG_DATA = 0x02"
definition FLAG_PROXY_CLIENT :: u64 where "FLAG_PROXY_CLIENT = 0x04"
definition FLAG_MARK_DELETE :: u64 where "FLAG_MARK_DELETE = 0x0100"
definition FLAG_DELETE :: u32 where "FLAG_DELETE = 0x80"

record xRD_DeviceConnection =
  ConnectionId :: u64
  Flags :: u64
  IdleTimestamMS :: u64
  DeviceId :: u64

record xRD_ProxyConnection =
  ConnectionId :: u64
  Flags :: u64
  IdleTimestamMS :: u64
  ChallengeReady :: bool

record xGeoInfo =
  CountryId :: u32
  StateId :: u32
  CityId :: u32

record xDevice =
  DeviceRuntimeId :: u64
  Flags :: u32
  CtrlConnection :: "u64 option"
  DataConnection :: "u64 option"
  DeviceLocalIdString :: bytes
  GeoInfo :: xGeoInfo

text \<open>\<open>PortOrDeviceSide\<close> is the union of \<^verbatim>\<open>TargetPort\<close> (its low 16 bits) and \<^verbatim>\<open>DeviceSideConnectionId\<close>.\<close>

record xRD_RelayConnectionContext =
  PortOrDeviceSide :: u64
  RelaySideConnectionId :: u64
  ProxySideConnectionId :: u64
  DeviceId :: u64
  ProxyConnectionId :: u64

definition TargetPort :: "xRD_RelayConnectionContext \<Rightarrow> u16" where
  "TargetPort c = ucast (PortOrDeviceSide c)"

definition set_TargetPort :: "u16 \<Rightarrow> xRD_RelayConnectionContext \<Rightarrow> xRD_RelayConnectionContext" where
  "set_TargetPort p c = c\<lparr>PortOrDeviceSide := push_bit 16 (drop_bit 16 (PortOrDeviceSide c)) + ucast p\<rparr>"

definition fresh_device_conn :: xRD_DeviceConnection where
  "fresh_device_conn = \<lparr>xRD_DeviceConnection.ConnectionId = 0, xRD_DeviceConnection.Flags = 0,
     xRD_DeviceConnection.IdleTimestamMS = 0, xRD_DeviceConnection.DeviceId = 0\<rparr>"

definition fresh_proxy_conn :: xRD_ProxyConnection where
  "fresh_proxy_conn = \<lparr>xRD_ProxyConnection.ConnectionId = 0, xRD_ProxyConnection.Flags = 0,
     xRD_ProxyConnection.IdleTimestamMS = 0, ChallengeReady = False\<rparr>"

definition fresh_device :: xDevice where
  "fresh_device = \<lparr>DeviceRuntimeId = 0, xDevice.Flags = 0, CtrlConnection = None, DataConnection = None,
     xDevice.DeviceLocalIdString = [],
     GeoInfo = \<lparr>xGeoInfo.CountryId = 0, xGeoInfo.StateId = 0, xGeoInfo.CityId = 0\<rparr>\<rparr>"

datatype device_list = NewConnectionList | IdleConnectionList | SlowKillConnectionList | KillConnectionList
datatype proxy_list = ChallengeConnectionList | IdleProxyList | KillProxyList

record ('c, 'cl, 'p, 'pl, 'd, 'dl, 'r, 'a) rd_lib =
  rl_dconns :: "('c, xRD_DeviceConnection) storage_ops"
  rl_dlists :: "('cl, device_list, u64) list_ops"
  rl_pconns :: "('p, xRD_ProxyConnection) storage_ops"
  rl_plists :: "('pl, proxy_list, u64) list_ops"
  rl_devices :: "('d, xDevice) storage_ops"
  rl_dkill :: "('dl, unit, u64) list_ops"
  rl_relays :: "('r, xRD_RelayConnectionContext) storage_ops"
  rl_wire :: "'a wire"
  rl_fits :: "bytes \<Rightarrow> bool" \<comment> \<open>the message fits the packet buffer of \<^verbatim>\<open>PostMessage\<close>\<close>
  rl_split :: "bytes \<Rightarrow> bytes list" \<comment> \<open>\<^verbatim>\<open>Split(s, ":")\<close>\<close>
  rl_hex :: "bytes \<Rightarrow> bytes" \<comment> \<open>\<^verbatim>\<open>HexToStr\<close>\<close>
  rl_r4 :: "bytes \<Rightarrow> u32" \<comment> \<open>\<^verbatim>\<open>xStreamReader::R4\<close> on four bytes\<close>
  ad_set :: "'a \<Rightarrow> bool" \<comment> \<open>\<^verbatim>\<open>operator bool\<close> of an address\<close>
  ad_sa4 :: "'a \<Rightarrow> byte" \<comment> \<open>\<^verbatim>\<open>SA4[0]\<close>\<close>
  ad_sa6 :: "'a \<Rightarrow> byte"
  ad_port :: "u16 \<Rightarrow> 'a \<Rightarrow> 'a"
  ad_none :: 'a
  rl_ServerRuntimeId :: u64

record ('c, 'cl, 'p, 'pl, 'd, 'dl, 'r) relay_server =
  DeviceTicker :: u64
  DeviceConns :: 'c
  DeviceLists :: 'cl
  ProxyTicker :: u64
  ProxyConns :: 'p
  ProxyLists :: 'pl
  DevicePool :: 'd
  DeviceKillList :: 'dl
  ContextPool :: 'r

datatype rd_output =
    ToDevice u64 u32 u64 bytes
  | ToProxy u64 u32 u64 bytes
  | ToReporter u32 u64 bytes
  | AnswerKeepAlive

type_synonym 'b handled = "(bool \<times> rd_output list \<times> 'b) outcome"

subsection \<open>Device connections\<close>

definition dconn ::
    "('c, 'cl, 'p, 'pl, 'd, 'dl, 'r, 'a) rd_lib \<Rightarrow> ('c, 'cl, 'p, 'pl, 'd, 'dl, 'r) relay_server \<Rightarrow>
     u64 \<Rightarrow> xRD_DeviceConnection option" where
  "dconn L s i = st_get (rl_dconns L) (DeviceConns s) i"

definition write_dconn ::
    "('c, 'cl, 'p, 'pl, 'd, 'dl, 'r, 'a) rd_lib \<Rightarrow> u64 \<Rightarrow> (xRD_DeviceConnection \<Rightarrow> xRD_DeviceConnection) \<Rightarrow>
     ('c, 'cl, 'p, 'pl, 'd, 'dl, 'r) relay_server \<Rightarrow> ('c, 'cl, 'p, 'pl, 'd, 'dl, 'r) relay_server" where
  "write_dconn L i f s = (case dconn L s i of None \<Rightarrow> s
     | Some c \<Rightarrow> s\<lparr>DeviceConns := st_put (rl_dconns L) (DeviceConns s) i (f c)\<rparr>)"

definition SetType_Ctrl :: "u64 \<Rightarrow> u64" where "SetType_Ctrl F = or (and F (not FLAG_TYPE_MASK)) FLAG_CTRL"
definition SetType_Data :: "u64 \<Rightarrow> u64" where "SetType_Data F = or (and F (not FLAG_TYPE_MASK)) FLAG_DATA"
definition SetType_ProxyClient :: "u64 \<Rightarrow> u64" where
  "SetType_ProxyClient F = or (and F (not FLAG_TYPE_MASK)) FLAG_PROXY_CLIENT"
definition IsType_Ctrl :: "u64 \<Rightarrow> bool" where "IsType_Ctrl F \<longleftrightarrow> and F FLAG_CTRL \<noteq> 0"
definition IsType_Data :: "u64 \<Rightarrow> bool" where "IsType_Data F \<longleftrightarrow> and F FLAG_DATA \<noteq> 0"
definition IsType_ProxyClient :: "u64 \<Rightarrow> bool" where "IsType_ProxyClient F \<longleftrightarrow> and F FLAG_PROXY_CLIENT \<noteq> 0"
definition Mark_Delete :: "u64 \<Rightarrow> u64" where "Mark_Delete F = or F FLAG_MARK_DELETE"
definition HasMark_Delete :: "u64 \<Rightarrow> bool" where "HasMark_Delete F \<longleftrightarrow> and F FLAG_MARK_DELETE \<noteq> 0"

text \<open>\<open>CreateConnection\<close>; the input \<open>init_ok\<close> is whether \<^verbatim>\<open>Init\<close> of the connection succeeds.\<close>

definition Device_CreateConnection ::
    "('c, 'cl, 'p, 'pl, 'd, 'dl, 'r, 'a) rd_lib \<Rightarrow> bool \<Rightarrow> ('c, 'cl, 'p, 'pl, 'd, 'dl, 'r) relay_server \<Rightarrow>
     u64 option \<times> ('c, 'cl, 'p, 'pl, 'd, 'dl, 'r) relay_server" where
  "Device_CreateConnection L init_ok s =
     (let (Id, p) = st_acquire (rl_dconns L) (DeviceConns s) in
      if Id = 0 then (None, s\<lparr>DeviceConns := p\<rparr>)
      else if \<not> init_ok then (None, s\<lparr>DeviceConns := st_release (rl_dconns L) p Id\<rparr>)
      else (Some Id, s\<lparr>DeviceConns := st_put (rl_dconns L) p Id
              (fresh_device_conn\<lparr>xRD_DeviceConnection.ConnectionId := Id, xRD_DeviceConnection.IdleTimestamMS := DeviceTicker s\<rparr>),
            DeviceLists := li_add_tail (rl_dlists L) (DeviceLists s) NewConnectionList Id\<rparr>))"

definition Device_DeferRelease ::
    "('c, 'cl, 'p, 'pl, 'd, 'dl, 'r, 'a) rd_lib \<Rightarrow> u64 \<Rightarrow> ('c, 'cl, 'p, 'pl, 'd, 'dl, 'r) relay_server \<Rightarrow>
     ('c, 'cl, 'p, 'pl, 'd, 'dl, 'r) relay_server" where
  "Device_DeferRelease L i s = (case dconn L s i of None \<Rightarrow> s
     | Some c \<Rightarrow>
         if HasMark_Delete (xRD_DeviceConnection.Flags c) then s
         else (write_dconn L i (\<lambda>c. c\<lparr>xRD_DeviceConnection.Flags := Mark_Delete (xRD_DeviceConnection.Flags c)\<rparr>) s)
           \<lparr>DeviceLists := li_grab_tail (rl_dlists L) (DeviceLists s) KillConnectionList i\<rparr>)"

definition Device_KeepAlive ::
    "('c, 'cl, 'p, 'pl, 'd, 'dl, 'r, 'a) rd_lib \<Rightarrow> u64 \<Rightarrow> ('c, 'cl, 'p, 'pl, 'd, 'dl, 'r) relay_server \<Rightarrow>
     ('c, 'cl, 'p, 'pl, 'd, 'dl, 'r) relay_server" where
  "Device_KeepAlive L i s = (case dconn L s i of None \<Rightarrow> s
     | Some c \<Rightarrow>
         if HasMark_Delete (xRD_DeviceConnection.Flags c) then s
         else (write_dconn L i (\<lambda>c. c\<lparr>xRD_DeviceConnection.IdleTimestamMS := DeviceTicker s\<rparr>) s)
           \<lparr>DeviceLists := li_grab_tail (rl_dlists L) (DeviceLists s) IdleConnectionList i\<rparr>)"

definition pop_device ::
    "('c, 'cl, 'p, 'pl, 'd, 'dl, 'r, 'a) rd_lib \<Rightarrow> device_list \<Rightarrow> u64 option \<Rightarrow>
     ('c, 'cl, 'p, 'pl, 'd, 'dl, 'r) relay_server \<Rightarrow> (u64 \<times> ('c, 'cl, 'p, 'pl, 'd, 'dl, 'r) relay_server) option" where
  "pop_device L n Timepoint s = map_option (\<lambda>(i, l). (i, s\<lparr>DeviceLists := l\<rparr>))
     (li_pop_head (rl_dlists L) (DeviceLists s) n
       (\<lambda>i. case Timepoint of None \<Rightarrow> True
          | Some T \<Rightarrow> (case dconn L s i of Some c \<Rightarrow> xRD_DeviceConnection.IdleTimestamMS c \<le> T | None \<Rightarrow> False)))"

definition kill_device_conn ::
    "('c, 'cl, 'p, 'pl, 'd, 'dl, 'r, 'a) rd_lib \<Rightarrow> u64 \<Rightarrow> ('c, 'cl, 'p, 'pl, 'd, 'dl, 'r) relay_server \<Rightarrow>
     ('c, 'cl, 'p, 'pl, 'd, 'dl, 'r) relay_server" where
  "kill_device_conn L i s = s\<lparr>DeviceLists := li_grab_tail (rl_dlists L) (DeviceLists s) KillConnectionList i\<rparr>"

text \<open>The destructor takes the object out of its list.\<close>

definition Device_DestroyConnection ::
    "('c, 'cl, 'p, 'pl, 'd, 'dl, 'r, 'a) rd_lib \<Rightarrow> u64 \<Rightarrow> ('c, 'cl, 'p, 'pl, 'd, 'dl, 'r) relay_server \<Rightarrow>
     ('c, 'cl, 'p, 'pl, 'd, 'dl, 'r) relay_server" where
  "Device_DestroyConnection L i s = (case dconn L s i of None \<Rightarrow> s
     | Some c \<Rightarrow> s\<lparr>DeviceConns := st_release (rl_dconns L) (DeviceConns s) (xRD_DeviceConnection.ConnectionId c),
         DeviceLists := li_remove (rl_dlists L) (DeviceLists s) i\<rparr>)"

definition IdleTimeoutMS :: u64 where "IdleTimeoutMS = 120000"

definition RemoveIdleConnections ::
    "('c, 'cl, 'p, 'pl, 'd, 'dl, 'r, 'a) rd_lib \<Rightarrow> ('c, 'cl, 'p, 'pl, 'd, 'dl, 'r) relay_server \<Rightarrow>
     ('c, 'cl, 'p, 'pl, 'd, 'dl, 'r) relay_server option" where
  "RemoveIdleConnections L s =
     Option.bind (pop_loop (pop_device L NewConnectionList (Some (DeviceTicker s - 3000))) (kill_device_conn L) s)
       (\<lambda>s1. Option.bind
          (pop_loop (pop_device L IdleConnectionList (Some (DeviceTicker s - IdleTimeoutMS))) (kill_device_conn L) s1)
          (pop_loop (pop_device L KillConnectionList None) (Device_DestroyConnection L)))"

definition Device_Tick ::
    "('c, 'cl, 'p, 'pl, 'd, 'dl, 'r, 'a) rd_lib \<Rightarrow> u64 \<Rightarrow> ('c, 'cl, 'p, 'pl, 'd, 'dl, 'r) relay_server \<Rightarrow>
     ('c, 'cl, 'p, 'pl, 'd, 'dl, 'r) relay_server option" where
  "Device_Tick L NowMS s = RemoveIdleConnections L (s\<lparr>DeviceTicker := NowMS\<rparr>)"

definition Device_FreeAllConnections ::
    "('c, 'cl, 'p, 'pl, 'd, 'dl, 'r, 'a) rd_lib \<Rightarrow> ('c, 'cl, 'p, 'pl, 'd, 'dl, 'r) relay_server \<Rightarrow>
     ('c, 'cl, 'p, 'pl, 'd, 'dl, 'r) relay_server option" where
  "Device_FreeAllConnections L s =
     (let grab = (\<lambda>n l. li_grab_list_tail (rl_dlists L) l KillConnectionList n) in
      pop_loop (pop_device L KillConnectionList None) (Device_DestroyConnection L)
        (s\<lparr>DeviceLists := grab SlowKillConnectionList (grab IdleConnectionList (grab NewConnectionList (DeviceLists s)))\<rparr>))"

subsection \<open>Proxy connections\<close>

definition pconn ::
    "('c, 'cl, 'p, 'pl, 'd, 'dl, 'r, 'a) rd_lib \<Rightarrow> ('c, 'cl, 'p, 'pl, 'd, 'dl, 'r) relay_server \<Rightarrow>
     u64 \<Rightarrow> xRD_ProxyConnection option" where
  "pconn L s i = st_get (rl_pconns L) (ProxyConns s) i"

definition write_pconn ::
    "('c, 'cl, 'p, 'pl, 'd, 'dl, 'r, 'a) rd_lib \<Rightarrow> u64 \<Rightarrow> (xRD_ProxyConnection \<Rightarrow> xRD_ProxyConnection) \<Rightarrow>
     ('c, 'cl, 'p, 'pl, 'd, 'dl, 'r) relay_server \<Rightarrow> ('c, 'cl, 'p, 'pl, 'd, 'dl, 'r) relay_server" where
  "write_pconn L i f s = (case pconn L s i of None \<Rightarrow> s
     | Some c \<Rightarrow> s\<lparr>ProxyConns := st_put (rl_pconns L) (ProxyConns s) i (f c)\<rparr>)"

definition Proxy_CreateConnection ::
    "('c, 'cl, 'p, 'pl, 'd, 'dl, 'r, 'a) rd_lib \<Rightarrow> bool \<Rightarrow> ('c, 'cl, 'p, 'pl, 'd, 'dl, 'r) relay_server \<Rightarrow>
     u64 option \<times> ('c, 'cl, 'p, 'pl, 'd, 'dl, 'r) relay_server" where
  "Proxy_CreateConnection L init_ok s =
     (let (Id, p) = st_acquire (rl_pconns L) (ProxyConns s) in
      if Id = 0 then (None, s\<lparr>ProxyConns := p\<rparr>)
      else if \<not> init_ok then (None, s\<lparr>ProxyConns := st_release (rl_pconns L) p Id\<rparr>)
      else (Some Id, s\<lparr>ProxyConns := st_put (rl_pconns L) p Id
              (fresh_proxy_conn\<lparr>xRD_ProxyConnection.ConnectionId := Id, xRD_ProxyConnection.IdleTimestamMS := ProxyTicker s\<rparr>),
            ProxyLists := li_add_tail (rl_plists L) (ProxyLists s) ChallengeConnectionList Id\<rparr>))"

definition Proxy_KeepAlive ::
    "('c, 'cl, 'p, 'pl, 'd, 'dl, 'r, 'a) rd_lib \<Rightarrow> u64 \<Rightarrow> ('c, 'cl, 'p, 'pl, 'd, 'dl, 'r) relay_server \<Rightarrow>
     ('c, 'cl, 'p, 'pl, 'd, 'dl, 'r) relay_server" where
  "Proxy_KeepAlive L i s = (case pconn L s i of None \<Rightarrow> s
     | Some c \<Rightarrow>
         if HasMark_Delete (xRD_ProxyConnection.Flags c) then s
         else if \<not> ChallengeReady c then s
         else (write_pconn L i (\<lambda>c. c\<lparr>xRD_ProxyConnection.IdleTimestamMS := ProxyTicker s\<rparr>) s)
           \<lparr>ProxyLists := li_grab_tail (rl_plists L) (ProxyLists s) IdleProxyList i\<rparr>)"

definition Proxy_DeferRelease ::
    "('c, 'cl, 'p, 'pl, 'd, 'dl, 'r, 'a) rd_lib \<Rightarrow> u64 \<Rightarrow> ('c, 'cl, 'p, 'pl, 'd, 'dl, 'r) relay_server \<Rightarrow>
     ('c, 'cl, 'p, 'pl, 'd, 'dl, 'r) relay_server" where
  "Proxy_DeferRelease L i s = (case pconn L s i of None \<Rightarrow> s
     | Some c \<Rightarrow>
         if HasMark_Delete (xRD_ProxyConnection.Flags c) then s
         else (write_pconn L i (\<lambda>c. c\<lparr>xRD_ProxyConnection.Flags := Mark_Delete (xRD_ProxyConnection.Flags c)\<rparr>) s)
           \<lparr>ProxyLists := li_grab_tail (rl_plists L) (ProxyLists s) KillProxyList i\<rparr>)"

definition pop_proxy ::
    "('c, 'cl, 'p, 'pl, 'd, 'dl, 'r, 'a) rd_lib \<Rightarrow> proxy_list \<Rightarrow> u64 option \<Rightarrow>
     ('c, 'cl, 'p, 'pl, 'd, 'dl, 'r) relay_server \<Rightarrow> (u64 \<times> ('c, 'cl, 'p, 'pl, 'd, 'dl, 'r) relay_server) option" where
  "pop_proxy L n Timepoint s = map_option (\<lambda>(i, l). (i, s\<lparr>ProxyLists := l\<rparr>))
     (li_pop_head (rl_plists L) (ProxyLists s) n
       (\<lambda>i. case Timepoint of None \<Rightarrow> True
          | Some T \<Rightarrow> (case pconn L s i of Some c \<Rightarrow> xRD_ProxyConnection.IdleTimestamMS c \<le> T | None \<Rightarrow> False)))"

definition Proxy_DestroyConnection ::
    "('c, 'cl, 'p, 'pl, 'd, 'dl, 'r, 'a) rd_lib \<Rightarrow> u64 \<Rightarrow> ('c, 'cl, 'p, 'pl, 'd, 'dl, 'r) relay_server \<Rightarrow>
     ('c, 'cl, 'p, 'pl, 'd, 'dl, 'r) relay_server" where
  "Proxy_DestroyConnection L i s = (case pconn L s i of None \<Rightarrow> s
     | Some c \<Rightarrow> s\<lparr>ProxyConns := st_release (rl_pconns L) (ProxyConns s) (xRD_ProxyConnection.ConnectionId c),
         ProxyLists := li_remove (rl_plists L) (ProxyLists s) i\<rparr>)"

definition CHALLENGE_TIMEOUT :: u64 where "CHALLENGE_TIMEOUT = 2000"
definition IDLE_TIMEOUT :: u64 where "IDLE_TIMEOUT = 3 * 60000"

definition Proxy_Tick ::
    "('c, 'cl, 'p, 'pl, 'd, 'dl, 'r, 'a) rd_lib \<Rightarrow> u64 \<Rightarrow> ('c, 'cl, 'p, 'pl, 'd, 'dl, 'r) relay_server \<Rightarrow>
     ('c, 'cl, 'p, 'pl, 'd, 'dl, 'r) relay_server option" where
  "Proxy_Tick L NowMS s0 =
     (let s = s0\<lparr>ProxyTicker := NowMS\<rparr> in
      Option.bind (pop_loop (pop_proxy L ChallengeConnectionList (Some (NowMS - CHALLENGE_TIMEOUT))) (Proxy_DeferRelease L) s)
        (\<lambda>s1. Option.bind (pop_loop (pop_proxy L IdleProxyList (Some (NowMS - IDLE_TIMEOUT))) (Proxy_DeferRelease L) s1)
          (pop_loop (pop_proxy L KillProxyList None) (Proxy_DestroyConnection L))))"

definition Proxy_FreeAllConnections ::
    "('c, 'cl, 'p, 'pl, 'd, 'dl, 'r, 'a) rd_lib \<Rightarrow> ('c, 'cl, 'p, 'pl, 'd, 'dl, 'r) relay_server \<Rightarrow>
     ('c, 'cl, 'p, 'pl, 'd, 'dl, 'r) relay_server option" where
  "Proxy_FreeAllConnections L s =
     (let grab = (\<lambda>n l. li_grab_list_tail (rl_plists L) l KillProxyList n) in
      pop_loop (pop_proxy L KillProxyList None) (Proxy_DestroyConnection L)
        (s\<lparr>ProxyLists := grab IdleProxyList (grab ChallengeConnectionList (ProxyLists s))\<rparr>))"

subsection \<open>Devices and relay contexts\<close>

definition device ::
    "('c, 'cl, 'p, 'pl, 'd, 'dl, 'r, 'a) rd_lib \<Rightarrow> ('c, 'cl, 'p, 'pl, 'd, 'dl, 'r) relay_server \<Rightarrow>
     u64 \<Rightarrow> xDevice option" where
  "device L s i = st_get (rl_devices L) (DevicePool s) i"

definition IsBeingDeleted :: "xDevice \<Rightarrow> bool" where
  "IsBeingDeleted D \<longleftrightarrow> and (xDevice.Flags D) FLAG_DELETE \<noteq> 0"

definition GetDeviceById ::
    "('c, 'cl, 'p, 'pl, 'd, 'dl, 'r, 'a) rd_lib \<Rightarrow> ('c, 'cl, 'p, 'pl, 'd, 'dl, 'r) relay_server \<Rightarrow>
     u64 \<Rightarrow> xDevice option" where
  "GetDeviceById L s i = (case device L s i of None \<Rightarrow> None
     | Some D \<Rightarrow> if IsBeingDeleted D then None else Some D)"

definition CreateDevice ::
    "('c, 'cl, 'p, 'pl, 'd, 'dl, 'r, 'a) rd_lib \<Rightarrow> ('c, 'cl, 'p, 'pl, 'd, 'dl, 'r) relay_server \<Rightarrow>
     xDevice option \<times> ('c, 'cl, 'p, 'pl, 'd, 'dl, 'r) relay_server" where
  "CreateDevice L s =
     (let (ContextId, p) = st_acquire (rl_devices L) (DevicePool s) in
      if ContextId = 0 then (None, s\<lparr>DevicePool := p\<rparr>)
      else let D = fresh_device\<lparr>DeviceRuntimeId := ContextId\<rparr> in
        (Some D, s\<lparr>DevicePool := st_put (rl_devices L) p ContextId D\<rparr>))"

definition put_device ::
    "('c, 'cl, 'p, 'pl, 'd, 'dl, 'r, 'a) rd_lib \<Rightarrow> xDevice \<Rightarrow> ('c, 'cl, 'p, 'pl, 'd, 'dl, 'r) relay_server \<Rightarrow>
     ('c, 'cl, 'p, 'pl, 'd, 'dl, 'r) relay_server" where
  "put_device L D s = s\<lparr>DevicePool := st_put (rl_devices L) (DevicePool s) (DeviceRuntimeId D) D\<rparr>"

text \<open>\<^verbatim>\<open>DeferDestroyDevice\<close>; the kill list is emptied only by \<^verbatim>\<open>Clean\<close>.\<close>

definition ReleaseDevice ::
    "('c, 'cl, 'p, 'pl, 'd, 'dl, 'r, 'a) rd_lib \<Rightarrow> xDevice \<Rightarrow> ('c, 'cl, 'p, 'pl, 'd, 'dl, 'r) relay_server \<Rightarrow>
     ('c, 'cl, 'p, 'pl, 'd, 'dl, 'r) relay_server" where
  "ReleaseDevice L D s = (put_device L (D\<lparr>xDevice.Flags := or (xDevice.Flags D) FLAG_DELETE\<rparr>) s)
     \<lparr>DeviceKillList := li_grab_tail (rl_dkill L) (DeviceKillList s) () (DeviceRuntimeId D)\<rparr>"

definition DestroyDevice ::
    "('c, 'cl, 'p, 'pl, 'd, 'dl, 'r, 'a) rd_lib \<Rightarrow> u64 \<Rightarrow> ('c, 'cl, 'p, 'pl, 'd, 'dl, 'r) relay_server \<Rightarrow>
     ('c, 'cl, 'p, 'pl, 'd, 'dl, 'r) relay_server" where
  "DestroyDevice L i s = s\<lparr>DevicePool := st_release (rl_devices L) (DevicePool s) i\<rparr>"

definition CleanDevices ::
    "('c, 'cl, 'p, 'pl, 'd, 'dl, 'r, 'a) rd_lib \<Rightarrow> ('c, 'cl, 'p, 'pl, 'd, 'dl, 'r) relay_server \<Rightarrow>
     ('c, 'cl, 'p, 'pl, 'd, 'dl, 'r) relay_server option" where
  "CleanDevices L = pop_loop
     (\<lambda>s. map_option (\<lambda>(i, l). (i, s\<lparr>DeviceKillList := l\<rparr>)) (li_pop_head (rl_dkill L) (DeviceKillList s) () (\<lambda>_. True)))
     (DestroyDevice L)"

definition ReportDeviceState ::
    "('c, 'cl, 'p, 'pl, 'd, 'dl, 'r, 'a) rd_lib \<Rightarrow> xDevice \<Rightarrow> bool \<Rightarrow> rd_output list" where
  "ReportDeviceState L D Offline =
     [ToReporter Cmd_DSR_DS_DeviceUpdate 0 (ser_xPP_DeviceInfoUpdate (rl_wire L)
       (xPP_DeviceInfoUpdate.make (xDevice.DeviceLocalIdString D) 0 (rl_ServerRuntimeId L) (DeviceRuntimeId D)
          (ad_none L) (ad_none L) 0 (xGeoInfo.CountryId (GeoInfo D)) (xGeoInfo.StateId (GeoInfo D))
          (xGeoInfo.CityId (GeoInfo D)) Offline False False False))]"

definition relay ::
    "('c, 'cl, 'p, 'pl, 'd, 'dl, 'r, 'a) rd_lib \<Rightarrow> ('c, 'cl, 'p, 'pl, 'd, 'dl, 'r) relay_server \<Rightarrow>
     u64 \<Rightarrow> xRD_RelayConnectionContext option" where
  "relay L s i = st_get (rl_relays L) (ContextPool s) i"

definition put_relay ::
    "('c, 'cl, 'p, 'pl, 'd, 'dl, 'r, 'a) rd_lib \<Rightarrow> u64 \<Rightarrow> xRD_RelayConnectionContext \<Rightarrow>
     ('c, 'cl, 'p, 'pl, 'd, 'dl, 'r) relay_server \<Rightarrow> ('c, 'cl, 'p, 'pl, 'd, 'dl, 'r) relay_server" where
  "put_relay L i c s = s\<lparr>ContextPool := st_put (rl_relays L) (ContextPool s) i c\<rparr>"

text \<open>\<^verbatim>\<open>Create\<close>: the other members of a new context are written by the caller.\<close>

definition CreateRelay ::
    "('c, 'cl, 'p, 'pl, 'd, 'dl, 'r, 'a) rd_lib \<Rightarrow> ('c, 'cl, 'p, 'pl, 'd, 'dl, 'r) relay_server \<Rightarrow>
     u64 \<times> ('c, 'cl, 'p, 'pl, 'd, 'dl, 'r) relay_server" where
  "CreateRelay L s =
     (let (Id, p) = st_acquire (rl_relays L) (ContextPool s); s1 = s\<lparr>ContextPool := p\<rparr> in
      if Id = 0 then (0, s1)
      else case relay L s1 Id of None \<Rightarrow> (0, s1)
        | Some c \<Rightarrow> (Id, put_relay L Id (c\<lparr>xRD_RelayConnectionContext.RelaySideConnectionId := Id\<rparr>) s1))"

definition DestroyRelay ::
    "('c, 'cl, 'p, 'pl, 'd, 'dl, 'r, 'a) rd_lib \<Rightarrow> xRD_RelayConnectionContext \<Rightarrow> ('c, 'cl, 'p, 'pl, 'd, 'dl, 'r) relay_server \<Rightarrow>
     ('c, 'cl, 'p, 'pl, 'd, 'dl, 'r) relay_server" where
  "DestroyRelay L c s = (let i = xRD_RelayConnectionContext.RelaySideConnectionId c in
     if relay L s i = None then s else s\<lparr>ContextPool := st_release (rl_relays L) (ContextPool s) i\<rparr>)"

subsection \<open>Messages\<close>

definition post_dev ::
    "('c, 'cl, 'p, 'pl, 'd, 'dl, 'r, 'a) rd_lib \<Rightarrow> u64 option \<Rightarrow> u32 \<Rightarrow> u64 \<Rightarrow> bytes option \<Rightarrow>
     ('c, 'cl, 'p, 'pl, 'd, 'dl, 'r) relay_server \<Rightarrow> rd_output list outcome" where
  "post_dev L Conn Cmd Req M s =
     (case Conn of None \<Rightarrow> Inl NullPointer
      | Some i \<Rightarrow> (case M of None \<Rightarrow> Inl AssertionFailed
        | Some m \<Rightarrow>
            if dconn L s i = None then Inl FreedConnection
            else Inr (if rl_fits L m then [ToDevice i Cmd Req m] else [])))"

definition post_own ::
    "('c, 'cl, 'p, 'pl, 'd, 'dl, 'r, 'a) rd_lib \<Rightarrow> rd_output \<Rightarrow> rd_output list" where
  "post_own L out = (case out of ToDevice i Cmd Req m \<Rightarrow> if rl_fits L m then [out] else []
     | ToProxy i Cmd Req m \<Rightarrow> if rl_fits L m then [out] else [] | _ \<Rightarrow> [out])"

subsection \<open>Control packets of a device\<close>

text \<open>The handlers get the connection \<open>c\<close> the packet came on.\<close>

definition OnTerminalInitCtrlStream ::
    "('c, 'cl, 'p, 'pl, 'd, 'dl, 'r, 'a) rd_lib \<Rightarrow> xRD_DeviceConnection \<Rightarrow> u64 \<Rightarrow> bytes \<Rightarrow>
     ('c, 'cl, 'p, 'pl, 'd, 'dl, 'r) relay_server \<Rightarrow> ('c, 'cl, 'p, 'pl, 'd, 'dl, 'r) relay_server handled" where
  "OnTerminalInitCtrlStream L c RequestId Payload s =
     (case des_xInitCtrlStream (rl_wire L) Payload of None \<Rightarrow> Inr (False, [], s)
      | Some (S, _) \<Rightarrow>
          let i = xRD_DeviceConnection.ConnectionId c;
              R = xInitCtrlStreamResp.make 0 i (xInitCtrlStream.CheckKey S)
                (xInitCtrlStream.Resolved3rdIpv6 S \<or> ad_set L (xInitCtrlStream.Ipv6Address S)) in
          Inr (True, post_own L (ToDevice i Cmd_DV_RL_InitCtrlStreamResp RequestId (ser_xInitCtrlStreamResp (rl_wire L) R)),
            Device_KeepAlive L i s))"

definition OnTerminalDnsQueryResp ::
    "('c, 'cl, 'p, 'pl, 'd, 'dl, 'r, 'a) rd_lib \<Rightarrow> xRD_DeviceConnection \<Rightarrow> u64 \<Rightarrow> bytes \<Rightarrow>
     ('c, 'cl, 'p, 'pl, 'd, 'dl, 'r) relay_server \<Rightarrow> ('c, 'cl, 'p, 'pl, 'd, 'dl, 'r) relay_server handled" where
  "OnTerminalDnsQueryResp L c RequestId Payload s =
     (if \<not> IsType_Ctrl (xRD_DeviceConnection.Flags c) then Inr (False, [], s)
      else case des_xTR_DnsQueryResp (rl_wire L) Payload of None \<Rightarrow> Inr (False, [], s)
      | Some (Resp, _) \<Rightarrow>
          case relay L s RequestId of None \<Rightarrow> Inr (True, [], s)
          | Some RCC \<Rightarrow>
              let v6 = xTR_DnsQueryResp.PrimaryIpv6 Resp; v4 = xTR_DnsQueryResp.PrimaryIpv4 Resp;
                  create = (\<lambda>A. ser_xTR_CreateConnection (rl_wire L) (xTR_CreateConnection.make
                    (xRD_RelayConnectionContext.RelaySideConnectionId RCC) (ad_port L (TargetPort RCC) A)));
                  post = (\<lambda>A. Inr (True, post_own L (ToDevice (xRD_DeviceConnection.ConnectionId c)
                    Cmd_DV_RL_CreateConnection 0 (create A)), s)) in
              if ad_set L v6 \<and> ad_sa6 L v6 \<noteq> 0 then post v6
              else if ad_set L v4 \<and> ad_sa4 L v4 \<noteq> 0 then post v4
              else Inr (True, [], s))"

definition OnCtrlPacket ::
    "('c, 'cl, 'p, 'pl, 'd, 'dl, 'r, 'a) rd_lib \<Rightarrow> xRD_DeviceConnection \<Rightarrow> u32 \<Rightarrow> u64 \<Rightarrow> bytes \<Rightarrow>
     ('c, 'cl, 'p, 'pl, 'd, 'dl, 'r) relay_server \<Rightarrow> ('c, 'cl, 'p, 'pl, 'd, 'dl, 'r) relay_server handled" where
  "OnCtrlPacket L c Cmd RequestId Payload s =
     (if Cmd = Cmd_DV_RL_InitCtrlStream then OnTerminalInitCtrlStream L c RequestId Payload s
      else if Cmd = Cmd_DV_RL_DnsQueryResp then OnTerminalDnsQueryResp L c RequestId Payload s
      else Inr (False, [], s))"

subsection \<open>Data packets of a device\<close>

definition read_geo :: "('c, 'cl, 'p, 'pl, 'd, 'dl, 'r, 'a) rd_lib \<Rightarrow> bytes \<Rightarrow> xGeoInfo outcome" where
  "read_geo L Raw =
     (if length Raw < 12 then Inl OutOfBounds
      else Inr \<lparr>xGeoInfo.CountryId = rl_r4 L (take 4 Raw), xGeoInfo.StateId = rl_r4 L (take 4 (drop 4 Raw)),
        xGeoInfo.CityId = rl_r4 L (take 4 (drop 8 Raw))\<rparr>)"

definition OnTerminalInitDataStream ::
    "('c, 'cl, 'p, 'pl, 'd, 'dl, 'r, 'a) rd_lib \<Rightarrow> xRD_DeviceConnection \<Rightarrow> u64 \<Rightarrow> bytes \<Rightarrow>
     ('c, 'cl, 'p, 'pl, 'd, 'dl, 'r) relay_server \<Rightarrow> ('c, 'cl, 'p, 'pl, 'd, 'dl, 'r) relay_server handled" where
  "OnTerminalInitDataStream L c RequestId Payload s =
     (case des_xInitDataStream (rl_wire L) Payload of None \<Rightarrow> Inr (False, [], s)
      | Some (S, _) \<Rightarrow>
          case dconn L s (xInitDataStream.CtrlId S) of None \<Rightarrow> Inr (False, [], s)
          | Some CtrlConn \<Rightarrow>
              if xRD_DeviceConnection.DeviceId CtrlConn \<noteq> 0 then Inr (False, [], s)
              else
                case CreateDevice L s of
                  (None, s1) \<Rightarrow> Inr (False, [], Device_DeferRelease L (xInitDataStream.CtrlId S) s1)
                | (Some NewDevice, s1) \<Rightarrow>
                    let Segs = rl_split L (xInitDataStream.DataKey S); i = xRD_DeviceConnection.ConnectionId c;
                        id = DeviceRuntimeId NewDevice in
                    if length Segs \<noteq> 2 \<or> length (Segs ! 1) \<noteq> 24 then Inr (False, [], s1)
                    else
                      and_then (read_geo L (rl_hex L (Segs ! 1))) (\<lambda>geo.
                        let D = NewDevice\<lparr>CtrlConnection := Some (xInitDataStream.CtrlId S), DataConnection := Some i,
                                  xDevice.DeviceLocalIdString := xInitDataStream.DeviceLocalIdString S, GeoInfo := geo\<rparr>;
                            s2 = write_dconn L i (\<lambda>c. c\<lparr>xRD_DeviceConnection.DeviceId := id\<rparr>) s1;
                            s3 = write_dconn L (xInitDataStream.CtrlId S) (\<lambda>c. c\<lparr>xRD_DeviceConnection.DeviceId := id\<rparr>) s2 in
                        Inr (True,
                          post_own L (ToDevice i Cmd_DV_RL_InitDataStreamResp RequestId
                            (ser_xInitDataStreamResp (rl_wire L) (xInitDataStreamResp.make True))) @
                          ReportDeviceState L D False,
                          Device_KeepAlive L i (put_device L D s3))))"

definition OnTerminalTargetConnectionUpdate ::
    "('c, 'cl, 'p, 'pl, 'd, 'dl, 'r, 'a) rd_lib \<Rightarrow> bytes \<Rightarrow>
     ('c, 'cl, 'p, 'pl, 'd, 'dl, 'r) relay_server \<Rightarrow> ('c, 'cl, 'p, 'pl, 'd, 'dl, 'r) relay_server handled" where
  "OnTerminalTargetConnectionUpdate L Payload s =
     (case des_xTR_ConnectionStateNotify (rl_wire L) Payload of None \<Rightarrow> Inr (False, [], s)
      | Some (S, _) \<Rightarrow>
          let id = xTR_ConnectionStateNotify.RelaySideConnectionId S; st = xTR_ConnectionStateNotify.NewState S in
          case relay L s id of None \<Rightarrow> Inr (True, [], s)
          | Some CR \<Rightarrow>
              if xRD_RelayConnectionContext.RelaySideConnectionId CR \<noteq> id then Inr (True, [], s)
              else if st \<noteq> STATE_ESTABLISHED \<and> st \<noteq> STATE_UPDATE_TRANSFER \<and> st \<noteq> STATE_CLOSED then Inr (False, [], s)
              else
                let s1 = (if st = STATE_ESTABLISHED then
                        put_relay L id (CR\<lparr>PortOrDeviceSide := ucast (xTR_ConnectionStateNotify.DeviceSideConnectionId S)\<rparr>) s
                      else s);
                    F = xPR_ConnectionStateNotify.make (xRD_RelayConnectionContext.ProxySideConnectionId CR)
                      (xRD_RelayConnectionContext.RelaySideConnectionId CR) st 0 0 in
                case pconn L s1 (ProxyConnectionId CR) of None \<Rightarrow> Inr (True, [], s1)
                | Some PA \<Rightarrow> Inr (True, post_own L (ToProxy (ProxyConnectionId CR) Cmd_PA_RL_NotifyConnectionState 0
                    (ser_xPR_ConnectionStateNotify (rl_wire L) F)), s1))"

definition OnTerminalPostData ::
    "('c, 'cl, 'p, 'pl, 'd, 'dl, 'r, 'a) rd_lib \<Rightarrow> bytes \<Rightarrow>
     ('c, 'cl, 'p, 'pl, 'd, 'dl, 'r) relay_server \<Rightarrow> ('c, 'cl, 'p, 'pl, 'd, 'dl, 'r) relay_server handled" where
  "OnTerminalPostData L Payload s =
     (case des_xTR_PostData (rl_wire L) Payload of None \<Rightarrow> Inr (False, [], s)
      | Some (S, _) \<Rightarrow>
          let id = xTR_PostData.RelaySideConnectionId S in
          case relay L s id of None \<Rightarrow> Inr (True, [], s)
          | Some CR \<Rightarrow>
              if xRD_RelayConnectionContext.RelaySideConnectionId CR \<noteq> id then Inr (True, [], s)
              else
                case pconn L s (ProxyConnectionId CR) of None \<Rightarrow> Inr (True, [], s)
                | Some PA \<Rightarrow> Inr (True, post_own L (ToProxy (ProxyConnectionId CR) Cmd_PA_RL_PostData 0
                    (ser_xPR_PushData (rl_wire L) (xPR_PushData.make (xRD_RelayConnectionContext.ProxySideConnectionId CR)
                      (xRD_RelayConnectionContext.RelaySideConnectionId CR) (xTR_PostData.PayloadView S)))), s))"

definition OnDataPacket ::
    "('c, 'cl, 'p, 'pl, 'd, 'dl, 'r, 'a) rd_lib \<Rightarrow> xRD_DeviceConnection \<Rightarrow> u32 \<Rightarrow> u64 \<Rightarrow> bytes \<Rightarrow>
     ('c, 'cl, 'p, 'pl, 'd, 'dl, 'r) relay_server \<Rightarrow> ('c, 'cl, 'p, 'pl, 'd, 'dl, 'r) relay_server handled" where
  "OnDataPacket L c Cmd RequestId Payload s =
     (if Cmd = Cmd_DV_RL_InitDataStream then OnTerminalInitDataStream L c RequestId Payload s
      else if Cmd = Cmd_DV_RL_NotifyConnectionState then OnTerminalTargetConnectionUpdate L Payload s
      else if Cmd = Cmd_DV_RL_PostData then OnTerminalPostData L Payload s
      else Inr (False, [], s))"

subsection \<open>Packets of a proxy server\<close>

definition OnProxyChallenge ::
    "('c, 'cl, 'p, 'pl, 'd, 'dl, 'r, 'a) rd_lib \<Rightarrow> xRD_ProxyConnection \<Rightarrow> bytes \<Rightarrow>
     ('c, 'cl, 'p, 'pl, 'd, 'dl, 'r) relay_server \<Rightarrow> ('c, 'cl, 'p, 'pl, 'd, 'dl, 'r) relay_server handled" where
  "OnProxyChallenge L c Payload s =
     (case des_xPR_Challenge (rl_wire L) Payload of None \<Rightarrow> Inr (False, [], s)
      | Some _ \<Rightarrow>
          let i = xRD_ProxyConnection.ConnectionId c in
          Inr (True, post_own L (ToProxy i Cmd_PA_RL_ChallengeResp 0
              (ser_xPR_ChallengeResp (rl_wire L) (xPR_ChallengeResp.make True))),
            Proxy_KeepAlive L i (write_pconn L i (\<lambda>c. c\<lparr>ChallengeReady := True\<rparr>) s)))"

definition new_context :: "u64 \<Rightarrow> 'a xPR_CreateConnection \<Rightarrow> xRD_ProxyConnection \<Rightarrow>
    xRD_RelayConnectionContext \<Rightarrow> xRD_RelayConnectionContext" where
  "new_context d R c ctx = set_TargetPort (xPR_CreateConnection.HostnamePort R)
     (ctx\<lparr>xRD_RelayConnectionContext.DeviceId := d,
          ProxyConnectionId := xRD_ProxyConnection.ConnectionId c,
          xRD_RelayConnectionContext.ProxySideConnectionId := xPR_CreateConnection.ProxySideConnectionId R\<rparr>)"

definition OnProxyCreateConnection ::
    "('c, 'cl, 'p, 'pl, 'd, 'dl, 'r, 'a) rd_lib \<Rightarrow> xRD_ProxyConnection \<Rightarrow> bytes \<Rightarrow>
     ('c, 'cl, 'p, 'pl, 'd, 'dl, 'r) relay_server \<Rightarrow> ('c, 'cl, 'p, 'pl, 'd, 'dl, 'r) relay_server handled" where
  "OnProxyCreateConnection L c Payload s =
     (case des_xPR_CreateConnection (rl_wire L) Payload of None \<Rightarrow> Inr (False, [], s)
      | Some (R, _) \<Rightarrow>
          let i = xRD_ProxyConnection.ConnectionId c; pside = xPR_CreateConnection.ProxySideConnectionId R in
          case GetDeviceById L s (xPR_CreateConnection.RelaySideDeviceId R) of
            None \<Rightarrow> Inr (True, post_own L (ToProxy i Cmd_PA_RL_DestroyConnection 0
              (ser_xPR_DestroyConnection (rl_wire L) (xPR_DestroyConnection.make pside 0))), s)
          | Some D \<Rightarrow>
              if CtrlConnection D = None then Inl AssertionFailed
              else
                let (id, s1) = CreateRelay L s in
                case relay L s1 id of
                  None \<Rightarrow> Inr (True, post_own L (ToProxy i Cmd_PA_RL_NotifyConnectionState 0
                    (ser_xPR_ConnectionStateNotify (rl_wire L) (xPR_ConnectionStateNotify.make pside 0 STATE_CLOSED 0 0))), s1)
                | Some ctx \<Rightarrow>
                    let s2 = put_relay L id (new_context (DeviceRuntimeId D) R c ctx) s1 in
                    if ad_set L (xPR_CreateConnection.TargetAddress R) then
                      and_then (post_dev L (CtrlConnection D) Cmd_DV_RL_CreateConnection 0
                          (Some (ser_xTR_CreateConnection (rl_wire L)
                            (xTR_CreateConnection.make id (xPR_CreateConnection.TargetAddress R)))) s2)
                        (\<lambda>out. Inr (True, out, s2))
                    else if xPR_CreateConnection.HostnameView R \<noteq> [] then
                      and_then (post_dev L (CtrlConnection D) Cmd_DV_RL_DnsQuery id
                          (Some (ser_xTR_DnsQuery (rl_wire L) (xTR_DnsQuery.make (xPR_CreateConnection.HostnameView R)))) s2)
                        (\<lambda>out. Inr (True, out, s2))
                    else Inr (False, [], s2))"

definition OnProxyDestroyConnection ::
    "('c, 'cl, 'p, 'pl, 'd, 'dl, 'r, 'a) rd_lib \<Rightarrow> bytes \<Rightarrow>
     ('c, 'cl, 'p, 'pl, 'd, 'dl, 'r) relay_server \<Rightarrow> ('c, 'cl, 'p, 'pl, 'd, 'dl, 'r) relay_server handled" where
  "OnProxyDestroyConnection L Payload s =
     (case des_xPR_DestroyConnection (rl_wire L) Payload of None \<Rightarrow> Inr (False, [], s)
      | Some (R, _) \<Rightarrow>
          case relay L s (xPR_DestroyConnection.RelaySideConnectionId R) of None \<Rightarrow> Inr (True, [], s)
          | Some RC \<Rightarrow>
              case GetDeviceById L s (xRD_RelayConnectionContext.DeviceId RC) of None \<Rightarrow> Inr (True, [], s)
              | Some D \<Rightarrow>
                  if DataConnection D = None then Inl AssertionFailed
                  else and_then (post_dev L (DataConnection D) Cmd_DV_RL_DestroyConnection 0
                      (Some (ser_xTR_DestroyConnection (rl_wire L) (xTR_DestroyConnection.make
                        (ucast (PortOrDeviceSide RC)) (xRD_RelayConnectionContext.RelaySideConnectionId RC)))) s)
                    (\<lambda>out. Inr (True, out, s)))"

definition OnProxyPushData ::
    "('c, 'cl, 'p, 'pl, 'd, 'dl, 'r, 'a) rd_lib \<Rightarrow> bytes \<Rightarrow>
     ('c, 'cl, 'p, 'pl, 'd, 'dl, 'r) relay_server \<Rightarrow> ('c, 'cl, 'p, 'pl, 'd, 'dl, 'r) relay_server handled" where
  "OnProxyPushData L Payload s =
     (case des_xPR_PushData (rl_wire L) Payload of None \<Rightarrow> Inr (False, [], s)
      | Some (R, _) \<Rightarrow>
          case relay L s (xPR_PushData.RelaySideConnectionId R) of None \<Rightarrow> Inr (True, [], s)
          | Some RC \<Rightarrow>
              if xRD_RelayConnectionContext.ProxySideConnectionId RC \<noteq> xPR_PushData.ProxySideConnectionId R then
                Inr (True, [], s)
              else
                case GetDeviceById L s (xRD_RelayConnectionContext.DeviceId RC) of None \<Rightarrow> Inr (True, [], s)
                | Some DC \<Rightarrow>
                    and_then (post_dev L (DataConnection DC) Cmd_DV_RL_PostData 0
                        (ser_xTR_PostData (rl_wire L) (xTR_PostData.make (ucast (PortOrDeviceSide RC))
                          (xRD_RelayConnectionContext.RelaySideConnectionId RC) (xPR_PushData.PayloadView R))) s)
                      (\<lambda>out. Inr (True, out, s)))"

definition OnProxyNotifyConnectionState ::
    "('c, 'cl, 'p, 'pl, 'd, 'dl, 'r, 'a) rd_lib \<Rightarrow> bytes \<Rightarrow>
     ('c, 'cl, 'p, 'pl, 'd, 'dl, 'r) relay_server \<Rightarrow> ('c, 'cl, 'p, 'pl, 'd, 'dl, 'r) relay_server handled" where
  "OnProxyNotifyConnectionState L Payload s =
     (case des_xPR_ConnectionStateNotify (rl_wire L) Payload of None \<Rightarrow> Inr (False, [], s)
      | Some (N, _) \<Rightarrow>
          case relay L s (xPR_ConnectionStateNotify.RelaySideConnectionId N) of None \<Rightarrow> Inr (True, [], s)
          | Some RCP \<Rightarrow>
              case GetDeviceById L s (xRD_RelayConnectionContext.DeviceId RCP) of None \<Rightarrow> Inr (True, [], s)
              | Some DC \<Rightarrow>
                  and_then (post_dev L (DataConnection DC) Cmd_DV_RL_ProxyClientNotify 0
                      (Some (ser_xTR_ConnectionStateNotify (rl_wire L) (xTR_ConnectionStateNotify.make
                        (ucast (PortOrDeviceSide RCP)) (xRD_RelayConnectionContext.RelaySideConnectionId RCP)
                        STATE_UPDATE_TRANSFER (TotalDumpedBytes N) (TotalUploadedBytes N)))) s)
                    (\<lambda>out. Inr (True, out, s)))"

definition OnProxyPacket ::
    "('c, 'cl, 'p, 'pl, 'd, 'dl, 'r, 'a) rd_lib \<Rightarrow> xRD_ProxyConnection \<Rightarrow> u32 \<Rightarrow> bytes \<Rightarrow>
     ('c, 'cl, 'p, 'pl, 'd, 'dl, 'r) relay_server \<Rightarrow> ('c, 'cl, 'p, 'pl, 'd, 'dl, 'r) relay_server handled" where
  "OnProxyPacket L c Cmd Payload s =
     (if Cmd = Cmd_PA_RL_Challenge then OnProxyChallenge L c Payload s
      else if Cmd = Cmd_PA_RL_CreateConnection then OnProxyCreateConnection L c Payload s
      else if Cmd = Cmd_PA_RL_DestroyConnection then OnProxyDestroyConnection L Payload s
      else if Cmd = Cmd_PA_RL_PostData then OnProxyPushData L Payload s
      else if Cmd = Cmd_PA_RL_NotifyConnectionState then OnProxyNotifyConnectionState L Payload s
      else Inr (False, [], s))"

subsection \<open>Events of the connections\<close>

text \<open>What a \<^verbatim>\<open>TcpConnectionPtr\<close> points to.\<close>

datatype link = DeviceLink u64 | ProxyLink u64
datatype tcp_server = ControlServer | DataServer | ProxyServer

definition OnNewConnection ::
    "('c, 'cl, 'p, 'pl, 'd, 'dl, 'r, 'a) rd_lib \<Rightarrow> tcp_server \<Rightarrow> bool \<Rightarrow>
     ('c, 'cl, 'p, 'pl, 'd, 'dl, 'r) relay_server \<Rightarrow> ('c, 'cl, 'p, 'pl, 'd, 'dl, 'r) relay_server" where
  "OnNewConnection L srv init_ok s =
     (let set = (\<lambda>i f. write_dconn L i (\<lambda>c. c\<lparr>xRD_DeviceConnection.Flags := f (xRD_DeviceConnection.Flags c)\<rparr>)) in
      case srv of
        ControlServer \<Rightarrow> (case Device_CreateConnection L init_ok s of (None, t) \<Rightarrow> t | (Some i, t) \<Rightarrow> set i SetType_Ctrl t)
      | DataServer \<Rightarrow> (case Device_CreateConnection L init_ok s of (None, t) \<Rightarrow> t | (Some i, t) \<Rightarrow> set i SetType_Data t)
      | ProxyServer \<Rightarrow> (case Proxy_CreateConnection L init_ok s of (None, t) \<Rightarrow> t
          | (Some i, t) \<Rightarrow> write_pconn L i
              (\<lambda>c. c\<lparr>xRD_ProxyConnection.Flags := SetType_ProxyClient (xRD_ProxyConnection.Flags c)\<rparr>) t))"

definition RemoveDeviceFromConnection ::
    "('c, 'cl, 'p, 'pl, 'd, 'dl, 'r, 'a) rd_lib \<Rightarrow> xRD_DeviceConnection \<Rightarrow>
     ('c, 'cl, 'p, 'pl, 'd, 'dl, 'r) relay_server \<Rightarrow> rd_output list \<times> ('c, 'cl, 'p, 'pl, 'd, 'dl, 'r) relay_server" where
  "RemoveDeviceFromConnection L c s =
     (case GetDeviceById L s (xRD_DeviceConnection.DeviceId c) of None \<Rightarrow> ([], s)
      | Some D \<Rightarrow> (ReportDeviceState L D True, ReleaseDevice L D s))"

text \<open>\<^verbatim>\<open>RemoveDevice\<close>, which nothing calls.\<close>

definition RemoveDevice ::
    "('c, 'cl, 'p, 'pl, 'd, 'dl, 'r, 'a) rd_lib \<Rightarrow> xDevice \<Rightarrow> ('c, 'cl, 'p, 'pl, 'd, 'dl, 'r) relay_server \<Rightarrow>
     ('c, 'cl, 'p, 'pl, 'd, 'dl, 'r) relay_server outcome" where
  "RemoveDevice L D s =
     (let drop_conn = (\<lambda>Conn s. case Conn of None \<Rightarrow> Inr s
        | Some i \<Rightarrow> if dconn L s i = None then Inl FreedConnection else Inr (Device_DeferRelease L i s)) in
      and_then (drop_conn (CtrlConnection D) s) (\<lambda>s1. and_then (drop_conn (DataConnection D) s1)
        (\<lambda>s2. Inr (ReleaseDevice L (D\<lparr>CtrlConnection := None, DataConnection := None\<rparr>) s2))))"

definition OnPeerClose ::
    "('c, 'cl, 'p, 'pl, 'd, 'dl, 'r, 'a) rd_lib \<Rightarrow> link \<Rightarrow> ('c, 'cl, 'p, 'pl, 'd, 'dl, 'r) relay_server \<Rightarrow>
     (rd_output list \<times> ('c, 'cl, 'p, 'pl, 'd, 'dl, 'r) relay_server) outcome" where
  "OnPeerClose L l s =
     (case l of
        DeviceLink i \<Rightarrow>
          (case dconn L s i of None \<Rightarrow> Inl FreedConnection
           | Some c \<Rightarrow>
               if IsType_Ctrl (xRD_DeviceConnection.Flags c) then
                 let (out, s1) = RemoveDeviceFromConnection L c s in Inr (out, Device_DeferRelease L i s1)
               else if IsType_Data (xRD_DeviceConnection.Flags c) then Inr ([], Device_DeferRelease L i s)
               else Inl AssertionFailed)
      | ProxyLink i \<Rightarrow>
          (case pconn L s i of None \<Rightarrow> Inl FreedConnection
           | Some c \<Rightarrow>
               if IsType_ProxyClient (xRD_ProxyConnection.Flags c) then Inr ([], Proxy_DeferRelease L i s)
               else Inl AssertionFailed))"

text \<open>The header of a packet as the library's \<^verbatim>\<open>xPacketHeader::Parse\<close> reads it.\<close>

record packet_header =
  PacketSize :: nat
  CommandId :: u32
  RequestId :: u64
  RequestKeepAlive :: bool

definition OnKeepAlive ::
    "('c, 'cl, 'p, 'pl, 'd, 'dl, 'r, 'a) rd_lib \<Rightarrow> link \<Rightarrow> ('c, 'cl, 'p, 'pl, 'd, 'dl, 'r) relay_server \<Rightarrow>
     (rd_output list \<times> ('c, 'cl, 'p, 'pl, 'd, 'dl, 'r) relay_server) outcome" where
  "OnKeepAlive L l s =
     (case l of
        DeviceLink i \<Rightarrow>
          (case dconn L s i of None \<Rightarrow> Inl FreedConnection
           | Some c \<Rightarrow>
               let s1 = Device_KeepAlive L i s; F = xRD_DeviceConnection.Flags c; d = xRD_DeviceConnection.DeviceId c in
               if IsType_Ctrl F then
                 Inr (AnswerKeepAlive # (if d = 0 then [] else case device L s1 d of None \<Rightarrow> []
                   | Some D \<Rightarrow> ReportDeviceState L D False), s1)
               else if IsType_Data F then Inr ([AnswerKeepAlive], s1)
               else Inl AssertionFailed)
      | ProxyLink i \<Rightarrow>
          (case pconn L s i of None \<Rightarrow> Inl FreedConnection
           | Some c \<Rightarrow> if IsType_ProxyClient (xRD_ProxyConnection.Flags c) then Inr ([AnswerKeepAlive], Proxy_KeepAlive L i s)
               else Inl AssertionFailed))"

definition OnPacket ::
    "('c, 'cl, 'p, 'pl, 'd, 'dl, 'r, 'a) rd_lib \<Rightarrow> link \<Rightarrow> u32 \<Rightarrow> u64 \<Rightarrow> bytes \<Rightarrow>
     ('c, 'cl, 'p, 'pl, 'd, 'dl, 'r) relay_server \<Rightarrow> ('c, 'cl, 'p, 'pl, 'd, 'dl, 'r) relay_server handled" where
  "OnPacket L l Cmd Req Payload s =
     (case l of
        DeviceLink i \<Rightarrow>
          (case dconn L s i of None \<Rightarrow> Inl FreedConnection
           | Some c \<Rightarrow>
               if IsType_Ctrl (xRD_DeviceConnection.Flags c) then OnCtrlPacket L c Cmd Req Payload s
               else if IsType_Data (xRD_DeviceConnection.Flags c) then OnDataPacket L c Cmd Req Payload s
               else Inl AssertionFailed)
      | ProxyLink i \<Rightarrow>
          (case pconn L s i of None \<Rightarrow> Inl FreedConnection
           | Some c \<Rightarrow> if IsType_ProxyClient (xRD_ProxyConnection.Flags c) then OnProxyPacket L c Cmd Payload s
               else Inl AssertionFailed))"

text \<open>
  \<^verbatim>\<open>OnData\<close>: \<open>hdr\<close> is \<^verbatim>\<open>PacketHeaderSize\<close> and \<open>parse\<close> the library's header parser. The first component
  is the number of bytes used, or \<open>None\<close> for \<^verbatim>\<open>InvalidDataSize\<close>; the loop has no end when
  \<open>parse\<close> yields a packet of no bytes.
\<close>

partial_function (option) OnData_loop ::
    "('c, 'cl, 'p, 'pl, 'd, 'dl, 'r, 'a) rd_lib \<Rightarrow> nat \<Rightarrow> (bytes \<Rightarrow> packet_header option) \<Rightarrow> link \<Rightarrow> nat \<Rightarrow>
     rd_output list \<Rightarrow> bytes \<Rightarrow> ('c, 'cl, 'p, 'pl, 'd, 'dl, 'r) relay_server \<Rightarrow>
     (nat option \<times> rd_output list \<times> ('c, 'cl, 'p, 'pl, 'd, 'dl, 'r) relay_server) outcome option" where
  "OnData_loop L hdr parse l used out D s =
     (if length D < hdr then Some (Inr (Some used, out, s))
      else case parse D of None \<Rightarrow> Some (Inr (None, out, s))
      | Some h \<Rightarrow>
          if length D < PacketSize h then Some (Inr (Some used, out, s))
          else if RequestKeepAlive h then
            (case OnKeepAlive L l s of Inl e \<Rightarrow> Some (Inl e)
             | Inr (o1, t) \<Rightarrow> OnData_loop L hdr parse l (used + PacketSize h) (out @ o1) (drop (PacketSize h) D) t)
          else
            (case OnPacket L l (packet_header.CommandId h) (packet_header.RequestId h) (drop hdr (take (PacketSize h) D)) s of
               Inl e \<Rightarrow> Some (Inl e)
             | Inr (ok, o1, t) \<Rightarrow>
                 if \<not> ok then Some (Inr (None, out @ o1, t))
                 else OnData_loop L hdr parse l (used + PacketSize h) (out @ o1) (drop (PacketSize h) D) t))"

definition OnData where
  "OnData L hdr parse l D s = OnData_loop L hdr parse l 0 [] D s"

end
