(* ===== verification/RelayLinks.thy ===== *)
theory RelayLinks
  imports DeviceRelay LinkLists
begin

text \<open>
  The connections of the device relay server: both connection managers are link managers, so their
  lists stay in order and their ticks end and close exactly the late connections. The theory ends
  with the reachable states of the server and what holds in all of them.
\<close>

subsection \<open>The two connection managers as link managers\<close>

lemma mark_delete [simp]: "HasMark_Delete (Mark_Delete F)"
proof -
  have "and (or F FLAG_MARK_DELETE) FLAG_MARK_DELETE = FLAG_MARK_DELETE" by (simp add: bit_eq_iff bit_simps)
  then show ?thesis by (simp add: HasMark_Delete_def Mark_Delete_def FLAG_MARK_DELETE_def)
qed

definition dev_links ::
    "('c, 'cl, 'p, 'pl, 'd, 'dl, 'r, 'a) rd_lib \<Rightarrow> ('cl \<Rightarrow> device_list \<Rightarrow> u64 list) \<Rightarrow>
     ('c, 'cl, 'p, 'pl, 'd, 'dl, 'r) relay_server \<Rightarrow> links" where
  "dev_links L itC s = \<lparr>l_now = DeviceTicker s,
     l_time = (\<lambda>i. map_option xRD_DeviceConnection.IdleTimestamMS (dconn L s i)),
     l_marked = {i. \<exists>c. dconn L s i = Some c \<and> HasMark_Delete (xRD_DeviceConnection.Flags c)},
     l_young = itC (DeviceLists s) NewConnectionList, l_idle = itC (DeviceLists s) IdleConnectionList,
     l_doomed = itC (DeviceLists s) KillConnectionList\<rparr>"

definition proxy_links ::
    "('c, 'cl, 'p, 'pl, 'd, 'dl, 'r, 'a) rd_lib \<Rightarrow> ('pl \<Rightarrow> proxy_list \<Rightarrow> u64 list) \<Rightarrow>
     ('c, 'cl, 'p, 'pl, 'd, 'dl, 'r) relay_server \<Rightarrow> links" where
  "proxy_links L itP s = \<lparr>l_now = ProxyTicker s,
     l_time = (\<lambda>i. map_option xRD_ProxyConnection.IdleTimestamMS (pconn L s i)),
     l_marked = {i. \<exists>c. pconn L s i = Some c \<and> HasMark_Delete (xRD_ProxyConnection.Flags c)},
     l_young = itP (ProxyLists s) ChallengeConnectionList, l_idle = itP (ProxyLists s) IdleProxyList,
     l_doomed = itP (ProxyLists s) KillProxyList\<rparr>"

text \<open>Every connection carries its id and the type of its server.\<close>

definition dev_typed ::
    "('c, 'cl, 'p, 'pl, 'd, 'dl, 'r, 'a) rd_lib \<Rightarrow> ('c, 'cl, 'p, 'pl, 'd, 'dl, 'r) relay_server \<Rightarrow> bool" where
  "dev_typed L s \<longleftrightarrow> (\<forall>i c. dconn L s i = Some c \<longrightarrow> xRD_DeviceConnection.ConnectionId c = i \<and>
     IsType_Ctrl (xRD_DeviceConnection.Flags c) \<noteq> IsType_Data (xRD_DeviceConnection.Flags c))"

definition proxy_typed ::
    "('c, 'cl, 'p, 'pl, 'd, 'dl, 'r, 'a) rd_lib \<Rightarrow> ('c, 'cl, 'p, 'pl, 'd, 'dl, 'r) relay_server \<Rightarrow> bool" where
  "proxy_typed L s \<longleftrightarrow> (\<forall>i c. pconn L s i = Some c \<longrightarrow> xRD_ProxyConnection.ConnectionId c = i \<and>
     IsType_ProxyClient (xRD_ProxyConnection.Flags c))"

lemma type_flags [simp]:
  "IsType_Ctrl (SetType_Ctrl 0)" "\<not> IsType_Data (SetType_Ctrl 0)" "\<not> IsType_Ctrl (SetType_Data 0)"
  "IsType_Data (SetType_Data 0)" "IsType_ProxyClient (SetType_ProxyClient 0)"
  "\<not> HasMark_Delete (SetType_Ctrl 0)" "\<not> HasMark_Delete (SetType_Data 0)" "\<not> HasMark_Delete (SetType_ProxyClient 0)"
  by code_simp+

lemma mark_keeps_type [simp]:
  "IsType_Ctrl (Mark_Delete F) = IsType_Ctrl F" "IsType_Data (Mark_Delete F) = IsType_Data F"
  "IsType_ProxyClient (Mark_Delete F) = IsType_ProxyClient F"
  by (simp_all add: IsType_Ctrl_def IsType_Data_def IsType_ProxyClient_def Mark_Delete_def FLAG_CTRL_def FLAG_DATA_def
      FLAG_PROXY_CLIENT_def FLAG_MARK_DELETE_def bit.conj_disj_distrib2)

definition dev_accepted where
  "dev_accepted L i s s' \<longleftrightarrow> fst (st_acquire (rl_dconns L) (DeviceConns s)) = i \<and> i \<noteq> 0 \<and>
     (s' = OnNewConnection L ControlServer True s \<or> s' = OnNewConnection L DataServer True s)"

definition proxy_accepted where
  "proxy_accepted L i s s' \<longleftrightarrow> fst (st_acquire (rl_pconns L) (ProxyConns s)) = i \<and> i \<noteq> 0 \<and>
     s' = OnNewConnection L ProxyServer True s"

lemma dconn_simps [simp]:
  "dconn L (s\<lparr>DeviceTicker := n\<rparr>) = dconn L s" "dconn L (s\<lparr>DeviceLists := dl\<rparr>) = dconn L s"
  "dconn L (s\<lparr>ProxyTicker := n\<rparr>) = dconn L s" "dconn L (s\<lparr>ProxyConns := p\<rparr>) = dconn L s"
  "dconn L (s\<lparr>ProxyLists := pl\<rparr>) = dconn L s" "dconn L (s\<lparr>DevicePool := d\<rparr>) = dconn L s"
  "dconn L (s\<lparr>DeviceKillList := k\<rparr>) = dconn L s" "dconn L (s\<lparr>ContextPool := r\<rparr>) = dconn L s"
  by (simp_all add: dconn_def fun_eq_iff)

lemma pconn_simps [simp]:
  "pconn L (s\<lparr>DeviceTicker := n\<rparr>) = pconn L s" "pconn L (s\<lparr>DeviceLists := dl\<rparr>) = pconn L s"
  "pconn L (s\<lparr>DeviceConns := c\<rparr>) = pconn L s" "pconn L (s\<lparr>ProxyTicker := n\<rparr>) = pconn L s"
  "pconn L (s\<lparr>ProxyLists := pl\<rparr>) = pconn L s" "pconn L (s\<lparr>DevicePool := d\<rparr>) = pconn L s"
  "pconn L (s\<lparr>DeviceKillList := k\<rparr>) = pconn L s" "pconn L (s\<lparr>ContextPool := r\<rparr>) = pconn L s"
  by (simp_all add: pconn_def fun_eq_iff)

locale relay_env =
  dc: indexed_storage "rl_dconns L" fresh_device_conn + dl: hooked_lists "rl_dlists L" itC +
  pc: indexed_storage "rl_pconns L" fresh_proxy_conn + pl: hooked_lists "rl_plists L" itP +
  dv: indexed_storage "rl_devices L" fresh_device + dk: hooked_lists "rl_dkill L" itK +
  rc: indexed_storage "rl_relays L" ctx0
  for L :: "('c, 'cl, 'p, 'pl, 'd, 'dl, 'r, 'a) rd_lib" and itC :: "'cl \<Rightarrow> device_list \<Rightarrow> u64 list"
    and itP :: "'pl \<Rightarrow> proxy_list \<Rightarrow> u64 list" and itK :: "'dl \<Rightarrow> unit \<Rightarrow> u64 list"
    and ctx0 :: xRD_RelayConnectionContext
begin

lemma dconn_write: "dconn L (write_dconn L i f s) = (dconn L s)(i := map_option f (dconn L s i))"
proof (cases "dconn L s i")
  case (Some c)
  then have "st_get (rl_dconns L) (DeviceConns s) i \<noteq> None" by (simp add: dconn_def)
  from dc.put_get [OF this] Some show ?thesis by (simp add: write_dconn_def dconn_def fun_eq_iff)
qed (simp add: write_dconn_def fun_upd_idem)

lemma pconn_write: "pconn L (write_pconn L i f s) = (pconn L s)(i := map_option f (pconn L s i))"
proof (cases "pconn L s i")
  case (Some c)
  then have "st_get (rl_pconns L) (ProxyConns s) i \<noteq> None" by (simp add: pconn_def)
  from pc.put_get [OF this] Some show ?thesis by (simp add: write_pconn_def pconn_def fun_eq_iff)
qed (simp add: write_pconn_def fun_upd_idem)

lemma write_dconn_fields [simp]:
  "DeviceTicker (write_dconn L i f s) = DeviceTicker s" "DeviceLists (write_dconn L i f s) = DeviceLists s"
  "pconn L (write_dconn L i f s) = pconn L s" "ProxyTicker (write_dconn L i f s) = ProxyTicker s"
  "ProxyLists (write_dconn L i f s) = ProxyLists s" "DevicePool (write_dconn L i f s) = DevicePool s"
  "ContextPool (write_dconn L i f s) = ContextPool s"
  by (simp_all add: write_dconn_def pconn_def fun_eq_iff split: option.split)

lemma write_pconn_fields [simp]:
  "ProxyTicker (write_pconn L i f s) = ProxyTicker s" "ProxyLists (write_pconn L i f s) = ProxyLists s"
  "dconn L (write_pconn L i f s) = dconn L s" "DeviceTicker (write_pconn L i f s) = DeviceTicker s"
  "DeviceLists (write_pconn L i f s) = DeviceLists s" "DevicePool (write_pconn L i f s) = DevicePool s"
  "ContextPool (write_pconn L i f s) = ContextPool s"
  by (simp_all add: write_pconn_def dconn_def fun_eq_iff split: option.split)

end

lemma parted_notin:
  assumes "parted v" "l_time v i = None"
  shows "i \<notin> set (l_young v)" "i \<notin> set (l_idle v)" "i \<notin> set (l_doomed v)"
  using parted_dom [OF assms(1)] assms(2) by (auto simp: domIff)

lemma links_young: "v\<lparr>l_young := a, l_idle := l_idle v, l_doomed := d\<rparr> = v\<lparr>l_young := a, l_doomed := d, l_marked := l_marked v\<rparr>"
  by (cases v) simp

lemma links_idle: "v\<lparr>l_young := l_young v, l_idle := a, l_doomed := d\<rparr> = v\<lparr>l_idle := a, l_doomed := d, l_marked := l_marked v\<rparr>"
  by (cases v) simp

definition dev_good where
  "dev_good L itC s \<longleftrightarrow> dev_typed L s \<and> itC (DeviceLists s) SlowKillConnectionList = []"

context relay_env begin

lemma dev_accept:
  assumes p: "parted (dev_links L itC s)" and g: "dev_good L itC s" and a: "dev_accepted L i s s'"
  shows "l_time (dev_links L itC s) i = None" "dev_links L itC s' = l_accept i (dev_links L itC s)"
    "dev_good L itC s'" "pconn L s' = pconn L s" "ProxyLists s' = ProxyLists s" "ProxyTicker s' = ProxyTicker s"
    "DevicePool s' = DevicePool s" "ContextPool s' = ContextPool s"
proof -
  obtain p where acq: "st_acquire (rl_dconns L) (DeviceConns s) = (i, p)" and i: "i \<noteq> 0"
    using a by (cases "st_acquire (rl_dconns L) (DeviceConns s)") (auto simp: dev_accepted_def)
  define t where "t = s\<lparr>DeviceConns := st_put (rl_dconns L) p i
    (fresh_device_conn\<lparr>xRD_DeviceConnection.ConnectionId := i, xRD_DeviceConnection.IdleTimestamMS := DeviceTicker s\<rparr>),
    DeviceLists := li_add_tail (rl_dlists L) (DeviceLists s) NewConnectionList i\<rparr>"
  have new: "dconn L s i = None" using dc.acquire_new [OF acq i] by (simp add: dconn_def)
  then show time: "l_time (dev_links L itC s) i = None" by (simp add: dev_links_def)
  have lists: "i \<notin> set (itC (DeviceLists s) m)" for m
    using parted_notin [OF p time] g by (cases m) (simp_all add: dev_links_def dev_good_def)
  have ct: "dconn L t = (dconn L s)(i \<mapsto> fresh_device_conn\<lparr>xRD_DeviceConnection.ConnectionId := i,
      xRD_DeviceConnection.IdleTimestamMS := DeviceTicker s\<rparr>)"
    using dc.acquire_get [OF acq i] by (simp add: t_def dconn_def fun_eq_iff dc.put_get)
  have s': "\<exists>F. (F = SetType_Ctrl 0 \<or> F = SetType_Data 0) \<and> s' = write_dconn L i (\<lambda>c. c\<lparr>xRD_DeviceConnection.Flags := F\<rparr>) t"
  proof -
    have e: "OnNewConnection L ControlServer True s = write_dconn L i (\<lambda>c. c\<lparr>xRD_DeviceConnection.Flags :=
          SetType_Ctrl (xRD_DeviceConnection.Flags c)\<rparr>) t"
      "OnNewConnection L DataServer True s = write_dconn L i (\<lambda>c. c\<lparr>xRD_DeviceConnection.Flags :=
          SetType_Data (xRD_DeviceConnection.Flags c)\<rparr>) t"
      using i by (simp_all add: OnNewConnection_def Device_CreateConnection_def Let_def acq t_def)
    have f: "write_dconn L i (\<lambda>c. c\<lparr>xRD_DeviceConnection.Flags := f (xRD_DeviceConnection.Flags c)\<rparr>) t =
        write_dconn L i (\<lambda>c. c\<lparr>xRD_DeviceConnection.Flags := f 0\<rparr>) t" for f
      by (simp add: write_dconn_def ct fresh_device_conn_def)
    show ?thesis using a unfolding dev_accepted_def e f by blast
  qed
  then obtain F where F: "F = SetType_Ctrl 0 \<or> F = SetType_Data 0"
    and t: "s' = write_dconn L i (\<lambda>c. c\<lparr>xRD_DeviceConnection.Flags := F\<rparr>) t" by blast
  have c: "dconn L s' = (dconn L s)(i \<mapsto> fresh_device_conn\<lparr>xRD_DeviceConnection.ConnectionId := i,
      xRD_DeviceConnection.IdleTimestamMS := DeviceTicker s, xRD_DeviceConnection.Flags := F\<rparr>)"
    by (simp add: t dconn_write ct fun_eq_iff)
  have l: "itC (DeviceLists s') = (itC (DeviceLists s))(NewConnectionList := itC (DeviceLists s) NewConnectionList @ [i])"
    by (simp add: t t_def dl.add_tail_items lists)
  have mk: "\<not> HasMark_Delete F" using F by auto
  show "dev_links L itC s' = l_accept i (dev_links L itC s)"
    using mk new by (auto simp: dev_links_def l_accept_def c l fun_eq_iff) (simp_all add: t t_def)
  show "dev_good L itC s'" using g F by (auto simp: dev_good_def dev_typed_def c l)
  show "pconn L s' = pconn L s" "ProxyLists s' = ProxyLists s" "ProxyTicker s' = ProxyTicker s"
    "DevicePool s' = DevicePool s" "ContextPool s' = ContextPool s"
    by (simp_all add: t, simp_all add: t_def pconn_def fun_eq_iff)
qed

lemma dev_doom:
  "dev_links L itC (Device_DeferRelease L i s) = l_doom i (dev_links L itC s)"
  "dev_good L itC s \<Longrightarrow> dev_good L itC (Device_DeferRelease L i s)"
proof -
  show "dev_links L itC (Device_DeferRelease L i s) = l_doom i (dev_links L itC s)"
    by (cases "dconn L s i")
      (auto simp: Device_DeferRelease_def l_doom_def dev_links_def dconn_write dl.grab_tail_items fun_eq_iff)
  show "dev_good L itC (Device_DeferRelease L i s)" if "dev_good L itC s"
    using that by (cases "dconn L s i")
      (auto simp: Device_DeferRelease_def dev_good_def dev_typed_def dconn_write dl.grab_tail_items)
qed

lemma dev_keep:
  "dev_links L itC (Device_KeepAlive L i s) = l_keep i (dev_links L itC s)"
  "dev_good L itC s \<Longrightarrow> dev_good L itC (Device_KeepAlive L i s)"
proof -
  show "dev_links L itC (Device_KeepAlive L i s) = l_keep i (dev_links L itC s)"
    by (cases "dconn L s i")
      (auto simp: Device_KeepAlive_def l_keep_def dev_links_def dconn_write dl.grab_tail_items fun_eq_iff)
  show "dev_good L itC (Device_KeepAlive L i s)" if "dev_good L itC s"
    using that by (cases "dconn L s i")
      (auto simp: Device_KeepAlive_def dev_good_def dev_typed_def dconn_write dl.grab_tail_items)
qed

end

context relay_env begin

lemma dev_pop:
  assumes pop: "pop_device L n T s = Some (i, s')"
  shows "itC (DeviceLists s) n = i # itC (DeviceLists s') n" "m \<noteq> n \<Longrightarrow> itC (DeviceLists s') m = itC (DeviceLists s) m"
    "dconn L s' = dconn L s" "DeviceTicker s' = DeviceTicker s"
    "T = Some K \<Longrightarrow> on_time (dev_links L itC s) K i"
proof -
  obtain l where l: "li_pop_head (rl_dlists L) (DeviceLists s) n
      (\<lambda>i. case T of None \<Rightarrow> True
          | Some T \<Rightarrow> (case dconn L s i of Some c \<Rightarrow> xRD_DeviceConnection.IdleTimestamMS c \<le> T | None \<Rightarrow> False)) = Some (i, l)"
    "s' = s\<lparr>DeviceLists := l\<rparr>" using pop by (auto simp: pop_device_def)
  note h = dl.pop_head_Some [OF l(1)]
  show "itC (DeviceLists s) n = i # itC (DeviceLists s') n" "m \<noteq> n \<Longrightarrow> itC (DeviceLists s') m = itC (DeviceLists s) m"
    "dconn L s' = dconn L s" "DeviceTicker s' = DeviceTicker s" using h(2,3) by (simp_all add: l(2))
  show "on_time (dev_links L itC s) K i" if "T = Some K"
    using h(1) that by (cases "dconn L s i") (simp_all add: on_time_def dev_links_def)
qed

lemma dev_pop_None:
  "pop_device L n (Some K) s = None \<Longrightarrow> itC (DeviceLists s) n = [] \<or>
    \<not> on_time (dev_links L itC s) K (hd (itC (DeviceLists s) n))"
  "pop_device L n None s = None \<Longrightarrow> itC (DeviceLists s) n = []"
  by (cases "dconn L s (hd (itC (DeviceLists s) n))";
      simp add: pop_device_def dl.pop_head_None on_time_def dev_links_def)+

lemma dev_late:
  assumes p: "parted (dev_links L itC s)" and pop: "pop_device L n (Some K) s = Some (i, s')"
    and n: "n = NewConnectionList \<or> n = IdleConnectionList"
  shows "itC (DeviceLists s) n = i # itC (DeviceLists s') n"
    "dev_links L itC (kill_device_conn L i s') = (dev_links L itC s)
       \<lparr>l_young := (if n = NewConnectionList then itC (DeviceLists s') n else l_young (dev_links L itC s)),
        l_idle := (if n = IdleConnectionList then itC (DeviceLists s') n else l_idle (dev_links L itC s)),
        l_doomed := l_doomed (dev_links L itC s) @ [i]\<rparr>"
    "dev_good L itC s \<Longrightarrow> dev_good L itC (kill_device_conn L i s')"
proof -
  note d = dev_pop [OF pop]
  show "itC (DeviceLists s) n = i # itC (DeviceLists s') n" by (rule d(1))
  have dist: "distinct (itC (DeviceLists s) NewConnectionList @ itC (DeviceLists s) IdleConnectionList @
      itC (DeviceLists s) KillConnectionList)" using p by (simp add: parted_def dev_links_def)
  show "dev_good L itC (kill_device_conn L i s')" if "dev_good L itC s"
    using that d(2) [of SlowKillConnectionList] n d(3)
    by (auto simp: dev_good_def dev_typed_def kill_device_conn_def dl.grab_tail_items)
  show "dev_links L itC (kill_device_conn L i s') = (dev_links L itC s)
       \<lparr>l_young := (if n = NewConnectionList then itC (DeviceLists s') n else l_young (dev_links L itC s)),
        l_idle := (if n = IdleConnectionList then itC (DeviceLists s') n else l_idle (dev_links L itC s)),
        l_doomed := l_doomed (dev_links L itC s) @ [i]\<rparr>"
    using n dist d(1) d(2) [of NewConnectionList] d(2) [of IdleConnectionList] d(2) [of KillConnectionList]
    by (elim disjE) (simp_all add: dev_links_def kill_device_conn_def dl.grab_tail_items d(3,4))
qed

lemma dev_destroy:
  assumes p: "parted (dev_links L itC s)" and g: "dev_good L itC s"
    and pop: "pop_device L KillConnectionList None s = Some (i, s')"
  shows "l_doomed (dev_links L itC s) = i # tl (l_doomed (dev_links L itC s)) \<and>
    dev_links L itC (Device_DestroyConnection L i s') = (dev_links L itC s)
      \<lparr>l_doomed := tl (l_doomed (dev_links L itC s)), l_time := (l_time (dev_links L itC s))(i := None),
       l_marked := l_marked (dev_links L itC s) - {i}\<rparr>"
proof -
  note d = dev_pop [OF pop]
  have k: "l_doomed (dev_links L itC s) = i # itC (DeviceLists s') KillConnectionList"
    using d(1) by (simp add: dev_links_def)
  have "i \<in> dom (l_time (dev_links L itC s))" using parted_dom(3) [OF p] k by auto
  then obtain c where c: "dconn L s i = Some c" by (auto simp: dev_links_def)
  then have "xRD_DeviceConnection.ConnectionId c = i" using g by (simp add: dev_good_def dev_typed_def)
  then have e: "Device_DestroyConnection L i s' = s'\<lparr>DeviceConns := st_release (rl_dconns L) (DeviceConns s') i,
      DeviceLists := li_remove (rl_dlists L) (DeviceLists s') i\<rparr>"
    using c d(3) by (simp add: Device_DestroyConnection_def)
  have conns: "dconn L (s'\<lparr>DeviceConns := st_release (rl_dconns L) (DeviceConns s') i\<rparr>) = (dconn L s)(i := None)"
    using d(3) by (simp add: dconn_def fun_eq_iff dc.release_get)
  have "distinct (itC (DeviceLists s) NewConnectionList @ itC (DeviceLists s) IdleConnectionList @
      itC (DeviceLists s) KillConnectionList)" using p by (simp add: parted_def dev_links_def)
  then have "dev_links L itC (Device_DestroyConnection L i s') = (dev_links L itC s)
      \<lparr>l_doomed := itC (DeviceLists s') KillConnectionList, l_time := (l_time (dev_links L itC s))(i := None),
       l_marked := l_marked (dev_links L itC s) - {i}\<rparr>"
    using d(1) d(2) [of NewConnectionList] d(2) [of IdleConnectionList]
    by (auto simp: e dev_links_def conns dl.remove_items d(4) fun_eq_iff split: if_splits)
  with k show ?thesis by simp
qed

lemma dev_destroy_good:
  assumes g: "dev_good L itC s" and pop: "pop_device L KillConnectionList None s = Some (i, s')"
  shows "dev_good L itC (Device_DestroyConnection L i s')"
proof (cases "dconn L s i")
  case None
  then show ?thesis using g dev_pop(2,3) [OF pop]
    by (simp add: Device_DestroyConnection_def dev_good_def dev_typed_def)
next
  case (Some c)
  then have i: "xRD_DeviceConnection.ConnectionId c = i" using g by (simp add: dev_good_def dev_typed_def)
  have "dconn L (s'\<lparr>DeviceConns := st_release (rl_dconns L) (DeviceConns s') i\<rparr>) = (dconn L s)(i := None)"
    using dev_pop(3) [OF pop] by (simp add: dconn_def fun_eq_iff dc.release_get)
  then show ?thesis using g Some i dev_pop(2,3) [OF pop]
    by (simp add: Device_DestroyConnection_def dev_good_def dev_typed_def dl.remove_items)
qed

end

sublocale relay_env \<subseteq> dev: link_manager "dev_links L itC" "dev_good L itC" "dev_accepted L"
  "Device_KeepAlive L" "Device_DeferRelease L" "Device_DestroyConnection L"
  "\<lambda>T. pop_device L NewConnectionList (Some T)" "\<lambda>T. pop_device L IdleConnectionList (Some T)"
  "pop_device L KillConnectionList None" "kill_device_conn L"
proof unfold_locales
  fix s s' i T
  let ?v = "dev_links L itC s"
  show "l_time ?v i = None \<and> dev_links L itC s' = l_accept i ?v \<and> dev_good L itC s'"
    if "parted ?v" "dev_good L itC s" "dev_accepted L i s s'" using dev_accept [OF that] by blast
  show "dev_good L itC (kill_device_conn L i s')"
    if "dev_good L itC s" "pop_device L NewConnectionList (Some T) s = Some (i, s')"
    using that dev_pop(2) [OF that(2), of SlowKillConnectionList] dev_pop(3) [OF that(2)]
    by (auto simp: dev_good_def dev_typed_def kill_device_conn_def dl.grab_tail_items)
  show "dev_good L itC (kill_device_conn L i s')"
    if "dev_good L itC s" "pop_device L IdleConnectionList (Some T) s = Some (i, s')"
    using that dev_pop(2) [OF that(2), of SlowKillConnectionList] dev_pop(3) [OF that(2)]
    by (auto simp: dev_good_def dev_typed_def kill_device_conn_def dl.grab_tail_items)
  show "l_young ?v = [] \<or> \<not> on_time ?v T (hd (l_young ?v))" if "pop_device L NewConnectionList (Some T) s = None"
    using dev_pop_None(1) [OF that] by (simp add: dev_links_def)
  show "l_idle ?v = [] \<or> \<not> on_time ?v T (hd (l_idle ?v))" if "pop_device L IdleConnectionList (Some T) s = None"
    using dev_pop_None(1) [OF that] by (simp add: dev_links_def)
  show "l_doomed ?v = []" if "pop_device L KillConnectionList None s = None"
    using dev_pop_None(2) [OF that] by (simp add: dev_links_def)
  show "on_time ?v T i \<and> (\<exists>m \<subseteq> insert i (l_marked ?v). l_young ?v = i # tl (l_young ?v) \<and>
      dev_links L itC (kill_device_conn L i s') =
        ?v\<lparr>l_young := tl (l_young ?v), l_doomed := l_doomed ?v @ [i], l_marked := m\<rparr>)"
    if p: "parted ?v" and pop: "pop_device L NewConnectionList (Some T) s = Some (i, s')"
  proof -
    have l: "l_young ?v = i # itC (DeviceLists s') NewConnectionList" using dev_late(1) [OF p pop] by (simp add: dev_links_def)
    have "dev_links L itC (kill_device_conn L i s') =
        ?v\<lparr>l_young := tl (l_young ?v), l_doomed := l_doomed ?v @ [i], l_marked := l_marked ?v\<rparr>"
      unfolding l using dev_late(2) [OF p pop] by (simp add: links_young)
    moreover have "l_marked ?v \<subseteq> insert i (l_marked ?v)" by (rule subset_insertI)
    ultimately show ?thesis using dev_pop(5) [OF pop refl] arg_cong [OF l, of tl] l by (metis list.sel(3))
  qed
  show "on_time ?v T i \<and> (\<exists>m \<subseteq> insert i (l_marked ?v). l_idle ?v = i # tl (l_idle ?v) \<and>
      dev_links L itC (kill_device_conn L i s') =
        ?v\<lparr>l_idle := tl (l_idle ?v), l_doomed := l_doomed ?v @ [i], l_marked := m\<rparr>)"
    if p: "parted ?v" and pop: "pop_device L IdleConnectionList (Some T) s = Some (i, s')"
  proof -
    have l: "l_idle ?v = i # itC (DeviceLists s') IdleConnectionList" using dev_late(1) [OF p pop] by (simp add: dev_links_def)
    have "dev_links L itC (kill_device_conn L i s') =
        ?v\<lparr>l_idle := tl (l_idle ?v), l_doomed := l_doomed ?v @ [i], l_marked := l_marked ?v\<rparr>"
      unfolding l using dev_late(2) [OF p pop] by (simp add: links_idle)
    moreover have "l_marked ?v \<subseteq> insert i (l_marked ?v)" by (rule subset_insertI)
    ultimately show ?thesis using dev_pop(5) [OF pop refl] arg_cong [OF l, of tl] l by (metis list.sel(3))
  qed
  show "dev_links L itC (Device_DeferRelease L i s) = l_doom i ?v" by (rule dev_doom(1))
  show "dev_links L itC (Device_KeepAlive L i s) = l_keep i ?v \<or> dev_links L itC (Device_KeepAlive L i s) = ?v"
    by (rule disjI1) (rule dev_keep(1))
qed (fact dev_doom(2) dev_keep(2) dev_destroy_good dev_destroy)+

context relay_env begin

lemma proxy_accept:
  assumes p: "parted (proxy_links L itP s)" and g: "proxy_typed L s" and a: "proxy_accepted L i s s'"
  shows "l_time (proxy_links L itP s) i = None" "proxy_links L itP s' = l_accept i (proxy_links L itP s)"
    "proxy_typed L s'" "dconn L s' = dconn L s" "DeviceLists s' = DeviceLists s" "DeviceTicker s' = DeviceTicker s"
    "DevicePool s' = DevicePool s" "ContextPool s' = ContextPool s"
proof -
  obtain p where acq: "st_acquire (rl_pconns L) (ProxyConns s) = (i, p)" and i: "i \<noteq> 0"
    using a by (cases "st_acquire (rl_pconns L) (ProxyConns s)") (auto simp: proxy_accepted_def)
  define t where "t = s\<lparr>ProxyConns := st_put (rl_pconns L) p i
    (fresh_proxy_conn\<lparr>xRD_ProxyConnection.ConnectionId := i, xRD_ProxyConnection.IdleTimestamMS := ProxyTicker s\<rparr>),
    ProxyLists := li_add_tail (rl_plists L) (ProxyLists s) ChallengeConnectionList i\<rparr>"
  have new: "pconn L s i = None" using pc.acquire_new [OF acq i] by (simp add: pconn_def)
  then show time: "l_time (proxy_links L itP s) i = None" by (simp add: proxy_links_def)
  have lists: "i \<notin> set (itP (ProxyLists s) m)" for m
    using parted_notin [OF p time] by (cases m) (simp_all add: proxy_links_def)
  have ct: "pconn L t = (pconn L s)(i \<mapsto> fresh_proxy_conn\<lparr>xRD_ProxyConnection.ConnectionId := i,
      xRD_ProxyConnection.IdleTimestamMS := ProxyTicker s\<rparr>)"
    using pc.acquire_get [OF acq i] by (simp add: t_def pconn_def fun_eq_iff pc.put_get)
  have e: "OnNewConnection L ProxyServer True s = write_pconn L i (\<lambda>c. c\<lparr>xRD_ProxyConnection.Flags :=
        SetType_ProxyClient (xRD_ProxyConnection.Flags c)\<rparr>) t"
    using i by (simp add: OnNewConnection_def Proxy_CreateConnection_def Let_def acq t_def)
  have f: "write_pconn L i (\<lambda>c. c\<lparr>xRD_ProxyConnection.Flags := SetType_ProxyClient (xRD_ProxyConnection.Flags c)\<rparr>) t =
      write_pconn L i (\<lambda>c. c\<lparr>xRD_ProxyConnection.Flags := SetType_ProxyClient 0\<rparr>) t"
    by (simp add: write_pconn_def ct fresh_proxy_conn_def)
  have t: "s' = write_pconn L i (\<lambda>c. c\<lparr>xRD_ProxyConnection.Flags := SetType_ProxyClient 0\<rparr>) t"
    using a unfolding proxy_accepted_def e f by blast
  have c: "pconn L s' = (pconn L s)(i \<mapsto> fresh_proxy_conn\<lparr>xRD_ProxyConnection.ConnectionId := i,
      xRD_ProxyConnection.IdleTimestamMS := ProxyTicker s, xRD_ProxyConnection.Flags := SetType_ProxyClient 0\<rparr>)"
    by (simp add: t pconn_write ct fun_eq_iff)
  have l: "itP (ProxyLists s') = (itP (ProxyLists s))(ChallengeConnectionList := itP (ProxyLists s) ChallengeConnectionList @ [i])"
    by (simp add: t t_def pl.add_tail_items lists)
  show "proxy_links L itP s' = l_accept i (proxy_links L itP s)"
    using new by (auto simp: proxy_links_def l_accept_def c l fun_eq_iff) (simp_all add: t t_def)
  show "proxy_typed L s'" using g by (auto simp: proxy_typed_def c)
  show "dconn L s' = dconn L s" "DeviceLists s' = DeviceLists s" "DeviceTicker s' = DeviceTicker s"
    "DevicePool s' = DevicePool s" "ContextPool s' = ContextPool s"
    by (simp_all add: t, simp_all add: t_def dconn_def fun_eq_iff)
qed

lemma proxy_doom:
  "proxy_links L itP (Proxy_DeferRelease L i s) = l_doom i (proxy_links L itP s)"
  "proxy_typed L s \<Longrightarrow> proxy_typed L (Proxy_DeferRelease L i s)"
proof -
  show "proxy_links L itP (Proxy_DeferRelease L i s) = l_doom i (proxy_links L itP s)"
    by (cases "pconn L s i")
      (auto simp: Proxy_DeferRelease_def l_doom_def proxy_links_def pconn_write pl.grab_tail_items fun_eq_iff)
  show "proxy_typed L (Proxy_DeferRelease L i s)" if "proxy_typed L s"
    using that by (cases "pconn L s i") (auto simp: Proxy_DeferRelease_def proxy_typed_def pconn_write)
qed

lemma proxy_keep:
  "proxy_links L itP (Proxy_KeepAlive L i s) = l_keep i (proxy_links L itP s) \<or>
   proxy_links L itP (Proxy_KeepAlive L i s) = proxy_links L itP s"
  "proxy_typed L s \<Longrightarrow> proxy_typed L (Proxy_KeepAlive L i s)"
proof -
  show "proxy_links L itP (Proxy_KeepAlive L i s) = l_keep i (proxy_links L itP s) \<or>
      proxy_links L itP (Proxy_KeepAlive L i s) = proxy_links L itP s"
  proof (cases "pconn L s i")
    case (Some c)
    then show ?thesis
      by (cases "ChallengeReady c")
        (auto simp: Proxy_KeepAlive_def l_keep_def proxy_links_def pconn_write pl.grab_tail_items fun_eq_iff)
  qed (simp add: Proxy_KeepAlive_def)
  show "proxy_typed L (Proxy_KeepAlive L i s)" if "proxy_typed L s"
    using that by (cases "pconn L s i") (auto simp: Proxy_KeepAlive_def proxy_typed_def pconn_write)
qed

lemma proxy_pop:
  assumes pop: "pop_proxy L n T s = Some (i, s')"
  shows "itP (ProxyLists s) n = i # itP (ProxyLists s') n" "m \<noteq> n \<Longrightarrow> itP (ProxyLists s') m = itP (ProxyLists s) m"
    "pconn L s' = pconn L s" "ProxyTicker s' = ProxyTicker s"
    "T = Some K \<Longrightarrow> on_time (proxy_links L itP s) K i"
proof -
  obtain l where l: "li_pop_head (rl_plists L) (ProxyLists s) n
      (\<lambda>i. case T of None \<Rightarrow> True
          | Some T \<Rightarrow> (case pconn L s i of Some c \<Rightarrow> xRD_ProxyConnection.IdleTimestamMS c \<le> T | None \<Rightarrow> False)) = Some (i, l)"
    "s' = s\<lparr>ProxyLists := l\<rparr>" using pop by (auto simp: pop_proxy_def)
  note h = pl.pop_head_Some [OF l(1)]
  show "itP (ProxyLists s) n = i # itP (ProxyLists s') n" "m \<noteq> n \<Longrightarrow> itP (ProxyLists s') m = itP (ProxyLists s) m"
    "pconn L s' = pconn L s" "ProxyTicker s' = ProxyTicker s" using h(2,3) by (simp_all add: l(2))
  show "on_time (proxy_links L itP s) K i" if "T = Some K"
    using h(1) that by (cases "pconn L s i") (simp_all add: on_time_def proxy_links_def)
qed

lemma proxy_pop_None:
  "pop_proxy L n (Some K) s = None \<Longrightarrow> itP (ProxyLists s) n = [] \<or>
    \<not> on_time (proxy_links L itP s) K (hd (itP (ProxyLists s) n))"
  "pop_proxy L n None s = None \<Longrightarrow> itP (ProxyLists s) n = []"
  by (cases "pconn L s (hd (itP (ProxyLists s) n))";
      simp add: pop_proxy_def pl.pop_head_None on_time_def proxy_links_def)+

lemma proxy_late:
  assumes p: "parted (proxy_links L itP s)" and mk: "l_marked (proxy_links L itP s) \<subseteq> set (l_doomed (proxy_links L itP s))"
    and pop: "pop_proxy L n (Some K) s = Some (i, s')" and n: "n = ChallengeConnectionList \<or> n = IdleProxyList"
  shows "itP (ProxyLists s) n = i # itP (ProxyLists s') n"
    "proxy_links L itP (Proxy_DeferRelease L i s') = (proxy_links L itP s)
       \<lparr>l_young := (if n = ChallengeConnectionList then itP (ProxyLists s') n else l_young (proxy_links L itP s)),
        l_idle := (if n = IdleProxyList then itP (ProxyLists s') n else l_idle (proxy_links L itP s)),
        l_doomed := l_doomed (proxy_links L itP s) @ [i], l_marked := insert i (l_marked (proxy_links L itP s))\<rparr>"
proof -
  note d = proxy_pop [OF pop]
  show "itP (ProxyLists s) n = i # itP (ProxyLists s') n" by (rule d(1))
  have dist: "distinct (itP (ProxyLists s) ChallengeConnectionList @ itP (ProxyLists s) IdleProxyList @
      itP (ProxyLists s) KillProxyList)" using p by (simp add: parted_def proxy_links_def)
  have "i \<in> set (itP (ProxyLists s) n)" using d(1) by simp
  moreover from this have "i \<in> dom (l_time (proxy_links L itP s))"
    using n parted_dom(1,2) [OF p] by (auto simp: proxy_links_def)
  ultimately have live: "l_time (proxy_links L itP s') i \<noteq> None" "i \<notin> l_marked (proxy_links L itP s')"
    using mk dist n by (auto simp: proxy_links_def d(3))
  show "proxy_links L itP (Proxy_DeferRelease L i s') = (proxy_links L itP s)
       \<lparr>l_young := (if n = ChallengeConnectionList then itP (ProxyLists s') n else l_young (proxy_links L itP s)),
        l_idle := (if n = IdleProxyList then itP (ProxyLists s') n else l_idle (proxy_links L itP s)),
        l_doomed := l_doomed (proxy_links L itP s) @ [i], l_marked := insert i (l_marked (proxy_links L itP s))\<rparr>"
    unfolding proxy_doom(1) l_doom_def
    using live n dist d(1) d(2) [of ChallengeConnectionList] d(2) [of IdleProxyList] d(2) [of KillProxyList]
    by (elim disjE) (simp_all add: proxy_links_def d(3,4))
qed

lemma proxy_destroy:
  assumes p: "parted (proxy_links L itP s)" and g: "proxy_typed L s"
    and pop: "pop_proxy L KillProxyList None s = Some (i, s')"
  shows "l_doomed (proxy_links L itP s) = i # tl (l_doomed (proxy_links L itP s)) \<and>
    proxy_links L itP (Proxy_DestroyConnection L i s') = (proxy_links L itP s)
      \<lparr>l_doomed := tl (l_doomed (proxy_links L itP s)), l_time := (l_time (proxy_links L itP s))(i := None),
       l_marked := l_marked (proxy_links L itP s) - {i}\<rparr>"
proof -
  note d = proxy_pop [OF pop]
  have k: "l_doomed (proxy_links L itP s) = i # itP (ProxyLists s') KillProxyList"
    using d(1) by (simp add: proxy_links_def)
  have "i \<in> dom (l_time (proxy_links L itP s))" using parted_dom(3) [OF p] k by auto
  then obtain c where c: "pconn L s i = Some c" by (auto simp: proxy_links_def)
  then have "xRD_ProxyConnection.ConnectionId c = i" using g by (simp add: proxy_typed_def)
  then have e: "Proxy_DestroyConnection L i s' = s'\<lparr>ProxyConns := st_release (rl_pconns L) (ProxyConns s') i,
      ProxyLists := li_remove (rl_plists L) (ProxyLists s') i\<rparr>"
    using c d(3) by (simp add: Proxy_DestroyConnection_def)
  have conns: "pconn L (s'\<lparr>ProxyConns := st_release (rl_pconns L) (ProxyConns s') i\<rparr>) = (pconn L s)(i := None)"
    using d(3) by (simp add: pconn_def fun_eq_iff pc.release_get)
  have "distinct (itP (ProxyLists s) ChallengeConnectionList @ itP (ProxyLists s) IdleProxyList @
      itP (ProxyLists s) KillProxyList)" using p by (simp add: parted_def proxy_links_def)
  then have "proxy_links L itP (Proxy_DestroyConnection L i s') = (proxy_links L itP s)
      \<lparr>l_doomed := itP (ProxyLists s') KillProxyList, l_time := (l_time (proxy_links L itP s))(i := None),
       l_marked := l_marked (proxy_links L itP s) - {i}\<rparr>"
    using d(1) d(2) [of ChallengeConnectionList] d(2) [of IdleProxyList]
    by (auto simp: e proxy_links_def conns pl.remove_items d(4) fun_eq_iff split: if_splits)
  with k show ?thesis by simp
qed

lemma proxy_destroy_good:
  assumes g: "proxy_typed L s" and pop: "pop_proxy L KillProxyList None s = Some (i, s')"
  shows "proxy_typed L (Proxy_DestroyConnection L i s')"
proof (cases "pconn L s i")
  case None
  then show ?thesis using g proxy_pop(3) [OF pop] by (simp add: Proxy_DestroyConnection_def proxy_typed_def)
next
  case (Some c)
  then have i: "xRD_ProxyConnection.ConnectionId c = i" using g by (simp add: proxy_typed_def)
  have "pconn L (s'\<lparr>ProxyConns := st_release (rl_pconns L) (ProxyConns s') i\<rparr>) = (pconn L s)(i := None)"
    using proxy_pop(3) [OF pop] by (simp add: pconn_def fun_eq_iff pc.release_get)
  then show ?thesis using g Some i proxy_pop(3) [OF pop] by (simp add: Proxy_DestroyConnection_def proxy_typed_def)
qed

end

lemma links_young_marked: "v\<lparr>l_young := a, l_idle := l_idle v, l_doomed := d, l_marked := m\<rparr> = v\<lparr>l_young := a, l_doomed := d, l_marked := m\<rparr>"
  by (cases v) simp

lemma links_idle_marked: "v\<lparr>l_young := l_young v, l_idle := a, l_doomed := d, l_marked := m\<rparr> = v\<lparr>l_idle := a, l_doomed := d, l_marked := m\<rparr>"
  by (cases v) simp

sublocale relay_env \<subseteq> prx: link_manager "proxy_links L itP" "proxy_typed L" "proxy_accepted L"
  "Proxy_KeepAlive L" "Proxy_DeferRelease L" "Proxy_DestroyConnection L"
  "\<lambda>T. pop_proxy L ChallengeConnectionList (Some T)" "\<lambda>T. pop_proxy L IdleProxyList (Some T)"
  "pop_proxy L KillProxyList None" "Proxy_DeferRelease L"
proof unfold_locales
  fix s s' i T
  let ?v = "proxy_links L itP s"
  show "l_time ?v i = None \<and> proxy_links L itP s' = l_accept i ?v \<and> proxy_typed L s'"
    if "parted ?v" "proxy_typed L s" "proxy_accepted L i s s'" using proxy_accept [OF that] by blast
  show "proxy_typed L (Proxy_DeferRelease L i s')"
    if "proxy_typed L s" "pop_proxy L ChallengeConnectionList (Some T) s = Some (i, s')"
    by (rule proxy_doom(2)) (use that proxy_pop(3) [OF that(2)] in \<open>simp add: proxy_typed_def\<close>)
  show "proxy_typed L (Proxy_DeferRelease L i s')"
    if "proxy_typed L s" "pop_proxy L IdleProxyList (Some T) s = Some (i, s')"
    by (rule proxy_doom(2)) (use that proxy_pop(3) [OF that(2)] in \<open>simp add: proxy_typed_def\<close>)
  show "l_young ?v = [] \<or> \<not> on_time ?v T (hd (l_young ?v))" if "pop_proxy L ChallengeConnectionList (Some T) s = None"
    using proxy_pop_None(1) [OF that] by (simp add: proxy_links_def)
  show "l_idle ?v = [] \<or> \<not> on_time ?v T (hd (l_idle ?v))" if "pop_proxy L IdleProxyList (Some T) s = None"
    using proxy_pop_None(1) [OF that] by (simp add: proxy_links_def)
  show "l_doomed ?v = []" if "pop_proxy L KillProxyList None s = None"
    using proxy_pop_None(2) [OF that] by (simp add: proxy_links_def)
  show "on_time ?v T i \<and> (\<exists>m \<subseteq> insert i (l_marked ?v). l_young ?v = i # tl (l_young ?v) \<and>
      proxy_links L itP (Proxy_DeferRelease L i s') =
        ?v\<lparr>l_young := tl (l_young ?v), l_doomed := l_doomed ?v @ [i], l_marked := m\<rparr>)"
    if p: "parted ?v" and mk: "l_marked ?v \<subseteq> set (l_doomed ?v)" and pop: "pop_proxy L ChallengeConnectionList (Some T) s = Some (i, s')"
  proof -
    have l: "l_young ?v = i # itP (ProxyLists s') ChallengeConnectionList"
      using proxy_late(1) [OF p mk pop] by (simp add: proxy_links_def)
    have "proxy_links L itP (Proxy_DeferRelease L i s') =
        ?v\<lparr>l_young := tl (l_young ?v), l_doomed := l_doomed ?v @ [i], l_marked := insert i (l_marked ?v)\<rparr>"
      unfolding l using proxy_late(2) [OF p mk pop] by (simp add: links_young_marked)
    then show ?thesis using proxy_pop(5) [OF pop refl] arg_cong [OF l, of tl] l by (metis list.sel(3) subset_refl)
  qed
  show "on_time ?v T i \<and> (\<exists>m \<subseteq> insert i (l_marked ?v). l_idle ?v = i # tl (l_idle ?v) \<and>
      proxy_links L itP (Proxy_DeferRelease L i s') =
        ?v\<lparr>l_idle := tl (l_idle ?v), l_doomed := l_doomed ?v @ [i], l_marked := m\<rparr>)"
    if p: "parted ?v" and mk: "l_marked ?v \<subseteq> set (l_doomed ?v)" and pop: "pop_proxy L IdleProxyList (Some T) s = Some (i, s')"
  proof -
    have l: "l_idle ?v = i # itP (ProxyLists s') IdleProxyList"
      using proxy_late(1) [OF p mk pop] by (simp add: proxy_links_def)
    have "proxy_links L itP (Proxy_DeferRelease L i s') =
        ?v\<lparr>l_idle := tl (l_idle ?v), l_doomed := l_doomed ?v @ [i], l_marked := insert i (l_marked ?v)\<rparr>"
      unfolding l using proxy_late(2) [OF p mk pop] by (simp add: links_idle_marked)
    then show ?thesis using proxy_pop(5) [OF pop refl] arg_cong [OF l, of tl] l by (metis list.sel(3) subset_refl)
  qed
  show "proxy_links L itP (Proxy_DeferRelease L i s) = l_doom i ?v" by (rule proxy_doom(1))
qed (fact proxy_doom(2) proxy_keep proxy_destroy_good proxy_destroy)+

end
