(* ===== verification/RelayServer.thy ===== *)
theory RelayServer
  imports RelayLinks
begin

text \<open>
  The device relay server as a whole: the events that drive it, the states they reach, what holds in
  all of them, the path of a client's data through a relay context, and where the code leaves that
  path.
\<close>

subsection \<open>Events\<close>

datatype rd_event =
    Arrive tcp_server bool
  | Packet link u32 u64 bytes
  | Alive link
  | Close link
  | TickDevices u64
  | TickProxies u64

definition rd_step ::
    "('c, 'cl, 'p, 'pl, 'd, 'dl, 'r, 'a) rd_lib \<Rightarrow> rd_event \<Rightarrow> ('c, 'cl, 'p, 'pl, 'd, 'dl, 'r) relay_server \<Rightarrow>
     ('c, 'cl, 'p, 'pl, 'd, 'dl, 'r) relay_server handled option" where
  "rd_step L ev s =
     (case ev of
        Arrive srv init_ok \<Rightarrow> Some (Inr (True, [], OnNewConnection L srv init_ok s))
      | Packet l Cmd Req Payload \<Rightarrow> Some (OnPacket L l Cmd Req Payload s)
      | Alive l \<Rightarrow> Some (and_then (OnKeepAlive L l s) (\<lambda>(out, t). Inr (True, out, t)))
      | Close l \<Rightarrow> Some (and_then (OnPeerClose L l s) (\<lambda>(out, t). Inr (True, out, t)))
      | TickDevices now \<Rightarrow> map_option (\<lambda>t. Inr (True, [], t)) (Device_Tick L now s)
      | TickProxies now \<Rightarrow> map_option (\<lambda>t. Inr (True, [], t)) (Proxy_Tick L now s))"

text \<open>The clock does not run backwards.\<close>

fun clock_ok :: "rd_event \<Rightarrow> ('c, 'cl, 'p, 'pl, 'd, 'dl, 'r) relay_server \<Rightarrow> bool" where
  "clock_ok (TickDevices now) s \<longleftrightarrow> DeviceTicker s \<le> now"
| "clock_ok (TickProxies now) s \<longleftrightarrow> ProxyTicker s \<le> now"
| "clock_ok _ s \<longleftrightarrow> True"

inductive relay_reach ::
    "('c, 'cl, 'p, 'pl, 'd, 'dl, 'r, 'a) rd_lib \<Rightarrow> ('c, 'cl, 'p, 'pl, 'd, 'dl, 'r) relay_server \<Rightarrow>
     ('c, 'cl, 'p, 'pl, 'd, 'dl, 'r) relay_server \<Rightarrow> bool" for L s0 where
  init: "relay_reach L s0 s0"
| step: "relay_reach L s0 s \<Longrightarrow> clock_ok ev s \<Longrightarrow> rd_step L ev s = Some (Inr (ok, out, t)) \<Longrightarrow> relay_reach L s0 t"

subsection \<open>What every event keeps\<close>

definition server_ok where
  "server_ok L itC itP s \<longleftrightarrow> links_ok (dev_links L itC s) \<and> dev_good L itC s \<and>
     links_ok (proxy_links L itP s) \<and> proxy_typed L s \<and>
     (\<forall>i c. relay L s i = Some c \<longrightarrow> xRD_RelayConnectionContext.RelaySideConnectionId c = i) \<and>
     (\<forall>d D. device L s d = Some D \<longrightarrow> DeviceRuntimeId D = d)"

lemma pop_loop_keeps:
  assumes "pop_loop pop body s = Some t" "I s" "\<And>s x s'. I s \<Longrightarrow> pop s = Some (x, s') \<Longrightarrow> I (body x s')"
  shows "I t"
proof -
  have "(\<forall>s x s'. I s \<longrightarrow> pop s = Some (x, s') \<longrightarrow> I (body x s')) \<longrightarrow> I s \<longrightarrow> I t"
  proof (rule pop_loop.raw_induct [OF _ assms(1)])
    fix loop :: "('a \<Rightarrow> ('b \<times> 'a) option) \<Rightarrow> ('b \<Rightarrow> 'a \<Rightarrow> 'a) \<Rightarrow> 'a \<Rightarrow> 'a option" and pop body s t
    assume IH: "\<And>pop body s t. loop pop body s = Some t \<Longrightarrow>
        (\<forall>s x s'. I s \<longrightarrow> pop s = Some (x, s') \<longrightarrow> I (body x s')) \<longrightarrow> I s \<longrightarrow> I t"
      and step: "(case pop s of None \<Rightarrow> Some s | Some q \<Rightarrow> loop pop body (body (fst q) (snd q))) = Some t"
    show "(\<forall>s x s'. I s \<longrightarrow> pop s = Some (x, s') \<longrightarrow> I (body x s')) \<longrightarrow> I s \<longrightarrow> I t"
    proof (cases "pop s")
      case None
      with step show ?thesis by simp
    next
      case (Some q)
      with step have "loop pop body (body (fst q) (snd q)) = Some t" by simp
      from IH [OF this] Some show ?thesis by (metis prod.collapse)
    qed
  qed
  with assms(2,3) show ?thesis by blast
qed

text \<open>\<open>t\<close> is a state in order that knows every relay context, up to the union, and every device of \<open>s\<close>.\<close>

definition same_context :: "xRD_RelayConnectionContext \<Rightarrow> xRD_RelayConnectionContext \<Rightarrow> bool" where
  "same_context c c' \<longleftrightarrow> c'\<lparr>PortOrDeviceSide := 0\<rparr> = c\<lparr>PortOrDeviceSide := 0\<rparr>"

definition extends where
  "extends L itC itP s t \<longleftrightarrow> server_ok L itC itP t \<and>
     (\<forall>i c. relay L s i = Some c \<longrightarrow> (\<exists>c'. relay L t i = Some c' \<and> same_context c c')) \<and>
     (\<forall>d. device L s d \<noteq> None \<longrightarrow> device L t d \<noteq> None)"

lemma relay_simps [simp]:
  "relay L (s\<lparr>DeviceTicker := n\<rparr>) = relay L s" "relay L (s\<lparr>DeviceLists := dl\<rparr>) = relay L s"
  "relay L (s\<lparr>DeviceConns := c\<rparr>) = relay L s" "relay L (s\<lparr>ProxyTicker := n\<rparr>) = relay L s"
  "relay L (s\<lparr>ProxyConns := p\<rparr>) = relay L s" "relay L (s\<lparr>ProxyLists := pl\<rparr>) = relay L s"
  "relay L (s\<lparr>DevicePool := d\<rparr>) = relay L s" "relay L (s\<lparr>DeviceKillList := k\<rparr>) = relay L s"
  by (simp_all add: relay_def fun_eq_iff)

lemma device_simps [simp]:
  "device L (s\<lparr>DeviceTicker := n\<rparr>) = device L s" "device L (s\<lparr>DeviceLists := dl\<rparr>) = device L s"
  "device L (s\<lparr>DeviceConns := c\<rparr>) = device L s" "device L (s\<lparr>ProxyTicker := n\<rparr>) = device L s"
  "device L (s\<lparr>ProxyConns := p\<rparr>) = device L s" "device L (s\<lparr>ProxyLists := pl\<rparr>) = device L s"
  "device L (s\<lparr>ContextPool := d\<rparr>) = device L s" "device L (s\<lparr>DeviceKillList := k\<rparr>) = device L s"
  by (simp_all add: device_def fun_eq_iff)

lemma relay_device_write [simp]:
  "relay L (write_dconn L i f s) = relay L s" "device L (write_dconn L i f s) = device L s"
  "relay L (write_pconn L i g s) = relay L s" "device L (write_pconn L i g s) = device L s"
  by (simp_all add: write_dconn_def write_pconn_def split: option.split)

lemma relay_device_ops [simp]:
  "relay L (Device_KeepAlive L i s) = relay L s" "device L (Device_KeepAlive L i s) = device L s"
  "relay L (Device_DeferRelease L i s) = relay L s" "device L (Device_DeferRelease L i s) = device L s"
  "relay L (Proxy_KeepAlive L i s) = relay L s" "device L (Proxy_KeepAlive L i s) = device L s"
  "relay L (Proxy_DeferRelease L i s) = relay L s" "device L (Proxy_DeferRelease L i s) = device L s"
  by (simp_all add: Device_KeepAlive_def Device_DeferRelease_def Proxy_KeepAlive_def Proxy_DeferRelease_def split: option.split)

lemma same_context_refl [simp]: "same_context c c" "same_context c (c\<lparr>PortOrDeviceSide := x\<rparr>)"
  by (simp_all add: same_context_def)

lemma same_context_trans: "same_context a b \<Longrightarrow> same_context b c \<Longrightarrow> same_context a c"
  by (simp add: same_context_def)

lemma dev_frame:
  assumes "dconn L t = dconn L s" "DeviceLists t = DeviceLists s" "DeviceTicker t = DeviceTicker s"
  shows "dev_links L itC t = dev_links L itC s" "dev_good L itC t = dev_good L itC s"
  using assms by (simp_all add: dev_links_def dev_good_def dev_typed_def)

lemma proxy_frame:
  assumes "pconn L t = pconn L s" "ProxyLists t = ProxyLists s" "ProxyTicker t = ProxyTicker s"
  shows "proxy_links L itP t = proxy_links L itP s" "proxy_typed L t = proxy_typed L s"
  using assms by (simp_all add: proxy_links_def proxy_typed_def)

lemma extends_refl: "server_ok L itC itP s \<Longrightarrow> extends L itC itP s s"
  by (simp add: extends_def)

text \<open>An operation on one manager leaves the others as they are.\<close>

lemma extends_dev:
  assumes "extends L itC itP s t" "relay L u = relay L t" "device L u = device L t"
    and "pconn L u = pconn L t" "ProxyLists u = ProxyLists t" "ProxyTicker u = ProxyTicker t"
    and "links_ok (dev_links L itC t) \<Longrightarrow> dev_good L itC t \<Longrightarrow> links_ok (dev_links L itC u) \<and> dev_good L itC u"
  shows "extends L itC itP s u"
  using assms(1-3,7) proxy_frame(1) [OF assms(4-6), of itP] proxy_frame(2) [OF assms(4-6)] by (simp add: extends_def server_ok_def)

lemma extends_proxy:
  assumes "extends L itC itP s t" "relay L u = relay L t" "device L u = device L t"
    and "dconn L u = dconn L t" "DeviceLists u = DeviceLists t" "DeviceTicker u = DeviceTicker t"
    and "links_ok (proxy_links L itP t) \<Longrightarrow> proxy_typed L t \<Longrightarrow> links_ok (proxy_links L itP u) \<and> proxy_typed L u"
  shows "extends L itC itP s u"
  using assms(1-3,7) dev_frame(1) [OF assms(4-6), of itC] dev_frame(2) [OF assms(4-6), of itC] by (simp add: extends_def server_ok_def)

context relay_env begin

lemma dev_unchanged [simp]:
  "dconn L (Proxy_KeepAlive L i s) = dconn L s" "DeviceLists (Proxy_KeepAlive L i s) = DeviceLists s"
  "DeviceTicker (Proxy_KeepAlive L i s) = DeviceTicker s"
  "dconn L (Proxy_DeferRelease L i s) = dconn L s" "DeviceLists (Proxy_DeferRelease L i s) = DeviceLists s"
  "DeviceTicker (Proxy_DeferRelease L i s) = DeviceTicker s"
  by (simp_all add: Proxy_KeepAlive_def Proxy_DeferRelease_def split: option.split)

lemma proxy_unchanged [simp]:
  "pconn L (Device_KeepAlive L i s) = pconn L s" "ProxyLists (Device_KeepAlive L i s) = ProxyLists s"
  "ProxyTicker (Device_KeepAlive L i s) = ProxyTicker s"
  "pconn L (Device_DeferRelease L i s) = pconn L s" "ProxyLists (Device_DeferRelease L i s) = ProxyLists s"
  "ProxyTicker (Device_DeferRelease L i s) = ProxyTicker s"
  by (simp_all add: Device_KeepAlive_def Device_DeferRelease_def split: option.split)

lemma extends_keep: "extends L itC itP s t \<Longrightarrow> extends L itC itP s (Device_KeepAlive L i t)"
  by (erule extends_dev) (simp_all add: dev.keep_ok dev.good_ops)

lemma extends_defer: "extends L itC itP s t \<Longrightarrow> extends L itC itP s (Device_DeferRelease L i t)"
  by (erule extends_dev) (simp_all add: dev.doom_ok dev.good_ops)

lemma extends_proxy_keep: "extends L itC itP s t \<Longrightarrow> extends L itC itP s (Proxy_KeepAlive L i t)"
  by (erule extends_proxy) (simp_all add: prx.keep_ok prx.good_ops)

lemma extends_proxy_defer: "extends L itC itP s t \<Longrightarrow> extends L itC itP s (Proxy_DeferRelease L i t)"
  by (erule extends_proxy) (simp_all add: prx.doom_ok prx.good_ops)

lemma extends_set_device:
  "extends L itC itP s t \<Longrightarrow> extends L itC itP s (write_dconn L i (\<lambda>c. c\<lparr>xRD_DeviceConnection.DeviceId := d\<rparr>) t)"
proof (erule extends_dev)
  let ?u = "write_dconn L i (\<lambda>c. c\<lparr>xRD_DeviceConnection.DeviceId := d\<rparr>) t"
  have "dev_links L itC ?u = dev_links L itC t"
    by (cases "dconn L t i") (auto simp: dev_links_def dconn_write fun_eq_iff)
  moreover have "dev_good L itC t \<Longrightarrow> dev_good L itC ?u"
    by (cases "dconn L t i") (auto simp: dev_good_def dev_typed_def dconn_write)
  ultimately show "links_ok (dev_links L itC ?u) \<and> dev_good L itC ?u" if "links_ok (dev_links L itC t)" "dev_good L itC t"
    using that by simp
qed simp_all

lemma extends_ready:
  "extends L itC itP s t \<Longrightarrow> extends L itC itP s (write_pconn L i (\<lambda>c. c\<lparr>ChallengeReady := b\<rparr>) t)"
proof (erule extends_proxy)
  let ?u = "write_pconn L i (\<lambda>c. c\<lparr>ChallengeReady := b\<rparr>) t"
  have "proxy_links L itP ?u = proxy_links L itP t"
    by (cases "pconn L t i") (auto simp: proxy_links_def pconn_write fun_eq_iff)
  moreover have "proxy_typed L t \<Longrightarrow> proxy_typed L ?u"
    by (cases "pconn L t i") (auto simp: proxy_typed_def pconn_write)
  ultimately show "links_ok (proxy_links L itP ?u) \<and> proxy_typed L ?u" if "links_ok (proxy_links L itP t)" "proxy_typed L t"
    using that by simp
qed simp_all

end

lemma extends_pools:
  assumes "extends L itC itP s t" "dconn L u = dconn L t" "DeviceLists u = DeviceLists t" "DeviceTicker u = DeviceTicker t"
    and "pconn L u = pconn L t" "ProxyLists u = ProxyLists t" "ProxyTicker u = ProxyTicker t"
    and "\<And>i c. relay L u i = Some c \<Longrightarrow> xRD_RelayConnectionContext.RelaySideConnectionId c = i"
    and "\<And>d D. device L u d = Some D \<Longrightarrow> DeviceRuntimeId D = d"
    and "\<And>i c. relay L s i = Some c \<Longrightarrow> \<exists>c'. relay L u i = Some c' \<and> same_context c c'"
    and "\<And>d. device L s d \<noteq> None \<Longrightarrow> device L u d \<noteq> None"
  shows "extends L itC itP s u"
  using assms(1,8-) dev_frame(1) [OF assms(2-4), of itC] dev_frame(2) [OF assms(2-4), of itC]
    proxy_frame(1) [OF assms(5-7), of itP] proxy_frame(2) [OF assms(5-7)]
  by (simp add: extends_def server_ok_def)

lemma extendsD:
  assumes "extends L itC itP s t"
  shows "relay L t i = Some c \<Longrightarrow> xRD_RelayConnectionContext.RelaySideConnectionId c = i"
    "device L t d = Some D \<Longrightarrow> DeviceRuntimeId D = d"
    "relay L s i = Some c \<Longrightarrow> \<exists>c'. relay L t i = Some c' \<and> same_context c c'"
    "device L s d \<noteq> None \<Longrightarrow> device L t d \<noteq> None"
  using assms by (simp_all add: extends_def server_ok_def)

context relay_env begin

lemma relay_put: "relay L s i \<noteq> None \<Longrightarrow> relay L (put_relay L i c s) = (relay L s)(i \<mapsto> c)"
  by (simp add: relay_def put_relay_def fun_eq_iff rc.put_get)

lemma device_put: "device L s (DeviceRuntimeId D) \<noteq> None \<Longrightarrow>
    device L (put_device L D s) = (device L s)(DeviceRuntimeId D \<mapsto> D)"
  by (simp add: device_def put_device_def fun_eq_iff dv.put_get)

lemma pool_simps [simp]:
  "device L (put_relay L i c s) = device L s" "dconn L (put_relay L i c s) = dconn L s"
  "pconn L (put_relay L i c s) = pconn L s"
  "relay L (put_device L D s) = relay L s" "dconn L (put_device L D s) = dconn L s" "pconn L (put_device L D s) = pconn L s"
  by (simp_all add: put_relay_def put_device_def device_def relay_def)

lemma pool_fields [simp]:
  "DeviceLists (put_relay L i c s) = DeviceLists s" "DeviceTicker (put_relay L i c s) = DeviceTicker s"
  "ProxyLists (put_relay L i c s) = ProxyLists s" "ProxyTicker (put_relay L i c s) = ProxyTicker s"
  "DeviceLists (put_device L D s) = DeviceLists s" "DeviceTicker (put_device L D s) = DeviceTicker s"
  "ProxyLists (put_device L D s) = ProxyLists s" "ProxyTicker (put_device L D s) = ProxyTicker s"
  by (simp_all add: put_relay_def put_device_def)

lemma extends_put_relay:
  assumes e: "extends L itC itP s t" and c: "relay L t i = Some c" and c': "same_context c c'"
  shows "extends L itC itP s (put_relay L i c' t)"
proof (rule extends_pools [OF e])
  note r = relay_put [of t i c'] c
  have i: "xRD_RelayConnectionContext.RelaySideConnectionId c' = i"
    using extendsD(1) [OF e c] c' by (cases c; cases c') (simp add: same_context_def)
  show "xRD_RelayConnectionContext.RelaySideConnectionId d = j" if "relay L (put_relay L i c' t) j = Some d" for j d
    using that r i extendsD(1) [OF e, of j d] by (cases "j = i") auto
  show "\<exists>d'. relay L (put_relay L i c' t) j = Some d' \<and> same_context d d'" if "relay L s j = Some d" for j d
    using extendsD(3) [OF e that] r c' same_context_trans [of d c c'] by (cases "j = i") auto
qed (use extendsD(2,4) [OF e] in simp_all)

lemma extends_put_device:
  assumes e: "extends L itC itP s t" and D: "device L t (DeviceRuntimeId D) \<noteq> None"
  shows "extends L itC itP s (put_device L D t)"
proof (rule extends_pools [OF e])
  show "DeviceRuntimeId E = d" if "device L (put_device L D t) d = Some E" for d E
    using that device_put [OF D] extendsD(2) [OF e, of d E] by (cases "d = DeviceRuntimeId D") auto
  show "device L (put_device L D t) d \<noteq> None" if "device L s d \<noteq> None" for d
    using device_put [OF D] extendsD(4) [OF e that] by simp
qed (use extendsD(1,3) [OF e] in simp_all)

lemma create_relay:
  assumes e: "extends L itC itP s s" and c: "CreateRelay L s = (i, t)"
  shows "extends L itC itP s t" "i \<noteq> 0 \<Longrightarrow> relay L s i = None" "relay L s 0 = None"
    "i \<noteq> 0 \<Longrightarrow> relay L t = (relay L s)(i \<mapsto> ctx0\<lparr>xRD_RelayConnectionContext.RelaySideConnectionId := i\<rparr>)"
    "i = 0 \<Longrightarrow> relay L t = relay L s" "dconn L t = dconn L s" "pconn L t = pconn L s" "device L t = device L s"
proof -
  obtain j p where a: "st_acquire (rl_relays L) (ContextPool s) = (j, p)" by fastforce
  let ?s1 = "s\<lparr>ContextPool := p\<rparr>"
  show z: "relay L s 0 = None" by (simp add: relay_def rc.get_zero)
  have pool: "relay L ?s1 = (if j = 0 then relay L s else (relay L s)(j \<mapsto> ctx0))"
    using rc.acquire_full [of "ContextPool s" p] rc.acquire_get [OF a] a by (auto simp: relay_def fun_eq_iff)
  have new: "j \<noteq> 0 \<Longrightarrow> relay L s j = None" using rc.acquire_new [OF a] by (simp add: relay_def)
  have i: "i = j" and t: "t = (if j = 0 then ?s1 else put_relay L j (ctx0\<lparr>xRD_RelayConnectionContext.RelaySideConnectionId := j\<rparr>) ?s1)"
    using c pool by (auto simp: CreateRelay_def Let_def a split: if_splits)
  show new': "i \<noteq> 0 \<Longrightarrow> relay L s i = None" using new i by simp
  show r: "i \<noteq> 0 \<Longrightarrow> relay L t = (relay L s)(i \<mapsto> ctx0\<lparr>xRD_RelayConnectionContext.RelaySideConnectionId := i\<rparr>)"
    using t i pool relay_put [of ?s1 j] by simp
  show r0: "i = 0 \<Longrightarrow> relay L t = relay L s" using t i pool by simp
  show o: "dconn L t = dconn L s" "pconn L t = pconn L s" "device L t = device L s"
    using t by (simp_all split: if_splits)
  show "extends L itC itP s t"
  proof (rule extends_pools [OF e o(1) _ _ o(2)])
    show "xRD_RelayConnectionContext.RelaySideConnectionId d = k" if "relay L t k = Some d" for k d
      using that r r0 extendsD(1) [OF e, of k d] by (cases "i = 0"; cases "k = i") auto
    show "\<exists>d'. relay L t k = Some d' \<and> same_context d d'" if "relay L s k = Some d" for k d
      using that r r0 new' by (cases "i = 0"; cases "k = i") auto
  qed (use t extendsD(2,4) [OF e] o(3) in \<open>auto split: if_splits\<close>)
qed

lemma extends_new_context:
  assumes e: "extends L itC itP s s" and c: "CreateRelay L s = (i, t)" and ctx: "relay L t i = Some ctx"
  shows "extends L itC itP s (put_relay L i (new_context d R c' ctx) t)"
proof -
  note r = create_relay [OF e c]
  have i: "i \<noteq> 0" using ctx r(3,5) by auto
  note put = relay_put [of t i "new_context d R c' ctx"] ctx
  show ?thesis
  proof (rule extends_pools [OF r(1)])
    show "xRD_RelayConnectionContext.RelaySideConnectionId x = k"
      if "relay L (put_relay L i (new_context d R c' ctx) t) k = Some x" for k x
      using that put extendsD(1) [OF r(1), of k x] extendsD(1) [OF r(1) ctx]
      by (cases "k = i") (auto simp: new_context_def set_TargetPort_def)
    show "\<exists>x'. relay L (put_relay L i (new_context d R c' ctx) t) k = Some x' \<and> same_context x x'"
      if "relay L s k = Some x" for k x
      using that put r(2) [OF i] extendsD(3) [OF r(1) that] by (cases "k = i") auto
  qed (use extendsD(2,4) [OF r(1)] in simp_all)
qed

lemma create_device:
  assumes e: "extends L itC itP s s" and c: "CreateDevice L s = (x, t)"
  shows "extends L itC itP s t" "dconn L t = dconn L s"
    "x = Some D \<Longrightarrow> device L s (DeviceRuntimeId D) = None \<and> D = fresh_device\<lparr>DeviceRuntimeId := DeviceRuntimeId D\<rparr> \<and>
      device L t = (device L s)(DeviceRuntimeId D \<mapsto> D)"
    "relay L t = relay L s" "pconn L t = pconn L s"
proof -
  obtain j p where a: "st_acquire (rl_devices L) (DevicePool s) = (j, p)" by fastforce
  let ?s1 = "s\<lparr>DevicePool := p\<rparr>" and ?D = "fresh_device\<lparr>DeviceRuntimeId := j\<rparr>"
  have pool: "device L ?s1 = (if j = 0 then device L s else (device L s)(j \<mapsto> fresh_device))"
    using dv.acquire_full [of "DevicePool s" p] dv.acquire_get [OF a] a by (auto simp: device_def fun_eq_iff)
  have new: "j \<noteq> 0 \<Longrightarrow> device L s j = None" using dv.acquire_new [OF a] by (simp add: device_def)
  have x: "x = (if j = 0 then None else Some ?D)" and t: "t = (if j = 0 then ?s1 else put_device L ?D ?s1)"
    using c by (auto simp: CreateDevice_def Let_def a put_device_def split: if_splits)
  have put: "j \<noteq> 0 \<Longrightarrow> device L t = (device L s)(j \<mapsto> ?D)" using t pool device_put [of ?s1 ?D] by simp
  show o: "dconn L t = dconn L s" "relay L t = relay L s" "pconn L t = pconn L s"
    using t by (simp_all split: if_splits)
  show "device L s (DeviceRuntimeId D) = None \<and> D = fresh_device\<lparr>DeviceRuntimeId := DeviceRuntimeId D\<rparr> \<and>
      device L t = (device L s)(DeviceRuntimeId D \<mapsto> D)" if "x = Some D"
    using that x new put by (auto split: if_splits)
  show "extends L itC itP s t"
  proof (rule extends_pools [OF e o(1) _ _ o(3)])
    show "DeviceRuntimeId E = d" if "device L t d = Some E" for d E
      using that put t pool extendsD(2) [OF e, of d E] by (cases "j = 0"; cases "d = j") auto
    show "device L t d \<noteq> None" if "device L s d \<noteq> None" for d
      using that put t pool by (cases "j = 0") auto
  qed (use t extendsD(1,3) [OF e] o(2) in \<open>auto split: if_splits\<close>)
qed

lemma extends_release:
  assumes e: "extends L itC itP s t" and D: "device L t d = Some D"
  shows "extends L itC itP s (ReleaseDevice L D t)"
proof -
  let ?D = "D\<lparr>xDevice.Flags := or (xDevice.Flags D) FLAG_DELETE\<rparr>"
  have p: "extends L itC itP s (put_device L ?D t)"
    by (rule extends_put_device [OF e]) (use extendsD(2) [OF e D] D in simp)
  show ?thesis
    unfolding ReleaseDevice_def by (rule extends_pools [OF p]) (use extendsD [OF p] in simp_all)
qed

end

subsection \<open>Every event keeps the server in order\<close>

lemma and_then_Inr: "and_then x f = Inr y \<longleftrightarrow> (\<exists>z. x = Inr z \<and> f z = Inr y)"
  by (cases x) simp_all

lemma and_then_Inl: "and_then x f = Inl e \<longleftrightarrow> x = Inl e \<or> (\<exists>z. x = Inr z \<and> f z = Inl e)"
  by (cases x) auto

context relay_env begin

lemma ctrl_packet_ok:
  assumes e: "extends L itC itP s s" and h: "OnCtrlPacket L c Cmd Req P s = Inr (ok, out, t)"
  shows "extends L itC itP s t"
  using h e extends_keep [OF e]
  unfolding OnCtrlPacket_def OnTerminalInitCtrlStream_def OnTerminalDnsQueryResp_def Let_def
  by (auto split: if_splits option.splits prod.splits)

lemma init_data_ok:
  assumes e: "extends L itC itP s s" and h: "OnTerminalInitDataStream L c Req P s = Inr (ok, out, t)"
  shows "extends L itC itP s t"
proof (cases "des_xInitDataStream (rl_wire L) P")
  case None
  with h e show ?thesis by (simp add: OnTerminalInitDataStream_def)
next
  case (Some m)
  obtain S r where m: "m = (S, r)" by (cases m)
  show ?thesis
  proof (cases "dconn L s (xInitDataStream.CtrlId S)")
    case None
    with h e Some m show ?thesis by (simp add: OnTerminalInitDataStream_def)
  next
    case (Some cc)
    note pre = \<open>des_xInitDataStream (rl_wire L) P = Some m\<close> m Some
    obtain x s1 where cd: "CreateDevice L s = (x, s1)" by fastforce
    note d = create_device [OF e cd]
    show ?thesis
    proof (cases "xRD_DeviceConnection.DeviceId cc \<noteq> 0 \<or> x = None")
      case True
      with h e pre cd extends_defer [OF d(1)] show ?thesis by (auto simp: OnTerminalInitDataStream_def split: if_splits)
    next
      case False
      then obtain D where x: "x = Some D" by blast
      let ?segs = "rl_split L (xInitDataStream.DataKey S)"
      show ?thesis
      proof (cases "length ?segs \<noteq> 2 \<or> length (?segs ! 1) \<noteq> 24")
        case True
        with h pre cd x False d(1) show ?thesis by (auto simp: OnTerminalInitDataStream_def Let_def)
      next
        case segs: False
        let ?i = "xRD_DeviceConnection.ConnectionId c" and ?id = "DeviceRuntimeId D"
        let ?s3 = "write_dconn L (xInitDataStream.CtrlId S) (\<lambda>c. c\<lparr>xRD_DeviceConnection.DeviceId := ?id\<rparr>)
          (write_dconn L ?i (\<lambda>c. c\<lparr>xRD_DeviceConnection.DeviceId := ?id\<rparr>) s1)"
        obtain geo where t: "t = Device_KeepAlive L ?i (put_device L (D\<lparr>CtrlConnection := Some (xInitDataStream.CtrlId S),
            DataConnection := Some ?i, xDevice.DeviceLocalIdString := xInitDataStream.DeviceLocalIdString S, GeoInfo := geo\<rparr>) ?s3)"
          using h pre cd x False segs by (auto simp: OnTerminalInitDataStream_def Let_def and_then_Inr)
        have "extends L itC itP s ?s3" by (intro extends_set_device d(1))
        moreover have "device L ?s3 ?id \<noteq> None" using d(3) x by simp
        ultimately show ?thesis unfolding t by (intro extends_keep extends_put_device) simp_all
      qed
    qed
  qed
qed

lemma data_packet_ok:
  assumes e: "extends L itC itP s s" and h: "OnDataPacket L c Cmd Req P s = Inr (ok, out, t)"
  shows "extends L itC itP s t"
proof -
  have "extends L itC itP s t" if n: "OnTerminalTargetConnectionUpdate L P s = Inr (ok, out, t)"
  proof (cases "des_xTR_ConnectionStateNotify (rl_wire L) P")
    case (Some m)
    obtain S r where m: "m = (S, r)" by (cases m)
    show ?thesis
    proof (cases "relay L s (xTR_ConnectionStateNotify.RelaySideConnectionId S)")
      case (Some CR)
      with n \<open>des_xTR_ConnectionStateNotify (rl_wire L) P = Some m\<close> m e
        extends_put_relay [OF e Some same_context_refl(2)]
      show ?thesis
        by (auto simp: OnTerminalTargetConnectionUpdate_def Let_def split: if_splits option.splits)
    qed (use n Some m e in \<open>simp add: OnTerminalTargetConnectionUpdate_def\<close>)
  qed (use n e in \<open>simp add: OnTerminalTargetConnectionUpdate_def\<close>)
  moreover have "extends L itC itP s t" if "OnTerminalPostData L P s = Inr (ok, out, t)"
    using that e by (auto simp: OnTerminalPostData_def Let_def split: if_splits option.splits prod.splits)
  ultimately show ?thesis
    using h init_data_ok [OF e] e by (auto simp: OnDataPacket_def split: if_splits)
qed

lemma proxy_create_ok:
  assumes e: "extends L itC itP s s" and h: "OnProxyCreateConnection L c P s = Inr (ok, out, t)"
  shows "extends L itC itP s t"
proof -
  obtain i s1 where cr: "CreateRelay L s = (i, s1)" by fastforce
  note r = create_relay [OF e cr]
  show ?thesis
  proof (cases "des_xPR_CreateConnection (rl_wire L) P")
    case None
    with h e show ?thesis by (simp add: OnProxyCreateConnection_def)
  next
    case (Some m)
    obtain R r' where m: "m = (R, r')" by (cases m)
    note pre = OnProxyCreateConnection_def Some m Let_def cr
    show ?thesis
    proof (cases "GetDeviceById L s (xPR_CreateConnection.RelaySideDeviceId R)")
      case None
      with h e show ?thesis by (simp add: pre)
    next
      case D: (Some D)
      show ?thesis
      proof (cases "CtrlConnection D = None \<or> relay L s1 i = None")
        case True
        with h r(1) show ?thesis by (auto simp: pre D split: if_splits)
      next
        case False
        then obtain ctx where ctx: "relay L s1 i = Some ctx" and n: "CtrlConnection D \<noteq> None" by blast
        have "t = put_relay L i (new_context (DeviceRuntimeId D) R c ctx) s1"
          using h by (simp add: pre D ctx n and_then_Inr split: if_splits)
        then show ?thesis using extends_new_context [OF e cr ctx] by simp
      qed
    qed
  qed
qed

lemma proxy_packet_ok:
  assumes e: "extends L itC itP s s" and h: "OnProxyPacket L c Cmd P s = Inr (ok, out, t)"
  shows "extends L itC itP s t"
proof -
  have "extends L itC itP s t" if "OnProxyChallenge L c P s = Inr (ok, out, t)"
    using that e extends_proxy_keep [OF extends_ready [OF e]]
    by (auto simp: OnProxyChallenge_def Let_def split: option.splits)
  moreover have "t = s" if "OnProxyDestroyConnection L P s = Inr (ok, out, t) \<or> OnProxyPushData L P s = Inr (ok, out, t) \<or>
      OnProxyNotifyConnectionState L P s = Inr (ok, out, t)"
    using that by (auto simp: OnProxyDestroyConnection_def OnProxyPushData_def OnProxyNotifyConnectionState_def
        and_then_Inr split: if_splits option.splits prod.splits)
  ultimately show ?thesis
    using h proxy_create_ok [OF e] e by (auto simp: OnProxyPacket_def split: if_splits)
qed

lemma new_connection_ok:
  assumes e: "extends L itC itP s s"
  shows "extends L itC itP s (OnNewConnection L srv b s)"
proof -
  have ok: "links_ok (dev_links L itC s)" "dev_good L itC s" "links_ok (proxy_links L itP s)" "proxy_typed L s"
    using e by (simp_all add: extends_def server_ok_def)
  obtain i p where a: "st_acquire (rl_dconns L) (DeviceConns s) = (i, p)" by fastforce
  obtain j q where a2: "st_acquire (rl_pconns L) (ProxyConns s) = (j, q)" by fastforce
  have d: "extends L itC itP s t" if "dev_accepted L i s t" for t
  proof (rule extends_dev [OF e])
    have p: "parted (dev_links L itC s)" using ok(1) by (simp add: links_ok_def)
    show "pconn L t = pconn L s" "ProxyLists t = ProxyLists s" "ProxyTicker t = ProxyTicker s" "relay L t = relay L s"
      "device L t = device L s"
      using dev_accept [OF p ok(2) that] by (simp_all add: relay_def device_def fun_eq_iff)
    show "links_ok (dev_links L itC t) \<and> dev_good L itC t" by (rule dev.accept_ok [OF ok(1,2) that])
  qed
  have x: "extends L itC itP s t" if "proxy_accepted L j s t" for t
  proof (rule extends_proxy [OF e])
    have p: "parted (proxy_links L itP s)" using ok(3) by (simp add: links_ok_def)
    show "dconn L t = dconn L s" "DeviceLists t = DeviceLists s" "DeviceTicker t = DeviceTicker s" "relay L t = relay L s"
      "device L t = device L s"
      using proxy_accept [OF p ok(4) that] by (simp_all add: relay_def device_def fun_eq_iff)
    show "links_ok (proxy_links L itP t) \<and> proxy_typed L t" by (rule prx.accept_ok [OF ok(3,4) that])
  qed
  have dsame: "dconn L (s\<lparr>DeviceConns := c\<rparr>) = dconn L s" if "st_get (rl_dconns L) c = st_get (rl_dconns L) (DeviceConns s)" for c
    using that by (simp add: dconn_def fun_eq_iff)
  have psame: "pconn L (s\<lparr>ProxyConns := c\<rparr>) = pconn L s" if "st_get (rl_pconns L) c = st_get (rl_pconns L) (ProxyConns s)" for c
    using that by (simp add: pconn_def fun_eq_iff)
  have refused: "extends L itC itP s (s\<lparr>DeviceConns := c\<rparr>)" if "st_get (rl_dconns L) c = st_get (rl_dconns L) (DeviceConns s)" for c
    by (rule extends_pools [OF e dsame [OF that]]) (use extendsD [OF e] in \<open>simp_all add: pconn_def fun_eq_iff\<close>)
  have prefused: "extends L itC itP s (s\<lparr>ProxyConns := c\<rparr>)" if "st_get (rl_pconns L) c = st_get (rl_pconns L) (ProxyConns s)" for c
    by (rule extends_pools [OF e _ _ _ psame [OF that]]) (use extendsD [OF e] in \<open>simp_all add: dconn_def fun_eq_iff\<close>)
  have rel: "st_get (rl_dconns L) (st_release (rl_dconns L) p i) = st_get (rl_dconns L) (DeviceConns s)" if "i \<noteq> 0"
    using dc.acquire_get [OF a that] dc.acquire_new [OF a that] by (simp add: dc.release_get fun_upd_idem)
  have prel: "st_get (rl_pconns L) (st_release (rl_pconns L) q j) = st_get (rl_pconns L) (ProxyConns s)" if "j \<noteq> 0"
    using pc.acquire_get [OF a2 that] pc.acquire_new [OF a2 that] by (simp add: pc.release_get fun_upd_idem)
  show ?thesis
  proof (cases "srv = ProxyServer")
    case True
    show ?thesis
    proof (cases "j = 0 \<or> \<not> b")
      case jb: True
      show ?thesis using True jb prefused pc.acquire_full [of "ProxyConns s" q] a2 prel
        by (cases "j = 0") (simp_all add: OnNewConnection_def Proxy_CreateConnection_def Let_def)
    next
      case False
      then show ?thesis using x True a2 by (simp add: proxy_accepted_def)
    qed
  next
    case False
    show ?thesis
    proof (cases "i = 0 \<or> \<not> b")
      case True
      show ?thesis using False True refused dc.acquire_full [of "DeviceConns s" p] a rel
        by (cases srv; cases "i = 0") (simp_all add: OnNewConnection_def Device_CreateConnection_def Let_def)
    next
      case ib: False
      then show ?thesis using d False a by (cases srv) (simp_all add: dev_accepted_def)
    qed
  qed
qed

lemma close_ok:
  assumes e: "extends L itC itP s s" and h: "OnPeerClose L l s = Inr (out, t)"
  shows "extends L itC itP s t"
proof -
  have "extends L itC itP s (snd (RemoveDeviceFromConnection L c s))" for c
  proof (cases "GetDeviceById L s (xRD_DeviceConnection.DeviceId c)")
    case (Some D)
    then have "device L s (xRD_DeviceConnection.DeviceId c) = Some D" by (simp add: GetDeviceById_def split: option.splits if_splits)
    from extends_release [OF e this] Some show ?thesis by (simp add: RemoveDeviceFromConnection_def)
  qed (simp add: RemoveDeviceFromConnection_def e)
  with h e extends_defer extends_proxy_defer [OF e] show ?thesis
    by (auto simp: OnPeerClose_def Let_def split_beta split: link.splits option.splits if_splits)
qed

lemma keepalive_ok: "extends L itC itP s s \<Longrightarrow> OnKeepAlive L l s = Inr (out, t) \<Longrightarrow> extends L itC itP s t"
  using extends_keep [of s s] extends_proxy_keep [of s s]
  by (auto simp: OnKeepAlive_def Let_def split: link.splits option.splits if_splits)

lemma packet_ok:
  assumes e: "extends L itC itP s s" and h: "OnPacket L l Cmd Req P s = Inr (ok, out, t)"
  shows "extends L itC itP s t"
proof (cases l)
  case (DeviceLink i)
  with h obtain c where "OnCtrlPacket L c Cmd Req P s = Inr (ok, out, t) \<or> OnDataPacket L c Cmd Req P s = Inr (ok, out, t)"
    by (auto simp: OnPacket_def split: option.splits if_splits)
  then show ?thesis using ctrl_packet_ok [OF e] data_packet_ok [OF e] by blast
next
  case (ProxyLink i)
  with h obtain c where "OnProxyPacket L c Cmd P s = Inr (ok, out, t)"
    by (auto simp: OnPacket_def split: option.splits if_splits)
  then show ?thesis by (rule proxy_packet_ok [OF e])
qed

text \<open>The loops of a tick change nothing but the lists and pools of their manager.\<close>

lemma dev_destroy_frame [simp]:
  "relay L (Device_DestroyConnection L i s) = relay L s" "device L (Device_DestroyConnection L i s) = device L s"
  "pconn L (Device_DestroyConnection L i s) = pconn L s" "ProxyLists (Device_DestroyConnection L i s) = ProxyLists s"
  "ProxyTicker (Device_DestroyConnection L i s) = ProxyTicker s"
  by (simp_all add: Device_DestroyConnection_def split: option.split)

lemma proxy_destroy_frame [simp]:
  "relay L (Proxy_DestroyConnection L i s) = relay L s" "device L (Proxy_DestroyConnection L i s) = device L s"
  "dconn L (Proxy_DestroyConnection L i s) = dconn L s" "DeviceLists (Proxy_DestroyConnection L i s) = DeviceLists s"
  "DeviceTicker (Proxy_DestroyConnection L i s) = DeviceTicker s"
  by (simp_all add: Proxy_DestroyConnection_def split: option.split)

definition dev_same where
  "dev_same s u \<longleftrightarrow> relay L u = relay L s \<and> device L u = device L s \<and> pconn L u = pconn L s \<and>
     ProxyLists u = ProxyLists s \<and> ProxyTicker u = ProxyTicker s"

definition proxy_same where
  "proxy_same s u \<longleftrightarrow> relay L u = relay L s \<and> device L u = device L s \<and> dconn L u = dconn L s \<and>
     DeviceLists u = DeviceLists s \<and> DeviceTicker u = DeviceTicker s"

lemma dev_loops_same:
  "pop_loop (pop_device L n T) (kill_device_conn L) u = Some v \<Longrightarrow> dev_same s u \<Longrightarrow> dev_same s v"
  "pop_loop (pop_device L n T) (Device_DestroyConnection L) u = Some v \<Longrightarrow> dev_same s u \<Longrightarrow> dev_same s v"
  by (erule pop_loop_keeps, auto simp: pop_device_def kill_device_conn_def dev_same_def)+

lemma proxy_loops_same:
  "pop_loop (pop_proxy L n T) (Proxy_DeferRelease L) u = Some v \<Longrightarrow> proxy_same s u \<Longrightarrow> proxy_same s v"
  "pop_loop (pop_proxy L n T) (Proxy_DestroyConnection L) u = Some v \<Longrightarrow> proxy_same s u \<Longrightarrow> proxy_same s v"
  by (erule pop_loop_keeps, auto simp: pop_proxy_def proxy_same_def)+

lemma dev_links_ticker: "dev_links L itC (s\<lparr>DeviceTicker := now\<rparr>) = (dev_links L itC s)\<lparr>l_now := now\<rparr>"
  by (simp add: dev_links_def)

lemma proxy_links_ticker: "proxy_links L itP (s\<lparr>ProxyTicker := now\<rparr>) = (proxy_links L itP s)\<lparr>l_now := now\<rparr>"
  by (simp add: proxy_links_def)

lemma device_tick:
  assumes e: "extends L itC itP s s" and now: "DeviceTicker s \<le> now"
  obtains t where "Device_Tick L now s = Some t" "extends L itC itP s t" "dev_same s t" "DeviceTicker t = now"
    "l_time (dev_links L itC t) = (\<lambda>i. if survives (now - 3000) (now - IdleTimeoutMS) (dev_links L itC s) i
       then l_time (dev_links L itC s) i else None)"
proof -
  let ?s = "s\<lparr>DeviceTicker := now\<rparr>"
  have ok: "links_ok (dev_links L itC s)" "dev_good L itC s" using e by (simp_all add: extends_def server_ok_def)
  have g: "dev_good L itC ?s" using ok(2) by (simp add: dev_good_def dev_typed_def)
  have l: "links_ok (dev_links L itC ?s)" unfolding dev_links_ticker
    by (rule links_ok_later [OF ok(1)]) (simp add: now dev_links_def)
  from dev.tick [OF l g, of "now - 3000" "now - IdleTimeoutMS"] obtain t where t: "Option.bind (pop_loop (pop_device L NewConnectionList (Some (now - 3000))) (kill_device_conn L) ?s)
      (\<lambda>s1. Option.bind (pop_loop (pop_device L IdleConnectionList (Some (now - IdleTimeoutMS))) (kill_device_conn L) s1)
        (pop_loop (pop_device L KillConnectionList None) (Device_DestroyConnection L))) = Some t"
    "dev_good L itC t" "links_ok (dev_links L itC t)" "l_now (dev_links L itC t) = l_now (dev_links L itC ?s)"
    "l_time (dev_links L itC t) = (\<lambda>i. if survives (now - 3000) (now - IdleTimeoutMS) (dev_links L itC ?s) i
       then l_time (dev_links L itC ?s) i else None)"
    by blast
  from t(1) have tick: "Device_Tick L now s = Some t" by (simp add: Device_Tick_def RemoveIdleConnections_def)
  have same: "dev_same s t"
  proof -
    from t(1) obtain s1 s2 where l: "pop_loop (pop_device L NewConnectionList (Some (now - 3000))) (kill_device_conn L) ?s = Some s1" "pop_loop (pop_device L IdleConnectionList (Some (now - IdleTimeoutMS))) (kill_device_conn L) s1 = Some s2" "pop_loop (pop_device L KillConnectionList None) (Device_DestroyConnection L) s2 = Some t"
      by (auto simp: bind_eq_Some_conv)
    have "dev_same s ?s" by (simp add: dev_same_def)
    from dev_loops_same(2) [OF l(3) dev_loops_same(1) [OF l(2) dev_loops_same(1) [OF l(1) this]]] show ?thesis .
  qed
  have "extends L itC itP s t"
    by (rule extends_dev [OF e]) (use same t(2,3) in \<open>simp_all add: dev_same_def\<close>)
  moreover have surv: "survives Ty Ti (dev_links L itC ?s) i = survives Ty Ti (dev_links L itC s) i" for Ty Ti i
    by (simp add: survives_def on_time_def dev_links_def)
  moreover have time: "l_time (dev_links L itC ?s) = l_time (dev_links L itC s)" by (simp add: dev_links_def)
  moreover have "DeviceTicker t = now" using t(4) by (simp add: dev_links_def)
  ultimately show ?thesis using that [OF tick _ same] t(5) [unfolded surv time] by blast
qed

lemma proxy_tick:
  assumes e: "extends L itC itP s s" and now: "ProxyTicker s \<le> now"
  obtains t where "Proxy_Tick L now s = Some t" "extends L itC itP s t" "proxy_same s t" "ProxyTicker t = now"
    "l_time (proxy_links L itP t) = (\<lambda>i. if survives (now - CHALLENGE_TIMEOUT) (now - IDLE_TIMEOUT) (proxy_links L itP s) i
       then l_time (proxy_links L itP s) i else None)"
proof -
  let ?s = "s\<lparr>ProxyTicker := now\<rparr>"
  have ok: "links_ok (proxy_links L itP s)" "proxy_typed L s" using e by (simp_all add: extends_def server_ok_def)
  have g: "proxy_typed L ?s" using ok(2) by (simp add: proxy_typed_def)
  have l: "links_ok (proxy_links L itP ?s)" unfolding proxy_links_ticker
    by (rule links_ok_later [OF ok(1)]) (simp add: now proxy_links_def)
  from prx.tick [OF l g, of "now - CHALLENGE_TIMEOUT" "now - IDLE_TIMEOUT"] obtain t where t: "Option.bind (pop_loop (pop_proxy L ChallengeConnectionList (Some (now - CHALLENGE_TIMEOUT))) (Proxy_DeferRelease L) ?s)
      (\<lambda>s1. Option.bind (pop_loop (pop_proxy L IdleProxyList (Some (now - IDLE_TIMEOUT))) (Proxy_DeferRelease L) s1)
        (pop_loop (pop_proxy L KillProxyList None) (Proxy_DestroyConnection L))) = Some t"
    "proxy_typed L t" "links_ok (proxy_links L itP t)" "l_now (proxy_links L itP t) = l_now (proxy_links L itP ?s)"
    "l_time (proxy_links L itP t) = (\<lambda>i. if survives (now - CHALLENGE_TIMEOUT) (now - IDLE_TIMEOUT) (proxy_links L itP ?s) i
       then l_time (proxy_links L itP ?s) i else None)"
    by blast
  from t(1) have tick: "Proxy_Tick L now s = Some t" by (simp add: Proxy_Tick_def Let_def)
  have same: "proxy_same s t"
  proof -
    from t(1) obtain s1 s2 where l: "pop_loop (pop_proxy L ChallengeConnectionList (Some (now - CHALLENGE_TIMEOUT))) (Proxy_DeferRelease L) ?s = Some s1" "pop_loop (pop_proxy L IdleProxyList (Some (now - IDLE_TIMEOUT))) (Proxy_DeferRelease L) s1 = Some s2" "pop_loop (pop_proxy L KillProxyList None) (Proxy_DestroyConnection L) s2 = Some t"
      by (auto simp: bind_eq_Some_conv)
    have "proxy_same s ?s" by (simp add: proxy_same_def)
    from proxy_loops_same(2) [OF l(3) proxy_loops_same(1) [OF l(2) proxy_loops_same(1) [OF l(1) this]]] show ?thesis .
  qed
  have "extends L itC itP s t"
    by (rule extends_proxy [OF e]) (use same t(2,3) in \<open>simp_all add: proxy_same_def\<close>)
  moreover have surv: "survives Ty Ti (proxy_links L itP ?s) i = survives Ty Ti (proxy_links L itP s) i" for Ty Ti i
    by (simp add: survives_def on_time_def proxy_links_def)
  moreover have time: "l_time (proxy_links L itP ?s) = l_time (proxy_links L itP s)" by (simp add: proxy_links_def)
  moreover have "ProxyTicker t = now" using t(4) by (simp add: proxy_links_def)
  ultimately show ?thesis using that [OF tick _ same] t(5) [unfolded surv time] by blast
qed

lemma step_ok:
  assumes s: "server_ok L itC itP s" and c: "clock_ok ev s" and h: "rd_step L ev s = Some (Inr (ok, out, t))"
  shows "extends L itC itP s t"
proof -
  have e: "extends L itC itP s s" by (rule extends_refl [OF s])
  show ?thesis
  proof (cases ev)
    case (TickDevices now)
    with c have "DeviceTicker s \<le> now" by simp
    from device_tick [OF e this] obtain u where "Device_Tick L now s = Some u" "extends L itC itP s u" .
    with TickDevices h show ?thesis by (simp add: rd_step_def)
  next
    case (TickProxies now)
    with c have "ProxyTicker s \<le> now" by simp
    from proxy_tick [OF e this] obtain u where "Proxy_Tick L now s = Some u" "extends L itC itP s u" .
    with TickProxies h show ?thesis by (simp add: rd_step_def)
  next
    case (Arrive srv b)
    with h have "t = OnNewConnection L srv b s" by (simp add: rd_step_def)
    then show ?thesis using new_connection_ok [OF e] by simp
  next
    case (Packet l Cmd Req P)
    with h packet_ok [OF e] show ?thesis by (simp add: rd_step_def)
  next
    case (Alive l)
    with h obtain o1 where "OnKeepAlive L l s = Inr (o1, t)" by (auto simp: rd_step_def and_then_Inr)
    then show ?thesis by (rule keepalive_ok [OF e])
  next
    case (Close l)
    with h obtain o1 where "OnPeerClose L l s = Inr (o1, t)" by (auto simp: rd_step_def and_then_Inr)
    then show ?thesis by (rule close_ok [OF e])
  qed
qed

lemma extends_trans:
  assumes a: "extends L itC itP s t" and b: "extends L itC itP t u"
  shows "extends L itC itP s u"
proof -
  have "\<exists>c'. relay L u i = Some c' \<and> same_context c c'" if "relay L s i = Some c" for i c
  proof -
    from extendsD(3) [OF a that] obtain d where d: "relay L t i = Some d" "same_context c d" by blast
    from extendsD(3) [OF b d(1)] d(2) same_context_trans [of c d] show ?thesis by blast
  qed
  then show ?thesis using extendsD(4) [OF b extendsD(4) [OF a]] b by (simp add: extends_def)
qed

lemma reach_extends:
  assumes "relay_reach L s t" "server_ok L itC itP s"
  shows "extends L itC itP s t"
  using assms
proof induction
  case init
  then show ?case by (rule extends_refl)
next
  case (step u ev ok out t)
  then have "extends L itC itP s u" by blast
  moreover from this have "server_ok L itC itP u" by (simp add: extends_def)
  ultimately show ?case using extends_trans step_ok [OF _ step.hyps(2,3)] by blast
qed

end

end
