(* ===== verification/RelayPath.thy ===== *)
theory RelayPath
  imports RelayServer
begin

text \<open>
  What a client of the device relay server can rely on, and where the server fails: the reachable
  states, the ticks, the way of a client's data through a relay context to the device and back, and a
  run that reads a freed connection. The library's reference implementation at the end provides
  the witnesses.
\<close>

subsection \<open>One packet after the other\<close>

lemmas relay_command_defs = Cmd_PA_RL_Challenge_def Cmd_PA_RL_CreateConnection_def Cmd_PA_RL_DestroyConnection_def
  Cmd_PA_RL_PostData_def Cmd_PA_RL_NotifyConnectionState_def Cmd_DV_RL_InitDataStream_def
  Cmd_DV_RL_NotifyConnectionState_def Cmd_DV_RL_PostData_def Cmd_DV_RL_InitCtrlStream_def Cmd_DV_RL_DnsQueryResp_def

lemma relay_commands_distinct [simp]:
  "Cmd_PA_RL_CreateConnection \<noteq> Cmd_PA_RL_Challenge" "Cmd_PA_RL_PostData \<noteq> Cmd_PA_RL_Challenge"
  "Cmd_PA_RL_PostData \<noteq> Cmd_PA_RL_CreateConnection" "Cmd_PA_RL_PostData \<noteq> Cmd_PA_RL_DestroyConnection"
  "Cmd_DV_RL_NotifyConnectionState \<noteq> Cmd_DV_RL_InitDataStream" "Cmd_DV_RL_PostData \<noteq> Cmd_DV_RL_InitDataStream"
  "Cmd_DV_RL_PostData \<noteq> Cmd_DV_RL_NotifyConnectionState"
  by (simp_all add: relay_command_defs command_base_defs)

lemma proxy_packet:
  assumes "pconn L s j = Some PA" "proxy_typed L s"
  shows "OnPacket L (ProxyLink j) Cmd q P s = OnProxyPacket L PA Cmd P s" "xRD_ProxyConnection.ConnectionId PA = j"
  using assms by (simp_all add: OnPacket_def proxy_typed_def)

lemma data_packet:
  assumes "dconn L s i = Some c" "dev_typed L s" "IsType_Data (xRD_DeviceConnection.Flags c)"
  shows "OnPacket L (DeviceLink i) Cmd q P s = OnDataPacket L c Cmd q P s"
  using assms by (simp add: OnPacket_def dev_typed_def)

lemma server_okD:
  assumes "server_ok L itC itP s"
  shows "proxy_typed L s" "dev_typed L s" "relay L s r = Some RC \<Longrightarrow> xRD_RelayConnectionContext.RelaySideConnectionId RC = r"
  using assms by (simp_all add: server_ok_def dev_good_def)

text \<open>A proxy server's data for a relay context goes to the device of the context.\<close>

lemma push_packet:
  assumes w: "wire_codec (rl_wire L)" and s: "server_ok L itC itP s" and j: "pconn L s j = Some PA"
    and r: "relay L s r = Some RC" "xRD_RelayConnectionContext.ProxySideConnectionId RC = p"
    and D: "GetDeviceById L s (xRD_RelayConnectionContext.DeviceId RC) = Some D"
    and x: "length x \<le> w_str_max (rl_wire L)"
  shows "OnPacket L (ProxyLink j) Cmd_PA_RL_PostData q (ser_xPR_PushData (rl_wire L) (xPR_PushData.make p r x)) s =
    and_then (post_dev L (DataConnection D) Cmd_DV_RL_PostData 0
        (ser_xTR_PostData (rl_wire L) (xTR_PostData.make (ucast (PortOrDeviceSide RC)) r x)) s)
      (\<lambda>out. Inr (True, out, s))"
proof -
  have d: "des_xPR_PushData (rl_wire L) (ser_xPR_PushData (rl_wire L) (xPR_PushData.make p r x)) = Some (xPR_PushData.make p r x, [])"
    using wire_codec.ser_des_xPR_PushData [OF w, of "xPR_PushData.make p r x" "[]"] x
    by (simp add: ok_xPR_PushData_def xPR_PushData.make_def)
  show ?thesis
    using server_okD(3) [OF s r(1)] r D
    by (simp add: proxy_packet [OF j server_okD(1) [OF s]] OnProxyPacket_def OnProxyPushData_def
        d [unfolded xPR_PushData.make_def] xPR_PushData.make_def)
qed

lemma post_dev_live: "dconn L s i \<noteq> None \<Longrightarrow> rl_fits L m \<Longrightarrow> post_dev L (Some i) Cmd q (Some m) s = Inr [ToDevice i Cmd q m]"
  by (simp add: post_dev_def)

lemma post_dev_freed: "dconn L s i = None \<Longrightarrow> post_dev L (Some i) Cmd q (Some m) s = Inl FreedConnection"
  by (simp add: post_dev_def)

lemma ser_post: "x \<noteq> [] \<Longrightarrow> ser_xTR_PostData wc (xTR_PostData.make a r x) = Some (the (ser_xTR_PostData wc (xTR_PostData.make a r x)))"
  by (simp add: ser_xTR_PostData_def xTR_PostData.make_def)

text \<open>A device's data for a relay context goes to the proxy connection of the context.\<close>

lemma post_packet:
  assumes w: "wire_codec (rl_wire L)" and s: "server_ok L itC itP s" and i: "dconn L s i = Some c"
    "IsType_Data (xRD_DeviceConnection.Flags c)"
    and r: "relay L s r = Some RC" and j: "pconn L s (ProxyConnectionId RC) \<noteq> None"
    and x: "x \<noteq> []" "length x \<le> w_str_max (rl_wire L)"
  shows "OnPacket L (DeviceLink i) Cmd_DV_RL_PostData q (the (ser_xTR_PostData (rl_wire L) (xTR_PostData.make ds r x))) s =
    Inr (True, post_own L (ToProxy (ProxyConnectionId RC) Cmd_PA_RL_PostData 0 (ser_xPR_PushData (rl_wire L)
      (xPR_PushData.make (xRD_RelayConnectionContext.ProxySideConnectionId RC) r x))), s)"
proof -
  have d: "des_xTR_PostData (rl_wire L) (the (ser_xTR_PostData (rl_wire L) (xTR_PostData.make ds r x))) = Some (xTR_PostData.make ds r x, [])"
    using wire_codec.ser_des_xTR_PostData [OF w, of "xTR_PostData.make ds r x" "[]"] x
    by (simp add: ser_xTR_PostData_def ok_xTR_PostData_def xTR_PostData.make_def)
  show ?thesis
    using server_okD(3) [OF s r] r j
    by (auto simp: data_packet [OF i(1) server_okD(2) [OF s] i(2)] OnDataPacket_def OnTerminalPostData_def d [unfolded xTR_PostData.make_def] Let_def
        xTR_PostData.make_def)
qed

text \<open>A device that has connected tells the proxy server, and its id is kept in the context.\<close>

lemma established_packet:
  assumes w: "wire_codec (rl_wire L)" and s: "server_ok L itC itP s" and i: "dconn L s i = Some c"
    "IsType_Data (xRD_DeviceConnection.Flags c)"
    and r: "relay L s r = Some RC" and j: "pconn L s (ProxyConnectionId RC) \<noteq> None"
  shows "OnPacket L (DeviceLink i) Cmd_DV_RL_NotifyConnectionState q
      (ser_xTR_ConnectionStateNotify (rl_wire L) (xTR_ConnectionStateNotify.make ds r STATE_ESTABLISHED u v)) s =
    Inr (True, post_own L (ToProxy (ProxyConnectionId RC) Cmd_PA_RL_NotifyConnectionState 0
      (ser_xPR_ConnectionStateNotify (rl_wire L) (xPR_ConnectionStateNotify.make
        (xRD_RelayConnectionContext.ProxySideConnectionId RC) r STATE_ESTABLISHED 0 0))),
      put_relay L r (RC\<lparr>PortOrDeviceSide := ucast ds\<rparr>) s)"
proof -
  let ?m = "xTR_ConnectionStateNotify.make ds r STATE_ESTABLISHED u v"
  have d: "des_xTR_ConnectionStateNotify (rl_wire L) (ser_xTR_ConnectionStateNotify (rl_wire L) ?m) = Some (?m, [])"
    using wire_codec.ser_des_xTR_ConnectionStateNotify [OF w, of ?m "[]"] by simp
  have p: "pconn L (put_relay L r y s) = pconn L s" for y by (simp add: put_relay_def)
  show ?thesis
    using server_okD(3) [OF s r] r j
    by (auto simp: data_packet [OF i(1) server_okD(2) [OF s] i(2)] OnDataPacket_def OnTerminalTargetConnectionUpdate_def
        d [unfolded xTR_ConnectionStateNotify.make_def] Let_def
        xTR_ConnectionStateNotify.make_def p)
qed

text \<open>
  \<^verbatim>\<open>PostMessage\<close> builds a packet in a buffer of \<^verbatim>\<open>MaxPacketSize\<close> bytes and drops a message that does not fit.
  What fits: notifications and requests of fixed size, and data messages whose payload keeps to
  \<^verbatim>\<open>MAX_PAYLOAD_SIZE\<close>, as the \<^verbatim>\<open>static_assert\<close> beside both constants says
  (\<^verbatim>\<open>MAX_PAYLOAD_SIZE <= MaxPacketPayloadSize - 32\<close>). Nothing is known of longer messages.
\<close>

definition packets_fit :: "('c, 'cl, 'p, 'pl, 'd, 'dl, 'r, 'a) rd_lib \<Rightarrow> bool" where
  "packets_fit L \<longleftrightarrow>
     (\<forall>p r x. length x \<le> MAX_PAYLOAD_SIZE \<longrightarrow> rl_fits L (ser_xPR_PushData (rl_wire L) (xPR_PushData.make p r x))) \<and>
     (\<forall>d r x. x \<noteq> [] \<longrightarrow> length x \<le> MAX_PAYLOAD_SIZE \<longrightarrow> rl_fits L (the (ser_xTR_PostData (rl_wire L) (xTR_PostData.make d r x)))) \<and>
     (\<forall>N. rl_fits L (ser_xPR_ConnectionStateNotify (rl_wire L) N)) \<and>
     (\<forall>N. rl_fits L (ser_xTR_ConnectionStateNotify (rl_wire L) N)) \<and>
     (\<forall>C. rl_fits L (ser_xTR_CreateConnection (rl_wire L) C))"

lemma packets_fitD:
  assumes "packets_fit L"
  shows "length x \<le> MAX_PAYLOAD_SIZE \<Longrightarrow> rl_fits L (ser_xPR_PushData (rl_wire L) (xPR_PushData.make p r x))"
    "x \<noteq> [] \<Longrightarrow> length x \<le> MAX_PAYLOAD_SIZE \<Longrightarrow> rl_fits L (the (ser_xTR_PostData (rl_wire L) (xTR_PostData.make d r x)))"
    "rl_fits L (ser_xPR_ConnectionStateNotify (rl_wire L) N)" "rl_fits L (ser_xTR_ConnectionStateNotify (rl_wire L) M)"
    "rl_fits L (ser_xTR_CreateConnection (rl_wire L) C)"
  using assms by (simp_all add: packets_fit_def)

text \<open>It follows from the assertion and the sizes of the encoded fields.\<close>

lemma packets_fit_sizes:
  assumes "\<And>m. length m \<le> MAX_PAYLOAD_SIZE + 32 \<Longrightarrow> rl_fits L m" "\<And>x. length (w_u32 (rl_wire L) x) = 4"
    "\<And>x. length (w_u64 (rl_wire L) x) = 8" "\<And>x. length (w_str (rl_wire L) x) \<le> 4 + length x"
    "\<And>a. length (w_addr (rl_wire L) a) \<le> 24"
  shows "packets_fit L"
  unfolding packets_fit_def
proof (intro conjI allI impI assms(1))
  show "length (ser_xPR_PushData (rl_wire L) (xPR_PushData.make p r x)) \<le> MAX_PAYLOAD_SIZE + 32" if "length x \<le> MAX_PAYLOAD_SIZE" for p r x
    using that assms(4) [of x] by (simp add: ser_xPR_PushData_def xPR_PushData.make_def assms(3))
  show "length (the (ser_xTR_PostData (rl_wire L) (xTR_PostData.make d r x))) \<le> MAX_PAYLOAD_SIZE + 32"
    if "x \<noteq> []" "length x \<le> MAX_PAYLOAD_SIZE" for d r x
    using that assms(4) [of x] by (simp add: ser_xTR_PostData_def xTR_PostData.make_def assms(2,3))
  show "length (ser_xTR_CreateConnection (rl_wire L) C) \<le> MAX_PAYLOAD_SIZE + 32" for C
    using assms(5) [of "xTR_CreateConnection.TargetAddress C"] by (simp add: ser_xTR_CreateConnection_def assms(3))
qed (simp_all add: ser_xPR_ConnectionStateNotify_def ser_xTR_ConnectionStateNotify_def assms(2,3) MAX_PAYLOAD_SIZE_def)

context relay_env begin

text \<open>A request of a proxy server for a numeric address goes to the device's control connection.\<close>

lemma create_packet:
  assumes w: "wire_codec (rl_wire L)" and s: "server_ok L itC itP s" and j: "pconn L s j = Some PA"
    and ok: "ok_xPR_CreateConnection (rl_wire L) R"
    and D: "GetDeviceById L s (xPR_CreateConnection.RelaySideDeviceId R) = Some D" "CtrlConnection D = Some cc" "dconn L s cc \<noteq> None"
    and A: "ad_set L (xPR_CreateConnection.TargetAddress R)"
    and fits: "rl_fits L (ser_xTR_CreateConnection (rl_wire L) (xTR_CreateConnection.make r (xPR_CreateConnection.TargetAddress R)))"
    and r: "CreateRelay L s = (r, s1)" "r \<noteq> 0"
  shows "\<exists>RC t. OnPacket L (ProxyLink j) Cmd_PA_RL_CreateConnection q (ser_xPR_CreateConnection (rl_wire L) R) s =
        Inr (True, [ToDevice cc Cmd_DV_RL_CreateConnection 0 (ser_xTR_CreateConnection (rl_wire L)
          (xTR_CreateConnection.make r (xPR_CreateConnection.TargetAddress R)))], t) \<and>
      server_ok L itC itP t \<and> relay L t r = Some RC \<and> dconn L t = dconn L s \<and> pconn L t = pconn L s \<and> device L t = device L s \<and>
      xRD_RelayConnectionContext.ProxySideConnectionId RC = xPR_CreateConnection.ProxySideConnectionId R \<and>
      ProxyConnectionId RC = j \<and> xRD_RelayConnectionContext.DeviceId RC = xPR_CreateConnection.RelaySideDeviceId R"
proof -
  let ?ctx = "ctx0\<lparr>xRD_RelayConnectionContext.RelaySideConnectionId := r\<rparr>"
  have e: "extends L itC itP s s" by (rule extends_refl [OF s])
  note cr = create_relay [OF e r(1)]
  have rs: "relay L s1 r = Some ?ctx" using cr(4) [OF r(2)] by simp
  have id: "DeviceRuntimeId D = xPR_CreateConnection.RelaySideDeviceId R"
    using D(1) s by (simp add: GetDeviceById_def server_ok_def split: option.splits if_splits)
  let ?C = "new_context (DeviceRuntimeId D) R PA ?ctx"
  let ?t = "put_relay L r ?C s1"
  have d: "des_xPR_CreateConnection (rl_wire L) (ser_xPR_CreateConnection (rl_wire L) R) = Some (R, [])"
    using wire_codec.ser_des_xPR_CreateConnection [OF w ok, of "[]"] by simp
  have c: "dconn L ?t cc \<noteq> None" using D(3) cr(6) by simp
  have "OnPacket L (ProxyLink j) Cmd_PA_RL_CreateConnection q (ser_xPR_CreateConnection (rl_wire L) R) s =
      Inr (True, [ToDevice cc Cmd_DV_RL_CreateConnection 0 (ser_xTR_CreateConnection (rl_wire L)
        (xTR_CreateConnection.make r (xPR_CreateConnection.TargetAddress R)))], ?t)"
    using D(1,2) A rs post_dev_live [OF c fits]
    by (simp add: proxy_packet [OF j server_okD(1) [OF s]] OnProxyPacket_def OnProxyCreateConnection_def d r(1))
  moreover have "server_ok L itC itP ?t" using extends_new_context [OF e r(1) rs, of "DeviceRuntimeId D" R PA] by (simp add: extends_def)
  moreover have "relay L ?t r = Some ?C" using relay_put [of s1 r ?C] rs by simp
  moreover have "xRD_RelayConnectionContext.ProxySideConnectionId ?C = xPR_CreateConnection.ProxySideConnectionId R"
      "ProxyConnectionId ?C = j" "xRD_RelayConnectionContext.DeviceId ?C = xPR_CreateConnection.RelaySideDeviceId R"
    using proxy_packet(2) [OF j server_okD(1) [OF s]] id by (simp_all add: new_context_def set_TargetPort_def)
  ultimately show ?thesis using cr(6-8) by (intro exI [of _ ?C] exI [of _ ?t]) simp
qed

text \<open>Once its close has been handled, a tick frees the connection.\<close>

lemma closed_is_freed:
  assumes s: "server_ok L itC itP s" and c: "dconn L s i = Some c" "IsType_Data (xRD_DeviceConnection.Flags c)"
    and now: "DeviceTicker s \<le> now"
  shows "\<exists>t u. OnPeerClose L (DeviceLink i) s = Inr ([], t) \<and> Device_Tick L now t = Some u \<and> server_ok L itC itP u \<and>
    dconn L u i = None \<and> relay L u = relay L s \<and> device L u = device L s \<and> pconn L u = pconn L s"
proof -
  let ?t = "Device_DeferRelease L i s"
  have e: "extends L itC itP s ?t" by (rule extends_defer [OF extends_refl [OF s]])
  then have ok: "server_ok L itC itP ?t" by (simp add: extends_def)
  have "DeviceTicker ?t = DeviceTicker s" using arg_cong [OF dev.doom [of i s], of l_now]
    by (simp add: dev_links_def l_doom_def split: if_splits)
  with now have "DeviceTicker ?t \<le> now" by simp
  from device_tick [OF extends_refl [OF ok] this] obtain u where u: "Device_Tick L now ?t = Some u" "extends L itC itP ?t u"
      "dev_same ?t u" "l_time (dev_links L itC u) = (\<lambda>i. if survives (now - 3000) (now - IdleTimeoutMS) (dev_links L itC ?t) i
         then l_time (dev_links L itC ?t) i else None)" .
  have "i \<in> set (l_doomed (dev_links L itC ?t))"
  proof (cases "i \<in> l_marked (dev_links L itC s)")
    case True
    then show ?thesis using s unfolding dev.doom by (simp add: l_doom_def server_ok_def links_ok_def)
  next
    case False
    then show ?thesis using c(1) unfolding dev.doom by (simp add: l_doom_def) (simp add: dev_links_def)
  qed
  then have "l_time (dev_links L itC u) i = None" unfolding u(4) by (simp add: survives_def)
  then have "dconn L u i = None" by (simp add: dev_links_def)
  moreover have "OnPeerClose L (DeviceLink i) s = Inr ([], ?t)"
    using c server_okD(2) [OF s] by (simp add: OnPeerClose_def dev_typed_def)
  ultimately show ?thesis using u(1-3) by (simp add: dev_same_def extends_def)
qed

end

subsection \<open>The library, and an example\<close>

fun hex_digit :: "byte \<Rightarrow> byte" where
  "hex_digit b = (if b < 58 then b - 48 else and b 0x0F + 9)"

fun ref_hex :: "bytes \<Rightarrow> bytes" where
  "ref_hex (a # b # s) = (16 * hex_digit a + hex_digit b) # ref_hex s"
| "ref_hex _ = []"

fun ref_split :: "bytes \<Rightarrow> bytes \<Rightarrow> bytes list" where
  "ref_split acc [] = [rev acc]"
| "ref_split acc (b # s) = (if b = 58 then rev acc # ref_split [] s else ref_split (b # acc) s)"

fun ref_port :: "u16 \<Rightarrow> ref_addr \<Rightarrow> ref_addr" where
  "ref_port q (RefNone p) = RefNone q"
| "ref_port q (RefV4 a p) = RefV4 a q"
| "ref_port q (RefV6 h l p) = RefV6 h l q"

definition ref_relay_lib ::
    "(xRD_DeviceConnection ref_pool, device_list \<Rightarrow> u64 list, xRD_ProxyConnection ref_pool, proxy_list \<Rightarrow> u64 list,
      xDevice ref_pool, unit \<Rightarrow> u64 list, xRD_RelayConnectionContext ref_pool, ref_addr) rd_lib" where
  "ref_relay_lib = \<lparr>rl_dconns = ref_storage fresh_device_conn, rl_dlists = ref_lists,
     rl_pconns = ref_storage fresh_proxy_conn, rl_plists = ref_lists, rl_devices = ref_storage fresh_device,
     rl_dkill = ref_lists, rl_relays = ref_storage \<lparr>PortOrDeviceSide = 0, RelaySideConnectionId = 0,
       ProxySideConnectionId = 0, DeviceId = 0, ProxyConnectionId = 0\<rparr>,
     rl_wire = ref_wire, rl_fits = (\<lambda>m. length m \<le> MAX_PAYLOAD_SIZE + 32), rl_split = ref_split [], rl_hex = ref_hex,
     rl_r4 = (\<lambda>s. case get_le 4 s of Some (x, _) \<Rightarrow> x | None \<Rightarrow> 0),
     ad_set = (\<lambda>a. case a of RefNone _ \<Rightarrow> False | _ \<Rightarrow> True),
     ad_sa4 = (\<lambda>a. case a of RefV4 x _ \<Rightarrow> ucast x | _ \<Rightarrow> 0), ad_sa6 = (\<lambda>a. case a of RefV6 h _ _ \<Rightarrow> ucast h | _ \<Rightarrow> 0),
     ad_port = ref_port, ad_none = RefNone 0, rl_ServerRuntimeId = 99\<rparr>"

interpretation ref_relay: relay_env ref_relay_lib "\<lambda>l. l" "\<lambda>l. l" "\<lambda>l. l"
  "\<lparr>PortOrDeviceSide = 0, RelaySideConnectionId = 0, ProxySideConnectionId = 0, DeviceId = 0, ProxyConnectionId = 0\<rparr>"
  unfolding relay_env_def ref_relay_lib_def by (simp add: ref_storage_contract ref_lists_contract)

definition empty_server where
  "empty_server L itC itP s \<longleftrightarrow> (\<forall>i. dconn L s i = None) \<and> (\<forall>n. itC (DeviceLists s) n = []) \<and> (\<forall>i. pconn L s i = None) \<and>
     (\<forall>n. itP (ProxyLists s) n = []) \<and> (\<forall>i. device L s i = None) \<and> (\<forall>i. relay L s i = None)"

lemma empty_server_ok: "empty_server L itC itP s \<Longrightarrow> server_ok L itC itP s"
  by (simp add: empty_server_def server_ok_def links_ok_def parted_def dev_links_def proxy_links_def dev_good_def dev_typed_def
      proxy_typed_def in_order_def)

definition demo_server ::
    "(xRD_DeviceConnection ref_pool, device_list \<Rightarrow> u64 list, xRD_ProxyConnection ref_pool, proxy_list \<Rightarrow> u64 list,
      xDevice ref_pool, unit \<Rightarrow> u64 list, xRD_RelayConnectionContext ref_pool) relay_server" where
  "demo_server = \<lparr>DeviceTicker = 500000, DeviceConns = ref_pool_init 4, DeviceLists = (\<lambda>_. []), ProxyTicker = 500000,
     ProxyConns = ref_pool_init 2, ProxyLists = (\<lambda>_. []), DevicePool = ref_pool_init 2, DeviceKillList = (\<lambda>_. []),
     ContextPool = ref_pool_init 2\<rparr>"

lemma demo_server_empty: "empty_server ref_relay_lib (\<lambda>l. l) (\<lambda>l. l) demo_server"
  by (simp add: empty_server_def demo_server_def dconn_def pconn_def device_def relay_def ref_relay_lib_def ref_storage_def ref_pool_init_def)

text \<open>The states that three new connections lead to.\<close>

definition demo_arrived where
  "demo_arrived n = fold (\<lambda>srv. OnNewConnection ref_relay_lib srv True) (take n [ControlServer, DataServer, ProxyServer]) demo_server"

lemma arrive_reach: "relay_reach ref_relay_lib s0 s \<Longrightarrow> relay_reach ref_relay_lib s0 (OnNewConnection ref_relay_lib srv b s)"
  using relay_reach.step [of ref_relay_lib s0 s "Arrive srv b"] by (auto simp: rd_step_def)

lemma demo_arrived_reach: "relay_reach ref_relay_lib demo_server (demo_arrived n)"
proof -
  have "relay_reach ref_relay_lib demo_server (fold (\<lambda>srv. OnNewConnection ref_relay_lib srv True) l s)"
    if "relay_reach ref_relay_lib demo_server s" for l s
    using that by (induction l arbitrary: s) (simp_all add: arrive_reach)
  then show ?thesis using relay_reach.init [of ref_relay_lib demo_server] by (simp add: demo_arrived_def)
qed

text \<open>A state with a device on its two connections, a proxy connection and a relay context between them.\<close>

definition demo_dconn :: "u64 \<Rightarrow> u64 \<Rightarrow> xRD_DeviceConnection" where
  "demo_dconn i F = \<lparr>xRD_DeviceConnection.ConnectionId = i, xRD_DeviceConnection.Flags = F,
     xRD_DeviceConnection.IdleTimestamMS = 500000, xRD_DeviceConnection.DeviceId = 1\<rparr>"

definition demo_pconn :: xRD_ProxyConnection where
  "demo_pconn = \<lparr>xRD_ProxyConnection.ConnectionId = 1, xRD_ProxyConnection.Flags = 4,
     xRD_ProxyConnection.IdleTimestamMS = 500000, ChallengeReady = False\<rparr>"

definition demo_device :: xDevice where
  "demo_device = fresh_device\<lparr>DeviceRuntimeId := 1, CtrlConnection := Some 1, DataConnection := Some 2\<rparr>"

definition demo_context :: xRD_RelayConnectionContext where
  "demo_context = \<lparr>PortOrDeviceSide = 5, RelaySideConnectionId = 1, ProxySideConnectionId = 77, DeviceId = 1, ProxyConnectionId = 1\<rparr>"

definition demo_relay ::
    "(xRD_DeviceConnection ref_pool, device_list \<Rightarrow> u64 list, xRD_ProxyConnection ref_pool, proxy_list \<Rightarrow> u64 list,
      xDevice ref_pool, unit \<Rightarrow> u64 list, xRD_RelayConnectionContext ref_pool) relay_server" where
  "demo_relay = demo_server\<lparr>
     DeviceConns := \<lparr>rp_last = 2, rp_cap = 4, rp_slots = [(2, demo_dconn 2 2), (1, demo_dconn 1 1)]\<rparr>,
     DeviceLists := (\<lambda>_. [])(NewConnectionList := [1], IdleConnectionList := [2]),
     ProxyConns := \<lparr>rp_last = 1, rp_cap = 2, rp_slots = [(1, demo_pconn)]\<rparr>,
     ProxyLists := (\<lambda>_. [])(ChallengeConnectionList := [1]),
     DevicePool := \<lparr>rp_last = 1, rp_cap = 2, rp_slots = [(1, demo_device)]\<rparr>,
     ContextPool := \<lparr>rp_last = 1, rp_cap = 3, rp_slots = [(1, demo_context)]\<rparr>\<rparr>"

lemma demo_maps:
  "dconn ref_relay_lib demo_relay = [1 \<mapsto> demo_dconn 1 1, 2 \<mapsto> demo_dconn 2 2]"
  "pconn ref_relay_lib demo_relay = [1 \<mapsto> demo_pconn]"
  "device ref_relay_lib demo_relay = [1 \<mapsto> demo_device]"
  "relay ref_relay_lib demo_relay = [1 \<mapsto> demo_context]"
  "GetDeviceById ref_relay_lib demo_relay 1 = Some demo_device"
  "DeviceTicker demo_relay = 500000" "ProxyTicker demo_relay = 500000"
  by (auto simp: dconn_def pconn_def device_def relay_def GetDeviceById_def demo_relay_def demo_server_def ref_relay_lib_def
      ref_storage_def fun_eq_iff IsBeingDeleted_def demo_device_def fresh_device_def)

lemma demo_types:
  "IsType_Ctrl 1" "\<not> IsType_Data 1" "\<not> IsType_Ctrl 2" "IsType_Data 2" "IsType_ProxyClient 4"
  "\<not> HasMark_Delete 1" "\<not> HasMark_Delete 2" "\<not> HasMark_Delete 4"
  by code_simp+

lemma demo_relay_ok: "server_ok ref_relay_lib (\<lambda>l. l) (\<lambda>l. l) demo_relay"
proof -
  have lists: "DeviceLists demo_relay = (\<lambda>_. [])(NewConnectionList := [1], IdleConnectionList := [2])"
    "ProxyLists demo_relay = (\<lambda>_. [])(ChallengeConnectionList := [1])" by (simp_all add: demo_relay_def)
  have "links_ok (dev_links ref_relay_lib (\<lambda>l. l) demo_relay)"
    by (auto simp: links_ok_def parted_def in_order_def dev_links_def demo_maps lists demo_dconn_def demo_types split: if_splits)
  moreover have "links_ok (proxy_links ref_relay_lib (\<lambda>l. l) demo_relay)"
    by (auto simp: links_ok_def parted_def in_order_def proxy_links_def demo_maps lists demo_pconn_def demo_types split: if_splits)
  moreover have "dev_good ref_relay_lib (\<lambda>l. l) demo_relay"
    by (auto simp: dev_good_def dev_typed_def demo_maps lists demo_dconn_def demo_types split: if_splits)
  moreover have "proxy_typed ref_relay_lib demo_relay"
    by (auto simp: proxy_typed_def demo_maps demo_pconn_def demo_types split: if_splits)
  ultimately show ?thesis
    by (simp add: server_ok_def demo_maps demo_context_def demo_device_def)
qed

subsection \<open>Properties\<close>

text \<open>The last packet of the connection came at \<open>T\<close> or before.\<close>

definition silent_device where
  "silent_device L s T i \<longleftrightarrow> (\<exists>c. dconn L s i = Some c \<and> xRD_DeviceConnection.IdleTimestamMS c \<le> T)"

definition silent_proxy where
  "silent_proxy L s T i \<longleftrightarrow> (\<exists>c. pconn L s i = Some c \<and> xRD_ProxyConnection.IdleTimestamMS c \<le> T)"

lemma silent_on_time:
  "on_time (dev_links L itC s) T i = silent_device L s T i" "on_time (proxy_links L itP s) T i = silent_proxy L s T i"
  by (auto simp: on_time_def silent_device_def silent_proxy_def dev_links_def proxy_links_def split: option.split)

lemma no_link:
  "l_time (dev_links L itC s) i = None \<longleftrightarrow> dconn L s i = None"
  "l_time (proxy_links L itP s) i = None \<longleftrightarrow> pconn L s i = None"
  by (simp_all add: dev_links_def proxy_links_def)

text \<open>
  C27: In every state that the device relay server reaches from an empty one, over any sequence of
  new connections, packets, keep-alives, closes and ticks, every device connection is on exactly one
  of the new, idle and kill lists and every proxy connection on exactly one of the challenge, idle
  and kill lists; the first two lists of each are in the order of their times, none of which lies in
  the future; exactly the proxy and device connections marked for deletion are on the kill lists; and every
  connection, device and relay context is stored under the id it carries, every connection with the
  type of its server.
\<close>

theorem relay_links_invariant:
  assumes "relay_env L itC itP itK ctx0" "empty_server L itC itP s0" "relay_reach L s0 s"
  shows "server_ok L itC itP s"
  using relay_env.reach_extends [OF assms(1,3) empty_server_ok [OF assms(2)]] by (simp add: extends_def)

lemma relay_links_invariant_witness:
  "server_ok ref_relay_lib (\<lambda>l. l) (\<lambda>l. l) (demo_arrived 3) \<and> dconn ref_relay_lib (demo_arrived 3) 2 \<noteq> None"
proof
  show "server_ok ref_relay_lib (\<lambda>l. l) (\<lambda>l. l) (demo_arrived 3)"
    by (rule relay_links_invariant [OF ref_relay.relay_env_axioms demo_server_empty demo_arrived_reach])
  show "dconn ref_relay_lib (demo_arrived 3) 2 \<noteq> None" by code_simp
qed

text \<open>
  C28: A tick of either connection manager ends. The device connection manager closes exactly the
  connections on its kill list, the new ones that have been silent for three seconds and the idle
  ones that have been silent for two minutes; the proxy connection manager those on its kill list, those that
  have not passed the challenge within two seconds and those silent for three minutes. Nothing
  else of the server changes: the devices and relay contexts of a closed connection stay.
\<close>

theorem relay_ticks:
  assumes env: "relay_env L itC itP itK ctx0" and s: "server_ok L itC itP s"
    and now: "DeviceTicker s \<le> now" "ProxyTicker s \<le> now"
  shows "(\<exists>t. Device_Tick L now s = Some t \<and> server_ok L itC itP t \<and>
      (\<forall>i. dconn L t i = None \<longleftrightarrow> dconn L s i = None \<or> i \<in> set (itC (DeviceLists s) KillConnectionList) \<or>
        i \<in> set (itC (DeviceLists s) NewConnectionList) \<and> silent_device L s (now - 3000) i \<or>
        i \<in> set (itC (DeviceLists s) IdleConnectionList) \<and> silent_device L s (now - 120000) i) \<and>
      pconn L t = pconn L s \<and> device L t = device L s \<and> relay L t = relay L s) \<and>
    (\<exists>t. Proxy_Tick L now s = Some t \<and> server_ok L itC itP t \<and>
      (\<forall>i. pconn L t i = None \<longleftrightarrow> pconn L s i = None \<or> i \<in> set (itP (ProxyLists s) KillProxyList) \<or>
        i \<in> set (itP (ProxyLists s) ChallengeConnectionList) \<and> silent_proxy L s (now - 2000) i \<or>
        i \<in> set (itP (ProxyLists s) IdleProxyList) \<and> silent_proxy L s (now - 180000) i) \<and>
      dconn L t = dconn L s \<and> device L t = device L s \<and> relay L t = relay L s)"
    (is "?dev \<and> ?proxy")
proof
  note e = extends_refl [OF s]
  obtain t where t: "Device_Tick L now s = Some t" "extends L itC itP s t" "relay_env.dev_same L s t"
    "l_time (dev_links L itC t) = (\<lambda>i. if survives (now - 3000) (now - IdleTimeoutMS) (dev_links L itC s) i
       then l_time (dev_links L itC s) i else None)"
    using relay_env.device_tick [OF env e now(1)] by blast
  have x: "dconn L t i = None \<longleftrightarrow> \<not> survives (now - 3000) (now - IdleTimeoutMS) (dev_links L itC s) i \<or> dconn L s i = None" for i
    unfolding no_link(1) [of L itC, symmetric] t(4) by simp
  have y: "survives (now - 3000) (now - IdleTimeoutMS) (dev_links L itC s) i \<longleftrightarrow>
      \<not> (i \<in> set (itC (DeviceLists s) KillConnectionList) \<or>
        i \<in> set (itC (DeviceLists s) NewConnectionList) \<and> silent_device L s (now - 3000) i \<or>
        i \<in> set (itC (DeviceLists s) IdleConnectionList) \<and> silent_device L s (now - 120000) i)" for i
    unfolding survives_def silent_on_time IdleTimeoutMS_def by (simp add: dev_links_def)
  have z: "dconn L t i = None \<longleftrightarrow> dconn L s i = None \<or> i \<in> set (itC (DeviceLists s) KillConnectionList) \<or>
        i \<in> set (itC (DeviceLists s) NewConnectionList) \<and> silent_device L s (now - 3000) i \<or>
        i \<in> set (itC (DeviceLists s) IdleConnectionList) \<and> silent_device L s (now - 120000) i" for i
    using x [of i] y [of i] by blast
  show ?dev by (intro exI [of _ t] conjI allI z) (use t(1-3) in \<open>simp_all add: extends_def relay_env.dev_same_def [OF env]\<close>)
  obtain t where t: "Proxy_Tick L now s = Some t" "extends L itC itP s t" "relay_env.proxy_same L s t"
    "l_time (proxy_links L itP t) = (\<lambda>i. if survives (now - CHALLENGE_TIMEOUT) (now - IDLE_TIMEOUT) (proxy_links L itP s) i
       then l_time (proxy_links L itP s) i else None)"
    using relay_env.proxy_tick [OF env e now(2)] by blast
  have x: "pconn L t i = None \<longleftrightarrow> \<not> survives (now - CHALLENGE_TIMEOUT) (now - IDLE_TIMEOUT) (proxy_links L itP s) i \<or> pconn L s i = None" for i
    unfolding no_link(2) [of L itP, symmetric] t(4) by simp
  have y: "survives (now - CHALLENGE_TIMEOUT) (now - IDLE_TIMEOUT) (proxy_links L itP s) i \<longleftrightarrow>
      \<not> (i \<in> set (itP (ProxyLists s) KillProxyList) \<or>
        i \<in> set (itP (ProxyLists s) ChallengeConnectionList) \<and> silent_proxy L s (now - 2000) i \<or>
        i \<in> set (itP (ProxyLists s) IdleProxyList) \<and> silent_proxy L s (now - 180000) i)" for i
    unfolding survives_def silent_on_time CHALLENGE_TIMEOUT_def IDLE_TIMEOUT_def by (simp add: proxy_links_def)
  have z: "pconn L t i = None \<longleftrightarrow> pconn L s i = None \<or> i \<in> set (itP (ProxyLists s) KillProxyList) \<or>
        i \<in> set (itP (ProxyLists s) ChallengeConnectionList) \<and> silent_proxy L s (now - 2000) i \<or>
        i \<in> set (itP (ProxyLists s) IdleProxyList) \<and> silent_proxy L s (now - 180000) i" for i
    using x [of i] y [of i] by blast
  show ?proxy by (intro exI [of _ t] conjI allI z) (use t(1-3) in \<open>simp_all add: extends_def relay_env.proxy_same_def [OF env]\<close>)
qed

lemma relay_ticks_witness:
  "\<exists>t. Device_Tick ref_relay_lib 504000 demo_relay = Some t \<and> dconn ref_relay_lib t 1 = None \<and>
     dconn ref_relay_lib t 2 \<noteq> None \<and> device ref_relay_lib t 1 = Some demo_device"
proof -
  have now: "DeviceTicker demo_relay \<le> 504000" "ProxyTicker demo_relay \<le> 504000" by (simp_all add: demo_maps)
  note tick = relay_ticks [OF ref_relay.relay_env_axioms demo_relay_ok now, THEN conjunct1]
  have l: "DeviceLists demo_relay = (\<lambda>_. [])(NewConnectionList := [1], IdleConnectionList := [2])"
    by (simp add: demo_relay_def)
  have t: "silent_device ref_relay_lib demo_relay (504000 - 3000) 1" "\<not> silent_device ref_relay_lib demo_relay (504000 - 120000) 2"
    by (simp_all add: silent_device_def demo_maps demo_dconn_def)
  show ?thesis
    by (rule exE [OF tick], elim conjE, rule exI, rule conjI, assumption) (use l t in \<open>simp add: demo_maps\<close>)
qed

text \<open>
  The way of a client's data. A proxy server asks for a relay connection to a numeric address
  on a device that has both connections, and a context is free: the device's control connection is
  asked to connect under the context's id. When the device's data connection reports that it has connected, the
  proxy server hears so under its own id of the client. From then on every payload of the proxy
  server of at most \<open>MAX_PAYLOAD_SIZE\<close> bytes reaches the device's data connection under the device's id of the target, every payload of
  the device the proxy connection under the client's id, each unchanged.
\<close>

theorem relay_path:
  assumes env: "relay_env L itC itP itK ctx0" and w: "wire_codec (rl_wire L)" and fits: "packets_fit L"
    and s: "server_ok L itC itP s" and j: "pconn L s j = Some PA"
    and D: "GetDeviceById L s d = Some D" "CtrlConnection D = Some cc" "dconn L s cc \<noteq> None"
    and dc: "DataConnection D = Some dc" "dconn L s dc = Some c" "IsType_Data (xRD_DeviceConnection.Flags c)"
    and A: "ad_set L A" and r: "fst (CreateRelay L s) = r" "r \<noteq> 0"
  shows "\<exists>s1 s2. server_ok L itC itP s2 \<and>
    OnPacket L (ProxyLink j) Cmd_PA_RL_CreateConnection q
      (ser_xPR_CreateConnection (rl_wire L) (xPR_CreateConnection.make d p A [] port)) s =
      Inr (True, [ToDevice cc Cmd_DV_RL_CreateConnection 0 (ser_xTR_CreateConnection (rl_wire L) (xTR_CreateConnection.make r A))], s1) \<and>
    OnPacket L (DeviceLink dc) Cmd_DV_RL_NotifyConnectionState q
      (ser_xTR_ConnectionStateNotify (rl_wire L) (xTR_ConnectionStateNotify.make ds r STATE_ESTABLISHED u v)) s1 =
      Inr (True, [ToProxy j Cmd_PA_RL_NotifyConnectionState 0 (ser_xPR_ConnectionStateNotify (rl_wire L)
        (xPR_ConnectionStateNotify.make p r STATE_ESTABLISHED 0 0))], s2) \<and>
    (\<forall>x. x \<noteq> [] \<and> length x \<le> MAX_PAYLOAD_SIZE \<and> length x \<le> w_str_max (rl_wire L) \<longrightarrow>
      OnPacket L (ProxyLink j) Cmd_PA_RL_PostData q (ser_xPR_PushData (rl_wire L) (xPR_PushData.make p r x)) s2 =
        Inr (True, [ToDevice dc Cmd_DV_RL_PostData 0 (the (ser_xTR_PostData (rl_wire L) (xTR_PostData.make ds r x)))], s2) \<and>
      OnPacket L (DeviceLink dc) Cmd_DV_RL_PostData q (the (ser_xTR_PostData (rl_wire L) (xTR_PostData.make ds r x))) s2 =
        Inr (True, [ToProxy j Cmd_PA_RL_PostData 0 (ser_xPR_PushData (rl_wire L) (xPR_PushData.make p r x))], s2))"
proof -
  have narrow: "ucast (ucast ds :: u64) = ds" by (rule bit_word_eqI) (simp add: bit_simps)
  obtain s0 where cr: "CreateRelay L s = (r, s0)" using r(1) by (cases "CreateRelay L s") auto
  have R: "ok_xPR_CreateConnection (rl_wire L) (xPR_CreateConnection.make d p A [] port)"
      "xPR_CreateConnection.RelaySideDeviceId (xPR_CreateConnection.make d p A [] port) = d"
      "xPR_CreateConnection.TargetAddress (xPR_CreateConnection.make d p A [] port) = A"
      "xPR_CreateConnection.ProxySideConnectionId (xPR_CreateConnection.make d p A [] port) = p"
    by (simp_all add: ok_xPR_CreateConnection_def xPR_CreateConnection.make_def)
  have DA: "GetDeviceById L s (xPR_CreateConnection.RelaySideDeviceId (xPR_CreateConnection.make d p A [] port)) = Some D"
      "ad_set L (xPR_CreateConnection.TargetAddress (xPR_CreateConnection.make d p A [] port))"
    using D(1) A R(2,3) by simp_all
  obtain RC s1 where c1: "OnPacket L (ProxyLink j) Cmd_PA_RL_CreateConnection q
      (ser_xPR_CreateConnection (rl_wire L) (xPR_CreateConnection.make d p A [] port)) s =
        Inr (True, [ToDevice cc Cmd_DV_RL_CreateConnection 0 (ser_xTR_CreateConnection (rl_wire L) (xTR_CreateConnection.make r A))], s1)"
      "server_ok L itC itP s1" "relay L s1 r = Some RC" "dconn L s1 = dconn L s" "pconn L s1 = pconn L s" "device L s1 = device L s"
      "xRD_RelayConnectionContext.ProxySideConnectionId RC = p" "ProxyConnectionId RC = j" "xRD_RelayConnectionContext.DeviceId RC = d"
    using relay_env.create_packet [OF env w s j R(1) DA(1) D(2,3) DA(2) packets_fitD(5) [OF fits] cr r(2), of q]
    unfolding R(2-4) by (elim exE conjE) (rule that)
  let ?RC = "RC\<lparr>PortOrDeviceSide := ucast ds\<rparr>"
  let ?s2 = "put_relay L r ?RC s1"
  have put: "relay L ?s2 r = Some ?RC" using relay_env.relay_put [OF env, of s1 r ?RC] c1(3) by simp
  have e: "server_ok L itC itP ?s2"
    using relay_env.extends_put_relay [OF env extends_refl [OF c1(2)] c1(3), of ?RC] by (simp add: extends_def)
  have same: "dconn L ?s2 = dconn L s" "pconn L ?s2 = pconn L s" "GetDeviceById L ?s2 d = Some D"
    using c1(4-6) D(1) by (simp_all add: put_relay_def GetDeviceById_def)
  have n: "OnPacket L (DeviceLink dc) Cmd_DV_RL_NotifyConnectionState q
      (ser_xTR_ConnectionStateNotify (rl_wire L) (xTR_ConnectionStateNotify.make ds r STATE_ESTABLISHED u v)) s1 =
      Inr (True, [ToProxy j Cmd_PA_RL_NotifyConnectionState 0 (ser_xPR_ConnectionStateNotify (rl_wire L)
        (xPR_ConnectionStateNotify.make p r STATE_ESTABLISHED 0 0))], ?s2)"
    using established_packet [OF w c1(2) _ dc(3) c1(3)] dc(2) j by (simp add: c1(4,5,7,8) post_own_def packets_fitD [OF fits])
  have x: "OnPacket L (ProxyLink j) Cmd_PA_RL_PostData q (ser_xPR_PushData (rl_wire L) (xPR_PushData.make p r x)) ?s2 =
        Inr (True, [ToDevice dc Cmd_DV_RL_PostData 0 (the (ser_xTR_PostData (rl_wire L) (xTR_PostData.make ds r x)))], ?s2)"
      "OnPacket L (DeviceLink dc) Cmd_DV_RL_PostData q (the (ser_xTR_PostData (rl_wire L) (xTR_PostData.make ds r x))) ?s2 =
        Inr (True, [ToProxy j Cmd_PA_RL_PostData 0 (ser_xPR_PushData (rl_wire L) (xPR_PushData.make p r x))], ?s2)"
    if "x \<noteq> []" "length x \<le> w_str_max (rl_wire L)" "length x \<le> MAX_PAYLOAD_SIZE" for x
  proof -
    have live: "dconn L ?s2 dc \<noteq> None" using same(1) dc(2) by simp
    have "OnPacket L (ProxyLink j) Cmd_PA_RL_PostData q (ser_xPR_PushData (rl_wire L) (xPR_PushData.make p r x)) ?s2 =
        and_then (post_dev L (DataConnection D) Cmd_DV_RL_PostData 0 (ser_xTR_PostData (rl_wire L) (xTR_PostData.make ds r x)) ?s2)
          (\<lambda>out. Inr (True, out, ?s2))"
      using push_packet [OF w e _ put, of j PA p D x q] same j that(2) by (simp add: c1(7,9) narrow)
    then show "OnPacket L (ProxyLink j) Cmd_PA_RL_PostData q (ser_xPR_PushData (rl_wire L) (xPR_PushData.make p r x)) ?s2 =
        Inr (True, [ToDevice dc Cmd_DV_RL_PostData 0 (the (ser_xTR_PostData (rl_wire L) (xTR_PostData.make ds r x)))], ?s2)"
      using ser_post [OF that(1)] post_dev_live [OF live packets_fitD(2) [OF fits that(1,3)]] dc(1) by (metis and_then_simps(2))
    show "OnPacket L (DeviceLink dc) Cmd_DV_RL_PostData q (the (ser_xTR_PostData (rl_wire L) (xTR_PostData.make ds r x))) ?s2 =
        Inr (True, [ToProxy j Cmd_PA_RL_PostData 0 (ser_xPR_PushData (rl_wire L) (xPR_PushData.make p r x))], ?s2)"
      using post_packet [OF w e _ dc(3) put _ that(1,2)] same dc(2) j
      by (simp add: c1(7,8) post_own_def packets_fitD(1) [OF fits that(3)])
  qed
  show ?thesis using c1(1) n x e by blast
qed

lemma ref_lib_simps:
  "wire_codec (rl_wire ref_relay_lib)" "packets_fit ref_relay_lib" "ad_set ref_relay_lib (RefV4 a p)"
  "rl_wire ref_relay_lib = ref_wire" "w_str_max ref_wire = 4096"
proof -
  have put: "length (put_int n x) = n" for n x by (induction n arbitrary: x) simp_all
  have addr: "length (put_addr a) \<le> 24" for a by (cases a) (simp_all add: put_le_def put)
  show "packets_fit ref_relay_lib"
    using addr by (intro packets_fit_sizes) (simp_all add: ref_relay_lib_def ref_wire_def put_le_def put_str_def put)
qed (simp_all add: ref_relay_lib_def ref_wire_contract, simp_all add: ref_wire_def)

lemma relay_path_witness:
  "\<exists>s2. server_ok ref_relay_lib (\<lambda>l. l) (\<lambda>l. l) s2 \<and>
    OnPacket ref_relay_lib (ProxyLink 1) Cmd_PA_RL_PostData 0 (ser_xPR_PushData ref_wire (xPR_PushData.make 78 2 (bytes_of ''GET''))) s2 =
      Inr (True, [ToDevice 2 Cmd_DV_RL_PostData 0 (the (ser_xTR_PostData ref_wire (xTR_PostData.make 5 2 (bytes_of ''GET''))))], s2)"
proof -
  have r: "fst (CreateRelay ref_relay_lib demo_relay) = 2" by code_simp
  show ?thesis
    using relay_path [OF ref_relay.relay_env_axioms ref_lib_simps(1,2) demo_relay_ok _ demo_maps(5) _ _ _ _ _ ref_lib_simps(3) r,
        of 1 demo_pconn 1 2 "demo_dconn 2 2" 0 78 16909060 443 0 5 0 0]
    by (auto simp: ref_lib_simps(4,5) demo_maps demo_device_def demo_dconn_def demo_types bytes_of_def MAX_PAYLOAD_SIZE_def)
qed

text \<open>
  A device keeps a pointer to its data connection when that connection is closed. Once the
  close has been handled and a tick has freed the connection, the next payload of a proxy server for
  a relay context of the device reads freed memory.
\<close>

theorem closed_data_connection_read:
  assumes env: "relay_env L itC itP itK ctx0" and w: "wire_codec (rl_wire L)" and s: "server_ok L itC itP s"
    and j: "pconn L s j = Some PA" and r: "relay L s r = Some RC" "xRD_RelayConnectionContext.ProxySideConnectionId RC = p"
    and D: "GetDeviceById L s (xRD_RelayConnectionContext.DeviceId RC) = Some D" "DataConnection D = Some i"
    and i: "dconn L s i = Some c" "IsType_Data (xRD_DeviceConnection.Flags c)" and now: "DeviceTicker s \<le> now"
    and x: "x \<noteq> []" "length x \<le> w_str_max (rl_wire L)"
  shows "\<exists>t u. OnPeerClose L (DeviceLink i) s = Inr ([], t) \<and> Device_Tick L now t = Some u \<and> server_ok L itC itP u \<and>
    OnPacket L (ProxyLink j) Cmd_PA_RL_PostData q (ser_xPR_PushData (rl_wire L) (xPR_PushData.make p r x)) u = Inl FreedConnection"
proof -
  obtain t u where u: "OnPeerClose L (DeviceLink i) s = Inr ([], t)" "Device_Tick L now t = Some u" "server_ok L itC itP u"
    "dconn L u i = None" "relay L u = relay L s" "device L u = device L s" "pconn L u = pconn L s"
    using relay_env.closed_is_freed [OF env s i now] by blast
  have same: "pconn L u j = Some PA" "relay L u r = Some RC" "GetDeviceById L u (xRD_RelayConnectionContext.DeviceId RC) = Some D"
    using u(5-7) j r(1) D(1) by (simp_all add: GetDeviceById_def)
  have "OnPacket L (ProxyLink j) Cmd_PA_RL_PostData q (ser_xPR_PushData (rl_wire L) (xPR_PushData.make p r x)) u = Inl FreedConnection"
    unfolding push_packet [OF w u(3) same(1,2) r(2) same(3) x(2)] D(2)
    using post_dev_freed [OF u(4)] ser_post [OF x(1)] by (metis and_then_simps(1))
  with u(1-3) show ?thesis by blast
qed

lemma closed_data_connection_read_witness:
  "\<exists>t u. OnPeerClose ref_relay_lib (DeviceLink 2) demo_relay = Inr ([], t) \<and> Device_Tick ref_relay_lib 500001 t = Some u \<and>
    OnPacket ref_relay_lib (ProxyLink 1) Cmd_PA_RL_PostData 0 (ser_xPR_PushData ref_wire (xPR_PushData.make 77 1 (bytes_of ''GET''))) u =
      Inl FreedConnection"
  using closed_data_connection_read [OF ref_relay.relay_env_axioms ref_lib_simps(1) demo_relay_ok,
      of 1 demo_pconn 1 demo_context 77 demo_device 2 "demo_dconn 2 2" 500001 "bytes_of ''GET''" 0]
  by (auto simp: ref_lib_simps(4,5) demo_maps demo_device_def demo_dconn_def demo_context_def demo_types bytes_of_def)

text \<open>
  Over any sequence of events a relay context stays in its pool under its id with the same
  proxy connection, client id and device, and a device stays in its pool: neither a close, nor the destruction
  of a connection that a proxy server asks for, nor a tick gives one back, so both pools only fill up.
\<close>

theorem relay_contexts_kept:
  assumes env: "relay_env L itC itP itK ctx0" and s: "server_ok L itC itP s" and reach: "relay_reach L s t"
    and c: "relay L s i = Some c"
  shows "(\<exists>c'. relay L t i = Some c' \<and> xRD_RelayConnectionContext.RelaySideConnectionId c' = i \<and>
      xRD_RelayConnectionContext.ProxySideConnectionId c' = xRD_RelayConnectionContext.ProxySideConnectionId c \<and>
      ProxyConnectionId c' = ProxyConnectionId c \<and>
      xRD_RelayConnectionContext.DeviceId c' = xRD_RelayConnectionContext.DeviceId c) \<and>
    dom (device L s) \<subseteq> dom (device L t)"
proof -
  have e: "extends L itC itP s t" by (rule relay_env.reach_extends [OF env reach s])
  obtain c' where c': "relay L t i = Some c'" "same_context c c'" using extendsD(3) [OF e c] by blast
  show ?thesis
    using c' extendsD(1) [OF e c'(1)] extendsD(4) [OF e]
    by (cases c; cases c') (auto simp: same_context_def)
qed

lemma relay_contexts_kept_witness:
  "\<exists>c'. relay ref_relay_lib (OnNewConnection ref_relay_lib DataServer True demo_relay) 1 = Some c' \<and>
     xRD_RelayConnectionContext.ProxySideConnectionId c' = 77"
  using relay_contexts_kept [OF ref_relay.relay_env_axioms demo_relay_ok arrive_reach [OF relay_reach.init], of 1 demo_context DataServer True]
  by (auto simp: demo_maps demo_context_def)

end
