(* ===== verification/DeviceSelector.thy ===== *)
theory DeviceSelector
  imports ClientConnection RelayMessages ServiceMessages Commands XelReference
begin

text \<open>
  The device selector, \<^verbatim>\<open>src/cpp/src_app/server_device_selector\<close>: it hears from the relay servers which
  devices are online and picks one for a client by city, state or country. With it come the two
  servers it talks to: the device state relay that passes the reports on
  (\<^verbatim>\<open>server_device_state_relay/_main.cpp\<close>), and the proxy access server's client
  (\<^verbatim>\<open>server_proxy_access/device_selector_manager.cpp\<close>).

  A device context is an object on the heap, named by its address. \<open>None\<close> as the result of an operation is a read
  through an address with no object.
\<close>

subsection \<open>State\<close>

definition DEVICE_KEEPALIVE_TIMEOUT_MS :: u64 where "DEVICE_KEEPALIVE_TIMEOUT_MS = 180000"
definition DEVICE_INFO_RESIST_COUNTER :: u64 where "DEVICE_INFO_RESIST_COUNTER = 2"

record xDR_DeviceInfoBase =
  ReleayServerRuntimeId :: u64
  RelaySideDeviceId :: u64
  DeviceId :: bytes
  CountryId :: u32
  StateId :: u32
  CityId :: u32

record xDS_DeviceContext =
  TimestampMS :: u64
  InfoBase :: xDR_DeviceInfoBase
  ResisterCounter :: u64

record xDS_LocalAudit =
  DurationMS :: u64
  NewDeviceCount :: u64
  ReplacedDeviceCount :: u64
  RemovedDeviceCount :: u64
  TimeoutDeviceCount :: u64
  TotalDeviceCount :: u64

text \<open>
  The lists of one hook per kind of node. A key that an \<^verbatim>\<open>unordered_map\<close> of lists does not hold and an
  empty list are not told apart by any operation, so such a map is the lists named by its keys.
\<close>

record ('t, 'c, 's, 'y) ds_lib =
  dl_timeout :: "('t, unit, nat) list_ops"
  dl_country :: "('c, u32, nat) list_ops"
  dl_state :: "('s, u32, nat) list_ops"
  dl_city :: "('y, u32, nat) list_ops"

record ('t, 'c, 's, 'y) xDS_DeviceContextManager =
  Ticker :: u64
  TimeoutDeviceList :: 't
  CountryDeviceList :: 'c
  StateDeviceList :: 's
  CityDeviceList :: 'y
  DeviceMap :: "bytes \<rightharpoonup> nat"
  Objects :: "nat \<rightharpoonup> xDS_DeviceContext"
  NextAddress :: nat
  LocalAudit :: xDS_LocalAudit

type_synonym ('t, 'c, 's, 'y) selector = "('t, 'c, 's, 'y) xDS_DeviceContextManager"

definition count :: "(xDS_LocalAudit \<Rightarrow> xDS_LocalAudit) \<Rightarrow> ('t, 'c, 's, 'y) selector \<Rightarrow> ('t, 'c, 's, 'y) selector" where
  "count f s = s\<lparr>LocalAudit := f (LocalAudit s)\<rparr>"

definition ResetPeriodCount :: "xDS_LocalAudit \<Rightarrow> xDS_LocalAudit" where
  "ResetPeriodCount a = a\<lparr>DurationMS := 0, NewDeviceCount := 0, ReplacedDeviceCount := 0, RemovedDeviceCount := 0,
     TimeoutDeviceCount := 0\<rparr>"

text \<open>
  The end of a round of the main loop: what is written to the log, \<open>AuditTimestampMS\<close> and the state after it.
\<close>

definition selector_audit ::
    "u64 \<Rightarrow> u64 \<Rightarrow> ('t, 'c, 's, 'y) selector \<Rightarrow> xDS_LocalAudit list \<times> u64 \<times> ('t, 'c, 's, 'y) selector" where
  "selector_audit now AuditTimestampMS s =
     (let d = now - AuditTimestampMS; s1 = count (\<lambda>a. a\<lparr>DurationMS := d\<rparr>) s in
      if 60000 \<le> d then ([LocalAudit s1], now, count ResetPeriodCount s1) else ([], AuditTimestampMS, s1))"

subsection \<open>The context manager\<close>

definition Selector_KeepAlive ::
    "('t, 'c, 's, 'y) ds_lib \<Rightarrow> nat \<Rightarrow> ('t, 'c, 's, 'y) selector \<Rightarrow> ('t, 'c, 's, 'y) selector option" where
  "Selector_KeepAlive L p s = map_option
     (\<lambda>c. s\<lparr>Objects := (Objects s)(p \<mapsto> c\<lparr>TimestampMS := Ticker s\<rparr>),
        TimeoutDeviceList := li_grab_tail (dl_timeout L) (TimeoutDeviceList s) () p\<rparr>)
     (Objects s p)"

definition same_relay :: "xDR_DeviceInfoBase \<Rightarrow> xDR_DeviceInfoBase \<Rightarrow> bool" where
  "same_relay I J \<longleftrightarrow> ReleayServerRuntimeId I = ReleayServerRuntimeId J \<and> RelaySideDeviceId I = RelaySideDeviceId J"

definition resist :: "xDR_DeviceInfoBase \<Rightarrow> xDS_DeviceContext \<Rightarrow> xDS_DeviceContext" where
  "resist I c =
     (if same_relay I (InfoBase c) then c\<lparr>ResisterCounter := DEVICE_INFO_RESIST_COUNTER\<rparr>
      else if ResisterCounter c - 1 = 0 then c\<lparr>InfoBase := I, ResisterCounter := DEVICE_INFO_RESIST_COUNTER\<rparr>
      else c\<lparr>ResisterCounter := ResisterCounter c - 1\<rparr>)"

definition UpdateDevice ::
    "('t, 'c, 's, 'y) ds_lib \<Rightarrow> xDR_DeviceInfoBase \<Rightarrow> ('t, 'c, 's, 'y) selector \<Rightarrow> ('t, 'c, 's, 'y) selector option" where
  "UpdateDevice L I s =
     (case DeviceMap s (DeviceId I) of
        Some p \<Rightarrow> Option.bind (Objects s p) (\<lambda>c.
          let replaced = \<not> same_relay I (InfoBase c) \<and> ResisterCounter c - 1 = 0;
              s1 = s\<lparr>Objects := (Objects s)(p \<mapsto> resist I c)\<rparr> in
          Selector_KeepAlive L p
            (if replaced then count (\<lambda>a. a\<lparr>ReplacedDeviceCount := ReplacedDeviceCount a + 1\<rparr>) s1 else s1))
      | None \<Rightarrow>
          let p = NextAddress s in
          map_option (count (\<lambda>a. a\<lparr>NewDeviceCount := NewDeviceCount a + 1, TotalDeviceCount := TotalDeviceCount a + 1\<rparr>))
            (Selector_KeepAlive L p (s\<lparr>NextAddress := p + 1,
              Objects := (Objects s)(p \<mapsto> \<lparr>TimestampMS = 0, InfoBase = I, ResisterCounter = DEVICE_INFO_RESIST_COUNTER\<rparr>),
              CountryDeviceList := li_add_tail (dl_country L) (CountryDeviceList s) (CountryId I) p,
              StateDeviceList := li_add_tail (dl_state L) (StateDeviceList s) (StateId I) p,
              CityDeviceList := li_add_tail (dl_city L) (CityDeviceList s) (CityId I) p,
              DeviceMap := (DeviceMap s)(DeviceId I \<mapsto> p)\<rparr>)))"

text \<open>The destructor takes the object out of its lists.\<close>

definition delete_context ::
    "('t, 'c, 's, 'y) ds_lib \<Rightarrow> nat \<Rightarrow> ('t, 'c, 's, 'y) selector \<Rightarrow> ('t, 'c, 's, 'y) selector" where
  "delete_context L p s = s\<lparr>Objects := (Objects s)(p := None),
     TimeoutDeviceList := li_remove (dl_timeout L) (TimeoutDeviceList s) p,
     CountryDeviceList := li_remove (dl_country L) (CountryDeviceList s) p,
     StateDeviceList := li_remove (dl_state L) (StateDeviceList s) p,
     CityDeviceList := li_remove (dl_city L) (CityDeviceList s) p\<rparr>"

definition RemoveDeviceById ::
    "('t, 'c, 's, 'y) ds_lib \<Rightarrow> bytes \<Rightarrow> ('t, 'c, 's, 'y) selector \<Rightarrow> ('t, 'c, 's, 'y) selector" where
  "RemoveDeviceById L k s =
     (case DeviceMap s k of None \<Rightarrow> s
      | Some p \<Rightarrow>
          let s1 = delete_context L p s in
          count (\<lambda>a. a\<lparr>RemovedDeviceCount := RemovedDeviceCount a + 1, TotalDeviceCount := TotalDeviceCount a - 1\<rparr>)
            (s1\<lparr>DeviceMap := (DeviceMap s1)(k := None)\<rparr>))"

definition Selector_RemoveDevice ::
    "('t, 'c, 's, 'y) ds_lib \<Rightarrow> nat \<Rightarrow> ('t, 'c, 's, 'y) selector \<Rightarrow> ('t, 'c, 's, 'y) selector option" where
  "Selector_RemoveDevice L p s = map_option (\<lambda>c. RemoveDeviceById L (DeviceId (InfoBase c)) s) (Objects s p)"

text \<open>The loop of the tick over states that may have failed.\<close>

definition pop_silent ::
    "('t, 'c, 's, 'y) ds_lib \<Rightarrow> u64 \<Rightarrow> ('t, 'c, 's, 'y) selector option \<Rightarrow>
     (nat \<times> ('t, 'c, 's, 'y) selector option) option" where
  "pop_silent L KP r = Option.bind r (\<lambda>s. map_option (\<lambda>(p, l). (p, Some (s\<lparr>TimeoutDeviceList := l\<rparr>)))
     (li_pop_head (dl_timeout L) (TimeoutDeviceList s) ()
       (\<lambda>p. case Objects s p of Some c \<Rightarrow> TimestampMS c \<le> KP | None \<Rightarrow> False)))"

definition drop_silent ::
    "('t, 'c, 's, 'y) ds_lib \<Rightarrow> nat \<Rightarrow> ('t, 'c, 's, 'y) selector option \<Rightarrow> ('t, 'c, 's, 'y) selector option" where
  "drop_silent L p r = Option.bind r (\<lambda>s. Selector_RemoveDevice L p
     (count (\<lambda>a. a\<lparr>TimeoutDeviceCount := TimeoutDeviceCount a + 1\<rparr>) s))"

definition Selector_Tick ::
    "('t, 'c, 's, 'y) ds_lib \<Rightarrow> u64 \<Rightarrow> ('t, 'c, 's, 'y) selector \<Rightarrow> ('t, 'c, 's, 'y) selector option option" where
  "Selector_Tick L NowMS s =
     pop_loop (pop_silent L (NowMS - DEVICE_KEEPALIVE_TIMEOUT_MS)) (drop_silent L) (Some (s\<lparr>Ticker := NowMS\<rparr>))"

definition Selector_Clean :: "('t, 'c, 's, 'y) ds_lib \<Rightarrow> bytes list \<Rightarrow> ('t, 'c, 's, 'y) selector \<Rightarrow> ('t, 'c, 's, 'y) selector" where
  "Selector_Clean L keys s = (fold (\<lambda>k s. case DeviceMap s k of None \<Rightarrow> s | Some p \<Rightarrow> delete_context L p s) keys s)
     \<lparr>DeviceMap := (\<lambda>_. None)\<rparr>"

subsection \<open>Selection\<close>

definition pop_first :: "('l, u32, nat) list_ops \<Rightarrow> u32 \<Rightarrow> 'l \<Rightarrow> nat option \<times> 'l" where
  "pop_first li n l = (case li_pop_head li l n (\<lambda>_. True) of None \<Rightarrow> (None, l)
     | Some (p, l1) \<Rightarrow> (Some p, li_add_tail li l1 n p))"

definition SelectDeviceByCountryId ::
    "('t, 'c, 's, 'y) ds_lib \<Rightarrow> u32 \<Rightarrow> ('t, 'c, 's, 'y) selector \<Rightarrow> nat option \<times> ('t, 'c, 's, 'y) selector" where
  "SelectDeviceByCountryId L n s =
     (let (r, l) = pop_first (dl_country L) n (CountryDeviceList s) in (r, s\<lparr>CountryDeviceList := l\<rparr>))"

definition SelectDeviceByStateId ::
    "('t, 'c, 's, 'y) ds_lib \<Rightarrow> u32 \<Rightarrow> ('t, 'c, 's, 'y) selector \<Rightarrow> nat option \<times> ('t, 'c, 's, 'y) selector" where
  "SelectDeviceByStateId L n s =
     (let (r, l) = pop_first (dl_state L) n (StateDeviceList s) in (r, s\<lparr>StateDeviceList := l\<rparr>))"

definition SelectDeviceByCityId ::
    "('t, 'c, 's, 'y) ds_lib \<Rightarrow> u32 \<Rightarrow> ('t, 'c, 's, 'y) selector \<Rightarrow> nat option \<times> ('t, 'c, 's, 'y) selector" where
  "SelectDeviceByCityId L n s =
     (let (r, l) = pop_first (dl_city L) n (CityDeviceList s) in (r, s\<lparr>CityDeviceList := l\<rparr>))"

subsection \<open>Packets\<close>

text \<open>The messages posted on the connection of the request: command, request id and body.\<close>

type_synonym posted = "(u32 \<times> u64 \<times> bytes) list"

definition OnSelectDevice ::
    "'a wire \<Rightarrow> ('t, 'c, 's, 'y) ds_lib \<Rightarrow> u64 \<Rightarrow> bytes \<Rightarrow> ('t, 'c, 's, 'y) selector \<Rightarrow>
     (posted \<times> ('t, 'c, 's, 'y) selector) option" where
  "OnSelectDevice wc L Req Payload s =
     (case des_xPP_AcquireDevice wc Payload of None \<Rightarrow> Some ([], s)
      | Some (R, _) \<Rightarrow>
          let (r, s1) = (if xPP_AcquireDevice.CityId R \<noteq> 0 then SelectDeviceByCityId L (xPP_AcquireDevice.CityId R) s
              else if xPP_AcquireDevice.StateId R \<noteq> 0 then SelectDeviceByStateId L (xPP_AcquireDevice.StateId R) s
              else if xPP_AcquireDevice.CountryId R \<noteq> 0 then SelectDeviceByCountryId L (xPP_AcquireDevice.CountryId R) s
              else (None, s));
              post = (\<lambda>a b. ([(Cmd_DeviceSelector_AcquireDeviceResp, Req,
                ser_xPP_AcquireDeviceResp wc (xPP_AcquireDeviceResp.make a b))], s1)) in
          case r of None \<Rightarrow> Some (post 0 0)
          | Some p \<Rightarrow> map_option (\<lambda>c. post (ReleayServerRuntimeId (InfoBase c)) (RelaySideDeviceId (InfoBase c))) (Objects s1 p))"

definition Selector_OnClientPacket ::
    "'a wire \<Rightarrow> ('t, 'c, 's, 'y) ds_lib \<Rightarrow> u32 \<Rightarrow> u64 \<Rightarrow> bytes \<Rightarrow> ('t, 'c, 's, 'y) selector \<Rightarrow>
     (posted \<times> ('t, 'c, 's, 'y) selector) option" where
  "Selector_OnClientPacket wc L Cmd Req Payload s =
     (if Cmd = Cmd_DeviceSelector_AcquireDevice then OnSelectDevice wc L Req Payload s else Some ([], s))"

definition local_info :: "'a xPP_DeviceInfoUpdate \<Rightarrow> xDR_DeviceInfoBase" where
  "local_info m = \<lparr>ReleayServerRuntimeId = RelayServerRuntimeId m, RelaySideDeviceId = RelaySideDeviceKey m,
     DeviceId = DeviceUuid m, CountryId = xPP_DeviceInfoUpdate.CountryId m, StateId = xPP_DeviceInfoUpdate.StateId m,
     CityId = xPP_DeviceInfoUpdate.CityId m\<rparr>"

text \<open>\<open>m0\<close> is what \<^verbatim>\<open>auto PP = xPP_DeviceInfoUpdate()\<close> holds before it is read.\<close>

definition Observer_OnServerPacket ::
    "'a wire \<Rightarrow> 'a xPP_DeviceInfoUpdate \<Rightarrow> ('t, 'c, 's, 'y) ds_lib \<Rightarrow> u32 \<Rightarrow> bytes \<Rightarrow> ('t, 'c, 's, 'y) selector \<Rightarrow>
     ('t, 'c, 's, 'y) selector option" where
  "Observer_OnServerPacket wc m0 L Cmd Payload s =
     (if Cmd \<noteq> Cmd_DSR_DS_DeviceUpdate then Some s
      else case des_xPP_DeviceInfoUpdate wc m0 Payload of None \<Rightarrow> Some s
      | Some (m, _) \<Rightarrow>
          if \<not> IsOffline m then UpdateDevice L (local_info m) s else Some (RemoveDeviceById L (DeviceUuid m) s))"

subsection \<open>The device state relay\<close>

text \<open>\<^verbatim>\<open>xObserverService\<close>: the observers' connections by their ids.\<close>

type_synonym observers = "u64 list"

definition Observer_OnClientConnected :: "u64 \<Rightarrow> observers \<Rightarrow> observers" where
  "Observer_OnClientConnected c obs = obs @ [c]"

definition Observer_OnClientClose :: "u64 \<Rightarrow> observers \<Rightarrow> observers" where
  "Observer_OnClientClose c obs = remove1 c obs"

definition DispatchData :: "u32 \<Rightarrow> u64 \<Rightarrow> bytes \<Rightarrow> observers \<Rightarrow> (u64 \<times> u32 \<times> u64 \<times> bytes) list" where
  "DispatchData Cmd Req Payload obs = map (\<lambda>c. (c, Cmd, Req, Payload)) obs"

definition Producer_OnClientPacket :: "u32 \<Rightarrow> bytes \<Rightarrow> observers \<Rightarrow> (u64 \<times> u32 \<times> u64 \<times> bytes) list" where
  "Producer_OnClientPacket Cmd Payload obs = (if Cmd = Cmd_DSR_DS_DeviceUpdate then DispatchData Cmd 0 Payload obs else [])"

subsection \<open>The client in the proxy access server\<close>

definition PostDeviceRequest :: "'a wire \<Rightarrow> xPA_DeviceRequest \<Rightarrow> u32 \<times> u64 \<times> bytes" where
  "PostDeviceRequest wc R = (Cmd_DeviceSelector_AcquireDevice, xPA_DeviceRequest.ClientConnectionId R,
     ser_xPP_AcquireDevice wc (xPP_AcquireDevice.make (xPA_DeviceRequest.CountryId R) (xPA_DeviceRequest.StateId R)
       (xPA_DeviceRequest.CityId R) (xPA_DeviceRequest.RequireIpv6 R) (xPA_DeviceRequest.RequireUdp R)
       (xPA_DeviceRequest.RequireRemoteDns R)))"

definition OnDeviceSelectorResult :: "'a wire \<Rightarrow> u64 \<Rightarrow> bytes \<Rightarrow> xPA_DeviceRequestResp option" where
  "OnDeviceSelectorResult wc Req Payload = map_option
     (\<lambda>(M, _). \<lparr>RespClientConnectionId = Req, RelayServerRuntimeId = DeviceRelayServerRuntimeId M,
        DeviceRelaySideId = xPP_AcquireDeviceResp.DeviceRelaySideId M\<rparr>)
     (des_xPP_AcquireDeviceResp wc Payload)"

definition DeviceSelector_OnServerPacket :: "'a wire \<Rightarrow> u32 \<Rightarrow> u64 \<Rightarrow> bytes \<Rightarrow> xPA_DeviceRequestResp option" where
  "DeviceSelector_OnServerPacket wc Cmd Req Payload =
     (if Cmd = Cmd_DeviceSelector_AcquireDeviceResp then OnDeviceSelectorResult wc Req Payload else None)"

end
