(* ===== verification/DeviceIndex.thy ===== *)
theory DeviceIndex
  imports DeviceSelector
begin

text \<open>
  The device selector keeps an index of the online devices by region: its invariant, the abstract
  registry it implements and its fairness.
\<close>

subsection \<open>Regions\<close>

text \<open>\<open>R\<close> lists every object of \<open>D\<close> under exactly one region.\<close>

definition region_ok :: "(u32 \<Rightarrow> nat list) \<Rightarrow> nat set \<Rightarrow> bool" where
  "region_ok R D \<longleftrightarrow> (\<forall>n. distinct (R n) \<and> set (R n) \<subseteq> D) \<and> (\<forall>p\<in>D. \<exists>!n. p \<in> set (R n))"

lemma region_fresh: "region_ok R D \<Longrightarrow> p \<notin> D \<Longrightarrow> p \<notin> set (R n)"
  by (auto simp: region_ok_def)

lemma region_mem: "region_ok R D \<Longrightarrow> R n = p # ps \<Longrightarrow> p \<in> D"
  unfolding region_ok_def by (metis list.set_intros(1) subsetD)

lemma region_ok_add:
  assumes r: "region_ok R D" and p: "p \<notin> D"
  shows "region_ok (R(n := R n @ [p])) (insert p D)"
proof -
  have old: "p \<notin> set (R m)" for m using region_fresh [OF r p] .
  have "\<exists>!m. q \<in> set ((R(n := R n @ [p])) m)" if q: "q \<in> insert p D" for q
  proof (cases "q = p")
    case True
    then show ?thesis using old by (intro ex1I [of _ n]) (auto split: if_splits)
  next
    case False
    then have "(q \<in> set ((R(n := R n @ [p])) m)) = (q \<in> set (R m))" for m by simp
    then show ?thesis using r q False by (simp add: region_ok_def)
  qed
  then show ?thesis using r old by (auto simp: region_ok_def)
qed

lemma region_ok_remove: "region_ok R D \<Longrightarrow> region_ok (\<lambda>m. removeAll p (R m)) (D - {p})"
  by (auto simp: region_ok_def distinct_removeAll)

lemma region_ok_rotate:
  assumes r: "region_ok R D" and n: "R n = p # l"
  shows "region_ok (R(n := l @ [p])) D"
proof -
  have "set ((R(n := l @ [p])) m) = set (R m)" for m using n by auto
  moreover have "distinct ((R(n := l @ [p])) m)" for m
    using r n by (cases "m = n") (auto simp: region_ok_def dest: spec [of _ n])
  ultimately show ?thesis using r unfolding region_ok_def by simp
qed

subsection \<open>The invariant\<close>

definition time_of :: "('t, 'c, 's, 'y) selector \<Rightarrow> nat \<Rightarrow> u64" where
  "time_of s p = (case Objects s p of Some c \<Rightarrow> TimestampMS c | None \<Rightarrow> 0)"

definition mapped :: "('t, 'c, 's, 'y) selector \<Rightarrow> bool" where
  "mapped s \<longleftrightarrow>
     (\<forall>k p. DeviceMap s k = Some p \<longrightarrow> (\<exists>c. Objects s p = Some c \<and> DeviceId (InfoBase c) = k)) \<and>
     (\<forall>p c. Objects s p = Some c \<longrightarrow> DeviceMap s (DeviceId (InfoBase c)) = Some p \<and> p < NextAddress s \<and>
        TimestampMS c \<le> Ticker s \<and> ResisterCounter c \<in> {1, 2}) \<and>
     TotalDeviceCount (LocalAudit s) = of_nat (card (dom (Objects s)))"

definition timed :: "('t \<Rightarrow> unit \<Rightarrow> nat list) \<Rightarrow> ('t, 'c, 's, 'y) selector \<Rightarrow> bool" where
  "timed itT s \<longleftrightarrow> distinct (itT (TimeoutDeviceList s) ()) \<and> set (itT (TimeoutDeviceList s) ()) = dom (Objects s) \<and>
     sorted (map (time_of s) (itT (TimeoutDeviceList s) ()))"

definition selector_ok where
  "selector_ok itT itC itS itY s \<longleftrightarrow> mapped s \<and> timed itT s \<and>
     region_ok (itC (CountryDeviceList s)) (dom (Objects s)) \<and> region_ok (itS (StateDeviceList s)) (dom (Objects s)) \<and>
     region_ok (itY (CityDeviceList s)) (dom (Objects s))"

text \<open>The abstract registry: what is known of each device.\<close>

definition known :: "('t, 'c, 's, 'y) selector \<Rightarrow> bytes \<Rightarrow> xDS_DeviceContext option" where
  "known s k = Option.bind (DeviceMap s k) (Objects s)"

definition heard :: "u64 \<Rightarrow> xDR_DeviceInfoBase \<Rightarrow> xDS_DeviceContext option \<Rightarrow> xDS_DeviceContext" where
  "heard now I r = (case r of None \<Rightarrow> \<lparr>TimestampMS = now, InfoBase = I, ResisterCounter = 2\<rparr>
     | Some c \<Rightarrow>
         if same_relay I (InfoBase c) then c\<lparr>TimestampMS := now, ResisterCounter := 2\<rparr>
         else if ResisterCounter c = 1 then \<lparr>TimestampMS = now, InfoBase = I, ResisterCounter = 2\<rparr>
         else c\<lparr>TimestampMS := now, ResisterCounter := 1\<rparr>)"

lemma heard_resist: "ResisterCounter c \<in> {1, 2} \<Longrightarrow> heard now I (Some c) = (resist I c)\<lparr>TimestampMS := now\<rparr>"
  by (auto simp: heard_def resist_def DEVICE_INFO_RESIST_COUNTER_def)

definition quiet :: "u64 \<Rightarrow> (bytes \<rightharpoonup> xDS_DeviceContext) \<Rightarrow> bytes \<rightharpoonup> xDS_DeviceContext" where
  "quiet KP m k = (case m k of Some c \<Rightarrow> if TimestampMS c \<le> KP then None else Some c | None \<Rightarrow> None)"

lemma known_Some:
  "mapped s \<Longrightarrow> known s k = Some c \<longleftrightarrow> (\<exists>p. Objects s p = Some c \<and> DeviceId (InfoBase c) = k)"
  unfolding mapped_def known_def bind_eq_Some_conv by (metis option.inject)

locale selector_env =
  tl: hooked_lists "dl_timeout L" itT + cl: hooked_lists "dl_country L" itC +
  sl: hooked_lists "dl_state L" itS + yl: hooked_lists "dl_city L" itY
  for L :: "('t, 'c, 's, 'y) ds_lib" and itT :: "'t \<Rightarrow> unit \<Rightarrow> nat list" and itC :: "'c \<Rightarrow> u32 \<Rightarrow> nat list"
    and itS :: "'s \<Rightarrow> u32 \<Rightarrow> nat list" and itY :: "'y \<Rightarrow> u32 \<Rightarrow> nat list"
begin

abbreviation ok where "ok \<equiv> selector_ok itT itC itS itY"

text \<open>Writing an object and moving it to the end of the timeout list.\<close>

lemma touch_timed:
  assumes t: "timed itT s" and p: "\<And>q. q \<noteq> p \<Longrightarrow> Objects u q = Objects s q" "Objects u p = Some c" "TimestampMS c = Ticker s"
    and old: "\<And>q d. Objects s q = Some d \<Longrightarrow> TimestampMS d \<le> Ticker s"
    and l: "TimeoutDeviceList u = li_grab_tail (dl_timeout L) (TimeoutDeviceList s) () p"
  shows "timed itT u"
proof -
  let ?l = "itT (TimeoutDeviceList s) ()"
  have u: "itT (TimeoutDeviceList u) () = removeAll p ?l @ [p]" by (simp add: l tl.grab_tail_items)
  have same: "map (time_of u) (removeAll p ?l) = map (time_of s) (removeAll p ?l)"
    using p(1) by (simp add: time_of_def)
  have "sorted (map (time_of s) (removeAll p ?l))"
    using t sorted_filter [of "time_of s" ?l "\<lambda>x. p \<noteq> x"] by (simp add: timed_def removeAll_filter_not_eq)
  moreover have "time_of s q \<le> Ticker s" if "q \<in> set ?l" for q
    using that t old by (auto simp: timed_def time_of_def split: option.split)
  moreover have "time_of u p = Ticker s" using p(2,3) by (simp add: time_of_def)
  ultimately have "sorted (map (time_of u) (removeAll p ?l @ [p]))" by (auto simp: same sorted_append)
  moreover have "set (removeAll p ?l @ [p]) = dom (Objects u)"
  proof -
    have "dom (Objects u) = insert p (dom (Objects s))" using p(1,2) by (auto simp: domIff) (metis domIff option.distinct(1))
    then show ?thesis using t by (auto simp: timed_def)
  qed
  ultimately show ?thesis using t by (simp add: timed_def u distinct_removeAll)
qed

lemma update_known:
  assumes s: "ok s" and p: "DeviceMap s (DeviceId I) = Some p" and c: "Objects s p = Some c"
  obtains u where "UpdateDevice L I s = Some u" "ok u" "Ticker u = Ticker s"
    "known u = (known s)(DeviceId I \<mapsto> heard (Ticker s) I (Some c))"
    "CountryDeviceList u = CountryDeviceList s" "StateDeviceList u = StateDeviceList s" "CityDeviceList u = CityDeviceList s"
    "Objects u = (Objects s)(p \<mapsto> heard (Ticker s) I (Some c))"
proof -
  let ?c = "(resist I c)\<lparr>TimestampMS := Ticker s\<rparr>"
  have m: "mapped s" and t: "timed itT s" using s by (simp_all add: selector_ok_def)
  have id: "DeviceId (InfoBase c) = DeviceId I" using m p c unfolding mapped_def by (metis option.inject)
  then have rid: "DeviceId (InfoBase ?c) = DeviceId I" by (simp add: resist_def)
  have ctr: "ResisterCounter c \<in> {1, 2}" using m c by (auto simp: mapped_def)
  then have rctr: "ResisterCounter ?c \<in> {1, 2}" by (auto simp: resist_def DEVICE_INFO_RESIST_COUNTER_def)
  obtain u where u: "UpdateDevice L I s = Some u" "Objects u = (Objects s)(p \<mapsto> ?c)"
    "TimeoutDeviceList u = li_grab_tail (dl_timeout L) (TimeoutDeviceList s) () p" "Ticker u = Ticker s" "NextAddress u = NextAddress s"
    "CountryDeviceList u = CountryDeviceList s" "StateDeviceList u = StateDeviceList s" "CityDeviceList u = CityDeviceList s"
    "DeviceMap u = DeviceMap s" "TotalDeviceCount (LocalAudit u) = TotalDeviceCount (LocalAudit s)"
    using p c by (cases "\<not> same_relay I (InfoBase c) \<and> ResisterCounter c - 1 = 0")
      (auto simp: UpdateDevice_def Selector_KeepAlive_def Let_def count_def)
  have d: "dom (Objects u) = dom (Objects s)" using c by (auto simp: u(2))
  have mu: "mapped u" unfolding mapped_def
  proof (intro conjI allI impI)
    fix k q assume "DeviceMap u k = Some q"
    then obtain d where "Objects s q = Some d" "DeviceId (InfoBase d) = k" using m by (auto simp: mapped_def u(9))
    then show "\<exists>d. Objects u q = Some d \<and> DeviceId (InfoBase d) = k" using c id rid by (cases "q = p") (auto simp: u(2))
  next
    fix q d assume q: "Objects u q = Some d"
    then show "DeviceMap u (DeviceId (InfoBase d)) = Some q" "q < NextAddress u" "TimestampMS d \<le> Ticker u" "ResisterCounter d \<in> {1, 2}"
      using m p c rid rctr unfolding mapped_def u(2,4,5,9) by (cases "q = p"; auto)+
  next
    show "TotalDeviceCount (LocalAudit u) = of_nat (card (dom (Objects u)))" using m d u(10) by (simp add: mapped_def)
  qed
  have "timed itT u"
    by (rule touch_timed [OF t, of p u ?c]) (use m u in \<open>auto simp: mapped_def\<close>)
  with mu s d have ok: "ok u" by (simp add: selector_ok_def u(6-8))
  have "known u k = ((known s)(DeviceId I \<mapsto> heard (Ticker s) I (Some c))) k" for k
  proof (cases "DeviceMap s k = Some p")
    case True
    then obtain d where "Objects s p = Some d" "DeviceId (InfoBase d) = k" using m by (auto simp: mapped_def)
    with c id True show ?thesis by (simp add: known_def u(2,9) heard_resist [OF ctr])
  next
    case False
    with p show ?thesis by (cases "DeviceMap s k") (auto simp: known_def u(2,9))
  qed
  with that u ok show ?thesis by (simp add: heard_resist [OF ctr] fun_eq_iff)
qed

lemma update_new:
  assumes s: "ok s" and p: "DeviceMap s (DeviceId I) = None"
  obtains u where "UpdateDevice L I s = Some u" "ok u" "Ticker u = Ticker s"
    "known u = (known s)(DeviceId I \<mapsto> heard (Ticker s) I None)"
    "itC (CountryDeviceList u) = (itC (CountryDeviceList s))(CountryId I := itC (CountryDeviceList s) (CountryId I) @ [NextAddress s])"
    "itS (StateDeviceList u) = (itS (StateDeviceList s))(StateId I := itS (StateDeviceList s) (StateId I) @ [NextAddress s])"
    "itY (CityDeviceList u) = (itY (CityDeviceList s))(CityId I := itY (CityDeviceList s) (CityId I) @ [NextAddress s])"
    "Objects u = (Objects s)(NextAddress s \<mapsto> heard (Ticker s) I None)"
proof -
  let ?p = "NextAddress s" and ?c = "\<lparr>TimestampMS = Ticker s, InfoBase = I, ResisterCounter = 2\<rparr>"
  have m: "mapped s" and t: "timed itT s" and r: "region_ok (itC (CountryDeviceList s)) (dom (Objects s))"
    "region_ok (itS (StateDeviceList s)) (dom (Objects s))" "region_ok (itY (CityDeviceList s)) (dom (Objects s))"
    using s by (simp_all add: selector_ok_def)
  have new: "Objects s ?p = None" using m unfolding mapped_def by (cases "Objects s ?p") auto
  then have pd: "?p \<notin> dom (Objects s)" by (simp add: domIff)
  obtain u where u: "UpdateDevice L I s = Some u" "Objects u = (Objects s)(?p \<mapsto> ?c)"
    "TimeoutDeviceList u = li_grab_tail (dl_timeout L) (TimeoutDeviceList s) () ?p" "Ticker u = Ticker s" "NextAddress u = ?p + 1"
    "CountryDeviceList u = li_add_tail (dl_country L) (CountryDeviceList s) (CountryId I) ?p"
    "StateDeviceList u = li_add_tail (dl_state L) (StateDeviceList s) (StateId I) ?p"
    "CityDeviceList u = li_add_tail (dl_city L) (CityDeviceList s) (CityId I) ?p"
    "DeviceMap u = (DeviceMap s)(DeviceId I \<mapsto> ?p)" "TotalDeviceCount (LocalAudit u) = TotalDeviceCount (LocalAudit s) + 1"
    using p by (auto simp: UpdateDevice_def Selector_KeepAlive_def Let_def count_def DEVICE_INFO_RESIST_COUNTER_def)
  have lists: "itC (CountryDeviceList u) = (itC (CountryDeviceList s))(CountryId I := itC (CountryDeviceList s) (CountryId I) @ [?p])"
    "itS (StateDeviceList u) = (itS (StateDeviceList s))(StateId I := itS (StateDeviceList s) (StateId I) @ [?p])"
    "itY (CityDeviceList u) = (itY (CityDeviceList s))(CityId I := itY (CityDeviceList s) (CityId I) @ [?p])"
    using region_fresh [OF r(1) pd] region_fresh [OF r(2) pd] region_fresh [OF r(3) pd]
    by (simp_all add: u(6-8) cl.add_tail_items sl.add_tail_items yl.add_tail_items)
  have d: "dom (Objects u) = insert ?p (dom (Objects s))" by (simp add: u(2))
  have fin: "finite (dom (Objects s))" using t unfolding timed_def by (metis finite_set)
  have fresh_id: "DeviceId (InfoBase c) \<noteq> DeviceId I" if "Objects s q = Some c" for q c
    using that m p unfolding mapped_def by (metis option.distinct(1))
  have mu: "mapped u" unfolding mapped_def
  proof (intro conjI allI impI)
    fix k q assume q: "DeviceMap u k = Some q"
    show "\<exists>d. Objects u q = Some d \<and> DeviceId (InfoBase d) = k"
    proof (cases "k = DeviceId I")
      case False
      then have "DeviceMap s k = Some q" using q by (simp add: u(9))
      then obtain d where "Objects s q = Some d" "DeviceId (InfoBase d) = k" using m by (auto simp: mapped_def)
      with new show ?thesis by (auto simp: u(2))
    qed (use q in \<open>simp add: u(2,9)\<close>)
  next
    fix q d assume q: "Objects u q = Some d"
    then show "DeviceMap u (DeviceId (InfoBase d)) = Some q" "q < NextAddress u" "TimestampMS d \<le> Ticker u" "ResisterCounter d \<in> {1, 2}"
      using m fresh_id unfolding mapped_def u(2,4,5,9) by (cases "q = ?p"; force)+
  next
    show "TotalDeviceCount (LocalAudit u) = of_nat (card (dom (Objects u)))"
      using m fin pd by (simp add: mapped_def d u(10))
  qed
  have "timed itT u"
    by (rule touch_timed [OF t, of ?p u ?c]) (use m u in \<open>auto simp: mapped_def\<close>)
  with mu have ok: "ok u"
    using region_ok_add [OF r(1) pd] region_ok_add [OF r(2) pd] region_ok_add [OF r(3) pd] by (simp add: selector_ok_def d lists)
  have "known u k = ((known s)(DeviceId I \<mapsto> heard (Ticker s) I None)) k" for k
  proof (cases "k = DeviceId I")
    case False
    show ?thesis
    proof (cases "DeviceMap s k")
      case (Some q)
      then have "q \<noteq> ?p" using m new by (auto simp: mapped_def)
      with False Some show ?thesis by (simp add: known_def u(2,9))
    qed (use False in \<open>simp add: known_def u(9)\<close>)
  qed (simp add: known_def u(2,9) heard_def)
  with that [OF u(1) ok u(4) _ lists] show ?thesis by (simp add: u(2) heard_def fun_eq_iff)
qed

text \<open>A removal, also of an object that has just been taken off the timeout list.\<close>

lemma remove_known:
  assumes s: "ok s" and p: "DeviceMap s k = Some p"
    and l: "T = TimeoutDeviceList s \<or> itT (TimeoutDeviceList s) () = p # itT T ()"
    and a: "TotalDeviceCount a = TotalDeviceCount (LocalAudit s)"
    and ud: "u = RemoveDeviceById L k (s\<lparr>TimeoutDeviceList := T, LocalAudit := a\<rparr>)"
  shows "ok u" "known u = (known s)(k := None)" "Ticker u = Ticker s"
    "itT (TimeoutDeviceList u) () = removeAll p (itT (TimeoutDeviceList s) ())"
proof -
  have m: "mapped s" and t: "timed itT s" and r: "region_ok (itC (CountryDeviceList s)) (dom (Objects s))"
    "region_ok (itS (StateDeviceList s)) (dom (Objects s))" "region_ok (itY (CityDeviceList s)) (dom (Objects s))"
    using s by (simp_all add: selector_ok_def)
  obtain c where c: "Objects s p = Some c" "DeviceId (InfoBase c) = k" using m p by (auto simp: mapped_def)
  have u: "Objects u = (Objects s)(p := None)" "Ticker u = Ticker s" "NextAddress u = NextAddress s"
    "DeviceMap u = (DeviceMap s)(k := None)" "TotalDeviceCount (LocalAudit u) = TotalDeviceCount (LocalAudit s) - 1"
    "itC (CountryDeviceList u) = (\<lambda>m. removeAll p (itC (CountryDeviceList s) m))"
    "itS (StateDeviceList u) = (\<lambda>m. removeAll p (itS (StateDeviceList s) m))"
    "itY (CityDeviceList u) = (\<lambda>m. removeAll p (itY (CityDeviceList s) m))"
    "itT (TimeoutDeviceList u) () = removeAll p (itT T ())"
    by (simp_all add: ud RemoveDeviceById_def p Let_def delete_context_def count_def a tl.remove_items cl.remove_items
        sl.remove_items yl.remove_items)
  show tl: "itT (TimeoutDeviceList u) () = removeAll p (itT (TimeoutDeviceList s) ())" using l u(9) by auto
  have d: "dom (Objects u) = dom (Objects s) - {p}" by (auto simp: u(1))
  have fin: "finite (dom (Objects s))" using t unfolding timed_def by (metis finite_set)
  have pd: "p \<in> dom (Objects s)" using c by blast
  have one: "q = p" if "Objects s q = Some e" "DeviceId (InfoBase e) = k" for q e
    using that m p unfolding mapped_def by (metis option.inject)
  have mu: "mapped u" unfolding mapped_def
  proof (intro conjI allI impI)
    fix j q assume q: "DeviceMap u j = Some q"
    then have "DeviceMap s j = Some q" "j \<noteq> k" by (auto simp: u(4) split: if_splits)
    then obtain e where e: "Objects s q = Some e" "DeviceId (InfoBase e) = j" using m by (auto simp: mapped_def)
    then have "q \<noteq> p" using c \<open>j \<noteq> k\<close> by auto
    with e show "\<exists>e. Objects u q = Some e \<and> DeviceId (InfoBase e) = j" by (simp add: u(1))
  next
    fix q e assume q: "Objects u q = Some e"
    then have qe: "Objects s q = Some e" "q \<noteq> p" by (auto simp: u(1) split: if_splits)
    then have "DeviceId (InfoBase e) \<noteq> k" using one by blast
    then show "DeviceMap u (DeviceId (InfoBase e)) = Some q" using m qe by (simp add: mapped_def u(4))
    show "q < NextAddress u" "TimestampMS e \<le> Ticker u" "ResisterCounter e \<in> {1, 2}"
      using m qe(1) unfolding mapped_def u(2,3) by blast+
  next
    show "TotalDeviceCount (LocalAudit u) = of_nat (card (dom (Objects u)))"
      using m fin pd card_Diff_singleton [OF pd] card_gt_0_iff [of "dom (Objects s)"]
      by (simp add: mapped_def d u(5)) (metis One_nat_def Suc_leI card_gt_0_iff empty_iff of_nat_1 of_nat_diff)
  qed
  have "map (time_of u) (removeAll p (itT (TimeoutDeviceList s) ())) = map (time_of s) (removeAll p (itT (TimeoutDeviceList s) ()))"
    by (simp add: time_of_def u(1))
  moreover have "sorted (map (time_of s) (removeAll p (itT (TimeoutDeviceList s) ())))"
    using t sorted_filter [of "time_of s" "itT (TimeoutDeviceList s) ()" "\<lambda>x. p \<noteq> x"] by (simp add: timed_def removeAll_filter_not_eq)
  ultimately have "timed itT u" using t unfolding timed_def tl d by (simp only: distinct_removeAll set_removeAll simp_thms)
  with mu show "ok u" using r by (simp add: selector_ok_def d u(6-8) region_ok_remove)
  have "known u j = ((known s)(k := None)) j" for j
  proof (cases "DeviceMap s j = Some p")
    case True
    then have "j = k" using c m unfolding mapped_def by (metis option.inject)
    then show ?thesis by (simp add: known_def u(4))
  next
    case False
    with p show ?thesis by (cases "DeviceMap s j") (auto simp: known_def u(1,4))
  qed
  then show "known u = (known s)(k := None)" by blast
  show "Ticker u = Ticker s" by (rule u(2))
qed

lemma remove_unknown: "DeviceMap s k = None \<Longrightarrow> RemoveDeviceById L k s = s"
  by (simp add: RemoveDeviceById_def)

lemma remove_ok:
  assumes s: "ok s"
  shows "ok (RemoveDeviceById L k s)" "known (RemoveDeviceById L k s) = (known s)(k := None)"
    "Ticker (RemoveDeviceById L k s) = Ticker s"
proof -
  have "ok (RemoveDeviceById L k s) \<and> known (RemoveDeviceById L k s) = (known s)(k := None) \<and>
      Ticker (RemoveDeviceById L k s) = Ticker s"
  proof (cases "DeviceMap s k")
    case None
    then have "(known s)(k := None) = known s" by (auto simp: known_def fun_eq_iff)
    with s None show ?thesis by (simp add: remove_unknown)
  next
    case (Some p)
    have e: "s\<lparr>TimeoutDeviceList := TimeoutDeviceList s, LocalAudit := LocalAudit s\<rparr> = s" by simp
    show ?thesis using remove_known(1-3) [OF s Some disjI1 [OF refl] refl refl] unfolding e by simp
  qed
  then show "ok (RemoveDeviceById L k s)" "known (RemoveDeviceById L k s) = (known s)(k := None)"
    "Ticker (RemoveDeviceById L k s) = Ticker s" by simp_all
qed

text \<open>The loop of a tick: what is left to do, and what is known when it is through.\<close>

lemma pop_silent_Some:
  assumes "pop_silent L KP (Some s) = Some (p, r)"
  obtains l where "r = Some (s\<lparr>TimeoutDeviceList := l\<rparr>)" "itT (TimeoutDeviceList s) () = p # itT l ()"
    "case Objects s p of Some c \<Rightarrow> TimestampMS c \<le> KP | None \<Rightarrow> False"
proof -
  obtain l where l: "li_pop_head (dl_timeout L) (TimeoutDeviceList s) ()
      (\<lambda>p. case Objects s p of Some c \<Rightarrow> TimestampMS c \<le> KP | None \<Rightarrow> False) = Some (p, l)" "r = Some (s\<lparr>TimeoutDeviceList := l\<rparr>)"
    using assms by (auto simp: pop_silent_def)
  from tl.pop_head_Some(1,2) [OF l(1)] l(2) that show ?thesis by blast
qed

lemma drop_step:
  assumes s: "ok s" and pop: "pop_silent L KP (Some s) = Some (p, r)"
  obtains u where "drop_silent L p r = Some u" "ok u" "Ticker u = Ticker s" "quiet KP (known u) = quiet KP (known s)"
    "length (itT (TimeoutDeviceList u) ()) < length (itT (TimeoutDeviceList s) ())"
proof -
  from pop obtain l where l: "r = Some (s\<lparr>TimeoutDeviceList := l\<rparr>)" "itT (TimeoutDeviceList s) () = p # itT l ()"
    "case Objects s p of Some c \<Rightarrow> TimestampMS c \<le> KP | None \<Rightarrow> False" by (rule pop_silent_Some)
  then obtain c where c: "Objects s p = Some c" "TimestampMS c \<le> KP" by (auto split: option.splits)
  have k: "DeviceMap s (DeviceId (InfoBase c)) = Some p" using s c(1) by (simp add: selector_ok_def mapped_def)
  let ?a = "(LocalAudit s)\<lparr>TimeoutDeviceCount := TimeoutDeviceCount (LocalAudit s) + 1\<rparr>"
  let ?u = "RemoveDeviceById L (DeviceId (InfoBase c)) (s\<lparr>TimeoutDeviceList := l, LocalAudit := ?a\<rparr>)"
  note u = remove_known [OF s k disjI2 [OF l(2)], of ?a ?u]
  have d: "drop_silent L p r = Some ?u" using c(1) by (simp add: l(1) drop_silent_def Selector_RemoveDevice_def count_def)
  have "known s (DeviceId (InfoBase c)) = Some c" using k c(1) by (simp add: known_def)
  then have "quiet KP (known ?u) = quiet KP (known s)" using c(2) u(2) by (simp add: quiet_def fun_eq_iff)
  moreover have "length (itT (TimeoutDeviceList ?u) ()) < length (itT (TimeoutDeviceList s) ())"
    using u(4) l(2) length_removeAll_less [of p "itT (TimeoutDeviceList s) ()"] by simp
  ultimately show ?thesis using that [OF d] u(1,3) by simp
qed

lemma tick_ok:
  assumes s: "ok s" and now: "Ticker s \<le> now"
  obtains u where "Selector_Tick L now s = Some (Some u)" "ok u" "Ticker u = now"
    "known u = quiet (now - DEVICE_KEEPALIVE_TIMEOUT_MS) (known s)"
proof -
  let ?KP = "now - DEVICE_KEEPALIVE_TIMEOUT_MS" and ?s = "s\<lparr>Ticker := now\<rparr>"
  let ?I = "\<lambda>r. \<exists>u. r = Some u \<and> ok u \<and> Ticker u = now \<and> quiet ?KP (known u) = quiet ?KP (known s)"
  let ?m = "\<lambda>r. case r of Some u \<Rightarrow> length (itT (TimeoutDeviceList u) ()) | None \<Rightarrow> 0"
  have "mapped ?s" using s order_trans [OF _ now] by (auto simp: selector_ok_def mapped_def)
  moreover have "timed itT ?s = timed itT s" by (simp add: timed_def time_of_def [abs_def])
  moreover have k: "known ?s = known s" by (simp add: known_def fun_eq_iff)
  ultimately have "?I (Some ?s)" using s by (simp add: selector_ok_def)
  moreover have step: "?I (drop_silent L p r') \<and> ?m (drop_silent L p r') < ?m r"
    if r: "?I r" and pop: "pop_silent L ?KP r = Some (p, r')" for r p r'
  proof -
    obtain u where u: "r = Some u" "ok u" "Ticker u = now" "quiet ?KP (known u) = quiet ?KP (known s)" using r by blast
    from drop_step [OF u(2) pop [unfolded u(1)]] obtain v where "drop_silent L p r' = Some v" "ok v" "Ticker v = Ticker u"
      "quiet ?KP (known v) = quiet ?KP (known u)" "length (itT (TimeoutDeviceList v) ()) < length (itT (TimeoutDeviceList u) ())" .
    with u show ?thesis by simp
  qed
  ultimately have "\<exists>r. pop_loop (pop_silent L ?KP) (drop_silent L) (Some ?s) = Some r \<and> ?I r \<and> pop_silent L ?KP r = None"
    by (intro pop_loop_total [where I = ?I and m = ?m, OF _ step [THEN conjunct1] step [THEN conjunct2]])
  then obtain u where u: "Selector_Tick L now s = Some (Some u)" "ok u" "Ticker u = now" "quiet ?KP (known u) = quiet ?KP (known s)"
      "pop_silent L ?KP (Some u) = None" by (auto simp: Selector_Tick_def)
  have t: "timed itT u" and m: "mapped u" using u(2) by (simp_all add: selector_ok_def)
  have late: "?KP < TimestampMS c" if c: "Objects u p = Some c" for p c
  proof -
    let ?l = "itT (TimeoutDeviceList u) ()"
    have p: "p \<in> set ?l" using t c by (auto simp: timed_def)
    then obtain q qs where q: "?l = q # qs" by (cases ?l) auto
    then obtain d where d: "Objects u q = Some d" using t by (auto simp: timed_def)
    have "\<not> TimestampMS d \<le> ?KP" using u(5) q d by (auto simp: pop_silent_def tl.pop_head_None)
    moreover have "time_of u q \<le> time_of u p" using t p q by (auto simp: timed_def)
    ultimately show ?thesis using c d by (simp add: time_of_def)
  qed
  have "quiet ?KP (known u) k = known u k" for k
  proof (cases "known u k")
    case (Some c)
    then obtain p where "Objects u p = Some c" using known_Some [OF m] by blast
    from late [OF this] Some show ?thesis by (simp add: quiet_def not_le)
  qed (simp add: quiet_def)
  with u(4) have "known u = quiet ?KP (known s)" by (simp add: fun_eq_iff)
  with that u(1-3) show ?thesis by blast
qed

end

subsection \<open>Selection\<close>

lemma pop_first_items:
  assumes h: "hooked_lists li items" and r: "region_ok (items l) D"
  shows "items l n = [] \<Longrightarrow> pop_first li n l = (None, l)"
    "items l n = p # ps \<Longrightarrow> \<exists>l'. pop_first li n l = (Some p, l') \<and> items l' = (items l)(n := ps @ [p])"
proof -
  show "pop_first li n l = (None, l)" if "items l n = []"
    by (simp add: pop_first_def hooked_lists.pop_head_empty [OF h that])
  show "\<exists>l'. pop_first li n l = (Some p, l') \<and> items l' = (items l)(n := ps @ [p])" if n: "items l n = p # ps"
  proof -
    obtain l1 where l1: "li_pop_head li l n (\<lambda>_. True) = Some (p, l1)" "items l1 = (items l)(n := ps)"
      using hooked_lists.pop_head_take [OF h n, of "\<lambda>_. True"] by auto
    have "distinct (p # ps)" "set (p # ps) \<subseteq> D" using r unfolding n [symmetric] region_ok_def by blast+
    then have pd: "p \<in> D" "p \<notin> set ps" by simp_all
    have "p \<notin> set (items l1 m)" for m
    proof (cases "m = n")
      case False
      have "p \<in> set (items l n)" using n by simp
      with False r pd(1) have "p \<notin> set (items l m)" unfolding region_ok_def by blast
      with False show ?thesis by (simp add: l1(2))
    qed (use pd(2) in \<open>simp add: l1(2)\<close>)
    then have "items (li_add_tail li l1 n p) = (items l)(n := ps @ [p])"
      using hooked_lists.add_tail_items [OF h, of p l1 n] by (simp add: l1(2))
    then show ?thesis by (simp add: pop_first_def l1(1))
  qed
qed

text \<open>Repeated selections go round the list.\<close>

lemma pop_first_round:
  assumes h: "hooked_lists li items" and r: "region_ok (items l) D" and n: "items l n \<noteq> []"
  shows "region_ok (items (((\<lambda>l. snd (pop_first li n l)) ^^ k) l)) D \<and>
    items (((\<lambda>l. snd (pop_first li n l)) ^^ k) l) n = rotate k (items l n) \<and>
    (\<forall>m. m \<noteq> n \<longrightarrow> items (((\<lambda>l. snd (pop_first li n l)) ^^ k) l) m = items l m)"
proof (induction k)
  case (Suc k)
  let ?l = "((\<lambda>l. snd (pop_first li n l)) ^^ k) l"
  have IH: "region_ok (items ?l) D" "items ?l n = rotate k (items l n)" "\<forall>m. m \<noteq> n \<longrightarrow> items ?l m = items l m" using Suc by blast+
  then have "items ?l n \<noteq> []" using n by simp
  then obtain p ps where p: "items ?l n = p # ps" by (cases "items ?l n") simp_all
  obtain l' where l': "pop_first li n ?l = (Some p, l')" "items l' = (items ?l)(n := ps @ [p])"
    using pop_first_items(2) [OF h IH(1) p] by blast
  have "region_ok (items l') D" unfolding l'(2) by (rule region_ok_rotate [OF IH(1) p])
  moreover have "items l' n = rotate (Suc k) (items l n)"
    using arg_cong [OF IH(2), of rotate1] by (simp add: l'(2) p)
  moreover have "\<forall>m. m \<noteq> n \<longrightarrow> items l' m = items l m" using IH(3) by (simp add: l'(2))
  ultimately show ?case by (simp add: l'(1))
qed (simp add: r)

text \<open>The condition a request selects by, and the devices it selects from.\<close>

datatype region = Country | State | City

fun wanted :: "region \<Rightarrow> u32 \<Rightarrow> xPP_AcquireDevice \<Rightarrow> bool" where
  "wanted City n R \<longleftrightarrow> xPP_AcquireDevice.CityId R = n"
| "wanted State n R \<longleftrightarrow> xPP_AcquireDevice.CityId R = 0 \<and> xPP_AcquireDevice.StateId R = n"
| "wanted Country n R \<longleftrightarrow> xPP_AcquireDevice.CityId R = 0 \<and> xPP_AcquireDevice.StateId R = 0 \<and> xPP_AcquireDevice.CountryId R = n"

fun listed where
  "listed itC itS itY Country s n = itC (CountryDeviceList s) n"
| "listed itC itS itY State s n = itS (StateDeviceList s) n"
| "listed itC itS itY City s n = itY (CityDeviceList s) n"

definition answer_of :: "'a wire \<Rightarrow> u64 \<Rightarrow> xDS_DeviceContext \<Rightarrow> posted" where
  "answer_of wc Req c = [(Cmd_DeviceSelector_AcquireDeviceResp, Req, ser_xPP_AcquireDeviceResp wc
     (xPP_AcquireDeviceResp.make (ReleayServerRuntimeId (InfoBase c)) (RelaySideDeviceId (InfoBase c))))]"

lemma des_request: "wire_codec wc \<Longrightarrow> des_xPP_AcquireDevice wc (ser_xPP_AcquireDevice wc R) = Some (R, [])"
  using wire_codec.ser_des_xPP_AcquireDevice [of wc R "[]"] by simp

context selector_env begin

text \<open>One request: the head of the list is picked and goes to its end; nothing else changes.\<close>

lemma select_step:
  assumes w: "wire_codec wc" and s: "ok s" and R: "wanted g n R" "n \<noteq> 0" and l: "listed itC itS itY g s n = p # ps"
  obtains t c where "Selector_OnClientPacket wc L Cmd_DeviceSelector_AcquireDevice q (ser_xPP_AcquireDevice wc R) s = Some (answer_of wc q c, t)"
    "ok t" "Objects s p = Some c" "Objects t = Objects s" "DeviceMap t = DeviceMap s" "Ticker t = Ticker s"
    "listed itC itS itY g t n = ps @ [p]"
proof -
  have r: "region_ok (itC (CountryDeviceList s)) (dom (Objects s))" "region_ok (itS (StateDeviceList s)) (dom (Objects s))"
    "region_ok (itY (CityDeviceList s)) (dom (Objects s))" using s by (simp_all add: selector_ok_def)
  have same: "mapped (s\<lparr>CountryDeviceList := a, StateDeviceList := b, CityDeviceList := d\<rparr>) = mapped s"
    "timed itT (s\<lparr>CountryDeviceList := a, StateDeviceList := b, CityDeviceList := d\<rparr>) = timed itT s" for a b d
    by (simp_all add: mapped_def timed_def time_of_def [abs_def])
  show ?thesis
  proof (cases g)
    case Country
    then obtain c where c: "Objects s p = Some c" using region_mem [OF r(1), of n p ps] l Country by auto
    obtain l' where l': "pop_first (dl_country L) n (CountryDeviceList s) = (Some p, l')"
      "itC l' = (itC (CountryDeviceList s))(n := ps @ [p])"
      using pop_first_items(2) [OF cl.hooked_lists_axioms r(1), of n p ps] l Country by auto
    show ?thesis
    proof (rule that [of c "s\<lparr>CountryDeviceList := l'\<rparr>"])
      show "ok (s\<lparr>CountryDeviceList := l'\<rparr>)"
        using s same [where a = l' and b = "StateDeviceList s" and d = "CityDeviceList s"] region_ok_rotate [OF r(1), of n p ps] l Country
        by (simp add: selector_ok_def l'(2))
    qed (use R Country c l' in \<open>simp_all add: Selector_OnClientPacket_def OnSelectDevice_def des_request [OF w]
        SelectDeviceByCountryId_def answer_of_def\<close>)
  next
    case State
    then obtain c where c: "Objects s p = Some c" using region_mem [OF r(2), of n p ps] l State by auto
    obtain l' where l': "pop_first (dl_state L) n (StateDeviceList s) = (Some p, l')"
      "itS l' = (itS (StateDeviceList s))(n := ps @ [p])"
      using pop_first_items(2) [OF sl.hooked_lists_axioms r(2), of n p ps] l State by auto
    show ?thesis
    proof (rule that [of c "s\<lparr>StateDeviceList := l'\<rparr>"])
      show "ok (s\<lparr>StateDeviceList := l'\<rparr>)"
        using s same [where a = "CountryDeviceList s" and b = l' and d = "CityDeviceList s"] region_ok_rotate [OF r(2), of n p ps] l State
        by (simp add: selector_ok_def l'(2))
    qed (use R State c l' in \<open>simp_all add: Selector_OnClientPacket_def OnSelectDevice_def des_request [OF w]
        SelectDeviceByStateId_def answer_of_def\<close>)
  next
    case City
    then obtain c where c: "Objects s p = Some c" using region_mem [OF r(3), of n p ps] l City by auto
    obtain l' where l': "pop_first (dl_city L) n (CityDeviceList s) = (Some p, l')"
      "itY l' = (itY (CityDeviceList s))(n := ps @ [p])"
      using pop_first_items(2) [OF yl.hooked_lists_axioms r(3), of n p ps] l City by auto
    show ?thesis
    proof (rule that [of c "s\<lparr>CityDeviceList := l'\<rparr>"])
      show "ok (s\<lparr>CityDeviceList := l'\<rparr>)"
        using s same [where a = "CountryDeviceList s" and b = "StateDeviceList s" and d = l'] region_ok_rotate [OF r(3), of n p ps] l City
        by (simp add: selector_ok_def l'(2))
    qed (use R City c l' in \<open>simp_all add: Selector_OnClientPacket_def OnSelectDevice_def des_request [OF w]
        SelectDeviceByCityId_def answer_of_def\<close>)
  qed
qed

lemma select_none:
  assumes w: "wire_codec wc" and s: "ok s" and R: "wanted g n R" "n \<noteq> 0" and l: "listed itC itS itY g s n = []"
  shows "Selector_OnClientPacket wc L Cmd_DeviceSelector_AcquireDevice q (ser_xPP_AcquireDevice wc R) s =
    Some ([(Cmd_DeviceSelector_AcquireDeviceResp, q, ser_xPP_AcquireDeviceResp wc (xPP_AcquireDeviceResp.make 0 0))], s)"
proof -
  have r: "region_ok (itC (CountryDeviceList s)) (dom (Objects s))" "region_ok (itS (StateDeviceList s)) (dom (Objects s))"
    "region_ok (itY (CityDeviceList s)) (dom (Objects s))" using s by (simp_all add: selector_ok_def)
  show ?thesis
    using R l pop_first_items(1) [OF cl.hooked_lists_axioms r(1), of n] pop_first_items(1) [OF sl.hooked_lists_axioms r(2), of n]
      pop_first_items(1) [OF yl.hooked_lists_axioms r(3), of n]
    by (cases g) (simp_all add: Selector_OnClientPacket_def OnSelectDevice_def des_request [OF w] SelectDeviceByCountryId_def
        SelectDeviceByStateId_def SelectDeviceByCityId_def)
qed

end

subsection \<open>Runs\<close>

datatype ds_event = Report xDR_DeviceInfoBase | Offline bytes | TickAt u64 | Ask "u64 \<times> bytes"

fun ds_step ::
    "'a wire \<Rightarrow> ('t, 'c, 's, 'y) ds_lib \<Rightarrow> ds_event \<Rightarrow> ('t, 'c, 's, 'y) selector \<Rightarrow> ('t, 'c, 's, 'y) selector option" where
  "ds_step wc L (Report I) s = UpdateDevice L I s"
| "ds_step wc L (Offline k) s = Some (RemoveDeviceById L k s)"
| "ds_step wc L (TickAt now) s = Option.bind (Selector_Tick L now s) (\<lambda>r. r)"
| "ds_step wc L (Ask m) s = map_option snd (Selector_OnClientPacket wc L Cmd_DeviceSelector_AcquireDevice (fst m) (snd m) s)"

definition ds_run where
  "ds_run wc L evs s = fold (\<lambda>ev r. Option.bind r (ds_step wc L ev)) evs (Some s)"

text \<open>The abstract registry: the time and what is known of each device.\<close>

fun registry_step :: "ds_event \<Rightarrow> u64 \<times> (bytes \<rightharpoonup> xDS_DeviceContext) \<Rightarrow> u64 \<times> (bytes \<rightharpoonup> xDS_DeviceContext)" where
  "registry_step (Report I) (now, m) = (now, m(DeviceId I \<mapsto> heard now I (m (DeviceId I))))"
| "registry_step (Offline k) (now, m) = (now, m(k := None))"
| "registry_step (TickAt t) (now, m) = (t, quiet (t - 180000) m)"
| "registry_step (Ask _) (now, m) = (now, m)"

fun rising :: "u64 \<Rightarrow> ds_event list \<Rightarrow> bool" where
  "rising now [] \<longleftrightarrow> True"
| "rising now (TickAt t # evs) \<longleftrightarrow> now \<le> t \<and> rising t evs"
| "rising now (_ # evs) \<longleftrightarrow> rising now evs"

context selector_env begin

lemma ask_ok:
  assumes w: "wire_codec wc" and s: "ok s"
  obtains out t where "Selector_OnClientPacket wc L Cmd_DeviceSelector_AcquireDevice q P s = Some (out, t)" "ok t"
    "Ticker t = Ticker s" "known t = known s"
proof (cases "des_xPP_AcquireDevice wc P")
  case None
  with that [of "[]" s] s show ?thesis by (simp add: Selector_OnClientPacket_def OnSelectDevice_def)
next
  case (Some m)
  obtain R z where m: "m = (R, z)" by (cases m)
  have same: "Selector_OnClientPacket wc L Cmd_DeviceSelector_AcquireDevice q P s =
      Selector_OnClientPacket wc L Cmd_DeviceSelector_AcquireDevice q (ser_xPP_AcquireDevice wc R) s"
    by (simp add: Selector_OnClientPacket_def OnSelectDevice_def Some m des_request [OF w])
  obtain g n where gn: "wanted g n R" "n \<noteq> 0 \<or> xPP_AcquireDevice.CityId R = 0 \<and> xPP_AcquireDevice.StateId R = 0 \<and> xPP_AcquireDevice.CountryId R = 0"
  proof (cases "xPP_AcquireDevice.CityId R = 0")
    case False
    then show ?thesis using that [of City "xPP_AcquireDevice.CityId R"] by simp
  next
    case City: True
    show ?thesis
    proof (cases "xPP_AcquireDevice.StateId R = 0")
      case False
      then show ?thesis using that [of State "xPP_AcquireDevice.StateId R"] City by simp
    next
      case True
      then show ?thesis using that [of Country "xPP_AcquireDevice.CountryId R"] City by simp
    qed
  qed
  show ?thesis
  proof (cases "n = 0")
    case True
    with gn(2) that [of "[(Cmd_DeviceSelector_AcquireDeviceResp, q, ser_xPP_AcquireDeviceResp wc (xPP_AcquireDeviceResp.make 0 0))]" s] s
    show ?thesis by (simp add: Selector_OnClientPacket_def OnSelectDevice_def Some m)
  next
    case n: False
    show ?thesis
    proof (cases "listed itC itS itY g s n")
      case Nil
      from select_none [OF w s gn(1) n Nil] that s show ?thesis unfolding same by blast
    next
      case (Cons p ps)
      from select_step [OF w s gn(1) n Cons, of q] obtain t c where t:
        "Selector_OnClientPacket wc L Cmd_DeviceSelector_AcquireDevice q (ser_xPP_AcquireDevice wc R) s = Some (answer_of wc q c, t)"
        "ok t" "Objects t = Objects s" "DeviceMap t = DeviceMap s" "Ticker t = Ticker s" .
      have "known t = known s" by (simp add: known_def t(3,4) fun_eq_iff)
      with t that show ?thesis unfolding same by blast
    qed
  qed
qed

lemma step_refines:
  assumes w: "wire_codec wc" and s: "ok s" and r: "rising (Ticker s) (ev # evs)"
  obtains t where "ds_step wc L ev s = Some t" "ok t" "(Ticker t, known t) = registry_step ev (Ticker s, known s)"
    "rising (Ticker t) evs"
proof (cases ev)
  case (Report I)
  show ?thesis
  proof (cases "DeviceMap s (DeviceId I)")
    case None
    then have k: "known s (DeviceId I) = None" by (simp add: known_def)
    from update_new [OF s None] obtain u where "UpdateDevice L I s = Some u" "ok u" "Ticker u = Ticker s"
      "known u = (known s)(DeviceId I \<mapsto> heard (Ticker s) I None)" .
    with that [of u] r k Report show ?thesis by simp
  next
    case (Some p)
    then obtain c where c: "Objects s p = Some c" using s unfolding selector_ok_def mapped_def by blast
    have k: "known s (DeviceId I) = Some c" by (simp add: known_def Some c)
    from update_known [OF s Some c] obtain u where "UpdateDevice L I s = Some u" "ok u" "Ticker u = Ticker s"
      "known u = (known s)(DeviceId I \<mapsto> heard (Ticker s) I (Some c))" .
    with that [of u] r k Report show ?thesis by simp
  qed
next
  case (Offline k)
  with that [of "RemoveDeviceById L k s"] remove_ok [OF s, of k] r show ?thesis by simp
next
  case (TickAt now)
  with r have now: "Ticker s \<le> now" by simp
  from tick_ok [OF s now] obtain u where "Selector_Tick L now s = Some (Some u)" "ok u" "Ticker u = now"
    "known u = quiet (now - DEVICE_KEEPALIVE_TIMEOUT_MS) (known s)" .
  with that [of u] r TickAt show ?thesis by (simp add: DEVICE_KEEPALIVE_TIMEOUT_MS_def)
next
  case (Ask m)
  from ask_ok [OF w s, of "fst m" "snd m"] obtain out t where
    "Selector_OnClientPacket wc L Cmd_DeviceSelector_AcquireDevice (fst m) (snd m) s = Some (out, t)" "ok t"
    "Ticker t = Ticker s" "known t = known s" .
  with that [of t] r Ask show ?thesis by simp
qed

lemma run_refines:
  assumes w: "wire_codec wc" and s: "ok s" and r: "rising (Ticker s) evs"
  shows "\<exists>t. ds_run wc L evs s = Some t \<and> ok t \<and> (Ticker t, known t) = fold registry_step evs (Ticker s, known s)"
  using s r
proof (induction evs arbitrary: s)
  case (Cons ev evs)
  from step_refines [OF w Cons.prems] obtain t where t: "ds_step wc L ev s = Some t" "ok t"
    "(Ticker t, known t) = registry_step ev (Ticker s, known s)" "rising (Ticker t) evs" .
  from Cons.IH [OF t(2,4)] show ?case by (simp add: ds_run_def t(1) t(3) [symmetric])
qed (simp add: ds_run_def)

end

context selector_env begin

lemma nth_answer:
  assumes w: "wire_codec wc" and s: "ok s" and R: "wanted g n R" "n \<noteq> 0" and l: "listed itC itS itY g s n = l" "l \<noteq> []"
  shows "\<exists>t c u. ds_run wc L (replicate k (Ask (q, ser_xPP_AcquireDevice wc R))) s = Some t \<and> Objects s (l ! (k mod length l)) = Some c \<and>
    Selector_OnClientPacket wc L Cmd_DeviceSelector_AcquireDevice q (ser_xPP_AcquireDevice wc R) t = Some (answer_of wc q c, u)"
proof -
  let ?P = "ser_xPP_AcquireDevice wc R"
  have "\<exists>t. ds_run wc L (replicate k (Ask (q, ?P))) s = Some t \<and> ok t \<and> Objects t = Objects s \<and>
      listed itC itS itY g t n = rotate k l"
  proof (induction k)
    case (Suc k)
    then obtain t where t: "ds_run wc L (replicate k (Ask (q, ?P))) s = Some t" "ok t"
      "Objects t = Objects s" "listed itC itS itY g t n = rotate k l" by blast
    obtain p ps where p: "rotate k l = p # ps" using l(2) by (cases "rotate k l") auto
    from select_step [OF w t(2) R t(4) [unfolded p], of q] obtain u c where
      u: "Selector_OnClientPacket wc L Cmd_DeviceSelector_AcquireDevice q ?P t = Some (answer_of wc q c, u)"
      "ok u" "Objects u = Objects t" "listed itC itS itY g u n = ps @ [p]" .
    have "ds_run wc L (replicate (Suc k) (Ask (q, ?P))) s = Option.bind (ds_run wc L (replicate k (Ask (q, ?P))) s) (ds_step wc L (Ask (q, ?P)))"
      by (simp only: replicate_append_same [symmetric] replicate_Suc) (simp add: ds_run_def)
    then have "ds_run wc L (replicate (Suc k) (Ask (q, ?P))) s = Some u" by (simp add: t(1) u(1))
    moreover have "listed itC itS itY g u n = rotate (Suc k) l" by (simp add: u(4) p)
    ultimately show ?case using u(2,3) t(3) by simp
  qed (use s l in \<open>simp add: ds_run_def\<close>)
  then obtain t where t: "ds_run wc L (replicate k (Ask (q, ?P))) s = Some t" "ok t"
    "Objects t = Objects s" "listed itC itS itY g t n = rotate k l" by blast
  obtain p ps where p: "rotate k l = p # ps" using l(2) by (cases "rotate k l") auto
  then have "p = l ! (k mod length l)" using l(2) hd_rotate_conv_nth [of l k] by simp
  with select_step [OF w t(2) R t(4) [unfolded p], of q] t(1,3) show ?thesis by metis
qed

end

subsection \<open>The library, and properties\<close>

definition ref_ds_lib :: "(unit \<Rightarrow> nat list, u32 \<Rightarrow> nat list, u32 \<Rightarrow> nat list, u32 \<Rightarrow> nat list) ds_lib" where
  "ref_ds_lib = \<lparr>dl_timeout = ref_lists, dl_country = ref_lists, dl_state = ref_lists, dl_city = ref_lists\<rparr>"

interpretation ref_selector: selector_env ref_ds_lib "\<lambda>l. l" "\<lambda>l. l" "\<lambda>l. l" "\<lambda>l. l"
  unfolding selector_env_def ref_ds_lib_def by (simp add: ref_lists_contract)

definition empty_selector :: "u64 \<Rightarrow> 't \<Rightarrow> 'c \<Rightarrow> 's \<Rightarrow> 'y \<Rightarrow> ('t, 'c, 's, 'y) selector" where
  "empty_selector now T C S Y = \<lparr>Ticker = now, TimeoutDeviceList = T, CountryDeviceList = C, StateDeviceList = S, CityDeviceList = Y,
     DeviceMap = (\<lambda>_. None), Objects = (\<lambda>_. None), NextAddress = 1,
     LocalAudit = \<lparr>DurationMS = 0, NewDeviceCount = 0, ReplacedDeviceCount = 0, RemovedDeviceCount = 0, TimeoutDeviceCount = 0, TotalDeviceCount = 0\<rparr>\<rparr>"

lemma empty_selector_ok:
  assumes "\<And>n. itT T n = []" "\<And>n. itC C n = []" "\<And>n. itS S n = []" "\<And>n. itY Y n = []"
  shows "selector_ok itT itC itS itY (empty_selector now T C S Y)" "known (empty_selector now T C S Y) = (\<lambda>_. None)"
  using assms by (simp_all add: selector_ok_def empty_selector_def mapped_def timed_def region_ok_def known_def fun_eq_iff)

text \<open>
  C9: Over any sequence of reports, requests and ticks of a clock that does not run backwards, the device
  selector never reads a context that is gone, every tick ends, and what it knows of the devices is what an
  abstract registry knows that keeps one entry per device id: a report refreshes the entry and changes the
  relay server only when it is heard a second time, an offline report removes it, a tick removes exactly the
  devices that were silent for 180 seconds, and a request changes nothing. At the end each device is listed once
  per kind of region and once in the list of timeouts, in the order of the times.
\<close>

theorem selector_refines:
  assumes "selector_env L itT itC itS itY" "wire_codec wc" "selector_ok itT itC itS itY s" "rising (Ticker s) evs"
  shows "\<exists>t. ds_run wc L evs s = Some t \<and> selector_ok itT itC itS itY t \<and>
    (Ticker t, known t) = fold registry_step evs (Ticker s, known s)"
  using selector_env.run_refines [OF assms] .

definition demo_info :: "u64 \<Rightarrow> u64 \<Rightarrow> string \<Rightarrow> u32 \<Rightarrow> xDR_DeviceInfoBase" where
  "demo_info r d k c = \<lparr>ReleayServerRuntimeId = r, RelaySideDeviceId = d, DeviceId = bytes_of k, CountryId = c, StateId = 0, CityId = 0\<rparr>"

definition demo_empty :: "(unit \<Rightarrow> nat list, u32 \<Rightarrow> nat list, u32 \<Rightarrow> nat list, u32 \<Rightarrow> nat list) selector" where
  "demo_empty = empty_selector 500000 (\<lambda>_. []) (\<lambda>_. []) (\<lambda>_. []) (\<lambda>_. [])"

lemma demo_empty_ok: "selector_ok (\<lambda>l. l) (\<lambda>l. l) (\<lambda>l. l) (\<lambda>l. l) demo_empty" "known demo_empty = (\<lambda>_. None)" "Ticker demo_empty = 500000"
  by (simp_all add: demo_empty_def empty_selector_ok) (simp add: empty_selector_def)

definition demo_reports :: "ds_event list" where
  "demo_reports = [Report (demo_info 1 2 ''d'' 7), TickAt 600000, Report (demo_info 3 4 ''d'' 8), TickAt 700000]"

lemma quiet_single: "quiet KP [k \<mapsto> c] = (if TimestampMS c \<le> KP then \<lambda>_. None else [k \<mapsto> c])"
  by (auto simp: quiet_def)

lemma registry_two_reports:
  assumes "DeviceId I = k" "DeviceId J = k" "\<not> same_relay J I"
  shows "fold registry_step [Report I, TickAt 600000, Report J, TickAt 700000] (500000, \<lambda>_. None) =
    (700000, [k \<mapsto> \<lparr>TimestampMS = 600000, InfoBase = I, ResisterCounter = 1\<rparr>])"
  by (simp add: assms quiet_single heard_def resist_def)

lemma registry_demo: "snd (fold registry_step demo_reports (500000, \<lambda>_. None)) (bytes_of ''d'') =
    Some \<lparr>TimestampMS = 600000, InfoBase = demo_info 1 2 ''d'' 7, ResisterCounter = 1\<rparr>"
proof -
  have "DeviceId (demo_info 1 2 ''d'' 7) = bytes_of ''d''" "DeviceId (demo_info 3 4 ''d'' 8) = bytes_of ''d''"
    by (simp_all add: demo_info_def)
  moreover have "\<not> same_relay (demo_info 3 4 ''d'' 8) (demo_info 1 2 ''d'' 7)" by (simp add: same_relay_def demo_info_def)
  ultimately show ?thesis unfolding demo_reports_def by (subst registry_two_reports) simp_all
qed

lemma selector_refines_witness:
  "\<exists>t. ds_run ref_wire ref_ds_lib demo_reports demo_empty = Some t \<and>
    known t (bytes_of ''d'') = Some \<lparr>TimestampMS = 600000, InfoBase = demo_info 1 2 ''d'' 7, ResisterCounter = 1\<rparr>"
proof -
  have r: "rising (Ticker demo_empty) demo_reports" by (simp add: demo_empty_ok demo_reports_def)
  from selector_refines [OF ref_selector.selector_env_axioms ref_wire_contract demo_empty_ok(1) r]
  obtain t where t: "ds_run ref_wire ref_ds_lib demo_reports demo_empty = Some t"
    "(Ticker t, known t) = fold registry_step demo_reports (Ticker demo_empty, known demo_empty)" by blast
  from arg_cong [OF t(2), of snd] have "known t = snd (fold registry_step demo_reports (Ticker demo_empty, known demo_empty))" by simp
  then have "known t (bytes_of ''d'') = Some \<lparr>TimestampMS = 600000, InfoBase = demo_info 1 2 ''d'' 7, ResisterCounter = 1\<rparr>"
    using registry_demo by (simp only: demo_empty_ok)
  then show ?thesis by (intro exI [of _ t] conjI t(1))
qed

text \<open>
  C10: Requests for one city, state or country are answered in turn: when the devices of the region are
  \<open>l\<close>, the answer to the request after \<open>k\<close> others carries the relay server and device id of the device at position
  \<open>k mod length l\<close>, so that any \<open>length l\<close> successive requests get each device once. A city in the request goes before a
  state, a state before a country.
\<close>

theorem selection_round_robin:
  assumes env: "selector_env L itT itC itS itY" and w: "wire_codec wc" and s: "selector_ok itT itC itS itY s"
    and R: "wanted g n R" "n \<noteq> 0" and l: "listed itC itS itY g s n = l" "l \<noteq> []"
  shows "\<exists>t c u. ds_run wc L (replicate k (Ask (q, ser_xPP_AcquireDevice wc R))) s = Some t \<and> Objects s (l ! (k mod length l)) = Some c \<and>
    Selector_OnClientPacket wc L Cmd_DeviceSelector_AcquireDevice q (ser_xPP_AcquireDevice wc R) t = Some (answer_of wc q c, u)"
  by (rule selector_env.nth_answer [OF env w s R l])

definition demo_two where
  "demo_two = the (ds_run ref_wire ref_ds_lib [Report (demo_info 1 2 ''d'' 7), Report (demo_info 1 3 ''e'' 7)] demo_empty)"

lemma demo_two_ok: "selector_ok (\<lambda>l. l) (\<lambda>l. l) (\<lambda>l. l) (\<lambda>l. l) demo_two"
proof -
  have r: "rising (Ticker demo_empty) [Report (demo_info 1 2 ''d'' 7), Report (demo_info 1 3 ''e'' 7)]" by simp
  from ref_selector.run_refines [OF ref_wire_contract demo_empty_ok(1) r] show ?thesis unfolding demo_two_def by force
qed

lemma selection_round_robin_witness:
  "\<exists>t c u. ds_run ref_wire ref_ds_lib (replicate 3 (Ask (9, ser_xPP_AcquireDevice ref_wire (xPP_AcquireDevice.make 7 0 0 False False False)))) demo_two = Some t \<and>
    Objects demo_two 2 = Some c \<and> Selector_OnClientPacket ref_wire ref_ds_lib Cmd_DeviceSelector_AcquireDevice 9
      (ser_xPP_AcquireDevice ref_wire (xPP_AcquireDevice.make 7 0 0 False False False)) t = Some (answer_of ref_wire 9 c, u)"
proof -
  have l: "listed (\<lambda>l. l) (\<lambda>l. l) (\<lambda>l. l) Country demo_two 7 = [1, 2]" by code_simp
  have R: "wanted Country 7 (xPP_AcquireDevice.make 7 0 0 False False False)" by (simp add: xPP_AcquireDevice.make_def)
  from selection_round_robin [OF ref_selector.selector_env_axioms ref_wire_contract demo_two_ok R _ l, of 3 9]
  have "\<exists>t c u. ds_run ref_wire ref_ds_lib (replicate 3 (Ask (9, ser_xPP_AcquireDevice ref_wire (xPP_AcquireDevice.make 7 0 0 False False False)))) demo_two = Some t \<and>
    Objects demo_two ([1, 2] ! (3 mod length [1, 2::nat])) = Some c \<and> Selector_OnClientPacket ref_wire ref_ds_lib Cmd_DeviceSelector_AcquireDevice 9
      (ser_xPP_AcquireDevice ref_wire (xPP_AcquireDevice.make 7 0 0 False False False)) t = Some (answer_of ref_wire 9 c, u)"
    by (simp only: list.simps) simp
  moreover have "[1, 2] ! (3 mod length [1, 2::nat]) = (2::nat)" by code_simp
  ultimately show ?thesis by (simp only:)
qed

text \<open>
  A device that moves to another relay server and another country stays in the lists of its old regions:
  \<^verbatim>\<open>UpdateDevice\<close> replaces what is known of it and leaves the lists alone.
\<close>

lemma replaced_stays_listed:
  assumes env: "selector_env L itT itC itS itY" and s: "selector_ok itT itC itS itY s" and p: "DeviceMap s (DeviceId I) = Some p"
    and c: "Objects s p = Some c" "ResisterCounter c = 1" "\<not> same_relay I (InfoBase c)" and n: "p \<in> set (itC (CountryDeviceList s) n)"
  shows "\<exists>u. UpdateDevice L I s = Some u \<and> p \<in> set (itC (CountryDeviceList u) n) \<and>
    (\<exists>d. Objects u p = Some d \<and> CountryId (InfoBase d) = CountryId I)"
proof -
  from selector_env.update_known [OF env s p c(1)] obtain u where "UpdateDevice L I s = Some u"
    "CountryDeviceList u = CountryDeviceList s" "Objects u = (Objects s)(p \<mapsto> heard (Ticker s) I (Some c))" .
  then show ?thesis using n c by (simp add: heard_def resist_def)
qed

end
