(* ===== verification/DeviceOnline.thy ===== *)
theory DeviceOnline
  imports RelayPath DeviceIndex
begin

text \<open>
  The way of a device from its relay server to a client: the relay server reports it
  (\<^verbatim>\<open>xDeviceManager::ReportDeviceState\<close>), the device state relay passes the report to its observers, the
  selector enters it, the proxy access server asks and hears the answer.
\<close>

subsection \<open>The two ends of the messages\<close>

definition report_passed :: "rd_output list \<Rightarrow> observers \<Rightarrow> (u64 \<times> u32 \<times> u64 \<times> bytes) list" where
  "report_passed out obs = concat (map (\<lambda>ev. case ev of ToReporter Cmd _ P \<Rightarrow> Producer_OnClientPacket Cmd P obs | _ \<Rightarrow> []) out)"

definition observe_all where
  "observe_all wc m0 L c packets s = fold (\<lambda>(i, Cmd, _, P) r. if i = c then Option.bind r (Observer_OnServerPacket wc m0 L Cmd P) else r)
     packets (Some s)"

definition info_of :: "u64 \<Rightarrow> xDevice \<Rightarrow> xDR_DeviceInfoBase" where
  "info_of r D = \<lparr>ReleayServerRuntimeId = r, RelaySideDeviceId = DeviceRuntimeId D,
     DeviceId = xDevice.DeviceLocalIdString D, CountryId = xGeoInfo.CountryId (GeoInfo D),
     StateId = xGeoInfo.StateId (GeoInfo D), CityId = xGeoInfo.CityId (GeoInfo D)\<rparr>"

lemma report_read:
  assumes w: "wire_codec (rl_wire RL)" and len: "length (xDevice.DeviceLocalIdString D) \<le> w_str_max (rl_wire RL)"
    and c: "c \<in> set obs" "distinct obs"
  shows "observe_all (rl_wire RL) m0 L c (report_passed (ReportDeviceState RL D off) obs) s =
    (if off then Some (RemoveDeviceById L (xDevice.DeviceLocalIdString D) s) else UpdateDevice L (info_of (rl_ServerRuntimeId RL) D) s)"
proof -
  let ?m = "xPP_DeviceInfoUpdate.make (xDevice.DeviceLocalIdString D) 0 (rl_ServerRuntimeId RL) (DeviceRuntimeId D)
          (ad_none RL) (ad_none RL) 0 (xGeoInfo.CountryId (GeoInfo D)) (xGeoInfo.StateId (GeoInfo D))
          (xGeoInfo.CityId (GeoInfo D)) off False False False"
  let ?P = "ser_xPP_DeviceInfoUpdate (rl_wire RL) ?m"
  have "ok_xPP_DeviceInfoUpdate (rl_wire RL) ?m" using len by (simp add: ok_xPP_DeviceInfoUpdate_def xPP_DeviceInfoUpdate.defs)
  from wire_codec.ser_des_xPP_DeviceInfoUpdate [OF w this, of m0 "[]"]
  have "des_xPP_DeviceInfoUpdate (rl_wire RL) m0 ?P = Some (?m\<lparr>xPP_DeviceInfoUpdate.ContinentId := xPP_DeviceInfoUpdate.ContinentId m0\<rparr>, [])"
    by simp
  then have one: "Observer_OnServerPacket (rl_wire RL) m0 L Cmd_DSR_DS_DeviceUpdate ?P s =
      (if off then Some (RemoveDeviceById L (xDevice.DeviceLocalIdString D) s) else UpdateDevice L (info_of (rl_ServerRuntimeId RL) D) s)"
    by (simp add: Observer_OnServerPacket_def local_info_def info_of_def xPP_DeviceInfoUpdate.defs)
  have passed: "report_passed (ReportDeviceState RL D off) obs = map (\<lambda>c. (c, Cmd_DSR_DS_DeviceUpdate, 0, ?P)) obs"
    by (simp add: report_passed_def ReportDeviceState_def Producer_OnClientPacket_def DispatchData_def)
  have none: "c \<notin> set l \<Longrightarrow> fold (\<lambda>(i, Cmd, _, P) r. if i = c then Option.bind r (Observer_OnServerPacket (rl_wire RL) m0 L Cmd P) else r)
      (map (\<lambda>c. (c, C, 0::u64, ?P)) l) r = r" for l r C by (induction l arbitrary: r) auto
  obtain a b where ab: "obs = a @ c # b" "c \<notin> set a" using split_list_first [OF c(1)] by blast
  then have "c \<notin> set b" using c(2) by auto
  with ab(2) have "observe_all (rl_wire RL) m0 L c (report_passed (ReportDeviceState RL D off) obs) s =
      Observer_OnServerPacket (rl_wire RL) m0 L Cmd_DSR_DS_DeviceUpdate ?P s"
    unfolding observe_all_def passed unfolding ab(1) by (simp add: none)
  then show ?thesis by (simp only: one)
qed

context selector_env begin

lemma asks_keep:
  assumes w: "wire_codec wc" and s: "ok s" and t: "ds_run wc L (replicate k (Ask m)) s = Some t"
  shows "ok t" "known t = known s"
proof -
  have "rising (Ticker s) (replicate k (Ask m))" by (induction k) simp_all
  moreover have "fold registry_step (replicate k (Ask m)) x = x" for x by (induction k arbitrary: x) (auto simp: split_paired_all)
  ultimately show "ok t" "known t = known s" using run_refines [OF w s, of "replicate k (Ask m)"] t by auto
qed

lemma new_device_answer:
  assumes w: "wire_codec wc" and s: "ok s" and new: "known s (DeviceId I) = None"
    and R: "wanted Country (CountryId I) R" "CountryId I \<noteq> 0"
  obtains u t v where "UpdateDevice L I s = Some u"
    "ds_run wc L (replicate (length (itC (CountryDeviceList s) (CountryId I))) (Ask (q, ser_xPP_AcquireDevice wc R))) u = Some t"
    "Selector_OnClientPacket wc L Cmd_DeviceSelector_AcquireDevice q (ser_xPP_AcquireDevice wc R) t =
       Some (answer_of wc q \<lparr>TimestampMS = Ticker s, InfoBase = I, ResisterCounter = 2\<rparr>, v)" "ok v"
proof -
  let ?l = "itC (CountryDeviceList s) (CountryId I)"
  have "DeviceMap s (DeviceId I) = None"
  proof (rule ccontr)
    assume "DeviceMap s (DeviceId I) \<noteq> None"
    then obtain p where "DeviceMap s (DeviceId I) = Some p" by blast
    moreover from this s obtain c where "Objects s p = Some c" unfolding selector_ok_def mapped_def by blast
    ultimately show False using new by (simp add: known_def)
  qed
  from update_new [OF s this] obtain u where u: "UpdateDevice L I s = Some u" "ok u"
    "itC (CountryDeviceList u) = (itC (CountryDeviceList s))(CountryId I := ?l @ [NextAddress s])"
    "Objects u = (Objects s)(NextAddress s \<mapsto> heard (Ticker s) I None)" .
  have l: "listed itC itS itY Country u (CountryId I) = ?l @ [NextAddress s]" by (simp add: u(3))
  from nth_answer [OF w u(2) R l, of "length ?l" q] obtain t v where
    t: "ds_run wc L (replicate (length ?l) (Ask (q, ser_xPP_AcquireDevice wc R))) u = Some t"
    "Selector_OnClientPacket wc L Cmd_DeviceSelector_AcquireDevice q (ser_xPP_AcquireDevice wc R) t =
       Some (answer_of wc q (heard (Ticker s) I None), v)" by (auto simp: u(4))
  from ask_ok [OF w asks_keep(1) [OF w u(2) t(1)], of q "ser_xPP_AcquireDevice wc R"] t(2) have "ok v" by auto
  with that [OF u(1) t(1) _ this] t(2) show ?thesis by (simp add: heard_def)
qed

end

lemma answer_read:
  assumes "wire_codec wc"
  shows "answer_of wc q c = [(Cmd, r, A)] \<Longrightarrow> DeviceSelector_OnServerPacket wc Cmd r A = Some \<lparr>RespClientConnectionId = q,
    RelayServerRuntimeId = ReleayServerRuntimeId (InfoBase c), DeviceRelaySideId = RelaySideDeviceId (InfoBase c)\<rparr>"
  using wire_codec.ser_des_xPP_AcquireDeviceResp [OF assms, of "xPP_AcquireDeviceResp.make (ReleayServerRuntimeId (InfoBase c)) (RelaySideDeviceId (InfoBase c))" "[]"]
  by (auto simp: answer_of_def DeviceSelector_OnServerPacket_def OnDeviceSelectorResult_def xPP_AcquireDeviceResp.make_def)

subsection \<open>Property\<close>

text \<open>
  C8: A device that a relay server reports for the first time is entered by every observer of the state relay.
  When \<open>k\<close> devices of its country were there before it, the request of the proxy access server after
  \<open>k\<close> others for that country is answered with the runtime id of the relay server and the id the device has
  there, under the connection of the client that asked; and once the relay server reports it offline, no object of the
  index carries its id.
\<close>

theorem device_online:
  assumes env: "selector_env L itT itC itS itY" and w: "wire_codec (rl_wire RL)" and s: "selector_ok itT itC itS itY s"
    and D: "length (xDevice.DeviceLocalIdString D) \<le> w_str_max (rl_wire RL)" "known s (xDevice.DeviceLocalIdString D) = None"
    and c: "c \<in> set obs" "distinct obs"
    and R: "xPA_DeviceRequest.CountryId R = xGeoInfo.CountryId (GeoInfo D)" "xPA_DeviceRequest.CountryId R \<noteq> 0"
      "xPA_DeviceRequest.StateId R = 0" "xPA_DeviceRequest.CityId R = 0"
    and P: "PostDeviceRequest (rl_wire RL) R = (Cmd, q, P)"
  shows "\<exists>u t v C A z. observe_all (rl_wire RL) m0 L c (report_passed (ReportDeviceState RL D False) obs) s = Some u \<and>
    ds_run (rl_wire RL) L (replicate (length (itC (CountryDeviceList s) (xGeoInfo.CountryId (GeoInfo D)))) (Ask (q, P))) u = Some t \<and>
    Selector_OnClientPacket (rl_wire RL) L Cmd q P t = Some ([(C, q, A)], v) \<and>
    DeviceSelector_OnServerPacket (rl_wire RL) C q A = Some \<lparr>RespClientConnectionId = xPA_DeviceRequest.ClientConnectionId R,
      RelayServerRuntimeId = rl_ServerRuntimeId RL, DeviceRelaySideId = DeviceRuntimeId D\<rparr> \<and>
    observe_all (rl_wire RL) m0 L c (report_passed (ReportDeviceState RL D True) obs) v = Some z \<and>
    (\<forall>p d. Objects z p = Some d \<longrightarrow> DeviceId (InfoBase d) \<noteq> xDevice.DeviceLocalIdString D)"
proof -
  let ?I = "info_of (rl_ServerRuntimeId RL) D"
  obtain M where M: "Cmd = Cmd_DeviceSelector_AcquireDevice" "q = xPA_DeviceRequest.ClientConnectionId R"
    "P = ser_xPP_AcquireDevice (rl_wire RL) M" "wanted Country (CountryId ?I) M"
    using P R by (auto simp: PostDeviceRequest_def info_of_def xPP_AcquireDevice.make_def)
  have n: "CountryId ?I \<noteq> 0" "CountryId ?I = xGeoInfo.CountryId (GeoInfo D)" "known s (DeviceId ?I) = None"
    using R D(2) by (simp_all add: info_of_def)
  from selector_env.new_device_answer [OF env w s n(3) M(4) n(1), of q] obtain u t v where u: "UpdateDevice L ?I s = Some u"
    "ds_run (rl_wire RL) L (replicate (length (itC (CountryDeviceList s) (CountryId ?I))) (Ask (q, ser_xPP_AcquireDevice (rl_wire RL) M))) u = Some t"
    "Selector_OnClientPacket (rl_wire RL) L Cmd_DeviceSelector_AcquireDevice q (ser_xPP_AcquireDevice (rl_wire RL) M) t =
       Some (answer_of (rl_wire RL) q \<lparr>TimestampMS = Ticker s, InfoBase = ?I, ResisterCounter = 2\<rparr>, v)" "selector_ok itT itC itS itY v" .
  obtain C A where A: "answer_of (rl_wire RL) q \<lparr>TimestampMS = Ticker s, InfoBase = ?I, ResisterCounter = 2\<rparr> = [(C, q, A)]"
    by (simp add: answer_of_def)
  let ?z = "RemoveDeviceById L (xDevice.DeviceLocalIdString D) v"
  have z: "mapped ?z" "known ?z (xDevice.DeviceLocalIdString D) = None"
    using selector_env.remove_ok [OF env u(4), of "xDevice.DeviceLocalIdString D"] by (simp_all add: selector_ok_def)
  have gone: "Objects ?z p = Some d \<Longrightarrow> DeviceId (InfoBase d) \<noteq> xDevice.DeviceLocalIdString D" for p d
    using known_Some [OF z(1), of "xDevice.DeviceLocalIdString D" d] z(2) by auto
  show ?thesis
    using u(1-3) gone answer_read [OF w A] report_read [OF w D(1) c, of m0 L]
    unfolding M(1,3) A n(2) by (intro exI [of _ u] exI [of _ t] exI [of _ v] exI [of _ C] exI [of _ A] exI [of _ ?z])
      (simp add: info_of_def M(2))
qed

definition demo_online :: xDevice where
  "demo_online = \<lparr>DeviceRuntimeId = 1, Flags = 0, CtrlConnection = Some 1, DataConnection = Some 2,
     DeviceLocalIdString = bytes_of ''d'', GeoInfo = \<lparr>xGeoInfo.CountryId = 7, xGeoInfo.StateId = 0, xGeoInfo.CityId = 0\<rparr>\<rparr>"

definition demo_request :: xPA_DeviceRequest where
  "demo_request = \<lparr>ClientConnectionId = 5, xPA_DeviceRequest.CountryId = 7, xPA_DeviceRequest.StateId = 0,
     xPA_DeviceRequest.CityId = 0, RequireIpv6 = False, RequireUdp = False, RequireRemoteDns = False\<rparr>"

lemma device_online_witness:
  "\<forall>m0. \<exists>u Cmd q P v C A. observe_all ref_wire m0 ref_ds_lib 3 (report_passed (ReportDeviceState ref_relay_lib demo_online False) [2, 3]) demo_empty = Some u \<and>
    PostDeviceRequest ref_wire demo_request = (Cmd, q, P) \<and>
    Selector_OnClientPacket ref_wire ref_ds_lib Cmd q P u = Some ([(C, q, A)], v) \<and>
    DeviceSelector_OnServerPacket ref_wire C q A = Some \<lparr>RespClientConnectionId = 5, RelayServerRuntimeId = 99, DeviceRelaySideId = 1\<rparr>"
proof
  fix m0 :: "ref_addr xPP_DeviceInfoUpdate"
  obtain Cmd q P where P: "PostDeviceRequest ref_wire demo_request = (Cmd, q, P)" by (cases "PostDeviceRequest ref_wire demo_request")
  have RL: "rl_wire ref_relay_lib = ref_wire" "rl_ServerRuntimeId ref_relay_lib = 99" by (simp_all add: ref_relay_lib_def)
  have D: "length (xDevice.DeviceLocalIdString demo_online) \<le> w_str_max ref_wire" "known demo_empty (xDevice.DeviceLocalIdString demo_online) = None"
    "xGeoInfo.CountryId (GeoInfo demo_online) = 7" "DeviceRuntimeId demo_online = 1"
    by (simp_all add: demo_online_def demo_empty_ok bytes_of_def ref_wire_def)
  have none: "CountryDeviceList demo_empty 7 = []" by (simp add: demo_empty_def empty_selector_def)
  have R: "xPA_DeviceRequest.CountryId demo_request = 7" "xPA_DeviceRequest.StateId demo_request = 0"
    "xPA_DeviceRequest.CityId demo_request = 0" "xPA_DeviceRequest.ClientConnectionId demo_request = 5" by (simp_all add: demo_request_def)
  have c: "(3::u64) \<in> set [2, 3]" "distinct [2, 3 :: u64]" by simp_all
  have R2: "xPA_DeviceRequest.CountryId demo_request = xGeoInfo.CountryId (GeoInfo demo_online)" "xPA_DeviceRequest.CountryId demo_request \<noteq> 0"
    by (simp_all only: R D) simp
  from device_online [of ref_ds_lib "\<lambda>l. l" "\<lambda>l. l" "\<lambda>l. l" "\<lambda>l. l" ref_relay_lib, unfolded RL,
      OF ref_selector.selector_env_axioms ref_wire_contract demo_empty_ok(1) D(1,2) c R2 R(2,3) P, of m0, unfolded D(3,4) none R(4)]
  show "\<exists>u Cmd q P v C A. observe_all ref_wire m0 ref_ds_lib 3 (report_passed (ReportDeviceState ref_relay_lib demo_online False) [2, 3]) demo_empty = Some u \<and>
    PostDeviceRequest ref_wire demo_request = (Cmd, q, P) \<and>
    Selector_OnClientPacket ref_wire ref_ds_lib Cmd q P u = Some ([(C, q, A)], v) \<and>
    DeviceSelector_OnServerPacket ref_wire C q A = Some \<lparr>RespClientConnectionId = 5, RelayServerRuntimeId = 99, DeviceRelaySideId = 1\<rparr>"
    using P by (simp add: ds_run_def del: fun_upd_apply) metis
qed

end
