(* ===== verification/HashPool.thy ===== *)
theory HashPool
  imports Xel XelReference
begin

text \<open>
  \<^verbatim>\<open>xServiceClientHashPool\<close> (\<^verbatim>\<open>src/cpp/src_app/lib_server_util/service_client_hash_pool.cpp\<close>): connections to a
  changing list of servers, one of which is picked by a hash. An update of the list is merged into the
  active servers and takes effect at the next tick.

  A server context is an object on the heap, named by its address. An operation is \<open>None\<close> where an
  assertion of the code fails, an object that is gone is read, or a loop does not end.
\<close>

subsection \<open>State\<close>

record 'a xServerInfo =
  ServerId :: u64
  Address :: 'a

text \<open>\<open>Connection\<close> is \<open>None\<close> for a null pointer and otherwise whether the connection is open.\<close>

record 'a xServerContext = "'a xServerInfo" +
  Connection :: "bool option"
  DeleteMark :: bool

datatype hp_list = ClosingServerList | ReconnectServerList

record 'l hp_lib =
  hl_lists :: "('l, hp_list, nat) list_ops"
  hl_each :: "'l \<Rightarrow> hp_list \<Rightarrow> nat list" \<comment> \<open>the nodes that \<^verbatim>\<open>ForEach\<close> visits\<close>
  hl_linked :: "'l \<Rightarrow> nat \<Rightarrow> bool" \<comment> \<open>\<^verbatim>\<open>xListNode::IsLinked\<close>\<close>

record ('a, 'l) xServiceClientHashPool =
  Contexts :: "nat \<rightharpoonup> 'a xServerContext"
  NextContext :: nat
  ActiveServerList :: "nat list"
  UninitializedServerList :: "nat list"
  DeleteServerList :: "nat list"
  Links :: 'l

type_synonym ('a, 'l) hash_pool = "('a, 'l) xServiceClientHashPool"

datatype 'a hp_action = Connect nat 'a | Disconnect nat | PostData nat bytes

fun fold_opt :: "('x \<Rightarrow> 's \<Rightarrow> 's option) \<Rightarrow> 'x list \<Rightarrow> 's \<Rightarrow> 's option" where
  "fold_opt f [] s = Some s"
| "fold_opt f (x # xs) s = Option.bind (f x s) (fold_opt f xs)"

fun read_all :: "(nat \<rightharpoonup> 'c) \<Rightarrow> nat list \<Rightarrow> (nat \<times> 'c) list option" where
  "read_all h [] = Some []"
| "read_all h (p # ps) = Option.bind (h p) (\<lambda>c. map_option ((#) (p, c)) (read_all h ps))"

subsection \<open>Updates of the list\<close>

text \<open>
  The loop over both lists: the servers to delete and those to add, in the order of the two \<^verbatim>\<open>push_back\<close>.
\<close>

fun merge_servers :: "(nat \<times> 'a xServerContext) list \<Rightarrow> 'a xServerInfo list \<Rightarrow> nat list \<times> 'a xServerInfo list" where
  "merge_servers [] new = ([], new)"
| "merge_servers ((p, S) # old) [] = (map fst ((p, S) # old), [])"
| "merge_servers ((p, S) # old) (D # new) =
     (if ServerId S = ServerId D then
        let (del, add) = merge_servers old new in
        if Address S \<noteq> Address D then (p # del, D # add) else (del, add)
      else if ServerId S < ServerId D then let (del, add) = merge_servers old (D # new) in (p # del, add)
      else let (del, add) = merge_servers ((p, S) # old) new in (del, D # add))"

definition new_context :: "'a xServerInfo \<Rightarrow> 'a xServerContext" where
  "new_context D = \<lparr>ServerId = ServerId D, Address = Address D, Connection = None, DeleteMark = False\<rparr>"

definition mark_deleted :: "nat \<Rightarrow> (nat \<rightharpoonup> 'a xServerContext) \<Rightarrow> nat \<rightharpoonup> 'a xServerContext" where
  "mark_deleted p h = h(p := map_option (DeleteMark_update (\<lambda>_. True)) (h p))"

definition UpdateServerList :: "'a xServerInfo list \<Rightarrow> ('a, 'l) hash_pool \<Rightarrow> ('a, 'l) hash_pool option" where
  "UpdateServerList Source s =
     (if UninitializedServerList s \<noteq> [] \<or> DeleteServerList s \<noteq> [] then None
      else map_option (\<lambda>old.
        let (del, add) = merge_servers old (sort_key ServerId Source);
            fresh = [NextContext s ..< NextContext s + length add];
            heap = fold mark_deleted del (Contexts s) ++ map_of (zip fresh (map new_context add)) in
        s\<lparr>Contexts := heap, NextContext := NextContext s + length add,
          UninitializedServerList := fresh, DeleteServerList := del,
          ActiveServerList := filter (\<lambda>p. case heap p of Some c \<Rightarrow> \<not> DeleteMark c | None \<Rightarrow> False) (ActiveServerList s)\<rparr>)
        (read_all (Contexts s) (ActiveServerList s)))"

subsection \<open>The tick\<close>

definition start_server :: "'l hp_lib \<Rightarrow> nat \<Rightarrow> ('a, 'l) hash_pool \<Rightarrow> ('a, 'l) hash_pool option" where
  "start_server L p s = Option.bind (Contexts s p) (\<lambda>c.
     if Connection c \<noteq> None then None
     else Some (s\<lparr>Contexts := (Contexts s)(p \<mapsto> c\<lparr>Connection := Some False\<rparr>),
       Links := li_add_tail (hl_lists L) (Links s) ReconnectServerList p\<rparr>))"

definition server_id_at :: "('a, 'l) hash_pool \<Rightarrow> nat \<Rightarrow> u64" where
  "server_id_at s p = (case Contexts s p of Some c \<Rightarrow> ServerId c | None \<Rightarrow> 0)"

definition initialize_servers :: "'l hp_lib \<Rightarrow> ('a, 'l) hash_pool \<Rightarrow> ('a, 'l) hash_pool option" where
  "initialize_servers L s =
     (if UninitializedServerList s = [] then Some s
      else map_option (\<lambda>t. t\<lparr>ActiveServerList := sort_key (server_id_at t) (ActiveServerList t @ UninitializedServerList t),
          UninitializedServerList := []\<rparr>)
        (fold_opt (start_server L) (UninitializedServerList s) s))"

text \<open>A deleted context leaves the list it is on.\<close>

definition delete_server ::
    "'l hp_lib \<Rightarrow> nat \<Rightarrow> 'a hp_action list \<times> ('a, 'l) hash_pool \<Rightarrow> ('a hp_action list \<times> ('a, 'l) hash_pool) option" where
  "delete_server L p r = (case r of (out, s) \<Rightarrow> Option.bind (Contexts s p) (\<lambda>c.
     map_option (\<lambda>is_open. (out @ (if is_open then [Disconnect p] else []),
       s\<lparr>Contexts := (Contexts s)(p := None), Links := li_remove (hl_lists L) (Links s) p\<rparr>)) (Connection c)))"

definition delete_servers ::
    "'l hp_lib \<Rightarrow> 'a hp_action list \<times> ('a, 'l) hash_pool \<Rightarrow> ('a hp_action list \<times> ('a, 'l) hash_pool) option" where
  "delete_servers L r = map_option (\<lambda>(out, s). (out, s\<lparr>DeleteServerList := []\<rparr>))
     (fold_opt (delete_server L) (DeleteServerList (snd r)) r)"

definition close_lost :: "nat \<Rightarrow> 'a hp_action list \<times> ('a, 'l) hash_pool \<Rightarrow> ('a hp_action list \<times> ('a, 'l) hash_pool) option" where
  "close_lost p r = (case r of (out, s) \<Rightarrow> Option.bind (Contexts s p) (\<lambda>c.
     map_option (\<lambda>_. (out @ [Disconnect p], s\<lparr>Contexts := (Contexts s)(p \<mapsto> c\<lparr>Connection := Some False\<rparr>)\<rparr>)) (Connection c)))"

definition close_all_lost ::
    "'l hp_lib \<Rightarrow> 'a hp_action list \<times> ('a, 'l) hash_pool \<Rightarrow> ('a hp_action list \<times> ('a, 'l) hash_pool) option" where
  "close_all_lost L r = map_option
     (\<lambda>(out, s). (out, s\<lparr>Links := li_grab_list_tail (hl_lists L) (Links s) ReconnectServerList ClosingServerList\<rparr>))
     (fold_opt close_lost (hl_each L (Links (snd r)) ClosingServerList) r)"

definition pop_reconnect ::
    "'l hp_lib \<Rightarrow> ('a hp_action list \<times> ('a, 'l) hash_pool) option \<Rightarrow>
     (nat \<times> ('a hp_action list \<times> ('a, 'l) hash_pool) option) option" where
  "pop_reconnect L r = Option.bind r (\<lambda>(out, s). map_option (\<lambda>(p, l). (p, Some (out, s\<lparr>Links := l\<rparr>)))
     (li_pop_head (hl_lists L) (Links s) ReconnectServerList (\<lambda>_. True)))"

text \<open>\<open>init_ok\<close> says for which connections \<^verbatim>\<open>Init\<close> succeeds; the code does not look.\<close>

definition reconnect_one ::
    "(nat \<Rightarrow> bool) \<Rightarrow> nat \<Rightarrow> ('a hp_action list \<times> ('a, 'l) hash_pool) option \<Rightarrow>
     ('a hp_action list \<times> ('a, 'l) hash_pool) option" where
  "reconnect_one init_ok p r = Option.bind r (\<lambda>(out, s). Option.bind (Contexts s p) (\<lambda>c.
     map_option (\<lambda>_. (out @ [Connect p (Address c)],
       s\<lparr>Contexts := (Contexts s)(p \<mapsto> c\<lparr>Connection := Some (init_ok p)\<rparr>)\<rparr>)) (Connection c)))"

definition HashPool_Tick ::
    "'l hp_lib \<Rightarrow> (nat \<Rightarrow> bool) \<Rightarrow> ('a, 'l) hash_pool \<Rightarrow> ('a hp_action list \<times> ('a, 'l) hash_pool) option" where
  "HashPool_Tick L init_ok s =
     Option.bind (initialize_servers L s) (\<lambda>s1.
     Option.bind (delete_servers L ([], s1)) (\<lambda>r2.
     Option.bind (close_all_lost L r2) (\<lambda>r3.
     Option.bind (pop_loop (pop_reconnect L) (reconnect_one init_ok) (Some r3)) (\<lambda>r. r))))"

subsection \<open>Events and messages\<close>

definition HashPool_OnPeerClose :: "'l hp_lib \<Rightarrow> nat \<Rightarrow> ('a, 'l) hash_pool \<Rightarrow> ('a, 'l) hash_pool option" where
  "HashPool_OnPeerClose L p s =
     (if hl_linked L (Links s) p then None
      else Some (s\<lparr>Links := li_add_tail (hl_lists L) (Links s) ClosingServerList p\<rparr>))"

text \<open>The bytes of a payload are taken in and dropped.\<close>

definition HashPool_OnData :: "bytes \<Rightarrow> nat" where
  "HashPool_OnData Data = length Data"

text \<open>
  \<open>connected\<close> is \<^verbatim>\<open>IsConnected\<close>; \<open>Packet\<close> is what \<^verbatim>\<open>WriteMessage\<close> writes, \<open>None\<close> when it does not fit.
\<close>

definition HashPool_PostMessage ::
    "(nat \<Rightarrow> bool) \<Rightarrow> u64 \<Rightarrow> bytes option \<Rightarrow> ('a, 'l) hash_pool \<Rightarrow> (bool \<times> 'a hp_action list) option" where
  "HashPool_PostMessage connected Hash Packet s =
     (if ActiveServerList s = [] then Some (False, [])
      else let p = ActiveServerList s ! (unat Hash mod length (ActiveServerList s)) in
        Option.bind (Contexts s p) (\<lambda>c. map_option (\<lambda>_.
          if \<not> connected p then (False, [])
          else case Packet of None \<Rightarrow> (False, []) | Some m \<Rightarrow> (True, [PostData p m])) (Connection c)))"

definition clean_uninitialized :: "nat \<Rightarrow> 'a hp_action list \<times> ('a, 'l) hash_pool \<Rightarrow> ('a hp_action list \<times> ('a, 'l) hash_pool) option" where
  "clean_uninitialized p r = (case r of (out, s) \<Rightarrow> Option.bind (Contexts s p) (\<lambda>c.
     if Connection c \<noteq> None then None else Some (out, s\<lparr>Contexts := (Contexts s)(p := None)\<rparr>)))"

definition HashPool_Clean :: "'l hp_lib \<Rightarrow> ('a, 'l) hash_pool \<Rightarrow> ('a hp_action list \<times> ('a, 'l) hash_pool) option" where
  "HashPool_Clean L s =
     Option.bind (fold_opt (delete_server L) (ActiveServerList s) ([], s)) (\<lambda>(o1, s1).
     Option.bind (fold_opt (delete_server L) (DeleteServerList s1) (o1, s1\<lparr>ActiveServerList := []\<rparr>)) (\<lambda>(o2, s2).
     Option.bind (fold_opt clean_uninitialized (UninitializedServerList s2) (o2, s2\<lparr>DeleteServerList := []\<rparr>)) (\<lambda>(o3, s3).
       let s4 = s3\<lparr>UninitializedServerList := []\<rparr> in
       if hl_each L (Links s4) ReconnectServerList \<noteq> [] then None else Some (o3, s4))))"

subsection \<open>The merge\<close>

definition info :: "'a xServerContext \<Rightarrow> 'a xServerInfo" where
  "info c = \<lparr>ServerId = ServerId c, Address = Address c\<rparr>"

lemma info_sel [simp]: "ServerId (info c) = ServerId c" "Address (info c) = Address c"
  by (simp_all add: info_def)

lemma info_eq: "info c = D \<longleftrightarrow> ServerId c = ServerId D \<and> Address c = Address D"
  by (cases D) (auto simp: info_def)

text \<open>
  On lists with increasing ids the loop deletes the old servers that are not among the new ones and adds
  the new ones that are not among the old.
\<close>

lemma merge_servers_spec:
  assumes "sorted_by (\<lambda>(p, c). ServerId c) old" "sorted_by ServerId new"
  shows "merge_servers old new =
    (map fst (filter (\<lambda>(p, c). info c \<notin> set new) old), filter (\<lambda>D. D \<notin> (\<lambda>(p, c). info c) ` set old) new)"
  using assms
proof (induction old new rule: merge_servers.induct)
  case (1 new)
  then show ?case by simp
next
  case (2 p S old)
  then show ?case by (auto simp: filter_id_conv [THEN iffD2])
next
  case (3 p S old D new)
  have old: "\<And>q c. (q, c) \<in> set old \<Longrightarrow> ServerId S < ServerId c" "sorted_by (\<lambda>(p, c). ServerId c) old"
    and new: "\<And>E. E \<in> set new \<Longrightarrow> ServerId D < ServerId E" "sorted_by ServerId new"
    using "3.prems" by (auto simp: sorted_by_Cons)
  have fresh: "D \<notin> (\<lambda>(p, c). info c) ` set old" if "ServerId D \<le> ServerId S"
  proof
    assume "D \<in> (\<lambda>(p, c). info c) ` set old"
    then obtain q c where "(q, c) \<in> set old" "D = info c" by auto
    with old(1) [of q c] that show False by simp
  qed
  consider "ServerId S = ServerId D" | "ServerId S < ServerId D" | "ServerId D < ServerId S" by force
  then show ?case
  proof cases
    case 1
    have D: "(\<lambda>(p, c). info c \<notin> set (D # new)) x = (\<lambda>(p, c). info c \<notin> set new) x" if "x \<in> set old" for x
      using that old(1) [of "fst x" "snd x"] 1 by (simp add: case_prod_beta info_eq) force
    have S: "(E \<notin> (\<lambda>(p, c). info c) ` set ((p, S) # old)) = (E \<notin> (\<lambda>(p, c). info c) ` set old)" if "E \<in> set new" for E
      using that new(1) [of E] 1 by (auto simp: info_eq)
    have self: "info S \<notin> set new" "D \<notin> (\<lambda>(p, c). info c) ` set old"
      using new(1) [of "info S"] fresh 1 by auto
    note ih = "3.IH"(1) [OF 1 old(2) new(2)]
    have F: "filter (\<lambda>(p, c). info c \<notin> set (D # new)) old = filter (\<lambda>(p, c). info c \<notin> set new) old"
      "filter (\<lambda>E. E \<notin> (\<lambda>(p, c). info c) ` set ((p, S) # old)) new = filter (\<lambda>E. E \<notin> (\<lambda>(p, c). info c) ` set old) new"
      by (rule filter_cong [OF refl], erule D, rule filter_cong [OF refl], erule S)
    have SD: "info S = D \<longleftrightarrow> Address S = Address D" using 1 by (simp add: info_eq)
    have S2: "(info S \<notin> set (D # new)) = (Address S \<noteq> Address D)" "(D \<notin> (\<lambda>(p, c). info c) ` set ((p, S) # old)) = (Address S \<noteq> Address D)"
      using self SD by auto
    show ?thesis unfolding merge_servers.simps ih filter.simps prod.case S2 using F by (simp add: 1)
  next
    case 2
    have S: "(E \<notin> (\<lambda>(p, c). info c) ` set ((p, S) # old)) = (E \<notin> (\<lambda>(p, c). info c) ` set old)" if "E \<in> set (D # new)" for E
      using that new(1) [of E] 2 by (auto simp: info_eq)
    have self: "info S \<notin> set (D # new)" using new(1) [of "info S"] 2 by (auto simp: info_eq)
    have ne: "ServerId S \<noteq> ServerId D" using 2 by simp
    note ih = "3.IH"(2) [OF ne 2 old(2) "3.prems"(2)]
    have F: "filter (\<lambda>E. E \<notin> (\<lambda>(p, c). info c) ` set ((p, S) # old)) (D # new) = filter (\<lambda>E. E \<notin> (\<lambda>(p, c). info c) ` set old) (D # new)"
      by (rule filter_cong [OF refl], erule S)
    show ?thesis unfolding merge_servers.simps ih using F ne 2 self by simp
  next
    case 3
    have D: "(\<lambda>(p, c). info c \<notin> set (D # new)) x = (\<lambda>(p, c). info c \<notin> set new) x" if "x \<in> set ((p, S) # old)" for x
      using that old(1) [of "fst x" "snd x"] 3 by (simp add: case_prod_beta info_eq) force
    have self: "D \<notin> (\<lambda>(p, c). info c) ` set ((p, S) # old)" using fresh 3 by auto
    have ne: "ServerId S \<noteq> ServerId D" "\<not> ServerId S < ServerId D" using 3 by simp_all
    note ih = "3.IH"(3) [OF ne "3.prems"(1) new(2)]
    have F: "filter (\<lambda>(p, c). info c \<notin> set (D # new)) ((p, S) # old) = filter (\<lambda>(p, c). info c \<notin> set new) ((p, S) # old)"
      by (rule filter_cong [OF refl], erule D)
    show ?thesis unfolding merge_servers.simps ih using F ne self by simp
  qed
qed

subsection \<open>The loops of the tick\<close>

definition upd_on :: "nat set \<Rightarrow> ('c \<Rightarrow> 'c) \<Rightarrow> (nat \<rightharpoonup> 'c) \<Rightarrow> nat \<rightharpoonup> 'c" where
  "upd_on S f h p = (if p \<in> S then map_option f (h p) else h p)"

definition put_conn :: "bool \<Rightarrow> 'a xServerContext \<Rightarrow> 'a xServerContext" where
  "put_conn b c = c\<lparr>Connection := Some b\<rparr>"

lemma put_conn_sel [simp]: "ServerId (put_conn b c) = ServerId c" "Address (put_conn b c) = Address c"
  "Connection (put_conn b c) = Some b" "DeleteMark (put_conn b c) = DeleteMark c" "info (put_conn b c) = info c"
  by (simp_all add: put_conn_def info_def)

lemma upd_on_empty [simp]: "upd_on {} f h = h"
  by (simp add: upd_on_def fun_eq_iff)

lemma upd_on_insert: "h p = Some c \<Longrightarrow> p \<notin> S \<Longrightarrow> upd_on S f (h(p \<mapsto> f c)) = upd_on (insert p S) f h"
  by (auto simp: upd_on_def fun_eq_iff)

locale hash_pool_env = lists: hooked_lists "hl_lists L" itl
  for L :: "'l hp_lib" and itl :: "'l \<Rightarrow> hp_list \<Rightarrow> nat list" +
  assumes each_items: "hl_each L l n = itl l n"
    and linked_items: "hl_linked L l p \<longleftrightarrow> (\<exists>n. p \<in> set (itl l n))"
begin

lemma start_all:
  assumes "distinct U" "\<And>p. p \<in> set U \<Longrightarrow> \<exists>c. Contexts s p = Some c \<and> Connection c = None"
    "\<And>p n. p \<in> set U \<Longrightarrow> p \<notin> set (itl (Links s) n)"
  shows "\<exists>l. fold_opt (start_server L) U s = Some (s\<lparr>Contexts := upd_on (set U) (put_conn False) (Contexts s), Links := l\<rparr>) \<and>
    itl l = (itl (Links s))(ReconnectServerList := itl (Links s) ReconnectServerList @ U)"
  using assms
proof (induction U arbitrary: s)
  case Nil
  then show ?case by (auto simp: upd_on_def intro!: exI [of _ "Links s"])
next
  case (Cons p U)
  obtain c where c: "Contexts s p = Some c" "Connection c = None" using Cons.prems(2) [of p] by auto
  let ?s = "s\<lparr>Contexts := (Contexts s)(p \<mapsto> put_conn False c), Links := li_add_tail (hl_lists L) (Links s) ReconnectServerList p\<rparr>"
  have it: "itl (Links ?s) = (itl (Links s))(ReconnectServerList := itl (Links s) ReconnectServerList @ [p])"
    using Cons.prems(3) [of p] by (simp add: lists.add_tail_items)
  have ih: "\<exists>l. fold_opt (start_server L) U ?s = Some (?s\<lparr>Contexts := upd_on (set U) (put_conn False) (Contexts ?s), Links := l\<rparr>) \<and>
      itl l = (itl (Links ?s))(ReconnectServerList := itl (Links ?s) ReconnectServerList @ U)"
  proof (rule Cons.IH)
    fix q assume q: "q \<in> set U"
    then have "q \<noteq> p" using Cons.prems(1) by auto
    with q Cons.prems(2) [of q] show "\<exists>c. Contexts ?s q = Some c \<and> Connection c = None" by auto
    show "q \<notin> set (itl (Links ?s) n)" for n using q Cons.prems(3) [of q] \<open>q \<noteq> p\<close> unfolding it by auto
  qed (use Cons.prems(1) in simp)
  then obtain l where l: "fold_opt (start_server L) U ?s = Some (?s\<lparr>Contexts := upd_on (set U) (put_conn False) (Contexts ?s), Links := l\<rparr>)"
    "itl l = (itl (Links ?s))(ReconnectServerList := itl (Links ?s) ReconnectServerList @ U)" by blast
  have heap: "upd_on (set U) (put_conn False) (Contexts ?s) = upd_on (set (p # U)) (put_conn False) (Contexts s)"
    using Cons.prems(1) c by (simp add: upd_on_insert del: fun_upd_apply)
  have "start_server L p s = Some ?s" by (simp add: start_server_def c put_conn_def)
  then have "fold_opt (start_server L) (p # U) s = Some (s\<lparr>Contexts := upd_on (set (p # U)) (put_conn False) (Contexts s), Links := l\<rparr>)"
    using l(1) unfolding heap by simp
  moreover have "itl l = (itl (Links s))(ReconnectServerList := itl (Links s) ReconnectServerList @ p # U)"
    unfolding l(2) it by simp
  ultimately show ?case by blast
qed

lemma delete_all:
  assumes "distinct D" "\<And>p. p \<in> set D \<Longrightarrow> \<exists>c b. Contexts s p = Some c \<and> Connection c = Some b"
  shows "\<exists>l out'. fold_opt (delete_server L) D (out, s) = Some (out @ out', s\<lparr>Contexts := Contexts s |` (- set D), Links := l\<rparr>) \<and>
    itl l = (\<lambda>n. filter (\<lambda>q. q \<notin> set D) (itl (Links s) n)) \<and>
    set out' = {Disconnect p |p. p \<in> set D \<and> (\<exists>c. Contexts s p = Some c \<and> Connection c = Some True)}"
  using assms
proof (induction D arbitrary: s out)
  case Nil
  then show ?case by (auto intro!: exI [of _ "Links s"])
next
  case (Cons p D)
  obtain c b where c: "Contexts s p = Some c" "Connection c = Some b" using Cons.prems(2) [of p] by auto
  let ?s = "s\<lparr>Contexts := (Contexts s)(p := None), Links := li_remove (hl_lists L) (Links s) p\<rparr>"
    and ?o = "if b then [Disconnect p] else []"
  have prem: "\<exists>c b. Contexts ?s q = Some c \<and> Connection c = Some b" if "q \<in> set D" for q
    using that Cons.prems by auto
  have d: "distinct D" using Cons.prems(1) by simp
  from Cons.IH [OF d prem, where out = "out @ ?o"] obtain l out' where
    ih: "fold_opt (delete_server L) D (out @ ?o, ?s) = Some ((out @ ?o) @ out', ?s\<lparr>Contexts := Contexts ?s |` (- set D), Links := l\<rparr>)"
    "itl l = (\<lambda>n. filter (\<lambda>q. q \<notin> set D) (itl (Links ?s) n))"
    "set out' = {Disconnect p |p. p \<in> set D \<and> (\<exists>c. Contexts ?s p = Some c \<and> Connection c = Some True)}" by blast
  have "delete_server L p (out, s) = Some (out @ ?o, ?s)" by (simp add: delete_server_def c)
  then have "fold_opt (delete_server L) (p # D) (out, s) = Some (out @ ?o @ out', s\<lparr>Contexts := Contexts s |` (- set (p # D)), Links := l\<rparr>)"
    using ih(1) by (simp add: restrict_map_def fun_eq_iff)
  moreover have "itl l = (\<lambda>n. filter (\<lambda>q. q \<notin> set (p # D)) (itl (Links s) n))"
    by (auto simp: ih(2) lists.remove_items removeAll_filter_not_eq intro!: filter_cong)
  moreover have "set (?o @ out') = {Disconnect p' |p'. p' \<in> set (p # D) \<and> (\<exists>c. Contexts s p' = Some c \<and> Connection c = Some True)}"
    using c Cons.prems(1) by (auto simp: ih(3))
  ultimately show ?case by blast
qed

lemma close_all:
  assumes "distinct C" "\<And>p. p \<in> set C \<Longrightarrow> \<exists>c b. Contexts s p = Some c \<and> Connection c = Some b"
  shows "fold_opt close_lost C (out, s) = Some (out @ map Disconnect C, s\<lparr>Contexts := upd_on (set C) (put_conn False) (Contexts s)\<rparr>)"
  using assms
proof (induction C arbitrary: s out)
  case (Cons p C)
  obtain c b where c: "Contexts s p = Some c" "Connection c = Some b" using Cons.prems(2) [of p] by auto
  let ?s = "s\<lparr>Contexts := (Contexts s)(p \<mapsto> put_conn False c)\<rparr>"
  have prem: "\<exists>c b. Contexts ?s q = Some c \<and> Connection c = Some b" if "q \<in> set C" for q
    using that Cons.prems by auto
  have "close_lost p (out, s) = Some (out @ [Disconnect p], ?s)" by (simp add: close_lost_def c put_conn_def)
  then show ?case using Cons.IH [OF _ prem] Cons.prems(1) c by (simp add: upd_on_insert del: fun_upd_apply)
qed (simp add: upd_on_def)

lemma reconnect_all:
  assumes "itl (Links s) ReconnectServerList = R" "distinct R"
    "\<And>p. p \<in> set R \<Longrightarrow> \<exists>c b. Contexts s p = Some c \<and> Connection c = Some b"
  shows "\<exists>l. pop_loop (pop_reconnect L) (reconnect_one init_ok) (Some (out, s)) =
      Some (Some (out @ map (\<lambda>p. Connect p (case Contexts s p of Some c \<Rightarrow> Address c)) R,
        s\<lparr>Contexts := (\<lambda>p. upd_on (set R) (put_conn (init_ok p)) (Contexts s) p), Links := l\<rparr>)) \<and>
    itl l = (itl (Links s))(ReconnectServerList := [])"
  using assms
proof (induction R arbitrary: s out)
  case Nil
  have "pop_reconnect L (Some (out, s)) = None" by (simp add: pop_reconnect_def lists.pop_head_empty Nil)
  then show ?case using Nil by (auto simp: upd_on_def fun_eq_iff intro!: exI [of _ "Links s"])
next
  case (Cons p R)
  obtain c b where c: "Contexts s p = Some c" "Connection c = Some b" using Cons.prems(3) [of p] by auto
  from lists.pop_head_take [OF Cons.prems(1), of "\<lambda>_. True"] obtain l where
    l: "li_pop_head (hl_lists L) (Links s) ReconnectServerList (\<lambda>_. True) = Some (p, l)" "itl l = (itl (Links s))(ReconnectServerList := R)"
    by auto
  let ?s = "s\<lparr>Contexts := (Contexts s)(p \<mapsto> put_conn (init_ok p) c), Links := l\<rparr>"
  have pop: "pop_reconnect L (Some (out, s)) = Some (p, Some (out, s\<lparr>Links := l\<rparr>))" by (simp add: pop_reconnect_def l)
  have body: "reconnect_one init_ok p (Some (out, s\<lparr>Links := l\<rparr>)) = Some (out @ [Connect p (Address c)], ?s)"
    by (simp add: reconnect_one_def c put_conn_def)
  have prem: "\<exists>c b. Contexts ?s q = Some c \<and> Connection c = Some b" if "q \<in> set R" for q
    using that Cons.prems by auto
  have R: "itl (Links ?s) ReconnectServerList = R" "distinct R" using Cons.prems(2) by (simp_all add: l(2))
  from Cons.IH [OF R prem, where out = "out @ [Connect p (Address c)]"] obtain l' where
    ih: "pop_loop (pop_reconnect L) (reconnect_one init_ok) (Some (out @ [Connect p (Address c)], ?s)) =
      Some (Some ((out @ [Connect p (Address c)]) @ map (\<lambda>p. Connect p (case Contexts ?s p of Some c \<Rightarrow> Address c)) R,
        ?s\<lparr>Contexts := (\<lambda>q. upd_on (set R) (put_conn (init_ok q)) (Contexts ?s) q), Links := l'\<rparr>))"
    "itl l' = (itl (Links ?s))(ReconnectServerList := [])" by blast
  have same: "map (\<lambda>q. Connect q (case Contexts ?s q of Some c \<Rightarrow> Address c)) R = map (\<lambda>q. Connect q (case Contexts s q of Some c \<Rightarrow> Address c)) R"
    using Cons.prems(2) by auto
  have heap: "(\<lambda>q. upd_on (set R) (put_conn (init_ok q)) (Contexts ?s) q) = (\<lambda>q. upd_on (set (p # R)) (put_conn (init_ok q)) (Contexts s) q)"
    using c Cons.prems(2) by (auto simp: upd_on_def fun_eq_iff)
  show ?case using ih(2) unfolding pop_loop_step [where pop = "pop_reconnect L", OF pop] body ih(1) same heap by (auto simp: c l(2))
qed

end

subsection \<open>The invariant\<close>

text \<open>
  The heap holds the contexts of the three vectors and no other; the uninitialized ones have no connection,
  the deleted ones are marked, the active ones are sorted by their ids.
\<close>

definition hp_ok :: "('l \<Rightarrow> hp_list \<Rightarrow> nat list) \<Rightarrow> ('a, 'l) hash_pool \<Rightarrow> bool" where
  "hp_ok itl s \<longleftrightarrow>
     distinct (ActiveServerList s @ UninitializedServerList s @ DeleteServerList s) \<and>
     dom (Contexts s) = set (ActiveServerList s) \<union> set (UninitializedServerList s) \<union> set (DeleteServerList s) \<and>
     (\<forall>p c. Contexts s p = Some c \<longrightarrow> p < NextContext s \<and> (Connection c = None \<longleftrightarrow> p \<in> set (UninitializedServerList s)) \<and>
        (DeleteMark c \<longleftrightarrow> p \<in> set (DeleteServerList s))) \<and>
     sorted_by (server_id_at s) (ActiveServerList s) \<and>
     distinct (map (server_id_at s) (ActiveServerList s @ UninitializedServerList s)) \<and>
     itl (Links s) ReconnectServerList = [] \<and> distinct (itl (Links s) ClosingServerList) \<and>
     set (itl (Links s) ClosingServerList) \<subseteq> set (ActiveServerList s) \<union> set (DeleteServerList s)"

definition settled :: "('a, 'l) hash_pool \<Rightarrow> bool" where
  "settled s \<longleftrightarrow> UninitializedServerList s = [] \<and> DeleteServerList s = []"

lemma hp_ok_ctx:
  assumes "hp_ok itl s" "p \<in> set (ActiveServerList s) \<union> set (UninitializedServerList s) \<union> set (DeleteServerList s)"
  obtains c where "Contexts s p = Some c" "Connection c = None \<longleftrightarrow> p \<in> set (UninitializedServerList s)"
    "DeleteMark c \<longleftrightarrow> p \<in> set (DeleteServerList s)"
proof -
  from assms have "p \<in> dom (Contexts s)" unfolding hp_ok_def by blast
  then obtain c where "Contexts s p = Some c" by blast
  with assms(1) that show thesis unfolding hp_ok_def by blast
qed

definition to_connect :: "('l \<Rightarrow> hp_list \<Rightarrow> nat list) \<Rightarrow> ('a, 'l) hash_pool \<Rightarrow> nat set" where
  "to_connect itl s = set (UninitializedServerList s) \<union> (set (itl (Links s) ClosingServerList) - set (DeleteServerList s))"

context hash_pool_env begin

lemma tick_spec:
  assumes s: "hp_ok itl s"
  obtains out u where "HashPool_Tick L init_ok s = Some (out, u)" "settled u" "NextContext u = NextContext s"
    "ActiveServerList u = sort_key (server_id_at s) (ActiveServerList s @ UninitializedServerList s)"
    "Contexts u = (\<lambda>p. if p \<in> set (DeleteServerList s) then None
       else if p \<in> to_connect itl s then map_option (put_conn (init_ok p)) (Contexts s p) else Contexts s p)"
    "itl (Links u) = (\<lambda>_. [])"
    "\<forall>p a. Connect p a \<in> set out \<longleftrightarrow> p \<in> to_connect itl s \<and> (\<exists>c. Contexts s p = Some c \<and> a = Address c)"
    "\<forall>p. Disconnect p \<in> set out \<longleftrightarrow> p \<in> set (itl (Links s) ClosingServerList) - set (DeleteServerList s) \<or>
       p \<in> set (DeleteServerList s) \<and> (\<exists>c. Contexts s p = Some c \<and> Connection c = Some True)"
proof -
  let ?A = "ActiveServerList s" and ?U = "UninitializedServerList s" and ?D = "DeleteServerList s"
    and ?C = "itl (Links s) ClosingServerList"
  let ?B = "sort_key (server_id_at s) (?A @ ?U)"
  have d: "distinct ?U" "distinct ?D" "set ?U \<inter> set ?D = {}" "set ?A \<inter> set ?U = {}" "set ?A \<inter> set ?D = {}"
    and C: "distinct ?C" "set ?C \<subseteq> set ?A \<union> set ?D" and R: "itl (Links s) ReconnectServerList = []"
    using s by (auto simp: hp_ok_def)
  have U: "\<exists>c. Contexts s p = Some c \<and> Connection c = None" if "p \<in> set ?U" for p
    using hp_ok_ctx [OF s, of p] that by (metis Un_iff)
  have AD: "\<exists>c b. Contexts s p = Some c \<and> Connection c = Some b" if "p \<in> set ?A \<union> set ?D" for p
    using hp_ok_ctx [OF s, of p] that d(3,4) by (metis Un_iff disjoint_iff not_Some_eq)
  have nU: "p \<notin> set (itl (Links s) n)" if "p \<in> set ?U" for p n
    using that C(2) R d(3,4) by (cases n) auto
  \<comment> \<open>the new servers\<close>
  obtain l1 where l1: "fold_opt (start_server L) ?U s = Some (s\<lparr>Contexts := upd_on (set ?U) (put_conn False) (Contexts s), Links := l1\<rparr>)"
    "itl l1 = (itl (Links s))(ReconnectServerList := itl (Links s) ReconnectServerList @ ?U)"
    using start_all [OF d(1) U nU] by blast
  let ?s1 = "s\<lparr>Contexts := upd_on (set ?U) (put_conn False) (Contexts s), Links := l1,
     ActiveServerList := ?B, UninitializedServerList := []\<rparr>"
  have ids: "server_id_at (s\<lparr>Contexts := upd_on (set ?U) (put_conn False) (Contexts s), Links := l1\<rparr>) = server_id_at s"
    by (auto simp: server_id_at_def upd_on_def fun_eq_iff split: option.splits)
  have sorted: "?U = [] \<Longrightarrow> ?B = ?A"
    using s by (simp add: hp_ok_def sorted_by_def sort_key_id_if_sorted strict_sorted_imp_sorted)
  obtain l1' where i: "initialize_servers L s = Some (?s1\<lparr>Links := l1'\<rparr>)" "itl l1' = itl l1"
  proof (cases "?U = []")
    case True
    show thesis
    proof (rule that)
      show "initialize_servers L s = Some (?s1\<lparr>Links := Links s\<rparr>)" using True sorted by (cases s) (simp add: initialize_servers_def)
      show "itl (Links s) = itl l1" using True by (simp add: l1(2))
    qed
  next
    case False
    show thesis by (rule that [of l1]) (simp_all add: initialize_servers_def False l1(1) ids)
  qed
  let ?s1 = "?s1\<lparr>Links := l1'\<rparr>"
  \<comment> \<open>the deleted servers\<close>
  have D1: "\<exists>c b. Contexts ?s1 p = Some c \<and> Connection c = Some b" if "p \<in> set ?D" for p
    using AD [of p] that d(3) by (auto simp: upd_on_def)
  obtain l2 o2 where l2: "fold_opt (delete_server L) ?D ([], ?s1) = Some ([] @ o2, ?s1\<lparr>Contexts := Contexts ?s1 |` (- set ?D), Links := l2\<rparr>)"
    "itl l2 = (\<lambda>n. filter (\<lambda>q. q \<notin> set ?D) (itl (Links ?s1) n))"
    "set o2 = {Disconnect p |p. p \<in> set ?D \<and> (\<exists>c. Contexts ?s1 p = Some c \<and> Connection c = Some True)}"
    using delete_all [OF d(2) D1] by blast
  let ?s2 = "?s1\<lparr>Contexts := Contexts ?s1 |` (- set ?D), Links := l2, DeleteServerList := []\<rparr>"
  have s2: "delete_servers L ([], ?s1) = Some (o2, ?s2)" using l2(1) by (simp add: delete_servers_def)
  \<comment> \<open>the lost connections\<close>
  let ?C2 = "filter (\<lambda>q. q \<notin> set ?D) ?C"
  have it2: "itl (Links ?s2) ClosingServerList = ?C2" "itl (Links ?s2) ReconnectServerList = ?U"
    using d(3) by (auto simp: l2(2) i(2) l1(2) R intro: filter_True)
  have C2: "\<exists>c b. Contexts ?s2 p = Some c \<and> Connection c = Some b" if "p \<in> set ?C2" for p
    using AD [of p] that C(2) d(4) by (auto simp: upd_on_def)
  let ?s3 = "?s2\<lparr>Contexts := upd_on (set ?C2) (put_conn False) (Contexts ?s2),
     Links := li_grab_list_tail (hl_lists L) (Links ?s2) ReconnectServerList ClosingServerList\<rparr>"
  have s3: "close_all_lost L (o2, ?s2) = Some (o2 @ map Disconnect ?C2, ?s3)"
  proof -
    have "hl_each L (Links ?s2) ClosingServerList = ?C2" unfolding each_items it2 ..
    moreover have "fold_opt close_lost ?C2 (o2, ?s2) = Some (o2 @ map Disconnect ?C2, ?s2\<lparr>Contexts := upd_on (set ?C2) (put_conn False) (Contexts ?s2)\<rparr>)"
      by (rule close_all) (use C(1) C2 in auto)
    ultimately show ?thesis unfolding close_all_lost_def snd_conv by (simp only:) simp
  qed
  have it3: "itl (Links ?s3) ReconnectServerList = ?U @ ?C2" "itl (Links ?s3) ClosingServerList = []"
    using it2 by (simp_all add: lists.grab_list_tail_items)
  \<comment> \<open>the connections\<close>
  have R3: "set (?U @ ?C2) = to_connect itl s" "distinct (?U @ ?C2)"
    using d C by (auto simp: to_connect_def)
  have adr: "\<exists>c. Contexts s p = Some c \<and> Contexts ?s3 p = Some (put_conn False c)" if p: "p \<in> set (?U @ ?C2)" for p
  proof (cases "p \<in> set ?U")
    case True
    then have "p \<notin> set ?D" "p \<notin> set ?C2" using d(3,4) C(2) by auto
    with U [OF True] True show ?thesis by (auto simp: upd_on_def)
  next
    case False
    then have "p \<in> set ?C2" "p \<notin> set ?D" using p by auto
    with AD [of p] C(2) False show ?thesis by (auto simp: upd_on_def)
  qed
  have "\<exists>c b. Contexts ?s3 p = Some c \<and> Connection c = Some b" if "p \<in> set (?U @ ?C2)" for p
    using adr [OF that] by (metis put_conn_sel(3))
  from reconnect_all [OF it3(1) R3(2) this, of init_ok "o2 @ map Disconnect ?C2"] obtain l4 where
    l4: "pop_loop (pop_reconnect L) (reconnect_one init_ok) (Some (o2 @ map Disconnect ?C2, ?s3)) =
      Some (Some ((o2 @ map Disconnect ?C2) @ map (\<lambda>p. Connect p (case Contexts ?s3 p of Some c \<Rightarrow> Address c)) (?U @ ?C2),
        ?s3\<lparr>Contexts := (\<lambda>p. upd_on (set (?U @ ?C2)) (put_conn (init_ok p)) (Contexts ?s3) p), Links := l4\<rparr>))"
    "itl l4 = (itl (Links ?s3))(ReconnectServerList := [])" by blast
  let ?o = "(o2 @ map Disconnect ?C2) @ map (\<lambda>p. Connect p (case Contexts ?s3 p of Some c \<Rightarrow> Address c)) (?U @ ?C2)"
    and ?u = "?s3\<lparr>Contexts := (\<lambda>p. upd_on (set (?U @ ?C2)) (put_conn (init_ok p)) (Contexts ?s3) p), Links := l4\<rparr>"
  have tick: "HashPool_Tick L init_ok s = Some (?o, ?u)"
    unfolding HashPool_Tick_def i(1) bind.bind_lunit s2 s3 l4(1) by simp
  have heap: "Contexts ?u = (\<lambda>p. if p \<in> set ?D then None
       else if p \<in> to_connect itl s then map_option (put_conn (init_ok p)) (Contexts s p) else Contexts s p)"
  proof
    fix p
    have twice: "map_option (put_conn b) (map_option (put_conn b') x) = map_option (put_conn b) x" for b b' and x :: "'x xServerContext option"
      by (cases x) (simp_all add: put_conn_def)
    show "Contexts ?u p = (if p \<in> set ?D then None
       else if p \<in> to_connect itl s then map_option (put_conn (init_ok p)) (Contexts s p) else Contexts s p)"
      using d(3,4) C(2) by (auto simp: upd_on_def to_connect_def restrict_map_def twice)
  qed
  have links: "itl (Links ?u) = (\<lambda>_. [])"
  proof
    show "itl (Links ?u) n = []" for n using it3(2) by (cases n) (simp_all add: l4(2))
  qed
  have con: "Connect p a \<in> set ?o \<longleftrightarrow> p \<in> to_connect itl s \<and> (\<exists>c. Contexts s p = Some c \<and> a = Address c)" for p a
  proof -
    have "Connect p a \<in> set ?o \<longleftrightarrow> p \<in> set (?U @ ?C2) \<and> a = (case Contexts ?s3 p of Some c \<Rightarrow> Address c)"
      using l2(3) by auto
    also have "\<dots> \<longleftrightarrow> p \<in> set (?U @ ?C2) \<and> (\<exists>c. Contexts s p = Some c \<and> a = Address c)"
      using adr [of p] by (metis (no_types, lifting) option.case(2) option.inject put_conn_sel(2))
    finally show ?thesis unfolding R3(1) .
  qed
  have dis: "Disconnect p \<in> set ?o \<longleftrightarrow> p \<in> set ?C - set ?D \<or> p \<in> set ?D \<and> (\<exists>c. Contexts s p = Some c \<and> Connection c = Some True)" for p
  proof -
    have "Contexts ?s1 p = Contexts s p" if "p \<in> set ?D" using that d(3) by (auto simp: upd_on_def)
    then have "Disconnect p \<in> set o2 \<longleftrightarrow> p \<in> set ?D \<and> (\<exists>c. Contexts s p = Some c \<and> Connection c = Some True)"
      unfolding l2(3) mem_Collect_eq hp_action.inject by metis
    then show ?thesis by auto
  qed
  show thesis by (rule that [OF tick _ _ _ heap links, rule_format, OF _ _ _ con dis]) (simp_all add: settled_def)
qed

end

subsection \<open>An update and the tick after it\<close>

definition info_at :: "('a, 'l) hash_pool \<Rightarrow> nat \<Rightarrow> 'a xServerInfo" where
  "info_at s p = info (the (Contexts s p))"

lemma info_at_Some [simp]: "Contexts s p = Some c \<Longrightarrow> info_at s p = info c"
  by (simp add: info_at_def)

lemma read_all_map: "(\<And>p. p \<in> set ps \<Longrightarrow> h p \<noteq> None) \<Longrightarrow> read_all h ps = Some (map (\<lambda>p. (p, the (h p))) ps)"
  by (induction ps) fastforce+

lemma mark_all: "fold mark_deleted del h = upd_on (set del) (DeleteMark_update (\<lambda>_. True)) h"
proof (induction del arbitrary: h)
  case (Cons p del)
  have "DeleteMark_update (\<lambda>_. True) (DeleteMark_update (\<lambda>_. True) c) = DeleteMark_update (\<lambda>_. True) (c :: 'x xServerContext)" for c
    by (cases c) simp
  then show ?case by (simp add: Cons) (auto simp: upd_on_def mark_deleted_def fun_eq_iff option.map_comp comp_def)
qed simp

lemma map_of_fresh:
  "map_of (zip [n ..< n + length xs] xs) p = (if n \<le> p \<and> p < n + length xs then Some (xs ! (p - n)) else None)"
proof (cases "n \<le> p \<and> p < n + length xs")
  case True
  then have "map_of (zip [n ..< n + length xs] xs) ([n ..< n + length xs] ! (p - n)) = Some (xs ! (p - n))"
    by (intro map_of_zip_nth) auto
  with True show ?thesis by simp
next
  case False
  then have "p \<notin> fst ` set (zip [n ..< n + length xs] xs)" by (auto dest: set_zip_leftD)
  with False show ?thesis by (simp add: map_of_eq_None_iff [THEN iffD2])
qed

lemma sorted_ids:
  assumes "hp_ok itl s"
  shows "sorted_by (\<lambda>(p, c). ServerId c) (map (\<lambda>p. (p, the (Contexts s p))) (ActiveServerList s))"
proof -
  have "server_id_at s p = ServerId (the (Contexts s p))" if "p \<in> set (ActiveServerList s)" for p
  proof -
    from that obtain c where "Contexts s p = Some c" using assms unfolding hp_ok_def by blast
    then show ?thesis by (simp add: server_id_at_def)
  qed
  then have "map (\<lambda>(p, c). ServerId c) (map (\<lambda>p. (p, the (Contexts s p))) (ActiveServerList s)) = map (server_id_at s) (ActiveServerList s)"
    by simp
  moreover have "sorted_by (server_id_at s) (ActiveServerList s)" using assms by (simp add: hp_ok_def)
  ultimately show ?thesis unfolding sorted_by_def by metis
qed

lemma sorted_infos:
  assumes "hp_ok itl s"
  shows "sorted_by ServerId (map (info_at s) (ActiveServerList s))"
proof -
  have "map ServerId (map (info_at s) (ActiveServerList s)) = map (\<lambda>(p, c). ServerId c) (map (\<lambda>p. (p, the (Contexts s p))) (ActiveServerList s))"
    by (simp add: info_at_def)
  with sorted_ids [OF assms] show ?thesis unfolding sorted_by_def by metis
qed

lemma update_spec:
  assumes s: "hp_ok itl s" "settled s" and new: "distinct (map ServerId new)"
  obtains t where "UpdateServerList new s = Some t" "hp_ok itl t" "Links t = Links s"
    "ActiveServerList t = filter (\<lambda>p. info_at s p \<in> set new) (ActiveServerList s)"
    "DeleteServerList t = filter (\<lambda>p. info_at s p \<notin> set new) (ActiveServerList s)"
    "\<forall>p \<in> set (ActiveServerList t). Contexts t p = Contexts s p"
    "set (UninitializedServerList t) \<inter> set (ActiveServerList s) = {}"
    "info_at t ` (set (ActiveServerList t) \<union> set (UninitializedServerList t)) = set new"
    "\<forall>p \<in> set (ActiveServerList s). map_option Connection (Contexts t p) = map_option Connection (Contexts s p)"
proof -
  let ?A = "ActiveServerList s" and ?N = "NextContext s" and ?new = "sort_key ServerId new"
  have U: "UninitializedServerList s = []" "DeleteServerList s = []" using s(2) by (simp_all add: settled_def)
  have ctx: "\<exists>c b. Contexts s p = Some c \<and> Connection c = Some b \<and> \<not> DeleteMark c \<and> p < ?N" if "p \<in> set ?A" for p
    using s(1) that U unfolding hp_ok_def by (metis domD empty_iff empty_set not_None_eq sup_bot_right)
  have dom: "dom (Contexts s) = set ?A" using s(1) U by (simp add: hp_ok_def)
  define old where "old = map (\<lambda>p. (p, the (Contexts s p))) ?A"
  define add where "add = filter (\<lambda>D. D \<notin> info_at s ` set ?A) ?new"
  define del where "del = filter (\<lambda>p. info_at s p \<notin> set new) ?A"
  have r: "read_all (Contexts s) ?A = Some old" using ctx by (auto simp: old_def intro!: read_all_map)
  have m: "merge_servers old ?new = (del, add)"
    using merge_servers_spec [of old ?new] sorted_ids [OF s(1)] sorted_by_sort_key [OF new]
    by (simp add: old_def del_def add_def filter_map comp_def info_at_def image_image)
  define fresh where "fresh = map_of (zip [?N ..< ?N + length add] (map new_context add))"
  have fresh: "fresh p = (if ?N \<le> p \<and> p < ?N + length add then Some (new_context (add ! (p - ?N))) else None)" for p
    using map_of_fresh [of ?N "map new_context add" p, unfolded length_map] unfolding fresh_def by auto
  define heap where "heap = upd_on (set del) (DeleteMark_update (\<lambda>_. True)) (Contexts s) ++ fresh"
  have old_heap: "heap p = upd_on (set del) (DeleteMark_update (\<lambda>_. True)) (Contexts s) p" if "p < ?N" for p
    using that by (simp add: heap_def map_add_def fresh)
  have new_heap: "heap (?N + i) = Some (new_context (add ! i))" if "i < length add" for i
    using that by (simp add: heap_def map_add_def fresh)
  have kept: "heap p = Contexts s p" if "p \<in> set ?A" "p \<notin> set del" for p
    using ctx [OF that(1)] old_heap [of p] that(2) by (auto simp: upd_on_def)
  have marked: "heap p = Some (c\<lparr>DeleteMark := True\<rparr>)" if "p \<in> set del" "Contexts s p = Some c" for p c
    using ctx [of p] old_heap [of p] that by (auto simp: upd_on_def del_def)
  let ?t = "s\<lparr>Contexts := heap, NextContext := ?N + length add, UninitializedServerList := [?N ..< ?N + length add],
     DeleteServerList := del, ActiveServerList := filter (\<lambda>p. info_at s p \<in> set new) ?A\<rparr>"
  have act: "filter (\<lambda>p. case heap p of Some c \<Rightarrow> \<not> DeleteMark c | None \<Rightarrow> False) ?A = filter (\<lambda>p. info_at s p \<in> set new) ?A"
  proof (rule filter_cong [OF refl])
    fix p assume p: "p \<in> set ?A"
    then obtain c where c: "Contexts s p = Some c" "\<not> DeleteMark c" using ctx by blast
    show "(case heap p of Some c \<Rightarrow> \<not> DeleteMark c | None \<Rightarrow> False) = (info_at s p \<in> set new)"
    proof (cases "p \<in> set del")
      case True
      with marked [OF True c(1)] show ?thesis by (simp add: del_def)
    next
      case False
      with kept [OF p False] c p show ?thesis by (simp add: del_def)
    qed
  qed
  have upd: "UpdateServerList new s = Some ?t"
    using U act by (simp add: UpdateServerList_def r m mark_all fresh_def [symmetric] heap_def [symmetric])
  let ?B = "filter (\<lambda>p. info_at s p \<in> set new) ?A" and ?F = "[?N ..< ?N + length add]"
  have low: "p < ?N" if "p \<in> set ?A" for p using ctx [OF that] by blast
  have heap_old: "\<exists>c b. heap p = Some c \<and> Connection c = Some b \<and> (DeleteMark c \<longleftrightarrow> p \<in> set del) \<and> info c = info_at s p"
    if p: "p \<in> set ?A" for p
  proof -
    obtain c b where "Contexts s p = Some c" "Connection c = Some b" "\<not> DeleteMark c" using ctx [OF p] by blast
    then show ?thesis using kept [OF p] marked [of p c] by (cases "p \<in> set del") (auto simp: info_def)
  qed
  have heap_new: "\<exists>D. D \<in> set add \<and> D = add ! (p - ?N) \<and> heap p = Some (new_context D)" if "p \<in> set ?F" for p
    using that new_heap [of "p - ?N"] by auto
  have heap_cases: "p \<in> set ?A \<or> p \<in> set ?F" if "heap p \<noteq> None" for p
    using that dom by (auto simp: heap_def map_add_def fresh upd_on_def split: if_splits)
  have AB: "set ?A = set ?B \<union> set del" "set ?B \<inter> set del = {}" by (auto simp: del_def)
  have dA: "distinct ?A" using s(1) by (simp add: hp_ok_def)
  have id_old: "server_id_at ?t p = server_id_at s p \<and> server_id_at s p = ServerId (info_at s p)" if p: "p \<in> set ?A" for p
    using ctx [OF p] heap_old [OF p] by (auto simp: server_id_at_def info_eq)
  have at_new: "server_id_at ?t (?N + i) = ServerId (add ! i)" "info_at ?t (?N + i) = add ! i" if "i < length add" for i
    using new_heap [OF that] by (simp_all add: server_id_at_def info_eq new_context_def)
  have id_new: "map (server_id_at ?t) ?F = map ServerId add"
    by (rule nth_equalityI) (simp_all add: at_new)
  have infos: "info_at ?t p = info_at s p" if "p \<in> set ?A" for p using heap_old [OF that] by auto
  have infos_new: "info_at ?t ` set ?F = set add"
  proof -
    have "map (info_at ?t) ?F = add" by (rule nth_equalityI) (simp_all add: at_new)
    from arg_cong [OF this, of set] show ?thesis unfolding set_map .
  qed
  have new_set: "info_at s ` set ?B \<union> set add = set new" by (auto simp: add_def)
  show thesis
  proof (rule that [OF upd])
    have "set ?F \<inter> set ?A = {}" using low by fastforce
    then have "set ?F \<inter> set ?B = {}" "set ?F \<inter> set del = {}" using AB(1) by blast+
    moreover have "distinct ?B" "distinct del" "distinct ?F" using dA by (simp_all add: del_def)
    ultimately have h1: "distinct (?B @ ?F @ del)" using AB(2) unfolding distinct_append set_append by blast
    have h2: "dom heap = set ?B \<union> set ?F \<union> set del"
    proof (rule set_eqI)
      fix p
      have "heap p \<noteq> None" if "p \<in> set ?A \<or> p \<in> set ?F" using that heap_old [of p] heap_new [of p] by fastforce
      then show "p \<in> dom heap \<longleftrightarrow> p \<in> set ?B \<union> set ?F \<union> set del" using heap_cases [of p] AB(1) unfolding domIff by blast
    qed
    have h3: "p < ?N + length add \<and> (Connection c = None \<longleftrightarrow> p \<in> set ?F) \<and> (DeleteMark c \<longleftrightarrow> p \<in> set del)"
      if c: "heap p = Some c" for p c
    proof (cases "p \<in> set ?A")
      case True
      with heap_old [OF True] c low [OF True] show ?thesis by auto
    next
      case False
      then have p: "p \<in> set ?F" using heap_cases [of p] c by auto
      obtain D where "heap p = Some (new_context D)" using heap_new [OF p] by blast
      then have "Connection c = None" "\<not> DeleteMark c" using c by (simp_all add: new_context_def)
      moreover have "p \<notin> set del" using False AB(1) by blast
      moreover have "p < ?N + length add" using p by simp
      ultimately show ?thesis using p by blast
    qed
    have h4: "sorted_by (server_id_at ?t) ?B"
    proof -
      have "sorted_by (server_id_at s) ?B"
        using s(1) unfolding hp_ok_def sorted_by_def by (simp add: sorted_wrt_map sorted_wrt_filter)
      moreover have "map (server_id_at ?t) ?B = map (server_id_at s) ?B" using id_old by simp
      ultimately show ?thesis unfolding sorted_by_def by metis
    qed
    have h5: "distinct (map (server_id_at ?t) (?B @ ?F))"
    proof -
      have "distinct (map (server_id_at ?t) ?B)" using sorted_by_distinct [OF h4] .
      moreover have "distinct (map ServerId add)" unfolding add_def
        by (rule distinct_map_filter) (rule sorted_by_distinct [OF sorted_by_sort_key [OF new]])
      moreover have "server_id_at ?t p \<noteq> ServerId D" if p: "p \<in> set ?B" and D: "D \<in> set add" for p D
      proof
        assume "server_id_at ?t p = ServerId D"
        then have "ServerId (info_at s p) = ServerId D" using id_old [of p] p by auto
        moreover have "info_at s p \<in> set new" "D \<in> set new" using p D by (auto simp: add_def)
        ultimately have "info_at s p = D" using new by (simp add: distinct_map inj_on_def)
        then show False using p D by (auto simp: add_def)
      qed
      ultimately show ?thesis by (auto simp: id_new simp del: upt_Suc)
    qed
    have h6: "itl (Links s) ReconnectServerList = []" "distinct (itl (Links s) ClosingServerList)"
      "set (itl (Links s) ClosingServerList) \<subseteq> set ?B \<union> set del"
      using s(1) unfolding hp_ok_def U AB(1) [symmetric] by simp_all
    have sel: "ActiveServerList ?t = ?B" "UninitializedServerList ?t = ?F" "DeleteServerList ?t = del" "Contexts ?t = heap"
      "NextContext ?t = ?N + length add" "Links ?t = Links s" by simp_all
    show "hp_ok itl ?t" unfolding hp_ok_def sel by (intro conjI allI impI h1 h2 h4 h5 h6) (use h3 in blast)+
    show "info_at ?t ` (set (ActiveServerList ?t) \<union> set (UninitializedServerList ?t)) = set new"
      using infos infos_new new_set by (simp add: image_Un)
    show "set (UninitializedServerList ?t) \<inter> set ?A = {}" using low by fastforce
    show "\<forall>p \<in> set ?A. map_option Connection (Contexts ?t p) = map_option Connection (Contexts s p)"
    proof
      fix p assume p: "p \<in> set ?A"
      then obtain c where c: "Contexts s p = Some c" using ctx by blast
      show "map_option Connection (Contexts ?t p) = map_option Connection (Contexts s p)"
        using kept [OF p] marked [OF _ c] c by (cases "p \<in> set del") simp_all
    qed
  qed (use kept in \<open>auto simp: del_def\<close>)
qed

context hash_pool_env begin

lemma tick_ok:
  assumes s: "hp_ok itl s"
  obtains out u where "HashPool_Tick L init_ok s = Some (out, u)" "hp_ok itl u" "settled u"
    "set (ActiveServerList u) = set (ActiveServerList s) \<union> set (UninitializedServerList s)"
    "\<forall>p \<in> set (ActiveServerList u) - to_connect itl s. Contexts u p = Contexts s p"
    "\<forall>p \<in> set (ActiveServerList u). info_at u p = info_at s p"
    "\<forall>p a. Connect p a \<in> set out \<longleftrightarrow> p \<in> to_connect itl s \<and> (\<exists>c. Contexts s p = Some c \<and> a = Address c)"
    "\<forall>p. Disconnect p \<in> set out \<longleftrightarrow> p \<in> set (itl (Links s) ClosingServerList) - set (DeleteServerList s) \<or>
       p \<in> set (DeleteServerList s) \<and> (\<exists>c. Contexts s p = Some c \<and> Connection c = Some True)"
proof -
  from tick_spec [OF s, of init_ok] obtain out u where u: "HashPool_Tick L init_ok s = Some (out, u)" "settled u" "NextContext u = NextContext s"
    "ActiveServerList u = sort_key (server_id_at s) (ActiveServerList s @ UninitializedServerList s)"
    "Contexts u = (\<lambda>p. if p \<in> set (DeleteServerList s) then None
       else if p \<in> to_connect itl s then map_option (put_conn (init_ok p)) (Contexts s p) else Contexts s p)"
    "itl (Links u) = (\<lambda>_. [])"
    "\<forall>p a. Connect p a \<in> set out \<longleftrightarrow> p \<in> to_connect itl s \<and> (\<exists>c. Contexts s p = Some c \<and> a = Address c)"
    "\<forall>p. Disconnect p \<in> set out \<longleftrightarrow> p \<in> set (itl (Links s) ClosingServerList) - set (DeleteServerList s) \<or>
       p \<in> set (DeleteServerList s) \<and> (\<exists>c. Contexts s p = Some c \<and> Connection c = Some True)" .
  let ?AU = "ActiveServerList s @ UninitializedServerList s"
  have act: "set (ActiveServerList u) = set ?AU" by (simp add: u(4))
  have apart: "p \<notin> set (DeleteServerList s)" if "p \<in> set ?AU" for p using that s unfolding hp_ok_def by auto
  have ctx: "\<exists>c c'. Contexts s p = Some c \<and> Contexts u p = Some c' \<and> info c' = info c \<and> Connection c' \<noteq> None \<and>
      \<not> DeleteMark c' \<and> p < NextContext s" if p: "p \<in> set ?AU" for p
  proof -
    from p hp_ok_ctx [OF s, of p] obtain c where c: "Contexts s p = Some c" "Connection c = None \<longleftrightarrow> p \<in> set (UninitializedServerList s)"
      "DeleteMark c \<longleftrightarrow> p \<in> set (DeleteServerList s)" by (metis Un_iff set_append)
    moreover have "p < NextContext s" using c(1) s unfolding hp_ok_def by blast
    ultimately show ?thesis using apart [OF p] by (auto simp: u(5) to_connect_def)
  qed
  have infos: "info_at u p = info_at s p" if "p \<in> set ?AU" for p using ctx [OF that] by auto
  have ids: "server_id_at u p = server_id_at s p \<and> server_id_at s p = ServerId (info_at s p)" if "p \<in> set ?AU" for p
    using ctx [OF that] by (auto simp: server_id_at_def info_eq)
  have sorted: "sorted_by (server_id_at s) (ActiveServerList u)"
    unfolding u(4) by (rule sorted_by_sort_key) (use s in \<open>simp add: hp_ok_def\<close>)
  have "map (server_id_at u) (ActiveServerList u) = map (server_id_at s) (ActiveServerList u)"
    using ids act by (intro map_cong) auto
  then have sorted_u: "sorted_by (server_id_at u) (ActiveServerList u)" using sorted unfolding sorted_by_def by metis
  have dom: "dom (Contexts u) = set ?AU"
  proof (rule set_eqI)
    fix p
    have "p \<in> dom (Contexts u) \<Longrightarrow> p \<in> dom (Contexts s) \<and> p \<notin> set (DeleteServerList s)" by (auto simp: u(5) split: if_splits)
    then show "p \<in> dom (Contexts u) \<longleftrightarrow> p \<in> set ?AU" using s ctx [of p] unfolding hp_ok_def by auto
  qed
  have none: "UninitializedServerList u = []" "DeleteServerList u = []" using u(2) by (simp_all add: settled_def)
  have distinct: "distinct (ActiveServerList u)" using s by (auto simp: u(4) hp_ok_def)
  have ok: "hp_ok itl u" unfolding hp_ok_def none
  proof (intro conjI allI impI)
    fix p c assume c: "Contexts u p = Some c"
    then have "p \<in> set ?AU" using dom by auto
    from ctx [OF this] c show "p < NextContext u" "(Connection c = None) = (p \<in> set [])" "DeleteMark c = (p \<in> set [])"
      by (auto simp: u(3))
  qed (use dom act sorted_u sorted_by_distinct [OF sorted_u] distinct in \<open>simp_all add: u(6)\<close>)
  have "\<forall>p \<in> set (ActiveServerList u) - to_connect itl s. Contexts u p = Contexts s p" using act apart by (auto simp: u(5))
  moreover have "\<forall>p \<in> set (ActiveServerList u). info_at u p = info_at s p" using act infos by blast
  ultimately show thesis using that [OF u(1) ok u(2) _ _ _ u(7,8)] act by simp
qed

end

subsection \<open>Properties\<close>

text \<open>
  C18: An update of a settled pool and the tick after it, on a list without duplicate ids, end without a failed
  assertion and leave exactly the new list, sorted by id. A server that is on both lists with the same address keeps its
  context, and its connection unless that was lost; the pool connects to exactly the servers that are new (or have a new
  address) and those whose connection was lost; connections are closed when they were lost or their server is gone;
  and the heap holds no other contexts.
\<close>

theorem update_and_tick:
  assumes env: "hash_pool_env L itl" and s: "hp_ok itl s" "settled s" and new: "distinct (map ServerId new)"
  shows "\<exists>t out u. UpdateServerList new s = Some t \<and> HashPool_Tick L init_ok t = Some (out, u) \<and> hp_ok itl u \<and> settled u \<and>
    map (info_at u) (ActiveServerList u) = sort_key ServerId new \<and> dom (Contexts u) = set (ActiveServerList u) \<and>
    (\<forall>p \<in> set (ActiveServerList s). (p \<in> set (ActiveServerList u) \<longleftrightarrow> info_at s p \<in> set new) \<and>
      (p \<in> set (ActiveServerList u) \<and> p \<notin> set (itl (Links s) ClosingServerList) \<longrightarrow> Contexts u p = Contexts s p)) \<and>
    (\<forall>p a. Connect p a \<in> set out \<longleftrightarrow> p \<in> set (ActiveServerList u) \<and> a = Address (info_at u p) \<and>
      (p \<in> set (ActiveServerList s) \<longrightarrow> p \<in> set (itl (Links s) ClosingServerList))) \<and>
    (\<forall>p. Disconnect p \<in> set out \<longleftrightarrow> p \<in> set (ActiveServerList s) \<and>
      (if p \<in> set (ActiveServerList u) then p \<in> set (itl (Links s) ClosingServerList)
       else \<exists>c. Contexts s p = Some c \<and> Connection c = Some True))"
proof -
  from update_spec [OF s new] obtain t where t: "UpdateServerList new s = Some t" "hp_ok itl t" "Links t = Links s"
    "ActiveServerList t = filter (\<lambda>p. info_at s p \<in> set new) (ActiveServerList s)"
    "DeleteServerList t = filter (\<lambda>p. info_at s p \<notin> set new) (ActiveServerList s)"
    "\<forall>p \<in> set (ActiveServerList t). Contexts t p = Contexts s p"
    "set (UninitializedServerList t) \<inter> set (ActiveServerList s) = {}"
    "info_at t ` (set (ActiveServerList t) \<union> set (UninitializedServerList t)) = set new"
    "\<forall>p \<in> set (ActiveServerList s). map_option Connection (Contexts t p) = map_option Connection (Contexts s p)" .
  from hash_pool_env.tick_ok [OF env t(2), of init_ok] obtain out u where u: "HashPool_Tick L init_ok t = Some (out, u)" "hp_ok itl u" "settled u"
    "set (ActiveServerList u) = set (ActiveServerList t) \<union> set (UninitializedServerList t)"
    "\<forall>p \<in> set (ActiveServerList u) - to_connect itl t. Contexts u p = Contexts t p"
    "\<forall>p \<in> set (ActiveServerList u). info_at u p = info_at t p"
    "\<forall>p a. Connect p a \<in> set out \<longleftrightarrow> p \<in> to_connect itl t \<and> (\<exists>c. Contexts t p = Some c \<and> a = Address c)"
    "\<forall>p. Disconnect p \<in> set out \<longleftrightarrow> p \<in> set (itl (Links t) ClosingServerList) - set (DeleteServerList t) \<or>
       p \<in> set (DeleteServerList t) \<and> (\<exists>c. Contexts t p = Some c \<and> Connection c = Some True)" .
  let ?A = "set (ActiveServerList s)" and ?C = "set (itl (Links s) ClosingServerList)"
  have C: "?C \<subseteq> ?A" using s unfolding hp_ok_def settled_def by simp
  have kept: "p \<in> set (ActiveServerList u) \<longleftrightarrow> info_at s p \<in> set new" if "p \<in> ?A" for p
    using that t(7) by (auto simp: u(4) t(4))
  have con: "p \<in> to_connect itl t \<longleftrightarrow> p \<in> set (ActiveServerList u) \<and> (p \<in> ?A \<longrightarrow> p \<in> ?C)" for p
    using t(7) C by (auto simp: to_connect_def t(3-5) u(4))
  have infos: "map (info_at u) (ActiveServerList u) = sort_key ServerId new"
  proof (rule sorted_by_unique [OF sorted_infos [OF u(2)] sorted_by_sort_key [OF new]])
    have "set (map (info_at u) (ActiveServerList u)) = info_at t ` set (ActiveServerList u)" using u(6) by force
    then show "set (map (info_at u) (ActiveServerList u)) = set (sort_key ServerId new)" using t(8) by (simp add: u(4))
  qed
  have dom: "dom (Contexts u) = set (ActiveServerList u)" using u(2,3) by (simp add: hp_ok_def settled_def)
  have same: "Contexts u p = Contexts s p" if "p \<in> ?A" "p \<in> set (ActiveServerList u)" "p \<notin> ?C" for p
  proof -
    have "p \<in> set (ActiveServerList t)" using that(1,2) t(7) u(4) by blast
    moreover have "p \<notin> to_connect itl t" using con that by blast
    ultimately show ?thesis using u(5) t(6) that(2) by simp
  qed
  have connects: "Connect p a \<in> set out \<longleftrightarrow> p \<in> set (ActiveServerList u) \<and> a = Address (info_at u p) \<and> (p \<in> ?A \<longrightarrow> p \<in> ?C)" for p a
  proof (cases "p \<in> set (ActiveServerList u)")
    case True
    then have "p \<in> dom (Contexts t)" using t(2) u(4) unfolding hp_ok_def by blast
    then obtain c where "Contexts t p = Some c" by blast
    then show ?thesis using True con [of p] u(6,7) by auto
  qed (use con [of p] u(7) in auto)
  have closes: "Disconnect p \<in> set out \<longleftrightarrow> p \<in> ?A \<and> (if p \<in> set (ActiveServerList u) then p \<in> ?C
       else \<exists>c. Contexts s p = Some c \<and> Connection c = Some True)" for p
  proof (cases "p \<in> ?A")
    case False
    then show ?thesis using u(8) C t(3,5) by auto
  next
    case True
    then have "map_option Connection (Contexts t p) = map_option Connection (Contexts s p)" using t(9) by blast
    then have "(\<exists>c. Contexts t p = Some c \<and> Connection c = Some True) = (\<exists>c. Contexts s p = Some c \<and> Connection c = Some True)"
      by (cases "Contexts t p"; cases "Contexts s p") auto
    moreover have "p \<in> set (DeleteServerList t) \<longleftrightarrow> p \<notin> set (ActiveServerList u)" using True kept [OF True] by (simp add: t(5))
    ultimately show ?thesis using True u(8) t(3) by auto
  qed
  have "\<forall>p \<in> ?A. (p \<in> set (ActiveServerList u) \<longleftrightarrow> info_at s p \<in> set new) \<and>
      (p \<in> set (ActiveServerList u) \<and> p \<notin> ?C \<longrightarrow> Contexts u p = Contexts s p)"
    by (intro ballI conjI impI) (use kept same in simp_all)
  with connects closes show ?thesis
    by (intro exI [of _ t] exI [of _ out] exI [of _ u] conjI t(1) u(1-3) infos dom) (assumption | intro allI)+
qed

definition ref_hp_lib :: "(hp_list \<Rightarrow> nat list) hp_lib" where
  "ref_hp_lib = \<lparr>hl_lists = ref_lists, hl_each = (\<lambda>l n. l n),
     hl_linked = (\<lambda>l p. p \<in> set (l ClosingServerList) \<or> p \<in> set (l ReconnectServerList))\<rparr>"

interpretation ref_hash_pool: hash_pool_env ref_hp_lib "\<lambda>l. l"
proof (intro hash_pool_env.intro hash_pool_env_axioms.intro)
  show "hooked_lists (hl_lists ref_hp_lib) (\<lambda>l. l)" by (simp add: ref_hp_lib_def ref_lists_contract)
  show "hl_linked ref_hp_lib l p \<longleftrightarrow> (\<exists>n. p \<in> set (l n))" for l p
    unfolding ref_hp_lib_def by simp (metis hp_list.exhaust)
qed (simp add: ref_hp_lib_def)

definition demo_pool :: "(nat, hp_list \<Rightarrow> nat list) hash_pool" where
  "demo_pool = \<lparr>Contexts = [0 \<mapsto> \<lparr>ServerId = 5, Address = 50, Connection = Some True, DeleteMark = False\<rparr>,
       1 \<mapsto> \<lparr>ServerId = 8, Address = 80, Connection = Some True, DeleteMark = False\<rparr>],
     NextContext = 2, ActiveServerList = [0, 1], UninitializedServerList = [], DeleteServerList = [],
     Links = (\<lambda>_. [])(ClosingServerList := [1])\<rparr>"

lemma demo_pool_ok: "hp_ok (\<lambda>l. l) demo_pool" "settled demo_pool"
  by (auto simp: hp_ok_def settled_def demo_pool_def server_id_at_def sorted_by_def split: if_splits)

lemma update_and_tick_witness:
  "\<exists>t out u. UpdateServerList [\<lparr>ServerId = 8, Address = 80\<rparr>, \<lparr>ServerId = 5, Address = 51\<rparr>] demo_pool = Some t \<and>
    HashPool_Tick ref_hp_lib (\<lambda>_. True) t = Some (out, u) \<and>
    map (info_at u) (ActiveServerList u) = [\<lparr>ServerId = 5, Address = 51\<rparr>, \<lparr>ServerId = 8, Address = 80 :: nat\<rparr>]"
proof -
  have d: "distinct (map ServerId [\<lparr>ServerId = 8, Address = 80 :: nat\<rparr>, \<lparr>ServerId = 5, Address = 51\<rparr>])" by simp
  have "sort_key ServerId [\<lparr>ServerId = 8, Address = 80 :: nat\<rparr>, \<lparr>ServerId = 5, Address = 51\<rparr>] =
      [\<lparr>ServerId = 5, Address = 51\<rparr>, \<lparr>ServerId = 8, Address = 80\<rparr>]" by simp
  with update_and_tick [OF ref_hash_pool.hash_pool_env_axioms demo_pool_ok d, of "\<lambda>_. True"] show ?thesis by metis
qed

text \<open>
  Whom a message goes to depends on its hash and on the set of the servers alone: with \<open>servers\<close> any listing of the
  active servers without duplicate ids, it is the server at the position hash mod number of servers when they are
  sorted by id, so that two pools that know the same servers agree. The message is refused exactly when that
  server is not connected or the message does not fit; no assertion fails.
\<close>

theorem hash_picks_server:
  assumes s: "hp_ok itl s" "settled s" and servers: "distinct (map ServerId servers)" "set servers = info_at s ` set (ActiveServerList s)" "servers \<noteq> []"
  shows "\<exists>p. p \<in> set (ActiveServerList s) \<and> info_at s p = sort_key ServerId servers ! (unat Hash mod length servers) \<and>
    HashPool_PostMessage connected Hash Packet s =
      Some (if connected p then case Packet of None \<Rightarrow> (False, []) | Some m \<Rightarrow> (True, [PostData p m]) else (False, []))"
proof -
  let ?A = "ActiveServerList s" and ?i = "unat Hash mod length (ActiveServerList s)"
  have sk: "map (info_at s) ?A = sort_key ServerId servers"
    by (rule sorted_by_unique [OF sorted_infos [OF s(1)] sorted_by_sort_key [OF servers(1)]]) (simp add: servers(2))
  from arg_cong [OF this, of length] have len: "length servers = length ?A" by simp
  then have "length ?A \<noteq> 0" using servers(3) by auto
  then have A: "?A \<noteq> []" "?i < length ?A" by (auto intro: mod_less_divisor)
  then have p: "?A ! ?i \<in> set ?A" by simp
  from hp_ok_ctx [OF s(1), of "?A ! ?i"] p obtain c where "Contexts s (?A ! ?i) = Some c" "Connection c = None \<longleftrightarrow> ?A ! ?i \<in> set (UninitializedServerList s)"
    by (metis Un_iff)
  with s(2) obtain b where c: "Contexts s (?A ! ?i) = Some c" "Connection c = Some b" by (auto simp: settled_def)
  have "info_at s (?A ! ?i) = sort_key ServerId servers ! (unat Hash mod length servers)"
    using A(2) by (simp add: sk [symmetric] len)
  with p c A(1) show ?thesis by (intro exI [of _ "?A ! ?i"]) (simp add: HashPool_PostMessage_def Let_def)
qed

lemma hash_picks_server_witness:
  "\<exists>p. info_at demo_pool p = \<lparr>ServerId = 8, Address = 80\<rparr> \<and>
    HashPool_PostMessage (\<lambda>_. True) 7 (Some [1, 2]) demo_pool = Some (True, [PostData p [1, 2]])"
proof -
  let ?l = "[\<lparr>ServerId = 8, Address = 80 :: nat\<rparr>, \<lparr>ServerId = 5, Address = 50\<rparr>]"
  have l: "distinct (map ServerId ?l)" "?l \<noteq> []" "sort_key ServerId ?l ! (unat (7 :: u64) mod length ?l) = \<lparr>ServerId = 8, Address = 80\<rparr>"
  proof -
    have "sort_key ServerId ?l = [\<lparr>ServerId = 5, Address = 50\<rparr>, \<lparr>ServerId = 8, Address = 80\<rparr>]" by simp
    moreover have "unat (7 :: u64) mod length ?l = 1" by (simp add: numeral_2_eq_2 [symmetric])
    ultimately show "sort_key ServerId ?l ! (unat (7 :: u64) mod length ?l) = \<lparr>ServerId = 8, Address = 80\<rparr>" by simp
  qed simp_all
  have "set ?l = info_at demo_pool ` set (ActiveServerList demo_pool)" by (auto simp: demo_pool_def info_at_def info_def)
  from hash_picks_server [OF demo_pool_ok l(1) this l(2), of 7 "\<lambda>_. True" "Some [1, 2]"] show ?thesis unfolding l(3) by auto
qed

text \<open>
  A connection that \<^verbatim>\<open>Init\<close> could not open is never tried again: it is neither lost nor new, and a tick without
  lost connections connects to nothing.
\<close>

lemma failed_connect_not_retried:
  assumes env: "hash_pool_env L itl" and s: "hp_ok itl s" "settled s" "itl (Links s) ClosingServerList = []"
  shows "\<exists>out u. HashPool_Tick L init_ok s = Some (out, u) \<and> (\<forall>p a. Connect p a \<notin> set out)"
proof -
  have none: "to_connect itl s = {}" using s(2,3) by (simp add: to_connect_def settled_def)
  show ?thesis by (rule hash_pool_env.tick_ok [OF env s(1), of init_ok]) (use none in blast)
qed

text \<open>A second update before the tick fails an assertion when the first one changed something.\<close>

lemma second_update_fails:
  "UninitializedServerList t \<noteq> [] \<or> DeleteServerList t \<noteq> [] \<Longrightarrow> UpdateServerList new t = None"
  by (simp add: UpdateServerList_def)

end
