(* ===== verification/PacketStream.thy ===== *)
theory PacketStream
  imports Xel
begin

text \<open>
  The loop that every connection class runs over the bytes it receives
  (\<^verbatim>\<open>while (RemainSize >= PacketHeaderSize) { ... }\<close> of \<^verbatim>\<open>xBackendConnection::OnData\<close> and
  \<^verbatim>\<open>xPA_RelayConnectionManager::OnData\<close>), with the handling of one packet as its argument. The bytes it does not
  use are handed to it again, in front of those that arrive next.
\<close>

record stream_header =
  CommandId :: u32
  RequestId :: u64
  PacketSize :: nat
  IsKeepAlive :: bool

text \<open>
  \<open>hdr\<close> is \<^verbatim>\<open>PacketHeaderSize\<close>, \<open>parse\<close> the header parser of the library. The result has the number of bytes
  used, \<open>None\<close> for \<^verbatim>\<open>InvalidDataSize\<close>; a loop that does not end is \<open>None\<close> as a whole.
\<close>

partial_function (option) packet_loop ::
    "nat \<Rightarrow> (bytes \<Rightarrow> stream_header option) \<Rightarrow> (stream_header \<Rightarrow> bytes \<Rightarrow> 's \<Rightarrow> bool \<times> 's) \<Rightarrow> nat \<Rightarrow> bytes \<Rightarrow> 's \<Rightarrow>
     (nat option \<times> 's) option" where
  "packet_loop hdr parse handle used D s =
     (if length D < hdr then Some (Some used, s)
      else case parse D of None \<Rightarrow> Some (None, s)
      | Some h \<Rightarrow>
          if length D < PacketSize h then Some (Some used, s)
          else case handle h (drop hdr (take (PacketSize h) D)) s of (ok, t) \<Rightarrow>
            if \<not> ok then Some (None, t)
            else packet_loop hdr parse handle (used + PacketSize h) (drop (PacketSize h) D) t)"

text \<open>
  The bytes that arrive, piece by piece: the library keeps what was not used, and closes the connection after
  \<^verbatim>\<open>InvalidDataSize\<close>.
\<close>

fun feed ::
    "nat \<Rightarrow> (bytes \<Rightarrow> stream_header option) \<Rightarrow> (stream_header \<Rightarrow> bytes \<Rightarrow> 's \<Rightarrow> bool \<times> 's) \<Rightarrow> bytes \<Rightarrow> bytes list \<Rightarrow> 's \<Rightarrow>
     (bytes option \<times> 's) option" where
  "feed hdr parse handle B [] s = Some (Some B, s)"
| "feed hdr parse handle B (D # Ds) s =
     (case packet_loop hdr parse handle 0 (B @ D) s of
        None \<Rightarrow> None
      | Some (None, t) \<Rightarrow> Some (None, t)
      | Some (Some n, t) \<Rightarrow> feed hdr parse handle (drop n (B @ D)) Ds t)"

text \<open>
  What the loop relies on: the parser looks at the header alone, and a packet is not shorter than its header.
\<close>

definition advance :: "nat \<Rightarrow> (nat option \<times> 's) option \<Rightarrow> (nat option \<times> 's) option" where
  "advance n r = map_option (\<lambda>(k, t). (map_option ((+) n) k, t)) r"

lemma advance_simps [simp]:
  "advance n None = None" "advance n (Some (None, t)) = Some (None, t)" "advance n (Some (Some k, t)) = Some (Some (n + k), t)"
  "advance 0 r = r" "advance m (advance n r) = advance (m + n) r"
proof -
  show "advance 0 r = r" by (cases r) (auto simp: advance_def map_option_case split: option.splits)
  show "advance m (advance n r) = advance (m + n) r" by (cases r) (auto simp: advance_def map_option_case add.assoc split: option.splits)
qed (simp_all add: advance_def)

locale packet_format =
  fixes hdr :: nat and parse :: "bytes \<Rightarrow> stream_header option"
  assumes hdr_pos: "0 < hdr"
    and parse_header: "hdr \<le> length D \<Longrightarrow> parse (D @ E) = parse D"
    and parse_size: "hdr \<le> length D \<Longrightarrow> parse D = Some h \<Longrightarrow> hdr \<le> PacketSize h"
begin

lemma packet_loop_total: "\<exists>r t. packet_loop hdr parse handle used D s = Some (r, t)"
proof (induction "length D" arbitrary: D used s rule: less_induct)
  case less
  show ?case
  proof (cases "length D < hdr \<or> parse D = None")
    case True
    then show ?thesis by (subst packet_loop.simps) auto
  next
    case False
    then obtain h where h: "parse D = Some h" "\<not> length D < hdr" by auto
    then have "0 < PacketSize h" using hdr_pos parse_size [of D h] by auto
    then have "PacketSize h \<le> length D \<Longrightarrow> length (drop (PacketSize h) D) < length D" by auto
    then show ?thesis using less [of "drop (PacketSize h) D"] h by (subst packet_loop.simps) (auto split: prod.splits)
  qed
qed

lemma packet_loop_used: "packet_loop hdr parse handle used D s = advance used (packet_loop hdr parse handle 0 D s)"
proof (induction "length D" arbitrary: D used s rule: less_induct)
  case less
  show ?case
  proof (cases "length D < hdr \<or> parse D = None \<or> length D < PacketSize (the (parse D))")
    case True
    then show ?thesis by (subst (1 2) packet_loop.simps) (auto split: option.splits)
  next
    case False
    then obtain h where h: "parse D = Some h" "\<not> length D < hdr" "\<not> length D < PacketSize h" by auto
    then have "0 < PacketSize h" using hdr_pos parse_size [of D h] by auto
    then have l: "length (drop (PacketSize h) D) < length D" using h(3) by auto
    note ih = less [OF l, of "used + PacketSize h"] less [OF l, of "PacketSize h"]
    show ?thesis using h by (subst (1 2) packet_loop.simps) (simp add: ih split: prod.splits)
  qed
qed

text \<open>Stopping in the middle of the bytes and going on with the rest is as good as not stopping.\<close>

lemma packet_loop_append:
  "packet_loop hdr parse handle 0 (D @ E) s =
     (case packet_loop hdr parse handle 0 D s of
        Some (Some n, t) \<Rightarrow> advance n (packet_loop hdr parse handle 0 (drop n D @ E) t)
      | r \<Rightarrow> r)"
proof (induction "length D" arbitrary: D s rule: less_induct)
  case less
  show ?case
  proof (cases "length D < hdr")
    case True
    show ?thesis using True by (subst (2) packet_loop.simps) simp
  next
    case L: False
    then have p: "parse (D @ E) = parse D" by (intro parse_header) simp
    show ?thesis
    proof (cases "parse D")
      case None
      with L p show ?thesis by (subst (1 2) packet_loop.simps) simp
    next
      case (Some h)
      show ?thesis
      proof (cases "length D < PacketSize h")
        case True
        show ?thesis using True Some L by (subst (2) packet_loop.simps) simp
      next
        case F: False
        have "0 < PacketSize h" using hdr_pos parse_size [OF _ Some] L by auto
        then have l: "length (drop (PacketSize h) D) < length D" using F by auto
        let ?body = "drop hdr (take (PacketSize h) D)"
        obtain ok t where ht: "handle h ?body s = (ok, t)" by (cases "handle h ?body s")
        have left: "packet_loop hdr parse handle 0 (D @ E) s =
            (if \<not> ok then Some (None, t) else packet_loop hdr parse handle (PacketSize h) (drop (PacketSize h) D @ E) t)"
          using F L Some p ht by (subst packet_loop.simps) simp
        have right: "packet_loop hdr parse handle 0 D s =
            (if \<not> ok then Some (None, t) else packet_loop hdr parse handle (PacketSize h) (drop (PacketSize h) D) t)"
          using F L Some ht by (subst packet_loop.simps) simp
        show ?thesis
        proof (cases ok)
          case False
          then show ?thesis by (simp add: left right)
        next
          case True
          show ?thesis
            using less [OF l, of t] True
            by (simp add: left right packet_loop_used [of _ "PacketSize h"] add.commute split: option.splits)
        qed
      qed
    qed
  qed
qed

lemma packet_loop_stuck:
  assumes "packet_loop hdr parse handle 0 D s = Some (Some n, t)"
  shows "n \<le> length D \<and> packet_loop hdr parse g 0 (drop n D) u = Some (Some 0, u)"
  using assms
proof (induction "length D" arbitrary: D s n rule: less_induct)
  case less
  show ?case
  proof (cases "length D < hdr \<or> parse D = None \<or> length D < PacketSize (the (parse D))")
    case True
    with less.prems have "n = 0" "length D < hdr \<or> parse D \<noteq> None"
      by (subst (asm) packet_loop.simps; auto split: if_splits option.splits)+
    with True show ?thesis by (subst packet_loop.simps) (auto split: option.splits)
  next
    case False
    then obtain h where h: "parse D = Some h" "\<not> length D < hdr" "\<not> length D < PacketSize h" by auto
    then have "0 < PacketSize h" using hdr_pos parse_size [of D h] by auto
    then have l: "length (drop (PacketSize h) D) < length D" using h(3) by auto
    obtain ok v where v: "handle h (drop hdr (take (PacketSize h) D)) s = (ok, v)" by (cases "handle h (drop hdr (take (PacketSize h) D)) s")
    from less.prems have ok: ok "advance (PacketSize h) (packet_loop hdr parse handle 0 (drop (PacketSize h) D) v) = Some (Some n, t)"
      using h v by (subst (asm) packet_loop.simps; auto simp: packet_loop_used [of _ "PacketSize h"] split: if_splits)+
    then obtain k where k: "packet_loop hdr parse handle 0 (drop (PacketSize h) D) v = Some (Some k, t)" "n = PacketSize h + k"
      by (auto simp: advance_def)
    from less.hyps [OF l k(1)] h(3) k(2) show ?thesis by (auto simp: add.commute)
  qed
qed

lemma skip:
  "(case r of None \<Rightarrow> None | Some (None, v) \<Rightarrow> Some (None, v) | Some (Some m, v) \<Rightarrow> Some (Some (drop m (drop n W)), v)) =
   (case advance n r of None \<Rightarrow> None | Some (None, v) \<Rightarrow> Some (None, v) | Some (Some m, v) \<Rightarrow> Some (Some (drop m W), v))"
proof (cases r)
  case (Some q)
  then show ?thesis by (cases q, cases "fst q") (auto simp: add.commute)
qed simp

text \<open>How the bytes are cut into pieces makes no difference.\<close>

lemma feed_concat:
  assumes "\<And>u. packet_loop hdr parse handle 0 B u = Some (Some 0, u)"
  shows "feed hdr parse handle B Ds s =
    (case packet_loop hdr parse handle 0 (B @ concat Ds) s of None \<Rightarrow> None
     | Some (None, t) \<Rightarrow> Some (None, t) | Some (Some n, t) \<Rightarrow> Some (Some (drop n (B @ concat Ds)), t))"
  using assms
proof (induction Ds arbitrary: B s)
  case (Cons D Ds)
  show ?case
  proof (cases "packet_loop hdr parse handle 0 (B @ D) s")
    case None
    then show ?thesis using packet_loop_append [of handle "B @ D" "concat Ds" s] by simp
  next
    case (Some r)
    obtain k t where r: "r = (k, t)" by (cases r)
    show ?thesis
    proof (cases k)
      case None
      then show ?thesis using packet_loop_append [of handle "B @ D" "concat Ds" s] Some r by simp
    next
      case k: (Some n)
      note stuck = packet_loop_stuck [OF Some [unfolded r k], of handle]
      have st: "n \<le> length (B @ D)" using stuck by blast
      have st2: "packet_loop hdr parse handle 0 (drop n (B @ D)) u = Some (Some 0, u)" for u using stuck [of u] by (rule conjunct2)
      have d: "drop n (B @ D) @ concat Ds = drop n (B @ concat (D # Ds))" using st by simp
      have cut: "packet_loop hdr parse handle 0 (B @ concat (D # Ds)) s =
          advance n (packet_loop hdr parse handle 0 (drop n (B @ concat (D # Ds))) t)"
        using packet_loop_append [of handle "B @ D" "concat Ds" s] Some r k st unfolding d by simp
      have "feed hdr parse handle B (D # Ds) s = feed hdr parse handle (drop n (B @ D)) Ds t"
        using Some r k by simp
      also have "\<dots> = (case packet_loop hdr parse handle 0 (drop n (B @ concat (D # Ds))) t of None \<Rightarrow> None
         | Some (None, v) \<Rightarrow> Some (None, v) | Some (Some m, v) \<Rightarrow> Some (Some (drop m (drop n (B @ concat (D # Ds)))), v))"
        by (subst Cons.IH) (simp_all only: st2 d)
      also have "\<dots> = (case advance n (packet_loop hdr parse handle 0 (drop n (B @ concat (D # Ds))) t) of None \<Rightarrow> None
         | Some (None, v) \<Rightarrow> Some (None, v) | Some (Some m, v) \<Rightarrow> Some (Some (drop m (B @ concat (D # Ds))), v))"
        by (rule skip)
      finally show ?thesis unfolding cut .
    qed
  qed
qed simp

lemma no_bytes: "packet_loop hdr parse handle 0 [] u = Some (Some 0, u)"
  using hdr_pos by (subst packet_loop.simps) simp

lemmas feed_all = feed_concat [OF no_bytes, unfolded append_Nil]

end

text \<open>A reference format: two bytes of size, one of flags, four of command and eight of request id.\<close>

definition ref_parse :: "bytes \<Rightarrow> stream_header option" where
  "ref_parse D = (let n = unat (D ! 0) + 256 * unat (D ! 1) in
     if n < 15 then None
     else Some \<lparr>CommandId = fold (\<lambda>b x. x * 256 + ucast b) (take 4 (drop 3 D)) 0,
       RequestId = fold (\<lambda>b x. x * 256 + ucast b) (take 8 (drop 7 D)) 0, PacketSize = n, IsKeepAlive = D ! 2 \<noteq> 0\<rparr>)"

interpretation ref_packets: packet_format 15 ref_parse
proof
  show "15 \<le> length D \<Longrightarrow> ref_parse (D @ E) = ref_parse D" for D E
    by (cases "D = []") (simp_all add: ref_parse_def nth_append Let_def cong: if_cong)
  show "15 \<le> length D \<Longrightarrow> ref_parse D = Some h \<Longrightarrow> 15 \<le> PacketSize h" for D h
    by (auto simp: ref_parse_def Let_def split: if_splits)
qed simp

end
