(* ===== verification/BackendConnection.thy ===== *)
theory BackendConnection
  imports PacketStream ReportMessages Commands XelReference
begin

text \<open>
  The connection to a backend, \<^verbatim>\<open>src/cpp/src_app/lib_backend_connection\<close>: \<^verbatim>\<open>xBackendConnection\<close> is a state machine over
  one TCP connection that it opens, authenticates by a signed challenge, keeps alive and opens again when it is
  lost; \<^verbatim>\<open>xBackendConnectionPool\<close> does the same over the connections of the library's \<^verbatim>\<open>xClientPool\<close>.
\<close>

subsection \<open>State\<close>

datatype eState = Unspecified | SetupReady | Connecting | Connected | Challenging | Ready | Closing

definition MinRequestKeepAliveTimeoutMS :: u64 where "MinRequestKeepAliveTimeoutMS = 60000"
definition MinKeepAliveTimeoutMS :: u64 where "MinKeepAliveTimeoutMS = MinRequestKeepAliveTimeoutMS + 5000"
definition MinConnectionTimeoutMS :: u64 where "MinConnectionTimeoutMS = 5000"
definition MinReconnectTimeoutMS :: u64 where "MinReconnectTimeoutMS = 3000"

record 'a xBackendConnection =
  State :: eState
  Ticker :: u64
  TargetAddress :: 'a
  ConnectionStartTimestampMS :: u64
  LastRequestKeepAliveTimestampMS :: u64
  LastKeepAliveTimestampMS :: u64
  AppKey :: bytes
  AppSecret :: bytes

text \<open>
  \<open>be_write\<close> is \<^verbatim>\<open>WriteMessage\<close> on a serialised message, empty when it does not fit; \<open>be_ready\<close> and \<open>be_packet\<close> are the
  two virtual functions that a subclass may override.
\<close>

record 'a be_env =
  be_wire :: "'a wire"
  be_hash :: hash_ops
  be_write :: "u32 \<Rightarrow> u64 \<Rightarrow> bytes \<Rightarrow> bytes"
  be_ready :: bool
  be_packet :: "u32 \<Rightarrow> u64 \<Rightarrow> bytes \<Rightarrow> bool"

datatype 'a be_action = OpenConnection 'a | CleanConnection | PostRequestKeepAlive | PostBytes bytes
  | ConnectionReady | BackendPacket u32 u64 bytes

subsection \<open>Operations\<close>

definition Backend_Init :: "'a \<Rightarrow> bytes \<Rightarrow> bytes \<Rightarrow> 'a xBackendConnection \<Rightarrow> 'a xBackendConnection" where
  "Backend_Init Address Key Secret c = c\<lparr>State := SetupReady, TargetAddress := Address, ConnectionStartTimestampMS := 0,
     LastRequestKeepAliveTimestampMS := 0, LastKeepAliveTimestampMS := 0, AppKey := Key, AppSecret := Secret\<rparr>"

definition opened_state :: "eState \<Rightarrow> bool" where
  "opened_state st \<longleftrightarrow> st \<in> {Connecting, Connected, Challenging, Ready, Closing}"

definition Backend_Clean :: "'a xBackendConnection \<Rightarrow> 'a be_action list \<times> 'a xBackendConnection" where
  "Backend_Clean c = (if opened_state (State c) then [CleanConnection] else [], c\<lparr>State := Unspecified\<rparr>)"

text \<open>From the label \<^verbatim>\<open>CHECK_AND_RECONNECT\<close> on; \<open>init_ok\<close> is what \<^verbatim>\<open>Connection.Init\<close> returns.\<close>

definition check_and_reconnect :: "bool \<Rightarrow> u64 \<Rightarrow> 'a xBackendConnection \<Rightarrow> 'a be_action list \<times> 'a xBackendConnection" where
  "check_and_reconnect init_ok NowMS c =
     (let (o1, c1) = (if State c = Closing then ([CleanConnection], c\<lparr>State := SetupReady\<rparr>) else ([], c)) in
      if State c1 \<noteq> SetupReady then (o1, c1)
      else if sint (NowMS - ConnectionStartTimestampMS c1) < sint MinReconnectTimeoutMS then (o1, c1)
      else
        let c2 = c1\<lparr>LastRequestKeepAliveTimestampMS := 0, LastKeepAliveTimestampMS := 0, ConnectionStartTimestampMS := NowMS\<rparr> in
        if \<not> init_ok then (o1, c2) else (o1 @ [OpenConnection (TargetAddress c2)], c2\<lparr>State := Connecting\<rparr>))"

text \<open>\<open>None\<close>: the assertion fails.\<close>

definition Backend_OnTick :: "bool \<Rightarrow> 'a xBackendConnection \<Rightarrow> ('a be_action list \<times> 'a xBackendConnection) option" where
  "Backend_OnTick init_ok c =
     (let NowMS = Ticker c in
      if State c = Unspecified then None
      else if State c = Ready then
        if MinKeepAliveTimeoutMS \<le> NowMS - LastKeepAliveTimestampMS c then
          Some (check_and_reconnect init_ok NowMS (c\<lparr>State := Closing\<rparr>))
        else if MinRequestKeepAliveTimeoutMS \<le> NowMS - LastRequestKeepAliveTimestampMS c then
          Some ([PostRequestKeepAlive], c\<lparr>LastRequestKeepAliveTimestampMS := NowMS\<rparr>)
        else Some ([], c)
      else if State c \<in> {Connecting, Connected, Challenging} \<and> MinConnectionTimeoutMS \<le> NowMS - ConnectionStartTimestampMS c then
        Some (check_and_reconnect init_ok NowMS (c\<lparr>State := Closing\<rparr>))
      else Some (check_and_reconnect init_ok NowMS c))"

definition Backend_Tick :: "bool \<Rightarrow> u64 \<Rightarrow> 'a xBackendConnection \<Rightarrow> ('a be_action list \<times> 'a xBackendConnection) option" where
  "Backend_Tick init_ok NowMS c = Backend_OnTick init_ok (c\<lparr>Ticker := NowMS\<rparr>)"

text \<open>The challenge that both classes post; \<open>now\<close> is \<^verbatim>\<open>GetTimestampMS()\<close>.\<close>

definition challenge_bytes :: "'a be_env \<Rightarrow> u64 \<Rightarrow> bytes \<Rightarrow> bytes \<Rightarrow> bytes" where
  "challenge_bytes env now Key Secret =
     (let challenge = xBackendChallenge.make Key now [];
          signed = challenge\<lparr>ChallengeValue := GenerateChallengeString (be_hash env) challenge Secret\<rparr> in
      be_write env Cmd_BackendChallenge 0 (ser_xBackendChallenge (be_wire env) signed))"

definition Backend_OnConnected :: "'a be_env \<Rightarrow> u64 \<Rightarrow> 'a xBackendConnection \<Rightarrow> 'a be_action list \<times> 'a xBackendConnection" where
  "Backend_OnConnected env now c =
     ([PostBytes (challenge_bytes env now (AppKey c) (AppSecret c))], c\<lparr>State := Challenging\<rparr>)"

definition Backend_OnPeerClose :: "'a xBackendConnection \<Rightarrow> 'a xBackendConnection" where
  "Backend_OnPeerClose c = c\<lparr>State := Closing\<rparr>"

definition OnCmdBackendChallengeResp ::
    "'a be_env \<Rightarrow> bytes \<Rightarrow> 'a be_action list \<times> 'a xBackendConnection \<Rightarrow> bool \<times> ('a be_action list \<times> 'a xBackendConnection)" where
  "OnCmdBackendChallengeResp env Payload s = (case s of (out, c) \<Rightarrow>
     if State c \<noteq> Challenging then (False, s)
     else case des_xBackendChallengeResp (be_wire env) Payload of None \<Rightarrow> (False, s)
     | Some (R, _) \<Rightarrow>
         (be_ready env, (out @ [ConnectionReady],
           c\<lparr>State := Ready, LastRequestKeepAliveTimestampMS := Ticker c, LastKeepAliveTimestampMS := Ticker c\<rparr>)))"

definition Backend_OnPacket ::
    "'a be_env \<Rightarrow> u32 \<Rightarrow> u64 \<Rightarrow> bytes \<Rightarrow> 'a be_action list \<times> 'a xBackendConnection \<Rightarrow>
     bool \<times> ('a be_action list \<times> 'a xBackendConnection)" where
  "Backend_OnPacket env Cmd Req Payload s = (case s of (out, c) \<Rightarrow>
     if State c = Ready then (be_packet env Cmd Req Payload, (out @ [BackendPacket Cmd Req Payload], c))
     else if Cmd \<noteq> Cmd_BackendChallengeResp then (False, s)
     else OnCmdBackendChallengeResp env Payload s)"

definition backend_handle ::
    "'a be_env \<Rightarrow> stream_header \<Rightarrow> bytes \<Rightarrow> 'a be_action list \<times> 'a xBackendConnection \<Rightarrow>
     bool \<times> ('a be_action list \<times> 'a xBackendConnection)" where
  "backend_handle env h Payload s =
     (if IsKeepAlive h then (True, (fst s, (snd s)\<lparr>LastKeepAliveTimestampMS := Ticker (snd s)\<rparr>))
      else Backend_OnPacket env (CommandId h) (RequestId h) Payload s)"

definition Backend_OnData ::
    "'a be_env \<Rightarrow> nat \<Rightarrow> (bytes \<Rightarrow> stream_header option) \<Rightarrow> bytes \<Rightarrow> 'a xBackendConnection \<Rightarrow>
     (nat option \<times> 'a be_action list \<times> 'a xBackendConnection) option" where
  "Backend_OnData env hdr parse Data c = packet_loop hdr parse (backend_handle env) 0 Data ([], c)"

definition Backend_PostData :: "bytes \<Rightarrow> 'a xBackendConnection \<Rightarrow> bool \<times> 'a be_action list" where
  "Backend_PostData Data c = (if State c \<noteq> Ready then (False, []) else (True, [PostBytes Data]))"

definition Backend_PostMessage :: "'a be_env \<Rightarrow> u32 \<Rightarrow> u64 \<Rightarrow> bytes \<Rightarrow> 'a xBackendConnection \<Rightarrow> bool \<times> 'a be_action list" where
  "Backend_PostMessage env Cmd Req Message c =
     (let B = be_write env Cmd Req Message in if B = [] then (False, []) else Backend_PostData B c)"

subsection \<open>The pool\<close>

record xBackendConnectionContext =
  ContextAppKey :: bytes
  ContextAppSecret :: bytes
  IsChallengeReady :: bool

definition fresh_context :: xBackendConnectionContext where
  "fresh_context = \<lparr>ContextAppKey = [], ContextAppSecret = [], IsChallengeReady = False\<rparr>"

text \<open>
  \<open>ContextList\<close> by the indices of the connection ids, which the library keeps below \<^verbatim>\<open>MaxConnectionCount\<close>; \<open>None\<close> is an
  index outside of the vector.
\<close>

type_synonym backend_pool = "xBackendConnectionContext list"

definition Pool_Init :: "nat \<Rightarrow> backend_pool" where
  "Pool_Init n = replicate n fresh_context"

definition Pool_Clean :: "backend_pool \<Rightarrow> backend_pool" where
  "Pool_Clean L = []"

definition at_context :: "nat \<Rightarrow> (xBackendConnectionContext \<Rightarrow> 'r) \<Rightarrow> backend_pool \<Rightarrow> 'r option" where
  "at_context i f L = (if i < length L then Some (f (L ! i)) else None)"

text \<open>\<open>Sid\<close> is the index that \<^verbatim>\<open>xClientPool::AddServer\<close> has found, if any.\<close>

definition Pool_AddServer :: "nat option \<Rightarrow> bytes \<Rightarrow> bytes \<Rightarrow> backend_pool \<Rightarrow> (nat option \<times> backend_pool) option" where
  "Pool_AddServer Sid Key Secret L =
     (case Sid of None \<Rightarrow> Some (None, L)
      | Some i \<Rightarrow> at_context i (\<lambda>x. (Some i, L[i := x\<lparr>ContextAppKey := Key, ContextAppSecret := Secret\<rparr>])) L)"

definition Pool_RemoveServer :: "nat \<Rightarrow> backend_pool \<Rightarrow> backend_pool option" where
  "Pool_RemoveServer i L = at_context i (\<lambda>_. L[i := fresh_context]) L"

definition Pool_OnServerConnected :: "'a be_env \<Rightarrow> u64 \<Rightarrow> nat \<Rightarrow> backend_pool \<Rightarrow> bytes option" where
  "Pool_OnServerConnected env now i L = at_context i (\<lambda>x. challenge_bytes env now (ContextAppKey x) (ContextAppSecret x)) L"

definition Pool_OnServerClose :: "nat \<Rightarrow> backend_pool \<Rightarrow> backend_pool option" where
  "Pool_OnServerClose i L = at_context i (\<lambda>_. L[i := fresh_context]) L"

definition Pool_OnCmdBackendChallengeResp :: "'a be_env \<Rightarrow> nat \<Rightarrow> bytes \<Rightarrow> backend_pool \<Rightarrow> (bool \<times> backend_pool) option" where
  "Pool_OnCmdBackendChallengeResp env i Payload L = at_context i (\<lambda>x.
     if IsChallengeReady x then (False, L)
     else case des_xBackendChallengeResp (be_wire env) Payload of None \<Rightarrow> (False, L)
     | Some _ \<Rightarrow> (True, L[i := x\<lparr>IsChallengeReady := True\<rparr>])) L"

text \<open>With the packet that goes to \<^verbatim>\<open>OnBackendPacket\<close>, if it does.\<close>

definition Pool_OnServerPacket ::
    "'a be_env \<Rightarrow> nat \<Rightarrow> u32 \<Rightarrow> u64 \<Rightarrow> bytes \<Rightarrow> backend_pool \<Rightarrow> (bool \<times> 'a be_action list \<times> backend_pool) option" where
  "Pool_OnServerPacket env i Cmd Req Payload L =
     (if Cmd = Cmd_BackendChallengeResp then
        map_option (\<lambda>(ok, M). (ok, [], M)) (Pool_OnCmdBackendChallengeResp env i Payload L)
      else at_context i (\<lambda>x.
        if \<not> IsChallengeReady x then (False, [], L)
        else (be_packet env Cmd Req Payload, [BackendPacket Cmd Req Payload], L)) L)"

end
