(* ===== verification/BackendSession.thy ===== *)
theory BackendSession
  imports BackendConnection
begin

text \<open>
  The backend connection as seen on the wire: the abstract protocol of one connection after the other that every run
  obeys, the bounds a tick enforces, and what the pool does on a reconnect.
\<close>

subsection \<open>The protocol\<close>

datatype link = Closed | Opening | Waiting | Open

text \<open>\<open>chal\<close> says which bytes are a challenge.\<close>

fun link_step :: "(bytes \<Rightarrow> bool) \<Rightarrow> 'a be_action \<Rightarrow> link \<Rightarrow> link option" where
  "link_step chal (OpenConnection a) Closed = Some Opening"
| "link_step chal (PostBytes B) Opening = (if chal B then Some Waiting else None)"
| "link_step chal ConnectionReady Waiting = Some Open"
| "link_step chal (PostBytes B) Open = Some Open"
| "link_step chal PostRequestKeepAlive Open = Some Open"
| "link_step chal (BackendPacket C R P) Open = Some Open"
| "link_step chal CleanConnection l = (if l = Closed then None else Some Closed)"
| "link_step chal _ _ = None"

fun link_run :: "(bytes \<Rightarrow> bool) \<Rightarrow> 'a be_action list \<Rightarrow> link \<Rightarrow> link option" where
  "link_run chal [] l = Some l"
| "link_run chal (a # as) l = Option.bind (link_step chal a l) (link_run chal as)"

lemma link_run_append: "link_run chal (as @ bs) l = Option.bind (link_run chal as l) (link_run chal bs)"
proof (induction as arbitrary: l)
  case (Cons a as)
  then show ?case by (cases "link_step chal a l") simp_all
qed simp

definition is_challenge :: "'a be_env \<Rightarrow> bytes \<Rightarrow> bytes \<Rightarrow> bytes \<Rightarrow> bool" where
  "is_challenge env Key Secret B \<longleftrightarrow> (\<exists>now. B = challenge_bytes env now Key Secret)"

definition link_of :: "eState \<Rightarrow> link \<Rightarrow> bool" where
  "link_of st l = (case st of Unspecified \<Rightarrow> l = Closed | SetupReady \<Rightarrow> l = Closed | Connecting \<Rightarrow> l = Opening
     | Connected \<Rightarrow> False | Challenging \<Rightarrow> l = Waiting | Ready \<Rightarrow> l = Open | Closing \<Rightarrow> l \<noteq> Closed)"

subsection \<open>Runs\<close>

datatype be_event = BTick bool u64 | BConnected u64 | BPeerClose | BData bytes | BPost u32 u64 bytes

text \<open>The callbacks the library makes in each state.\<close>

fun be_allowed :: "be_event \<Rightarrow> eState \<Rightarrow> bool" where
  "be_allowed (BTick ok now) st \<longleftrightarrow> True"
| "be_allowed (BConnected now) st \<longleftrightarrow> st = Connecting"
| "be_allowed BPeerClose st \<longleftrightarrow> opened_state st"
| "be_allowed (BData D) st \<longleftrightarrow> st \<in> {Challenging, Ready}"
| "be_allowed (BPost C R M) st \<longleftrightarrow> True"

fun be_step ::
    "'a be_env \<Rightarrow> nat \<Rightarrow> (bytes \<Rightarrow> stream_header option) \<Rightarrow> be_event \<Rightarrow> 'a xBackendConnection \<Rightarrow>
     ('a be_action list \<times> 'a xBackendConnection) option" where
  "be_step env hdr parse (BTick ok now) c = Backend_Tick ok now c"
| "be_step env hdr parse (BConnected now) c = Some (Backend_OnConnected env now c)"
| "be_step env hdr parse BPeerClose c = Some ([], Backend_OnPeerClose c)"
| "be_step env hdr parse (BData D) c = map_option snd (Backend_OnData env hdr parse D c)"
| "be_step env hdr parse (BPost C R M) c = Some (snd (Backend_PostMessage env C R M c), c)"

inductive be_reach for env :: "'a be_env" and hdr parse and c0 :: "'a xBackendConnection" where
  be_start: "be_reach env hdr parse c0 [] c0"
| be_event: "be_reach env hdr parse c0 out c \<Longrightarrow> be_allowed ev (State c) \<Longrightarrow> be_step env hdr parse ev c = Some (o', c') \<Longrightarrow>
    be_reach env hdr parse c0 (out @ o') c'"

context packet_format begin

lemma packet_loop_inv:
  assumes step: "\<And>h B s. I s \<Longrightarrow> I (snd (handle h B s))" and s: "I s" and r: "packet_loop hdr parse handle used D s = Some (r, t)"
  shows "I t"
  using s r
proof (induction "length D" arbitrary: D used s rule: less_induct)
  case less
  show ?case
  proof (cases "length D < hdr \<or> parse D = None \<or> length D < PacketSize (the (parse D))")
    case True
    then show ?thesis using less.prems by (subst (asm) packet_loop.simps) (auto split: option.splits if_splits)
  next
    case False
    then obtain h where h: "parse D = Some h" "\<not> length D < hdr" "\<not> length D < PacketSize h" by auto
    then have "0 < PacketSize h" using hdr_pos parse_size [of D h] by auto
    then have l: "length (drop (PacketSize h) D) < length D" using h(3) by auto
    obtain ok u where u: "handle h (drop hdr (take (PacketSize h) D)) s = (ok, u)" by (cases "handle h (drop hdr (take (PacketSize h) D)) s")
    then have iu: "I u" using step [OF less.prems(1), of h "drop hdr (take (PacketSize h) D)"] by simp
    have "packet_loop hdr parse handle used D s =
        (if \<not> ok then Some (None, u) else packet_loop hdr parse handle (used + PacketSize h) (drop (PacketSize h) D) u)"
      using h u by (subst packet_loop.simps) simp
    with less.hyps [OF l iu] iu less.prems(2) show ?thesis by (auto split: if_splits)
  qed
qed

end

text \<open>The part of the state that no operation changes.\<close>

definition same_setup :: "'a xBackendConnection \<Rightarrow> 'a xBackendConnection \<Rightarrow> bool" where
  "same_setup c d \<longleftrightarrow> AppKey c = AppKey d \<and> AppSecret c = AppSecret d \<and> TargetAddress c = TargetAddress d"

definition steps_ok :: "(bytes \<Rightarrow> bool) \<Rightarrow> 'a xBackendConnection \<Rightarrow> 'a be_action list \<times> 'a xBackendConnection \<Rightarrow> bool" where
  "steps_ok chal c r \<longleftrightarrow> State (snd r) \<noteq> Unspecified \<and> same_setup c (snd r) \<and>
     (\<forall>l. link_of (State c) l \<longrightarrow> (\<exists>l'. link_run chal (fst r) l = Some l' \<and> link_of (State (snd r)) l'))"

lemma reconnect_ok:
  "State c \<in> {SetupReady, Closing, Connecting, Challenging} \<Longrightarrow> steps_ok chal c (check_and_reconnect ok now c)"
  by (auto simp: steps_ok_def check_and_reconnect_def same_setup_def link_of_def Let_def split: if_splits)

lemma closing_ok:
  "link_of (State c) l \<Longrightarrow> State c \<in> {Connecting, Challenging, Ready, Closing} \<Longrightarrow> link_of Closing l"
  by (auto simp: link_of_def)

lemma tick_step_ok:
  assumes "State c \<noteq> Unspecified" "State c \<noteq> Connected"
  obtains r where "Backend_Tick ok now c = Some r" "steps_ok chal c r"
proof -
  let ?c = "c\<lparr>Ticker := now\<rparr>"
  have closed: "steps_ok chal c (check_and_reconnect ok now (?c\<lparr>State := Closing\<rparr>))" if "State c \<in> {Connecting, Challenging, Ready}"
    using reconnect_ok [of "?c\<lparr>State := Closing\<rparr>" chal ok now] that
    by (auto simp: steps_ok_def same_setup_def link_of_def)
  have kept: "steps_ok chal c (check_and_reconnect ok now ?c)" if "State c \<in> {SetupReady, Closing, Connecting, Challenging}"
    using reconnect_ok [of ?c chal ok now] that by (auto simp: steps_ok_def same_setup_def)
  have idle: "steps_ok chal c ([], ?c)" "steps_ok chal c ([PostRequestKeepAlive], ?c\<lparr>LastRequestKeepAliveTimestampMS := now\<rparr>)"
    if "State c = Ready" using that by (auto simp: steps_ok_def same_setup_def link_of_def)
  have "\<exists>r. Backend_Tick ok now c = Some r \<and> steps_ok chal c r"
    using closed kept idle assms by (cases "State c") (simp_all add: Backend_Tick_def Backend_OnTick_def Let_def del: split_paired_Ex)
  with that show thesis by blast
qed

lemma handle_step_ok:
  assumes "steps_ok chal c s" "State (snd s) \<in> {Challenging, Ready}"
  shows "steps_ok chal c (snd (backend_handle env h B s)) \<and> State (snd (snd (backend_handle env h B s))) \<in> {Challenging, Ready}"
  using assms
  by (cases s) (auto simp: steps_ok_def backend_handle_def Backend_OnPacket_def OnCmdBackendChallengeResp_def same_setup_def link_of_def
      link_run_append split: option.splits)

lemma be_step_ok:
  assumes fmt: "packet_format hdr parse" and c: "State c \<noteq> Unspecified" "State c \<noteq> Connected" and ev: "be_allowed ev (State c)"
    and key: "\<And>now. chal (challenge_bytes env now (AppKey c) (AppSecret c))"
  obtains r where "be_step env hdr parse ev c = Some r" "steps_ok chal c r"
proof (cases ev)
  case (BTick ok now)
  from tick_step_ok [OF c, of ok now chal] that show thesis by (auto simp: BTick)
next
  case (BConnected now)
  have "steps_ok chal c (Backend_OnConnected env now c)"
    using ev BConnected key by (simp add: steps_ok_def Backend_OnConnected_def same_setup_def link_of_def)
  then show thesis by (rule that [rotated]) (simp add: BConnected)
next
  case BPeerClose
  have "steps_ok chal c ([], Backend_OnPeerClose c)"
    using ev BPeerClose by (cases "State c") (simp_all add: steps_ok_def Backend_OnPeerClose_def same_setup_def link_of_def opened_state_def)
  then show thesis by (rule that [rotated]) (simp add: BPeerClose)
next
  case (BData D)
  let ?I = "\<lambda>s. steps_ok chal c s \<and> State (snd s) \<in> {Challenging, Ready}"
  obtain r s where l: "packet_loop hdr parse (backend_handle env) 0 D ([], c) = Some (r, s)"
    using packet_format.packet_loop_total [OF fmt, of "backend_handle env" 0 D "([], c)"] by blast
  have "?I ([], c)" using ev BData by (auto simp: steps_ok_def same_setup_def)
  have step: "?I (snd (backend_handle env h B s))" if "?I s" for h B s using handle_step_ok that by blast
  from packet_format.packet_loop_inv [where I = ?I, OF fmt step \<open>?I ([], c)\<close> l] have "steps_ok chal c s" by blast
  with that l show thesis by (simp add: BData Backend_OnData_def)
next
  case (BPost C R M)
  have "steps_ok chal c (snd (Backend_PostMessage env C R M c), c)"
    using c by (cases "State c") (simp_all add: steps_ok_def same_setup_def Backend_PostMessage_def Backend_PostData_def Let_def link_of_def)
  then show thesis by (rule that [rotated]) (simp add: BPost)
qed

lemma be_reach_ok:
  assumes fmt: "packet_format hdr parse" and c0: "State c0 = SetupReady" and r: "be_reach env hdr parse c0 out c"
  shows "State c \<noteq> Unspecified \<and> same_setup c0 c \<and> (\<exists>l. link_run (is_challenge env (AppKey c0) (AppSecret c0)) out Closed = Some l \<and> link_of (State c) l)"
  using r
proof induction
  case be_start
  then show ?case by (simp add: same_setup_def link_of_def c0)
next
  case (be_event out c ev o' c')
  let ?chal = "is_challenge env (AppKey c0) (AppSecret c0)"
  from be_event.IH obtain l where l: "State c \<noteq> Unspecified" "same_setup c0 c" "link_run ?chal out Closed = Some l" "link_of (State c) l" by blast
  then have "State c \<noteq> Connected" by (auto simp: link_of_def)
  moreover have "?chal (challenge_bytes env now (AppKey c) (AppSecret c))" for now
    using l(2) by (auto simp: is_challenge_def same_setup_def)
  ultimately obtain r where "be_step env hdr parse ev c = Some r" "steps_ok ?chal c r"
    using be_step_ok [OF fmt l(1) _ be_event.hyps(2), of ?chal env] by blast
  with be_event.hyps(3) have s: "steps_ok ?chal c (o', c')" by simp
  with l(4) obtain l' where "link_run ?chal o' l = Some l'" "link_of (State c') l'" by (auto simp: steps_ok_def)
  then have "link_run ?chal (out @ o') Closed = Some l'" by (simp add: link_run_append l(3))
  with s l(2) \<open>link_of (State c') l'\<close> show ?case by (auto simp: steps_ok_def same_setup_def)
qed

subsection \<open>Properties\<close>

text \<open>
  C17: Whatever the order of ticks, callbacks, bytes and posted messages, a backend connection that was set up
  obeys the protocol of \<open>link_run\<close>: it opens its TCP connection only when it is closed and cleans it only when it is open,
  the first bytes it sends on a connection are the challenge signed with its own key and secret, it is ready
  only after that, and messages, keep-alive requests and the packets of the backend are passed on only then. In every
  reachable state each allowed event has a next state: no assertion fails and the loop over the received bytes ends.
\<close>

theorem backend_protocol:
  assumes "packet_format hdr parse" "State c0 = SetupReady" "be_reach env hdr parse c0 out c"
  shows "(\<exists>l. link_run (is_challenge env (AppKey c0) (AppSecret c0)) out Closed = Some l \<and> link_of (State c) l) \<and>
    (\<forall>ev. be_allowed ev (State c) \<longrightarrow> be_step env hdr parse ev c \<noteq> None)"
proof -
  from be_reach_ok [OF assms] obtain l where l: "State c \<noteq> Unspecified"
    "link_run (is_challenge env (AppKey c0) (AppSecret c0)) out Closed = Some l" "link_of (State c) l" by blast
  then have "State c \<noteq> Connected" by (auto simp: link_of_def)
  then have "be_step env hdr parse ev c \<noteq> None" if "be_allowed ev (State c)" for ev
    using be_step_ok [OF assms(1) l(1) _ that, of "\<lambda>_. True" env] by (metis option.distinct(1))
  with l show ?thesis by blast
qed

definition demo_env :: "ref_addr be_env" where
  "demo_env = \<lparr>be_wire = ref_wire, be_hash = \<lparr>hs_sha256 = (\<lambda>x. x), hs_md5 = (\<lambda>x. x), hs_StrToHex = (\<lambda>x. x), hs_StrToHexLower = (\<lambda>x. x)\<rparr>,
     be_write = (\<lambda>C R P. P), be_ready = True, be_packet = (\<lambda>C R P. True)\<rparr>"

definition demo_backend :: "ref_addr xBackendConnection" where
  "demo_backend = \<lparr>State = SetupReady, Ticker = 0, TargetAddress = RefNone 0, ConnectionStartTimestampMS = 0,
     LastRequestKeepAliveTimestampMS = 0, LastKeepAliveTimestampMS = 0, AppKey = [1], AppSecret = [2]\<rparr>"

definition demo_connecting :: "ref_addr xBackendConnection" where
  "demo_connecting = demo_backend\<lparr>State := Connecting, Ticker := 10000, ConnectionStartTimestampMS := 10000\<rparr>"

lemma demo_reach: "be_reach demo_env 15 ref_parse demo_backend
    ([OpenConnection (RefNone 0)] @ [PostBytes (challenge_bytes demo_env 5 [1] [2])]) (demo_connecting\<lparr>State := Challenging\<rparr>)"
proof (rule be_event [where ev = "BConnected 5"])
  have "be_reach demo_env 15 ref_parse demo_backend ([] @ [OpenConnection (RefNone 0)]) demo_connecting"
  proof (rule be_event [OF be_start, where ev = "BTick True 10000"])
    show "be_step demo_env 15 ref_parse (BTick True 10000) demo_backend = Some ([OpenConnection (RefNone 0)], demo_connecting)"
      by (simp add: Backend_Tick_def Backend_OnTick_def check_and_reconnect_def demo_backend_def demo_connecting_def MinReconnectTimeoutMS_def)
  qed simp
  then show "be_reach demo_env 15 ref_parse demo_backend [OpenConnection (RefNone 0)] demo_connecting" by simp
qed (simp_all add: demo_connecting_def Backend_OnConnected_def demo_backend_def)

lemma backend_protocol_witness:
  "\<exists>l. link_run (is_challenge demo_env [1] [2]) ([OpenConnection (RefNone 0)] @ [PostBytes (challenge_bytes demo_env 5 [1] [2])]) Closed = Some l"
proof -
  have k: "State demo_backend = SetupReady" "AppKey demo_backend = [1]" "AppSecret demo_backend = [2]" by (simp_all add: demo_backend_def)
  from backend_protocol [OF ref_packets.packet_format_axioms k(1) demo_reach] show ?thesis unfolding k by blast
qed

text \<open>
  C29: After a tick at \<open>now\<close> the connection is never closing, a connection attempt or challenge is at most five seconds old, a
  ready connection has heard from the backend in the last 65 seconds and asked it in the last 60, and an idle
  one waits for less than three seconds until the next attempt.
\<close>

theorem backend_tick_bounds:
  assumes "Backend_Tick init_ok now c = Some (out, d)"
  shows "State d \<notin> {Unspecified, Closing} \<and>
    (State d \<in> {Connecting, Connected, Challenging} \<longrightarrow> now - ConnectionStartTimestampMS d < 5000) \<and>
    (State d = Ready \<longrightarrow> now - LastKeepAliveTimestampMS d < 65000 \<and> now - LastRequestKeepAliveTimestampMS d < 60000) \<and>
    (State d = SetupReady \<longrightarrow> sint (now - ConnectionStartTimestampMS d) < 3000)"
  using assms
  by (cases "State c") (auto simp: Backend_Tick_def Backend_OnTick_def check_and_reconnect_def Let_def not_le
      MinRequestKeepAliveTimeoutMS_def MinKeepAliveTimeoutMS_def MinConnectionTimeoutMS_def MinReconnectTimeoutMS_def split: if_splits)

lemma backend_tick_bounds_witness:
  "Backend_Tick True 10000 demo_backend = Some ([OpenConnection (RefNone 0)], demo_connecting) \<and> 10000 - ConnectionStartTimestampMS demo_connecting < 5000"
proof -
  have t: "Backend_Tick True 10000 demo_backend = Some ([OpenConnection (RefNone 0)], demo_connecting)"
    by (simp add: Backend_Tick_def Backend_OnTick_def check_and_reconnect_def demo_backend_def demo_connecting_def MinReconnectTimeoutMS_def)
  have "State demo_connecting = Connecting" by (simp add: demo_connecting_def)
  with backend_tick_bounds [OF t] t show ?thesis by simp
qed

text \<open>
  C30: The bytes of the backend drive the connection to the same state and the same actions however they are cut into
  pieces by the network.
\<close>

theorem backend_pieces:
  assumes "packet_format hdr parse"
  shows "map_option snd (feed hdr parse (backend_handle env) [] Ds ([], c)) = map_option snd (Backend_OnData env hdr parse (concat Ds) c)"
  unfolding packet_format.feed_all [OF assms] Backend_OnData_def by (auto split: option.splits)

lemma backend_pieces_witness:
  "map_option snd (feed 15 ref_parse (backend_handle demo_env) [] [[16, 0], [1]] ([], demo_backend)) =
    map_option snd (Backend_OnData demo_env 15 ref_parse [16, 0, 1] demo_backend)"
  using backend_pieces [OF ref_packets.packet_format_axioms, of demo_env "[[16, 0], [1]]" demo_backend] by simp

text \<open>
  A server of the backend pool is challenged with its own key and secret the first time; when its connection is
  lost and made again, it is challenged with an empty key and secret, and nothing but a second \<^verbatim>\<open>AddServer\<close> puts them
  back.
\<close>

theorem pool_reconnect_without_key:
  assumes i: "i < length L" and a: "Pool_AddServer (Some i) Key Secret L = Some (r, M)"
  shows "Pool_OnServerConnected env now i M = Some (challenge_bytes env now Key Secret) \<and>
    (\<exists>N. Pool_OnServerClose i M = Some N \<and> Pool_OnServerConnected env later i N = Some (challenge_bytes env later [] []) \<and>
      (\<forall>P. \<exists>ok N'. Pool_OnServerPacket env i Cmd_BackendChallengeResp 0 P N = Some (ok, [], N') \<and>
        Pool_OnServerConnected env later i N' = Some (challenge_bytes env later [] [])))"
proof -
  have M: "M = L[i := (L ! i)\<lparr>ContextAppKey := Key, ContextAppSecret := Secret\<rparr>]" using i a by (simp add: Pool_AddServer_def at_context_def)
  let ?N = "M[i := fresh_context]"
  have l: "i < length M" "i < length ?N" using i by (simp_all add: M)
  have "\<exists>ok N'. Pool_OnServerPacket env i Cmd_BackendChallengeResp 0 P ?N = Some (ok, [], N') \<and>
        Pool_OnServerConnected env later i N' = Some (challenge_bytes env later [] [])" for P
  proof (cases "des_xBackendChallengeResp (be_wire env) P")
    case None
    show ?thesis by (rule exI [of _ False], rule exI [of _ ?N])
        (use l None in \<open>simp add: Pool_OnServerPacket_def Pool_OnCmdBackendChallengeResp_def Pool_OnServerConnected_def at_context_def fresh_context_def\<close>)
  next
    case (Some R)
    show ?thesis by (rule exI [of _ True], rule exI [of _ "?N[i := fresh_context\<lparr>IsChallengeReady := True\<rparr>]"])
        (use l Some in \<open>simp add: Pool_OnServerPacket_def Pool_OnCmdBackendChallengeResp_def Pool_OnServerConnected_def at_context_def fresh_context_def\<close>)
  qed
  then show ?thesis using l i
    by (intro conjI exI [of _ ?N]) (simp_all add: Pool_OnServerConnected_def Pool_OnServerClose_def at_context_def M fresh_context_def)
qed

lemma pool_reconnect_without_key_witness:
  "Pool_AddServer (Some 0) [1] [2] (Pool_Init 1) = Some (Some 0, [\<lparr>ContextAppKey = [1], ContextAppSecret = [2], IsChallengeReady = False\<rparr>]) \<and>
    Pool_OnServerConnected demo_env 5 0 [\<lparr>ContextAppKey = [1], ContextAppSecret = [2], IsChallengeReady = False\<rparr>] =
      Some (challenge_bytes demo_env 5 [1] [2])"
proof -
  have a: "Pool_AddServer (Some 0) [1] [2] (Pool_Init 1) = Some (Some 0, [\<lparr>ContextAppKey = [1], ContextAppSecret = [2], IsChallengeReady = False\<rparr>])"
    by (simp add: Pool_AddServer_def at_context_def Pool_Init_def fresh_context_def)
  have "0 < length (Pool_Init 1)" by (simp add: Pool_Init_def)
  from pool_reconnect_without_key [OF this a, of demo_env 5] a show ?thesis by blast
qed

text \<open>The error code of the backend's answer is not looked at: an answer that refuses the challenge makes the connection ready.\<close>

lemma refusal_makes_ready:
  assumes "wire_codec (be_wire env)" "State c = Challenging"
  shows "State (snd (snd (Backend_OnPacket env Cmd_BackendChallengeResp 0
    (ser_xBackendChallengeResp (be_wire env) (xBackendChallengeResp.make (error_code INVALID_AUTHENTICATION))) ([], c)))) = Ready"
  using wire_codec.ser_des_xBackendChallengeResp [OF assms(1), of "xBackendChallengeResp.make (error_code INVALID_AUTHENTICATION)" "[]"] assms(2)
  by (simp add: Backend_OnPacket_def OnCmdBackendChallengeResp_def)

end
