(* ===== verification/Crypto.thy ===== *)
theory Crypto
  imports Prelude
begin

text \<open>
  \<^verbatim>\<open>src/cpp/src_lib_protocol/pp_protocol/crypto.cpp\<close>: \<^verbatim>\<open>Encrypt\<close> and \<^verbatim>\<open>Decrypt\<close> run AES over the blocks of a padded message.
  The block cipher is \<^verbatim>\<open>mbedtls\<close>, a parameter: \<open>aes_enc\<close> and \<open>aes_dec\<close> take the key bytes that \<^verbatim>\<open>setkey\<close> reads (128 bits)
  and one block. \<open>None\<close> is the failing assertion on the size of the key.
\<close>

record aes_ops =
  aes_enc :: "bytes \<Rightarrow> bytes \<Rightarrow> bytes"
  aes_dec :: "bytes \<Rightarrow> bytes \<Rightarrow> bytes"

text \<open>The two loops: \<open>n\<close> blocks from the front of \<open>Src\<close>, one after the other.\<close>

fun ecb :: "(bytes \<Rightarrow> bytes) \<Rightarrow> nat \<Rightarrow> bytes \<Rightarrow> bytes" where
  "ecb f 0 Src = []"
| "ecb f (Suc n) Src = f (take 16 Src) @ ecb f n (drop 16 Src)"

definition Encrypt :: "aes_ops \<Rightarrow> bytes \<Rightarrow> bytes \<Rightarrow> bytes option" where
  "Encrypt aes Data AesKey =
     (if length AesKey \<noteq> 128 then None
      else let Blocks = (length Data + 16) div 16; Len = Blocks * 16; PaddingLength = Len - length Data in
        Some (ecb (aes_enc aes (take 16 AesKey)) Blocks (Data @ replicate PaddingLength (word_of_nat PaddingLength))))"

definition Decrypt :: "aes_ops \<Rightarrow> bytes \<Rightarrow> bytes \<Rightarrow> bytes option" where
  "Decrypt aes Data AesKey =
     (if length AesKey \<noteq> 128 then None
      else if length Data = 0 \<or> length Data mod 16 \<noteq> 0 then Some []
      else let R = ecb (aes_dec aes (take 16 AesKey)) (length Data div 16) Data; padding = unat (R ! (length Data - 1)) in
        if length Data < padding then Some [] else Some (take (length Data - padding) R))"

subsection \<open>Blocks\<close>

lemma ecb_length: "(\<And>b. length b = 16 \<Longrightarrow> length (f b) = 16) \<Longrightarrow> length s = 16 * n \<Longrightarrow> length (ecb f n s) = 16 * n"
  by (induction n arbitrary: s) auto

lemma ecb_inverse:
  assumes len: "\<And>b. length b = 16 \<Longrightarrow> length (f b) = 16" and inv: "\<And>b. length b = 16 \<Longrightarrow> g (f b) = b"
  shows "length s = 16 * n \<Longrightarrow> ecb g n (ecb f n s) = s"
proof (induction n arbitrary: s)
  case (Suc n)
  have "length (take 16 s) = 16" "length (drop 16 s) = 16 * n" using Suc.prems by auto
  then show ?case using Suc.IH [of "drop 16 s"] len [of "take 16 s"] inv [of "take 16 s"] by simp
qed simp

lemma blocks_bound: "length D < (length D + 16) div 16 * 16" "(length D + 16) div 16 * 16 \<le> length D + 16"
  by linarith+

subsection \<open>Properties\<close>

text \<open>
  C31: With a block cipher whose decryption undoes its encryption, every message that is encrypted is longer, a whole number of
  blocks, and decrypts to itself under the same key; both need a key of 128 bytes, of which the first sixteen count.
\<close>

theorem encrypt_decrypt:
  assumes len: "\<And>k b. length b = 16 \<Longrightarrow> length (aes_enc aes k b) = 16"
    and inv: "\<And>k b. length b = 16 \<Longrightarrow> aes_dec aes k (aes_enc aes k b) = b"
    and key: "length AesKey = 128" "length Other = 128" "take 16 Other = take 16 AesKey"
  shows "\<exists>E. Encrypt aes Data AesKey = Some E \<and> Decrypt aes E Other = Some Data \<and> length E mod 16 = 0 \<and>
    length Data < length E \<and> length E \<le> length Data + 16"
proof -
  define n where "n = (length Data + 16) div 16"
  define p where "p = n * 16 - length Data"
  have p: "0 < p" "p \<le> 16" "length Data + p = 16 * n" using blocks_bound [of Data] unfolding n_def p_def by linarith+
  define M where "M = Data @ replicate p (word_of_nat p)"
  define E where "E = ecb (aes_enc aes (take 16 AesKey)) n M"
  have M: "length M = 16 * n" by (simp add: M_def p(3))
  have E: "length E = 16 * n" unfolding E_def by (rule ecb_length [OF len M])
  have enc: "Encrypt aes Data AesKey = Some E"
    by (simp add: Encrypt_def key(1) Let_def n_def [symmetric] p_def [symmetric] M_def [symmetric] E_def)
  have dec: "ecb (aes_dec aes (take 16 AesKey)) n E = M"
    unfolding E_def by (rule ecb_inverse [OF len inv M])
  have "16 * n - 1 = length Data + (p - 1)" using p by linarith
  then have last: "M ! (16 * n - 1) = word_of_nat p" using p(1) by (simp only: M_def nth_append_length_plus) simp
  have pad: "unat (word_of_nat p :: byte) = p" using p(2) by (intro unat_of_nat_small) simp
  have "0 < n" using p by auto
  then have c: "length E div 16 = n" "length E mod 16 = 0" "length E \<noteq> 0" "\<not> length E < p" using E p(3) by auto
  have lp: "unat (M ! (length E - 1)) = p" by (simp only: E last pad)
  have "Decrypt aes E Other = Some (take (length E - p) M)"
    unfolding Decrypt_def Let_def key(3) c(1) dec lp by (simp add: key(2) c(2-4))
  also have "take (length E - p) M = Data" using p(3) by (simp add: E M_def)
  finally show ?thesis using enc E p by (intro exI [of _ E]) auto
qed

definition demo_aes :: aes_ops where
  "demo_aes = \<lparr>aes_enc = (\<lambda>k b. map2 (XOR) b k @ drop (length k) b), aes_dec = (\<lambda>k b. map2 (XOR) b k @ drop (length k) b)\<rparr>"

lemma xor_twice: "map2 (XOR) (map2 (XOR) b k @ drop (length k) b) k @ drop (length k) (map2 (XOR) b k @ drop (length k) b) = (b :: bytes)"
proof (induction b arbitrary: k)
  case (Cons x b)
  then show ?case by (cases k) (simp_all add: xor.assoc)
qed simp

lemma encrypt_decrypt_witness:
  "\<exists>E. Encrypt demo_aes [1, 2, 3] (replicate 128 7) = Some E \<and> Decrypt demo_aes E (replicate 16 7 @ replicate 112 0) = Some [1, 2, 3]"
proof -
  have a: "length b = 16 \<Longrightarrow> length (aes_enc demo_aes k b) = 16" for k b by (simp add: demo_aes_def)
  have b: "length b = 16 \<Longrightarrow> aes_dec demo_aes k (aes_enc demo_aes k b) = b" for k b using xor_twice [of b k] by (simp add: demo_aes_def)
  have k: "length (replicate 128 7) = 128" "length (replicate 16 7 @ replicate 112 (0 :: byte)) = 128"
    "take 16 (replicate 16 7 @ replicate 112 (0 :: byte)) = take 16 (replicate 128 7)" by simp_all
  from encrypt_decrypt [of demo_aes "replicate 128 7" "replicate 16 7 @ replicate 112 0" "[1, 2, 3]", OF a b k] show ?thesis by blast
qed

text \<open>
  The padding is not checked: a last byte of zero or above sixteen is taken as it is, so that most alterations of the last block
  decrypt to something.
\<close>

lemma padding_not_checked:
  assumes "length AesKey = 128" "length Data = 16" "unat (aes_dec aes (take 16 AesKey) Data ! 15) = 0" "length (aes_dec aes (take 16 AesKey) Data) = 16"
  shows "Decrypt aes Data AesKey = Some (aes_dec aes (take 16 AesKey) Data)"
proof -
  have "ecb (aes_dec aes (take 16 AesKey)) (length Data div 16) Data = aes_dec aes (take 16 AesKey) Data" using assms(2) by simp
  with assms show ?thesis by (simp add: Decrypt_def Let_def)
qed

end
