(* ===== verification/Protocol.thy ===== *)
theory Protocol
  imports RelayMessages ServiceMessages ReportMessages Commands XelReference
begin

text \<open>
  The messages of the protocol as a whole: what a writer writes its reader reads back, whatever bytes follow, and no
  two messages share a command id.
\<close>

text \<open>
  C32: Every message between devices, relay servers and proxy access servers is read back as it was written, and the reader stops
  where the message ends; strings must fit the encoding and payloads must not be empty where the writer asserts it.
\<close>

theorem relay_messages_round_trip:
  assumes "wire_codec wc"
  shows "(\<forall>m s. des_xTR_CreateConnection wc (ser_xTR_CreateConnection wc m @ s) = Some (m, s)) \<and>
    (\<forall>m s. des_xTR_DestroyConnection wc (ser_xTR_DestroyConnection wc m @ s) = Some (m, s)) \<and>
    (\<forall>m s. des_xTR_ConnectionStateNotify wc (ser_xTR_ConnectionStateNotify wc m @ s) = Some (m, s)) \<and>
    (\<forall>m s. ok_xTR_DnsQuery wc m \<longrightarrow> des_xTR_DnsQuery wc (ser_xTR_DnsQuery wc m @ s) = Some (m, s)) \<and>
    (\<forall>m s. ok_xTR_DnsQueryResp wc m \<longrightarrow> des_xTR_DnsQueryResp wc (ser_xTR_DnsQueryResp wc m @ s) = Some (m, s)) \<and>
    (\<forall>m s. ok_xInitCtrlStream wc m \<longrightarrow> des_xInitCtrlStream wc (ser_xInitCtrlStream wc m @ s) = Some (m, s)) \<and>
    (\<forall>m s. ok_xInitCtrlStreamResp wc m \<longrightarrow> des_xInitCtrlStreamResp wc (ser_xInitCtrlStreamResp wc m @ s) = Some (m, s)) \<and>
    (\<forall>m s. ok_xInitDataStream wc m \<longrightarrow> des_xInitDataStream wc (ser_xInitDataStream wc m @ s) = Some (m, s)) \<and>
    (\<forall>m s. des_xInitDataStreamResp wc (ser_xInitDataStreamResp wc m @ s) = Some (m, s)) \<and>
    (\<forall>m s. ok_xTR_PostData wc m \<longrightarrow> (\<exists>b. ser_xTR_PostData wc m = Some b \<and> des_xTR_PostData wc (b @ s) = Some (m, s))) \<and>
    (\<forall>m s. des_xTR_CreateUdpChannel wc (ser_xTR_CreateUdpChannel wc m @ s) = Some (m, s)) \<and>
    (\<forall>m s. des_xTR_CreateUdpChannelResp wc (ser_xTR_CreateUdpChannelResp wc m @ s) = Some (m, s)) \<and>
    (\<forall>m s. des_xTR_UdpChannelKeepAlive wc (ser_xTR_UdpChannelKeepAlive wc m @ s) = Some (m, s)) \<and>
    (\<forall>m s. des_xTR_UdpChannelClose wc (ser_xTR_UdpChannelClose wc m @ s) = Some (m, s)) \<and>
    (\<forall>m s. ok_xTR_PostUdpData wc m \<longrightarrow> (\<exists>b. ser_xTR_PostUdpData wc m = Some b \<and> des_xTR_PostUdpData wc (b @ s) = Some (m, s))) \<and>
    (\<forall>m s. ok_xPR_Challenge wc m \<longrightarrow> des_xPR_Challenge wc (ser_xPR_Challenge wc m @ s) = Some (m, s)) \<and>
    (\<forall>m s. des_xPR_ChallengeResp wc (ser_xPR_ChallengeResp wc m @ s) = Some (m, s)) \<and>
    (\<forall>m s. ok_xPR_CreateConnection wc m \<longrightarrow> des_xPR_CreateConnection wc (ser_xPR_CreateConnection wc m @ s) = Some (m, s)) \<and>
    (\<forall>m s. des_xPR_DestroyConnection wc (ser_xPR_DestroyConnection wc m @ s) = Some (m, s)) \<and>
    (\<forall>m s. des_xPR_ConnectionStateNotify wc (ser_xPR_ConnectionStateNotify wc m @ s) = Some (m, s)) \<and>
    (\<forall>m s. ok_xPR_PushData wc m \<longrightarrow> des_xPR_PushData wc (ser_xPR_PushData wc m @ s) = Some (m, s))"
  by (intro conjI allI impI;
      rule wire_codec.ser_des_xTR_CreateConnection [OF assms]
      wire_codec.ser_des_xTR_DestroyConnection [OF assms]
      wire_codec.ser_des_xTR_ConnectionStateNotify [OF assms]
      wire_codec.ser_des_xTR_DnsQuery [OF assms]
      wire_codec.ser_des_xTR_DnsQueryResp [OF assms]
      wire_codec.ser_des_xInitCtrlStream [OF assms]
      wire_codec.ser_des_xInitCtrlStreamResp [OF assms]
      wire_codec.ser_des_xInitDataStream [OF assms]
      wire_codec.ser_des_xInitDataStreamResp [OF assms]
      wire_codec.ser_des_xTR_PostData [OF assms]
      wire_codec.ser_des_xTR_CreateUdpChannel [OF assms]
      wire_codec.ser_des_xTR_CreateUdpChannelResp [OF assms]
      wire_codec.ser_des_xTR_UdpChannelKeepAlive [OF assms]
      wire_codec.ser_des_xTR_UdpChannelClose [OF assms]
      wire_codec.ser_des_xTR_PostUdpData [OF assms]
      wire_codec.ser_des_xPR_Challenge [OF assms]
      wire_codec.ser_des_xPR_ChallengeResp [OF assms]
      wire_codec.ser_des_xPR_CreateConnection [OF assms]
      wire_codec.ser_des_xPR_DestroyConnection [OF assms]
      wire_codec.ser_des_xPR_ConnectionStateNotify [OF assms]
      wire_codec.ser_des_xPR_PushData [OF assms];
      assumption?)

lemma relay_messages_round_trip_witness: "\<forall>m s. des_xPR_DestroyConnection ref_wire (ser_xPR_DestroyConnection ref_wire m @ s) = Some (m, s)"
  using relay_messages_round_trip [OF ref_wire_contract] by (elim conjE)

text \<open>
  C33: The messages between the servers of the platform and the backends: what the reader makes of what the writer wrote,
  whatever bytes follow. The first thirty-three messages, the answer to a query for the backends, the hashed request of
  the authentication caches for an id, the report of one device and the two usage reports are read back as they were
  written, where their strings fit the encoding and their lists are shorter than the bound the reader and the writer
  check; the server lists of \<^verbatim>\<open>xPP_Download...ServerListResp\<close> are read back below 125 entries, and a page of relay servers
  is read back as at most one hundred entries from its start index on, with the total and the next start index. The
  exceptions of the protocol are stated as they are: \<^verbatim>\<open>xPP_DeviceInfoUpdate\<close> arrives without its continent, a refused
  \<^verbatim>\<open>xPPB_BackendAuthByUserPassResp\<close> carries its error code alone, \<^verbatim>\<open>xCheckinDnsServer\<close> arrives with the time it was written
  at in place of a zero timestamp, and only within ten minutes of it, \<^verbatim>\<open>xQueryAuditServerListResp\<close> arrives without its
  servers, and the empty \<^verbatim>\<open>xAD_BK_ReportDeviceRelayServerInfoList\<close>, whose writer omits the count, is not read back in
  front of further bytes (those of a count of five). Messages without members transmit nothing and are not part of it.
\<close>

theorem service_messages_round_trip:
  assumes "wire_codec wc"
  shows "(\<forall>m s. des_xPP_AcquireServerId wc (ser_xPP_AcquireServerId wc m @ s) = Some (m, s)) \<and>
    (\<forall>m s. des_xPP_AcquireServerIdResp wc (ser_xPP_AcquireServerIdResp wc m @ s) = Some (m, s)) \<and>
    (\<forall>m s. ok_xQueryAuthCache wc m \<longrightarrow> des_xQueryAuthCache wc (ser_xQueryAuthCache wc m @ s) = Some (m, s)) \<and>
    (\<forall>m s. ok_xQueryAuthCacheResp wc m \<longrightarrow> des_xQueryAuthCacheResp wc (ser_xQueryAuthCacheResp wc m @ s) = Some (m, s)) \<and>
    (\<forall>m s. des_xPP_AcquireDevice wc (ser_xPP_AcquireDevice wc m @ s) = Some (m, s)) \<and>
    (\<forall>m s. des_xPP_AcquireDeviceResp wc (ser_xPP_AcquireDeviceResp wc m @ s) = Some (m, s)) \<and>
    (\<forall>m s. des_xPP_RegisterAuthCacheServer wc (ser_xPP_RegisterAuthCacheServer wc m @ s) = Some (m, s)) \<and>
    (\<forall>m s. des_xPP_RegisterAuditDeviceServer wc (ser_xPP_RegisterAuditDeviceServer wc m @ s) = Some (m, s)) \<and>
    (\<forall>m s. des_xPP_RegisterAuditAccountServer wc (ser_xPP_RegisterAuditAccountServer wc m @ s) = Some (m, s)) \<and>
    (\<forall>m s. des_xPP_RegisterServerResponse wc (ser_xPP_RegisterServerResponse wc m @ s) = Some (m, s)) \<and>
    (\<forall>m s. des_xPP_DownloadAuthCacheServerList wc (ser_xPP_DownloadAuthCacheServerList wc m @ s) = Some (m, s)) \<and>
    (\<forall>m s. des_xPP_DownloadAuditDeviceServerList wc (ser_xPP_DownloadAuditDeviceServerList wc m @ s) = Some (m, s)) \<and>
    (\<forall>m s. des_xPP_DownloadAuditAccountServerList wc (ser_xPP_DownloadAuditAccountServerList wc m @ s) = Some (m, s)) \<and>
    (\<forall>m s. des_xCC_ALL_GetBackendServerList wc (ser_xCC_ALL_GetBackendServerList wc m @ s) = Some (m, s)) \<and>
    (\<forall>m s. ok_xCC_DeviceChallenge wc m \<longrightarrow> des_xCC_DeviceChallenge wc (ser_xCC_DeviceChallenge wc m @ s) = Some (m, s)) \<and>
    (\<forall>m s. ok_xCC_DeviceChallengeResp wc m \<longrightarrow> des_xCC_DeviceChallengeResp wc (ser_xCC_DeviceChallengeResp wc m @ s) = Some (m, s)) \<and>
    (\<forall>m s. des_xCC_PA_GetRelayServerListVersion wc (ser_xCC_PA_GetRelayServerListVersion wc m @ s) = Some (m, s)) \<and>
    (\<forall>m s. des_xCC_PA_GetRelayServerListVersionResp wc (ser_xCC_PA_GetRelayServerListVersionResp wc m @ s) = Some (m, s)) \<and>
    (\<forall>m s. des_xCC_PA_DownloadRelayServerList wc (ser_xCC_PA_DownloadRelayServerList wc m @ s) = Some (m, s)) \<and>
    (\<forall>m s. des_x_AC_CC_AllocServerIdResp wc (ser_x_AC_CC_AllocServerIdResp wc m @ s) = Some (m, s)) \<and>
    (\<forall>m s. ok_xRegisterAuditServer wc m \<longrightarrow> des_xRegisterAuditServer wc (ser_xRegisterAuditServer wc m @ s) = Some (m, s)) \<and>
    (\<forall>m s. des_xRegisterAuditServerResp wc (ser_xRegisterAuditServerResp wc m @ s) = Some (m, s)) \<and>
    (\<forall>m s. des_xRegisterRelayServerResp wc (ser_xRegisterRelayServerResp wc m @ s) = Some (m, s)) \<and>
    (\<forall>m s. des_xSetMaxAuditIdResp wc (ser_xSetMaxAuditIdResp wc m @ s) = Some (m, s)) \<and>
    (\<forall>m s. des_xRegisterErrorReportServerResp wc (ser_xRegisterErrorReportServerResp wc m @ s) = Some (m, s)) \<and>
    (\<forall>m s. des_xSetMaxAuditId wc (ser_xSetMaxAuditId wc m @ s) = Some (m, s)) \<and>
    (\<forall>m s. des_xCheckinDnsServerResp wc (ser_xCheckinDnsServerResp wc m @ s) = Some (m, s)) \<and>
    (\<forall>m s. ok_xHostQueryReq wc m \<longrightarrow> des_xHostQueryReq wc (ser_xHostQueryReq wc m @ s) = Some (m, s)) \<and>
    (\<forall>m s. des_xHostQueryResp wc (ser_xHostQueryResp wc m @ s) = Some (m, s)) \<and>
    (\<forall>m s. des_xGroupedMessage wc (ser_xGroupedMessage wc m @ s) = Some (m, s)) \<and>
    (\<forall>m s. ok_xBackendChallenge wc m \<longrightarrow> des_xBackendChallenge wc (ser_xBackendChallenge wc m @ s) = Some (m, s)) \<and>
    (\<forall>m s. des_xBackendChallengeResp wc (ser_xBackendChallengeResp wc m @ s) = Some (m, s)) \<and>
    (\<forall>m s. ok_xPPB_BackendAuthByUserPass wc m \<longrightarrow> des_xPPB_BackendAuthByUserPass wc (ser_xPPB_BackendAuthByUserPass wc m @ s) = Some (m, s)) \<and>
    (\<forall>A s. length A < 2 ^ 32 \<longrightarrow>
      des_xCC_ALL_GetBackendServerListResp wc (ser_xCC_ALL_GetBackendServerListResp wc A @ s) = Some (A, s)) \<and>
    (\<forall>md5 raw t s. 16 \<le> w_str_max wc \<longrightarrow>
      des_x_AC_CC_AllocServerId wc md5 raw (ser_x_AC_CC_AllocServerId wc md5 raw t @ s) = Some (t, s)) \<and>
    (\<forall>m s. length (xAD_BK_DeviceInfo.DeviceUuid (DeviceInfo m)) \<le> w_str_max wc \<longrightarrow>
      des_xAD_BK_ReportDeviceInfoSingle wc (ser_xAD_BK_ReportDeviceInfoSingle wc m @ s) = Some (m, s)) \<and>
    (\<forall>m s. length (AuditList m) < 50 \<longrightarrow>
      (\<exists>b. ser_xAD_BK_ReportUsageByAuditList wc m = Some b \<and>
        des_xAD_BK_ReportUsageByAuditList wc (b @ s) = Some (m, s))) \<and>
    (\<forall>m s. length (UsageList m) < 20 \<longrightarrow>
      (\<forall>U \<in> set (UsageList m). length (xThirdAccountUsage.ThirdAccountSourceName U) \<le> w_str_max wc) \<longrightarrow>
      (\<exists>b. ser_xAD_BK_ReportUsageByThirdAccountList wc m = Some b \<and>
        des_xAD_BK_ReportUsageByThirdAccountList wc (b @ s) = Some (m, s))) \<and>
    (\<forall>m s. length (xPP_DownloadAuthCacheServerListResp.ServerInfoList m) < 125 \<longrightarrow>
      des_xPP_DownloadAuthCacheServerListResp wc (ser_xPP_DownloadAuthCacheServerListResp wc m @ s) = Some (m, s)) \<and>
    (\<forall>m s. length (xPP_DownloadAuditDeviceServerListResp.ServerInfoList m) < 125 \<longrightarrow>
      des_xPP_DownloadAuditDeviceServerListResp wc (ser_xPP_DownloadAuditDeviceServerListResp wc m @ s) = Some (m, s)) \<and>
    (\<forall>m s. length (xPP_DownloadAuditAccountServerListResp.ServerInfoList m) < 125 \<longrightarrow>
      des_xPP_DownloadAuditAccountServerListResp wc (ser_xPP_DownloadAuditAccountServerListResp wc m @ s) = Some (m, s)) \<and>
    (\<forall>m i s. length (TotalServerList m) < 2 ^ 31 \<longrightarrow> i < length (TotalServerList m) \<longrightarrow>
      xCC_PA_DownloadRelayServerListRespWriter.StartIndex m = word_of_nat i \<longrightarrow>
      (\<exists>b r. ser_xCC_PA_DownloadRelayServerListRespWriter wc m = Some b \<and>
        des_xCC_PA_DownloadRelayServerListRespReader wc (b @ s) = Some (r, s) \<and>
        xCC_PA_DownloadRelayServerListRespReader.Version r = xCC_PA_DownloadRelayServerListRespWriter.Version m \<and>
        unat (Total r) = length (TotalServerList m) \<and>
        LocalServerList r = take 100 (drop i (TotalServerList m)) \<and>
        unat (GetNextStartIndex r) = i + length (LocalServerList r))) \<and>
    (\<forall>m m0 s. ok_xPP_DeviceInfoUpdate wc m \<longrightarrow>
      des_xPP_DeviceInfoUpdate wc m0 (ser_xPP_DeviceInfoUpdate wc m @ s) =
        Some (m\<lparr>xPP_DeviceInfoUpdate.ContinentId := xPP_DeviceInfoUpdate.ContinentId m0\<rparr>, s)) \<and>
    (\<forall>m m0 s. ok_xPPB_BackendAuthByUserPassResp wc m \<longrightarrow>
      des_xPPB_BackendAuthByUserPassResp wc m0 (ser_xPPB_BackendAuthByUserPassResp wc m @ s) =
        Some (if xPPB_BackendAuthByUserPassResp.ErrorCode m = 0 then m
              else m0\<lparr>xPPB_BackendAuthByUserPassResp.ErrorCode := xPPB_BackendAuthByUserPassResp.ErrorCode m\<rparr>, s)) \<and>
    (\<forall>h Now Now' m s. length (VersionKey m) \<le> w_str_max wc \<longrightarrow>
      (\<forall>ts. length (checkin_digest h ts (VersionKey m)) \<le> w_str_max wc) \<longrightarrow>
      des_xCheckinDnsServer wc h Now' (ser_xCheckinDnsServer wc h Now m @ s) =
        (let ts = (if UnixTimestamp m = 0 then Now else UnixTimestamp m)
         in if \<bar>sint (Now' - ts)\<bar> \<le> 600000 then Some (m\<lparr>UnixTimestamp := ts\<rparr>, s) else None)) \<and>
    (\<forall>m m0 s. Servers m0 = [] \<longrightarrow>
      des_xQueryAuditServerListResp wc m0 (ser_xQueryAuditServerListResp wc m @ s) = Some (m\<lparr>Servers := []\<rparr>, s)) \<and>
    ser_xAD_BK_ReportDeviceRelayServerInfoList wc [] = Some [] \<and>
    des_xAD_BK_ReportDeviceRelayServerInfoList wc ([] @ w_u16 wc 5) \<noteq> Some ([], w_u16 wc 5)"
  by (intro conjI allI impI;
      rule wire_codec.ser_des_xPP_AcquireServerId [OF assms]
      wire_codec.ser_des_xPP_AcquireServerIdResp [OF assms]
      wire_codec.ser_des_xQueryAuthCache [OF assms]
      wire_codec.ser_des_xQueryAuthCacheResp [OF assms]
      wire_codec.ser_des_xPP_AcquireDevice [OF assms]
      wire_codec.ser_des_xPP_AcquireDeviceResp [OF assms]
      wire_codec.ser_des_xPP_RegisterAuthCacheServer [OF assms]
      wire_codec.ser_des_xPP_RegisterAuditDeviceServer [OF assms]
      wire_codec.ser_des_xPP_RegisterAuditAccountServer [OF assms]
      wire_codec.ser_des_xPP_RegisterServerResponse [OF assms]
      wire_codec.ser_des_xPP_DownloadAuthCacheServerList [OF assms]
      wire_codec.ser_des_xPP_DownloadAuditDeviceServerList [OF assms]
      wire_codec.ser_des_xPP_DownloadAuditAccountServerList [OF assms]
      wire_codec.ser_des_xCC_ALL_GetBackendServerList [OF assms]
      wire_codec.ser_des_xCC_DeviceChallenge [OF assms]
      wire_codec.ser_des_xCC_DeviceChallengeResp [OF assms]
      wire_codec.ser_des_xCC_PA_GetRelayServerListVersion [OF assms]
      wire_codec.ser_des_xCC_PA_GetRelayServerListVersionResp [OF assms]
      wire_codec.ser_des_xCC_PA_DownloadRelayServerList [OF assms]
      wire_codec.ser_des_x_AC_CC_AllocServerIdResp [OF assms]
      wire_codec.ser_des_xRegisterAuditServer [OF assms]
      wire_codec.ser_des_xRegisterAuditServerResp [OF assms]
      wire_codec.ser_des_xRegisterRelayServerResp [OF assms]
      wire_codec.ser_des_xSetMaxAuditIdResp [OF assms]
      wire_codec.ser_des_xRegisterErrorReportServerResp [OF assms]
      wire_codec.ser_des_xSetMaxAuditId [OF assms]
      wire_codec.ser_des_xCheckinDnsServerResp [OF assms]
      wire_codec.ser_des_xHostQueryReq [OF assms]
      wire_codec.ser_des_xHostQueryResp [OF assms]
      wire_codec.ser_des_xGroupedMessage [OF assms]
      wire_codec.ser_des_xBackendChallenge [OF assms]
      wire_codec.ser_des_xBackendChallengeResp [OF assms]
      wire_codec.ser_des_xPPB_BackendAuthByUserPass [OF assms]
      wire_codec.ser_des_xCC_ALL_GetBackendServerListResp [OF assms]
      wire_codec.ser_des_x_AC_CC_AllocServerId [OF assms]
      wire_codec.ser_des_xAD_BK_ReportDeviceInfoSingle [OF assms]
      wire_codec.ser_des_xAD_BK_ReportUsageByAuditList [OF assms]
      wire_codec.ser_des_xPP_DownloadAuthCacheServerListResp [OF assms]
      wire_codec.ser_des_xPP_DownloadAuditDeviceServerListResp [OF assms]
      wire_codec.ser_des_xPP_DownloadAuditAccountServerListResp [OF assms]
      wire_codec.relay_page_round_trip [OF assms]
      wire_codec.ser_des_xPP_DeviceInfoUpdate [OF assms]
      wire_codec.ser_des_xPPB_BackendAuthByUserPassResp [OF assms]
      wire_codec.query_audit_servers_lost [OF assms]
      wire_codec.ser_des_xAD_BK_ReportUsageByThirdAccountList [OF assms]
      wire_codec.ser_des_xCheckinDnsServer [OF assms]
      conjunct1 [OF wire_codec.device_relay_list_count_missing [OF assms]]
      conjunct2 [OF wire_codec.device_relay_list_count_missing [OF assms]];
      (assumption | drule (1) bspec, assumption | drule spec, assumption)?)

lemma service_messages_round_trip_witness: "\<forall>m s. des_xPP_AcquireDevice ref_wire (ser_xPP_AcquireDevice ref_wire m @ s) = Some (m, s)"
  using service_messages_round_trip [OF ref_wire_contract] by (elim conjE)

text \<open>The command ids are pairwise distinct, so that a dispatch on them cannot confuse two messages.\<close>

lemma command_ids_distinct: "distinct command_ids"
  by code_simp

end
