(* ===== verification/RelayClients.thy ===== *)
theory RelayClients
  imports ClientManager
begin

text \<open>
  The relay servers as the proxy access server sees them: \<^verbatim>\<open>xPATest_RCM\<close> and \<^verbatim>\<open>xPA_RelayClient\<close>
  (\<^verbatim>\<open>src/cpp/src_app/server_proxy_access/test_relay_connection_manager.cpp\<close>, \<^verbatim>\<open>.hpp\<close>). Despite the name this is the
  manager that every handler of a client connection uses: it finds the connection to a relay server by the id
  of the server, and hands what the server sends to the client connection manager.
\<close>

subsection \<open>The connections\<close>

text \<open>The client class of the library: \<^verbatim>\<open>Init\<close> and \<^verbatim>\<open>Tick\<close> of one connection.\<close>

record ('c, 'a) client_lib =
  xc_init :: "'a \<Rightarrow> 'c option"
  xc_tick :: "u64 \<Rightarrow> 'c \<Rightarrow> 'c"

record 'c xPATest_RCM =
  ClientMap :: "u64 \<rightharpoonup> 'c"

text \<open>\<open>None\<close> is the failed \<^verbatim>\<open>RuntimeAssert\<close>.\<close>

definition AddRelayServer ::
    "('c, 'a) client_lib \<Rightarrow> u64 \<Rightarrow> 'a \<Rightarrow> 'c xPATest_RCM \<Rightarrow> (bool \<times> 'c xPATest_RCM) option" where
  "AddRelayServer xc ServerId Addr s =
     (if ClientMap s ServerId \<noteq> None then Some (False, s)
      else case xc_init xc Addr of None \<Rightarrow> None
      | Some CP \<Rightarrow> Some (True, s\<lparr>ClientMap := (ClientMap s)(ServerId \<mapsto> CP)\<rparr>))"

definition RCM_GetConnectionById :: "'c xPATest_RCM \<Rightarrow> u64 \<Rightarrow> 'c option" where
  "RCM_GetConnectionById s ServerId = ClientMap s ServerId"

definition RCM_Tick :: "('c, 'a) client_lib \<Rightarrow> u64 \<Rightarrow> 'c xPATest_RCM \<Rightarrow> 'c xPATest_RCM" where
  "RCM_Tick xc NowMS s = s\<lparr>ClientMap := (\<lambda>i. map_option (xc_tick xc NowMS) (ClientMap s i))\<rparr>"

definition RCM_Clean :: "'c xPATest_RCM \<Rightarrow> 'c xPATest_RCM" where
  "RCM_Clean s = s\<lparr>ClientMap := (\<lambda>_. None)\<rparr>"

text \<open>The servers of the configuration, as \<^verbatim>\<open>main\<close> adds them.\<close>

fun add_configured ::
    "('c, 'a) client_lib \<Rightarrow> (u64 \<times> 'a) list \<Rightarrow> 'c xPATest_RCM \<Rightarrow> 'c xPATest_RCM option" where
  "add_configured xc [] s = Some s"
| "add_configured xc ((K, V) # l) s = Option.bind (AddRelayServer xc K V s) (\<lambda>(_, t). add_configured xc l t)"

text \<open>What the handlers of a client connection read of it.\<close>

definition with_relays :: "'c xPATest_RCM \<Rightarrow> 'n pa_env \<Rightarrow> 'n pa_env" where
  "with_relays s env = env\<lparr>relay_up := (\<lambda>i. RCM_GetConnectionById s i \<noteq> None)\<rparr>"

lemma add_configured_map:
  assumes "add_configured xc l s = Some t"
  shows "RCM_GetConnectionById t i = (case RCM_GetConnectionById s i of Some c \<Rightarrow> Some c
     | None \<Rightarrow> Option.bind (map_of l i) (xc_init xc))"
  using assms
proof (induction l arbitrary: s)
  case Nil
  then show ?case by (simp split: option.split)
next
  case (Cons q l)
  obtain K V where q: "q = (K, V)" by (cases q)
  from Cons.prems obtain b u where u: "AddRelayServer xc K V s = Some (b, u)" "add_configured xc l u = Some t"
    by (auto simp: q bind_eq_Some_conv)
  from u(1) Cons.IH [OF u(2)] show ?case
    by (auto simp: q AddRelayServer_def RCM_GetConnectionById_def split: if_splits option.splits)
qed

lemma tick_keeps_relays: "with_relays (RCM_Tick xc NowMS s) env = with_relays s env"
  by (simp add: with_relays_def RCM_Tick_def RCM_GetConnectionById_def)

subsection \<open>Messages\<close>

text \<open>\<^verbatim>\<open>OnServerConnected\<close>: the command, the request id and the payload it posts.\<close>

definition RelayClient_OnServerConnected :: "'x wire \<Rightarrow> u32 \<times> u64 \<times> bytes" where
  "RelayClient_OnServerConnected wc = (Cmd_PA_RL_Challenge, 0, ser_xPR_Challenge wc (xPR_Challenge.make 0 [] []))"

text \<open>
  The \<^verbatim>\<open>PostMessage\<close> calls of the handlers: the relay server, the command and the payload that goes out.
\<close>

fun relay_message :: "'n wire \<Rightarrow> 'n action \<Rightarrow> (u64 \<times> u32 \<times> bytes) option" where
  "relay_message wc (RelayCreate i m) = Some (i, Cmd_PA_RL_CreateConnection, ser_xPR_CreateConnection wc m)"
| "relay_message wc (RelayPush i m) = Some (i, Cmd_PA_RL_PostData, ser_xPR_PushData wc m)"
| "relay_message wc (RelayState i m) = Some (i, Cmd_PA_RL_NotifyConnectionState, ser_xPR_ConnectionStateNotify wc m)"
| "relay_message wc _ = None"

text \<open>\<^verbatim>\<open>OnServerPacket\<close>: it accepts every packet; the state is that of the client connection manager.\<close>

definition RelayClient_OnServerPacket ::
    "'x wire \<Rightarrow> ('p, 'a, 'i, 'k) manager_lib \<Rightarrow> 'n pa_env \<Rightarrow> u32 \<Rightarrow> bytes \<Rightarrow> ('p, 'a, 'i, 'k) client_manager \<Rightarrow>
     (bool \<times> 'n action list \<times> ('p, 'a, 'i, 'k) client_manager) option" where
  "RelayClient_OnServerPacket wc ml env CommandId Payload s =
     (if CommandId = Cmd_PA_RL_Challenge then Some (True, [], s)
      else map_option (Pair True)
       (if CommandId = Cmd_PA_RL_NotifyConnectionState then Manager_OnRelaySideConnectionStateChange wc ml env Payload s
        else if CommandId = Cmd_PA_RL_DestroyConnection then Manager_OnDestroyConnection wc ml env Payload s
        else if CommandId = Cmd_PA_RL_PostData then Manager_OnRelaySidePushData wc ml env Payload s
        else Some ([], s)))"

text \<open>The client connection and the event that a packet of a relay server stands for.\<close>

definition relay_event :: "'x wire \<Rightarrow> u32 \<Rightarrow> bytes \<Rightarrow> (u64 \<times> conn_event) option" where
  "relay_event wc CommandId Payload =
     (if CommandId = Cmd_PA_RL_NotifyConnectionState then
        map_option (\<lambda>(N, _). (xPR_ConnectionStateNotify.ProxySideConnectionId N, EvState N)) (des_xPR_ConnectionStateNotify wc Payload)
      else if CommandId = Cmd_PA_RL_DestroyConnection then
        map_option (\<lambda>(N, _). (xPR_DestroyConnection.ProxySideConnectionId N, EvDestroy)) (des_xPR_DestroyConnection wc Payload)
      else if CommandId = Cmd_PA_RL_PostData then
        map_option (\<lambda>(N, _). (xPR_PushData.ProxySideConnectionId N, EvPush N (length Payload))) (des_xPR_PushData wc Payload)
      else None)"

lemma server_packet_event:
  "RelayClient_OnServerPacket wc ml env Cmd P s =
     (case relay_event wc Cmd P of None \<Rightarrow> Some (True, [], s)
      | Some (i, e) \<Rightarrow> map_option (Pair True) (dispatch ml env i e s))"
proof -
  have "Cmd_PA_RL_Challenge \<noteq> Cmd_PA_RL_NotifyConnectionState" "Cmd_PA_RL_Challenge \<noteq> Cmd_PA_RL_DestroyConnection"
    "Cmd_PA_RL_Challenge \<noteq> Cmd_PA_RL_PostData"
    by (simp_all add: Cmd_PA_RL_Challenge_def Cmd_PA_RL_NotifyConnectionState_def Cmd_PA_RL_DestroyConnection_def
        Cmd_PA_RL_PostData_def command_base_defs)
  then show ?thesis
    by (auto simp: RelayClient_OnServerPacket_def relay_event_def Manager_OnRelaySideConnectionStateChange_def
        Manager_OnDestroyConnection_def Manager_OnRelaySidePushData_def split: option.splits)
qed

subsection \<open>A handler's effect on its connection\<close>

text \<open>The identities and the phase of a connection, which the manager's list operations leave alone.\<close>

definition same_link :: "xPA_ClientConnection \<Rightarrow> xPA_ClientConnection \<Rightarrow> bool" where
  "same_link c d \<longleftrightarrow> ConnectionId c = ConnectionId d \<and> Phase c = Phase d \<and> RelayConnectionId c = RelayConnectionId d \<and>
     RelaySideDeviceId c = RelaySideDeviceId d \<and> RelaySideConn c = RelaySideConn d"

lemma a_fold_link:
  "v_conns v i = Some c \<Longrightarrow> \<exists>d. v_conns (fold (a_perform i) acts v) i = Some d \<and> same_link d c"
proof (induction acts arbitrary: v c)
  case Nil
  then show ?case by (simp add: same_link_def)
next
  case (Cons a acts)
  obtain d where d: "v_conns (a_perform i a v) i = Some d" "same_link d c"
    using Cons.prems by (cases a) (auto simp: same_link_def)
  from Cons.IH [OF d(1)] d(2) show ?case by (auto simp: same_link_def)
qed

lemma a_dispatch_link:
  assumes "v_conns v i = Some c" "handle env c e = Some (acts, c')"
  shows "\<exists>w d. a_dispatch env i e v = Some (acts, w) \<and> v_conns w i = Some d \<and> same_link d c'"
proof -
  have "v_conns (a_update i (\<lambda>_. c') v) i = Some c'" using assms(1) by simp
  from a_fold_link [OF this, of acts] show ?thesis using assms by (simp add: a_dispatch_def)
qed

context client_manager_env begin

lemma dispatch_link:
  assumes "GetConnectionById ml s i = Some c" "handle env c e = Some (acts, c')"
  shows "\<exists>t d. dispatch ml env i e s = Some (acts, t) \<and> GetConnectionById ml t i = Some d \<and> same_link d c'"
proof -
  have "v_conns (view s) i = Some c" using assms(1) by (simp add: view_of_def)
  from a_dispatch_link [OF this assms(2)] view_dispatch [of env i e s]
  show ?thesis by (fastforce simp: view_of_def)
qed

end

end
