(* ===== verification/ProxiedSession.thy ===== *)
theory ProxiedSession
  imports RelayClients RelayPath "HOL-Library.Sublist"
begin

text \<open>
  A proxied session across two servers: the client connection manager of the proxy access server
  (ClientManager, RelayClients) and the device relay server (DeviceRelay), joined by the two packet queues of
  one relay connection. The session is opened by a client's request, a relay context and the confirmation of the
  device; from then on it is a pair of byte streams.
\<close>

subsection \<open>The two servers and what lies between them\<close>

text \<open>
  \<open>to_relay\<close> and \<open>to_proxy\<close> are the packets in flight. The last four fields record what the
  client and the device have sent and received so far, the device's data as the list of the payloads it posted.
\<close>

record ('m, 's) world =
  manager :: 'm
  relays :: 's
  to_relay :: "(u32 \<times> bytes) list"
  to_proxy :: "(u32 \<times> bytes) list"
  client_sent :: bytes
  device_got :: bytes
  device_posts :: "bytes list"
  client_got :: bytes

text \<open>The proxy access server may begin with data: the header of a plain HTTP request.\<close>

definition start_world :: "'m \<Rightarrow> 's \<Rightarrow> (u32 \<times> bytes) list \<Rightarrow> bytes \<Rightarrow> ('m, 's) world" where
  "start_world m s l x = \<lparr>manager = m, relays = s, to_relay = l, to_proxy = [], client_sent = x, device_got = [],
     device_posts = [], client_got = []\<rparr>"

text \<open>The packets of the actions that go to the relay server \<open>k\<close>.\<close>

fun posted :: "'n wire \<Rightarrow> u64 \<Rightarrow> 'n action list \<Rightarrow> (u32 \<times> bytes) list" where
  "posted wc k [] = []"
| "posted wc k (a # acts) = (case relay_message wc a of Some (i, Cmd, P) \<Rightarrow> if i = k then [(Cmd, P)] else [] | None \<Rightarrow> [])
     @ posted wc k acts"

definition addressee :: "'n wire \<Rightarrow> u32 \<Rightarrow> bytes \<Rightarrow> u64 option" where
  "addressee wc Cmd P = map_option fst (relay_event wc Cmd P)"

fun told_client :: "'n action list \<Rightarrow> bytes" where
  "told_client [] = []"
| "told_client (a # acts) = (case a of ClientConnection.PostData D \<Rightarrow> D | _ \<Rightarrow> []) @ told_client acts"

text \<open>
  The packets for the proxy connection \<open>j\<close>, and the payload that the data connection \<open>dc\<close> of a device is sent for
  its target connection \<open>ds\<close>.
\<close>

fun to_proxy_link :: "u64 \<Rightarrow> rd_output list \<Rightarrow> (u32 \<times> bytes) list" where
  "to_proxy_link j [] = []"
| "to_proxy_link j (x # out) = (case x of ToProxy i Cmd q P \<Rightarrow> if i = j then [(Cmd, P)] else [] | _ \<Rightarrow> []) @ to_proxy_link j out"

fun told_device :: "'n wire \<Rightarrow> u64 \<Rightarrow> u32 \<Rightarrow> rd_output list \<Rightarrow> bytes" where
  "told_device wc dc ds [] = []"
| "told_device wc dc ds (x # out) = (case x of ToDevice i Cmd q P \<Rightarrow>
       if i = dc \<and> Cmd = Cmd_DV_RL_PostData then
         (case des_xTR_PostData wc P of Some (m, _) \<Rightarrow>
            if xTR_PostData.DeviceSideConnectionId m = ds then xTR_PostData.PayloadView m else [] | None \<Rightarrow> []) else []
     | _ \<Rightarrow> []) @ told_device wc dc ds out"

text \<open>
  Who takes part: the library and address environment of both servers, the id of the relay server, of the client
  connection, of the proxy connection at the relay server, of the device's data connection and of the relay context.
\<close>

record ('p, 'a, 'i, 'k, 'c, 'cl, 'pp, 'pl, 'd, 'dl, 'r, 'n) session =
  ss_ml :: "('p, 'a, 'i, 'k) manager_lib"
  ss_lib :: "('c, 'cl, 'pp, 'pl, 'd, 'dl, 'r, 'n) rd_lib"
  ss_server :: u64
  ss_client :: u64
  ss_proxy :: u64
  ss_data :: u64
  ss_context :: u64
  ss_remote :: u32 \<comment> \<open>the device's own id of the target connection\<close>

inductive session_net for S E where
  client_bytes: "env \<in> E \<Longrightarrow> dispatch (ss_ml S) env (ss_client S) (EvData D) (manager w) = Some (acts, m) \<Longrightarrow>
    session_net S E w (w\<lparr>manager := m, to_relay := to_relay w @ posted (rl_wire (ss_lib S)) (ss_server S) acts,
      client_sent := client_sent w @ D\<rparr>)"
| relay_takes: "to_relay w = (Cmd, P) # rest \<Longrightarrow>
    OnPacket (ss_lib S) (ProxyLink (ss_proxy S)) Cmd 0 P (relays w) = Inr (True, out, s) \<Longrightarrow>
    session_net S E w (w\<lparr>relays := s, to_relay := rest, to_proxy := to_proxy w @ to_proxy_link (ss_proxy S) out,
      device_got := device_got w @ told_device (rl_wire (ss_lib S)) (ss_data S) (ss_remote S) out\<rparr>)"
| device_bytes: "D \<noteq> [] \<Longrightarrow> length D \<le> w_str_max (rl_wire (ss_lib S)) \<Longrightarrow>
    OnPacket (ss_lib S) (DeviceLink (ss_data S)) Cmd_DV_RL_PostData 0
      (the (ser_xTR_PostData (rl_wire (ss_lib S)) (xTR_PostData.make (ss_remote S) (ss_context S) D))) (relays w) =
      Inr (True, out, s) \<Longrightarrow>
    session_net S E w (w\<lparr>relays := s, to_proxy := to_proxy w @ to_proxy_link (ss_proxy S) out,
      device_got := device_got w @ told_device (rl_wire (ss_lib S)) (ss_data S) (ss_remote S) out, device_posts := device_posts w @ [D]\<rparr>)"
| device_report: "OnPacket (ss_lib S) (DeviceLink (ss_data S)) Cmd_DV_RL_NotifyConnectionState 0
      (ser_xTR_ConnectionStateNotify (rl_wire (ss_lib S))
        (xTR_ConnectionStateNotify.make (ss_remote S) (ss_context S) STATE_UPDATE_TRANSFER u v)) (relays w) = Inr (True, out, s) \<Longrightarrow>
    session_net S E w (w\<lparr>relays := s, to_proxy := to_proxy w @ to_proxy_link (ss_proxy S) out,
      device_got := device_got w @ told_device (rl_wire (ss_lib S)) (ss_data S) (ss_remote S) out\<rparr>)"
| proxy_takes: "to_proxy w = (Cmd, P) # rest \<Longrightarrow> env \<in> E \<Longrightarrow>
    RelayClient_OnServerPacket (rl_wire (ss_lib S)) (ss_ml S) env Cmd P (manager w) = Some (True, acts, m) \<Longrightarrow>
    session_net S E w (w\<lparr>manager := m, to_proxy := rest,
      to_relay := to_relay w @ posted (rl_wire (ss_lib S)) (ss_server S) acts,
      client_got := client_got w @ (if addressee (rl_wire (ss_lib S)) Cmd P = Some (ss_client S) then told_client acts else [])\<rparr>)"

text \<open>
  The payloads of a device that the relay server can pass on: the \<^verbatim>\<open>xPR_PushData\<close> it makes of one has a wider id at
  its head than the device's \<^verbatim>\<open>xTR_PostData\<close>, and has to fit the packet buffer of \<^verbatim>\<open>PostMessage\<close>.
\<close>

definition passes :: "('p, 'a, 'i, 'k, 'c, 'cl, 'pp, 'pl, 'd, 'dl, 'r, 'n) session \<Rightarrow> bytes \<Rightarrow> bool" where
  "passes S D \<longleftrightarrow> rl_fits (ss_lib S) (ser_xPR_PushData (rl_wire (ss_lib S)) (xPR_PushData.make (ss_client S) (ss_context S) D))"

definition passed :: "('p, 'a, 'i, 'k, 'c, 'cl, 'pp, 'pl, 'd, 'dl, 'r, 'n) session \<Rightarrow> bytes list \<Rightarrow> bytes" where
  "passed S l = concat (filter (passes S) l)"

lemma passed_simps [simp]: "passed S [] = []" "passed S (l @ [D]) = passed S l @ (if passes S D then D else [])"
  by (simp_all add: passed_def)

text \<open>The session is open at both servers.\<close>

definition client_open :: "('p, 'a, 'i, 'k, 'c, 'cl, 'pp, 'pl, 'd, 'dl, 'r, 'n) session \<Rightarrow> ('p, 'a, 'i, 'k) client_manager \<Rightarrow> bool" where
  "client_open S m \<longleftrightarrow> (\<exists>c. ClientManager.GetConnectionById (ss_ml S) m (ss_client S) = Some c \<and> stage c = Established \<and>
     xPA_ClientConnection.ConnectionId c = ss_client S \<and> RelayConnectionId c = ss_server S \<and> RelaySideConn c = ss_context S)"

definition relay_open where
  "relay_open S itC itP s \<longleftrightarrow> server_ok (ss_lib S) itC itP s \<and>
     (\<exists>RC D. relay (ss_lib S) s (ss_context S) = Some RC \<and> xRD_RelayConnectionContext.ProxySideConnectionId RC = ss_client S \<and>
       ProxyConnectionId RC = ss_proxy S \<and> ucast (PortOrDeviceSide RC) = ss_remote S \<and>
       GetDeviceById (ss_lib S) s (xRD_RelayConnectionContext.DeviceId RC) = Some D \<and> DataConnection D = Some (ss_data S)) \<and>
     (\<exists>d. dconn (ss_lib S) s (ss_data S) = Some d \<and> IsType_Data (xRD_DeviceConnection.Flags d)) \<and>
     pconn (ss_lib S) s (ss_proxy S) \<noteq> None"

subsection \<open>The client's side\<close>

text \<open>
  What an open session may have in flight: its own data, in payloads of at most \<open>n\<close> bytes, and traffic reports.
  The proxy access server keeps to \<open>MAX_PAYLOAD_SIZE\<close>; a device's payload may be as long as the encoding allows.
\<close>

datatype flight = Data bytes | Report u64 u64

fun up_packet :: "'n wire \<Rightarrow> u64 \<Rightarrow> u64 \<Rightarrow> flight \<Rightarrow> u32 \<times> bytes" where
  "up_packet wc p r (Data x) = (Cmd_PA_RL_PostData, ser_xPR_PushData wc (xPR_PushData.make p r x))"
| "up_packet wc p r (Report u d) = (Cmd_PA_RL_NotifyConnectionState,
     ser_xPR_ConnectionStateNotify wc (xPR_ConnectionStateNotify.make p r STATE_UPDATE_TRANSFER u d))"

fun flight_data :: "flight \<Rightarrow> bytes" where "flight_data (Data x) = x" | "flight_data (Report u d) = []"

fun flight_ok :: "nat \<Rightarrow> flight \<Rightarrow> bool" where
  "flight_ok n (Data x) \<longleftrightarrow> x \<noteq> [] \<and> length x \<le> n" | "flight_ok n (Report u d) = True"

definition carries :: "nat \<Rightarrow> 'n wire \<Rightarrow> u64 \<Rightarrow> u64 \<Rightarrow> (u32 \<times> bytes) list \<Rightarrow> bytes \<Rightarrow> bool" where
  "carries n wc p r l x \<longleftrightarrow> (\<exists>f. l = map (up_packet wc p r) f \<and> list_all (flight_ok n) f \<and> concat (map flight_data f) = x)"

lemma carries_Nil [simp]: "carries n wc p r [] x \<longleftrightarrow> x = []"
  by (auto simp: carries_def)

lemma carries_append: "carries n wc p r k x \<Longrightarrow> carries n wc p r l y \<Longrightarrow> carries n wc p r (k @ l) (x @ y)"
  unfolding carries_def by (elim exE conjE) (rule_tac x = "f @ fa" in exI, simp)

lemma carries_Cons:
  assumes "carries n wc p r (q # l) x"
  obtains g y where "q = up_packet wc p r g" "flight_ok n g" "carries n wc p r l y" "x = flight_data g @ y"
proof -
  from assms obtain f where f: "q # l = map (up_packet wc p r) f" "list_all (flight_ok n) f" "concat (map flight_data f) = x"
    unfolding carries_def by (elim exE conjE) (rule that)
  then obtain g h where "f = g # h" by (cases f) auto
  with f show ?thesis by (intro that [of g "concat (map flight_data h)"]) (auto simp: carries_def)
qed

lemma posted_append [simp]: "posted wc k (a @ b) = posted wc k a @ posted wc k b" by (induction a) simp_all

lemma told_client_append [simp]: "told_client (a @ b) = told_client a @ told_client b" by (induction a) simp_all

lemma posted_push_loop:
  shows "carries MAX_PAYLOAD_SIZE wc (xPA_ClientConnection.ConnectionId c) (RelaySideConn c) (posted wc (RelayConnectionId c) (push_loop c D)) D \<and>
    told_client (push_loop c D) = []"
proof (induction c D rule: push_loop.induct)
  case (1 c D)
  let ?n = "min (length D) MAX_PAYLOAD_SIZE"
  show ?case
  proof (cases "D = []")
    case True
    then show ?thesis by (simp add: push_loop.simps)
  next
    case False
    note IH = 1 [OF False refl]
    have f: "flight_ok MAX_PAYLOAD_SIZE (Data (take ?n D))" using False by (simp add: MAX_PAYLOAD_SIZE_def)
    have "carries MAX_PAYLOAD_SIZE wc (xPA_ClientConnection.ConnectionId c) (RelaySideConn c)
        [up_packet wc (xPA_ClientConnection.ConnectionId c) (RelaySideConn c) (Data (take ?n D))] (take ?n D)"
      unfolding carries_def using f by (intro exI [of _ "[Data (take ?n D)]"]) simp
    from carries_append [OF this conjunct1 [OF IH]] conjunct2 [OF IH] False
    show ?thesis by (subst (1 2) push_loop.simps) (simp add: Let_def)
  qed
qed

lemma try_update:
  assumes "TryUpdateDataTransferSize env u d c = (acts, c')" "relay_up env (RelayConnectionId c)"
  shows "carries n wc (xPA_ClientConnection.ConnectionId c) (RelaySideConn c) (posted wc (RelayConnectionId c) acts) [] \<and>
    told_client acts = [] \<and> same_link c' c"
proof -
  have "carries n wc p r [up_packet wc p r (Report u d)] []" for p r u d
    unfolding carries_def by (intro exI [of _ "[Report u d]"]) simp
  then show ?thesis using assms
    by (auto simp: TryUpdateDataTransferSize_def Let_def same_link_def split: if_splits)
qed

lemma client_data:
  assumes "stage c = Established" "relay_up env (RelayConnectionId c)"
  shows "\<exists>acts c'. handle env c (EvData D) = Some (acts, c') \<and> same_link c' c \<and>
    carries MAX_PAYLOAD_SIZE wc (xPA_ClientConnection.ConnectionId c) (RelaySideConn c) (posted wc (RelayConnectionId c) acts) D"
proof -
  obtain a c' where t: "TryUpdateDataTransferSize env (word_of_nat (length D)) 0 c = (a, c')" by fastforce
  note u = try_update [OF t assms(2), of MAX_PAYLOAD_SIZE wc]
  have "ClientConnection.OnData env c D = Some (OnUploadData env c D)"
    using assms(1) by (cases "Phase c") (simp_all add: ClientConnection.OnData_def upload_defs)
  then have h: "handle env c (EvData D) = Some (push_loop c D @ a @ [KeepAlive], c')"
    using t assms(2) by (simp add: handle_def OnUploadData_def)
  have "carries MAX_PAYLOAD_SIZE wc (xPA_ClientConnection.ConnectionId c) (RelaySideConn c)
      (posted wc (RelayConnectionId c) (push_loop c D @ a @ [KeepAlive])) D"
    using carries_append [OF conjunct1 [OF posted_push_loop [of wc c D]] conjunct1 [OF u]] by simp
  with h u show ?thesis by blast
qed

lemma client_push:
  assumes "stage c = Established" "relay_up env (RelayConnectionId c)"
  shows "\<exists>acts c'. handle env c (EvPush M n) = Some (acts, c') \<and> same_link c' c \<and> told_client acts = xPR_PushData.PayloadView M \<and>
    carries MAX_PAYLOAD_SIZE wc (xPA_ClientConnection.ConnectionId c) (RelaySideConn c) (posted wc (RelayConnectionId c) acts) []"
proof -
  obtain a c' where t: "TryUpdateDataTransferSize env 0 (word_of_nat n) c = (a, c')" by fastforce
  from try_update [OF t assms(2), of MAX_PAYLOAD_SIZE wc] show ?thesis using t
    by (simp add: handle_def OnRelaySidePushData_def)
qed

lemma client_report:
  assumes "stage c = Established" "xPR_ConnectionStateNotify.NewState N = STATE_UPDATE_TRANSFER"
  shows "handle env c (EvState N) = Some ([], c)"
  using assms by (cases "Phase c")
    (simp_all add: handle_def OnRelaySideConnectionStateChange_def Let_def STATE_UPDATE_TRANSFER_def STATE_CLOSED_def)

subsection \<open>The relay server's side\<close>

definition same_server where
  "same_server S itC itP s out x y \<longleftrightarrow>
     carries (w_str_max (rl_wire (ss_lib S))) (rl_wire (ss_lib S)) (ss_client S) (ss_context S) (to_proxy_link (ss_proxy S) out) x \<and>
     told_device (rl_wire (ss_lib S)) (ss_data S) (ss_remote S) out = y \<and> relay_open S itC itP s"

lemma relay_up_data:
  assumes w: "wire_codec (rl_wire (ss_lib S))" and fits: "packets_fit (ss_lib S)" and o: "relay_open S itC itP s"
    and n: "MAX_PAYLOAD_SIZE \<le> w_str_max (rl_wire (ss_lib S))" and g: "flight_ok MAX_PAYLOAD_SIZE g"
  shows "\<exists>out. OnPacket (ss_lib S) (ProxyLink (ss_proxy S)) (fst (up_packet (rl_wire (ss_lib S)) (ss_client S) (ss_context S) g)) 0
       (snd (up_packet (rl_wire (ss_lib S)) (ss_client S) (ss_context S) g)) s = Inr (True, out, s) \<and>
     same_server S itC itP s out [] (flight_data g) \<and> to_proxy_link (ss_proxy S) out = []"
proof -
  let ?L = "ss_lib S" and ?wc = "rl_wire (ss_lib S)"
  obtain RC D PA where rc: "relay ?L s (ss_context S) = Some RC" "xRD_RelayConnectionContext.ProxySideConnectionId RC = ss_client S"
      "ucast (PortOrDeviceSide RC) = ss_remote S"
      "GetDeviceById ?L s (xRD_RelayConnectionContext.DeviceId RC) = Some D" "DataConnection D = Some (ss_data S)"
      "dconn ?L s (ss_data S) \<noteq> None" "pconn ?L s (ss_proxy S) = Some PA" and ok: "server_ok ?L itC itP s"
    using o by (auto simp: relay_open_def)
  note live = post_dev_live [OF rc(6)]
  show ?thesis
  proof (cases g)
    case (Data x)
    then have x: "x \<noteq> []" "length x \<le> w_str_max ?wc" "length x \<le> MAX_PAYLOAD_SIZE" using g n by simp_all
    have des: "des_xTR_PostData ?wc (the (ser_xTR_PostData ?wc (xTR_PostData.make a r x))) = Some (xTR_PostData.make a r x, [])" for a r
      using wire_codec.ser_des_xTR_PostData [OF w, of "xTR_PostData.make a r x" "[]"] x
      by (simp add: ser_xTR_PostData_def ok_xTR_PostData_def xTR_PostData.make_def)
    have "OnPacket ?L (ProxyLink (ss_proxy S)) Cmd_PA_RL_PostData 0 (ser_xPR_PushData ?wc (xPR_PushData.make (ss_client S) (ss_context S) x)) s =
        Inr (True, [ToDevice (ss_data S) Cmd_DV_RL_PostData 0 (the (ser_xTR_PostData ?wc (xTR_PostData.make (ss_remote S) (ss_context S) x)))], s)"
      using push_packet [OF w ok rc(7,1,2,4) x(2), of 0] ser_post [OF x(1)] live [OF packets_fitD(2) [OF fits x(1,3)]] rc(3,5) by (metis and_then_simps(2))
    then show ?thesis using o by (simp add: Data same_server_def des) (simp add: xTR_PostData.make_def)
  next
    case (Report u d)
    have des: "des_xPR_ConnectionStateNotify ?wc (ser_xPR_ConnectionStateNotify ?wc N) = Some (N, [])" for N
      using wire_codec.ser_des_xPR_ConnectionStateNotify [OF w, of N "[]"] by simp
    have ne: "Cmd_PA_RL_NotifyConnectionState \<noteq> Cmd_PA_RL_Challenge" "Cmd_PA_RL_NotifyConnectionState \<noteq> Cmd_PA_RL_CreateConnection"
      "Cmd_PA_RL_NotifyConnectionState \<noteq> Cmd_PA_RL_DestroyConnection" "Cmd_PA_RL_NotifyConnectionState \<noteq> Cmd_PA_RL_PostData"
      "Cmd_DV_RL_ProxyClientNotify \<noteq> Cmd_DV_RL_PostData"
      by (simp_all add: relay_command_defs Cmd_DV_RL_ProxyClientNotify_def command_base_defs)
    have "\<exists>P. OnPacket ?L (ProxyLink (ss_proxy S)) Cmd_PA_RL_NotifyConnectionState 0 (ser_xPR_ConnectionStateNotify ?wc
        (xPR_ConnectionStateNotify.make (ss_client S) (ss_context S) STATE_UPDATE_TRANSFER u d)) s =
        Inr (True, [ToDevice (ss_data S) Cmd_DV_RL_ProxyClientNotify 0 P], s)"
      using rc live [OF packets_fitD(4) [OF fits]] ne
      by (simp add: proxy_packet [OF rc(7) server_okD(1) [OF ok]] OnProxyPacket_def OnProxyNotifyConnectionState_def des)
        (simp add: xPR_ConnectionStateNotify.make_def rc live [OF packets_fitD(4) [OF fits]])
    then show ?thesis using o ne(5) by (auto simp: Report same_server_def)
  qed
qed

lemma device_down:
  assumes w: "wire_codec (rl_wire (ss_lib S))" and fits: "packets_fit (ss_lib S)" and o: "relay_open S itC itP s"
  shows "D \<noteq> [] \<Longrightarrow> length D \<le> w_str_max (rl_wire (ss_lib S)) \<Longrightarrow> \<exists>out. OnPacket (ss_lib S) (DeviceLink (ss_data S)) Cmd_DV_RL_PostData 0
      (the (ser_xTR_PostData (rl_wire (ss_lib S)) (xTR_PostData.make (ss_remote S) (ss_context S) D))) s = Inr (True, out, s) \<and>
     same_server S itC itP s out (if passes S D then D else []) [] \<and> (\<not> passes S D \<longrightarrow> out = [])"
    and "\<exists>out. OnPacket (ss_lib S) (DeviceLink (ss_data S)) Cmd_DV_RL_NotifyConnectionState 0
      (ser_xTR_ConnectionStateNotify (rl_wire (ss_lib S))
        (xTR_ConnectionStateNotify.make (ss_remote S) (ss_context S) STATE_UPDATE_TRANSFER u v)) s = Inr (True, out, s) \<and>
     same_server S itC itP s out [] []"
proof -
  let ?L = "ss_lib S" and ?wc = "rl_wire (ss_lib S)"
  obtain RC d where rc: "relay ?L s (ss_context S) = Some RC" "xRD_RelayConnectionContext.ProxySideConnectionId RC = ss_client S"
      "ProxyConnectionId RC = ss_proxy S" "dconn ?L s (ss_data S) = Some d" "IsType_Data (xRD_DeviceConnection.Flags d)"
      "pconn ?L s (ss_proxy S) \<noteq> None" and ok: "server_ok ?L itC itP s"
    using o by (auto simp: relay_open_def)
  have one: "carries (w_str_max ?wc) ?wc p r [up_packet ?wc p r g] (flight_data g)" if "flight_ok (w_str_max ?wc) g" for p r g
    unfolding carries_def using that by (intro exI [of _ "[g]"]) simp
  { assume x: "D \<noteq> []" "length D \<le> w_str_max ?wc"
    show "\<exists>out. OnPacket ?L (DeviceLink (ss_data S)) Cmd_DV_RL_PostData 0
      (the (ser_xTR_PostData ?wc (xTR_PostData.make (ss_remote S) (ss_context S) D))) s = Inr (True, out, s) \<and>
        same_server S itC itP s out (if passes S D then D else []) [] \<and> (\<not> passes S D \<longrightarrow> out = [])"
      using post_packet [OF w ok rc(4,5,1) rc(6) [folded rc(3)] x] o one [of "Data D"] x
      by (cases "passes S D") (simp_all add: post_own_def passes_def rc(2,3) same_server_def) }
  let ?m = "xTR_ConnectionStateNotify.make (ss_remote S) (ss_context S) STATE_UPDATE_TRANSFER u v"
  have des: "des_xTR_ConnectionStateNotify ?wc (ser_xTR_ConnectionStateNotify ?wc ?m) = Some (?m, [])"
    using wire_codec.ser_des_xTR_ConnectionStateNotify [OF w, of ?m "[]"] by simp
  have ne: "STATE_UPDATE_TRANSFER \<noteq> STATE_ESTABLISHED" by (simp add: STATE_UPDATE_TRANSFER_def STATE_ESTABLISHED_def)
  show "\<exists>out. OnPacket ?L (DeviceLink (ss_data S)) Cmd_DV_RL_NotifyConnectionState 0 (ser_xTR_ConnectionStateNotify ?wc ?m) s =
      Inr (True, out, s) \<and> same_server S itC itP s out [] []"
    using rc o ne one [of "Report 0 0"] server_okD(3) [OF ok rc(1)]
    by (auto simp: data_packet [OF rc(4) server_okD(2) [OF ok] rc(5)] OnDataPacket_def OnTerminalTargetConnectionUpdate_def
        des [unfolded xTR_ConnectionStateNotify.make_def] xTR_ConnectionStateNotify.make_def Let_def post_own_def packets_fitD [OF fits] same_server_def)
qed

text \<open>
  \<^verbatim>\<open>OnTerminalPostData\<close> takes no notice of the result of \<^verbatim>\<open>PostMessage\<close>: a payload that does not fit is accepted from
  the device, nothing is posted, and the session goes on with a gap in its data.
\<close>

lemma oversized_payload_lost:
  assumes "wire_codec (rl_wire (ss_lib S))" "packets_fit (ss_lib S)" "relay_open S itC itP s" "D \<noteq> []"
    "length D \<le> w_str_max (rl_wire (ss_lib S))" "\<not> passes S D"
  shows "OnPacket (ss_lib S) (DeviceLink (ss_data S)) Cmd_DV_RL_PostData 0
      (the (ser_xTR_PostData (rl_wire (ss_lib S)) (xTR_PostData.make (ss_remote S) (ss_context S) D))) s = Inr (True, [], s)"
  using device_down(1) [OF assms(1-5)] assms(6) by auto

subsection \<open>An open session stays open\<close>

definition session_env where
  "session_env S E itA itI itK \<longleftrightarrow> client_manager_env (ss_ml S) itA itI itK \<and> wire_codec (rl_wire (ss_lib S)) \<and>
     MAX_PAYLOAD_SIZE \<le> w_str_max (rl_wire (ss_lib S)) \<and> packets_fit (ss_lib S) \<and> (\<forall>env \<in> E. relay_up env (ss_server S))"

definition flow_ok where
  "flow_ok S itC itP w \<longleftrightarrow> client_open S (manager w) \<and> relay_open S itC itP (relays w) \<and>
     (\<exists>x. carries MAX_PAYLOAD_SIZE (rl_wire (ss_lib S)) (ss_client S) (ss_context S) (to_relay w) x \<and> client_sent w = device_got w @ x) \<and>
     (\<exists>y. carries (w_str_max (rl_wire (ss_lib S))) (rl_wire (ss_lib S)) (ss_client S) (ss_context S) (to_proxy w) y \<and>
       passed S (device_posts w) = client_got w @ y)"

text \<open>The two things that happen at the proxy access server.\<close>

lemma client_sends:
  assumes v: "session_env S E itA itI itK" and o: "client_open S m" and e: "env \<in> E"
  shows "\<exists>acts t. dispatch (ss_ml S) env (ss_client S) (EvData D) m = Some (acts, t) \<and> client_open S t \<and>
    carries MAX_PAYLOAD_SIZE (rl_wire (ss_lib S)) (ss_client S) (ss_context S) (posted (rl_wire (ss_lib S)) (ss_server S) acts) D"
proof -
  obtain c where c: "ClientManager.GetConnectionById (ss_ml S) m (ss_client S) = Some c" "stage c = Established"
      "xPA_ClientConnection.ConnectionId c = ss_client S" "RelayConnectionId c = ss_server S" "RelaySideConn c = ss_context S"
    using o unfolding client_open_def by blast
  have env: "client_manager_env (ss_ml S) itA itI itK" "relay_up env (RelayConnectionId c)"
    using v e c(4) by (auto simp: session_env_def)
  obtain acts c' where h: "handle env c (EvData D) = Some (acts, c')" "same_link c' c"
      "carries MAX_PAYLOAD_SIZE (rl_wire (ss_lib S)) (ss_client S) (ss_context S) (posted (rl_wire (ss_lib S)) (ss_server S) acts) D"
    using client_data [OF c(2) env(2), of D "rl_wire (ss_lib S)"] c(3-5) by auto
  from client_manager_env.dispatch_link [OF env(1) c(1) h(1)] h(2,3) c(2-5) show ?thesis
    by (fastforce simp: client_open_def same_link_def)
qed

lemma proxy_receives:
  assumes v: "session_env S E itA itI itK" and o: "client_open S m" and e: "env \<in> E"
    and g: "flight_ok (w_str_max (rl_wire (ss_lib S))) g"
    and P: "up_packet (rl_wire (ss_lib S)) (ss_client S) (ss_context S) g = (Cmd, P)"
  shows "\<exists>acts t. RelayClient_OnServerPacket (rl_wire (ss_lib S)) (ss_ml S) env Cmd P m = Some (True, acts, t) \<and> client_open S t \<and>
    carries MAX_PAYLOAD_SIZE (rl_wire (ss_lib S)) (ss_client S) (ss_context S) (posted (rl_wire (ss_lib S)) (ss_server S) acts) [] \<and>
    told_client acts = flight_data g \<and> addressee (rl_wire (ss_lib S)) Cmd P = Some (ss_client S)"
proof -
  let ?wc = "rl_wire (ss_lib S)"
  obtain c where c: "ClientManager.GetConnectionById (ss_ml S) m (ss_client S) = Some c" "stage c = Established"
      "xPA_ClientConnection.ConnectionId c = ss_client S" "RelayConnectionId c = ss_server S" "RelaySideConn c = ss_context S"
    using o unfolding client_open_def by blast
  have env: "client_manager_env (ss_ml S) itA itI itK" "relay_up env (RelayConnectionId c)" and w: "wire_codec ?wc"
    using v e c(4) by (auto simp: session_env_def)
  have ev: "\<exists>ev. relay_event ?wc Cmd P = Some (ss_client S, ev) \<and> (\<exists>acts c'. handle env c ev = Some (acts, c') \<and> same_link c' c \<and>
      told_client acts = flight_data g \<and> carries MAX_PAYLOAD_SIZE ?wc (ss_client S) (ss_context S) (posted ?wc (ss_server S) acts) [])"
  proof (cases g)
    case (Data x)
    let ?m = "xPR_PushData.make (ss_client S) (ss_context S) x"
    have "des_xPR_PushData ?wc (ser_xPR_PushData ?wc ?m) = Some (?m, [])"
      using wire_codec.ser_des_xPR_PushData [OF w, of ?m "[]"] g Data by (simp add: ok_xPR_PushData_def xPR_PushData.make_def)
    then have "relay_event ?wc Cmd P = Some (ss_client S, EvPush ?m (length P))" using P Data
      by (auto simp: relay_event_def relay_command_defs Cmd_PA_RL_DestroyConnection_def command_base_defs xPR_PushData.make_def)
    then show ?thesis using client_push [OF c(2) env(2), of ?m "length P" ?wc] Data c(3-5) by (simp add: xPR_PushData.make_def)
  next
    case (Report u d)
    let ?m = "xPR_ConnectionStateNotify.make (ss_client S) (ss_context S) STATE_UPDATE_TRANSFER u d"
    have "des_xPR_ConnectionStateNotify ?wc (ser_xPR_ConnectionStateNotify ?wc ?m) = Some (?m, [])"
      using wire_codec.ser_des_xPR_ConnectionStateNotify [OF w, of ?m "[]"] by simp
    then have "relay_event ?wc Cmd P = Some (ss_client S, EvState ?m)" using P Report
      by (auto simp: relay_event_def xPR_ConnectionStateNotify.make_def)
    then show ?thesis using client_report [OF c(2), of ?m env] Report
      by (simp add: same_link_def) (simp add: xPR_ConnectionStateNotify.make_def)
  qed
  then obtain ev acts c' where h: "relay_event ?wc Cmd P = Some (ss_client S, ev)" "handle env c ev = Some (acts, c')" "same_link c' c"
      "told_client acts = flight_data g" "carries MAX_PAYLOAD_SIZE ?wc (ss_client S) (ss_context S) (posted ?wc (ss_server S) acts) []"
    by blast
  from client_manager_env.dispatch_link [OF env(1) c(1) h(2)] h c(2-5) show ?thesis
    by (fastforce simp: client_open_def same_link_def server_packet_event addressee_def)
qed

lemma flow_step:
  assumes v: "session_env S E itA itI itK" and st: "session_net S E w u" and f: "flow_ok S itC itP w"
  shows "flow_ok S itC itP u"
proof -
  let ?wc = "rl_wire (ss_lib S)"
  have w: "wire_codec ?wc" and fits: "packets_fit (ss_lib S)" and n: "MAX_PAYLOAD_SIZE \<le> w_str_max ?wc"
    using v by (simp_all add: session_env_def)
  obtain x y where o: "client_open S (manager w)" "relay_open S itC itP (relays w)"
      "carries MAX_PAYLOAD_SIZE ?wc (ss_client S) (ss_context S) (to_relay w) x" "client_sent w = device_got w @ x"
      "carries (w_str_max ?wc) ?wc (ss_client S) (ss_context S) (to_proxy w) y" "passed S (device_posts w) = client_got w @ y"
    using f unfolding flow_ok_def by blast
  from st show ?thesis
  proof cases
    case (client_bytes env D acts m)
    with client_sends [OF v o(1) client_bytes(2), of D] obtain t where
      "client_open S m" "carries MAX_PAYLOAD_SIZE ?wc (ss_client S) (ss_context S) (posted ?wc (ss_server S) acts) D" by auto
    then show ?thesis unfolding client_bytes(1) flow_ok_def using o carries_append [OF o(3)]
      by (intro conjI exI [of _ "x @ D"] exI [of _ y]) simp_all
  next
    case (relay_takes Cmd P rest out s)
    obtain g z where g: "(Cmd, P) = up_packet ?wc (ss_client S) (ss_context S) g" "flight_ok MAX_PAYLOAD_SIZE g"
        "carries MAX_PAYLOAD_SIZE ?wc (ss_client S) (ss_context S) rest z" "x = flight_data g @ z"
      by (rule carries_Cons [OF o(3) [unfolded relay_takes(2)]])
    from relay_up_data [OF w fits o(2) n g(2)] relay_takes(3)
    have r: "same_server S itC itP (relays w) out [] (flight_data g)" "s = relays w"
      by (auto simp flip: g(1))
    then show ?thesis unfolding relay_takes(1) flow_ok_def using o g(3,4) carries_append [OF o(5), of "to_proxy_link (ss_proxy S) out" "[]"]
      by (intro conjI exI [of _ z] exI [of _ y]) (simp_all add: same_server_def)
  next
    case (device_bytes D out s)
    from device_down(1) [OF w fits o(2) device_bytes(2,3)] device_bytes(4)
    have r: "same_server S itC itP (relays w) out (if passes S D then D else []) []" "s = relays w" by auto
    then show ?thesis unfolding device_bytes(1) flow_ok_def using o carries_append [OF o(5), of "to_proxy_link (ss_proxy S) out" "if passes S D then D else []"]
      by (intro conjI exI [of _ x] exI [of _ "y @ (if passes S D then D else [])"]) (simp_all add: same_server_def)
  next
    case (device_report a b out s)
    from device_down(2) [OF w fits o(2), of a b] device_report(2)
    have r: "same_server S itC itP (relays w) out [] []" "s = relays w" by auto
    then show ?thesis unfolding device_report(1) flow_ok_def using o carries_append [OF o(5), of "to_proxy_link (ss_proxy S) out" "[]"]
      by (intro conjI exI [of _ x] exI [of _ y]) (simp_all add: same_server_def)
  next
    case (proxy_takes Cmd P rest env acts m)
    obtain g z where g: "(Cmd, P) = up_packet ?wc (ss_client S) (ss_context S) g" "flight_ok (w_str_max ?wc) g"
        "carries (w_str_max ?wc) ?wc (ss_client S) (ss_context S) rest z" "y = flight_data g @ z"
      by (rule carries_Cons [OF o(5) [unfolded proxy_takes(2)]])
    from proxy_receives [OF v o(1) proxy_takes(3) g(2) g(1) [symmetric]] proxy_takes(4)
    have r: "client_open S m" "carries MAX_PAYLOAD_SIZE ?wc (ss_client S) (ss_context S) (posted ?wc (ss_server S) acts) []"
      "told_client acts = flight_data g" "addressee ?wc Cmd P = Some (ss_client S)" by auto
    then show ?thesis unfolding proxy_takes(1) flow_ok_def using o g(3,4) carries_append [OF o(3) r(2)]
      by (intro conjI exI [of _ x] exI [of _ z]) simp_all
  qed
qed

lemma flow_run: "(session_net S E)\<^sup>*\<^sup>* w u \<Longrightarrow> session_env S E itA itI itK \<Longrightarrow> flow_ok S itC itP w \<Longrightarrow> flow_ok S itC itP u"
  by (induction rule: rtranclp_induct) (auto dest: flow_step)

text \<open>Whatever is in flight arrives when the servers take their packets.\<close>

lemma drain_relay:
  assumes v: "session_env S E itA itI itK"
  shows "flow_ok S itC itP w \<Longrightarrow> \<exists>u. (session_net S E)\<^sup>*\<^sup>* w u \<and> to_relay u = [] \<and> to_proxy u = to_proxy w \<and>
    client_sent u = client_sent w \<and> device_posts u = device_posts w"
proof (induction "to_relay w" arbitrary: w)
  case Nil
  then show ?case by (intro exI [of _ w]) simp
next
  case (Cons q rest)
  let ?wc = "rl_wire (ss_lib S)"
  have w: "wire_codec ?wc" and fits: "packets_fit (ss_lib S)" and n: "MAX_PAYLOAD_SIZE \<le> w_str_max ?wc" using v by (simp_all add: session_env_def)
  from Cons.prems obtain x where o: "relay_open S itC itP (relays w)" "carries MAX_PAYLOAD_SIZE ?wc (ss_client S) (ss_context S) (q # rest) x"
    using Cons.hyps(2) by (auto simp: flow_ok_def)
  obtain g z where g: "q = up_packet ?wc (ss_client S) (ss_context S) g" "flight_ok MAX_PAYLOAD_SIZE g" by (rule carries_Cons [OF o(2)])
  obtain Cmd P where q: "q = (Cmd, P)" by (cases q)
  from relay_up_data [OF w fits o(1) n g(2)] obtain out where
    out: "OnPacket (ss_lib S) (ProxyLink (ss_proxy S)) Cmd 0 P (relays w) = Inr (True, out, relays w)" "to_proxy_link (ss_proxy S) out = []"
    by (auto simp: q simp flip: g(1))
  let ?u = "w\<lparr>relays := relays w, to_relay := rest, to_proxy := to_proxy w @ to_proxy_link (ss_proxy S) out,
      device_got := device_got w @ told_device ?wc (ss_data S) (ss_remote S) out\<rparr>"
  have st: "session_net S E w ?u"
    using session_net.relay_takes [where E = E, OF Cons.hyps(2) [symmetric, unfolded q] out(1)] .
  from Cons.hyps(1) [of ?u] flow_step [OF v st Cons.prems] obtain u where u: "(session_net S E)\<^sup>*\<^sup>* ?u u" "to_relay u = []"
      "to_proxy u = to_proxy ?u" "client_sent u = client_sent w" "device_posts u = device_posts w" by auto
  from converse_rtranclp_into_rtranclp [OF st u(1)] u(2-5) out(2) show ?case by (intro exI [of _ u]) simp
qed

lemma drain_proxy:
  assumes v: "session_env S E itA itI itK" and e: "env \<in> E"
  shows "flow_ok S itC itP w \<Longrightarrow> \<exists>u. (session_net S E)\<^sup>*\<^sup>* w u \<and> to_proxy u = [] \<and>
    client_sent u = client_sent w \<and> device_posts u = device_posts w"
proof (induction "to_proxy w" arbitrary: w)
  case Nil
  then show ?case by (intro exI [of _ w]) simp
next
  case (Cons q rest)
  let ?wc = "rl_wire (ss_lib S)"
  from Cons.prems obtain x where o: "client_open S (manager w)" "carries (w_str_max ?wc) ?wc (ss_client S) (ss_context S) (q # rest) x"
    using Cons.hyps(2) by (auto simp: flow_ok_def)
  obtain g z where g: "q = up_packet ?wc (ss_client S) (ss_context S) g" "flight_ok (w_str_max ?wc) g" by (rule carries_Cons [OF o(2)])
  obtain Cmd P where q: "q = (Cmd, P)" by (cases q)
  from proxy_receives [OF v o(1) e g(2) g(1) [symmetric, unfolded q]] obtain acts m where
    out: "RelayClient_OnServerPacket ?wc (ss_ml S) env Cmd P (manager w) = Some (True, acts, m)" by blast
  let ?u = "w\<lparr>manager := m, to_proxy := rest, to_relay := to_relay w @ posted ?wc (ss_server S) acts,
      client_got := client_got w @ (if addressee ?wc Cmd P = Some (ss_client S) then told_client acts else [])\<rparr>"
  have st: "session_net S E w ?u"
    using session_net.proxy_takes [where E = E, OF Cons.hyps(2) [symmetric, unfolded q] e out] .
  from Cons.hyps(1) [of ?u] flow_step [OF v st Cons.prems] obtain u where u: "(session_net S E)\<^sup>*\<^sup>* ?u u" "to_proxy u = []"
      "client_sent u = client_sent w" "device_posts u = device_posts w" by auto
  from converse_rtranclp_into_rtranclp [OF st u(1)] u(2-4) show ?case by (intro exI [of _ u]) simp
qed

subsection \<open>Opening a session\<close>

text \<open>The bytes a connection has for its target as soon as that is reached.\<close>

definition early_data :: "xPA_ClientConnection \<Rightarrow> bytes" where
  "early_data c = (if Phase c = eHttpNormalWaitForConnectionEstablish then RebuiltHttpHeader (Http c) else [])"

lemma client_established:
  assumes "stage c = Connecting" "relay_up env (RelayConnectionId c)"
    and N: "xPR_ConnectionStateNotify.NewState N = STATE_ESTABLISHED"
  shows "\<exists>acts c'. handle env c (EvState N) = Some (acts, c') \<and> stage c' = Established \<and>
    xPA_ClientConnection.ConnectionId c' = xPA_ClientConnection.ConnectionId c \<and> RelayConnectionId c' = RelayConnectionId c \<and>
    RelaySideConn c' = xPR_ConnectionStateNotify.RelaySideConnectionId N \<and>
    carries MAX_PAYLOAD_SIZE wc (xPA_ClientConnection.ConnectionId c) (RelaySideConn c') (posted wc (RelayConnectionId c) acts) (early_data c)"
proof -
  let ?i = "xPR_ConnectionStateNotify.RelaySideConnectionId N"
  consider (s5) "Phase c = eS5WaitForConnectionEstablish" | (raw) "Phase c = eHttpRawWaitForConnectionEstablish"
    | (normal) "Phase c = eHttpNormalWaitForConnectionEstablish"
    using assms(1) by (cases "Phase c") auto
  then show ?thesis
  proof cases
    case normal
    let ?c = "establish ?i eHttpNormalReady c"
    have c: "stage ?c = Established" "relay_up env (RelayConnectionId ?c)" using assms(2) by (simp_all add: establish_def)
    obtain a c' where t: "TryUpdateDataTransferSize env (word_of_nat (length (RebuiltHttpHeader (Http ?c)))) 0 ?c = (a, c')" by fastforce
    note u = try_update [OF t c(2), of MAX_PAYLOAD_SIZE wc]
    note l = carries_append [OF conjunct1 [OF posted_push_loop [of wc ?c "RebuiltHttpHeader (Http ?c)"]] conjunct1 [OF u]]
    have "OnRelaySideConnectionStateChange env c N =
        Some (ResumeReading # push_loop ?c (RebuiltHttpHeader (Http ?c)) @ a @ [KeepAlive], c')"
      using normal N t c(2) by (simp add: OnRelaySideConnectionStateChange_def upload_defs OnUploadData_def Let_def)
    then show ?thesis using u l by (simp add: handle_def same_link_def establish_def early_data_def normal)
  qed (use N in \<open>simp_all add: handle_def OnRelaySideConnectionStateChange_def establish_def early_data_def post_literal_def
      literal_lengths Let_def\<close>)
qed

text \<open>A handler that asks for a relay connection.\<close>

lemma client_asks:
  assumes "handle env c e = Some (acts, c')" "(k, R) \<in> set (creations acts)"
  shows "stage c' = Connecting" "k = RelayConnectionId c'" "xPR_CreateConnection.ProxySideConnectionId R = xPA_ClientConnection.ConnectionId c'"
    "(Cmd_PA_RL_CreateConnection, ser_xPR_CreateConnection wc R) \<in> set (posted wc k acts)"
proof -
  have "step_ok c e acts c'" by (rule handle_step [OF assms(1)])
  moreover have "creations acts \<noteq> []" using assms(2) by auto
  ultimately show "stage c' = Connecting" "k = RelayConnectionId c'"
      "xPR_CreateConnection.ProxySideConnectionId R = xPA_ClientConnection.ConnectionId c'"
    using assms(2) by (auto simp: step_ok_def asks_ok_def ids_ok_def split: if_splits)
  show "(Cmd_PA_RL_CreateConnection, ser_xPR_CreateConnection wc R) \<in> set (posted wc k acts)"
    using assms(2) by (induction acts) (auto split: action.splits)
qed

lemma client_confirmed:
  assumes v: "session_env S E itA itI itK" and e: "env \<in> E"
    and m: "ClientManager.GetConnectionById (ss_ml S) m (ss_client S) = Some c" "stage c = Connecting"
      "xPA_ClientConnection.ConnectionId c = ss_client S" "RelayConnectionId c = ss_server S"
  shows "\<exists>acts t. RelayClient_OnServerPacket (rl_wire (ss_lib S)) (ss_ml S) env Cmd_PA_RL_NotifyConnectionState
       (ser_xPR_ConnectionStateNotify (rl_wire (ss_lib S))
         (xPR_ConnectionStateNotify.make (ss_client S) (ss_context S) STATE_ESTABLISHED 0 0)) m = Some (True, acts, t) \<and>
     client_open S t \<and>
     carries MAX_PAYLOAD_SIZE (rl_wire (ss_lib S)) (ss_client S) (ss_context S) (posted (rl_wire (ss_lib S)) (ss_server S) acts) (early_data c)"
proof -
  let ?wc = "rl_wire (ss_lib S)" and ?N = "xPR_ConnectionStateNotify.make (ss_client S) (ss_context S) STATE_ESTABLISHED 0 0"
  have env: "client_manager_env (ss_ml S) itA itI itK" "relay_up env (RelayConnectionId c)"
    and w: "wire_codec ?wc" using v e m(4) by (auto simp: session_env_def)
  have N: "xPR_ConnectionStateNotify.NewState ?N = STATE_ESTABLISHED" "xPR_ConnectionStateNotify.ProxySideConnectionId ?N = ss_client S"
    "xPR_ConnectionStateNotify.RelaySideConnectionId ?N = ss_context S" by (simp_all add: xPR_ConnectionStateNotify.make_def)
  have "des_xPR_ConnectionStateNotify ?wc (ser_xPR_ConnectionStateNotify ?wc ?N) = Some (?N, [])"
    using wire_codec.ser_des_xPR_ConnectionStateNotify [OF w, of ?N "[]"] by simp
  then have ev: "relay_event ?wc Cmd_PA_RL_NotifyConnectionState (ser_xPR_ConnectionStateNotify ?wc ?N) = Some (ss_client S, EvState ?N)"
    using N by (simp add: relay_event_def)
  obtain acts c' where h: "handle env c (EvState ?N) = Some (acts, c')" "stage c' = Established"
      "xPA_ClientConnection.ConnectionId c' = ss_client S" "RelayConnectionId c' = ss_server S" "RelaySideConn c' = ss_context S"
      "carries MAX_PAYLOAD_SIZE ?wc (ss_client S) (ss_context S) (posted ?wc (ss_server S) acts) (early_data c)"
    using client_established [OF m(2) env(2) N(1), of ?wc] N m(3,4) by auto
  from client_manager_env.dispatch_link [OF env(1) m(1) h(1)] ev h(2-6) show ?thesis
    by (fastforce simp: client_open_def same_link_def server_packet_event)
qed

lemma relay_opens:
  assumes r: "relay_env (ss_lib S) itC itP itD ctx0" and w: "wire_codec (rl_wire (ss_lib S))" and fits: "packets_fit (ss_lib S)"
    and s: "server_ok (ss_lib S) itC itP s"
    and R: "ok_xPR_CreateConnection (rl_wire (ss_lib S)) R" "ad_set (ss_lib S) (xPR_CreateConnection.TargetAddress R)"
      "xPR_CreateConnection.ProxySideConnectionId R = ss_client S"
    and D: "GetDeviceById (ss_lib S) s (xPR_CreateConnection.RelaySideDeviceId R) = Some D" "CtrlConnection D = Some cc"
      "dconn (ss_lib S) s cc \<noteq> None" "DataConnection D = Some (ss_data S)" "dconn (ss_lib S) s (ss_data S) = Some d"
      "IsType_Data (xRD_DeviceConnection.Flags d)"
    and j: "pconn (ss_lib S) s (ss_proxy S) \<noteq> None" and ctx: "fst (CreateRelay (ss_lib S) s) = ss_context S" "ss_context S \<noteq> 0"
  shows "\<exists>s1 s2. OnPacket (ss_lib S) (ProxyLink (ss_proxy S)) Cmd_PA_RL_CreateConnection 0 (ser_xPR_CreateConnection (rl_wire (ss_lib S)) R) s =
      Inr (True, [ToDevice cc Cmd_DV_RL_CreateConnection 0 (ser_xTR_CreateConnection (rl_wire (ss_lib S))
        (xTR_CreateConnection.make (ss_context S) (xPR_CreateConnection.TargetAddress R)))], s1) \<and>
    OnPacket (ss_lib S) (DeviceLink (ss_data S)) Cmd_DV_RL_NotifyConnectionState 0
      (ser_xTR_ConnectionStateNotify (rl_wire (ss_lib S))
        (xTR_ConnectionStateNotify.make (ss_remote S) (ss_context S) STATE_ESTABLISHED a b)) s1 =
      Inr (True, [ToProxy (ss_proxy S) Cmd_PA_RL_NotifyConnectionState 0 (ser_xPR_ConnectionStateNotify (rl_wire (ss_lib S))
        (xPR_ConnectionStateNotify.make (ss_client S) (ss_context S) STATE_ESTABLISHED 0 0))], s2) \<and>
    relay_open S itC itP s2"
proof -
  let ?L = "ss_lib S" and ?wc = "rl_wire (ss_lib S)"
  obtain PA where PA: "pconn ?L s (ss_proxy S) = Some PA" using j by auto
  obtain s0 where cr: "CreateRelay ?L s = (ss_context S, s0)" using ctx(1) by (cases "CreateRelay ?L s") auto
  obtain RC s1 where c1: "OnPacket ?L (ProxyLink (ss_proxy S)) Cmd_PA_RL_CreateConnection 0 (ser_xPR_CreateConnection ?wc R) s =
        Inr (True, [ToDevice cc Cmd_DV_RL_CreateConnection 0 (ser_xTR_CreateConnection ?wc
          (xTR_CreateConnection.make (ss_context S) (xPR_CreateConnection.TargetAddress R)))], s1)"
      "server_ok ?L itC itP s1" "relay ?L s1 (ss_context S) = Some RC" "dconn ?L s1 = dconn ?L s" "pconn ?L s1 = pconn ?L s"
      "device ?L s1 = device ?L s" "xRD_RelayConnectionContext.ProxySideConnectionId RC = ss_client S" "ProxyConnectionId RC = ss_proxy S"
      "xRD_RelayConnectionContext.DeviceId RC = xPR_CreateConnection.RelaySideDeviceId R"
    using relay_env.create_packet [OF r w s PA R(1) D(1-3) R(2) packets_fitD(5) [OF fits] cr ctx(2), of 0]
    unfolding R(3) by (elim exE conjE) (rule that)
  let ?RC = "RC\<lparr>PortOrDeviceSide := ucast (ss_remote S)\<rparr>"
  let ?s2 = "put_relay ?L (ss_context S) ?RC s1"
  have put: "relay ?L ?s2 (ss_context S) = Some ?RC" using relay_env.relay_put [OF r, of s1 "ss_context S" ?RC] c1(3) by simp
  have ok: "server_ok ?L itC itP ?s2"
    using relay_env.extends_put_relay [OF r extends_refl [OF c1(2)] c1(3), of ?RC] by (simp add: extends_def)
  have same: "dconn ?L ?s2 = dconn ?L s" "pconn ?L ?s2 = pconn ?L s" "device ?L ?s2 = device ?L s"
    using c1(4-6) by (simp_all add: put_relay_def)
  have narrow: "ucast (ucast x :: u64) = x" for x :: u32 by (rule bit_word_eqI) (simp add: bit_simps)
  have o: "relay_open S itC itP ?s2"
    unfolding relay_open_def using ok put D j c1(7-9) same by (simp add: GetDeviceById_def narrow)
  have "OnPacket ?L (DeviceLink (ss_data S)) Cmd_DV_RL_NotifyConnectionState 0 (ser_xTR_ConnectionStateNotify ?wc
        (xTR_ConnectionStateNotify.make (ss_remote S) (ss_context S) STATE_ESTABLISHED a b)) s1 =
      Inr (True, [ToProxy (ss_proxy S) Cmd_PA_RL_NotifyConnectionState 0 (ser_xPR_ConnectionStateNotify ?wc
        (xPR_ConnectionStateNotify.make (ss_client S) (ss_context S) STATE_ESTABLISHED 0 0))], ?s2)"
    using established_packet [OF w c1(2) _ D(6) c1(3)] D(5) j by (simp add: c1(4,5,7,8) post_own_def packets_fitD(3) [OF fits])
  with c1(1) o show ?thesis by blast
qed

subsection \<open>An example\<close>

definition demo_session ::
    "u64 \<Rightarrow> u64 \<Rightarrow> (xPA_ClientConnection ref_pool, unit \<Rightarrow> u64 list, unit \<Rightarrow> u64 list, kill_list \<Rightarrow> u64 list,
      xRD_DeviceConnection ref_pool, device_list \<Rightarrow> u64 list, xRD_ProxyConnection ref_pool, proxy_list \<Rightarrow> u64 list,
      xDevice ref_pool, unit \<Rightarrow> u64 list, xRD_RelayConnectionContext ref_pool, ref_addr) session" where
  "demo_session p r = \<lparr>ss_ml = ref_manager_lib, ss_lib = ref_relay_lib, ss_server = 7, ss_client = p, ss_proxy = 1, ss_data = 2,
     ss_context = r, ss_remote = 5\<rparr>"

lemma demo_session_simps [simp]:
  "ss_ml (demo_session p r) = ref_manager_lib" "ss_lib (demo_session p r) = ref_relay_lib" "ss_server (demo_session p r) = 7"
  "ss_client (demo_session p r) = p" "ss_proxy (demo_session p r) = 1" "ss_data (demo_session p r) = 2"
  "ss_context (demo_session p r) = r" "ss_remote (demo_session p r) = 5"
  by (simp_all add: demo_session_def)

lemma demo_session_env: "session_env (demo_session p r) {demo_env} (\<lambda>l. l) (\<lambda>l. l) (\<lambda>l. l)"
  using ref_manager.client_manager_env_axioms ref_lib_simps
  by (simp add: session_env_def MAX_PAYLOAD_SIZE_def demo_env_def)

text \<open>A client in the given phase, with a device on relay server 7.\<close>

definition demo_client :: "u64 \<Rightarrow> u64 \<Rightarrow> eProxyPhase \<Rightarrow> xPA_ClientConnection" where
  "demo_client p r ph = fresh_connection\<lparr>xPA_ClientConnection.ConnectionId := p, Phase := ph, RelayConnectionId := 7,
     RelaySideDeviceId := 1, xPA_ClientConnection.RelaySideConnectionId := r\<rparr>"

definition demo_clients where
  "demo_clients p r ph = demo_manager\<lparr>ConnectionPool := \<lparr>rp_last = p, rp_cap = 4, rp_slots = [(p, demo_client p r ph)]\<rparr>\<rparr>"

lemma demo_clients_get: "p \<noteq> 0 \<Longrightarrow> ClientManager.GetConnectionById ref_manager_lib (demo_clients p r ph) p = Some (demo_client p r ph)"
  by (simp add: ClientManager.GetConnectionById_def demo_clients_def demo_manager_def ref_manager_lib_def ref_storage_def)

definition demo_asked where
  "demo_asked = snd (the (dispatch ref_manager_lib demo_env 1 (EvData [5, 1, 0, 1, 1, 2, 3, 4, 0, 80])
     (demo_clients 1 0 eS5WaitForConnectionRequest)))"

lemma demo_ask: "dispatch ref_manager_lib demo_env 1 (EvData [5, 1, 0, 1, 1, 2, 3, 4, 0, 80]) (demo_clients 1 0 eS5WaitForConnectionRequest) =
    Some ([RelayCreate 7 (xPR_CreateConnection.make 1 1 (RefV4 1 80) [] 80)], demo_asked)"
proof -
  have "map_option fst (dispatch ref_manager_lib demo_env 1 (EvData [5, 1, 0, 1, 1, 2, 3, 4, 0, 80])
      (demo_clients 1 0 eS5WaitForConnectionRequest)) = Some [RelayCreate 7 (xPR_CreateConnection.make 1 1 (RefV4 1 80) [] 80)]"
    by code_simp
  then show ?thesis by (auto simp: demo_asked_def)
qed

lemma demo_client_open: "client_open (demo_session 77 1) (demo_clients 77 1 eS5ConnectionReady)"
  unfolding client_open_def by (intro exI [of _ "demo_client 77 1 eS5ConnectionReady"])
    (simp add: demo_clients_get demo_client_def)

lemma demo_relay_open: "relay_open (demo_session 77 1) (\<lambda>l. l) (\<lambda>l. l) demo_relay"
  using demo_relay_ok demo_types
  by (auto simp: relay_open_def demo_maps demo_context_def demo_device_def demo_dconn_def)

subsection \<open>Properties\<close>

text \<open>
  C2: opening a session, across both servers. When a handler of the proxy access server asks for a relay
  connection to a numeric address (a request by host name goes through the device's name lookup instead), its packet
  makes the relay server take a context and ask the device for the
  connection; the device's confirmation makes the relay server tell the proxy access server, and with that packet the
  session is open at both: the client's connection is ready and knows the context, the context knows the client, the
  device and its connection. What a plain HTTP request had to send to its target is then on its way. The packet buffers
  hold notifications and payloads of up to \<open>MAX_PAYLOAD_SIZE\<close> bytes, as the code asserts.
\<close>

theorem session_opens:
  assumes v: "session_env S E itA itI itK" and r: "relay_env (ss_lib S) itC itP itD ctx0"
    and s: "server_ok (ss_lib S) itC itP s" and e: "env \<in> E"
    and m: "dispatch (ss_ml S) env0 (ss_client S) ev m0 = Some (acts, m)"
      "ClientManager.GetConnectionById (ss_ml S) m0 (ss_client S) = Some c0" "xPA_ClientConnection.ConnectionId c0 = ss_client S"
    and R: "(ss_server S, R) \<in> set (creations acts)" "ok_xPR_CreateConnection (rl_wire (ss_lib S)) R"
      "ad_set (ss_lib S) (xPR_CreateConnection.TargetAddress R)"
    and D: "GetDeviceById (ss_lib S) s (xPR_CreateConnection.RelaySideDeviceId R) = Some D" "CtrlConnection D = Some cc"
      "dconn (ss_lib S) s cc \<noteq> None" "DataConnection D = Some (ss_data S)" "dconn (ss_lib S) s (ss_data S) = Some d"
      "IsType_Data (xRD_DeviceConnection.Flags d)"
    and j: "pconn (ss_lib S) s (ss_proxy S) \<noteq> None" and ctx: "fst (CreateRelay (ss_lib S) s) = ss_context S" "ss_context S \<noteq> 0"
  shows "\<exists>ask note acts2 c s1 s2 m2.
    (Cmd_PA_RL_CreateConnection, ask) \<in> set (posted (rl_wire (ss_lib S)) (ss_server S) acts) \<and>
    OnPacket (ss_lib S) (ProxyLink (ss_proxy S)) Cmd_PA_RL_CreateConnection 0 ask s =
      Inr (True, [ToDevice cc Cmd_DV_RL_CreateConnection 0 (ser_xTR_CreateConnection (rl_wire (ss_lib S))
        (xTR_CreateConnection.make (ss_context S) (xPR_CreateConnection.TargetAddress R)))], s1) \<and>
    OnPacket (ss_lib S) (DeviceLink (ss_data S)) Cmd_DV_RL_NotifyConnectionState 0
      (ser_xTR_ConnectionStateNotify (rl_wire (ss_lib S))
        (xTR_ConnectionStateNotify.make (ss_remote S) (ss_context S) STATE_ESTABLISHED a b)) s1 =
      Inr (True, [ToProxy (ss_proxy S) Cmd_PA_RL_NotifyConnectionState 0 note], s2) \<and>
    RelayClient_OnServerPacket (rl_wire (ss_lib S)) (ss_ml S) env Cmd_PA_RL_NotifyConnectionState note m = Some (True, acts2, m2) \<and>
    relay_open S itC itP s2 \<and> client_open S m2 \<and>
    ClientManager.GetConnectionById (ss_ml S) m (ss_client S) = Some c \<and>
    carries MAX_PAYLOAD_SIZE (rl_wire (ss_lib S)) (ss_client S) (ss_context S) (posted (rl_wire (ss_lib S)) (ss_server S) acts2) (early_data c)"
proof -
  let ?wc = "rl_wire (ss_lib S)"
  have w: "wire_codec ?wc" and fits: "packets_fit (ss_lib S)" and cm: "client_manager_env (ss_ml S) itA itI itK"
    using v by (simp_all add: session_env_def)
  obtain c' where h: "handle env0 c0 ev = Some (acts, c')" using m(1,2) by (auto simp: dispatch_def split: option.splits)
  note asks = client_asks(1-3) [OF h R(1)] client_asks(4) [OF h R(1), of ?wc]
  have id: "xPA_ClientConnection.ConnectionId c' = ss_client S"
    using handle_step [OF h] m(3) by (simp add: step_ok_def ids_ok_def)
  obtain c where c: "ClientManager.GetConnectionById (ss_ml S) m (ss_client S) = Some c" "same_link c c'"
    using client_manager_env.dispatch_link [OF cm m(2) h] m(1) by auto
  then have "stage c = Connecting" "xPA_ClientConnection.ConnectionId c = ss_client S" "RelayConnectionId c = ss_server S"
    using asks(1,2) id by (simp_all add: same_link_def)
  note told = client_confirmed [OF v e c(1) this]
  have "xPR_CreateConnection.ProxySideConnectionId R = ss_client S" using asks(3) id by simp
  from relay_opens [OF r w fits s R(2,3) this D j ctx, of a b] told asks(4) c(1) show ?thesis by blast
qed

theorem session_opens_witness:
  "\<exists>m s. client_open (demo_session 1 2) m \<and> relay_open (demo_session 1 2) (\<lambda>l. l) (\<lambda>l. l) s"
proof -
  let ?S = "demo_session 1 2" and ?R = "xPR_CreateConnection.make 1 1 (RefV4 1 80) [] 80"
  have "fst (CreateRelay ref_relay_lib demo_relay) = 2" by code_simp
  then have r: "fst (CreateRelay (ss_lib ?S) demo_relay) = ss_context ?S" "ss_context ?S \<noteq> 0" by simp_all
  have R: "(ss_server ?S, ?R) \<in> set (creations [RelayCreate 7 ?R])" "ok_xPR_CreateConnection (rl_wire (ss_lib ?S)) ?R"
    "ad_set (ss_lib ?S) (xPR_CreateConnection.TargetAddress ?R)"
    using ref_lib_simps(3) by (simp_all add: ok_xPR_CreateConnection_def xPR_CreateConnection.make_def)
  have m: "dispatch (ss_ml ?S) demo_env (ss_client ?S) (EvData [5, 1, 0, 1, 1, 2, 3, 4, 0, 80])
      (demo_clients 1 0 eS5WaitForConnectionRequest) = Some ([RelayCreate 7 ?R], demo_asked)"
    "ClientManager.GetConnectionById (ss_ml ?S) (demo_clients 1 0 eS5WaitForConnectionRequest) (ss_client ?S) =
      Some (demo_client 1 0 eS5WaitForConnectionRequest)"
    "xPA_ClientConnection.ConnectionId (demo_client 1 0 eS5WaitForConnectionRequest) = ss_client ?S"
    using demo_ask demo_clients_get [of 1] by (simp_all add: demo_client_def)
  have D: "GetDeviceById (ss_lib ?S) demo_relay (xPR_CreateConnection.RelaySideDeviceId ?R) = Some demo_device"
    "CtrlConnection demo_device = Some 1" "dconn (ss_lib ?S) demo_relay 1 \<noteq> None" "DataConnection demo_device = Some (ss_data ?S)"
    "dconn (ss_lib ?S) demo_relay (ss_data ?S) = Some (demo_dconn 2 2)" "IsType_Data (xRD_DeviceConnection.Flags (demo_dconn 2 2))"
    "pconn (ss_lib ?S) demo_relay (ss_proxy ?S) \<noteq> None"
    using demo_types by (simp_all add: demo_maps demo_device_def demo_dconn_def xPR_CreateConnection.make_def)
  have lib: "relay_env (ss_lib ?S) (\<lambda>l. l) (\<lambda>l. l) (\<lambda>l. l)
      \<lparr>PortOrDeviceSide = 0, RelaySideConnectionId = 0, ProxySideConnectionId = 0, DeviceId = 0, ProxyConnectionId = 0\<rparr>"
    "server_ok (ss_lib ?S) (\<lambda>l. l) (\<lambda>l. l) demo_relay" "demo_env \<in> {demo_env}"
    using ref_relay.relay_env_axioms demo_relay_ok by simp_all
  from session_opens [OF demo_session_env lib m R D r] show ?thesis by blast
qed

text \<open>
  C1: an open session is a pair of byte streams. However the packets of the two servers, the client's and the
  device's data interleave, at any moment the device has received a prefix of what the client sent, the client a prefix
  of those payloads of the device that fit the relay server's packet buffer, nothing of them is lost, doubled or
  reordered on the way, and when the servers take the packets that are in flight all of it arrives. Payloads of up to
  \<open>MAX_PAYLOAD_SIZE\<close> bytes fit, so of a device that keeps to its own limit nothing is lost.
\<close>

theorem session_streams:
  assumes v: "session_env S E itA itI itK" and e: "E \<noteq> {}" and o: "client_open S m" "relay_open S itC itP s"
    and l: "carries MAX_PAYLOAD_SIZE (rl_wire (ss_lib S)) (ss_client S) (ss_context S) l x"
    and w: "(session_net S E)\<^sup>*\<^sup>* (start_world m s l x) w"
  shows "prefix (device_got w) (client_sent w) \<and> prefix (client_got w) (passed S (device_posts w)) \<and>
    (\<exists>u. (session_net S E)\<^sup>*\<^sup>* w u \<and> device_got u = client_sent w \<and> client_got u = passed S (device_posts w)) \<and>
    (\<forall>D. length D \<le> MAX_PAYLOAD_SIZE \<longrightarrow> passes S D) \<and>
    (list_all (\<lambda>D. length D \<le> MAX_PAYLOAD_SIZE) (device_posts w) \<longrightarrow> passed S (device_posts w) = concat (device_posts w))"
proof -
  obtain env where env: "env \<in> E" using e by blast
  have "flow_ok S itC itP (start_world m s l x)" using o l by (simp add: flow_ok_def start_world_def)
  from flow_run [OF w v this] have f: "flow_ok S itC itP w" .
  from drain_proxy [OF v env f] obtain u1 where u1: "(session_net S E)\<^sup>*\<^sup>* w u1" "to_proxy u1 = []"
    "client_sent u1 = client_sent w" "device_posts u1 = device_posts w" by blast
  from drain_relay [OF v flow_run [OF u1(1) v f]] obtain u where u: "(session_net S E)\<^sup>*\<^sup>* u1 u" "to_relay u = []"
    "to_proxy u = []" "client_sent u = client_sent w" "device_posts u = device_posts w" using u1(2-4) by auto
  have run: "(session_net S E)\<^sup>*\<^sup>* w u" using u1(1) u(1) by (rule rtranclp_trans)
  from flow_run [OF run v f] have "device_got u = client_sent w" "client_got u = passed S (device_posts w)"
    using u(2-5) by (simp_all add: flow_ok_def)
  moreover have fit: "passes S D" if "length D \<le> MAX_PAYLOAD_SIZE" for D
    using v that by (simp add: passes_def packets_fitD(1) session_env_def)
  moreover have "filter (passes S) l = l" if "list_all (\<lambda>D. length D \<le> MAX_PAYLOAD_SIZE) l" for l
    using that fit by (induction l) simp_all
  ultimately show ?thesis using run f by (auto simp: flow_ok_def prefix_def passed_def)
qed

theorem session_streams_witness:
  "\<exists>u. device_got u = [1, 2, 3] \<and> client_got u = [] \<and>
     (session_net (demo_session 77 1) {demo_env})\<^sup>*\<^sup>* (start_world (demo_clients 77 1 eS5ConnectionReady) demo_relay [] []) u"
proof -
  let ?S = "demo_session 77 1" and ?m = "demo_clients 77 1 eS5ConnectionReady"
  let ?w = "start_world ?m demo_relay [] []"
  obtain acts m where "dispatch ref_manager_lib demo_env 77 (EvData [1, 2, 3]) ?m = Some (acts, m)"
    using client_sends [OF demo_session_env demo_client_open, of demo_env "[1, 2, 3]"] by auto
  then have "session_net ?S {demo_env} ?w (?w\<lparr>manager := m, to_relay := to_relay ?w @ posted (rl_wire (ss_lib ?S)) (ss_server ?S) acts,
      client_sent := client_sent ?w @ [1, 2, 3]\<rparr>)" (is "session_net _ _ _ ?v")
    by (intro session_net.client_bytes [of demo_env]) (simp_all add: start_world_def)
  then have v: "(session_net ?S {demo_env})\<^sup>*\<^sup>* ?w ?v" by (rule r_into_rtranclp)
  have sent: "client_sent ?v = [1, 2, 3]" "passed ?S (device_posts ?v) = []" by (simp_all add: start_world_def)
  from session_streams [OF demo_session_env _ demo_client_open demo_relay_open _ v] obtain u where
    u: "(session_net ?S {demo_env})\<^sup>*\<^sup>* ?v u" "device_got u = client_sent ?v" "client_got u = passed ?S (device_posts ?v)" by auto
  have "(session_net ?S {demo_env})\<^sup>*\<^sup>* ?w u" using v u(1) by (rule rtranclp_trans)
  with u(2,3) sent show ?thesis by metis
qed

end
