(* ===== verification/ServiceRegistration.thy ===== *)
theory ServiceRegistration
  imports ServerId ServerListService ClientRequests
begin

text \<open>
  How a service gets its id and registers with it: \<^verbatim>\<open>xServerIdClient\<close>
  (\<^verbatim>\<open>lib_server_util/server_id_client.cpp\<close>) and the register clients of the auth cache, audit device and audit
  account servers (\<^verbatim>\<open>register_server_client.cpp\<close> of each), with the file that keeps the id over a restart; and the way
  from the service over the server id centre (ServerId) to the server list (ServerListService).
  \<open>None\<close> is a failed \<^verbatim>\<open>assert\<close>.
\<close>

subsection \<open>The id file\<close>

text \<open>
  \<^verbatim>\<open>strtoumax(s, nullptr, 10)\<close>: spaces, a sign, digits; a number that does not fit gives the
  largest one, and a minus sign negates modulo \<open>2 ^ 64\<close>.
\<close>

definition strtoumax_digits :: "bytes \<Rightarrow> u64" where
  "strtoumax_digits s = (let v = digits_value s in if 2 ^ 64 \<le> v then - 1 else word_of_int v)"

definition strtoumax :: "bytes \<Rightarrow> u64" where
  "strtoumax s = (let t = dropWhile white_space s in
     case t of [] \<Rightarrow> 0
     | c # r \<Rightarrow>
         if c = 43 then strtoumax_digits r
         else if c = 45 then
           (if 2 ^ 64 \<le> digits_value r then - 1 else - strtoumax_digits r)
         else strtoumax_digits t)"

text \<open>The state of a service process: both clients and the file. \<open>IsOpen\<close> is the library's view of the register connection.\<close>

record service =
  LocalServerId :: u64
  ServerId :: u64
  IsOpen :: bool
  IdFile :: "bytes option"

definition LoadLocalServerId :: "service \<Rightarrow> service" where
  "LoadLocalServerId c = c\<lparr>LocalServerId := (case IdFile c of None \<Rightarrow> 0 | Some s \<Rightarrow> strtoumax s)\<rparr>"

text \<open>\<open>named\<close>: the file name is not empty; \<open>opens\<close>: the file can be opened for writing.\<close>

definition DumpLocalServerId :: "bool \<Rightarrow> bool \<Rightarrow> service \<Rightarrow> service" where
  "DumpLocalServerId named opens c =
     (if \<not> named then c
      else if \<not> opens then c
      else c\<lparr>IdFile := Some (to_string (unat (LocalServerId c)) @ [10])\<rparr>)"

definition ServerIdClient_Clean :: "service \<Rightarrow> service" where
  "ServerIdClient_Clean c = c\<lparr>LocalServerId := 0\<rparr>"

subsection \<open>The register clients\<close>

type_synonym post = "u32 \<times> u64 \<times> bytes"

text \<open>What differs between the three services is the message.\<close>

definition xAC_PostServerId :: "'a wire \<Rightarrow> 'a \<Rightarrow> service \<Rightarrow> post list option" where
  "xAC_PostServerId wc Addr c =
     (if ServerId c = 0 then None
      else Some [(Cmd_RegisterAuthCacheServer, 0, ser_xPP_RegisterAuthCacheServer wc
        (xPP_RegisterAuthCacheServer.make (ServerId c) Addr))])"

definition xAD_PostServerId :: "'a wire \<Rightarrow> 'a \<Rightarrow> service \<Rightarrow> post list option" where
  "xAD_PostServerId wc Addr c =
     (if ServerId c = 0 then None
      else Some [(Cmd_RegisterAuditDeviceServer, 0, ser_xPP_RegisterAuditDeviceServer wc
        (xPP_RegisterAuditDeviceServer.make (ServerId c) Addr))])"

definition xAA_PostServerId :: "'a wire \<Rightarrow> 'a \<Rightarrow> service \<Rightarrow> post list option" where
  "xAA_PostServerId wc Addr c =
     (if ServerId c = 0 then None
      else Some [(Cmd_RegisterAuditAccountServer, 0, ser_xPP_RegisterAuditAccountServer wc
        (xPP_RegisterAuditAccountServer.make (ServerId c) Addr))])"

definition UpdateServerId :: "(service \<Rightarrow> post list option) \<Rightarrow> u64 \<Rightarrow> service \<Rightarrow> (post list \<times> service) option" where
  "UpdateServerId PostServerId sid c =
     (if sid = 0 then None
      else if ServerId c = sid then Some ([], c)
      else
        let c1 = c\<lparr>ServerId := sid\<rparr> in
        if IsOpen c1 then map_option (\<lambda>out. (out, c1)) (PostServerId c1) else Some ([], c1))"

definition RegisterClient_OnServerConnected :: "(service \<Rightarrow> post list option) \<Rightarrow> service \<Rightarrow> (post list \<times> service) option" where
  "RegisterClient_OnServerConnected PostServerId c =
     (let c1 = c\<lparr>IsOpen := True\<rparr> in
      if ServerId c1 \<noteq> 0 then map_option (\<lambda>out. (out, c1)) (PostServerId c1) else Some ([], c1))"

definition RegisterClient_Clean :: "service \<Rightarrow> service" where
  "RegisterClient_Clean c = c\<lparr>ServerId := 0, IsOpen := False\<rparr>"

definition OnServerIdUpdated ::
    "(service \<Rightarrow> post list option) \<Rightarrow> bool \<Rightarrow> bool \<Rightarrow> u64 \<Rightarrow> service \<Rightarrow> (post list \<times> service) option" where
  "OnServerIdUpdated PostServerId named opens sid c =
     UpdateServerId PostServerId sid (DumpLocalServerId named opens c)"

definition xAC_OnServerIdUpdated where "xAC_OnServerIdUpdated wc A = OnServerIdUpdated (xAC_PostServerId wc A)"
definition xAC_UpdateServerId where "xAC_UpdateServerId wc A = UpdateServerId (xAC_PostServerId wc A)"
definition xAC_OnServerConnected where "xAC_OnServerConnected wc A = RegisterClient_OnServerConnected (xAC_PostServerId wc A)"
definition xAD_OnServerIdUpdated where "xAD_OnServerIdUpdated wc A = OnServerIdUpdated (xAD_PostServerId wc A)"
definition xAD_UpdateServerId where "xAD_UpdateServerId wc A = UpdateServerId (xAD_PostServerId wc A)"
definition xAD_OnServerConnected where "xAD_OnServerConnected wc A = RegisterClient_OnServerConnected (xAD_PostServerId wc A)"
definition xAA_OnServerIdUpdated where "xAA_OnServerIdUpdated wc A = OnServerIdUpdated (xAA_PostServerId wc A)"
definition xAA_UpdateServerId where "xAA_UpdateServerId wc A = UpdateServerId (xAA_PostServerId wc A)"
definition xAA_OnServerConnected where "xAA_OnServerConnected wc A = RegisterClient_OnServerConnected (xAA_PostServerId wc A)"

subsection \<open>The id client\<close>

definition ServerIdClient_OnServerConnected :: "'a wire \<Rightarrow> service \<Rightarrow> post" where
  "ServerIdClient_OnServerConnected wc c =
     (Cmd_ALL_CC_AcquireServerId, 0, ser_xPP_AcquireServerId wc (xPP_AcquireServerId.make (LocalServerId c)))"

text \<open>\<open>updated\<close> is the virtual \<^verbatim>\<open>OnServerIdUpdated\<close>.\<close>

definition ServerIdClient_OnServerPacket ::
    "'a wire \<Rightarrow> (u64 \<Rightarrow> service \<Rightarrow> (post list \<times> service) option) \<Rightarrow> u32 \<Rightarrow> bytes \<Rightarrow> service \<Rightarrow> (bool \<times> post list \<times> service) option" where
  "ServerIdClient_OnServerPacket wc updated CommandId Payload c =
     (if CommandId \<noteq> Cmd_ALL_CC_AcquireServerIdResp then Some (False, [], c)
      else case des_xPP_AcquireServerIdResp wc Payload of
        None \<Rightarrow> Some (False, [], c)
      | Some (Resp, _) \<Rightarrow>
          let sid = xPP_AcquireServerIdResp.NewServerId Resp in
          map_option (Pair True) (updated sid (c\<lparr>LocalServerId := sid\<rparr>)))"

subsection \<open>The file keeps the id\<close>

lemma digits_value_to_string:
  assumes "\<not> is_digit b"
  shows "digits_value (to_string n @ b # r) = int n"
proof -
  have "takeWhile is_digit (to_string n @ b # r) = to_string n"
    using assms to_string_digits [of n] by (simp add: takeWhile_append2 list_all_iff)
  then show ?thesis by (simp add: digits_value_def to_string_value)
qed

lemma strtoumax_to_string:
  assumes "\<not> is_digit b" "n < 2 ^ 64"
  shows "strtoumax (to_string n @ b # r) = word_of_nat n"
proof -
  obtain d ds where d: "to_string n = d # ds" using to_string_nonempty [of n] by (cases "to_string n") auto
  have "is_digit d" using to_string_digits [of n] d by simp
  then have "\<not> (d = 32 \<or> 9 \<le> d \<and> d \<le> 13)" "d \<noteq> 45" "d \<noteq> 43" by (auto simp: is_digit_def word_le_nat_alt)
  moreover from this(1) have "dropWhile white_space (to_string n @ b # r) = to_string n @ b # r"
    by (simp only: d append_Cons dropWhile.simps if_False white_space_def)
  moreover have "strtoumax_digits (to_string n @ b # r) = word_of_nat n"
    using assms(2) by (simp add: strtoumax_digits_def digits_value_to_string [OF assms(1)])
  ultimately show ?thesis unfolding strtoumax_def by (simp only: Let_def) (simp add: d)
qed

lemma load_dump:
  "LocalServerId (LoadLocalServerId (d\<lparr>IdFile := IdFile (DumpLocalServerId True True c)\<rparr>)) = LocalServerId c"
proof -
  have "\<not> is_digit 10" by (simp add: is_digit_def)
  then have "strtoumax (to_string (unat (LocalServerId c)) @ [10]) = word_of_nat (unat (LocalServerId c))"
    by (rule strtoumax_to_string) (use unsigned_less [of "LocalServerId c"] in simp)
  then show ?thesis by (simp add: LoadLocalServerId_def DumpLocalServerId_def)
qed

subsection \<open>The three services\<close>

datatype service_kind = AuthCacheService | AuditDeviceService | AuditAccountService

fun posts :: "service_kind \<Rightarrow> 'a wire \<Rightarrow> 'a \<Rightarrow> service \<Rightarrow> post list option" where
  "posts AuthCacheService = xAC_PostServerId" | "posts AuditDeviceService = xAD_PostServerId"
| "posts AuditAccountService = xAA_PostServerId"

fun updated :: "service_kind \<Rightarrow> 'a wire \<Rightarrow> 'a \<Rightarrow> bool \<Rightarrow> bool \<Rightarrow> u64 \<Rightarrow> service \<Rightarrow> (post list \<times> service) option" where
  "updated AuthCacheService = xAC_OnServerIdUpdated" | "updated AuditDeviceService = xAD_OnServerIdUpdated"
| "updated AuditAccountService = xAA_OnServerIdUpdated"

lemma updated_posts: "updated k wc A = OnServerIdUpdated (posts k wc A)"
  by (cases k) (simp_all add: xAC_OnServerIdUpdated_def xAD_OnServerIdUpdated_def xAA_OnServerIdUpdated_def)

text \<open>The registry of a kind at the server list.\<close>

fun registry_of :: "service_kind \<Rightarrow> 'a xSL_InternalServerListManager \<Rightarrow> 'a registry" where
  "registry_of AuthCacheService = AuthCache" | "registry_of AuditDeviceService = AuditDevice"
| "registry_of AuditAccountService = AuditAccount"

fun type_of_kind :: "service_kind \<Rightarrow> eServerType" where
  "type_of_kind AuthCacheService = AUTH_CACHE" | "type_of_kind AuditDeviceService = AUDIT_DEVICE_CACHE"
| "type_of_kind AuditAccountService = AUDIT_ACCOUNT_CACHE"

lemma register_commands [simp]:
  "Cmd_RegisterAuditDeviceServer \<noteq> Cmd_RegisterAuthCacheServer" "Cmd_RegisterAuditAccountServer \<noteq> Cmd_RegisterAuthCacheServer"
  "Cmd_RegisterAuditAccountServer \<noteq> Cmd_RegisterAuditDeviceServer"
  by (simp_all add: Cmd_RegisterAuthCacheServer_def Cmd_RegisterAuditDeviceServer_def Cmd_RegisterAuditAccountServer_def)

text \<open>
  What a registration does at the server list. \<open>P\<close> is the context of the service's connection there: a connection that
  has registered before has one, and its next registration is refused as a duplicate, whatever its id.
\<close>

definition registered ::
    "service_kind \<Rightarrow> u64 \<Rightarrow> 'a \<Rightarrow> server_ptr option \<Rightarrow> 'a xSL_InternalServerListManager \<Rightarrow>
     bool \<times> server_ptr option \<times> 'a xSL_InternalServerListManager \<Rightarrow> bool" where
  "registered k sid A P L q \<longleftrightarrow> (case q of (ok, P', L') \<Rightarrow> manager_inv L' \<and>
     (ok \<longleftrightarrow> P = None \<and> length (InfoList (registry_of k L)) < 125 \<and> GetServerInfo sid (registry_of k L) = None) \<and>
     (if ok then P' \<noteq> None \<and> GetServerInfo sid (registry_of k L') =
          Some \<lparr>ServerType = type_of_kind k, xSL_InternalServerBase.ServerId = sid, ServerAddress = A\<rparr> \<and>
          (\<forall>j. j \<noteq> sid \<longrightarrow> GetServerInfo j (registry_of k L') = GetServerInfo j (registry_of k L))
      else P' = P \<and> L' = L))"

lemma duplicate_refused:
  assumes "manager_inv L" "posts k wc A c = Some [(Cmd, 0, Pl)]"
  shows "registered k x A (Some p) L (Register_OnClientPacket grow wc (Some p) Cmd Pl L)"
  using assms by (cases k) (auto simp: registered_def Register_OnClientPacket_def OnRegisterAuthCacheServer_def
      OnRegisterAuditDeviceServer_def OnRegisterAuditAccountServer_def xAC_PostServerId_def xAD_PostServerId_def
      xAA_PostServerId_def split: if_splits)

lemma post_registers:
  assumes w: "wire_codec wc" and L: "manager_inv L" and c: "ServerId c = sid" "sid \<noteq> 0"
  shows "\<exists>Cmd Pl. posts k wc A c = Some [(Cmd, 0, Pl)] \<and> registered k sid A P L (Register_OnClientPacket grow wc P Cmd Pl L)"
proof -
  have r: "reg_inv (type_of_kind k) (registry_of k L)" using L by (cases k) (simp_all add: manager_inv_def)
  note add = registry_add [OF r surjective_pairing, of grow "sl_Ticker L" sid A]
  have new: "\<exists>Cmd Pl. posts k wc A c = Some [(Cmd, 0, Pl)] \<and>
      registered k sid A None L (Register_OnClientPacket grow wc None Cmd Pl L)"
  proof (cases k)
    case AuthCacheService
    then show ?thesis using add L c wire_codec.ser_des_xPP_RegisterAuthCacheServer [OF w, of _ "[]"]
      by (auto simp: xAC_PostServerId_def registered_def Register_OnClientPacket_def OnRegisterAuthCacheServer_def
          AddAuthCacheServerInfo_def manager_inv_def xPP_RegisterAuthCacheServer.make_def split: option.splits prod.splits)
  next
    case AuditDeviceService
    then show ?thesis using add L c wire_codec.ser_des_xPP_RegisterAuditDeviceServer [OF w, of _ "[]"]
      by (auto simp: xAD_PostServerId_def registered_def Register_OnClientPacket_def OnRegisterAuditDeviceServer_def
          AddAuditDeviceServerInfo_def manager_inv_def xPP_RegisterAuditDeviceServer.make_def split: option.splits prod.splits)
  next
    case AuditAccountService
    then show ?thesis using add L c wire_codec.ser_des_xPP_RegisterAuditAccountServer [OF w, of _ "[]"]
      by (auto simp: xAA_PostServerId_def registered_def Register_OnClientPacket_def OnRegisterAuditAccountServer_def
          AddAuditAccountServerInfo_def manager_inv_def xPP_RegisterAuditAccountServer.make_def split: option.splits prod.splits)
  qed
  then show ?thesis using duplicate_refused [OF L] by (cases P) blast+
qed

text \<open>A service with an id registers whenever its connection to the server list comes up, over a connection without a context.\<close>

lemma connected_registers:
  assumes w: "wire_codec wc" and L: "manager_inv L" and c: "ServerId c = sid" "sid \<noteq> 0"
  shows "\<exists>Cmd Pl. RegisterClient_OnServerConnected (posts k wc A) c = Some ([(Cmd, 0, Pl)], c\<lparr>IsOpen := True\<rparr>) \<and>
    registered k sid A None L (Register_OnClientPacket grow wc None Cmd Pl L)"
  using post_registers [OF w L _ c(2), of "c\<lparr>IsOpen := True\<rparr>" k A None grow] c
  by (auto simp: RegisterClient_OnServerConnected_def)

lemma dump_fields [simp]:
  "ServerId (DumpLocalServerId named opens c) = ServerId c" "IsOpen (DumpLocalServerId named opens c) = IsOpen c"
  "LocalServerId (DumpLocalServerId named opens c) = LocalServerId c"
  by (simp_all add: DumpLocalServerId_def)

lemma load_dumped:
  assumes "IdFile d = IdFile (DumpLocalServerId True True c)"
  shows "LocalServerId (LoadLocalServerId d) = LocalServerId c"
  using load_dump [where d = d and c = c] by (simp flip: assms)

lemma id_answer:
  assumes w: "wire_codec wc" and x: "x \<noteq> 0" and L: "manager_inv L"
  shows "\<exists>out d. ServerIdClient_OnServerPacket wc (updated k wc A named opens) Cmd_ALL_CC_AcquireServerIdResp
       (ser_xPP_AcquireServerIdResp wc (xPP_AcquireServerIdResp.make p x)) c = Some (True, out, d) \<and>
     LocalServerId d = x \<and> ServerId d = x \<and> (named \<and> opens \<longrightarrow> LocalServerId (LoadLocalServerId d) = x) \<and>
     (if ServerId c = x \<or> \<not> IsOpen c then out = []
      else \<exists>Cmd Pl. out = [(Cmd, 0, Pl)] \<and> registered k x A P L (Register_OnClientPacket grow wc P Cmd Pl L))"
proof -
  let ?c = "DumpLocalServerId named opens (c\<lparr>LocalServerId := x\<rparr>)"
  have des: "des_xPP_AcquireServerIdResp wc (ser_xPP_AcquireServerIdResp wc (xPP_AcquireServerIdResp.make p x)) =
      Some (xPP_AcquireServerIdResp.make p x, [])"
    using wire_codec.ser_des_xPP_AcquireServerIdResp [OF w, of "xPP_AcquireServerIdResp.make p x" "[]"] by simp
  have new: "xPP_AcquireServerIdResp.NewServerId (xPP_AcquireServerIdResp.make p x) = x" by (simp add: xPP_AcquireServerIdResp.make_def)
  have load: "named \<and> opens \<Longrightarrow> IdFile d = IdFile ?c \<Longrightarrow> LocalServerId (LoadLocalServerId d) = x" for d
    using load_dumped [of d "c\<lparr>LocalServerId := x\<rparr>"] by simp
  have r: "ServerIdClient_OnServerPacket wc (updated k wc A named opens) Cmd_ALL_CC_AcquireServerIdResp
       (ser_xPP_AcquireServerIdResp wc (xPP_AcquireServerIdResp.make p x)) c =
      map_option (Pair True) (UpdateServerId (posts k wc A) x ?c)"
    by (simp add: ServerIdClient_OnServerPacket_def des new updated_posts OnServerIdUpdated_def)
  show ?thesis
  proof (cases "ServerId c = x \<or> \<not> IsOpen c")
    case True
    then show ?thesis using x load [of ?c] load [of "?c\<lparr>ServerId := x\<rparr>"] by (auto simp: r UpdateServerId_def)
  next
    case False
    obtain Cmd Pl where "posts k wc A (?c\<lparr>ServerId := x\<rparr>) = Some [(Cmd, 0, Pl)]"
        "registered k x A P L (Register_OnClientPacket grow wc P Cmd Pl L)"
      using post_registers [OF w L _ x, of "?c\<lparr>ServerId := x\<rparr>" k A P grow] by auto
    with False x load [of "?c\<lparr>ServerId := x\<rparr>"] show ?thesis by (auto simp: r UpdateServerId_def)
  qed
qed

subsection \<open>Properties\<close>

text \<open>
  C6: a service gets its id and registers, across three servers. The request that it sends when it connects
  to the server id centre is always answered. The answer gives it an id that no one else holds, its previous one whenever
  the slot of that is free; the service keeps it in its file, from where a restart reads it back, and posts a registration
  at once exactly when the id is new and the register connection is open, and again whenever that connection comes up. The
  server list takes a registration over a connection that has none unless the list is full or has the id, and then has
  the service under its id and address; over a connection that has registered before it refuses the new id as a duplicate
  and changes nothing, so that the service is only registered with it over its next connection. When the centre has no
  free slot, it answers with 0, and the service fails the assertion of \<^verbatim>\<open>UpdateServerId\<close>.
\<close>

theorem service_registers:
  assumes im: "id_manager im used" and s: "ids_inv im used s" and w: "wire_codec wc" and L: "manager_inv L"
    and ask: "ServerIdClient_OnServerConnected wc c = (Cmd, q, Q)"
  shows "\<exists>x t resp. OnClientPacket wc im r 0 s Cmd q Q = Some (True, x, t, Some (Cmd_ALL_CC_AcquireServerIdResp, q, resp)) \<and>
    (well_formed_id im (LocalServerId c) \<and> RandomPool s ! slot (IdIndex (LocalServerId c)) = 0 \<longrightarrow> x = LocalServerId c) \<and>
    (if x = 0 then {1 .. id_max im} \<subseteq> used (IdManager s) \<and>
       ServerIdClient_OnServerPacket wc (updated k wc A named opens) Cmd_ALL_CC_AcquireServerIdResp resp c = None
     else \<not> Holds im s x \<and> Holds im t x \<and>
       (\<exists>out d. ServerIdClient_OnServerPacket wc (updated k wc A named opens) Cmd_ALL_CC_AcquireServerIdResp resp c = Some (True, out, d) \<and>
          LocalServerId d = x \<and> ServerId d = x \<and> (named \<and> opens \<longrightarrow> LocalServerId (LoadLocalServerId d) = x) \<and>
          (if ServerId c = x \<or> \<not> IsOpen c then out = []
           else \<exists>Cmd Pl. out = [(Cmd, 0, Pl)] \<and> registered k x A P L (Register_OnClientPacket grow wc P Cmd Pl L)) \<and>
          (\<exists>Cmd Pl. RegisterClient_OnServerConnected (posts k wc A) d = Some ([(Cmd, 0, Pl)], d\<lparr>IsOpen := True\<rparr>) \<and>
             registered k x A None L (Register_OnClientPacket grow wc None Cmd Pl L))))"
proof -
  let ?Q = "xPP_AcquireServerId.make (LocalServerId c)"
  have P: "Cmd = Cmd_ALL_CC_AcquireServerId" "q = 0" "Q = ser_xPP_AcquireServerId wc ?Q"
    using ask by (simp_all add: ServerIdClient_OnServerConnected_def)
  have des: "des_xPP_AcquireServerId wc Q = Some (?Q, [])" "xPP_AcquireServerId.PreviousServerId ?Q = LocalServerId c"
    using wire_codec.ser_des_xPP_AcquireServerId [OF w, of ?Q "[]"] by (simp_all add: P xPP_AcquireServerId.make_def)
  obtain x t where x: "RegainServerId im r s (LocalServerId c) = Some (x, t)" "acquired im used s x t"
      "well_formed_id im (LocalServerId c) \<and> RandomPool s ! slot (IdIndex (LocalServerId c)) = 0 \<longrightarrow> x = LocalServerId c"
    using id_manager.RegainServerId_spec [OF im s] by blast
  let ?resp = "ser_xPP_AcquireServerIdResp wc (xPP_AcquireServerIdResp.make (LocalServerId c) x)"
  have c: "OnClientPacket wc im r 0 s Cmd q Q = Some (True, x, t, Some (Cmd_ALL_CC_AcquireServerIdResp, q, ?resp))"
    by (simp add: OnClientPacket_def P(1) des x(1))
  have none: "ServerIdClient_OnServerPacket wc (updated k wc A named opens) Cmd_ALL_CC_AcquireServerIdResp ?resp c = None" if "x = 0"
    using that wire_codec.ser_des_xPP_AcquireServerIdResp [OF w, of _ "[]"]
    by (simp add: ServerIdClient_OnServerPacket_def xPP_AcquireServerIdResp.make_def updated_posts OnServerIdUpdated_def UpdateServerId_def)
  show ?thesis
  proof (cases "x = 0")
    case True
    then show ?thesis using c x(2,3) none unfolding acquired_def by (intro exI [of _ x] exI [of _ t] exI [of _ ?resp]) simp
  next
    case False
    from id_answer [OF w False L, of k A named opens "LocalServerId c" c P grow] obtain out d where
      d: "ServerIdClient_OnServerPacket wc (updated k wc A named opens) Cmd_ALL_CC_AcquireServerIdResp ?resp c = Some (True, out, d)"
        "LocalServerId d = x" "ServerId d = x" "named \<and> opens \<longrightarrow> LocalServerId (LoadLocalServerId d) = x"
        "if ServerId c = x \<or> \<not> IsOpen c then out = []
         else \<exists>Cmd Pl. out = [(Cmd, 0, Pl)] \<and> registered k x A P L (Register_OnClientPacket grow wc P Cmd Pl L)"
      by (elim exE conjE) (rule that)
    from c x(2,3) d connected_registers [OF w L d(3) False, of k A grow] False show ?thesis
      unfolding acquired_def by (intro exI [of _ x] exI [of _ t] exI [of _ ?resp]) simp
  qed
qed

text \<open>A new service whose connection to the server list is up: it gets an id and is in the list.\<close>

theorem service_registers_witness:
  "\<exists>x d Cmd Pl p L. x \<noteq> 0 \<and> ServerIdClient_OnServerPacket ref_wire (updated AuthCacheService ref_wire (RefV4 1 80) True True)
       Cmd_ALL_CC_AcquireServerIdResp (ser_xPP_AcquireServerIdResp ref_wire (xPP_AcquireServerIdResp.make 0 x))
       \<lparr>LocalServerId = 0, ServerId = 0, IsOpen = True, IdFile = None\<rparr> = Some (True, [(Cmd, 0, Pl)], d) \<and>
     Register_OnClientPacket demo_grow ref_wire None Cmd Pl (ServerListManager_Init 0) = (True, Some p, L) \<and>
     GetAuthCacheServerInfo x L = Some \<lparr>ServerType = AUTH_CACHE, xSL_InternalServerBase.ServerId = x, ServerAddress = RefV4 1 80\<rparr>"
proof -
  let ?c = "\<lparr>LocalServerId = 0, ServerId = 0, IsOpen = True, IdFile = None\<rparr>" and ?s = "InitManager (ref_ids 8) []"
  have s: "ids_inv (ref_ids 8) set ?s" using ref_im.Init_inv by simp
  obtain Cmd q Q where ask: "ServerIdClient_OnServerConnected ref_wire ?c = (Cmd, q, Q)" by (cases "ServerIdClient_OnServerConnected ref_wire ?c")
  have free: "\<not> {1 .. id_max (ref_ids 8)} \<subseteq> set (IdManager ?s)" by (simp add: InitManager_def ref_ids_def)
  have Q: "Cmd = Cmd_ALL_CC_AcquireServerId" "q = 0" "des_xPP_AcquireServerId ref_wire Q = Some (xPP_AcquireServerId.make 0, [])"
    using ask wire_codec.ser_des_xPP_AcquireServerId [OF ref_wire_contract, of "xPP_AcquireServerId.make 0" "[]"]
    by (auto simp: ServerIdClient_OnServerConnected_def)
  from service_registers [OF ref_im.id_manager_axioms s ref_wire_contract ServerListManager_Init_inv [of 0] ask, where k = AuthCacheService and
      A = "RefV4 1 80" and named = True and opens = True and P = None and grow = demo_grow and r = 5]
  obtain x t resp d Cmd' Pl where x: "OnClientPacket ref_wire (ref_ids 8) 5 0 ?s Cmd q Q = Some (True, x, t, Some (Cmd_ALL_CC_AcquireServerIdResp, q, resp))"
    "x \<noteq> 0" "ServerIdClient_OnServerPacket ref_wire (updated AuthCacheService ref_wire (RefV4 1 80) True True)
       Cmd_ALL_CC_AcquireServerIdResp resp ?c = Some (True, [(Cmd', 0, Pl)], d)"
    "registered AuthCacheService x (RefV4 1 80) None (ServerListManager_Init 0)
       (Register_OnClientPacket demo_grow ref_wire None Cmd' Pl (ServerListManager_Init 0))"
    using free by (auto split: if_splits)
  have resp: "resp = ser_xPP_AcquireServerIdResp ref_wire (xPP_AcquireServerIdResp.make 0 x)"
    using x(1) by (auto simp: OnClientPacket_def Q xPP_AcquireServerId.make_def split: option.splits)
  have empty: "GetServerInfo x (registry_init 0 :: ref_addr registry) = None" "InfoList (registry_init 0 :: ref_addr registry) = []"
    by (simp_all add: GetServerInfo_map [OF registry_init_inv]) (simp_all add: registry_init_def reg_map_def)
  obtain ok p L where q: "Register_OnClientPacket demo_grow ref_wire None Cmd' Pl (ServerListManager_Init 0) = (ok, p, L)"
    by (cases "Register_OnClientPacket demo_grow ref_wire None Cmd' Pl (ServerListManager_Init 0 :: ref_addr xSL_InternalServerListManager)") auto
  have r: "ok" "p \<noteq> None" "GetServerInfo x (AuthCache L) =
      Some \<lparr>ServerType = AUTH_CACHE, xSL_InternalServerBase.ServerId = x, ServerAddress = RefV4 1 80\<rparr>"
    using x(4) empty unfolding q by (auto simp: registered_def ServerListManager_Init_def split: if_splits)
  obtain p' where "p = Some p'" using r(2) by blast
  then have "Register_OnClientPacket demo_grow ref_wire None Cmd' Pl (ServerListManager_Init 0) = (True, Some p', L)" using q r(1) by simp
  with x(2,3) r(3) show ?thesis unfolding resp GetAuthCacheServerInfo_def by blast
qed

end
