(* ===== verification/ConfigCenter.thy ===== *)
theory ConfigCenter
  imports DeviceRelay PacketStream ServerId XelReference
begin

text \<open>
  The configuration centre (\<^verbatim>\<open>src/cpp/src_app/server_config_center\<close>): a device sends a signed challenge
  over UDP and is told its own address and a relay server; the relay servers are kept in a pool of 4096
  slots and handed out in turn. \<^verbatim>\<open>pa_config.cpp\<close> serves the list of relay servers to the proxy access
  servers, whose \<^verbatim>\<open>relay_server_list_manager.cpp\<close> is the client of it.

  An operation is \<open>None\<close> where an assertion fails. \<open>im\<close> is the id manager of the library, \<open>li\<close> its lists; a
  slot is named by its index.
\<close>

subsection \<open>Relay servers\<close>

record 'a xCC_RelayServerBase =
  Key :: u64
  CtrlAddress :: 'a
  DataAddress :: 'a
  PAAddress :: 'a

record ('a, 'i, 'l) xCC_RelayServerManager =
  RelayServerListAll :: 'l
  RelayServerPool :: "'a xCC_RelayServerBase list"
  RelayIdManager :: 'i

type_synonym ('a, 'i, 'l) relay_registry = "('a, 'i, 'l) xCC_RelayServerManager"

definition RelayServerPoolSize :: nat where "RelayServerPoolSize = 4096"

definition fresh_relay :: "'a \<Rightarrow> 'a xCC_RelayServerBase" where
  "fresh_relay noaddr = \<lparr>Key = 0, CtrlAddress = noaddr, DataAddress = noaddr, PAAddress = noaddr\<rparr>"

text \<open>\<^verbatim>\<open>Renew\<close> destroys the entry, which takes it off the list, and makes a new one in its place.\<close>

definition RenewRelay ::
    "('l, unit, nat) list_ops \<Rightarrow> 'a \<Rightarrow> nat \<Rightarrow> ('a, 'i, 'l) relay_registry \<Rightarrow> ('a, 'i, 'l) relay_registry" where
  "RenewRelay li noaddr j s =
     s\<lparr>RelayServerListAll := li_remove li (RelayServerListAll s) j,
       RelayServerPool := (RelayServerPool s)[j := fresh_relay noaddr]\<rparr>"

definition RelayServerManager_Init ::
    "('l, unit, nat) list_ops \<Rightarrow> 'a \<Rightarrow> 'i \<Rightarrow> ('a, 'i, 'l) relay_registry \<Rightarrow> ('a, 'i, 'l) relay_registry" where
  "RelayServerManager_Init li noaddr m s =
     fold (RenewRelay li noaddr) [0 ..< length (RelayServerPool s)] (s\<lparr>RelayIdManager := m\<rparr>)"

definition RelayServerManager_Clean ::
    "('l, unit, nat) list_ops \<Rightarrow> 'a \<Rightarrow> 'i \<Rightarrow> ('a, 'i, 'l) relay_registry \<Rightarrow> ('a, 'i, 'l) relay_registry" where
  "RelayServerManager_Clean li noaddr m s =
     (fold (RenewRelay li noaddr) [0 ..< length (RelayServerPool s)] s)\<lparr>RelayIdManager := m\<rparr>"

definition GetAnyRelayServer ::
    "('l, unit, nat) list_ops \<Rightarrow> ('a, 'i, 'l) relay_registry \<Rightarrow>
     'a xCC_RelayServerBase option \<times> ('a, 'i, 'l) relay_registry" where
  "GetAnyRelayServer li s =
     (case li_pop_head li (RelayServerListAll s) () (\<lambda>_. True) of
        None \<Rightarrow> (None, s)
      | Some (H, l) \<Rightarrow> (Some (RelayServerPool s ! H), s\<lparr>RelayServerListAll := li_add_tail li l () H\<rparr>))"

definition GetRelayServerByRegion ::
    "('l, unit, nat) list_ops \<Rightarrow> xGeoInfo \<Rightarrow> ('a, 'i, 'l) relay_registry \<Rightarrow>
     'a xCC_RelayServerBase option \<times> ('a, 'i, 'l) relay_registry" where
  "GetRelayServerByRegion li Rid s = GetAnyRelayServer li s"

text \<open>\<open>now\<close> is \<^verbatim>\<open>GetTimestampMS()\<close>.\<close>

definition AddServerInfo ::
    "'i id_ops \<Rightarrow> ('l, unit, nat) list_ops \<Rightarrow> u64 \<Rightarrow> 'a xCC_RelayServerBase \<Rightarrow> ('a, 'i, 'l) relay_registry \<Rightarrow>
     (u64 \<times> ('a, 'i, 'l) relay_registry) option" where
  "AddServerInfo im li now NewInfo s =
     (if Key NewInfo \<noteq> 0 then None else
      let (Id, m) = id_acquire im (RelayIdManager s); s = s\<lparr>RelayIdManager := m\<rparr> in
      if Id = 0 then Some (0, s)
      else if unat Id > length (RelayServerPool s) then
        Some (0, s\<lparr>RelayIdManager := id_release im m Id\<rparr>)
      else
        let Index = Id - 1; k = Make64 (Low32 now) Index in
        if Key (RelayServerPool s ! unat Index) \<noteq> 0 then None
        else Some (k, s\<lparr>RelayServerPool := (RelayServerPool s)[unat Index := NewInfo\<lparr>Key := k\<rparr>],
          RelayServerListAll := li_add_tail li (RelayServerListAll s) () (unat Index)\<rparr>))"

definition RemoveServerInfoByKey ::
    "'i id_ops \<Rightarrow> ('l, unit, nat) list_ops \<Rightarrow> 'a \<Rightarrow> u64 \<Rightarrow> ('a, 'i, 'l) relay_registry \<Rightarrow>
     ('a, 'i, 'l) relay_registry" where
  "RemoveServerInfoByKey im li noaddr k s =
     (let Index = Low32 k; Id = Index + 1 in
      if unat Index \<ge> length (RelayServerPool s) then s
      else if Key (RelayServerPool s ! unat Index) \<noteq> k then s
      else (RenewRelay li noaddr (unat Index) s)\<lparr>RelayIdManager := id_release im (RelayIdManager s) Id\<rparr>)"

subsection \<open>The challenge of a device\<close>

text \<open>
  What the reactors call of the library: the encodings, the packet header, MD5 and its hexadecimal form,
  \<^verbatim>\<open>W4\<close> of a stream writer, the address without its port and as a text. \<open>cl_ipdb\<close> is \<^verbatim>\<open>IpDb.Get\<close>, and
  \<open>cl_partial\<close> the members a failed \<^verbatim>\<open>Deserialize\<close> leaves in the request.
\<close>

record 'a cc_lib =
  cl_wire :: "'a wire"
  cl_header_size :: nat
  cl_header :: "bytes \<Rightarrow> stream_header"
  cl_md5 :: "bytes \<Rightarrow> bytes"
  cl_hex :: "bytes \<Rightarrow> bytes"
  cl_w4 :: "u32 \<Rightarrow> bytes"
  cl_no_addr :: 'a
  cl_ip :: "'a \<Rightarrow> 'a"
  cl_ip_string :: "'a \<Rightarrow> bytes"
  cl_ipdb :: "bytes \<Rightarrow> xGeoInfo option"
  cl_partial :: "bytes \<Rightarrow> xCC_DeviceChallenge"

datatype 'a cc_action = PostUdp 'a u32 u64 bytes

definition GetRegionByIp :: "'a cc_lib \<Rightarrow> bytes \<Rightarrow> xGeoInfo" where
  "GetRegionByIp L IpString =
     (case cl_ipdb L IpString of None \<Rightarrow> \<lparr>xGeoInfo.CountryId = 0, StateId = 0, CityId = 0\<rparr> | Some R \<Rightarrow> R)"

definition challenge_request :: "'a cc_lib \<Rightarrow> bytes \<Rightarrow> xCC_DeviceChallenge" where
  "challenge_request L Payload =
     (case des_xCC_DeviceChallenge (cl_wire L) Payload of None \<Rightarrow> cl_partial L Payload | Some (R, _) \<Rightarrow> R)"

definition challenge_sign :: "'a cc_lib \<Rightarrow> u64 \<Rightarrow> bytes" where
  "challenge_sign L t = cl_hex L (cl_md5 L (bytes_of ''TLMPP1'' @ to_string (unat t)))"

definition region_key :: "'a cc_lib \<Rightarrow> xGeoInfo \<Rightarrow> bytes" where
  "region_key L RID = bytes_of ''TLMPP-FOR-TEST:'' @
     cl_hex L (cl_w4 L (xGeoInfo.CountryId RID) @ cl_w4 L (xGeoInfo.StateId RID) @ cl_w4 L (xGeoInfo.CityId RID))"

definition Ipv6Test_OnTerminalChallenge :: "'a cc_lib \<Rightarrow> bytes \<Rightarrow> 'a \<Rightarrow> 'a cc_action list" where
  "Ipv6Test_OnTerminalChallenge L Payload RemoteAddress =
     (let Request = challenge_request L Payload in
      if xCC_DeviceChallenge.Sign Request \<noteq> challenge_sign L (xCC_DeviceChallenge.Timestamp Request) then []
      else [PostUdp RemoteAddress Cmd_DV_CC_ChallengeResp 0
              (ser_xCC_DeviceChallengeResp (cl_wire L)
                 (xCC_DeviceChallengeResp.make (cl_no_addr L) (cl_no_addr L) [] (cl_ip L RemoteAddress) False False))])"

definition OnTerminalChallenge ::
    "'a cc_lib \<Rightarrow> ('l, unit, nat) list_ops \<Rightarrow> bytes \<Rightarrow> 'a \<Rightarrow> ('a, 'i, 'l) relay_registry \<Rightarrow>
     'a cc_action list \<times> ('a, 'i, 'l) relay_registry" where
  "OnTerminalChallenge L li Payload RemoteAddress s =
     (let Request = challenge_request L Payload in
      if xCC_DeviceChallenge.Sign Request \<noteq> challenge_sign L (xCC_DeviceChallenge.Timestamp Request) then ([], s)
      else
        let RID = GetRegionByIp L (cl_ip_string L RemoteAddress);
            (RSI, s) = GetRelayServerByRegion li RID s;
            Resp = (case RSI of
              None \<Rightarrow> xCC_DeviceChallengeResp.make (cl_no_addr L) (cl_no_addr L) [] (cl_ip L RemoteAddress) False False
            | Some B \<Rightarrow> xCC_DeviceChallengeResp.make (CtrlAddress B) (DataAddress B) (region_key L RID)
                (cl_ip L RemoteAddress) False False)
        in ([PostUdp RemoteAddress Cmd_DV_CC_ChallengeResp 0 (ser_xCC_DeviceChallengeResp (cl_wire L) Resp)], s))"

text \<open>\<^verbatim>\<open>OnData\<close> of the reactors, with the handling of the challenge as its argument.\<close>

definition reactor_OnData ::
    "'a cc_lib \<Rightarrow> (bytes \<Rightarrow> 'a \<Rightarrow> 's \<Rightarrow> 'a cc_action list \<times> 's) \<Rightarrow> bytes \<Rightarrow> 'a \<Rightarrow> 's \<Rightarrow> 'a cc_action list \<times> 's" where
  "reactor_OnData L challenge Data RemoteAddress s =
     (if length Data < cl_header_size L then ([], s)
      else
        let Header = cl_header L Data in
        if PacketSize Header \<noteq> length Data then ([], s)
        else
          let Payload = drop (cl_header_size L) Data in
          if CommandId Header = Cmd_DV_CC_Challenge then challenge Payload RemoteAddress s
          else ([], s))"

definition Challenge_OnData ::
    "'a cc_lib \<Rightarrow> ('l, unit, nat) list_ops \<Rightarrow> bytes \<Rightarrow> 'a \<Rightarrow> ('a, 'i, 'l) relay_registry \<Rightarrow>
     'a cc_action list \<times> ('a, 'i, 'l) relay_registry" where
  "Challenge_OnData L li = reactor_OnData L (OnTerminalChallenge L li)"

definition Ipv6Test_OnData ::
    "'a cc_lib \<Rightarrow> bytes \<Rightarrow> 'a \<Rightarrow> ('a, 'i, 'l) relay_registry \<Rightarrow>
     'a cc_action list \<times> ('a, 'i, 'l) relay_registry" where
  "Ipv6Test_OnData L = reactor_OnData L (\<lambda>P A s. (Ipv6Test_OnTerminalChallenge L P A, s))"

text \<open>The loop of \<^verbatim>\<open>main\<close> that adds the configured relay servers; the time of each call is given with it.\<close>

fun add_forced ::
    "'i id_ops \<Rightarrow> ('l, unit, nat) list_ops \<Rightarrow> (u64 \<times> 'a xCC_RelayServerBase) list \<Rightarrow> ('a, 'i, 'l) relay_registry \<Rightarrow>
     ('a, 'i, 'l) relay_registry option" where
  "add_forced im li [] s = Some s"
| "add_forced im li ((now, A) # As) s =
     (case AddServerInfo im li now A s of None \<Rightarrow> None | Some (k, s) \<Rightarrow> add_forced im li As s)"

subsection \<open>The list of relay servers for the proxy access servers\<close>

text \<open>\<^verbatim>\<open>xCC_PAConfigManager\<close>: the result of a handler and the answer it posts.\<close>

type_synonym pa_answer = "(u32 \<times> u64 \<times> bytes) option"

definition OnQueryRelayServerListVersion :: "'a wire \<Rightarrow> u64 \<Rightarrow> bytes \<Rightarrow> bool \<times> pa_answer" where
  "OnQueryRelayServerListVersion wc rid Payload =
     (case des_xCC_PA_GetRelayServerListVersion wc Payload of
        None \<Rightarrow> (False, None)
      | Some (R, _) \<Rightarrow> (True, Some (Cmd_CC_PA_GetRelayServerListVersionResp, rid,
          ser_xCC_PA_GetRelayServerListVersionResp wc (xCC_PA_GetRelayServerListVersionResp.make 1))))"

definition BuildTotalList :: bool where "BuildTotalList = False"

definition OnDownloadRelayServerList :: "u64 \<Rightarrow> bytes \<Rightarrow> bool \<times> pa_answer" where
  "OnDownloadRelayServerList rid Payload = (if \<not> BuildTotalList then (True, None) else (True, None))"

definition PAConfig_OnClientPacket :: "'a wire \<Rightarrow> u32 \<Rightarrow> u64 \<Rightarrow> bytes \<Rightarrow> bool \<times> pa_answer" where
  "PAConfig_OnClientPacket wc cmd rid Payload =
     (if cmd = Cmd_CC_PA_GetRelayServerListVersion then OnQueryRelayServerListVersion wc rid Payload
      else if cmd = Cmd_CC_PA_DownloadRelayServerList then OnDownloadRelayServerList rid Payload
      else (True, None))"

text \<open>\<^verbatim>\<open>xPA_RelayServerListManager\<close>; the connections are those of the library's client pool.\<close>

record xPA_RelayServerListManager =
  ConfigCenterConnectionIdList :: "u64 list"
  AvailableServerCount :: u64
  DownloadRoundCounter :: u64
  LastDownloadStartTimestampMS :: u64

type_synonym list_post = "u64 \<times> u32 \<times> u64 \<times> bytes"

text \<open>
  \<open>add\<close> is \<^verbatim>\<open>xClientPool::AddServer\<close>; \<open>None\<close> is a failed \<^verbatim>\<open>RuntimeAssert\<close>.
\<close>

definition RelayList_Init ::
    "('a \<Rightarrow> u64) \<Rightarrow> 'a list \<Rightarrow> xPA_RelayServerListManager \<Rightarrow> xPA_RelayServerListManager option" where
  "RelayList_Init add AddressList s =
     (if AddressList = [] \<or> length AddressList \<ge> 1024 then None
      else let cids = map add AddressList in
        if 0 \<in> set cids then None
        else Some (s\<lparr>ConfigCenterConnectionIdList := ConfigCenterConnectionIdList s @ cids\<rparr>))"

definition RelayList_Clean :: "xPA_RelayServerListManager \<Rightarrow> xPA_RelayServerListManager" where
  "RelayList_Clean s = s\<lparr>AvailableServerCount := 0, DownloadRoundCounter := 0, ConfigCenterConnectionIdList := []\<rparr>"

text \<open>\<open>rnd\<close> is \<^verbatim>\<open>random()\<close>.\<close>

definition StartDownloadRelayServerList ::
    "'a wire \<Rightarrow> nat \<Rightarrow> xPA_RelayServerListManager \<Rightarrow> list_post list \<times> xPA_RelayServerListManager" where
  "StartDownloadRelayServerList wc rnd s =
     (if ConfigCenterConnectionIdList s = [] then ([], s)
      else
        let s = s\<lparr>DownloadRoundCounter := DownloadRoundCounter s + 1\<rparr>;
            CID = ConfigCenterConnectionIdList s ! (rnd mod length (ConfigCenterConnectionIdList s)) in
        ([(CID, Cmd_CC_PA_GetRelayServerListVersion, DownloadRoundCounter s,
           ser_xCC_PA_GetRelayServerListVersion wc (xCC_PA_GetRelayServerListVersion.make 0))], s))"

definition RelayList_Tick ::
    "'a wire \<Rightarrow> nat \<Rightarrow> u64 \<Rightarrow> xPA_RelayServerListManager \<Rightarrow> list_post list \<times> xPA_RelayServerListManager" where
  "RelayList_Tick wc rnd NowMS s =
     (if NowMS - LastDownloadStartTimestampMS s \<ge> 10 * 60000 \<and> AvailableServerCount s \<noteq> 0 then
        StartDownloadRelayServerList wc rnd (s\<lparr>LastDownloadStartTimestampMS := NowMS\<rparr>)
      else ([], s))"

definition RelayList_OnServerConnected :: "xPA_RelayServerListManager \<Rightarrow> xPA_RelayServerListManager" where
  "RelayList_OnServerConnected s = s\<lparr>AvailableServerCount := AvailableServerCount s + 1\<rparr>"

definition RelayList_OnServerClose :: "xPA_RelayServerListManager \<Rightarrow> xPA_RelayServerListManager" where
  "RelayList_OnServerClose s = s\<lparr>AvailableServerCount := AvailableServerCount s - 1\<rparr>"

definition RelayList_OnServerPacket ::
    "u32 \<Rightarrow> u64 \<Rightarrow> bytes \<Rightarrow> xPA_RelayServerListManager \<Rightarrow> bool \<times> xPA_RelayServerListManager" where
  "RelayList_OnServerPacket cmd rid Payload s = (True, s)"

subsection \<open>The registry is a queue of relay servers\<close>

definition relay_queue ::
    "('l \<Rightarrow> unit \<Rightarrow> nat list) \<Rightarrow> ('a, 'i, 'l) relay_registry \<Rightarrow> 'a xCC_RelayServerBase list" where
  "relay_queue items s = map ((!) (RelayServerPool s)) (items (RelayServerListAll s) ())"

text \<open>
  A slot on the list has an id of the manager and a key with its index in the lower half; the others are
  as made.
\<close>

definition registry_ok ::
    "('i \<Rightarrow> u32 set) \<Rightarrow> ('l \<Rightarrow> unit \<Rightarrow> nat list) \<Rightarrow> 'a \<Rightarrow> ('a, 'i, 'l) relay_registry \<Rightarrow> bool" where
  "registry_ok used items noaddr s \<longleftrightarrow>
     (let q = items (RelayServerListAll s) () in
      length (RelayServerPool s) = RelayServerPoolSize \<and> distinct q \<and>
      used (RelayIdManager s) = (\<lambda>j. word_of_nat (Suc j)) ` set q \<and>
      (\<forall>j \<in> set q. j < RelayServerPoolSize \<and> Low32 (Key (RelayServerPool s ! j)) = word_of_nat j) \<and>
      (\<forall>j < RelayServerPoolSize. j \<notin> set q \<longrightarrow> RelayServerPool s ! j = fresh_relay noaddr))"

locale relay_registry_env = id_manager im used + hooked_lists li items
  for im :: "'i id_ops" and used :: "'i \<Rightarrow> u32 set"
    and li :: "('l, unit, nat) list_ops" and items :: "'l \<Rightarrow> unit \<Rightarrow> nat list"

lemma pool_index:
  "j < RelayServerPoolSize \<Longrightarrow> unat (word_of_nat j :: u32) = j"
  by (intro unat_of_nat_small) (simp add: RelayServerPoolSize_def)

lemma pool_index_inj:
  assumes "i < RelayServerPoolSize" "j < RelayServerPoolSize"
  shows "(word_of_nat (Suc i) :: u32) = word_of_nat (Suc j) \<longleftrightarrow> i = j"
proof -
  have "unat (word_of_nat (Suc k) :: u32) = Suc k" if "k < RelayServerPoolSize" for k
    using that by (intro unat_of_nat_small) (simp add: RelayServerPoolSize_def)
  with assms show ?thesis by (metis nat.inject)
qed

context relay_registry_env
begin

lemma get_any:
  assumes ok: "registry_ok used items noaddr s"
  shows "case relay_queue items s of
      [] \<Rightarrow> GetAnyRelayServer li s = (None, s)
    | B # Bs \<Rightarrow> \<exists>t. GetAnyRelayServer li s = (Some B, t) \<and> registry_ok used items noaddr t \<and>
        relay_queue items t = Bs @ [B]"
proof (cases "items (RelayServerListAll s) ()")
  case Nil
  then show ?thesis by (simp add: relay_queue_def GetAnyRelayServer_def pop_head_empty)
next
  case (Cons H q)
  then obtain l where l: "li_pop_head li (RelayServerListAll s) () (\<lambda>_. True) = Some (H, l)"
      "items l = (items (RelayServerListAll s))(() := q)"
    using pop_head_take by metis
  have "H \<notin> set q" using ok Cons by (simp add: registry_ok_def Let_def)
  then have a: "items (li_add_tail li l () H) () = q @ [H]" by (simp add: add_tail_items l(2))
  have "registry_ok used items noaddr (s\<lparr>RelayServerListAll := li_add_tail li l () H\<rparr>)"
    using ok Cons by (auto simp: registry_ok_def Let_def a)
  then show ?thesis by (simp add: relay_queue_def Cons GetAnyRelayServer_def l(1) a)
qed

lemma remove_key:
  assumes ok: "registry_ok used items noaddr s" and k: "k \<noteq> 0"
  shows "registry_ok used items noaddr (RemoveServerInfoByKey im li noaddr k s)"
    "relay_queue items (RemoveServerInfoByKey im li noaddr k s) = filter (\<lambda>B. Key B \<noteq> k) (relay_queue items s)"
proof -
  let ?t = "RemoveServerInfoByKey im li noaddr k s" let ?j = "unat (Low32 k)"
  let ?q = "items (RelayServerListAll s) ()"
  have len: "length (RelayServerPool s) = RelayServerPoolSize" and d: "distinct ?q"
    and q: "\<And>j. j \<in> set ?q \<Longrightarrow> j < RelayServerPoolSize \<and> Low32 (Key (RelayServerPool s ! j)) = word_of_nat j"
    and f: "\<And>j. j < RelayServerPoolSize \<Longrightarrow> j \<notin> set ?q \<Longrightarrow> RelayServerPool s ! j = fresh_relay noaddr"
    and u: "used (RelayIdManager s) = (\<lambda>j. word_of_nat (Suc j)) ` set ?q"
    using ok by (auto simp: registry_ok_def Let_def)
  have owner: "j = ?j" if "j \<in> set ?q" "Key (RelayServerPool s ! j) = k" for j
    using q [OF that(1)] that(2) pool_index by auto
  show "registry_ok used items noaddr ?t" "relay_queue items ?t = filter (\<lambda>B. Key B \<noteq> k) (relay_queue items s)"
  proof (atomize (full), cases "?j < RelayServerPoolSize \<and> Key (RelayServerPool s ! ?j) = k")
    case True
    then have j: "?j \<in> set ?q" "?j < RelayServerPoolSize"
      using f [of ?j] k by (cases "?j \<in> set ?q"; simp add: fresh_relay_def)+
    have id: "Low32 k + 1 = word_of_nat (Suc ?j)" by simp
    then have rel: "used (id_release im (RelayIdManager s) (Low32 k + 1)) = used (RelayIdManager s) - {word_of_nat (Suc ?j)}"
      using release [of "word_of_nat (Suc ?j)" "RelayIdManager s"] j(1) unfolding id u by blast
    have t: "?t = (RenewRelay li noaddr ?j s)\<lparr>RelayIdManager := id_release im (RelayIdManager s) (Low32 k + 1)\<rparr>"
      using True len by (simp add: RemoveServerInfoByKey_def Let_def)
    have qt: "items (RelayServerListAll ?t) () = removeAll ?j ?q"
      by (simp add: t RenewRelay_def remove_items)
    have ut: "used (RelayIdManager ?t) = (\<lambda>j. word_of_nat (Suc j)) ` (set ?q - {?j})"
    proof -
      have "used (RelayIdManager ?t) = used (RelayIdManager s) - {word_of_nat (Suc ?j)}" using rel by (simp add: t del: of_nat_Suc)
      also have "\<dots> = (\<lambda>j. word_of_nat (Suc j)) ` (set ?q - {?j})"
        unfolding u using pool_index_inj q j by (auto simp del: of_nat_Suc)
      finally show ?thesis .
    qed
    have pt: "RelayServerPool ?t = (RelayServerPool s)[?j := fresh_relay noaddr]" by (simp add: t RenewRelay_def)
    have "registry_ok used items noaddr ?t"
      unfolding registry_ok_def Let_def qt ut pt using d q f len j
      by (auto simp: distinct_removeAll nth_list_update)
    moreover have "relay_queue items ?t = filter (\<lambda>B. Key B \<noteq> k) (relay_queue items s)"
    proof -
      have "filter (\<lambda>i. Key (RelayServerPool s ! i) \<noteq> k) ?q = removeAll ?j ?q"
        unfolding removeAll_filter_not_eq by (rule filter_cong [OF refl]) (use owner True in auto)
      then have "filter (\<lambda>B. Key B \<noteq> k) (relay_queue items s) = map ((!) (RelayServerPool s)) (removeAll ?j ?q)"
        by (simp add: relay_queue_def filter_map o_def)
      also have "\<dots> = relay_queue items ?t" unfolding relay_queue_def qt pt by (intro map_cong) auto
      finally show ?thesis ..
    qed
    ultimately show "registry_ok used items noaddr ?t \<and>
      relay_queue items ?t = filter (\<lambda>B. Key B \<noteq> k) (relay_queue items s)" ..
  next
    case False
    then have "?t = s" using len by (auto simp: RemoveServerInfoByKey_def Let_def)
    moreover have "Key (RelayServerPool s ! j) \<noteq> k" if "j \<in> set ?q" for j
      using owner [OF that] q [OF that] False by auto
    then have "filter (\<lambda>B. Key B \<noteq> k) (relay_queue items s) = relay_queue items s"
      by (auto simp: relay_queue_def filter_id_conv)
    ultimately show "registry_ok used items noaddr ?t \<and>
      relay_queue items ?t = filter (\<lambda>B. Key B \<noteq> k) (relay_queue items s)" using ok by simp
  qed
qed

lemma add_server:
  assumes ok: "registry_ok used items noaddr s" and b: "Key B = 0"
  shows "\<exists>k t. AddServerInfo im li now B s = Some (k, t) \<and> registry_ok used items noaddr t \<and>
    (if relay_queue items t = relay_queue items s then
       k = 0 \<and> (id_max im \<le> word_of_nat RelayServerPoolSize \<longrightarrow> unat (id_max im) \<le> length (relay_queue items s))
     else High32 k = Low32 now \<and> k \<notin> Key ` set (relay_queue items s) \<and>
       relay_queue items t = relay_queue items s @ [B\<lparr>Key := k\<rparr>])"
proof -
  let ?q = "items (RelayServerListAll s) ()"
  have len: "length (RelayServerPool s) = RelayServerPoolSize" and d: "distinct ?q"
    and q: "\<And>j. j \<in> set ?q \<Longrightarrow> j < RelayServerPoolSize \<and> Low32 (Key (RelayServerPool s ! j)) = word_of_nat j"
    and f: "\<And>j. j < RelayServerPoolSize \<Longrightarrow> j \<notin> set ?q \<Longrightarrow> RelayServerPool s ! j = fresh_relay noaddr"
    and u: "used (RelayIdManager s) = (\<lambda>j. word_of_nat (Suc j)) ` set ?q"
    using ok by (auto simp: registry_ok_def Let_def)
  obtain i m where i: "id_acquire im (RelayIdManager s) = (i, m)" by (cases "id_acquire im (RelayIdManager s)")
  consider (full) "i = 0" | (big) "i \<noteq> 0" "unat i > RelayServerPoolSize" | (slot) "i \<noteq> 0" "unat i \<le> RelayServerPoolSize"
    by linarith
  then show ?thesis
  proof cases
    case full
    then have m: "used m = used (RelayIdManager s)" "{1 .. id_max im} \<subseteq> used (RelayIdManager s)"
      using acquire_none i by auto
    have "unat (id_max im) \<le> length ?q" if le: "id_max im \<le> word_of_nat RelayServerPoolSize"
    proof -
      let ?f = "\<lambda>n. word_of_nat (Suc n) :: u32"
      have n: "unat (id_max im) \<le> RelayServerPoolSize" using le by (simp add: word_le_nat_alt RelayServerPoolSize_def)
      have "?f ` {..< unat (id_max im)} \<subseteq> used (RelayIdManager s)"
      proof (intro image_subsetI subsetD [OF m(2)])
        fix x assume "x \<in> {..< unat (id_max im)}"
        then have "Suc x \<le> unat (id_max im)" by simp
        moreover have "unat (?f x) = Suc x" using calculation n by (intro unat_of_nat_small) (simp add: RelayServerPoolSize_def)
        ultimately show "?f x \<in> {1 .. id_max im}" by (simp add: word_le_nat_alt del: of_nat_Suc)
      qed
      moreover have "inj_on ?f {..< unat (id_max im)}" using pool_index_inj n by (auto simp: inj_on_def simp del: of_nat_Suc)
      ultimately have "card {..< unat (id_max im)} \<le> card (used (RelayIdManager s))"
        unfolding u by (metis card_image card_mono finite_imageI finite_set)
      also have "\<dots> \<le> length ?q" unfolding u by (meson card_image_le card_length finite_set le_trans)
      finally show ?thesis by simp
    qed
    moreover have "AddServerInfo im li now B s = Some (0, s\<lparr>RelayIdManager := m\<rparr>)"
      using full i b by (simp add: AddServerInfo_def)
    moreover have "registry_ok used items noaddr (s\<lparr>RelayIdManager := m\<rparr>)"
      using ok m(1) by (simp add: registry_ok_def)
    ultimately show ?thesis by (simp add: relay_queue_def)
  next
    case big
    then have a: "i \<le> id_max im" "i \<notin> used (RelayIdManager s)" "used m = insert i (used (RelayIdManager s))"
      using acquire_some i by auto
    then have "used (id_release im m i) = used (RelayIdManager s)" using release [of i m] by auto
    then have "registry_ok used items noaddr (s\<lparr>RelayIdManager := id_release im m i\<rparr>)"
      using ok by (simp add: registry_ok_def)
    moreover have "AddServerInfo im li now B s = Some (0, s\<lparr>RelayIdManager := id_release im m i\<rparr>)"
      using big i b len by (simp add: AddServerInfo_def)
    moreover have "\<not> id_max im \<le> word_of_nat RelayServerPoolSize"
      using big(2) a(1) by (auto simp: word_le_nat_alt RelayServerPoolSize_def)
    ultimately show ?thesis by (simp add: relay_queue_def)
  next
    case slot
    let ?j = "unat (i - 1)" let ?k = "Make64 (Low32 now) (i - 1)"
    let ?t = "s\<lparr>RelayIdManager := m, RelayServerPool := (RelayServerPool s)[?j := B\<lparr>Key := ?k\<rparr>],
      RelayServerListAll := li_add_tail li (RelayServerListAll s) () ?j\<rparr>"
    have a: "i \<notin> used (RelayIdManager s)" "used m = insert i (used (RelayIdManager s))"
      using acquire_some [OF i slot(1)] by auto
    have "unat i \<noteq> 0" using slot(1) by (simp add: unat_eq_0)
    then have j: "Suc ?j = unat i" using slot(1) by (simp add: unat_minus_one)
    then have ij: "i = word_of_nat (Suc ?j)" by simp
    have jn: "?j < RelayServerPoolSize" "?j \<notin> set ?q"
      using slot(2) j a(1) ij unfolding u by (simp, blast)
    have fr: "RelayServerPool s ! ?j = fresh_relay noaddr" using f jn by blast
    have add: "AddServerInfo im li now B s = Some (?k, ?t)"
      using slot i b len jn fr by (simp add: AddServerInfo_def Let_def fresh_relay_def)
    have qt: "items (RelayServerListAll ?t) () = ?q @ [?j]" using jn by (simp add: add_tail_items)
    have "registry_ok used items noaddr ?t"
      unfolding registry_ok_def Let_def qt using d q f len jn a(2) u ij
      by (auto simp: nth_list_update simp del: of_nat_Suc)
    moreover have "relay_queue items ?t = relay_queue items s @ [B\<lparr>Key := ?k\<rparr>]"
      unfolding relay_queue_def qt using jn len by (auto simp: nth_list_update)
    moreover have "?k \<notin> Key ` set (relay_queue items s)"
    proof
      assume "?k \<in> Key ` set (relay_queue items s)"
      then obtain j' where j': "j' \<in> set ?q" "Key (RelayServerPool s ! j') = ?k" by (auto simp: relay_queue_def)
      then have "i - 1 = word_of_nat j'" using q [OF j'(1)] by simp
      then show False using pool_index q j' jn(2) by metis
    qed
    ultimately show ?thesis using add by (intro exI [of _ ?k] exI [of _ ?t]) simp
  qed
qed

lemma registry_init:
  assumes "length (RelayServerPool s) = RelayServerPoolSize" "items (RelayServerListAll s) () = []" "used m = {}"
  shows "registry_ok used items noaddr (RelayServerManager_Init li noaddr m s)"
    "relay_queue items (RelayServerManager_Init li noaddr m s) = []"
proof -
  have "let t = fold (RenewRelay li noaddr) [0 ..< n] u in
      length (RelayServerPool t) = length (RelayServerPool u) \<and> items (RelayServerListAll t) () = [] \<and>
      RelayIdManager t = RelayIdManager u \<and> (\<forall>j < n. RelayServerPool t ! j = fresh_relay noaddr)"
    if "n \<le> length (RelayServerPool u)" "items (RelayServerListAll u) () = []" for n and u :: "('a, 'i, 'l) relay_registry"
    using that by (induction n) (auto simp: Let_def RenewRelay_def remove_items nth_list_update less_Suc_eq)
  from this [of "length (RelayServerPool s)" "s\<lparr>RelayIdManager := m\<rparr>"] assms
  show "registry_ok used items noaddr (RelayServerManager_Init li noaddr m s)"
    "relay_queue items (RelayServerManager_Init li noaddr m s) = []"
    by (auto simp: RelayServerManager_Init_def registry_ok_def relay_queue_def Let_def)
qed

lemma forced_added:
  assumes "registry_ok used items noaddr s" "\<forall>(now, A) \<in> set As. Key A = 0"
    "id_max im \<le> word_of_nat RelayServerPoolSize" "length (relay_queue items s) + length As \<le> unat (id_max im)"
  shows "\<exists>t. add_forced im li As s = Some t \<and> registry_ok used items noaddr t \<and>
    map (\<lambda>B. (CtrlAddress B, DataAddress B)) (relay_queue items t) =
      map (\<lambda>B. (CtrlAddress B, DataAddress B)) (relay_queue items s @ map snd As)"
  using assms
proof (induction As arbitrary: s)
  case (Cons x As)
  obtain now A where x: "x = (now, A)" by (cases x)
  obtain k u where u: "AddServerInfo im li now A s = Some (k, u)" "registry_ok used items noaddr u"
      "relay_queue items u = relay_queue items s @ [A\<lparr>Key := k\<rparr>]"
    using add_server [OF Cons.prems(1), of A now] Cons.prems(2-4) x by (auto split: if_splits)
  have "\<exists>t. add_forced im li As u = Some t \<and> registry_ok used items noaddr t \<and>
      map (\<lambda>B. (CtrlAddress B, DataAddress B)) (relay_queue items t) =
        map (\<lambda>B. (CtrlAddress B, DataAddress B)) (relay_queue items u @ map snd As)"
    using Cons.IH [OF u(2)] Cons.prems(2-4) u(3) by simp
  with u(1,3) x show ?case by auto
qed simp

end

subsection \<open>Challenges in a row\<close>

definition accepted :: "'a cc_lib \<Rightarrow> bytes \<Rightarrow> bool" where
  "accepted L D \<longleftrightarrow> cl_header_size L \<le> length D \<and> PacketSize (cl_header L D) = length D \<and>
     CommandId (cl_header L D) = Cmd_DV_CC_Challenge \<and>
     (let R = challenge_request L (drop (cl_header_size L) D) in
      xCC_DeviceChallenge.Sign R = challenge_sign L (xCC_DeviceChallenge.Timestamp R))"

definition challenge_answer :: "'a cc_lib \<Rightarrow> 'a xCC_RelayServerBase \<Rightarrow> 'a \<Rightarrow> 'a xCC_DeviceChallengeResp" where
  "challenge_answer L B A = xCC_DeviceChallengeResp.make (CtrlAddress B) (DataAddress B)
     (region_key L (GetRegionByIp L (cl_ip_string L A))) (cl_ip L A) False False"

fun challenge_run ::
    "'a cc_lib \<Rightarrow> ('l, unit, nat) list_ops \<Rightarrow> (bytes \<times> 'a) list \<Rightarrow> ('a, 'i, 'l) relay_registry \<Rightarrow>
     'a cc_action list \<times> ('a, 'i, 'l) relay_registry" where
  "challenge_run L li [] s = ([], s)"
| "challenge_run L li ((D, A) # ds) s =
     (let (out, s) = Challenge_OnData L li D A s; (outs, s) = challenge_run L li ds s in (out @ outs, s))"

lemma not_accepted: "\<not> accepted L D \<Longrightarrow> Challenge_OnData L li D A s = ([], s)"
  by (auto simp: accepted_def Challenge_OnData_def reactor_OnData_def OnTerminalChallenge_def Let_def)

lemma accepted_answer:
  "accepted L D \<Longrightarrow> GetAnyRelayServer li s = (Some B, t) \<Longrightarrow>
   Challenge_OnData L li D A s = ([PostUdp A Cmd_DV_CC_ChallengeResp 0
     (ser_xCC_DeviceChallengeResp (cl_wire L) (challenge_answer L B A))], t)"
  by (simp add: accepted_def Challenge_OnData_def reactor_OnData_def OnTerminalChallenge_def Let_def
      GetRelayServerByRegion_def challenge_answer_def)

context relay_registry_env
begin

lemma challenges_in_turn:
  assumes "registry_ok used items noaddr s" "relay_queue items s = rotate k Q" "Q \<noteq> []"
  shows "fst (challenge_run L li ds s) =
    map (\<lambda>(i, A). PostUdp A Cmd_DV_CC_ChallengeResp 0
        (ser_xCC_DeviceChallengeResp (cl_wire L) (challenge_answer L (Q ! (i mod length Q)) A)))
      (enumerate k (map snd (filter (accepted L \<circ> fst) ds)))"
  using assms
proof (induction ds arbitrary: k s)
  case (Cons x ds)
  obtain D A where x: "x = (D, A)" by (cases x)
  show ?case
  proof (cases "accepted L D")
    case True
    obtain B Bs where q: "relay_queue items s = B # Bs" using Cons.prems(2,3) by (metis list.exhaust rotate_is_Nil_conv)
    then obtain t where t: "GetAnyRelayServer li s = (Some B, t)" "registry_ok used items noaddr t"
        "relay_queue items t = Bs @ [B]"
      using get_any [OF Cons.prems(1)] by auto
    have "B = Q ! (k mod length Q)" using q Cons.prems(2,3) by (metis hd_rotate_conv_nth list.sel(1))
    moreover have "relay_queue items t = rotate (Suc k) Q" using t(3) q Cons.prems(2) by (simp add: rotate_Suc)
    ultimately show ?thesis
      using Cons.IH [OF t(2) _ Cons.prems(3)] accepted_answer [OF True t(1), of A] True x
      by (simp add: Let_def split_beta)
  next
    case False
    then show ?thesis using Cons.IH [OF Cons.prems] not_accepted [OF False, of li A s] x by (simp add: Let_def split_beta)
  qed
qed simp

end

interpretation ref_relays: relay_registry_env "ref_ids 8" set ref_lists "\<lambda>l. l"
  by (rule relay_registry_env.intro [OF ref_im.id_manager_axioms ref_lists_contract])

subsection \<open>Properties\<close>

text \<open>
  C34: The registry of relay servers is a queue. In a state that keeps its invariant, asking for a server gives
  the one at the head and moves it to the end, and none only when the queue is empty; a server that is added goes
  to the end under a key no other has, whose upper half is the time, and is refused with the key 0 only when
  every id is taken; taking a key away removes exactly the server that has it. The invariant is kept.
\<close>

theorem relay_registry:
  fixes s :: "('a, 'i, 'l) relay_registry"
  assumes "id_manager im used" "hooked_lists li items" "registry_ok used items noaddr s"
  shows "(case relay_queue items s of
        [] \<Rightarrow> GetAnyRelayServer li s = (None, s)
      | B # Bs \<Rightarrow> \<exists>t. GetAnyRelayServer li s = (Some B, t) \<and> registry_ok used items noaddr t \<and>
          relay_queue items t = Bs @ [B]) \<and>
    (\<forall>now B. Key B = 0 \<longrightarrow> (\<exists>k t. AddServerInfo im li now B s = Some (k, t) \<and> registry_ok used items noaddr t \<and>
      (if relay_queue items t = relay_queue items s then
         k = 0 \<and> (id_max im \<le> word_of_nat RelayServerPoolSize \<longrightarrow> unat (id_max im) \<le> length (relay_queue items s))
       else High32 k = Low32 now \<and> k \<notin> Key ` set (relay_queue items s) \<and>
         relay_queue items t = relay_queue items s @ [B\<lparr>Key := k\<rparr>]))) \<and>
    (\<forall>k. k \<noteq> 0 \<longrightarrow> registry_ok used items noaddr (RemoveServerInfoByKey im li noaddr k s) \<and>
      relay_queue items (RemoveServerInfoByKey im li noaddr k s) = filter (\<lambda>B. Key B \<noteq> k) (relay_queue items s))"
proof -
  note env = relay_registry_env.intro [OF assms(1,2)]
  show ?thesis
    by (intro conjI allI impI relay_registry_env.get_any [OF env assms(3)]
        relay_registry_env.add_server [OF env assms(3)] relay_registry_env.remove_key [OF env assms(3)])
qed

definition demo_registry :: "(ref_addr, u32 list, unit \<Rightarrow> nat list) relay_registry" where
  "demo_registry = RelayServerManager_Init ref_lists (RefNone 0) []
     \<lparr>RelayServerListAll = (\<lambda>_. []), RelayServerPool = replicate RelayServerPoolSize (fresh_relay (RefNone 0)),
      RelayIdManager = []\<rparr>"

definition demo_relay :: "u32 \<Rightarrow> ref_addr xCC_RelayServerBase" where
  "demo_relay n = \<lparr>Key = 0, CtrlAddress = RefV4 n 1, DataAddress = RefV4 n 2, PAAddress = RefV4 n 3\<rparr>"

lemma demo_registry_ok:
  "registry_ok set (\<lambda>l. l) (RefNone 0) demo_registry" "relay_queue (\<lambda>l. l) demo_registry = []"
  unfolding demo_registry_def by (rule ref_relays.registry_init; simp)+

theorem relay_registry_witness:
  "\<exists>k t. AddServerInfo (ref_ids 8) ref_lists 5 (demo_relay 7) demo_registry = Some (k, t) \<and>
     relay_queue (\<lambda>l. l) t = [(demo_relay 7)\<lparr>Key := k\<rparr>] \<and> High32 k = 5"
proof -
  have "\<not> 8 \<le> (0 :: nat)" by simp
  then show ?thesis
    using relay_registry [OF ref_im.id_manager_axioms ref_lists_contract demo_registry_ok(1), THEN conjunct2, THEN conjunct1,
        rule_format, of "demo_relay 7" 5] demo_registry_ok(2)
    by (auto simp: demo_relay_def ref_ids_def RelayServerPoolSize_def Low32_def split: if_splits)
qed

text \<open>
  C7: Devices are spread over the configured relay servers. From the start of the process, with the configured
  servers \<open>As\<close> in the registry, whatever datagrams arrive at the challenge channel: the accepted ones, and only
  they, are answered, each with one packet to its sender, and the \<open>i\<close>-th of them reads back as the addresses of
  the server \<open>i mod length As\<close>, the sender's own address and the key of its region. A well-formed packet with the right
  sign is accepted.
\<close>

theorem devices_share_relays:
  fixes s0 :: "('a, 'i, 'l) relay_registry"
  assumes lib: "id_manager im used" "hooked_lists li items" "wire_codec (cl_wire L)"
    and start: "length (RelayServerPool s0) = RelayServerPoolSize" "items (RelayServerListAll s0) () = []" "used m = {}"
    and conf: "As \<noteq> []" "\<forall>(now, A) \<in> set As. Key A = 0" "id_max im \<le> word_of_nat RelayServerPoolSize"
      "length As \<le> unat (id_max im)"
    and keys: "\<forall>R. length (region_key L R) \<le> w_str_max (cl_wire L)"
  shows "\<exists>s. add_forced im li As (RelayServerManager_Init li noaddr m s0) = Some s \<and>
    (let outs = fst (challenge_run L li ds s); asked = map snd (filter (accepted L \<circ> fst) ds) in
      length outs = length asked \<and>
      (\<forall>i < length asked. \<exists>P. outs ! i = PostUdp (asked ! i) Cmd_DV_CC_ChallengeResp 0 P \<and>
        (let B = snd (As ! (i mod length As)) in
         des_xCC_DeviceChallengeResp (cl_wire L) P = Some (challenge_answer L B (asked ! i), [])))) \<and>
    (\<forall>D v t. cl_header_size L \<le> length D \<and> PacketSize (cl_header L D) = length D \<and>
       CommandId (cl_header L D) = Cmd_DV_CC_Challenge \<and> length (challenge_sign L t) \<le> w_str_max (cl_wire L) \<and>
       drop (cl_header_size L) D = ser_xCC_DeviceChallenge (cl_wire L) (xCC_DeviceChallenge.make v t (challenge_sign L t)) \<longrightarrow>
       accepted L D)"
proof -
  note env = relay_registry_env.intro [OF lib(1,2)]
  let ?f = "\<lambda>B. (CtrlAddress B, DataAddress B)"
  let ?i = "RelayServerManager_Init li noaddr m s0"
  have i: "registry_ok used items noaddr ?i" "relay_queue items ?i = []"
    by (rule relay_registry_env.registry_init [where im = im, OF env start])+
  then obtain s where s: "add_forced im li As ?i = Some s" "registry_ok used items noaddr s"
      "map ?f (relay_queue items s) = map ?f (map snd As)"
    using relay_registry_env.forced_added [OF env i(1) conf(2,3)] conf(4) by auto
  have len: "length (relay_queue items s) = length As" using arg_cong [OF s(3), of length] by simp
  then have ne: "relay_queue items s \<noteq> []" using conf(1) by auto
  have ans: "challenge_answer L (relay_queue items s ! (i mod length As)) A = challenge_answer L (snd (As ! (i mod length As))) A"
    for i A
  proof -
    have "i mod length As < length As" using conf(1) by simp
    then show ?thesis using nth_map [of _ "relay_queue items s" ?f] nth_map [of _ "map snd As" ?f] s(3) len
      by (simp add: challenge_answer_def)
  qed
  have rt: "des_xCC_DeviceChallengeResp (cl_wire L) (ser_xCC_DeviceChallengeResp (cl_wire L) (challenge_answer L B A)) =
      Some (challenge_answer L B A, [])" for B A
    using wire_codec.ser_des_xCC_DeviceChallengeResp [OF lib(3), of "challenge_answer L B A" "[]"] keys
    by (simp add: ok_xCC_DeviceChallengeResp_def challenge_answer_def xCC_DeviceChallengeResp.defs)
  have acc: "accepted L D" if "cl_header_size L \<le> length D" "PacketSize (cl_header L D) = length D"
      "CommandId (cl_header L D) = Cmd_DV_CC_Challenge" "length (challenge_sign L t) \<le> w_str_max (cl_wire L)"
      "drop (cl_header_size L) D = ser_xCC_DeviceChallenge (cl_wire L) (xCC_DeviceChallenge.make v t (challenge_sign L t))" for D v t
    using that wire_codec.ser_des_xCC_DeviceChallenge [OF lib(3), of "xCC_DeviceChallenge.make v t (challenge_sign L t)" "[]"]
    by (simp add: accepted_def challenge_request_def ok_xCC_DeviceChallenge_def xCC_DeviceChallenge.defs)
  show ?thesis
    using s(1) acc relay_registry_env.challenges_in_turn [OF env s(2) _ ne, of 0 L ds]
    by (auto simp: Let_def len nth_enumerate_eq ans rt)
qed

definition demo_cc_lib :: "ref_addr cc_lib" where
  "demo_cc_lib = \<lparr>cl_wire = ref_wire, cl_header_size = 1,
     cl_header = (\<lambda>D. \<lparr>CommandId = Cmd_DV_CC_Challenge, RequestId = 0, PacketSize = unat (hd D), IsKeepAlive = False\<rparr>),
     cl_md5 = (\<lambda>s. s), cl_hex = (\<lambda>s. s), cl_w4 = put_le 4, cl_no_addr = RefNone 0, cl_ip = (\<lambda>A. A),
     cl_ip_string = (\<lambda>_. []), cl_ipdb = (\<lambda>_. None), cl_partial = (\<lambda>_. xCC_DeviceChallenge.make 0 0 [])\<rparr>"

definition demo_challenge :: "bytes \<Rightarrow> bytes" where
  "demo_challenge sign = (let P = ser_xCC_DeviceChallenge ref_wire (xCC_DeviceChallenge.make 1 5 sign) in
     word_of_nat (Suc (length P)) # P)"

definition demo_challenges :: "(bytes \<times> ref_addr) list" where
  "demo_challenges = [(demo_challenge (bytes_of ''TLMPP15''), RefV4 90 1), (demo_challenge (bytes_of ''x''), RefV4 91 1),
     (demo_challenge (bytes_of ''TLMPP15''), RefV4 92 1)]"

lemma demo_asked: "map snd (filter (accepted demo_cc_lib \<circ> fst) demo_challenges) = [RefV4 90 1, RefV4 92 1]"
  by code_simp

lemma demo_region_key: "\<forall>R. length (region_key demo_cc_lib R) \<le> w_str_max (cl_wire demo_cc_lib)"
  by (simp add: region_key_def demo_cc_lib_def ref_wire_def put_le_def eval_nat_numeral)

theorem devices_share_relays_witness:
  "\<exists>s P Q. add_forced (ref_ids 8) ref_lists [(0, demo_relay 7), (0, demo_relay 8)] demo_registry = Some s \<and>
     fst (challenge_run demo_cc_lib ref_lists demo_challenges s) =
       [PostUdp (RefV4 90 1) Cmd_DV_CC_ChallengeResp 0 P, PostUdp (RefV4 92 1) Cmd_DV_CC_ChallengeResp 0 Q] \<and>
     map_option (xCC_DeviceChallengeResp.DataAddress \<circ> fst) (des_xCC_DeviceChallengeResp ref_wire P) = Some (RefV4 7 2) \<and>
     map_option (xCC_DeviceChallengeResp.DataAddress \<circ> fst) (des_xCC_DeviceChallengeResp ref_wire Q) = Some (RefV4 8 2)"
proof -
  let ?s0 = "\<lparr>RelayServerListAll = (\<lambda>_ :: unit. []), RelayServerPool = replicate RelayServerPoolSize (fresh_relay (RefNone 0)),
      RelayIdManager = [] :: u32 list\<rparr>"
  have w: "cl_wire demo_cc_lib = ref_wire" by (simp add: demo_cc_lib_def)
  have h: "wire_codec (cl_wire demo_cc_lib)" "length (RelayServerPool ?s0) = RelayServerPoolSize"
    "RelayServerListAll ?s0 () = []" "set [] = ({} :: u32 set)"
    "[(0 :: u64, demo_relay 7), (0, demo_relay 8)] \<noteq> []" "\<forall>(now, A) \<in> set [(0 :: u64, demo_relay 7), (0, demo_relay 8)]. Key A = 0"
    "id_max (ref_ids 8) \<le> word_of_nat RelayServerPoolSize"
    "length [(0 :: u64, demo_relay 7), (0, demo_relay 8)] \<le> unat (id_max (ref_ids 8))"
    by (simp_all add: w ref_wire_contract demo_relay_def ref_ids_def RelayServerPoolSize_def)
  from devices_share_relays [where items = "\<lambda>l. l" and used = set and m = "[]" and ?s0.0 = ?s0 and L = demo_cc_lib
      and noaddr = "RefNone 0" and ds = demo_challenges, OF ref_im.id_manager_axioms ref_lists_contract h demo_region_key]
  obtain s where s: "add_forced (ref_ids 8) ref_lists [(0, demo_relay 7), (0, demo_relay 8)] demo_registry = Some s"
    and len: "length (fst (challenge_run demo_cc_lib ref_lists demo_challenges s)) = 2"
    and all: "\<forall>i < 2. \<exists>P. fst (challenge_run demo_cc_lib ref_lists demo_challenges s) ! i =
        PostUdp ([RefV4 90 1, RefV4 92 1] ! i) Cmd_DV_CC_ChallengeResp 0 P \<and>
        des_xCC_DeviceChallengeResp ref_wire P = Some (challenge_answer demo_cc_lib
          (snd ([(0 :: u64, demo_relay 7), (0, demo_relay 8)] ! (i mod 2))) ([RefV4 90 1, RefV4 92 1] ! i), [])"
    unfolding demo_asked w demo_registry_def by (auto simp: Let_def eval_nat_numeral)
  let ?outs = "fst (challenge_run demo_cc_lib ref_lists demo_challenges s)"
  have two: "?outs = [?outs ! 0, ?outs ! 1]" using len by (cases ?outs; cases "tl ?outs") auto
  obtain P where P: "?outs ! 0 = PostUdp (RefV4 90 1) Cmd_DV_CC_ChallengeResp 0 P"
      "des_xCC_DeviceChallengeResp ref_wire P = Some (challenge_answer demo_cc_lib (demo_relay 7) (RefV4 90 1), [])"
    using all [rule_format, of 0] by auto
  obtain Q where Q: "?outs ! 1 = PostUdp (RefV4 92 1) Cmd_DV_CC_ChallengeResp 0 Q"
      "des_xCC_DeviceChallengeResp ref_wire Q = Some (challenge_answer demo_cc_lib (demo_relay 8) (RefV4 92 1), [])"
    using all [rule_format, of 1] by auto
  have "?outs = [PostUdp (RefV4 90 1) Cmd_DV_CC_ChallengeResp 0 P, PostUdp (RefV4 92 1) Cmd_DV_CC_ChallengeResp 0 Q]"
    using two P(1) Q(1) by simp
  then show ?thesis using s P(2) Q(2)
    by (intro exI [of _ s] exI [of _ P] exI [of _ Q]) (simp add: challenge_answer_def demo_relay_def xCC_DeviceChallengeResp.defs)
qed

text \<open>
  The list of relay servers never reaches a proxy access server: its manager asks for nothing but the version and
  takes no answer in, and the centre has no answer to a download.
\<close>

lemma relay_list_never_arrives:
  "(\<forall>p \<in> set (fst (RelayList_Tick wc rnd now s)). fst (snd p) = Cmd_CC_PA_GetRelayServerListVersion)"
  "RelayList_OnServerPacket cmd rid P s = (True, s)"
  "PAConfig_OnClientPacket wc Cmd_CC_PA_DownloadRelayServerList rid P = (True, None)"
  by (auto simp: RelayList_Tick_def StartDownloadRelayServerList_def Let_def RelayList_OnServerPacket_def
      PAConfig_OnClientPacket_def OnDownloadRelayServerList_def BuildTotalList_def command_defs)

text \<open>
  Taking the key 0 away while slot 0 is free releases the id 1, which no one holds.
\<close>

lemma key_zero_releases_free_slot:
  "length (RelayServerPool s) > 0 \<Longrightarrow> Key (RelayServerPool s ! 0) = 0 \<Longrightarrow>
   RelayIdManager (RemoveServerInfoByKey im li noaddr 0 s) = id_release im (RelayIdManager s) 1"
  by (simp add: RemoveServerInfoByKey_def Let_def Low32_def RenewRelay_def)

end
