(* ===== verification/DeviceObserver.thy ===== *)
theory DeviceObserver
  imports ServiceMessages ReportMessages Commands XelReference
begin

text \<open>
  The observer of the devices (\<^verbatim>\<open>src/cpp/src_app/observer_device_info/_main.cpp\<close>): it follows the updates that
  the device state relay broadcasts, keeps the devices that are online and posts a report of each update to the
  message queue of the backend. \<open>None\<close> is a failed assertion.
\<close>

subsection \<open>State and operations\<close>

record 'a xODI_DeviceInfo =
  DeviceUuid :: bytes
  OnlineTimestampMS :: u64
  LastKeepAliveTimestampMS :: u64
  Version :: u32
  PrimaryIpv4Address :: 'a
  PrimaryIpv6Address :: 'a
  TotalUploadSizeSinceOnline :: u64
  TotalDownloadSizeSinceOnline :: u64
  CurrentConnectionCount :: u32
  CurrentUdpChannelCount :: u32
  SupportUdpChannel :: bool
  SupportDnsRequests :: bool
  SpeedLimitEnabled :: bool
  TotalNewConnectionsSinceLastPost :: u32
  TotalClosedConnectionSinceLastPost :: u32
  TotalNewUdpChannelSinceLastPost :: u32
  TotalClosedUdpChannelSinceLastPost :: u32
  TotalDnsRequestSinceLastPost :: u32

text \<open>What \<^verbatim>\<open>DeviceMap[Uuid]\<close> inserts, and the report before its members are set.\<close>

definition fresh_odi :: "'a \<Rightarrow> 'a xODI_DeviceInfo" where
  "fresh_odi noaddr = xODI_DeviceInfo.make [] 0 0 0 noaddr noaddr 0 0 0 0 False False False 0 0 0 0 0"

definition fresh_report :: "'a \<Rightarrow> 'a xAD_BK_ReportDeviceInfoSingle" where
  "fresh_report noaddr = xAD_BK_ReportDeviceInfoSingle.make 0
     (xAD_BK_DeviceInfo.make 0 0 [] 0 0 noaddr noaddr 0 0 0 False False False False 0 0 0 0 0 0 0 0 0 0 0 0)"

text \<open>The nodes of the list are named by the key of the map that holds them.\<close>

record ('a, 'l) observer =
  DeviceMap :: "bytes \<rightharpoonup> 'a xODI_DeviceInfo"
  DeviceTimeoutList :: 'l

datatype kafka_post = KafkaPost bytes u32 u64 bytes

text \<open>\<open>glob\<close> is \<^verbatim>\<open>GlobalTicker()\<close>, \<open>tick\<close> is \<^verbatim>\<open>GetTickTimeMS()\<close>.\<close>

definition device_report :: "'a \<Rightarrow> u64 \<Rightarrow> 'a xODI_DeviceInfo \<Rightarrow> bool \<Rightarrow> 'a xAD_BK_ReportDeviceInfoSingle" where
  "device_report noaddr glob DP Online =
     (let Req = fresh_report noaddr in
      Req\<lparr>LocalAuditTimestampMS := glob,
        DeviceInfo := (DeviceInfo Req)\<lparr>
          xAD_BK_DeviceInfo.Version := Version DP,
          xAD_BK_DeviceInfo.DeviceUuid := DeviceUuid DP,
          xAD_BK_DeviceInfo.PrimaryIpv4Address := PrimaryIpv4Address DP,
          xAD_BK_DeviceInfo.PrimaryIpv6Address := PrimaryIpv6Address DP,
          xAD_BK_DeviceInfo.IsOffline := \<not> Online,
          xAD_BK_DeviceInfo.SupportUdpChannel := SupportUdpChannel DP,
          xAD_BK_DeviceInfo.SupportDnsRequests := SupportDnsRequests DP,
          xAD_BK_DeviceInfo.SpeedLimitEnabled := SpeedLimitEnabled DP,
          xAD_BK_DeviceInfo.TotalOnlineTimeMS := glob - OnlineTimestampMS DP\<rparr>\<rparr>)"

definition PostDeviceInfo :: "'a wire \<Rightarrow> 'a \<Rightarrow> u64 \<Rightarrow> 'a xODI_DeviceInfo \<Rightarrow> bool \<Rightarrow> kafka_post" where
  "PostDeviceInfo wc noaddr glob DP Online =
     KafkaPost (DeviceUuid DP) Cmd_AuditTerminalInfo2 0
       (ser_xAD_BK_ReportDeviceInfoSingle wc (device_report noaddr glob DP Online))"

text \<open>\<open>PP0\<close> is the message before it is read.\<close>

definition OnDeviceUpdate ::
    "'a wire \<Rightarrow> 'a \<Rightarrow> ('l, unit, bytes) list_ops \<Rightarrow> 'a xPP_DeviceInfoUpdate \<Rightarrow> u64 \<Rightarrow> u64 \<Rightarrow> bytes \<Rightarrow>
     ('a, 'l) observer \<Rightarrow> (kafka_post list \<times> ('a, 'l) observer) option" where
  "OnDeviceUpdate wc noaddr li PP0 glob tick Payload s =
     (case des_xPP_DeviceInfoUpdate wc PP0 Payload of
        None \<Rightarrow> Some ([], s)
      | Some (PP, _) \<Rightarrow>
          let uuid = xPP_DeviceInfoUpdate.DeviceUuid PP in
          if xPP_DeviceInfoUpdate.IsOffline PP then
            (case DeviceMap s uuid of
               None \<Rightarrow> Some ([], s)
             | Some DI \<Rightarrow> Some ([PostDeviceInfo wc noaddr glob DI False],
                 s\<lparr>DeviceMap := (DeviceMap s)(uuid := None),
                   DeviceTimeoutList := li_remove li (DeviceTimeoutList s) uuid\<rparr>))
          else
            let DI = (case DeviceMap s uuid of None \<Rightarrow> fresh_odi noaddr | Some DI \<Rightarrow> DI) in
            if DeviceUuid DI = [] then
              if OnlineTimestampMS DI \<noteq> 0 then None
              else
                let DI = DI\<lparr>DeviceUuid := uuid, OnlineTimestampMS := tick,
                  Version := xPP_DeviceInfoUpdate.Version PP,
                  PrimaryIpv4Address := xPP_DeviceInfoUpdate.PrimaryIpv4Address PP,
                  PrimaryIpv6Address := xPP_DeviceInfoUpdate.PrimaryIpv6Address PP,
                  SupportUdpChannel := xPP_DeviceInfoUpdate.SupportUdpChannel PP,
                  SupportDnsRequests := xPP_DeviceInfoUpdate.SupportDnsRequests PP,
                  SpeedLimitEnabled := xPP_DeviceInfoUpdate.SpeedLimitEnabled PP\<rparr> in
                Some ([PostDeviceInfo wc noaddr glob DI True],
                  s\<lparr>DeviceMap := (DeviceMap s)(uuid \<mapsto> DI\<lparr>LastKeepAliveTimestampMS := tick\<rparr>),
                    DeviceTimeoutList := li_add_tail li (DeviceTimeoutList s) () uuid\<rparr>)
            else
              Some ([PostDeviceInfo wc noaddr glob DI True],
                s\<lparr>DeviceMap := (DeviceMap s)(uuid \<mapsto> DI\<lparr>LastKeepAliveTimestampMS := tick\<rparr>),
                  DeviceTimeoutList := li_grab_tail li (DeviceTimeoutList s) () uuid\<rparr>))"

definition ODI_OnServerPacket ::
    "'a wire \<Rightarrow> 'a \<Rightarrow> ('l, unit, bytes) list_ops \<Rightarrow> 'a xPP_DeviceInfoUpdate \<Rightarrow> u64 \<Rightarrow> u64 \<Rightarrow> u32 \<Rightarrow> u64 \<Rightarrow> bytes \<Rightarrow>
     ('a, 'l) observer \<Rightarrow> (bool \<times> kafka_post list \<times> ('a, 'l) observer) option" where
  "ODI_OnServerPacket wc noaddr li PP0 glob tick cmd rid Payload s =
     map_option (\<lambda>r. (True, r))
       (if cmd = Cmd_DSR_DS_DeviceUpdate then OnDeviceUpdate wc noaddr li PP0 glob tick Payload s
        else Some ([], s))"

subsection \<open>Runs over the packets of the relay\<close>

text \<open>An update with the two times at its arrival.\<close>

type_synonym 'a update = "'a xPP_DeviceInfoUpdate \<times> u64 \<times> u64"

fun observe ::
    "'a wire \<Rightarrow> 'a \<Rightarrow> ('l, unit, bytes) list_ops \<Rightarrow> 'a xPP_DeviceInfoUpdate \<Rightarrow> 'a update list \<Rightarrow>
     ('a, 'l) observer \<Rightarrow> (kafka_post list \<times> ('a, 'l) observer) option" where
  "observe wc noaddr li PP0 [] s = Some ([], s)"
| "observe wc noaddr li PP0 ((m, glob, tick) # es) s =
     (case ODI_OnServerPacket wc noaddr li PP0 glob tick Cmd_DSR_DS_DeviceUpdate 0 (ser_xPP_DeviceInfoUpdate wc m) s of
        None \<Rightarrow> None
      | Some (_, out, t) \<Rightarrow> map_option (\<lambda>(outs, u). (out @ outs, u)) (observe wc noaddr li PP0 es t))"

text \<open>
  The history tells whether a device is online and since which update: \<open>since past u\<close> is the update that brought
  \<open>u\<close> online, of a history with the latest update first.
\<close>

fun since :: "'a update list \<Rightarrow> bytes \<Rightarrow> 'a update option" where
  "since [] u = None"
| "since (e # past) u =
     (if xPP_DeviceInfoUpdate.DeviceUuid (fst e) \<noteq> u then since past u
      else if xPP_DeviceInfoUpdate.IsOffline (fst e) then None
      else case since past u of None \<Rightarrow> Some e | Some f \<Rightarrow> Some f)"

text \<open>
  The report of an update: the device as it was when it came online, and the time since then.
\<close>

definition report_since :: "'a \<Rightarrow> u64 \<Rightarrow> bool \<Rightarrow> 'a update \<Rightarrow> 'a xAD_BK_ReportDeviceInfoSingle" where
  "report_since noaddr glob offline e =
     (case e of (m, _, tick) \<Rightarrow>
      xAD_BK_ReportDeviceInfoSingle.make glob
        (xAD_BK_DeviceInfo.make (xPP_DeviceInfoUpdate.Version m) 0 (xPP_DeviceInfoUpdate.DeviceUuid m) 0 0
          (xPP_DeviceInfoUpdate.PrimaryIpv4Address m) (xPP_DeviceInfoUpdate.PrimaryIpv6Address m) 0 0 0 offline
          (xPP_DeviceInfoUpdate.SupportUdpChannel m) (xPP_DeviceInfoUpdate.SupportDnsRequests m)
          (xPP_DeviceInfoUpdate.SpeedLimitEnabled m) (glob - tick) 0 0 0 0 0 0 0 0 0 0 0))"

definition reports :: "'a \<Rightarrow> 'a update list \<Rightarrow> 'a update \<Rightarrow> 'a xAD_BK_ReportDeviceInfoSingle list" where
  "reports noaddr past e =
     (let u = xPP_DeviceInfoUpdate.DeviceUuid (fst e); glob = fst (snd e) in
      if xPP_DeviceInfoUpdate.IsOffline (fst e) then
        (case since past u of None \<Rightarrow> [] | Some f \<Rightarrow> [report_since noaddr glob True f])
      else [report_since noaddr glob False (the (since (e # past) u))])"

fun all_reports :: "'a \<Rightarrow> 'a update list \<Rightarrow> 'a update list \<Rightarrow> 'a xAD_BK_ReportDeviceInfoSingle list" where
  "all_reports noaddr past [] = []"
| "all_reports noaddr past (e # es) = reports noaddr past e @ all_reports noaddr (e # past) es"

definition posted_report :: "'a wire \<Rightarrow> 'a xAD_BK_ReportDeviceInfoSingle \<Rightarrow> kafka_post" where
  "posted_report wc r = KafkaPost (xAD_BK_DeviceInfo.DeviceUuid (DeviceInfo r)) Cmd_AuditTerminalInfo2 0
     (ser_xAD_BK_ReportDeviceInfoSingle wc r)"

text \<open>The device that the map holds for an update that brought it online; only its last keep-alive changes.\<close>

definition device_of :: "'a \<Rightarrow> 'a update \<Rightarrow> u64 \<Rightarrow> 'a xODI_DeviceInfo" where
  "device_of noaddr e alive =
     (case e of (m, _, tick) \<Rightarrow>
      (fresh_odi noaddr)\<lparr>DeviceUuid := xPP_DeviceInfoUpdate.DeviceUuid m, OnlineTimestampMS := tick,
        LastKeepAliveTimestampMS := alive, Version := xPP_DeviceInfoUpdate.Version m,
        PrimaryIpv4Address := xPP_DeviceInfoUpdate.PrimaryIpv4Address m,
        PrimaryIpv6Address := xPP_DeviceInfoUpdate.PrimaryIpv6Address m,
        SupportUdpChannel := xPP_DeviceInfoUpdate.SupportUdpChannel m,
        SupportDnsRequests := xPP_DeviceInfoUpdate.SupportDnsRequests m,
        SpeedLimitEnabled := xPP_DeviceInfoUpdate.SpeedLimitEnabled m\<rparr>)"

definition observed ::
    "('l \<Rightarrow> unit \<Rightarrow> bytes list) \<Rightarrow> 'a \<Rightarrow> 'a update list \<Rightarrow> ('a, 'l) observer \<Rightarrow> bool" where
  "observed items noaddr past s \<longleftrightarrow>
     (\<forall>u. since past u = None \<longrightarrow> DeviceMap s u = None) \<and>
     (\<forall>u e. since past u = Some e \<longrightarrow>
        xPP_DeviceInfoUpdate.DeviceUuid (fst e) = u \<and> (\<exists>alive. DeviceMap s u = Some (device_of noaddr e alive))) \<and>
     distinct (items (DeviceTimeoutList s) ()) \<and> set (items (DeviceTimeoutList s) ()) = dom (DeviceMap s)"

lemma post_device:
  "PostDeviceInfo wc noaddr glob (device_of noaddr e alive) on = posted_report wc (report_since noaddr glob (\<not> on) e)"
  by (cases e) (simp add: PostDeviceInfo_def posted_report_def device_of_def device_report_def report_since_def
      fresh_report_def fresh_odi_def xODI_DeviceInfo.defs xAD_BK_ReportDeviceInfoSingle.defs xAD_BK_DeviceInfo.defs Let_def)

locale observer_env = hooked_lists li items + wire_codec wc
  for li :: "('l, unit, bytes) list_ops" and items :: "'l \<Rightarrow> unit \<Rightarrow> bytes list" and wc :: "'a wire"
begin

lemma update_observed:
  assumes s: "observed items noaddr past s" and m: "ok_xPP_DeviceInfoUpdate wc m" "xPP_DeviceInfoUpdate.DeviceUuid m \<noteq> []"
  shows "\<exists>t. OnDeviceUpdate wc noaddr li PP0 glob tick (ser_xPP_DeviceInfoUpdate wc m) s =
      Some (map (posted_report wc) (reports noaddr past (m, glob, tick)), t) \<and>
    observed items noaddr ((m, glob, tick) # past) t"
proof -
  let ?u = "xPP_DeviceInfoUpdate.DeviceUuid m" let ?P = "ser_xPP_DeviceInfoUpdate wc m"
  obtain c where des: "des_xPP_DeviceInfoUpdate wc PP0 ?P = Some (m\<lparr>xPP_DeviceInfoUpdate.ContinentId := c\<rparr>, [])"
    using ser_des_xPP_DeviceInfoUpdate [OF m(1), of PP0 "[]"] by simp
  have d: "distinct (items (DeviceTimeoutList s) ())" "set (items (DeviceTimeoutList s) ()) = dom (DeviceMap s)"
    and known: "\<And>u e. since past u = Some e \<Longrightarrow>
      xPP_DeviceInfoUpdate.DeviceUuid (fst e) = u \<and> (\<exists>alive. DeviceMap s u = Some (device_of noaddr e alive))"
    and unknown: "\<And>u. since past u = None \<Longrightarrow> DeviceMap s u = None"
    using s unfolding observed_def by blast+
  have uuid: "DeviceUuid (device_of noaddr e alive) = xPP_DeviceInfoUpdate.DeviceUuid (fst e)" for e alive
    by (simp add: device_of_def split_beta)
  have alive: "(device_of noaddr e alive)\<lparr>LastKeepAliveTimestampMS := n\<rparr> = device_of noaddr e n" for e alive n
    by (simp add: device_of_def split_beta)
  show ?thesis
  proof (cases "since past ?u")
    case None
    note n = unknown [OF None]
    show ?thesis
    proof (cases "xPP_DeviceInfoUpdate.IsOffline m")
      case True
      then have "OnDeviceUpdate wc noaddr li PP0 glob tick ?P s = Some ([], s)"
        using n by (simp add: OnDeviceUpdate_def des Let_def)
      moreover have "observed items noaddr ((m, glob, tick) # past) s"
        using s n None True by (auto simp: observed_def)
      ultimately show ?thesis using True None by (simp add: reports_def)
    next
      case False
      let ?DI = "device_of noaddr (m, glob, tick) tick"
      let ?t = "s\<lparr>DeviceMap := (DeviceMap s)(?u \<mapsto> ?DI), DeviceTimeoutList := li_add_tail li (DeviceTimeoutList s) () ?u\<rparr>"
      have fresh: "(fresh_odi noaddr)\<lparr>DeviceUuid := ?u, OnlineTimestampMS := tick,
          Version := xPP_DeviceInfoUpdate.Version m, PrimaryIpv4Address := xPP_DeviceInfoUpdate.PrimaryIpv4Address m,
          PrimaryIpv6Address := xPP_DeviceInfoUpdate.PrimaryIpv6Address m,
          SupportUdpChannel := xPP_DeviceInfoUpdate.SupportUdpChannel m,
          SupportDnsRequests := xPP_DeviceInfoUpdate.SupportDnsRequests m,
          SpeedLimitEnabled := xPP_DeviceInfoUpdate.SpeedLimitEnabled m\<rparr> = device_of noaddr (m, glob, tick) 0"
        by (simp add: device_of_def fresh_odi_def xODI_DeviceInfo.defs)
      have fu: "DeviceUuid (fresh_odi noaddr) = []" "OnlineTimestampMS (fresh_odi noaddr) = 0"
        by (simp_all add: fresh_odi_def xODI_DeviceInfo.defs)
      have "OnDeviceUpdate wc noaddr li PP0 glob tick ?P s =
          Some ([posted_report wc (report_since noaddr glob False (m, glob, tick))], ?t)"
        using False n fresh by (simp add: OnDeviceUpdate_def des Let_def fu post_device alive)
      moreover have "items (DeviceTimeoutList ?t) () = items (DeviceTimeoutList s) () @ [?u]"
        using n d(2) by (simp add: add_tail_items domIff)
      then have "observed items noaddr ((m, glob, tick) # past) ?t"
        using d n known unknown None False by (auto simp: observed_def domIff split: option.splits)
      ultimately show ?thesis using False None by (simp add: reports_def)
    qed
  next
    case (Some e)
    then obtain al where e: "xPP_DeviceInfoUpdate.DeviceUuid (fst e) = ?u" "DeviceMap s ?u = Some (device_of noaddr e al)"
      using known by blast
    show ?thesis
    proof (cases "xPP_DeviceInfoUpdate.IsOffline m")
      case True
      let ?t = "s\<lparr>DeviceMap := (DeviceMap s)(?u := None), DeviceTimeoutList := li_remove li (DeviceTimeoutList s) ?u\<rparr>"
      have "OnDeviceUpdate wc noaddr li PP0 glob tick ?P s =
          Some ([posted_report wc (report_since noaddr glob True e)], ?t)"
        using True e(2) by (simp add: OnDeviceUpdate_def des Let_def post_device)
      moreover have "observed items noaddr ((m, glob, tick) # past) ?t"
        using d known unknown True by (auto simp: observed_def remove_items distinct_removeAll split: option.splits)
      ultimately show ?thesis using True Some by (simp add: reports_def)
    next
      case False
      let ?t = "s\<lparr>DeviceMap := (DeviceMap s)(?u \<mapsto> device_of noaddr e tick),
        DeviceTimeoutList := li_grab_tail li (DeviceTimeoutList s) () ?u\<rparr>"
      have "OnDeviceUpdate wc noaddr li PP0 glob tick ?P s =
          Some ([posted_report wc (report_since noaddr glob False e)], ?t)"
        using False e m(2) by (simp add: OnDeviceUpdate_def des Let_def uuid post_device alive)
      moreover have "observed items noaddr ((m, glob, tick) # past) ?t"
        using d known unknown False e Some
        by (auto simp: observed_def grab_tail_items distinct_removeAll split: option.splits)
      ultimately show ?thesis using False Some by (simp add: reports_def)
    qed
  qed
qed

lemma run_observed:
  assumes "observed items noaddr past s" "\<forall>(m, _) \<in> set es. ok_xPP_DeviceInfoUpdate wc m \<and> xPP_DeviceInfoUpdate.DeviceUuid m \<noteq> []"
  shows "\<exists>t. observe wc noaddr li PP0 es s = Some (map (posted_report wc) (all_reports noaddr past es), t) \<and>
    observed items noaddr (rev es @ past) t"
  using assms
proof (induction es arbitrary: past s)
  case (Cons x es)
  obtain m glob tick where x: "x = (m, glob, tick)" by (cases x) auto
  obtain t where t: "OnDeviceUpdate wc noaddr li PP0 glob tick (ser_xPP_DeviceInfoUpdate wc m) s =
      Some (map (posted_report wc) (reports noaddr past x), t)" "observed items noaddr (x # past) t"
    using update_observed [OF Cons.prems(1), where m = m and glob = glob and tick = tick and ?PP0.0 = PP0] Cons.prems(2) unfolding x by auto
  have "\<exists>u. observe wc noaddr li PP0 es t = Some (map (posted_report wc) (all_reports noaddr (x # past) es), u) \<and>
      observed items noaddr (rev es @ x # past) u"
    using Cons.IH [OF t(2)] Cons.prems(2) by simp
  with t(1) x show ?case by (auto simp: ODI_OnServerPacket_def)
qed simp

end

interpretation ref_observer: observer_env ref_lists "\<lambda>l. l" ref_wire
  by (rule observer_env.intro [OF ref_lists_contract ref_wire_contract])

subsection \<open>Properties\<close>

text \<open>
  C35: The observer reports every device from the history of its updates. Whatever updates arrive, of devices with a
  name, no assertion fails; each update of an online device, and the first one that takes it offline, is posted as
  one report under the name of the device, with the data it came online with and the time since then, and no other
  report is posted; the map and the list hold exactly the devices that are online.
\<close>

theorem observer_reports:
  assumes "hooked_lists li items" "wire_codec wc" "items l0 () = []"
    and "\<forall>(m, _) \<in> set es. ok_xPP_DeviceInfoUpdate wc m \<and> xPP_DeviceInfoUpdate.DeviceUuid m \<noteq> []"
  shows "\<exists>s. observe wc noaddr li PP0 es \<lparr>DeviceMap = Map.empty, DeviceTimeoutList = l0\<rparr> =
      Some (map (posted_report wc) (all_reports noaddr [] es), s) \<and>
    dom (DeviceMap s) = {u. since (rev es) u \<noteq> None} \<and>
    distinct (items (DeviceTimeoutList s) ()) \<and> set (items (DeviceTimeoutList s) ()) = dom (DeviceMap s)"
proof -
  have "observed items noaddr [] \<lparr>DeviceMap = Map.empty, DeviceTimeoutList = l0\<rparr>"
    using assms(3) by (simp add: observed_def)
  from observer_env.run_observed [OF observer_env.intro [OF assms(1,2)] this assms(4), of PP0]
  obtain s where s: "observe wc noaddr li PP0 es \<lparr>DeviceMap = Map.empty, DeviceTimeoutList = l0\<rparr> =
      Some (map (posted_report wc) (all_reports noaddr [] es), s)" "observed items noaddr (rev es) s" by auto
  then have "DeviceMap s u \<noteq> None \<longleftrightarrow> since (rev es) u \<noteq> None" for u
    unfolding observed_def by (metis not_None_eq)
  then have "dom (DeviceMap s) = {u. since (rev es) u \<noteq> None}" by (simp only: dom_def)
  with s show ?thesis unfolding observed_def by blast
qed

definition demo_update :: "bool \<Rightarrow> ref_addr xPP_DeviceInfoUpdate" where
  "demo_update off = xPP_DeviceInfoUpdate.make [65] 3 0 0 (RefV4 1 1) (RefNone 0) 0 0 0 0 off True False True"

definition demo_updates :: "ref_addr update list" where
  "demo_updates = [(demo_update False, 10, 10), (demo_update False, 25, 26), (demo_update True, 40, 41), (demo_update True, 50, 50)]"

theorem observer_reports_witness:
  "\<exists>s. observe ref_wire (RefNone 0) ref_lists (demo_update False) demo_updates \<lparr>DeviceMap = Map.empty, DeviceTimeoutList = \<lambda>_. []\<rparr> =
      Some (map (posted_report ref_wire) (all_reports (RefNone 0) [] demo_updates), s) \<and> DeviceMap s = Map.empty \<and>
    map (TotalOnlineTimeMS \<circ> DeviceInfo) (all_reports (RefNone 0) [] demo_updates) = [0, 15, 30]"
proof -
  have h: "\<forall>(m, _) \<in> set demo_updates. ok_xPP_DeviceInfoUpdate ref_wire m \<and> xPP_DeviceInfoUpdate.DeviceUuid m \<noteq> []"
    by (simp add: demo_updates_def demo_update_def ok_xPP_DeviceInfoUpdate_def ref_wire_def xPP_DeviceInfoUpdate.defs)
  have "since (rev demo_updates) u = None" for u by (simp add: demo_updates_def demo_update_def xPP_DeviceInfoUpdate.defs)
  moreover have "map (TotalOnlineTimeMS \<circ> DeviceInfo) (all_reports (RefNone 0) [] demo_updates) = [0, 15, 30]"
    by (simp add: demo_updates_def demo_update_def reports_def report_since_def xPP_DeviceInfoUpdate.defs
        xAD_BK_ReportDeviceInfoSingle.defs xAD_BK_DeviceInfo.defs)
  ultimately show ?thesis
    using observer_reports [where items = "\<lambda>l. l" and ?l0.0 = "\<lambda>_. []" and noaddr = "RefNone 0" and ?PP0.0 = "demo_update False",
        OF ref_lists_contract ref_wire_contract refl h] by auto
qed

text \<open>
  The time online is taken of two clocks: when the ticker of the loop is behind the clock at the arrival of the
  first update, its report has a time that wrapped around.
\<close>

lemma first_report_wraps:
  assumes "\<not> xPP_DeviceInfoUpdate.IsOffline m" "glob < tick"
  shows "map (unat \<circ> TotalOnlineTimeMS \<circ> DeviceInfo) (reports noaddr [] (m, glob, tick)) = [2 ^ 64 - unat (tick - glob)]"
proof -
  have "unat (glob - tick) = 2 ^ 64 - unat (tick - glob)"
    using assms(2) unat_sub_if' [of glob tick] unat_sub_if' [of tick glob] by (simp add: word_less_nat_alt)
  then show ?thesis using assms(1)
    by (simp add: reports_def report_since_def xAD_BK_ReportDeviceInfoSingle.defs xAD_BK_DeviceInfo.defs)
qed

text \<open>A device without a name fails the assertion with its second update.\<close>

lemma unnamed_device_fails:
  assumes "des_xPP_DeviceInfoUpdate wc PP0 P = Some (PP, r)" "\<not> xPP_DeviceInfoUpdate.IsOffline PP"
    "xPP_DeviceInfoUpdate.DeviceUuid PP = []" "DeviceMap s [] = None" "tick \<noteq> 0"
  shows "\<exists>out t. OnDeviceUpdate wc noaddr li PP0 glob tick P s = Some (out, t) \<and>
    OnDeviceUpdate wc noaddr li PP0 glob' tick' P t = None"
  using assms by (simp add: OnDeviceUpdate_def Let_def fresh_odi_def xODI_DeviceInfo.defs)

end
