(* ===== verification/RelayGroups.thy ===== *)
theory RelayGroups
  imports PacketStream XelReference
begin

text \<open>
  \<^verbatim>\<open>xPA_RelayConnectionManager\<close> (\<^verbatim>\<open>server_proxy_access/relay_connection_manager.cpp\<close>): groups of three
  connections to each relay server, kept alive and reconnected in the tick. The main loop runs it beside
  the manager that the handlers use (theory RelayClients); nothing adds a group to it.

  A group is an object on the heap, a connection is named by its group and its index. An operation is \<open>None\<close>
  where an assertion fails or a loop does not end.
\<close>

subsection \<open>State\<close>

record xPA_RelayConnection =
  LastKeepAliveRequestTimestampMS :: u64
  LastKeepAliveResponseTimestampMS :: u64
  ConnectionId :: u64
  Opened :: bool \<comment> \<open>\<^verbatim>\<open>IsOpen()\<close> of the TCP connection\<close>

record 'a xPA_RelayGroup =
  TargetAddress :: 'a
  NextPickIndex :: int
  Connections :: "xPA_RelayConnection list"

type_synonym connection = "nat \<times> nat"

text \<open>The lists that share the hook of \<^verbatim>\<open>xPA_RelayConnectionIdleNode\<close>; \<open>TempList\<close> is local to the tick.\<close>

datatype idle_list = IdleList | KillList | TempList

record ('a, 'p, 'l, 'g) xPA_RelayConnectionManager =
  Ticker :: u64
  Groups :: "nat \<rightharpoonup> 'a xPA_RelayGroup"
  NextGroup :: nat
  RelayGroupMap :: "u64 \<rightharpoonup> nat"
  ConnectionIdPool :: 'p
  IdleLists :: 'l
  KillGroupList :: 'g

type_synonym ('a, 'p, 'l, 'g) relay_groups = "('a, 'p, 'l, 'g) xPA_RelayConnectionManager"

text \<open>
  What it calls of the library: the pool of ids, whose slots hold a pointer to a connection, the lists, with
  \<^verbatim>\<open>GrabHead\<close>, \<^verbatim>\<open>SignedDiff\<close>, whether an address is usable and whether \<^verbatim>\<open>xTcpConnection::Init\<close> opens a socket.
\<close>

record ('a, 'p, 'l, 'g) rg_lib =
  rg_pool :: "('p, connection option) storage_ops"
  rg_lists :: "('l, idle_list, connection) list_ops"
  rg_grab_head :: "'l \<Rightarrow> idle_list \<Rightarrow> connection \<Rightarrow> 'l"
  rg_kill :: "('g, unit, nat) list_ops"
  rg_diff :: "u64 \<Rightarrow> u64 \<Rightarrow> int"
  rg_usable :: "'a \<Rightarrow> bool"
  rg_connect :: "'a \<Rightarrow> bool"

datatype rg_action = PostRequestKeepAlive connection

definition RECONNECT_OR_KEEPALIVE_TIMEOUT :: int where "RECONNECT_OR_KEEPALIVE_TIMEOUT = 60000"
definition KEEPALIVE_RESPONSE_TIMEOUT :: int where
  "KEEPALIVE_RESPONSE_TIMEOUT = RECONNECT_OR_KEEPALIVE_TIMEOUT div 3 + RECONNECT_OR_KEEPALIVE_TIMEOUT"
definition MAX_RECONNECT_OR_KEEPALIVE_CHECK_COUNT :: nat where "MAX_RECONNECT_OR_KEEPALIVE_CHECK_COUNT = 200"
definition CONNECTION_COUNT_PER_RELAY_GROUP :: nat where "CONNECTION_COUNT_PER_RELAY_GROUP = 3"

definition fresh_connection :: xPA_RelayConnection where
  "fresh_connection = \<lparr>LastKeepAliveRequestTimestampMS = 0, LastKeepAliveResponseTimestampMS = 0, ConnectionId = 0, Opened = False\<rparr>"

definition connection_at :: "('a, 'p, 'l, 'g) relay_groups \<Rightarrow> connection \<Rightarrow> xPA_RelayConnection option" where
  "connection_at s r = (case Groups s (fst r) of None \<Rightarrow> None
     | Some G \<Rightarrow> if snd r < length (Connections G) then Some (Connections G ! snd r) else None)"

definition write_connection ::
    "connection \<Rightarrow> (xPA_RelayConnection \<Rightarrow> xPA_RelayConnection) \<Rightarrow> ('a, 'p, 'l, 'g) relay_groups \<Rightarrow>
     ('a, 'p, 'l, 'g) relay_groups" where
  "write_connection r f s = (case Groups s (fst r) of None \<Rightarrow> s
     | Some G \<Rightarrow> s\<lparr>Groups := (Groups s)(fst r \<mapsto>
         G\<lparr>Connections := (Connections G)[snd r := f (Connections G ! snd r)]\<rparr>)\<rparr>)"

definition grab :: "('a, 'p, 'l, 'g) rg_lib \<Rightarrow> idle_list \<Rightarrow> connection \<Rightarrow> ('a, 'p, 'l, 'g) relay_groups \<Rightarrow>
    ('a, 'p, 'l, 'g) relay_groups" where
  "grab L n r s = s\<lparr>IdleLists := li_grab_tail (rg_lists L) (IdleLists s) n r\<rparr>"

subsection \<open>Operations\<close>

definition KeepAlive :: "('a, 'p, 'l, 'g) rg_lib \<Rightarrow> connection \<Rightarrow> ('a, 'p, 'l, 'g) relay_groups \<Rightarrow>
    ('a, 'p, 'l, 'g) relay_groups" where
  "KeepAlive L r s = grab L IdleList r (write_connection r (\<lambda>c. c\<lparr>LastKeepAliveResponseTimestampMS := Ticker s\<rparr>) s)"

definition DeferKillConnection :: "('a, 'p, 'l, 'g) rg_lib \<Rightarrow> connection \<Rightarrow> ('a, 'p, 'l, 'g) relay_groups \<Rightarrow>
    ('a, 'p, 'l, 'g) relay_groups" where
  "DeferKillConnection L r s = grab L KillList r s"

definition DeferKillGroup :: "('a, 'p, 'l, 'g) rg_lib \<Rightarrow> nat \<Rightarrow> ('a, 'p, 'l, 'g) relay_groups \<Rightarrow>
    ('a, 'p, 'l, 'g) relay_groups" where
  "DeferKillGroup L g s = s\<lparr>KillGroupList := li_grab_tail (rg_kill L) (KillGroupList s) () g\<rparr>"

definition GetConnectionById :: "('a, 'p, 'l, 'g) rg_lib \<Rightarrow> ('a, 'p, 'l, 'g) relay_groups \<Rightarrow> u64 \<Rightarrow> connection option" where
  "GetConnectionById L s i = (case st_get (rg_pool L) (ConnectionIdPool s) i of None \<Rightarrow> None | Some TCPP \<Rightarrow> TCPP)"

definition NewGroup :: "('a, 'p, 'l, 'g) rg_lib \<Rightarrow> u64 \<Rightarrow> 'a \<Rightarrow> ('a, 'p, 'l, 'g) relay_groups \<Rightarrow>
    ('a, 'p, 'l, 'g) relay_groups" where
  "NewGroup L sid addr s =
     (let g = NextGroup s in
      s\<lparr>NextGroup := Suc g, RelayGroupMap := (RelayGroupMap s)(sid \<mapsto> g),
        Groups := (Groups s)(g \<mapsto> \<lparr>TargetAddress = addr, NextPickIndex = 0,
          Connections = replicate CONNECTION_COUNT_PER_RELAY_GROUP fresh_connection\<rparr>),
        IdleLists := fold (\<lambda>i l. rg_grab_head L l IdleList (g, i)) [0 ..< CONNECTION_COUNT_PER_RELAY_GROUP] (IdleLists s)\<rparr>)"

definition AddRelayGroup :: "('a, 'p, 'l, 'g) rg_lib \<Rightarrow> u64 \<Rightarrow> 'a \<Rightarrow> ('a, 'p, 'l, 'g) relay_groups \<Rightarrow>
    ('a, 'p, 'l, 'g) relay_groups option" where
  "AddRelayGroup L sid addr s =
     (if \<not> rg_usable L addr then None
      else case RelayGroupMap s sid of
        None \<Rightarrow> Some (NewGroup L sid addr s)
      | Some g \<Rightarrow>
          (case Groups s g of None \<Rightarrow> None
           | Some G \<Rightarrow> if TargetAddress G = addr then Some s
               else Some (NewGroup L sid addr (DeferKillGroup L g s))))"

definition RG_OnConnected :: "('a, 'p, 'l, 'g) rg_lib \<Rightarrow> connection \<Rightarrow> ('a, 'p, 'l, 'g) relay_groups \<Rightarrow>
    ('a, 'p, 'l, 'g) relay_groups" where
  "RG_OnConnected L r s = KeepAlive L r s"

definition RG_OnPeerClose :: "('a, 'p, 'l, 'g) rg_lib \<Rightarrow> connection \<Rightarrow> ('a, 'p, 'l, 'g) relay_groups \<Rightarrow>
    ('a, 'p, 'l, 'g) relay_groups" where
  "RG_OnPeerClose L r s = DeferKillConnection L r s"

definition RG_OnPacket :: "connection \<Rightarrow> u32 \<Rightarrow> u64 \<Rightarrow> bytes \<Rightarrow> bool" where
  "RG_OnPacket r cmd rid Payload = True"

definition rg_handle :: "('a, 'p, 'l, 'g) rg_lib \<Rightarrow> connection \<Rightarrow> stream_header \<Rightarrow> bytes \<Rightarrow> ('a, 'p, 'l, 'g) relay_groups \<Rightarrow>
    bool \<times> ('a, 'p, 'l, 'g) relay_groups" where
  "rg_handle L r h Payload s =
     (if IsKeepAlive h then (True, KeepAlive L r s) else (RG_OnPacket r (CommandId h) (RequestId h) Payload, s))"

definition RG_OnData :: "('a, 'p, 'l, 'g) rg_lib \<Rightarrow> nat \<Rightarrow> (bytes \<Rightarrow> stream_header option) \<Rightarrow> connection \<Rightarrow> bytes \<Rightarrow>
    ('a, 'p, 'l, 'g) relay_groups \<Rightarrow> (nat option \<times> ('a, 'p, 'l, 'g) relay_groups) option" where
  "RG_OnData L hdr parse r Data s = packet_loop hdr parse (rg_handle L r) 0 Data s"

text \<open>\<^verbatim>\<open>ConnectionIdPool.Release(Steal(ConnectionId))\<close> and \<^verbatim>\<open>Clean()\<close> of the TCP connection.\<close>

definition close_connection :: "('a, 'p, 'l, 'g) rg_lib \<Rightarrow> connection \<Rightarrow> ('a, 'p, 'l, 'g) relay_groups \<Rightarrow>
    ('a, 'p, 'l, 'g) relay_groups" where
  "close_connection L r s =
     (case connection_at s r of None \<Rightarrow> s
      | Some c \<Rightarrow> write_connection r (\<lambda>c. c\<lparr>ConnectionId := 0, Opened := False\<rparr>)
          (s\<lparr>ConnectionIdPool := st_release (rg_pool L) (ConnectionIdPool s) (ConnectionId c)\<rparr>))"

definition pop_connection :: "('a, 'p, 'l, 'g) rg_lib \<Rightarrow> idle_list \<Rightarrow> (connection \<Rightarrow> bool) \<Rightarrow> ('a, 'p, 'l, 'g) relay_groups \<Rightarrow>
    (connection \<times> ('a, 'p, 'l, 'g) relay_groups) option" where
  "pop_connection L n P s =
     map_option (\<lambda>(r, l). (r, s\<lparr>IdleLists := l\<rparr>)) (li_pop_head (rg_lists L) (IdleLists s) n P)"

definition free_connection :: "('a, 'p, 'l, 'g) rg_lib \<Rightarrow> connection \<Rightarrow> ('a, 'p, 'l, 'g) relay_groups \<Rightarrow>
    ('a, 'p, 'l, 'g) relay_groups" where
  "free_connection L r s =
     grab L IdleList r (write_connection r (\<lambda>c. c\<lparr>LastKeepAliveRequestTimestampMS := Ticker s\<rparr>) (close_connection L r s))"

definition DoFreeKillList :: "('a, 'p, 'l, 'g) rg_lib \<Rightarrow> ('a, 'p, 'l, 'g) relay_groups \<Rightarrow>
    ('a, 'p, 'l, 'g) relay_groups option" where
  "DoFreeKillList L = pop_loop (pop_connection L KillList (\<lambda>_. True)) (free_connection L)"

text \<open>\<^verbatim>\<open>delete GP\<close> takes the nodes of the group off their lists.\<close>

definition DoFreeGroup :: "('a, 'p, 'l, 'g) rg_lib \<Rightarrow> nat \<Rightarrow> ('a, 'p, 'l, 'g) relay_groups \<Rightarrow>
    ('a, 'p, 'l, 'g) relay_groups" where
  "DoFreeGroup L g s =
     (let s = fold (\<lambda>i s. case connection_at s (g, i) of None \<Rightarrow> s
            | Some c \<Rightarrow> if Opened c then close_connection L (g, i) s else s)
          [0 ..< CONNECTION_COUNT_PER_RELAY_GROUP] s in
      s\<lparr>Groups := (Groups s)(g := None),
        IdleLists := fold (\<lambda>i l. li_remove (rg_lists L) l (g, i)) [0 ..< CONNECTION_COUNT_PER_RELAY_GROUP] (IdleLists s)\<rparr>)"

definition DoFreeKillGroupList :: "('a, 'p, 'l, 'g) rg_lib \<Rightarrow> ('a, 'p, 'l, 'g) relay_groups \<Rightarrow>
    ('a, 'p, 'l, 'g) relay_groups option" where
  "DoFreeKillGroupList L =
     pop_loop (\<lambda>s. map_option (\<lambda>(g, k). (g, s\<lparr>KillGroupList := k\<rparr>)) (li_pop_head (rg_kill L) (KillGroupList s) () (\<lambda>_. True)))
       (DoFreeGroup L)"

text \<open>The state of the loop of the tick: the checks counted and the requests posted are part of it.\<close>

type_synonym ('a, 'p, 'l, 'g) check_state = "nat \<times> rg_action list \<times> ('a, 'p, 'l, 'g) relay_groups"

definition pop_idle :: "('a, 'p, 'l, 'g) rg_lib \<Rightarrow> ('a, 'p, 'l, 'g) check_state \<Rightarrow>
    (connection \<times> ('a, 'p, 'l, 'g) check_state) option" where
  "pop_idle L q = (case q of (CheckCount, out, s) \<Rightarrow>
     map_option (\<lambda>(r, t). (r, CheckCount + 1, out, t))
       (pop_connection L IdleList (\<lambda>r. \<not> CheckCount + 1 > MAX_RECONNECT_OR_KEEPALIVE_CHECK_COUNT \<and>
          (case connection_at s r of None \<Rightarrow> False
           | Some c \<Rightarrow> RECONNECT_OR_KEEPALIVE_TIMEOUT \<le> rg_diff L (Ticker s) (LastKeepAliveRequestTimestampMS c))) s))"

definition check_connection :: "('a, 'p, 'l, 'g) rg_lib \<Rightarrow> connection \<Rightarrow> ('a, 'p, 'l, 'g) check_state \<Rightarrow>
    ('a, 'p, 'l, 'g) check_state" where
  "check_connection L r q = (case q of (CheckCount, out, s) \<Rightarrow>
     (case (Groups s (fst r), connection_at s r) of
        (Some G, Some c) \<Rightarrow>
          let later = (\<lambda>s. let s = write_connection r (\<lambda>c. c\<lparr>LastKeepAliveRequestTimestampMS := Ticker s\<rparr>) s in
                s\<lparr>IdleLists := li_add_tail (rg_lists L) (IdleLists s) TempList r\<rparr>) in
          if \<not> Opened c then
            let (i, p) = st_acquire (rg_pool L) (ConnectionIdPool s) in
            (CheckCount, out, later (write_connection r (\<lambda>c. c\<lparr>ConnectionId := i, Opened := rg_connect L (TargetAddress G)\<rparr>)
               (s\<lparr>ConnectionIdPool := p\<rparr>)))
          else if KEEPALIVE_RESPONSE_TIMEOUT \<le> rg_diff L (Ticker s) (LastKeepAliveResponseTimestampMS c) then
            (CheckCount, out, DeferKillConnection L r s)
          else (CheckCount, out @ [PostRequestKeepAlive r], later s)
      | _ \<Rightarrow> (CheckCount, out, s)))"

definition DoReconnectAndKeepAlive :: "('a, 'p, 'l, 'g) rg_lib \<Rightarrow> ('a, 'p, 'l, 'g) relay_groups \<Rightarrow>
    (rg_action list \<times> ('a, 'p, 'l, 'g) relay_groups) option" where
  "DoReconnectAndKeepAlive L s =
     map_option (\<lambda>(n, out, t). (out, t\<lparr>IdleLists := li_grab_list_tail (rg_lists L) (IdleLists t) IdleList TempList\<rparr>))
       (pop_loop (pop_idle L) (check_connection L) (0, [], s))"

definition RG_Tick :: "('a, 'p, 'l, 'g) rg_lib \<Rightarrow> u64 \<Rightarrow> ('a, 'p, 'l, 'g) relay_groups \<Rightarrow>
    (rg_action list \<times> ('a, 'p, 'l, 'g) relay_groups) option" where
  "RG_Tick L NowMS s =
     Option.bind (DoFreeKillList L (s\<lparr>Ticker := NowMS\<rparr>)) (\<lambda>s.
     Option.bind (DoFreeKillGroupList L s) (DoReconnectAndKeepAlive L))"

definition RG_Init :: "u64 \<Rightarrow> 'p \<Rightarrow> ('a, 'p, 'l, 'g) relay_groups \<Rightarrow> ('a, 'p, 'l, 'g) relay_groups" where
  "RG_Init NowMS p s = s\<lparr>ConnectionIdPool := p, Ticker := NowMS\<rparr>"

text \<open>\<open>sids\<close> lists the keys of the map in its order.\<close>

definition RG_Clean :: "('a, 'p, 'l, 'g) rg_lib \<Rightarrow> u64 list \<Rightarrow> 'p \<Rightarrow> ('a, 'p, 'l, 'g) relay_groups \<Rightarrow>
    ('a, 'p, 'l, 'g) relay_groups option" where
  "RG_Clean L sids p s =
     map_option (\<lambda>s. s\<lparr>ConnectionIdPool := p\<rparr>)
       (DoFreeKillGroupList L ((fold (\<lambda>sid s. case RelayGroupMap s sid of None \<Rightarrow> s | Some g \<Rightarrow> DeferKillGroup L g s) sids s)
          \<lparr>RelayGroupMap := Map.empty\<rparr>))"

subsection \<open>The invariant\<close>

text \<open>Every connection of a group on the heap is on exactly one list, once.\<close>

definition listed :: "(idle_list \<Rightarrow> connection list) \<Rightarrow> nat set \<Rightarrow> bool" where
  "listed ls D \<longleftrightarrow> distinct (ls IdleList @ ls KillList @ ls TempList) \<and>
     set (ls IdleList @ ls KillList @ ls TempList) = D \<times> {..< CONNECTION_COUNT_PER_RELAY_GROUP}"

text \<open>
  A group on the heap is the one of a single relay server or waits for its end. \<open>nulls\<close>: no slot of the id pool
  has a pointer.
\<close>

definition grouped :: "('g \<Rightarrow> unit \<Rightarrow> nat list) \<Rightarrow> ('a, 'p, 'l, 'g) relay_groups \<Rightarrow> bool" where
  "grouped kills s \<longleftrightarrow>
     (\<forall>g G. Groups s g = Some G \<longrightarrow> length (Connections G) = CONNECTION_COUNT_PER_RELAY_GROUP \<and> g < NextGroup s) \<and>
     inj_on (RelayGroupMap s) (dom (RelayGroupMap s)) \<and> distinct (kills (KillGroupList s) ()) \<and>
     ran (RelayGroupMap s) = dom (Groups s) - set (kills (KillGroupList s) ()) \<and>
     set (kills (KillGroupList s) ()) \<subseteq> dom (Groups s)"

definition nulls :: "('a, 'p, 'l, 'g) rg_lib \<Rightarrow> ('a, 'p, 'l, 'g) relay_groups \<Rightarrow> bool" where
  "nulls L s \<longleftrightarrow> (\<forall>i. GetConnectionById L s i = None)"

definition rg_ok ::
    "('a, 'p, 'l, 'g) rg_lib \<Rightarrow> ('l \<Rightarrow> idle_list \<Rightarrow> connection list) \<Rightarrow> ('g \<Rightarrow> unit \<Rightarrow> nat list) \<Rightarrow>
     ('a, 'p, 'l, 'g) relay_groups \<Rightarrow> bool" where
  "rg_ok L items kills s \<longleftrightarrow> listed (items (IdleLists s)) (dom (Groups s)) \<and> grouped kills s \<and> nulls L s"

lemma listed_move:
  assumes "listed ls D" "r \<in> D \<times> {..< CONNECTION_COUNT_PER_RELAY_GROUP}"
  shows "listed (\<lambda>m. removeAll r (ls m) @ (if m = n then [r] else [])) D"
  using assms by (cases n) (auto simp: listed_def distinct_removeAll)

lemma listed_pop:
  assumes "listed ls D" "ls n = r # q" "ls' n = q" "\<And>m. m \<noteq> n \<Longrightarrow> ls' m = ls m"
  shows "r \<in> D \<times> {..< CONNECTION_COUNT_PER_RELAY_GROUP}" "\<And>m. r \<notin> set (ls' m)"
    "listed (\<lambda>m. removeAll r (ls' m) @ (if m = k then [r] else [])) D"
proof -
  have i: "r \<in> set (ls n)" using assms(2) by simp
  have s: "set (ls n) \<subseteq> set (ls IdleList @ ls KillList @ ls TempList)" by (cases n) auto
  show r: "r \<in> D \<times> {..< CONNECTION_COUNT_PER_RELAY_GROUP}"
    using i s assms(1) unfolding listed_def by blast
  show "r \<notin> set (ls' m)" for m
    using assms unfolding listed_def by (cases n; cases m; simp; force)
  have "removeAll r (ls' m) = removeAll r (ls m)" for m using assms(2-4) by (cases "m = n") auto
  then show "listed (\<lambda>m. removeAll r (ls' m) @ (if m = k then [r] else [])) D"
    using listed_move [OF assms(1) r, of k] by simp
qed

lemma listed_cong: "listed ls D \<Longrightarrow> (\<And>m. ls' m = ls m) \<Longrightarrow> listed ls' D"
  by (simp add: listed_def)

subsection \<open>Writes to a connection\<close>

lemma write_connection_fields [simp]:
  "dom (Groups (write_connection r f s)) = dom (Groups s)" "IdleLists (write_connection r f s) = IdleLists s"
  "KillGroupList (write_connection r f s) = KillGroupList s" "RelayGroupMap (write_connection r f s) = RelayGroupMap s"
  "NextGroup (write_connection r f s) = NextGroup s" "Ticker (write_connection r f s) = Ticker s"
  "ConnectionIdPool (write_connection r f s) = ConnectionIdPool s"
  by (auto simp: write_connection_def split: option.splits)

lemma close_connection_fields [simp]:
  "dom (Groups (close_connection L r s)) = dom (Groups s)" "IdleLists (close_connection L r s) = IdleLists s"
  "KillGroupList (close_connection L r s) = KillGroupList s" "RelayGroupMap (close_connection L r s) = RelayGroupMap s"
  "NextGroup (close_connection L r s) = NextGroup s" "Ticker (close_connection L r s) = Ticker s"
  by (auto simp: close_connection_def split: option.splits)

lemma update_grouped [simp]:
  "grouped kills (s\<lparr>IdleLists := l\<rparr>) = grouped kills s" "grouped kills (s\<lparr>ConnectionIdPool := p\<rparr>) = grouped kills s"
  "grouped kills (s\<lparr>Ticker := n\<rparr>) = grouped kills s"
  by (simp_all add: grouped_def)

lemma write_connection_grouped: "grouped kills s \<Longrightarrow> grouped kills (write_connection r f s)"
  by (cases "Groups s (fst r)") (auto simp: grouped_def write_connection_def insert_absorb domI)

lemma close_connection_grouped: "grouped kills s \<Longrightarrow> grouped kills (close_connection L r s)"
  by (cases "connection_at s r") (simp_all add: close_connection_def write_connection_grouped)

lemma update_nulls [simp]:
  "nulls L (s\<lparr>IdleLists := l\<rparr>) = nulls L s" "nulls L (write_connection r f s) = nulls L s"
  "nulls L (s\<lparr>Ticker := n\<rparr>) = nulls L s" "nulls L (s\<lparr>Groups := G\<rparr>) = nulls L s"
  "nulls L (s\<lparr>KillGroupList := k\<rparr>) = nulls L s"
  by (simp_all add: nulls_def GetConnectionById_def)

locale rg_env =
  indexed_storage "rg_pool L" None + hooked_lists "rg_lists L" items + kill: hooked_lists "rg_kill L" kills
  for L :: "('a, 'p, 'l, 'g) rg_lib" and items :: "'l \<Rightarrow> idle_list \<Rightarrow> connection list"
    and kills :: "'g \<Rightarrow> unit \<Rightarrow> nat list" +
  assumes grab_head_items: "items (rg_grab_head L l n x) = (\<lambda>m. (if m = n then [x] else []) @ removeAll x (items l m))"
begin

lemma close_connection_nulls: "nulls L s \<Longrightarrow> nulls L (close_connection L r s)"
  by (auto simp: close_connection_def nulls_def GetConnectionById_def release_get split: option.splits)

lemma acquire_nulls:
  assumes "nulls L s" "st_acquire (rg_pool L) (ConnectionIdPool s) = (i, p)"
  shows "nulls L (s\<lparr>ConnectionIdPool := p\<rparr>)"
proof (cases "i = 0")
  case True
  then show ?thesis using assms acquire_full by (simp add: nulls_def GetConnectionById_def)
next
  case False
  then show ?thesis using assms acquire_get [OF assms(2)] by (auto simp: nulls_def GetConnectionById_def split: option.splits)
qed

lemma pop_connection_Some:
  assumes "rg_ok L items kills s" "pop_connection L n P s = Some (r, t)"
  shows "P r" "items (IdleLists s) n = r # items (IdleLists t) n" "\<And>m. m \<noteq> n \<Longrightarrow> items (IdleLists t) m = items (IdleLists s) m"
    "t = s\<lparr>IdleLists := IdleLists t\<rparr>" "r \<in> dom (Groups s) \<times> {..< CONNECTION_COUNT_PER_RELAY_GROUP}"
    "\<And>m. r \<notin> set (items (IdleLists t) m)" "grouped kills t" "nulls L t"
    "listed (\<lambda>m. removeAll r (items (IdleLists t) m) @ (if m = k then [r] else [])) (dom (Groups t))"
proof -
  from assms(2) obtain l where l: "li_pop_head (rg_lists L) (IdleLists s) n P = Some (r, l)" "t = s\<lparr>IdleLists := l\<rparr>"
    by (auto simp: pop_connection_def)
  show a: "P r" "items (IdleLists s) n = r # items (IdleLists t) n" "\<And>m. m \<noteq> n \<Longrightarrow> items (IdleLists t) m = items (IdleLists s) m"
    using pop_head_Some [OF l(1)] l(2) by auto
  show "t = s\<lparr>IdleLists := IdleLists t\<rparr>" "grouped kills t" "nulls L t" using l(2) assms(1) by (simp_all add: rg_ok_def)
  have ls: "listed (items (IdleLists s)) (dom (Groups s))" using assms(1) by (simp add: rg_ok_def)
  have b: "listed (\<lambda>m. removeAll r (items (IdleLists t) m) @ (if m = k then [r] else [])) (dom (Groups s))"
    "r \<in> dom (Groups s) \<times> {..< CONNECTION_COUNT_PER_RELAY_GROUP}" "\<And>m. r \<notin> set (items (IdleLists t) m)"
    using listed_pop [where ls = "items (IdleLists s)" and ls' = "items (IdleLists t)" and n = n, OF ls a(2) refl a(3)] by blast+
  then show "r \<in> dom (Groups s) \<times> {..< CONNECTION_COUNT_PER_RELAY_GROUP}" "\<And>m. r \<notin> set (items (IdleLists t) m)" by blast+
  show "listed (\<lambda>m. removeAll r (items (IdleLists t) m) @ (if m = k then [r] else [])) (dom (Groups t))"
    using b(1) l(2) by simp
qed

subsubsection \<open>Handlers and the kill list\<close>

lemma grab_ok:
  "rg_ok L items kills s \<Longrightarrow> r \<in> dom (Groups s) \<times> {..< CONNECTION_COUNT_PER_RELAY_GROUP} \<Longrightarrow>
   rg_ok L items kills (grab L n r s)"
  by (simp add: rg_ok_def grab_def grab_tail_items listed_move)

lemma write_ok: "rg_ok L items kills s \<Longrightarrow> rg_ok L items kills (write_connection r f s)"
  by (simp add: rg_ok_def write_connection_grouped)

lemma KeepAlive_ok:
  "rg_ok L items kills s \<Longrightarrow> r \<in> dom (Groups s) \<times> {..< CONNECTION_COUNT_PER_RELAY_GROUP} \<Longrightarrow>
   rg_ok L items kills (KeepAlive L r s)"
  unfolding KeepAlive_def by (rule grab_ok [OF write_ok]) simp_all

lemma grab_temp: "n \<noteq> TempList \<Longrightarrow> items (IdleLists s) TempList = [] \<Longrightarrow> items (IdleLists (grab L n r s)) TempList = []"
  by (simp add: grab_def grab_tail_items)

text \<open>What the ticks leave alone.\<close>

definition same_groups :: "('a, 'p, 'l, 'g) relay_groups \<Rightarrow> ('a, 'p, 'l, 'g) relay_groups \<Rightarrow> bool" where
  "same_groups s t \<longleftrightarrow> dom (Groups t) = dom (Groups s) \<and> KillGroupList t = KillGroupList s \<and>
     RelayGroupMap t = RelayGroupMap s \<and> NextGroup t = NextGroup s \<and> Ticker t = Ticker s"

lemma kill_list_freed:
  assumes "rg_ok L items kills s" "items (IdleLists s) TempList = []"
  shows "\<exists>t. DoFreeKillList L s = Some t \<and> rg_ok L items kills t \<and> items (IdleLists t) TempList = [] \<and>
    items (IdleLists t) KillList = [] \<and> same_groups s t"
proof -
  let ?I = "\<lambda>t. rg_ok L items kills t \<and> items (IdleLists t) TempList = [] \<and> same_groups s t"
  have body: "?I (free_connection L r u) \<and>
      length (items (IdleLists (free_connection L r u)) KillList) < length (items (IdleLists t) KillList)"
    if I: "?I t" and pop: "pop_connection L KillList (\<lambda>_. True) t = Some (r, u)" for t r u
  proof -
    have ok: "rg_ok L items kills t" using I by simp
    note p = pop_connection_Some [OF ok pop]
    have u: "dom (Groups u) = dom (Groups t)" "KillGroupList u = KillGroupList t" "RelayGroupMap u = RelayGroupMap t"
      "NextGroup u = NextGroup t" "Ticker u = Ticker t" by (subst p(4), simp)+
    have "rg_ok L items kills (free_connection L r u)"
      unfolding rg_ok_def free_connection_def grab_def using p(7,8) p(9) [of IdleList]
      by (simp add: grab_tail_items write_connection_grouped close_connection_grouped close_connection_nulls)
    moreover have "items (IdleLists (free_connection L r u)) TempList = []"
      using I p(3) [of TempList] by (simp add: free_connection_def grab_def grab_tail_items)
    moreover have "items (IdleLists (free_connection L r u)) KillList = items (IdleLists u) KillList"
      using p(6) by (simp add: free_connection_def grab_def grab_tail_items)
    ultimately show ?thesis using I p(2) u by (simp add: free_connection_def grab_def same_groups_def)
  qed
  have "\<exists>t. pop_loop (pop_connection L KillList (\<lambda>_. True)) (free_connection L) s = Some t \<and> ?I t \<and>
      pop_connection L KillList (\<lambda>_. True) t = None"
    by (rule pop_loop_total [where m = "\<lambda>t. length (items (IdleLists t) KillList)"])
      (use assms body in \<open>auto simp: same_groups_def\<close>)
  then show ?thesis by (auto simp: DoFreeKillList_def pop_connection_def pop_head_None)
qed

subsubsection \<open>The end of a group\<close>

lemma removed_items:
  "items (fold (\<lambda>i l. li_remove (rg_lists L) l (g, i)) xs l) m = filter (\<lambda>r. r \<notin> Pair g ` set xs) (items l m)"
  by (induction xs arbitrary: l) (auto simp: remove_items removeAll_filter_not_eq intro!: filter_cong)

lemma closed_group:
  assumes "rg_ok L items kills s"
  shows "let t = fold (\<lambda>i s. case connection_at s (g, i) of None \<Rightarrow> s
      | Some c \<Rightarrow> if Opened c then close_connection L (g, i) s else s) xs s in
    grouped kills t \<and> nulls L t \<and> IdleLists t = IdleLists s \<and> same_groups s t"
  using assms
proof (induction xs arbitrary: s)
  case (Cons x xs)
  let ?t = "case connection_at s (g, x) of None \<Rightarrow> s | Some c \<Rightarrow> if Opened c then close_connection L (g, x) s else s"
  have t: "rg_ok L items kills ?t" "IdleLists ?t = IdleLists s" "same_groups s ?t"
    using Cons.prems by (auto simp: rg_ok_def close_connection_grouped close_connection_nulls same_groups_def split: option.splits)
  from Cons.IH [OF t(1)] t(2,3) show ?case by (simp add: Let_def same_groups_def)
qed (simp add: rg_ok_def same_groups_def)

lemma connection_at_kill [simp]: "connection_at (s\<lparr>KillGroupList := q\<rparr>) r = connection_at s r"
  by (simp add: connection_at_def)

lemma close_connection_kill [simp]:
  "close_connection L r (s\<lparr>KillGroupList := q\<rparr>) = (close_connection L r s)\<lparr>KillGroupList := q\<rparr>"
  by (auto simp: close_connection_def write_connection_def split: option.splits)

lemma group_freed:
  assumes ok: "rg_ok L items kills s" and temp: "items (IdleLists s) TempList = []"
    and k: "kills (KillGroupList s) () = g # ks" and q: "kills q () = ks"
  shows "let t = DoFreeGroup L g (s\<lparr>KillGroupList := q\<rparr>) in
    rg_ok L items kills t \<and> items (IdleLists t) TempList = [] \<and> kills (KillGroupList t) () = ks \<and> Ticker t = Ticker s"
proof -
  define f where "f = (\<lambda>i s. case connection_at s (g, i) of None \<Rightarrow> s
      | Some c \<Rightarrow> if Opened c then close_connection L (g, i) s else s)"
  let ?is = "[0 ..< CONNECTION_COUNT_PER_RELAY_GROUP]"
  let ?rm = "\<lambda>l. fold (\<lambda>i l. li_remove (rg_lists L) l (g, i)) ?is l"
  define u where "u = fold f ?is s"
  have u: "grouped kills u" "nulls L u" "IdleLists u = IdleLists s" "same_groups s u"
    using closed_group [OF ok, of g ?is] by (simp_all add: u_def f_def Let_def)
  have "fold f ?is (s\<lparr>KillGroupList := q\<rparr>) = u\<lparr>KillGroupList := q\<rparr>"
    unfolding u_def by (rule fold_commute_apply [where h = "\<lambda>s. s\<lparr>KillGroupList := q\<rparr>", symmetric]) (auto simp: f_def fun_eq_iff split: option.splits)
  then have t: "DoFreeGroup L g (s\<lparr>KillGroupList := q\<rparr>) =
      u\<lparr>KillGroupList := q, Groups := (Groups u)(g := None), IdleLists := ?rm (IdleLists s)\<rparr>" (is "_ = ?t")
    using u(3) by (simp add: DoFreeGroup_def f_def [symmetric] Let_def)
  have d: "dom (Groups u) = dom (Groups s)" "kills (KillGroupList u) () = g # ks" "RelayGroupMap u = RelayGroupMap s"
    "Ticker u = Ticker s"
    using u(4) k by (simp_all add: same_groups_def)
  have it: "items (?rm (IdleLists s)) m = filter (\<lambda>r. r \<notin> {g} \<times> {..< CONNECTION_COUNT_PER_RELAY_GROUP}) (items (IdleLists s) m)" for m
    unfolding removed_items by (rule filter_cong) auto
  have "listed (items (IdleLists s)) (dom (Groups s))" using ok by (simp add: rg_ok_def)
  then have "listed (items (?rm (IdleLists s))) (dom (Groups s) - {g})"
    unfolding listed_def it by (auto simp: filter_append [symmetric] simp del: filter_append)
  moreover have "grouped kills (u\<lparr>KillGroupList := q, Groups := (Groups u)(g := None), IdleLists := ?rm (IdleLists s)\<rparr>)"
    using u(1) d(2) q unfolding grouped_def by (auto split: if_splits)
  ultimately show ?thesis
    using u(2) temp d q by (simp add: t rg_ok_def it Let_def)
qed

lemma kill_groups_freed:
  assumes "rg_ok L items kills s" "items (IdleLists s) TempList = []"
  shows "\<exists>t. DoFreeKillGroupList L s = Some t \<and> rg_ok L items kills t \<and> items (IdleLists t) TempList = [] \<and>
    kills (KillGroupList t) () = [] \<and> Ticker t = Ticker s"
proof -
  let ?I = "\<lambda>t. rg_ok L items kills t \<and> items (IdleLists t) TempList = [] \<and> Ticker t = Ticker s"
  let ?pop = "\<lambda>s. map_option (\<lambda>(g, k). (g, s\<lparr>KillGroupList := k\<rparr>)) (li_pop_head (rg_kill L) (KillGroupList s) () (\<lambda>_. True))"
  have body: "?I (DoFreeGroup L g u) \<and>
      length (kills (KillGroupList (DoFreeGroup L g u)) ()) < length (kills (KillGroupList t) ())"
    if I: "?I t" and pop: "?pop t = Some (g, u)" for t g u
  proof -
    obtain q where q: "li_pop_head (rg_kill L) (KillGroupList t) () (\<lambda>_. True) = Some (g, q)" "u = t\<lparr>KillGroupList := q\<rparr>"
      using pop by auto
    have k: "kills (KillGroupList t) () = g # kills q ()" using kill.pop_head_Some [OF q(1)] by simp
    from I have "rg_ok L items kills t" "items (IdleLists t) TempList = []" by simp_all
    from group_freed [OF this k refl] I q(2) k show ?thesis by (simp add: Let_def)
  qed
  have "\<exists>t. pop_loop ?pop (DoFreeGroup L) s = Some t \<and> ?I t \<and> ?pop t = None"
    by (rule pop_loop_total [where m = "\<lambda>t. length (kills (KillGroupList t) ())"]) (use assms body in auto)
  then show ?thesis by (auto simp: DoFreeKillGroupList_def kill.pop_head_None)
qed

subsubsection \<open>Reconnection\<close>

lemma add_temp:
  "(\<And>m. r \<notin> set (items l m)) \<Longrightarrow> items (li_add_tail (rg_lists L) l TempList r) =
   (\<lambda>m. removeAll r (items l m) @ (if m = TempList then [r] else []))"
  by (auto simp: add_tail_items fun_eq_iff)

lemma check_ok:
  assumes ok: "rg_ok L items kills s" and pop: "pop_connection L IdleList P s = Some (r, u)"
    and q: "check_connection L r (n, out, u) = (n', out', t)"
  shows "rg_ok L items kills t" "items (IdleLists t) IdleList = items (IdleLists u) IdleList" "n' = n"
    "length out' \<le> Suc (length out)" "KillGroupList t = KillGroupList s"
proof -
  note p = pop_connection_Some [OF ok pop]
  have u: "dom (Groups u) = dom (Groups s)" "KillGroupList u = KillGroupList s" by (subst p(4), simp)+
  have "fst r \<in> dom (Groups u)" using p(5) u(1) by (simp add: mem_Times_iff)
  then obtain G where G: "Groups u (fst r) = Some G" by auto
  then have "length (Connections G) = CONNECTION_COUNT_PER_RELAY_GROUP" using p(7) by (simp add: grouped_def)
  then obtain c where c: "connection_at u r = Some c" using p(5) G by (auto simp: connection_at_def)
  define later :: "('a, 'p, 'l, 'g) relay_groups \<Rightarrow> ('a, 'p, 'l, 'g) relay_groups" where "later = (\<lambda>s. let s = write_connection r (\<lambda>c. c\<lparr>LastKeepAliveRequestTimestampMS := Ticker s\<rparr>) s in
      s\<lparr>IdleLists := li_add_tail (rg_lists L) (IdleLists s) TempList r\<rparr>)"
  have later: "rg_ok L items kills (later v)" "items (IdleLists (later v)) IdleList = items (IdleLists u) IdleList"
      "KillGroupList (later v) = KillGroupList s"
    if "grouped kills v" "nulls L v" "IdleLists v = IdleLists u" "dom (Groups v) = dom (Groups u)"
      "KillGroupList v = KillGroupList u" for v
    using that p(6) p(9) [of TempList] u
    by (simp_all add: later_def Let_def rg_ok_def add_temp write_connection_grouped)
  have kl: "rg_ok L items kills (DeferKillConnection L r u)"
      "items (IdleLists (DeferKillConnection L r u)) IdleList = items (IdleLists u) IdleList"
      "KillGroupList (DeferKillConnection L r u) = KillGroupList s"
    using p(6-8) p(9) [of KillList] u by (simp_all add: DeferKillConnection_def grab_def rg_ok_def grab_tail_items)
  obtain i pl where a: "st_acquire (rg_pool L) (ConnectionIdPool u) = (i, pl)" by (cases "st_acquire (rg_pool L) (ConnectionIdPool u)")
  let ?w = "write_connection r (\<lambda>c. c\<lparr>ConnectionId := i, Opened := rg_connect L (TargetAddress G)\<rparr>) (u\<lparr>ConnectionIdPool := pl\<rparr>)"
  have w: "grouped kills ?w" "nulls L ?w" "IdleLists ?w = IdleLists u" "dom (Groups ?w) = dom (Groups u)"
      "KillGroupList ?w = KillGroupList u"
    using p(7,8) acquire_nulls [OF p(8) a] by (simp_all add: write_connection_grouped)
  have "check_connection L r (n, out, u) =
      (if \<not> Opened c then (n, out, later ?w)
       else if KEEPALIVE_RESPONSE_TIMEOUT \<le> rg_diff L (Ticker u) (LastKeepAliveResponseTimestampMS c) then
         (n, out, DeferKillConnection L r u)
       else (n, out @ [PostRequestKeepAlive r], later u))"
    by (simp add: check_connection_def G c a later_def Let_def)
  with q kl later [OF w] later [OF p(7,8) refl refl refl]
  show "rg_ok L items kills t" "items (IdleLists t) IdleList = items (IdleLists u) IdleList" "n' = n"
    "length out' \<le> Suc (length out)" "KillGroupList t = KillGroupList s"
    by (auto split: if_splits)
qed

lemma reconnected:
  assumes "rg_ok L items kills s" "items (IdleLists s) TempList = []"
  shows "\<exists>out t. DoReconnectAndKeepAlive L s = Some (out, t) \<and> rg_ok L items kills t \<and>
    items (IdleLists t) TempList = [] \<and> KillGroupList t = KillGroupList s \<and>
    length out \<le> MAX_RECONNECT_OR_KEEPALIVE_CHECK_COUNT"
proof -
  let ?I = "\<lambda>(n, out, t). rg_ok L items kills t \<and> KillGroupList t = KillGroupList s \<and> length out \<le> n \<and>
    n \<le> MAX_RECONNECT_OR_KEEPALIVE_CHECK_COUNT"
  let ?m = "\<lambda>(n :: nat, out :: rg_action list, t). length (items (IdleLists t) IdleList)"
  have body: "?I (check_connection L r q') \<and> ?m (check_connection L r q') < ?m q"
    if I: "?I q" and pop: "pop_idle L q = Some (r, q')" for q r q'
  proof -
    obtain n out t where q: "q = (n, out, t)" by (cases q)
    from pop obtain P u where u: "pop_connection L IdleList P t = Some (r, u)" "q' = (Suc n, out, u)"
        "P r \<longrightarrow> \<not> n + 1 > MAX_RECONNECT_OR_KEEPALIVE_CHECK_COUNT"
      unfolding q pop_idle_def by auto
    have ok: "rg_ok L items kills t" using I q by simp
    note p = pop_connection_Some [OF ok u(1)]
    obtain n' out' v where v: "check_connection L r (Suc n, out, u) = (n', out', v)"
      by (cases "check_connection L r (Suc n, out, u)")
    from check_ok [OF ok u(1) v] I q u(3) p(1,2) show ?thesis by (simp add: u(2) v)
  qed
  have "\<exists>q. pop_loop (pop_idle L) (check_connection L) (0, [], s) = Some q \<and> ?I q \<and> pop_idle L q = None"
    by (rule pop_loop_total [where m = ?m]) (use assms body in auto)
  then obtain n out t where t: "pop_loop (pop_idle L) (check_connection L) (0, [], s) = Some (n, out, t)"
      "rg_ok L items kills t" "KillGroupList t = KillGroupList s" "length out \<le> n" "n \<le> MAX_RECONNECT_OR_KEEPALIVE_CHECK_COUNT"
    by auto
  let ?l = "li_grab_list_tail (rg_lists L) (IdleLists t) IdleList TempList"
  have it: "items ?l = (items (IdleLists t))(IdleList := items (IdleLists t) IdleList @ items (IdleLists t) TempList, TempList := [])"
    by (rule grab_list_tail_items) simp
  have "listed ((ls)(IdleList := ls IdleList @ ls TempList, TempList := [])) D" if "listed ls D" for ls D
    using that unfolding listed_def by (simp add: Un_ac) blast
  then have "listed (items ?l) (dom (Groups t))" using t(2) unfolding rg_ok_def it by blast
  then have "rg_ok L items kills (t\<lparr>IdleLists := ?l\<rparr>)" using t(2) by (simp add: rg_ok_def)
  with t it show ?thesis by (auto simp: DoReconnectAndKeepAlive_def)
qed

lemma tick_ok:
  assumes "rg_ok L items kills s" "items (IdleLists s) TempList = []"
  shows "\<exists>out t. RG_Tick L NowMS s = Some (out, t) \<and> rg_ok L items kills t \<and> items (IdleLists t) TempList = [] \<and>
    kills (KillGroupList t) () = [] \<and> length out \<le> MAX_RECONNECT_OR_KEEPALIVE_CHECK_COUNT"
proof -
  have "rg_ok L items kills (s\<lparr>Ticker := NowMS\<rparr>)" "items (IdleLists (s\<lparr>Ticker := NowMS\<rparr>)) TempList = []"
    using assms by (simp_all add: rg_ok_def)
  from kill_list_freed [OF this] obtain u where u: "DoFreeKillList L (s\<lparr>Ticker := NowMS\<rparr>) = Some u"
      "rg_ok L items kills u" "items (IdleLists u) TempList = []" by blast
  from kill_groups_freed [OF u(2,3)] obtain v where v: "DoFreeKillGroupList L u = Some v"
      "rg_ok L items kills v" "items (IdleLists v) TempList = []" "kills (KillGroupList v) () = []" by blast
  from reconnected [OF v(2,3)] u(1) v(1,4) show ?thesis by (auto simp: RG_Tick_def)
qed

subsubsection \<open>New groups\<close>

lemma grabbed_heads:
  assumes "\<And>m i. (g, i) \<notin> set (items l m)" "distinct xs"
  shows "items (fold (\<lambda>i l. rg_grab_head L l IdleList (g, i)) xs l) =
    (items l)(IdleList := rev (map (Pair g) xs) @ items l IdleList)"
  using assms(2)
proof (induction xs rule: rev_induct)
  case (snoc x xs)
  then have "(g, x) \<notin> set (((items l)(IdleList := rev (map (Pair g) xs) @ items l IdleList)) m)" for m
    using assms(1) by auto
  with snoc show ?case by (auto simp: grab_head_items fun_eq_iff)
qed simp

lemma new_group_ok:
  assumes g: "listed (items (IdleLists s)) (dom (Groups s))" "nulls L s"
    and len: "\<And>g G. Groups s g = Some G \<Longrightarrow> length (Connections G) = CONNECTION_COUNT_PER_RELAY_GROUP \<and> g < NextGroup s"
    and inj: "inj_on (RelayGroupMap s) (dom (RelayGroupMap s))" and dk: "distinct (kills (KillGroupList s) ())"
    and rn: "ran ((RelayGroupMap s)(sid := None)) = dom (Groups s) - set (kills (KillGroupList s) ())"
    and sub: "set (kills (KillGroupList s) ()) \<subseteq> dom (Groups s)"
  shows "rg_ok L items kills (NewGroup L sid addr s)"
    "items (IdleLists (NewGroup L sid addr s)) TempList = items (IdleLists s) TempList"
proof -
  let ?g = "NextGroup s" let ?t = "NewGroup L sid addr s"
  have new: "?g \<notin> dom (Groups s)" using len by fastforce
  then have "(?g, i) \<notin> set (items (IdleLists s) m)" for m i
    using g(1) unfolding listed_def by (cases m) auto
  from grabbed_heads [OF this, of "[0 ..< CONNECTION_COUNT_PER_RELAY_GROUP]"]
  have it: "items (IdleLists ?t) = (items (IdleLists s))(IdleList :=
      rev (map (Pair ?g) [0 ..< CONNECTION_COUNT_PER_RELAY_GROUP]) @ items (IdleLists s) IdleList)"
    by (simp add: NewGroup_def Let_def)
  then show "items (IdleLists ?t) TempList = items (IdleLists s) TempList" by simp
  have "listed (items (IdleLists ?t)) (insert ?g (dom (Groups s)))"
    using g(1) new unfolding listed_def it by (auto simp: distinct_map inj_on_def)
  moreover have "inj_on (RelayGroupMap ?t) (dom (RelayGroupMap ?t))"
  proof -
    have "RelayGroupMap s x \<noteq> Some ?g" if "x \<noteq> sid" for x
    proof
      assume "RelayGroupMap s x = Some ?g"
      then have "?g \<in> ran ((RelayGroupMap s)(sid := None))" using that by (intro ranI) auto
      then show False using rn new by auto
    qed
    then show ?thesis using inj by (auto simp: NewGroup_def Let_def inj_on_def)
  qed
  moreover have "ran (RelayGroupMap ?t) = insert ?g (ran ((RelayGroupMap s)(sid := None)))"
    using ran_map_upd [of "(RelayGroupMap s)(sid := None)" sid ?g] by (simp add: NewGroup_def Let_def)
  ultimately show "rg_ok L items kills ?t"
    using g(2) len dk sub new rn
    by (auto simp: rg_ok_def grouped_def nulls_def GetConnectionById_def NewGroup_def Let_def less_Suc_eq split: if_splits)
qed

lemma add_group_ok:
  assumes ok: "rg_ok L items kills s" and temp: "items (IdleLists s) TempList = []" and u: "rg_usable L addr"
  shows "\<exists>t. AddRelayGroup L sid addr s = Some t \<and> rg_ok L items kills t \<and> items (IdleLists t) TempList = []"
proof -
  have l: "listed (items (IdleLists s)) (dom (Groups s))" and gr: "grouped kills s" and n: "nulls L s"
    using ok by (simp_all add: rg_ok_def)
  have g: "\<And>g G. Groups s g = Some G \<Longrightarrow> length (Connections G) = CONNECTION_COUNT_PER_RELAY_GROUP \<and> g < NextGroup s"
    and inj: "inj_on (RelayGroupMap s) (dom (RelayGroupMap s))" and dk: "distinct (kills (KillGroupList s) ())"
    and rn: "ran (RelayGroupMap s) = dom (Groups s) - set (kills (KillGroupList s) ())"
    and sub: "set (kills (KillGroupList s) ()) \<subseteq> dom (Groups s)"
    using gr by (auto simp: grouped_def)
  show ?thesis
  proof (cases "RelayGroupMap s sid")
    case None
    then have "ran ((RelayGroupMap s)(sid := None)) = dom (Groups s) - set (kills (KillGroupList s) ())"
      using rn by (simp add: fun_upd_idem)
    from new_group_ok [OF l n g inj dk this sub] None u temp show ?thesis by (simp add: AddRelayGroup_def)
  next
    case (Some k)
    then have "k \<in> ran (RelayGroupMap s)" by (rule ranI)
    then have k: "k \<in> dom (Groups s)" "k \<notin> set (kills (KillGroupList s) ())" using rn by auto
    then obtain G where G: "Groups s k = Some G" by auto
    let ?d = "DeferKillGroup L k s"
    have d: "kills (KillGroupList ?d) () = kills (KillGroupList s) () @ [k]"
      using k(2) by (simp add: DeferKillGroup_def kill.grab_tail_items)
    have f: "IdleLists ?d = IdleLists s" "Groups ?d = Groups s" "NextGroup ?d = NextGroup s" "RelayGroupMap ?d = RelayGroupMap s"
      by (simp_all add: DeferKillGroup_def)
    have only: "x = sid" if "RelayGroupMap s x = Some k" for x
      using inj that Some by (auto simp: inj_on_def dom_def)
    have "ran ((RelayGroupMap s)(sid := None)) = ran (RelayGroupMap s) - {k}"
    proof (intro set_eqI iffI)
      fix x assume "x \<in> ran ((RelayGroupMap s)(sid := None))"
      then obtain y where y: "y \<noteq> sid" "RelayGroupMap s y = Some x" by (auto simp: ran_def split: if_splits)
      then have "x \<noteq> k" using only by blast
      then show "x \<in> ran (RelayGroupMap s) - {k}" using ranI [where m = "RelayGroupMap s", OF y(2)] by simp
    next
      fix x assume x: "x \<in> ran (RelayGroupMap s) - {k}"
      then obtain y where y: "RelayGroupMap s y = Some x" by (auto simp: ran_def)
      then have "((RelayGroupMap s)(sid := None)) y = Some x" using x Some by auto
      then show "x \<in> ran ((RelayGroupMap s)(sid := None))" by (rule ranI)
    qed
    then have rn': "ran ((RelayGroupMap s)(sid := None)) = dom (Groups s) - set (kills (KillGroupList ?d) ())"
      unfolding d rn by auto
    have "nulls L ?d" using n by (simp add: DeferKillGroup_def)
    moreover have "distinct (kills (KillGroupList ?d) ())" "set (kills (KillGroupList ?d) ()) \<subseteq> dom (Groups s)"
      using dk k sub unfolding d by auto
    ultimately have "rg_ok L items kills (NewGroup L sid addr ?d)" "items (IdleLists (NewGroup L sid addr ?d)) TempList = []"
      using new_group_ok [of ?d sid addr, unfolded f, OF l _ g inj _ rn'] by (blast, simp add: temp)
    then show ?thesis using Some G u ok temp by (auto simp: AddRelayGroup_def)
  qed
qed

end

context packet_format
begin

lemma packet_loop_keeps:
  assumes "\<And>h P s. I s \<Longrightarrow> I (snd (handle h P s))" "I s"
  shows "\<exists>r t. packet_loop hdr parse handle used D s = Some (r, t) \<and> I t"
  using assms(2)
proof (induction "length D" arbitrary: D used s rule: less_induct)
  case less
  show ?case
  proof (cases "length D < hdr \<or> parse D = None \<or> length D < PacketSize (the (parse D))")
    case True
    then show ?thesis using less.prems by (subst packet_loop.simps) (auto split: option.splits)
  next
    case False
    then obtain h where h: "parse D = Some h" "\<not> length D < hdr" "\<not> length D < PacketSize h" by auto
    then have "0 < PacketSize h" using hdr_pos parse_size [of D h] by auto
    then have l: "length (drop (PacketSize h) D) < length D" using h(3) by auto
    obtain ok v where v: "handle h (drop hdr (take (PacketSize h) D)) s = (ok, v)"
      by (cases "handle h (drop hdr (take (PacketSize h) D)) s")
    then have "I v" using assms(1) [OF less.prems] by (metis snd_conv)
    from less.hyps [OF l this] h v \<open>I v\<close> show ?thesis by (subst packet_loop.simps) auto
  qed
qed

end

subsection \<open>Runs\<close>

inductive rg_reach ::
    "('a, 'p, 'l, 'g) rg_lib \<Rightarrow> nat \<Rightarrow> (bytes \<Rightarrow> stream_header option) \<Rightarrow> ('a, 'p, 'l, 'g) relay_groups \<Rightarrow>
     ('a, 'p, 'l, 'g) relay_groups \<Rightarrow> bool"
  for L hdr parse s0 where
  start: "rg_reach L hdr parse s0 s0"
| add: "rg_reach L hdr parse s0 s \<Longrightarrow> AddRelayGroup L sid addr s = Some t \<Longrightarrow> rg_reach L hdr parse s0 t"
| connected: "rg_reach L hdr parse s0 s \<Longrightarrow> connection_at s r = Some c \<Longrightarrow> rg_reach L hdr parse s0 (RG_OnConnected L r s)"
| closed: "rg_reach L hdr parse s0 s \<Longrightarrow> connection_at s r = Some c \<Longrightarrow> rg_reach L hdr parse s0 (RG_OnPeerClose L r s)"
| data: "rg_reach L hdr parse s0 s \<Longrightarrow> connection_at s r = Some c \<Longrightarrow> RG_OnData L hdr parse r D s = Some (n, t) \<Longrightarrow>
    rg_reach L hdr parse s0 t"
| tick: "rg_reach L hdr parse s0 s \<Longrightarrow> RG_Tick L NowMS s = Some (out, t) \<Longrightarrow> rg_reach L hdr parse s0 t"

definition rg_empty ::
    "('a, 'p, 'l, 'g) rg_lib \<Rightarrow> ('l \<Rightarrow> idle_list \<Rightarrow> connection list) \<Rightarrow> ('g \<Rightarrow> unit \<Rightarrow> nat list) \<Rightarrow>
     ('a, 'p, 'l, 'g) relay_groups \<Rightarrow> bool" where
  "rg_empty L items kills s \<longleftrightarrow> Groups s = Map.empty \<and> RelayGroupMap s = Map.empty \<and> (\<forall>m. items (IdleLists s) m = []) \<and>
     kills (KillGroupList s) () = [] \<and> (\<forall>i. st_get (rg_pool L) (ConnectionIdPool s) i = None)"

context rg_env
begin

lemma connection_at_live:
  "rg_ok L items kills s \<Longrightarrow> connection_at s r = Some c \<Longrightarrow> r \<in> dom (Groups s) \<times> {..< CONNECTION_COUNT_PER_RELAY_GROUP}"
  by (cases r) (auto simp: connection_at_def rg_ok_def grouped_def split: option.splits if_splits)

lemma reach_ok:
  assumes "packet_format hdr parse" "rg_empty L items kills s0" "rg_reach L hdr parse s0 s"
  shows "rg_ok L items kills s \<and> items (IdleLists s) TempList = []"
  using assms(3)
proof induction
  case start
  then show ?case using assms(2)
    by (simp add: rg_empty_def rg_ok_def listed_def grouped_def nulls_def GetConnectionById_def)
next
  case (add s sid addr t)
  then show ?case using add_group_ok [of s addr sid] by (cases "rg_usable L addr") (auto simp: AddRelayGroup_def)
next
  case (connected s r c)
  then show ?case using KeepAlive_ok connection_at_live by (simp add: RG_OnConnected_def KeepAlive_def grab_temp)
next
  case (closed s r c)
  then show ?case using grab_ok connection_at_live by (simp add: RG_OnPeerClose_def DeferKillConnection_def grab_temp)
next
  case (data s r c D n t)
  let ?I = "\<lambda>s. rg_ok L items kills s \<and> items (IdleLists s) TempList = [] \<and>
    r \<in> dom (Groups s) \<times> {..< CONNECTION_COUNT_PER_RELAY_GROUP}"
  have h: "?I (snd (rg_handle L r h P s))" if "?I s" for h P s
    using that KeepAlive_ok [of s r] by (simp add: rg_handle_def) (simp add: KeepAlive_def grab_temp grab_def grab_tail_items)
  have "?I s" using data connection_at_live by blast
  from packet_format.packet_loop_keeps [where I = ?I and handle = "rg_handle L r" and used = 0 and D = D, OF assms(1) h this] data(3) show ?case
    by (auto simp: RG_OnData_def)
next
  case (tick s NowMS out t)
  then show ?case using tick_ok [of s NowMS] by auto
qed

end

definition ref_rg_lib :: "(nat, connection option ref_pool, idle_list \<Rightarrow> connection list, unit \<Rightarrow> nat list) rg_lib" where
  "ref_rg_lib = \<lparr>rg_pool = ref_storage None, rg_lists = ref_lists,
     rg_grab_head = (\<lambda>l n x m. (if m = n then [x] else []) @ removeAll x (l m)), rg_kill = ref_lists,
     rg_diff = (\<lambda>a b. sint (a - b)), rg_usable = (\<lambda>a. a \<noteq> 0), rg_connect = (\<lambda>a. a < 10)\<rparr>"

lemma ref_rg_contract: "rg_env ref_rg_lib (\<lambda>l. l) (\<lambda>l. l)"
  by (rule rg_env.intro [OF _ _ _ rg_env_axioms.intro])
    (simp_all add: ref_rg_lib_def ref_storage_contract ref_lists_contract)

interpretation ref_groups: rg_env ref_rg_lib "\<lambda>l. l" "\<lambda>l. l"
  by (rule ref_rg_contract)

subsection \<open>Properties\<close>

text \<open>
  C36: The manager of relay groups keeps its lists. In every state it reaches, every connection of a group on the heap
  is on exactly one of its lists, once, each group belongs to one relay server or waits for its end; every tick
  ends, posts at most 200 keep-alives and leaves no group that waits; a usable address can be added; and no
  connection is ever found by its id, for no id is given a pointer.
\<close>

theorem relay_groups_tick:
  assumes "rg_env L items kills" "packet_format hdr parse" "rg_empty L items kills s0" "rg_reach L hdr parse s0 s"
  shows "listed (items (IdleLists s)) (dom (Groups s)) \<and> grouped kills s \<and>
    (\<forall>NowMS. \<exists>out t. RG_Tick L NowMS s = Some (out, t) \<and> kills (KillGroupList t) () = [] \<and>
       length out \<le> MAX_RECONNECT_OR_KEEPALIVE_CHECK_COUNT) \<and>
    (\<forall>sid addr. rg_usable L addr \<longrightarrow> AddRelayGroup L sid addr s \<noteq> None) \<and>
    (\<forall>i. GetConnectionById L s i = None)"
proof -
  note ok = rg_env.reach_ok [OF assms]
  note tick = rg_env.tick_ok [OF assms(1) conjunct1 [OF ok] conjunct2 [OF ok]]
  note add = rg_env.add_group_ok [OF assms(1) conjunct1 [OF ok] conjunct2 [OF ok]]
  show ?thesis using ok tick add unfolding rg_ok_def nulls_def by (metis option.distinct(1))
qed

definition demo_groups :: "(nat, connection option ref_pool, idle_list \<Rightarrow> connection list, unit \<Rightarrow> nat list) relay_groups" where
  "demo_groups = \<lparr>Ticker = 0, Groups = Map.empty, NextGroup = 0, RelayGroupMap = Map.empty, ConnectionIdPool = ref_pool_init 4000,
     IdleLists = (\<lambda>_. []), KillGroupList = (\<lambda>_. [])\<rparr>"

definition demo_parse :: "bytes \<Rightarrow> stream_header option" where
  "demo_parse D = Some \<lparr>CommandId = 0, RequestId = 0, PacketSize = Suc (unat (hd D)), IsKeepAlive = True\<rparr>"

lemma demo_parse_format: "packet_format 1 demo_parse"
  by unfold_locales (auto simp: demo_parse_def hd_append)

theorem relay_groups_tick_witness:
  "\<exists>s out t. AddRelayGroup ref_rg_lib 5 3 demo_groups = Some s \<and> RG_Tick ref_rg_lib 70000 s = Some (out, t) \<and>
     listed (IdleLists s) {0} \<and> GetConnectionById ref_rg_lib s 1 = None"
proof -
  have e: "rg_empty ref_rg_lib (\<lambda>l. l) (\<lambda>l. l) demo_groups"
    by (simp add: rg_empty_def demo_groups_def ref_rg_lib_def ref_storage_def ref_pool_init_def)
  have a: "AddRelayGroup ref_rg_lib 5 3 demo_groups = Some (NewGroup ref_rg_lib 5 3 demo_groups)"
    by (simp add: AddRelayGroup_def demo_groups_def ref_rg_lib_def)
  have d: "dom (Groups (NewGroup ref_rg_lib 5 3 demo_groups)) = {0}" by (simp add: NewGroup_def demo_groups_def Let_def)
  note r = rg_reach.add [OF rg_reach.start a, of 1 demo_parse]
  from relay_groups_tick [OF ref_rg_contract demo_parse_format e r] a d show ?thesis by metis
qed

text \<open>
  After a failed \<^verbatim>\<open>Init\<close> the connection stays closed and its id is overwritten by the next attempt, not released.
\<close>

lemma failed_connect_leaks_id:
  assumes "Groups s g = Some G" "i < length (Connections G)" "\<not> Opened (Connections G ! i)"
    "\<not> rg_connect L (TargetAddress G)" "st_acquire (rg_pool L) (ConnectionIdPool s) = (k, p)"
  shows "\<exists>t. check_connection L (g, i) (n, out, s) = (n, out, t) \<and> ConnectionIdPool t = p \<and>
    (\<exists>c. connection_at t (g, i) = Some c \<and> ConnectionId c = k \<and> \<not> Opened c)"
  using assms by (simp add: check_connection_def connection_at_def write_connection_def Let_def)

end
