(* ===== verification/AuthService.thy ===== *)
theory AuthService
  imports AuthCache ReportMessages
begin

text \<open>
  The authentication service: \<^verbatim>\<open>xAuthCacheManager\<close> (\<^verbatim>\<open>lib_server_util/auth_cache/auth_cache_info.cpp\<close>), the server
  \<^verbatim>\<open>server_auth_cache/auth_service.cpp\<close> around it, which is not finished, and \<^verbatim>\<open>fake_auth_service\<close>, which stands in for it.

  Cache nodes and waiting requests are objects named by their addresses, as the library's pool gives them. \<open>Sound\<close>
  turns false when an assertion fails or the inner loop of a removal does not end; \<open>None\<close> is a null pointer or an end
  iterator that is read, or a loop that does not end.
\<close>

subsection \<open>State\<close>

record xAuthCacheInfo =
  AuditId :: u64
  CountryId :: u32
  StateId :: u32
  CityId :: u32
  IsBlocked :: bool
  RequireIpv6 :: bool
  RequireUdp :: bool
  RequireRemoteDns :: bool
  AutoChangeIp :: bool
  FixDeviceTimeout :: bool
  PAToken :: bytes

record xAuthCacheNode =
  UpdateTimestamp :: u64
  NodeKey :: bytes
  Flags :: u16
  PendingRequestId :: u64
  InfoOpt :: xAuthCacheInfo

definition no_info :: xAuthCacheInfo where
  "no_info = xAuthCacheInfo.make 0 0 0 0 False False False False False False []"

definition fresh_cache_node :: xAuthCacheNode where
  "fresh_cache_node = \<lparr>UpdateTimestamp = 0, NodeKey = [], Flags = 0, PendingRequestId = 0, InfoOpt = no_info\<rparr>"

record xLocalAudit =
  CacheHit :: u64
  CacheMiss :: u64
  CacheLimit :: u64
  CacheUpdate :: u64
  TimeoutRequest :: u64
  DanglingResult :: u64

text \<open>Both timeout lists use the one hook of a node.\<close>

datatype cache_list = CacheTimeoutList | CacheRequestTimeoutList

record ('p, 'l, 'q) ac_lib =
  ac_pool :: "('p, xAuthCacheNode) storage_ops"
  ac_lists :: "('l, cache_list, u64) list_ops"
  ac_pending :: "('q, u64, u64) list_ops" \<comment> \<open>\<^verbatim>\<open>PendingRequests\<close> of a node\<close>

record ('p, 'l, 'q) xAuthCacheManager =
  ServiceTicker :: u64
  CacheNodePool :: 'p
  CacheMap :: "bytes \<rightharpoonup> u64"
  TimeoutLists :: 'l
  PendingRequests :: 'q
  LocalAudit :: xLocalAudit
  Sound :: bool

type_synonym ('p, 'l, 'q) ac_manager = "('p, 'l, 'q) xAuthCacheManager"

subsection \<open>Operations of the manager\<close>

definition ac_write :: "('p, 'l, 'q) ac_lib \<Rightarrow> u64 \<Rightarrow> (xAuthCacheNode \<Rightarrow> xAuthCacheNode) \<Rightarrow>
    ('p, 'l, 'q) ac_manager \<Rightarrow> ('p, 'l, 'q) ac_manager" where
  "ac_write L p f s = (case st_get (ac_pool L) (CacheNodePool s) p of None \<Rightarrow> s
     | Some N \<Rightarrow> s\<lparr>CacheNodePool := st_put (ac_pool L) (CacheNodePool s) p (f N)\<rparr>)"

text \<open>What the function returns: a null pointer, a node, or the second of the end iterator.\<close>

datatype acquired = NullNode | CacheNode u64 | EndIterator

definition AC_AcquireCacheNode :: "('p, 'l, 'q) ac_lib \<Rightarrow> bytes \<Rightarrow> ('p, 'l, 'q) ac_manager \<Rightarrow>
    acquired \<times> ('p, 'l, 'q) ac_manager" where
  "AC_AcquireCacheNode L k s =
     (case CacheMap s k of
        Some p \<Rightarrow> (CacheNode p, s)
      | None \<Rightarrow>
          let s = s\<lparr>LocalAudit := (LocalAudit s)\<lparr>CacheMiss := CacheMiss (LocalAudit s) + 1\<rparr>\<rparr>;
              (p, pool) = st_acquire (ac_pool L) (CacheNodePool s); s = s\<lparr>CacheNodePool := pool\<rparr> in
          if p = 0 then (NullNode, s\<lparr>LocalAudit := (LocalAudit s)\<lparr>CacheLimit := CacheLimit (LocalAudit s) + 1\<rparr>\<rparr>)
          else
            let s = ac_write L p (\<lambda>N. N\<lparr>NodeKey := k, UpdateTimestamp := ServiceTicker s\<rparr>) (s\<lparr>CacheMap := (CacheMap s)(k \<mapsto> p)\<rparr>) in
            (EndIterator, s\<lparr>TimeoutLists := li_add_tail (ac_lists L) (TimeoutLists s) CacheTimeoutList p\<rparr>))"

text \<open>Both \<^verbatim>\<open>UpdateCacheNode\<close>: \<open>None\<close> is the one with \<^verbatim>\<open>xNone\<close>.\<close>

definition AC_UpdateCacheNode :: "('p, 'l, 'q) ac_lib \<Rightarrow> bytes \<Rightarrow> xAuthCacheInfo option \<Rightarrow> ('p, 'l, 'q) ac_manager \<Rightarrow>
    u64 \<times> ('p, 'l, 'q) ac_manager" where
  "AC_UpdateCacheNode L k data s =
     (case CacheMap s k of
        None \<Rightarrow> (0, s\<lparr>LocalAudit := (LocalAudit s)\<lparr>DanglingResult := DanglingResult (LocalAudit s) + 1\<rparr>\<rparr>)
      | Some p \<Rightarrow>
          let s = s\<lparr>LocalAudit := (LocalAudit s)\<lparr>CacheUpdate := CacheUpdate (LocalAudit s) + 1\<rparr>\<rparr>;
              i = (case st_get (ac_pool L) (CacheNodePool s) p of None \<Rightarrow> 0 | Some N \<Rightarrow> PendingRequestId N);
              s = ac_write L p (\<lambda>N. N\<lparr>InfoOpt := case_option no_info id data, UpdateTimestamp := ServiceTicker s, PendingRequestId := 0\<rparr>) s in
          (i, s\<lparr>TimeoutLists := li_grab_tail (ac_lists L) (TimeoutLists s) CacheTimeoutList p\<rparr>))"

definition AC_BindRequestId :: "('p, 'l, 'q) ac_lib \<Rightarrow> u64 \<Rightarrow> u64 \<Rightarrow> ('p, 'l, 'q) ac_manager \<Rightarrow> ('p, 'l, 'q) ac_manager" where
  "AC_BindRequestId L p rid s =
     (let ok = (case st_get (ac_pool L) (CacheNodePool s) p of None \<Rightarrow> False | Some N \<Rightarrow> PendingRequestId N = 0);
          s = ac_write L p (\<lambda>N. N\<lparr>PendingRequestId := rid, UpdateTimestamp := ServiceTicker s\<rparr>) s in
      s\<lparr>Sound := (Sound s \<and> ok), TimeoutLists := li_grab_tail (ac_lists L) (TimeoutLists s) CacheRequestTimeoutList p\<rparr>)"

text \<open>\<open>linked\<close> is \<^verbatim>\<open>xListNode::IsLinked(RN)\<close>.\<close>

definition AC_AppendRequestNode :: "('p, 'l, 'q) ac_lib \<Rightarrow> u64 \<Rightarrow> u64 \<Rightarrow> bool \<Rightarrow> ('p, 'l, 'q) ac_manager \<Rightarrow> ('p, 'l, 'q) ac_manager" where
  "AC_AppendRequestNode L p rn linked s =
     (let ok = (case st_get (ac_pool L) (CacheNodePool s) p of None \<Rightarrow> False | Some N \<Rightarrow> PendingRequestId N \<noteq> 0) in
      s\<lparr>Sound := (Sound s \<and> ok \<and> \<not> linked),
        PendingRequests := li_add_tail (ac_pending L) (PendingRequests s) p rn\<rparr>)"

text \<open>The node is destroyed at the end, which takes it off its list.\<close>

definition AC_RemoveCacheNode :: "('p, 'l, 'q) ac_lib \<Rightarrow> u64 \<Rightarrow> ('p, 'l, 'q) ac_manager \<Rightarrow> ('p, 'l, 'q) ac_manager" where
  "AC_RemoveCacheNode L p s =
     (case st_get (ac_pool L) (CacheNodePool s) p of None \<Rightarrow> s\<lparr>Sound := False\<rparr>
      | Some N \<Rightarrow>
          (case pop_loop (\<lambda>q. li_pop_head (ac_pending L) q p (\<lambda>_. True)) (\<lambda>_ q. q) (PendingRequests s) of
             None \<Rightarrow> s\<lparr>Sound := False\<rparr>
           | Some q \<Rightarrow>
               s\<lparr>Sound := (Sound s \<and> CacheMap s (NodeKey N) = Some p), CacheMap := (CacheMap s)(NodeKey N := None),
                 PendingRequests := q, CacheNodePool := st_release (ac_pool L) (CacheNodePool s) p,
                 TimeoutLists := li_remove (ac_lists L) (TimeoutLists s) p\<rparr>))"

definition ac_pop :: "('p, 'l, 'q) ac_lib \<Rightarrow> u64 \<Rightarrow> ('p, 'l, 'q) ac_manager \<Rightarrow> (u64 \<times> ('p, 'l, 'q) ac_manager) option" where
  "ac_pop L KillTimepoint s = map_option (\<lambda>(p, l). (p, s\<lparr>TimeoutLists := l\<rparr>))
     (li_pop_head (ac_lists L) (TimeoutLists s) CacheTimeoutList
        (\<lambda>p. case st_get (ac_pool L) (CacheNodePool s) p of None \<Rightarrow> False | Some N \<Rightarrow> UpdateTimestamp N \<le> KillTimepoint))"

definition AC_RemoveTimeoutCacheNodes :: "('p, 'l, 'q) ac_lib \<Rightarrow> u64 \<Rightarrow> ('p, 'l, 'q) ac_manager \<Rightarrow>
    ('p, 'l, 'q) ac_manager option" where
  "AC_RemoveTimeoutCacheNodes L TimeoutMS s =
     pop_loop (ac_pop L (ServiceTicker s - TimeoutMS)) (AC_RemoveCacheNode L) s"

text \<open>The body is commented out.\<close>

definition AC_RemoveTimeoutCacheUpdateNodes :: "u64 \<Rightarrow> ('p, 'l, 'q) ac_manager \<Rightarrow> ('p, 'l, 'q) ac_manager" where
  "AC_RemoveTimeoutCacheUpdateNodes TimeoutMS s = s"

definition AC_GetAndResetLocalAudit :: "('p, 'l, 'q) ac_manager \<Rightarrow> xLocalAudit \<times> ('p, 'l, 'q) ac_manager" where
  "AC_GetAndResetLocalAudit s = (LocalAudit s, s\<lparr>LocalAudit := xLocalAudit.make 0 0 0 0 0 0\<rparr>)"

subsection \<open>The servers\<close>

type_synonym auth_post = "u32 \<times> u64 \<times> bytes"

definition PostResposne :: "'a wire \<Rightarrow> u64 \<Rightarrow> xAuthCacheInfo \<Rightarrow> auth_post" where
  "PostResposne wc rid NP = (Cmd_AuthService_QueryAuthCacheResp, rid,
     ser_xQueryAuthCacheResp wc (xQueryAuthCacheResp.make (AuditId NP) (CountryId NP) (StateId NP) (CityId NP) (IsBlocked NP)
       (RequireIpv6 NP) (RequireUdp NP) (RequireRemoteDns NP) (AutoChangeIp NP) (PAToken NP)))"

text \<open>\<^verbatim>\<open>NP->InfoOpt\<close> is read only where \<open>NP\<close> is null.\<close>

definition AuthService_OnClientPacket :: "'a wire \<Rightarrow> ('p, 'l, 'q) ac_lib \<Rightarrow> u32 \<Rightarrow> u64 \<Rightarrow> bytes \<Rightarrow> ('p, 'l, 'q) ac_manager \<Rightarrow>
    (bool \<times> auth_post list \<times> ('p, 'l, 'q) ac_manager) option" where
  "AuthService_OnClientPacket wc L cmd rid Payload s =
     (if cmd \<noteq> Cmd_AuthService_QueryAuthCache then Some (True, [], s)
      else case des_xQueryAuthCache wc Payload of
        None \<Rightarrow> Some (True, [], s)
      | Some (Req, _) \<Rightarrow>
          (case AC_AcquireCacheNode L (xQueryAuthCache.UserPass Req) s of
             (EndIterator, t) \<Rightarrow> None
           | (NullNode, t) \<Rightarrow> None
           | (CacheNode p, t) \<Rightarrow> Some (True, [], t)))"

text \<open>
  The part of the tick that concerns the cache; the request contexts and the backend connections are ticked next to it.
\<close>

definition AuthService_OnTick :: "('p, 'l, 'q) ac_lib \<Rightarrow> ('p, 'l, 'q) ac_manager \<Rightarrow> ('p, 'l, 'q) ac_manager option" where
  "AuthService_OnTick L s = AC_RemoveTimeoutCacheNodes L (15 * 60000) s"

definition AC_OnCmdAuthByUserPassResp :: "'a wire \<Rightarrow> xPPB_BackendAuthByUserPassResp \<Rightarrow> bytes \<Rightarrow> bool" where
  "AC_OnCmdAuthByUserPassResp wc P0 Payload = (des_xPPB_BackendAuthByUserPassResp wc P0 Payload \<noteq> None)"

text \<open>\<open>P0\<close> is the message before it is read.\<close>

definition AC_OnBackendPacket :: "'a wire \<Rightarrow> xPPB_BackendAuthByUserPassResp \<Rightarrow> u32 \<Rightarrow> u64 \<Rightarrow> bytes \<Rightarrow> bool" where
  "AC_OnBackendPacket wc P0 cmd rid Payload =
     (if cmd = Cmd_BackendAuthByUserPassResp then AC_OnCmdAuthByUserPassResp wc P0 Payload else True)"

text \<open>The stand-in answers every query with its country.\<close>

definition FakeAuth_OnClientPacket :: "'a wire \<Rightarrow> u32 \<Rightarrow> u32 \<Rightarrow> u64 \<Rightarrow> bytes \<Rightarrow> bool \<times> auth_post list" where
  "FakeAuth_OnClientPacket wc country cmd rid Payload =
     (if cmd \<noteq> Cmd_AuthService_QueryAuthCache then (True, [])
      else case des_xQueryAuthCache wc Payload of
        None \<Rightarrow> (True, [])
      | Some _ \<Rightarrow> (True, [(Cmd_AuthService_QueryAuthCacheResp, rid,
          ser_xQueryAuthCacheResp wc (xQueryAuthCacheResp.make 0 country 0 0 False False False False False []))]))"

subsection \<open>The invariant of the manager\<close>

definition node_stamp :: "('p, 'l, 'q) ac_lib \<Rightarrow> ('p, 'l, 'q) ac_manager \<Rightarrow> u64 \<Rightarrow> u64" where
  "node_stamp L s p = (case st_get (ac_pool L) (CacheNodePool s) p of None \<Rightarrow> 0 | Some N \<Rightarrow> UpdateTimestamp N)"

lemma node_stamp_update [simp]:
  "node_stamp L (s\<lparr>LocalAudit := a\<rparr>) = node_stamp L s" "node_stamp L (s\<lparr>ServiceTicker := n\<rparr>) = node_stamp L s"
  "node_stamp L (s\<lparr>PendingRequests := q\<rparr>) = node_stamp L s" "node_stamp L (s\<lparr>Sound := b\<rparr>) = node_stamp L s"
  by (rule ext, simp add: node_stamp_def)+

definition ac_ok :: "('p, 'l, 'q) ac_lib \<Rightarrow> ('l \<Rightarrow> cache_list \<Rightarrow> u64 list) \<Rightarrow> ('p, 'l, 'q) ac_manager \<Rightarrow> bool" where
  "ac_ok L items s \<longleftrightarrow>
     (let nodes = st_get (ac_pool L) (CacheNodePool s); ls = items (TimeoutLists s) in
      (\<forall>k p. CacheMap s k = Some p \<longleftrightarrow> (\<exists>N. nodes p = Some N \<and> NodeKey N = k)) \<and>
      distinct (ls CacheTimeoutList @ ls CacheRequestTimeoutList) \<and>
      set (ls CacheTimeoutList) \<union> set (ls CacheRequestTimeoutList) = dom nodes \<and>
      sorted (map (node_stamp L s) (ls CacheTimeoutList)) \<and>
      (\<forall>p N. nodes p = Some N \<longrightarrow> UpdateTimestamp N \<le> ServiceTicker s \<and>
         (p \<in> set (ls CacheRequestTimeoutList) \<longleftrightarrow> PendingRequestId N \<noteq> 0)) \<and> Sound s)"

locale ac_env =
  indexed_storage "ac_pool L" fresh_cache_node + hooked_lists "ac_lists L" items + pending: hooked_lists "ac_pending L" waits
  for L :: "('p, 'l, 'q) ac_lib" and items :: "'l \<Rightarrow> cache_list \<Rightarrow> u64 list" and waits :: "'q \<Rightarrow> u64 \<Rightarrow> u64 list"
begin

abbreviation nodes :: "('p, 'l, 'q) ac_manager \<Rightarrow> u64 \<Rightarrow> xAuthCacheNode option" where
  "nodes s \<equiv> st_get (ac_pool L) (CacheNodePool s)"

lemma ac_okD:
  assumes "ac_ok L items s"
  shows "\<And>k p. CacheMap s k = Some p \<longleftrightarrow> (\<exists>N. nodes s p = Some N \<and> NodeKey N = k)"
    "distinct (items (TimeoutLists s) CacheTimeoutList)" "distinct (items (TimeoutLists s) CacheRequestTimeoutList)"
    "set (items (TimeoutLists s) CacheTimeoutList) \<inter> set (items (TimeoutLists s) CacheRequestTimeoutList) = {}"
    "set (items (TimeoutLists s) CacheTimeoutList) \<union> set (items (TimeoutLists s) CacheRequestTimeoutList) = dom (nodes s)"
    "sorted (map (node_stamp L s) (items (TimeoutLists s) CacheTimeoutList))"
    "\<And>p N. nodes s p = Some N \<Longrightarrow> UpdateTimestamp N \<le> ServiceTicker s"
    "\<And>p N. nodes s p = Some N \<Longrightarrow> p \<in> set (items (TimeoutLists s) CacheRequestTimeoutList) \<longleftrightarrow> PendingRequestId N \<noteq> 0"
    "Sound s"
  using assms by (auto simp: ac_ok_def Let_def)

lemma ac_write_fields [simp]:
  "CacheMap (ac_write L p f s) = CacheMap s" "TimeoutLists (ac_write L p f s) = TimeoutLists s"
  "ServiceTicker (ac_write L p f s) = ServiceTicker s" "Sound (ac_write L p f s) = Sound s"
  "PendingRequests (ac_write L p f s) = PendingRequests s"
  by (simp_all add: ac_write_def split: option.split)

lemma ac_write_nodes [simp]:
  "nodes (ac_write L p f s) = (nodes s)(p := map_option f (nodes s p))"
proof (cases "nodes s p")
  case (Some N)
  then show ?thesis by (simp add: ac_write_def put_get)
qed (simp add: ac_write_def fun_upd_idem)

text \<open>A node that is written with the time of the ticker moves to the end of one of the lists.\<close>

lemma touched_ok:
  assumes ok: "ac_ok L items s" and N: "nodes s p = Some N"
    and t: "nodes t = (nodes s)(p \<mapsto> N')" "CacheMap t = CacheMap s" "ServiceTicker t = ServiceTicker s" "Sound t"
      "items (TimeoutLists t) = (\<lambda>m. removeAll p (items (TimeoutLists s) m) @ (if m = n then [p] else []))"
    and N': "NodeKey N' = NodeKey N" "UpdateTimestamp N' = ServiceTicker s" "PendingRequestId N' \<noteq> 0 \<longleftrightarrow> n = CacheRequestTimeoutList"
  shows "ac_ok L items t"
proof -
  note d = ac_okD [OF ok]
  let ?T = "items (TimeoutLists s) CacheTimeoutList"
  have st: "node_stamp L t q = node_stamp L s q" if "q \<noteq> p" for q
    using that by (simp add: node_stamp_def t(1))
  have "sorted (map (node_stamp L s) (removeAll p ?T))"
    using d(6) by (simp add: removeAll_filter_not_eq sorted_filter)
  moreover have "map (node_stamp L t) (removeAll p ?T) = map (node_stamp L s) (removeAll p ?T)" by (rule map_cong) (auto simp: st)
  ultimately have s1: "sorted (map (node_stamp L t) (removeAll p ?T))" by metis
  have "node_stamp L s q \<le> ServiceTicker s" for q using d(7) by (auto simp: node_stamp_def split: option.split)
  then have s2: "sorted (map (node_stamp L t) (removeAll p ?T @ [p]))"
    using s1 st N' t(1) by (auto simp: sorted_append node_stamp_def)
  have m: "CacheMap t k = Some q \<longleftrightarrow> (\<exists>N. nodes t q = Some N \<and> NodeKey N = k)" for k q
    using d(1) [of k q] N N'(1) by (auto simp: t(1,2))
  show ?thesis
    unfolding ac_ok_def Let_def using d(2-5) s1 s2 N N'(2,3) m d(7,8) t(3,4)
    by (cases n) (auto simp: t(1) t(5) distinct_removeAll)
qed

lemma update_ok:
  assumes ok: "ac_ok L items s"
  shows "ac_ok L items (snd (AC_UpdateCacheNode L k data s))"
proof (cases "CacheMap s k")
  case None
  then show ?thesis using ok by (simp add: AC_UpdateCacheNode_def ac_ok_def node_stamp_def Let_def)
next
  case (Some p)
  then obtain N where N: "nodes s p = Some N" using ac_okD(1) [OF ok] by blast
  show ?thesis
    by (rule touched_ok [OF ok N, where n = CacheTimeoutList and
        N' = "N\<lparr>InfoOpt := case_option no_info id data, UpdateTimestamp := ServiceTicker s, PendingRequestId := 0\<rparr>"])
      (use Some N ac_okD(9) [OF ok] in \<open>simp_all add: AC_UpdateCacheNode_def Let_def grab_tail_items fun_eq_iff\<close>)
qed

lemma bind_ok:
  assumes ok: "ac_ok L items s" and N: "nodes s p = Some N" "PendingRequestId N = 0" "rid \<noteq> 0"
  shows "ac_ok L items (AC_BindRequestId L p rid s)"
  by (rule touched_ok [OF ok N(1), where n = CacheRequestTimeoutList and
      N' = "N\<lparr>PendingRequestId := rid, UpdateTimestamp := ServiceTicker s\<rparr>"])
    (use N ac_okD(9) [OF ok] in \<open>simp_all add: AC_BindRequestId_def Let_def grab_tail_items fun_eq_iff\<close>)

lemma append_ok:
  assumes ok: "ac_ok L items s" and N: "nodes s p = Some N" "PendingRequestId N \<noteq> 0"
  shows "ac_ok L items (AC_AppendRequestNode L p rn False s)"
  using ok N by (simp add: AC_AppendRequestNode_def ac_ok_def Let_def)

lemma ac_later_ok: "ac_ok L items s \<Longrightarrow> ServiceTicker s \<le> now \<Longrightarrow> ac_ok L items (s\<lparr>ServiceTicker := now\<rparr>)"
  by (fastforce simp: ac_ok_def Let_def)

text \<open>The memory that the function leaves behind; on a miss it then reads the end iterator.\<close>

lemma acquire_ok:
  assumes ok: "ac_ok L items s"
  shows "ac_ok L items (snd (AC_AcquireCacheNode L k s))"
proof (cases "CacheMap s k")
  case (Some p)
  then show ?thesis using ok by (simp add: AC_AcquireCacheNode_def)
next
  case None
  obtain p pool where p: "st_acquire (ac_pool L) (CacheNodePool s) = (p, pool)" by (cases "st_acquire (ac_pool L) (CacheNodePool s)")
  note d = ac_okD [OF ok]
  show ?thesis
  proof (cases "p = 0")
    case True
    then have "st_get (ac_pool L) pool = nodes s" using acquire_full p by simp
    then show ?thesis using ok None p True
      by (simp add: AC_AcquireCacheNode_def ac_ok_def node_stamp_def [abs_def] Let_def)
  next
    case False
    have new: "nodes s p = None" and g: "st_get (ac_pool L) pool = (nodes s)(p \<mapsto> fresh_cache_node)"
      using acquire_new [OF p False] acquire_get [OF p False] by simp_all
    have fresh: "p \<notin> set (items (TimeoutLists s) m)" for m
      using d(5) new by (cases m) auto
    let ?t = "snd (AC_AcquireCacheNode L k s)"
    let ?N = "fresh_cache_node\<lparr>NodeKey := k, UpdateTimestamp := ServiceTicker s\<rparr>"
    have t: "nodes ?t = (nodes s)(p \<mapsto> ?N)" "CacheMap ?t = (CacheMap s)(k \<mapsto> p)" "ServiceTicker ?t = ServiceTicker s" "Sound ?t"
        "items (TimeoutLists ?t) = (items (TimeoutLists s))(CacheTimeoutList := items (TimeoutLists s) CacheTimeoutList @ [p])"
      using None p False g d(9) fresh by (simp_all add: AC_AcquireCacheNode_def Let_def add_tail_items)
    have st: "map (node_stamp L ?t) (items (TimeoutLists s) CacheTimeoutList) = map (node_stamp L s) (items (TimeoutLists s) CacheTimeoutList)"
      using fresh [of CacheTimeoutList] by (intro map_cong refl) (auto simp: node_stamp_def t(1))
    have le: "node_stamp L s q \<le> ServiceTicker s" for q using d(7) by (auto simp: node_stamp_def split: option.split)
    have "node_stamp L ?t p = ServiceTicker s" by (simp add: node_stamp_def t(1))
    then have srt: "sorted (map (node_stamp L ?t) (items (TimeoutLists s) CacheTimeoutList @ [p]))"
      using d(6) le unfolding map_append st by (simp add: sorted_append)
    have "nodes s q = Some N \<Longrightarrow> NodeKey N \<noteq> k" for q N using d(1) [of k q] None by auto
    then have m: "CacheMap ?t x = Some q \<longleftrightarrow> (\<exists>N. nodes ?t q = Some N \<and> NodeKey N = x)" for x q
      using d(1) [of x q] new by (auto simp: t(1,2))
    show ?thesis
      unfolding ac_ok_def Let_def using d(2-5,7,8) fresh srt m t(3,4)
      by (auto simp: t(1) t(5) fresh_cache_node_def)
  qed
qed

lemma drained: "\<exists>q. pop_loop (\<lambda>q. li_pop_head (ac_pending L) q p (\<lambda>_. True)) (\<lambda>_ q. q) w = Some q"
  using pop_loop_total [where I = "\<lambda>_. True" and m = "\<lambda>q. length (waits q p)" and s = w
      and pop = "\<lambda>q. li_pop_head (ac_pending L) q p (\<lambda>_. True)" and body = "\<lambda>_ q. q"]
    pending.pop_head_Some(2) by fastforce

lemma removed_ok:
  assumes ok: "ac_ok L items s" and p: "items (TimeoutLists s) CacheTimeoutList = p # ps"
    and l: "items l = (items (TimeoutLists s))(CacheTimeoutList := ps)"
  shows "ac_ok L items (AC_RemoveCacheNode L p (s\<lparr>TimeoutLists := l\<rparr>))"
    "nodes (AC_RemoveCacheNode L p (s\<lparr>TimeoutLists := l\<rparr>)) = (nodes s)(p := None)"
    "items (TimeoutLists (AC_RemoveCacheNode L p (s\<lparr>TimeoutLists := l\<rparr>))) CacheTimeoutList = ps"
    "ServiceTicker (AC_RemoveCacheNode L p (s\<lparr>TimeoutLists := l\<rparr>)) = ServiceTicker s"
proof -
  note d = ac_okD [OF ok]
  have "p \<in> dom (nodes s)" using d(5) p by auto
  then obtain N where N: "nodes s p = Some N" by auto
  then have k: "CacheMap s (NodeKey N) = Some p" using d(1) by blast
  obtain q where q: "pop_loop (\<lambda>q. li_pop_head (ac_pending L) q p (\<lambda>_. True)) (\<lambda>_ q. q) (PendingRequests s) = Some q"
    using drained by blast
  let ?t = "AC_RemoveCacheNode L p (s\<lparr>TimeoutLists := l\<rparr>)"
  have out: "p \<notin> set ps" "p \<notin> set (items (TimeoutLists s) CacheRequestTimeoutList)" using d(2,4) p by auto
  have rest: "removeAll p (items (TimeoutLists s) m) = items (TimeoutLists s) m" if "m \<noteq> CacheTimeoutList" for m
    using that out(2) by (cases m) simp_all
  have t: "nodes ?t = (nodes s)(p := None)" "CacheMap ?t = (CacheMap s)(NodeKey N := None)" "ServiceTicker ?t = ServiceTicker s" "Sound ?t"
      "items (TimeoutLists ?t) = (items (TimeoutLists s))(CacheTimeoutList := ps)"
    using N k q d(9) out l rest
    by (auto simp: AC_RemoveCacheNode_def release_get remove_items fun_eq_iff)
  then show "nodes ?t = (nodes s)(p := None)" "items (TimeoutLists ?t) CacheTimeoutList = ps" "ServiceTicker ?t = ServiceTicker s"
    by simp_all
  have st: "map (node_stamp L ?t) ps = map (node_stamp L s) ps"
    using out(1) by (intro map_cong refl) (auto simp: node_stamp_def t(1))
  have "sorted (map (node_stamp L ?t) ps)" unfolding st using d(6) p by simp
  moreover have "CacheMap ?t x = Some y \<longleftrightarrow> (\<exists>N. nodes ?t y = Some N \<and> NodeKey N = x)" for x y
    using d(1) [of x y] d(1) [of x p] N k by (auto simp: t(1,2))
  ultimately show "ac_ok L items ?t"
    unfolding ac_ok_def Let_def using d(2-5,7,8) p out t(3,4) by (auto simp: t(1) t(5))
qed

text \<open>A tick removes the nodes whose last update is \<open>old\<close> enough, except those that wait for an answer.\<close>

lemma expired_ok:
  assumes ok: "ac_ok L items s"
  shows "\<exists>t. AC_RemoveTimeoutCacheNodes L T s = Some t \<and> ac_ok L items t \<and>
    nodes t = (\<lambda>p. case nodes s p of None \<Rightarrow> None
      | Some N \<Rightarrow> if UpdateTimestamp N \<le> ServiceTicker s - T \<and> PendingRequestId N = 0 then None else Some N)"
proof -
  let ?K = "ServiceTicker s - T"
  let ?I = "\<lambda>t. ac_ok L items t \<and> (\<exists>pre. items (TimeoutLists s) CacheTimeoutList = pre @ items (TimeoutLists t) CacheTimeoutList \<and>
    (\<forall>p \<in> set pre. node_stamp L s p \<le> ?K) \<and> nodes t = nodes s |` (- set pre))"
  note d = ac_okD [OF ok]
  have body: "?I (AC_RemoveCacheNode L p u) \<and>
      length (items (TimeoutLists (AC_RemoveCacheNode L p u)) CacheTimeoutList) < length (items (TimeoutLists t) CacheTimeoutList)"
    if I: "?I t" and pop: "ac_pop L ?K t = Some (p, u)" for t p u
  proof -
    obtain l where l: "u = t\<lparr>TimeoutLists := l\<rparr>"
        "li_pop_head (ac_lists L) (TimeoutLists t) CacheTimeoutList
          (\<lambda>p. case nodes t p of None \<Rightarrow> False | Some N \<Rightarrow> UpdateTimestamp N \<le> ?K) = Some (p, l)"
      using pop by (auto simp: ac_pop_def)
    note q = pop_head_Some [OF l(2)]
    have il: "items l = (items (TimeoutLists t))(CacheTimeoutList := items l CacheTimeoutList)" using q(3) by auto
    obtain pre where pre: "items (TimeoutLists s) CacheTimeoutList = pre @ items (TimeoutLists t) CacheTimeoutList"
        "\<forall>p \<in> set pre. node_stamp L s p \<le> ?K" "nodes t = nodes s |` (- set pre)" using I by blast
    have okt: "ac_ok L items t" using I by simp
    note r = removed_ok [OF okt q(2) il]
    have "node_stamp L s p \<le> ?K" using q(1) pre(3) by (auto simp: node_stamp_def restrict_map_def split: option.splits if_splits)
    then have "\<forall>p \<in> set (pre @ [p]). node_stamp L s p \<le> ?K" using pre(2) by simp
    moreover have "nodes (AC_RemoveCacheNode L p u) = nodes s |` (- set (pre @ [p]))"
      using r(2) pre(3) l(1) by (auto simp: restrict_map_def)
    moreover have "items (TimeoutLists s) CacheTimeoutList = (pre @ [p]) @ items (TimeoutLists (AC_RemoveCacheNode L p u)) CacheTimeoutList"
      using pre(1) q(2) r(3) l(1) by simp
    ultimately have "?I (AC_RemoveCacheNode L p u)" using r(1) l(1) by blast
    then show ?thesis using r(3) q(2) l(1) by simp
  qed
  have "\<exists>t. pop_loop (ac_pop L ?K) (AC_RemoveCacheNode L) s = Some t \<and> ?I t \<and> ac_pop L ?K t = None"
    by (rule pop_loop_total [where m = "\<lambda>t. length (items (TimeoutLists t) CacheTimeoutList)"])
      (use ok body in \<open>auto intro: exI [of _ "[]"]\<close>)
  then obtain t pre where t: "pop_loop (ac_pop L ?K) (AC_RemoveCacheNode L) s = Some t" "ac_ok L items t" "ac_pop L ?K t = None"
      and pre: "items (TimeoutLists s) CacheTimeoutList = pre @ items (TimeoutLists t) CacheTimeoutList"
        "\<forall>p \<in> set pre. node_stamp L s p \<le> ?K" "nodes t = nodes s |` (- set pre)" by blast
  have young: "\<not> node_stamp L s p \<le> ?K" if p: "p \<in> set (items (TimeoutLists t) CacheTimeoutList)" for p
  proof -
    obtain h r where h: "items (TimeoutLists t) CacheTimeoutList = h # r" using p by (cases "items (TimeoutLists t) CacheTimeoutList") auto
    have dist: "h \<notin> set pre" using d(2) pre(1) h by auto
    have "h \<in> dom (nodes s)" using d(5) pre(1) h by auto
    then have "\<not> node_stamp L s h \<le> ?K"
      using t(3) h dist pre(3) by (auto simp: ac_pop_def pop_head_None node_stamp_def split: option.splits)
    moreover have "node_stamp L s h \<le> node_stamp L s p" using d(6) pre(1) h p by (auto simp: sorted_append)
    ultimately show ?thesis by simp
  qed
  have "nodes t p = (case nodes s p of None \<Rightarrow> None
      | Some N \<Rightarrow> if UpdateTimestamp N \<le> ?K \<and> PendingRequestId N = 0 then None else Some N)" for p
  proof (cases "nodes s p")
    case None
    then show ?thesis using pre(3) by (simp add: restrict_map_def)
  next
    case (Some N)
    have stamp: "node_stamp L s p = UpdateTimestamp N" using Some by (simp add: node_stamp_def)
    have "p \<in> set (items (TimeoutLists s) CacheTimeoutList) \<longleftrightarrow> PendingRequestId N = 0" using d(4,5) d(8) [OF Some] Some by blast
    then show ?thesis using Some stamp pre young [of p] by (auto simp: restrict_map_def)
  qed
  then show ?thesis using t(1,2) by (auto simp: AC_RemoveTimeoutCacheNodes_def)
qed

end

subsection \<open>Properties of the cache\<close>

definition ref_ac_lib :: "(xAuthCacheNode ref_pool, cache_list \<Rightarrow> u64 list, u64 \<Rightarrow> u64 list) ac_lib" where
  "ref_ac_lib = \<lparr>ac_pool = ref_storage fresh_cache_node, ac_lists = ref_lists, ac_pending = ref_lists\<rparr>"

interpretation ref_ac: ac_env ref_ac_lib "\<lambda>l. l" "\<lambda>l. l"
  unfolding ac_env_def ref_ac_lib_def by (simp add: ref_storage_contract ref_lists_contract)

text \<open>
  What the operations keep, one by one. A consistent cache stays consistent when a known name is looked up, a result is
  stored, a request is bound to a node that has none, or waits on a node that has one; and its removal of old nodes ends
  and takes away exactly the nodes that have not been updated since \<open>T\<close> and have no request bound to them. For a name
  that is not known the function fills the cache, but then reads the second of the end iterator: there is no run of the
  code behind that call, and \<open>acquire_ok\<close> speaks of the memory it leaves behind only.
\<close>

lemma auth_service_expiry:
  assumes "ac_env L items waits" "ac_ok L items s"
  shows "(AC_AcquireCacheNode L k s = (CacheNode p, t) \<longrightarrow> t = s)"
    "ac_ok L items (snd (AC_UpdateCacheNode L k data s))"
    "st_get (ac_pool L) (CacheNodePool s) p = Some N \<and> PendingRequestId N = 0 \<and> rid \<noteq> 0 \<longrightarrow>
      ac_ok L items (AC_BindRequestId L p rid s)"
    "st_get (ac_pool L) (CacheNodePool s) p = Some N \<and> PendingRequestId N \<noteq> 0 \<longrightarrow>
      ac_ok L items (AC_AppendRequestNode L p rn False s)"
    "\<exists>t. AC_RemoveTimeoutCacheNodes L T s = Some t \<and> ac_ok L items t \<and>
      st_get (ac_pool L) (CacheNodePool t) = (\<lambda>p. case st_get (ac_pool L) (CacheNodePool s) p of None \<Rightarrow> None
        | Some N \<Rightarrow> if UpdateTimestamp N \<le> ServiceTicker s - T \<and> PendingRequestId N = 0 then None else Some N)"
  using ac_env.update_ok [OF assms] ac_env.bind_ok [OF assms] ac_env.append_ok [OF assms] ac_env.expired_ok [OF assms]
  by (auto simp: AC_AcquireCacheNode_def Let_def split: option.splits prod.splits if_splits)

text \<open>
  The unfinished server answers no query: one for a name that is not in the cache reads a pointer that is not one,
  one for a known name is dropped.
\<close>

lemma auth_service_never_answers:
  "AuthService_OnClientPacket wc L cmd rid P s = Some (b, out, t) \<Longrightarrow> out = []"
  "des_xQueryAuthCache wc P = Some (Req, r) \<Longrightarrow> CacheMap s (xQueryAuthCache.UserPass Req) = None \<Longrightarrow>
   AuthService_OnClientPacket wc L Cmd_AuthService_QueryAuthCache rid P s = None"
  by (auto simp: AuthService_OnClientPacket_def AC_AcquireCacheNode_def Let_def split: if_splits option.splits prod.splits acquired.splits)

subsection \<open>A client is authenticated\<close>

context auth_cache_env
begin

lemma RequestAuth_ticker: "RequestAuth al Src UP s = (b, out, t) \<Longrightarrow> am_Ticker t = am_Ticker s"
  by (auto simp: RequestAuth_def AuthCache.AcquireCacheNode_def join_node_def PerformAuthRequest_def HitCache_def Let_def
      split: if_splits option.splits prod.splits)

lemma query_answered:
  assumes ok: "sound (view s)" and ra: "RequestAuth al Src UP s = (True, [(cmd, i, m)], t)"
    and des: "des_xQueryAuthCacheResp wc P = Some (Resp, r)"
    and now: "am_Ticker s \<le> now" "480000 \<le> now" "now - am_Ticker s < 480000"
  shows "cmd = Cmd_AuthService_QueryAuthCache \<and> m = xQueryAuthCache.make UP \<and>
    (\<exists>out u. AuthCache_OnTick al now (AuthCache_OnServerPacket wc al i P t) = Some (out, u) \<and>
      (Src, Some (take_result Resp)) \<in> set out)"
proof -
  have okt: "sound (view t)" and acc: "accepted Src UP (ReconfirmTimePointMS s) [(cmd, i, m)] (view s) (view t)"
    using request_auth_ok [OF ok ra] by auto
  obtain x R q where a: "a_reqs (view t) = (a_reqs (view s))(x \<mapsto> R)" "RequestSourceId R = Src"
      "a_queue (view t) = (a_queue (view s))(q := a_queue (view s) q @ [x])"
    and c: "case a_map (view t) UP of None \<Rightarrow> q = DispatchResultList \<and> xPA_AuthRequestNode.CacheNodeId R = 0 \<and> [(cmd, i, m)] = []
      | Some i' \<Rightarrow> \<exists>N. a_nodes (view t) i' = Some N \<and> xPA_AuthCacheNode.UserPass N = UP \<and> xPA_AuthRequestNode.CacheNodeId R = i' \<and>
             q = (if Ready (Result N) then DispatchResultList else RequestListOf i') \<and>
             [(cmd, i, m)] = (if \<forall>M. a_nodes (view s) i' = Some M \<longrightarrow> LastUpdateTimestampMS M \<le> ReconfirmTimePointMS s
               then [(Cmd_AuthService_QueryAuthCache, i', xQueryAuthCache.make UP)] else [])"
    using acc unfolding accepted_def by (elim exE conjE) (rule that)
  obtain i' where i': "a_map (view t) UP = Some i'" using c by (cases "a_map (view t) UP") simp_all
  with c obtain N where c': "a_nodes (view t) i' = Some N" "xPA_AuthRequestNode.CacheNodeId R = i'"
      "q = (if Ready (Result N) then DispatchResultList else RequestListOf i')"
      "[(cmd, i, m)] = (if \<forall>M. a_nodes (view s) i' = Some M \<longrightarrow> LastUpdateTimestampMS M \<le> ReconfirmTimePointMS s
               then [(Cmd_AuthService_QueryAuthCache, i', xQueryAuthCache.make UP)] else [])" by auto
  have m: "cmd = Cmd_AuthService_QueryAuthCache" "i = i'" "m = xQueryAuthCache.make UP"
    using c'(4) by (simp_all split: if_splits)
  have N: "a_nodes (view t) i = Some N" and q: "q = DispatchResultList \<or> q = RequestListOf i"
    and R: "xPA_AuthRequestNode.CacheNodeId R = i" and x: "a_reqs (view t) x = Some R" "x \<in> set (a_queue (view t) q)"
    using c' m(2) a by simp_all
  let ?u = "AuthCache_OnServerPacket wc al i P t" let ?A = "take_result Resp"
  have v: "view ?u = a_response i ?A (view t)" using view_packet [of wc i P t] des N by simp
  have okx: "sound (view ?u)" by (rule packet_ok(1) [OF okt])
  have tick: "am_Ticker ?u = am_Ticker s"
    using RequestAuth_ticker [OF ra] by (simp add: AuthCache_OnServerPacket_def HitCache_def Let_def split: option.split)
  have an: "a_now (view t) = am_Ticker s" using RequestAuth_ticker [OF ra] by (simp add: cache_view_def)
  obtain out w where w: "AuthCache_OnTick al now ?u = Some (out, w)" "ticked now out (view ?u) (view w)"
    using tick_ok [OF okx, of now] now(1,2) tick by metis
  have reqs: "a_reqs (view ?u) x = Some R" using x(1) by (simp add: v a_response_def Let_def a_hit_def a_grab_def)
  have que: "x \<in> set (a_queue (view ?u) DispatchResultList)"
    using x(2) q by (auto simp: v a_response_def Let_def a_hit_def a_grab_def)
  have notwait: "x \<notin> set (a_queue (view ?u) (RequestListOf j))" for j
    using reqs_okD(3) [of "view ?u" x "RequestListOf j" DispatchResultList] okx que by (auto simp: sound_def cache_ok_def)
  have "now - 480000 \<le> am_Ticker s" using now by unat_arith
  then have kept: "map_option Result (kept now (view ?u) i) = Some ?A"
    using N an by (simp add: v kept_def a_response_def Let_def a_hit_def a_grab_def)
  obtain rs where rs: "set rs = {r. a_reqs (view ?u) r \<noteq> None \<and>
        (\<forall>i. r \<in> set (a_queue (view ?u) (RequestListOf i)) \<longrightarrow> kept now (view ?u) i = None)}"
      "out = map (answer ((view ?u)\<lparr>a_nodes := kept now (view ?u)\<rparr>)) rs"
    using w(2) unfolding ticked_def by blast
  have "x \<in> set rs" using rs(1) reqs notwait by simp
  then have "answer ((view ?u)\<lparr>a_nodes := kept now (view ?u)\<rparr>) x \<in> set out" unfolding rs(2) by simp
  moreover have "answer ((view ?u)\<lparr>a_nodes := kept now (view ?u)\<rparr>) x = (Src, Some ?A)"
    using reqs a(2) R kept by (simp add: answer_def)
  ultimately show ?thesis using w(1) m by auto
qed

end

text \<open>
  C4: A client is authenticated. Whatever the cache of the proxy access server went through, when a request for a name
  and password makes it ask the service, the stand-in answers the packet that was posted, and the first tick after the
  answer, if it comes within eight minutes, hands the request's client a result that is ready, is not blocked and has the
  country of the service.
\<close>

theorem client_authenticated:
  assumes "auth_cache_env al itL itU itQ" "wire_codec wc" "empty_cache al itL itU itQ s0" "auth_reach wc al s0 s"
    and req: "RequestAuth al Src UP s = (True, [(cmd, i, m)], t)" and len: "length UP \<le> w_str_max wc"
    and now: "am_Ticker s \<le> now" "480000 \<le> now" "now - am_Ticker s < 480000"
  shows "\<exists>P. FakeAuth_OnClientPacket wc country cmd i (ser_xQueryAuthCache wc m) =
      (True, [(Cmd_AuthService_QueryAuthCacheResp, i, P)]) \<and>
    (\<exists>out u A. AuthCache_OnTick al now (AuthCache_OnServerPacket wc al i P t) = Some (out, u) \<and> (Src, Some A) \<in> set out \<and>
      Ready A \<and> \<not> xPA_AuthResult.IsBlocked A \<and> xPA_AuthResult.CountryId A = country)"
proof -
  let ?Resp = "xQueryAuthCacheResp.make 0 country 0 0 False False False False False []"
  let ?P = "ser_xQueryAuthCacheResp wc ?Resp"
  have ok: "sound (cache_view al itL itU itQ s)" using auth_cache_env.reach_ok [OF assms(1,4,3)] by simp
  have des: "des_xQueryAuthCacheResp wc ?P = Some (?Resp, [])"
    using wire_codec.ser_des_xQueryAuthCacheResp [OF assms(2), of ?Resp "[]"]
    by (simp add: ok_xQueryAuthCacheResp_def xQueryAuthCacheResp.defs)
  note q = auth_cache_env.query_answered [OF assms(1) ok req des now]
  have "des_xQueryAuthCache wc (ser_xQueryAuthCache wc m) = Some (m, [])"
    using wire_codec.ser_des_xQueryAuthCache [OF assms(2), of m "[]"] len q
    by (simp add: ok_xQueryAuthCache_def xQueryAuthCache.defs)
  then have "FakeAuth_OnClientPacket wc country cmd i (ser_xQueryAuthCache wc m) =
      (True, [(Cmd_AuthService_QueryAuthCacheResp, i, ?P)])"
    using q by (simp add: FakeAuth_OnClientPacket_def)
  moreover have "Ready (take_result ?Resp)" "\<not> xPA_AuthResult.IsBlocked (take_result ?Resp)"
      "xPA_AuthResult.CountryId (take_result ?Resp) = country"
    by (simp_all add: take_result_def xQueryAuthCacheResp.defs)
  ultimately show ?thesis using q by blast
qed

theorem client_authenticated_witness:
  "\<exists>i m t P out u A. RequestAuth ref_auth_lib 7 (bytes_of ''a:b'') demo_auth = (True, [(Cmd_AuthService_QueryAuthCache, i, m)], t) \<and>
     FakeAuth_OnClientPacket ref_wire 16978 Cmd_AuthService_QueryAuthCache i (ser_xQueryAuthCache ref_wire m) =
       (True, [(Cmd_AuthService_QueryAuthCacheResp, i, P)]) \<and>
     AuthCache_OnTick ref_auth_lib 500100 (AuthCache_OnServerPacket ref_wire ref_auth_lib i P t) = Some (out, u) \<and>
     (7, Some A) \<in> set out \<and> xPA_AuthResult.CountryId A = 16978"
proof -
  obtain b out t where r: "RequestAuth ref_auth_lib 7 (bytes_of ''a:b'') demo_auth = (b, out, t)"
    by (metis prod_cases3)
  have "fst (RequestAuth ref_auth_lib 7 (bytes_of ''a:b'') demo_auth)"
      "fst (snd (RequestAuth ref_auth_lib 7 (bytes_of ''a:b'') demo_auth)) =
        [(Cmd_AuthService_QueryAuthCache, 1, xQueryAuthCache.make (bytes_of ''a:b''))]"
    by code_simp+
  then have r: "RequestAuth ref_auth_lib 7 (bytes_of ''a:b'') demo_auth =
      (True, [(Cmd_AuthService_QueryAuthCache, 1, xQueryAuthCache.make (bytes_of ''a:b''))], t)"
    using r by simp
  have l: "length (bytes_of ''a:b'') \<le> w_str_max ref_wire" "am_Ticker demo_auth \<le> 500100" "(480000 :: u64) \<le> 500100"
      "500100 - am_Ticker demo_auth < 480000"
    by (code_simp+)
  from client_authenticated [OF ref_auth.auth_cache_env_axioms ref_wire_contract demo_auth_empty auth_reach.init r l, of 16978] r
  show ?thesis by blast
qed

end
