(* ===== verification/CacheManager.thy ===== *)
theory CacheManager
  imports XelReference
begin

text \<open>
  \<^verbatim>\<open>xCacheManager\<close> (\<^verbatim>\<open>lib_server_util/cache_manager.cpp\<close>), an abstract class for caches that are filled by
  asynchronous queries. No class of the repository derives from it; the virtual functions are the actions and an
  argument. \<open>None\<close> is a failed assertion, a null pointer that is read or a loop that does not end.
\<close>

subsection \<open>State\<close>

datatype eState = CACHE_STATE_INIT | CACHE_STATE_QUERY | CACHE_STATE_RESULT

text \<open>\<open>'d\<close> is what \<^verbatim>\<open>DataPtr\<close> points to, \<open>'c\<close> the context of a request.\<close>

record 'd xCacheNode =
  CacheNodeId :: u64
  TimestampMS :: u64
  NodeState :: eState
  CacheKey :: bytes
  DataPtr :: "'d option"

definition fresh_xnode :: "'d xCacheNode" where
  "fresh_xnode = \<lparr>CacheNodeId = 0, TimestampMS = 0, NodeState = CACHE_STATE_INIT, CacheKey = [], DataPtr = None\<rparr>"

record cache_audit =
  CacheNew :: u64
  CacheLimit :: u64
  CacheHit :: u64
  CacheQuery :: u64
  CacheQueryLimit :: u64
  CacheQueryFailed :: u64
  CacheQueryCombined :: u64
  CacheQueryCancelled :: u64
  DanglingResult :: u64
  ValidResult :: u64
  BadResult :: u64

text \<open>
  The library: the pool of nodes, the pool of request contexts (named by their addresses), the timeout lists and the
  list of the waiting requests of each node. \<open>cm_query\<close> is \<^verbatim>\<open>MakeAsyncQuery\<close>.
\<close>

datatype timeout_list = XTimeoutList | XQuickReleaseTimeoutList

record ('n, 'r, 'l, 'q, 'c, 'd) cm_lib =
  cm_nodes :: "('n, 'd xCacheNode) storage_ops"
  cm_requests :: "('r, 'c) storage_ops"
  cm_lists :: "('l, timeout_list, u64) list_ops"
  cm_waiting :: "('q, u64, u64) list_ops"
  cm_query :: "u64 \<Rightarrow> bytes \<Rightarrow> bool"

record ('n, 'r, 'l, 'q) xCacheManager =
  XTicker :: u64
  XNodePool :: 'n
  CacheRequestPool :: 'r
  XCacheMap :: "bytes \<rightharpoonup> u64"
  XLists :: 'l
  PendingRequestList :: 'q
  XAudit :: cache_audit

datatype ('c, 'd) cm_action = OnResultData 'c "'d option" | OnReleaseData u64 'd

type_synonym ('n, 'r, 'l, 'q, 'c, 'd) cm_result = "(('c, 'd) cm_action list \<times> ('n, 'r, 'l, 'q) xCacheManager) option"

definition audit :: "(cache_audit \<Rightarrow> cache_audit) \<Rightarrow> ('n, 'r, 'l, 'q) xCacheManager \<Rightarrow> ('n, 'r, 'l, 'q) xCacheManager" where
  "audit f s = s\<lparr>XAudit := f (XAudit s)\<rparr>"

subsection \<open>Operations\<close>

text \<open>\<open>Init\<close>: the results of the two pools decide; the second test is not negated.\<close>

definition CacheManager_Init :: "bool \<Rightarrow> bool \<Rightarrow> bool" where
  "CacheManager_Init nodes_ok requests_ok = (if \<not> nodes_ok then False else if requests_ok then False else True)"

definition pop_waiting :: "('n, 'r, 'l, 'q, 'c, 'd) cm_lib \<Rightarrow> u64 \<Rightarrow> ('c, 'd) cm_action list \<times> ('n, 'r, 'l, 'q) xCacheManager \<Rightarrow>
    (u64 \<times> ('c, 'd) cm_action list \<times> ('n, 'r, 'l, 'q) xCacheManager) option" where
  "pop_waiting L i q = (case q of (out, s) \<Rightarrow>
     map_option (\<lambda>(r, w). (r, out, s\<lparr>PendingRequestList := w\<rparr>)) (li_pop_head (cm_waiting L) (PendingRequestList s) i (\<lambda>_. True)))"

definition answer_waiting :: "('n, 'r, 'l, 'q, 'c, 'd) cm_lib \<Rightarrow> 'd option \<Rightarrow> (cache_audit \<Rightarrow> cache_audit) \<Rightarrow> u64 \<Rightarrow>
    ('c, 'd) cm_action list \<times> ('n, 'r, 'l, 'q) xCacheManager \<Rightarrow> ('c, 'd) cm_action list \<times> ('n, 'r, 'l, 'q) xCacheManager" where
  "answer_waiting L d f r q = (case q of (out, s) \<Rightarrow>
     (case st_get (cm_requests L) (CacheRequestPool s) r of None \<Rightarrow> (out, s)
      | Some c \<Rightarrow> (out @ [OnResultData c d], (audit f s)\<lparr>CacheRequestPool := st_release (cm_requests L) (CacheRequestPool s) r\<rparr>)))"

definition SetResultData :: "('n, 'r, 'l, 'q, 'c, 'd) cm_lib \<Rightarrow> u64 \<Rightarrow> 'd option \<Rightarrow> ('n, 'r, 'l, 'q) xCacheManager \<Rightarrow>
    ('n, 'r, 'l, 'q, 'c, 'd) cm_result" where
  "SetResultData L i Data s =
     (case st_get (cm_nodes L) (XNodePool s) i of
        None \<Rightarrow> Some ([], audit (\<lambda>a. a\<lparr>DanglingResult := DanglingResult a + 1\<rparr>) s)
      | Some N \<Rightarrow>
          let out = (case DataPtr N of None \<Rightarrow> [] | Some d \<Rightarrow> [OnReleaseData (CacheNodeId N) d]);
              s = s\<lparr>XNodePool := st_put (cm_nodes L) (XNodePool s) i (N\<lparr>DataPtr := Data, NodeState := CACHE_STATE_RESULT\<rparr>)\<rparr>;
              s = audit (\<lambda>a. if Data = None then a\<lparr>BadResult := BadResult a + 1\<rparr> else a\<lparr>ValidResult := ValidResult a + 1\<rparr>) s in
          pop_loop (pop_waiting L i) (answer_waiting L Data id) (out, s))"

text \<open>The part of \<^verbatim>\<open>PostAcquireCacheNodeRequest\<close> behind the lookup; \<open>i\<close> names the node.\<close>

definition request_node :: "('n, 'r, 'l, 'q, 'c, 'd) cm_lib \<Rightarrow> u64 \<Rightarrow> 'd xCacheNode \<Rightarrow> bytes \<Rightarrow> 'c \<Rightarrow> ('n, 'r, 'l, 'q) xCacheManager \<Rightarrow>
    ('n, 'r, 'l, 'q, 'c, 'd) cm_result" where
  "request_node L i N k Context s =
     (if NodeState N = CACHE_STATE_RESULT then
        Some ([OnResultData Context (DataPtr N)], audit (\<lambda>a. a\<lparr>CacheHit := CacheHit a + 1\<rparr>) s)
      else
        let (r, p) = st_acquire (cm_requests L) (CacheRequestPool s); s = s\<lparr>CacheRequestPool := p\<rparr> in
        if r = 0 then Some ([OnResultData Context None], audit (\<lambda>a. a\<lparr>CacheQueryLimit := CacheQueryLimit a + 1\<rparr>) s)
        else
          let s = s\<lparr>CacheRequestPool := st_put (cm_requests L) (CacheRequestPool s) r Context,
                PendingRequestList := li_add_tail (cm_waiting L) (PendingRequestList s) i r\<rparr> in
          if NodeState N = CACHE_STATE_QUERY then Some ([], audit (\<lambda>a. a\<lparr>CacheQueryCombined := CacheQueryCombined a + 1\<rparr>) s)
          else if \<not> cm_query L (CacheNodeId N) k then
            SetResultData L (CacheNodeId N) None (audit (\<lambda>a. a\<lparr>CacheQueryFailed := CacheQueryFailed a + 1\<rparr>) s)
          else Some ([], audit (\<lambda>a. a\<lparr>CacheQuery := CacheQuery a + 1\<rparr>) s))"

text \<open>\<open>NP\<close> stays null when the key is in the map.\<close>

definition PostAcquireCacheNodeRequest :: "('n, 'r, 'l, 'q, 'c, 'd) cm_lib \<Rightarrow> bytes \<Rightarrow> 'c \<Rightarrow> ('n, 'r, 'l, 'q) xCacheManager \<Rightarrow>
    ('n, 'r, 'l, 'q, 'c, 'd) cm_result" where
  "PostAcquireCacheNodeRequest L k Context s =
     (case XCacheMap s k of
        Some _ \<Rightarrow> None
      | None \<Rightarrow>
          let (i, p) = st_acquire (cm_nodes L) (XNodePool s); s = s\<lparr>XNodePool := p\<rparr> in
          if i = 0 then Some ([], audit (\<lambda>a. a\<lparr>CacheLimit := CacheLimit a + 1\<rparr>) s)
          else
            let N = fresh_xnode\<lparr>CacheNodeId := i, CacheKey := k, TimestampMS := XTicker s\<rparr>;
                s = s\<lparr>XNodePool := st_put (cm_nodes L) (XNodePool s) i N, XCacheMap := (XCacheMap s)(k \<mapsto> i),
                  XLists := li_add_tail (cm_lists L) (XLists s) XQuickReleaseTimeoutList i\<rparr>;
                s = audit (\<lambda>a. a\<lparr>CacheNew := CacheNew a + 1\<rparr>) s in
            request_node L i N k Context s)"

text \<open>The node is neither taken out of the map nor given back to the pool.\<close>

definition ReleaseCacheNode :: "('n, 'r, 'l, 'q, 'c, 'd) cm_lib \<Rightarrow> u64 \<Rightarrow> ('n, 'r, 'l, 'q) xCacheManager \<Rightarrow>
    ('n, 'r, 'l, 'q, 'c, 'd) cm_result" where
  "ReleaseCacheNode L i s =
     (case st_get (cm_nodes L) (XNodePool s) i of
        None \<Rightarrow> None
      | Some N \<Rightarrow>
          map_option (\<lambda>(out, s). (out @ (case DataPtr N of None \<Rightarrow> [] | Some d \<Rightarrow> [OnReleaseData (CacheNodeId N) d]), s))
            (pop_loop (pop_waiting L i) (answer_waiting L None (\<lambda>a. a\<lparr>CacheQueryCancelled := CacheQueryCancelled a + 1\<rparr>)) ([], s)))"

definition CM_GetAndResetLocalAudit :: "('n, 'r, 'l, 'q) xCacheManager \<Rightarrow> cache_audit \<times> ('n, 'r, 'l, 'q) xCacheManager" where
  "CM_GetAndResetLocalAudit s = (XAudit s, s\<lparr>XAudit := cache_audit.make 0 0 0 0 0 0 0 0 0 0 0\<rparr>)"

subsection \<open>What it does\<close>

locale cm_env =
  nodes: indexed_storage "cm_nodes L" fresh_xnode + requests: indexed_storage "cm_requests L" fresh_context +
  waiting: hooked_lists "cm_waiting L" waits
  for L :: "('n, 'r, 'l, 'q, 'c, 'd) cm_lib" and fresh_context :: 'c and waits :: "'q \<Rightarrow> u64 \<Rightarrow> u64 list"
begin

text \<open>A result goes to the requests that wait, in their order, and empties the list.\<close>

lemma waiting_answered:
  assumes "distinct (waits (PendingRequestList s) i)"
    and "\<forall>r \<in> set (waits (PendingRequestList s) i). st_get (cm_requests L) (CacheRequestPool s) r \<noteq> None"
  shows "\<exists>t. pop_loop (pop_waiting L i) (answer_waiting L d f) (out, s) =
      Some (out @ map (\<lambda>r. OnResultData (the (st_get (cm_requests L) (CacheRequestPool s) r)) d) (waits (PendingRequestList s) i), t) \<and>
    waits (PendingRequestList t) i = []"
  using assms
proof (induction "waits (PendingRequestList s) i" arbitrary: s out)
  case Nil
  then show ?case by (simp add: pop_waiting_def waiting.pop_head_empty)
next
  case (Cons r rs)
  obtain w where w: "li_pop_head (cm_waiting L) (PendingRequestList s) i (\<lambda>_. True) = Some (r, w)"
      "waits w = (waits (PendingRequestList s))(i := rs)"
    using waiting.pop_head_take [OF Cons.hyps(2) [symmetric], of "\<lambda>_. True"] by blast
  obtain c where c: "st_get (cm_requests L) (CacheRequestPool s) r = Some c" using Cons.prems(2) Cons.hyps(2) [symmetric] by auto
  let ?t = "(audit f (s\<lparr>PendingRequestList := w\<rparr>))\<lparr>CacheRequestPool := st_release (cm_requests L) (CacheRequestPool s) r\<rparr>"
  have p: "pop_waiting L i (out, s) = Some (r, out, s\<lparr>PendingRequestList := w\<rparr>)" using w(1) by (simp add: pop_waiting_def)
  have a: "answer_waiting L d f r (out, s\<lparr>PendingRequestList := w\<rparr>) = (out @ [OnResultData c d], ?t)"
    by (simp add: answer_waiting_def c)
  have f: "waits (PendingRequestList ?t) i = rs" using w(2) by (simp add: audit_def)
  have nin: "r \<notin> set rs" "distinct rs" using Cons.prems(1) Cons.hyps(2) [symmetric] by auto
  have g: "st_get (cm_requests L) (CacheRequestPool ?t) x = st_get (cm_requests L) (CacheRequestPool s) x" if "x \<in> set rs" for x
    using that nin(1) by (auto simp: requests.release_get)
  have m: "map (\<lambda>r. OnResultData (the (st_get (cm_requests L) (CacheRequestPool ?t) r)) d) rs =
      map (\<lambda>r. OnResultData (the (st_get (cm_requests L) (CacheRequestPool s) r)) d) rs"
    by (rule map_cong) (simp_all only: g)
  have "\<forall>x \<in> set rs. st_get (cm_requests L) (CacheRequestPool ?t) x \<noteq> None"
    using g Cons.prems(2) Cons.hyps(2) [symmetric] by auto
  then have "\<exists>t'. pop_loop (pop_waiting L i) (answer_waiting L d f) (out @ [OnResultData c d], ?t) =
      Some ((out @ [OnResultData c d]) @ map (\<lambda>r. OnResultData (the (st_get (cm_requests L) (CacheRequestPool ?t) r)) d) rs, t') \<and>
      waits (PendingRequestList t') i = []"
    using Cons.hyps(1) [of ?t] f nin(2) by metis
  then show ?case unfolding m using Cons.hyps(2) [symmetric] p a c by simp
qed

end

definition ref_cm_lib :: "(nat xCacheNode ref_pool, nat ref_pool, timeout_list \<Rightarrow> u64 list, u64 \<Rightarrow> u64 list, nat, nat) cm_lib" where
  "ref_cm_lib = \<lparr>cm_nodes = ref_storage fresh_xnode, cm_requests = ref_storage 0, cm_lists = ref_lists, cm_waiting = ref_lists,
     cm_query = (\<lambda>_ _. True)\<rparr>"

interpretation ref_cm: cm_env ref_cm_lib 0 "\<lambda>l. l"
  unfolding cm_env_def ref_cm_lib_def by (simp add: ref_storage_contract ref_lists_contract)

text \<open>Initialisation fails when both pools are ready.\<close>

lemma init_of_ready_pools_fails: "\<not> CacheManager_Init True True"
  by (simp add: CacheManager_Init_def)

text \<open>The first request of a key makes the second one read a null pointer, whatever happened to the first.\<close>

lemma second_request_fails:
  assumes "PostAcquireCacheNodeRequest L k c s = Some (out, t)" "st_acquire (cm_nodes L) (XNodePool s) = (i, p)" "i \<noteq> 0"
    and "cm_query L i k"
  shows "PostAcquireCacheNodeRequest L k c' t = None"
  using assms
  by (auto simp: PostAcquireCacheNodeRequest_def request_node_def audit_def fresh_xnode_def Let_def
      split: option.splits if_splits prod.splits)

end
