(* ===== verification/PyFormat.thy ===== *)
theory PyFormat
  imports Prelude
begin

text \<open>
  \<^verbatim>\<open>ParsePythonStringArray\<close> (\<^verbatim>\<open>lib_server_util/py_format.cpp\<close>): the parser of a list of strings in the notation of
  Python. A pointer into the text is the rest of the text, up to its terminating zero; the end is the empty list.
\<close>

subsection \<open>The parser\<close>

definition is_space :: "byte \<Rightarrow> bool" where
  "is_space C \<longleftrightarrow> C = 32 \<or> 9 \<le> C \<and> C \<le> 13"

fun TrySkipSpaces :: "bytes \<Rightarrow> bytes" where
  "TrySkipSpaces [] = []"
| "TrySkipSpaces (C # PC) = (if is_space C then TrySkipSpaces PC else C # PC)"

abbreviation quote :: byte where "quote \<equiv> 39"
abbreviation double_quote :: byte where "double_quote \<equiv> 34"
abbreviation backslash :: byte where "backslash \<equiv> 92"

text \<open>The loop behind the opening quote; the result is the string and what follows the closing quote.\<close>

fun parse_string :: "byte \<Rightarrow> bool \<Rightarrow> bytes \<Rightarrow> bytes \<Rightarrow> (bytes \<times> bytes) option" where
  "parse_string EndCode IsConverting output [] = None"
| "parse_string EndCode IsConverting output (C # PC) =
     (if IsConverting then parse_string EndCode False (output @ [C]) PC
      else if C = backslash then parse_string EndCode True output PC
      else if C = quote \<or> C = double_quote then
        (if C = EndCode then Some (output, PC) else parse_string EndCode IsConverting (output @ [C]) PC)
      else parse_string EndCode IsConverting (output @ [C]) PC)"

definition TryParseString :: "bytes \<Rightarrow> (bytes \<times> bytes) option" where
  "TryParseString StringBegin =
     (case StringBegin of [] \<Rightarrow> None | EndCode # PC \<Rightarrow> parse_string EndCode False [] PC)"

lemma skip_length: "length (TrySkipSpaces s) \<le> length s"
  by (induction s) auto

lemma parse_string_length: "parse_string e b out s = Some (t, r) \<Longrightarrow> length r < length s"
  by (induction e b out s rule: parse_string.induct) (fastforce split: if_splits)+

function parse_segs :: "bytes list \<Rightarrow> bytes \<Rightarrow> bytes list option" where
  "parse_segs Segs PC0 =
     (case TrySkipSpaces PC0 of
        [] \<Rightarrow> None
      | C # PC \<Rightarrow>
          if C = 93 then (if TrySkipSpaces PC = [] then Some Segs else None)
          else if C = quote \<or> C = double_quote then
            (case TryParseString (C # PC) of None \<Rightarrow> None | Some (t, r) \<Rightarrow> parse_segs (Segs @ [t]) r)
          else if C = 44 then parse_segs Segs PC
          else None)"
  by auto

termination
proof (relation "measure (length \<circ> snd)", goal_cases)
  case (2 Segs PC0 C PC q t r)
  then have "length r < length PC" by (auto simp: TryParseString_def dest: parse_string_length)
  with 2(1) show ?case using skip_length [of PC0] by simp
next
  case (3 Segs PC0 C PC)
  then show ?case using skip_length [of PC0] by simp
qed simp

declare parse_segs.simps [simp del]

definition ParsePythonStringArray :: "bytes \<Rightarrow> bytes list option" where
  "ParsePythonStringArray Source =
     (case TrySkipSpaces (takeWhile (\<lambda>C. C \<noteq> 0) Source) of
        [] \<Rightarrow> None
      | C # PC \<Rightarrow> if C \<noteq> 91 then None else parse_segs [] PC)"

subsection \<open>Printing\<close>

text \<open>
  A list is printed with a quote of choice around each string, a backslash before both quotes and before the backslash,
  and any separators of white space and commas.
\<close>

definition escape :: "bytes \<Rightarrow> bytes" where
  "escape t = concat (map (\<lambda>C. if C = quote \<or> C = double_quote \<or> C = backslash then [backslash, C] else [C]) t)"

definition print_string :: "byte \<Rightarrow> bytes \<Rightarrow> bytes" where
  "print_string e t = e # escape t @ [e]"

definition separator :: "bytes \<Rightarrow> bool" where
  "separator s \<longleftrightarrow> (\<forall>C \<in> set s. is_space C \<or> C = 44)"

definition blank :: "bytes \<Rightarrow> bool" where "blank s \<longleftrightarrow> (\<forall>C \<in> set s. is_space C)"

text \<open>The items are a separator, the quote and the string; the last separator is in front of the bracket.\<close>

definition print_list :: "bytes \<Rightarrow> (bytes \<times> byte \<times> bytes) list \<Rightarrow> bytes \<Rightarrow> bytes \<Rightarrow> bytes" where
  "print_list pre xs post rest =
     pre @ [91] @ concat (map (\<lambda>(sep, e, t). sep @ print_string e t) xs) @ post @ [93] @ rest"

lemma parse_escaped:
  "e = quote \<or> e = double_quote \<Longrightarrow> parse_string e False out (escape t @ e # r) = Some (out @ t, r)"
  by (induction t arbitrary: out) (auto simp: escape_def)

lemma skip_blank: "blank s \<Longrightarrow> TrySkipSpaces (s @ r) = TrySkipSpaces r"
  by (induction s) (auto simp: blank_def)

lemma skip_char: "\<not> is_space C \<Longrightarrow> TrySkipSpaces (C # s) = C # s"
  by simp

lemma not_space: "\<not> is_space 91" "\<not> is_space 93" "\<not> is_space 44" "\<not> is_space quote" "\<not> is_space double_quote"
  by (simp_all add: is_space_def)

lemma parse_separator: "separator s \<Longrightarrow> parse_segs Segs (s @ r) = parse_segs Segs r"
proof (induction s)
  case (Cons C s)
  then have ih: "parse_segs Segs (s @ r) = parse_segs Segs r" and C: "is_space C \<or> C = 44"
    by (auto simp: separator_def)
  show ?case
  proof (cases "is_space C")
    case True
    then have "TrySkipSpaces (C # s @ r) = TrySkipSpaces (s @ r)" by simp
    then have "parse_segs Segs (C # s @ r) = parse_segs Segs (s @ r)" by (subst (1 2) parse_segs.simps) (simp only:)
    with ih show ?thesis by simp
  next
    case False
    then have "parse_segs Segs (C # s @ r) = parse_segs Segs (s @ r)" using C by (subst parse_segs.simps) simp
    with ih show ?thesis by simp
  qed
qed simp

lemma parse_item:
  "e = quote \<or> e = double_quote \<Longrightarrow> parse_segs Segs (print_string e t @ r) = parse_segs (Segs @ [t]) r"
  by (subst parse_segs.simps) (auto simp: print_string_def not_space TryParseString_def parse_escaped [where out = "[]", simplified])

lemma parse_items:
  assumes "\<forall>(sep, e, t) \<in> set xs. separator sep \<and> (e = quote \<or> e = double_quote)"
  shows "parse_segs Segs (concat (map (\<lambda>(sep, e, t). sep @ print_string e t) xs) @ r) =
    parse_segs (Segs @ map (\<lambda>(sep, e, t). t) xs) r"
  using assms
proof (induction xs arbitrary: Segs)
  case (Cons x xs)
  obtain sep e t where x: "x = (sep, e, t)" by (cases x)
  with Cons show ?case by (simp add: parse_separator parse_item)
qed simp

lemma no_zero: "(\<forall>C \<in> set s. C \<noteq> 0) \<Longrightarrow> takeWhile (\<lambda>C. C \<noteq> 0) s = s"
  by (induction s) auto

subsection \<open>Properties\<close>

text \<open>
  C38: A printed list is read back. Whatever strings without a zero byte are printed, with either quote around each,
  escapes for the quotes and the backslash, any white space and commas between the items and white space around the
  brackets, the parser returns exactly these strings; with anything else behind the closing bracket it refuses.
\<close>

theorem python_array_round_trip:
  assumes "\<forall>(sep, e, t) \<in> set xs. separator sep \<and> (e = quote \<or> e = double_quote) \<and> 0 \<notin> set t"
    and "blank pre" "separator post"
  shows "(blank rest \<longrightarrow> ParsePythonStringArray (print_list pre xs post rest) = Some (map (\<lambda>(sep, e, t). t) xs)) \<and>
    (\<not> blank rest \<and> 0 \<notin> set rest \<longrightarrow> ParsePythonStringArray (print_list pre xs post rest) = None)"
proof -
  let ?body = "concat (map (\<lambda>(sep, e, t). sep @ print_string e t) xs) @ post @ [93] @ rest"
  have sp: "0 \<notin> set s" if "separator s" for s using that by (auto simp: separator_def is_space_def)
  have bl: "separator s" if "blank s" for s using that by (auto simp: separator_def blank_def)
  have esc: "0 \<notin> set (escape t)" if "0 \<notin> set t" for t using that by (auto simp: escape_def)
  have z: "0 \<notin> set (print_list pre xs post rest)" if "0 \<notin> set rest"
    using assms sp bl esc that by (fastforce simp: print_list_def print_string_def)
  have p: "ParsePythonStringArray (print_list pre xs post rest) =
      (if TrySkipSpaces rest = [] then Some (map (\<lambda>(sep, e, t). t) xs) else None)" if r: "0 \<notin> set rest"
  proof -
    have "takeWhile (\<lambda>C. C \<noteq> 0) (print_list pre xs post rest) = pre @ 91 # ?body"
      using z [OF r] no_zero [of "print_list pre xs post rest"] by (auto simp: print_list_def)
    then have "ParsePythonStringArray (print_list pre xs post rest) = parse_segs [] ?body"
      by (simp add: ParsePythonStringArray_def skip_blank [OF assms(2)] not_space)
    also have "\<dots> = parse_segs (map (\<lambda>(sep, e, t). t) xs) ([93] @ rest)"
      using parse_items [of xs "[]" "post @ [93] @ rest"] assms(1) by (auto simp: parse_separator [OF assms(3)] split_beta)
    also have "\<dots> = (if TrySkipSpaces rest = [] then Some (map (\<lambda>(sep, e, t). t) xs) else None)"
      by (subst parse_segs.simps) (simp add: not_space)
    finally show ?thesis .
  qed
  have "TrySkipSpaces rest = [] \<longleftrightarrow> blank rest" by (induction rest) (auto simp: blank_def)
  then show ?thesis using p sp [OF bl, of rest] by auto
qed

theorem python_array_round_trip_witness:
  "ParsePythonStringArray [32, 91, 39, 97, 92, 39, 98, 39, 44, 32, 34, 99, 34, 32, 93] = Some [[97, 39, 98], [99]]"
proof -
  let ?xs = "[([], quote, [97, 39, 98]), ([44, 32], double_quote, [99])] :: (bytes \<times> byte \<times> bytes) list"
  have "\<forall>(sep, e, t) \<in> set ?xs. separator sep \<and> (e = quote \<or> e = double_quote) \<and> 0 \<notin> set t" "blank [32]" "separator [32]" "blank []"
    by (simp_all add: separator_def blank_def is_space_def)
  with python_array_round_trip [of ?xs "[32]" "[32]" "[]"]
  have "ParsePythonStringArray (print_list [32] ?xs [32] []) = Some [[97, 39, 98], [99]]" by simp
  moreover have "print_list [32] ?xs [32] [] = [32, 91, 39, 97, 92, 39, 98, 39, 44, 32, 34, 99, 34, 32, 93]"
    by (simp add: print_list_def print_string_def escape_def)
  ultimately show ?thesis by simp
qed

text \<open>
  The notation is wider than that of Python: commas can be missing or repeated, and the escape of a line feed is the
  letter.
\<close>

lemma not_python:
  "ParsePythonStringArray (bytes_of ''[,\"a\"\"b\",,]'') = Some [bytes_of ''a'', bytes_of ''b'']"
  "ParsePythonStringArray [91, 39, 92, 110, 39, 93] = Some [[110]]"
  by code_simp+

end
