(* ===== verification/GeoIp.thy ===== *)
theory GeoIp
  imports DeviceRelay
begin

text \<open>
  \<^verbatim>\<open>xIpDb\<close> (\<^verbatim>\<open>pp_common/ipdb/Ipdb.cpp\<close>): from an address to the ids of its country and state, by the IP2Location
  database and a table of the known regions. The database (\<^verbatim>\<open>IP2Location_get_all\<close>) and the CSV reader are parameters:
  \<open>db\<close> gives the short country and the region of an address, \<open>rows\<close> the two columns of the table. \<open>None\<close> is a failed
  assertion.
\<close>

subsection \<open>Operations\<close>

record geo_table =
  KnownGeoInfoList :: "xGeoInfo list"
  CityIdToReginInfoMap :: "u32 \<rightharpoonup> nat"
  StateNameToRegionIdMap :: "bytes \<rightharpoonup> nat"

definition MakeCombinedStateName :: "bytes \<Rightarrow> bytes \<Rightarrow> bytes" where
  "MakeCombinedStateName CountryName StateName = CountryName @ [58] @ StateName"

text \<open>One round of the loop over the rows; an unknown country skips the row.\<close>

definition add_region :: "nat \<times> bytes \<times> bytes \<Rightarrow> geo_table \<Rightarrow> geo_table" where
  "add_region row g = (case row of (I, CountryName, RegionName) \<Rightarrow>
     (let CId = CountryCodeToCountryId CountryName in
      if CId = 0 then g
      else
        let SId = word_of_nat I; CtId = SId in
        g\<lparr>KnownGeoInfoList := KnownGeoInfoList g @ [\<lparr>xGeoInfo.CountryId = CId, StateId = SId, CityId = CtId\<rparr>],
          CityIdToReginInfoMap := (CityIdToReginInfoMap g)(CtId \<mapsto> I),
          StateNameToRegionIdMap := (StateNameToRegionIdMap g)(MakeCombinedStateName CountryName RegionName \<mapsto> I)\<rparr>))"

definition InitKnownGeoInfoList :: "(bytes \<times> bytes) list \<Rightarrow> geo_table \<Rightarrow> geo_table option" where
  "InitKnownGeoInfoList rows g =
     (if KnownGeoInfoList g \<noteq> [] \<or> dom (CityIdToReginInfoMap g) \<noteq> {} \<or> dom (StateNameToRegionIdMap g) \<noteq> {} then None
      else
        let g = fold add_region (enumerate 0 rows) g in
        if length rows = length (KnownGeoInfoList g) \<and> length rows = card (dom (CityIdToReginInfoMap g)) \<and>
           length rows \<ge> card (dom (StateNameToRegionIdMap g)) then Some g
        else None)"

definition IpDb_Get :: "(bytes \<Rightarrow> (bytes \<times> bytes) option) \<Rightarrow> geo_table \<Rightarrow> bytes \<Rightarrow> xGeoInfo option option" where
  "IpDb_Get db g IpStr =
     (case db IpStr of
        None \<Rightarrow> Some None
      | Some (Country, Region) \<Rightarrow>
          (case StateNameToRegionIdMap g (MakeCombinedStateName Country Region) of
             None \<Rightarrow> Some None
           | Some Index \<Rightarrow>
               if Index < length (KnownGeoInfoList g) then Some (Some (KnownGeoInfoList g ! Index)) else None))"

subsection \<open>The table\<close>

definition no_table :: geo_table where
  "no_table = \<lparr>KnownGeoInfoList = [], CityIdToReginInfoMap = Map.empty, StateNameToRegionIdMap = Map.empty\<rparr>"

definition region_info :: "nat \<Rightarrow> bytes \<Rightarrow> xGeoInfo" where
  "region_info I c = \<lparr>xGeoInfo.CountryId = CountryCodeToCountryId c, StateId = word_of_nat I, CityId = word_of_nat I\<rparr>"

lemma names_differ:
  "length c = length c' \<Longrightarrow> MakeCombinedStateName c r = MakeCombinedStateName c' r' \<longleftrightarrow> c = c' \<and> r = r'"
  by (simp add: MakeCombinedStateName_def)

text \<open>Of equal rows the last one counts.\<close>

definition last_row :: "('x) list \<Rightarrow> 'x \<Rightarrow> nat \<Rightarrow> bool" where
  "last_row rows x i \<longleftrightarrow> i < length rows \<and> rows ! i = x \<and> (\<forall>j. i < j \<and> j < length rows \<longrightarrow> rows ! j \<noteq> x)"

lemma last_row_snoc: "last_row (xs @ [y]) x i \<longleftrightarrow> (if x = y then i = length xs else last_row xs x i)"
proof (cases "x = y")
  case True
  have "i = length xs" if l: "last_row (xs @ [y]) x i"
  proof (rule ccontr)
    assume "i \<noteq> length xs"
    with l have "i < length xs" by (simp add: last_row_def)
    moreover from l have "i < length xs \<longrightarrow> (xs @ [y]) ! length xs \<noteq> x" by (auto simp: last_row_def nth_append)
    ultimately have "(xs @ [y]) ! length xs \<noteq> x" by blast
    with True show False by simp
  qed
  moreover have "last_row (xs @ [y]) x (length xs)" using True by (auto simp: last_row_def)
  ultimately show ?thesis using True by auto
next
  case False
  have n: "j < length (xs @ [y]) \<and> (xs @ [y]) ! j = x \<longleftrightarrow> j < length xs \<and> xs ! j = x" for j
    using False by (auto simp: nth_append less_Suc_eq)
  have "last_row zs x i \<longleftrightarrow> (i < length zs \<and> zs ! i = x) \<and> (\<forall>j. i < j \<longrightarrow> \<not> (j < length zs \<and> zs ! j = x))" for zs
    unfolding last_row_def by blast
  then show ?thesis using False by (simp only: n if_False)
qed

lemma last_row_exists: "x \<in> set xs \<Longrightarrow> \<exists>i. last_row xs x i"
proof (induction xs rule: rev_induct)
  case (snoc y xs)
  then show ?case by (cases "x = y") (auto simp: last_row_snoc)
qed simp

lemma last_row_unique: "last_row xs x i \<Longrightarrow> last_row xs x j \<Longrightarrow> i = j"
  unfolding last_row_def by (cases i j rule: linorder_cases) auto

lemma table_filled:
  assumes "\<forall>(c, r) \<in> set rows. length c = 2 \<and> CountryCodeToCountryId c \<noteq> 0" "length rows < 2 ^ 32"
  shows "let g = fold add_region (enumerate 0 rows) no_table in
    KnownGeoInfoList g = map (\<lambda>i. region_info i (fst (rows ! i))) [0 ..< length rows] \<and>
    dom (CityIdToReginInfoMap g) = word_of_nat ` {..< length rows} \<and>
    (\<forall>c r i. length c = 2 \<longrightarrow>
       (StateNameToRegionIdMap g (MakeCombinedStateName c r) = Some i \<longleftrightarrow> last_row rows (c, r) i)) \<and>
    dom (StateNameToRegionIdMap g) \<subseteq> (\<lambda>(c, r). MakeCombinedStateName c r) ` set rows"
  using assms
proof (induction rows rule: rev_induct)
  case Nil
  then show ?case by (simp add: no_table_def last_row_def)
next
  case (snoc x rows)
  obtain c r where x: "x = (c, r)" by (cases x)
  let ?g = "fold add_region (enumerate 0 rows) no_table"
  have e: "fold add_region (enumerate 0 (rows @ [x])) no_table = add_region (length rows, c, r) ?g"
    by (simp add: enumerate_append_eq x)
  have v: "length c = 2" "CountryCodeToCountryId c \<noteq> 0" using snoc.prems(1) x by auto
  have ih: "KnownGeoInfoList ?g = map (\<lambda>i. region_info i (fst (rows ! i))) [0 ..< length rows]"
      "dom (CityIdToReginInfoMap ?g) = word_of_nat ` {..< length rows}"
      "\<And>c r i. length c = 2 \<Longrightarrow> StateNameToRegionIdMap ?g (MakeCombinedStateName c r) = Some i \<longleftrightarrow> last_row rows (c, r) i"
      "dom (StateNameToRegionIdMap ?g) \<subseteq> (\<lambda>(c, r). MakeCombinedStateName c r) ` set rows"
    using snoc by (simp_all add: Let_def)
  have k: "map (\<lambda>i. region_info i (fst ((rows @ [x]) ! i))) [0 ..< length (rows @ [x])] =
      map (\<lambda>i. region_info i (fst (rows ! i))) [0 ..< length rows] @ [region_info (length rows) c]"
    by (simp add: nth_append x)
  have n: "((StateNameToRegionIdMap ?g)(MakeCombinedStateName c r \<mapsto> length rows)) (MakeCombinedStateName c' r') = Some i \<longleftrightarrow>
      last_row (rows @ [x]) (c', r') i" if "length c' = 2" for c' r' i
    using ih(3) [OF that, of r' i] names_differ [of c' c r' r] that v(1) by (auto simp: last_row_snoc x)
  show ?case
    unfolding e k Let_def using v(2) ih(1,2,4) n
    by (auto simp: add_region_def Let_def region_info_def x lessThan_Suc)
qed

lemma table_initialised:
  assumes "\<forall>(c, r) \<in> set rows. length c = 2 \<and> CountryCodeToCountryId c \<noteq> 0" "length rows < 2 ^ 32"
  shows "InitKnownGeoInfoList rows no_table = Some (fold add_region (enumerate 0 rows) no_table)"
proof -
  let ?g = "fold add_region (enumerate 0 rows) no_table"
  have g: "length (KnownGeoInfoList ?g) = length rows" "dom (CityIdToReginInfoMap ?g) = word_of_nat ` {..< length rows}"
      "dom (StateNameToRegionIdMap ?g) \<subseteq> (\<lambda>(c, r). MakeCombinedStateName c r) ` set rows"
    using table_filled [OF assms] by (simp_all add: Let_def)
  have "inj_on (word_of_nat :: nat \<Rightarrow> u32) {..< length rows}"
  proof (rule inj_onI)
    fix i j assume "i \<in> {..< length rows}" "j \<in> {..< length rows}" "(word_of_nat i :: u32) = word_of_nat j"
    moreover have "unat (word_of_nat k :: u32) = k" if "k \<in> {..< length rows}" for k
      using that assms(2) by (intro unat_of_nat_small) simp
    ultimately show "i = j" by metis
  qed
  then have "card (dom (CityIdToReginInfoMap ?g)) = length rows" unfolding g(2) by (simp add: card_image)
  moreover have "card (dom (StateNameToRegionIdMap ?g)) \<le> length rows"
    by (meson card_image_le card_length card_mono finite_imageI finite_set g(3) le_trans)
  ultimately show ?thesis using g(1) by (simp add: InitKnownGeoInfoList_def no_table_def Let_def)
qed

subsection \<open>Properties\<close>

text \<open>
  C39: An address is found in the table of regions. With a table of known countries no assertion fails, and an address
  whose country and region the database knows gets the id of its country and, as the ids of its state and city, the
  number of the last row of the table with this country and region; without such a row it has no location.
\<close>

theorem geo_lookup:
  assumes "\<forall>(c, r) \<in> set rows. length c = 2 \<and> CountryCodeToCountryId c \<noteq> 0" "length rows < 2 ^ 32"
  shows "\<exists>g. InitKnownGeoInfoList rows no_table = Some g \<and>
    (\<forall>db ip c r. db ip = Some (c, r) \<and> length c = 2 \<longrightarrow>
      (if (c, r) \<in> set rows then
         \<exists>i. last_row rows (c, r) i \<and> IpDb_Get db g ip = Some (Some
           \<lparr>xGeoInfo.CountryId = CountryCodeToCountryId c, StateId = word_of_nat i, CityId = word_of_nat i\<rparr>)
       else IpDb_Get db g ip = Some None)) \<and>
    (\<forall>db ip. db ip = None \<longrightarrow> IpDb_Get db g ip = Some None)"
proof -
  let ?g = "fold add_region (enumerate 0 rows) no_table"
  have g: "KnownGeoInfoList ?g = map (\<lambda>i. region_info i (fst (rows ! i))) [0 ..< length rows]"
      "\<And>c r i. length c = 2 \<Longrightarrow> StateNameToRegionIdMap ?g (MakeCombinedStateName c r) = Some i \<longleftrightarrow> last_row rows (c, r) i"
    using table_filled [OF assms] by (simp_all add: Let_def)
  have found: "if (c, r) \<in> set rows then \<exists>i. last_row rows (c, r) i \<and> IpDb_Get db ?g ip = Some (Some
      \<lparr>xGeoInfo.CountryId = CountryCodeToCountryId c, StateId = word_of_nat i, CityId = word_of_nat i\<rparr>)
      else IpDb_Get db ?g ip = Some None"
    if d: "db ip = Some (c, r)" "length c = 2" for db ip c r
  proof (cases "(c, r) \<in> set rows")
    case True
    then obtain i where i: "last_row rows (c, r) i" using last_row_exists by metis
    then have "i < length rows" "fst (rows ! i) = c" by (simp_all add: last_row_def)
    then have "IpDb_Get db ?g ip = Some (Some (region_info i c))"
      using d(1) g(1) g(2) [OF d(2), of r i] i by (simp add: IpDb_Get_def)
    with True i show ?thesis by (auto simp: region_info_def)
  next
    case False
    then have "StateNameToRegionIdMap ?g (MakeCombinedStateName c r) \<noteq> Some i" for i
      using g(2) [OF d(2), of r i] False by (metis last_row_def nth_mem)
    then have "StateNameToRegionIdMap ?g (MakeCombinedStateName c r) = None" by auto
    with d(1) False show ?thesis by (simp add: IpDb_Get_def)
  qed
  have unknown: "IpDb_Get db ?g ip = Some None" if "db ip = None" for db ip
    using that by (simp add: IpDb_Get_def)
  show ?thesis
    by (rule exI [of _ ?g], intro conjI allI impI; (elim conjE)?)
      (use table_initialised [OF assms] found unknown in blast)+
qed

definition demo_rows :: "(bytes \<times> bytes) list" where
  "demo_rows = [(bytes_of ''BR'', bytes_of ''Acre''), (bytes_of ''BR'', bytes_of ''Bahia''), (bytes_of ''BR'', bytes_of ''Acre'')]"

theorem geo_lookup_witness:
  "\<exists>g. InitKnownGeoInfoList demo_rows no_table = Some g \<and>
     IpDb_Get (\<lambda>_. Some (bytes_of ''BR'', bytes_of ''Acre'')) g [] =
       Some (Some \<lparr>xGeoInfo.CountryId = 16978, StateId = 2, CityId = 2\<rparr>)"
proof -
  have id: "CountryCodeToCountryId (bytes_of ''BR'') = 16978" by code_simp
  then have h: "\<forall>(c, r) \<in> set demo_rows. length c = 2 \<and> CountryCodeToCountryId c \<noteq> 0" "length demo_rows < 2 ^ 32"
    by (simp_all add: demo_rows_def)
  have "last_row demo_rows (bytes_of ''BR'', bytes_of ''Acre'') 2"
    by (auto simp: last_row_def demo_rows_def)
  then have last: "i = 2" if "last_row demo_rows (bytes_of ''BR'', bytes_of ''Acre'') i" for i
    using that last_row_unique by metis
  have mem: "(bytes_of ''BR'', bytes_of ''Acre'') \<in> set demo_rows" "length (bytes_of ''BR'') = 2" by (simp_all add: demo_rows_def)
  obtain g where g: "InitKnownGeoInfoList demo_rows no_table = Some g"
    and all: "\<forall>db ip c r. db ip = Some (c, r) \<and> length c = 2 \<longrightarrow>
      (if (c, r) \<in> set demo_rows then
         \<exists>i. last_row demo_rows (c, r) i \<and> IpDb_Get db g ip = Some (Some
           \<lparr>xGeoInfo.CountryId = CountryCodeToCountryId c, StateId = word_of_nat i, CityId = word_of_nat i\<rparr>)
       else IpDb_Get db g ip = Some None)"
    using geo_lookup [OF h] by blast
  have "if (bytes_of ''BR'', bytes_of ''Acre'') \<in> set demo_rows then
      \<exists>i. last_row demo_rows (bytes_of ''BR'', bytes_of ''Acre'') i \<and>
        IpDb_Get (\<lambda>_. Some (bytes_of ''BR'', bytes_of ''Acre'')) g [] = Some (Some
          \<lparr>xGeoInfo.CountryId = CountryCodeToCountryId (bytes_of ''BR''), StateId = word_of_nat i, CityId = word_of_nat i\<rparr>)
    else IpDb_Get (\<lambda>_. Some (bytes_of ''BR'', bytes_of ''Acre'')) g [] = Some None"
    by (rule all [rule_format]) (rule conjI [OF refl mem(2)])
  with mem(1) obtain i where i: "last_row demo_rows (bytes_of ''BR'', bytes_of ''Acre'') i"
    and got: "IpDb_Get (\<lambda>_. Some (bytes_of ''BR'', bytes_of ''Acre'')) g [] = Some (Some
      \<lparr>xGeoInfo.CountryId = CountryCodeToCountryId (bytes_of ''BR''), StateId = word_of_nat i, CityId = word_of_nat i\<rparr>)"
    by (simp only: if_True simp_thms) (elim exE conjE, rule that)
  have "i = 2" by (rule last [OF i])
  with got id have "IpDb_Get (\<lambda>_. Some (bytes_of ''BR'', bytes_of ''Acre'')) g [] =
      Some (Some \<lparr>xGeoInfo.CountryId = 16978, StateId = 2, CityId = 2\<rparr>)" by simp
  with g show ?thesis by (intro exI [of _ g] conjI)
qed

text \<open>The first row of the table has the state and the city 0, which a request takes for any state.\<close>

lemma first_region_is_any:
  "CountryCodeToCountryId c \<noteq> 0 \<Longrightarrow>
   map xGeoInfo.StateId (KnownGeoInfoList (add_region (0, c, r) no_table)) = [0]"
  by (simp add: add_region_def no_table_def Let_def)

text \<open>One row with an unknown country fails the assertion behind the loop.\<close>

lemma unknown_country_fails:
  assumes "CountryCodeToCountryId c = 0"
  shows "InitKnownGeoInfoList [(c, r)] no_table = None"
  using assms by (simp add: InitKnownGeoInfoList_def add_region_def no_table_def)

end
