(* ===== verification/ServiceSupport.thy ===== *)
theory ServiceSupport
  imports XelReference
begin

text \<open>
  What the servers share (\<^verbatim>\<open>lib_server_util/\<close>): the pool of request contexts of \<^verbatim>\<open>service_common.cpp\<close>, the printer of
  \<^verbatim>\<open>collectable_error_printer.cpp\<close>, which collects errors, and the start of the logger. Time is an input. \<open>None\<close> is a
  failed assertion or a loop that does not end.
\<close>

subsection \<open>Request contexts\<close>

record xServiceRequestContext =
  RequestId :: u64
  RequestTimestampMS :: u64
  RequestContext :: u64 \<comment> \<open>\<^verbatim>\<open>xVariable\<close>\<close>
  RequestContextEx :: u64

definition fresh_context_slot :: xServiceRequestContext where
  "fresh_context_slot = \<lparr>RequestId = 0, RequestTimestampMS = 0, RequestContext = 0, RequestContextEx = 0\<rparr>"

text \<open>\<^verbatim>\<open>ServiceTicker\<close> is a global of the servers.\<close>

record ('p, 'l) xServiceRequestContextPool =
  ServiceTicker :: u64
  Pool :: 'p
  TimeoutList :: 'l

type_synonym ('p, 'l) context_pool = "('p, 'l) xServiceRequestContextPool"
type_synonym 'p context_storage = "('p, xServiceRequestContext) storage_ops"
type_synonym 'l context_lists = "('l, unit, u64) list_ops"

text \<open>A context is named by its id; 0 is the null pointer.\<close>

definition Contexts_Acquire :: "'p context_storage \<Rightarrow> 'l context_lists \<Rightarrow> u64 \<Rightarrow> u64 \<Rightarrow> ('p, 'l) context_pool \<Rightarrow>
    u64 \<times> ('p, 'l) context_pool" where
  "Contexts_Acquire st li c cx s =
     (let (Id, p) = st_acquire st (Pool s) in
      if Id = 0 then (0, s\<lparr>Pool := p\<rparr>)
      else (Id, s\<lparr>Pool := st_put st p Id \<lparr>RequestId = Id, RequestTimestampMS = ServiceTicker s, RequestContext = c, RequestContextEx = cx\<rparr>,
                 TimeoutList := li_add_tail li (TimeoutList s) () Id\<rparr>))"

definition Contexts_CheckAndGet :: "'p context_storage \<Rightarrow> u64 \<Rightarrow> ('p, 'l) context_pool \<Rightarrow> xServiceRequestContext option" where
  "Contexts_CheckAndGet st i s = st_get st (Pool s) i"

text \<open>The pool destroys the slot, which takes its node off the list.\<close>

definition Contexts_Release :: "'p context_storage \<Rightarrow> 'l context_lists \<Rightarrow> u64 \<Rightarrow> ('p, 'l) context_pool \<Rightarrow>
    ('p, 'l) context_pool option" where
  "Contexts_Release st li i s =
     (if st_get st (Pool s) i = None then None
      else Some (s\<lparr>Pool := st_release st (Pool s) i, TimeoutList := li_remove li (TimeoutList s) i\<rparr>))"

text \<open>The loop of \<^verbatim>\<open>RemoveTimeoutRequests\<close>; the calls of the callback are part of its state.\<close>

definition pop_old :: "'p context_storage \<Rightarrow> 'l context_lists \<Rightarrow> u64 \<Rightarrow> xServiceRequestContext list \<times> ('p, 'l) context_pool \<Rightarrow>
    (u64 \<times> xServiceRequestContext list \<times> ('p, 'l) context_pool) option" where
  "pop_old st li KillTimepoint q = (case q of (out, s) \<Rightarrow>
     map_option (\<lambda>(i, l). (i, out, s\<lparr>TimeoutList := l\<rparr>))
       (li_pop_head li (TimeoutList s) ()
         (\<lambda>i. case st_get st (Pool s) i of None \<Rightarrow> False | Some N \<Rightarrow> RequestTimestampMS N \<le> KillTimepoint)))"

definition drop_old :: "'p context_storage \<Rightarrow> 'l context_lists \<Rightarrow> u64 \<Rightarrow> xServiceRequestContext list \<times> ('p, 'l) context_pool \<Rightarrow>
    xServiceRequestContext list \<times> ('p, 'l) context_pool" where
  "drop_old st li i q = (case q of (out, s) \<Rightarrow>
     (case st_get st (Pool s) i of None \<Rightarrow> (out, s)
      | Some P \<Rightarrow> (out @ [P], s\<lparr>Pool := st_release st (Pool s) (RequestId P),
          TimeoutList := li_remove li (TimeoutList s) (RequestId P)\<rparr>)))"

definition RemoveTimeoutRequests :: "'p context_storage \<Rightarrow> 'l context_lists \<Rightarrow> u64 \<Rightarrow> ('p, 'l) context_pool \<Rightarrow>
    (xServiceRequestContext list \<times> ('p, 'l) context_pool) option" where
  "RemoveTimeoutRequests st li TimeoutMS s =
     pop_loop (pop_old st li (ServiceTicker s - TimeoutMS)) (drop_old st li) ([], s)"

text \<open>The abstract pool: the contexts in the order of their acquisition.\<close>

definition pending :: "'p context_storage \<Rightarrow> ('l \<Rightarrow> unit \<Rightarrow> u64 list) \<Rightarrow> ('p, 'l) context_pool \<Rightarrow> xServiceRequestContext list" where
  "pending st items s = map (\<lambda>i. the (st_get st (Pool s) i)) (items (TimeoutList s) ())"

definition contexts_ok :: "'p context_storage \<Rightarrow> ('l \<Rightarrow> unit \<Rightarrow> u64 list) \<Rightarrow> ('p, 'l) context_pool \<Rightarrow> bool" where
  "contexts_ok st items s \<longleftrightarrow>
     distinct (items (TimeoutList s) ()) \<and> set (items (TimeoutList s) ()) = dom (st_get st (Pool s)) \<and>
     sorted (map RequestTimestampMS (pending st items s)) \<and>
     (\<forall>i N. st_get st (Pool s) i = Some N \<longrightarrow> RequestId N = i \<and> RequestTimestampMS N \<le> ServiceTicker s)"

locale context_pool_env =
  indexed_storage st fresh_context_slot + hooked_lists li items
  for st :: "'p context_storage" and li :: "'l context_lists" and items :: "'l \<Rightarrow> unit \<Rightarrow> u64 list"
begin

abbreviation held :: "('p, 'l) context_pool \<Rightarrow> u64 \<Rightarrow> xServiceRequestContext option" where
  "held s \<equiv> st_get st (Pool s)"

lemma contexts_okD:
  assumes "contexts_ok st items s"
  shows "distinct (items (TimeoutList s) ())" "set (items (TimeoutList s) ()) = dom (held s)"
    "sorted (map RequestTimestampMS (pending st items s))"
    "\<And>i N. held s i = Some N \<Longrightarrow> RequestId N = i \<and> RequestTimestampMS N \<le> ServiceTicker s"
  using assms by (simp_all add: contexts_ok_def)

lemma pending_in:
  assumes ok: "contexts_ok st items s"
  shows "N \<in> set (pending st items s) \<longleftrightarrow> held s (RequestId N) = Some N"
proof -
  have "N \<in> set (pending st items s) \<longleftrightarrow> (\<exists>i \<in> dom (held s). N = the (held s i))"
    unfolding pending_def contexts_okD(2) [OF ok, symmetric] by auto
  also have "\<dots> \<longleftrightarrow> (\<exists>i. held s i = Some N)" by force
  also have "\<dots> \<longleftrightarrow> held s (RequestId N) = Some N" using contexts_okD(4) [OF ok] by blast
  finally show ?thesis .
qed

lemma lookup_pending:
  assumes "contexts_ok st items s"
  shows "Contexts_CheckAndGet st i s = List.find (\<lambda>N. RequestId N = i) (pending st items s)"
proof (cases "held s i")
  case None
  then have "List.find (\<lambda>N. RequestId N = i) (pending st items s) = None"
    using pending_in [OF assms] by (auto simp: find_None_iff)
  with None show ?thesis by (simp add: Contexts_CheckAndGet_def)
next
  case (Some N)
  then have "N \<in> set (pending st items s)" "RequestId N = i" using pending_in [OF assms] contexts_okD(4) [OF assms] by auto
  then obtain M where M: "List.find (\<lambda>N. RequestId N = i) (pending st items s) = Some M"
    by (cases "List.find (\<lambda>N. RequestId N = i) (pending st items s)") (auto simp: find_None_iff)
  then have "M \<in> set (pending st items s)" "RequestId M = i" by (auto simp: find_Some_iff)
  then show ?thesis using M Some pending_in [OF assms] by (simp add: Contexts_CheckAndGet_def)
qed

lemma acquire_pending:
  assumes ok: "contexts_ok st items s" and a: "Contexts_Acquire st li c cx s = (i, t)"
  shows "contexts_ok st items t \<and> ServiceTicker t = ServiceTicker s \<and>
    (if i = 0 then pending st items t = pending st items s
     else held s i = None \<and> pending st items t = pending st items s @
       [\<lparr>RequestId = i, RequestTimestampMS = ServiceTicker s, RequestContext = c, RequestContextEx = cx\<rparr>])"
proof -
  obtain j p where j: "st_acquire st (Pool s) = (j, p)" by fastforce
  show ?thesis
  proof (cases "j = 0")
    case True
    then show ?thesis using a j acquire_full [of "Pool s" p] ok
      by (auto simp: Contexts_Acquire_def contexts_ok_def pending_def Let_def)
  next
    case False
    let ?N = "\<lparr>RequestId = j, RequestTimestampMS = ServiceTicker s, RequestContext = c, RequestContextEx = cx\<rparr>"
    let ?q = "items (TimeoutList s) ()"
    note d = contexts_okD [OF ok]
    have new: "held s j = None" "st_get st p = (held s)(j \<mapsto> fresh_context_slot)"
      using acquire_new [OF j False] acquire_get [OF j False] by simp_all
    have fresh: "j \<notin> set ?q" using new(1) d(2) by auto
    then have it: "items (li_add_tail li (TimeoutList s) () j) () = ?q @ [j]" by (subst add_tail_items) auto
    have t: "i = j" "held t = (held s)(j \<mapsto> ?N)" "items (TimeoutList t) () = ?q @ [j]" "ServiceTicker t = ServiceTicker s"
      using a j False it new(2) by (auto simp: Contexts_Acquire_def Let_def put_get)
    have "map (\<lambda>i. the (held t i)) ?q = map (\<lambda>i. the (held s i)) ?q" using fresh by (auto simp: t(2))
    then have p: "pending st items t = pending st items s @ [?N]" unfolding pending_def t(3) by (simp add: t(2))
    have "RequestTimestampMS M \<le> ServiceTicker s" if "M \<in> set (pending st items s)" for M
      using that pending_in [OF ok] d(4) by blast
    then have "sorted (map RequestTimestampMS (pending st items t))" using d(3) by (simp add: p sorted_append)
    moreover have "distinct (?q @ [j])" "set (?q @ [j]) = dom (held t)" using d(1,2) fresh t(2) by auto
    ultimately have "contexts_ok st items t"
      unfolding contexts_ok_def t(3,4) using d(4) by (auto simp: t(2))
    with False new(1) p t(1,4) show ?thesis by simp
  qed
qed

lemma removed_pending:
  assumes ok: "contexts_ok st items s" and i: "held s i = Some N"
    and t: "t = s\<lparr>Pool := st_release st (Pool s) i, TimeoutList := l\<rparr>" "items l () = removeAll i (items (TimeoutList s) ())"
  shows "contexts_ok st items t \<and> pending st items t = filter (\<lambda>N. RequestId N \<noteq> i) (pending st items s)"
proof -
  note d = contexts_okD [OF ok]
  have h: "held t = (held s)(i := None)" by (simp add: t(1) release_get)
  have "RequestId (the (held s j)) = j" if "j \<in> set (items (TimeoutList s) ())" for j using that d(2,4) by auto
  then have f: "filter (\<lambda>N. RequestId N \<noteq> i) (pending st items s) = map (\<lambda>j. the (held s j)) (removeAll i (items (TimeoutList s) ()))"
    unfolding pending_def filter_map removeAll_filter_not_eq
    by (intro arg_cong [where f = "map _"] filter_cong refl) (simp, blast)
  have it: "items (TimeoutList t) () = removeAll i (items (TimeoutList s) ())" "ServiceTicker t = ServiceTicker s" using t by simp_all
  then have p: "pending st items t = filter (\<lambda>N. RequestId N \<noteq> i) (pending st items s)"
    unfolding f unfolding pending_def h by (intro map_cong) auto
  have "sorted (map RequestTimestampMS (pending st items t))" unfolding p using d(3) by (rule sorted_filter)
  moreover have "\<forall>j M. held t j = Some M \<longrightarrow> RequestId M = j \<and> RequestTimestampMS M \<le> ServiceTicker t"
    using d(4) by (simp add: h it(2))
  moreover have "set (items (TimeoutList t) ()) = dom (held t)" using d(2) by (auto simp: it(1) h)
  ultimately show ?thesis using d(1) p by (simp add: contexts_ok_def it(1) distinct_removeAll)
qed

lemma release_pending:
  assumes "contexts_ok st items s" "Contexts_Release st li i s = Some t"
  shows "contexts_ok st items t \<and> pending st items t = filter (\<lambda>N. RequestId N \<noteq> i) (pending st items s)"
proof -
  obtain N where "held s i = Some N" using assms(2) by (auto simp: Contexts_Release_def split: if_splits)
  then show ?thesis using removed_pending [OF assms(1)] assms(2) by (auto simp: Contexts_Release_def remove_items split: if_splits)
qed

text \<open>The loop drops the outdated contexts, oldest first.\<close>

lemma expire_pending:
  assumes ok: "contexts_ok st items s" and K: "K = ServiceTicker s - TimeoutMS"
  shows "\<exists>t. RemoveTimeoutRequests st li TimeoutMS s =
      Some (filter (\<lambda>N. RequestTimestampMS N \<le> K) (pending st items s), t) \<and> contexts_ok st items t \<and>
    ServiceTicker t = ServiceTicker s \<and> pending st items t = filter (\<lambda>N. \<not> RequestTimestampMS N \<le> K) (pending st items s)"
proof -
  let ?I = "\<lambda>(out, t). contexts_ok st items t \<and> ServiceTicker t = ServiceTicker s \<and> pending st items s = out @ pending st items t \<and>
    (\<forall>N \<in> set out. RequestTimestampMS N \<le> K)"
  let ?m = "\<lambda>(out, t). length (items (TimeoutList t) ())"
  have body: "?I (drop_old st li i q') \<and> ?m (drop_old st li i q') < ?m q"
    if I: "?I q" and pop: "pop_old st li K q = Some (i, q')" for q i q'
  proof -
    obtain out t where q: "q = (out, t)" by (cases q)
    obtain l where l: "q' = (out, t\<lparr>TimeoutList := l\<rparr>)" "li_pop_head li (TimeoutList t) ()
        (\<lambda>i. case held t i of None \<Rightarrow> False | Some N \<Rightarrow> RequestTimestampMS N \<le> K) = Some (i, l)"
      using pop by (auto simp: pop_old_def q)
    note h = pop_head_Some(1,2) [OF l(2)]
    have ok_t: "contexts_ok st items t" using I q by simp
    obtain N where N: "held t i = Some N" "RequestTimestampMS N \<le> K" using h(1) by (auto split: option.splits)
    have id: "RequestId N = i" using contexts_okD(4) [OF ok_t N(1)] by simp
    have nin: "i \<notin> set (items l ())" using contexts_okD(1) [OF ok_t] h(2) by simp
    let ?u = "t\<lparr>Pool := st_release st (Pool t) i, TimeoutList := li_remove li l i\<rparr>"
    have d: "drop_old st li i q' = (out @ [N], ?u)" by (simp add: drop_old_def l(1) N(1) id)
    have r: "items (li_remove li l i) () = removeAll i (items (TimeoutList t) ())" using h(2) by (simp add: remove_items)
    note rem = removed_pending [OF ok_t N(1) refl r]
    have pt: "pending st items t = N # map (\<lambda>i. the (held t i)) (items l ())" by (simp add: pending_def h(2) N(1))
    have "pending st items ?u = map (\<lambda>i. the (held t i)) (items l ())"
      using nin by (auto simp: pending_def remove_items release_get)
    then have "?I (out @ [N], ?u)" using I rem N(2) pt by (simp add: q)
    moreover have "length (items (li_remove li l i) ()) < length (items (TimeoutList t) ())"
      using nin by (simp add: remove_items h(2))
    ultimately show ?thesis unfolding d q by simp
  qed
  have "?I ([], s)" using ok by simp
  then have "\<exists>q. pop_loop (pop_old st li K) (drop_old st li) ([], s) = Some q \<and> ?I q \<and> pop_old st li K q = None"
    by (rule pop_loop_total [where m = ?m]) (erule (1) body [THEN conjunct1] body [THEN conjunct2])+
  then obtain q where q: "pop_loop (pop_old st li K) (drop_old st li) ([], s) = Some q" "?I q" "pop_old st li K q = None"
    by (elim exE conjE) (rule that)
  obtain out t where t: "q = (out, t)" by (cases q)
  have ok_t: "contexts_ok st items t" and split: "pending st items s = out @ pending st items t"
    and old: "\<forall>N \<in> set out. RequestTimestampMS N \<le> K" and tick: "ServiceTicker t = ServiceTicker s" using q(2) t by auto
  have young: "\<not> RequestTimestampMS N \<le> K" if N: "N \<in> set (pending st items t)" for N
  proof -
    obtain i r where i: "items (TimeoutList t) () = i # r" using N by (cases "items (TimeoutList t) ()") (auto simp: pending_def)
    then have "i \<in> dom (held t)" using contexts_okD(2) [OF ok_t] by auto
    then obtain M where M: "held t i = Some M" by blast
    have "\<not> RequestTimestampMS M \<le> K" using q(3) M i by (auto simp: t pop_old_def pop_head_None)
    moreover have "pending st items t = M # map (\<lambda>i. the (held t i)) r" by (simp add: pending_def i M)
    then have "RequestTimestampMS M \<le> RequestTimestampMS N" using contexts_okD(3) [OF ok_t] N by auto
    ultimately show ?thesis by simp
  qed
  have "filter (\<lambda>N. RequestTimestampMS N \<le> K) (pending st items s) = out"
    using old young by (simp add: split filter_id_conv filter_empty_conv)
  moreover have "filter (\<lambda>N. \<not> RequestTimestampMS N \<le> K) (pending st items s) = pending st items t"
    using old young by (simp add: split filter_id_conv filter_empty_conv)
  ultimately show ?thesis using q(1) ok_t tick unfolding RemoveTimeoutRequests_def K t by auto
qed

end

text \<open>Any sequence of calls, with a ticker that does not go back.\<close>

inductive contexts_reach :: "'p context_storage \<Rightarrow> 'l context_lists \<Rightarrow> ('p, 'l) context_pool \<Rightarrow> ('p, 'l) context_pool \<Rightarrow> bool"
  for st li s0 where
  start: "contexts_reach st li s0 s0"
| later: "contexts_reach st li s0 s \<Longrightarrow> ServiceTicker s \<le> now \<Longrightarrow> contexts_reach st li s0 (s\<lparr>ServiceTicker := now\<rparr>)"
| acquire: "contexts_reach st li s0 s \<Longrightarrow> Contexts_Acquire st li c cx s = (i, t) \<Longrightarrow> contexts_reach st li s0 t"
| release: "contexts_reach st li s0 s \<Longrightarrow> Contexts_Release st li i s = Some t \<Longrightarrow> contexts_reach st li s0 t"
| expire: "contexts_reach st li s0 s \<Longrightarrow> RemoveTimeoutRequests st li T s = Some (out, t) \<Longrightarrow> contexts_reach st li s0 t"

definition contexts_empty :: "'p context_storage \<Rightarrow> ('l \<Rightarrow> unit \<Rightarrow> u64 list) \<Rightarrow> ('p, 'l) context_pool \<Rightarrow> bool" where
  "contexts_empty st items s \<longleftrightarrow> (\<forall>i. st_get st (Pool s) i = None) \<and> items (TimeoutList s) () = []"

context context_pool_env
begin

lemma contexts_later: "contexts_ok st items s \<Longrightarrow> ServiceTicker s \<le> now \<Longrightarrow> contexts_ok st items (s\<lparr>ServiceTicker := now\<rparr>)"
  by (fastforce simp: contexts_ok_def pending_def)

lemma contexts_reach_ok: "contexts_reach st li s0 s \<Longrightarrow> contexts_empty st items s0 \<Longrightarrow> contexts_ok st items s"
proof (induction rule: contexts_reach.induct)
  case start
  then show ?case by (simp add: contexts_empty_def contexts_ok_def pending_def dom_def)
next
  case (expire s T out t)
  then show ?case using expire_pending [of s _ T] by auto
qed (use acquire_pending release_pending contexts_later in blast)+

end

interpretation ref_contexts: context_pool_env "ref_storage fresh_context_slot" ref_lists "\<lambda>l. l"
  by (intro context_pool_env.intro ref_storage_contract ref_lists_contract)

subsection \<open>Collected errors\<close>

record xCollectableErrorPrinter =
  LoggerSet :: bool
  Counter :: u64
  TriggerCountLimit :: u64
  LastTriggerTimestampMS :: u64
  TriggerTimeoutLimitMS :: u64

text \<open>The default logger: how many printers use it, and whether it is open.\<close>

type_synonym default_logger = "u64 \<times> bool"

definition InitDefaultLogger :: "default_logger \<Rightarrow> default_logger" where
  "InitDefaultLogger g = (case g of (n, opened) \<Rightarrow> (n + 1, if n = 0 then True else opened))"

definition CleanDefaultLogger :: "default_logger \<Rightarrow> default_logger" where
  "CleanDefaultLogger g = (case g of (n, opened) \<Rightarrow> (n - 1, if n - 1 = 0 then False else opened))"

definition Printer_Init :: "u64 \<Rightarrow> u64 \<Rightarrow> xCollectableErrorPrinter \<Rightarrow> default_logger \<Rightarrow> xCollectableErrorPrinter \<times> default_logger" where
  "Printer_Init CountLimit TimeoutLimitMS p g =
     (p\<lparr>LoggerSet := True, TriggerCountLimit := CountLimit, TriggerTimeoutLimitMS := TimeoutLimitMS\<rparr>, InitDefaultLogger g)"

definition Printer_Clean :: "xCollectableErrorPrinter \<Rightarrow> default_logger \<Rightarrow> xCollectableErrorPrinter \<times> default_logger" where
  "Printer_Clean p g =
     (\<lparr>LoggerSet = False, Counter = 0, TriggerCountLimit = 0, LastTriggerTimestampMS = 0, TriggerTimeoutLimitMS = 0\<rparr>,
      CleanDefaultLogger g)"

text \<open>The result is the count that is printed, if one is.\<close>

definition Hit :: "u64 \<Rightarrow> xCollectableErrorPrinter \<Rightarrow> u64 option \<times> xCollectableErrorPrinter" where
  "Hit NowMS p =
     (let p = p\<lparr>Counter := Counter p + 1\<rparr>;
          Output = (Counter p > TriggerCountLimit p \<or>
            TriggerTimeoutLimitMS p \<noteq> 0 \<and> NowMS - LastTriggerTimestampMS p > TriggerTimeoutLimitMS p) in
      if Output then (Some (Counter p), p\<lparr>LastTriggerTimestampMS := NowMS, Counter := 0\<rparr>) else (None, p))"

fun hits :: "u64 list \<Rightarrow> xCollectableErrorPrinter \<Rightarrow> u64 option list \<times> xCollectableErrorPrinter" where
  "hits [] p = ([], p)"
| "hits (NowMS # ts) p = (let (r, p) = Hit NowMS p; (rs, p) = hits ts p in (r # rs, p))"

definition printed :: "u64 option list \<Rightarrow> nat" where
  "printed rs = sum_list (map (case_option 0 unat) rs)"

lemma hit_counted:
  assumes "Counter p \<le> TriggerCountLimit p" "TriggerCountLimit p < 2 ^ 64 - 1" "Hit NowMS p = (r, p')"
  shows "case_option 0 unat r + unat (Counter p') = unat (Counter p) + 1" "Counter p' \<le> TriggerCountLimit p"
    "TriggerCountLimit p' = TriggerCountLimit p" "TriggerTimeoutLimitMS p' = TriggerTimeoutLimitMS p"
    "r = Some n \<Longrightarrow> n \<le> TriggerCountLimit p + 1"
proof -
  have "unat (Counter p) < 2 ^ 64 - 1"
    using assms(1,2) by (simp add: word_le_nat_alt word_less_nat_alt)
  then have c: "unat (Counter p + 1) = unat (Counter p) + 1" by (simp add: unat_plus_simple [THEN iffD1] word_le_nat_alt unat_word_ariths)
  show "case_option 0 unat r + unat (Counter p') = unat (Counter p) + 1" "Counter p' \<le> TriggerCountLimit p"
    "TriggerCountLimit p' = TriggerCountLimit p" "TriggerTimeoutLimitMS p' = TriggerTimeoutLimitMS p"
    using assms(3) c by (auto simp: Hit_def Let_def split: if_splits)
  have "unat (TriggerCountLimit p) < 2 ^ 64 - 1" using assms(2) by (simp add: word_less_nat_alt)
  then have "unat (TriggerCountLimit p + 1) = unat (TriggerCountLimit p) + 1" by (simp add: unat_word_ariths)
  then have "Counter p + 1 \<le> TriggerCountLimit p + 1" using assms(1) c by (simp add: word_le_nat_alt)
  then show "r = Some n \<Longrightarrow> n \<le> TriggerCountLimit p + 1"
    using assms(3) by (auto simp: Hit_def Let_def split: if_splits)
qed

lemma hits_counted:
  assumes "Counter p \<le> TriggerCountLimit p" "TriggerCountLimit p < 2 ^ 64 - 1" "hits ts p = (rs, p')"
  shows "printed rs + unat (Counter p') = unat (Counter p) + length ts" "Counter p' \<le> TriggerCountLimit p"
    "\<forall>n. Some n \<in> set rs \<longrightarrow> n \<le> TriggerCountLimit p + 1"
    "TriggerCountLimit p' = TriggerCountLimit p" "TriggerTimeoutLimitMS p' = TriggerTimeoutLimitMS p"
proof -
  have "printed rs + unat (Counter p') = unat (Counter p) + length ts \<and> Counter p' \<le> TriggerCountLimit p \<and>
    (\<forall>n. Some n \<in> set rs \<longrightarrow> n \<le> TriggerCountLimit p + 1) \<and>
    TriggerCountLimit p' = TriggerCountLimit p \<and> TriggerTimeoutLimitMS p' = TriggerTimeoutLimitMS p"
    using assms
  proof (induction ts arbitrary: p rs)
    case Nil
    then show ?case by (simp add: printed_def)
  next
    case (Cons NowMS ts)
    obtain r q rs' where r: "Hit NowMS p = (r, q)" "hits ts q = (rs', p')" "rs = r # rs'"
      using Cons.prems(3) by (auto simp: Let_def split: prod.splits)
    note h = hit_counted [OF Cons.prems(1,2) r(1)]
    have ih: "printed rs' + unat (Counter p') = unat (Counter q) + length ts" "Counter p' \<le> TriggerCountLimit q"
        "\<forall>n. Some n \<in> set rs' \<longrightarrow> n \<le> TriggerCountLimit q + 1" "TriggerCountLimit p' = TriggerCountLimit q"
        "TriggerTimeoutLimitMS p' = TriggerTimeoutLimitMS q"
      using Cons.IH [of q rs'] h(2,3) Cons.prems(2) r(2) by auto
    have "\<forall>n. Some n \<in> set rs \<longrightarrow> n \<le> TriggerCountLimit p + 1" using ih(3) h(3,5) r(3) by auto
    then show ?case using ih h(1,3,4) r(3) by (simp add: printed_def)
  qed
  then show "printed rs + unat (Counter p') = unat (Counter p) + length ts" "Counter p' \<le> TriggerCountLimit p"
    "\<forall>n. Some n \<in> set rs \<longrightarrow> n \<le> TriggerCountLimit p + 1"
    "TriggerCountLimit p' = TriggerCountLimit p" "TriggerTimeoutLimitMS p' = TriggerTimeoutLimitMS p" by blast+
qed

subsection \<open>Properties\<close>

text \<open>
  C40: The contexts of the requests are a queue. In every state that the calls reach, a context is found by its id as
  long as it is pending; a new one comes behind all others under an id that none has; a release takes away just this
  one; and the removal of old ones ends, tells exactly the contexts that are as old as the timeout, oldest first, and
  keeps all others in their order.
\<close>

theorem request_contexts:
  assumes "context_pool_env st li items" "contexts_empty st items s0" "contexts_reach st li s0 s"
  shows "(\<forall>i. Contexts_CheckAndGet st i s = List.find (\<lambda>N. RequestId N = i) (pending st items s)) \<and>
    (\<forall>c cx i t. Contexts_Acquire st li c cx s = (i, t) \<and> i \<noteq> 0 \<longrightarrow> Contexts_CheckAndGet st i s = None \<and>
       pending st items t = pending st items s @
         [\<lparr>RequestId = i, RequestTimestampMS = ServiceTicker s, RequestContext = c, RequestContextEx = cx\<rparr>]) \<and>
    (\<forall>i t. Contexts_Release st li i s = Some t \<longrightarrow>
       pending st items t = filter (\<lambda>N. RequestId N \<noteq> i) (pending st items s)) \<and>
    (\<forall>T. \<exists>t. RemoveTimeoutRequests st li T s =
         Some (filter (\<lambda>N. RequestTimestampMS N \<le> ServiceTicker s - T) (pending st items s), t) \<and>
       pending st items t = filter (\<lambda>N. \<not> RequestTimestampMS N \<le> ServiceTicker s - T) (pending st items s))"
proof -
  note ok = context_pool_env.contexts_reach_ok [OF assms(1,3,2)]
  show ?thesis
  proof (intro conjI allI impI; (elim conjE)?)
    fix c cx i t
    assume "Contexts_Acquire st li c cx s = (i, t)" "i \<noteq> 0"
    with context_pool_env.acquire_pending [OF assms(1) ok this(1)]
    show "Contexts_CheckAndGet st i s = None"
      "pending st items t = pending st items s @
         [\<lparr>RequestId = i, RequestTimestampMS = ServiceTicker s, RequestContext = c, RequestContextEx = cx\<rparr>]"
      by (simp_all add: Contexts_CheckAndGet_def)
  next
    fix T
    obtain t where "RemoveTimeoutRequests st li T s =
        Some (filter (\<lambda>N. RequestTimestampMS N \<le> ServiceTicker s - T) (pending st items s), t)"
      "pending st items t = filter (\<lambda>N. \<not> RequestTimestampMS N \<le> ServiceTicker s - T) (pending st items s)"
      using context_pool_env.expire_pending [OF assms(1) ok refl, of T] by blast
    then show "\<exists>t. RemoveTimeoutRequests st li T s =
        Some (filter (\<lambda>N. RequestTimestampMS N \<le> ServiceTicker s - T) (pending st items s), t) \<and>
      pending st items t = filter (\<lambda>N. \<not> RequestTimestampMS N \<le> ServiceTicker s - T) (pending st items s)" by blast
  qed (use context_pool_env.lookup_pending [OF assms(1) ok] context_pool_env.release_pending [OF assms(1) ok] in blast)+
qed

definition demo_contexts :: "(xServiceRequestContext ref_pool, unit \<Rightarrow> u64 list) context_pool" where
  "demo_contexts = \<lparr>ServiceTicker = 5000, Pool = ref_pool_init 4, TimeoutList = (\<lambda>_. [])\<rparr>"

definition demo_request :: xServiceRequestContext where
  "demo_request = \<lparr>RequestId = 1, RequestTimestampMS = 5000, RequestContext = 7, RequestContextEx = 8\<rparr>"

theorem request_contexts_witness:
  "\<exists>s t. Contexts_Acquire (ref_storage fresh_context_slot) ref_lists 7 8 demo_contexts = (1, s) \<and>
     RemoveTimeoutRequests (ref_storage fresh_context_slot) ref_lists 2000 (s\<lparr>ServiceTicker := 7000\<rparr>) = Some ([demo_request], t) \<and>
     pending (ref_storage fresh_context_slot) (\<lambda>l. l) t = []"
proof -
  let ?s = "snd (Contexts_Acquire (ref_storage fresh_context_slot) ref_lists 7 8 demo_contexts)"
  have e: "contexts_empty (ref_storage fresh_context_slot) (\<lambda>l. l) demo_contexts"
    by (simp add: contexts_empty_def demo_contexts_def ref_storage_def ref_pool_init_def)
  have a: "Contexts_Acquire (ref_storage fresh_context_slot) ref_lists 7 8 demo_contexts = (1, ?s)"
    by (rule prod_eqI) (simp_all, code_simp)
  have t: "ServiceTicker ?s = 5000" by code_simp
  have p: "pending (ref_storage fresh_context_slot) (\<lambda>l. l) (?s\<lparr>ServiceTicker := 7000\<rparr>) = [demo_request]" by code_simp
  have r: "contexts_reach (ref_storage fresh_context_slot) ref_lists demo_contexts (?s\<lparr>ServiceTicker := 7000\<rparr>)"
    by (rule contexts_reach.later [OF contexts_reach.acquire [OF contexts_reach.start a]]) (simp add: t)
  have f: "filter (\<lambda>N. RequestTimestampMS N \<le> 7000 - 2000) [demo_request] = [demo_request]"
      "filter (\<lambda>N. \<not> RequestTimestampMS N \<le> 7000 - 2000) [demo_request] = []" by (simp_all add: demo_request_def)
  note c = request_contexts [OF ref_contexts.context_pool_env_axioms e r, THEN conjunct2, THEN conjunct2, THEN conjunct2,
      rule_format, of 2000, unfolded p xServiceRequestContextPool.select_convs xServiceRequestContextPool.update_convs]
  have "ServiceTicker (?s\<lparr>ServiceTicker := 7000\<rparr>) = 7000" by simp
  note c [unfolded this f]
  then show ?thesis using a by blast
qed

text \<open>
  No error is lost and none is counted twice. Whatever the times of the hits of an initialised printer are, the
  counts that it prints and the errors it still holds add up to the number of hits; it never holds more than the limit,
  and prints one more at most; and a hit that comes later than the timeout after the last print is printed.
\<close>

lemma errors_counted:
  assumes "CountLimit < 2 ^ 64 - 1" "Counter p0 = 0"
    and "hits ts (fst (Printer_Init CountLimit TimeoutLimitMS p0 g)) = (rs, p)"
  shows "printed rs + unat (Counter p) = length ts \<and> Counter p \<le> CountLimit \<and>
    (\<forall>n. Some n \<in> set rs \<longrightarrow> n \<le> CountLimit + 1) \<and>
    (\<forall>NowMS. TimeoutLimitMS \<noteq> 0 \<and> NowMS - LastTriggerTimestampMS p > TimeoutLimitMS \<longrightarrow>
       (let (r, q) = Hit NowMS p in r = Some (Counter p + 1) \<and> Counter q = 0 \<and> LastTriggerTimestampMS q = NowMS))"
proof -
  let ?p = "fst (Printer_Init CountLimit TimeoutLimitMS p0 g)"
  have "Counter ?p \<le> TriggerCountLimit ?p" "TriggerCountLimit ?p < 2 ^ 64 - 1" using assms(1,2) by (simp_all add: Printer_Init_def)
  note h = hits_counted [OF this assms(3)]
  have "Counter ?p = 0" "TriggerCountLimit ?p = CountLimit" "TriggerTimeoutLimitMS ?p = TimeoutLimitMS"
    using assms(2) by (simp_all add: Printer_Init_def)
  with h show ?thesis by (simp add: Hit_def Let_def)
qed

lemma errors_counted_witness:
  "\<exists>rs p. hits [1, 2, 3, 4] (fst (Printer_Init 2 100 (fst (Printer_Clean p0 (0, False))) (0, False))) = (rs, p) \<and>
     printed rs + unat (Counter p) = 4 \<and> Counter p = 1"
proof -
  let ?p0 = "fst (Printer_Clean p0 (0, False))"
  obtain rs p where h: "hits [1, 2, 3, 4] (fst (Printer_Init 2 100 ?p0 (0, False))) = (rs, p)" by fastforce
  have "Counter ?p0 = 0" "(2 :: u64) < 2 ^ 64 - 1" by (simp_all add: Printer_Clean_def)
  with errors_counted [OF _ _ h] have "printed rs + unat (Counter p) = length [1, 2, 3, 4 :: u64]" by blast
  moreover have "Counter p = 1" using h by (auto simp: Printer_Clean_def Printer_Init_def Hit_def Let_def)
  ultimately show ?thesis using h by auto
qed

text \<open>The default logger is open exactly while a printer is initialised.\<close>

lemma logger_open:
  "n < 2 ^ 64 - 1 \<Longrightarrow> (opened \<longleftrightarrow> n \<noteq> 0) \<Longrightarrow> InitDefaultLogger (n, opened) = (n + 1, True) \<and>
     CleanDefaultLogger (InitDefaultLogger (n, opened)) = (n, opened)"
  by (auto simp: InitDefaultLogger_def CleanDefaultLogger_def)

end
