(* ===== verification/Database.thy ===== *)
theory Database
  imports Prelude
begin

text \<open>
  The MySQL connection of \<^verbatim>\<open>src_lib_db\<close>: \<^verbatim>\<open>xMySqlConn\<close>, the prepared statements \<^verbatim>\<open>xMySqlStmt\<close> and \<^verbatim>\<open>xMySqlTransaction\<close>.
  A call of the client library is an action, and what it returns is an input. The versioned handle of the library xel
  (\<^verbatim>\<open>xVersion\<close>) is a parameter. \<open>None\<close> is a failed assertion.
\<close>

subsection \<open>Versions\<close>

record ('v, 'n, 'h) version_ops =
  ver_enable :: "'v \<Rightarrow> 'h \<Rightarrow> 'v"
  ver_disable :: "'v \<Rightarrow> 'v"
  ver_get :: "'v \<Rightarrow> 'h option" \<comment> \<open>\<^verbatim>\<open>Get()\<close> while \<^verbatim>\<open>IsEnabled()\<close>\<close>
  ver_number :: "'v \<Rightarrow> 'n"
  ver_none :: 'n \<comment> \<open>\<^verbatim>\<open>xVersionNumber()\<close>\<close>
  ver_valid :: "'n \<Rightarrow> bool"
  ver_equal :: "'n \<Rightarrow> 'n \<Rightarrow> bool"

text \<open>
  Every value that is enabled gets a valid number that no value had before; \<open>past\<close> are the numbers so far. Nothing is
  said about the comparison of two invalid numbers.
\<close>

locale versions =
  fixes V :: "('v, 'n, 'h) version_ops" and past :: "'v \<Rightarrow> 'n set"
  assumes enabled: "ver_get V (ver_enable V v h) = Some h" "ver_valid V (ver_number V (ver_enable V v h))"
      "ver_number V (ver_enable V v h) \<notin> past v"
      "past (ver_enable V v h) = insert (ver_number V (ver_enable V v h)) (past v)"
    and disabled: "ver_get V (ver_disable V v) = None" "past (ver_disable V v) = past v"
    and invalid: "\<not> ver_valid V (ver_none V)"
    and equal: "ver_valid V m \<or> ver_valid V n \<Longrightarrow> ver_equal V m n \<longleftrightarrow> m = n"

subsection \<open>Connection\<close>

definition IDLE_TIMEOUT_MS :: int where "IDLE_TIMEOUT_MS = 5 * 60000"

record 'v xMySqlConn =
  Disconnected :: bool
  NativeHandle :: 'v
  ConnNowMS :: u64
  LastTimestampMS :: u64

datatype ('n, 'h, 's) db_action =
    Connected 'n 'h | Closed 'h | Ping 'h | Autocommit 'h bool | CommitSent 'h | RollbackSent 'h
  | Prepared 'h 's | Executed 's | ResultFreed 's | StmtClosed 's

type_synonym ('v, 'n, 'h, 's) conn_result = "(('n, 'h, 's) db_action list \<times> 'v xMySqlConn) option"

text \<open>\<^verbatim>\<open>GetNative()\<close>, with the assertion of \<^verbatim>\<open>IsReady()\<close>.\<close>

definition GetNative :: "('v, 'n, 'h) version_ops \<Rightarrow> 'v xMySqlConn \<Rightarrow> 'h option option" where
  "GetNative V c = (if Disconnected c then Some None
     else case ver_get V (NativeHandle c) of None \<Rightarrow> None | Some h \<Rightarrow> Some (Some h))"

definition GetVersion :: "('v, 'n, 'h) version_ops \<Rightarrow> 'v xMySqlConn \<Rightarrow> 'n" where
  "GetVersion V c = (if Disconnected c then ver_none V else ver_number V (NativeHandle c))"

definition SetDisconnected :: "'v xMySqlConn \<Rightarrow> 'v xMySqlConn" where
  "SetDisconnected c = c\<lparr>Disconnected := True\<rparr>"

text \<open>\<open>r\<close> is what \<^verbatim>\<open>mysql_init\<close> and \<^verbatim>\<open>mysql_real_connect\<close> give.\<close>

definition Conn_Open :: "('v, 'n, 'h) version_ops \<Rightarrow> 'h option \<Rightarrow> 'v xMySqlConn \<Rightarrow> ('v, 'n, 'h, 's) conn_result" where
  "Conn_Open V r c =
     (if \<not> Disconnected c \<or> ver_get V (NativeHandle c) \<noteq> None then None
      else case r of None \<Rightarrow> Some ([], c)
      | Some h \<Rightarrow>
          let v = ver_enable V (NativeHandle c) h in
          Some ([Connected (ver_number V v) h], c\<lparr>NativeHandle := v, Disconnected := False\<rparr>))"

definition Conn_Close :: "('v, 'n, 'h) version_ops \<Rightarrow> 'v xMySqlConn \<Rightarrow> ('v, 'n, 'h, 's) conn_result" where
  "Conn_Close V c =
     (case ver_get V (NativeHandle c) of None \<Rightarrow> None
      | Some h \<Rightarrow> Some ([Closed h], c\<lparr>NativeHandle := ver_disable V (NativeHandle c), Disconnected := True\<rparr>))"

definition after_that ::
    "('a list \<times> 's) option \<Rightarrow> ('s \<Rightarrow> ('a list \<times> 's) option) \<Rightarrow> ('a list \<times> 's) option" where
  "after_that r f = (case r of None \<Rightarrow> None | Some (out, s) \<Rightarrow> map_option (\<lambda>(out', t). (out @ out', t)) (f s))"

definition CheckReconnection :: "('v, 'n, 'h) version_ops \<Rightarrow> 'h option \<Rightarrow> 'v xMySqlConn \<Rightarrow> ('v, 'n, 'h, 's) conn_result" where
  "CheckReconnection V r c =
     (if ver_get V (NativeHandle c) = None then Conn_Open V r c
      else if Disconnected c then after_that (Conn_Close V c) (Conn_Open V r)
      else Some ([], c))"

text \<open>\<open>lost\<close>: whether \<^verbatim>\<open>IsMySqlServerLostError\<close> holds after the query. \<open>diff\<close> is \<^verbatim>\<open>SignedDiff\<close>.\<close>

definition Conn_Tick :: "('v, 'n, 'h) version_ops \<Rightarrow> (u64 \<Rightarrow> u64 \<Rightarrow> int) \<Rightarrow> u64 \<Rightarrow> 'h option \<Rightarrow> bool \<Rightarrow> 'v xMySqlConn \<Rightarrow>
    ('v, 'n, 'h, 's) conn_result" where
  "Conn_Tick V diff NowMS r lost c =
     after_that (CheckReconnection V r (c\<lparr>ConnNowMS := NowMS\<rparr>)) (\<lambda>c.
       case GetNative V c of None \<Rightarrow> None
       | Some None \<Rightarrow> Some ([], c)
       | Some (Some h) \<Rightarrow>
           if diff NowMS (LastTimestampMS c) < IDLE_TIMEOUT_MS then Some ([], c)
           else if lost then after_that (Some ([Ping h], c)) (Conn_Close V)
           else Some ([Ping h], c\<lparr>LastTimestampMS := NowMS\<rparr>))"

text \<open>The counter of the library and whether it is initialised; \<open>failed\<close> is the result of \<^verbatim>\<open>mysql_library_init\<close>.\<close>

type_synonym library = "u64 \<times> bool"

definition GlobalInit :: "bool \<Rightarrow> library \<Rightarrow> library option" where
  "GlobalInit failed g = (case g of (InitCounter, up) \<Rightarrow>
     if InitCounter \<noteq> 0 then Some (InitCounter + 1, up)
     else if failed then None else Some (InitCounter + 1, True))"

definition GlobalClean :: "library \<Rightarrow> library" where
  "GlobalClean g = (case g of (InitCounter, up) \<Rightarrow>
     if InitCounter - 1 \<noteq> 0 then (InitCounter - 1, up) else (InitCounter - 1, False))"

definition Conn_Init :: "('v, 'n, 'h) version_ops \<Rightarrow> (u64 \<Rightarrow> u64 \<Rightarrow> int) \<Rightarrow> bool \<Rightarrow> u64 \<Rightarrow> 'h option \<Rightarrow> bool \<Rightarrow> library \<Rightarrow>
    'v xMySqlConn \<Rightarrow> (library \<times> ('n, 'h, 's) db_action list \<times> 'v xMySqlConn) option" where
  "Conn_Init V diff failed NowMS r lost g c =
     (case GlobalInit failed g of None \<Rightarrow> None
      | Some g \<Rightarrow>
          if \<not> Disconnected c \<or> ver_get V (NativeHandle c) \<noteq> None then None
          else map_option (\<lambda>q. (g, q)) (Conn_Tick V diff NowMS r lost c))"

definition Conn_Clean :: "('v, 'n, 'h) version_ops \<Rightarrow> library \<Rightarrow> 'v xMySqlConn \<Rightarrow>
    (library \<times> ('n, 'h, 's) db_action list \<times> 'v xMySqlConn) option" where
  "Conn_Clean V g c =
     map_option (\<lambda>q. (GlobalClean g, q))
       (if ver_get V (NativeHandle c) \<noteq> None then Conn_Close V c else Some ([], c))"

subsection \<open>Statements\<close>

record ('n, 's) xMySqlStmt =
  ConnVersion :: 'n
  Query :: bytes
  Native :: "'s option"
  LastInsertId :: u64
  LastResultRows :: u64
  LastAffectedRows :: u64

text \<open>\<^verbatim>\<open>ConnVersion\<close> keeps its value.\<close>

definition Stmt_Init :: "bytes \<Rightarrow> ('n, 's) xMySqlStmt \<Rightarrow> ('n, 's) xMySqlStmt" where
  "Stmt_Init q st = st\<lparr>Query := q, Native := None, LastInsertId := 0, LastResultRows := 0, LastAffectedRows := 0\<rparr>"

text \<open>What \<^verbatim>\<open>mysql_stmt_init\<close> and \<^verbatim>\<open>mysql_stmt_prepare\<close> give; \<open>PrepareFailed lost\<close>.\<close>

datatype 's prepare_result = NoStatement | PrepareFailed bool | Prepare 's

type_synonym ('v, 'n, 'h, 's) stmt_result =
  "(('n, 'h, 's) db_action list \<times> ('n, 's) xMySqlStmt \<times> 'v xMySqlConn) option"

definition Stmt_Open :: "('v, 'n, 'h) version_ops \<Rightarrow> 's prepare_result \<Rightarrow> ('n, 's) xMySqlStmt \<times> 'v xMySqlConn \<Rightarrow>
    ('v, 'n, 'h, 's) stmt_result" where
  "Stmt_Open V p q = (case q of (st, c) \<Rightarrow>
     if Native st \<noteq> None then None
     else case GetNative V c of None \<Rightarrow> None
     | Some None \<Rightarrow> Some ([], st, c)
     | Some (Some h) \<Rightarrow>
         (case p of NoStatement \<Rightarrow> Some ([], st, c)
          | PrepareFailed lost \<Rightarrow> Some ([], st, if lost then SetDisconnected c else c)
          | Prepare n \<Rightarrow> Some ([Prepared h n], st\<lparr>Native := Some n\<rparr>, c)))"

text \<open>\<open>failed\<close> is the result of \<^verbatim>\<open>mysql_stmt_close\<close>.\<close>

definition Stmt_Close :: "bool \<Rightarrow> ('n, 's) xMySqlStmt \<times> 'v xMySqlConn \<Rightarrow> ('v, 'n, 'h, 's) stmt_result" where
  "Stmt_Close failed q = (case q of (st, c) \<Rightarrow>
     (case Native st of None \<Rightarrow> None
      | Some n \<Rightarrow> Some ([StmtClosed n], st\<lparr>Native := None\<rparr>, if failed then SetDisconnected c else c)))"

definition TestAndClose :: "bool \<Rightarrow> ('n, 's) xMySqlStmt \<times> 'v xMySqlConn \<Rightarrow> ('v, 'n, 'h, 's) stmt_result" where
  "TestAndClose failed q = (if Native (fst q) = None then Some ([], q) else Stmt_Close failed q)"

definition Stmt_Clean :: "bool \<Rightarrow> ('n, 's) xMySqlStmt \<times> 'v xMySqlConn \<Rightarrow> ('v, 'n, 'h, 's) stmt_result" where
  "Stmt_Clean failed q = map_option (\<lambda>(out, st, c). (out, st\<lparr>Query := []\<rparr>, c)) (TestAndClose failed q)"

text \<open>The boolean result comes with the new state.\<close>

definition CheckReonnection :: "('v, 'n, 'h) version_ops \<Rightarrow> bool \<Rightarrow> 's prepare_result \<Rightarrow>
    ('n, 's) xMySqlStmt \<times> 'v xMySqlConn \<Rightarrow>
    (bool \<times> ('n, 'h, 's) db_action list \<times> ('n, 's) xMySqlStmt \<times> 'v xMySqlConn) option" where
  "CheckReonnection V failed p q =
     (let NewConnVersion = GetVersion V (snd q) in
      if ver_equal V NewConnVersion (ConnVersion (fst q)) then Some (True, [], q)
      else case TestAndClose failed q of None \<Rightarrow> None
      | Some (out, q) \<Rightarrow>
          if \<not> ver_valid V NewConnVersion then Some (False, out, q)
          else case Stmt_Open V p q of None \<Rightarrow> None
          | Some (out', st, c) \<Rightarrow>
              if Native st = None then Some (False, out @ out', st, c)
              else Some (True, out @ out', st\<lparr>ConnVersion := NewConnVersion\<rparr>, c))"

definition ProcessServerLostError :: "bool \<Rightarrow> bool \<Rightarrow> ('n, 's) xMySqlStmt \<times> 'v xMySqlConn \<Rightarrow> ('v, 'n, 'h, 's) stmt_result" where
  "ProcessServerLostError lost failed q =
     (if Native (fst q) = None then None
      else if lost then map_option (\<lambda>(out, st, c). (out, st, SetDisconnected c)) (Stmt_Close failed q)
      else Some ([], q))"

text \<open>
  What an execution gives: whether binding and executing, and storing the result, succeed; the numbers; for each row
  that is fetched the results of the fetchers of its columns; and the errors at the end.
\<close>

record execution =
  ex_ok :: bool
  ex_stored :: bool
  ex_insert_id :: u64
  ex_rows :: u64
  ex_affected :: u64
  ex_fetched :: "bool list list"
  ex_lost :: bool
  ex_close_failed :: bool

text \<open>The loop over the rows: the calls of the callback, and whether all fetchers succeed.\<close>

fun fetch_rows :: "bool list list \<Rightarrow> nat \<times> bool" where
  "fetch_rows [] = (0, True)"
| "fetch_rows (r # rs) = (if list_all id r then (let (n, ok) = fetch_rows rs in (n + 1, ok)) else (0, False))"

text \<open>
  \<open>outs\<close>: whether the caller binds result columns; without any, a fetched column reads a null pointer. The result is
  the returned value and the calls of the callback. An assertion looks for an error after the rows.
\<close>

definition InternalBindAndExecute :: "bool \<Rightarrow> execution \<Rightarrow> ('n, 's) xMySqlStmt \<times> 'v xMySqlConn \<Rightarrow>
    ((bool \<times> nat) \<times> ('n, 'h, 's) db_action list \<times> ('n, 's) xMySqlStmt \<times> 'v xMySqlConn) option" where
  "InternalBindAndExecute outs e q =
     (case Native (fst q) of None \<Rightarrow> None
      | Some n \<Rightarrow>
          let lost = ProcessServerLostError (ex_lost e) (ex_close_failed e) in
          if \<not> ex_ok e \<or> \<not> ex_stored e then map_option (\<lambda>(out, q). ((False, 0), Executed n # out, q)) (lost q)
          else
            let q = ((fst q)\<lparr>LastInsertId := ex_insert_id e, LastResultRows := ex_rows e, LastAffectedRows := ex_affected e\<rparr>, snd q) in
            if ex_rows e = 0 then
              map_option (\<lambda>(out, q). ((\<not> ex_lost e, 0), Executed n # out @ [ResultFreed n], q)) (lost q)
            else if \<not> outs \<and> concat (ex_fetched e) \<noteq> [] then None
            else case fetch_rows (ex_fetched e) of
              (k, False) \<Rightarrow>
                map_option (\<lambda>(out, q). ((False, k), Executed n # out @ (if ex_lost e then [] else [ResultFreed n]), q)) (lost q)
            | (k, True) \<Rightarrow> if ex_lost e then None else Some ((True, k), [Executed n, ResultFreed n], q))"

definition Stmt_Execute :: "('v, 'n, 'h) version_ops \<Rightarrow> bool \<Rightarrow> bool \<Rightarrow> 's prepare_result \<Rightarrow> execution \<Rightarrow>
    ('n, 's) xMySqlStmt \<times> 'v xMySqlConn \<Rightarrow>
    ((bool \<times> nat) \<times> ('n, 'h, 's) db_action list \<times> ('n, 's) xMySqlStmt \<times> 'v xMySqlConn) option" where
  "Stmt_Execute V outs failed p e q =
     (case CheckReonnection V failed p q of None \<Rightarrow> None
      | Some (False, out, q) \<Rightarrow> Some ((False, 0), out, q)
      | Some (True, out, q) \<Rightarrow>
          map_option (\<lambda>(r, out', q). (r, out @ out', q)) (InternalBindAndExecute outs e q))"

subsection \<open>Transactions\<close>

record 'n xMySqlTransaction =
  TxVersion :: 'n
  Commited :: bool

definition Tx_Begin :: "('v, 'n, 'h) version_ops \<Rightarrow> 'v xMySqlConn \<Rightarrow>
    (('n, 'h, 's) db_action list \<times> 'n xMySqlTransaction) option" where
  "Tx_Begin V c =
     (let T = \<lparr>TxVersion = GetVersion V c, Commited = False\<rparr> in
      if \<not> ver_valid V (TxVersion T) then Some ([], T)
      else case GetNative V c of Some (Some h) \<Rightarrow> Some ([Autocommit h False], T) | _ \<Rightarrow> None)"

text \<open>\<open>sent\<close> is whether \<^verbatim>\<open>mysql_commit\<close> succeeds.\<close>

definition Tx_Commit :: "('v, 'n, 'h) version_ops \<Rightarrow> bool \<Rightarrow> 'v xMySqlConn \<Rightarrow> 'n xMySqlTransaction \<Rightarrow>
    (bool \<times> ('n, 'h, 's) db_action list \<times> 'n xMySqlTransaction) option" where
  "Tx_Commit V sent c T =
     (if \<not> ver_valid V (TxVersion T) then None
      else
        let T = T\<lparr>Commited := True\<rparr> in
        if \<not> ver_equal V (GetVersion V c) (TxVersion T) then Some (False, [], T)
        else case GetNative V c of Some (Some h) \<Rightarrow> Some (sent, [CommitSent h, Autocommit h True], T) | _ \<Rightarrow> None)"

definition Tx_End :: "('v, 'n, 'h) version_ops \<Rightarrow> 'v xMySqlConn \<Rightarrow> 'n xMySqlTransaction \<Rightarrow>
    ('n, 'h, 's) db_action list option" where
  "Tx_End V c T =
     (if \<not> ver_valid V (TxVersion T) then Some []
      else if \<not> ver_equal V (GetVersion V c) (TxVersion T) then Some []
      else if Commited T then Some []
      else case GetNative V c of Some (Some h) \<Rightarrow> Some [RollbackSent h, Autocommit h True] | _ \<Rightarrow> None)"

end
