(* ===== verification/DatabaseProtocol.thy ===== *)
theory DatabaseProtocol
  imports Database
begin

text \<open>
  A connection with its statements and transactions (theory Database) against what the server may expect of a client:
  one session at a time, statements used in the session they were prepared in, and no transaction left open. Two things
  the server only notes: a commit or rollback while autocommit is on, and a result that is freed after its statement.
\<close>

subsection \<open>The server's view\<close>

record ('n, 'h, 's) server =
  Session :: "('n \<times> 'h) option"
  AutocommitOn :: bool
  Stmts :: "'s \<rightharpoonup> 'n" \<comment> \<open>the open statements with the session they belong to\<close>
  Stray :: bool \<comment> \<open>a commit or rollback came while no transaction was open\<close>
  FreedLate :: bool \<comment> \<open>a result was freed after its statement was closed\<close>

definition in_session :: "('n, 'h, 's) server \<Rightarrow> 'h \<Rightarrow> bool" where
  "in_session w h \<longleftrightarrow> map_option snd (Session w) = Some h"

fun db_step :: "('n, 'h, 's) db_action \<Rightarrow> ('n, 'h, 's) server \<Rightarrow> ('n, 'h, 's) server option" where
  "db_step (Connected n h) w = (if Session w = None then Some (w\<lparr>Session := Some (n, h), AutocommitOn := True\<rparr>) else None)"
| "db_step (Closed h) w = (if in_session w h then Some (w\<lparr>Session := None\<rparr>) else None)"
| "db_step (Ping h) w = (if in_session w h then Some w else None)"
| "db_step (Autocommit h b) w = (if in_session w h then Some (w\<lparr>AutocommitOn := b\<rparr>) else None)"
| "db_step (CommitSent h) w = (if in_session w h then Some (w\<lparr>Stray := Stray w \<or> AutocommitOn w\<rparr>) else None)"
| "db_step (RollbackSent h) w = (if in_session w h then Some (w\<lparr>Stray := Stray w \<or> AutocommitOn w\<rparr>) else None)"
| "db_step (Prepared h s) w = (if in_session w h \<and> Stmts w s = None
     then Some (w\<lparr>Stmts := (Stmts w)(s := map_option fst (Session w))\<rparr>) else None)"
| "db_step (Executed s) w = (if Session w \<noteq> None \<and> Stmts w s = map_option fst (Session w) then Some w else None)"
| "db_step (ResultFreed s) w = Some (w\<lparr>FreedLate := FreedLate w \<or> Stmts w s = None\<rparr>)"
| "db_step (StmtClosed s) w = (if Stmts w s \<noteq> None then Some (w\<lparr>Stmts := (Stmts w)(s := None)\<rparr>) else None)"

fun db_run :: "('n, 'h, 's) db_action list \<Rightarrow> ('n, 'h, 's) server \<Rightarrow> ('n, 'h, 's) server option" where
  "db_run [] w = Some w"
| "db_run (a # as) w = (case db_step a w of None \<Rightarrow> None | Some w \<Rightarrow> db_run as w)"

lemma db_run_append: "db_run (xs @ ys) w = (case db_run xs w of None \<Rightarrow> None | Some w \<Rightarrow> db_run ys w)"
  by (induction xs arbitrary: w) (auto split: option.splits)

lemma db_run_through: "db_run xs w = Some u \<Longrightarrow> db_run ys u = Some v \<Longrightarrow> db_run (xs @ ys) w = Some v"
  by (simp add: db_run_append)

definition no_session :: "('n, 'h, 's) server" where
  "no_session = \<lparr>Session = None, AutocommitOn = True, Stmts = Map.empty, Stray = False, FreedLate = False\<rparr>"

subsection \<open>Runs of a client\<close>

text \<open>\<open>'i\<close> names the statements, \<open>'t\<close> the transaction objects that are alive.\<close>

record ('i, 't, 'v, 'n, 's) client =
  Conn :: "'v xMySqlConn"
  Statements :: "'i \<Rightarrow> ('n, 's) xMySqlStmt"
  Txs :: "'t \<rightharpoonup> 'n xMySqlTransaction"

definition set_stmt :: "'i \<Rightarrow> ('n, 's) xMySqlStmt \<times> 'v xMySqlConn \<Rightarrow> ('i, 't, 'v, 'n, 's) client \<Rightarrow> ('i, 't, 'v, 'n, 's) client" where
  "set_stmt i q d = d\<lparr>Conn := snd q, Statements := (Statements d)(i := fst q)\<rparr>"

text \<open>
  The library gives a new statement a pointer that no other open statement has. In a \<open>kept\<close> execution the server is not
  lost behind a result without rows that has been stored.
\<close>

definition fair_prepare :: "'i \<Rightarrow> 's prepare_result \<Rightarrow> ('i, 't, 'v, 'n, 's) client \<Rightarrow> bool" where
  "fair_prepare i p d \<longleftrightarrow> (\<forall>n j. p = Prepare n \<and> j \<noteq> i \<longrightarrow> Native (Statements d j) \<noteq> Some n)"

definition kept_execution :: "execution \<Rightarrow> bool" where
  "kept_execution e \<longleftrightarrow> \<not> (ex_ok e \<and> ex_stored e \<and> ex_rows e = 0 \<and> ex_lost e)"

text \<open>
  All runs: any number of statements and of transactions, which may overlap and be committed again; a call whose assertion
  fails ends the run. Two flags tell apart what the caller and the server did: \<open>one\<close> while there was never more than one
  transaction at a time and none was committed twice, \<open>kept\<close> while all executions were.
\<close>

inductive db_reach :: "('v, 'n, 'h) version_ops \<Rightarrow> (u64 \<Rightarrow> u64 \<Rightarrow> int) \<Rightarrow> ('i, 't, 'v, 'n, 's) client \<Rightarrow>
    ('n, 'h, 's) db_action list \<Rightarrow> ('i, 't, 'v, 'n, 's) client \<Rightarrow> bool \<Rightarrow> bool \<Rightarrow> bool" for V diff d0 where
  start: "db_reach V diff d0 [] d0 True True"
| tick: "db_reach V diff d0 tr d one kept \<Longrightarrow> Conn_Tick V diff NowMS r lost (Conn d) = Some (out, c) \<Longrightarrow>
    db_reach V diff d0 (tr @ out) (d\<lparr>Conn := c\<rparr>) one kept"
| clean: "db_reach V diff d0 tr d one kept \<Longrightarrow> Conn_Clean V g (Conn d) = Some (g', out, c) \<Longrightarrow>
    db_reach V diff d0 (tr @ out) (d\<lparr>Conn := c\<rparr>) one kept"
| new_stmt: "db_reach V diff d0 tr d one kept \<Longrightarrow> Native (Statements d i) = None \<Longrightarrow>
    db_reach V diff d0 tr (set_stmt i (Stmt_Init q (Statements d i), Conn d) d) one kept"
| execute: "db_reach V diff d0 tr d one kept \<Longrightarrow> Stmt_Execute V outs failed p e (Statements d i, Conn d) = Some (r, out, q) \<Longrightarrow>
    fair_prepare i p d \<Longrightarrow> db_reach V diff d0 (tr @ out) (set_stmt i q d) one (kept \<and> kept_execution e)"
| clean_stmt: "db_reach V diff d0 tr d one kept \<Longrightarrow> Stmt_Clean failed (Statements d i, Conn d) = Some (out, q) \<Longrightarrow>
    db_reach V diff d0 (tr @ out) (set_stmt i q d) one kept"
| begin_tx: "db_reach V diff d0 tr d one kept \<Longrightarrow> Txs d t = None \<Longrightarrow> Tx_Begin V (Conn d) = Some (out, T) \<Longrightarrow>
    db_reach V diff d0 (tr @ out) (d\<lparr>Txs := (Txs d)(t \<mapsto> T)\<rparr>) (one \<and> Txs d = Map.empty) kept"
| commit_tx: "db_reach V diff d0 tr d one kept \<Longrightarrow> Txs d t = Some T \<Longrightarrow>
    Tx_Commit V sent (Conn d) T = Some (ok, out, T') \<Longrightarrow>
    db_reach V diff d0 (tr @ out) (d\<lparr>Txs := (Txs d)(t \<mapsto> T')\<rparr>) (one \<and> \<not> Commited T) kept"
| end_tx: "db_reach V diff d0 tr d one kept \<Longrightarrow> Txs d t = Some T \<Longrightarrow> Tx_End V (Conn d) T = Some out \<Longrightarrow>
    db_reach V diff d0 (tr @ out) (d\<lparr>Txs := (Txs d)(t := None)\<rparr>) one kept"

definition db_empty :: "('v, 'n, 'h) version_ops \<Rightarrow> ('i, 't, 'v, 'n, 's) client \<Rightarrow> bool" where
  "db_empty V d \<longleftrightarrow> Disconnected (Conn d) \<and> ver_get V (NativeHandle (Conn d)) = None \<and>
     (\<forall>i. Native (Statements d i) = None) \<and> Txs d = Map.empty"

subsection \<open>The invariant\<close>

text \<open>A transaction that the server has open: it belongs to the session and is not committed.\<close>

definition tx_open :: "('v, 'n, 'h) version_ops \<Rightarrow> ('i, 't, 'v, 'n, 's) client \<Rightarrow> bool" where
  "tx_open V d \<longleftrightarrow> (\<exists>t T. Txs d t = Some T \<and> ver_valid V (TxVersion T) \<and> \<not> Commited T \<and>
     TxVersion T = ver_number V (NativeHandle (Conn d)))"

definition session_of :: "('v, 'n, 'h) version_ops \<Rightarrow> 'v xMySqlConn \<Rightarrow> ('n \<times> 'h) option" where
  "session_of V c = map_option (\<lambda>h. (ver_number V (NativeHandle c), h)) (ver_get V (NativeHandle c))"

definition conn_ok :: "('v, 'n, 'h) version_ops \<Rightarrow> ('v \<Rightarrow> 'n set) \<Rightarrow> 'v xMySqlConn \<Rightarrow> bool" where
  "conn_ok V past c \<longleftrightarrow> (\<not> Disconnected c \<longrightarrow> ver_get V (NativeHandle c) \<noteq> None) \<and>
     (ver_get V (NativeHandle c) \<noteq> None \<longrightarrow>
        ver_valid V (ver_number V (NativeHandle c)) \<and> ver_number V (NativeHandle c) \<in> past (NativeHandle c))"

definition stmts_ok :: "('v, 'n, 'h) version_ops \<Rightarrow> 'n set \<Rightarrow> ('s \<rightharpoonup> 'n) \<Rightarrow> ('i \<Rightarrow> ('n, 's) xMySqlStmt) \<Rightarrow> bool" where
  "stmts_ok V old m f \<longleftrightarrow>
     (\<forall>i n. Native (f i) = Some n \<longrightarrow> m n = Some (ConnVersion (f i)) \<and> ver_valid V (ConnVersion (f i)) \<and>
        ConnVersion (f i) \<in> old \<and> (\<forall>j. Native (f j) = Some n \<longrightarrow> j = i)) \<and>
     (\<forall>n. m n \<noteq> None \<longrightarrow> (\<exists>i. Native (f i) = Some n))"

definition db_ok :: "('v, 'n, 'h) version_ops \<Rightarrow> ('v \<Rightarrow> 'n set) \<Rightarrow> bool \<Rightarrow> bool \<Rightarrow> ('n, 'h, 's) server \<Rightarrow> ('i, 't, 'v, 'n, 's) client \<Rightarrow> bool" where
  "db_ok V past one kept w d \<longleftrightarrow> conn_ok V past (Conn d) \<and> Session w = session_of V (Conn d) \<and>
     stmts_ok V (past (NativeHandle (Conn d))) (Stmts w) (Statements d) \<and>
     (\<forall>t T. Txs d t = Some T \<and> ver_valid V (TxVersion T) \<longrightarrow> TxVersion T \<in> past (NativeHandle (Conn d))) \<and>
     (kept \<longrightarrow> \<not> FreedLate w) \<and>
     (one \<longrightarrow> (\<exists>t. dom (Txs d) \<subseteq> {t}) \<and> \<not> Stray w \<and> (\<not> Disconnected (Conn d) \<longrightarrow> (AutocommitOn w \<longleftrightarrow> \<not> tx_open V d)))"

lemma stmts_ok_mono: "stmts_ok V A m f \<Longrightarrow> A \<subseteq> B \<Longrightarrow> stmts_ok V B m f"
  unfolding stmts_ok_def by blast

lemma stmts_okD:
  assumes "stmts_ok V A m f"
  shows "\<And>i n. Native (f i) = Some n \<Longrightarrow> m n = Some (ConnVersion (f i)) \<and> ver_valid V (ConnVersion (f i)) \<and> ConnVersion (f i) \<in> A"
    "\<And>i j n. Native (f i) = Some n \<Longrightarrow> Native (f j) = Some n \<Longrightarrow> j = i"
    "\<And>n. m n \<noteq> None \<Longrightarrow> \<exists>i. Native (f i) = Some n"
  using assms unfolding stmts_ok_def by blast+

lemma stmts_okI:
  assumes "\<And>i n. Native (f i) = Some n \<Longrightarrow> m n = Some (ConnVersion (f i)) \<and> ver_valid V (ConnVersion (f i)) \<and> ConnVersion (f i) \<in> A"
    and "\<And>i j n. Native (f i) = Some n \<Longrightarrow> Native (f j) = Some n \<Longrightarrow> j = i"
    and "\<And>n. m n \<noteq> None \<Longrightarrow> \<exists>i. Native (f i) = Some n"
  shows "stmts_ok V A m f"
  using assms unfolding stmts_ok_def by blast

lemma stmts_ok_cong:
  assumes ok: "stmts_ok V A m f" and s: "Native s = Native (f i)" "ConnVersion s = ConnVersion (f i)"
  shows "stmts_ok V A m (f(i := s))"
proof -
  have "Native ((f(i := s)) j) = Native (f j)" "ConnVersion ((f(i := s)) j) = ConnVersion (f j)" for j by (simp_all add: s)
  with ok show ?thesis unfolding stmts_ok_def by presburger
qed

lemma stmts_ok_close:
  assumes ok: "stmts_ok V A m f" and i: "Native (f i) = Some n" "Native s = None"
  shows "stmts_ok V A (m(n := None)) (f(i := s))"
proof (rule stmts_okI)
  have nat: "Native ((f(i := s)) j) = Some k \<longleftrightarrow> j \<noteq> i \<and> Native (f j) = Some k" for j k using i(2) by simp
  fix j k
  show "(m(n := None)) k = Some (ConnVersion ((f(i := s)) j)) \<and> ver_valid V (ConnVersion ((f(i := s)) j)) \<and> ConnVersion ((f(i := s)) j) \<in> A"
    if h: "Native ((f(i := s)) j) = Some k"
  proof -
    have j: "j \<noteq> i" "Native (f j) = Some k" using h nat by blast+
    then have "k \<noteq> n" using stmts_okD(2) [OF ok i(1)] by blast
    with j stmts_okD(1) [OF ok j(2)] show ?thesis by simp
  qed
  show "j' = j" if h: "Native ((f(i := s)) j) = Some k" "Native ((f(i := s)) j') = Some k" for j'
  proof -
    have "Native (f j) = Some k" "Native (f j') = Some k" using h unfolding nat by simp_all
    then show ?thesis by (rule stmts_okD(2) [OF ok])
  qed
  show "\<exists>j. Native ((f(i := s)) j) = Some k" if h: "(m(n := None)) k \<noteq> None"
  proof -
    have k: "k \<noteq> n" "m k \<noteq> None" using h by (auto split: if_splits)
    then obtain j where "Native (f j) = Some k" using stmts_okD(3) [OF ok] by blast
    moreover from this have "j \<noteq> i" using k(1) i(1) by auto
    ultimately have "Native ((f(i := s)) j) = Some k" unfolding nat by simp
    then show ?thesis ..
  qed
qed

lemma stmts_ok_open:
  assumes ok: "stmts_ok V A m f" and new: "\<forall>j. j \<noteq> i \<longrightarrow> Native (f j) \<noteq> Some n" "Native (f i) = None"
    and s: "Native s = Some n" "ConnVersion s = v" "ver_valid V v" "v \<in> A"
  shows "stmts_ok V A (m(n \<mapsto> v)) (f(i := s))"
proof (rule stmts_okI)
  have nat: "Native ((f(i := s)) j) = Some k \<longleftrightarrow> (if j = i then k = n else Native (f j) = Some k)" for j k using s(1) by auto
  fix j k
  show "(m(n \<mapsto> v)) k = Some (ConnVersion ((f(i := s)) j)) \<and> ver_valid V (ConnVersion ((f(i := s)) j)) \<and> ConnVersion ((f(i := s)) j) \<in> A"
    if h: "Native ((f(i := s)) j) = Some k"
  proof (cases "j = i")
    case True
    then show ?thesis using h nat s by simp
  next
    case False
    then have "Native (f j) = Some k" "k \<noteq> n" using h nat new(1) by auto
    with False stmts_okD(1) [OF ok] show ?thesis by simp
  qed
  show "j' = j" if h: "Native ((f(i := s)) j) = Some k" "Native ((f(i := s)) j') = Some k" for j'
  proof -
    have a: "if j = i then k = n else Native (f j) = Some k" "if j' = i then k = n else Native (f j') = Some k"
      using h unfolding nat by this+
    show ?thesis
    proof (cases "k = n")
      case True
      have "j = i" using a(1) new(1) True by (cases "j = i") auto
      moreover have "j' = i" using a(2) new(1) True by (cases "j' = i") auto
      ultimately show ?thesis by simp
    next
      case False
      have "Native (f j) = Some k" using a(1) False by (cases "j = i") simp_all
      moreover have "Native (f j') = Some k" using a(2) False by (cases "j' = i") simp_all
      ultimately show ?thesis by (rule stmts_okD(2) [OF ok])
    qed
  qed
  show "\<exists>j. Native ((f(i := s)) j) = Some k" if h: "(m(n \<mapsto> v)) k \<noteq> None"
  proof (cases "k = n")
    case True
    then have "Native ((f(i := s)) i) = Some k" using s(1) by simp
    then show ?thesis ..
  next
    case False
    then have "m k \<noteq> None" using h by simp
    then obtain j where j: "Native (f j) = Some k" using stmts_okD(3) [OF ok] by blast
    then have "j \<noteq> i" using new(2) by auto
    then have "Native ((f(i := s)) j) = Some k" using j by simp
    then show ?thesis ..
  qed
qed

lemma after_that_Some:
  "after_that r f = Some (out, t) \<longleftrightarrow> (\<exists>o1 s o2. r = Some (o1, s) \<and> f s = Some (o2, t) \<and> out = o1 @ o2)"
  by (auto simp: after_that_def split: option.splits)

lemma set_stmt_fields [simp]:
  "Conn (set_stmt i q d) = snd q" "Statements (set_stmt i q d) = (Statements d)(i := fst q)" "Txs (set_stmt i q d) = Txs d"
  by (simp_all add: set_stmt_def)

lemma tx_open_cong: "Txs d = Txs e \<Longrightarrow> NativeHandle (Conn d) = NativeHandle (Conn e) \<Longrightarrow> tx_open V d = tx_open V e"
  by (simp add: tx_open_def)

lemma held_past: "db_ok V past one kept w d \<Longrightarrow> Txs d t = Some T \<Longrightarrow> ver_valid V (TxVersion T) \<Longrightarrow> TxVersion T \<in> past (NativeHandle (Conn d))"
  unfolding db_ok_def by blast

lemma kept_weaken: "db_ok V past one kept w d \<Longrightarrow> db_ok V past one (kept \<and> b) w d"
  unfolding db_ok_def by blast

lemma only_tx:
  assumes "db_ok V past one kept w d" "one" "Txs d t = Some T"
  shows "Txs d s \<noteq> None \<Longrightarrow> s = t" "Txs d s = Some U \<Longrightarrow> U = T"
proof -
  obtain t' where "dom (Txs d) \<subseteq> {t'}" using assms(1,2) unfolding db_ok_def by blast
  then show "Txs d s \<noteq> None \<Longrightarrow> s = t" using assms(3) by blast
  then show "Txs d s = Some U \<Longrightarrow> U = T" using assms(3) by auto
qed

lemma not_stray: "db_ok V past one kept w d \<Longrightarrow> one \<Longrightarrow> \<not> Stray w"
  unfolding db_ok_def by blast

lemma autocommit_iff: "db_ok V past one kept w d \<Longrightarrow> one \<Longrightarrow> \<not> Disconnected (Conn d) \<Longrightarrow> AutocommitOn w \<longleftrightarrow> \<not> tx_open V d"
  unfolding db_ok_def by blast

context versions
begin

lemma open_ok:
  assumes ok: "db_ok V past one kept w d" and o: "Conn_Open V r (Conn d) = Some (out, c)"
  shows "\<exists>u. db_run out w = Some u \<and> db_ok V past one kept u (d\<lparr>Conn := c\<rparr>)"
proof (cases r)
  case None
  then have "out = []" "c = Conn d" using o by (auto simp: Conn_Open_def split: if_splits)
  then show ?thesis using ok by simp
next
  case (Some h)
  let ?v = "ver_enable V (NativeHandle (Conn d)) h"
  have c: "out = [Connected (ver_number V ?v) h]" "c = (Conn d)\<lparr>NativeHandle := ?v, Disconnected := False\<rparr>"
      "ver_get V (NativeHandle (Conn d)) = None"
    using o Some by (auto simp: Conn_Open_def Let_def split: if_splits)
  let ?u = "w\<lparr>Session := Some (ver_number V ?v, h), AutocommitOn := True\<rparr>"
  have "Session w = None" using ok c(3) by (simp add: db_ok_def session_of_def)
  moreover have "conn_ok V past c" "session_of V c = Session ?u"
    by (simp_all add: conn_ok_def c(2) enabled session_of_def)
  moreover have "stmts_ok V (past (NativeHandle (Conn d))) (Stmts w) (Statements d)" using ok by (simp add: db_ok_def)
  then have "stmts_ok V (past ?v) (Stmts w) (Statements d)" by (rule stmts_ok_mono) (auto simp: enabled(4))
  moreover have "\<not> tx_open V (d\<lparr>Conn := c\<rparr>)"
  proof
    assume "tx_open V (d\<lparr>Conn := c\<rparr>)"
    then obtain t T where T: "Txs d t = Some T" "ver_valid V (TxVersion T)" "TxVersion T = ver_number V ?v"
      by (auto simp: tx_open_def c(2))
    from held_past [OF ok T(1,2)] enabled(3) show False unfolding T(3) by blast
  qed
  ultimately have "db_ok V past one kept ?u (d\<lparr>Conn := c\<rparr>)" using ok enabled(4) by (auto simp: c(2) db_ok_def)
  then show ?thesis using \<open>Session w = None\<close> by (simp add: c(1))
qed

lemma close_ok:
  assumes ok: "db_ok V past one kept w d" and o: "Conn_Close V (Conn d) = Some (out, c)"
  shows "\<exists>u. db_run out w = Some u \<and> db_ok V past one kept u (d\<lparr>Conn := c\<rparr>)"
proof -
  obtain h where h: "ver_get V (NativeHandle (Conn d)) = Some h" "out = [Closed h]"
      "c = (Conn d)\<lparr>NativeHandle := ver_disable V (NativeHandle (Conn d)), Disconnected := True\<rparr>"
    using o by (auto simp: Conn_Close_def split: option.splits)
  have "in_session w h" using ok h(1) by (simp add: db_ok_def session_of_def in_session_def)
  then show ?thesis
    using ok by (auto simp: h(2,3) db_ok_def conn_ok_def disabled session_of_def)
qed

lemma same_conn_ok:
  "db_ok V past one kept w d \<Longrightarrow> NativeHandle c = NativeHandle (Conn d) \<Longrightarrow> (Disconnected (Conn d) \<longrightarrow> Disconnected c) \<Longrightarrow>
   db_ok V past one kept w (d\<lparr>Conn := c\<rparr>)"
  by (auto simp: db_ok_def conn_ok_def session_of_def tx_open_def)

lemma check_conn_ok:
  assumes ok: "db_ok V past one kept w d" and o: "CheckReconnection V r (Conn d) = Some (out, c)"
  shows "\<exists>u. db_run out w = Some u \<and> db_ok V past one kept u (d\<lparr>Conn := c\<rparr>)"
proof -
  show ?thesis
  proof (cases "ver_get V (NativeHandle (Conn d)) = None")
    case True
    then have "Conn_Open V r (Conn d) = Some (out, c)" using o by (simp add: CheckReconnection_def)
    then show ?thesis by (rule open_ok [OF ok])
  next
    case enabled: False
    show ?thesis
    proof (cases "Disconnected (Conn d)")
      case True
      then have "after_that (Conn_Close V (Conn d)) (Conn_Open V r) = Some (out, c)"
        using o enabled by (simp add: CheckReconnection_def)
      then obtain o1 c1 o2 where c1: "Conn_Close V (Conn d) = Some (o1, c1)" "Conn_Open V r c1 = Some (o2, c)" "out = o1 @ o2"
        unfolding after_that_Some by (elim exE conjE) (rule that)
      obtain u where u: "db_run o1 w = Some u" "db_ok V past one kept u (d\<lparr>Conn := c1\<rparr>)" using close_ok [OF ok c1(1)] by blast
      have "Conn_Open V r (Conn (d\<lparr>Conn := c1\<rparr>)) = Some (o2, c)" using c1(2) by simp
      from open_ok [OF u(2) this] obtain x where x: "db_run o2 u = Some x" "db_ok V past one kept x (d\<lparr>Conn := c\<rparr>)" by auto
      then show ?thesis using db_run_through [OF u(1) x(1)] c1(3) by blast
    next
      case False
      then have "out = []" "c = Conn d" using o enabled by (simp_all add: CheckReconnection_def)
      then show ?thesis using ok by simp
    qed
  qed
qed

lemma native_session:
  assumes "db_ok V past one kept w d" "GetNative V (Conn d) = Some (Some h)"
  shows "in_session w h" "Session w = Some (ver_number V (NativeHandle (Conn d)), h)" "\<not> Disconnected (Conn d)"
    "GetVersion V (Conn d) = ver_number V (NativeHandle (Conn d))" "ver_valid V (GetVersion V (Conn d))"
    "GetVersion V (Conn d) \<in> past (NativeHandle (Conn d))"
  using assms by (auto simp: GetNative_def GetVersion_def db_ok_def conn_ok_def session_of_def in_session_def split: if_splits option.splits)

lemma tick_ok:
  assumes ok: "db_ok V past one kept w d" and o: "Conn_Tick V diff NowMS r lost (Conn d) = Some (out, c)"
  shows "\<exists>u. db_run out w = Some u \<and> db_ok V past one kept u (d\<lparr>Conn := c\<rparr>)"
proof -
  let ?d = "d\<lparr>Conn := (Conn d)\<lparr>ConnNowMS := NowMS\<rparr>\<rparr>"
  have ok': "db_ok V past one kept w ?d" by (rule same_conn_ok [OF ok]) simp_all
  obtain o1 c1 rest where c1: "CheckReconnection V r (Conn ?d) = Some (o1, c1)" "out = o1 @ rest"
      and more: "(case GetNative V c1 of None \<Rightarrow> None
       | Some None \<Rightarrow> Some ([], c1)
       | Some (Some h) \<Rightarrow>
           if diff NowMS (LastTimestampMS c1) < IDLE_TIMEOUT_MS then Some ([], c1)
           else if lost then after_that (Some ([Ping h], c1)) (Conn_Close V)
           else Some ([Ping h], c1\<lparr>LastTimestampMS := NowMS\<rparr>)) = Some (rest, c)"
    using o unfolding Conn_Tick_def after_that_Some by auto
  obtain u where u: "db_run o1 w = Some u" "db_ok V past one kept u (d\<lparr>Conn := c1\<rparr>)" using check_conn_ok [OF ok' c1(1)] by auto
  let ?e = "d\<lparr>Conn := c1\<rparr>"
  consider "out = o1" "c = c1" |
      h o2 where "GetNative V c1 = Some (Some h)" "Conn_Close V c1 = Some (o2, c)" "out = o1 @ Ping h # o2" |
      h where "GetNative V c1 = Some (Some h)" "out = o1 @ [Ping h]" "c = c1\<lparr>LastTimestampMS := NowMS\<rparr>"
    using more c1(2) by (auto simp: after_that_Some split: option.splits if_splits)
  then show ?thesis
  proof cases
    case 1
    then show ?thesis using u by blast
  next
    case (2 h o2)
    have "in_session u h" using native_session(1) [OF u(2), of h] 2(1) by simp
    moreover obtain x where x: "db_run o2 u = Some x" "db_ok V past one kept x (d\<lparr>Conn := c\<rparr>)"
      using close_ok [OF u(2), of o2 c] 2(2) by auto
    ultimately have "db_run (Ping h # o2) u = Some x" by simp
    then show ?thesis using db_run_through [OF u(1)] 2(3) x(2) by blast
  next
    case (3 h)
    have "in_session u h" using native_session(1) [OF u(2), of h] 3(1) by simp
    then have "db_run [Ping h] u = Some u" by simp
    moreover have "db_ok V past one kept u (?e\<lparr>Conn := c\<rparr>)" by (rule same_conn_ok [OF u(2)]) (simp_all add: 3(3))
    ultimately show ?thesis using db_run_through [OF u(1)] 3(2) by auto
  qed
qed

lemma clean_ok:
  assumes ok: "db_ok V past one kept w d" and o: "Conn_Clean V g (Conn d) = Some (g', out, c)"
  shows "\<exists>u. db_run out w = Some u \<and> db_ok V past one kept u (d\<lparr>Conn := c\<rparr>)"
proof (cases "ver_get V (NativeHandle (Conn d)) = None")
  case True
  then have "out = []" "c = Conn d" using o by (simp_all add: Conn_Clean_def)
  then show ?thesis using ok by simp
next
  case False
  then have "Conn_Close V (Conn d) = Some (out, c)" using o by (auto simp: Conn_Clean_def)
  then show ?thesis by (rule close_ok [OF ok])
qed

subsection \<open>Steps of a statement\<close>

text \<open>The connection can be marked as lost at any time.\<close>

lemma conn_lost_ok:
  assumes ok: "db_ok V past one kept w d" and q: "Native (fst q) = Native (Statements d i)" "ConnVersion (fst q) = ConnVersion (Statements d i)"
    "snd q = Conn d \<or> snd q = SetDisconnected (Conn d)"
  shows "db_ok V past one kept w (set_stmt i q d)"
proof -
  have "stmts_ok V (past (NativeHandle (Conn d))) (Stmts w) ((Statements d)(i := fst q))"
    by (rule stmts_ok_cong) (use ok q in \<open>simp_all add: db_ok_def\<close>)
  moreover have "tx_open V (set_stmt i q d) = tx_open V d"
    by (rule tx_open_cong) (use q(3) in \<open>auto simp: SetDisconnected_def\<close>)
  ultimately show ?thesis using ok q(3) by (auto simp: db_ok_def conn_ok_def session_of_def SetDisconnected_def)
qed

lemma stmt_close_ok:
  assumes ok: "db_ok V past one kept w d" and o: "Stmt_Close failed (Statements d i, Conn d) = Some (out, q)"
  shows "\<exists>u. db_run out w = Some u \<and> db_ok V past one kept u (set_stmt i q d) \<and> Native (fst q) = None \<and>
    (snd q = Conn d \<or> snd q = SetDisconnected (Conn d))"
proof -
  obtain n where n: "Native (Statements d i) = Some n" "out = [StmtClosed n]" "fst q = (Statements d i)\<lparr>Native := None\<rparr>"
      "snd q = (if failed then SetDisconnected (Conn d) else Conn d)"
    using o by (auto simp: Stmt_Close_def split: option.splits)
  let ?u = "w\<lparr>Stmts := (Stmts w)(n := None)\<rparr>"
  have st: "stmts_ok V (past (NativeHandle (Conn d))) (Stmts w) (Statements d)" using ok by (simp add: db_ok_def)
  have "stmts_ok V (past (NativeHandle (Conn d))) (Stmts ?u) ((Statements d)(i := fst q))"
    using stmts_ok_close [OF st n(1), of "fst q"] by (simp add: n(3))
  moreover have "Stmts w n \<noteq> None" using stmts_okD(1) [OF st n(1)] by simp
  moreover have "tx_open V (set_stmt i q d) = tx_open V d"
    by (rule tx_open_cong) (auto simp: n(4) SetDisconnected_def)
  ultimately show ?thesis
    using ok by (auto simp: n(2,3,4) db_ok_def conn_ok_def session_of_def SetDisconnected_def)
qed

lemma test_and_close_ok:
  assumes ok: "db_ok V past one kept w d" and o: "TestAndClose failed (Statements d i, Conn d) = Some (out, q)"
  shows "\<exists>u. db_run out w = Some u \<and> db_ok V past one kept u (set_stmt i q d) \<and> Native (fst q) = None \<and>
    (snd q = Conn d \<or> snd q = SetDisconnected (Conn d))"
proof (cases "Native (Statements d i) = None")
  case True
  then have "out = []" "q = (Statements d i, Conn d)" using o by (auto simp: TestAndClose_def)
  moreover from this have "db_ok V past one kept w (set_stmt i q d)" by (intro conn_lost_ok [OF ok]) simp_all
  ultimately show ?thesis using True by simp
next
  case False
  then have "Stmt_Close failed (Statements d i, Conn d) = Some (out, q)" using o by (simp only: TestAndClose_def fst_conv if_False)
  then show ?thesis by (rule stmt_close_ok [OF ok])
qed

lemma set_stmt_twice [simp]: "set_stmt i q (set_stmt i r d) = set_stmt i q d"
  by (simp add: set_stmt_def)

text \<open>The statement is opened in the session of the connection and gets its version.\<close>

lemma stmt_open_ok:
  assumes ok: "db_ok V past one kept w d" and o: "Stmt_Open V p (Statements d i, Conn d) = Some (out, q)" and fair: "fair_prepare i p d"
    and v: "v = GetVersion V (Conn d) \<or> Disconnected (Conn d)"
  shows "\<exists>u. db_run out w = Some u \<and>
    (if Native (fst q) = None then db_ok V past one kept u (set_stmt i q d)
     else db_ok V past one kept u (set_stmt i ((fst q)\<lparr>ConnVersion := v\<rparr>, snd q) d) \<and> \<not> Disconnected (snd q))"
proof -
  consider n h where "p = Prepare n" "GetNative V (Conn d) = Some (Some h)" "out = [Prepared h n]"
      "q = ((Statements d i)\<lparr>Native := Some n\<rparr>, Conn d)" "Native (Statements d i) = None" |
      "out = []" "fst q = Statements d i" "snd q = Conn d \<or> snd q = SetDisconnected (Conn d)" "Native (Statements d i) = None"
    using o by (cases q) (auto simp: Stmt_Open_def split: if_splits option.splits prepare_result.splits)
  then show ?thesis
  proof cases
    case (1 n h)
    note s = native_session [OF ok 1(2)]
    have st: "stmts_ok V (past (NativeHandle (Conn d))) (Stmts w) (Statements d)" using ok by (simp add: db_ok_def)
    have fresh: "\<forall>j. j \<noteq> i \<longrightarrow> Native (Statements d j) \<noteq> Some n" using fair 1(1) by (auto simp: fair_prepare_def)
    have none: "Stmts w n = None"
    proof (rule ccontr)
      assume "Stmts w n \<noteq> None"
      then obtain j where j: "Native (Statements d j) = Some n" using stmts_okD(3) [OF st] by blast
      with fresh have "j = i" by blast
      with j 1(5) show False by simp
    qed
    have v': "v = ver_number V (NativeHandle (Conn d))" using v s(3,4) by simp
    let ?u = "w\<lparr>Stmts := (Stmts w)(n \<mapsto> v)\<rparr>"
    let ?q = "((fst q)\<lparr>ConnVersion := v\<rparr>, snd q)"
    have "stmts_ok V (past (NativeHandle (Conn d))) ((Stmts w)(n \<mapsto> v)) ((Statements d)(i := fst ?q))"
      by (rule stmts_ok_open [OF st fresh 1(5)]) (use s(4-6) in \<open>simp_all add: 1(4) v'\<close>)
    moreover have "tx_open V (set_stmt i ?q d) = tx_open V d" by (rule tx_open_cong) (simp_all add: 1(4))
    ultimately have "db_ok V past one kept ?u (set_stmt i ?q d)" using ok by (auto simp: db_ok_def 1(4))
    moreover have "db_run out w = Some ?u" using s(1,2) none by (simp add: 1(3) v')
    ultimately show ?thesis using s(3) 1(4) by simp
  next
    case 2
    then have "db_ok V past one kept w (set_stmt i q d)" by (intro conn_lost_ok [OF ok]) simp_all
    then show ?thesis using 2 by simp
  qed
qed

lemma invalid_version: "ver_equal V (GetVersion V c) v \<Longrightarrow> ver_valid V v \<Longrightarrow> v = ver_number V (NativeHandle c) \<and> \<not> Disconnected c"
  using equal [of "GetVersion V c" v] invalid by (auto simp: GetVersion_def split: if_splits)

lemma fair_same: "fair_prepare i p d \<Longrightarrow> fair_prepare i p (set_stmt i q d)"
  by (simp add: fair_prepare_def)

lemma CheckReonnectionD:
  assumes "CheckReonnection V failed p q = Some (b, out, r)" "\<not> ver_equal V (GetVersion V (snd q)) (ConnVersion (fst q))"
  shows "\<exists>o1 q1. TestAndClose failed q = Some (o1, q1) \<and>
    (if \<not> ver_valid V (GetVersion V (snd q)) then \<not> b \<and> out = o1 \<and> r = q1
     else \<exists>o2 q2. Stmt_Open V p q1 = Some (o2, q2) \<and> out = o1 @ o2 \<and>
       (if Native (fst q2) = None then \<not> b \<and> r = q2
        else b \<and> r = ((fst q2)\<lparr>ConnVersion := GetVersion V (snd q)\<rparr>, snd q2)))"
proof -
  let ?c = "\<lambda>o1 q1. if \<not> ver_valid V (GetVersion V (snd q)) then Some (False, o1, q1)
      else case Stmt_Open V p q1 of None \<Rightarrow> None
        | Some (out', st, c) \<Rightarrow>
            if Native st = None then Some (False, o1 @ out', st, c)
            else Some (True, o1 @ out', st\<lparr>ConnVersion := GetVersion V (snd q)\<rparr>, c)"
  obtain o1 q1 where q1: "TestAndClose failed q = Some (o1, q1)" "?c o1 q1 = Some (b, out, r)"
    using assms unfolding CheckReonnection_def Let_def by (simp split: option.splits prod.splits)
  show ?thesis
  proof (cases "ver_valid V (GetVersion V (snd q))")
    case False
    then show ?thesis using q1 by (intro exI [of _ o1] exI [of _ q1]) simp
  next
    case True
    with q1(2) have "(case Stmt_Open V p q1 of None \<Rightarrow> None
        | Some (out', st, c) \<Rightarrow>
            if Native st = None then Some (False, o1 @ out', st, c)
            else Some (True, o1 @ out', st\<lparr>ConnVersion := GetVersion V (snd q)\<rparr>, c)) = Some (b, out, r)" by simp
    then obtain o2 st c where "Stmt_Open V p q1 = Some (o2, st, c)"
        "(if Native st = None then Some (False, o1 @ o2, st, c)
          else Some (True, o1 @ o2, st\<lparr>ConnVersion := GetVersion V (snd q)\<rparr>, c)) = Some (b, out, r)"
      by (simp split: option.splits prod.splits)
    then show ?thesis using True q1(1)
      by (intro exI [of _ o1] exI [of _ q1]) (auto split: if_splits)
  qed
qed

text \<open>After the check an open statement belongs to the session of the connection.\<close>

lemma check_stmt_ok:
  assumes ok: "db_ok V past one kept w d" and fair: "fair_prepare i p d"
    and o: "CheckReonnection V failed p (Statements d i, Conn d) = Some (b, out, q)"
  shows "\<exists>u. db_run out w = Some u \<and> db_ok V past one kept u (set_stmt i q d) \<and>
    (b \<and> Native (fst q) \<noteq> None \<longrightarrow> ConnVersion (fst q) = ver_number V (NativeHandle (snd q)) \<and> \<not> Disconnected (snd q))"
proof -
  let ?v = "GetVersion V (Conn d)"
  show ?thesis
  proof (cases "ver_equal V ?v (ConnVersion (Statements d i))")
    case True
    then have r: "b" "out = []" "q = (Statements d i, Conn d)" using o by (auto simp: CheckReonnection_def Let_def)
    have "db_ok V past one kept w (set_stmt i q d)" by (rule conn_lost_ok [OF ok]) (simp_all add: r(3))
    moreover have "ConnVersion (Statements d i) = ver_number V (NativeHandle (Conn d)) \<and> \<not> Disconnected (Conn d)"
      if "Native (Statements d i) = Some n" for n
    proof -
      have st: "stmts_ok V (past (NativeHandle (Conn d))) (Stmts w) (Statements d)" using ok by (simp add: db_ok_def)
      have "ver_valid V (ConnVersion (Statements d i))" using stmts_okD(1) [OF st that] by simp
      with True show ?thesis by (rule invalid_version)
    qed
    ultimately show ?thesis using r by auto
  next
    case False
    obtain o1 q1 where q1: "TestAndClose failed (Statements d i, Conn d) = Some (o1, q1)"
      and rest: "if \<not> ver_valid V ?v then \<not> b \<and> out = o1 \<and> q = q1
        else \<exists>o2 q2. Stmt_Open V p q1 = Some (o2, q2) \<and> out = o1 @ o2 \<and>
          (if Native (fst q2) = None then \<not> b \<and> q = q2 else b \<and> q = ((fst q2)\<lparr>ConnVersion := ?v\<rparr>, snd q2))"
      using CheckReonnectionD [OF o, unfolded fst_conv snd_conv, OF False] by (elim exE conjE) (rule that)
    let ?d = "set_stmt i q1 d"
    obtain u where u: "db_run o1 w = Some u" "db_ok V past one kept u ?d" "Native (fst q1) = None"
        "snd q1 = Conn d \<or> snd q1 = SetDisconnected (Conn d)"
      using test_and_close_ok [OF ok q1] by blast
    show ?thesis
    proof (cases "ver_valid V ?v")
      case False
      then have "\<not> b" "out = o1" "q = q1" using rest by simp_all
      then show ?thesis using u by auto
    next
      case True
      obtain o2 q2 where q2: "Stmt_Open V p q1 = Some (o2, q2)"
        and r: "out = o1 @ o2" "if Native (fst q2) = None then \<not> b \<and> q = q2 else b \<and> q = ((fst q2)\<lparr>ConnVersion := ?v\<rparr>, snd q2)"
        using rest True by (simp only: if_False not_True_eq_False simp_thms) (elim exE conjE, rule that)
      have so: "Stmt_Open V p (Statements ?d i, Conn ?d) = Some (o2, q2)" using q2 by simp
      have v: "?v = GetVersion V (Conn ?d) \<or> Disconnected (Conn ?d)" using u(4) by (auto simp: SetDisconnected_def)
      obtain x where x: "db_run o2 u = Some x"
          "if Native (fst q2) = None then db_ok V past one kept x (set_stmt i q2 d)
           else db_ok V past one kept x (set_stmt i ((fst q2)\<lparr>ConnVersion := ?v\<rparr>, snd q2) d) \<and> \<not> Disconnected (snd q2)"
        using stmt_open_ok [OF u(2) so fair_same [OF fair] v] unfolding set_stmt_twice by blast
      have run: "db_run out w = Some x" using db_run_through [OF u(1) x(1)] r(1) by simp
      show ?thesis
      proof (cases "Native (fst q2) = None")
        case True
        then have "db_ok V past one kept x (set_stmt i q d)" "\<not> b" using x(2) r(2) by simp_all
        then show ?thesis using run by blast
      next
        case nat: False
        have c: "snd q2 = snd q1" using q2 nat u(3)
          by (cases q1; cases q2) (auto simp: Stmt_Open_def split: if_splits option.splits prepare_result.splits)
        have s: "db_ok V past one kept x (set_stmt i q d)" "\<not> Disconnected (snd q2)" "q = ((fst q2)\<lparr>ConnVersion := ?v\<rparr>, snd q2)"
          using x(2) r(2) nat by simp_all
        then have "snd q2 = Conn d" using u(4) c by (auto simp: SetDisconnected_def)
        then have "?v = ver_number V (NativeHandle (snd q2))" using s(2) by (simp add: GetVersion_def)
        then show ?thesis using run s by auto
      qed
    qed
  qed
qed

lemma lost_error_ok:
  assumes ok: "db_ok V past one kept w d" and o: "ProcessServerLostError lost failed (Statements d i, Conn d) = Some (out, q)"
  shows "\<exists>u. db_run out w = Some u \<and> db_ok V past one kept u (set_stmt i q d) \<and> (\<not> lost \<longrightarrow> u = w)"
proof (cases lost)
  case True
  then obtain q1 where q1: "Stmt_Close failed (Statements d i, Conn d) = Some (out, q1)" "q = (fst q1, SetDisconnected (snd q1))"
    using o by (auto simp: ProcessServerLostError_def split: if_splits)
  obtain u where u: "db_run out w = Some u" "db_ok V past one kept u (set_stmt i q1 d)" using stmt_close_ok [OF ok q1(1)] by blast
  have "db_ok V past one kept u (set_stmt i q (set_stmt i q1 d))" by (rule conn_lost_ok [OF u(2)]) (simp_all add: q1(2))
  then show ?thesis using u(1) True by (simp only: set_stmt_twice) blast
next
  case False
  then have "out = []" "q = (Statements d i, Conn d)" using o by (auto simp: ProcessServerLostError_def split: if_splits)
  moreover from this have "db_ok V past one kept w (set_stmt i q d)" by (intro conn_lost_ok [OF ok]) simp_all
  ultimately show ?thesis by simp
qed

lemma execute_ok:
  assumes ok: "db_ok V past one kept w d"
    and v: "Native (Statements d i) \<noteq> None \<longrightarrow>
      ConnVersion (Statements d i) = ver_number V (NativeHandle (Conn d)) \<and> \<not> Disconnected (Conn d)"
    and o: "InternalBindAndExecute outs e (Statements d i, Conn d) = Some (r, out, q)"
  shows "\<exists>u. db_run out w = Some u \<and> db_ok V past one (kept \<and> kept_execution e) u (set_stmt i q d)"
proof -
  obtain n where n: "Native (Statements d i) = Some n" using o by (cases "Native (Statements d i)") (simp_all add: InternalBindAndExecute_def)
  have st: "stmts_ok V (past (NativeHandle (Conn d))) (Stmts w) (Statements d)" using ok by (simp add: db_ok_def)
  have live: "Stmts w n = Some (ver_number V (NativeHandle (Conn d)))" using stmts_okD(1) [OF st n] v n by simp
  obtain h where h: "ver_get V (NativeHandle (Conn d)) = Some h" using ok v n by (auto simp: db_ok_def conn_ok_def)
  have "Session w = Some (ver_number V (NativeHandle (Conn d)), h)" using ok h by (simp add: db_ok_def session_of_def)
  then have ex: "db_step (Executed n) w = Some w" using live by simp
  let ?s = "(Statements d i)\<lparr>LastInsertId := ex_insert_id e, LastResultRows := ex_rows e, LastAffectedRows := ex_affected e\<rparr>"
  let ?d = "set_stmt i (?s, Conn d) d"
  have ok': "db_ok V past one kept w ?d" by (rule conn_lost_ok [OF ok]) simp_all
  consider (lost) o1 where "ProcessServerLostError (ex_lost e) (ex_close_failed e) (Statements d i, Conn d) = Some (o1, q)"
        "out = Executed n # o1" |
      (freed) "\<not> ex_lost e" "out = [Executed n, ResultFreed n]" "q = (?s, Conn d)" |
      (kept) o1 where "ProcessServerLostError (ex_lost e) (ex_close_failed e) (Statements ?d i, Conn ?d) = Some (o1, q)"
        "out = Executed n # o1" |
      (late) o1 where "ProcessServerLostError (ex_lost e) (ex_close_failed e) (Statements ?d i, Conn ?d) = Some (o1, q)"
        "out = Executed n # o1 @ [ResultFreed n]" "\<not> kept_execution e"
    using o unfolding InternalBindAndExecute_def Let_def kept_execution_def
    by (auto simp: n ProcessServerLostError_def split: if_splits option.splits prod.splits bool.splits)
  then show ?thesis
  proof cases
    case (lost o1)
    then obtain u where "db_run o1 w = Some u" "db_ok V past one kept u (set_stmt i q d)" using lost_error_ok [OF ok lost(1)] by blast
    then show ?thesis using ex lost(2) kept_weaken by auto
  next
    case freed
    then have "db_run out w = Some w" using ex live by simp
    then show ?thesis using kept_weaken [OF ok'] freed(3) by blast
  next
    case (kept o1)
    then obtain u where "db_run o1 w = Some u" "db_ok V past one kept u (set_stmt i q ?d)" using lost_error_ok [OF ok' kept(1)] by blast
    then show ?thesis using ex kept(2) kept_weaken by (auto simp del: db_step.simps)
  next
    case (late o1)
    then obtain u where u: "db_run o1 w = Some u" "db_ok V past one kept u (set_stmt i q ?d)" using lost_error_ok [OF ok' late(1)] by blast
    let ?u = "u\<lparr>FreedLate := FreedLate u \<or> Stmts u n = None\<rparr>"
    have "db_run (o1 @ [ResultFreed n]) w = Some ?u" using u(1) by (simp add: db_run_append)
    moreover have "db_ok V past one (kept \<and> kept_execution e) ?u (set_stmt i q d)" using u(2) late(3) by (auto simp: db_ok_def tx_open_def)
    ultimately show ?thesis using ex late(2) by (auto simp del: db_step.simps)
  qed
qed

lemma stmt_execute_ok:
  assumes ok: "db_ok V past one kept w d" and fair: "fair_prepare i p d"
    and o: "Stmt_Execute V outs failed p e (Statements d i, Conn d) = Some (r, out, q)"
  shows "\<exists>u. db_run out w = Some u \<and> db_ok V past one (kept \<and> kept_execution e) u (set_stmt i q d)"
proof -
  obtain b o1 q1 where c: "CheckReonnection V failed p (Statements d i, Conn d) = Some (b, o1, q1)"
    and rest: "if b then \<exists>o2. InternalBindAndExecute outs e q1 = Some (r, o2, q) \<and> out = o1 @ o2 else out = o1 \<and> q = q1"
    using o unfolding Stmt_Execute_def by (auto split: option.splits prod.splits bool.splits)
  let ?d = "set_stmt i q1 d"
  obtain u where u: "db_run o1 w = Some u" "db_ok V past one kept u ?d"
      "b \<and> Native (fst q1) \<noteq> None \<longrightarrow> ConnVersion (fst q1) = ver_number V (NativeHandle (snd q1)) \<and> \<not> Disconnected (snd q1)"
    using check_stmt_ok [OF ok fair c] by blast
  show ?thesis
  proof (cases b)
    case True
    then obtain o2 where o2: "InternalBindAndExecute outs e (Statements ?d i, Conn ?d) = Some (r, o2, q)" "out = o1 @ o2"
      using rest by auto
    have "Native (Statements ?d i) \<noteq> None \<longrightarrow>
        ConnVersion (Statements ?d i) = ver_number V (NativeHandle (Conn ?d)) \<and> \<not> Disconnected (Conn ?d)" using u(3) True by simp
    from execute_ok [OF u(2) this o2(1)] obtain x where "db_run o2 u = Some x" "db_ok V past one (kept \<and> kept_execution e) x (set_stmt i q d)"
      unfolding set_stmt_twice by blast
    then show ?thesis using db_run_through [OF u(1)] o2(2) by blast
  next
    case False
    then have "out = o1" "q = q1" using rest by simp_all
    moreover have "db_ok V past one (kept \<and> kept_execution e) u ?d" using u(2) by (rule kept_weaken)
    ultimately show ?thesis using u(1) by blast
  qed
qed

subsection \<open>Steps of a transaction\<close>

lemma tx_ok:
  assumes ok: "db_ok V past one kept w d"
    and T: "\<And>t T. f t = Some T \<Longrightarrow> ver_valid V (TxVersion T) \<Longrightarrow> TxVersion T \<in> past (NativeHandle (Conn d))"
    and b: "one' \<Longrightarrow> (\<exists>t. dom f \<subseteq> {t}) \<and> \<not> st"
    and a: "one' \<Longrightarrow> \<not> Disconnected (Conn d) \<Longrightarrow> a \<longleftrightarrow> \<not> tx_open V (d\<lparr>Txs := f\<rparr>)"
  shows "db_ok V past one' kept (w\<lparr>AutocommitOn := a, Stray := st\<rparr>) (d\<lparr>Txs := f\<rparr>)"
  using ok T a b by (auto simp: db_ok_def)

lemma same_ok: "db_ok V past one kept (w\<lparr>AutocommitOn := AutocommitOn w, Stray := Stray w\<rparr>) d = db_ok V past one kept w d"
  by simp

lemma begin_ok:
  assumes ok: "db_ok V past one kept w d" and o: "Tx_Begin V (Conn d) = Some (out, T)"
  shows "\<exists>u. db_run out w = Some u \<and> db_ok V past (one \<and> Txs d = Map.empty) kept u (d\<lparr>Txs := (Txs d)(t \<mapsto> T)\<rparr>)"
proof (cases "ver_valid V (GetVersion V (Conn d))")
  case True
  then obtain h where h: "GetNative V (Conn d) = Some (Some h)" "out = [Autocommit h False]"
      "T = \<lparr>TxVersion = GetVersion V (Conn d), Commited = False\<rparr>"
    using o by (auto simp: Tx_Begin_def Let_def split: option.splits)
  note s = native_session [OF ok h(1)]
  have "db_ok V past (one \<and> Txs d = Map.empty) kept (w\<lparr>AutocommitOn := False, Stray := Stray w\<rparr>) (d\<lparr>Txs := (Txs d)(t \<mapsto> T)\<rparr>)"
  proof (rule tx_ok [OF ok])
    show "TxVersion U \<in> past (NativeHandle (Conn d))" if "((Txs d)(t \<mapsto> T)) k = Some U" "ver_valid V (TxVersion U)" for k U
      using that held_past [OF ok, of k U] s(6) by (cases "k = t") (auto simp: h(3))
    show "(\<exists>k. dom ((Txs d)(t \<mapsto> T)) \<subseteq> {k}) \<and> \<not> Stray w" if "one \<and> Txs d = Map.empty"
      using that not_stray [OF ok] by auto
    show "False \<longleftrightarrow> \<not> tx_open V (d\<lparr>Txs := (Txs d)(t \<mapsto> T)\<rparr>)"
      using s(4,5) by (auto simp: tx_open_def h(3) intro!: exI [of _ t])
  qed
  then show ?thesis using s(1) h(2) by simp
next
  case False
  then have T: "out = []" "T = \<lparr>TxVersion = GetVersion V (Conn d), Commited = False\<rparr>" using o by (auto simp: Tx_Begin_def Let_def)
  have "db_ok V past (one \<and> Txs d = Map.empty) kept (w\<lparr>AutocommitOn := AutocommitOn w, Stray := Stray w\<rparr>) (d\<lparr>Txs := (Txs d)(t \<mapsto> T)\<rparr>)"
  proof (rule tx_ok [OF ok])
    show "TxVersion U \<in> past (NativeHandle (Conn d))" if "((Txs d)(t \<mapsto> T)) k = Some U" "ver_valid V (TxVersion U)" for k U
      using that held_past [OF ok, of k U] False by (cases "k = t") (auto simp: T(2))
    show "(\<exists>k. dom ((Txs d)(t \<mapsto> T)) \<subseteq> {k}) \<and> \<not> Stray w" if "one \<and> Txs d = Map.empty"
      using that not_stray [OF ok] by auto
    show "AutocommitOn w \<longleftrightarrow> \<not> tx_open V (d\<lparr>Txs := (Txs d)(t \<mapsto> T)\<rparr>)" if o: "one \<and> Txs d = Map.empty" "\<not> Disconnected (Conn d)"
    proof -
      have "\<not> tx_open V d" using o(1) by (simp add: tx_open_def)
      moreover have "\<not> tx_open V (d\<lparr>Txs := (Txs d)(t \<mapsto> T)\<rparr>)" using o(1) False by (auto simp: tx_open_def T(2) split: if_splits)
      ultimately show ?thesis using autocommit_iff [OF ok _ o(2)] o(1) by blast
    qed
  qed
  then show ?thesis by (simp add: T(1))
qed

text \<open>
  A connection with the version of the transaction is ready, and with one transaction at a time the server has it open
  unless it is committed.
\<close>

lemma tx_session:
  assumes ok: "db_ok V past one kept w d" and T: "Txs d t = Some T" "ver_valid V (TxVersion T)" "ver_equal V (GetVersion V (Conn d)) (TxVersion T)"
  shows "\<exists>h. GetNative V (Conn d) = Some (Some h) \<and> in_session w h" "one \<Longrightarrow> AutocommitOn w \<longleftrightarrow> Commited T" "\<not> Disconnected (Conn d)"
proof -
  have v: "TxVersion T = ver_number V (NativeHandle (Conn d))" "\<not> Disconnected (Conn d)" using invalid_version [OF T(3,2)] by auto
  then obtain h where "ver_get V (NativeHandle (Conn d)) = Some h" using ok by (auto simp: db_ok_def conn_ok_def)
  then have "GetNative V (Conn d) = Some (Some h)" using v(2) by (simp add: GetNative_def)
  then show "\<exists>h. GetNative V (Conn d) = Some (Some h) \<and> in_session w h" using native_session(1) [OF ok] by blast
  show "\<not> Disconnected (Conn d)" by (rule v(2))
  show "AutocommitOn w \<longleftrightarrow> Commited T" if "one"
  proof -
    have "tx_open V d \<longleftrightarrow> \<not> Commited T" using T(1,2) v(1) only_tx(2) [OF ok that T(1)] unfolding tx_open_def by blast
    then show ?thesis using autocommit_iff [OF ok that v(2)] by blast
  qed
qed

lemma other_version:
  assumes "\<not> ver_equal V (GetVersion V (Conn d)) (TxVersion T)" "\<not> Disconnected (Conn d)" "ver_valid V (TxVersion T)"
  shows "TxVersion T \<noteq> ver_number V (NativeHandle (Conn d))"
  using assms equal [of "GetVersion V (Conn d)" "TxVersion T"] by (auto simp: GetVersion_def)

text \<open>With one transaction at a time there is none when it is replaced by a transaction that is not open, or removed.\<close>

lemma none_open:
  assumes "db_ok V past one kept w d" "one" "Txs d t = Some T" "\<And>T'. y = Some T' \<Longrightarrow> Commited T'"
  shows "(\<exists>s. dom ((Txs d)(t := y)) \<subseteq> {s}) \<and> \<not> tx_open V (d\<lparr>Txs := (Txs d)(t := y)\<rparr>)"
proof -
  note only = only_tx(1) [OF assms(1-3)]
  then have "dom ((Txs d)(t := y)) \<subseteq> {t}" by auto
  moreover have "\<not> tx_open V (d\<lparr>Txs := (Txs d)(t := y)\<rparr>)"
  proof
    assume "tx_open V (d\<lparr>Txs := (Txs d)(t := y)\<rparr>)"
    then obtain s T' where s: "((Txs d)(t := y)) s = Some T'" "\<not> Commited T'" unfolding tx_open_def by auto
    then show False using only [of s] assms(4) by (cases "s = t") auto
  qed
  ultimately show ?thesis by blast
qed

text \<open>The end of a transaction, by a commit or without one: \<open>y\<close> is what is left of it.\<close>

lemma finish_ok:
  assumes ok: "db_ok V past one kept w d" and T: "Txs d t = Some T" and one: "one' \<Longrightarrow> one"
    and y: "\<And>T'. y = Some T' \<Longrightarrow> Commited T' \<and> TxVersion T' = TxVersion T"
    and st: "one' \<Longrightarrow> \<not> st" and a: "one' \<Longrightarrow> \<not> Disconnected (Conn d) \<Longrightarrow> a"
  shows "db_ok V past one' kept (w\<lparr>AutocommitOn := a, Stray := st\<rparr>) (d\<lparr>Txs := (Txs d)(t := y)\<rparr>)"
proof (rule tx_ok [OF ok])
  show "TxVersion U \<in> past (NativeHandle (Conn d))" if "((Txs d)(t := y)) s = Some U" "ver_valid V (TxVersion U)" for s U
  proof (cases "s = t")
    case True
    then show ?thesis using that y [of U] held_past [OF ok T] by simp
  next
    case False
    then show ?thesis using that held_past [OF ok, of s U] by simp
  qed
  assume o: "one'"
  note n = none_open [OF ok one [OF o] T, of y]
  show "(\<exists>s. dom ((Txs d)(t := y)) \<subseteq> {s}) \<and> \<not> st" using n y st [OF o] by blast
  show "a \<longleftrightarrow> \<not> tx_open V (d\<lparr>Txs := (Txs d)(t := y)\<rparr>)" if "\<not> Disconnected (Conn d)" using n y a [OF o that] by blast
qed

lemma unchanged_auto:
  assumes ok: "db_ok V past one kept w d" and "one" "Txs d t = Some T"
    "Commited T \<or> \<not> ver_valid V (TxVersion T) \<or> \<not> ver_equal V (GetVersion V (Conn d)) (TxVersion T)" "\<not> Disconnected (Conn d)"
  shows "AutocommitOn w"
proof -
  have "\<not> tx_open V d" using assms(4) other_version [OF _ assms(5), of T] only_tx(2) [OF ok assms(2,3)] unfolding tx_open_def by blast
  then show ?thesis using autocommit_iff [OF ok assms(2,5)] by blast
qed

lemma commit_ok:
  assumes ok: "db_ok V past one kept w d" and T: "Txs d t = Some T" and o: "Tx_Commit V sent (Conn d) T = Some (b, out, T')"
  shows "\<exists>u. db_run out w = Some u \<and> db_ok V past (one \<and> \<not> Commited T) kept u (d\<lparr>Txs := (Txs d)(t \<mapsto> T')\<rparr>)"
proof -
  have val: "ver_valid V (TxVersion T)" and T': "T' = T\<lparr>Commited := True\<rparr>"
    using o by (auto simp: Tx_Commit_def Let_def split: if_splits option.splits)
  show ?thesis
  proof (cases "ver_equal V (GetVersion V (Conn d)) (TxVersion T)")
    case True
    note s = tx_session [OF ok T val True]
    then obtain h where h: "GetNative V (Conn d) = Some (Some h)" "in_session w h" by blast
    have "out = [CommitSent h, Autocommit h True]" using o val True h(1) by (simp add: Tx_Commit_def)
    then have "db_run out w = Some (w\<lparr>AutocommitOn := True, Stray := Stray w \<or> AutocommitOn w\<rparr>)"
      using h(2) by (simp add: in_session_def)
    moreover have "db_ok V past (one \<and> \<not> Commited T) kept (w\<lparr>AutocommitOn := True, Stray := Stray w \<or> AutocommitOn w\<rparr>)
        (d\<lparr>Txs := (Txs d)(t := Some T')\<rparr>)"
      by (rule finish_ok [OF ok T]) (use s(2) not_stray [OF ok] in \<open>auto simp: T'\<close>)
    ultimately show ?thesis by blast
  next
    case False
    then have out: "out = []" using o val by (simp add: Tx_Commit_def)
    have "db_ok V past (one \<and> \<not> Commited T) kept (w\<lparr>AutocommitOn := AutocommitOn w, Stray := Stray w\<rparr>) (d\<lparr>Txs := (Txs d)(t := Some T')\<rparr>)"
    proof (rule finish_ok [OF ok T])
      show "AutocommitOn w" if "one \<and> \<not> Commited T" "\<not> Disconnected (Conn d)"
        using unchanged_auto [OF ok _ T _ that(2)] that(1) False by blast
    qed (use not_stray [OF ok] in \<open>auto simp: T'\<close>)
    then show ?thesis by (simp add: out)
  qed
qed

lemma end_ok:
  assumes ok: "db_ok V past one kept w d" and T: "Txs d t = Some T" and o: "Tx_End V (Conn d) T = Some out"
  shows "\<exists>u. db_run out w = Some u \<and> db_ok V past one kept u (d\<lparr>Txs := (Txs d)(t := None)\<rparr>)"
proof (cases "ver_valid V (TxVersion T) \<and> ver_equal V (GetVersion V (Conn d)) (TxVersion T) \<and> \<not> Commited T")
  case True
  note s = tx_session [OF ok T conjunct1 [OF True] conjunct1 [OF conjunct2 [OF True]]]
  then obtain h where h: "GetNative V (Conn d) = Some (Some h)" "in_session w h" by blast
  have "out = [RollbackSent h, Autocommit h True]" using o True h(1) by (simp add: Tx_End_def)
  then have "db_run out w = Some (w\<lparr>AutocommitOn := True, Stray := Stray w \<or> AutocommitOn w\<rparr>)" using h(2) by (simp add: in_session_def)
  moreover have "db_ok V past one kept (w\<lparr>AutocommitOn := True, Stray := Stray w \<or> AutocommitOn w\<rparr>) (d\<lparr>Txs := (Txs d)(t := None)\<rparr>)"
    by (rule finish_ok [OF ok T]) (use s(2) not_stray [OF ok] True in auto)
  ultimately show ?thesis by blast
next
  case False
  then have out: "out = []" using o by (auto simp: Tx_End_def split: if_splits)
  have "db_ok V past one kept (w\<lparr>AutocommitOn := AutocommitOn w, Stray := Stray w\<rparr>) (d\<lparr>Txs := (Txs d)(t := None)\<rparr>)"
  proof (rule finish_ok [OF ok T])
    show "AutocommitOn w" if "one" "\<not> Disconnected (Conn d)" using unchanged_auto [OF ok that(1) T _ that(2)] False by blast
  qed (use not_stray [OF ok] in auto)
  then show ?thesis by (simp add: out)
qed

subsection \<open>All runs\<close>

lemma reach_ok:
  "db_reach V diff d0 tr d one kept \<Longrightarrow> db_empty V d0 \<Longrightarrow> \<exists>w. db_run tr no_session = Some w \<and> db_ok V past one kept w d"
proof (induction rule: db_reach.induct)
  case start
  then have "db_ok V past True True no_session d0"
    by (simp add: db_empty_def db_ok_def conn_ok_def session_of_def no_session_def stmts_ok_def tx_open_def)
  then show ?case by simp
next
  case (tick tr d one kept NowMS r lost out c)
  then obtain w where w: "db_run tr no_session = Some w" "db_ok V past one kept w d" by blast
  then show ?case using tick_ok [OF w(2) tick.hyps(2)] db_run_through [OF w(1)] by blast
next
  case (clean tr d one kept g g' out c)
  then obtain w where w: "db_run tr no_session = Some w" "db_ok V past one kept w d" by blast
  then show ?case using clean_ok [OF w(2) clean.hyps(2)] db_run_through [OF w(1)] by blast
next
  case (new_stmt tr d one kept i q)
  then obtain w where w: "db_run tr no_session = Some w" "db_ok V past one kept w d" by blast
  have "db_ok V past one kept w (set_stmt i (Stmt_Init q (Statements d i), Conn d) d)"
    by (rule conn_lost_ok [OF w(2)]) (simp_all add: Stmt_Init_def new_stmt.hyps(2))
  with w(1) show ?case by blast
next
  case (execute tr d one kept outs failed p e i r out q)
  then obtain w where w: "db_run tr no_session = Some w" "db_ok V past one kept w d" by blast
  then show ?case using stmt_execute_ok [OF w(2) execute.hyps(3,2)] db_run_through [OF w(1)] by blast
next
  case (clean_stmt tr d one kept failed i out q)
  then obtain w where w: "db_run tr no_session = Some w" "db_ok V past one kept w d" by blast
  obtain q1 where q1: "TestAndClose failed (Statements d i, Conn d) = Some (out, q1)" "q = ((fst q1)\<lparr>Query := []\<rparr>, snd q1)"
    using clean_stmt.hyps(2) by (auto simp: Stmt_Clean_def)
  obtain u where u: "db_run out w = Some u" "db_ok V past one kept u (set_stmt i q1 d)" using test_and_close_ok [OF w(2) q1(1)] by blast
  have "db_ok V past one kept u (set_stmt i q (set_stmt i q1 d))" by (rule conn_lost_ok [OF u(2)]) (simp_all add: q1(2))
  then show ?case using db_run_through [OF w(1) u(1)] by (simp only: set_stmt_twice) blast
next
  case (begin_tx tr d one kept t out T)
  then obtain w where w: "db_run tr no_session = Some w" "db_ok V past one kept w d" by blast
  then show ?case using begin_ok [OF w(2) begin_tx.hyps(3)] db_run_through [OF w(1)] by blast
next
  case (commit_tx tr d one kept t T sent ok out T')
  then obtain w where w: "db_run tr no_session = Some w" "db_ok V past one kept w d" by blast
  then show ?case using commit_ok [OF w(2) commit_tx.hyps(2,3)] db_run_through [OF w(1)] by blast
next
  case (end_tx tr d one kept t T out)
  then obtain w where w: "db_run tr no_session = Some w" "db_ok V past one kept w d" by blast
  then show ?case using end_ok [OF w(2) end_tx.hyps(2,3)] db_run_through [OF w(1)] by blast
qed

lemma tick_total: "db_ok V past one kept w d \<Longrightarrow> Conn_Tick V diff NowMS r lost (Conn d) \<noteq> None"
  by (auto simp: Conn_Tick_def CheckReconnection_def Conn_Open_def Conn_Close_def GetNative_def after_that_def db_ok_def conn_ok_def
      enabled disabled Let_def split: option.splits)

lemma end_total: "db_ok V past one kept w d \<Longrightarrow> Txs d t = Some T \<Longrightarrow> Tx_End V (Conn d) T \<noteq> None"
  using tx_session(1) [of one kept w d t T] by (auto simp: Tx_End_def)

lemma commit_fails: "db_ok V past one kept w d \<Longrightarrow> Txs d t = Some T \<Longrightarrow>
   Tx_Commit V sent (Conn d) T = None \<longleftrightarrow> \<not> ver_valid V (TxVersion T)"
  using tx_session(1) [of one kept w d t T] by (auto simp: Tx_Commit_def Let_def)

lemma begun_valid: "db_ok V past one kept w d \<Longrightarrow>
   \<exists>out T. Tx_Begin V (Conn d) = Some (out, T) \<and> (ver_valid V (TxVersion T) \<longleftrightarrow> \<not> Disconnected (Conn d))"
  using invalid by (auto simp: Tx_Begin_def GetVersion_def GetNative_def Let_def db_ok_def conn_ok_def split: option.splits)

end

text \<open>A reference: a counter of the values that were enabled.\<close>

definition ref_versions :: "(nat \<times> 'h option, nat, 'h) version_ops" where
  "ref_versions = \<lparr>ver_enable = (\<lambda>v h. (Suc (fst v), Some h)), ver_disable = (\<lambda>v. (fst v, None)), ver_get = snd, ver_number = fst,
     ver_none = 0, ver_valid = (\<lambda>n. n \<noteq> 0), ver_equal = (=)\<rparr>"

interpretation ref_db: versions ref_versions "\<lambda>v. {1 .. fst v}"
  by unfold_locales (auto simp: ref_versions_def atLeastAtMostSuc_conv)

subsection \<open>Properties\<close>

text \<open>
  C5: A client of the database keeps the protocol of the server. Whatever sequence of ticks, executions, transactions and
  clean-ups is run on a connection up to a failed assertion, with any number of statements and transactions: there is one
  session at a time, a statement is executed only in the session it was prepared in and closed once, commits and
  rollbacks go to the session, and exactly the statements that are held are open at the server. As long as no execution
  loses the server behind a stored result without rows, no result is freed after its statement is closed. As long as
  the caller has one transaction at a time and commits none twice, commits and rollbacks go to an open transaction, and
  autocommit is off exactly while a transaction of the session is open, so that none is left open. No assertion fails in
  a tick or in the constructor or destructor of a transaction; a commit fails its assertion exactly for a transaction
  that was begun without a session.
\<close>

theorem db_protocol:
  assumes "versions V past" "db_empty V d0" "db_reach V diff d0 tr d one kept"
  shows "\<exists>w. db_run tr no_session = Some w \<and> Session w = session_of V (Conn d) \<and>
    (\<forall>n. Stmts w n \<noteq> None \<longleftrightarrow> (\<exists>i. Native (Statements d i) = Some n)) \<and>
    (kept \<longrightarrow> \<not> FreedLate w) \<and>
    (one \<longrightarrow> \<not> Stray w \<and> (\<not> Disconnected (Conn d) \<longrightarrow> (AutocommitOn w \<longleftrightarrow> \<not> tx_open V d))) \<and>
    (\<forall>NowMS r lost. Conn_Tick V diff NowMS r lost (Conn d) \<noteq> None) \<and>
    (\<exists>out T. Tx_Begin V (Conn d) = Some (out, T) \<and> (ver_valid V (TxVersion T) \<longleftrightarrow> \<not> Disconnected (Conn d))) \<and>
    (\<forall>t T. Txs d t = Some T \<longrightarrow> Tx_End V (Conn d) T \<noteq> None \<and>
      (\<forall>sent. Tx_Commit V sent (Conn d) T = None \<longleftrightarrow> \<not> ver_valid V (TxVersion T)))"
proof -
  obtain w where w: "db_run tr no_session = Some w" "db_ok V past one kept w d" using versions.reach_ok [OF assms(1,3,2)] by blast
  have st: "stmts_ok V (past (NativeHandle (Conn d))) (Stmts w) (Statements d)" using w(2) by (simp add: db_ok_def)
  have "Stmts w n \<noteq> None \<longleftrightarrow> (\<exists>i. Native (Statements d i) = Some n)" for n
    using stmts_okD(1) [OF st, of _ n] stmts_okD(3) [OF st, of n] by auto
  moreover have "Session w = session_of V (Conn d)" "kept \<longrightarrow> \<not> FreedLate w"
      "one \<longrightarrow> \<not> Stray w \<and> (\<not> Disconnected (Conn d) \<longrightarrow> (AutocommitOn w \<longleftrightarrow> \<not> tx_open V d))"
    using w(2) by (simp_all add: db_ok_def)
  ultimately show ?thesis
    using w(1) versions.tick_total [OF assms(1) w(2)] versions.end_total [OF assms(1) w(2)] versions.commit_fails [OF assms(1) w(2)]
      versions.begun_valid [OF assms(1) w(2)]
    by (intro exI [of _ w] conjI allI impI) blast+
qed

definition demo_conn :: "(nat \<times> nat option) xMySqlConn" where
  "demo_conn = \<lparr>Disconnected = True, NativeHandle = (0, None), ConnNowMS = 0, LastTimestampMS = 0\<rparr>"

definition demo_client :: "(unit, unit, nat \<times> nat option, nat, nat) client" where
  "demo_client = \<lparr>Conn = demo_conn,
     Statements = (\<lambda>_. \<lparr>ConnVersion = 0, Query = [], Native = None, LastInsertId = 0, LastResultRows = 0, LastAffectedRows = 0\<rparr>),
     Txs = Map.empty\<rparr>"

definition demo_execution :: execution where
  "demo_execution = \<lparr>ex_ok = True, ex_stored = True, ex_insert_id = 3, ex_rows = 0, ex_affected = 1, ex_fetched = [],
     ex_lost = False, ex_close_failed = False\<rparr>"

text \<open>Connect, begin a transaction, insert a row and leave without a commit.\<close>

theorem db_protocol_witness:
  "\<exists>w. db_run [Connected (1 :: nat) (5 :: nat), Ping 5, Autocommit 5 False, Prepared 5 (7 :: nat), Executed 7, ResultFreed 7,
       RollbackSent 5, Autocommit 5 True] no_session = Some w \<and> AutocommitOn w \<and> Stmts w 7 \<noteq> None \<and> Session w = Some (1, 5)"
proof -
  let ?V = "ref_versions :: (nat \<times> nat option, nat, nat) version_ops"
  let ?diff = "\<lambda>x y. sint (x - y :: u64)"
  let ?c = "\<lparr>Disconnected = False, NativeHandle = (1, Some 5), ConnNowMS = 600000, LastTimestampMS = 600000\<rparr> :: (nat \<times> nat option) xMySqlConn"
  let ?T = "\<lparr>TxVersion = 1, Commited = False\<rparr> :: nat xMySqlTransaction"
  let ?q = "(\<lparr>ConnVersion = 1, Query = [], Native = Some 7, LastInsertId = 3, LastResultRows = 0, LastAffectedRows = 1\<rparr>, ?c)"
  have e: "db_empty ?V demo_client" by (simp add: db_empty_def demo_client_def demo_conn_def ref_versions_def)
  have 1: "Conn_Tick ?V ?diff 600000 (Some 5) False (Conn demo_client) = Some ([Connected 1 5, Ping 5] :: (nat, nat, nat) db_action list, ?c)" by code_simp
  have 2: "Tx_Begin ?V ?c = Some ([Autocommit 5 False] :: (nat, nat, nat) db_action list, ?T)" by code_simp
  let ?d1 = "demo_client\<lparr>Conn := ?c\<rparr>"
  let ?d2 = "?d1\<lparr>Txs := (Txs ?d1)(() \<mapsto> ?T)\<rparr>"
  let ?d3 = "set_stmt () ?q ?d2"
  let ?t3 = "(([] @ [Connected 1 5, Ping 5]) @ [Autocommit 5 False]) @ [Prepared 5 7, Executed 7, ResultFreed 7]"
  have 3: "Stmt_Execute ?V True False (Prepare 7) demo_execution (Statements ?d2 (), Conn ?d2) =
      Some ((True, 0), [Prepared 5 7, Executed 7, ResultFreed 7] :: (nat, nat, nat) db_action list, ?q)" by code_simp
  have 4: "Tx_End ?V ?c ?T = Some ([RollbackSent 5, Autocommit 5 True] :: (nat, nat, nat) db_action list)" by code_simp
  have "db_reach ?V ?diff demo_client ([] @ [Connected 1 5, Ping 5]) ?d1 True True"
    by (rule db_reach.tick [OF db_reach.start 1])
  then have "db_reach ?V ?diff demo_client (([] @ [Connected 1 5, Ping 5]) @ [Autocommit 5 False]) ?d2 (True \<and> Txs ?d1 = Map.empty) True"
    by (rule db_reach.begin_tx) (use 2 in \<open>simp_all add: demo_client_def\<close>)
  from db_reach.execute [OF this 3]
  have "db_reach ?V ?diff demo_client ?t3 ?d3 (True \<and> Txs ?d1 = Map.empty) (True \<and> kept_execution demo_execution)"
    by (simp add: fair_prepare_def)
  from db_reach.end_tx [OF this, of "()" ?T "[RollbackSent 5, Autocommit 5 True]"] 4
  have r: "db_reach ?V ?diff demo_client (?t3 @ [RollbackSent 5, Autocommit 5 True]) (?d3\<lparr>Txs := (Txs ?d3)(() := None)\<rparr>)
      (True \<and> Txs ?d1 = Map.empty) (True \<and> kept_execution demo_execution)" by simp
  have "True \<and> Txs ?d1 = Map.empty" by (simp add: demo_client_def)
  then show ?thesis using db_protocol [OF ref_db.versions_axioms e r]
    by (auto simp: tx_open_def session_of_def ref_versions_def simp del: db_run.simps)
qed

text \<open>
  Why one transaction at a time: of two that overlap on a session, the first to end switches autocommit on, and the
  rollback of the second comes too late. A second commit of a transaction is no better.
\<close>

lemma overlapping_transactions_stray:
  assumes "Tx_Begin V c = Some (out, T)" "GetNative V c = Some (Some h)" "ver_valid V (GetVersion V c)"
    "ver_equal V (GetVersion V c) (GetVersion V c)" "in_session w h"
  shows "\<exists>out' u. Tx_End V c T = Some out' \<and> db_run (out @ out @ out' @ out') w = Some u \<and> Stray u"
    and "\<exists>b out' T' b' out'' T'' u. Tx_Commit V sent c T = Some (b, out', T') \<and> Tx_Commit V sent' c T' = Some (b', out'', T'') \<and>
      db_run (out @ out' @ out'') w = Some u \<and> Stray u"
  using assms by (auto simp: Tx_Begin_def Tx_End_def Tx_Commit_def Let_def in_session_def)

text \<open>
  A statement that is cleaned and initialised again keeps the version of the connection: its next execution takes the
  missing statement for an open one and fails its assertion.
\<close>

lemma reused_statement_fails:
  assumes "versions V past" "Native st = Some n" "ver_valid V (ConnVersion st)" "ConnVersion st = GetVersion V c"
    and "Stmt_Clean False (st, c) = Some (out, q)"
  shows "Stmt_Execute V outs failed p e (Stmt_Init Q (fst q), snd q) = None"
  using assms versions.equal [OF assms(1)]
  by (auto simp: Stmt_Clean_def TestAndClose_def Stmt_Close_def Stmt_Init_def Stmt_Execute_def CheckReonnection_def
      InternalBindAndExecute_def Let_def)

text \<open>When the server is lost behind a stored result, the result is freed after the statement it belongs to is closed.\<close>

lemma freed_after_close:
  assumes "Native st = Some n" "\<not> kept_execution e"
  shows "\<exists>q. InternalBindAndExecute outs e (st, c) = Some ((False, 0), [Executed n, StmtClosed n, ResultFreed n], q) \<and>
    (\<forall>w u. db_run [Executed n, StmtClosed n, ResultFreed n] w = Some u \<longrightarrow> FreedLate u)"
  using assms by (auto simp: InternalBindAndExecute_def ProcessServerLostError_def Stmt_Close_def Let_def kept_execution_def
      split: if_splits)

text \<open>The library is initialised as long as a connection is.\<close>

lemma library_up:
  "GlobalInit failed (n, up) = Some g \<Longrightarrow> n < 2 ^ 64 - 1 \<Longrightarrow> (up \<longleftrightarrow> n \<noteq> 0) \<Longrightarrow> g = (n + 1, True) \<and> GlobalClean g = (n, up)"
  by (auto simp: GlobalInit_def GlobalClean_def split: if_splits)

end
