(* ===== verification/RelayConfig.thy ===== *)
theory RelayConfig
  imports ConfigCenter
begin

text \<open>
  The file of relay servers of the configuration centre (\<^verbatim>\<open>LoadForcedRelayerServers\<close>, \<^verbatim>\<open>server_config_center/_config.cpp\<close>).
  The lines of the file are an input; splitting, trimming and the parser of addresses are parameters. \<open>None\<close> is a failed
  assertion or a read behind the end of the fields.
\<close>

record 'a text_lib =
  tl_split :: "bytes \<Rightarrow> bytes list" \<comment> \<open>\<^verbatim>\<open>Split(Line, ",")\<close>\<close>
  tl_trim :: "bytes \<Rightarrow> bytes"
  tl_parse :: "bytes \<Rightarrow> 'a" \<comment> \<open>\<^verbatim>\<open>xNetAddress::Parse\<close>\<close>
  tl_none :: 'a \<comment> \<open>\<^verbatim>\<open>xNetAddress()\<close>\<close>
  tl_usable :: "'a \<Rightarrow> bool" \<comment> \<open>an address with a port\<close>

text \<open>\<^verbatim>\<open>TL[0][0]\<close> is the terminating zero when the first field is empty.\<close>

definition comment_line :: "bytes list \<Rightarrow> bool" where
  "comment_line TL \<longleftrightarrow> (case TL of [] \<Rightarrow> True | [] # _ \<Rightarrow> False | (c # _) # _ \<Rightarrow> c = 35)"

definition load_line :: "'a text_lib \<Rightarrow> bytes \<Rightarrow> 'a xCC_RelayServerBase list \<Rightarrow> 'a xCC_RelayServerBase list option" where
  "load_line T Line ForceRelayServerList =
     (let TL = map (tl_trim T) (tl_split T Line) in
      if comment_line TL then Some ForceRelayServerList
      else if length TL < 2 then None
      else
        let CtrlAddress = tl_parse T (TL ! 0); DataAddress = tl_parse T (TL ! 1) in
        if tl_usable T CtrlAddress \<and> tl_usable T DataAddress
        then Some (ForceRelayServerList @ [\<lparr>Key = 0, CtrlAddress = CtrlAddress, DataAddress = DataAddress, PAAddress = tl_none T\<rparr>])
        else None)"

fun load_lines :: "'a text_lib \<Rightarrow> bytes list \<Rightarrow> 'a xCC_RelayServerBase list \<Rightarrow> 'a xCC_RelayServerBase list option" where
  "load_lines T [] servers = Some servers"
| "load_lines T (Line # Contents) servers = Option.bind (load_line T Line servers) (load_lines T Contents)"

definition LoadForcedRelayerServers :: "'a text_lib \<Rightarrow> bytes \<Rightarrow> bytes list \<Rightarrow> 'a xCC_RelayServerBase list \<Rightarrow>
    'a xCC_RelayServerBase list option" where
  "LoadForcedRelayerServers T File Contents servers = (if File = [] then Some servers else load_lines T Contents servers)"

text \<open>A line that is not a comment, and the server it stands for.\<close>

definition fields :: "'a text_lib \<Rightarrow> bytes \<Rightarrow> bytes list" where
  "fields T Line = map (tl_trim T) (tl_split T Line)"

definition server_line :: "'a text_lib \<Rightarrow> bytes \<Rightarrow> bool" where
  "server_line T Line \<longleftrightarrow> 2 \<le> length (fields T Line) \<and>
     tl_usable T (tl_parse T (fields T Line ! 0)) \<and> tl_usable T (tl_parse T (fields T Line ! 1))"

definition line_server :: "'a text_lib \<Rightarrow> bytes \<Rightarrow> 'a xCC_RelayServerBase" where
  "line_server T Line = 
     \<lparr>Key = 0, CtrlAddress = tl_parse T (fields T Line ! 0), DataAddress = tl_parse T (fields T Line ! 1), PAAddress = tl_none T\<rparr>"

text \<open>The servers are those of the lines that are not comments, in their order; one line that is not complete stops the process.\<close>

lemma forced_servers_loaded:
  "load_lines T Contents servers =
    (let ls = filter (\<lambda>L. \<not> comment_line (fields T L)) Contents in
     if \<forall>L \<in> set ls. server_line T L then Some (servers @ map (line_server T) ls) else None)"
proof (induction Contents arbitrary: servers)
  case (Cons L Ls)
  show ?case
  proof (cases "comment_line (fields T L)")
    case True
    then have "load_line T L servers = Some servers" by (simp add: load_line_def fields_def Let_def)
    then show ?thesis using Cons True by simp
  next
    case False
    then have "load_line T L servers = (if server_line T L then Some (servers @ [line_server T L]) else None)"
      by (auto simp: load_line_def server_line_def line_server_def fields_def Let_def)
    then show ?thesis using Cons False by (auto simp: Let_def)
  qed
qed simp

text \<open>An empty line gives one empty field and stops the process, if splitting it does so.\<close>

lemma empty_line_stops:
  "tl_split T [] = [[]] \<Longrightarrow> tl_trim T [] = [] \<Longrightarrow> load_lines T ([] # Ls) servers = None"
  by (simp add: load_line_def comment_line_def)

end
