(* ===== verification/Spec2Isabelle.thy ===== *)
theory Spec2Isabelle
  imports Prelude Xel XelReference Common RequestIdPool RelayMessages ServiceMessages ReportMessages
    Commands ServerId LowerBound ServerList ServerListService ServerListClient ClientConnection
    ClientSession ClientRequests ClientManager AuthCache LinkLists DeviceRelay RelayLinks RelayServer
    RelayPath DeviceSelector DeviceIndex DeviceOnline HashPool PacketStream BackendConnection BackendSession Crypto Protocol
    RelayClients ProxiedSession ServiceRegistration ConfigCenter DeviceObserver RelayGroups AuthService
    CacheManager PyFormat GeoIp ServiceSupport Database DatabaseProtocol RelayConfig
begin

text \<open>
  A verification development of the proxy platform in \<^verbatim>\<open>src/cpp\<close>: clients speak Socks5 or HTTP to
  the proxy access server, which authenticates them, has a device selected for them and passes their
  data over a device relay server to that device; further servers hand out server ids, keep the lists
  of the running servers, answer the challenges of devices and know the devices that are online.

  \<^bold>\<open>The parts of the program and their theories.\<close>
  \<^item> Shared ground. Prelude holds the loop \<open>pop_loop\<close> (the program's \<^verbatim>\<open>while (auto P = List.PopHead(...))\<close>),
    sorted lists and the type synonyms \<open>u16\<close>, \<open>u32\<close>, \<open>u64\<close>, \<open>bytes\<close>. Xel states the interface of the \<^verbatim>\<open>xel\<close> library,
    which is not under \<^verbatim>\<open>src/\<close>: pools of slots named by ids (\<open>indexed_storage\<close>), intrusive lists
    (\<open>hooked_lists\<close>) and the primitive encodings (\<open>wire_codec\<close>). Every definition that calls the
    library takes its operations as an argument; XelReference implements and interprets the
    interface. LowerBound is \<^verbatim>\<open>std::lower_bound\<close>. Common holds the helpers of \<^verbatim>\<open>pp_common\<close>, GeoIp its
    \<^verbatim>\<open>ipdb/Ipdb.cpp\<close> (the region of an address). PacketStream is the loop of every connection class over the
    packets it receives.
  \<^item> \<^verbatim>\<open>src_lib_protocol/pp_protocol\<close>: RelayMessages, ServiceMessages and ReportMessages have a record, a
    writer and a reader per message, Commands the command ids of \<^verbatim>\<open>command.hpp\<close>. A reader returns the
    bytes behind the message; a writer that can fail an assertion returns an option. Protocol has the round
    trips, Crypto the encryption of \<^verbatim>\<open>crypto.cpp\<close>.
  \<^item> RequestIdPool: \<^verbatim>\<open>request_id_pool.hpp\<close>, the pool of pending requests.
  \<^item> ServerId: \<^verbatim>\<open>lib_server_util/server_id_manager.cpp\<close> and the server id centre that uses it
    (\<^verbatim>\<open>server_server_id_center/_main.cpp\<close>), as a step relation over any interleaving of its connections.
  \<^item> ServerList (\<^verbatim>\<open>server_server_list/server_list_manager.cpp\<close>), ServerListService (its \<^verbatim>\<open>_main.cpp\<close> and
    \<^verbatim>\<open>backend_server_manager.cpp\<close>) and ServerListClient (\<^verbatim>\<open>lib_server_util/extra/*_client.cpp\<close>): registration,
    publication and download of the server lists. ServiceRegistration joins them with
    \<^verbatim>\<open>server_id_client.cpp\<close> and the \<^verbatim>\<open>register_server_client.cpp\<close> of three servers: how a service gets its id
    and registers with it.
  \<^item> The proxy access server, \<^verbatim>\<open>server_proxy_access\<close>: ClientConnection translates every handler of
    \<^verbatim>\<open>client_connection_manager.cpp\<close> as a function from a connection to the connection and the actions it asks
    for; ClientSession gives the abstract session it implements and the properties of its runs;
    ClientRequests the parsing of requests and headers; ClientManager the pool, the lists and the tick
    around the connections; AuthCache \<^verbatim>\<open>client_auth_cache_manager.cpp\<close>.
  \<^item> The device relay server, \<^verbatim>\<open>server_relay_device\<close>: DeviceRelay translates its four managers and all
    packet handlers; LinkLists is the theory of a connection manager with three lists, of which both
    managers are instances (RelayLinks); RelayServer has the events, the reachable states and
    what all of them keep; RelayPath the properties.
  \<^item> Two servers together: RelayClients (\<^verbatim>\<open>test_relay_connection_manager.cpp\<close>) is how the proxy access server
    reaches the relay servers, ProxiedSession joins its manager with a device relay server by the two packet
    queues of one connection. RelayGroups is \<^verbatim>\<open>relay_connection_manager.cpp\<close>, a second manager of relay
    connections that runs beside it.
  \<^item> Devices: DeviceSelector translates \<^verbatim>\<open>server_device_selector\<close>, \<^verbatim>\<open>server_device_state_relay\<close> and the
    proxy access server's \<^verbatim>\<open>device_selector_manager.cpp\<close>, DeviceIndex has the registry that the selector
    implements, DeviceOnline the way of a device through all of them; DeviceObserver is \<^verbatim>\<open>observer_device_info\<close>.
  \<^item> ConfigCenter: \<^verbatim>\<open>server_config_center\<close> (challenges, registry of the relay servers) with the client
    \<^verbatim>\<open>relay_server_list_manager.cpp\<close>; RelayConfig its file of relay servers.
  \<^item> Connections of services: HashPool (\<^verbatim>\<open>service_client_hash_pool.cpp\<close>); BackendConnection translates
    \<^verbatim>\<open>lib_backend_connection\<close>, BackendSession has its protocol on the wire.
  \<^item> AuthService: \<^verbatim>\<open>lib_server_util/auth_cache\<close>, the unfinished \<^verbatim>\<open>server_auth_cache/auth_service.cpp\<close> and
    \<^verbatim>\<open>fake_auth_service\<close>, which answers the proxy access server in its place.
  \<^item> The rest of \<^verbatim>\<open>lib_server_util\<close>: CacheManager (\<^verbatim>\<open>cache_manager.cpp\<close>), PyFormat (\<^verbatim>\<open>py_format.cpp\<close>),
    ServiceSupport (the request contexts of \<^verbatim>\<open>service_common.cpp\<close> and \<^verbatim>\<open>collectable_error_printer.cpp\<close>).
  \<^item> \<^verbatim>\<open>src_lib_db\<close>: Database translates the MySQL connection, its statements and transactions, DatabaseProtocol
    has what the server may expect of them.

  \<^bold>\<open>How the code is modelled.\<close> A class is a record of its members, a pool or list member a state of the
  library's interface, an object in a pool is named by its id. Handlers pass the state; what they send or ask of
  others is a list of outputs or actions. A raise, a failed assertion and a read of freed or
  foreign memory are values (\<open>Inl\<close>, \<open>None\<close>, or a fault the theorem names). Machine integers are words of their width, so
  \<open>now - timeout\<close> wraps below zero as it does in the code. A loop is structural recursion, or
  \<open>pop_loop\<close> or another \<open>partial_function (option)\<close> whose \<open>None\<close> is a loop that does not end; that it ends is then a
  theorem. There is no fuel. The time is an input of every tick, random numbers are an input of the
  server id manager.

  \<^bold>\<open>Interfaces.\<close> Beside those of the library, the locales are
  \<^item> \<open>message_codec\<close>, a writer and a reader that undo each other, and \<open>packet_format\<close>, a parser of packet headers;
  \<^item> \<open>id_manager\<close> (ids that are acquired and released) and \<open>versions\<close> (the library's numbered handles);
  \<^item> \<open>server_registry\<close>, the three registries of the server list as one;
  \<^item> \<open>link_manager\<close> and \<open>client_session\<close>, what the operations of a connection manager do to its lists and what the
    handlers of a connection keep;
  \<^item> the library operations that a component is built on: \<open>request_pool_env\<close>, \<open>client_manager_env\<close>,
    \<open>auth_cache_env\<close>, \<open>relay_env\<close>, \<open>selector_env\<close>, \<open>hash_pool_env\<close>, \<open>relay_registry_env\<close>, \<open>observer_env\<close>,
    \<open>rg_env\<close>, \<open>ac_env\<close>, \<open>cm_env\<close>, \<open>context_pool_env\<close>.

  Each is interpreted on the model's own definitions; the properties are stated outside the locales, for any library
  that meets the contract, and each has a witness on the reference implementation.

  \<^bold>\<open>What the lemmas show.\<close>
  \<^item> Each server has an invariant of all its reachable states (\<open>centre_ids_unique\<close>, \<open>register_service_invariant\<close>,
    \<open>manager_invariant\<close>, \<open>auth_cache_invariant\<close>, \<open>relay_links_invariant\<close>, \<open>relay_groups_tick\<close>), its ticks end, and it is
    stated what exactly they drop (\<open>manager_tick\<close>, \<open>auth_tick\<close>, \<open>relay_ticks\<close>, \<open>request_contexts\<close>). The server list
    keeps its invariant in every run of events up to the close of a connection whose context pointer is not valid any
    more, where the model, like the code, has no next state.
  \<^item> Components implement abstract ones: the handlers of a client connection an abstract session
    (\<open>handlers_refine_session\<close>), the selector a registry with round robin (\<open>selector_refines\<close>), the backend and the database
    connection a protocol (\<open>backend_protocol\<close>, \<open>db_protocol\<close>), the registry of the configuration centre a queue
    (\<open>relay_registry\<close>), the hash pool and the pool of pending requests a map (\<open>update_and_tick\<close>, \<open>request_pool_refines\<close>).
    The runs of the database connection are arbitrary, transactions that overlap and a lost server included;
    \<open>db_protocol\<close> says which parts of the protocol need one transaction at a time, or a server that is not lost behind a
    stored result.
  \<^item> A client gets a relay connection only after a positive authentication (\<open>no_relay_before_auth\<close>), every byte is
    counted (\<open>traffic_accounted\<close>), and no client gets a result that the service has not sent (\<open>auth_answers\<close>).
  \<^item> What is written is read back: the messages (with the exceptions that \<open>service_messages_round_trip\<close> states), server
    ids, encrypted data, lists of strings.
  \<^item> \<open>handler_fails_iff\<close> says when a handler of a client connection has no defined result, the port of a \<^verbatim>\<open>CONNECT\<close> line
    at the end of the data, where \<^verbatim>\<open>atoi\<close> reads on, included.
  \<^item> Servers work together: a session to a numeric address opens and streams both ways through two servers
    (\<open>session_opens\<close>, \<open>session_streams\<close>), where the packet buffer holds a payload of \<open>MAX_PAYLOAD_SIZE\<close> with its header
    (\<open>packets_fit\<close>) and a longer payload is lost on the way (\<open>oversized_payload_lost\<close>), a service registers
    (\<open>service_registers\<close>; one that is registered already is refused, \<open>duplicate_refused\<close>), a device comes online (\<open>device_online\<close>), devices share the
    relay servers (\<open>devices_share_relays\<close>), a client is authenticated (\<open>client_authenticated\<close>), a list is downloaded
    (\<open>download_delivers\<close>).
  \<^item> Where the code leaves its own intention, a lemma shows it: a server list that keeps removed servers, a close that
    removes the server of another connection, a relay server that reads a freed connection, a reconnect without the key,
    an authentication service that never answers, a statement that cannot be used again.

  \<^bold>\<open>Not modelled.\<close> The event loop, sockets and timers (library); \<^verbatim>\<open>main\<close> functions, globals, the environment of a
  process and the loading of configuration keys (I/O and start-up); logging, debug prints and \<^verbatim>\<open>_local_audit\<close> (printed
  counters); the binding of SQL values (\<^verbatim>\<open>mysql_core_bind\<close>) and the Kafka producer, which only hand data to their
  libraries; the JSON messages for the backend, which no server uses; \<^verbatim>\<open>local_auth_cache\<close>, the UDP sockets of clients,
  \<^verbatim>\<open>challenge.cpp\<close> and \<^verbatim>\<open>relay_server_service.cpp\<close> of the configuration centre, which declare state without operations;
  the ticks of request contexts and backend connections next to the cache in the authentication service; the opening
  of the address database; the vendored \<^verbatim>\<open>IP2Location\<close>, \<^verbatim>\<open>nlohmann\<close> and \<^verbatim>\<open>rapidcsv\<close> sources, and the test programs.
\<close>

end
